(* ===== verification/JsPrelude.thy ===== *)
theory JsPrelude
  imports Complex_Main "HOL-Library.AList" "HOL-Library.Sublist"
begin

text \<open>
  Prelude of the library: the JavaScript values, strings and containers the workspace code
  is written with.

  \<^item> \<open>jsval\<close> is a dynamically typed value (\<open>unknown\<close> in the TypeScript sources): what
    \<open>JSON.parse\<close> yields plus \<open>undefined\<close>. Objects keep their property order. A number is
    the exact decimal it denotes; the three non-finite numbers are values of their own.
  \<^item> A JavaScript string is a list of UTF-16 code units; \<open>string\<close> holds the code units
    below 256, and the code searches for ASCII text only. A larger code unit in a
    literal shown to the user (an ellipsis, a dash) is written as its Windows-1252 byte, one
    code unit again.
  \<^item> \<open>own_or_proto\<close> is a lookup \<open>table[key]\<close> in an object literal: beside the
    literal's own keys every name of \<open>Object.prototype\<close> answers too.
  \<^item> A \<open>Map\<close> is an association list in insertion order; \<open>AList.update\<close> is its
    \<open>set\<close> (in place for a known key, at the end for a new one).
\<close>

section \<open>Values\<close>

datatype jsnum = Fin rat | PosInf | NegInf | NaN

datatype jsval =
    JUndef
  | JNull
  | JBool bool
  | JNum jsnum
  | JStr string
  | JArr "jsval list"
  | JObj "(string \<times> jsval) list"
  | JProto string

text \<open>\<open>JProto k\<close> is the value an object literal inherits from \<open>Object.prototype\<close> under the
  name \<open>k\<close>: a function, or the prototype object itself for \<open>__proto__\<close>. It is truthy and it
  is not a string.\<close>

type_synonym jsobj = "(string \<times> jsval) list"

fun truthy :: "jsval \<Rightarrow> bool" where
  "truthy JUndef = False"
| "truthy JNull = False"
| "truthy (JBool b) = b"
| "truthy (JNum n) = (n \<noteq> NaN \<and> n \<noteq> Fin 0)"
| "truthy (JStr s) = (s \<noteq> [])"
| "truthy _ = True"

definition js_or :: "jsval \<Rightarrow> jsval \<Rightarrow> jsval" where
  "js_or a b = (if truthy a then a else b)"

fun nullish :: "jsval \<Rightarrow> bool" where
  "nullish JUndef = True"
| "nullish JNull = True"
| "nullish _ = False"

definition js_coalesce :: "jsval \<Rightarrow> jsval \<Rightarrow> jsval" where
  "js_coalesce a b = (if nullish a then b else a)"

definition jget :: "jsobj \<Rightarrow> string \<Rightarrow> jsval" where
  "jget obj k = (case map_of obj k of None \<Rightarrow> JUndef | Some v \<Rightarrow> v)"

fun is_str :: "jsval \<Rightarrow> bool" where
  "is_str (JStr _) = True"
| "is_str _ = False"

fun is_record :: "jsval \<Rightarrow> bool" where
  "is_record (JObj _) = True"
| "is_record _ = False"

text \<open>The text of a value that is known to be a string, the empty one otherwise.\<close>

fun text_of :: "jsval \<Rightarrow> string" where
  "text_of (JStr s) = s"
| "text_of _ = []"

fun opt_str :: "jsval \<Rightarrow> string option" where
  "opt_str (JStr s) = Some s"
| "opt_str _ = None"

text \<open>The optional string of a TypeScript field \<open>x?: string\<close> is an \<open>option\<close>; \<open>or_text\<close>
  is \<open>x || d\<close> on it.\<close>

definition or_text :: "string option \<Rightarrow> string \<Rightarrow> string" where
  "or_text x d = (case x of None \<Rightarrow> d | Some s \<Rightarrow> if s = [] then d else s)"

definition truthy_text :: "string option \<Rightarrow> bool" where
  "truthy_text x = (case x of None \<Rightarrow> False | Some s \<Rightarrow> s \<noteq> [])"

section \<open>Strings\<close>

definition starts_with :: "string \<Rightarrow> string \<Rightarrow> bool" where
  "starts_with p s = (take (length p) s = p)"

definition ends_with :: "string \<Rightarrow> string \<Rightarrow> bool" where
  "ends_with p s = starts_with (rev p) (rev s)"

fun contains :: "string \<Rightarrow> string \<Rightarrow> bool" where
  "contains p [] = (p = [])"
| "contains p (c # s) = (starts_with p (c # s) \<or> contains p s)"

text \<open>\<open>s.replaceAll(c, d)\<close> and \<open>s.split(c)\<close> for a one-character \<open>c\<close>, \<open>xs.join(sep)\<close>.\<close>

definition replace_char :: "char \<Rightarrow> char \<Rightarrow> string \<Rightarrow> string" where
  "replace_char c d s = map (\<lambda>x. if x = c then d else x) s"

fun split_on :: "char \<Rightarrow> string \<Rightarrow> string list" where
  "split_on c [] = [[]]"
| "split_on c (x # xs) =
     (if x = c then [] # split_on c xs
      else case split_on c xs of [] \<Rightarrow> [[x]] | w # ws \<Rightarrow> (x # w) # ws)"

fun join_with :: "string \<Rightarrow> string list \<Rightarrow> string" where
  "join_with sep [] = []"
| "join_with sep [w] = w"
| "join_with sep (w # ws) = w @ sep @ join_with sep ws"

text \<open>White space as \<open>trim\<close> and \<open>\s\<close> take it, restricted to code units below 256.\<close>

definition is_space :: "char \<Rightarrow> bool" where
  "is_space c = (let n = of_char c :: nat in (9 \<le> n \<and> n \<le> 13) \<or> n = 32 \<or> n = 160)"

definition trim :: "string \<Rightarrow> string" where
  "trim s = rev (dropWhile is_space (rev (dropWhile is_space s)))"

text \<open>\<open>split(/\s+/).filter(Boolean)\<close>.\<close>

fun words_from :: "string \<Rightarrow> string \<Rightarrow> string list" where
  "words_from w [] = (if w = [] then [] else [w])"
| "words_from w (c # s) = (if is_space c then (if w = [] then [] else [w]) @ words_from [] s else words_from (w @ [c]) s)"

text \<open>\<open>toLowerCase\<close> and \<open>toUpperCase\<close> on code units below 256 whose image is again below
  256 and one unit long.\<close>

definition lower_char :: "char \<Rightarrow> char" where
  "lower_char c = (let n = of_char c :: nat in
     if (65 \<le> n \<and> n \<le> 90) \<or> (192 \<le> n \<and> n \<le> 222 \<and> n \<noteq> 215) then char_of (n + 32) else c)"

definition upper_char :: "char \<Rightarrow> char" where
  "upper_char c = (let n = of_char c :: nat in
     if (97 \<le> n \<and> n \<le> 122) \<or> (224 \<le> n \<and> n \<le> 254 \<and> n \<noteq> 247) then char_of (n - 32) else c)"

definition lower_text :: "string \<Rightarrow> string" where
  "lower_text s = map lower_char s"

definition upper_first :: "string \<Rightarrow> string" where
  "upper_first s = (case s of [] \<Rightarrow> [] | c # cs \<Rightarrow> upper_char c # cs)"

definition is_digit :: "char \<Rightarrow> bool" where
  "is_digit c = (let n = of_char c :: nat in 48 \<le> n \<and> n \<le> 57)"

definition is_alpha :: "char \<Rightarrow> bool" where
  "is_alpha c = (let n = of_char c :: nat in (65 \<le> n \<and> n \<le> 90) \<or> (97 \<le> n \<and> n \<le> 122))"

text \<open>\<open>\w\<close> of a regular expression.\<close>

definition is_word_char :: "char \<Rightarrow> bool" where
  "is_word_char c = (is_alpha c \<or> is_digit c \<or> c = CHR ''_'')"

text \<open>\<open>\<^const>\<open>nat\<close>\<close> numerals as decimal text, \<open>String(n)\<close> for an integer.\<close>

fun nat_text :: "nat \<Rightarrow> string" where
  "nat_text n = (if n < 10 then [char_of (48 + n)] else nat_text (n div 10) @ [char_of (48 + n mod 10)])"

declare nat_text.simps [simp del]

definition int_text :: "int \<Rightarrow> string" where
  "int_text i = (if i < 0 then CHR ''-'' # nat_text (nat (- i)) else nat_text (nat i))"

section \<open>Object literals used as tables\<close>

text \<open>The names every object literal answers to through \<open>Object.prototype\<close>.\<close>

definition object_prototype :: "string list" where
  "object_prototype =
     [''constructor'', ''__defineGetter__'', ''__defineSetter__'', ''hasOwnProperty'',
      ''__lookupGetter__'', ''__lookupSetter__'', ''isPrototypeOf'', ''propertyIsEnumerable'',
      ''toString'', ''valueOf'', ''__proto__'', ''toLocaleString'']"

text \<open>\<open>table[k]\<close> for a literal of strings, as a value.\<close>

definition own_or_proto :: "(string \<times> string) list \<Rightarrow> string \<Rightarrow> jsval" where
  "own_or_proto tbl k =
     (case map_of tbl k of
        Some v \<Rightarrow> JStr v
      | None \<Rightarrow> if k \<in> set object_prototype then JProto k else JUndef)"

section \<open>Errors\<close>

text \<open>An \<open>Error\<close> carries its message, an \<open>ApiError\<close> a status too.\<close>

datatype js_error = JsError string | ApiError jsval string

type_synonym 'a js_result = "js_error + 'a"

fun error_message :: "js_error \<Rightarrow> string" where
  "error_message (JsError m) = m"
| "error_message (ApiError _ m) = m"

definition js_int :: "int \<Rightarrow> jsval" where
  "js_int i = JNum (Fin (of_int i))"

definition api_error :: "int \<Rightarrow> string \<Rightarrow> js_error" where
  "api_error status msg = ApiError (js_int status) msg"

text \<open>\<open>error instanceof ApiError && error.status === n\<close>.\<close>

fun has_status :: "int \<Rightarrow> js_error \<Rightarrow> bool" where
  "has_status n (ApiError s _) = (s = js_int n)"
| "has_status n (JsError _) = False"

fun is_api_error :: "js_error \<Rightarrow> bool" where
  "is_api_error (ApiError _ _) = True"
| "is_api_error (JsError _) = False"

text \<open>\<open>String(error)\<close>; the class is written as that of a plain error.\<close>

definition error_text :: "js_error \<Rightarrow> string" where
  "error_text e = ''Error: '' @ error_message e"

lemma js_int_eq [simp]: "js_int a = js_int b \<longleftrightarrow> a = b"
  by (simp add: js_int_def)

lemma has_status_api_error [simp]: "has_status n (api_error m msg) \<longleftrightarrow> m = n"
  by (auto simp: api_error_def)

lemma error_message_api_error [simp]: "error_message (api_error m msg) = msg"
  by (simp add: api_error_def)

section \<open>Shared lemmas\<close>

lemma truthy_js_or [simp]: "truthy (js_or a b) \<longleftrightarrow> truthy a \<or> truthy b"
  by (simp add: js_or_def)

lemma starts_with_append [simp]: "starts_with p (p @ s)"
  by (simp add: starts_with_def)

lemma starts_with_iff: "starts_with p s \<longleftrightarrow> (\<exists>t. s = p @ t)"
  by (metis append_take_drop_id starts_with_append starts_with_def)

lemma starts_with_Cons [simp]:
  "starts_with (a # p) (b # s) \<longleftrightarrow> a = b \<and> starts_with p s"
  "starts_with (a # p) [] \<longleftrightarrow> False"
  "starts_with [] s"
  by (auto simp: starts_with_def)

lemma find_SomeD: "find P xs = Some x \<Longrightarrow> x \<in> set xs \<and> P x"
  by (induction xs) (auto split: if_splits)

lemma jget_Nil [simp]: "jget [] k = JUndef"
  by (simp add: jget_def)

lemma trim_keeps_front:
  assumes "dropWhile is_space u = u"
  shows "dropWhile is_space (rev (dropWhile is_space (rev u))) = rev (dropWhile is_space (rev u))"
proof (cases "rev (dropWhile is_space (rev u))")
  case Nil
  then show ?thesis by (simp only: dropWhile.simps)
next
  case (Cons c cs)
  then have u: "u \<noteq> []" by auto
  have "prefix (rev (dropWhile is_space (rev u))) u"
    using suffix_dropWhile [of is_space "rev u"] by (simp add: suffix_to_prefix)
  then have "c = hd u" using Cons u by (auto simp: prefix_def)
  moreover have "\<not> is_space (hd u)" using assms u by (metis dropWhile_eq_self_iff)
  ultimately show ?thesis using Cons by simp
qed

lemma trim_trim [simp]: "trim (trim t) = trim t"
  unfolding trim_def using trim_keeps_front [of "dropWhile is_space t"] by simp

lemma split_on_not_Nil [simp]: "split_on c s \<noteq> []"
  by (induction s) (auto split: list.splits)

lemma split_on_no_sep: "w \<in> set (split_on c s) \<Longrightarrow> c \<notin> set w"
proof (induction s arbitrary: w)
  case Nil
  then show ?case by simp
next
  case (Cons x xs)
  show ?case
  proof (cases "split_on c xs")
    case Nil
    then show ?thesis by simp
  next
    case (Cons v vs)
    with Cons.IH have "\<And>u. u \<in> set (v # vs) \<Longrightarrow> c \<notin> set u" by simp
    with Cons Cons.prems show ?thesis by (auto split: if_splits)
  qed
qed

lemma join_with_Cons: "ws \<noteq> [] \<Longrightarrow> join_with sep (w # ws) = w @ sep @ join_with sep ws"
  by (cases ws) auto

lemma split_on_Cons_other:
  "x \<noteq> c \<Longrightarrow> split_on c (x # xs) = (x # hd (split_on c xs)) # tl (split_on c xs)"
  by (cases "split_on c xs") auto

lemma split_on_append:
  "c \<notin> set w \<Longrightarrow> split_on c (w @ c # s) = w # split_on c s"
  by (induction w) (auto simp: split_on_Cons_other)

lemma split_on_single: "c \<notin> set w \<Longrightarrow> split_on c w = [w]"
  by (induction w) (auto simp: split_on_Cons_other)

text \<open>Splitting undoes joining when no part holds the separator, and joining undoes splitting.\<close>

lemma split_on_join_with:
  "ws \<noteq> [] \<Longrightarrow> (\<forall>w \<in> set ws. c \<notin> set w) \<Longrightarrow> split_on c (join_with [c] ws) = ws"
proof (induction ws)
  case Nil
  then show ?case by simp
next
  case (Cons w ws)
  then show ?case
    by (cases "ws = []") (auto simp: join_with_Cons split_on_append split_on_single)
qed

lemma join_with_split_on: "join_with [c] (split_on c s) = s"
proof (induction s)
  case Nil
  then show ?case by simp
next
  case (Cons x xs)
  obtain v vs where v: "split_on c xs = v # vs"
    by (cases "split_on c xs") auto
  with Cons.IH show ?case
    by (cases vs) auto
qed

lemma map_of_update_same [simp]: "map_of (AList.update k v m) k = Some v"
  by (simp add: update_conv')

lemma map_of_update_other [simp]: "k \<noteq> l \<Longrightarrow> map_of (AList.update k v m) l = map_of m l"
  by (simp add: update_conv')

text \<open>What every step of a loop keeps, the loop keeps.\<close>

lemma foldl_invariant:
  assumes "P s" and "\<And>s x. x \<in> set xs \<Longrightarrow> P s \<Longrightarrow> P (f s x)"
  shows "P (foldl f s xs)"
  using assms by (induction xs arbitrary: s) auto

lemma update_preserves_rows:
  assumes "\<forall>(l, r) \<in> set m. P l r" and "P k v"
  shows "\<forall>(l, r) \<in> set (AList.update k v m). P l r"
  using assms by (induction m) auto

section \<open>Grouping events by key\<close>

text \<open>The loop \<open>for (const e of events) { const r = m.get(key); if (r) update r; else m.set(key, new) }\<close>
  over an insertion-ordered \<open>Map\<close>. Events with no key are skipped.\<close>

definition group_step ::
  "('e \<Rightarrow> 'k option) \<Rightarrow> ('e \<Rightarrow> 'r) \<Rightarrow> ('e \<Rightarrow> 'r \<Rightarrow> 'r) \<Rightarrow> ('k \<times> 'r) list \<Rightarrow> 'e \<Rightarrow> ('k \<times> 'r) list" where
  "group_step key ins upd m e =
     (case key e of None \<Rightarrow> m
      | Some k \<Rightarrow> (case map_of m k of
           None \<Rightarrow> AList.update k (ins e) m
         | Some r \<Rightarrow> AList.update k (upd e r) m))"

definition group_events ::
  "('e \<Rightarrow> 'k option) \<Rightarrow> ('e \<Rightarrow> 'r) \<Rightarrow> ('e \<Rightarrow> 'r \<Rightarrow> 'r) \<Rightarrow> ('k \<times> 'r) list \<Rightarrow> 'e list \<Rightarrow> ('k \<times> 'r) list" where
  "group_events key ins upd m es = foldl (group_step key ins upd) m es"

text \<open>What the events of one key make of its row.\<close>

definition group_row ::
  "('e \<Rightarrow> 'r) \<Rightarrow> ('e \<Rightarrow> 'r \<Rightarrow> 'r) \<Rightarrow> 'r option \<Rightarrow> 'e list \<Rightarrow> 'r option" where
  "group_row ins upd r es =
     foldl (\<lambda>r e. Some (case r of None \<Rightarrow> ins e | Some x \<Rightarrow> upd e x)) r es"

lemma group_events_Nil [simp]: "group_events key ins upd m [] = m"
  by (simp add: group_events_def)

lemma group_events_Cons [simp]:
  "group_events key ins upd m (e # es) = group_events key ins upd (group_step key ins upd m e) es"
  by (simp add: group_events_def)

lemma group_events_append:
  "group_events key ins upd m (es @ fs) = group_events key ins upd (group_events key ins upd m es) fs"
  by (simp add: group_events_def)

lemma group_row_simps [simp]:
  "group_row ins upd r [] = r"
  "group_row ins upd r (e # es) =
     group_row ins upd (Some (case r of None \<Rightarrow> ins e | Some x \<Rightarrow> upd e x)) es"
  by (simp_all add: group_row_def)

lemma group_row_Some: "group_row ins upd (Some r) es = Some (foldl (\<lambda>r e. upd e r) r es)"
  by (induction es arbitrary: r) auto

lemma map_of_group_step:
  "map_of (group_step key ins upd m e) k =
     (if key e = Some k then Some (case map_of m k of None \<Rightarrow> ins e | Some x \<Rightarrow> upd e x)
      else map_of m k)"
  by (auto simp: group_step_def split: option.splits)

text \<open>Isolation: the row of a key is made from the events of that key alone, in their order.\<close>

lemma map_of_group_events:
  "map_of (group_events key ins upd m es) k =
     group_row ins upd (map_of m k) (filter (\<lambda>e. key e = Some k) es)"
  by (induction es arbitrary: m) (auto simp: map_of_group_step)

lemma fst_group_step:
  "fst ` set (group_step key ins upd m e) = fst ` set m \<union> set_option (key e)"
proof (cases "key e")
  case None
  then show ?thesis by (simp add: group_step_def)
next
  case (Some k)
  then show ?thesis
    by (auto simp: group_step_def dom_update split: option.splits)
qed

lemma keys_group_events:
  "fst ` set (group_events key ins upd m es) = fst ` set m \<union> {k. \<exists>e \<in> set es. key e = Some k}"
proof (induction es arbitrary: m)
  case Nil
  then show ?case by simp
next
  case (Cons e es)
  then show ?case by (cases "key e") (auto simp: fst_group_step)
qed

lemma distinct_group_step:
  "distinct (map fst m) \<Longrightarrow> distinct (map fst (group_step key ins upd m e))"
  by (auto simp: group_step_def distinct_update split: option.splits)

lemma distinct_group_events:
  "distinct (map fst m) \<Longrightarrow> distinct (map fst (group_events key ins upd m es))"
  by (induction es arbitrary: m) (auto simp: distinct_group_step)

text \<open>A property of rows that creation and update keep holds of every row.\<close>

lemma group_row_invariant:
  assumes "\<And>e. P (ins e)" and "\<And>e r. P r \<Longrightarrow> P (upd e r)"
    and "group_row ins upd r es = Some x" and "\<And>y. r = Some y \<Longrightarrow> P y"
  shows "P x"
  using assms(3,4)
proof (induction es arbitrary: r)
  case Nil
  then show ?case by simp
next
  case (Cons e es)
  show ?case
    by (rule Cons.IH) (use Cons.prems assms(1,2) in \<open>auto split: option.splits\<close>)
qed

lemma group_events_invariant:
  assumes "\<And>e k. key e = Some k \<Longrightarrow> P k (ins e)" and "\<And>e k r. key e = Some k \<Longrightarrow> P k r \<Longrightarrow> P k (upd e r)"
    and "\<forall>(k, r) \<in> set m. P k r" and "distinct (map fst m)"
    and "(k, x) \<in> set (group_events key ins upd m es)"
  shows "P k x"
  using assms(3-5)
proof (induction es arbitrary: m)
  case Nil
  then show ?case by auto
next
  case (Cons e es)
  let ?m = "group_step key ins upd m e"
  have d: "distinct (map fst ?m)" using Cons.prems(2) by (rule distinct_group_step)
  have "\<forall>(l, r) \<in> set ?m. P l r"
  proof clarify
    fix l r assume "(l, r) \<in> set ?m"
    with d have "map_of ?m l = Some r" by simp
    with Cons.prems(1,2) assms(1,2) show "P l r"
      by (auto simp: map_of_group_step split: if_splits option.splits dest: map_of_SomeD)
  qed
  then show ?case using d Cons.prems(3) by (auto intro: Cons.IH)
qed

text \<open>Order: the keys stand in the order of their first event.\<close>

definition first_seen :: "'k list \<Rightarrow> 'k list" where
  "first_seen ks = rev (remdups (rev ks))"

lemma first_seen_simps [simp]:
  "first_seen [] = []"
  "first_seen (ks @ [k]) = (if k \<in> set ks then first_seen ks else first_seen ks @ [k])"
  by (simp_all add: first_seen_def)

lemma set_first_seen [simp]: "set (first_seen ks) = set ks"
  by (simp add: first_seen_def)

lemma group_events_order:
  "map fst (group_events key ins upd [] es) = first_seen (List.map_filter key es)"
proof (induction es rule: rev_induct)
  case Nil
  then show ?case by (simp add: map_filter_simps)
next
  case (snoc e es)
  let ?m = "group_events key ins upd [] es"
  have mf: "List.map_filter key (es @ [e]) =
      List.map_filter key es @ (case key e of None \<Rightarrow> [] | Some k \<Rightarrow> [k])"
    by (induction es) (auto simp: map_filter_simps split: option.splits)
  have keys: "fst ` set ?m = set (List.map_filter key es)"
    using snoc.IH by (metis list.set_map set_first_seen)
  show ?case
  proof (cases "key e")
    case None
    then show ?thesis
      using snoc.IH mf by (simp add: group_events_append group_step_def)
  next
    case (Some k)
    have "k \<in> set (List.map_filter key es) \<longleftrightarrow> map_of ?m k \<noteq> None"
      using keys by (metis map_of_eq_None_iff)
    with Some snoc.IH mf keys show ?thesis
      by (auto simp: group_events_append group_step_def update_keys split: option.splits)
  qed
qed

lemma group_events_single:
  assumes "map_of (group_events key ins upd [] es) k = Some r"
  shows "group_events key ins upd [] (filter (\<lambda>e. key e = Some k) es) = [(k, r)]"
proof -
  let ?fs = "filter (\<lambda>e. key e = Some k) es"
  let ?m = "group_events key ins upd [] ?fs"
  have d: "distinct (map fst ?m)" by (simp add: distinct_group_events)
  have r: "map_of ?m k = Some r"
    using assms by (simp add: map_of_group_events)
  have "fst ` set ?m \<subseteq> {k}"
    by (auto simp: keys_group_events)
  moreover have "k \<in> fst ` set ?m"
    using r by (force dest: map_of_SomeD)
  ultimately have ks: "set (map fst ?m) = {k}" by auto
  have "length (map fst ?m) = card (set (map fst ?m))"
    using distinct_card [OF d] by simp
  with ks have "length ?m = 1" by simp
  then obtain l where l: "?m = [l]" by (metis One_nat_def length_0_conv length_Suc_conv)
  with ks r show ?thesis by (cases l) auto
qed

text \<open>Answering one operation of a list of operations.\<close>

lemma filter_update:
  assumes "n < length xs"
  shows "length (filter P (xs[n := y])) + (if P (xs ! n) then 1 else 0) = length (filter P xs) + (if P y then 1 else 0)"
proof -
  have "filter P xs = filter P (take n xs @ xs ! n # drop (Suc n) xs)" using id_take_nth_drop [OF assms] by simp
  then show ?thesis using upd_conv_take_nth_drop [OF assms, of y] by simp
qed

text \<open>A \<open>map\<close> whose function may throw: the results, or none.\<close>

fun all_some :: "'a option list \<Rightarrow> 'a list option" where
  "all_some [] = Some []"
| "all_some (None # xs) = None"
| "all_some (Some x # xs) = map_option (Cons x) (all_some xs)"

section \<open>Lists written in a text field\<close>

text \<open>\<open>split(/[\n,]/).map(trim).filter(Boolean)\<close>, and the same without repetitions.\<close>

definition comma_fields :: "string \<Rightarrow> string list" where
  "comma_fields s = filter (\<lambda>m. m \<noteq> []) (map trim (concat (map (split_on (CHR '','')) (split_on (CHR 0x0A) s))))"

definition comma_items :: "string \<Rightarrow> string list" where
  "comma_items s = first_seen (comma_fields s)"

lemma distinct_first_seen [simp]: "distinct (first_seen ks)"
  by (simp add: first_seen_def)

lemma comma_items_clean: "distinct (comma_items s)" "m \<in> set (comma_items s) \<Longrightarrow> m \<noteq> []"
  by (simp_all add: comma_items_def comma_fields_def)

end
