(* ===== verification/SessionFence.thy ===== *)
theory SessionFence
  imports JsPrelude "HOL-Library.Transitive_Closure_Table"
begin

text \<open>
  \<open>lib/session-fence.ts\<close>: an asynchronous answer is used only when the signed-in account
  has not changed since the request started. The locale \<open>generation_fence\<close> is what every
  component that counts generations promises (the conversation cache, the queue of conversation
  writes): its counter never goes back, so a captured number that is out of date stays so.
\<close>

record fence_state =
  fs_generation :: nat
  fs_principal :: "string option"
  fs_session :: "string option"

record session_identity =
  si_principal :: string
  si_session :: string

definition fence_current :: "fence_state \<Rightarrow> fence_state \<Rightarrow> bool" where
  "fence_current captured now \<longleftrightarrow>
     fs_generation now = fs_generation captured \<and> fs_principal now = fs_principal captured
     \<and> fs_session now = fs_session captured"

definition allows :: "string option \<Rightarrow> string \<Rightarrow> bool" where
  "allows expected value \<longleftrightarrow> \<not> truthy_text expected \<or> expected = Some value"

definition fence_accepts :: "fence_state \<Rightarrow> fence_state \<Rightarrow> session_identity \<Rightarrow> bool" where
  "fence_accepts captured now value \<longleftrightarrow>
     fs_generation now = fs_generation captured
     \<and> allows (fs_principal captured) (si_principal value) \<and> allows (fs_session captured) (si_session value)
     \<and> allows (fs_principal now) (si_principal value) \<and> allows (fs_session now) (si_session value)"

definition fence_identity :: "fence_state \<Rightarrow> fence_state \<Rightarrow> bool" where
  "fence_identity captured now \<longleftrightarrow>
     fs_principal now = fs_principal captured \<and> fs_session now = fs_session captured"

text \<open>An identity the fence accepts belongs to nobody else: if an account was known when the
  request started or is known now, it is the account of the answer, no sign-out or lock came in
  between, and two different known accounts accept nothing.\<close>

theorem fence_accepts_same_account:
  assumes "fence_accepts captured now value"
  shows "fs_generation now = fs_generation captured
    \<and> (truthy_text (fs_principal captured) \<longrightarrow> fs_principal captured = Some (si_principal value))
    \<and> (truthy_text (fs_principal now) \<longrightarrow> fs_principal now = Some (si_principal value))
    \<and> (truthy_text (fs_principal captured) \<and> truthy_text (fs_principal now) \<and>
       truthy_text (fs_session captured) \<and> truthy_text (fs_session now) \<longrightarrow> fence_current captured now)"
  using assms by (auto simp: fence_accepts_def allows_def fence_current_def)

definition sample_fence :: "nat \<Rightarrow> fence_state" where
  "sample_fence g = \<lparr>fs_generation = g, fs_principal = Some ''ana'', fs_session = Some ''s1''\<rparr>"

theorem fence_accepts_same_account_witness:
  "fence_current (sample_fence 2) (sample_fence 2)"
  using fence_accepts_same_account [of "sample_fence 2" "sample_fence 2" "\<lparr>si_principal = ''ana'', si_session = ''s1''\<rparr>"]
  by (simp add: sample_fence_def fence_accepts_def allows_def truthy_text_def)

section \<open>Generations\<close>

locale generation_fence =
  fixes generation :: "'s \<Rightarrow> nat" and step :: "'s \<Rightarrow> 's \<Rightarrow> bool"
  assumes generation_mono: "step s t \<Longrightarrow> generation s \<le> generation t"
begin

lemma generation_steps: "step\<^sup>*\<^sup>* s t \<Longrightarrow> generation s \<le> generation t"
  by (induction rule: rtranclp_induct) (auto dest: generation_mono)

lemma stale_forever: "step\<^sup>*\<^sup>* s t \<Longrightarrow> g < generation s \<Longrightarrow> g \<noteq> generation t"
  using generation_steps by fastforce

lemma current_throughout:
  "step\<^sup>*\<^sup>* s t \<Longrightarrow> step\<^sup>*\<^sup>* t u \<Longrightarrow> generation u = generation s \<Longrightarrow> generation t = generation s"
  using generation_steps [of s t] generation_steps [of t u] by simp

end

end
