(* ===== verification/View.thy ===== *)
theory View
  imports JsPrelude
begin

text \<open>
  What a React component renders: a tree of elements with their attributes, the actions their
  event handlers raise, and their children. Class names, icons and other purely visual attributes
  are left out. \<open>offers\<close> are the actions a user can raise: an element that is disabled raises
  none, and a disabled \<open>fieldset\<close> disables what it holds.
\<close>

datatype 'a view =
    VNone
  | VText string
  | VEl (vtag: string) (vattrs: "(string \<times> jsval) list") (vevents: "(string \<times> 'a) list") (vkids: "'a view list")

definition is_on :: "(string \<times> jsval) list \<Rightarrow> string \<Rightarrow> bool" where
  "is_on attrs k = truthy (jget attrs k)"

fun offers :: "'a view \<Rightarrow> 'a list" where
  "offers VNone = []"
| "offers (VText _) = []"
| "offers (VEl t as es ks) =
     (if is_on as ''disabled'' then [] else map snd es) @
     (if t = ''fieldset'' \<and> is_on as ''disabled'' then [] else concat (map offers ks))"

text \<open>The text a reader sees.\<close>

fun view_text :: "'a view \<Rightarrow> string list" where
  "view_text VNone = []"
| "view_text (VText s) = [s]"
| "view_text (VEl t as es ks) = concat (map view_text ks)"

text \<open>\<open>{condition && element}\<close>, plain boxes and buttons.\<close>

definition show_if :: "bool \<Rightarrow> 'a view \<Rightarrow> 'a view" where
  "show_if b v = (if b then v else VNone)"

definition box :: "string \<Rightarrow> 'a view list \<Rightarrow> 'a view" where
  "box t ks = VEl t [] [] ks"

definition labelled :: "string \<Rightarrow> string \<Rightarrow> 'a view" where
  "labelled t s = VEl t [] [] [VText s]"

definition button :: "bool \<Rightarrow> 'a \<Rightarrow> string \<Rightarrow> 'a view" where
  "button disabled a s = VEl ''button'' [(''disabled'', JBool disabled)] [(''onClick'', a)] [VText s]"

text \<open>A field whose input event carries the new value is offered with the value it would hold.\<close>

definition attr_text :: "string \<Rightarrow> string \<Rightarrow> string \<times> jsval" where
  "attr_text k s = (k, JStr s)"

definition attr_flag :: "string \<Rightarrow> bool \<Rightarrow> string \<times> jsval" where
  "attr_flag k b = (k, JBool b)"

text \<open>A choice among \<open>xs\<close>, and a switch.\<close>

definition picker :: "bool \<Rightarrow> ('b \<Rightarrow> 'a) \<Rightarrow> ('b \<Rightarrow> string) \<Rightarrow> 'b list \<Rightarrow> 'a view" where
  "picker disabled act name xs =
     VEl ''select'' [attr_flag ''disabled'' disabled] (map (\<lambda>x. (''onChange'', act x)) xs) (map (\<lambda>x. labelled ''option'' (name x)) xs)"

definition checkbox :: "bool \<Rightarrow> bool \<Rightarrow> 'a \<Rightarrow> string \<Rightarrow> 'a view" where
  "checkbox disabled on a s = VEl ''input'' [attr_flag ''disabled'' disabled, attr_flag ''checked'' on] [(''onChange'', a)] [VText s]"

lemma offers_show_if [simp]: "offers (show_if b v) = (if b then offers v else [])"
  by (simp add: show_if_def)

lemma offers_box [simp]: "offers (box t ks) = concat (map offers ks)"
  by (simp add: box_def is_on_def jget_def)

lemma offers_labelled [simp]: "offers (labelled t s) = []"
  by (simp add: labelled_def is_on_def)

lemma offers_button [simp]: "offers (button d a s) = (if d then [] else [a])"
  by (simp add: button_def is_on_def jget_def)

lemma offers_picker [simp]: "offers (picker d f name xs) = (if d then [] else map f xs)"
  by (simp add: picker_def is_on_def jget_def attr_flag_def comp_def)

lemma offers_checkbox [simp]: "offers (checkbox d on a s) = (if d then [] else [a])"
  by (simp add: checkbox_def is_on_def jget_def attr_flag_def)

text \<open>A part that raises actions of its own raises them as those of the whole.\<close>

lemma offers_map_view [simp]: "offers (map_view f v) = map f (offers v)"
proof (induction v)
  case (VEl t as es ks)
  then show ?case by (simp add: map_concat comp_def case_prod_beta cong: map_cong)
qed simp_all

text \<open>The same as facts on one action; they keep the texts out of a case split.\<close>

lemma in_offers:
  "e \<in> set (offers (show_if b v)) \<longleftrightarrow> b \<and> e \<in> set (offers v)"
  "e \<in> set (offers (button d a s)) \<longleftrightarrow> \<not> d \<and> e = a"
  "e \<in> set (offers (box t ks)) \<longleftrightarrow> (\<exists>v \<in> set ks. e \<in> set (offers v))"
  "e \<in> set (offers (picker d f name xs)) \<longleftrightarrow> \<not> d \<and> e \<in> f ` set xs"
  "e \<in> set (offers (checkbox d on a s)) \<longleftrightarrow> \<not> d \<and> e = a"
  "e \<in> set (offers (map_view g w)) \<longleftrightarrow> e \<in> g ` set (offers w)"
  "e \<notin> set (offers (labelled t s))" "e \<notin> set (offers (VText s))" "e \<notin> set (offers VNone)"
  by simp_all

lemmas offer_rules = offers_map_view offers_picker offers_checkbox offers_show_if offers_button offers_box offers_labelled offers.simps(1,2)

lemma view_text_button [simp]: "view_text (button d a s) = [s]"
  and view_text_box [simp]: "view_text (box t ks) = concat (map view_text ks)"
  and view_text_labelled [simp]: "view_text (labelled t s) = [s]"
  and view_text_show_if [simp]: "view_text (show_if b v) = (if b then view_text v else [])"
  by (simp_all add: button_def box_def labelled_def show_if_def)

end
