(* ===== verification/AccessPolicy.thy ===== *)
theory AccessPolicy
  imports SessionFence View
begin

text \<open>
  \<open>features/useAccessLifecycle.ts\<close> and \<open>features/SessionPolicyManager.tsx\<close>: the panel on which an
  administrator limits how long device sessions live. The hook stamps a callback with the epoch of the
  panel; a lock, an unlock and the unmount raise the epoch. The panel keeps an edited draft beside the
  host's policy and refuses to save it against a policy that was not reviewed.
\<close>

section \<open>The life of an access panel\<close>

record access_life =
  al_mounted :: bool
  al_locked :: bool
  al_epoch :: nat
  al_refresh :: nat

definition access_start :: access_life where
  "access_start = \<lparr>al_mounted = True, al_locked = False, al_epoch = 0, al_refresh = 0\<rparr>"

definition access_lock :: "access_life \<Rightarrow> access_life" where
  "access_lock l = l\<lparr>al_locked := True, al_epoch := al_epoch l + 1\<rparr>"

definition access_unlock :: "access_life \<Rightarrow> access_life" where
  "access_unlock l = l\<lparr>al_locked := False, al_epoch := al_epoch l + 1, al_refresh := al_refresh l + 1\<rparr>"

definition access_unmount :: "access_life \<Rightarrow> access_life" where
  "access_unmount l = l\<lparr>al_mounted := False, al_epoch := al_epoch l + 1\<rparr>"

definition access_current :: "access_life \<Rightarrow> bool" where
  "access_current l \<longleftrightarrow> al_mounted l \<and> \<not> al_locked l"

text \<open>What \<open>capture\<close> returns: whether the callback stamped with an epoch may still act.\<close>

definition access_valid :: "nat \<Rightarrow> access_life \<Rightarrow> bool" where
  "access_valid epoch l \<longleftrightarrow> al_mounted l \<and> \<not> al_locked l \<and> al_epoch l = epoch"

inductive access_step :: "access_life \<Rightarrow> access_life \<Rightarrow> bool" where
  locks: "access_step l (access_lock l)"
| unlocks: "access_step l (access_unlock l)"
| unmounts: "access_step l (access_unmount l)"

inductive_cases access_stepE: "access_step l m"

interpretation access_fence: generation_fence al_epoch access_step
  by unfold_locales (auto elim!: access_stepE simp: access_lock_def access_unlock_def access_unmount_def)

lemma access_step_raises: "access_step l m \<Longrightarrow> al_epoch l < al_epoch m"
  by (auto elim!: access_stepE simp: access_lock_def access_unlock_def access_unmount_def)

text \<open>A callback captured before a lock, an unlock or the unmount never acts again.\<close>

theorem captured_callback_dies:
  assumes "access_step\<^sup>*\<^sup>* l m" "access_step m n" "access_step\<^sup>*\<^sup>* n k"
  shows "\<not> access_valid (al_epoch l) k"
proof -
  have "al_epoch l < al_epoch n" using access_fence.generation_steps [OF assms(1)] access_step_raises [OF assms(2)] by simp
  from access_fence.stale_forever [OF assms(3) this] show ?thesis by (auto simp: access_valid_def)
qed

theorem captured_callback_dies_witness:
  "\<not> access_valid (al_epoch access_start) (access_unlock (access_lock access_start))"
  by (rule captured_callback_dies [of access_start access_start "access_lock access_start"])
    (auto intro: access_step.intros)

section \<open>The policy panel\<close>

record session_policy =
  po_revision :: int
  po_idle :: jsnum
  po_absolute :: jsnum
  po_access :: jsnum

record policy_load =
  pl_epoch :: nat
  pl_aborted :: bool
  pl_settled :: bool

record policy_save =
  pv_epoch :: nat
  pv_revision :: int
  pv_idle :: jsnum
  pv_absolute :: jsnum
  pv_settled :: bool

record policy_panel =
  pp_life :: access_life
  pp_policy :: "session_policy option"
  pp_draft :: "session_policy option"
  pp_version :: nat
  pp_busy :: bool
  pp_conflict :: bool
  pp_status :: string
  pp_dirty :: bool
  pp_key :: "(nat \<times> nat) option"
  pp_loads :: "policy_load list"
  pp_saves :: "policy_save list"
  pp_errors :: "js_error list"

text \<open>The effect: left and entered again when the version or the count of unlocks changed.\<close>

definition policy_effect :: "policy_panel \<Rightarrow> policy_panel" where
  "policy_effect p =
     (let key = Some (pp_version p, al_refresh (pp_life p)) in
      if pp_key p = key then p
      else (let q = p\<lparr>pp_key := key, pp_loads := map (\<lambda>l. l\<lparr>pl_aborted := True\<rparr>) (pp_loads p)\<rparr> in
            if access_current (pp_life p)
            then q\<lparr>pp_loads := pp_loads q @ [\<lparr>pl_epoch = al_epoch (pp_life p), pl_aborted = False, pl_settled = False\<rparr>]\<rparr>
            else q))"

definition mount_policy :: policy_panel where
  "mount_policy = policy_effect \<lparr>pp_life = access_start, pp_policy = None, pp_draft = None, pp_version = 0, pp_busy = False, pp_conflict = False,
     pp_status = [], pp_dirty = False, pp_key = None, pp_loads = [], pp_saves = [], pp_errors = []\<rparr>"

definition lock_policy :: "policy_panel \<Rightarrow> policy_panel" where
  "lock_policy p = p\<lparr>pp_life := access_lock (pp_life p), pp_busy := False, pp_status := []\<rparr>"

definition unlock_policy :: "policy_panel \<Rightarrow> policy_panel" where
  "unlock_policy p = policy_effect (p\<lparr>pp_life := access_unlock (pp_life p)\<rparr>)"

definition refresh_policy :: "policy_panel \<Rightarrow> policy_panel" where
  "refresh_policy p = policy_effect (p\<lparr>pp_version := pp_version p + 1\<rparr>)"

definition load_acts :: "nat \<Rightarrow> policy_panel \<Rightarrow> bool" where
  "load_acts n p \<longleftrightarrow> n < length (pp_loads p) \<and> \<not> pl_settled (pp_loads p ! n) \<and> \<not> pl_aborted (pp_loads p ! n)
     \<and> access_valid (pl_epoch (pp_loads p ! n)) (pp_life p)"

definition settle_load :: "nat \<Rightarrow> policy_panel \<Rightarrow> policy_panel" where
  "settle_load n p = (if n < length (pp_loads p) then p\<lparr>pp_loads := (pp_loads p)[n := (pp_loads p ! n)\<lparr>pl_settled := True\<rparr>]\<rparr> else p)"

definition take_policy :: "session_policy \<Rightarrow> policy_panel \<Rightarrow> policy_panel" where
  "take_policy v p =
     (let changed = (map_option po_revision (pp_policy p) \<noteq> Some (po_revision v)); q = p\<lparr>pp_policy := Some v\<rparr> in
      if \<not> pp_dirty p then q\<lparr>pp_draft := Some v, pp_conflict := False\<rparr>
      else if changed then q\<lparr>pp_conflict := True\<rparr> else q)"

definition load_answer :: "nat \<Rightarrow> session_policy js_result \<Rightarrow> policy_panel \<Rightarrow> policy_panel" where
  "load_answer n r p =
     (if load_acts n p
      then (case r of Inr v \<Rightarrow> take_policy v (settle_load n p) | Inl e \<Rightarrow> (settle_load n p)\<lparr>pp_errors := pp_errors p @ [e]\<rparr>)
      else settle_load n p)"

definition edit_policy :: "(session_policy \<Rightarrow> session_policy) \<Rightarrow> policy_panel \<Rightarrow> policy_panel" where
  "edit_policy f p = p\<lparr>pp_dirty := True, pp_draft := map_option f (pp_draft p)\<rparr>"

definition keep_draft :: "policy_panel \<Rightarrow> policy_panel" where
  "keep_draft p = p\<lparr>pp_conflict := False\<rparr>"

definition use_current :: "policy_panel \<Rightarrow> policy_panel" where
  "use_current p = p\<lparr>pp_dirty := False, pp_draft := pp_policy p, pp_conflict := False\<rparr>"

definition save_policy :: "policy_panel \<Rightarrow> policy_panel" where
  "save_policy p =
     (case (pp_policy p, pp_draft p) of
        (Some v, Some d) \<Rightarrow>
          if pp_busy p \<or> pp_conflict p \<or> \<not> access_current (pp_life p) then p
          else p\<lparr>pp_busy := True, pp_status := [],
                 pp_saves := pp_saves p @ [\<lparr>pv_epoch = al_epoch (pp_life p), pv_revision = po_revision v, pv_idle = po_idle d,
                   pv_absolute = po_absolute d, pv_settled = False\<rparr>]\<rparr>
      | _ \<Rightarrow> p)"

definition saved_text :: "int \<Rightarrow> string" where
  "saved_text n = ''Session limits saved. '' @ int_text n @ '' expired device sessions revoked.''"

text \<open>\<open>error.status === 400 && error.message.includes('changed')\<close>: somebody else changed the policy.\<close>

definition policy_changed :: "js_error \<Rightarrow> bool" where
  "policy_changed e \<longleftrightarrow> has_status 400 e \<and> contains ''changed'' (error_message e)"

definition save_acts :: "nat \<Rightarrow> policy_panel \<Rightarrow> bool" where
  "save_acts n p \<longleftrightarrow> n < length (pp_saves p) \<and> \<not> pv_settled (pp_saves p ! n) \<and> access_valid (pv_epoch (pp_saves p ! n)) (pp_life p)"

definition settle_save :: "nat \<Rightarrow> policy_panel \<Rightarrow> policy_panel" where
  "settle_save n p = (if n < length (pp_saves p) then p\<lparr>pp_saves := (pp_saves p)[n := (pp_saves p ! n)\<lparr>pv_settled := True\<rparr>]\<rparr> else p)"

definition save_answer :: "nat \<Rightarrow> (session_policy \<times> int) js_result \<Rightarrow> policy_panel \<Rightarrow> policy_panel" where
  "save_answer n r p =
     (if save_acts n p
      then (let q = (settle_save n p)\<lparr>pp_busy := False\<rparr> in
            case r of
              Inr (v, expired) \<Rightarrow> q\<lparr>pp_dirty := False, pp_policy := Some v, pp_draft := Some v, pp_status := saved_text expired\<rparr>
            | Inl e \<Rightarrow>
                (let q' = q\<lparr>pp_errors := pp_errors p @ [e]\<rparr> in if policy_changed e then refresh_policy q' else q'))
      else settle_save n p)"

datatype policy_event =
    PolicyLocks
  | PolicyUnlocks
  | PolicyRefreshed
  | PolicyLoaded nat "session_policy js_result"
  | PolicySaved nat "(session_policy \<times> int) js_result"
  | IdleEdited jsnum
  | AbsoluteEdited jsnum
  | DraftKept
  | CurrentUsed
  | SaveAsked

fun policy_step :: "policy_event \<Rightarrow> policy_panel \<Rightarrow> policy_panel" where
  "policy_step PolicyLocks p = lock_policy p"
| "policy_step PolicyUnlocks p = unlock_policy p"
| "policy_step PolicyRefreshed p = refresh_policy p"
| "policy_step (PolicyLoaded n r) p = load_answer n r p"
| "policy_step (PolicySaved n r) p = save_answer n r p"
| "policy_step (IdleEdited v) p = edit_policy (\<lambda>d. d\<lparr>po_idle := v\<rparr>) p"
| "policy_step (AbsoluteEdited v) p = edit_policy (\<lambda>d. d\<lparr>po_absolute := v\<rparr>) p"
| "policy_step DraftKept p = keep_draft p"
| "policy_step CurrentUsed p = use_current p"
| "policy_step SaveAsked p = save_policy p"

section \<open>What is shown\<close>

fun num_int :: "jsnum \<Rightarrow> int option" where
  "num_int (Fin q) = (if q = of_int \<lfloor>q\<rfloor> then Some \<lfloor>q\<rfloor> else None)"
| "num_int _ = None"

definition limits_valid :: "session_policy \<Rightarrow> bool" where
  "limits_valid d \<longleftrightarrow>
     (case (num_int (po_idle d), num_int (po_absolute d)) of
        (Some i, Some a) \<Rightarrow> 600 \<le> i \<and> i \<le> 2592000 \<and> i \<le> a \<and> a \<le> 31536000
      | _ \<Rightarrow> False)"

datatype policy_action = RefreshLimits | KeepDraft | UseCurrent | EditIdle | EditAbsolute | SaveLimits

definition policy_field :: "bool \<Rightarrow> policy_action \<Rightarrow> string \<Rightarrow> jsval \<Rightarrow> jsnum \<Rightarrow> jsnum \<Rightarrow> policy_action view" where
  "policy_field off act label low high v =
     box ''label'' [VText label, VEl ''input'' [attr_text ''aria-label'' label, (''min'', low), (''max'', JNum high), attr_flag ''disabled'' off, (''value'', JNum v)]
       [(''onChange'', act)] []]"

text \<open>\<open>show_num\<close> prints a number.\<close>

definition policy_view :: "(jsnum \<Rightarrow> string) \<Rightarrow> policy_panel \<Rightarrow> policy_action view" where
  "policy_view show_num p =
     (let off = pp_busy p \<or> al_locked (pp_life p) in
      box ''section''
        ([labelled ''h2'' ''Device session lifetimes'', button off RefreshLimits ''Refresh session limits'',
          (case pp_policy p of
             Some v \<Rightarrow> show_if (pp_conflict p) (box ''div''
               [labelled ''p'' (''The current policy is revision '' @ int_text (po_revision v) @ '': idle '' @ show_num (po_idle v)
                  @ '' seconds; absolute '' @ show_num (po_absolute v) @ '' seconds. Your draft is preserved.''),
                button off KeepDraft ''Keep my draft using the reviewed policy revision'',
                button off UseCurrent ''Use current session limits''])
           | None \<Rightarrow> VNone)] @
         (case pp_draft p of
            Some d \<Rightarrow>
              [policy_field off EditIdle ''Idle session limit in seconds'' (js_int 600) (Fin 2592000) (po_idle d),
               labelled ''p'' (''10 minutes'' @ [CHR 0x96] @ ''30 days. Activity renews through the managed refresh flow; access tokens last at most '' @ show_num (po_access d) @ '' seconds.''),
               policy_field off EditAbsolute ''Absolute session limit in seconds'' (JNum (po_idle d)) (Fin 31536000) (po_absolute d),
               labelled ''p'' ''Must cover the idle limit; maximum 365 days. Refresh and unlock cannot extend the device's absolute expiry.'',
               button (off \<or> pp_conflict p \<or> \<not> limits_valid d) SaveLimits ''Save session limits'']
          | None \<Rightarrow> [labelled ''p'' (''Loading device session limits'' @ [CHR 0x85])]) @
         [show_if (pp_status p \<noteq> []) (labelled ''p'' (pp_status p))]))"

section \<open>Properties\<close>

lemma num_int_Some: "num_int n = Some i \<Longrightarrow> n = Fin (of_int i)"
  by (cases n) (auto split: if_splits)

text \<open>Limits are offered for saving only when they are whole numbers within the bounds, the reviewed policy is the
  current one, and the panel is neither busy nor locked.\<close>

theorem saved_limits_bounded:
  assumes "SaveLimits \<in> set (offers (policy_view show_num p))"
  shows "\<not> pp_conflict p \<and> \<not> pp_busy p \<and> \<not> al_locked (pp_life p)
    \<and> (\<exists>d i a. pp_draft p = Some d \<and> po_idle d = Fin (of_int i) \<and> po_absolute d = Fin (of_int a) \<and> 600 \<le> i \<and> i \<le> a \<and> i \<le> 2592000 \<and> a \<le> 31536000)"
proof -
  have field: "SaveLimits \<notin> set (offers (policy_field off act label low high v))" if "act \<noteq> SaveLimits" for off act label low high v
    using that by (simp add: policy_field_def is_on_def jget_def attr_text_def attr_flag_def)
  have conflict: "SaveLimits \<notin> set (offers (case pp_policy p of Some v \<Rightarrow> show_if (pp_conflict p) (box ''div''
       [labelled ''p'' (t v), button off KeepDraft s, button off UseCurrent u]) | None \<Rightarrow> VNone))" for t off s u
    by (cases "pp_policy p") simp_all
  obtain d where d: "pp_draft p = Some d" "\<not> (pp_busy p \<or> al_locked (pp_life p) \<or> pp_conflict p \<or> \<not> limits_valid d)"
    using assms field conflict by (cases "pp_draft p") (auto simp: policy_view_def Let_def split: if_splits)
  then obtain i a where "num_int (po_idle d) = Some i" "num_int (po_absolute d) = Some a" "600 \<le> i" "i \<le> 2592000" "i \<le> a" "a \<le> 31536000"
    by (auto simp: limits_valid_def split: option.splits)
  then show ?thesis using d num_int_Some by blast
qed

definition sample_policy :: session_policy where
  "sample_policy = \<lparr>po_revision = 3, po_idle = Fin 3600, po_absolute = Fin 86400, po_access = Fin 900\<rparr>"

definition loaded_panel :: policy_panel where
  "loaded_panel = policy_step (PolicyLoaded 0 (Inr sample_policy)) mount_policy"

theorem saved_limits_bounded_witness:
  "\<exists>d i a. pp_draft loaded_panel = Some d \<and> po_idle d = Fin (of_int i) \<and> po_absolute d = Fin (of_int a) \<and> 600 \<le> i \<and> i \<le> a \<and> i \<le> 2592000 \<and> a \<le> 31536000"
proof -
  have "SaveLimits \<in> set (offers (policy_view (\<lambda>_. []) loaded_panel))" by code_simp
  from saved_limits_bounded [OF this] show ?thesis by blast
qed

text \<open>Whose doing changes an edited draft: the person's own edit, the choice to use the current limits, or a save that the
  host confirmed.\<close>

definition own_change :: "policy_event \<Rightarrow> bool" where
  "own_change e \<longleftrightarrow> (case e of IdleEdited _ \<Rightarrow> True | AbsoluteEdited _ \<Rightarrow> True | CurrentUsed \<Rightarrow> True
     | PolicySaved _ (Inr _) \<Rightarrow> True | _ \<Rightarrow> False)"

lemma draft_parts:
  "pp_draft (policy_effect p) = pp_draft p" "pp_dirty (policy_effect p) = pp_dirty p" "pp_conflict (policy_effect p) = pp_conflict p"
  "pp_draft (settle_load n p) = pp_draft p" "pp_dirty (settle_load n p) = pp_dirty p"
  "pp_draft (settle_save n p) = pp_draft p" "pp_dirty (settle_save n p) = pp_dirty p"
  by (simp_all add: policy_effect_def Let_def settle_load_def settle_save_def)

lemma draft_step:
  "pp_dirty p \<Longrightarrow> \<not> own_change e \<Longrightarrow> pp_dirty (policy_step e p) \<and> pp_draft (policy_step e p) = pp_draft p"
  by (cases e) (auto simp: own_change_def draft_parts lock_policy_def unlock_policy_def refresh_policy_def load_answer_def take_policy_def
      save_answer_def keep_draft_def save_policy_def Let_def split: sum.splits option.splits)

text \<open>An edited draft survives whatever the host, a lock or a refresh brings; and when the host's policy turns out to be another
  revision, it is not saved over it before the person has chosen.\<close>

theorem policy_draft_kept:
  assumes "pp_dirty p" "\<forall>e \<in> set es. \<not> own_change e"
  shows "pp_draft (foldl (\<lambda>q e. policy_step e q) p es) = pp_draft p
    \<and> (load_acts n p \<and> map_option po_revision (pp_policy p) \<noteq> Some (po_revision v) \<longrightarrow>
        pp_conflict (load_answer n (Inr v) p) \<and> save_policy (load_answer n (Inr v) p) = load_answer n (Inr v) p)"
proof -
  have "pp_dirty (foldl (\<lambda>q e. policy_step e q) p es) \<and> pp_draft (foldl (\<lambda>q e. policy_step e q) p es) = pp_draft p"
    by (rule foldl_invariant) (use assms draft_step in auto)
  moreover have "pp_policy (settle_load n p) = pp_policy p" by (simp add: settle_load_def)
  then have "load_acts n p \<and> map_option po_revision (pp_policy p) \<noteq> Some (po_revision v) \<Longrightarrow> pp_conflict (load_answer n (Inr v) p)"
    using assms(1) by (simp add: load_answer_def take_policy_def Let_def draft_parts)
  moreover have "pp_conflict q \<Longrightarrow> save_policy q = q" for q by (simp add: save_policy_def split: option.split)
  ultimately show ?thesis by blast
qed

definition edited_panel :: policy_panel where
  "edited_panel = policy_step PolicyRefreshed (policy_step (IdleEdited (Fin 7200)) loaded_panel)"

theorem policy_draft_kept_witness:
  "pp_draft (foldl (\<lambda>q e. policy_step e q) edited_panel [PolicyLocks, PolicyUnlocks]) = pp_draft edited_panel
    \<and> pp_conflict (load_answer 1 (Inr (sample_policy\<lparr>po_revision := 4\<rparr>)) edited_panel)"
proof -
  have "pp_dirty edited_panel" "load_acts 1 edited_panel"
    "map_option po_revision (pp_policy edited_panel) \<noteq> Some (po_revision (sample_policy\<lparr>po_revision := 4\<rparr>))" by code_simp+
  then show ?thesis using policy_draft_kept [of edited_panel "[PolicyLocks, PolicyUnlocks]" 1] by (simp add: own_change_def)
qed

end
