(* ===== verification/ApiTypes.thy ===== *)
theory ApiTypes
  imports JsPrelude
begin

text \<open>
  The wire types of \<open>lib/api.ts\<close> (interfaces \<open>Task\<close>, \<open>Turn\<close>, \<open>Session\<close>, \<open>Project\<close>,
  \<open>Engine\<close>, \<open>Provider\<close>) and of \<open>lib/context.ts\<close>, \<open>lib/drafts.ts\<close> that the other
  theories share. An optional field is an \<open>option\<close>; a field typed \<open>unknown\<close> or
  \<open>Record<string, unknown>\<close> is a \<open>jsval\<close> or \<open>jsobj\<close>. Numbers that count, order or
  version things are integers.
\<close>

section \<open>Events, approvals and tasks\<close>

record activity_event =
  ev_type :: string
  ev_payload :: jsobj
  ev_seq :: int

record approval =
  ap_id :: string
  ap_status :: string
  ap_actual_status :: "string option"
  ap_actionable :: "bool option"
  ap_kind :: string
  ap_payload :: jsobj

record coordination_report =
  cr_source_session :: "string option"
  cr_source_task :: "string option"
  cr_kind :: string
  cr_label :: string
  cr_source_status :: "string option"

text \<open>\<open>Task\<close> is recursive through \<open>children\<close>. The last two fields are those a child snapshot
  carries beside the interface (\<open>agent_label\<close>, \<open>delegated_task\<close>).\<close>

datatype task = Task
  (task_id: string)
  (task_status: string)
  (task_prompt: string)
  (task_result: "string option")
  (task_error: "string option")
  (task_engine: "string option")
  (task_report: "coordination_report option")
  (task_events: "activity_event list option")
  (task_truncated: "bool option")
  (task_approvals: "approval list option")
  (task_children: "task list option")
  (task_agent_label: "string option")
  (task_delegated: "string option")

record turn =
  turn_id :: string
  turn_prompt :: string
  turn_task_id :: "string option"
  turn_task :: "task option"
  turn_seq :: int

section \<open>Projects, engines, providers and sessions\<close>

record project =
  proj_id :: string
  proj_path :: string
  proj_name :: string

record engine =
  eng_id :: string
  eng_name :: "string option"
  eng_available :: "bool option"
  eng_auth_state :: "string option"
  eng_auth_detail :: "string option"
  eng_error :: "string option"

record provider =
  prov_id :: string
  prov_name :: string
  prov_model :: string
  prov_capabilities :: "string list"
  prov_secret_configured :: bool

text \<open>The fields of \<open>Session\<close> the modelled code reads or writes; \<open>null\<close> and \<open>undefined\<close>
  of an optional text are both \<open>None\<close>.\<close>

record session =
  ses_id :: string
  ses_title :: string
  ses_project_id :: "string option"
  ses_cwd :: "string option"
  ses_engine :: string
  ses_provider_id :: "string option"
  ses_model :: "string option"
  ses_mode :: string
  ses_draft_text :: string
  ses_draft_context :: "jsval list option"
  ses_revision :: int
  ses_turns :: "turn list option"
  ses_scroll :: rat
  ses_has_earlier :: bool
  ses_runner_id :: "string option"
  ses_worktree_id :: "string option"
  ses_reasoning :: "(string \<times> string) list"

end
