(* ===== verification/WebStorage.thy ===== *)
theory WebStorage
  imports JsPrelude
begin

text \<open>
  \<open>localStorage\<close> and \<open>sessionStorage\<close> as the workspace uses them: a list of keys in their
  order, each with the text stored under it. A stored text is represented by the value
  \<open>JSON.parse\<close> makes of it (\<open>Garbage\<close> when it makes none) with its length. Composite keys are
  \<open>JSON.stringify\<close> of a list of strings, which is defined here and shown to be injective: the
  state of two accounts, two devices or two windows never meets under one key. The locale
  \<open>owner_store\<close> is what every store that keeps something for each owner promises.
\<close>

section \<open>\<open>JSON.stringify\<close> on strings and lists of strings\<close>

definition hex_digit :: "nat \<Rightarrow> char" where
  "hex_digit n = (if n < 10 then char_of (48 + n) else char_of (87 + n))"

definition json_escape :: "char \<Rightarrow> string" where
  "json_escape c =
     (let n = of_char c :: nat in
      if n = 34 \<or> n = 92 then [CHR 0x5C, c]
      else if n = 8 then [CHR 0x5C, CHR ''b''] else if n = 9 then [CHR 0x5C, CHR ''t'']
      else if n = 10 then [CHR 0x5C, CHR ''n''] else if n = 12 then [CHR 0x5C, CHR ''f'']
      else if n = 13 then [CHR 0x5C, CHR ''r'']
      else if n < 32 then [CHR 0x5C, CHR ''u'', CHR ''0'', CHR ''0'', hex_digit (n div 16), hex_digit (n mod 16)]
      else [c])"

definition json_string :: "string \<Rightarrow> string" where
  "json_string s = CHR 0x22 # concat (map json_escape s) @ [CHR 0x22]"

definition json_strings :: "string list \<Rightarrow> string" where
  "json_strings ss = CHR ''['' # join_with '','' (map json_string ss) @ '']''"

text \<open>Reading back one unit; the rest of the text is returned with it.\<close>

fun hex_value :: "char \<Rightarrow> nat" where
  "hex_value c = (let n = of_char c in if n < 58 then n - 48 else n - 87)"

fun read_unit :: "string \<Rightarrow> (char \<times> string) option" where
  "read_unit (b # e # rest) =
     (if b = CHR 0x22 then None
      else if b \<noteq> CHR 0x5C then Some (b, e # rest)
      else if e = CHR ''b'' then Some (char_of (8 :: nat), rest) else if e = CHR ''t'' then Some (char_of (9 :: nat), rest)
      else if e = CHR ''n'' then Some (char_of (10 :: nat), rest) else if e = CHR ''f'' then Some (char_of (12 :: nat), rest)
      else if e = CHR ''r'' then Some (char_of (13 :: nat), rest)
      else if e = CHR ''u'' then (case rest of _ # _ # h # l # r \<Rightarrow> Some (char_of (16 * hex_value h + hex_value l), r) | _ \<Rightarrow> None)
      else Some (e, rest))"
| "read_unit _ = None"

lemma hex_value_digit: "k < 16 \<Longrightarrow> hex_value (hex_digit k) = k"
  by (simp add: hex_digit_def Let_def of_char_of del: hex_value.simps add: hex_value.simps [of "char_of _"])

lemma char_code: "of_char c = (n :: nat) \<Longrightarrow> c = char_of n"
  by (metis char_of_char)

lemma read_escape: "read_unit (json_escape c @ q # r) = Some (c, q # r)"
proof -
  let ?n = "of_char c :: nat"
  have ne: "?n \<noteq> of_char d \<Longrightarrow> c \<noteq> d" for d :: char by auto
  consider "?n = 34 \<or> ?n = 92" | "?n \<in> {8, 9, 10, 12, 13}" | "?n < 32" "?n \<notin> {8, 9, 10, 12, 13}" | "?n \<ge> 32" "?n \<noteq> 34" "?n \<noteq> 92"
    by fastforce
  then show ?thesis
  proof cases
    case 1
    moreover have "char_of (34 :: nat) = CHR 0x22" "char_of (92 :: nat) = CHR 0x5C" by code_simp+
    ultimately have "c = CHR 0x22 \<or> c = CHR 0x5C" using char_code by metis
    then show ?thesis by (auto simp: json_escape_def)
  next
    case 2
    then have "c \<in> {char_of (8 :: nat), char_of (9 :: nat), char_of (10 :: nat), char_of (12 :: nat), char_of (13 :: nat)}"
      using char_code [of c] by (simp only: insert_iff empty_iff) blast
    then show ?thesis by (auto simp: json_escape_def)
  next
    case 3
    have "char_of (16 * hex_value (hex_digit (?n div 16)) + hex_value (hex_digit (?n mod 16))) = c"
      using 3(1) by (simp add: hex_value_digit del: hex_value.simps)
    then show ?thesis using 3 by (simp add: json_escape_def Let_def del: hex_value.simps)
  next
    case 4
    then have "c \<noteq> CHR 0x22" "c \<noteq> CHR 0x5C" by auto
    then show ?thesis using 4 by (simp add: json_escape_def Let_def)
  qed
qed

lemma escape_not_quote: "json_escape c @ q # r \<noteq> CHR 0x22 # u"
proof
  assume "json_escape c @ q # r = CHR 0x22 # u"
  then have "read_unit (CHR 0x22 # u) = Some (c, q # r)" using read_escape [of c q r] by simp
  then show False by (cases u) simp_all
qed

lemma escape_not_end: "json_escape c @ concat (map json_escape s) @ CHR 0x22 # r \<noteq> CHR 0x22 # u"
proof -
  obtain q v where "concat (map json_escape s) @ CHR 0x22 # r = q # v"
    by (cases "concat (map json_escape s)") simp_all
  then show ?thesis using escape_not_quote by metis
qed

lemma json_body_inj:
  "concat (map json_escape s) @ CHR 0x22 # r = concat (map json_escape t) @ CHR 0x22 # u \<Longrightarrow> s = t \<and> r = u"
proof (induction s arbitrary: t)
  case Nil
  show ?case
  proof (cases t)
    case (Cons d t')
    then show ?thesis using Nil escape_not_end [of d t' u r] by simp
  qed (use Nil in simp)
next
  case (Cons c s)
  show ?case
  proof (cases t)
    case Nil
    then show ?thesis using Cons.prems escape_not_end [of c s r u] by simp
  next
    case (Cons d t')
    obtain q v where q: "concat (map json_escape s) @ CHR 0x22 # r = q # v"
      by (cases "concat (map json_escape s)") simp_all
    obtain q' v' where q': "concat (map json_escape t') @ CHR 0x22 # u = q' # v'"
      by (cases "concat (map json_escape t')") simp_all
    have eq: "json_escape c @ q # v = json_escape d @ q' # v'"
      using Cons.prems q q' Cons by simp
    have "Some (c, q # v) = Some (d, q' # v')"
      using read_escape [of c q v] read_escape [of d q' v'] unfolding eq by (rule trans [OF sym])
    then have "c = d" and "concat (map json_escape s) @ CHR 0x22 # r = concat (map json_escape t') @ CHR 0x22 # u"
      unfolding q q' by simp_all
    then show ?thesis using Cons.IH [of t'] Cons by blast
  qed
qed

lemma json_string_inj: "json_string s @ r = json_string t @ u \<Longrightarrow> s = t \<and> r = u"
  using json_body_inj [of s r t u] by (simp add: json_string_def)

text \<open>Two composite keys of the same length are equal only when all their parts are.\<close>

lemma json_strings_inj_aux:
  "length ss = length ts \<Longrightarrow> join_with '','' (map json_string ss) @ '']'' = join_with '','' (map json_string ts) @ '']'' \<Longrightarrow> ss = ts"
proof (induction ss ts rule: list_induct2)
  case (Cons s ss t ts)
  show ?case
  proof (cases ss)
    case Nil
    then show ?thesis using Cons json_string_inj [of s "'']''" t "'']''"] by simp
  next
    case (Cons s' ss')
    then obtain t' ts' where ts: "ts = t' # ts'" using Cons.hyps by (cases ts) auto
    have "json_string s @ '','' @ join_with '','' (map json_string ss) @ '']'' = json_string t @ '','' @ join_with '','' (map json_string ts) @ '']''"
      using Cons.prems Cons ts by simp
    then have "s = t \<and> '','' @ join_with '','' (map json_string ss) @ '']'' = '','' @ join_with '','' (map json_string ts) @ '']''"
      by (rule json_string_inj)
    then show ?thesis using Cons.IH by simp
  qed
qed simp

lemma json_strings_inj: "length ss = length ts \<Longrightarrow> json_strings ss = json_strings ts \<longleftrightarrow> ss = ts"
  using json_strings_inj_aux [of ss ts] by (auto simp: json_strings_def)

section \<open>Storage\<close>

datatype stored_value = Garbage | Parsed jsval

record stored_text =
  st_length :: nat
  st_value :: stored_value

type_synonym web_storage = "(string \<times> stored_text) list"

text \<open>What is stored as the JSON text of a value; no reader of it asks for its length.\<close>

definition json_item :: "jsval \<Rightarrow> stored_text" where
  "json_item v = \<lparr>st_length = 0, st_value = Parsed v\<rparr>"

definition get_item :: "web_storage \<Rightarrow> string \<Rightarrow> stored_text option" where
  "get_item st k = map_of st k"

definition set_item :: "string \<Rightarrow> stored_text \<Rightarrow> web_storage \<Rightarrow> web_storage" where
  "set_item k v st = AList.update k v st"

definition remove_item :: "string \<Rightarrow> web_storage \<Rightarrow> web_storage" where
  "remove_item k st = AList.delete k st"

lemma get_set_item [simp]: "get_item (set_item k v st) l = (if l = k then Some v else get_item st l)"
  by (simp add: get_item_def set_item_def update_conv')

lemma get_remove_item [simp]: "get_item (remove_item k st) l = (if l = k then None else get_item st l)"
  by (simp add: get_item_def remove_item_def delete_conv')

locale owner_store =
  fixes key :: "'o \<Rightarrow> string" and load :: "'o \<Rightarrow> web_storage \<Rightarrow> 'v" and save :: "'o \<Rightarrow> 'a \<Rightarrow> web_storage \<Rightarrow> web_storage"
  assumes key_apart: "key o1 = key o2 \<longleftrightarrow> o1 = o2"
    and load_own: "get_item st (key ow) = get_item st' (key ow) \<Longrightarrow> load ow st = load ow st'"
    and save_own: "k \<noteq> key ow \<Longrightarrow> get_item (save ow x st) k = get_item st k"
begin

lemma save_other_owner: "o1 \<noteq> o2 \<Longrightarrow> load o2 (save o1 x st) = load o2 st"
  by (rule load_own) (simp add: save_own key_apart)

lemma saves_other_owner: "o2 \<notin> fst ` set ops \<Longrightarrow> load o2 (foldl (\<lambda>st (ow, x). save ow x st) st ops) = load o2 st"
  by (induction ops arbitrary: st) (auto simp: save_other_owner)

end

end
