(* ===== verification/DraftHandoff.thy ===== *)
theory DraftHandoff
  imports WebStorage
begin

text \<open>
  Unsent messages and how they survive: \<open>lib/drafts.ts\<close> (the registry in memory),
  \<open>lib/context.ts\<close>, \<open>lib/draft-snapshot.ts\<close> (the wire form of a draft that moves to another
  window), \<open>lib/redock-state.ts\<close> (writing a draft back before its window closes) and the drafts of
  \<open>lib/window-journal.ts\<close>. A draft is a record; \<open>draft_value\<close> is the object it is. What is
  received is an unknown value, and is checked. \<open>json_bytes\<close>, the UTF-8 length of the JSON text of a
  value, is a parameter.
\<close>

section \<open>Drafts\<close>

record draft_image =
  di_name :: string
  di_mime :: string
  di_data :: string

record pending_submission =
  sb_prompt :: string
  sb_key :: string
  sb_context :: "jsval list"
  sb_attachments :: "draft_image list"
  sb_intent :: "string option"
  sb_interrupt :: "string option"

record message_draft =
  md_text :: string
  md_saved :: string
  md_dirty :: bool
  md_revision :: "int option"
  md_context :: "jsval list option"
  md_saved_context :: "jsval list option"
  md_attachments :: "draft_image list option"
  md_submission :: "pending_submission option"

definition image_value :: "draft_image \<Rightarrow> jsval" where
  "image_value i = JObj [(''name'', JStr (di_name i)), (''mime'', JStr (di_mime i)), (''data'', JStr (di_data i))]"

definition optional_field :: "string \<Rightarrow> jsval option \<Rightarrow> (string \<times> jsval) list" where
  "optional_field k v = (case v of None \<Rightarrow> [] | Some x \<Rightarrow> [(k, x)])"

text \<open>The object of a submission, with the given value for its attachments.\<close>

definition submission_value :: "pending_submission \<Rightarrow> jsval \<Rightarrow> jsval" where
  "submission_value b images = JObj ([(''prompt'', JStr (sb_prompt b)), (''key'', JStr (sb_key b)), (''context'', JArr (sb_context b)), (''attachments'', images)] @
     optional_field ''intent'' (map_option JStr (sb_intent b)) @ optional_field ''interruptTask'' (map_option JStr (sb_interrupt b)))"

definition images_value :: "draft_image list \<Rightarrow> jsval" where
  "images_value is = JArr (map image_value is)"

definition draft_fields :: "message_draft \<Rightarrow> jsval option \<Rightarrow> jsobj" where
  "draft_fields d submission = ([(''text'', JStr (md_text d)), (''saved'', JStr (md_saved d)), (''dirty'', JBool (md_dirty d))] @
     optional_field ''revision'' (map_option js_int (md_revision d)) @ optional_field ''context'' (map_option JArr (md_context d)) @
     optional_field ''savedContext'' (map_option JArr (md_saved_context d)) @ optional_field ''attachments'' (map_option images_value (md_attachments d)) @
     optional_field ''submission'' submission)"

definition draft_value :: "message_draft \<Rightarrow> jsval" where
  "draft_value d = JObj (draft_fields d (map_option (\<lambda>b. submission_value b (images_value (sb_attachments b))) (md_submission d)))"

section \<open>The wire form\<close>

definition image_reference :: "nat \<Rightarrow> jsval" where
  "image_reference n = JObj [(''kind'', JStr ''draft-attachments-v1''), (''count'', js_int (int n))]"

text \<open>Pending images that are the draft's own images travel once.\<close>

definition shares_images :: "message_draft \<Rightarrow> pending_submission \<Rightarrow> bool" where
  "shares_images d b \<longleftrightarrow> (case md_attachments d of None \<Rightarrow> False | Some is \<Rightarrow> is \<noteq> [] \<and> is = sb_attachments b)"

definition encode_draft :: "message_draft \<Rightarrow> jsval" where
  "encode_draft d = JObj (draft_fields d (map_option (\<lambda>b. submission_value b
     (if shares_images d b then image_reference (length (sb_attachments b)) else images_value (sb_attachments b))) (md_submission d)))"

definition image_types :: "string list" where
  "image_types = [''image/png'', ''image/jpeg'', ''image/webp'']"

fun valid_image :: "jsval \<Rightarrow> bool" where
  "valid_image (JObj o') = (is_str (jget o' ''name'') \<and> length (text_of (jget o' ''name'')) \<le> 255 \<and> is_str (jget o' ''mime'')
     \<and> text_of (jget o' ''mime'') \<in> set image_types \<and> is_str (jget o' ''data'') \<and> length (text_of (jget o' ''data'')) \<le> 2800000)"
| "valid_image _ = False"

fun image_list :: "jsval \<Rightarrow> bool" where
  "image_list (JArr vs) = (length vs \<le> 4 \<and> list_all valid_image vs)"
| "image_list _ = False"

definition short_array :: "jsval \<Rightarrow> bool" where
  "short_array v = (case v of JArr vs \<Rightarrow> length vs \<le> 16 | _ \<Rightarrow> False)"

definition short_text :: "nat \<Rightarrow> jsval \<Rightarrow> bool" where
  "short_text n v = (is_str v \<and> length (text_of v) \<le> n)"

definition valid_submission :: "(jsval \<Rightarrow> nat) \<Rightarrow> jsobj \<Rightarrow> bool" where
  "valid_submission json_bytes p \<longleftrightarrow>
     short_text 64000 (jget p ''prompt'') \<and> short_text 200 (jget p ''key'') \<and> jget p ''key'' \<noteq> JStr [] \<and> short_array (jget p ''context'')
     \<and> json_bytes (jget p ''context'') \<le> 256000
     \<and> (jget p ''intent'' = JUndef \<or> jget p ''intent'' \<in> {JStr ''send'', JStr ''queue'', JStr ''interrupt''})
     \<and> (jget p ''interruptTask'' = JUndef \<or> short_text 128 (jget p ''interruptTask''))"

text \<open>A reference names exactly the images that came with the draft.\<close>

definition valid_reference :: "jsobj \<Rightarrow> jsval \<Rightarrow> bool" where
  "valid_reference r images \<longleftrightarrow> length r = 2 \<and> map_of r ''kind'' \<noteq> None \<and> map_of r ''count'' \<noteq> None \<and> jget r ''kind'' = JStr ''draft-attachments-v1''
     \<and> (case images of JArr is \<Rightarrow> jget r ''count'' = js_int (int (length is)) \<and> 1 \<le> length is \<and> length is \<le> 4 | _ \<Rightarrow> False)"

definition handoff_error :: "string \<Rightarrow> js_error + 'a" where
  "handoff_error what = Inl (JsError (''Invalid '' @ what @ '' handoff''))"

definition decode_submission :: "(jsval \<Rightarrow> nat) \<Rightarrow> jsval \<Rightarrow> jsval \<Rightarrow> js_error + jsval" where
  "decode_submission json_bytes images pending =
     (case pending of
        JObj p \<Rightarrow>
          if \<not> valid_submission json_bytes p then handoff_error ''pending message''
          else (case jget p ''attachments'' of
                  JObj r \<Rightarrow> if valid_reference r images then Inr (JObj (AList.update ''attachments'' images p))
                            else Inl (JsError ''Invalid pending message image reference'')
                | v \<Rightarrow> if image_list v then Inr pending else handoff_error ''pending message image'')
      | _ \<Rightarrow> handoff_error ''pending message'')"

definition decode_draft :: "(jsval \<Rightarrow> nat) \<Rightarrow> jsval \<Rightarrow> js_error + jsval" where
  "decode_draft json_bytes value =
     (case value of
        JObj o' \<Rightarrow>
          if \<not> (short_text 64000 (jget o' ''text'') \<and> is_str (jget o' ''saved'') \<and> (jget o' ''context'' = JUndef \<or> short_array (jget o' ''context'')))
          then handoff_error ''conversation draft''
          else if jget o' ''attachments'' \<noteq> JUndef \<and> \<not> image_list (jget o' ''attachments'') then handoff_error ''image attachment''
          else if jget o' ''submission'' = JUndef then Inr value
          else (case decode_submission json_bytes (jget o' ''attachments'') (jget o' ''submission'') of
                  Inl e \<Rightarrow> Inl e
                | Inr p \<Rightarrow> Inr (JObj (AList.update ''submission'' p o')))
      | _ \<Rightarrow> handoff_error ''conversation draft'')"

section \<open>Round trip\<close>

definition image_ok :: "draft_image \<Rightarrow> bool" where
  "image_ok i \<longleftrightarrow> length (di_name i) \<le> 255 \<and> di_mime i \<in> set image_types \<and> length (di_data i) \<le> 2800000"

definition submission_ok :: "(jsval \<Rightarrow> nat) \<Rightarrow> pending_submission \<Rightarrow> bool" where
  "submission_ok json_bytes b \<longleftrightarrow> length (sb_prompt b) \<le> 64000 \<and> sb_key b \<noteq> [] \<and> length (sb_key b) \<le> 200 \<and> length (sb_context b) \<le> 16
     \<and> json_bytes (JArr (sb_context b)) \<le> 256000 \<and> length (sb_attachments b) \<le> 4 \<and> list_all image_ok (sb_attachments b)
     \<and> (case sb_intent b of None \<Rightarrow> True | Some i \<Rightarrow> i \<in> {''send'', ''queue'', ''interrupt''})
     \<and> (case sb_interrupt b of None \<Rightarrow> True | Some t \<Rightarrow> length t \<le> 128)"

definition draft_ok :: "(jsval \<Rightarrow> nat) \<Rightarrow> message_draft \<Rightarrow> bool" where
  "draft_ok json_bytes d \<longleftrightarrow> length (md_text d) \<le> 64000 \<and> (case md_context d of None \<Rightarrow> True | Some c \<Rightarrow> length c \<le> 16)
     \<and> (case md_attachments d of None \<Rightarrow> True | Some is \<Rightarrow> length is \<le> 4 \<and> list_all image_ok is)
     \<and> (case md_submission d of None \<Rightarrow> True | Some b \<Rightarrow> submission_ok json_bytes b)"

lemma valid_image_value [simp]: "valid_image (image_value i) = image_ok i"
  by (simp add: image_value_def image_ok_def jget_def)

lemma image_list_value [simp]: "image_list (images_value is) = (length is \<le> 4 \<and> list_all image_ok is)"
  by (simp add: images_value_def list_all_iff)

lemma jget_Cons [simp]: "jget ((k, v) # xs) l = (if k = l then v else jget xs l)"
  by (simp add: jget_def)

lemma jget_optional [simp]: "jget (optional_field k v @ xs) l = (if k = l then (case v of None \<Rightarrow> jget xs l | Some x \<Rightarrow> x) else jget xs l)"
  "jget (optional_field k v) l = (if k = l then (case v of None \<Rightarrow> JUndef | Some x \<Rightarrow> x) else JUndef)"
  by (simp_all add: optional_field_def split: option.split)

lemma update_optional_other [simp]:
  "k \<noteq> l \<Longrightarrow> AList.update l x (optional_field k v @ xs) = optional_field k v @ AList.update l x xs"
  by (simp add: optional_field_def split: option.split)

lemma update_optional_same [simp]: "AList.update k x (optional_field k (Some v)) = optional_field k (Some x)"
  by (simp add: optional_field_def)

lemma draft_fields_get:
  "jget (draft_fields d b) ''text'' = JStr (md_text d)" "jget (draft_fields d b) ''saved'' = JStr (md_saved d)"
  "jget (draft_fields d b) ''context'' = (case md_context d of None \<Rightarrow> JUndef | Some c \<Rightarrow> JArr c)"
  "jget (draft_fields d b) ''attachments'' = (case md_attachments d of None \<Rightarrow> JUndef | Some is \<Rightarrow> images_value is)"
  "jget (draft_fields d b) ''submission'' = (case b of None \<Rightarrow> JUndef | Some x \<Rightarrow> x)"
  by (simp_all add: draft_fields_def split: option.split)

lemma draft_fields_submission: "AList.update ''submission'' x (draft_fields d (Some y)) = draft_fields d (Some x)"
  by (simp add: draft_fields_def)

definition submission_fields :: "pending_submission \<Rightarrow> jsval \<Rightarrow> jsobj" where
  "submission_fields b images = (case submission_value b images of JObj o' \<Rightarrow> o' | _ \<Rightarrow> [])"

lemma submission_value_fields: "submission_value b images = JObj (submission_fields b images)"
  by (simp add: submission_fields_def submission_value_def)

lemma submission_fields_get:
  "jget (submission_fields b v) ''prompt'' = JStr (sb_prompt b)" "jget (submission_fields b v) ''key'' = JStr (sb_key b)"
  "jget (submission_fields b v) ''context'' = JArr (sb_context b)" "jget (submission_fields b v) ''attachments'' = v"
  "jget (submission_fields b v) ''intent'' = (case sb_intent b of None \<Rightarrow> JUndef | Some i \<Rightarrow> JStr i)"
  "jget (submission_fields b v) ''interruptTask'' = (case sb_interrupt b of None \<Rightarrow> JUndef | Some i \<Rightarrow> JStr i)"
  by (simp_all add: submission_fields_def submission_value_def split: option.split)

lemma submission_fields_attachments: "AList.update ''attachments'' w (submission_fields b v) = submission_fields b w"
  by (simp add: submission_fields_def submission_value_def)

lemma valid_submission_fields: "submission_ok json_bytes b \<Longrightarrow> valid_submission json_bytes (submission_fields b v)"
  by (auto simp: valid_submission_def submission_fields_get submission_ok_def short_text_def short_array_def split: option.splits)

lemma valid_reference_own:
  "images \<noteq> [] \<Longrightarrow> length images \<le> 4 \<Longrightarrow> image_reference (length images) = JObj r \<Longrightarrow> valid_reference r (images_value images)"
  by (cases images) (auto simp: valid_reference_def image_reference_def images_value_def)

lemma decode_own_submission:
  assumes b: "submission_ok json_bytes b" and d: "case md_attachments d of None \<Rightarrow> True | Some is \<Rightarrow> length is \<le> 4 \<and> list_all image_ok is"
  shows "decode_submission json_bytes (case md_attachments d of None \<Rightarrow> JUndef | Some is \<Rightarrow> images_value is)
      (submission_value b (if shares_images d b then image_reference (length (sb_attachments b)) else images_value (sb_attachments b)))
    = Inr (submission_value b (images_value (sb_attachments b)))"
proof (cases "shares_images d b")
  case True
  then obtain "is" where i: "md_attachments d = Some is" "is \<noteq> []" "is = sb_attachments b"
    by (auto simp: shares_images_def split: option.splits)
  obtain r where r: "image_reference (length (sb_attachments b)) = JObj r" by (simp add: image_reference_def)
  have "valid_reference r (images_value (sb_attachments b))"
    using valid_reference_own [of "sb_attachments b" r] i d r by simp
  then show ?thesis
    using True b i r
    by (simp add: decode_submission_def submission_value_fields valid_submission_fields submission_fields_get submission_fields_attachments)
next
  case False
  then show ?thesis
    using b by (simp add: decode_submission_def submission_value_fields valid_submission_fields submission_fields_get)
      (simp add: images_value_def submission_ok_def list_all_iff)
qed

lemma draft_handoff_roundtrip_aux:
  assumes "draft_ok json_bytes d"
  shows "decode_draft json_bytes (encode_draft d) = Inr (draft_value d)"
proof (cases "md_submission d")
  case None
  then show ?thesis
    using assms by (auto simp: decode_draft_def encode_draft_def draft_value_def draft_fields_get short_text_def short_array_def draft_ok_def split: option.splits)
next
  case (Some b)
  have "submission_value b v \<noteq> JUndef" for v by (simp add: submission_value_def)
  then show ?thesis
    using assms Some decode_own_submission [of json_bytes b d]
    by (auto simp: decode_draft_def encode_draft_def draft_value_def draft_fields_get draft_fields_submission short_text_def short_array_def draft_ok_def
        split: option.splits)
qed

text \<open>C9. A draft of valid size that moves to another window arrives whole: pending images sent as a
  reference come back as the images themselves, and nothing else changes.\<close>

theorem draft_handoff_roundtrip:
  assumes "draft_ok json_bytes d"
  shows "decode_draft json_bytes (encode_draft d) = Inr (draft_value d)"
  using assms by (rule draft_handoff_roundtrip_aux)

text \<open>Whatever another window sends, what is accepted holds at most four images of the known types
  and sizes for the message and for the pending submission, and no reference is left in it.\<close>

theorem decoded_draft_bounded:
  assumes "decode_draft json_bytes v = Inr w"
  shows "\<exists>o'. w = JObj o' \<and> length (text_of (jget o' ''text'')) \<le> 64000
    \<and> (jget o' ''attachments'' = JUndef \<or> image_list (jget o' ''attachments''))
    \<and> (jget o' ''submission'' = JUndef \<or> (\<exists>p. jget o' ''submission'' = JObj p \<and> image_list (jget p ''attachments'') \<and> valid_submission json_bytes p))"
proof -
  obtain f where v: "v = JObj f" "short_text 64000 (jget f ''text'')" "jget f ''attachments'' = JUndef \<or> image_list (jget f ''attachments'')"
    using assms by (auto simp: decode_draft_def handoff_error_def split: jsval.splits if_splits)
  show ?thesis
  proof (cases "jget f ''submission'' = JUndef")
    case True
    then show ?thesis using assms v by (auto simp: decode_draft_def handoff_error_def short_text_def split: if_splits)
  next
    case False
    then obtain q where q: "decode_submission json_bytes (jget f ''attachments'') (jget f ''submission'') = Inr q" "w = JObj (AList.update ''submission'' q f)"
      using assms v by (auto simp: decode_draft_def handoff_error_def split: if_splits sum.splits)
    obtain p where p: "jget f ''submission'' = JObj p" "valid_submission json_bytes p"
      using q(1) by (auto simp: decode_submission_def handoff_error_def split: jsval.splits if_splits)
    have upd: "jget (AList.update k x g) l = (if k = l then x else jget g l)" for k x l and g :: jsobj
      by (simp add: jget_def update_conv')
    have "\<exists>p'. q = JObj p' \<and> image_list (jget p' ''attachments'') \<and> valid_submission json_bytes p'"
    proof (cases "\<exists>r. jget p ''attachments'' = JObj r")
      case True
      then obtain r where r: "jget p ''attachments'' = JObj r" by blast
      then have "valid_reference r (jget f ''attachments'')" "q = JObj (AList.update ''attachments'' (jget f ''attachments'') p)"
        using q(1) p by (auto simp: decode_submission_def handoff_error_def split: if_splits)
      moreover have "jget f ''attachments'' \<noteq> JUndef" using calculation(1) by (auto simp: valid_reference_def)
      ultimately show ?thesis
        using v(3) p(2) by (simp add: upd valid_submission_def)
    next
      case False
      then have "image_list (jget p ''attachments'') \<and> q = JObj p"
        using q(1) p by (auto simp: decode_submission_def handoff_error_def split: jsval.splits if_splits)
      then show ?thesis using p(2) by blast
    qed
    then show ?thesis using v q(2) by (auto simp: upd short_text_def)
  qed
qed

definition sample_image :: draft_image where
  "sample_image = \<lparr>di_name = ''a.png'', di_mime = ''image/png'', di_data = ''iVBOR''\<rparr>"

definition sample_submission :: pending_submission where
  "sample_submission = \<lparr>sb_prompt = ''hi'', sb_key = ''k1'', sb_context = [], sb_attachments = [sample_image], sb_intent = Some ''send'', sb_interrupt = None\<rparr>"

definition sample_draft :: message_draft where
  "sample_draft = \<lparr>md_text = ''hi'', md_saved = [], md_dirty = True, md_revision = Some 4, md_context = None, md_saved_context = None,
     md_attachments = Some [sample_image], md_submission = Some sample_submission\<rparr>"

lemmas sample_draft_defs = sample_draft_def sample_submission_def sample_image_def

lemma sample_draft_ok: "draft_ok (\<lambda>_. 2) sample_draft"
  by (simp add: draft_ok_def submission_ok_def image_ok_def image_types_def sample_draft_defs)

theorem draft_handoff_roundtrip_witness:
  "decode_draft (\<lambda>_. 2) (encode_draft sample_draft) = Inr (draft_value sample_draft) \<and> encode_draft sample_draft \<noteq> draft_value sample_draft"
proof -
  have "encode_draft sample_draft \<noteq> draft_value sample_draft"
    by (simp add: encode_draft_def draft_value_def draft_fields_def optional_field_def submission_value_def shares_images_def
        image_reference_def images_value_def sample_draft_defs)
  then show ?thesis using draft_handoff_roundtrip [OF sample_draft_ok] by blast
qed

theorem decoded_draft_bounded_witness:
  "\<exists>o'. draft_value sample_draft = JObj o' \<and> image_list (jget o' ''attachments'')"
proof -
  have "\<exists>o'. draft_value sample_draft = JObj o' \<and> (jget o' ''attachments'' = JUndef \<or> image_list (jget o' ''attachments''))"
    using decoded_draft_bounded [OF draft_handoff_roundtrip_aux [OF sample_draft_ok]] by blast
  moreover have "draft_value sample_draft = JObj o' \<Longrightarrow> jget o' ''attachments'' \<noteq> JUndef" for o'
    by (auto simp: draft_value_def draft_fields_get sample_draft_defs images_value_def)
  ultimately show ?thesis by blast
qed

section \<open>Context items\<close>

definition js_property :: "jsval \<Rightarrow> string \<Rightarrow> jsval" where
  "js_property v k = (case v of JObj o' \<Rightarrow> jget o' k | _ \<Rightarrow> JUndef)"

definition is_upload :: "jsval \<Rightarrow> bool" where
  "is_upload item \<longleftrightarrow> js_property item ''type'' = JStr ''approved-browser-upload''"

definition context_item :: "jsval \<Rightarrow> jsval option" where
  "context_item v =
     (if is_record v \<and> js_property v ''type'' \<in> {JStr ''browser-context'', JStr ''approved-browser-upload''} then Some v else None)"

definition context_source :: "jsval \<Rightarrow> jsval" where
  "context_source item = js_property item (if is_upload item then ''file'' else ''context'')"

text \<open>\<open>to_text\<close> is \<open>String\<close>.\<close>

definition context_label :: "(jsval \<Rightarrow> string) \<Rightarrow> jsval \<Rightarrow> string" where
  "context_label to_text item =
     (let src = context_source item in
      to_text (js_or (js_property src ''filename'') (js_or (js_property src ''name'') (js_or (js_property src ''title'')
        (js_or (js_property src ''url'') (JStr (if is_upload item then ''Browser upload'' else ''Page snapshot'')))))))"

definition context_description :: "(jsval \<Rightarrow> string) \<Rightarrow> jsval \<Rightarrow> string" where
  "context_description to_text item =
     (let src = context_source item; dot = '' '' @ [CHR 0xB7] @ '' '' in
      if is_upload item then ''Approved file reference'' @ dot @ ''tab '' @ to_text (js_or (js_property item ''tab_id'') (JStr []))
      else to_text (js_or (js_property src ''url'') (JStr [])) @
        (if truthy (js_property src ''document_revision'') then dot @ ''revision '' @ to_text (js_property src ''document_revision'') else []))"

definition or_empty :: "'a list option \<Rightarrow> 'a list" where
  "or_empty x = (case x of None \<Rightarrow> [] | Some xs \<Rightarrow> xs)"

definition same_context :: "jsval list option \<Rightarrow> jsval list option \<Rightarrow> bool" where
  "same_context a b \<longleftrightarrow> or_empty a = or_empty b"

section \<open>Writing a draft back\<close>

record host_draft =
  hd_revision :: int
  hd_text :: string
  hd_context :: "jsval list option"

record draft_patch =
  dp_revision :: int
  dp_text :: string
  dp_context :: "jsval list"

type_synonym draft_store = "string \<rightharpoonup> message_draft"

definition busy_error :: js_error where
  "busy_error = JsError ''Wait for the message to finish dispatching before returning this window''"

definition other_draft_error :: js_error where
  "other_draft_error = JsError ''The conversation has another unsent draft. Resolve it before returning this window. Your local draft remains here.''"

definition draft_conflict :: "message_draft \<Rightarrow> host_draft \<Rightarrow> bool" where
  "draft_conflict d cur \<longleftrightarrow> (hd_text cur \<noteq> md_saved d \<and> hd_text cur \<noteq> md_text d)
     \<or> (\<not> same_context (hd_context cur) (md_saved_context d) \<and> \<not> same_context (hd_context cur) (md_context d))"

text \<open>\<open>flushRedockDraft\<close>: what the host answers to the read and to the write are arguments; the
  result holds the writes that were sent.\<close>

definition flush_redock_draft ::
  "string set \<Rightarrow> js_error + host_draft \<Rightarrow> (draft_patch \<Rightarrow> js_error + host_draft) \<Rightarrow> string \<Rightarrow> draft_store
    \<Rightarrow> (js_error + unit) \<times> draft_patch list \<times> draft_store" where
  "flush_redock_draft submitting read write sid store =
     (if sid \<in> submitting then (Inl busy_error, [], store)
      else case store sid of
        None \<Rightarrow> (Inr (), [], store)
      | Some d \<Rightarrow>
          if \<not> md_dirty d then (Inr (), [], store)
          else case read of
            Inl e \<Rightarrow> (Inl e, [], store)
          | Inr cur \<Rightarrow>
              if draft_conflict d cur then (Inl other_draft_error, [], store)
              else (let p = \<lparr>dp_revision = hd_revision cur, dp_text = md_text d, dp_context = or_empty (md_context d)\<rparr> in
                    case write p of
                      Inl e \<Rightarrow> (Inl e, [p], store)
                    | Inr saved \<Rightarrow> (Inr (), [p], store(sid \<mapsto> d\<lparr>md_saved := hd_text saved, md_saved_context := Some (or_empty (hd_context saved)),
                        md_dirty := False, md_revision := Some (hd_revision saved)\<rparr>))))"

text \<open>A draft is written back only over the text and context this window saved itself or already
  wrote, and under the revision just read; when anything fails the draft in memory is as it was.\<close>

theorem draft_never_overwritten:
  assumes "flush_redock_draft submitting read write sid store = (result, sent, store')"
  shows "(\<forall>p \<in> set sent. \<exists>d cur. store sid = Some d \<and> read = Inr cur \<and> dp_revision p = hd_revision cur \<and> dp_text p = md_text d
        \<and> (hd_text cur = md_saved d \<or> hd_text cur = md_text d)
        \<and> (same_context (hd_context cur) (md_saved_context d) \<or> same_context (hd_context cur) (md_context d)))
    \<and> length sent \<le> 1 \<and> (result \<noteq> Inr () \<longrightarrow> store' = store) \<and> (\<forall>i. i \<noteq> sid \<longrightarrow> store' i = store i)"
  using assms by (auto simp: flush_redock_draft_def draft_conflict_def Let_def split: if_splits option.splits sum.splits)

theorem draft_never_overwritten_witness:
  "\<exists>store'. flush_redock_draft {} (Inr \<lparr>hd_revision = 9, hd_text = [], hd_context = None\<rparr>)
      (\<lambda>p. Inr \<lparr>hd_revision = 10, hd_text = dp_text p, hd_context = Some (dp_context p)\<rparr>) ''c'' [''c'' \<mapsto> sample_draft]
    = (Inr (), [\<lparr>dp_revision = 9, dp_text = ''hi'', dp_context = []\<rparr>], store') \<and> store' ''d'' = None"
proof -
  obtain store' where s: "flush_redock_draft {} (Inr \<lparr>hd_revision = 9, hd_text = [], hd_context = None\<rparr>)
      (\<lambda>p. Inr \<lparr>hd_revision = 10, hd_text = dp_text p, hd_context = Some (dp_context p)\<rparr>) ''c'' [''c'' \<mapsto> sample_draft]
    = (Inr (), [\<lparr>dp_revision = 9, dp_text = ''hi'', dp_context = []\<rparr>], store')"
    by (simp add: flush_redock_draft_def sample_draft_def draft_conflict_def same_context_def or_empty_def)
  with draft_never_overwritten [OF s] show ?thesis by auto
qed

text \<open>\<open>acceptTransferredDraft\<close>: the main workspace takes a draft only when it hides no unsent text,
  image or submission of its own.\<close>

definition hides_unsent :: "message_draft \<Rightarrow> message_draft \<Rightarrow> bool" where
  "hides_unsent old new \<longleftrightarrow>
     (md_dirty old \<and> (md_text old \<noteq> md_text new \<or> \<not> same_context (md_context old) (md_context new)))
     \<or> (or_empty (md_attachments old) \<noteq> [] \<and> or_empty (md_attachments old) \<noteq> or_empty (md_attachments new))
     \<or> (md_submission old \<noteq> None \<and> md_submission old \<noteq> md_submission new)"

definition accept_transferred :: "string \<Rightarrow> message_draft option \<Rightarrow> draft_store \<Rightarrow> js_error + draft_store" where
  "accept_transferred sid new store =
     (case (new, store sid) of
        (Some n, Some old) \<Rightarrow> if hides_unsent old n then Inl (JsError ''Main workspace has a different unsent draft. Keep both windows open to review it.'')
          else Inr (store(sid \<mapsto> n))
      | (Some n, None) \<Rightarrow> Inr (store(sid \<mapsto> n))
      | (None, _) \<Rightarrow> Inr store)"

theorem accepted_draft_keeps_unsent:
  assumes "accept_transferred sid new store = Inr store'" "store sid = Some old"
  shows "\<exists>d. store' sid = Some d \<and> (md_dirty old \<longrightarrow> md_text d = md_text old \<and> same_context (md_context old) (md_context d))
    \<and> (or_empty (md_attachments old) \<noteq> [] \<longrightarrow> or_empty (md_attachments d) = or_empty (md_attachments old))
    \<and> (md_submission old \<noteq> None \<longrightarrow> md_submission d = md_submission old)"
  using assms by (auto simp: accept_transferred_def hides_unsent_def same_context_def split: option.splits if_splits)

theorem accepted_draft_keeps_unsent_witness:
  "\<exists>d. [''c'' \<mapsto> sample_draft] ''c'' = Some d \<and> md_text d = ''hi''"
proof -
  have "accept_transferred ''c'' (Some sample_draft) [''c'' \<mapsto> sample_draft] = Inr [''c'' \<mapsto> sample_draft]"
    by (simp add: accept_transferred_def hides_unsent_def same_context_def)
  from accepted_draft_keeps_unsent [OF this, of sample_draft] show ?thesis by (simp add: sample_draft_def)
qed

section \<open>The journal of windows\<close>

record journal_draft =
  jd_owner :: string
  jd_slot :: string
  jd_session :: string
  jd_draft :: jsval

record window_record =
  wr_slot :: string
  wr_owner :: string
  wr_session :: "string option"
  wr_panel :: string
  wr_parent :: "string option"
  wr_token :: "string option"
  wr_updated :: rat

record window_journal =
  wj_windows :: "(string \<times> window_record) list"
  wj_drafts :: "(string \<times> journal_draft) list"

definition find_window :: "string \<Rightarrow> string \<Rightarrow> window_journal \<Rightarrow> window_record option" where
  "find_window owner slot j = find (\<lambda>r. wr_owner r = owner \<and> wr_slot r = slot) (map snd (wj_windows j))"

definition register_window :: "window_record \<Rightarrow> window_journal \<Rightarrow> window_journal" where
  "register_window r j = j\<lparr>wj_windows := AList.update (json_strings [wr_owner r, wr_slot r]) r (wj_windows j)\<rparr>"

text \<open>\<open>parent\<close> and \<open>token\<close> are the ones of the first record, else those of the address.\<close>

definition persist_window ::
  "string \<Rightarrow> string option \<Rightarrow> string option \<Rightarrow> rat \<Rightarrow> string \<Rightarrow> string option \<Rightarrow> string \<Rightarrow> window_journal \<Rightarrow> window_journal" where
  "persist_window slot parent token now owner session panel j =
     (let old = find_window owner slot j;
          keep = (\<lambda>f v. case old of None \<Rightarrow> v | Some r \<Rightarrow> if truthy_text (f r) then f r else v)
      in register_window \<lparr>wr_slot = slot, wr_owner = owner, wr_session = session, wr_panel = panel, wr_parent = keep wr_parent parent,
           wr_token = keep wr_token token, wr_updated = now\<rparr> j)"

definition persist_window_draft :: "string \<Rightarrow> string \<Rightarrow> string \<Rightarrow> message_draft \<Rightarrow> window_journal \<Rightarrow> window_journal" where
  "persist_window_draft slot owner session d j =
     j\<lparr>wj_drafts := AList.update (json_strings [owner, slot, session])
        \<lparr>jd_owner = owner, jd_slot = slot, jd_session = session, jd_draft = encode_draft d\<rparr> (wj_drafts j)\<rparr>"

text \<open>Restoring: what is in memory wins; a draft that does not decode ends the loop with its error.
  \<open>store\<close> holds the decoded objects.\<close>

fun restore_window_drafts ::
  "(jsval \<Rightarrow> nat) \<Rightarrow> string \<Rightarrow> string \<Rightarrow> journal_draft list \<Rightarrow> (string \<rightharpoonup> jsval) \<Rightarrow> (js_error + unit) \<times> (string \<rightharpoonup> jsval)" where
  "restore_window_drafts json_bytes owner slot [] store = (Inr (), store)"
| "restore_window_drafts json_bytes owner slot (r # rs) store =
     (if jd_owner r = owner \<and> jd_slot r = slot \<and> store (jd_session r) = None
      then (case decode_draft json_bytes (jd_draft r) of
              Inl e \<Rightarrow> (Inl e, store)
            | Inr d \<Rightarrow> restore_window_drafts json_bytes owner slot rs (store(jd_session r \<mapsto> d)))
      else restore_window_drafts json_bytes owner slot rs store)"

definition js_length :: "jsval \<Rightarrow> nat" where
  "js_length v = (case v of JArr vs \<Rightarrow> length vs | JStr s \<Rightarrow> length s | _ \<Rightarrow> 0)"

definition has_unsent_draft :: "jsval \<Rightarrow> bool" where
  "has_unsent_draft d \<longleftrightarrow> trim (text_of (js_property d ''text'')) \<noteq> [] \<or> js_length (js_property d ''context'') > 0
     \<or> js_length (js_property d ''attachments'') > 0 \<or> truthy (js_property d ''submission'')"

definition recoverable_windows :: "string \<Rightarrow> string \<Rightarrow> window_journal \<Rightarrow> (window_record \<times> nat) list" where
  "recoverable_windows owner slot j =
     map (\<lambda>r. (r, length (filter (\<lambda>d. jd_owner d = owner \<and> jd_slot d = wr_slot r \<and> has_unsent_draft (jd_draft d)) (map snd (wj_drafts j)))))
       (filter (\<lambda>r. wr_owner r = owner \<and> wr_slot r \<noteq> slot) (map snd (wj_windows j)))"

definition drop_window_journal :: "string \<Rightarrow> string \<Rightarrow> window_journal \<Rightarrow> window_journal" where
  "drop_window_journal owner slot j =
     j\<lparr>wj_windows := AList.delete (json_strings [owner, slot]) (wj_windows j),
       wj_drafts := filter (\<lambda>(k, d). \<not> (jd_owner d = owner \<and> jd_slot d = slot)) (wj_drafts j)\<rparr>"

lemma restore_keeps_memory:
  "store i = Some d \<Longrightarrow> snd (restore_window_drafts json_bytes owner slot rs store) i = Some d"
proof (induction rs arbitrary: store)
  case (Cons r rs)
  have "store (jd_session r) = None \<Longrightarrow> (store(jd_session r \<mapsto> x)) i = Some d" for x
    using Cons.prems by auto
  then show ?case using Cons.IH Cons.prems by (simp split: sum.split)
qed simp

text \<open>A window that loses its page finds its drafts again: what it wrote to the journal for this
  account and window is read back whole, and a draft already in memory is never replaced.\<close>

theorem journal_draft_restored:
  assumes "draft_ok json_bytes d" "store session = None" "wj_drafts j = []"
  shows "restore_window_drafts json_bytes owner slot (map snd (wj_drafts (persist_window_draft slot owner session d j))) store
      = (Inr (), store(session \<mapsto> draft_value d))
    \<and> (\<forall>i x rs. store i = Some x \<longrightarrow> snd (restore_window_drafts json_bytes owner slot rs store) i = Some x)"
proof -
  have "decode_draft json_bytes (encode_draft d) = Inr (draft_value d)"
    using draft_handoff_roundtrip_aux [OF assms(1)] .
  then show ?thesis
    using assms(2,3) restore_keeps_memory by (auto simp: persist_window_draft_def)
qed

theorem journal_draft_restored_witness:
  "restore_window_drafts (\<lambda>_. 2) ''ana'' ''w1'' (map snd (wj_drafts (persist_window_draft ''w1'' ''ana'' ''c'' sample_draft \<lparr>wj_windows = [], wj_drafts = []\<rparr>))) Map.empty
    = (Inr (), [''c'' \<mapsto> draft_value sample_draft])"
  using journal_draft_restored [OF sample_draft_ok] by auto

end
