(* ===== verification/LanguageServer.thy ===== *)
theory LanguageServer
  imports WebStorage DraftHandoff
begin

text \<open>
  \<open>lib/lsp.ts\<close>: the JSON-RPC client of a language server over one socket, as a machine whose events are
  what the socket, the timers and the editor do; and the file URIs it exchanges. The diagnostics callback
  does not throw. The browser's URL parser is an argument of \<open>relative_file_uri\<close>.
\<close>

section \<open>The client\<close>

datatype lsp_outcome = LspResolved jsval | LspRejected string

datatype lsp_message = LspCall nat string jsval | LspNotify string jsval | LspReply jsval jsval

datatype lsp_ready = LspStarting | LspReady | LspFailed string

datatype lsp_socket = SocketConnecting | SocketOpen | SocketClosed

record lsp_client =
  lc_stopped :: bool
  lc_sequence :: nat
  lc_pending :: "(nat \<times> string) list"
  lc_settled :: "(nat \<times> lsp_outcome) list"
  lc_ready :: lsp_ready
  lc_capabilities :: jsval
  lc_socket :: lsp_socket
  lc_sent :: "lsp_message list"
  lc_diagnostics :: "(jsval \<times> jsval) list"
  lc_reports :: "string list"

definition lsp_start :: lsp_client where
  "lsp_start = \<lparr>lc_stopped = False, lc_sequence = 0, lc_pending = [], lc_settled = [], lc_ready = LspStarting,
     lc_capabilities = JObj [], lc_socket = SocketConnecting, lc_sent = [], lc_diagnostics = [], lc_reports = []\<rparr>"

definition lsp_report :: "string \<Rightarrow> lsp_client \<Rightarrow> lsp_client" where
  "lsp_report m c = c\<lparr>lc_reports := lc_reports c @ [m]\<rparr>"

definition lsp_send :: "lsp_message \<Rightarrow> lsp_client \<Rightarrow> lsp_client" where
  "lsp_send m c = (if lc_socket c = SocketOpen then c\<lparr>lc_sent := lc_sent c @ [m]\<rparr> else c)"

definition lsp_call :: "string \<Rightarrow> jsval \<Rightarrow> lsp_client \<Rightarrow> lsp_client" where
  "lsp_call meth params c =
     (let i = lc_sequence c + 1 in lsp_send (LspCall i meth params) (c\<lparr>lc_sequence := i, lc_pending := lc_pending c @ [(i, meth)]\<rparr>))"

definition lsp_notify :: "string \<Rightarrow> jsval \<Rightarrow> lsp_client \<Rightarrow> lsp_client" where
  "lsp_notify meth params c = lsp_send (LspNotify meth params) c"

text \<open>\<open>ready\<close> settles once; its rejection is reported unless the client was closed.\<close>

definition ready_fails :: "string \<Rightarrow> lsp_client \<Rightarrow> lsp_client" where
  "ready_fails m c =
     (if lc_ready c = LspStarting
      then (if lc_stopped c then c\<lparr>lc_ready := LspFailed m\<rparr> else lsp_report m (c\<lparr>lc_ready := LspFailed m\<rparr>)) else c)"

definition ready_settles :: "lsp_client \<Rightarrow> lsp_client" where
  "ready_settles c = (if lc_ready c = LspStarting then c\<lparr>lc_ready := LspReady\<rparr> else c)"

text \<open>What follows the answer to \<open>initialize\<close>.\<close>

definition after_initialize :: "lsp_outcome \<Rightarrow> lsp_client \<Rightarrow> lsp_client" where
  "after_initialize r c =
     (case r of
        LspRejected m \<Rightarrow> ready_fails m c
      | LspResolved v \<Rightarrow>
          if lc_stopped c then ready_settles c
          else if nullish v then ready_fails ''Cannot read properties of null (reading 'capabilities')'' c
          else ready_settles (lsp_notify ''initialized'' (JObj []) (c\<lparr>lc_capabilities := js_or (js_property v ''capabilities'') (JObj [])\<rparr>)))"

definition settle_call :: "nat \<Rightarrow> lsp_outcome \<Rightarrow> lsp_client \<Rightarrow> lsp_client" where
  "settle_call i r c =
     (case map_of (lc_pending c) i of
        None \<Rightarrow> c
      | Some meth \<Rightarrow>
          (let c' = c\<lparr>lc_pending := AList.delete i (lc_pending c), lc_settled := lc_settled c @ [(i, r)]\<rparr>
           in if meth = ''initialize'' then after_initialize r c' else c'))"

text \<open>Every pending call at once.\<close>

definition settle_all :: "lsp_outcome \<Rightarrow> lsp_client \<Rightarrow> lsp_client" where
  "settle_all r c = c\<lparr>lc_pending := [], lc_settled := lc_settled c @ map (\<lambda>(i, meth). (i, r)) (lc_pending c)\<rparr>"

definition id_of :: "jsval \<Rightarrow> nat option" where
  "id_of v = (case v of JNum (Fin q) \<Rightarrow> if q = of_int \<lfloor>q\<rfloor> \<and> 0 \<le> q then Some (nat \<lfloor>q\<rfloor>) else None | _ \<Rightarrow> None)"

text \<open>\<open>(params.items || []).map(() => ({}))\<close>; a value that is not an array has no \<open>map\<close>.\<close>

definition configuration_answer :: "jsval \<Rightarrow> string + jsval" where
  "configuration_answer params =
     (if nullish params then Inl ''Cannot read properties of undefined (reading 'items')''
      else (case js_or (js_property params ''items'') (JArr []) of
              JArr vs \<Rightarrow> Inr (JArr (map (\<lambda>_. JObj []) vs))
            | _ \<Rightarrow> Inl ''(intermediate value).map is not a function''))"

definition on_lsp_message :: "stored_value \<Rightarrow> lsp_client \<Rightarrow> lsp_client" where
  "on_lsp_message data c =
     (if lc_stopped c then c
      else (case data of
        Garbage \<Rightarrow> lsp_report ''Unexpected token in JSON'' c
      | Parsed m \<Rightarrow>
          (let meth = js_property m ''method''; i = js_property m ''id''; params = js_property m ''params'' in
           if nullish m then lsp_report ''Cannot read properties of null (reading 'method')'' c
           else if meth = JStr ''textDocument/publishDiagnostics''
           then (if nullish params then lsp_report ''Cannot read properties of undefined (reading 'uri')'' c
                 else c\<lparr>lc_diagnostics := lc_diagnostics c @ [(js_property params ''uri'', js_or (js_property params ''diagnostics'') (JArr []))]\<rparr>)
           else if truthy meth \<and> i \<noteq> JUndef
           then (if meth = JStr ''workspace/configuration''
                 then (case configuration_answer params of Inl t \<Rightarrow> lsp_report t c | Inr v \<Rightarrow> lsp_send (LspReply i v) c)
                 else lsp_send (LspReply i JNull) c)
           else if i \<noteq> JUndef
           then (case id_of i of
                   None \<Rightarrow> c
                 | Some n \<Rightarrow>
                     settle_call n (if truthy (js_property m ''error'') then LspRejected (text_of (js_property (js_property m ''error'') ''message''))
                                    else LspResolved (js_property m ''result'')) c)
           else c)))"

text \<open>\<open>reason.replace(/[\u0000-\u001f\u007f]/g,' ').slice(0,160).trim()\<close>.\<close>

definition close_reason :: "string \<Rightarrow> string" where
  "close_reason r = trim (take 160 (map (\<lambda>ch. if of_char ch < (32 :: nat) \<or> of_char ch = (127 :: nat) then CHR '' '' else ch) r))"

definition close_report :: "int \<Rightarrow> string \<Rightarrow> string" where
  "close_report code reason =
     (if code = 4404 then ''Language server unavailable. Install the configured language runtime on the host.''
      else ''Language server disconnected. Reopen the project to reconnect.'')
     @ (if close_reason reason = [] then [] else '' '' @ close_reason reason)"

definition on_lsp_close :: "int \<Rightarrow> string \<Rightarrow> lsp_client \<Rightarrow> lsp_client" where
  "on_lsp_close code reason c =
     (let gone = LspRejected ''Language server disconnected'';
          c1 = settle_all gone (c\<lparr>lc_socket := SocketClosed\<rparr>);
          c2 = (if lc_stopped c1 then c1 else lsp_report (close_report code reason) c1)
      in if ''initialize'' \<in> snd ` set (lc_pending c) then after_initialize gone c2 else c2)"

definition lsp_close :: "lsp_client \<Rightarrow> lsp_client" where
  "lsp_close c = settle_all (LspResolved JNull) (ready_settles (c\<lparr>lc_stopped := True, lc_socket := SocketClosed\<rparr>))"

text \<open>An operation of the editor once \<open>ready\<close> has settled: a rejection is its own, and a closed client
  does nothing. \<open>LspWaiting\<close> is an operation that still waits.\<close>

datatype lsp_answer = LspWaiting | LspThrows string | LspDone jsval | LspCalls nat

definition when_ready :: "lsp_client \<Rightarrow> jsval \<Rightarrow> lsp_answer \<times> lsp_client \<Rightarrow> lsp_answer \<times> lsp_client" where
  "when_ready c stopped_value go =
     (case lc_ready c of LspStarting \<Rightarrow> (LspWaiting, c) | LspFailed m \<Rightarrow> (LspThrows m, c)
      | LspReady \<Rightarrow> if lc_stopped c then (LspDone stopped_value, c) else go)"

definition document :: "(string \<times> jsval) list \<Rightarrow> jsval" where
  "document fs = JObj [(''textDocument'', JObj fs)]"

definition lsp_open :: "string \<Rightarrow> string \<Rightarrow> string \<Rightarrow> lsp_client \<Rightarrow> lsp_answer \<times> lsp_client" where
  "lsp_open uri language text c = when_ready c JUndef (LspDone JUndef, lsp_notify ''textDocument/didOpen''
     (document [(''uri'', JStr uri), (''languageId'', JStr language), (''version'', js_int 1), (''text'', JStr text)]) c)"

definition lsp_change :: "string \<Rightarrow> string \<Rightarrow> int \<Rightarrow> lsp_client \<Rightarrow> lsp_answer \<times> lsp_client" where
  "lsp_change uri text version c = when_ready c JUndef (LspDone JUndef, lsp_notify ''textDocument/didChange''
     (JObj [(''textDocument'', JObj [(''uri'', JStr uri), (''version'', js_int version)]), (''contentChanges'', JArr [JObj [(''text'', JStr text)]])]) c)"

definition lsp_close_document :: "string \<Rightarrow> lsp_client \<Rightarrow> lsp_answer \<times> lsp_client" where
  "lsp_close_document uri c = when_ready c JUndef (LspDone JUndef, lsp_notify ''textDocument/didClose'' (document [(''uri'', JStr uri)]) c)"

definition lsp_format :: "string \<Rightarrow> lsp_client \<Rightarrow> lsp_answer \<times> lsp_client" where
  "lsp_format uri c = when_ready c (JArr [])
     (if truthy (js_property (lc_capabilities c) ''documentFormattingProvider'')
      then (LspCalls (lc_sequence c + 1), lsp_call ''textDocument/formatting''
             (JObj [(''textDocument'', JObj [(''uri'', JStr uri)]), (''options'', JObj [(''tabSize'', js_int 4), (''insertSpaces'', JBool True)])]) c)
      else (LspThrows ''This language server does not advertise formatting. Configure a formatting-capable server on the host.'', c))"

record text_position =
  tp_line :: nat
  tp_character :: nat

definition position_value :: "text_position \<Rightarrow> jsval" where
  "position_value p = JObj [(''line'', js_int (int (tp_line p))), (''character'', js_int (int (tp_character p)))]"

definition lsp_request :: "string \<Rightarrow> string \<Rightarrow> text_position \<Rightarrow> lsp_client \<Rightarrow> lsp_answer \<times> lsp_client" where
  "lsp_request meth uri p c = when_ready c JNull (LspCalls (lc_sequence c + 1),
     lsp_call (''textDocument/'' @ meth) (JObj [(''textDocument'', JObj [(''uri'', JStr uri)]), (''position'', position_value p)]) c)"

datatype lsp_event =
    SocketOpened jsval
  | SocketFailed
  | SocketMessage stored_value
  | SocketClosedBy int string
  | CallTimedOut nat
  | EditorOpens string string string
  | EditorChanges string string int
  | EditorCloses string
  | EditorFormats string
  | EditorAsks string string text_position
  | ClientCloses

fun lsp_step :: "lsp_event \<Rightarrow> lsp_client \<Rightarrow> lsp_client" where
  "lsp_step (SocketOpened params) c = lsp_call ''initialize'' params (c\<lparr>lc_socket := SocketOpen\<rparr>)"
| "lsp_step SocketFailed c = ready_fails ''Language server connection failed'' c"
| "lsp_step (SocketMessage d) c = on_lsp_message d c"
| "lsp_step (SocketClosedBy code reason) c = on_lsp_close code reason c"
| "lsp_step (CallTimedOut i) c =
     settle_call i (LspRejected (''Language server timed out: '' @ (case map_of (lc_pending c) i of None \<Rightarrow> [] | Some m \<Rightarrow> m))) c"
| "lsp_step (EditorOpens uri language text) c = snd (lsp_open uri language text c)"
| "lsp_step (EditorChanges uri text version) c = snd (lsp_change uri text version c)"
| "lsp_step (EditorCloses uri) c = snd (lsp_close_document uri c)"
| "lsp_step (EditorFormats uri) c = snd (lsp_format uri c)"
| "lsp_step (EditorAsks meth uri p) c = snd (lsp_request meth uri p c)"
| "lsp_step ClientCloses c = lsp_close c"

definition lsp_run :: "lsp_event list \<Rightarrow> lsp_client" where
  "lsp_run es = foldl (\<lambda>c e. lsp_step e c) lsp_start es"

section \<open>Every call settles once\<close>

text \<open>The calls made are numbered in order; each is either waited for or settled, never both and never
  twice.\<close>

definition calls_accounted :: "lsp_client \<Rightarrow> bool" where
  "calls_accounted c \<longleftrightarrow> distinct (map fst (lc_settled c) @ map fst (lc_pending c))
     \<and> set (map fst (lc_settled c) @ map fst (lc_pending c)) = {1..lc_sequence c}"

lemma accounted_cong:
  "lc_settled c = lc_settled d \<Longrightarrow> lc_pending c = lc_pending d \<Longrightarrow> lc_sequence c = lc_sequence d \<Longrightarrow> calls_accounted c = calls_accounted d"
  by (simp add: calls_accounted_def)

lemma accounted_plain [simp]:
  "calls_accounted (lsp_report m c) = calls_accounted c" "calls_accounted (lsp_send x c) = calls_accounted c"
  "calls_accounted (lsp_notify meth params c) = calls_accounted c" "calls_accounted (ready_fails m c) = calls_accounted c"
  "calls_accounted (ready_settles c) = calls_accounted c" "calls_accounted (after_initialize r c) = calls_accounted c"
  by (rule accounted_cong;
      simp add: lsp_report_def lsp_send_def lsp_notify_def ready_fails_def ready_settles_def after_initialize_def split: lsp_outcome.split)+

lemma accounted_update [simp]:
  "calls_accounted (c\<lparr>lc_socket := s\<rparr>) = calls_accounted c" "calls_accounted (c\<lparr>lc_stopped := b\<rparr>) = calls_accounted c"
  "calls_accounted (c\<lparr>lc_diagnostics := ds\<rparr>) = calls_accounted c"
  by (rule accounted_cong; simp)+

lemma accounted_call: "calls_accounted c \<Longrightarrow> calls_accounted (lsp_call meth params c)"
proof -
  assume ok: "calls_accounted c"
  let ?n = "Suc (lc_sequence c)" and ?ids = "map fst (lc_settled c) @ map fst (lc_pending c)"
  have ids: "distinct ?ids" "set ?ids = {1..lc_sequence c}" using ok by (simp_all only: calls_accounted_def)
  have "?n \<notin> set ?ids" unfolding ids(2) by simp
  then have "distinct (?ids @ [?n])" using ids(1) by simp
  moreover have "set (?ids @ [?n]) = {1..?n}"
  proof -
    have "set (?ids @ [?n]) = insert ?n (set ?ids)" by simp
    also have "\<dots> = {1..?n}" unfolding ids(2) by auto
    finally show ?thesis .
  qed
  ultimately have "calls_accounted (c\<lparr>lc_sequence := ?n, lc_pending := lc_pending c @ [(?n, meth)]\<rparr>)"
    unfolding calls_accounted_def by simp
  then show ?thesis by (simp add: lsp_call_def Let_def)
qed

lemma delete_keys_eq: "map fst (AList.delete k xs) = filter (\<lambda>i. i \<noteq> k) (map fst xs)"
  by (induction xs) auto

lemma accounted_settle: "calls_accounted c \<Longrightarrow> calls_accounted (settle_call i r c)"
proof (cases "map_of (lc_pending c) i")
  case (Some meth)
  assume ok: "calls_accounted c"
  have i: "i \<in> fst ` set (lc_pending c)" using Some by (metis map_of_eq_None_iff option.distinct(1))
  have "map fst (AList.delete i (lc_pending c)) = filter (\<lambda>k. k \<noteq> i) (map fst (lc_pending c))"
    by (simp add: delete_keys_eq)
  then have "calls_accounted (c\<lparr>lc_pending := AList.delete i (lc_pending c), lc_settled := lc_settled c @ [(i, r)]\<rparr>)"
    using ok i unfolding calls_accounted_def by auto
  then show ?thesis using Some by (simp add: settle_call_def Let_def)
qed (simp add: settle_call_def)

lemma accounted_settle_all: "calls_accounted c \<Longrightarrow> calls_accounted (settle_all r c)"
proof -
  have "map fst (map (\<lambda>(i, meth). (i, r)) ps) = map fst ps" for ps :: "(nat \<times> string) list" by (induction ps) auto
  then show "calls_accounted c \<Longrightarrow> ?thesis" by (simp add: settle_all_def calls_accounted_def del: map_map)
qed

lemma accounted_ready: "calls_accounted c \<Longrightarrow> calls_accounted (snd go) \<Longrightarrow> calls_accounted (snd (when_ready c v go))"
  by (simp add: when_ready_def split: lsp_ready.split)

lemma accounted_message: "calls_accounted c \<Longrightarrow> calls_accounted (on_lsp_message d c)"
  by (simp add: on_lsp_message_def Let_def accounted_settle split: stored_value.split option.split sum.split)

lemma accounted_step: "calls_accounted c \<Longrightarrow> calls_accounted (lsp_step e c)"
proof (cases e)
  case (SocketOpened params)
  assume "calls_accounted c"
  then show ?thesis using SocketOpened accounted_call [of "c\<lparr>lc_socket := SocketOpen\<rparr>"] by simp
next
  case (SocketClosedBy code reason)
  assume "calls_accounted c"
  then have "calls_accounted (settle_all r (c\<lparr>lc_socket := SocketClosed\<rparr>))" for r by (intro accounted_settle_all) simp
  then show ?thesis using SocketClosedBy by (simp add: on_lsp_close_def Let_def)
next
  case ClientCloses
  assume "calls_accounted c"
  then show ?thesis using ClientCloses by (simp add: lsp_close_def accounted_settle_all)
qed (simp_all add: accounted_message accounted_settle accounted_call accounted_ready lsp_open_def lsp_change_def
    lsp_close_document_def lsp_format_def lsp_request_def)

lemma accounted_run: "calls_accounted (lsp_run es)"
  unfolding lsp_run_def by (rule foldl_invariant) (simp_all add: accounted_step, simp add: lsp_start_def calls_accounted_def)

lemma all_settled: "calls_accounted c \<Longrightarrow> lc_pending c = [] \<Longrightarrow> distinct (map fst (lc_settled c)) \<and> fst ` set (lc_settled c) = {1..lc_sequence c}"
  by (simp add: calls_accounted_def)

text \<open>C32. Whatever the socket, the timers and the editor do, no call settles twice, and once the connection is
  lost or the client is closed every call made so far has settled exactly once.\<close>

theorem calls_settle_once:
  assumes "last es = ClientCloses \<or> (\<exists>code reason. last es = SocketClosedBy code reason)" "es \<noteq> []"
  shows "distinct (map fst (lc_settled (lsp_run es))) \<and> fst ` set (lc_settled (lsp_run es)) = {1..lc_sequence (lsp_run es)}"
proof -
  have "lsp_run es = lsp_step (last es) (lsp_run (butlast es))"
    using assms(2) by (metis append_butlast_last_id foldl_Cons foldl_Nil foldl_append lsp_run_def)
  moreover have "lc_pending (lsp_step ClientCloses c) = []" for c by (simp add: lsp_close_def settle_all_def)
  moreover have "lc_pending (lsp_step (SocketClosedBy code reason) c) = []" for code reason c
    by (simp add: on_lsp_close_def Let_def settle_all_def after_initialize_def ready_fails_def lsp_report_def)
  ultimately have "lc_pending (lsp_run es) = []" using assms(1) by auto
  then show ?thesis using all_settled [OF accounted_run] by blast
qed

theorem calls_settle_once_witness:
  "distinct (map fst (lc_settled (lsp_run [SocketOpened (JObj []), SocketClosedBy 4404 ''gone'', ClientCloses])))
    \<and> fst ` set (lc_settled (lsp_run [SocketOpened (JObj []), SocketClosedBy 4404 ''gone'', ClientCloses]))
        = {1..lc_sequence (lsp_run [SocketOpened (JObj []), SocketClosedBy 4404 ''gone'', ClientCloses])}"
  by (rule calls_settle_once) simp_all

section \<open>A closed client is silent\<close>

definition quiet :: "string list \<Rightarrow> (jsval \<times> jsval) list \<Rightarrow> lsp_client \<Rightarrow> bool" where
  "quiet rs ds c \<longleftrightarrow> lc_stopped c \<and> lc_ready c \<noteq> LspStarting \<and> lc_reports c = rs \<and> lc_diagnostics c = ds"

lemma quiet_parts:
  "quiet rs ds c \<Longrightarrow> quiet rs ds (lsp_send x c)" "quiet rs ds c \<Longrightarrow> quiet rs ds (ready_fails m c)"
  "quiet rs ds c \<Longrightarrow> quiet rs ds (ready_settles c)" "quiet rs ds c \<Longrightarrow> quiet rs ds (settle_all r c)"
  "quiet rs ds c \<Longrightarrow> quiet rs ds (lsp_call meth params c)"
  "quiet rs ds c \<Longrightarrow> quiet rs ds (c\<lparr>lc_socket := s\<rparr>)"
  "quiet rs ds c \<Longrightarrow> quiet rs ds (c\<lparr>lc_pending := ps, lc_settled := ss\<rparr>)"
  by (simp_all add: quiet_def lsp_send_def ready_fails_def ready_settles_def settle_all_def lsp_call_def)

lemma quiet_after: "quiet rs ds c \<Longrightarrow> quiet rs ds (after_initialize r c)"
  by (cases r) (simp_all add: after_initialize_def quiet_parts, simp add: quiet_def)

lemma quiet_settle: "quiet rs ds c \<Longrightarrow> quiet rs ds (settle_call i r c)"
  by (simp add: settle_call_def Let_def quiet_after quiet_parts split: option.split)

lemma quiet_ready: "quiet rs ds c \<Longrightarrow> quiet rs ds (snd (when_ready c v go))"
  by (simp add: when_ready_def split: lsp_ready.split) (simp add: quiet_def)

lemma quiet_step: "quiet rs ds c \<Longrightarrow> quiet rs ds (lsp_step e c)"
proof (cases e)
  case (SocketMessage d)
  assume "quiet rs ds c"
  then show ?thesis using SocketMessage by (simp add: on_lsp_message_def quiet_def)
next
  case (SocketClosedBy code reason)
  assume q: "quiet rs ds c"
  then have "quiet rs ds (settle_all r (c\<lparr>lc_socket := SocketClosed\<rparr>))" for r by (intro quiet_parts)
  moreover have "lc_stopped d" if "quiet rs ds d" for d using that by (simp add: quiet_def)
  ultimately show ?thesis using SocketClosedBy by (simp add: on_lsp_close_def Let_def quiet_after)
next
  case ClientCloses
  assume "quiet rs ds c"
  then have "quiet rs ds (c\<lparr>lc_stopped := True, lc_socket := SocketClosed\<rparr>)" by (simp add: quiet_def)
  then show ?thesis using ClientCloses by (simp add: lsp_close_def quiet_parts)
qed (simp_all add: quiet_parts quiet_settle quiet_ready lsp_open_def lsp_change_def lsp_close_document_def lsp_format_def lsp_request_def)

text \<open>After the editor closed the client nothing is reported and no diagnostics are shown, whatever still
  arrives.\<close>

theorem closed_client_silent:
  "lc_reports (lsp_run (es @ ClientCloses # later)) = lc_reports (lsp_run es)
    \<and> lc_diagnostics (lsp_run (es @ ClientCloses # later)) = lc_diagnostics (lsp_run es)"
proof -
  let ?c = "lsp_run es"
  have "quiet (lc_reports ?c) (lc_diagnostics ?c) (lsp_close ?c)"
    by (simp add: quiet_def lsp_close_def settle_all_def ready_settles_def)
  then have "quiet (lc_reports ?c) (lc_diagnostics ?c) (foldl (\<lambda>c e. lsp_step e c) (lsp_close ?c) later)"
    by (rule foldl_invariant) (rule quiet_step)
  then show ?thesis by (simp add: lsp_run_def quiet_def)
qed

end
