(* ===== verification/FileUris.thy ===== *)
theory FileUris
  imports LanguageServer
begin

text \<open>
  The file URIs of \<open>lib/lsp.ts\<close>: \<open>fileUri\<close>, \<open>relativeFileUri\<close> and \<open>positionAt\<close>.
  \<open>encodeURIComponent\<close> and \<open>decodeURIComponent\<close> are modelled on code units below 256, which UTF-8 writes in one byte or
  two; decoding undoes encoding. The URL parser is an argument, and what is asked of it is that it takes
  apart the URIs the client itself makes.
\<close>

section \<open>\<open>encodeURIComponent\<close>\<close>

definition upper_hex :: "nat \<Rightarrow> char" where
  "upper_hex n = (if n < 10 then char_of (48 + n) else char_of (55 + n))"

definition uri_percent :: "nat \<Rightarrow> string" where
  "uri_percent n = [CHR ''%'', upper_hex (n div 16), upper_hex (n mod 16)]"

definition uri_plain :: "char \<Rightarrow> bool" where
  "uri_plain c \<longleftrightarrow> is_alpha c \<or> is_digit c \<or> c \<in> set ''-_.!~*()'' \<or> c = CHR 0x27"

definition encode_char :: "char \<Rightarrow> string" where
  "encode_char c =
     (let n = of_char c :: nat in
      if uri_plain c then [c] else if n < 128 then uri_percent n else uri_percent (192 + n div 64) @ uri_percent (128 + n mod 64))"

definition encode_component :: "string \<Rightarrow> string" where
  "encode_component s = concat (map encode_char s)"

definition hex_number :: "char \<Rightarrow> nat option" where
  "hex_number c =
     (let n = of_char c :: nat in
      if 48 \<le> n \<and> n \<le> 57 then Some (n - 48) else if 65 \<le> n \<and> n \<le> 70 then Some (n - 55)
      else if 97 \<le> n \<and> n \<le> 102 then Some (n - 87) else None)"

text \<open>A \<open>%XX\<close> at the front of a text, with what follows it.\<close>

definition percent_byte :: "string \<Rightarrow> (nat \<times> string) option" where
  "percent_byte s =
     (case s of p # h # l # r \<Rightarrow>
        (if p = CHR ''%'' then (case (hex_number h, hex_number l) of (Some a, Some b) \<Rightarrow> Some (a * 16 + b, r) | _ \<Rightarrow> None) else None)
      | _ \<Rightarrow> None)"

lemma percent_byte_length: "percent_byte s = Some (n, r) \<Longrightarrow> length s = Suc (Suc (Suc (length r)))"
  by (auto simp: percent_byte_def split: list.splits if_splits option.splits)

text \<open>\<open>None\<close> is a malformed escape, or a character beyond the modelled range.\<close>

function decode_component :: "string \<Rightarrow> string option" where
  "decode_component s =
     (case s of
        [] \<Rightarrow> Some []
      | c # t \<Rightarrow>
          if c \<noteq> CHR ''%'' then map_option (\<lambda>u. c # u) (decode_component t)
          else (case percent_byte s of
                  None \<Rightarrow> None
                | Some (n, r) \<Rightarrow>
                    if n < 128 then map_option (\<lambda>u. char_of n # u) (decode_component r)
                    else (case percent_byte r of
                            None \<Rightarrow> None
                          | Some (m, q) \<Rightarrow>
                              if n \<in> {194, 195} \<and> 128 \<le> m \<and> m < 192
                              then map_option (\<lambda>u. char_of ((n - 192) * 64 + (m - 128)) # u) (decode_component q)
                              else None)))"
  by pat_completeness auto
termination
  by (relation "measure length") (auto dest!: percent_byte_length)

declare decode_component.simps [simp del]

lemma hex_number_upper: "n < 16 \<Longrightarrow> hex_number (upper_hex n) = Some n"
  by (simp add: hex_number_def upper_hex_def Let_def of_char_of)

lemma percent_byte_percent: "n < 256 \<Longrightarrow> percent_byte (uri_percent n @ r) = Some (n, r)"
  by (simp add: percent_byte_def uri_percent_def hex_number_upper less_mult_imp_div_less)

lemma decode_percent: "n < 128 \<Longrightarrow> decode_component (uri_percent n @ r) = map_option (\<lambda>u. char_of n # u) (decode_component r)"
  using percent_byte_percent [of n r] by (subst decode_component.simps) (simp add: uri_percent_def)

lemma decode_two:
  "n \<in> {194, 195} \<Longrightarrow> 128 \<le> m \<Longrightarrow> m < 192
    \<Longrightarrow> decode_component (uri_percent n @ uri_percent m @ r) = map_option (\<lambda>u. char_of ((n - 192) * 64 + (m - 128)) # u) (decode_component r)"
  using percent_byte_percent [of n "uri_percent m @ r"] percent_byte_percent [of m r]
  by (subst decode_component.simps) (auto simp: uri_percent_def)

lemma decode_plain: "c \<noteq> CHR ''%'' \<Longrightarrow> decode_component (c # r) = map_option (\<lambda>u. c # u) (decode_component r)"
  by (subst decode_component.simps) simp

lemma plain_not_percent: "uri_plain c \<Longrightarrow> c \<noteq> CHR ''%'' \<and> c \<noteq> CHR ''/''"
  by (auto simp: uri_plain_def is_alpha_def is_digit_def)

lemma decode_char: "decode_component (encode_char c @ r) = map_option (\<lambda>u. c # u) (decode_component r)"
proof -
  let ?n = "of_char c :: nat"
  have n: "?n < 256" by simp
  consider "uri_plain c" | "\<not> uri_plain c" "?n < 128" | "\<not> uri_plain c" "128 \<le> ?n" by linarith
  then show ?thesis
  proof cases
    case 1
    then show ?thesis using plain_not_percent [OF 1] by (simp add: encode_char_def decode_plain)
  next
    case 2
    then show ?thesis using decode_percent [of ?n r] by (simp add: encode_char_def)
  next
    case 3
    have "?n div 64 = 2 \<or> ?n div 64 = 3" using 3(2) n by linarith
    moreover have "?n div 64 * 64 + ?n mod 64 = ?n" by simp
    ultimately have "192 + ?n div 64 \<in> {194, 195}" "(192 + ?n div 64 - 192) * 64 + (128 + ?n mod 64 - 128) = ?n" by auto
    then show ?thesis
      using decode_two [of "192 + ?n div 64" "128 + ?n mod 64" r] 3 by (simp add: encode_char_def Let_def)
  qed
qed

lemma decode_encode: "decode_component (encode_component s @ r) = map_option (\<lambda>u. s @ u) (decode_component r)"
proof (induction s)
  case (Cons c s)
  then show ?case by (simp add: encode_component_def decode_char option.map_comp comp_def)
qed (simp add: encode_component_def option.map_ident)

section \<open>File URIs\<close>

definition uri_slashes :: "string \<Rightarrow> string" where
  "uri_slashes s = replace_char (CHR 0x5C) (CHR ''/'') s"

definition drop_last_slash :: "string \<Rightarrow> string" where
  "drop_last_slash s = (if s \<noteq> [] \<and> last s = CHR ''/'' then butlast s else s)"

text \<open>\<open>/^[A-Za-z]:$/\<close> and \<open>/^[A-Za-z]:\//\<close>.\<close>

definition drive_part :: "string \<Rightarrow> bool" where
  "drive_part p \<longleftrightarrow> (case p of [a, b] \<Rightarrow> is_alpha a \<and> b = CHR '':'' | _ \<Rightarrow> False)"

definition uri_drive_path :: "string \<Rightarrow> bool" where
  "uri_drive_path p \<longleftrightarrow> (case p of a # b # c # _ \<Rightarrow> is_alpha a \<and> b = CHR '':'' \<and> c = CHR ''/'' | _ \<Rightarrow> False)"

definition absolute_root :: "string \<Rightarrow> string" where
  "absolute_root dir = (let n = drop_last_slash (uri_slashes dir) in if uri_drive_path n then CHR ''/'' # n else n)"

definition encode_part :: "nat \<times> string \<Rightarrow> string" where
  "encode_part = (\<lambda>(i, part). if drive_part part \<and> i = 1 then part else encode_component part)"

definition encoded_root :: "string \<Rightarrow> string" where
  "encoded_root dir = join_with ''/'' (map encode_part (enumerate 0 (split_on (CHR ''/'') (absolute_root dir))))"

definition encoded_path :: "string \<Rightarrow> string" where
  "encoded_path path = join_with ''/'' (map encode_component (split_on (CHR ''/'') (uri_slashes path)))"

definition file_uri :: "string \<Rightarrow> string \<Rightarrow> string" where
  "file_uri dir path =
     (if starts_with ''//'' (absolute_root dir) then ''file:'' else ''file://'') @ encoded_root dir @ ''/'' @ encoded_path path"

record url =
  ur_protocol :: string
  ur_hostname :: string
  ur_pathname :: string

definition unc_or_drive :: "string \<Rightarrow> url \<Rightarrow> bool" where
  "unc_or_drive front_dir base \<longleftrightarrow> ur_hostname base \<noteq> [] \<or> (case front_dir of s # r \<Rightarrow> s = CHR ''/'' \<and> uri_drive_path r | [] \<Rightarrow> False)"

definition relative_file_uri :: "(string \<Rightarrow> url option) \<Rightarrow> string \<Rightarrow> string \<Rightarrow> string option" where
  "relative_file_uri parse dir uri =
     (case (parse uri, parse (file_uri dir [])) of
        (Some candidate, Some base) \<Rightarrow>
          if ur_protocol candidate \<noteq> ''file:'' \<or> ur_hostname candidate \<noteq> ur_hostname base then None
          else (case (decode_component (ur_pathname candidate), decode_component (ur_pathname base)) of
                  (Some path, Some front_dir) \<Rightarrow>
                    (let windows = unc_or_drive front_dir base;
                         comparable = (if windows then lower_text path else path);
                         expected = (if windows then lower_text front_dir else front_dir);
                         relative = drop (length front_dir) path
                     in if \<not> starts_with expected comparable then None
                        else if \<exists>part \<in> set (split_on (CHR ''/'') relative). part = ''..'' \<or> part = ''.'' then None
                        else Some relative)
                | _ \<Rightarrow> None)
      | _ \<Rightarrow> None)"

text \<open>What a language server names is opened only when it lies below the project's root: the answer is what
  follows the root, and no part of it climbs out again.\<close>

theorem relative_uri_inside:
  assumes "relative_file_uri parse dir uri = Some rel"
  shows "\<exists>candidate base path front_dir front. parse uri = Some candidate \<and> ur_protocol candidate = ''file:''
      \<and> parse (file_uri dir []) = Some base \<and> ur_hostname candidate = ur_hostname base
      \<and> decode_component (ur_pathname base) = Some front_dir \<and> decode_component (ur_pathname candidate) = Some (front @ rel)
      \<and> lower_text front = lower_text front_dir \<and> path = front @ rel \<and> ''..'' \<notin> set (split_on (CHR ''/'') rel)"
proof -
  obtain candidate base where u: "parse uri = Some candidate" "parse (file_uri dir []) = Some base"
    using assms by (auto simp: relative_file_uri_def split: option.splits)
  obtain path front_dir where p: "decode_component (ur_pathname candidate) = Some path" "decode_component (ur_pathname base) = Some front_dir"
    using assms u by (auto simp: relative_file_uri_def split: option.splits if_splits)
  have rel: "rel = drop (length front_dir) path" "''..'' \<notin> set (split_on (CHR ''/'') rel)"
    "ur_protocol candidate = ''file:''" "ur_hostname candidate = ur_hostname base"
    "starts_with (if unc_or_drive front_dir base then lower_text front_dir else front_dir) (if unc_or_drive front_dir base then lower_text path else path)"
    using assms u p by (auto simp: relative_file_uri_def Let_def split: if_splits)
  have "lower_text (take (length front_dir) path) = lower_text front_dir"
    using rel(5) by (auto simp: starts_with_def lower_text_def take_map split: if_splits)
  then show ?thesis
    using u p rel by (intro exI [of _ candidate] exI [of _ base] exI [of _ path] exI [of _ front_dir] exI [of _ "take (length front_dir) path"]) simp
qed

text \<open>Encoded parts decode to the parts, joined as they were.\<close>

lemma decode_join:
  assumes "\<And>x r. x \<in> set xs \<Longrightarrow> decode_component (f x @ r) = map_option (\<lambda>u. g x @ u) (decode_component r)"
  shows "decode_component (join_with ''/'' (map f xs) @ r) = map_option (\<lambda>u. join_with ''/'' (map g xs) @ u) (decode_component r)"
  using assms
proof (induction xs)
  case (Cons x xs)
  have x: "decode_component (f x @ q) = map_option (\<lambda>u. g x @ u) (decode_component q)" for q
    using Cons.prems by simp
  show ?case
  proof (cases "xs = []")
    case False
    then show ?thesis using Cons by (simp add: join_with_Cons x decode_plain option.map_comp comp_def)
  qed (simp add: x)
qed (cases "decode_component r"; simp)

lemma decode_part: "decode_component (encode_part x @ r) = map_option (\<lambda>u. snd x @ u) (decode_component r)"
proof (cases "drive_part (snd x) \<and> fst x = 1")
  case True
  then obtain a where "snd x = [a, CHR '':'']" "is_alpha a" by (auto simp: drive_part_def split: list.splits)
  moreover from this have "a \<noteq> CHR ''%''" by (auto simp: is_alpha_def)
  ultimately show ?thesis
    using True by (simp add: encode_part_def split_beta decode_plain option.map_comp comp_def)
next
  case False
  then have "encode_part x = encode_component (snd x)" by (auto simp: encode_part_def split_beta)
  then show ?thesis by (simp only: decode_encode)
qed

lemma decode_root: "decode_component (encoded_root dir @ r) = map_option (\<lambda>u. absolute_root dir @ u) (decode_component r)"
  using decode_join [of "enumerate 0 (split_on (CHR ''/'') (absolute_root dir))" encode_part snd r]
  by (simp add: encoded_root_def decode_part join_with_split_on)

lemma decode_path: "decode_component (encoded_path path) = Some (uri_slashes path)"
  using decode_join [of "split_on (CHR ''/'') (uri_slashes path)" encode_component id "[]"] decode_component.simps [of "[]"]
  by (simp add: encoded_path_def decode_encode join_with_split_on)

definition parsed_file :: "string \<Rightarrow> string \<Rightarrow> url" where
  "parsed_file dir path = \<lparr>ur_protocol = ''file:'', ur_hostname = [], ur_pathname = encoded_root dir @ ''/'' @ encoded_path path\<rparr>"

text \<open>A file's URI comes back as the file, for every local root and every name without dot segments, when
  the URL parser leaves the path of such a URI as it is.\<close>

theorem file_uri_read_back:
  assumes "parse (file_uri dir path) = Some (parsed_file dir path)" "parse (file_uri dir []) = Some (parsed_file dir [])"
    "''.'' \<notin> set (split_on (CHR ''/'') (uri_slashes path))" "''..'' \<notin> set (split_on (CHR ''/'') (uri_slashes path))"
  shows "relative_file_uri parse dir (file_uri dir path) = Some (uri_slashes path)"
proof -
  have p: "decode_component (ur_pathname (parsed_file dir q)) = Some (absolute_root dir @ ''/'' @ uri_slashes q)" for q
    by (simp add: parsed_file_def decode_root decode_plain decode_path)
  have low: "starts_with (lower_text a) (lower_text (a @ b))" for a b by (simp add: lower_text_def)
  have e: "uri_slashes [] = []" by (simp add: uri_slashes_def replace_char_def)
  have l: "lower_text (a @ b) = lower_text a @ lower_text b" for a b by (simp add: lower_text_def)
  have b: "starts_with (a @ ''/'') (a @ CHR ''/'' # q)" for a q by (simp add: starts_with_def)
  show ?thesis
    unfolding relative_file_uri_def assms(1,2)
    using assms(3,4) low [of "absolute_root dir @ ''/''" "uri_slashes path"]
    by (simp add: p e Let_def b) (auto simp: parsed_file_def)
qed

definition toy_parse :: "string \<Rightarrow> url option" where
  "toy_parse s = (if starts_with ''file://'' s then Some \<lparr>ur_protocol = ''file:'', ur_hostname = [], ur_pathname = drop 7 s\<rparr> else None)"

theorem file_uri_read_back_witness:
  "relative_file_uri toy_parse ''C:/My Work'' (file_uri ''C:/My Work'' ''src/a b#.ts'') = Some ''src/a b#.ts''"
proof -
  have "uri_slashes ''src/a b#.ts'' = ''src/a b#.ts''" by code_simp
  moreover have "relative_file_uri toy_parse ''C:/My Work'' (file_uri ''C:/My Work'' ''src/a b#.ts'') = Some (uri_slashes ''src/a b#.ts'')"
    by (rule file_uri_read_back) code_simp+
  ultimately show ?thesis by simp
qed

theorem relative_uri_inside_witness:
  "\<exists>candidate base path front_dir front. toy_parse ''file:///w/src/a'' = Some candidate \<and> ur_protocol candidate = ''file:''
      \<and> toy_parse (file_uri ''/w'' []) = Some base \<and> ur_hostname candidate = ur_hostname base
      \<and> decode_component (ur_pathname base) = Some front_dir \<and> decode_component (ur_pathname candidate) = Some (front @ ''src/a'')
      \<and> lower_text front = lower_text front_dir \<and> path = front @ ''src/a'' \<and> ''..'' \<notin> set (split_on (CHR ''/'') ''src/a'')"
  by (rule relative_uri_inside) code_simp

section \<open>Positions\<close>

definition newline :: char where
  "newline = CHR 0x0A"

definition position_at :: "string \<Rightarrow> nat \<Rightarrow> text_position" where
  "position_at text offset =
     (let lines = split_on newline (take offset text) in \<lparr>tp_line = length lines - 1, tp_character = length (last lines)\<rparr>)"

text \<open>The offset a position names, as the editor's side reads it.\<close>

definition offset_at :: "string \<Rightarrow> text_position \<Rightarrow> nat" where
  "offset_at text p =
     (let lines = split_on newline text
      in length (join_with [newline] (take (tp_line p) lines @ [take (tp_character p) (lines ! tp_line p)])))"

lemma split_on_append_any:
  "split_on c (u @ v) = butlast (split_on c u) @ (last (split_on c u) @ hd (split_on c v)) # tl (split_on c v)"
proof (induction u)
  case (Cons x u)
  then show ?case
  proof (cases "x = c")
    case False
    obtain w ws where w: "split_on c u = w # ws" by (cases "split_on c u") simp_all
    show ?thesis using False Cons by (cases ws) (simp_all add: split_on_Cons_other w)
  qed simp
qed (cases "split_on c v"; simp)

text \<open>A position names exactly the offset it was made from.\<close>

theorem position_names_offset:
  assumes "offset \<le> length text"
  shows "offset_at text (position_at text offset) = offset"
proof -
  define u where "u = split_on newline (take offset text)"
  have L: "split_on newline text = butlast u @ (last u @ hd (split_on newline (drop offset text))) # tl (split_on newline (drop offset text))"
    using split_on_append_any [of newline "take offset text" "drop offset text"] by (simp add: u_def)
  have u: "u \<noteq> []" "join_with [newline] u = take offset text" by (simp_all add: u_def join_with_split_on)
  have n: "length u - 1 = length (butlast u)" by simp
  have "take (length u - 1) (split_on newline text) = butlast u" unfolding L n by simp
  moreover have "split_on newline text ! (length u - 1) = last u @ hd (split_on newline (drop offset text))"
    unfolding L n by (rule nth_append_length)
  ultimately have "offset_at text (position_at text offset) = length (join_with [newline] (butlast u @ [last u]))"
    by (simp add: offset_at_def position_at_def Let_def u_def [symmetric])
  then show ?thesis using u assms by simp
qed

theorem position_names_offset_witness: "offset_at ''ab'' (position_at ''ab'' 1) = 1"
  by (rule position_names_offset) simp

end
