(* ===== verification/ApprovalCards.thy ===== *)
theory ApprovalCards
  imports ApiTypes DraftHandoff FileUris View
begin

text \<open>
  \<open>features/BudgetApproval.tsx\<close> and \<open>features/GeneralApprovalCard.tsx\<close>: the two cards on which a person
  decides a request of an agent. Both guard a decision the same way, the \<open>card_gate\<close>: a decision
  is stamped with the request shown and the generation of the card, a lock or another request raises
  the generation, and an answer acts only under its own stamp. What the cards send and show is
  modelled on top of the gate. Number formats and \<open>JSON.stringify\<close> are arguments.
\<close>

section \<open>The gate\<close>

type_synonym card_key = string

definition card_identity :: "string \<Rightarrow> string \<Rightarrow> card_key" where
  "card_identity task approval = task @ '':'' @ approval"

record card_ticket =
  ct_key :: card_key
  ct_generation :: nat
  ct_settled :: bool

record card_gate =
  cg_key :: card_key
  cg_generation :: nat
  cg_busy :: bool
  cg_open :: bool
  cg_locked :: bool
  cg_tickets :: "card_ticket list"

definition new_gate :: "card_key \<Rightarrow> card_gate" where
  "new_gate k = \<lparr>cg_key = k, cg_generation = 1, cg_busy = False, cg_open = False, cg_locked = False, cg_tickets = []\<rparr>"

text \<open>Another request shown on the same card. Generations are only compared with each other, so by how much one is
  raised does not matter.\<close>

definition gate_show :: "card_key \<Rightarrow> card_gate \<Rightarrow> card_gate" where
  "gate_show k g = (if k = cg_key g then g else g\<lparr>cg_key := k, cg_generation := cg_generation g + 1, cg_busy := False, cg_open := False\<rparr>)"

text \<open>The workspace was locked, or signed out.\<close>

definition gate_lock :: "card_gate \<Rightarrow> card_gate" where
  "gate_lock g = g\<lparr>cg_generation := cg_generation g + 1, cg_busy := False, cg_open := False, cg_locked := True\<rparr>"

definition gate_unlock :: "card_gate \<Rightarrow> card_gate" where
  "gate_unlock g = g\<lparr>cg_locked := False\<rparr>"

definition gate_open :: "bool \<Rightarrow> card_gate \<Rightarrow> card_gate" where
  "gate_open b g = (if cg_locked g \<and> b then g else g\<lparr>cg_open := b\<rparr>)"

definition gate_free :: "card_gate \<Rightarrow> bool" where
  "gate_free g \<longleftrightarrow> \<not> cg_busy g \<and> \<not> cg_locked g"

definition gate_begin :: "card_gate \<Rightarrow> card_gate" where
  "gate_begin g = (if gate_free g
     then g\<lparr>cg_busy := True, cg_tickets := cg_tickets g @ [\<lparr>ct_key = cg_key g, ct_generation = cg_generation g, ct_settled = False\<rparr>]\<rparr> else g)"

definition stamped_now :: "card_gate \<Rightarrow> card_ticket \<Rightarrow> bool" where
  "stamped_now g t \<longleftrightarrow> ct_key t = cg_key g \<and> ct_generation t = cg_generation g"

text \<open>The answer to the \<open>n\<close>th decision, and whether it may still act.\<close>

definition gate_accepts :: "nat \<Rightarrow> card_gate \<Rightarrow> bool" where
  "gate_accepts n g \<longleftrightarrow> n < length (cg_tickets g) \<and> \<not> ct_settled (cg_tickets g ! n) \<and> stamped_now g (cg_tickets g ! n)"

definition gate_answer :: "nat \<Rightarrow> card_gate \<Rightarrow> card_gate" where
  "gate_answer n g =
     (if n < length (cg_tickets g)
      then (let g' = g\<lparr>cg_tickets := (cg_tickets g)[n := (cg_tickets g ! n)\<lparr>ct_settled := True\<rparr>]\<rparr>
            in if gate_accepts n g then g'\<lparr>cg_busy := False\<rparr> else g') else g)"

datatype gate_event = GateShow card_key | GateLock | GateUnlock | GateOpen bool | GateBegin | GateAnswer nat

fun gate_step :: "gate_event \<Rightarrow> card_gate \<Rightarrow> card_gate" where
  "gate_step (GateShow k) g = gate_show k g"
| "gate_step GateLock g = gate_lock g"
| "gate_step GateUnlock g = gate_unlock g"
| "gate_step (GateOpen b) g = gate_open b g"
| "gate_step GateBegin g = gate_begin g"
| "gate_step (GateAnswer n) g = gate_answer n g"

inductive gate_reachable :: "card_gate \<Rightarrow> bool" where
  gate_mounted: "gate_reachable (new_gate k)"
| gate_stepped: "gate_reachable g \<Longrightarrow> gate_reachable (gate_step e g)"

text \<open>The decisions whose answer is still awaited under the present stamp.\<close>

definition awaited :: "card_gate \<Rightarrow> card_ticket list" where
  "awaited g = filter (\<lambda>t. \<not> ct_settled t \<and> stamped_now g t) (cg_tickets g)"

definition gate_inv :: "card_gate \<Rightarrow> bool" where
  "gate_inv g \<longleftrightarrow> (\<forall>t \<in> set (cg_tickets g). ct_generation t \<le> cg_generation g) \<and> length (awaited g) = (if cg_busy g then 1 else 0)"

lemma awaited_raised:
  assumes "\<forall>t \<in> set (cg_tickets g). ct_generation t \<le> cg_generation g" "cg_generation g < cg_generation h" "cg_tickets h = cg_tickets g"
  shows "awaited h = []"
  using assms by (auto simp: awaited_def stamped_now_def filter_empty_conv)

lemma awaited_answer:
  assumes "n < length (cg_tickets g)"
  shows "length (awaited (gate_answer n g)) = length (awaited g) - (if gate_accepts n g then 1 else 0)"
proof -
  let ?t = "(cg_tickets g ! n)\<lparr>ct_settled := True\<rparr>"
  let ?P = "\<lambda>t. \<not> ct_settled t \<and> stamped_now g t"
  have a: "awaited (gate_answer n g) = filter ?P ((cg_tickets g)[n := ?t])"
    using assms by (simp add: awaited_def gate_answer_def Let_def stamped_now_def)
  show ?thesis
  proof (cases "gate_accepts n g")
    case True
    then have "?P (cg_tickets g ! n)" by (simp add: gate_accepts_def)
    then show ?thesis using filter_update [OF assms, of ?P ?t] True unfolding a by (simp add: awaited_def)
  next
    case False
    then have "?P (cg_tickets g ! n) = ?P ?t" using assms by (simp add: gate_accepts_def)
    then show ?thesis using filter_update [OF assms, of ?P ?t] False unfolding a by (auto simp: awaited_def)
  qed
qed

lemma gate_inv_answer: "gate_inv g \<Longrightarrow> gate_inv (gate_answer n g)"
proof (cases "n < length (cg_tickets g)")
  case True
  assume i: "gate_inv g"
  have le: "\<forall>t \<in> set (cg_tickets (gate_answer n g)). ct_generation t \<le> cg_generation (gate_answer n g)"
    using i True by (auto simp: gate_inv_def gate_answer_def Let_def dest!: subsetD [OF set_update_subset_insert])
  have "gate_accepts n g \<Longrightarrow> cg_busy g"
  proof (rule ccontr)
    assume "gate_accepts n g" "\<not> cg_busy g"
    then have "awaited g = []" using i by (simp add: gate_inv_def)
    moreover have "cg_tickets g ! n \<in> set (awaited g)"
      using \<open>gate_accepts n g\<close> unfolding awaited_def gate_accepts_def by (simp add: nth_mem)
    ultimately show False by simp
  qed
  moreover have "cg_busy (gate_answer n g) = (cg_busy g \<and> \<not> gate_accepts n g)" using True by (simp add: gate_answer_def Let_def)
  ultimately show ?thesis
    using i le awaited_answer [OF True] unfolding gate_inv_def by auto
qed (simp add: gate_answer_def)

lemma gate_inv_begin: "gate_inv g \<Longrightarrow> gate_inv (gate_begin g)"
  by (auto simp: gate_inv_def gate_begin_def gate_free_def awaited_def stamped_now_def)

lemma gate_inv_step: "gate_inv g \<Longrightarrow> gate_inv (gate_step e g)"
proof (cases e)
  case (GateShow k)
  assume i: "gate_inv g"
  show ?thesis
  proof (cases "k = cg_key g")
    case False
    then have "awaited (gate_show k g) = []" using i by (intro awaited_raised [of g]) (simp_all add: gate_inv_def gate_show_def)
    then show ?thesis using GateShow False i by (auto simp: gate_inv_def gate_show_def)
  qed (use i GateShow in \<open>simp add: gate_show_def\<close>)
next
  case GateLock
  assume i: "gate_inv g"
  then have "awaited (gate_lock g) = []" by (intro awaited_raised [of g]) (simp_all add: gate_inv_def gate_lock_def)
  then show ?thesis using GateLock i by (auto simp: gate_inv_def gate_lock_def)
qed (auto simp: gate_inv_begin gate_inv_answer, auto simp: gate_inv_def gate_unlock_def gate_open_def awaited_def stamped_now_def)

lemma gate_reachable_inv: "gate_reachable g \<Longrightarrow> gate_inv g"
  by (induction rule: gate_reachable.induct) (simp_all add: gate_inv_step, simp add: gate_inv_def new_gate_def awaited_def)


definition deciding_gate :: card_gate where
  "deciding_gate = gate_step GateBegin (gate_step (GateOpen True) (new_gate (card_identity ''t1'' ''a1'')))"

lemma deciding_reachable: "gate_reachable deciding_gate"
  unfolding deciding_gate_def by (intro gate_reachable.intros)


text \<open>A lock closes the card and takes every awaited decision its effect, whatever is answered later.\<close>

theorem lock_withdraws_decisions:
  assumes "gate_reachable g" "\<not> ct_settled (cg_tickets g ! n)" "n < length (cg_tickets g)"
  shows "\<not> gate_accepts n (gate_lock g) \<and> \<not> cg_open (gate_lock g) \<and> \<not> cg_busy (gate_lock g) \<and> gate_begin (gate_lock g) = gate_lock g"
proof -
  have "ct_generation (cg_tickets g ! n) \<le> cg_generation g"
    using gate_reachable_inv [OF assms(1)] assms(3) by (simp add: gate_inv_def)
  then show ?thesis by (simp add: gate_accepts_def stamped_now_def gate_lock_def gate_begin_def gate_free_def)
qed

theorem lock_withdraws_decisions_witness:
  "\<not> gate_accepts 0 (gate_lock deciding_gate) \<and> \<not> cg_open (gate_lock deciding_gate) \<and> \<not> cg_busy (gate_lock deciding_gate)
    \<and> gate_begin (gate_lock deciding_gate) = gate_lock deciding_gate"
  by (rule lock_withdraws_decisions [OF deciding_reachable]) code_simp+

section \<open>The budget card\<close>

record budget_case =
  bq_task :: string
  bq_limits :: jsobj
  bq_approval :: approval

text \<open>A decision as it is sent: its address and its body.\<close>

type_synonym sent_decision = "string \<times> jsval"

record budget_card =
  bg_gate :: card_gate
  bg_case :: budget_case
  bg_limits :: jsobj
  bg_sent :: "sent_decision list"
  bg_done :: nat
  bg_errors :: "js_error list"

definition spread :: "jsobj \<Rightarrow> jsval \<Rightarrow> jsobj" where
  "spread base v = (case v of JObj fs \<Rightarrow> foldl (\<lambda>m (k, x). AList.update k x m) base fs | _ \<Rightarrow> base)"

definition initial_limits :: "budget_case \<Rightarrow> jsobj" where
  "initial_limits c = spread (spread [] (JObj (bq_limits c))) (jget (ap_payload (bq_approval c)) ''suggested_limits'')"

definition budget_key :: "budget_case \<Rightarrow> card_key" where
  "budget_key c = card_identity (bq_task c) (ap_id (bq_approval c))"

definition mount_budget :: "budget_case \<Rightarrow> budget_card" where
  "mount_budget c = \<lparr>bg_gate = new_gate (budget_key c), bg_case = c, bg_limits = initial_limits c, bg_sent = [], bg_done = 0, bg_errors = []\<rparr>"

definition show_budget :: "budget_case \<Rightarrow> budget_card \<Rightarrow> budget_card" where
  "show_budget c b = b\<lparr>bg_gate := gate_show (budget_key c) (bg_gate b), bg_case := c,
     bg_limits := (if budget_key c = cg_key (bg_gate b) then bg_limits b else initial_limits c)\<rparr>"

definition reuses_grant :: "budget_case \<Rightarrow> bool" where
  "reuses_grant c \<longleftrightarrow> jget (ap_payload (bq_approval c)) ''reuse_grant'' = JBool True"

definition budget_body :: "budget_card \<Rightarrow> string \<Rightarrow> jsval" where
  "budget_body b decision =
     JObj ((''decision'', JStr decision) #
       (if decision = ''approved'' \<and> \<not> reuses_grant (bg_case b) then [(''limits'', JObj (bg_limits b))] else []))"

definition resolve_budget :: "string \<Rightarrow> budget_card \<Rightarrow> budget_card" where
  "resolve_budget decision b =
     (if gate_free (bg_gate b)
      then b\<lparr>bg_gate := gate_begin (bg_gate b),
             bg_sent := bg_sent b @ [(''/api/workspace/tasks/'' @ bq_task (bg_case b) @ ''/approvals/'' @ ap_id (bq_approval (bg_case b)) @ ''/resolve'',
               budget_body b decision)]\<rparr>
      else b)"

definition budget_answer :: "nat \<Rightarrow> unit js_result \<Rightarrow> budget_card \<Rightarrow> budget_card" where
  "budget_answer n r b =
     (let b' = b\<lparr>bg_gate := gate_answer n (bg_gate b)\<rparr> in
      if gate_accepts n (bg_gate b)
      then (case r of Inr _ \<Rightarrow> b'\<lparr>bg_done := bg_done b + 1\<rparr> | Inl e \<Rightarrow> b'\<lparr>bg_errors := bg_errors b @ [e]\<rparr>)
      else b')"

definition set_limit :: "string \<Rightarrow> jsval \<Rightarrow> budget_card \<Rightarrow> budget_card" where
  "set_limit k v b = b\<lparr>bg_limits := AList.update k v (bg_limits b)\<rparr>"

datatype budget_action = BudgetOpen bool | BudgetLimit string | BudgetResolve string

definition shared_budget :: "budget_case \<Rightarrow> jsval" where
  "shared_budget c = jget (ap_payload (bq_approval c)) ''tree_budget''"

definition budget_title :: "budget_case \<Rightarrow> string" where
  "budget_title c =
     (if reuses_grant c then ''Continue within the approved shared budget''
      else if truthy (shared_budget c) then ''Shared task tree budget exhausted'' else ''Run budget exhausted'')"

definition budget_text :: "budget_case \<Rightarrow> string" where
  "budget_text c =
     (if reuses_grant c then ''The host stopped after this grant was approved. Confirm continuation within that same allowance; this does not reset time or increase the reserved-call ceiling.''
      else if truthy (shared_budget c) then ''Review the total parent/child tool-call ceiling and fresh summed active execution seconds. Completed effects and reserved calls remain. Each paused task needs an explicit continue decision within the same shared grant.''
      else ''Review the total budget for this task before allowing more work.'')"

definition limit_label :: "bool \<Rightarrow> string \<Rightarrow> string" where
  "limit_label shared k =
     (if shared \<and> k = ''max_seconds'' then ''Fresh shared active seconds''
      else if shared \<and> k = ''max_steps'' then ''Total shared tool-call ceiling'' else replace_char (CHR ''_'') (CHR '' '') k)"

text \<open>The lowest value a field takes: one more than the calls already used.\<close>

definition limit_min :: "budget_case \<Rightarrow> string \<Rightarrow> jsval" where
  "limit_min c k =
     (if truthy (shared_budget c) \<and> k = ''max_steps''
      then (case js_property (shared_budget c) ''used_steps'' of JNum (Fin q) \<Rightarrow> JNum (Fin (q + 1)) | _ \<Rightarrow> JNum NaN) else js_int 1)"

definition limit_field :: "budget_case \<Rightarrow> string \<times> jsval \<Rightarrow> budget_action view" where
  "limit_field c = (\<lambda>(k, v). box ''label'' [VText (limit_label (truthy (shared_budget c)) k),
     VEl ''input'' [attr_text ''aria-label'' (''Extended '' @ k), (''min'', limit_min c k), (''value'', v)] [(''onChange'', BudgetLimit k)] []])"

text \<open>\<open>fixed\<close> is \<open>toFixed(1)\<close>, \<open>to_text\<close> the text of a value.\<close>

definition budget_used :: "(jsval \<Rightarrow> string) \<Rightarrow> (jsval \<Rightarrow> string) \<Rightarrow> jsval \<Rightarrow> string" where
  "budget_used to_text fixed s =
     ''Root '' @ to_text (js_property s ''root_task_id'') @ '' '' @ [CHR 0xB7] @ '' grant version '' @ to_text (js_property s ''version'') @ '' '' @ [CHR 0xB7]
     @ '' '' @ to_text (js_property s ''used_steps'') @ '' / '' @ to_text (js_property s ''max_steps'') @ '' reserved calls '' @ [CHR 0xB7] @ '' ''
     @ fixed (js_property s ''used_execution_seconds'') @ '' / '' @ to_text (js_property s ''max_execution_seconds'')
     @ '' active seconds. Human approval waits do not consume this shared time allowance.''"

definition budget_view :: "(jsval \<Rightarrow> string) \<Rightarrow> (jsval \<Rightarrow> string) \<Rightarrow> budget_card \<Rightarrow> budget_action view" where
  "budget_view to_text fixed b =
     (let c = bg_case b; g = bg_gate b; locked = cg_locked g; off = cg_busy g \<or> cg_locked g in
      box ''section''
        [labelled ''h4'' (budget_title c),
         button locked (BudgetOpen True) (if reuses_grant c then ''Review approved continuation'' else ''Review budget extension''),
         show_if (cg_open g) (box ''DialogContent''
           ([labelled ''h2'' (budget_title c), labelled ''p'' ''Review this exact pending grant before allowing execution to continue.'',
             labelled ''p'' (budget_text c),
             show_if (truthy (shared_budget c)) (labelled ''p'' (budget_used to_text fixed (shared_budget c)))] @
            (if reuses_grant c then [] else map (limit_field c) (bg_limits b)) @
            [button off (BudgetResolve ''approved'') (if reuses_grant c then ''Continue within approved budget'' else ''Approve budget extension''),
             button off (BudgetResolve ''denied'') ''Stop at current budget'']))])"

text \<open>A locked card offers nothing and sends nothing; limits travel with an approval only, and never with the continuation
  of a grant that was approved before.\<close>

definition has_limits :: "jsval \<Rightarrow> bool" where
  "has_limits body = (js_property body ''limits'' \<noteq> JUndef)"

theorem budget_decision_bounded:
  "(has_limits (budget_body b d) \<longleftrightarrow> d = ''approved'' \<and> \<not> reuses_grant (bg_case b))
    \<and> (cg_locked (bg_gate b) \<and> \<not> cg_open (bg_gate b) \<longrightarrow> offers (budget_view to_text fixed b) = [] \<and> resolve_budget d b = b)"
  by (simp add: has_limits_def budget_body_def js_property_def jget_def budget_view_def Let_def resolve_budget_def gate_free_def)

definition sample_budget :: budget_card where
  "sample_budget = mount_budget \<lparr>bq_task = ''t1'', bq_limits = [(''max_steps'', js_int 20)],
     bq_approval = \<lparr>ap_id = ''a1'', ap_status = ''pending'', ap_actual_status = None, ap_actionable = None, ap_kind = ''budget'', ap_payload = []\<rparr>\<rparr>"

definition locked_budget :: budget_card where
  "locked_budget = sample_budget\<lparr>bg_gate := gate_lock (bg_gate sample_budget)\<rparr>"

theorem budget_decision_bounded_witness:
  "offers (budget_view to_text fixed locked_budget) = [] \<and> resolve_budget ''approved'' locked_budget = locked_budget"
  using budget_decision_bounded [of locked_budget "''approved''" to_text fixed] by (simp add: locked_budget_def gate_lock_def)

section \<open>The card of any other action\<close>

record general_card =
  gn_gate :: card_gate
  gn_task :: string
  gn_approval :: approval
  gn_scope :: string
  gn_error :: string
  gn_sent :: "sent_decision list"
  gn_done :: nat
  gn_errors :: "js_error list"

definition remember_scopes :: "(string \<times> string) list" where
  "remember_scopes = [(''task'', ''This task''), (''conversation'', ''This conversation on this device''), (''project'', ''This project for me''),
     (''custom_agent'', ''This agent preset for me'')]"

definition remember_options :: "approval \<Rightarrow> string list" where
  "remember_options a =
     (case jget (ap_payload a) ''remember_options'' of
        JArr vs \<Rightarrow> filter (\<lambda>v. v \<in> fst ` set remember_scopes) (List.map_filter opt_str vs) | _ \<Rightarrow> [])"

definition effective_scope :: "general_card \<Rightarrow> string" where
  "effective_scope c = (if gn_scope c \<in> set (remember_options (gn_approval c)) then gn_scope c else ''once'')"

definition browser_preview :: "approval \<Rightarrow> jsval" where
  "browser_preview a =
     js_property (js_or (jget (ap_payload a) ''browser_review'') (js_property (jget (ap_payload a) ''request'') ''browser_review'')) ''human_preview''"

definition manual_required :: "approval \<Rightarrow> bool" where
  "manual_required a = truthy (js_property (browser_preview a) ''manual_required'')"

definition mount_general :: "string \<Rightarrow> approval \<Rightarrow> general_card" where
  "mount_general task a = \<lparr>gn_gate = new_gate (card_identity task (ap_id a)), gn_task = task, gn_approval = a, gn_scope = ''once'', gn_error = [],
     gn_sent = [], gn_done = 0, gn_errors = []\<rparr>"

definition show_general :: "string \<Rightarrow> approval \<Rightarrow> general_card \<Rightarrow> general_card" where
  "show_general task a c =
     (let same = (task = gn_task c \<and> ap_id a = ap_id (gn_approval c)) in
      c\<lparr>gn_gate := gate_show (card_identity task (ap_id a)) (gn_gate c), gn_task := task, gn_approval := a,
        gn_scope := (if same then gn_scope c else ''once''), gn_error := (if same then gn_error c else [])\<rparr>)"

definition decision_body :: "general_card \<Rightarrow> string \<Rightarrow> jsval" where
  "decision_body c decision =
     JObj ((''decision'', JStr decision) # (if effective_scope c = ''once'' then [] else [(''remember'', JStr (effective_scope c))]))"

definition decide_general :: "string \<Rightarrow> general_card \<Rightarrow> general_card" where
  "decide_general decision c =
     (if gate_free (gn_gate c)
      then c\<lparr>gn_gate := gate_begin (gn_gate c), gn_error := [],
             gn_sent := gn_sent c @ [(''/api/workspace/tasks/'' @ encode_component (gn_task c) @ ''/approvals/'' @
               encode_component (ap_id (gn_approval c)) @ ''/resolve'', decision_body c decision)]\<rparr>
      else c)"

definition general_answer :: "nat \<Rightarrow> unit js_result \<Rightarrow> general_card \<Rightarrow> general_card" where
  "general_answer n r c =
     (let c' = c\<lparr>gn_gate := gate_answer n (gn_gate c)\<rparr> in
      if gate_accepts n (gn_gate c)
      then (case r of Inr _ \<Rightarrow> c'\<lparr>gn_done := gn_done c + 1\<rparr>
                    | Inl e \<Rightarrow> c'\<lparr>gn_error := error_message e, gn_errors := gn_errors c @ [e]\<rparr>)
      else c')"

definition set_scope :: "string \<Rightarrow> general_card \<Rightarrow> general_card" where
  "set_scope s c = c\<lparr>gn_scope := s\<rparr>"

datatype general_action = GeneralOpen bool | GeneralScope | GeneralDecide string

definition scope_select :: "general_card \<Rightarrow> general_action view" where
  "scope_select c =
     box ''label'' [VText ''Remember this decision'',
       VEl ''select'' [attr_text ''value'' (effective_scope c), attr_flag ''disabled'' (cg_busy (gn_gate c) \<or> cg_locked (gn_gate c))] [(''onChange'', GeneralScope)]
         (labelled ''option'' ''Only this operation'' #
          map (\<lambda>v. labelled ''option'' (case map_of remember_scopes v of None \<Rightarrow> [] | Some t \<Rightarrow> t)) (remember_options (gn_approval c)))]"

definition general_view :: "(jsval \<Rightarrow> string) \<Rightarrow> (jsval \<Rightarrow> string) \<Rightarrow> general_card \<Rightarrow> general_action view" where
  "general_view to_text pretty c =
     (let a = gn_approval c; g = gn_gate c; off = cg_busy g \<or> cg_locked g; preview = browser_preview a; p = ap_payload a in
      box ''Confirmation''
        [labelled ''h4'' (if manual_required a then ''Manual operation required'' else ''Approval needed''),
         button (cg_locked g) (GeneralOpen True)
           (if manual_required a then ''Review manual operation'' else if truthy preview then ''Review browser operation'' else ''Review action''),
         show_if (cg_open g) (box ''DialogContent''
           [labelled ''h2'' (if truthy preview then ''Review browser operation'' else ''Review action''),
            labelled ''p'' ''Inspect this exact operation, its target and the applicable host policy.'',
            labelled ''p'' (to_text (js_or (jget p ''reason'') (js_or (jget p ''consequence'') (JStr ''Review this exact operation before it continues.'')))),
            VEl ''BrowserApprovalPreview'' [(''preview'', preview)] [] [],
            box ''details'' [labelled ''summary'' ''Exact operation and host policy'', labelled ''pre'' (pretty (JObj p))],
            show_if (remember_options a \<noteq> []) (scope_select c),
            show_if (gn_error c \<noteq> []) (labelled ''p'' (gn_error c)),
            button (off \<or> manual_required a) (GeneralDecide ''approved'') (if effective_scope c = ''once'' then ''Allow once'' else ''Allow and remember''),
            button off (GeneralDecide ''denied'') (if effective_scope c = ''once'' then ''Deny'' else ''Deny and remember'')])])"

lemma offers_scope_select: "set (offers (scope_select c)) \<subseteq> {GeneralScope}"
  by (auto simp: scope_select_def is_on_def jget_def attr_text_def attr_flag_def)

text \<open>A decision is remembered only in a scope the host offered for this very request and the card knows by name;
  an operation that a person must do by hand cannot be approved here; and a locked card offers no decision.\<close>

theorem consent_stays_offered:
  assumes "GeneralDecide d \<in> set (offers (general_view to_text pretty c))"
  shows "\<not> cg_locked (gn_gate c) \<and> \<not> cg_busy (gn_gate c) \<and> cg_open (gn_gate c) \<and> (d = ''approved'' \<longrightarrow> \<not> manual_required (gn_approval c))
    \<and> (\<forall>s. js_property (decision_body c d) ''remember'' = JStr s \<longrightarrow> s \<in> set (remember_options (gn_approval c)) \<and> s \<in> fst ` set remember_scopes)"
proof -
  have options: "s \<in> set (remember_options a) \<Longrightarrow> s \<in> fst ` set remember_scopes" for s a
    by (auto simp: remember_options_def split: jsval.splits)
  have "js_property (decision_body c d) ''remember'' = JStr s \<Longrightarrow> s \<in> set (remember_options (gn_approval c))" for s
    by (auto simp: decision_body_def js_property_def jget_def effective_scope_def split: if_splits)
  then show ?thesis
    using assms offers_scope_select [of c] options
    by (auto simp: general_view_def Let_def in_offers simp del: offer_rules)
      (auto simp: is_on_def jget_def)
qed

definition sample_action :: approval where
  "sample_action = \<lparr>ap_id = ''a1'', ap_status = ''pending'', ap_actual_status = None, ap_actionable = None, ap_kind = ''tool'',
     ap_payload = [(''remember_options'', JArr [JStr ''task'', JStr ''constructor''])]\<rparr>"

definition open_general :: general_card where
  "open_general = (let c = mount_general ''t1'' sample_action in set_scope ''task'' (c\<lparr>gn_gate := gate_open True (gn_gate c)\<rparr>))"

theorem consent_stays_offered_witness:
  "js_property (decision_body open_general ''approved'') ''remember'' = JStr ''task'' \<and> ''task'' \<in> set (remember_options (gn_approval open_general))"
proof -
  have "GeneralDecide ''approved'' \<in> set (offers (general_view (\<lambda>_. []) (\<lambda>_. []) open_general))" by code_simp
  note consent = consent_stays_offered [OF this]
  have "js_property (decision_body open_general ''approved'') ''remember'' = JStr ''task''" by code_simp
  with consent show ?thesis by blast
qed

end
