(* ===== verification/AccountForms.thy ===== *)
theory AccountForms
  imports ApprovalCards ApiTypes
begin

text \<open>
  Two forms of an account: \<open>features/MemoryEditor.tsx\<close>, which edits one remembered fact, and
  \<open>components/PairSignIn.tsx\<close>, which signs a browser in with a one-use pairing ticket taken from the
  address of the page. \<open>Number(text)\<close> and \<open>URLSearchParams\<close> are arguments.
\<close>

section \<open>Editing a memory\<close>

record memory_record =
  me_id :: string
  me_revision :: int
  me_content :: string
  me_provenance :: string
  me_project :: "string option"
  me_retention :: int
  me_excluded :: "bool option"

record memory_form =
  mf_original :: memory_record
  mf_content :: string
  mf_provenance :: string
  mf_retention :: string
  mf_error :: string
  mf_busy :: bool
  mf_sent :: "jsval list"
  mf_saved :: nat

definition open_memory :: "memory_record \<Rightarrow> memory_form" where
  "open_memory m = \<lparr>mf_original = m, mf_content = me_content m, mf_provenance = me_provenance m, mf_retention = int_text (me_retention m),
     mf_error = [], mf_busy = False, mf_sent = [], mf_saved = 0\<rparr>"

definition whole_between :: "int \<Rightarrow> int \<Rightarrow> jsnum \<Rightarrow> bool" where
  "whole_between lo hi n = (case n of Fin q \<Rightarrow> q = of_int \<lfloor>q\<rfloor> \<and> lo \<le> \<lfloor>q\<rfloor> \<and> \<lfloor>q\<rfloor> \<le> hi | _ \<Rightarrow> False)"

definition memory_valid :: "(string \<Rightarrow> jsnum) \<Rightarrow> memory_form \<Rightarrow> bool" where
  "memory_valid to_number f \<longleftrightarrow> trim (mf_content f) \<noteq> [] \<and> trim (mf_provenance f) \<noteq> [] \<and> whole_between 1 3650 (to_number (mf_retention f))"

definition memory_body :: "(string \<Rightarrow> jsnum) \<Rightarrow> memory_form \<Rightarrow> jsval" where
  "memory_body to_number f =
     (let m = mf_original f in
      JObj [(''identifier'', JStr (me_id m)), (''revision'', js_int (me_revision m)),
            (''project_id'', if truthy_text (me_project m) then JStr (the (me_project m)) else JNull),
            (''excluded'', JBool (me_excluded m = Some True)), (''content'', JStr (mf_content f)), (''provenance'', JStr (mf_provenance f)),
            (''retention_days'', JNum (to_number (mf_retention f)))])"

definition save_memory :: "(string \<Rightarrow> jsnum) \<Rightarrow> memory_form \<Rightarrow> memory_form" where
  "save_memory to_number f =
     (if mf_busy f \<or> \<not> memory_valid to_number f then f
      else f\<lparr>mf_busy := True, mf_error := [], mf_sent := mf_sent f @ [memory_body to_number f]\<rparr>)"

definition memory_kept_text :: string where
  "memory_kept_text = ''. Your draft is kept. If this memory changed, cancel and reopen its current version before saving.''"

definition memory_answer :: "unit js_result \<Rightarrow> memory_form \<Rightarrow> memory_form" where
  "memory_answer r f =
     (if \<not> mf_busy f then f
      else (case r of Inr _ \<Rightarrow> f\<lparr>mf_busy := False, mf_saved := mf_saved f + 1\<rparr>
                    | Inl e \<Rightarrow> f\<lparr>mf_busy := False, mf_error := error_message e @ memory_kept_text\<rparr>))"

datatype memory_event = MemoryText string | MemoryReason string | MemoryDays string | MemorySubmit | MemoryAnswer "unit js_result"

fun memory_step :: "(string \<Rightarrow> jsnum) \<Rightarrow> memory_event \<Rightarrow> memory_form \<Rightarrow> memory_form" where
  "memory_step num (MemoryText t) f = f\<lparr>mf_content := t\<rparr>"
| "memory_step num (MemoryReason t) f = f\<lparr>mf_provenance := t\<rparr>"
| "memory_step num (MemoryDays t) f = f\<lparr>mf_retention := t\<rparr>"
| "memory_step num MemorySubmit f = save_memory num f"
| "memory_step num (MemoryAnswer r) f = memory_answer r f"

datatype memory_action = MemoryInput string | MemoryCancel | MemorySave

definition memory_field :: "string \<Rightarrow> string \<Rightarrow> memory_action view" where
  "memory_field label value = box ''label'' [labelled ''span'' label, VEl ''input'' [attr_text ''value'' value] [(''onChange'', MemoryInput label)] []]"

definition memory_view :: "(string \<Rightarrow> jsnum) \<Rightarrow> memory_form \<Rightarrow> memory_action view" where
  "memory_view num f =
     (let m = mf_original f in box ''form''
        [labelled ''p'' ((if truthy_text (me_project m) then ''Project memory'' else ''Account memory'') @ '' '' @ [CHR 0xB7] @ '' revision '' @ int_text (me_revision m)
            @ '' '' @ [CHR 0xB7] @ '' '' @ (if me_excluded m = Some True then ''Excluded from execution'' else ''Included in context'')
            @ ''. Saving restarts the selected retention period.''),
         memory_field ''Fact or decision'' (mf_content f), memory_field ''Source or reason'' (mf_provenance f), memory_field ''Retention in days'' (mf_retention f),
         show_if (mf_error f \<noteq> []) (labelled ''p'' (mf_error f)),
         button (mf_busy f) MemoryCancel ''Cancel memory edit'',
         button (mf_busy f \<or> \<not> memory_valid num f) MemorySave (if mf_busy f then ''Saving memory'' @ [CHR 0x85] else ''Save memory changes'')])"

definition original_body :: "memory_record \<Rightarrow> jsval \<Rightarrow> bool" where
  "original_body m b \<longleftrightarrow> js_property b ''identifier'' = JStr (me_id m) \<and> js_property b ''revision'' = js_int (me_revision m)
     \<and> js_property b ''excluded'' = JBool (me_excluded m = Some True)
     \<and> (\<exists>n. js_property b ''retention_days'' = JNum n \<and> whole_between 1 3650 n)"

definition memory_inv :: "memory_record \<Rightarrow> memory_form \<Rightarrow> bool" where
  "memory_inv m f \<longleftrightarrow> mf_original f = m \<and> (\<forall>b \<in> set (mf_sent f). original_body m b)"

lemma memory_inv_step: "memory_inv m f \<Longrightarrow> memory_inv m (memory_step num e f)"
proof (cases e)
  case MemorySubmit
  assume "memory_inv m f"
  moreover have "memory_valid num f \<Longrightarrow> mf_original f = m \<Longrightarrow> original_body m (memory_body num f)"
    by (simp add: original_body_def memory_body_def Let_def js_property_def jget_def memory_valid_def)
  ultimately show ?thesis using MemorySubmit by (auto simp: memory_inv_def save_memory_def)
qed (auto simp: memory_inv_def memory_answer_def split: sum.splits)

text \<open>However long a memory is edited and however often its saving fails, what is sent names the revision and the scope it was opened
  with and a legal retention; and a failed save keeps what was typed.\<close>

theorem memory_saved_as_opened:
  "memory_inv m (foldl (\<lambda>f e. memory_step num e f) (open_memory m) es)
    \<and> mf_content (memory_answer (Inl er) f) = mf_content f \<and> mf_provenance (memory_answer (Inl er) f) = mf_provenance f
    \<and> mf_retention (memory_answer (Inl er) f) = mf_retention f"
proof -
  have "memory_inv m (foldl (\<lambda>f e. memory_step num e f) (open_memory m) es)"
    by (rule foldl_invariant) (simp_all add: memory_inv_step, simp add: memory_inv_def open_memory_def)
  then show ?thesis by (simp add: memory_answer_def)
qed

section \<open>Signing in with a pairing link\<close>

record page_location =
  lo_hash :: string
  lo_path :: string
  lo_search :: string
  lo_protocol :: string
  lo_hostname :: string

datatype pairing = PairError string | PairTicket string string

definition ticket_text :: "string \<Rightarrow> bool" where
  "ticket_text t \<longleftrightarrow> 32 \<le> length t \<and> length t \<le> 256 \<and> list_all (\<lambda>c. is_word_char c \<or> c = CHR ''-'') t"

definition param_text :: "(string \<times> string) list \<Rightarrow> string \<Rightarrow> string" where
  "param_text ps k = (case map_of ps k of None \<Rightarrow> [] | Some v \<Rightarrow> v)"

text \<open>The pairing found, and the address that replaces the one with the ticket in the history.\<close>

definition take_pairing_fragment :: "(string \<Rightarrow> (string \<times> string) list) \<Rightarrow> page_location \<Rightarrow> pairing option \<times> string option" where
  "take_pairing_fragment parse l =
     (let ps = parse (drop 1 (lo_hash l)); ticket = param_text ps ''termx_pair''; host = param_text ps ''host_id''; clean = Some (lo_path l @ lo_search l) in
      if map_of ps ''termx_pair'' = None then (None, None)
      else if \<not> ticket_text ticket \<or> host = [] \<or> length host > 128
      then (Some (PairError ''This pairing link is incomplete. Create a new QR code on the host.''), clean)
      else if lo_protocol l \<noteq> ''https:'' \<and> lo_hostname l \<notin> {''localhost'', ''127.0.0.1'', ''[::1]''}
      then (Some (PairError ''Open this pairing link over HTTPS.''), clean)
      else (Some (PairTicket ticket host), clean))"

record pair_panel =
  pn_incoming :: "pairing option"
  pn_error :: string
  pn_busy :: bool
  pn_consumed :: bool
  pn_sent :: "jsval list"
  pn_done :: nat

definition open_pairing :: "pairing option \<Rightarrow> pair_panel" where
  "open_pairing i = \<lparr>pn_incoming = i, pn_error = (case i of Some (PairError e) \<Rightarrow> e | _ \<Rightarrow> []), pn_busy = False, pn_consumed = False, pn_sent = [], pn_done = 0\<rparr>"

definition exchange_body :: "string \<Rightarrow> string \<Rightarrow> jsval" where
  "exchange_body ticket host = JObj [(''ticket'', JStr ticket), (''host_id'', JStr host), (''device_name'', JStr ''Paired browser''), (''transport'', JStr ''cookie'')]"

definition connect_pairing :: "pair_panel \<Rightarrow> pair_panel" where
  "connect_pairing p =
     (case pn_incoming p of
        Some (PairTicket t h) \<Rightarrow>
          if t = [] \<or> pn_busy p \<or> pn_consumed p then p else p\<lparr>pn_busy := True, pn_error := [], pn_sent := pn_sent p @ [exchange_body t h]\<rparr>
      | _ \<Rightarrow> p)"

text \<open>The host's answer; a ticket it took is consumed while \<open>onDone\<close> still runs.\<close>

definition exchange_answer :: "unit js_result \<Rightarrow> pair_panel \<Rightarrow> pair_panel" where
  "exchange_answer r p =
     (if \<not> pn_busy p \<or> pn_consumed p then p
      else (case r of Inr _ \<Rightarrow> p\<lparr>pn_consumed := True\<rparr> | Inl e \<Rightarrow> p\<lparr>pn_busy := False, pn_error := error_message e\<rparr>))"

definition pairing_done :: "unit js_result \<Rightarrow> pair_panel \<Rightarrow> pair_panel" where
  "pairing_done r p =
     (if \<not> pn_busy p \<or> \<not> pn_consumed p then p
      else (case r of Inr _ \<Rightarrow> p\<lparr>pn_busy := False, pn_done := pn_done p + 1\<rparr> | Inl e \<Rightarrow> p\<lparr>pn_busy := False, pn_error := error_message e\<rparr>))"

datatype pair_event = PairConnect | PairExchanged "unit js_result" | PairFinished "unit js_result"

fun pair_step :: "pair_event \<Rightarrow> pair_panel \<Rightarrow> pair_panel" where
  "pair_step PairConnect p = connect_pairing p"
| "pair_step (PairExchanged r) p = exchange_answer r p"
| "pair_step (PairFinished r) p = pairing_done r p"

definition pair_view :: "pair_panel \<Rightarrow> pair_event view" where
  "pair_view p =
     (case pn_incoming p of
        None \<Rightarrow> labelled ''p'' ''To sign in by QR, open Access & sessions on a signed-in host and scan its one-use pairing code.''
      | Some i \<Rightarrow> box ''section''
          [labelled ''h2'' ''Connect this browser'',
           labelled ''p'' ''Use the one-use invitation from your host. This browser receives the permissions selected there.'',
           button (pn_busy p \<or> pn_consumed p \<or> (case i of PairTicket t _ \<Rightarrow> t = [] | PairError _ \<Rightarrow> True)) PairConnect
             (if pn_busy p then ''Connecting'' @ [CHR 0x85] else ''Connect with pairing code''),
           show_if (pn_error p \<noteq> []) (labelled ''p'' (pn_error p)),
           labelled ''p'' ''Expired or already used codes require a new QR code from the host.''])"

text \<open>A ticket leaves the address of the page the moment it is found; it is used over HTTPS or on this machine only, and well formed.\<close>

theorem pairing_ticket_guarded:
  assumes "take_pairing_fragment parse l = (Some i, url)"
  shows "url = Some (lo_path l @ lo_search l)
    \<and> (\<forall>t h. i = PairTicket t h \<longrightarrow> ticket_text t \<and> h \<noteq> [] \<and> (lo_protocol l = ''https:'' \<or> lo_hostname l \<in> {''localhost'', ''127.0.0.1'', ''[::1]''}))"
  using assms by (auto simp: take_pairing_fragment_def Let_def split: if_splits)

definition pair_query :: "string \<Rightarrow> (string \<times> string) list" where
  "pair_query s = [(''termx_pair'', replicate 40 (CHR ''a'')), (''host_id'', ''h1'')]"

definition pair_page :: page_location where
  "pair_page = \<lparr>lo_hash = ''#x'', lo_path = ''/'', lo_search = [], lo_protocol = ''https:'', lo_hostname = ''host''\<rparr>"

theorem pairing_ticket_guarded_witness:
  "ticket_text (replicate 40 (CHR ''a''))"
proof -
  have "take_pairing_fragment pair_query pair_page = (Some (PairTicket (replicate 40 (CHR ''a'')) ''h1''), Some ''/'')" by code_simp
  from pairing_ticket_guarded [OF this] show ?thesis by blast
qed

lemma consumed_step: "pn_consumed p \<Longrightarrow> pn_consumed (pair_step e p) \<and> pn_sent (pair_step e p) = pn_sent p"
  by (cases e) (auto simp: connect_pairing_def exchange_answer_def pairing_done_def split: option.split pairing.split sum.split)

text \<open>A ticket the host took is never sent again, whatever happens afterwards.\<close>

theorem pairing_used_once:
  assumes "pn_consumed p"
  shows "pn_sent (foldl (\<lambda>q e. pair_step e q) p es) = pn_sent p \<and> PairConnect \<notin> set (offers (pair_view p))"
proof -
  have "pn_consumed (foldl (\<lambda>q e. pair_step e q) p es) \<and> pn_sent (foldl (\<lambda>q e. pair_step e q) p es) = pn_sent p"
    by (rule foldl_invariant) (use assms consumed_step in auto)
  moreover have "PairConnect \<notin> set (offers (pair_view p))" using assms by (simp add: pair_view_def split: option.split)
  ultimately show ?thesis by blast
qed

definition paired_panel :: pair_panel where
  "paired_panel = foldl (\<lambda>q e. pair_step e q) (open_pairing (Some (PairTicket ''t'' ''h''))) [PairConnect, PairExchanged (Inr ())]"

theorem pairing_used_once_witness:
  "length (pn_sent (foldl (\<lambda>q e. pair_step e q) paired_panel [PairFinished (Inl (JsError ''offline'')), PairConnect])) = 1"
proof -
  have "pn_consumed paired_panel" "length (pn_sent paired_panel) = 1" by code_simp+
  then show ?thesis using pairing_used_once [of paired_panel] by metis
qed

end
