(* ===== verification/OneAtATime.thy ===== *)
theory OneAtATime
  imports JsPrelude
begin

text \<open>
  The discipline many panels share: a flag says that an operation of the present generation is under way,
  an operation starts only when the flag is down, its answer takes the flag down, and a render for
  another subject, a lock or an unmount starts a new generation. \<open>ledger\<close> is what of a panel's state this
  concerns: the generation, for every operation started its generation and whether it was answered, and the flag.
\<close>

type_synonym op_ledger = "nat \<times> (nat \<times> bool) list \<times> bool"

inductive op_change :: "op_ledger \<Rightarrow> op_ledger \<Rightarrow> bool" where
  op_idle: "op_change l l"
| op_begun: "op_change (g, os, False) (g, os @ [(g, False)], True)"
| op_settled: "n < length os \<Longrightarrow> os ! n = (h, False) \<Longrightarrow> op_change (g, os, b) (g, os[n := (h, True)], h \<noteq> g \<and> b)"
| op_renewed: "g < g' \<Longrightarrow> op_change (g, os, b) (g', os, False)"
| op_restarted: "g < g' \<Longrightarrow> op_change (g, os, b) (g', os @ [(g', False)], True)"

text \<open>Exactly one operation of the present generation is open while the flag is up, none while it is down, and none is of the future.\<close>

fun ledger_ok :: "op_ledger \<Rightarrow> bool" where
  "ledger_ok (g, os, b) \<longleftrightarrow> length (filter (\<lambda>x. x = (g, False)) os) = (if b then 1 else 0) \<and> (\<forall>x \<in> set os. fst x \<le> g)"

lemma op_change_ok: "op_change l l' \<Longrightarrow> ledger_ok l \<Longrightarrow> ledger_ok l'"
proof (induction rule: op_change.induct)
  case (op_settled n os h g b)
  have "h \<le> g" using op_settled nth_mem by fastforce
  then have "\<forall>x \<in> set (os[n := (h, True)]). fst x \<le> g" using op_settled.prems set_update_subset_insert [of os n "(h, True)"] by auto
  then show ?case using op_settled filter_update [of n os "\<lambda>x. x = (g, False)" "(h, True)"] by (auto split: if_splits)
next
  case (op_renewed g g' os b)
  then have "filter (\<lambda>x. x = (g', False)) os = []" by (force simp: filter_empty_conv)
  then show ?case using op_renewed by force
next
  case (op_restarted g g' os b)
  then have "filter (\<lambda>x. x = (g', False)) os = []" by (force simp: filter_empty_conv)
  then show ?case using op_restarted by force
qed (auto simp: filter_empty_conv)

lemma ledger_open_one:
  assumes "ledger_ok (g, os, b)" "i < length os" "j < length os" "os ! i = (g, False)" "os ! j = (g, False)"
  shows "i = j"
proof (rule ccontr)
  assume "i \<noteq> j"
  have "card {k. k < length os \<and> os ! k = (g, False)} \<le> 1" using assms(1) by (simp add: length_filter_conv_card split: if_splits)
  moreover have "card {i, j} \<le> card {k. k < length os \<and> os ! k = (g, False)}" by (rule card_mono) (use assms in auto)
  ultimately show False using \<open>i \<noteq> j\<close> by simp
qed

lemma ledger_open_iff:
  assumes "ledger_ok (g, os, b)" shows "b \<longleftrightarrow> (g, False) \<in> set os"
proof -
  have "filter (\<lambda>x. x = (g, False)) os = [] \<longleftrightarrow> (g, False) \<notin> set os" by (auto simp: filter_empty_conv)
  moreover have "filter (\<lambda>x. x = (g, False)) os = [] \<longleftrightarrow> \<not> b" using assms by (cases b) auto
  ultimately show ?thesis by blast
qed

text \<open>The states of a panel that was opened and then moved.\<close>

inductive reached :: "('s \<Rightarrow> bool) \<Rightarrow> ('s \<Rightarrow> 's \<Rightarrow> bool) \<Rightarrow> 's \<Rightarrow> bool" for opened :: "'s \<Rightarrow> bool" and moves :: "'s \<Rightarrow> 's \<Rightarrow> bool" where
  reached_opened: "opened s \<Longrightarrow> reached opened moves s"
| reached_moved: "reached opened moves s \<Longrightarrow> moves s t \<Longrightarrow> reached opened moves t"

locale one_at_a_time =
  fixes opened :: "'s \<Rightarrow> bool" and moves :: "'s \<Rightarrow> 's \<Rightarrow> bool" and holds :: "'s \<Rightarrow> bool" and ledger :: "'s \<Rightarrow> op_ledger"
  assumes opened_idle: "opened s \<Longrightarrow> holds s \<and> (\<exists>g. ledger s = (g, [], False))"
    and moves_keep: "holds s \<Longrightarrow> moves s t \<Longrightarrow> holds t"
    and moves_change: "holds s \<Longrightarrow> moves s t \<Longrightarrow> op_change (ledger s) (ledger t)"
begin

lemma reached_ok: "reached opened moves s \<Longrightarrow> holds s \<and> ledger_ok (ledger s)"
proof (induction rule: reached.induct)
  case (reached_opened s)
  then show ?case using opened_idle by fastforce
next
  case (reached_moved s t)
  then show ?case using op_change_ok [OF moves_change] moves_keep by blast
qed

lemma reached_holds: "reached opened moves s \<Longrightarrow> holds s"
  and ledger_kept: "reached opened moves s \<Longrightarrow> ledger_ok (ledger s)"
  using reached_ok by blast+

lemma one_open:
  assumes "reached opened moves s" "ledger s = (g, os, b)" "i < length os" "j < length os" "os ! i = (g, False)" "os ! j = (g, False)"
  shows "i = j"
  by (rule ledger_open_one [OF _ assms(3-6)]) (use ledger_kept [OF assms(1)] assms(2) in simp)

lemma flag_open:
  assumes "reached opened moves s" "ledger s = (g, os, b)" shows "b \<longleftrightarrow> (g, False) \<in> set os"
  by (rule ledger_open_iff) (use ledger_kept [OF assms(1)] assms(2) in simp)

lemma none_open:
  assumes "reached opened moves s" "ledger s = (g, map h xs, False)" "x \<in> set xs" shows "h x \<noteq> (g, False)"
  using flag_open [OF assms(1,2)] assms(3) by force

end

end
