(* ===== verification/AgentPresets.thy ===== *)
theory AgentPresets
  imports OneAtATime View
begin

text \<open>
  \<open>features/AgentPresetEditor.tsx\<close>: creating and editing an agent preset. The form keeps what was typed; what
  is sent is checked and cleaned, and an edit goes out under the revision of the file it was read from.
  \<open>to_number\<close> is the conversion \<open>Number\<close> of what a number field holds.
\<close>

section \<open>Presets and drafts\<close>

record agent_preset =
  ap_name :: string
  ap_description :: string
  ap_instructions :: string
  ap_engine :: string
  ap_model :: string
  ap_tools :: "string list"
  ap_toolsets :: "string list"
  ap_deny :: "string list"
  ap_approval :: string
  ap_sandbox :: string
  ap_enabled :: "bool option"
  ap_mcp :: "jsval list"
  ap_tools_mode :: string
  ap_limits :: "(string \<times> jsval) list"
  ap_file_revision :: string

text \<open>Key, label, default and greatest value.\<close>

definition budgets :: "(string \<times> string \<times> int \<times> int) list" where
  "budgets =
     [(''max_steps'', ''Maximum steps'', 256, 100000), (''max_seconds'', ''Maximum run seconds'', 14400, 604800),
      (''shell_timeout_s'', ''Shell timeout seconds'', 120, 86400), (''max_parallel_subagents'', ''Parallel subagents'', 3, 8),
      (''max_subagents_total'', ''Total subagents'', 8, 32)]"

record preset_draft =
  pd_name :: string
  pd_description :: string
  pd_instructions :: string
  pd_engine :: string
  pd_model :: string
  pd_tools :: string
  pd_toolsets :: string
  pd_deny :: string
  pd_approval :: string
  pd_sandbox :: string
  pd_enabled :: bool
  pd_mcp :: "jsval list"
  pd_all_tools :: bool
  pd_budgets :: "(string \<times> jsval) list"

definition lines :: "string list \<Rightarrow> string" where
  "lines xs = join_with [CHR 0x0A] xs"

definition or_default :: "string \<Rightarrow> string \<Rightarrow> string" where
  "or_default s d = (if s = [] then d else s)"

definition draft_of_preset :: "agent_preset option \<Rightarrow> preset_draft" where
  "draft_of_preset preset =
     (case preset of
        None \<Rightarrow> \<lparr>pd_name = [], pd_description = [], pd_instructions = [], pd_engine = ''inherit'', pd_model = [], pd_tools = [], pd_toolsets = [],
          pd_deny = [], pd_approval = ''standard'', pd_sandbox = ''agent'', pd_enabled = True, pd_mcp = [], pd_all_tools = False,
          pd_budgets = map (\<lambda>(k, _, d, _). (k, js_int d)) budgets\<rparr>
      | Some p \<Rightarrow> \<lparr>pd_name = ap_name p, pd_description = ap_description p, pd_instructions = ap_instructions p, pd_engine = or_default (ap_engine p) ''inherit'',
          pd_model = ap_model p, pd_tools = lines (ap_tools p), pd_toolsets = lines (ap_toolsets p), pd_deny = lines (ap_deny p),
          pd_approval = or_default (ap_approval p) ''standard'', pd_sandbox = or_default (ap_sandbox p) ''agent'',
          pd_enabled = (case ap_enabled p of None \<Rightarrow> True | Some b \<Rightarrow> b), pd_mcp = ap_mcp p, pd_all_tools = (ap_tools_mode p = ''all''),
          pd_budgets = map (\<lambda>(k, _, d, _). (k, js_coalesce (jget (ap_limits p) k) (js_int d))) budgets\<rparr>)"

section \<open>What may be sent\<close>

definition whole_number :: "jsnum \<Rightarrow> int option" where
  "whole_number n = (case n of Fin r \<Rightarrow> if snd (quotient_of r) = 1 then Some (fst (quotient_of r)) else None | _ \<Rightarrow> None)"

definition budget_value :: "(jsval \<Rightarrow> jsnum) \<Rightarrow> preset_draft \<Rightarrow> string \<Rightarrow> int option" where
  "budget_value to_number d k = whole_number (to_number (jget (pd_budgets d) k))"

definition preset_valid :: "(jsval \<Rightarrow> jsnum) \<Rightarrow> preset_draft \<Rightarrow> bool" where
  "preset_valid to_number d \<longleftrightarrow> trim (pd_name d) \<noteq> []
     \<and> list_all (\<lambda>(k, _, _, most). case budget_value to_number d k of None \<Rightarrow> False | Some n \<Rightarrow> 1 \<le> n \<and> n \<le> most) budgets"

record preset_input =
  pi_name :: string
  pi_description :: string
  pi_instructions :: string
  pi_engine :: string
  pi_model :: string
  pi_mcp :: "jsval list"
  pi_toolsets :: "string list"
  pi_deny :: "string list"
  pi_limits :: "(string \<times> int) list"
  pi_approval :: string
  pi_sandbox :: string
  pi_enabled :: bool
  pi_tools :: "string list option"
  pi_revision :: "string option"
  pi_tools_mode :: "string option"

definition preset_input_of :: "(jsval \<Rightarrow> jsnum) \<Rightarrow> agent_preset option \<Rightarrow> preset_draft \<Rightarrow> preset_input" where
  "preset_input_of to_number original d =
     \<lparr>pi_name = trim (pd_name d), pi_description = pd_description d, pi_instructions = pd_instructions d,
      pi_engine = or_default (trim (pd_engine d)) ''inherit'', pi_model = trim (pd_model d), pi_mcp = pd_mcp d, pi_toolsets = comma_items (pd_toolsets d),
      pi_deny = comma_items (pd_deny d), pi_limits = map (\<lambda>(k, _). (k, the (budget_value to_number d k))) budgets,
      pi_approval = pd_approval d, pi_sandbox = pd_sandbox d, pi_enabled = pd_enabled d,
      pi_tools = (if pd_all_tools d then None else Some (comma_items (pd_tools d))),
      pi_revision = map_option ap_file_revision original,
      pi_tools_mode = map_option (\<lambda>_. if pd_all_tools d then ''all'' else ''explicit'') original\<rparr>"

section \<open>The editor\<close>

record preset_editor =
  pe_original :: "agent_preset option"
  pe_draft :: preset_draft
  pe_busy :: bool
  pe_error :: string
  pe_sent :: "(preset_input \<times> bool) list"

definition open_preset :: "agent_preset option \<Rightarrow> preset_editor" where
  "open_preset preset = \<lparr>pe_original = preset, pe_draft = draft_of_preset preset, pe_busy = False, pe_error = [], pe_sent = []\<rparr>"

definition change_preset :: "preset_draft \<Rightarrow> preset_editor \<Rightarrow> preset_editor" where
  "change_preset d e = (if pe_busy e then e else e\<lparr>pe_draft := d\<rparr>)"

definition kept_text :: "string \<Rightarrow> string" where
  "kept_text m = m @ ''. Your draft is kept.''"

definition save_preset :: "(jsval \<Rightarrow> jsnum) \<Rightarrow> preset_editor \<Rightarrow> preset_editor" where
  "save_preset to_number e =
     (if pe_busy e \<or> \<not> preset_valid to_number (pe_draft e) then e
      else if (case pe_original e of None \<Rightarrow> False | Some p \<Rightarrow> ap_file_revision p = [])
      then e\<lparr>pe_error := kept_text ''This preset has no editable file revision. Refresh its source before editing''\<rparr>
      else e\<lparr>pe_busy := True, pe_error := [], pe_sent := pe_sent e @ [(preset_input_of to_number (pe_original e) (pe_draft e), False)]\<rparr>)"

text \<open>\<open>onSave\<close> answers whether the preset was stored, or fails.\<close>

definition preset_answer :: "nat \<Rightarrow> bool js_result \<Rightarrow> preset_editor \<Rightarrow> preset_editor" where
  "preset_answer n r e =
     (if n < length (pe_sent e) \<and> \<not> snd (pe_sent e ! n)
      then e\<lparr>pe_sent := (pe_sent e)[n := (fst (pe_sent e ! n), True)], pe_busy := False,
             pe_error := (case r of Inl x \<Rightarrow> kept_text (error_message x)
               | Inr ok \<Rightarrow> if ok then pe_error e
                   else ''Preset could not be saved. Your draft is kept; inspect the host error above. For a revision conflict, cancel and reopen the current version.'')\<rparr>
      else e)"

section \<open>Choosing tools\<close>

definition toggle_tool :: "string \<Rightarrow> bool \<Rightarrow> preset_draft \<Rightarrow> preset_draft" where
  "toggle_tool tool on d =
     d\<lparr>pd_tools := (if on then lines (comma_items (pd_tools d) @ [tool]) else lines (filter (\<lambda>v. v \<noteq> tool) (comma_items (pd_tools d))))\<rparr>"

text \<open>Connections need the tools that reach them.\<close>

definition bind_connections :: "jsval list \<Rightarrow> preset_draft \<Rightarrow> preset_draft" where
  "bind_connections bindings d =
     (let d' = d\<lparr>pd_mcp := bindings\<rparr> in
      if bindings \<noteq> [] \<and> \<not> pd_all_tools d
      then d'\<lparr>pd_tools := lines (first_seen (comma_items (pd_tools d) @ [''mcp_catalog'', ''mcp_call'']))\<rparr> else d')"

section \<open>The form\<close>

datatype preset_action = SavePreset | CancelPreset | ToggleTool string bool | ToggleAllTools bool | PickEngine string | PickApproval string
  | PickSandbox string | ToggleEnabled bool

definition tool_choices :: "(string \<times> string) list" where
  "tool_choices = [(''read_file'', ''Read project files''), (''search_files'', ''Search project files''), (''write_file'', ''Write project files''),
     (''run_shell'', ''Run shell commands''), (''mcp_catalog'', ''Inspect connected tools''), (''mcp_call'', ''Use connected tools'')]"

definition preset_field :: "bool \<Rightarrow> string \<Rightarrow> string \<Rightarrow> preset_action view" where
  "preset_field busy label v = VEl ''label'' [attr_flag ''disabled'' busy, attr_text ''value'' v] [] [labelled ''span'' label]"

definition engine_picker :: "(string \<times> string) list \<Rightarrow> preset_editor \<Rightarrow> preset_action view" where
  "engine_picker engines e =
     (let now = pd_engine (pe_draft e) in
      picker (pe_busy e) (\<lambda>x. PickEngine (fst x)) snd
        ((''inherit'', ''Use the session engine'') # engines
         @ (if now \<noteq> ''inherit'' \<and> now \<notin> fst ` set engines then [(now, ''Current configured engine '' @ [CHR 0xB7, CHR '' ''] @ now)] else [])))"

definition preset_view :: "(jsval \<Rightarrow> jsnum) \<Rightarrow> (string \<times> string) list \<Rightarrow> bool \<Rightarrow> preset_editor \<Rightarrow> preset_action view" where
  "preset_view to_number engines can_cancel e =
     (let d = pe_draft e; busy = pe_busy e in box ''form''
       [labelled ''p'' (''Presets configure future runs. Saving never retargets a running task or grants tool authority. ''
          @ (case pe_original e of None \<Rightarrow> [] | Some p \<Rightarrow> ''Source revision: '' @ or_default (ap_file_revision p) ''unavailable'' @ ''.'')),
        preset_field busy ''Name'' (pd_name d), preset_field busy ''Purpose'' (pd_description d), preset_field busy ''Instructions'' (pd_instructions d),
        engine_picker engines e, preset_field busy ''Default model for future sessions'' (pd_model d),
        box ''fieldset''
          [checkbox busy (pd_all_tools d) (ToggleAllTools (\<not> pd_all_tools d)) ''Inherit all host-authorized tools'',
           show_if (\<not> pd_all_tools d) (box ''div'' (map (\<lambda>(i, l). let on = i \<in> set (comma_items (pd_tools d)) in checkbox busy on (ToggleTool i (\<not> on)) l) tool_choices)),
           show_if (\<not> pd_all_tools d) (preset_field busy ''Allowed tool IDs (one per line)'' (pd_tools d)),
           preset_field busy ''Toolset IDs (one per line)'' (pd_toolsets d), preset_field busy ''Denied tool IDs (one per line)'' (pd_deny d)],
        box ''fieldset'' (map (\<lambda>(k, l, _, _). preset_field busy l (text_of (jget (pd_budgets d) k))) budgets),
        picker busy PickApproval (\<lambda>x. x) [''standard'', ''remember'', ''autonomous''],
        picker busy PickSandbox (\<lambda>x. x) [''agent'', ''workspace'', ''host''],
        checkbox busy (pd_enabled d) (ToggleEnabled (\<not> pd_enabled d)) ''Available for future sessions'',
        show_if (pe_error e \<noteq> []) (labelled ''p'' (pe_error e)),
        show_if can_cancel (button busy CancelPreset ''Cancel preset edit''),
        button (busy \<or> \<not> preset_valid to_number d) SavePreset
          (if busy then ''Saving preset...'' else if pe_original e \<noteq> None then ''Save preset changes'' else ''Save preset'')])"

section \<open>What is sent is valid\<close>

inductive preset_moves :: "(jsval \<Rightarrow> jsnum) \<Rightarrow> preset_editor \<Rightarrow> preset_editor \<Rightarrow> bool" for to_number :: "jsval \<Rightarrow> jsnum" where
  pm_changed: "preset_moves to_number e (change_preset d e)"
| pm_saved: "preset_moves to_number e (save_preset to_number e)"
| pm_answered: "preset_moves to_number e (preset_answer n r e)"

definition preset_opened :: "preset_editor \<Rightarrow> bool" where
  "preset_opened e \<longleftrightarrow> (\<exists>p. e = open_preset p)"

definition clean_items :: "string list \<Rightarrow> bool" where
  "clean_items xs \<longleftrightarrow> distinct xs \<and> [] \<notin> set xs"

definition input_ok :: "agent_preset option \<Rightarrow> preset_input \<Rightarrow> bool" where
  "input_ok original i \<longleftrightarrow> pi_name i \<noteq> []
     \<and> list_all (\<lambda>(k, _, _, most). case map_of (pi_limits i) k of None \<Rightarrow> False | Some n \<Rightarrow> 1 \<le> n \<and> n \<le> most) budgets
     \<and> clean_items (pi_toolsets i) \<and> clean_items (pi_deny i) \<and> (case pi_tools i of None \<Rightarrow> True | Some ts \<Rightarrow> clean_items ts)
     \<and> pi_revision i = map_option ap_file_revision original \<and> pi_revision i \<noteq> Some []"

definition editor_ok :: "preset_editor \<Rightarrow> bool" where
  "editor_ok e \<longleftrightarrow> list_all (input_ok (pe_original e)) (map fst (pe_sent e))"

definition preset_ledger :: "preset_editor \<Rightarrow> op_ledger" where
  "preset_ledger e = (0, map (\<lambda>x. (0, snd x)) (pe_sent e), pe_busy e)"

lemma clean_comma_items: "clean_items (comma_items s)"
  using comma_items_clean by (auto simp: clean_items_def)

lemma valid_input_ok:
  assumes "preset_valid to_number d" "case original of None \<Rightarrow> True | Some p \<Rightarrow> ap_file_revision p \<noteq> []"
  shows "input_ok original (preset_input_of to_number original d)"
  using assms by (auto simp: input_ok_def preset_input_of_def preset_valid_def budgets_def clean_comma_items split: option.splits)

lemma preset_moves_ok:
  assumes "preset_moves to_number e e'" "editor_ok e" shows "editor_ok e'"
  using assms(1)
proof cases
  case pm_saved
  then show ?thesis using assms(2) valid_input_ok [of to_number "pe_draft e" "pe_original e"]
    by (auto simp: editor_ok_def save_preset_def split: option.splits)
next
  case (pm_answered n r)
  have "map fst ((pe_sent e)[n := (fst (pe_sent e ! n), True)]) = map fst (pe_sent e)" if "n < length (pe_sent e)"
    using that by (simp add: map_update list_update_same_conv)
  then show ?thesis using pm_answered assms(2) by (simp add: editor_ok_def preset_answer_def)
qed (use assms(2) in \<open>simp add: editor_ok_def change_preset_def\<close>)

lemma preset_moves_change:
  assumes "preset_moves to_number e e'" shows "op_change (preset_ledger e) (preset_ledger e')"
  using assms
proof cases
  case (pm_changed d)
  then show ?thesis by (simp add: change_preset_def preset_ledger_def op_idle)
next
  case pm_saved
  then show ?thesis using op_begun [of 0] by (auto simp: save_preset_def preset_ledger_def op_idle)
next
  case (pm_answered n r)
  show ?thesis
  proof (cases "n < length (pe_sent e) \<and> \<not> snd (pe_sent e ! n)")
    case True
    then show ?thesis using pm_answered op_settled [of n "map (\<lambda>x. (0, snd x)) (pe_sent e)" 0 0 "pe_busy e"]
      by (simp add: preset_answer_def preset_ledger_def map_update)
  qed (use pm_answered in \<open>auto simp: preset_answer_def op_idle\<close>)
qed

lemma preset_opened_ok: "preset_opened e \<Longrightarrow> editor_ok e \<and> (\<exists>g. preset_ledger e = (g, [], False))"
  by (auto simp: preset_opened_def open_preset_def editor_ok_def preset_ledger_def)

interpretation preset_form: one_at_a_time preset_opened "preset_moves to_number" editor_ok preset_ledger
  by unfold_locales (rule preset_opened_ok, assumption, erule (1) preset_moves_ok [rotated], erule preset_moves_change)

text \<open>C37. Every preset that is sent has a name, run budgets that are whole numbers within their bounds, lists of tools without blanks or repetitions, and the
  revision of the file that is edited; and a second one is not sent while the first is awaited.\<close>

theorem presets_sent_are_valid:
  assumes "reached preset_opened (preset_moves to_number) e"
  shows "(\<forall>x \<in> set (pe_sent e). input_ok (pe_original e) (fst x))
    \<and> (i < length (pe_sent e) \<longrightarrow> j < length (pe_sent e) \<longrightarrow> \<not> snd (pe_sent e ! i) \<longrightarrow> \<not> snd (pe_sent e ! j) \<longrightarrow> i = j)"
  using preset_form.reached_holds [OF assms] preset_form.one_open [OF assms, of 0 "map (\<lambda>x. (0, snd x)) (pe_sent e)" "pe_busy e" i j]
  by (auto simp: editor_ok_def preset_ledger_def list_all_iff)

definition plain_number :: "jsval \<Rightarrow> jsnum" where
  "plain_number v = (case v of JNum n \<Rightarrow> n | _ \<Rightarrow> NaN)"

definition named_preset :: preset_editor where
  "named_preset = change_preset ((draft_of_preset None)\<lparr>pd_name := '' Scout '', pd_tools := ''a,b'' @ [CHR 0x0A] @ ''a''\<rparr>) (open_preset None)"

theorem presets_sent_are_valid_witness:
  "map (\<lambda>x. (pi_name (fst x), pi_tools (fst x), map_of (pi_limits (fst x)) ''max_steps'')) (pe_sent (save_preset plain_number named_preset))
      = [(''Scout'', Some [''a'', ''b''], Some 256)]
   \<and> list_all (\<lambda>x. input_ok None (fst x)) (pe_sent (save_preset plain_number named_preset))"
proof -
  have "reached preset_opened (preset_moves plain_number) (open_preset None)" by (rule reached_opened) (auto simp: preset_opened_def)
  then have "reached preset_opened (preset_moves plain_number) named_preset" unfolding named_preset_def by (rule reached_moved) (rule pm_changed)
  then have "reached preset_opened (preset_moves plain_number) (save_preset plain_number named_preset)" by (rule reached_moved) (rule pm_saved)
  moreover have "map (\<lambda>x. (pi_name (fst x), pi_tools (fst x), map_of (pi_limits (fst x)) ''max_steps'')) (pe_sent (save_preset plain_number named_preset))
      = [(''Scout'', Some [''a'', ''b''], Some 256)]" "pe_original (save_preset plain_number named_preset) = None"
    by code_simp+
  ultimately show ?thesis unfolding list_all_iff using presets_sent_are_valid by fastforce
qed

end
