(* ===== verification/AiElements.thy ===== *)
theory AiElements
  imports View
begin

text \<open>
  \<open>components/ai-elements\<close>: the question form, the confirmation of a tool call, attachments
  and the header of a tool call, as the workspace adapted them. A component outside of its context
  provider throws; here a part takes the context value as an argument, and \<open>use_context\<close> is the
  lookup.
\<close>

definition use_context :: "string \<Rightarrow> 'c option \<Rightarrow> js_error + 'c" where
  "use_context msg ctx = (case ctx of None \<Rightarrow> Inl (JsError msg) | Some c \<Rightarrow> Inr c)"

section \<open>Question\<close>

record question_value =
  qv_selected :: "string list"
  qv_text :: string

record question_response =
  qr_selected :: "string list"
  qr_text :: "string option"

datatype selection_mode = Multiple | Single

record question_props =
  qp_default :: question_value
  qp_disabled :: bool
  qp_mode :: selection_mode
  qp_value :: "question_value option"

text \<open>The state, and what the callbacks \<open>onValueChange\<close> and \<open>onSubmit\<close> were told.\<close>

record question_state =
  qs_internal :: question_value
  qs_changes :: "question_value list"
  qs_submitted :: "question_response list"

record question_context =
  qc_disabled :: bool
  qc_selected :: "string list"
  qc_mode :: selection_mode
  qc_text :: string

definition use_question :: "question_context option \<Rightarrow> js_error + question_context" where
  "use_question ctx = use_context ''Question components must be used within Question'' ctx"

definition empty_value :: question_value where
  "empty_value = \<lparr>qv_selected = [], qv_text = []\<rparr>"

definition get_selected_values :: "string list \<Rightarrow> string \<Rightarrow> selection_mode \<Rightarrow> string list" where
  "get_selected_values current v mode =
     (let is_selected = v \<in> set current in
      if mode = Single then (if is_selected then [] else [v])
      else if is_selected then filter (\<lambda>item. item \<noteq> v) current
      else current @ [v])"

definition question_init :: "question_props \<Rightarrow> question_state" where
  "question_init p = \<lparr>qs_internal = qp_default p, qs_changes = [], qs_submitted = []\<rparr>"

definition question_now :: "question_props \<Rightarrow> question_state \<Rightarrow> question_value" where
  "question_now p s = (case qp_value p of Some v \<Rightarrow> v | None \<Rightarrow> qs_internal s)"

definition set_value :: "question_props \<Rightarrow> question_value \<Rightarrow> question_state \<Rightarrow> question_state" where
  "set_value p v s =
     s\<lparr>qs_internal := (if qp_value p = None then v else qs_internal s), qs_changes := qs_changes s @ [v]\<rparr>"

definition set_text :: "question_props \<Rightarrow> string \<Rightarrow> question_state \<Rightarrow> question_state" where
  "set_text p t s = set_value p ((question_now p s)\<lparr>qv_text := t\<rparr>) s"

definition toggle_value :: "question_props \<Rightarrow> string \<Rightarrow> question_state \<Rightarrow> question_state" where
  "toggle_value p v s =
     (let now = question_now p s in
      set_value p (now\<lparr>qv_selected := get_selected_values (qv_selected now) v (qp_mode p)\<rparr>) s)"

definition question_context_of :: "question_props \<Rightarrow> question_state \<Rightarrow> question_context" where
  "question_context_of p s =
     \<lparr>qc_disabled = qp_disabled p, qc_selected = qv_selected (question_now p s), qc_mode = qp_mode p,
      qc_text = qv_text (question_now p s)\<rparr>"

definition handle_submit :: "question_props \<Rightarrow> question_state \<Rightarrow> question_state" where
  "handle_submit p s =
     (let now = question_now p s; text = trim (qv_text now) in
      if qp_disabled p then s
      else if qv_selected now = [] \<and> text = [] then s
      else s\<lparr>qs_submitted := qs_submitted s @
             [\<lparr>qr_selected = qv_selected now, qr_text = (if text \<noteq> [] then Some text else None)\<rparr>]\<rparr>)"

datatype question_action = ToggleValue string | SetText string | SubmitQuestion

fun question_step :: "question_props \<Rightarrow> question_action \<Rightarrow> question_state \<Rightarrow> question_state" where
  "question_step p (ToggleValue v) s = toggle_value p v s"
| "question_step p (SetText t) s = set_text p t s"
| "question_step p SubmitQuestion s = handle_submit p s"

definition question_form :: "question_action view list \<Rightarrow> question_action view" where
  "question_form children = VEl ''form'' [] [(''onSubmit'', SubmitQuestion)] children"

definition question_prompt :: "string \<Rightarrow> 'a view" where
  "question_prompt s = labelled ''p'' s"

definition question_description :: "string \<Rightarrow> 'a view" where
  "question_description s = labelled ''p'' s"

definition question_options :: "question_context \<Rightarrow> 'a view list \<Rightarrow> 'a view" where
  "question_options q children =
     VEl ''div'' [attr_text ''role'' (if qc_mode q = Single then ''radiogroup'' else ''group'')] [] children"

definition question_option ::
  "question_context \<Rightarrow> bool \<Rightarrow> string option \<Rightarrow> string \<Rightarrow> string option \<Rightarrow> question_action view" where
  "question_option q disabled variant value children =
     (let is_selected = value \<in> set (qc_selected q) in
      VEl ''button''
        [attr_flag ''aria-checked'' is_selected,
         attr_flag ''disabled'' (qc_disabled q \<or> disabled),
         attr_text ''role'' (if qc_mode q = Single then ''radio'' else ''checkbox''),
         attr_text ''type'' ''button'',
         attr_text ''variant'' (case variant of Some v \<Rightarrow> v | None \<Rightarrow> if is_selected then ''default'' else ''outline'')]
        [(''onClick'', ToggleValue value)]
        [VText (case children of Some c \<Rightarrow> c | None \<Rightarrow> value)])"

definition question_input :: "question_context \<Rightarrow> bool \<Rightarrow> string \<Rightarrow> question_action view" where
  "question_input q disabled typed =
     VEl ''textarea'' [attr_flag ''disabled'' (qc_disabled q \<or> disabled), attr_text ''value'' (qc_text q)]
       [(''onChange'', SetText typed)] []"

definition question_actions :: "'a view list \<Rightarrow> 'a view" where
  "question_actions children = box ''div'' children"

definition question_submit :: "question_context \<Rightarrow> bool \<Rightarrow> question_action view" where
  "question_submit q disabled =
     (let has_response = qc_selected q \<noteq> [] \<or> trim (qc_text q) \<noteq> [] in
      VEl ''button'' [attr_flag ''disabled'' (qc_disabled q \<or> disabled \<or> \<not> has_response), attr_text ''type'' ''submit'']
        [(''onSubmit'', SubmitQuestion)] [VText ''Submit''])"

lemma set_value_now:
  "question_now p (set_value p v s) = (case qp_value p of Some u \<Rightarrow> u | None \<Rightarrow> v)"
  by (simp add: question_now_def set_value_def split: option.split)

text \<open>The submit button is live exactly when submitting tells \<open>onSubmit\<close> a response, and the
  response is never empty: it has a selected value or a text that is not blank.\<close>

theorem question_submit_live:
  "(SubmitQuestion \<in> set (offers (question_submit (question_context_of p s) False))) =
     (qs_submitted (handle_submit p s) \<noteq> qs_submitted s)
   \<and> (\<forall>r. qs_submitted (handle_submit p s) = qs_submitted s @ [r] \<longrightarrow>
        qr_selected r \<noteq> [] \<or> (\<exists>t. qr_text r = Some t \<and> t \<noteq> [] \<and> trim t = t))"
  by (auto simp: question_submit_def question_context_of_def handle_submit_def Let_def is_on_def jget_def
      attr_flag_def attr_text_def)

text \<open>In single mode an uncontrolled question never holds two values: whatever the user clicks and
  types, at most one value is selected. In multiple mode no value is selected twice.\<close>

theorem question_selection:
  assumes "qp_value p = None" and "distinct (qv_selected (qp_default p))"
    and "qp_mode p = Single \<longrightarrow> length (qv_selected (qp_default p)) \<le> 1"
  shows "let sel = qv_selected (question_now p (foldl (\<lambda>s a. question_step p a s) (question_init p) as))
    in distinct sel \<and> (qp_mode p = Single \<longrightarrow> length sel \<le> 1)"
proof -
  let ?ok = "\<lambda>s. distinct (qv_selected (qs_internal s)) \<and> (qp_mode p = Single \<longrightarrow> length (qv_selected (qs_internal s)) \<le> 1)"
  have step: "?ok (question_step p a s)" if "?ok s" for a s
    using that assms(1)
    by (cases a) (auto simp: toggle_value_def set_text_def handle_submit_def set_value_def question_now_def
        get_selected_values_def Let_def)
  have "?ok (foldl (\<lambda>s a. question_step p a s) (question_init p) as)"
    by (rule foldl_invariant) (use assms step in \<open>auto simp: question_init_def\<close>)
  then show ?thesis using assms(1) by (simp add: question_now_def Let_def)
qed

definition sample_question :: question_props where
  "sample_question = \<lparr>qp_default = empty_value, qp_disabled = False, qp_mode = Single, qp_value = None\<rparr>"

theorem question_selection_witness:
  "length (qv_selected (question_now sample_question
     (foldl (\<lambda>s a. question_step sample_question a s) (question_init sample_question) [ToggleValue ''a'', ToggleValue ''b'']))) \<le> 1"
  using question_selection [of sample_question "[ToggleValue ''a'', ToggleValue ''b'']"]
  by (simp add: sample_question_def empty_value_def Let_def)

section \<open>Confirmation\<close>

datatype tool_part_state =
    InputStreaming | InputReady | ApprovalRequested | ApprovalResponded
  | OutputReady | OutputFailed | OutputDenied

record part_approval =
  pa_id :: string
  pa_approved :: "bool option"
  pa_reason :: "string option"

record confirmation_context =
  cc_approval :: "part_approval option"
  cc_state :: tool_part_state

definition use_confirmation :: "confirmation_context option \<Rightarrow> js_error + confirmation_context" where
  "use_confirmation ctx = use_context ''Confirmation components must be used within Confirmation'' ctx"

definition confirmation :: "confirmation_context \<Rightarrow> 'a view list \<Rightarrow> 'a view" where
  "confirmation c children =
     (if cc_approval c = None \<or> cc_state c = InputStreaming \<or> cc_state c = InputReady then VNone
      else box ''alert'' children)"

definition confirmation_title :: "string \<Rightarrow> 'a view" where
  "confirmation_title s = labelled ''alert-description'' s"

definition confirmation_request :: "confirmation_context \<Rightarrow> 'a view \<Rightarrow> 'a view" where
  "confirmation_request c children = (if cc_state c \<noteq> ApprovalRequested then VNone else children)"

definition in_response :: "tool_part_state \<Rightarrow> bool" where
  "in_response st \<longleftrightarrow> st = ApprovalResponded \<or> st = OutputDenied \<or> st = OutputReady"

definition approved_value :: "confirmation_context \<Rightarrow> bool option" where
  "approved_value c = (case cc_approval c of None \<Rightarrow> None | Some a \<Rightarrow> pa_approved a)"

definition confirmation_accepted :: "confirmation_context \<Rightarrow> 'a view \<Rightarrow> 'a view" where
  "confirmation_accepted c children =
     (if approved_value c \<noteq> Some True \<or> \<not> in_response (cc_state c) then VNone else children)"

definition confirmation_rejected :: "confirmation_context \<Rightarrow> 'a view \<Rightarrow> 'a view" where
  "confirmation_rejected c children =
     (if approved_value c \<noteq> Some False \<or> \<not> in_response (cc_state c) then VNone else children)"

definition confirmation_actions :: "confirmation_context \<Rightarrow> 'a view list \<Rightarrow> 'a view" where
  "confirmation_actions c children =
     (if cc_state c \<noteq> ApprovalRequested then VNone else box ''div'' children)"

definition confirmation_action :: "bool \<Rightarrow> 'a \<Rightarrow> string \<Rightarrow> 'a view" where
  "confirmation_action disabled a s = button disabled a s"

text \<open>A confirmation shows at most one of its three faces, and the buttons only together with the
  request; once it was answered nothing can be clicked in it any more.\<close>

theorem confirmation_faces:
  "length (filter (\<lambda>v. v \<noteq> VNone) [confirmation_request c (VText r), confirmation_accepted c (VText a),
       confirmation_rejected c (VText d)]) \<le> 1
   \<and> (confirmation_actions c bs \<noteq> VNone) = (confirmation_request c (VText r) \<noteq> VNone)
   \<and> (cc_state c = ApprovalRequested \<or> offers (confirmation c [confirmation_actions c bs]) = [])"
  by (auto simp: confirmation_request_def confirmation_accepted_def confirmation_rejected_def
      confirmation_actions_def confirmation_def in_response_def box_def)

section \<open>Attachments\<close>

datatype attachment_data =
    FilePart (ad_id: string) (ad_media: "string option") (ad_filename: "string option") (ad_url: string)
  | SourceDocument (ad_id: string) (ad_media: "string option") (ad_title: "string option") (ad_filename: "string option")

datatype media_category = MImage | MVideo | MAudio | MDocument | MSource | MUnknown

datatype attachment_variant = Grid | Inline | AsList

fun media_category_icon :: "media_category \<Rightarrow> string" where
  "media_category_icon MAudio = ''Music2Icon''"
| "media_category_icon MDocument = ''FileTextIcon''"
| "media_category_icon MImage = ''ImageIcon''"
| "media_category_icon MSource = ''GlobeIcon''"
| "media_category_icon MUnknown = ''PaperclipIcon''"
| "media_category_icon MVideo = ''VideoIcon''"

fun get_media_category :: "attachment_data \<Rightarrow> media_category" where
  "get_media_category (SourceDocument _ _ _ _) = MSource"
| "get_media_category (FilePart _ media _ _) =
     (let t = or_text media [] in
      if starts_with ''image/'' t then MImage
      else if starts_with ''video/'' t then MVideo
      else if starts_with ''audio/'' t then MAudio
      else if starts_with ''application/'' t \<or> starts_with ''text/'' t then MDocument
      else MUnknown)"

fun get_attachment_label :: "attachment_data \<Rightarrow> string" where
  "get_attachment_label (SourceDocument _ _ title filename) = or_text title (or_text filename ''Source'')"
| "get_attachment_label (FilePart i m filename u) =
     or_text filename (if get_media_category (FilePart i m filename u) = MImage then ''Image'' else ''Attachment'')"

definition render_attachment_image :: "string \<Rightarrow> string option \<Rightarrow> bool \<Rightarrow> 'a view" where
  "render_attachment_image url filename is_grid =
     VEl ''img''
       (if is_grid
        then [attr_text ''alt'' (or_text filename ''Image''), (''height'', js_int 96), attr_text ''src'' url, (''width'', js_int 96)]
        else [attr_text ''alt'' (or_text filename ''Image''), (''height'', js_int 20), attr_text ''src'' url, (''width'', js_int 20)])
       [] []"

record attachment_context =
  ac_data :: attachment_data
  ac_category :: media_category
  ac_removable :: bool
  ac_variant :: attachment_variant

definition use_attachments_context :: "attachment_variant option \<Rightarrow> attachment_variant" where
  "use_attachments_context ctx = (case ctx of Some v \<Rightarrow> v | None \<Rightarrow> Grid)"

definition use_attachment_context :: "attachment_context option \<Rightarrow> js_error + attachment_context" where
  "use_attachment_context ctx = use_context ''Attachment components must be used within <Attachment>'' ctx"

definition attachments :: "'a view list \<Rightarrow> 'a view" where
  "attachments children = box ''div'' children"

definition attachment_context_of ::
  "attachment_data \<Rightarrow> bool \<Rightarrow> attachment_variant option \<Rightarrow> attachment_context" where
  "attachment_context_of data removable ctx =
     \<lparr>ac_data = data, ac_category = get_media_category data, ac_removable = removable,
      ac_variant = use_attachments_context ctx\<rparr>"

definition attachment :: "'a view list \<Rightarrow> 'a view" where
  "attachment children = box ''div'' children"

definition attachment_preview :: "attachment_context \<Rightarrow> 'a view option \<Rightarrow> 'a view" where
  "attachment_preview c fallback =
     box ''div'' [
       (case ac_data c of
          FilePart i m filename url \<Rightarrow>
            if ac_category c = MImage \<and> url \<noteq> [] then render_attachment_image url filename (ac_variant c = Grid)
            else if ac_category c = MVideo \<and> url \<noteq> []
            then VEl ''video'' [attr_flag ''muted'' True, attr_text ''src'' url] [] []
            else (case fallback of Some v \<Rightarrow> v | None \<Rightarrow> VEl (media_category_icon (ac_category c)) [] [] [])
        | SourceDocument i m t f \<Rightarrow>
            (case fallback of Some v \<Rightarrow> v | None \<Rightarrow> VEl (media_category_icon (ac_category c)) [] [] []))]"

definition attachment_info :: "attachment_context \<Rightarrow> bool \<Rightarrow> 'a view" where
  "attachment_info c show_media =
     (if ac_variant c = Grid then VNone
      else box ''div'' [labelled ''span'' (get_attachment_label (ac_data c)),
        show_if (show_media \<and> truthy_text (ad_media (ac_data c))) (labelled ''span'' (or_text (ad_media (ac_data c)) []))])"

definition attachment_remove :: "attachment_context \<Rightarrow> string \<Rightarrow> 'a \<Rightarrow> 'a view" where
  "attachment_remove c label remove =
     (if \<not> ac_removable c then VNone
      else VEl ''button'' [attr_text ''aria-label'' label, attr_text ''type'' ''button''] [(''onClick'', remove)]
             [VEl ''XIcon'' [] [] [], labelled ''span'' label])"

text \<open>An attachment never shows an empty name, whatever the host left out, and only a file with a
  URL is loaded as a picture or a film.\<close>

theorem attachment_rendering:
  "get_attachment_label d \<noteq> []
   \<and> (\<exists>t as. attachment_preview (attachment_context_of d rm v) None = box ''div'' [VEl t as [] []] \<and>
        (t \<in> {''img'', ''video''} \<longrightarrow> (\<exists>i m f u. d = FilePart i m f u \<and> u \<noteq> [] \<and> map_of as ''src'' = Some (JStr u))))
   \<and> (rm \<longleftrightarrow> offers (attachment_remove (attachment_context_of d rm v) l x) = [x])"
proof (intro conjI)
  show "get_attachment_label d \<noteq> []"
    by (cases d) (auto simp: or_text_def split: option.split)
  have icon: "media_category_icon k \<notin> {''img'', ''video''}" for k by (cases k) auto
  show "\<exists>t as. attachment_preview (attachment_context_of d rm v) None = box ''div'' [VEl t as [] []] \<and>
        (t \<in> {''img'', ''video''} \<longrightarrow> (\<exists>i m f u. d = FilePart i m f u \<and> u \<noteq> [] \<and> map_of as ''src'' = Some (JStr u)))"
    using icon
    by (cases d) (auto simp: attachment_preview_def attachment_context_of_def render_attachment_image_def attr_text_def
        attr_flag_def box_def)
  show "rm \<longleftrightarrow> offers (attachment_remove (attachment_context_of d rm v) l x) = [x]"
    by (auto simp: attachment_remove_def attachment_context_of_def attr_text_def is_on_def jget_def)
qed

section \<open>The header of a tool call\<close>

fun status_label :: "tool_part_state \<Rightarrow> string" where
  "status_label ApprovalRequested = ''Awaiting Approval''"
| "status_label ApprovalResponded = ''Responded''"
| "status_label InputReady = ''Running''"
| "status_label InputStreaming = ''Pending''"
| "status_label OutputReady = ''Completed''"
| "status_label OutputDenied = ''Denied''"
| "status_label OutputFailed = ''Error''"

fun status_icon :: "tool_part_state \<Rightarrow> string" where
  "status_icon ApprovalRequested = ''ClockIcon''"
| "status_icon ApprovalResponded = ''CheckCircleIcon''"
| "status_icon InputReady = ''ClockIcon''"
| "status_icon InputStreaming = ''CircleIcon''"
| "status_icon OutputReady = ''CheckCircleIcon''"
| "status_icon OutputDenied = ''XCircleIcon''"
| "status_icon OutputFailed = ''XCircleIcon''"

definition get_status_badge :: "tool_part_state \<Rightarrow> 'a view" where
  "get_status_badge st = box ''badge'' [VEl (status_icon st) [] [] [], VText (status_label st)]"

definition derived_name :: "string \<Rightarrow> string \<Rightarrow> string" where
  "derived_name ty tool_name =
     (if ty = ''dynamic-tool'' then tool_name else join_with ''-'' (tl (split_on (CHR ''-'') ty)))"

definition tool_header :: "string option \<Rightarrow> string \<Rightarrow> tool_part_state \<Rightarrow> string \<Rightarrow> 'a view" where
  "tool_header title ty st tool_name =
     box ''collapsible-trigger'' [
       box ''div'' [VEl ''WrenchIcon'' [] [] [],
         labelled ''span'' (case title of Some t \<Rightarrow> t | None \<Rightarrow> derived_name ty tool_name),
         get_status_badge st],
       VEl ''ChevronDownIcon'' [] [] []]"

definition tool_view :: "'a view list \<Rightarrow> 'a view" where
  "tool_view children = box ''collapsible'' children"

definition tool_content :: "'a view list \<Rightarrow> 'a view" where
  "tool_content children = box ''collapsible-content'' children"

text \<open>The name of a static tool is what follows the first dash of its type.\<close>

lemma derived_name_static:
  assumes "CHR ''-'' \<notin> set p" and "p @ ''-'' @ n \<noteq> ''dynamic-tool''"
  shows "derived_name (p @ ''-'' @ n) t = n"
  using assms split_on_append [of "CHR ''-''" p n] join_with_split_on [of "CHR ''-''" n]
  by (simp add: derived_name_def split_on_single)

end
