(* ===== verification/Effects.thy ===== *)
theory Effects
  imports JsPrelude
begin

text \<open>
  Asynchronous code that may throw: an operation takes the state of the world and returns a
  thrown error or a value, and the new state. \<open>await\<close> is the order of \<open>op_bind\<close>;
  \<open>try\<close>/\<open>catch\<close> and \<open>finally\<close> have their operators. \<open>op_keeps P\<close> says that an
  operation preserves a predicate of the state on every path, the throwing ones included; its
  rules follow the operators, so that an invariant of a handler is proved by them alone.
\<close>

type_synonym ('w, 'a) op = "'w \<Rightarrow> (js_error + 'a) \<times> 'w"

definition op_return :: "'a \<Rightarrow> ('w, 'a) op" where
  "op_return x = (\<lambda>w. (Inr x, w))"

definition op_throw :: "js_error \<Rightarrow> ('w, 'a) op" where
  "op_throw e = (\<lambda>w. (Inl e, w))"

definition op_bind :: "('w, 'a) op \<Rightarrow> ('a \<Rightarrow> ('w, 'b) op) \<Rightarrow> ('w, 'b) op" where
  "op_bind m f = (\<lambda>w. case m w of (Inl e, w') \<Rightarrow> (Inl e, w') | (Inr x, w') \<Rightarrow> f x w')"

definition op_seq :: "('w, 'a) op \<Rightarrow> ('w, 'b) op \<Rightarrow> ('w, 'b) op" where
  "op_seq m n = op_bind m (\<lambda>_. n)"

definition op_catch :: "('w, 'a) op \<Rightarrow> (js_error \<Rightarrow> ('w, 'a) op) \<Rightarrow> ('w, 'a) op" where
  "op_catch m h = (\<lambda>w. case m w of (Inl e, w') \<Rightarrow> h e w' | (Inr x, w') \<Rightarrow> (Inr x, w'))"

text \<open>A \<open>finally\<close> block that does not throw itself.\<close>

definition op_finally :: "('w, 'a) op \<Rightarrow> ('w \<Rightarrow> 'w) \<Rightarrow> ('w, 'a) op" where
  "op_finally m g = (\<lambda>w. case m w of (r, w') \<Rightarrow> (r, g w'))"

definition op_modify :: "('w \<Rightarrow> 'w) \<Rightarrow> ('w, unit) op" where
  "op_modify g = (\<lambda>w. (Inr (), g w))"

definition op_read :: "('w \<Rightarrow> 'a) \<Rightarrow> ('w, 'a) op" where
  "op_read g = (\<lambda>w. (Inr (g w), w))"

definition op_when :: "bool \<Rightarrow> ('w, unit) op \<Rightarrow> ('w, unit) op" where
  "op_when b m = (if b then m else op_return ())"

definition op_void :: "('w, 'a) op \<Rightarrow> ('w, unit) op" where
  "op_void m = op_bind m (\<lambda>_. op_return ())"

lemmas op_defs = op_return_def op_throw_def op_bind_def op_seq_def op_catch_def op_finally_def
  op_modify_def op_read_def op_when_def op_void_def

section \<open>Laws\<close>

lemma op_bind_return [simp]: "op_bind (op_return x) f = f x"
  and op_bind_throw [simp]: "op_bind (op_throw e) f = op_throw e"
  and op_catch_return [simp]: "op_catch (op_return x) h = op_return x"
  and op_catch_throw [simp]: "op_catch (op_throw e) h = h e"
  by (simp_all add: op_defs)

lemma op_bind_assoc: "op_bind (op_bind m f) g = op_bind m (\<lambda>x. op_bind (f x) g)"
  by (auto simp: op_bind_def fun_eq_iff split: prod.splits sum.splits)

lemma op_run_return [simp]: "op_return x w = (Inr x, w)"
  and op_run_throw [simp]: "op_throw e w = (Inl e, w)"
  and op_run_modify [simp]: "op_modify g w = (Inr (), g w)"
  and op_run_read [simp]: "op_read h w = (Inr (h w), w)"
  by (simp_all add: op_defs)

lemma op_run_bind: "op_bind m f w = (case m w of (Inl e, w') \<Rightarrow> (Inl e, w') | (Inr x, w') \<Rightarrow> f x w')"
  and op_run_catch: "op_catch m h w = (case m w of (Inl e, w') \<Rightarrow> h e w' | (Inr x, w') \<Rightarrow> (Inr x, w'))"
  and op_run_finally: "op_finally m g w = (case m w of (r, w') \<Rightarrow> (r, g w'))"
  by (simp_all add: op_defs)

lemma op_run_seq: "op_seq m n w = (case m w of (Inl e, w') \<Rightarrow> (Inl e, w') | (Inr x, w') \<Rightarrow> n w')"
  and op_run_void: "op_void m w = (case m w of (Inl e, w') \<Rightarrow> (Inl e, w') | (Inr x, w') \<Rightarrow> (Inr (), w'))"
  and op_run_when: "op_when b n' w = (if b then n' w else (Inr (), w))"
  by (simp_all add: op_defs)

lemmas op_run = op_run_bind op_run_catch op_run_finally op_run_seq op_run_void op_run_when

section \<open>Preservation\<close>

definition op_keeps :: "('w \<Rightarrow> bool) \<Rightarrow> ('w, 'a) op \<Rightarrow> bool" where
  "op_keeps P m \<longleftrightarrow> (\<forall>w. P w \<longrightarrow> P (snd (m w)))"

named_theorems keeps

lemma op_keepsD: "op_keeps P m \<Longrightarrow> P w \<Longrightarrow> P (snd (m w))"
  by (simp add: op_keeps_def)

lemma keeps_return [keeps]: "op_keeps P (op_return x)"
  and keeps_throw [keeps]: "op_keeps P (op_throw e)"
  and keeps_read [keeps]: "op_keeps P (op_read h)"
  by (simp_all add: op_keeps_def)

lemma keeps_bind [keeps]: "op_keeps P m \<Longrightarrow> (\<And>x. op_keeps P (f x)) \<Longrightarrow> op_keeps P (op_bind m f)"
  by (fastforce simp: op_keeps_def op_bind_def split: prod.splits sum.splits)

lemma keeps_seq [keeps]: "op_keeps P m \<Longrightarrow> op_keeps P n \<Longrightarrow> op_keeps P (op_seq m n)"
  by (simp add: op_seq_def keeps_bind)

lemma keeps_catch [keeps]: "op_keeps P m \<Longrightarrow> (\<And>e. op_keeps P (h e)) \<Longrightarrow> op_keeps P (op_catch m h)"
  by (fastforce simp: op_keeps_def op_catch_def split: prod.splits sum.splits)

text \<open>A handler may rely on the error it catches.\<close>

lemma keeps_catch_error:
  assumes "op_keeps P m" and "\<And>w e w'. P w' \<Longrightarrow> m w = (Inl e, w') \<Longrightarrow> P (snd (h e w'))"
  shows "op_keeps P (op_catch m h)"
  unfolding op_keeps_def op_run_catch
proof (intro allI impI)
  fix w assume "P w"
  obtain r w' where m: "m w = (r, w')" by (cases "m w")
  with op_keepsD [OF assms(1) \<open>P w\<close>] have "P w'" by simp
  with assms(2) m show "P (snd (case m w of (Inl e, w') \<Rightarrow> h e w' | (Inr x, w') \<Rightarrow> (Inr x, w')))"
    by (cases r) auto
qed

lemma keeps_finally [keeps]: "op_keeps P m \<Longrightarrow> (\<And>w. P w \<Longrightarrow> P (g w)) \<Longrightarrow> op_keeps P (op_finally m g)"
  by (fastforce simp: op_keeps_def op_finally_def split: prod.splits)

lemma keeps_when [keeps]: "op_keeps P m \<Longrightarrow> op_keeps P (op_when b m)"
  by (simp add: op_when_def keeps_return)

lemma keeps_void [keeps]: "op_keeps P m \<Longrightarrow> op_keeps P (op_void m)"
  by (simp add: op_void_def keeps_bind keeps_return)

lemma keeps_modify [keeps]: "(\<And>w. P w \<Longrightarrow> P (g w)) \<Longrightarrow> op_keeps P (op_modify g)"
  by (simp add: op_keeps_def)

lemma keeps_if [keeps]: "op_keeps P m \<Longrightarrow> op_keeps P n \<Longrightarrow> op_keeps P (if b then m else n)"
  by simp

lemma keeps_case_option [keeps]:
  "op_keeps P m \<Longrightarrow> (\<And>x. op_keeps P (f x)) \<Longrightarrow> op_keeps P (case v of None \<Rightarrow> m | Some x \<Rightarrow> f x)"
  by (cases v) simp_all

lemma keeps_case_sum [keeps]:
  "(\<And>x. op_keeps P (f x)) \<Longrightarrow> (\<And>y. op_keeps P (g y)) \<Longrightarrow> op_keeps P (case v of Inl x \<Rightarrow> f x | Inr y \<Rightarrow> g y)"
  by (cases v) simp_all

lemma keeps_case_prod [keeps]: "(\<And>x y. op_keeps P (f x y)) \<Longrightarrow> op_keeps P (case v of (x, y) \<Rightarrow> f x y)"
  by (cases v) simp

end
