(* ===== verification/ApiClient.thy ===== *)
theory ApiClient
  imports Effects
begin

text \<open>
  \<open>lib/api.ts\<close>, and the request command of \<open>lib/native.ts\<close>: every call of the workspace
  to its host. The state holds what the client sends and announces; the host, the native shell
  and the JSON and URI codecs are the fields of \<open>host_env\<close>, their answers depending on all
  that was sent before. One call runs at a time here: the promise \<open>refreshing\<close> shared by
  concurrent calls is not modelled.
\<close>

section \<open>The world of the client\<close>

record http_request =
  rq_path :: string
  rq_method :: string
  rq_headers :: "(string \<times> string) list"
  rq_body :: "string option"

datatype request_body = TextBody string | BinaryBody

record request_init =
  in_method :: "string option"
  in_headers :: "(string \<times> string) list"
  in_body :: "request_body option"

definition no_init :: request_init where
  "no_init = \<lparr>in_method = None, in_headers = [], in_body = None\<rparr>"

text \<open>\<open>rp_json\<close> is \<open>None\<close> when the body is not JSON.\<close>

record http_reply =
  rp_status :: int
  rp_status_text :: string
  rp_json :: "jsval option"

datatype fetch_outcome = FetchTimeout | FetchError string | FetchReply http_reply

datatype native_command =
    ResumeSso
  | WorkspaceRequest string string jsval
  | WorkspaceLogin string string bool
  | WorkspaceLogout
  | WorkspaceLockState
  | WorkspaceUnlock string string string string
  | WorkspaceUnlockOidc string

record host_env =
  he_native :: bool
  he_locks :: bool
  he_channel :: bool
  he_cookie :: "http_request list \<Rightarrow> string"
  he_fetch :: "http_request list \<Rightarrow> http_request \<Rightarrow> fetch_outcome"
  he_request :: "native_command list \<Rightarrow> native_command \<Rightarrow> string + int \<times> jsval"
  he_invoke :: "native_command list \<Rightarrow> native_command \<Rightarrow> string + jsval"
  he_parse :: "string \<Rightarrow> string + jsval"
  he_stringify :: "jsval \<Rightarrow> string"
  he_decode_uri :: "string \<Rightarrow> string"
  he_encode_uri :: "string \<Rightarrow> string"

record api_world =
  aw_sent :: "http_request list"
  aw_invoked :: "native_command list"
  aw_events :: "string list"
  aw_posted :: "string list"

type_synonym 'a api = "(api_world, 'a) op"

definition send_request :: "host_env \<Rightarrow> http_request \<Rightarrow> fetch_outcome api" where
  "send_request env rq = (\<lambda>w. (Inr (he_fetch env (aw_sent w) rq), w\<lparr>aw_sent := aw_sent w @ [rq]\<rparr>))"

definition lift_native :: "string + 'a \<Rightarrow> 'a api" where
  "lift_native r = (case r of Inl m \<Rightarrow> op_throw (JsError m) | Inr x \<Rightarrow> op_return x)"

definition invoke_command :: "host_env \<Rightarrow> native_command \<Rightarrow> jsval api" where
  "invoke_command env c = (\<lambda>w. lift_native (he_invoke env (aw_invoked w) c) (w\<lparr>aw_invoked := aw_invoked w @ [c]\<rparr>))"

definition invoke_request :: "host_env \<Rightarrow> native_command \<Rightarrow> (int \<times> jsval) api" where
  "invoke_request env c = (\<lambda>w. lift_native (he_request env (aw_invoked w) c) (w\<lparr>aw_invoked := aw_invoked w @ [c]\<rparr>))"

section \<open>Announcements\<close>

definition dispatch_event :: "string \<Rightarrow> unit api" where
  "dispatch_event e = op_modify (\<lambda>w. w\<lparr>aw_events := aw_events w @ [e]\<rparr>)"

definition post_message :: "host_env \<Rightarrow> string \<Rightarrow> unit api" where
  "post_message env m = op_when (he_channel env) (op_modify (\<lambda>w. w\<lparr>aw_posted := aw_posted w @ [m]\<rparr>))"

text \<open>A message of another window of the same browser.\<close>

definition on_channel_message :: "string \<Rightarrow> unit api" where
  "on_channel_message m =
     op_when (m \<in> {''signed-out'', ''session-locked'', ''session-unlocked''}) (dispatch_event (''termx-'' @ m))"

definition announce_locked :: "host_env \<Rightarrow> unit api" where
  "announce_locked env = op_seq (post_message env ''session-locked'') (dispatch_event ''termx-session-locked'')"

definition announce_signed_out :: "host_env \<Rightarrow> unit api" where
  "announce_signed_out env = op_seq (post_message env ''signed-out'') (dispatch_event ''termx-signed-out'')"

section \<open>One request\<close>

text \<open>\<open>document.cookie.split('; ')\<close>: the separator is two characters long.\<close>

fun split_cookies :: "string \<Rightarrow> string list" where
  "split_cookies [] = [[]]"
| "split_cookies (c # cs) =
     (if starts_with ''; '' (c # cs) then [] # split_cookies (tl cs)
      else case split_cookies cs of [] \<Rightarrow> [[c]] | w # ws \<Rightarrow> (c # w) # ws)"

definition csrf_prefix :: string where
  "csrf_prefix = ''termx_csrf=''"

definition csrf :: "host_env \<Rightarrow> string api" where
  "csrf env = op_read (\<lambda>w.
     case find (starts_with csrf_prefix) (split_cookies (he_cookie env (aw_sent w))) of
       None \<Rightarrow> []
     | Some v \<Rightarrow> he_decode_uri env (drop (length csrf_prefix) v))"

definition same_origin :: "string \<Rightarrow> bool" where
  "same_origin path \<longleftrightarrow> starts_with ''/'' path \<and> \<not> starts_with ''//'' path \<and> CHR 0x5C \<notin> set path"

definition has_header :: "string \<Rightarrow> (string \<times> string) list \<Rightarrow> bool" where
  "has_header k hs \<longleftrightarrow> k \<in> fst ` set hs"

text \<open>\<open>Headers\<close> folds the case of its names.\<close>

definition headers_of :: "(string \<times> string) list \<Rightarrow> (string \<times> string) list" where
  "headers_of hs = map (\<lambda>(k, v). (lower_text k, v)) hs"

definition upper_text :: "string \<Rightarrow> string" where
  "upper_text s = map upper_char s"

definition method_of :: "request_init \<Rightarrow> string" where
  "method_of init = or_text (in_method init) ''GET''"

definition is_write :: "request_init \<Rightarrow> bool" where
  "is_write init \<longleftrightarrow> upper_text (method_of init) \<notin> {''GET'', ''HEAD''}"

fun body_truthy :: "request_body option \<Rightarrow> bool" where
  "body_truthy None = False"
| "body_truthy (Some (TextBody t)) = (t \<noteq> [])"
| "body_truthy (Some BinaryBody) = True"

fun body_text :: "request_body option \<Rightarrow> string option" where
  "body_text (Some (TextBody t)) = Some t"
| "body_text _ = None"

definition request_headers :: "request_init \<Rightarrow> string \<Rightarrow> (string \<times> string) list" where
  "request_headers init token =
     (let hs = headers_of (in_headers init);
          typed = (if body_truthy (in_body init) \<and> \<not> has_header ''content-type'' hs
                   then hs @ [(''content-type'', ''application/json'')] else hs)
      in if is_write init then AList.update ''x-termx-csrf'' token typed else typed)"

definition timeout_error :: "request_init \<Rightarrow> js_error" where
  "timeout_error init = api_error 504
     (if truthy_text (in_method init) \<and> in_method init \<noteq> Some ''GET''
      then ''The host request timed out. The operation may have completed; refresh its status before retrying.''
      else ''The host request timed out. Check the connection and retry.'')"

definition reply_ok :: "http_reply \<Rightarrow> bool" where
  "reply_ok r \<longleftrightarrow> 200 \<le> rp_status r \<and> rp_status r < 300"

definition reply_payload :: "http_reply \<Rightarrow> jsval api" where
  "reply_payload r =
     (if rp_status r = 204 then op_return JUndef
      else case rp_json r of
        Some p \<Rightarrow> op_return p
      | None \<Rightarrow>
          if reply_ok r
          then op_throw (JsError ''The host returned an invalid response. Refresh and try again.'')
          else op_return (JObj [(''detail'', JStr (rp_status_text r))]))"

definition web_fetch :: "host_env \<Rightarrow> string \<Rightarrow> request_init \<Rightarrow> (http_reply \<times> jsval) api" where
  "web_fetch env path init =
     op_bind (csrf env) (\<lambda>token.
     op_bind (send_request env \<lparr>rq_path = path, rq_method = method_of init,
                rq_headers = request_headers init token, rq_body = body_text (in_body init)\<rparr>) (\<lambda>outcome.
     case outcome of
       FetchTimeout \<Rightarrow> op_throw (timeout_error init)
     | FetchError m \<Rightarrow> op_throw (JsError m)
     | FetchReply r \<Rightarrow> op_bind (reply_payload r) (\<lambda>p. op_return (r, p))))"

text \<open>\<open>value.k\<close> of a value that is not nullish.\<close>

fun field :: "jsval \<Rightarrow> string \<Rightarrow> jsval" where
  "field (JObj o') k = jget o' k"
| "field _ k = JUndef"

definition web_finish :: "host_env \<Rightarrow> http_reply \<Rightarrow> jsval \<Rightarrow> jsval api" where
  "web_finish env r payload =
     op_seq (op_when (rp_status r = 423) (announce_locked env))
       (if \<not> reply_ok r
        then (let body = js_or payload (JObj []);
                  told = js_or (field body ''detail'') (field body ''error'')
              in op_throw (api_error (rp_status r)
                   (if is_str told then text_of told else he_stringify env (js_or told body))))
        else op_return (if rp_status r = 204 then JUndef else payload))"

section \<open>The native shell\<close>

definition native_request :: "host_env \<Rightarrow> string \<Rightarrow> request_init \<Rightarrow> (int \<times> jsval) api" where
  "native_request env path init =
     op_seq (if path = ''/auth/me'' then op_void (invoke_command env ResumeSso) else op_return ())
       (if body_truthy (in_body init) \<and> body_text (in_body init) = None
        then op_throw (JsError ''Use authenticated binary transfer for this request'')
        else op_bind (if body_truthy (in_body init)
                      then lift_native (he_parse env (the (body_text (in_body init))))
                      else op_return JNull) (\<lambda>data.
             invoke_request env (WorkspaceRequest path (upper_text (method_of init)) data)))"

definition native_signed_out_messages :: "string list" where
  "native_signed_out_messages =
     [''Sign in required'', ''Session expired or revoked; sign in again'',
      ''SSO session expired or revoked; sign in again'']"

definition native_branch :: "host_env \<Rightarrow> string \<Rightarrow> request_init \<Rightarrow> jsval api" where
  "native_branch env path init =
     op_catch
       (op_bind (native_request env path init) (\<lambda>(status, body).
        op_seq (op_when (status = 423) (announce_locked env))
          (if status < 200 \<or> status \<ge> 300
           then op_throw (api_error status
                  (if is_str (field body ''detail'') then text_of (field body ''detail'') else he_stringify env body))
           else op_return body)))
       (\<lambda>e. if is_api_error e then op_throw e
            else if error_message e = ''Session locked; unlock required''
            then op_seq (announce_locked env) (op_throw (api_error 423 (error_message e)))
            else if error_message e \<in> set native_signed_out_messages
            then op_seq (announce_signed_out env) (op_throw (api_error 401 (error_message e)))
            else op_throw (JsError (error_message e)))"

section \<open>Requests, and the session refresh\<close>

definition origin_error :: js_error where
  "origin_error = JsError ''API requests must stay on this workspace origin''"

definition goes_native :: "host_env \<Rightarrow> string \<Rightarrow> bool" where
  "goes_native env path \<longleftrightarrow> he_native env \<and> \<not> starts_with ''/auth/oidc/'' path"

text \<open>\<open>request(path, init, false)\<close>.\<close>

definition request_once :: "host_env \<Rightarrow> string \<Rightarrow> request_init \<Rightarrow> jsval api" where
  "request_once env path init =
     (if \<not> same_origin path then op_throw origin_error
      else if goes_native env path then native_branch env path init
      else op_bind (web_fetch env path init) (\<lambda>(r, p). web_finish env r p))"

definition json_init :: "string \<Rightarrow> string option \<Rightarrow> request_init" where
  "json_init meth text = \<lparr>in_method = Some meth, in_headers = [], in_body = map_option TextBody text\<rparr>"

definition expired_error :: js_error where
  "expired_error = api_error 401 ''Session expired or revoked. Sign in again.''"

definition refresh_session :: "host_env \<Rightarrow> unit api" where
  "refresh_session env =
     (if he_native env then op_void (request_once env ''/auth/me'' no_init)
      else if \<not> he_locks env
      then op_throw (api_error 503 (''This browser cannot safely coordinate session refresh across windows. '' @
             ''Open the workspace in a browser with secure Web Locks support.''))
      else
        op_bind (op_catch (op_seq (request_once env ''/auth/me'' no_init) (op_return True))
                   (\<lambda>e. if has_status 401 e then op_return False else op_throw e)) (\<lambda>current.
        if current then op_return ()
        else op_bind (csrf env) (\<lambda>token.
          if token = [] then op_throw expired_error
          else op_catch (op_void (request_once env ''/auth/refresh'' (json_init ''POST'' (Some ''{}''))))
                 (\<lambda>e. if has_status 401 e then op_seq (announce_signed_out env) (op_throw expired_error)
                      else op_throw e))))"

definition may_refresh :: "string \<Rightarrow> bool" where
  "may_refresh path \<longleftrightarrow> \<not> starts_with ''/auth/'' path \<or> path = ''/auth/me''"

text \<open>\<open>request(path, init)\<close>.\<close>

definition request :: "host_env \<Rightarrow> string \<Rightarrow> request_init \<Rightarrow> jsval api" where
  "request env path init =
     (if \<not> same_origin path then op_throw origin_error
      else if goes_native env path then native_branch env path init
      else op_bind (web_fetch env path init) (\<lambda>(r, p).
             if rp_status r = 401 \<and> may_refresh path
             then op_seq (refresh_session env) (request_once env path init)
             else web_finish env r p))"

section \<open>GraphQL\<close>

text \<open>A GraphQL error as the host sends it: \<open>extensions\<close> with its status and its code.\<close>

definition failure_message :: "jsval \<Rightarrow> string" where
  "failure_message e = text_of (field e ''message'')"

definition status_codes :: "(string \<times> int) list" where
  "status_codes = [(''UNAUTHENTICATED'', 401), (''FORBIDDEN'', 403), (''LOCKED'', 423),
     (''NOT_FOUND'', 404), (''CONFLICT'', 409)]"

definition graphql_status :: "jsval \<Rightarrow> jsval" where
  "graphql_status e =
     (let ext = field e ''extensions''; code = text_of (field ext ''code'')
      in js_or (field ext ''http_status'')
           (case map_of status_codes code of
              Some n \<Rightarrow> js_int n
            | None \<Rightarrow> if code \<in> set object_prototype then JProto code else JUndef))"

fun failures :: "jsval \<Rightarrow> jsval list" where
  "failures (JObj o') = (case jget o' ''errors'' of JArr es \<Rightarrow> es | _ \<Rightarrow> [])"
| "failures _ = []"

text \<open>\<open>/^(?:\s|#[^\r\n]*(?:\r?\n|$))*(?:query\b|\{)/\<close>: a comment ends at a line feed, a
  carriage return and a line feed, or the end.\<close>

definition not_eol :: "char \<Rightarrow> bool" where
  "not_eol c \<longleftrightarrow> c \<noteq> CHR 0x0A \<and> c \<noteq> CHR 0x0D"

definition after_comment :: "string \<Rightarrow> string option" where
  "after_comment s =
     (case dropWhile not_eol s of
        [] \<Rightarrow> Some []
      | c # t \<Rightarrow>
          if c = CHR 0x0A then Some t
          else (case t of d # u \<Rightarrow> if d = CHR 0x0A then Some u else None | [] \<Rightarrow> None))"

lemma after_comment_shorter: "after_comment s = Some t \<Longrightarrow> length t \<le> length s"
proof -
  assume a: "after_comment s = Some t"
  have "length (dropWhile not_eol s) \<le> length s" by (rule length_dropWhile_le)
  with a show ?thesis
    by (auto simp: after_comment_def split: list.splits if_splits)
qed

function query_start :: "string \<Rightarrow> string option" where
  "query_start [] = Some []"
| "query_start (c # s) =
     (if is_space c then query_start s
      else if c = CHR ''#'' then (case after_comment s of None \<Rightarrow> None | Some t \<Rightarrow> query_start t)
      else Some (c # s))"
  by pat_completeness auto
termination by (relation "measure length") (auto dest: after_comment_shorter simp: less_Suc_eq_le)

definition read_only :: "string \<Rightarrow> bool" where
  "read_only query =
     (case query_start query of
        None \<Rightarrow> False
      | Some s \<Rightarrow> starts_with ''{'' s
          \<or> starts_with ''query'' s \<and> (case drop 5 s of [] \<Rightarrow> True | c # _ \<Rightarrow> \<not> is_word_char c))"

definition gql_init :: "host_env \<Rightarrow> string \<Rightarrow> jsobj \<Rightarrow> request_init" where
  "gql_init env query variables =
     json_init ''POST'' (Some (he_stringify env (JObj [(''query'', JStr query), (''variables'', JObj variables)])))"

text \<open>What follows the last answer. A body that is not an object answers to no property; one that
  is \<open>undefined\<close> or \<open>null\<close> throws a \<open>TypeError\<close>.\<close>

definition gql_finish :: "host_env \<Rightarrow> jsval \<Rightarrow> jsval api" where
  "gql_finish env body =
     (let fs = failures body; statuses = map graphql_status fs in
      if fs \<noteq> []
      then (let locked = List.find (\<lambda>s. s = js_int 423) statuses;
                status = (case locked of Some s \<Rightarrow> Some s | None \<Rightarrow> List.find truthy statuses);
                message = join_with [CHR 0x0A] (map failure_message fs)
            in op_seq (op_when (status = Some (js_int 423)) (announce_locked env))
                 (case status of Some s \<Rightarrow> op_throw (ApiError s message) | None \<Rightarrow> op_throw (JsError message)))
      else if nullish (field body ''data'')
      then op_throw (JsError ''The host returned no GraphQL data. Refresh and try again.'')
      else op_return (field body ''data''))"

definition type_error :: js_error where
  "type_error = JsError ''Cannot read properties of undefined''"

definition gql :: "host_env \<Rightarrow> string \<Rightarrow> jsobj \<Rightarrow> jsval api" where
  "gql env query variables =
     (let run = request env ''/graphql'' (gql_init env query variables) in
      op_bind run (\<lambda>body.
      if nullish body then op_throw type_error
      else if read_only query \<and> (\<exists>e \<in> set (failures body). graphql_status e = js_int 401)
      then op_seq (refresh_session env) (op_bind run (\<lambda>again.
             if nullish again then op_throw type_error else gql_finish env again))
      else gql_finish env body))"

section \<open>Signing in and out, locking\<close>

definition native_login :: "host_env \<Rightarrow> string \<Rightarrow> string \<Rightarrow> bool \<Rightarrow> jsval api" where
  "native_login env username password setup = invoke_command env (WorkspaceLogin username password setup)"

definition native_sign_out :: "host_env \<Rightarrow> unit api" where
  "native_sign_out env = op_void (invoke_command env WorkspaceLogout)"

definition sign_out :: "host_env \<Rightarrow> unit api" where
  "sign_out env =
     op_seq (if he_native env then native_sign_out env
             else op_void (request_once env ''/auth/logout'' (json_init ''POST'' (Some (he_stringify env (JObj []))))))
       (announce_signed_out env)"

definition login_body :: "string \<Rightarrow> string \<Rightarrow> jsval" where
  "login_body username password =
     JObj [(''method'', JStr ''local-password''), (''username'', JStr username), (''password'', JStr password),
           (''transport'', JStr ''cookie''), (''device_name'', JStr ''Desktop workspace'')]"

definition login :: "host_env \<Rightarrow> string \<Rightarrow> string \<Rightarrow> bool \<Rightarrow> string \<Rightarrow> jsval api" where
  "login env username password setup bootstrap =
     (if he_native env then native_login env username password setup
      else op_seq (request_once env (if setup then ''/auth/setup'' else ''/auth/login'')
               ((json_init ''POST'' (Some (he_stringify env (login_body username password))))
                  \<lparr>in_headers := (if bootstrap \<noteq> [] then [(''X-Termx-Passcode'', bootstrap)] else [])\<rparr>))
             (request env ''/auth/me'' no_init))"

record unlock_evidence =
  ue_method :: string
  ue_username :: "string option"
  ue_password :: "string option"
  ue_assertion :: "string option"

definition evidence_body :: "unlock_evidence \<Rightarrow> jsval" where
  "evidence_body ev =
     JObj ((''method'', JStr (ue_method ev)) #
       List.map_filter (\<lambda>(k, v). map_option (\<lambda>t. (k, JStr t)) v)
         [(''username'', ue_username ev), (''password'', ue_password ev), (''assertion'', ue_assertion ev)])"

definition native_unlock :: "host_env \<Rightarrow> unlock_evidence \<Rightarrow> jsval api" where
  "native_unlock env ev = invoke_command env
     (WorkspaceUnlock (ue_method ev) (or_text (ue_username ev) []) (or_text (ue_password ev) []) (or_text (ue_assertion ev) []))"

definition lock_state :: "host_env \<Rightarrow> jsval api" where
  "lock_state env =
     (if he_native env then invoke_command env WorkspaceLockState
      else request_once env ''/auth/lock-state'' no_init)"

definition lock_workspace :: "host_env \<Rightarrow> unit api" where
  "lock_workspace env =
     op_seq (op_catch (op_void (request_once env ''/auth/lock'' (json_init ''POST'' (Some (he_stringify env (JObj []))))))
               (\<lambda>e. op_seq (op_when (has_status 503 e \<and> starts_with ''Session locked;'' (error_message e))
                              (announce_locked env)) (op_throw e)))
       (announce_locked env)"

definition unlock_workspace :: "host_env \<Rightarrow> unlock_evidence \<Rightarrow> jsval api" where
  "unlock_workspace env ev =
     op_seq (op_void (if he_native env then native_unlock env ev
                      else request_once env ''/auth/unlock'' (json_init ''POST'' (Some (he_stringify env (evidence_body ev))))))
    (op_seq (post_message env ''session-unlocked'')
    (op_seq (dispatch_event ''termx-session-unlocked'')
       (request_once env ''/auth/me'' no_init)))"

definition begin_unlock_oidc :: "host_env \<Rightarrow> string \<Rightarrow> jsval api" where
  "begin_unlock_oidc env meth =
     (if he_native env then invoke_command env (WorkspaceUnlockOidc meth)
      else request_once env (''/auth/oidc/'' @ he_encode_uri env meth @ ''/unlock-begin'')
             (json_init ''POST'' (Some (he_stringify env (JObj [])))))"

section \<open>What leaves the client\<close>

text \<open>The CSRF token of the cookie after the requests \<open>sent\<close>.\<close>

definition token_after :: "host_env \<Rightarrow> http_request list \<Rightarrow> string" where
  "token_after env sent =
     (case find (starts_with csrf_prefix) (split_cookies (he_cookie env sent)) of
        None \<Rightarrow> []
      | Some v \<Rightarrow> he_decode_uri env (drop (length csrf_prefix) v))"

definition well_sent :: "host_env \<Rightarrow> api_world \<Rightarrow> bool" where
  "well_sent env w \<longleftrightarrow> (\<forall>i < length (aw_sent w). let rq = aw_sent w ! i in
     same_origin (rq_path rq) \<and>
     (upper_text (rq_method rq) \<notin> {''GET'', ''HEAD''} \<longrightarrow>
        map_of (rq_headers rq) ''x-termx-csrf'' = Some (token_after env (take i (aw_sent w)))))"

lemma well_sent_snoc:
  "well_sent env (w\<lparr>aw_sent := aw_sent w @ [rq]\<rparr>) \<longleftrightarrow> well_sent env w \<and> same_origin (rq_path rq) \<and>
     (upper_text (rq_method rq) \<notin> {''GET'', ''HEAD''} \<longrightarrow>
        map_of (rq_headers rq) ''x-termx-csrf'' = Some (token_after env (aw_sent w)))"
  unfolding well_sent_def Let_def
  by (auto simp: nth_append less_Suc_eq)

lemma csrf_run [simp]: "csrf env w = (Inr (token_after env (aw_sent w)), w)"
  by (simp add: csrf_def token_after_def)

lemma web_fetch_run:
  "web_fetch env path init w =
     (let rq = \<lparr>rq_path = path, rq_method = method_of init,
                rq_headers = request_headers init (token_after env (aw_sent w)), rq_body = body_text (in_body init)\<rparr>;
          w' = w\<lparr>aw_sent := aw_sent w @ [rq]\<rparr>
      in case he_fetch env (aw_sent w) rq of
           FetchTimeout \<Rightarrow> (Inl (timeout_error init), w')
         | FetchError m \<Rightarrow> (Inl (JsError m), w')
         | FetchReply r \<Rightarrow> (case reply_payload r w' of (Inl e, v) \<Rightarrow> (Inl e, v) | (Inr p, v) \<Rightarrow> (Inr (r, p), v)))"
  by (simp add: web_fetch_def op_run_bind send_request_def Let_def split: fetch_outcome.split prod.split sum.split)

lemma reply_payload_state [simp]: "snd (reply_payload r w) = w"
  by (simp add: reply_payload_def split: option.split)

lemma reply_payload_pair: "reply_payload r w = (x, v) \<Longrightarrow> v = w"
  by (metis reply_payload_state snd_conv)

lemma csrf_header: "is_write init \<Longrightarrow> map_of (request_headers init t) ''x-termx-csrf'' = Some t"
  by (simp add: request_headers_def Let_def)

lemma keeps_web_fetch: "same_origin path \<Longrightarrow> op_keeps (well_sent env) (web_fetch env path init)"
proof -
  assume o: "same_origin path"
  show ?thesis
    unfolding op_keeps_def web_fetch_run Let_def
    using o csrf_header [of init]
    by (auto split: fetch_outcome.split prod.split sum.split simp: well_sent_snoc is_write_def
        dest!: reply_payload_pair)
qed

text \<open>Nothing else the client does touches the requests it has sent.\<close>

lemma keeps_other [keeps]:
  "op_keeps (well_sent env) (dispatch_event e)" "op_keeps (well_sent env) (post_message env' m)"
  "op_keeps (well_sent env) (announce_locked env')" "op_keeps (well_sent env) (announce_signed_out env')"
  "op_keeps (well_sent env) (csrf env')" "op_keeps (well_sent env) (lift_native x)"
  by (auto simp: dispatch_event_def post_message_def announce_locked_def announce_signed_out_def
      well_sent_def csrf_def lift_native_def intro!: keeps split: sum.split)

lemma keeps_invoke [keeps]:
  "op_keeps (well_sent env) (invoke_command env' c)" "op_keeps (well_sent env) (invoke_request env' c)"
  by (auto simp: op_keeps_def invoke_command_def invoke_request_def lift_native_def well_sent_def split: sum.split)

lemma keeps_native_branch [keeps]: "op_keeps (well_sent env) (native_branch env' path init)"
  unfolding native_branch_def native_request_def by (intro keeps)

lemma keeps_web_finish [keeps]: "op_keeps (well_sent env) (web_finish env' r p)"
  unfolding web_finish_def Let_def by (intro keeps)

lemma keeps_request_once [keeps]: "op_keeps (well_sent env) (request_once env path init)"
  by (cases "same_origin path") (simp_all add: request_once_def keeps keeps_web_fetch)

lemma keeps_refresh [keeps]: "op_keeps (well_sent env) (refresh_session env)"
  unfolding refresh_session_def by (intro keeps)

lemma keeps_request [keeps]: "op_keeps (well_sent env) (request env path init)"
  by (cases "same_origin path") (simp_all add: request_def keeps keeps_web_fetch)

lemma keeps_gql [keeps]: "op_keeps (well_sent env) (gql env query variables)"
  unfolding gql_def gql_finish_def Let_def by (intro keeps)

text \<open>Whatever the client is asked to call, through plain requests or GraphQL, and however
  often it refreshes and retries: every request it has sent stays on the origin of the workspace,
  and every write among them carries the CSRF token the cookie held at that moment.\<close>

theorem requests_well_sent:
  assumes "well_sent env w"
  shows "well_sent env (snd (request env path init w)) \<and> well_sent env (snd (gql env query variables w))
    \<and> well_sent env (snd (refresh_session env w))"
  using assms keeps_request keeps_gql keeps_refresh by (meson op_keepsD)

definition sample_env :: "int \<Rightarrow> host_env" where
  "sample_env status = \<lparr>he_native = False, he_locks = True, he_channel = True,
     he_cookie = (\<lambda>_. ''theme=dark; termx_csrf=tok''),
     he_fetch = (\<lambda>sent rq. FetchReply \<lparr>rp_status = status, rp_status_text = ''text'',
        rp_json = Some (JObj [(''data'', JObj [])])\<rparr>),
     he_request = (\<lambda>_ _. Inl ''none''), he_invoke = (\<lambda>_ _. Inl ''none''), he_parse = (\<lambda>_. Inl ''none''),
     he_stringify = (\<lambda>_. ''{}''), he_decode_uri = (\<lambda>s. s), he_encode_uri = (\<lambda>s. s)\<rparr>"

definition idle_client :: api_world where
  "idle_client = \<lparr>aw_sent = [], aw_invoked = [], aw_events = [], aw_posted = []\<rparr>"

theorem requests_well_sent_witness:
  "well_sent (sample_env 401) (snd (request (sample_env 401) ''/api/x'' (json_init ''POST'' None) idle_client))"
proof -
  have "well_sent (sample_env 401) idle_client" by (simp add: well_sent_def idle_client_def)
  from requests_well_sent [OF this] show ?thesis by blast
qed

section \<open>How often a call is sent\<close>

definition sends :: "nat \<Rightarrow> 'a api \<Rightarrow> bool" where
  "sends n m \<longleftrightarrow> (\<forall>w. length (aw_sent (snd (m w))) \<le> length (aw_sent w) + n)"

lemma sendsD: "sends n m \<Longrightarrow> length (aw_sent (snd (m w))) \<le> length (aw_sent w) + n"
  by (simp add: sends_def)

lemma sends_mono: "sends m p \<Longrightarrow> m \<le> n \<Longrightarrow> sends n p"
  by (fastforce simp: sends_def intro: order_trans)

lemma sends_return: "sends 0 (op_return x)"
  and sends_throw: "sends 0 (op_throw e)"
  and sends_csrf: "sends 0 (csrf env)"
  by (simp_all add: sends_def)

lemma sends_bind:
  assumes p: "sends m p" and f: "\<And>x. sends n (f x)"
  shows "sends (m + n) (op_bind p f)"
  unfolding sends_def
proof
  fix w
  obtain r v where pw: "p w = (r, v)" by (cases "p w")
  have "length (aw_sent v) \<le> length (aw_sent w) + m" using sendsD [OF p, of w] pw by simp
  moreover have "length (aw_sent (snd (f x v))) \<le> length (aw_sent v) + n" for x using sendsD [OF f] .
  ultimately show "length (aw_sent (snd (op_bind p f w))) \<le> length (aw_sent w) + (m + n)"
    by (cases r) (auto simp: op_run_bind pw intro: order_trans add_le_mono1 simp flip: add.assoc)
qed

lemma sends_seq: "sends m p \<Longrightarrow> sends n q \<Longrightarrow> sends (m + n) (op_seq p q)"
  by (simp add: op_seq_def sends_bind)

lemma sends_void: "sends m p \<Longrightarrow> sends m (op_void p)"
  using sends_bind [OF _ sends_return, of m p] by (simp add: op_void_def)

lemma sends_catch:
  assumes p: "sends m p" and h: "\<And>e. sends n (h e)"
  shows "sends (m + n) (op_catch p h)"
  unfolding sends_def
proof
  fix w
  obtain r v where pw: "p w = (r, v)" by (cases "p w")
  have "length (aw_sent v) \<le> length (aw_sent w) + m" using sendsD [OF p, of w] pw by simp
  moreover have "length (aw_sent (snd (h e v))) \<le> length (aw_sent v) + n" for e using sendsD [OF h] .
  ultimately show "length (aw_sent (snd (op_catch p h w))) \<le> length (aw_sent w) + (m + n)"
    by (cases r) (auto simp: op_run_catch pw intro: order_trans add_le_mono1 simp flip: add.assoc)
qed

lemma sends_catch0: "sends m p \<Longrightarrow> (\<And>e. sends 0 (h e)) \<Longrightarrow> sends m (op_catch p h)"
  using sends_catch [of m p 0 h] by simp

lemma sends_announce:
  "sends 0 (announce_locked env)" "sends 0 (announce_signed_out env)"
  "sends 0 (op_when b (announce_locked env))"
  by (simp_all add: sends_def announce_locked_def announce_signed_out_def post_message_def dispatch_event_def
      op_run split: prod.split sum.split)

lemma web_finish_sent [simp]: "aw_sent (snd (web_finish env r p w)) = aw_sent w"
  by (simp add: web_finish_def op_run Let_def announce_locked_def post_message_def dispatch_event_def)

lemma gql_finish_sent [simp]: "aw_sent (snd (gql_finish env body w)) = aw_sent w"
  by (simp add: gql_finish_def op_run Let_def announce_locked_def post_message_def dispatch_event_def
      split: option.split)

lemma keeps_sent [keeps]:
  "op_keeps (\<lambda>w. aw_sent w = xs) (announce_locked env)" "op_keeps (\<lambda>w. aw_sent w = xs) (announce_signed_out env)"
  "op_keeps (\<lambda>w. aw_sent w = xs) (lift_native x)" "op_keeps (\<lambda>w. aw_sent w = xs) (invoke_command env c)"
  "op_keeps (\<lambda>w. aw_sent w = xs) (invoke_request env c)"
  by (auto simp: op_keeps_def dispatch_event_def post_message_def announce_locked_def announce_signed_out_def
      lift_native_def invoke_command_def invoke_request_def op_run split: sum.split)

lemma sends_csrf_bind: "(\<And>t. sends n (f t)) \<Longrightarrow> sends n (op_bind (csrf env) f)"
  using sends_bind [OF sends_csrf] by fastforce

lemma sends_out_throw: "sends 0 (op_seq (announce_signed_out env) (op_throw e))"
  using sends_seq [OF sends_announce(2) sends_throw] by simp

lemma sends_native_branch: "sends 0 (native_branch env path init)"
proof -
  have "op_keeps (\<lambda>w. aw_sent w = xs) (native_branch env path init)" for xs
    unfolding native_branch_def native_request_def by (intro keeps)
  then show ?thesis by (simp add: sends_def op_keeps_def)
qed

lemma web_fetch_sent:
  "\<exists>rq. rq_path rq = path \<and> rq_method rq = method_of init \<and>
     rq_body rq = body_text (in_body init) \<and> aw_sent (snd (web_fetch env path init w)) = aw_sent w @ [rq]"
proof -
  let ?rq = "\<lparr>rq_path = path, rq_method = method_of init,
      rq_headers = request_headers init (token_after env (aw_sent w)), rq_body = body_text (in_body init)\<rparr>"
  have "aw_sent (snd (web_fetch env path init w)) = aw_sent w @ [?rq]"
    by (auto simp: web_fetch_run Let_def split: fetch_outcome.split prod.split sum.split dest!: reply_payload_pair)
  then show ?thesis by (intro exI [of _ ?rq]) simp
qed

lemma sends_web_fetch: "sends 1 (web_fetch env path init)"
proof -
  have "length (aw_sent (snd (web_fetch env path init w))) \<le> length (aw_sent w) + 1" for w
    using web_fetch_sent [of path init env w] by auto
  then show ?thesis by (simp add: sends_def)
qed

lemma sends_web_finish: "sends 0 (web_finish env r p)"
  by (simp add: sends_def)

lemma sends_request_once: "sends 1 (request_once env path init)"
proof -
  have "sends (1 + 0) (op_bind (web_fetch env path init) (\<lambda>(r, p). web_finish env r p))"
    by (rule sends_bind [OF sends_web_fetch]) (auto simp: sends_web_finish)
  then show ?thesis
    by (simp add: request_once_def sends_mono [OF sends_throw] sends_mono [OF sends_native_branch])
qed

lemma sends_refresh: "sends 2 (refresh_session env)"
proof -
  have ask: "sends 1 (op_catch (op_seq (request_once env ''/auth/me'' no_init) (op_return True))
      (\<lambda>e. if has_status 401 e then op_return False else op_throw e))"
    by (rule sends_catch0)
      (use sends_seq [OF sends_request_once sends_return] in \<open>simp_all add: sends_return sends_throw\<close>)
  have renew: "sends 1 (op_catch (op_void (request_once env ''/auth/refresh'' (json_init ''POST'' (Some ''{}''))))
      (\<lambda>e. if has_status 401 e then op_seq (announce_signed_out env) (op_throw expired_error) else op_throw e))"
    by (rule sends_catch0)
      (simp_all add: sends_throw sends_out_throw sends_void sends_request_once del: One_nat_def)
  have rest: "sends 1 (if current then op_return () else op_bind (csrf env) (\<lambda>token.
      if token = [] then op_throw expired_error
      else op_catch (op_void (request_once env ''/auth/refresh'' (json_init ''POST'' (Some ''{}''))))
        (\<lambda>e. if has_status 401 e then op_seq (announce_signed_out env) (op_throw expired_error) else op_throw e)))"
    for current
    using renew
    by (auto intro!: sends_csrf_bind sends_mono [OF sends_return] sends_mono [OF sends_throw])
  show ?thesis
    unfolding refresh_session_def
    using sends_bind [OF ask rest, of "\<lambda>b. b"]
    by (simp add: sends_mono [OF sends_throw] sends_mono [OF sends_void [OF sends_request_once]] numeral_2_eq_2)
qed

lemma sends_request: "sends 4 (request env path init)"
proof -
  have "sends (1 + 3) (op_bind (web_fetch env path init) (\<lambda>(r, p).
      if rp_status r = 401 \<and> may_refresh path
      then op_seq (refresh_session env) (request_once env path init) else web_finish env r p))"
    by (rule sends_bind [OF sends_web_fetch])
      (use sends_seq [OF sends_refresh sends_request_once] sends_mono [OF sends_web_finish] in
        \<open>auto split: prod.split\<close>)
  then show ?thesis
    by (simp add: request_def sends_mono [OF sends_throw] sends_mono [OF sends_native_branch])
qed

text \<open>There is no retry loop: one call of \<open>request\<close> sends at most four HTTP requests (itself,
  the two of a session refresh, itself once more), one GraphQL call at most ten.\<close>

theorem request_budget:
  "length (aw_sent (snd (request env path init w))) \<le> length (aw_sent w) + 4 \<and>
   length (aw_sent (snd (gql env query variables w))) \<le> length (aw_sent w) + 10"
proof -
  let ?run = "request env ''/graphql'' (gql_init env query variables)"
  have fin: "sends 0 (gql_finish env b)" for b by (simp add: sends_def)
  then have again: "sends (4 + 0) (op_bind ?run (\<lambda>b. if nullish b then op_throw type_error else gql_finish env b))"
    by (intro sends_bind [OF sends_request]) (simp add: sends_throw)
  then have replay: "sends 6 (op_seq (refresh_session env)
      (op_bind ?run (\<lambda>b. if nullish b then op_throw type_error else gql_finish env b)))"
    using sends_seq [OF sends_refresh again] by simp
  have "sends (4 + 6) (gql env query variables)"
    unfolding gql_def Let_def
    by (rule sends_bind [OF sends_request])
      (simp add: replay sends_mono [OF sends_throw] sends_mono [OF fin])
  then show ?thesis using sendsD [OF sends_request] sendsD by fastforce
qed



section \<open>Signing out\<close>

definition told_revoked :: "host_env \<Rightarrow> api_world \<Rightarrow> bool" where
  "told_revoked env w \<longleftrightarrow> (\<exists>i < length (aw_sent w). rq_path (aw_sent w ! i) = ''/auth/refresh'' \<and>
     (\<exists>r. he_fetch env (take i (aw_sent w)) (aw_sent w ! i) = FetchReply r \<and> rp_status r = 401))"

definition out_justified :: "host_env \<Rightarrow> api_world \<Rightarrow> bool" where
  "out_justified env w \<longleftrightarrow> (''termx-signed-out'' \<in> set (aw_events w) \<longrightarrow> told_revoked env w)"

lemma told_revoked_snoc:
  "told_revoked env w \<Longrightarrow> told_revoked env (w\<lparr>aw_sent := aw_sent w @ [rq]\<rparr>)"
proof -
  assume "told_revoked env w"
  then obtain i r where "i < length (aw_sent w)" "rq_path (aw_sent w ! i) = ''/auth/refresh''"
    "he_fetch env (take i (aw_sent w)) (aw_sent w ! i) = FetchReply r" "rp_status r = 401"
    unfolding told_revoked_def by blast
  then show ?thesis
    unfolding told_revoked_def by (intro exI [of _ i]) (simp add: nth_append)
qed

lemma keeps_web_fetch_out: "op_keeps (out_justified env) (web_fetch env path init)"
  unfolding op_keeps_def web_fetch_run Let_def
  by (auto simp: out_justified_def told_revoked_snoc split: fetch_outcome.split prod.split sum.split
      dest!: reply_payload_pair)

lemma keeps_locked_out [keeps]: "op_keeps (out_justified env) (announce_locked env')"
  by (auto simp: op_keeps_def announce_locked_def post_message_def dispatch_event_def op_run out_justified_def
      told_revoked_def)

lemma keeps_csrf_out [keeps]: "op_keeps (out_justified env) (csrf env')"
  by (simp add: csrf_def keeps)

lemma keeps_web_finish_out [keeps]: "op_keeps (out_justified env) (web_finish env' r p)"
  unfolding web_finish_def Let_def by (intro keeps)

lemma web_finish_401:
  "web_finish env r p w = (Inl e, w') \<Longrightarrow> has_status 401 e \<Longrightarrow> rp_status r = 401"
  by (auto simp: web_finish_def op_run Let_def announce_locked_def post_message_def dispatch_event_def
      split: if_splits)

lemma reply_payload_no_status: "reply_payload r w = (Inl e, w') \<Longrightarrow> \<not> has_status n e"
  by (auto simp: reply_payload_def split: if_splits option.splits)

lemma timeout_no_401: "\<not> has_status 401 (timeout_error init)"
  by (simp add: timeout_error_def)

text \<open>A 401 out of one request is a 401 of the host.\<close>

lemma request_once_401:
  assumes "\<not> he_native env" "same_origin path" "request_once env path init w = (Inl e, w')" "has_status 401 e"
  shows "\<exists>rq r. aw_sent w' = aw_sent w @ [rq] \<and> rq_path rq = path \<and>
    he_fetch env (aw_sent w) rq = FetchReply r \<and> rp_status r = 401"
proof -
  let ?rq = "\<lparr>rq_path = path, rq_method = method_of init,
      rq_headers = request_headers init (token_after env (aw_sent w)), rq_body = body_text (in_body init)\<rparr>"
  let ?v = "w\<lparr>aw_sent := aw_sent w @ [?rq]\<rparr>"
  from assms obtain r where f: "he_fetch env (aw_sent w) ?rq = FetchReply r"
    by (auto simp: request_once_def goes_native_def op_run_bind web_fetch_run Let_def timeout_no_401
        split: fetch_outcome.splits)
  obtain x v where rp: "reply_payload r ?v = (x, v)" by (cases "reply_payload r ?v")
  then have v: "v = ?v" by (rule reply_payload_pair)
  have run: "request_once env path init w = (case x of Inl e \<Rightarrow> (Inl e, ?v) | Inr p \<Rightarrow> web_finish env r p ?v)"
    using assms(1,2) f rp v
    by (simp add: request_once_def goes_native_def op_run_bind web_fetch_run Let_def split: sum.split)
  obtain p where "x = Inr p"
    using run assms(3,4) reply_payload_no_status [of r ?v _ v 401] rp by (cases x) auto
  with run assms(3) rp v have "reply_payload r ?v = (Inr p, ?v)" "web_finish env r p ?v = (Inl e, w')"
    by auto
  moreover from this have "aw_sent w' = aw_sent ?v" using web_finish_sent [of env r p ?v] by simp
  ultimately show ?thesis
    using f web_finish_401 assms(4) by (intro exI [of _ ?rq] exI [of _ r]) auto
qed

lemma keeps_request_once_out:
  assumes "\<not> he_native env"
  shows "op_keeps (out_justified env) (request_once env path init)"
  using assms by (simp add: request_once_def goes_native_def keeps keeps_web_fetch_out)

lemma revoked_told:
  assumes "\<not> he_native env" "request_once env ''/auth/refresh'' init w = (Inl e, w')" "has_status 401 e"
  shows "told_revoked env w'"
proof -
  have "same_origin ''/auth/refresh''" by (simp add: same_origin_def starts_with_def)
  from request_once_401 [OF assms(1) this assms(2,3)] obtain rq r where
    "aw_sent w' = aw_sent w @ [rq]" "rq_path rq = ''/auth/refresh''"
    "he_fetch env (aw_sent w) rq = FetchReply r" "rp_status r = 401" by blast
  then show ?thesis unfolding told_revoked_def by (intro exI [of _ "length (aw_sent w)"]) simp
qed

lemma told_out:
  "told_revoked env w \<Longrightarrow> out_justified env (snd (op_seq (announce_signed_out env) (op_throw e) w))"
  by (auto simp: out_justified_def told_revoked_def announce_signed_out_def post_message_def
      dispatch_event_def op_run)

lemma keeps_renew_out:
  assumes "\<not> he_native env"
  shows "op_keeps (out_justified env) (op_catch (op_void (request_once env ''/auth/refresh'' init))
    (\<lambda>e. if has_status 401 e then op_seq (announce_signed_out env) (op_throw expired_error) else op_throw e))"
proof -
  have failed: "op_void m w = (Inl e, w') \<Longrightarrow> m w = (Inl e, w')" for m :: "'a api" and w e w'
    by (auto simp: op_run_void split: prod.splits sum.splits)
  show ?thesis
    by (rule keeps_catch_error)
      (auto intro!: keeps_void keeps_request_once_out [OF assms] intro: told_out revoked_told [OF assms] dest!: failed)
qed

lemma keeps_refresh_out: "\<not> he_native env \<Longrightarrow> op_keeps (out_justified env) (refresh_session env)"
  unfolding refresh_session_def by (intro keeps_renew_out keeps_request_once_out keeps)

text \<open>C13. In a browser, a request signs the workspace out only when the host itself answered 401 to
  a session refresh. A timeout, an unavailable host, a missing lock API or a locked session keep
  the signed-in user interface.\<close>

theorem sign_out_justified:
  assumes "\<not> he_native env" and "''termx-signed-out'' \<notin> set (aw_events w)"
    and "''termx-signed-out'' \<in> set (aw_events (snd (request env path init w)))"
  shows "told_revoked env (snd (request env path init w))"
proof -
  have "op_keeps (out_justified env) (request env path init)"
    using assms(1) unfolding request_def
    by (simp add: goes_native_def)
      (intro impI conjI keeps keeps_web_fetch_out keeps_refresh_out keeps_request_once_out)
  from op_keepsD [OF this, of w] assms show ?thesis by (simp add: out_justified_def)
qed

theorem sign_out_justified_witness:
  "told_revoked (sample_env 401) (snd (request (sample_env 401) ''/api/x'' no_init idle_client))"
  by (rule sign_out_justified) (simp_all add: sample_env_def idle_client_def, code_simp)

end
