(* ===== verification/Base64.thy ===== *)
theory Base64
  imports JsPrelude
begin

text \<open>
  \<open>btoa\<close> and \<open>atob\<close>, which carry bytes through the native shell's text messages. A byte is a code
  unit below 256, so bytes and the binary strings they work on are the same lists. Both are modelled from
  their specification, and \<open>atob\<close> undoes \<open>btoa\<close>.
\<close>

section \<open>Base64\<close>

definition b64_alphabet :: string where
  "b64_alphabet = ''ABCDEFGHIJKLMNOPQRSTUVWXYZabcdefghijklmnopqrstuvwxyz0123456789+/''"

definition b64_char :: "nat \<Rightarrow> char" where
  "b64_char n = b64_alphabet ! n"

definition b64_value :: "char \<Rightarrow> nat" where
  "b64_value c = length (takeWhile (\<lambda>d. d \<noteq> c) b64_alphabet)"

definition sextets :: "nat \<Rightarrow> string" where
  "sextets n = [b64_char (n div 262144), b64_char (n div 4096 mod 64), b64_char (n div 64 mod 64), b64_char (n mod 64)]"

fun b64_body :: "string \<Rightarrow> string" where
  "b64_body (a # b # c # r) = sextets (of_char a * 65536 + of_char b * 256 + of_char c) @ b64_body r"
| "b64_body [a, b] = take 3 (sextets (of_char a * 65536 + of_char b * 256))"
| "b64_body [a] = take 2 (sextets (of_char a * 65536))"
| "b64_body [] = []"

definition btoa :: "string \<Rightarrow> string" where
  "btoa s = b64_body s @ replicate (if length s mod 3 = 0 then 0 else 3 - length s mod 3) (CHR ''='')"

definition joined :: "char \<Rightarrow> char \<Rightarrow> char \<Rightarrow> char \<Rightarrow> nat" where
  "joined a b c d = b64_value a * 262144 + b64_value b * 4096 + b64_value c * 64 + b64_value d"

definition byte_at :: "nat \<Rightarrow> nat \<Rightarrow> char" where
  "byte_at n unit = char_of (n div unit mod 256)"

fun b64_decode :: "string \<Rightarrow> string" where
  "b64_decode (a # b # c # d # r) = byte_at (joined a b c d) 65536 # byte_at (joined a b c d) 256 # byte_at (joined a b c d) 1 # b64_decode r"
| "b64_decode [a, b, c] = [byte_at (joined a b c (CHR ''A'')) 65536, byte_at (joined a b c (CHR ''A'')) 256]"
| "b64_decode [a, b] = [byte_at (joined a b (CHR ''A'') (CHR ''A'')) 65536]"
| "b64_decode _ = []"

definition strip_padding :: "string \<Rightarrow> string" where
  "strip_padding d =
     (if length d mod 4 \<noteq> 0 then d
      else if ends_with ''=='' d then take (length d - 2) d else if ends_with ''='' d then take (length d - 1) d else d)"

text \<open>\<open>atob\<close> skips white space and throws on anything that is not base64.\<close>

definition atob :: "string \<Rightarrow> string option" where
  "atob s =
     (let d = strip_padding (filter (\<lambda>c. c \<notin> {CHR 0x09, CHR 0x0A, CHR 0x0C, CHR 0x0D, CHR '' ''}) s)
      in if length d mod 4 = 1 \<or> \<not> set d \<subseteq> set b64_alphabet then None else Some (b64_decode d))"

lemma b64_value_char: "n < 64 \<Longrightarrow> b64_value (b64_char n) = n"
proof -
  have "\<forall>n \<in> set [0..<64]. b64_value (b64_char n) = n" by code_simp
  then show "n < 64 \<Longrightarrow> ?thesis" by simp
qed

lemma b64_char_in: "n < 64 \<Longrightarrow> b64_char n \<in> set b64_alphabet"
  unfolding b64_char_def by (rule nth_mem) (simp add: b64_alphabet_def)

lemma sextet_sum: "n = p * 64 + d \<Longrightarrow> p = q * 64 + c \<Longrightarrow> q = a * 64 + b \<Longrightarrow> a * 262144 + b * 4096 + c * 64 + d = (n :: nat)"
  by simp

lemma sextets_back: "n div 262144 * 262144 + n div 4096 mod 64 * 4096 + n div 64 mod 64 * 64 + n mod 64 = (n :: nat)"
proof -
  have d: "n div 4096 = n div 64 div 64" "n div 262144 = n div 64 div 64 div 64" by (simp_all add: div_mult2_eq [symmetric])
  show ?thesis unfolding d by (rule sextet_sum [of _ "n div 64" _ "n div 64 div 64"]) simp_all
qed

lemma sextet_bounds: "n < 16777216 \<Longrightarrow> n div 262144 < 64" "n div 4096 mod 64 < 64" "n div 64 mod 64 < 64" "n mod 64 < (64 :: nat)"
  by (simp_all add: less_mult_imp_div_less)

lemma joined_sextets:
  assumes "n < 16777216"
  shows "joined (b64_char (n div 262144)) (b64_char (n div 4096 mod 64)) (b64_char (n div 64 mod 64)) (b64_char (n mod 64)) = n"
  unfolding joined_def using sextet_bounds(1) [OF assms] sextet_bounds(2-4) [of n] by (simp only: b64_value_char sextets_back)

lemma byte_at_parts:
  assumes "a < 256" "b < 256" "c < (256 :: nat)"
  shows "byte_at (a * 65536 + b * 256 + c) 65536 = char_of a" "byte_at (a * 65536 + b * 256 + c) 256 = char_of b"
    "byte_at (a * 65536 + b * 256 + c) 1 = char_of c"
proof -
  define x where "x = a * 256 + b"
  have n: "a * 65536 + b * 256 + c = x * 256 + c" by (simp add: x_def)
  have x: "(x * 256 + c) div 256 = x" "(x * 256 + c) mod 256 = c" using assms by simp_all
  have b: "x div 256 = a" "x mod 256 = b" unfolding x_def using assms by simp_all
  have "(x * 256 + c) div 65536 = (x * 256 + c) div 256 div 256" by (simp only: div_mult2_eq [symmetric]) simp
  then show "byte_at (a * 65536 + b * 256 + c) 65536 = char_of a" "byte_at (a * 65536 + b * 256 + c) 256 = char_of b"
    "byte_at (a * 65536 + b * 256 + c) 1 = char_of c"
    unfolding byte_at_def n using assms x b by simp_all
qed

lemma b64_value_A: "b64_value (CHR ''A'') = 0"
  by code_simp

lemma low_sextets:
  "(a * 65536 + b * 256) mod 64 = (0 :: nat)" "(a * 65536) mod 64 = (0 :: nat)" "(a * 65536) div 64 mod 64 = (0 :: nat)"
proof -
  have "a * 65536 + b * 256 = (a * 1024 + b * 4) * 64" "a * 65536 = (a * 16 * 64) * 64" by simp_all
  then show "(a * 65536 + b * 256) mod 64 = 0" "(a * 65536) mod 64 = 0" "(a * 65536) div 64 mod 64 = 0"
    by (metis mod_mult_self2_is_0, metis mod_mult_self2_is_0, metis mod_mult_self2_is_0 nonzero_mult_div_cancel_right zero_neq_numeral)
qed

lemma b64_char_0: "b64_char 0 = CHR ''A''"
  by code_simp

lemma bytes_bound: "of_char a * 65536 + of_char b * 256 + of_char c < (16777216 :: nat)"
proof -
  define x y z where "x = (of_char a :: nat)" and "y = (of_char b :: nat)" and "z = (of_char c :: nat)"
  have "x < 256" "y < 256" "z < 256" by (simp_all add: x_def y_def z_def)
  then show ?thesis unfolding x_def [symmetric] y_def [symmetric] z_def [symmetric] by linarith
qed

lemma b64_decode_body: "b64_decode (b64_body s) = s"
proof (induction s rule: b64_body.induct)
  case (1 a b c r)
  show ?case
    unfolding b64_body.simps sextets_def append_Cons append_Nil b64_decode.simps joined_sextets [OF bytes_bound]
    using 1 byte_at_parts [of "of_char a" "of_char b" "of_char c"] by simp
next
  case (2 a b)
  have n: "of_char a * 65536 + of_char b * 256 < (16777216 :: nat)" using bytes_bound [of a b "CHR 0x00"] by simp
  show ?case
    using joined_sextets [OF n] byte_at_parts [of "of_char a" "of_char b" 0]
    by (simp only: b64_body.simps sextets_def take_Suc_Cons numeral_3_eq_3 take_0 b64_decode.simps low_sextets b64_char_0)
      simp
next
  case (3 a)
  have n: "of_char a * 65536 < (16777216 :: nat)" using bytes_bound [of a "CHR 0x00" "CHR 0x00"] by simp
  show ?case
    using joined_sextets [OF n] byte_at_parts [of "of_char a" 0 0]
    by (simp only: b64_body.simps sextets_def take_Suc_Cons numeral_2_eq_2 take_0 b64_decode.simps low_sextets b64_char_0)
      simp
qed simp

lemma sextets_in: "n < 16777216 \<Longrightarrow> set (sextets n) \<subseteq> set b64_alphabet"
  unfolding sextets_def using b64_char_in sextet_bounds [of n] by simp

lemma b64_body_in: "set (b64_body s) \<subseteq> set b64_alphabet"
proof (induction s rule: b64_body.induct)
  case (1 a b c r)
  then show ?case using sextets_in [OF bytes_bound [of a b c]] unfolding b64_body.simps by simp
next
  case (2 a b)
  have "of_char a * 65536 + of_char b * 256 < (16777216 :: nat)" using bytes_bound [of a b "CHR 0x00"] by simp
  from sextets_in [OF this] show ?case unfolding b64_body.simps by (rule subset_trans [OF set_take_subset])
next
  case (3 a)
  have "of_char a * 65536 < (16777216 :: nat)" using bytes_bound [of a "CHR 0x00" "CHR 0x00"] by simp
  from sextets_in [OF this] show ?case unfolding b64_body.simps by (rule subset_trans [OF set_take_subset])
qed simp

lemma b64_body_length: "length (b64_body s) mod 4 = (if length s mod 3 = 0 then 0 else length s mod 3 + 1)"
proof (induction s rule: b64_body.induct)
  case (1 a b c r)
  have "length (b64_body (a # b # c # r)) = length (b64_body r) + 4" "length (a # b # c # r) = length r + 3" by (simp_all add: sextets_def)
  then show ?case using 1 by (simp only: mod_add_self2)
qed (simp_all add: sextets_def)

lemma alphabet_plain: "CHR ''='' \<notin> set b64_alphabet"
    "c \<in> {CHR 0x09, CHR 0x0A, CHR 0x0C, CHR 0x0D, CHR '' ''} \<Longrightarrow> c \<notin> set b64_alphabet"
proof -
  show "CHR ''='' \<notin> set b64_alphabet" by code_simp
  have "\<forall>c \<in> {CHR 0x09, CHR 0x0A, CHR 0x0C, CHR 0x0D, CHR '' ''}. c \<notin> set b64_alphabet" by code_simp
  then show "c \<in> {CHR 0x09, CHR 0x0A, CHR 0x0C, CHR 0x0D, CHR '' ''} \<Longrightarrow> c \<notin> set b64_alphabet" by blast
qed

lemma ends_plain: "CHR ''='' \<notin> set w \<Longrightarrow> \<not> ends_with ''='' w" "CHR ''='' \<notin> set w \<Longrightarrow> \<not> ends_with ''=='' w"
proof -
  have "rev w = [] \<or> hd (rev w) \<noteq> CHR ''=''" if "CHR ''='' \<notin> set w"
    using that by (cases "rev w") (auto simp: rev_swap [symmetric])
  then show "CHR ''='' \<notin> set w \<Longrightarrow> \<not> ends_with ''='' w" "CHR ''='' \<notin> set w \<Longrightarrow> \<not> ends_with ''=='' w"
    unfolding ends_with_def by (cases "rev w"; simp)+
qed

lemma strip_plain:
  assumes "CHR ''='' \<notin> set w" "n \<le> 2" "(length w + n) mod 4 = 0"
  shows "strip_padding (w @ replicate n (CHR ''='')) = w"
proof -
  consider "n = 0" | "n = 1" | "n = 2" using assms(2) by linarith
  then show ?thesis
  proof cases
    case 1 then show ?thesis using ends_plain [OF assms(1)] assms(3) by (simp add: strip_padding_def)
  next
    case 2
    have "ends_with ''=='' (w @ ''='') = ends_with ''='' w" by (simp add: ends_with_def)
    then show ?thesis using 2 ends_plain [OF assms(1)] assms(3) by (simp add: strip_padding_def) (simp add: ends_with_def)
  next
    case 3
    then show ?thesis using assms(3) by (simp add: strip_padding_def numeral_2_eq_2) (simp add: ends_with_def)
  qed
qed

text \<open>\<open>atob\<close> undoes \<open>btoa\<close> on every sequence of bytes.\<close>

lemma atob_btoa: "atob (btoa s) = Some s"
proof -
  let ?pad = "if length s mod 3 = 0 then 0 else 3 - length s mod 3"
  have in_alpha: "set (b64_body s) \<subseteq> set b64_alphabet" by (rule b64_body_in)
  have plain: "CHR ''='' \<notin> set (b64_body s)" using in_alpha alphabet_plain(1) by blast
  have m: "length s mod 3 < 3" by simp
  have "(length (b64_body s) + ?pad) mod 4 = (length (b64_body s) mod 4 + ?pad) mod 4" by (simp add: mod_add_left_eq)
  also have "\<dots> = 0" using m unfolding b64_body_length by auto
  finally have "strip_padding (btoa s) = b64_body s"
    unfolding btoa_def by (intro strip_plain plain) (use m in \<open>auto\<close>)
  moreover have "filter (\<lambda>c. c \<notin> {CHR 0x09, CHR 0x0A, CHR 0x0C, CHR 0x0D, CHR '' ''}) (btoa s) = btoa s"
  proof (rule filter_True, rule ballI)
    fix c assume "c \<in> set (btoa s)"
    then have "c \<in> set b64_alphabet \<or> c = CHR ''=''" using in_alpha by (auto simp: btoa_def split: if_splits)
    then show "c \<notin> {CHR 0x09, CHR 0x0A, CHR 0x0C, CHR 0x0D, CHR '' ''}" using alphabet_plain(2) [of c] by auto
  qed
  moreover have "length (b64_body s) mod 4 \<noteq> 1" using m unfolding b64_body_length by auto
  ultimately show ?thesis using in_alpha unfolding atob_def Let_def by (simp add: b64_decode_body)
qed

end
