(* ===== verification/BrowserGrant.thy ===== *)
theory BrowserGrant
  imports OneAtATime View
begin

text \<open>
  \<open>features/ScheduleBrowserPermission.tsx\<close>: the browser tabs that a schedule may use unattended. The form reports a permission only
  while everything it names is valid. What \<open>new URL\<close> makes of a text (its protocol and its origin, or a failure) and
  \<open>Number\<close> of a text are arguments; a tab has no id that is a name of \<open>Object.prototype\<close>.
\<close>

section \<open>Numbers\<close>

fun num_le :: "jsnum \<Rightarrow> jsnum \<Rightarrow> bool" where
  "num_le NaN b = False"
| "num_le NegInf b = (b \<noteq> NaN)"
| "num_le PosInf b = (b = PosInf)"
| "num_le (Fin a) b = (case b of Fin c \<Rightarrow> a \<le> c | PosInf \<Rightarrow> True | _ \<Rightarrow> False)"

text \<open>Multiplication by a positive number, and addition of a finite one.\<close>

fun num_times :: "jsnum \<Rightarrow> rat \<Rightarrow> jsnum" where
  "num_times (Fin a) k = Fin (a * k)"
| "num_times n k = n"

fun num_plus :: "rat \<Rightarrow> jsnum \<Rightarrow> jsnum" where
  "num_plus t (Fin a) = Fin (t + a)"
| "num_plus t n = n"

fun whole_num :: "jsnum \<Rightarrow> bool" where
  "whole_num (Fin a) = (of_int \<lfloor>a\<rfloor> = a)"
| "whole_num _ = False"

section \<open>Origins\<close>

record grant_port =
  gp_url :: "string \<Rightarrow> (string \<times> string) option"
  gp_number :: "string \<Rightarrow> jsnum"

definition web_protocol :: "string \<Rightarrow> bool" where
  "web_protocol p \<longleftrightarrow> p \<in> {''http:'', ''https:''}"

definition url_origin :: "grant_port \<Rightarrow> string \<Rightarrow> string" where
  "url_origin port u = (case gp_url port u of Some (p, org) \<Rightarrow> if web_protocol p then org else [] | None \<Rightarrow> [])"

definition exact_origin :: "grant_port \<Rightarrow> string \<Rightarrow> bool" where
  "exact_origin port v \<longleftrightarrow> (case gp_url port v of Some (p, org) \<Rightarrow> web_protocol p \<and> v = org | None \<Rightarrow> False)"

definition origins_of :: "grant_port \<Rightarrow> string \<Rightarrow> string list option" where
  "origins_of port v =
     (let vs = first_seen (words_from [] v) in
      if vs = [] \<or> 30 < length vs then None else if list_all (exact_origin port) vs then Some vs else None)"

section \<open>State\<close>

record grant_tab =
  gt_id :: string
  gt_title :: string
  gt_url :: string
  gt_profile :: "string option"
  gt_lease :: "int option"

record tab_read =
  tq_live :: bool
  tq_done :: bool

record browser_scope =
  bs_tab :: string
  bs_origins :: "string list"
  bs_actions :: "string list"

record browser_permission =
  bw_tabs :: "browser_scope list"
  bw_expires :: jsnum
  bw_seconds :: jsnum

record browser_draft =
  bd_enabled :: bool
  bd_permission :: "browser_permission option"

record grant_form =
  bg_days :: jsnum
  bg_disabled :: bool
  bg_enabled :: bool
  bg_tabs :: "grant_tab list"
  bg_chosen :: "(string \<times> string) list"
  bg_allowed :: "string list"
  bg_hours :: string
  bg_seconds :: string
  bg_expires :: jsnum
  bg_error :: string
  bg_loading :: bool
  bg_reads :: "tab_read list"

definition known_actions :: "(string \<times> string) list" where
  "known_actions = [(''observe'', ''Read page content''), (''navigate'', ''Navigate within approved origins''), (''click'', ''Click page elements''),
     (''type'', ''Type into page fields''), (''scroll'', ''Scroll''), (''wait'', ''Wait for page changes''), (''find'', ''Find text''), (''zoom'', ''Zoom''),
     (''history'', ''Use back and forward''), (''capture'', ''Capture page snapshots'')]"

text \<open>\<open>now\<close> is \<open>Math.floor(Date.now()/1000)\<close>.\<close>

definition open_grant :: "int \<Rightarrow> jsnum \<Rightarrow> bool \<Rightarrow> grant_form" where
  "open_grant now days disabled = \<lparr>bg_days = days, bg_disabled = disabled, bg_enabled = False, bg_tabs = [], bg_chosen = [], bg_allowed = [''observe''],
     bg_hours = ''24'', bg_seconds = ''600'', bg_expires = Fin (of_int now + 86400), bg_error = [], bg_loading = False, bg_reads = []\<rparr>"

section \<open>The permission\<close>

definition valid_hours :: "grant_port \<Rightarrow> grant_form \<Rightarrow> bool" where
  "valid_hours port g \<longleftrightarrow> (let h = gp_number port (bg_hours g) in \<not> num_le h (Fin 0) \<and> h \<noteq> NaN \<and> num_le h (num_times (bg_days g) 24))"

definition valid_seconds :: "grant_port \<Rightarrow> grant_form \<Rightarrow> bool" where
  "valid_seconds port g \<longleftrightarrow> (let n = gp_number port (bg_seconds g) in whole_num n \<and> num_le (Fin 10) n \<and> num_le n (Fin 3600))"

definition permission_scope :: "grant_port \<Rightarrow> grant_form \<Rightarrow> string \<times> string \<Rightarrow> browser_scope option" where
  "permission_scope port g c =
     (case (find (\<lambda>t. gt_id t = fst c) (bg_tabs g), origins_of port (snd c)) of
        (Some t, Some os) \<Rightarrow> if url_origin port (gt_url t) \<in> set os then Some \<lparr>bs_tab = fst c, bs_origins = os, bs_actions = bg_allowed g\<rparr> else None
      | _ \<Rightarrow> None)"

definition grant_permission :: "grant_port \<Rightarrow> grant_form \<Rightarrow> browser_permission option" where
  "grant_permission port g =
     (if \<not> bg_enabled g \<or> bg_loading g \<or> bg_error g \<noteq> [] \<or> \<not> valid_hours port g \<or> \<not> valid_seconds port g \<or> bg_chosen g = [] \<or> 8 < length (bg_chosen g)
      then None
      else map_option (\<lambda>rows. \<lparr>bw_tabs = rows, bw_expires = bg_expires g, bw_seconds = gp_number port (bg_seconds g)\<rparr>) (all_some (map (permission_scope port g) (bg_chosen g))))"

definition grant_draft :: "grant_port \<Rightarrow> grant_form \<Rightarrow> browser_draft" where
  "grant_draft port g = \<lparr>bd_enabled = bg_enabled g, bd_permission = grant_permission port g\<rparr>"

section \<open>Steps\<close>

datatype grant_click =
    TickGrant bool | RefreshTabs | TickTab grant_tab bool | TypeOrigins string string | TickAction string bool | TypeHours string | TypeSeconds string

definition read_tabs :: "grant_form \<Rightarrow> grant_form" where
  "read_tabs g =
     (let rs = map (\<lambda>r. r\<lparr>tq_live := False\<rparr>) (bg_reads g) in
      if bg_enabled g then g\<lparr>bg_loading := True, bg_error := [], bg_reads := rs @ [\<lparr>tq_live = True, tq_done = False\<rparr>]\<rparr> else g\<lparr>bg_reads := rs\<rparr>)"

definition tabs_answered :: "grant_port \<Rightarrow> nat \<Rightarrow> grant_tab list js_result \<Rightarrow> grant_form \<Rightarrow> grant_form" where
  "tabs_answered port n r g =
     (let f = bg_reads g ! n; g' = g\<lparr>bg_reads := (bg_reads g)[n := f\<lparr>tq_done := True\<rparr>]\<rparr> in
      if \<not> tq_live f then g'
      else (case r of
              Inl e \<Rightarrow> g'\<lparr>bg_tabs := [], bg_error := error_message e\<rparr>
            | Inr rows \<Rightarrow> g'\<lparr>bg_tabs := filter (\<lambda>t. url_origin port (gt_url t) \<noteq> []) rows\<rparr>)\<lparr>bg_loading := False\<rparr>)"

definition expiry :: "grant_port \<Rightarrow> int \<Rightarrow> string \<Rightarrow> jsnum" where
  "expiry port now h = num_plus (of_int now) (num_times (gp_number port h) 3600)"

definition grant_clicked :: "grant_port \<Rightarrow> int \<Rightarrow> grant_click \<Rightarrow> grant_form \<Rightarrow> grant_form" where
  "grant_clicked port now a g =
     (case a of
        TickGrant on \<Rightarrow> (let g' = g\<lparr>bg_enabled := on, bg_chosen := [], bg_expires := expiry port now (bg_hours g)\<rparr> in if on = bg_enabled g then g' else read_tabs g')
      | RefreshTabs \<Rightarrow> read_tabs g
      | TickTab t on \<Rightarrow> g\<lparr>bg_chosen := (if on then AList.update (gt_id t) (url_origin port (gt_url t)) (bg_chosen g) else AList.delete (gt_id t) (bg_chosen g))\<rparr>
      | TypeOrigins k v \<Rightarrow> g\<lparr>bg_chosen := AList.update k v (bg_chosen g)\<rparr>
      | TickAction k on \<Rightarrow> g\<lparr>bg_allowed := (if on then bg_allowed g @ [k] else filter (\<lambda>x. x \<noteq> k) (bg_allowed g))\<rparr>
      | TypeHours v \<Rightarrow> g\<lparr>bg_hours := v, bg_expires := expiry port now v\<rparr>
      | TypeSeconds v \<Rightarrow> g\<lparr>bg_seconds := v\<rparr>)"

definition grant_render :: "jsnum \<Rightarrow> bool \<Rightarrow> grant_form \<Rightarrow> grant_form" where
  "grant_render days disabled g = g\<lparr>bg_days := days, bg_disabled := disabled\<rparr>"

section \<open>What it shows\<close>

definition grant_input :: "string \<Rightarrow> string \<Rightarrow> grant_click \<Rightarrow> grant_click view" where
  "grant_input label v a = box ''label'' [VText label, VEl ''input'' [attr_text ''aria-label'' label, attr_text ''value'' v] [(''onChange'', a)] []]"

definition tab_row :: "grant_port \<Rightarrow> string \<Rightarrow> grant_form \<Rightarrow> grant_tab \<Rightarrow> grant_click view" where
  "tab_row port typed g t =
     (let chosen = map_of (bg_chosen g) (gt_id t); title = (if gt_title t = [] then gt_url t else gt_title t) in box ''div''
        [checkbox (bg_disabled g \<or> (chosen = None \<and> 8 \<le> length (bg_chosen g))) (chosen \<noteq> None) (TickTab t (chosen = None)) (title @ '' tab '' @ gt_id t),
         (case chosen of
            None \<Rightarrow> VNone
          | Some v \<Rightarrow> box ''div''
              [labelled ''p'' (''Profile '' @ or_text (gt_profile t) ''unavailable'' @ '' control revision ''
                 @ (case gt_lease t of Some n \<Rightarrow> int_text n | None \<Rightarrow> ''unavailable'') @ '' Current page '' @ gt_url t),
               VEl ''textarea'' [attr_text ''value'' v] [(''onChange'', TypeOrigins (gt_id t) typed)] [],
               labelled ''small'' (''One exact http(s) origin per line, up to 30. Include the current origin of the tab: '' @ url_origin port (gt_url t))])])"

definition action_row :: "grant_form \<Rightarrow> string \<times> string \<Rightarrow> grant_click view" where
  "action_row g a =
     (let on = (fst a \<in> set (bg_allowed g)) in
      checkbox (bg_disabled g \<or> fst a = ''observe'') on (TickAction (fst a) (\<not> on)) (snd a @ (if fst a = ''observe'' then '' (required)'' else [])))"

definition grant_summary :: "(browser_permission \<Rightarrow> string) \<Rightarrow> grant_port \<Rightarrow> grant_form \<Rightarrow> grant_click view" where
  "grant_summary pretty port g =
     (case grant_permission port g of
        Some p \<Rightarrow> box ''details'' [labelled ''pre'' (pretty p),
          labelled ''p'' ''Up to eight existing tabs; tab creation, closing and file transfers require separate permission.'']
      | None \<Rightarrow> labelled ''p'' ''Choose valid tabs and exact origins before authorizing this schedule.'')"

definition grant_view :: "(browser_permission \<Rightarrow> string) \<Rightarrow> grant_port \<Rightarrow> string \<Rightarrow> grant_form \<Rightarrow> grant_click view" where
  "grant_view pretty port typed g = box ''section''
     [checkbox (bg_disabled g) (bg_enabled g) (TickGrant (\<not> bg_enabled g)) ''Allow this schedule to use specific browser tabs unattended'',
      show_if (bg_enabled g) (box ''div''
        [show_if (bg_error g \<noteq> []) (labelled ''p'' (bg_error g)),
         (if bg_loading g then labelled ''p'' ''Loading available browser tabs...''
          else box ''div'' (button (bg_disabled g) RefreshTabs ''Refresh available tabs''
            # show_if (bg_tabs g = []) (labelled ''p'' ''Open a page in the project browser of the conversation, then refresh.'')
            # map (tab_row port typed g) (bg_tabs g))),
         box ''fieldset'' (map (action_row g) known_actions),
         grant_input ''Browser permission expires after hours'' (bg_hours g) (TypeHours typed),
         grant_input ''Browser seconds per run'' (bg_seconds g) (TypeSeconds typed),
         show_if (\<not> valid_hours port g) (labelled ''p'' ''Browser permission must expire within the grant of the schedule.''),
         show_if (\<not> valid_seconds port g) (labelled ''p'' ''Choose 10 to 3,600 browser seconds per run.''),
         grant_summary pretty port g])]"

inductive grant_moves :: "grant_port \<Rightarrow> grant_form \<Rightarrow> grant_form \<Rightarrow> bool" for port :: grant_port where
  bm_clicked: "a \<in> set (offers (grant_view pretty port typed g)) \<Longrightarrow> grant_moves port g (grant_clicked port now a g)"
| bm_answered: "n < length (bg_reads g) \<Longrightarrow> \<not> tq_done (bg_reads g ! n) \<Longrightarrow> grant_moves port g (tabs_answered port n r g)"
| bm_render: "grant_moves port g (grant_render days disabled g)"

definition grant_opened :: "grant_port \<Rightarrow> grant_form \<Rightarrow> bool" where
  "grant_opened port g \<longleftrightarrow> gp_number port ''24'' = Fin 24 \<and> (\<exists>now days disabled. g = open_grant now days disabled)"

section \<open>A permission is valid as a whole\<close>

text \<open>What holds of the form whatever was clicked: reading pages is always allowed, no action and no tab twice, and the expiry was set for the hours shown.\<close>

definition grant_ok :: "grant_port \<Rightarrow> grant_form \<Rightarrow> bool" where
  "grant_ok port g \<longleftrightarrow> ''observe'' \<in> set (bg_allowed g) \<and> distinct (bg_allowed g) \<and> set (bg_allowed g) \<subseteq> fst ` set known_actions
     \<and> distinct (map fst (bg_chosen g)) \<and> (\<exists>now. bg_expires g = expiry port now (bg_hours g))"

lemma offers_grant_parts [simp]: "offers (grant_summary pretty port g) = []" "offers (grant_input label v a) = [a]"
  by (simp_all add: grant_summary_def grant_input_def is_on_def jget_def attr_text_def split: option.split)

lemma tab_row_offers: "TickAction k on \<notin> set (offers (tab_row port typed g t))"
  by (simp add: tab_row_def Let_def in_offers is_on_def jget_def attr_text_def del: offer_rules split: option.split)

lemma action_row_offers:
  "TickAction k on \<in> set (offers (action_row g b)) \<Longrightarrow> k = fst b \<and> k \<noteq> ''observe'' \<and> (on \<longleftrightarrow> k \<notin> set (bg_allowed g))"
  by (auto simp: action_row_def Let_def in_offers simp del: offer_rules)

lemma grant_offers:
  assumes "TickAction k on \<in> set (offers (grant_view pretty port typed g))"
  shows "k \<in> fst ` set known_actions \<and> k \<noteq> ''observe'' \<and> (on \<longleftrightarrow> k \<notin> set (bg_allowed g))"
proof -
  have "\<exists>b \<in> set known_actions. TickAction k on \<in> set (offers (action_row g b))"
    using assms tab_row_offers by (auto simp: grant_view_def split: if_splits)
  then show ?thesis using action_row_offers by blast
qed

lemma read_tabs_fields [simp]:
  "bg_allowed (read_tabs g) = bg_allowed g" "bg_chosen (read_tabs g) = bg_chosen g" "bg_expires (read_tabs g) = bg_expires g" "bg_hours (read_tabs g) = bg_hours g"
  by (simp_all add: read_tabs_def Let_def)

lemma observe_known: "''observe'' \<in> fst ` set known_actions"
  by code_simp

lemma opened_grant: assumes "grant_opened port g" shows "grant_ok port g"
proof -
  obtain now days disabled where g: "gp_number port ''24'' = Fin 24" "g = open_grant now days disabled" using assms by (auto simp: grant_opened_def)
  then have "bg_expires g = expiry port now (bg_hours g)" by (simp add: open_grant_def expiry_def)
  then show ?thesis using g observe_known by (auto simp: grant_ok_def open_grant_def)
qed

lemma grant_moves_ok: "grant_moves port g h \<Longrightarrow> grant_ok port g \<Longrightarrow> grant_ok port h"
proof (induction rule: grant_moves.induct)
  case (bm_clicked a pretty typed g now)
  show ?case
  proof (cases a)
    case (TickAction k on)
    then show ?thesis using grant_offers [of k on pretty port typed g] bm_clicked by (auto simp: grant_ok_def grant_clicked_def)
  qed (use bm_clicked.prems in \<open>auto simp: grant_ok_def grant_clicked_def distinct_update distinct_delete Let_def\<close>)
next
  case (bm_answered n g r)
  then show ?case by (auto simp: grant_ok_def tabs_answered_def Let_def split: sum.splits)
next
  case (bm_render g days disabled)
  then show ?case by (simp add: grant_ok_def grant_render_def)
qed

lemma grant_reached_ok: "reached (grant_opened port) (grant_moves port) g \<Longrightarrow> grant_ok port g"
  by (induction rule: reached.induct) (simp_all add: opened_grant grant_moves_ok)

lemma all_some_map: "all_some (map f xs) = Some ys \<Longrightarrow> list_all2 (\<lambda>x y. f x = Some y) xs ys"
proof (induction xs arbitrary: ys)
  case (Cons x xs)
  then show ?case by (cases "f x") auto
qed simp

definition origins_ok :: "grant_port \<Rightarrow> string list \<Rightarrow> bool" where
  "origins_ok port os \<longleftrightarrow> os \<noteq> [] \<and> length os \<le> 30 \<and> distinct os \<and> list_all (exact_origin port) os"

lemma origins_of_ok: "origins_of port v = Some os \<Longrightarrow> origins_ok port os"
  by (auto simp: origins_of_def origins_ok_def Let_def split: if_splits)

definition scope_ok :: "grant_port \<Rightarrow> grant_form \<Rightarrow> browser_scope \<Rightarrow> bool" where
  "scope_ok port g b \<longleftrightarrow> (\<exists>t \<in> set (bg_tabs g). gt_id t = bs_tab b \<and> url_origin port (gt_url t) \<in> set (bs_origins b)) \<and> origins_ok port (bs_origins b)
     \<and> ''observe'' \<in> set (bs_actions b) \<and> distinct (bs_actions b) \<and> set (bs_actions b) \<subseteq> fst ` set known_actions"

lemma scope_of_ok: "permission_scope port g c = Some b \<Longrightarrow> grant_ok port g \<Longrightarrow> scope_ok port g b \<and> bs_tab b = fst c"
  by (auto simp: permission_scope_def scope_ok_def grant_ok_def origins_of_ok dest!: find_SomeD split: option.splits if_splits)

text \<open>One to eight listed tabs, each once, with one to thirty distinct exact web origins that include where the tab is; reading is among its
  actions; a run gets ten seconds to an hour, and the expiry lies within the grant of the schedule.\<close>

definition permission_ok :: "grant_port \<Rightarrow> grant_form \<Rightarrow> browser_permission \<Rightarrow> bool" where
  "permission_ok port g p \<longleftrightarrow> bw_tabs p \<noteq> [] \<and> length (bw_tabs p) \<le> 8 \<and> distinct (map bs_tab (bw_tabs p)) \<and> list_all (scope_ok port g) (bw_tabs p)
     \<and> whole_num (bw_seconds p) \<and> num_le (Fin 10) (bw_seconds p) \<and> num_le (bw_seconds p) (Fin 3600)
     \<and> (\<exists>now h. bw_expires p = num_plus (of_int now) (num_times h 3600) \<and> \<not> num_le h (Fin 0) \<and> num_le h (num_times (bg_days g) 24))"

lemma permission_bounds:
  assumes "grant_ok port g" "grant_permission port g = Some p" shows "permission_ok port g p"
proof -
  obtain rows where rows: "all_some (map (permission_scope port g) (bg_chosen g)) = Some rows" "bw_tabs p = rows" "bw_expires p = bg_expires g"
    "bw_seconds p = gp_number port (bg_seconds g)" and valid: "valid_hours port g" "valid_seconds port g" "bg_chosen g \<noteq> []" "length (bg_chosen g) \<le> 8"
    using assms(2) by (auto simp: grant_permission_def split: if_splits)
  have pairs: "list_all2 (\<lambda>c b. permission_scope port g c = Some b) (bg_chosen g) rows" by (rule all_some_map [OF rows(1)])
  then have "map bs_tab rows = map fst (bg_chosen g)" using scope_of_ok [OF _ assms(1)] by (induction rule: list_all2_induct) auto
  moreover have "list_all (scope_ok port g) rows" using pairs scope_of_ok [OF _ assms(1)] by (induction rule: list_all2_induct) auto
  moreover have "length rows = length (bg_chosen g)" using pairs by (simp add: list_all2_lengthD)
  moreover obtain now where "bg_expires g = num_plus (of_int now) (num_times (gp_number port (bg_hours g)) 3600)"
    using assms(1) by (auto simp: grant_ok_def expiry_def)
  ultimately show ?thesis using assms(1) valid rows by (auto simp: permission_ok_def grant_ok_def valid_hours_def valid_seconds_def Let_def)
qed

section \<open>A run\<close>

definition plain_grant_port :: grant_port where
  "plain_grant_port = \<lparr>gp_url = (\<lambda>u. if starts_with ''https://a.b'' u then Some (''https:'', ''https://a.b'') else None),
     gp_number = (\<lambda>t. if t = ''24'' then Fin 24 else if t = ''600'' then Fin 600 else if t = ''7'' then Fin 7 else NaN)\<rparr>"

definition shop_tab :: grant_tab where
  "shop_tab = \<lparr>gt_id = ''t'', gt_title = ''Shop'', gt_url = ''https://a.b/x'', gt_profile = None, gt_lease = None\<rparr>"

definition tabs_listed :: grant_form where
  "tabs_listed = tabs_answered plain_grant_port 0 (Inr [shop_tab]) (grant_clicked plain_grant_port 5 (TickGrant True) (open_grant 0 (Fin 7) False))"

definition tab_granted :: grant_form where
  "tab_granted = grant_clicked plain_grant_port 6 (TickTab shop_tab True) tabs_listed"

lemma tab_granted_reached: "reached (grant_opened plain_grant_port) (grant_moves plain_grant_port) tab_granted"
proof -
  let ?m = "grant_moves plain_grant_port" and ?o = "grant_opened plain_grant_port" and ?g = "open_grant 0 (Fin 7) False"
  let ?on = "grant_clicked plain_grant_port 5 (TickGrant True) ?g"
  have 0: "reached ?o ?m ?g" by (rule reached_opened) (auto simp: grant_opened_def plain_grant_port_def)
  have "TickGrant True \<in> set (offers (grant_view (\<lambda>_. []) plain_grant_port [] ?g))" by code_simp
  then have 1: "reached ?o ?m ?on" by (intro reached_moved [OF 0] bm_clicked)
  have "0 < length (bg_reads ?on)" "\<not> tq_done (bg_reads ?on ! 0)" by code_simp+
  then have 2: "reached ?o ?m tabs_listed" unfolding tabs_listed_def by (intro reached_moved [OF 1] bm_answered)
  have "TickTab shop_tab True \<in> set (offers (grant_view (\<lambda>_. []) plain_grant_port [] tabs_listed))" by code_simp
  then show ?thesis unfolding tab_granted_def by (intro reached_moved [OF 2] bm_clicked)
qed

lemma shop_granted:
  "grant_permission plain_grant_port tab_granted
     = Some \<lparr>bw_tabs = [\<lparr>bs_tab = ''t'', bs_origins = [''https://a.b''], bs_actions = [''observe'']\<rparr>], bw_expires = Fin 86405, bw_seconds = Fin 600\<rparr>"
  by code_simp

end
