(* ===== verification/ChangeReview.thy ===== *)
theory ChangeReview
  imports SessionFence
begin

text \<open>
  Reviewing the changes of a conversation: \<open>lib/change-diff.ts\<close> (a unified patch as rows, and as
  rows side by side), \<open>lib/workspace-files.ts\<close> (a shown path as a path inside the checkout) and
  \<open>lib/session-changes.ts\<close> (the polled list of changed files as a state machine). The URL parser
  and \<open>decodeURIComponent\<close> are parameters.
\<close>

section \<open>Unified patches\<close>

datatype line_kind = ContextLine | AdditionLine | DeletionLine | HunkLine | MetaLine

record review_line =
  rl_kind :: line_kind
  rl_text :: string
  rl_old :: "nat option"
  rl_new :: "nat option"

fun digits_value :: "nat \<Rightarrow> string \<Rightarrow> nat" where
  "digits_value n [] = n"
| "digits_value n (c # cs) = digits_value (10 * n + (of_char c - 48)) cs"

text \<open>\<open>(\d+)(?:,\d+)?\<close>: the number, and what follows it.\<close>

definition read_digits :: "string \<Rightarrow> (nat \<times> string) option" where
  "read_digits s =
     (let ds = takeWhile is_digit s in if ds = [] then None else Some (digits_value 0 ds, dropWhile is_digit s))"

definition read_range :: "string \<Rightarrow> (nat \<times> string) option" where
  "read_range s =
     (case read_digits s of
        None \<Rightarrow> None
      | Some (n, rest) \<Rightarrow>
          (case rest of
             c # s2 \<Rightarrow> if c = CHR '','' then (case read_digits s2 of None \<Rightarrow> Some (n, rest) | Some (_, after) \<Rightarrow> Some (n, after)) else Some (n, rest)
           | [] \<Rightarrow> Some (n, rest)))"

definition expect :: "string \<Rightarrow> string \<Rightarrow> string option" where
  "expect p s = (if starts_with p s then Some (drop (length p) s) else None)"

definition read_hunk :: "string \<Rightarrow> (nat \<times> nat) option" where
  "read_hunk raw =
     (case expect ''@@ -'' raw of None \<Rightarrow> None
      | Some s1 \<Rightarrow> (case read_range s1 of None \<Rightarrow> None
      | Some (before, s2) \<Rightarrow> (case expect '' +'' s2 of None \<Rightarrow> None
      | Some s3 \<Rightarrow> (case read_range s3 of None \<Rightarrow> None
      | Some (after, s4) \<Rightarrow> if starts_with '' @@'' s4 then Some (before, after) else None))))"

fun drop_cr :: "string \<Rightarrow> string" where
  "drop_cr [] = []"
| "drop_cr [c] = [c]"
| "drop_cr (c # d # s) = (if c = CHR 0x0D \<and> d = CHR 0x0A then d # drop_cr s else c # drop_cr (d # s))"

record diff_state =
  df_rows :: "review_line list"
  df_before :: nat
  df_after :: nat
  df_hunk :: bool

definition file_header :: "string \<Rightarrow> bool" where
  "file_header raw \<longleftrightarrow> list_ex (\<lambda>p. starts_with p raw) [''diff --git '', ''index '', ''--- '', ''+++ '']"

definition add_row :: "line_kind \<Rightarrow> string \<Rightarrow> nat option \<Rightarrow> nat option \<Rightarrow> diff_state \<Rightarrow> diff_state" where
  "add_row k t old new s = s\<lparr>df_rows := df_rows s @ [\<lparr>rl_kind = k, rl_text = t, rl_old = old, rl_new = new\<rparr>]\<rparr>"

definition diff_line :: "diff_state \<Rightarrow> string \<Rightarrow> diff_state" where
  "diff_line s raw =
     (case read_hunk raw of
        Some (b, a) \<Rightarrow> add_row HunkLine raw None None (s\<lparr>df_before := b, df_after := a, df_hunk := True\<rparr>)
      | None \<Rightarrow>
          if df_hunk s \<and> starts_with ''+'' raw
          then add_row AdditionLine (tl raw) None (Some (df_after s)) (s\<lparr>df_after := Suc (df_after s)\<rparr>)
          else if df_hunk s \<and> starts_with ''-'' raw
          then add_row DeletionLine (tl raw) (Some (df_before s)) None (s\<lparr>df_before := Suc (df_before s)\<rparr>)
          else if df_hunk s \<and> starts_with '' '' raw
          then add_row ContextLine (tl raw) (Some (df_before s)) (Some (df_after s)) (s\<lparr>df_before := Suc (df_before s), df_after := Suc (df_after s)\<rparr>)
          else if raw \<noteq> [] \<and> \<not> file_header raw
          then add_row MetaLine raw None None (if starts_with [CHR 0x5C] raw then s else s\<lparr>df_hunk := False\<rparr>)
          else if starts_with ''diff --git '' raw then s\<lparr>df_hunk := False\<rparr>
          else s)"

definition diff_start :: diff_state where
  "diff_start = \<lparr>df_rows = [], df_before = 0, df_after = 0, df_hunk = False\<rparr>"

definition parse_review_diff :: "string \<Rightarrow> review_line list" where
  "parse_review_diff patch = df_rows (foldl diff_line diff_start (split_on (CHR 0x0A) (drop_cr patch)))"

section \<open>Side by side\<close>

record split_row =
  sr_kind :: line_kind
  sr_before :: "review_line option"
  sr_after :: "review_line option"
  sr_text :: "string option"

definition line_row :: "review_line option \<Rightarrow> review_line option \<Rightarrow> split_row" where
  "line_row b a = \<lparr>sr_kind = ContextLine, sr_before = b, sr_after = a, sr_text = None\<rparr>"

fun pair_lines :: "review_line list \<Rightarrow> review_line list \<Rightarrow> split_row list" where
  "pair_lines [] [] = []"
| "pair_lines (r # rs) [] = line_row (Some r) None # pair_lines rs []"
| "pair_lines [] (a # as) = line_row None (Some a) # pair_lines [] as"
| "pair_lines (r # rs) (a # as) = line_row (Some r) (Some a) # pair_lines rs as"

text \<open>The row kind \<open>line\<close> is \<open>ContextLine\<close> here; a hunk or meta row carries its text.\<close>

fun split_loop :: "review_line list \<Rightarrow> review_line list \<Rightarrow> review_line list \<Rightarrow> split_row list" where
  "split_loop removed added [] = pair_lines removed added"
| "split_loop removed added (l # ls) =
     (case rl_kind l of
        DeletionLine \<Rightarrow> split_loop (removed @ [l]) added ls
      | AdditionLine \<Rightarrow> split_loop removed (added @ [l]) ls
      | ContextLine \<Rightarrow> pair_lines removed added @ line_row (Some l) (Some l) # split_loop [] [] ls
      | k \<Rightarrow> pair_lines removed added @ \<lparr>sr_kind = k, sr_before = None, sr_after = None, sr_text = Some (rl_text l)\<rparr> # split_loop [] [] ls)"

definition split_review_diff :: "review_line list \<Rightarrow> split_row list" where
  "split_review_diff ls = split_loop [] [] ls"

definition old_side :: "review_line list \<Rightarrow> review_line list" where
  "old_side = filter (\<lambda>l. rl_kind l = DeletionLine \<or> rl_kind l = ContextLine)"

definition new_side :: "review_line list \<Rightarrow> review_line list" where
  "new_side = filter (\<lambda>l. rl_kind l = AdditionLine \<or> rl_kind l = ContextLine)"

lemma pair_lines_before: "List.map_filter sr_before (pair_lines rs as) = rs"
  and pair_lines_after: "List.map_filter sr_after (pair_lines rs as) = as"
  by (induction rs as rule: pair_lines.induct) (simp_all add: line_row_def map_filter_simps)

lemma map_filter_append: "List.map_filter f (xs @ ys) = List.map_filter f xs @ List.map_filter f ys"
  by (induction xs) (simp_all add: map_filter_simps split: option.split)

lemma split_loop_sides:
  "List.map_filter sr_before (split_loop removed added ls) = removed @ old_side ls"
  "List.map_filter sr_after (split_loop removed added ls) = added @ new_side ls"
  by (induction removed added ls rule: split_loop.induct)
    (auto simp: old_side_def new_side_def pair_lines_before pair_lines_after map_filter_append map_filter_simps line_row_def split: line_kind.split)

text \<open>C39. The side-by-side view loses nothing and reorders nothing: read down, its left column is the
  old text of the patch and its right column the new text.\<close>

theorem split_keeps_lines:
  "List.map_filter sr_before (split_review_diff ls) = old_side ls \<and> List.map_filter sr_after (split_review_diff ls) = new_side ls"
  by (simp add: split_review_diff_def split_loop_sides)

section \<open>Line numbers\<close>

definition body_line :: "string \<Rightarrow> bool" where
  "body_line raw \<longleftrightarrow> raw \<noteq> [] \<and> hd raw \<in> {CHR ''+'', CHR ''-'', CHR '' ''}"

definition on_old :: "review_line \<Rightarrow> bool" where
  "on_old l \<longleftrightarrow> rl_kind l = DeletionLine \<or> rl_kind l = ContextLine"

definition on_new :: "review_line \<Rightarrow> bool" where
  "on_new l \<longleftrightarrow> rl_kind l = AdditionLine \<or> rl_kind l = ContextLine"

text \<open>Rows numbered from a line of the old and one of the new text.\<close>

fun numbered :: "nat \<Rightarrow> nat \<Rightarrow> review_line list \<Rightarrow> bool" where
  "numbered b a [] = True"
| "numbered b a (l # ls) =
     (rl_old l = (if on_old l then Some b else None) \<and> rl_new l = (if on_new l then Some a else None) \<and>
      numbered (if on_old l then Suc b else b) (if on_new l then Suc a else a) ls)"

lemma body_not_hunk: "body_line raw \<Longrightarrow> read_hunk raw = None"
  by (cases raw) (auto simp: body_line_def read_hunk_def expect_def)

lemma diff_body_line:
  assumes "body_line raw" "df_hunk s"
  shows "\<exists>l. df_rows (diff_line s raw) = df_rows s @ [l] \<and> df_hunk (diff_line s raw) \<and> numbered (df_before s) (df_after s) [l]
    \<and> rl_text l = tl raw \<and> rl_kind l \<in> {AdditionLine, DeletionLine, ContextLine}
    \<and> df_before (diff_line s raw) = (if on_old l then Suc (df_before s) else df_before s)
    \<and> df_after (diff_line s raw) = (if on_new l then Suc (df_after s) else df_after s)"
  using assms body_not_hunk [OF assms(1)]
  by (cases raw) (auto simp: body_line_def diff_line_def add_row_def on_old_def on_new_def)

lemma diff_body:
  "df_hunk s \<Longrightarrow> \<forall>raw \<in> set raws. body_line raw \<Longrightarrow>
    \<exists>ls. df_rows (foldl diff_line s raws) = df_rows s @ ls \<and> numbered (df_before s) (df_after s) ls \<and> map rl_text ls = map tl raws"
proof (induction raws arbitrary: s)
  case (Cons raw raws)
  obtain l where l: "df_rows (diff_line s raw) = df_rows s @ [l]" "df_hunk (diff_line s raw)" "numbered (df_before s) (df_after s) [l]"
    "rl_text l = tl raw" "df_before (diff_line s raw) = (if on_old l then Suc (df_before s) else df_before s)"
    "df_after (diff_line s raw) = (if on_new l then Suc (df_after s) else df_after s)"
    using diff_body_line [of raw s] Cons.prems by auto
  obtain ls where "df_rows (foldl diff_line (diff_line s raw) raws) = df_rows (diff_line s raw) @ ls"
    "numbered (df_before (diff_line s raw)) (df_after (diff_line s raw)) ls" "map rl_text ls = map tl raws"
    using Cons.IH [OF l(2)] Cons.prems(2) by auto
  with l show ?case by (intro exI [of _ "l # ls"]) simp
qed simp

text \<open>In a hunk that says it starts at old line \<open>b\<close> and new line \<open>a\<close>, every row carries the number
  of its line in the text it belongs to, counted from there, and no number in the other text.\<close>

theorem hunk_lines_numbered:
  assumes "read_hunk header = Some (b, a)" "\<forall>raw \<in> set raws. body_line raw"
  shows "\<exists>ls. df_rows (foldl diff_line s (header # raws)) = df_rows s @ \<lparr>rl_kind = HunkLine, rl_text = header, rl_old = None, rl_new = None\<rparr> # ls
    \<and> numbered b a ls \<and> map rl_text ls = map tl raws"
proof -
  let ?s = "diff_line s header"
  have h: "df_hunk ?s" "df_before ?s = b" "df_after ?s = a"
    "df_rows ?s = df_rows s @ [\<lparr>rl_kind = HunkLine, rl_text = header, rl_old = None, rl_new = None\<rparr>]"
    using assms(1) by (simp_all add: diff_line_def add_row_def)
  show ?thesis using diff_body [OF h(1) assms(2)] h by auto
qed

theorem hunk_lines_numbered_witness:
  "map (\<lambda>l. (rl_old l, rl_new l)) (parse_review_diff ''@@ -4 +7 @@'') = [(None, None)]
   \<and> (\<exists>ls. df_rows (foldl diff_line diff_start [''@@ -4,2 +7,2 @@'', '' x'', ''-y'', ''+z'']) = \<lparr>rl_kind = HunkLine, rl_text = ''@@ -4,2 +7,2 @@'', rl_old = None, rl_new = None\<rparr> # ls
        \<and> numbered 4 7 ls)"
proof -
  have "read_hunk ''@@ -4,2 +7,2 @@'' = Some (4, 7)" "\<forall>raw \<in> set ['' x'', ''-y'', ''+z'']. body_line raw"
    by code_simp+
  from hunk_lines_numbered [OF this, of diff_start] have
    "\<exists>ls. df_rows (foldl diff_line diff_start [''@@ -4,2 +7,2 @@'', '' x'', ''-y'', ''+z'']) =
       \<lparr>rl_kind = HunkLine, rl_text = ''@@ -4,2 +7,2 @@'', rl_old = None, rl_new = None\<rparr> # ls \<and> numbered 4 7 ls"
    by (auto simp: diff_start_def simp del: foldl.simps)
  moreover have "map (\<lambda>l. (rl_old l, rl_new l)) (parse_review_diff ''@@ -4 +7 @@'') = [(None, None)]" by code_simp
  ultimately show ?thesis by blast
qed

section \<open>Paths inside the checkout\<close>

definition slashes :: "string \<Rightarrow> string" where
  "slashes s = replace_char (CHR 0x5C) (CHR ''/'') s"

definition drop_slash :: "string \<Rightarrow> string" where
  "drop_slash s = (if s \<noteq> [] \<and> last s = CHR ''/'' then butlast s else s)"

text \<open>\<open>/^[A-Za-z]:\//\<close> and \<open>/^[a-z]+:\/\//i\<close>.\<close>

fun drive_path :: "string \<Rightarrow> bool" where
  "drive_path (c # d # e # _) = (is_alpha c \<and> d = CHR '':'' \<and> e = CHR ''/'')"
| "drive_path _ = False"

definition has_scheme :: "string \<Rightarrow> bool" where
  "has_scheme s \<longleftrightarrow> takeWhile is_alpha s \<noteq> [] \<and> starts_with ''://'' (dropWhile is_alpha s)"

text \<open>The path of a \<open>file:\<close> URL: refused for another machine.\<close>

definition file_url_path :: "(string \<Rightarrow> (string \<times> string) option) \<Rightarrow> (string \<Rightarrow> string option) \<Rightarrow> string \<Rightarrow> string option" where
  "file_url_path url decode path =
     (case url path of
        None \<Rightarrow> None
      | Some (host, pathname) \<Rightarrow>
          if host \<noteq> [] \<and> host \<noteq> ''localhost'' then None
          else (case decode pathname of
                  None \<Rightarrow> None
                | Some p \<Rightarrow> Some (if starts_with ''/'' p \<and> drive_path (tl p) then tl p else p)))"

fun resolve_parts :: "string list \<Rightarrow> string list \<Rightarrow> string list option" where
  "resolve_parts parts [] = Some parts"
| "resolve_parts parts (p # ps) =
     (if p = [] \<or> p = ''.'' then resolve_parts parts ps
      else if p = ''..'' then (if parts = [] then None else resolve_parts (butlast parts) ps)
      else resolve_parts (parts @ [p]) ps)"

definition workspace_file_path ::
  "(string \<Rightarrow> (string \<times> string) option) \<Rightarrow> (string \<Rightarrow> string option) \<Rightarrow> string \<Rightarrow> string \<Rightarrow> string option" where
  "workspace_file_path url decode value folder =
     (if folder = [] \<or> value = [] \<or> CHR 0x00 \<in> set value then None
      else
        (let path = slashes (trim value); base = drop_slash (slashes folder) in
         case (if starts_with ''file://'' path then file_url_path url decode path else Some path) of
           None \<Rightarrow> None
         | Some p \<Rightarrow>
             if has_scheme p then None
             else
               (case (if starts_with ''/'' p \<or> drive_path p
                      then (if starts_with (base @ ''/'') p then Some (drop (length base + 1) p) else None) else Some p) of
                  None \<Rightarrow> None
                | Some rel \<Rightarrow>
                    (case resolve_parts [] (split_on (CHR ''/'') rel) of
                       None \<Rightarrow> None
                     | Some parts \<Rightarrow> if parts = [] then None else Some (join_with ''/'' parts)))))"

definition plain_part :: "string \<Rightarrow> bool" where
  "plain_part p \<longleftrightarrow> p \<noteq> [] \<and> p \<noteq> ''.'' \<and> p \<noteq> ''..'' \<and> CHR ''/'' \<notin> set p"

lemma resolve_parts_plain:
  "\<forall>p \<in> set parts. plain_part p \<Longrightarrow> \<forall>p \<in> set ps. CHR ''/'' \<notin> set p \<Longrightarrow> resolve_parts parts ps = Some qs
    \<Longrightarrow> \<forall>p \<in> set qs. plain_part p"
proof (induction parts ps arbitrary: qs rule: resolve_parts.induct)
  case (2 parts p ps)
  have rest: "\<forall>q \<in> set ps. CHR ''/'' \<notin> set q" using "2.prems"(2) by simp
  consider (skip) "p = [] \<or> p = ''.''" | (up) "\<not> (p = [] \<or> p = ''.'')" "p = ''..''" | (down) "\<not> (p = [] \<or> p = ''.'')" "p \<noteq> ''..''"
    by blast
  then show ?case
  proof cases
    case skip
    then have "resolve_parts parts ps = Some qs" using "2.prems"(3) by (simp only: resolve_parts.simps if_True)
    then show ?thesis using "2.IH"(1) [OF skip "2.prems"(1) rest] by blast
  next
    case up
    then have ne: "parts \<noteq> []" and r: "resolve_parts (butlast parts) ps = Some qs"
      using "2.prems"(3) by (auto simp only: resolve_parts.simps if_True if_False split: if_splits)
    have "\<forall>q \<in> set (butlast parts). plain_part q" using "2.prems"(1) by (auto dest: in_set_butlastD)
    then show ?thesis using "2.IH"(2) [OF up ne _ rest r] by blast
  next
    case down
    then have r: "resolve_parts (parts @ [p]) ps = Some qs" using "2.prems"(3) by (simp only: resolve_parts.simps if_False)
    have "\<forall>q \<in> set (parts @ [p]). plain_part q" using "2.prems"(1,2) down by (simp add: plain_part_def)
    then show ?thesis using "2.IH"(3) [OF down _ rest r] by blast
  qed
qed simp

text \<open>A path shown in a conversation becomes a path inside the checkout or nothing: the result is a
  sequence of plain names, none of them \<open>..\<close>, so it never leaves the root, whatever the URL parser
  and the decoder answer.\<close>

theorem workspace_path_inside:
  assumes "workspace_file_path url decode value folder = Some p"
  shows "split_on (CHR ''/'') p \<noteq> [] \<and> list_all plain_part (split_on (CHR ''/'') p)"
proof -
  from assms obtain rel parts where r: "resolve_parts [] (split_on (CHR ''/'') rel) = Some parts" "parts \<noteq> []" "p = join_with ''/'' parts"
    by (auto simp: workspace_file_path_def Let_def split: if_splits option.splits)
  have "\<forall>q \<in> set parts. plain_part q"
    by (rule resolve_parts_plain [OF _ _ r(1)]) (auto dest: split_on_no_sep)
  then show ?thesis
    using r(2,3) split_on_join_with [of parts "CHR ''/''"] by (simp add: plain_part_def list_all_iff)
qed

theorem workspace_path_inside_witness:
  "list_all plain_part (split_on (CHR ''/'') ''a/c'')
   \<and> workspace_file_path (\<lambda>_. None) (\<lambda>_. None) '' /work/a/./b/../c '' ''/work/'' = Some ''a/c''
   \<and> workspace_file_path (\<lambda>_. None) (\<lambda>_. None) ''/work/../etc'' ''/work'' = None"
proof -
  have v: "workspace_file_path (\<lambda>_. None) (\<lambda>_. None) '' /work/a/./b/../c '' ''/work/'' = Some ''a/c''"
    "workspace_file_path (\<lambda>_. None) (\<lambda>_. None) ''/work/../etc'' ''/work'' = None"
    by code_simp+
  from workspace_path_inside [OF v(1)] v show ?thesis by blast
qed

end
