(* ===== verification/Characters.thy ===== *)
theory Characters
  imports ApiClient
begin

text \<open>
  \<open>lib/characters.ts\<close> and \<open>lib/companion-native.ts\<close>: the animated companions. Which clip a companion plays,
  which frame of it is shown after some time, and where it walks. Times and lengths are exact rationals;
  \<open>request\<close> and the events are those of \<open>ApiClient\<close>.
\<close>

datatype character_state = ChIdle | ChThinking | ChWorking | ChWaiting | ChSuccess | ChError | ChPaused | ChSleeping

definition state_name :: "character_state \<Rightarrow> string" where
  "state_name s = (case s of ChIdle \<Rightarrow> ''idle'' | ChThinking \<Rightarrow> ''thinking'' | ChWorking \<Rightarrow> ''working'' | ChWaiting \<Rightarrow> ''waiting''
     | ChSuccess \<Rightarrow> ''success'' | ChError \<Rightarrow> ''error'' | ChPaused \<Rightarrow> ''paused'' | ChSleeping \<Rightarrow> ''sleeping'')"

datatype atlas_ref = AtlasFile string | AtlasIndex int

record character_frame =
  cf_atlas :: atlas_ref
  cf_x :: int
  cf_y :: int
  cf_width :: int
  cf_height :: int
  cf_duration :: rat

record character_clip =
  cc_frames :: "character_frame list"
  cc_loop :: bool

record character_size =
  sz_width :: rat
  sz_height :: rat

record character_manifest =
  cm_size :: character_size
  cm_clips :: "(string \<times> character_clip) list"
  cm_states :: "(string \<times> string) list"

record pet_action =
  pa_name :: string
  pa_expires :: rat

record companion_pet =
  pet_state :: character_state
  pet_action :: "pet_action option"

definition character_states :: "character_state list" where
  "character_states = [ChIdle, ChThinking, ChWorking, ChWaiting, ChSuccess, ChError, ChPaused, ChSleeping]"

definition character_clips :: "string list" where
  "character_clips = map state_name character_states @ [''walk'', ''hop'', ''fall'', ''sit'', ''drag'', ''wave'']"

definition character_path :: "host_env \<Rightarrow> string \<Rightarrow> string" where
  "character_path env i = ''/api/characters/packs/'' @ he_encode_uri env i"

definition character_scale :: "character_size \<Rightarrow> rat \<Rightarrow> rat" where
  "character_scale logical extent = extent / max (sz_width logical) (sz_height logical)"

definition character_dimensions :: "character_size \<Rightarrow> rat \<Rightarrow> character_size" where
  "character_dimensions logical extent =
     \<lparr>sz_width = sz_width logical * character_scale logical extent, sz_height = sz_height logical * character_scale logical extent\<rparr>"

definition clip_for :: "character_manifest \<Rightarrow> string \<Rightarrow> character_clip option" where
  "clip_for m state =
     (case map_of (cm_clips m) (or_text (map_of (cm_states m) state) state) of
        Some c \<Rightarrow> Some c
      | None \<Rightarrow> (case map_of (cm_clips m) ''idle'' of
            Some c \<Rightarrow> Some c
          | None \<Rightarrow> (case cm_clips m of [] \<Rightarrow> None | (k, c) # _ \<Rightarrow> Some c)))"

definition clip_duration :: "character_clip \<Rightarrow> rat" where
  "clip_duration c = sum_list (map cf_duration (cc_frames c))"

text \<open>The remainder of a division whose quotient is rounded down. On a clip of no duration JavaScript's
  remainder is not a number, no comparison holds and the last frame is shown, as it is here.\<close>

definition remainder :: "rat \<Rightarrow> rat \<Rightarrow> rat" where
  "remainder a b = a - b * of_int \<lfloor>a / b\<rfloor>"

fun frame_after :: "rat \<Rightarrow> character_frame list \<Rightarrow> nat \<Rightarrow> nat" where
  "frame_after offset [] index = index - 1"
| "frame_after offset (f # fs) index = (if offset - cf_duration f < 0 then index else frame_after (offset - cf_duration f) fs (index + 1))"

definition clip_time :: "character_clip \<Rightarrow> rat \<Rightarrow> rat" where
  "clip_time c elapsed = (if cc_loop c then remainder (max 0 elapsed) (clip_duration c) else min (max 0 elapsed) (clip_duration c - 1))"

definition frame_at :: "character_clip option \<Rightarrow> rat \<Rightarrow> nat" where
  "frame_at clip elapsed =
     (case clip of None \<Rightarrow> 0 | Some c \<Rightarrow> if cc_frames c = [] then 0 else frame_after (clip_time c elapsed) (cc_frames c) 0)"

definition habitat_position :: "rat \<Rightarrow> rat \<Rightarrow> rat \<Rightarrow> rat \<Rightarrow> rat \<Rightarrow> rat \<Rightarrow> rat \<times> rat" where
  "habitat_position start direction elapsed width extent speed =
     (let range = max 0 (width - extent) in
      if range = 0 then (0, 1)
      else (let distance = start + direction * max 0 elapsed * speed / 1000; period = 2 * range; wrapped = remainder distance period
            in (if wrapped \<le> range then wrapped else period - wrapped, (if wrapped < range then 1 else - 1) * direction)))"

definition companion_clip :: "companion_pet \<Rightarrow> bool \<Rightarrow> rat \<Rightarrow> string" where
  "companion_clip pet walking now =
     (let otherwise = (if walking then ''walk'' else state_name (pet_state pet)) in
      if pet_state pet \<in> {ChWaiting, ChError, ChSuccess, ChPaused} then state_name (pet_state pet)
      else (case pet_action pet of
              None \<Rightarrow> otherwise
            | Some a \<Rightarrow>
                if pa_expires a > now
                then (if pa_name a = ''sleep'' then ''sleeping'' else if pa_name a \<in> {''wave'', ''sit'', ''hop''} then pa_name a else otherwise)
                else otherwise))"

definition update_companions :: "host_env \<Rightarrow> jsobj \<Rightarrow> jsval api" where
  "update_companions env changes =
     op_bind (request env ''/api/companions/preferences'' (json_init ''PATCH'' (Some (he_stringify env (JObj changes)))))
       (\<lambda>v. op_seq (dispatch_event ''termx-companions-changed'') (op_return v))"

section \<open>Frames\<close>

lemma remainder_bounds: "0 < b \<Longrightarrow> 0 \<le> remainder a b \<and> remainder a b < b"
  using floor_divide_lower [of b a] floor_divide_upper [of b a] by (simp add: remainder_def algebra_simps)

lemma remainder_period: "0 < b \<Longrightarrow> remainder (a + b) b = remainder a b"
  by (simp add: remainder_def add_divide_distrib ring_distribs)

lemma frame_after_bound: "fs \<noteq> [] \<or> 0 < index \<Longrightarrow> frame_after t fs index < index + length fs"
proof (induction fs arbitrary: t index)
  case (Cons f fs)
  show ?case using Cons.IH [of "index + 1" "t - cf_duration f"] by simp
qed simp

text \<open>Any clip of at least one frame shows one of its frames, whatever its durations and at any time.\<close>

theorem frame_in_clip:
  assumes "cc_frames c \<noteq> []"
  shows "frame_at (Some c) elapsed < length (cc_frames c)"
  using assms frame_after_bound [of "cc_frames c" 0] by (simp add: frame_at_def)

definition still_frame :: "rat \<Rightarrow> character_frame" where
  "still_frame d = \<lparr>cf_atlas = AtlasIndex 0, cf_x = 0, cf_y = 0, cf_width = 8, cf_height = 8, cf_duration = d\<rparr>"

theorem frame_in_clip_witness:
  "frame_at (Some \<lparr>cc_frames = [still_frame 0], cc_loop = True\<rparr>) 7 < length (cc_frames \<lparr>cc_frames = [still_frame 0], cc_loop = True\<rparr>)"
  by (rule frame_in_clip) simp

lemma frame_after_time:
  assumes "0 \<le> t" "t < sum_list (map cf_duration fs)"
  shows "\<exists>k < length fs. frame_after t fs index = index + k
    \<and> sum_list (map cf_duration (take k fs)) \<le> t \<and> t < sum_list (map cf_duration (take (Suc k) fs))"
  using assms
proof (induction fs arbitrary: t index)
  case (Cons f fs)
  show ?case
  proof (cases "t < cf_duration f")
    case True
    then show ?thesis using Cons.prems by (intro exI [of _ 0]) simp
  next
    case False
    then obtain k where "k < length fs" "frame_after (t - cf_duration f) fs (index + 1) = index + 1 + k"
        "sum_list (map cf_duration (take k fs)) \<le> t - cf_duration f" "t - cf_duration f < sum_list (map cf_duration (take (Suc k) fs))"
      using Cons.IH [of "t - cf_duration f" "index + 1"] Cons.prems by auto
    then show ?thesis using False by (intro exI [of _ "Suc k"]) simp
  qed
qed simp

text \<open>A looping clip shows the frame whose time it is, and repeats.\<close>

theorem loop_shows_frame:
  assumes "cc_loop c" "0 < clip_duration c" "0 \<le> elapsed"
  shows "frame_at (Some c) (elapsed + clip_duration c) = frame_at (Some c) elapsed
    \<and> sum_list (map cf_duration (take (frame_at (Some c) elapsed) (cc_frames c))) \<le> remainder elapsed (clip_duration c)
    \<and> remainder elapsed (clip_duration c) < sum_list (map cf_duration (take (Suc (frame_at (Some c) elapsed)) (cc_frames c)))"
proof -
  let ?t = "remainder elapsed (clip_duration c)"
  have ne: "cc_frames c \<noteq> []" using assms(2) by (auto simp: clip_duration_def)
  have f: "frame_at (Some c) elapsed = frame_after ?t (cc_frames c) 0"
    "frame_at (Some c) (elapsed + clip_duration c) = frame_after ?t (cc_frames c) 0"
    using assms ne by (simp_all add: frame_at_def clip_time_def remainder_period)
  have "0 \<le> ?t" "?t < sum_list (map cf_duration (cc_frames c))" using remainder_bounds [OF assms(2)] by (simp_all add: clip_duration_def)
  from frame_after_time [OF this, of 0] show ?thesis unfolding f by auto
qed

theorem loop_shows_frame_witness:
  "frame_at (Some \<lparr>cc_frames = [still_frame 100, still_frame 50], cc_loop = True\<rparr>) (270 + 150) = 1"
proof -
  let ?c = "\<lparr>cc_frames = [still_frame 100, still_frame 50], cc_loop = True\<rparr>"
  have d: "clip_duration ?c = 150" by (simp add: clip_duration_def still_frame_def)
  have "frame_at (Some ?c) (270 + clip_duration ?c) = frame_at (Some ?c) 270" using loop_shows_frame [of ?c 270] d by simp
  moreover have "frame_at (Some ?c) 270 = 1"
  proof -
    have "clip_time ?c 270 = 120" unfolding clip_time_def d by (simp add: remainder_def floor_eq_iff)
    then show ?thesis by (simp add: frame_at_def still_frame_def)
  qed
  ultimately show ?thesis unfolding d by simp
qed

section \<open>Places and sizes\<close>

text \<open>A walking companion stays inside its strip, whatever the speed and the time.\<close>

theorem habitat_inside:
  "0 \<le> fst (habitat_position start direction elapsed width extent speed)
    \<and> fst (habitat_position start direction elapsed width extent speed) \<le> max 0 (width - extent)"
proof (cases "max 0 (width - extent) = 0")
  case False
  then have "0 < 2 * max 0 (width - extent)" by simp
  from remainder_bounds [OF this, of "start + direction * max 0 elapsed * speed / 1000"] show ?thesis
    using False by (simp add: habitat_position_def Let_def del: max_def)
qed (simp add: habitat_position_def)

text \<open>The picture keeps its proportions and its longer side is the size asked for.\<close>

lemma dimensions_fit:
  "0 < sz_width l \<Longrightarrow> 0 < sz_height l \<Longrightarrow> max (sz_width (character_dimensions l n)) (sz_height (character_dimensions l n)) = n
    \<or> n < 0"
proof -
  assume p: "0 < sz_width l" "0 < sz_height l"
  have "max (sz_width l * k) (sz_height l * k) = max (sz_width l) (sz_height l) * k" if "0 \<le> k" for k
    using that by (cases "k = 0") (auto simp: max_def)
  moreover have "0 \<le> character_scale l n" if "\<not> n < 0" using p that by (simp add: character_scale_def)
  moreover have "max (sz_width l) (sz_height l) * character_scale l n = n" using p by (simp add: character_scale_def max_def)
  ultimately show ?thesis by (auto simp: character_dimensions_def)
qed

text \<open>What the host reports about a task always wins over what its companion was asked to do.\<close>

lemma reported_state_wins:
  "pet_state pet \<in> {ChWaiting, ChError, ChSuccess, ChPaused} \<Longrightarrow> companion_clip pet walking now = state_name (pet_state pet)"
  by (simp add: companion_clip_def)

lemma clip_is_known:
  "companion_clip pet walking now \<in> set character_clips"
  by (cases "pet_state pet"; simp add: companion_clip_def character_clips_def character_states_def state_name_def Let_def split: option.split)

end
