(* ===== verification/ChatConnections.thy ===== *)
theory ChatConnections
  imports OneAtATime View ApiTypes
begin

text \<open>
  \<open>features/ChatConnectionSetup.tsx\<close>: what keeps a conversation from being sent to, and the panel that
  connects it to an account and a model. A problem is the text the code returns for it. The panel has a
  generation, that an unmount ends, and connects once at a time.
\<close>

section \<open>What is missing\<close>

definition configured_models :: "provider option \<Rightarrow> string list" where
  "configured_models p = comma_items (case p of Some x \<Rightarrow> prov_model x | None \<Rightarrow> [])"

definition needs_sign_in :: "engine option \<Rightarrow> bool" where
  "needs_sign_in e \<longleftrightarrow> (case e of Some x \<Rightarrow> or_text (eng_auth_state x) [] \<in> {''unauthenticated'', ''expired''} | None \<Rightarrow> False)"

definition engine_of :: "session \<Rightarrow> engine list \<Rightarrow> engine option" where
  "engine_of s engines = find (\<lambda>e. eng_id e = ses_engine s) engines"

definition account_named :: "string option \<Rightarrow> provider list \<Rightarrow> provider option" where
  "account_named pid providers = find (\<lambda>p. Some (prov_id p) = pid) providers"

definition chat_connection_problem :: "session option \<Rightarrow> provider list \<Rightarrow> engine list \<Rightarrow> string option" where
  "chat_connection_problem session providers engines =
     (case session of
        None \<Rightarrow> None
      | Some s \<Rightarrow>
          if truthy_text (ses_runner_id s) then None
          else if ses_engine s \<noteq> ''internal''
          then (case engine_of s engines of
                  None \<Rightarrow> Some ''engine''
                | Some e \<Rightarrow> if eng_available e = Some False \<or> needs_sign_in (Some e) then Some ''engine'' else None)
          else (case account_named (ses_provider_id s) providers of
                  None \<Rightarrow> Some ''account''
                | Some a \<Rightarrow>
                    if \<not> prov_secret_configured a then Some ''account''
                    else (let models = configured_models (Some a) in
                          if models = [] \<or> (truthy_text (ses_model s) \<and> the (ses_model s) \<notin> set models) then Some ''model'' else None)))"

section \<open>The panel\<close>

record connect_attempt =
  ca_generation :: nat
  ca_provider :: string
  ca_model :: string
  ca_settled :: bool

record connect_panel =
  cn_session :: session
  cn_providers :: "provider list"
  cn_engines :: "engine list"
  cn_enabled :: bool
  cn_selection :: "string \<times> string"
  cn_busy :: bool
  cn_error :: string
  cn_saved :: bool
  cn_generation :: nat
  cn_ref_busy :: bool
  cn_attempts :: "connect_attempt list"

definition open_connect :: "session \<Rightarrow> provider list \<Rightarrow> engine list \<Rightarrow> bool \<Rightarrow> connect_panel" where
  "open_connect s ps es enabled = \<lparr>cn_session = s, cn_providers = ps, cn_engines = es, cn_enabled = enabled, cn_selection = ([], []), cn_busy = False,
     cn_error = [], cn_saved = False, cn_generation = 0, cn_ref_busy = False, cn_attempts = []\<rparr>"

definition connect_props :: "session \<Rightarrow> provider list \<Rightarrow> engine list \<Rightarrow> bool \<Rightarrow> connect_panel \<Rightarrow> connect_panel" where
  "connect_props s ps es enabled c = c\<lparr>cn_session := s, cn_providers := ps, cn_engines := es, cn_enabled := enabled\<rparr>"

definition unmount_connect :: "connect_panel \<Rightarrow> connect_panel" where
  "unmount_connect c = c\<lparr>cn_generation := Suc (cn_generation c), cn_ref_busy := False\<rparr>"

definition connect_problem :: "connect_panel \<Rightarrow> string option" where
  "connect_problem c = chat_connection_problem (Some (cn_session c)) (cn_providers c) (cn_engines c)"

definition connected_accounts :: "connect_panel \<Rightarrow> provider list" where
  "connected_accounts c = filter prov_secret_configured (cn_providers c)"

definition chosen_account :: "connect_panel \<Rightarrow> provider option" where
  "chosen_account c =
     (let connected = connected_accounts c in
      case account_named (Some (fst (cn_selection c))) connected of
        Some a \<Rightarrow> Some a
      | None \<Rightarrow> (case account_named (ses_provider_id (cn_session c)) connected of
                   Some a \<Rightarrow> Some a
                 | None \<Rightarrow> (case connected of [] \<Rightarrow> None | a # _ \<Rightarrow> Some a)))"

definition chosen_models :: "connect_panel \<Rightarrow> string list" where
  "chosen_models c = configured_models (chosen_account c)"

definition chosen_model :: "connect_panel \<Rightarrow> string" where
  "chosen_model c =
     (let a = chosen_account c; models = chosen_models c; s = cn_session c in
      if map_option prov_id a = Some (fst (cn_selection c)) \<and> snd (cn_selection c) \<in> set models then snd (cn_selection c)
      else if map_option prov_id a = ses_provider_id s \<and> truthy_text (ses_model s) \<and> the (ses_model s) \<in> set models then the (ses_model s)
      else (case models of [] \<Rightarrow> [] | m # _ \<Rightarrow> m))"

definition choose_connection :: "string \<Rightarrow> string option \<Rightarrow> connect_panel \<Rightarrow> connect_panel" where
  "choose_connection pid m c =
     c\<lparr>cn_selection := (pid, case m of Some x \<Rightarrow> x
         | None \<Rightarrow> (case configured_models (account_named (Some pid) (connected_accounts c)) of [] \<Rightarrow> [] | x # _ \<Rightarrow> x)),
       cn_saved := False, cn_error := []\<rparr>"

definition connect :: "connect_panel \<Rightarrow> connect_panel" where
  "connect c =
     (case chosen_account c of
        None \<Rightarrow> c
      | Some a \<Rightarrow>
          if \<not> cn_enabled c \<or> cn_ref_busy c \<or> cn_saved c \<or> chosen_model c = [] then c
          else c\<lparr>cn_ref_busy := True, cn_busy := True, cn_error := [],
                 cn_attempts := cn_attempts c @ [\<lparr>ca_generation = cn_generation c, ca_provider = prov_id a, ca_model = chosen_model c, ca_settled = False\<rparr>]\<rparr>)"

text \<open>\<open>onConnect\<close> answers whether the change was stored, or fails.\<close>

definition connect_answer :: "nat \<Rightarrow> bool js_result \<Rightarrow> connect_panel \<Rightarrow> connect_panel" where
  "connect_answer n r c =
     (if n < length (cn_attempts c) \<and> \<not> ca_settled (cn_attempts c ! n)
      then (let a = cn_attempts c ! n; c' = c\<lparr>cn_attempts := (cn_attempts c)[n := a\<lparr>ca_settled := True\<rparr>]\<rparr> in
            if ca_generation a \<noteq> cn_generation c then c'
            else (case r of
                    Inl e \<Rightarrow> c'\<lparr>cn_error := error_message e\<rparr>
                  | Inr ok \<Rightarrow> c'\<lparr>cn_saved := ok, cn_error := (if ok then cn_error c
                      else ''The connection was not saved. Your draft is still here; review the error and try again.'')\<rparr>)
                 \<lparr>cn_ref_busy := False, cn_busy := False\<rparr>)
      else c)"

datatype connect_event =
    ConnectProps session "provider list" "engine list" bool | ChooseConnection string "string option" | SubmitConnection
  | ConnectAnswer nat "bool js_result" | ConnectUnmount

fun connect_step :: "connect_event \<Rightarrow> connect_panel \<Rightarrow> connect_panel" where
  "connect_step (ConnectProps s ps es enabled) c = connect_props s ps es enabled c"
| "connect_step (ChooseConnection pid m) c = choose_connection pid m c"
| "connect_step SubmitConnection c = connect c"
| "connect_step (ConnectAnswer n r) c = connect_answer n r c"
| "connect_step ConnectUnmount c = unmount_connect c"

section \<open>What it shows\<close>

datatype connect_action = DoConnect | PickAccount string | PickModel string | RefreshChat | ManageConnections

definition connect_heading :: "string \<Rightarrow> bool \<Rightarrow> string" where
  "connect_heading problem sign_in =
     (if problem = ''engine''
      then if sign_in then ''This engine reports that sign-in is required. Sign in on this host through Models & engines, then refresh the chat.''
        else ''This engine is not available in the current catalog. Check its installation and sign-in, then refresh the chat.''
      else if problem = ''model'' then ''Choose a model configured on your account. Your conversation and draft stay here.''
      else ''Choose a connected account and model. Your conversation and draft stay here.'')"

definition connect_form :: "connect_panel \<Rightarrow> connect_action view" where
  "connect_form c =
     (let locked = \<not> cn_enabled c \<or> cn_busy c in box ''form''
       [picker locked (\<lambda>p. PickAccount (prov_id p)) prov_name (connected_accounts c),
        (if chosen_models c = [] then labelled ''select'' ''No model configured'' else picker locked PickModel (\<lambda>m. m) (chosen_models c)),
        button (locked \<or> cn_saved c \<or> chosen_model c = []) DoConnect
          (if cn_busy c then ''Saving connection...'' else if cn_saved c then ''Connection saved'' else ''Use for this chat'')])"

definition connect_view :: "bool \<Rightarrow> bool \<Rightarrow> connect_panel \<Rightarrow> connect_action view" where
  "connect_view can_refresh can_configure c =
     (case connect_problem c of
        None \<Rightarrow> VNone
      | Some problem \<Rightarrow>
          (let e = engine_of (cn_session c) (cn_engines c); locked = \<not> cn_enabled c \<or> cn_busy c; broken = problem = ''engine'' in box ''section''
            [labelled ''h3'' (if broken then ''Reconnect this engine'' else ''Connect this chat''),
             labelled ''p'' (connect_heading problem (needs_sign_in e)),
             show_if (broken \<and> truthy_text (Option.bind e eng_auth_detail)) (labelled ''p'' (or_text (Option.bind e eng_auth_detail) [])),
             show_if (broken \<and> truthy_text (Option.bind e eng_error)) (labelled ''p'' (''Last engine check: '' @ or_text (Option.bind e eng_error) [])),
             show_if (\<not> broken \<and> connected_accounts c \<noteq> []) (connect_form c),
             show_if (\<not> broken \<and> connected_accounts c = []) (labelled ''p''
               ''Add a model account in Models & engines, then return here to connect it. Saving an account does not send a model request.''),
             show_if (\<not> broken \<and> chosen_account c \<noteq> None \<and> chosen_models c = []) (labelled ''p''
               (''Add a default model to '' @ (case chosen_account c of Some a \<Rightarrow> prov_name a | None \<Rightarrow> []) @ '' in Models & engines, or choose another account.'')),
             show_if (cn_saved c) (box ''div''
               [labelled ''p'' ''Connection saved. Refreshing this chat...'', show_if can_refresh (button locked RefreshChat ''Refresh chat'')]),
             show_if (cn_error c \<noteq> []) (labelled ''p'' (cn_error c)),
             show_if can_configure (button locked ManageConnections (if connected_accounts c \<noteq> [] then ''Manage connections'' else ''Set up connection''))]))"

section \<open>One connection at a time, and one that helps\<close>

definition connect_opened :: "connect_panel \<Rightarrow> bool" where
  "connect_opened c \<longleftrightarrow> cn_attempts c = [] \<and> \<not> cn_busy c \<and> \<not> cn_ref_busy c"

definition connect_moves :: "connect_panel \<Rightarrow> connect_panel \<Rightarrow> bool" where
  "connect_moves c c' \<longleftrightarrow> (\<exists>e. c' = connect_step e c)"

definition connect_ledger :: "connect_panel \<Rightarrow> op_ledger" where
  "connect_ledger c = (cn_generation c, map (\<lambda>a. (ca_generation a, ca_settled a)) (cn_attempts c), cn_ref_busy c)"

lemma connect_answer_change: "op_change (connect_ledger c) (connect_ledger (connect_answer n r c))"
proof (cases "n < length (cn_attempts c) \<and> \<not> ca_settled (cn_attempts c ! n)")
  case True
  let ?os = "map (\<lambda>a. (ca_generation a, ca_settled a)) (cn_attempts c)"
  have "connect_ledger (connect_answer n r c) =
      (cn_generation c, ?os[n := (ca_generation (cn_attempts c ! n), True)], ca_generation (cn_attempts c ! n) \<noteq> cn_generation c \<and> cn_ref_busy c)"
    using True by (simp add: connect_answer_def connect_ledger_def Let_def map_update split: sum.split)
  then show ?thesis using True op_settled [of n ?os "ca_generation (cn_attempts c ! n)" "cn_generation c" "cn_ref_busy c"] by (simp add: connect_ledger_def)
qed (auto simp: connect_answer_def op_idle)

lemma connect_step_change: "op_change (connect_ledger c) (connect_ledger (connect_step e c))"
proof (cases e)
  case SubmitConnection
  then show ?thesis
    using op_begun [of "cn_generation c"] op_idle by (simp add: connect_def connect_ledger_def split: option.split)
next
  case ConnectUnmount
  then show ?thesis using op_renewed [of "cn_generation c" "Suc (cn_generation c)"] by (simp add: unmount_connect_def connect_ledger_def)
next
  case (ConnectProps s ps es enabled)
  then show ?thesis by (simp add: connect_props_def connect_ledger_def op_idle)
next
  case (ChooseConnection pid m)
  then show ?thesis by (simp add: choose_connection_def connect_ledger_def op_idle)
qed (simp add: connect_answer_change)

definition flags_agree :: "connect_panel \<Rightarrow> bool" where
  "flags_agree c \<longleftrightarrow> (cn_ref_busy c \<longrightarrow> cn_busy c)"

lemma flags_agree_step: "flags_agree c \<Longrightarrow> flags_agree (connect_step e c)"
  by (cases e) (auto simp: flags_agree_def connect_props_def choose_connection_def connect_def connect_answer_def unmount_connect_def Let_def
      split: option.split sum.split)

interpretation connecting: one_at_a_time connect_opened connect_moves flags_agree connect_ledger
  by unfold_locales (auto simp: connect_opened_def connect_moves_def connect_step_change flags_agree_step, simp_all add: connect_ledger_def flags_agree_def)

abbreviation connect_reachable :: "connect_panel \<Rightarrow> bool" where
  "connect_reachable \<equiv> reached connect_opened connect_moves"

lemma connect_step_moves: "connect_moves c (connect_step e c)"
  by (auto simp: connect_moves_def)

lemma configured_nonempty: "m \<in> set (configured_models p) \<Longrightarrow> m \<noteq> []"
  by (simp add: configured_models_def comma_items_clean(2))

lemma account_named_prov: "account_named pid ps = Some a \<Longrightarrow> a \<in> set ps"
  by (auto simp: account_named_def find_Some_iff)

lemma chosen_account_connected: "chosen_account c = Some a \<Longrightarrow> a \<in> set (cn_providers c) \<and> prov_secret_configured a"
proof -
  assume "chosen_account c = Some a"
  then have "a \<in> set (connected_accounts c)" by (auto simp: chosen_account_def Let_def dest: account_named_prov split: option.splits list.splits)
  then show ?thesis by (simp add: connected_accounts_def)
qed

lemma chosen_model_configured: "chosen_model c \<noteq> [] \<Longrightarrow> chosen_model c \<in> set (chosen_models c)"
  by (auto simp: chosen_model_def Let_def split: if_splits list.splits)

lemma account_named_distinct: "distinct (map prov_id ps) \<Longrightarrow> a \<in> set ps \<Longrightarrow> account_named (Some (prov_id a)) ps = Some a"
  by (induction ps) (auto simp: account_named_def)

text \<open>Clicking what the panel offers sends one change, while no other is under way, and with that account and model the conversation can be sent to.\<close>

definition open_attempts :: "connect_panel \<Rightarrow> connect_attempt list" where
  "open_attempts c = filter (\<lambda>a. ca_generation a = cn_generation c \<and> \<not> ca_settled a) (cn_attempts c)"

lemma connect_idle:
  assumes "connect_reachable c" "\<not> cn_ref_busy c" shows "open_attempts c = []"
proof -
  have "(ca_generation a, ca_settled a) \<noteq> (cn_generation c, False)" if "a \<in> set (cn_attempts c)" for a
    by (rule connecting.none_open [OF assms(1) _ that]) (simp add: connect_ledger_def assms(2))
  then show ?thesis by (simp add: open_attempts_def filter_empty_conv)
qed

lemma connect_offered:
  "DoConnect \<in> set (offers (connect_view r g c)) \<Longrightarrow> cn_enabled c \<and> \<not> cn_busy c \<and> \<not> cn_saved c \<and> chosen_model c \<noteq> []
    \<and> connect_problem c \<noteq> None \<and> connect_problem c \<noteq> Some ''engine''"
  by (auto simp: connect_view_def connect_form_def Let_def in_offers simp del: offer_rules split: option.splits if_splits)

text \<open>C36. Clicking the offered button sends exactly one change, while no other is under way, and once the host has stored that account and model nothing
  keeps the conversation from being sent to.\<close>

theorem offered_connection_helps:
  assumes "connect_reachable c" "DoConnect \<in> set (offers (connect_view r g c))" "distinct (map prov_id (cn_providers c))"
  shows "open_attempts c = [] \<and> (\<exists>a. cn_attempts (connect c) = cn_attempts c @ [a] \<and> open_attempts (connect c) = [a]
    \<and> chat_connection_problem (Some (cn_session c\<lparr>ses_provider_id := Some (ca_provider a), ses_model := Some (ca_model a)\<rparr>)) (cn_providers c) (cn_engines c) = None)"
proof -
  have offered: "cn_enabled c" "\<not> cn_busy c" "\<not> cn_saved c" "chosen_model c \<noteq> []" "connect_problem c \<noteq> None" "connect_problem c \<noteq> Some ''engine''"
    using connect_offered [OF assms(2)] by simp_all
  then have idle: "\<not> cn_ref_busy c" using connecting.reached_holds [OF assms(1)] by (simp add: flags_agree_def)
  have model: "chosen_model c \<in> set (configured_models (chosen_account c))"
    using chosen_model_configured [OF offered(4)] by (simp add: chosen_models_def)
  then obtain p where p: "chosen_account c = Some p"
    by (cases "chosen_account c") (auto simp: configured_models_def comma_items_def comma_fields_def trim_def)
  have found: "account_named (Some (prov_id p)) (cn_providers c) = Some p" "prov_secret_configured p"
    using chosen_account_connected [OF p] account_named_distinct [OF assms(3)] by blast+
  have internal: "ses_engine (cn_session c) = ''internal''" "\<not> truthy_text (ses_runner_id (cn_session c))"
    using offered(5,6) by (auto simp: connect_problem_def chat_connection_problem_def split: if_splits option.splits)
  have "cn_attempts (connect c) = cn_attempts c @ [\<lparr>ca_generation = cn_generation c, ca_provider = prov_id p, ca_model = chosen_model c, ca_settled = False\<rparr>]"
    "cn_generation (connect c) = cn_generation c"
    using offered idle p by (simp_all add: connect_def)
  moreover have "configured_models (Some p) \<noteq> []" using model p by auto
  ultimately show ?thesis
    using connect_idle [OF assms(1) idle] internal found model p
    by (auto simp: open_attempts_def chat_connection_problem_def Let_def)
qed

definition unconnected :: connect_panel where
  "unconnected = open_connect \<lparr>ses_id = ''c'', ses_title = ''T'', ses_project_id = None, ses_cwd = None, ses_engine = ''internal'', ses_provider_id = None,
       ses_model = Some ''old'', ses_mode = ''chat'', ses_draft_text = [], ses_draft_context = None, ses_revision = 1, ses_turns = None, ses_scroll = 0,
       ses_has_earlier = False, ses_runner_id = None, ses_worktree_id = None, ses_reasoning = []\<rparr>
     [\<lparr>prov_id = ''p'', prov_name = ''P'', prov_model = ''a, b'', prov_capabilities = [], prov_secret_configured = True\<rparr>] [] True"

lemma unconnected_reachable: "connect_reachable unconnected"
  by (rule reached_opened) (simp add: unconnected_def open_connect_def connect_opened_def)

theorem offered_connection_helps_witness:
  "map (\<lambda>a. (ca_provider a, ca_model a)) (cn_attempts (connect unconnected)) = [(''p'', ''a'')]
    \<and> (\<exists>a. cn_attempts (connect unconnected) = cn_attempts unconnected @ [a]
      \<and> chat_connection_problem (Some (cn_session unconnected\<lparr>ses_provider_id := Some (ca_provider a), ses_model := Some (ca_model a)\<rparr>))
          (cn_providers unconnected) (cn_engines unconnected) = None)"
proof -
  have "DoConnect \<in> set (offers (connect_view True True unconnected))" "distinct (map prov_id (cn_providers unconnected))"
    "map (\<lambda>a. (ca_provider a, ca_model a)) (cn_attempts (connect unconnected)) = [(''p'', ''a'')]" by code_simp+
  then show ?thesis using offered_connection_helps [OF unconnected_reachable] by blast
qed

end
