(* ===== verification/SessionWrites.thy ===== *)
theory SessionWrites
  imports SessionFence
begin

text \<open>
  \<open>lib/session-writes.ts\<close>: the queue of writes of each conversation. A write waits for the
  one queued before it; a lock or a sign-out starts a new generation, aborts the running writes
  and forgets the queues. Intents and operations are numbered, since the code compares promises
  and controllers by identity; \<open>wo_queued\<close> and \<open>it_released\<close> are ghost fields the
  code does not need.
\<close>

section \<open>State\<close>

text \<open>A captured intent: its epoch, and its controller once its signal was asked for, aborted or
  not.\<close>

record intent =
  it_epoch :: nat
  it_controller :: "bool option"
  it_released :: bool

datatype write_phase = Queued | Writing | Settled "js_error + jsval"

record write_op =
  wo_session :: string
  wo_intent :: nat
  wo_captured :: bool
  wo_previous :: "nat option"
  wo_phase :: write_phase
  wo_queued :: nat

record writes =
  ws_generation :: nat
  ws_pending :: "string \<rightharpoonup> nat"
  ws_signals :: "nat set"
  ws_intents :: "intent list"
  ws_ops :: "write_op list"

definition no_writes :: writes where
  "no_writes = \<lparr>ws_generation = 0, ws_pending = Map.empty, ws_signals = {}, ws_intents = [], ws_ops = []\<rparr>"

section \<open>Operations\<close>

text \<open>The listener of \<open>termx-signed-out\<close> and \<open>termx-session-locked\<close>.\<close>

definition abort_signals :: "nat set \<Rightarrow> intent list \<Rightarrow> intent list" where
  "abort_signals live its =
     map (\<lambda>(i, it). if i \<in> live then it\<lparr>it_controller := Some True\<rparr> else it) (enumerate 0 its)"

definition on_lock :: "writes \<Rightarrow> writes" where
  "on_lock s = s\<lparr>ws_generation := Suc (ws_generation s),
     ws_intents := abort_signals (ws_signals s) (ws_intents s),
     ws_signals := {}, ws_pending := Map.empty\<rparr>"

definition capture_session_write :: "writes \<Rightarrow> nat \<times> writes" where
  "capture_session_write s =
     (length (ws_intents s),
      s\<lparr>ws_intents := ws_intents s @ [\<lparr>it_epoch = ws_generation s, it_controller = None, it_released = False\<rparr>]\<rparr>)"

definition is_current :: "writes \<Rightarrow> nat \<Rightarrow> bool" where
  "is_current s i \<longleftrightarrow> it_epoch (ws_intents s ! i) = ws_generation s"

definition intent_signal :: "nat \<Rightarrow> writes \<Rightarrow> writes" where
  "intent_signal i s =
     (case it_controller (ws_intents s ! i) of
        Some _ \<Rightarrow> s
      | None \<Rightarrow>
          if is_current s i
          then s\<lparr>ws_intents := (ws_intents s)[i := (ws_intents s ! i)\<lparr>it_controller := Some False\<rparr>],
                 ws_signals := insert i (ws_signals s)\<rparr>
          else s\<lparr>ws_intents := (ws_intents s)[i := (ws_intents s ! i)\<lparr>it_controller := Some True\<rparr>]\<rparr>)"

definition release_intent :: "nat \<Rightarrow> writes \<Rightarrow> writes" where
  "release_intent i s =
     (if it_controller (ws_intents s ! i) = None then s
      else s\<lparr>ws_signals := ws_signals s - {i},
             ws_intents := (ws_intents s)[i := (ws_intents s ! i)\<lparr>it_released := True\<rparr>]\<rparr>)"

definition lock_error :: js_error where
  "lock_error = JsError ''The workspace locked or the account changed before this conversation could be saved.''"

text \<open>\<open>serializeSessionWrite\<close>, up to its first wait.\<close>

definition enqueue_write :: "string \<Rightarrow> nat \<Rightarrow> bool \<Rightarrow> writes \<Rightarrow> nat \<times> writes" where
  "enqueue_write sid i captured s =
     (let n = length (ws_ops s) in
      (n, s\<lparr>ws_ops := ws_ops s @ [\<lparr>wo_session = sid, wo_intent = i, wo_captured = captured,
               wo_previous = ws_pending s sid, wo_phase = Queued, wo_queued = ws_generation s\<rparr>],
            ws_pending := (ws_pending s)(sid \<mapsto> n)\<rparr>))"

definition serialize_session_write :: "string \<Rightarrow> nat option \<Rightarrow> writes \<Rightarrow> nat \<times> writes" where
  "serialize_session_write sid captured s =
     (case captured of
        Some i \<Rightarrow> enqueue_write sid i True s
      | None \<Rightarrow> (let (i, t) = capture_session_write s in enqueue_write sid i False t))"

definition set_phase :: "nat \<Rightarrow> write_phase \<Rightarrow> writes \<Rightarrow> writes" where
  "set_phase n p s = s\<lparr>ws_ops := (ws_ops s)[n := (ws_ops s ! n)\<lparr>wo_phase := p\<rparr>]\<rparr>"

definition is_settled :: "writes \<Rightarrow> nat \<Rightarrow> bool" where
  "is_settled s n \<longleftrightarrow> (\<exists>r. wo_phase (ws_ops s ! n) = Settled r)"

text \<open>The first \<open>then\<close>: the write is called only for a current intent.\<close>

definition may_start :: "writes \<Rightarrow> nat \<Rightarrow> bool" where
  "may_start s n \<longleftrightarrow> n < length (ws_ops s) \<and> wo_phase (ws_ops s ! n) = Queued \<and>
     (case wo_previous (ws_ops s ! n) of None \<Rightarrow> True | Some m \<Rightarrow> is_settled s m)"

definition start_write :: "nat \<Rightarrow> writes \<Rightarrow> writes" where
  "start_write n s =
     (if is_current s (wo_intent (ws_ops s ! n)) then set_phase n Writing s
      else set_phase n (Settled (Inl lock_error)) s)"

text \<open>The second \<open>then\<close>: the result of a write that outlived its generation is an error.\<close>

definition finish_write :: "nat \<Rightarrow> js_error + jsval \<Rightarrow> writes \<Rightarrow> writes" where
  "finish_write n r s =
     (case r of
        Inl e \<Rightarrow> set_phase n (Settled (Inl e)) s
      | Inr v \<Rightarrow>
          if is_current s (wo_intent (ws_ops s ! n)) then set_phase n (Settled (Inr v)) s
          else set_phase n (Settled (Inl lock_error)) s)"

text \<open>The \<open>finally\<close> block.\<close>

definition clean_write :: "nat \<Rightarrow> writes \<Rightarrow> writes" where
  "clean_write n s =
     (let op = ws_ops s ! n;
          t = (if ws_pending s (wo_session op) = Some n
               then s\<lparr>ws_pending := (ws_pending s)(wo_session op := None)\<rparr> else s)
      in if wo_captured op then t else release_intent (wo_intent op) t)"

inductive writes_step :: "writes \<Rightarrow> writes \<Rightarrow> bool" where
  lock: "writes_step s (on_lock s)"
| capture: "writes_step s (snd (capture_session_write s))"
| signal: "i < length (ws_intents s) \<Longrightarrow> writes_step s (intent_signal i s)"
| release: "i < length (ws_intents s) \<Longrightarrow> writes_step s (release_intent i s)"
| serialize: "(\<And>i. captured = Some i \<Longrightarrow> i < length (ws_intents s)) \<Longrightarrow>
    writes_step s (snd (serialize_session_write sid captured s))"
| start: "may_start s n \<Longrightarrow> writes_step s (start_write n s)"
| finish: "n < length (ws_ops s) \<Longrightarrow> wo_phase (ws_ops s ! n) = Writing \<Longrightarrow> writes_step s (finish_write n r s)"
| clean: "n < length (ws_ops s) \<Longrightarrow> is_settled s n \<Longrightarrow> writes_step s (clean_write n s)"

abbreviation writes_reachable :: "writes \<Rightarrow> bool" where
  "writes_reachable s \<equiv> writes_step\<^sup>*\<^sup>* no_writes s"

lemmas writes_defs = on_lock_def capture_session_write_def intent_signal_def release_intent_def
  enqueue_write_def serialize_session_write_def set_phase_def start_write_def finish_write_def clean_write_def

interpretation writes_fence: generation_fence ws_generation writes_step
  by unfold_locales
    (erule writes_step.cases; simp add: writes_defs Let_def split: option.split sum.split prod.split)

section \<open>The invariant of the queues\<close>

definition peers :: "writes \<Rightarrow> nat \<Rightarrow> nat \<Rightarrow> bool" where
  "peers s m n \<longleftrightarrow> m < length (ws_ops s) \<and> n < length (ws_ops s) \<and>
     wo_session (ws_ops s ! m) = wo_session (ws_ops s ! n) \<and>
     wo_queued (ws_ops s ! m) = ws_generation s \<and> wo_queued (ws_ops s ! n) = ws_generation s"

definition qi_bounds :: "writes \<Rightarrow> bool" where
  "qi_bounds s \<longleftrightarrow> (\<forall>n < length (ws_ops s). wo_intent (ws_ops s ! n) < length (ws_intents s) \<and>
     it_epoch (ws_intents s ! wo_intent (ws_ops s ! n)) \<le> wo_queued (ws_ops s ! n) \<and>
     wo_queued (ws_ops s ! n) \<le> ws_generation s)"

text \<open>An operation that has begun found all earlier ones of its conversation settled.\<close>

definition qi_order :: "writes \<Rightarrow> bool" where
  "qi_order s \<longleftrightarrow>
     (\<forall>m n. peers s m n \<longrightarrow> m < n \<longrightarrow> wo_phase (ws_ops s ! n) \<noteq> Queued \<longrightarrow> is_settled s m)"

text \<open>An operation names the latest one before it, unless all before it have settled.\<close>

definition qi_previous :: "writes \<Rightarrow> bool" where
  "qi_previous s \<longleftrightarrow> (\<forall>m n. peers s m n \<longrightarrow> m < n \<longrightarrow>
     (case wo_previous (ws_ops s ! n) of None \<Rightarrow> is_settled s m
      | Some p \<Rightarrow> peers s p n \<and> m \<le> p \<and> p < n))"

definition qi_pending :: "writes \<Rightarrow> bool" where
  "qi_pending s \<longleftrightarrow> (\<forall>n < length (ws_ops s). wo_queued (ws_ops s ! n) = ws_generation s \<longrightarrow>
     (case ws_pending s (wo_session (ws_ops s ! n)) of None \<Rightarrow> is_settled s n
      | Some p \<Rightarrow> peers s p n \<and> n \<le> p))"

definition qi_intents :: "writes \<Rightarrow> bool" where
  "qi_intents s \<longleftrightarrow> (\<forall>i < length (ws_intents s). it_epoch (ws_intents s ! i) \<le> ws_generation s \<and>
     (it_controller (ws_intents s ! i) = Some False \<and> \<not> it_released (ws_intents s ! i) \<longrightarrow>
        i \<in> ws_signals s \<and> it_epoch (ws_intents s ! i) = ws_generation s))"

definition queue_inv :: "writes \<Rightarrow> bool" where
  "queue_inv s \<longleftrightarrow> qi_bounds s \<and> qi_order s \<and> qi_previous s \<and> qi_pending s \<and> qi_intents s"

lemmas qi_defs = qi_bounds_def qi_order_def qi_previous_def qi_pending_def qi_intents_def

lemma queue_inv_empty: "queue_inv no_writes"
  by (simp add: queue_inv_def qi_defs no_writes_def peers_def)

text \<open>Only the intents change.\<close>

lemma intents_only:
  assumes inv: "queue_inv s"
    and same: "ws_ops t = ws_ops s" "ws_pending t = ws_pending s" "ws_generation t = ws_generation s"
    and longer: "length (ws_intents s) \<le> length (ws_intents t)"
    and epochs: "\<And>i. i < length (ws_intents s) \<Longrightarrow> it_epoch (ws_intents t ! i) = it_epoch (ws_intents s ! i)"
    and its: "qi_intents t"
  shows "queue_inv t"
proof -
  have eq: "peers t = peers s" "is_settled t = is_settled s"
    by (simp_all add: fun_eq_iff peers_def is_settled_def same)
  have "qi_bounds t"
    using inv longer epochs unfolding queue_inv_def qi_bounds_def same by auto
  then show ?thesis
    using inv its unfolding queue_inv_def qi_order_def qi_previous_def qi_pending_def same eq by blast
qed

lemma capture_inv: "queue_inv s \<Longrightarrow> queue_inv (snd (capture_session_write s))"
  by (rule intents_only [of s])
    (auto simp: capture_session_write_def nth_append queue_inv_def qi_intents_def)

lemma signal_inv: "queue_inv s \<Longrightarrow> i < length (ws_intents s) \<Longrightarrow> queue_inv (intent_signal i s)"
  by (rule intents_only [of s])
    (auto simp: intent_signal_def nth_list_update queue_inv_def qi_intents_def is_current_def split: option.split)

lemma release_inv: "queue_inv s \<Longrightarrow> i < length (ws_intents s) \<Longrightarrow> queue_inv (release_intent i s)"
  by (rule intents_only [of s])
    (auto simp: release_intent_def nth_list_update queue_inv_def qi_intents_def)

lemma length_abort_signals [simp]: "length (abort_signals live its) = length its"
  by (simp add: abort_signals_def)

lemma nth_abort_signals:
  "i < length its \<Longrightarrow> abort_signals live its ! i =
     (if i \<in> live then (its ! i)\<lparr>it_controller := Some True\<rparr> else its ! i)"
  by (simp add: abort_signals_def nth_enumerate_eq)

lemma lock_inv:
  assumes "queue_inv s"
  shows "queue_inv (on_lock s)"
proof -
  have b: "qi_bounds s" and its: "qi_intents s" using assms by (simp_all add: queue_inv_def)
  have none: "\<not> peers (on_lock s) m n" for m n
    using b by (auto simp: peers_def on_lock_def qi_bounds_def)
  have "qi_bounds (on_lock s)"
    using b by (auto simp: qi_bounds_def on_lock_def nth_abort_signals intro: le_SucI)
  moreover have "qi_pending (on_lock s)"
    using b by (auto simp: qi_pending_def qi_bounds_def on_lock_def)
  moreover have "qi_intents (on_lock s)"
    using its by (auto simp: qi_intents_def on_lock_def nth_abort_signals intro: le_SucI)
  ultimately show ?thesis
    by (simp add: queue_inv_def qi_order_def qi_previous_def none)
qed

lemma peers_pending:
  assumes "queue_inv s" "n < length (ws_ops s)" "wo_queued (ws_ops s ! n) = ws_generation s"
  shows "case ws_pending s (wo_session (ws_ops s ! n)) of None \<Rightarrow> is_settled s n | Some p \<Rightarrow> peers s p n \<and> n \<le> p"
  using assms by (simp add: queue_inv_def qi_pending_def)

lemma enqueue_inv:
  assumes inv: "queue_inv s" and i: "i < length (ws_intents s)"
  shows "queue_inv (snd (enqueue_write sid i captured s))"
proof -
  let ?t = "snd (enqueue_write sid i captured s)" and ?n = "length (ws_ops s)"
  have new: "ws_ops ?t ! ?n = \<lparr>wo_session = sid, wo_intent = i, wo_captured = captured,
               wo_previous = ws_pending s sid, wo_phase = Queued, wo_queued = ws_generation s\<rparr>"
    and old: "m < ?n \<Longrightarrow> ws_ops ?t ! m = ws_ops s ! m"
    and len: "length (ws_ops ?t) = Suc ?n"
    and rest: "ws_generation ?t = ws_generation s" "ws_intents ?t = ws_intents s"
      "ws_signals ?t = ws_signals s" "ws_pending ?t = (ws_pending s)(sid \<mapsto> ?n)" for m
    by (simp_all add: enqueue_write_def Let_def nth_append)
  have settled: "m < ?n \<Longrightarrow> is_settled ?t m = is_settled s m" for m
    by (simp add: is_settled_def old)
  have peers_old: "m < ?n \<Longrightarrow> k < ?n \<Longrightarrow> peers ?t m k = peers s m k" for m k
    by (simp add: peers_def old len rest)
  have peers_new: "m < ?n \<Longrightarrow> peers ?t m ?n \<longleftrightarrow> wo_session (ws_ops s ! m) = sid \<and> wo_queued (ws_ops s ! m) = ws_generation s" for m
    by (simp add: peers_def old len rest new)
  have new_new: "peers ?t ?n ?n" by (simp add: peers_def len new rest)
  have "qi_bounds ?t"
    using inv i by (auto simp: queue_inv_def qi_bounds_def qi_intents_def len rest less_Suc_eq old new)
  moreover have "qi_order ?t"
    unfolding qi_order_def
  proof (intro allI impI)
    fix m k assume p: "peers ?t m k" "m < k" "wo_phase (ws_ops ?t ! k) \<noteq> Queued"
    then have "k < ?n" by (auto simp: peers_def len less_Suc_eq new)
    with p inv show "is_settled ?t m"
      by (auto simp: peers_old old settled queue_inv_def qi_order_def)
  qed
  moreover have "qi_previous ?t"
    unfolding qi_previous_def
  proof (intro allI impI)
    fix m k assume p: "peers ?t m k" "m < k"
    then have "k \<le> ?n" by (simp add: peers_def len)
    show "case wo_previous (ws_ops ?t ! k) of None \<Rightarrow> is_settled ?t m | Some q \<Rightarrow> peers ?t q k \<and> m \<le> q \<and> q < k"
    proof (cases "k = ?n")
      case True
      with p have m: "m < ?n" "wo_session (ws_ops s ! m) = sid" "wo_queued (ws_ops s ! m) = ws_generation s"
        using peers_new by auto
      have pend: "case ws_pending s sid of None \<Rightarrow> is_settled s m | Some p \<Rightarrow> peers s p m \<and> m \<le> p"
        using peers_pending [OF inv m(1,3)] by (simp add: m(2))
      show ?thesis
      proof (cases "ws_pending s sid")
        case None
        then show ?thesis using pend m by (simp add: True new settled)
      next
        case (Some q)
        then have "q < ?n" "wo_session (ws_ops s ! q) = sid" "wo_queued (ws_ops s ! q) = ws_generation s" "m \<le> q"
          using pend m by (simp_all add: peers_def)
        then show ?thesis using Some peers_new [of q] by (simp add: True new)
      qed
    next
      case False
      with p \<open>k \<le> ?n\<close> have k: "k < ?n" "m < ?n" by auto
      with p inv have "case wo_previous (ws_ops s ! k) of None \<Rightarrow> is_settled s m | Some q \<Rightarrow> peers s q k \<and> m \<le> q \<and> q < k"
        by (auto simp: peers_old queue_inv_def qi_previous_def)
      moreover have "q < ?n" if "q < k" for q using that k by simp
      ultimately show ?thesis
        using k by (cases "wo_previous (ws_ops s ! k)") (simp_all add: old settled peers_old)
    qed
  qed
  moreover have "qi_pending ?t"
    unfolding qi_pending_def
  proof (intro allI impI)
    fix k assume k: "k < length (ws_ops ?t)" "wo_queued (ws_ops ?t ! k) = ws_generation ?t"
    show "case ws_pending ?t (wo_session (ws_ops ?t ! k)) of None \<Rightarrow> is_settled ?t k | Some q \<Rightarrow> peers ?t q k \<and> k \<le> q"
    proof (cases "k = ?n")
      case True
      then show ?thesis using new_new by (simp add: rest new)
    next
      case False
      with k have kn: "k < ?n" by (simp add: len)
      then have "wo_queued (ws_ops s ! k) = ws_generation s" using k by (simp add: old rest)
      then have pend: "case ws_pending s (wo_session (ws_ops s ! k)) of None \<Rightarrow> is_settled s k | Some p \<Rightarrow> peers s p k \<and> k \<le> p"
        using peers_pending [OF inv kn] by simp
      show ?thesis
      proof (cases "wo_session (ws_ops s ! k) = sid")
        case True
        then show ?thesis
          using peers_new [OF kn] kn \<open>wo_queued (ws_ops s ! k) = ws_generation s\<close>
          by (simp add: rest old peers_def conj_commute)
      next
        case False
        show ?thesis
        proof (cases "ws_pending s (wo_session (ws_ops s ! k))")
          case None
          then show ?thesis using False pend kn by (simp add: rest old settled)
        next
          case (Some q)
          then have "peers s q k" "k \<le> q" using pend by simp_all
          moreover from this have "q < ?n" by (simp add: peers_def)
          ultimately show ?thesis using False Some kn by (simp add: rest old peers_old)
        qed
      qed
    qed
  qed
  moreover have "qi_intents ?t"
    using inv by (simp add: queue_inv_def qi_intents_def rest)
  ultimately show ?thesis by (simp add: queue_inv_def)
qed

lemma serialize_inv:
  assumes "queue_inv s" and "\<And>i. captured = Some i \<Longrightarrow> i < length (ws_intents s)"
  shows "queue_inv (snd (serialize_session_write sid captured s))"
proof (cases captured)
  case None
  have "queue_inv (snd (capture_session_write s))" by (rule capture_inv [OF assms(1)])
  then show ?thesis
    using enqueue_inv [of "snd (capture_session_write s)" "length (ws_intents s)" sid False]
    by (simp add: None serialize_session_write_def capture_session_write_def)
qed (use assms enqueue_inv in \<open>simp add: serialize_session_write_def\<close>)

lemma set_phase_inv:
  assumes inv: "queue_inv s" and n: "n < length (ws_ops s)" and "p \<noteq> Queued"
    and keep: "is_settled s n \<Longrightarrow> \<exists>r. p = Settled r"
    and before: "\<And>m. peers s m n \<Longrightarrow> m < n \<Longrightarrow> is_settled s m"
  shows "queue_inv (set_phase n p s)"
proof -
  let ?t = "set_phase n p s"
  have ops: "ws_ops ?t ! m = (if m = n then (ws_ops s ! n)\<lparr>wo_phase := p\<rparr> else ws_ops s ! m)" for m
    using n by (simp add: set_phase_def)
  have rest: "length (ws_ops ?t) = length (ws_ops s)" "ws_generation ?t = ws_generation s"
    "ws_intents ?t = ws_intents s" "ws_signals ?t = ws_signals s" "ws_pending ?t = ws_pending s"
    by (simp_all add: set_phase_def)
  have peers: "peers ?t m k = peers s m k" for m k by (auto simp: peers_def ops rest)
  have settled: "is_settled s m \<Longrightarrow> is_settled ?t m" for m
    using keep by (auto simp: is_settled_def ops)
  have "qi_bounds ?t" "qi_intents ?t"
    using inv by (auto simp: queue_inv_def qi_bounds_def qi_intents_def ops rest)
  moreover have "qi_order ?t"
    using inv before settled unfolding queue_inv_def qi_order_def peers
    by (metis ops)
  moreover have "qi_previous ?t"
    unfolding qi_previous_def peers
  proof (intro allI impI)
    fix m k assume mk: "peers s m k" "m < k"
    then have "case wo_previous (ws_ops s ! k) of None \<Rightarrow> is_settled s m | Some q \<Rightarrow> peers s q k \<and> m \<le> q \<and> q < k"
      using inv by (simp add: queue_inv_def qi_previous_def)
    moreover have "wo_previous (ws_ops ?t ! k) = wo_previous (ws_ops s ! k)" by (simp add: ops)
    ultimately show "case wo_previous (ws_ops ?t ! k) of None \<Rightarrow> is_settled ?t m | Some q \<Rightarrow> peers s q k \<and> m \<le> q \<and> q < k"
      using settled by (simp split: option.splits)
  qed
  moreover have "qi_pending ?t"
    unfolding qi_pending_def peers rest
  proof (intro allI impI)
    fix k assume k: "k < length (ws_ops s)" and q: "wo_queued (ws_ops ?t ! k) = ws_generation s"
    have same: "wo_session (ws_ops ?t ! k) = wo_session (ws_ops s ! k)" "wo_queued (ws_ops ?t ! k) = wo_queued (ws_ops s ! k)"
      by (simp_all add: ops)
    show "case ws_pending s (wo_session (ws_ops ?t ! k)) of None \<Rightarrow> is_settled ?t k | Some p \<Rightarrow> peers s p k \<and> k \<le> p"
      using peers_pending [OF inv k] q settled [of k] unfolding same by (simp split: option.splits)
  qed
  ultimately show ?thesis by (simp add: queue_inv_def)
qed

lemma start_ready:
  assumes inv: "queue_inv s" and st: "may_start s n" and m: "peers s m n" "m < n"
  shows "is_settled s m"
proof -
  have prev: "case wo_previous (ws_ops s ! n) of None \<Rightarrow> is_settled s m | Some p \<Rightarrow> peers s p n \<and> m \<le> p \<and> p < n"
    using inv m by (simp add: queue_inv_def qi_previous_def)
  show ?thesis
  proof (cases "wo_previous (ws_ops s ! n)")
    case None
    with prev show ?thesis by simp
  next
    case (Some p)
    then have p: "is_settled s p" "peers s p n" "m \<le> p" using prev st by (auto simp: may_start_def)
    then have "peers s m p" using m by (auto simp: peers_def)
    with p inv show ?thesis
      by (cases "m = p") (auto simp: queue_inv_def qi_order_def is_settled_def)
  qed
qed

lemma start_inv: "queue_inv s \<Longrightarrow> may_start s n \<Longrightarrow> queue_inv (start_write n s)"
  using start_ready [of s n]
  by (auto simp: start_write_def may_start_def is_settled_def intro!: set_phase_inv)

lemma finish_inv:
  assumes "queue_inv s" "n < length (ws_ops s)" "wo_phase (ws_ops s ! n) = Writing"
  shows "queue_inv (finish_write n r s)"
proof -
  have "is_settled s m" if "peers s m n" "m < n" for m
    using assms that by (auto simp: queue_inv_def qi_order_def)
  with assms show ?thesis
    by (auto simp: finish_write_def split: sum.split intro!: set_phase_inv)
qed

lemma clean_inv:
  assumes inv: "queue_inv s" and n: "n < length (ws_ops s)" and settled: "is_settled s n"
  shows "queue_inv (clean_write n s)"
proof -
  let ?sid = "wo_session (ws_ops s ! n)"
  let ?t = "if ws_pending s ?sid = Some n then s\<lparr>ws_pending := (ws_pending s)(?sid := None)\<rparr> else s"
  have same: "ws_ops ?t = ws_ops s" "ws_generation ?t = ws_generation s" "ws_intents ?t = ws_intents s"
    "ws_signals ?t = ws_signals s" by simp_all
  have eq: "peers ?t = peers s" "is_settled ?t = is_settled s"
    by (auto simp: fun_eq_iff peers_def is_settled_def)
  have all: "is_settled s k" if "ws_pending s ?sid = Some n" "k < length (ws_ops s)"
    "wo_session (ws_ops s ! k) = ?sid" "wo_queued (ws_ops s ! k) = ws_generation s" for k
  proof -
    have nk: "peers s n k" "k \<le> n" using peers_pending [OF inv that(2,4)] that by simp_all
    then have "peers s k n" by (simp add: peers_def)
    then show ?thesis
      using inv settled nk(2) unfolding queue_inv_def qi_order_def is_settled_def
      by (metis le_neq_implies_less write_phase.distinct(3))
  qed
  have "qi_pending ?t"
    using inv all unfolding queue_inv_def qi_pending_def eq same by auto
  then have "queue_inv ?t"
    using inv unfolding queue_inv_def qi_bounds_def qi_order_def qi_previous_def qi_intents_def eq same by blast
  moreover have "wo_intent (ws_ops s ! n) < length (ws_intents ?t)"
    using inv n by (auto simp: queue_inv_def qi_bounds_def)
  ultimately show ?thesis
    by (simp add: clean_write_def Let_def release_inv del: if_split)
qed

lemma writes_step_inv: "writes_step s t \<Longrightarrow> queue_inv s \<Longrightarrow> queue_inv t"
  by (erule writes_step.cases)
    (simp_all add: lock_inv capture_inv signal_inv release_inv serialize_inv start_inv finish_inv clean_inv)

lemma writes_reachable_inv: "writes_reachable s \<Longrightarrow> queue_inv s"
  by (induction rule: rtranclp_induct) (auto intro: queue_inv_empty writes_step_inv)

section \<open>Properties\<close>


lemma stale_step:
  assumes "writes_step s t" and "n < length (ws_ops s)"
    and "it_epoch (ws_intents s ! wo_intent (ws_ops s ! n)) < ws_generation s"
    and "wo_phase (ws_ops t ! n) \<noteq> wo_phase (ws_ops s ! n)"
  shows "\<exists>e. wo_phase (ws_ops t ! n) = Settled (Inl e)"
  using assms
  by (auto elim!: writes_step.cases simp: writes_defs is_current_def may_start_def nth_append nth_list_update Let_def
      split: if_splits option.splits sum.splits prod.splits)

text \<open>What never changes once an operation is queued.\<close>

definition op_intent :: "writes \<Rightarrow> nat \<Rightarrow> nat" where
  "op_intent s n = wo_intent (ws_ops s ! n)"

lemma step_keeps_op:
  assumes "writes_step s t" and "queue_inv s" and "n < length (ws_ops s)"
  shows "n < length (ws_ops t) \<and> op_intent t n = op_intent s n \<and>
    it_epoch (ws_intents t ! op_intent t n) = it_epoch (ws_intents s ! op_intent s n)"
proof -
  have "\<forall>k < length (ws_ops s). wo_intent (ws_ops s ! k) < length (ws_intents s)"
    using assms(2) by (auto simp: queue_inv_def qi_bounds_def)
  with assms(1,3) show ?thesis
    by (auto elim!: writes_step.cases simp: writes_defs op_intent_def may_start_def nth_append nth_list_update
        nth_abort_signals Let_def split: if_splits option.splits sum.splits prod.splits)
qed

lemma steps_keep_op:
  assumes "writes_step\<^sup>*\<^sup>* s t" and "queue_inv s" and "n < length (ws_ops s)"
  shows "queue_inv t \<and> n < length (ws_ops t) \<and> op_intent t n = op_intent s n \<and>
    it_epoch (ws_intents t ! op_intent t n) = it_epoch (ws_intents s ! op_intent s n)"
  using assms(1)
proof (induction rule: rtranclp_induct)
  case (step t u)
  then show ?case using step_keeps_op [of t u n] writes_step_inv by auto
qed (use assms in simp)

text \<open>C12. A write queued before a lock or a sign-out is never begun after it, and one that was
  under way never reports success: whatever happens later, the only thing that can still happen
  to it is to end with the lock error or an error of its own.\<close>

theorem stale_write_never_lands:
  assumes "writes_reachable s" and "n < length (ws_ops s)"
    and "writes_step\<^sup>*\<^sup>* (on_lock s) t" and "writes_step t u"
    and "wo_phase (ws_ops u ! n) \<noteq> wo_phase (ws_ops t ! n)"
  shows "\<exists>e. wo_phase (ws_ops u ! n) = Settled (Inl e)"
proof -
  have inv: "queue_inv s" "queue_inv (on_lock s)"
    using writes_reachable_inv [OF assms(1)] lock_inv by auto
  have n: "n < length (ws_ops (on_lock s))" using assms(2) by (simp add: on_lock_def)
  have keep: "n < length (ws_ops t)"
    "it_epoch (ws_intents t ! op_intent t n) = it_epoch (ws_intents (on_lock s) ! op_intent (on_lock s) n)"
    using steps_keep_op [OF assms(3) inv(2) n] by auto
  have "it_epoch (ws_intents s ! op_intent s n) \<le> ws_generation s"
    using inv(1) assms(2) by (auto simp: queue_inv_def qi_bounds_def qi_intents_def op_intent_def)
  moreover have "it_epoch (ws_intents (on_lock s) ! op_intent (on_lock s) n) = it_epoch (ws_intents s ! op_intent s n)"
    using step_keeps_op [OF writes_step.lock inv(1) assms(2)] by (elim conjE)
  moreover have "ws_generation (on_lock s) = Suc (ws_generation s)" by (simp add: on_lock_def)
  ultimately have "it_epoch (ws_intents (on_lock s) ! op_intent (on_lock s) n) < ws_generation (on_lock s)"
    by simp
  also have "\<dots> \<le> ws_generation t" by (rule writes_fence.generation_steps [OF assms(3)])
  finally show ?thesis
    using stale_step [OF assms(4) keep(1)] assms(5) keep(2) by (simp add: op_intent_def)
qed

text \<open>After a lock or a sign-out the abort signal of every intent that is not finished fires: a
  signal still unfired belongs to the current generation.\<close>

theorem stale_signal_aborted:
  assumes "writes_reachable s" and "i < length (ws_intents s)" and "\<not> is_current s i"
    and "\<not> it_released (ws_intents s ! i)"
  shows "it_controller (ws_intents s ! i) \<noteq> Some False
    \<and> it_controller (ws_intents (intent_signal i s) ! i) = Some True"
proof -
  have "qi_intents s" using writes_reachable_inv [OF assms(1)] by (simp add: queue_inv_def)
  then have "it_controller (ws_intents s ! i) \<noteq> Some False"
    using assms(2-4) by (auto simp: qi_intents_def is_current_def)
  then show ?thesis
    using assms(2,3) by (cases "it_controller (ws_intents s ! i)") (auto simp: intent_signal_def)
qed

section \<open>Witnesses\<close>

text \<open>Two writes of one conversation: the first ends, the second begins; then the session locks.\<close>

definition two_writes :: writes where
  "two_writes = snd (serialize_session_write ''s'' None (snd (serialize_session_write ''s'' None no_writes)))"

definition second_begun :: writes where
  "second_begun = start_write 1 (finish_write 0 (Inr JNull) (start_write 0 two_writes))"

lemmas run_simps = two_writes_def second_begun_def writes_defs no_writes_def Let_def is_current_def
  may_start_def is_settled_def

lemma reachable_step: "writes_reachable s \<Longrightarrow> writes_step s t \<Longrightarrow> writes_reachable t"
  by (rule rtranclp.rtrancl_into_rtrancl)

lemma two_writes_reachable: "writes_reachable two_writes"
  unfolding two_writes_def
  by (rule reachable_step, rule reachable_step, rule rtranclp.rtrancl_refl; rule writes_step.serialize; simp)

lemma second_begun_reachable: "writes_reachable second_begun"
proof -
  have "writes_reachable (start_write 0 two_writes)"
    by (rule reachable_step [OF two_writes_reachable writes_step.start]) (simp add: run_simps)
  then have "writes_reachable (finish_write 0 (Inr JNull) (start_write 0 two_writes))"
    by (rule reachable_step, intro writes_step.finish) (simp_all add: run_simps)
  then show ?thesis
    unfolding second_begun_def
    by (rule reachable_step, intro writes_step.start) (simp add: run_simps)
qed


theorem stale_write_never_lands_witness:
  "\<exists>e. wo_phase (ws_ops (finish_write 1 (Inr JNull) (on_lock second_begun)) ! 1) = Settled (Inl e)"
proof (rule stale_write_never_lands [OF second_begun_reachable _ rtranclp.rtrancl_refl])
  show "writes_step (on_lock second_begun) (finish_write 1 (Inr JNull) (on_lock second_begun))"
    by (rule writes_step.finish) (simp_all add: run_simps abort_signals_def)
qed (simp_all add: run_simps abort_signals_def)

theorem stale_signal_aborted_witness:
  "it_controller (ws_intents (intent_signal 0 (on_lock two_writes)) ! 0) = Some True"
proof -
  have "writes_reachable (on_lock two_writes)"
    by (rule reachable_step [OF two_writes_reachable writes_step.lock])
  from stale_signal_aborted [OF this, of 0] show ?thesis by (simp add: run_simps abort_signals_def)
qed

end
