(* ===== verification/WriteLock.thy ===== *)
theory WriteLock
  imports SessionWrites
begin

text \<open>
  What the write queue of \<open>lib/session-writes.ts\<close> promises its clients, without its promises, intents
  and maps: a lock per conversation, that a lock of the workspace or a sign-out takes from everybody.
  Every step of the queue is a step of that lock or invisible to it.
\<close>

record write_lock =
  wl_epoch :: nat
  wl_held :: "string set"

definition all_free :: write_lock where
  "all_free = \<lparr>wl_epoch = 0, wl_held = {}\<rparr>"

inductive lock_step :: "write_lock \<Rightarrow> write_lock \<Rightarrow> bool" where
  lock_taken: "sid \<notin> wl_held l \<Longrightarrow> lock_step l (l\<lparr>wl_held := insert sid (wl_held l)\<rparr>)"
| lock_given: "sid \<in> wl_held l \<Longrightarrow> lock_step l (l\<lparr>wl_held := wl_held l - {sid}\<rparr>)"
| lock_revoked: "lock_step l \<lparr>wl_epoch = Suc (wl_epoch l), wl_held = {}\<rparr>"

text \<open>The conversations being written for the account of now.\<close>

definition writing_now :: "writes \<Rightarrow> nat \<Rightarrow> bool" where
  "writing_now s n \<longleftrightarrow> n < length (ws_ops s) \<and> wo_phase (ws_ops s ! n) = Writing \<and> wo_queued (ws_ops s ! n) = ws_generation s"

definition session_of :: "writes \<Rightarrow> nat \<Rightarrow> string" where
  "session_of s n = wo_session (ws_ops s ! n)"

definition lock_of :: "writes \<Rightarrow> write_lock" where
  "lock_of s = \<lparr>wl_epoch = ws_generation s, wl_held = session_of s ` {n. writing_now s n}\<rparr>"

lemma lock_of_initial: "lock_of no_writes = all_free"
  by (simp add: lock_of_def all_free_def no_writes_def writing_now_def)

text \<open>Two operations that write the same conversation are the same one.\<close>

lemma writing_unique:
  assumes "queue_inv s"
  shows "inj_on (session_of s) {n. writing_now s n}"
proof -
  have "\<not> i < j" if "writing_now s i" "writing_now s j" "session_of s i = session_of s j" for i j
  proof
    assume "i < j"
    moreover have "peers s i j" using that by (simp add: peers_def writing_now_def session_of_def)
    ultimately have "is_settled s i" using assms that by (auto simp: queue_inv_def qi_order_def writing_now_def)
    then show False using that by (simp add: is_settled_def writing_now_def)
  qed
  then show ?thesis by (metis (mono_tags, lifting) inj_onI linorder_neqE_nat mem_Collect_eq)
qed

lemma current_queued:
  assumes "queue_inv s" "n < length (ws_ops s)" "is_current s (wo_intent (ws_ops s ! n))"
  shows "wo_queued (ws_ops s ! n) = ws_generation s"
  using assms by (auto simp: queue_inv_def qi_bounds_def is_current_def intro: le_antisym)

lemma same_lock:
  assumes "ws_generation t = ws_generation s" "\<And>n. writing_now t n \<longleftrightarrow> writing_now s n"
    "\<And>n. writing_now s n \<Longrightarrow> session_of t n = session_of s n"
  shows "lock_of t = lock_of s"
  using assms by (auto simp: lock_of_def)

lemma writing_set_phase:
  assumes "n < length (ws_ops s)"
  shows "writing_now (set_phase n p s) k \<longleftrightarrow> (if k = n then p = Writing \<and> wo_queued (ws_ops s ! n) = ws_generation s else writing_now s k)"
  using assms by (auto simp: writing_now_def set_phase_def nth_list_update)

lemma session_set_phase: "n < length (ws_ops s) \<Longrightarrow> session_of (set_phase n p s) = session_of s"
  by (rule ext) (simp add: set_phase_def session_of_def nth_list_update)

lemma generation_set_phase: "ws_generation (set_phase n p s) = ws_generation s"
  by (simp add: set_phase_def)

lemmas set_phase_simps = writing_set_phase session_set_phase generation_set_phase

lemma unheld_settled:
  assumes "n < length (ws_ops s)" "\<not> writing_now s n"
  shows "lock_of (set_phase n (Settled r) s) = lock_of s"
  using assms by (intro same_lock) (auto simp: set_phase_simps)

lemma held_settled:
  assumes "queue_inv s" "n < length (ws_ops s)"
  shows "lock_step\<^sup>=\<^sup>= (lock_of s) (lock_of (set_phase n (Settled r) s))"
proof (cases "writing_now s n")
  case True
  have "{k. writing_now (set_phase n (Settled r) s) k} = {k. writing_now s k} - {n}"
    using assms(2) by (auto simp: set_phase_simps)
  then have "lock_of (set_phase n (Settled r) s) = (lock_of s)\<lparr>wl_held := wl_held (lock_of s) - {session_of s n}\<rparr>"
    using assms(2) True by (simp add: lock_of_def set_phase_simps inj_on_image_set_diff [OF writing_unique [OF assms(1)]])
  then show ?thesis using lock_given [of "session_of s n" "lock_of s"] True by (simp add: lock_of_def)
qed (use unheld_settled [OF assms(2)] in simp)

lemma started_taken:
  assumes inv: "queue_inv s" and start: "may_start s n" and now: "is_current s (wo_intent (ws_ops s ! n))"
  shows "lock_step (lock_of s) (lock_of (set_phase n Writing s))"
proof -
  let ?t = "set_phase n Writing s"
  have n: "n < length (ws_ops s)" "\<not> writing_now s n" using start by (simp_all add: may_start_def writing_now_def)
  have "wo_queued (ws_ops s ! n) = ws_generation s" by (rule current_queued [OF inv n(1) now])
  then have now_writing: "{k. writing_now ?t k} = insert n {k. writing_now s k}" using n(1) by (auto simp: set_phase_simps)
  have "queue_inv ?t" using start_inv [OF inv start] now by (simp add: start_write_def)
  from writing_unique [OF this] have "inj_on (session_of s) (insert n {k. writing_now s k})"
    by (simp add: now_writing session_set_phase [OF n(1)])
  then have "session_of s n \<notin> wl_held (lock_of s)" using n(2) by (auto simp: lock_of_def dest: inj_onD)
  moreover have "lock_of ?t = (lock_of s)\<lparr>wl_held := insert (session_of s n) (wl_held (lock_of s))\<rparr>"
    by (simp add: lock_of_def now_writing session_set_phase [OF n(1)] generation_set_phase)
  ultimately show ?thesis using lock_taken [of "session_of s n" "lock_of s"] by simp
qed

text \<open>Capturing an intent, asking for its signal, releasing it, queueing a write and cleaning up do not touch the lock.\<close>

lemma lock_of_invisible [simp]:
  "lock_of (snd (capture_session_write s)) = lock_of s" "lock_of (intent_signal i s) = lock_of s" "lock_of (release_intent i s) = lock_of s"
  "lock_of (clean_write n s) = lock_of s"
  by (auto simp: lock_of_def writing_now_def session_of_def Let_def capture_session_write_def intent_signal_def release_intent_def clean_write_def
      split: option.split)

lemma lock_of_serialized [simp]: "lock_of (snd (serialize_session_write sid captured s)) = lock_of s"
  by (intro same_lock) (auto simp: writes_defs writing_now_def session_of_def Let_def nth_append split: option.splits prod.splits if_splits)



end
