(* ===== verification/Composer.thy ===== *)
theory Composer
  imports DraftHandoff WriteLock ApiTypes
begin

text \<open>
  The composer of \<open>features/Chat.tsx\<close>: the draft of the conversation shown, its autosave, and sending it.
  The registry \<open>lib/drafts.ts\<close> outlives the panel; the panel mirrors the entry of its conversation.
  A submission keeps its request key until the host has taken it. Writes go through the queue of
  \<open>lib/session-writes.ts\<close>, of which the composer sees only the lock it refines (\<open>WriteLock\<close>). Every
  continuation after an \<open>await\<close> is one step; React has rendered between two steps. The host's answers,
  the identifiers of \<open>crypto.randomUUID\<close> and the bytes of a JSON text are arguments.
\<close>

section \<open>State\<close>

datatype send_phase = SendPersisting | SendAwaitsDraft "nat option" | SendQueued | SendPosting | SendRereading | SendDone

record send_flight =
  sf_id :: string
  sf_pending :: pending_submission
  sf_epoch :: nat
  sf_account :: nat
  sf_phase :: send_phase

datatype save_phase = SaveWaits nat | SaveQueued | SaveReading message_draft | SavePatching | SaveDone

record save_flight =
  vf_id :: string
  vf_text :: string
  vf_epoch :: nat
  vf_phase :: save_phase

text \<open>What was sent to the host: the route is \<open>/turns\<close> for a message and \<open>/queue\<close> otherwise.\<close>

record sent_message =
  po_flight :: nat
  po_account :: nat
  po_id :: string
  po_route :: string
  po_pending :: pending_submission

text \<open>The panel's React state and refs, the registries, and what the outside saw. \<open>cp_account\<close>, \<open>cp_posts\<close> and \<open>cp_accepted\<close> are
  ghost fields: they record the sign-outs, the requests and the requests the host took.\<close>

record composer =
  cp_session :: "session option"
  cp_owner :: bool
  cp_latest :: "string option"
  cp_blocked :: "string option"
  cp_id :: "string option"
  cp_draft :: string
  cp_context :: "jsval list"
  cp_images :: "draft_image list"
  cp_pending :: "pending_submission option"
  cp_saved :: string
  cp_dirty :: bool
  cp_error :: "(string \<times> string) option"
  cp_timer :: "(string \<times> string \<times> nat) option"
  cp_drafts :: draft_store
  cp_submitting :: "string set"
  cp_owners :: "string \<rightharpoonup> nat"
  cp_draft_writes :: "string \<rightharpoonup> nat"
  cp_consumed :: "string set"
  cp_lock :: write_lock
  cp_sends :: "send_flight list"
  cp_saves :: "save_flight list"
  cp_patches :: "(string \<times> draft_patch) list"
  cp_refreshes :: nat
  cp_reported :: "js_error list"
  cp_account :: nat
  cp_posts :: "sent_message list"
  cp_accepted :: "(nat \<times> string \<times> string) set"

definition no_composer :: composer where
  "no_composer = \<lparr>cp_session = None, cp_owner = False, cp_latest = None, cp_blocked = None, cp_id = None, cp_draft = [], cp_context = [],
     cp_images = [], cp_pending = None, cp_saved = [], cp_dirty = False, cp_error = None, cp_timer = None, cp_drafts = Map.empty,
     cp_submitting = {}, cp_owners = Map.empty, cp_draft_writes = Map.empty, cp_consumed = {}, cp_lock = all_free, cp_sends = [], cp_saves = [],
     cp_patches = [], cp_refreshes = 0, cp_reported = [], cp_account = 0, cp_posts = [], cp_accepted = {}\<rparr>"

definition epoch_now :: "composer \<Rightarrow> nat" where
  "epoch_now c = wl_epoch (cp_lock c)"

definition report :: "nat \<Rightarrow> js_error \<Rightarrow> composer \<Rightarrow> composer" where
  "report epoch e c = (if epoch = epoch_now c then c\<lparr>cp_reported := cp_reported c @ [e]\<rparr> else c)"

definition hold :: "string \<Rightarrow> composer \<Rightarrow> composer" where
  "hold sid c = c\<lparr>cp_lock := (cp_lock c)\<lparr>wl_held := insert sid (wl_held (cp_lock c))\<rparr>\<rparr>"

definition let_go :: "nat \<Rightarrow> string \<Rightarrow> composer \<Rightarrow> composer" where
  "let_go epoch sid c = (if epoch = epoch_now c then c\<lparr>cp_lock := (cp_lock c)\<lparr>wl_held := wl_held (cp_lock c) - {sid}\<rparr>\<rparr> else c)"

section \<open>Editing\<close>

definition edit_draft :: "string \<Rightarrow> jsval list \<Rightarrow> composer \<Rightarrow> composer" where
  "edit_draft t ctx c =
     (let c' = c\<lparr>cp_draft := t, cp_context := ctx, cp_dirty := True\<rparr> in
      case cp_session c of
        None \<Rightarrow> c'
      | Some s \<Rightarrow>
          (let d = (case cp_drafts c (ses_id s) of
               Some old \<Rightarrow> old\<lparr>md_text := t, md_context := Some ctx, md_saved_context := (case md_saved_context old of None \<Rightarrow> Some (or_empty (ses_draft_context s)) | x \<Rightarrow> x),
                  md_dirty := True, md_revision := Some (ses_revision s)\<rparr>
             | None \<Rightarrow> \<lparr>md_text = t, md_saved = cp_saved c, md_dirty = True, md_revision = Some (ses_revision s), md_context = Some ctx,
                  md_saved_context = Some (or_empty (ses_draft_context s)), md_attachments = None, md_submission = None\<rparr>)
           in c'\<lparr>cp_drafts := (cp_drafts c)(ses_id s \<mapsto> d)\<rparr>))"

text \<open>\<open>editAttachments\<close> of the render that showed \<open>shown\<close>; an upload calls it when the images are read.\<close>

definition edit_attachments_in :: "session option \<Rightarrow> draft_image list \<Rightarrow> string \<Rightarrow> jsval list \<Rightarrow> composer \<Rightarrow> composer" where
  "edit_attachments_in shown next base_text base_context c =
     (let c' = c\<lparr>cp_images := next\<rparr> in
      case shown of
        None \<Rightarrow> c'
      | Some s \<Rightarrow>
          (let d = (case cp_drafts c (ses_id s) of
               Some old \<Rightarrow> old\<lparr>md_context := (case md_context old of None \<Rightarrow> Some base_context | x \<Rightarrow> x), md_attachments := Some next\<rparr>
             | None \<Rightarrow> \<lparr>md_text = base_text, md_saved = cp_saved c, md_dirty = False, md_revision = None, md_context = Some base_context,
                  md_saved_context = None, md_attachments = Some next, md_submission = None\<rparr>)
           in c'\<lparr>cp_drafts := (cp_drafts c)(ses_id s \<mapsto> d)\<rparr>))"

definition edit_attachments :: "draft_image list \<Rightarrow> string \<Rightarrow> jsval list \<Rightarrow> composer \<Rightarrow> composer" where
  "edit_attachments next base_text base_context c = edit_attachments_in (cp_session c) next base_text base_context c"

text \<open>Text, context and images that arrive for this conversation, once each.\<close>

record incoming_context =
  in_id :: string
  in_session :: "string option"
  in_text :: string
  in_context :: "jsval list"
  in_images :: "draft_image list"

definition joined_text :: "string \<Rightarrow> string \<Rightarrow> string" where
  "joined_text base t = base @ (if t \<noteq> [] then (if base \<noteq> [] then [CHR 0x0A, CHR 0x0A] else []) @ t else [])"

definition receive_context :: "(jsval list \<Rightarrow> nat) \<Rightarrow> incoming_context \<Rightarrow> composer \<Rightarrow> composer" where
  "receive_context json_bytes i c =
     (case cp_session c of
        None \<Rightarrow> c
      | Some s \<Rightarrow>
          if (truthy_text (in_session i) \<and> in_session i \<noteq> Some (ses_id s)) \<or> in_id i \<in> cp_consumed c then c
          else
            (let old = cp_drafts c (ses_id s);
                 base_text = (case old of Some d \<Rightarrow> md_text d | None \<Rightarrow> ses_draft_text s);
                 base_context = (case map_option md_context old of Some (Some x) \<Rightarrow> x
                   | _ \<Rightarrow> (case ses_draft_context s of Some x \<Rightarrow> x | None \<Rightarrow> cp_context c));
                 base_images = (case map_option md_attachments old of Some (Some x) \<Rightarrow> x | _ \<Rightarrow> cp_images c);
                 selected = base_context @ in_context i
             in if length selected > 16 \<or> json_bytes selected > 256000
                then c\<lparr>cp_reported := cp_reported c @ [JsError ''Browser context exceeds the 16-item or 256 KB draft limit. Remove a context item first.'']\<rparr>
                else
                  (let c1 = c\<lparr>cp_consumed := insert (in_id i) (cp_consumed c)\<rparr>;
                       c2 = (if in_text i \<noteq> [] \<or> in_context i \<noteq> [] then edit_draft (joined_text base_text (in_text i)) selected c1 else c1)
                   in if in_images i \<noteq> [] then edit_attachments (take 4 (base_images @ in_images i)) base_text selected c2 else c2)))"

section \<open>Saving a draft\<close>

definition set_save :: "nat \<Rightarrow> save_phase \<Rightarrow> composer \<Rightarrow> composer" where
  "set_save k ph c = c\<lparr>cp_saves := (cp_saves c)[k := (cp_saves c ! k)\<lparr>vf_phase := ph\<rparr>]\<rparr>"

text \<open>\<open>saveDraft\<close>: behind the save that is under way, or as the save that is.\<close>

definition save_draft :: "string \<Rightarrow> string \<Rightarrow> nat \<Rightarrow> composer \<Rightarrow> composer" where
  "save_draft sid t epoch c =
     (if epoch \<noteq> epoch_now c \<or> sid \<in> cp_submitting c then c
      else (let n = length (cp_saves c); flight = \<lparr>vf_id = sid, vf_text = t, vf_epoch = epoch, vf_phase = SaveQueued\<rparr> in
            case cp_draft_writes c sid of
              Some m \<Rightarrow> c\<lparr>cp_saves := cp_saves c @ [flight\<lparr>vf_phase := SaveWaits m\<rparr>]\<rparr>
            | None \<Rightarrow> c\<lparr>cp_saves := cp_saves c @ [flight], cp_draft_writes := (cp_draft_writes c)(sid \<mapsto> n)\<rparr>))"

definition resume_save :: "nat \<Rightarrow> composer \<Rightarrow> composer" where
  "resume_save k c =
     (let v = cp_saves c ! k in
      if vf_epoch v \<noteq> epoch_now c \<or> vf_id v \<in> cp_submitting c then set_save k SaveDone c
      else (case cp_draft_writes c (vf_id v) of
              Some m \<Rightarrow> set_save k (SaveWaits m) c
            | None \<Rightarrow> (set_save k SaveQueued c)\<lparr>cp_draft_writes := (cp_draft_writes c)(vf_id v \<mapsto> k)\<rparr>))"

definition end_save :: "nat \<Rightarrow> composer \<Rightarrow> composer" where
  "end_save k c =
     (let v = cp_saves c ! k; c' = set_save k SaveDone c in
      if cp_draft_writes c (vf_id v) = Some k then c'\<lparr>cp_draft_writes := (cp_draft_writes c)(vf_id v := None)\<rparr> else c')"

definition fail_save :: "nat \<Rightarrow> js_error \<Rightarrow> composer \<Rightarrow> composer" where
  "fail_save k e c = end_save k (report (vf_epoch (cp_saves c ! k)) e (let_go (vf_epoch (cp_saves c ! k)) (vf_id (cp_saves c ! k)) c))"

text \<open>\<open>writeDraft\<close>, when the queue comes to it.\<close>

definition start_save :: "nat \<Rightarrow> composer \<Rightarrow> composer" where
  "start_save k c =
     (let v = cp_saves c ! k in
      if vf_epoch v \<noteq> epoch_now c then end_save k c
      else (case cp_drafts c (vf_id v) of
              Some d \<Rightarrow> if \<not> md_dirty d \<or> md_text d \<noteq> vf_text v then end_save k c else set_save k (SaveReading d) (hold (vf_id v) c)
            | None \<Rightarrow> end_save k c))"

definition draft_changed :: js_error where
  "draft_changed = JsError ''This draft changed in another window. Your local draft is preserved; copy it before switching conversations.''"

definition read_save :: "nat \<Rightarrow> host_draft js_result \<Rightarrow> composer \<Rightarrow> composer" where
  "read_save k r c =
     (let v = cp_saves c ! k in
      case (vf_phase v, r) of
        (SaveReading _, Inl e) \<Rightarrow> fail_save k e c
      | (SaveReading d, Inr cur) \<Rightarrow>
          if vf_epoch v \<noteq> epoch_now c then fail_save k lock_error c
          else if draft_conflict d cur then fail_save k draft_changed c
          else set_save k SavePatching (c\<lparr>cp_patches := cp_patches c @
                 [(vf_id v, \<lparr>dp_revision = hd_revision cur, dp_text = vf_text v, dp_context = or_empty (md_context d)\<rparr>)]\<rparr>)
      | _ \<Rightarrow> c)"

definition patched_save :: "nat \<Rightarrow> host_draft js_result \<Rightarrow> composer \<Rightarrow> composer" where
  "patched_save k r c =
     (let v = cp_saves c ! k in
      case r of
        Inl e \<Rightarrow> fail_save k e c
      | Inr saved \<Rightarrow>
          if vf_epoch v \<noteq> epoch_now c then fail_save k lock_error c
          else (let c' = end_save k (let_go (vf_epoch v) (vf_id v) c) in
                case cp_drafts c (vf_id v) of
                  None \<Rightarrow> c'
                | Some d \<Rightarrow>
                    (let still = md_text d \<noteq> hd_text saved \<or> \<not> same_context (md_context d) (hd_context saved);
                         c'' = c'\<lparr>cp_drafts := (cp_drafts c)(vf_id v \<mapsto> d\<lparr>md_saved := hd_text saved, md_saved_context := Some (or_empty (hd_context saved)),
                                   md_dirty := still, md_revision := Some (hd_revision saved)\<rparr>)\<rparr>
                     in if cp_id c = Some (vf_id v) then c''\<lparr>cp_saved := hd_text saved, cp_dirty := still\<rparr> else c'')))"

section \<open>Showing a conversation\<close>

definition counts_dirty :: "message_draft \<Rightarrow> bool" where
  "counts_dirty d \<longleftrightarrow> md_dirty d \<or> md_text d \<noteq> md_saved d \<or> \<not> same_context (md_context d) (md_saved_context d)"

definition keep_dirty :: "string \<Rightarrow> message_draft \<Rightarrow> composer \<Rightarrow> composer" where
  "keep_dirty sid d c = (if counts_dirty d then c\<lparr>cp_drafts := (cp_drafts c)(sid \<mapsto> d\<lparr>md_dirty := True\<rparr>)\<rparr> else c)"

definition cached_draft :: "session option \<Rightarrow> composer \<Rightarrow> message_draft option" where
  "cached_draft s c = (case s of None \<Rightarrow> None | Some x \<Rightarrow> cp_drafts c (ses_id x))"

definition session_text :: "session option \<Rightarrow> string" where
  "session_text s = (case s of None \<Rightarrow> [] | Some x \<Rightarrow> ses_draft_text x)"

definition session_context :: "session option \<Rightarrow> jsval list option" where
  "session_context s = (case s of None \<Rightarrow> None | Some x \<Rightarrow> ses_draft_context x)"

text \<open>Another conversation: the dirty draft left behind is saved, and the registry's draft wins over the host's.\<close>

definition switch_session :: "session option \<Rightarrow> composer \<Rightarrow> composer" where
  "switch_session s c =
     (let c1 = (case cp_id c of None \<Rightarrow> c
         | Some previous \<Rightarrow> (case cp_drafts c previous of
             Some old \<Rightarrow> if md_dirty old then save_draft previous (md_text old) (epoch_now c) c else c
           | None \<Rightarrow> c));
          c2 = c1\<lparr>cp_session := s, cp_id := map_option ses_id s, cp_error := None\<rparr>
      in case cached_draft s c of
           None \<Rightarrow> c2\<lparr>cp_draft := session_text s, cp_context := or_empty (session_context s), cp_saved := session_text s, cp_dirty := False,
                     cp_images := [], cp_pending := None\<rparr>
         | Some d \<Rightarrow> keep_dirty (the (map_option ses_id s)) d
             (c2\<lparr>cp_draft := md_text d, cp_context := or_empty (md_context d), cp_saved := md_saved d, cp_dirty := counts_dirty d,
                 cp_images := or_empty (md_attachments d), cp_pending := md_submission d\<rparr>))"

text \<open>The same conversation with other metadata: a clean panel follows the registry or the host.\<close>

definition refresh_session_draft :: "session option \<Rightarrow> composer \<Rightarrow> composer" where
  "refresh_session_draft s c =
     (let c2 = c\<lparr>cp_session := s\<rparr> in
      if session_text s = session_text (cp_session c) \<and> session_context s = session_context (cp_session c) then c2
      else if cp_dirty c then c2
      else (case cached_draft s c of
              Some d \<Rightarrow>
                if session_text s \<noteq> md_saved d \<or> \<not> same_context (session_context s) (md_saved_context d)
                then keep_dirty (the (map_option ses_id s)) d
                       (c2\<lparr>cp_draft := md_text d, cp_context := or_empty (md_context d), cp_saved := md_saved d, cp_dirty := counts_dirty d\<rparr>)
                else c2\<lparr>cp_draft := session_text s, cp_context := or_empty (session_context s), cp_saved := session_text s\<rparr>
            | None \<Rightarrow> c2\<lparr>cp_draft := session_text s, cp_context := or_empty (session_context s), cp_saved := session_text s\<rparr>))"

definition show_session :: "session option \<Rightarrow> composer \<Rightarrow> composer" where
  "show_session s c = (if map_option ses_id s \<noteq> cp_id c then switch_session s c else refresh_session_draft s c)"

text \<open>The listener of \<open>termx-draft-submission\<close>.\<close>

definition mirror_draft :: "composer \<Rightarrow> composer" where
  "mirror_draft c =
     (case cp_id c of
        None \<Rightarrow> c\<lparr>cp_pending := None\<rparr>
      | Some sid \<Rightarrow>
          (case cp_drafts c sid of
             None \<Rightarrow> c\<lparr>cp_pending := None\<rparr>
           | Some d \<Rightarrow> c\<lparr>cp_pending := md_submission d, cp_draft := md_text d, cp_context := or_empty (md_context d),
               cp_images := or_empty (md_attachments d), cp_saved := md_saved d, cp_dirty := md_dirty d\<rparr>))"

text \<open>A draft another window hands over, and the listener of \<open>termx-draft-handoff\<close>.\<close>

definition take_handoff :: "string \<Rightarrow> message_draft option \<Rightarrow> composer \<Rightarrow> composer" where
  "take_handoff sid new c =
     (case accept_transferred sid new (cp_drafts c) of
        Inl _ \<Rightarrow> c
      | Inr store \<Rightarrow>
          (let c' = c\<lparr>cp_drafts := store\<rparr> in
           case new of
             None \<Rightarrow> c'
           | Some d \<Rightarrow> if cp_id c \<noteq> Some sid then c'
               else c'\<lparr>cp_draft := md_text d, cp_context := or_empty (md_context d), cp_images := or_empty (md_attachments d),
                       cp_pending := md_submission d, cp_saved := md_saved d, cp_dirty := md_dirty d\<rparr>))"

section \<open>Sending\<close>

text \<open>The submission of \<open>send\<close>: what is pending is repeated as it was.\<close>

definition submission_of :: "string \<Rightarrow> string \<Rightarrow> composer \<Rightarrow> pending_submission" where
  "submission_of intent uuid c =
     (let p = cp_pending c;
          operation = or_text (map_option (\<lambda>b. or_text (sb_intent b) []) p) intent
      in \<lparr>sb_prompt = or_text (map_option sb_prompt p) (cp_draft c), sb_key = or_text (map_option sb_key p) uuid,
          sb_context = (case p of Some b \<Rightarrow> sb_context b | None \<Rightarrow> cp_context c),
          sb_attachments = (case p of Some b \<Rightarrow> sb_attachments b | None \<Rightarrow> cp_images c),
          sb_intent = Some operation,
          sb_interrupt = (case p of Some b \<Rightarrow> if truthy_text (sb_interrupt b) then sb_interrupt b else if operation = ''interrupt'' then cp_latest c else None
            | None \<Rightarrow> if operation = ''interrupt'' then cp_latest c else None)\<rparr>)"

definition blocked_text :: "string \<Rightarrow> string" where
  "blocked_text problem = (if problem = ''engine'' then ''Reconnect this engine before sending. Your draft is still here.''
     else ''Connect an account and model before sending. Your draft is still here.'')"

definition registered :: "pending_submission \<Rightarrow> composer \<Rightarrow> string \<Rightarrow> message_draft" where
  "registered b c sid =
     (case cp_drafts c sid of
        Some d \<Rightarrow> d\<lparr>md_context := (case md_context d of None \<Rightarrow> Some (cp_context c) | x \<Rightarrow> x),
            md_attachments := (case md_attachments d of None \<Rightarrow> Some (cp_images c) | x \<Rightarrow> x), md_submission := Some b\<rparr>
      | None \<Rightarrow> \<lparr>md_text = cp_draft c, md_saved = cp_saved c, md_dirty = cp_dirty c, md_revision = None, md_context = Some (cp_context c),
          md_saved_context = None, md_attachments = Some (cp_images c), md_submission = Some b\<rparr>)"

definition begin_send :: "string \<Rightarrow> string \<Rightarrow> composer \<Rightarrow> composer" where
  "begin_send intent uuid c =
     (case cp_session c of
        None \<Rightarrow> c
      | Some s \<Rightarrow>
          (let sid = ses_id s; b = submission_of intent uuid c; n = length (cp_sends c) in
           if (trim (cp_draft c) = [] \<and> cp_pending c = None) \<or> sid \<in> cp_submitting c then c
           else (case cp_blocked c of
                   Some problem \<Rightarrow> c\<lparr>cp_error := Some (sid, blocked_text problem)\<rparr>
                 | None \<Rightarrow> mirror_draft (c\<lparr>cp_pending := Some b, cp_drafts := (cp_drafts c)(sid \<mapsto> registered b c sid),
                     cp_submitting := insert sid (cp_submitting c), cp_owners := (cp_owners c)(sid \<mapsto> n),
                     cp_sends := cp_sends c @ [\<lparr>sf_id = sid, sf_pending = b, sf_epoch = epoch_now c, sf_account = cp_account c,
                       sf_phase = (if cp_owner c then SendPersisting else SendAwaitsDraft (cp_draft_writes c sid))\<rparr>]\<rparr>))))"

definition set_send :: "nat \<Rightarrow> send_phase \<Rightarrow> composer \<Rightarrow> composer" where
  "set_send n ph c = c\<lparr>cp_sends := (cp_sends c)[n := (cp_sends c ! n)\<lparr>sf_phase := ph\<rparr>]\<rparr>"

text \<open>The \<open>finally\<close> block.\<close>

definition release_submission :: "nat \<Rightarrow> composer \<Rightarrow> composer" where
  "release_submission n c =
     (let sid = sf_id (cp_sends c ! n) in
      if cp_owners c sid = Some n then c\<lparr>cp_owners := (cp_owners c)(sid := None), cp_submitting := cp_submitting c - {sid}\<rparr> else c)"

definition save_remaining :: "nat \<Rightarrow> composer \<Rightarrow> composer" where
  "save_remaining n c =
     (let f = cp_sends c ! n in
      if sf_epoch f \<noteq> epoch_now c then c
      else (case cp_drafts c (sf_id f) of
              Some d \<Rightarrow> if md_dirty d then save_draft (sf_id f) (md_text d) (epoch_now c) c else c
            | None \<Rightarrow> c))"

definition end_send :: "nat \<Rightarrow> composer \<Rightarrow> composer" where
  "end_send n c = mirror_draft (save_remaining n (release_submission n (set_send n SendDone c)))"

definition fail_send :: "nat \<Rightarrow> js_error \<Rightarrow> composer \<Rightarrow> composer" where
  "fail_send n e c = end_send n (report (sf_epoch (cp_sends c ! n)) e c)"

definition persisted_send :: "nat \<Rightarrow> unit js_result \<Rightarrow> composer \<Rightarrow> composer" where
  "persisted_send n r c =
     (case r of Inl e \<Rightarrow> fail_send n e c | Inr _ \<Rightarrow> set_send n (SendAwaitsDraft (cp_draft_writes c (sf_id (cp_sends c ! n)))) c)"

definition draft_done :: "composer \<Rightarrow> nat option \<Rightarrow> bool" where
  "draft_done c w = (case w of None \<Rightarrow> True | Some m \<Rightarrow> vf_phase (cp_saves c ! m) = SaveDone)"

definition drafts_written :: "nat \<Rightarrow> composer \<Rightarrow> composer" where
  "drafts_written n c = (if sf_epoch (cp_sends c ! n) \<noteq> epoch_now c then fail_send n lock_error c else set_send n SendQueued c)"

definition send_route :: "pending_submission \<Rightarrow> string" where
  "send_route b = (if sb_intent b = Some ''send'' then ''/turns'' else ''/queue'')"

definition start_send :: "nat \<Rightarrow> composer \<Rightarrow> composer" where
  "start_send n c =
     (let f = cp_sends c ! n in
      if sf_epoch f \<noteq> epoch_now c then fail_send n lock_error c
      else set_send n SendPosting (hold (sf_id f) (c\<lparr>cp_posts := cp_posts c @
             [\<lparr>po_flight = n, po_account = sf_account f, po_id = sf_id f, po_route = send_route (sf_pending f), po_pending = sf_pending f\<rparr>]\<rparr>)))"

text \<open>The local draft is still what was sent.\<close>

definition unchanged_since :: "pending_submission \<Rightarrow> message_draft option \<Rightarrow> bool" where
  "unchanged_since b local =
     (case local of None \<Rightarrow> True
      | Some d \<Rightarrow> md_text d = sb_prompt b \<and> same_context (md_context d) (Some (sb_context b)) \<and> or_empty (md_attachments d) = sb_attachments b)"

definition empty_draft :: message_draft where
  "empty_draft = \<lparr>md_text = [], md_saved = [], md_dirty = False, md_revision = None, md_context = Some [], md_saved_context = Some [],
     md_attachments = None, md_submission = None\<rparr>"

definition clear_sent :: "string \<Rightarrow> composer \<Rightarrow> composer" where
  "clear_sent sid c =
     (let c' = c\<lparr>cp_drafts := (cp_drafts c)(sid \<mapsto> empty_draft)\<rparr> in
      if cp_id c = Some sid then c'\<lparr>cp_draft := [], cp_context := [], cp_saved := [], cp_dirty := False, cp_images := [], cp_pending := None\<rparr> else c')"

definition finish_send :: "nat \<Rightarrow> composer \<Rightarrow> composer" where
  "finish_send n c =
     (let sid = sf_id (cp_sends c ! n);
          c1 = (case cp_drafts c sid of Some d \<Rightarrow> c\<lparr>cp_drafts := (cp_drafts c)(sid \<mapsto> d\<lparr>md_submission := None\<rparr>)\<rparr> | None \<Rightarrow> c);
          c2 = (if cp_id c = Some sid then c1\<lparr>cp_pending := None\<rparr> else c1)
      in end_send n (c2\<lparr>cp_refreshes := Suc (cp_refreshes c)\<rparr>))"

definition send_answered :: "nat \<Rightarrow> unit js_result \<Rightarrow> composer \<Rightarrow> composer" where
  "send_answered n r c =
     (let f = cp_sends c ! n; sid = sf_id f; c0 = let_go (sf_epoch f) sid c in
      case r of
        Inl e \<Rightarrow> fail_send n e c0
      | Inr _ \<Rightarrow>
          (let c1 = c0\<lparr>cp_accepted := insert (sf_account f, sid, sb_key (sf_pending f)) (cp_accepted c)\<rparr> in
           if sf_epoch f \<noteq> epoch_now c then fail_send n lock_error c1
           else if unchanged_since (sf_pending f) (cp_drafts c sid) then finish_send n (clear_sent sid c1)
           else set_send n SendRereading c1))"

definition send_reread :: "nat \<Rightarrow> host_draft js_result \<Rightarrow> composer \<Rightarrow> composer" where
  "send_reread n r c =
     (let f = cp_sends c ! n; sid = sf_id f; b = sf_pending f in
      case r of
        Inl e \<Rightarrow> fail_send n e c
      | Inr cur \<Rightarrow>
          if sf_epoch f \<noteq> epoch_now c then fail_send n lock_error c
          else if (hd_text cur = [] \<or> hd_text cur = sb_prompt b) \<and> (same_context (hd_context cur) (Some []) \<or> same_context (hd_context cur) (Some (sb_context b)))
          then (case cp_drafts c sid of
                  None \<Rightarrow> finish_send n c
                | Some d \<Rightarrow>
                    (let c1 = c\<lparr>cp_drafts := (cp_drafts c)(sid \<mapsto> d\<lparr>md_saved := hd_text cur, md_saved_context := Some (or_empty (hd_context cur))\<rparr>)\<rparr>
                     in finish_send n (if cp_id c = Some sid then c1\<lparr>cp_saved := hd_text cur\<rparr> else c1)))
          else finish_send n c)"

section \<open>The autosave timer, and the steps\<close>

definition draft_deps :: "composer \<Rightarrow> string \<times> jsval list \<times> string option" where
  "draft_deps c = (cp_draft c, cp_context c, map_option ses_id (cp_session c))"

text \<open>The effect that starts the timer of 500 ms runs when the draft, its context or the conversation changed.\<close>

definition retime :: "composer \<Rightarrow> composer \<Rightarrow> composer" where
  "retime before c =
     (if draft_deps c = draft_deps before then c
      else c\<lparr>cp_timer := (case cp_session c of Some s \<Rightarrow> if cp_dirty c then Some (ses_id s, cp_draft c, epoch_now c) else None | None \<Rightarrow> None)\<rparr>)"

definition timer_fires :: "composer \<Rightarrow> composer" where
  "timer_fires c = (case cp_timer c of Some (sid, t, e) \<Rightarrow> save_draft sid t e (c\<lparr>cp_timer := None\<rparr>) | None \<Rightarrow> c)"

definition lock_composer :: "composer \<Rightarrow> composer" where
  "lock_composer c = c\<lparr>cp_lock := \<lparr>wl_epoch = Suc (wl_epoch (cp_lock c)), wl_held = {}\<rparr>\<rparr>"

text \<open>A sign-out clears the registries of \<open>lib/drafts.ts\<close>; the panel goes with the account.\<close>

definition sign_out_composer :: "composer \<Rightarrow> composer" where
  "sign_out_composer c =
     lock_composer (c\<lparr>cp_drafts := Map.empty, cp_submitting := {}, cp_owners := Map.empty, cp_draft_writes := Map.empty, cp_consumed := {},
       cp_session := None, cp_id := None, cp_draft := [], cp_context := [], cp_images := [], cp_pending := None, cp_saved := [], cp_dirty := False,
       cp_error := None, cp_timer := None, cp_account := Suc (cp_account c)\<rparr>)"

definition set_props :: "bool \<Rightarrow> string option \<Rightarrow> string option \<Rightarrow> composer \<Rightarrow> composer" where
  "set_props owner latest problem c = c\<lparr>cp_owner := owner, cp_latest := latest, cp_blocked := problem\<rparr>"

end
