(* ===== verification/Sending.thy ===== *)
theory Sending
  imports Composer
begin

text \<open>
  Why the composer neither loses nor repeats a message: every event of \<open>Composer\<close> as a step, an
  invariant of its registries, and what follows from it. A request the host may not have taken stays
  registered under its key, so that what is sent next for its conversation is the same request.
\<close>

section \<open>Steps\<close>

definition send_in :: "nat \<Rightarrow> send_phase \<Rightarrow> composer \<Rightarrow> bool" where
  "send_in n ph c \<longleftrightarrow> n < length (cp_sends c) \<and> sf_phase (cp_sends c ! n) = ph"

definition save_in :: "nat \<Rightarrow> save_phase \<Rightarrow> composer \<Rightarrow> bool" where
  "save_in k ph c \<longleftrightarrow> k < length (cp_saves c) \<and> vf_phase (cp_saves c ! k) = ph"

text \<open>The queue comes to a write when nobody holds its conversation, or, to refuse it, when its epoch is over.\<close>

definition turn_of :: "nat \<Rightarrow> string \<Rightarrow> composer \<Rightarrow> bool" where
  "turn_of epoch sid c \<longleftrightarrow> epoch \<noteq> epoch_now c \<or> sid \<notin> wl_held (cp_lock c)"

text \<open>A submission made by \<open>send\<close>, in this window or in another.\<close>

definition made_by_send :: "pending_submission \<Rightarrow> bool" where
  "made_by_send b \<longleftrightarrow> sb_prompt b \<noteq> [] \<and> sb_key b \<noteq> [] \<and> (\<exists>i. sb_intent b = Some i \<and> i \<noteq> [])"

definition draft_from_send :: "message_draft option \<Rightarrow> bool" where
  "draft_from_send new \<longleftrightarrow> (\<forall>d b. new = Some d \<longrightarrow> md_submission d = Some b \<longrightarrow> made_by_send b)"

text \<open>What the user changes, here, in another window or by signing out.\<close>

inductive draft_edit :: "composer \<Rightarrow> composer \<Rightarrow> bool" where
  ev_edited: "draft_edit c (edit_draft t ctx c)"
| ev_images: "draft_edit c (edit_attachments_in shown next t ctx c)"
| ev_received: "draft_edit c (receive_context json_bytes i c)"
| ev_handed: "draft_from_send new \<Longrightarrow> draft_edit c (take_handoff sid new c)"
| ev_signed_out: "draft_edit c (sign_out_composer c)"

text \<open>And what happens by itself, or leaves drafts alone.\<close>

inductive quiet_event :: "composer \<Rightarrow> composer \<Rightarrow> bool" where
  ev_shown: "quiet_event c (show_session s c)"
| ev_props: "quiet_event c (set_props owner latest problem c)"
| ev_send: "uuid \<noteq> [] \<Longrightarrow> intent \<noteq> [] \<Longrightarrow> quiet_event c (begin_send intent uuid c)"
| ev_persisted: "send_in n SendPersisting c \<Longrightarrow> quiet_event c (persisted_send n u c)"
| ev_written: "send_in n (SendAwaitsDraft w) c \<Longrightarrow> draft_done c w \<Longrightarrow> quiet_event c (drafts_written n c)"
| ev_start: "send_in n SendQueued c \<Longrightarrow> turn_of (sf_epoch (cp_sends c ! n)) (sf_id (cp_sends c ! n)) c \<Longrightarrow> quiet_event c (start_send n c)"
| ev_answered: "send_in n SendPosting c \<Longrightarrow> quiet_event c (send_answered n u c)"
| ev_reread: "send_in n SendRereading c \<Longrightarrow> quiet_event c (send_reread n h c)"
| ev_timer: "quiet_event c (timer_fires c)"
| ev_resumed: "save_in k (SaveWaits m) c \<Longrightarrow> draft_done c (Some m) \<Longrightarrow> quiet_event c (resume_save k c)"
| ev_saving: "save_in k SaveQueued c \<Longrightarrow> turn_of (vf_epoch (cp_saves c ! k)) (vf_id (cp_saves c ! k)) c \<Longrightarrow> quiet_event c (start_save k c)"
| ev_save_read: "save_in k (SaveReading d) c \<Longrightarrow> quiet_event c (read_save k h c)"
| ev_saved: "save_in k SavePatching c \<Longrightarrow> quiet_event c (patched_save k h c)"
| ev_locked: "quiet_event c (lock_composer c)"
| ev_others: "wl_epoch l = epoch_now c \<Longrightarrow> quiet_event c (c\<lparr>cp_lock := l\<rparr>)"

inductive composer_event :: "composer \<Rightarrow> composer \<Rightarrow> bool" where
  by_edit: "draft_edit c c' \<Longrightarrow> composer_event c c'"
| by_itself: "quiet_event c c' \<Longrightarrow> composer_event c c'"

inductive composer_reachable :: "composer \<Rightarrow> bool" where
  composer_new: "composer_reachable no_composer"
| composer_stepped: "composer_reachable c \<Longrightarrow> composer_event c c' \<Longrightarrow> composer_reachable (retime c c')"

section \<open>The invariant\<close>

definition pending_of :: "composer \<Rightarrow> string \<Rightarrow> pending_submission option" where
  "pending_of c sid = (case cp_drafts c sid of Some d \<Rightarrow> md_submission d | None \<Rightarrow> None)"

text \<open>Two submissions of one message; which task an interruption names may be decided later.\<close>

definition same_message :: "pending_submission \<Rightarrow> pending_submission \<Rightarrow> bool" where
  "same_message a b \<longleftrightarrow> sb_key a = sb_key b \<and> sb_prompt a = sb_prompt b \<and> sb_context a = sb_context b \<and> sb_attachments a = sb_attachments b
     \<and> sb_intent a = sb_intent b"

lemma same_message_trans: "same_message a b \<Longrightarrow> same_message a c \<Longrightarrow> same_message b c"
  and same_message_refl [simp]: "same_message a a"
  by (simp_all add: same_message_def)

definition request_key :: "sent_message \<Rightarrow> nat \<times> string \<times> string" where
  "request_key p = (po_account p, po_id p, sb_key (po_pending p))"

definition flight_key :: "send_flight \<Rightarrow> nat \<times> string \<times> string" where
  "flight_key f = (sf_account f, sf_id f, sb_key (sf_pending f))"

text \<open>The flights of the account signed in that are still under way, but for the exception \<open>x\<close>.\<close>

definition live :: "nat option \<Rightarrow> composer \<Rightarrow> nat \<Rightarrow> bool" where
  "live x c n \<longleftrightarrow> n < length (cp_sends c) \<and> sf_phase (cp_sends c ! n) \<noteq> SendDone \<and> sf_account (cp_sends c ! n) = cp_account c \<and> x \<noteq> Some n"

definition live_inv :: "nat option \<Rightarrow> composer \<Rightarrow> bool" where
  "live_inv x c \<longleftrightarrow> (\<forall>n. live x c n \<longrightarrow> (let f = cp_sends c ! n in
     sf_id f \<in> cp_submitting c \<and> cp_owners c (sf_id f) = Some n \<and> pending_of c (sf_id f) = Some (sf_pending f)
     \<and> (sf_phase f = SendRereading \<longrightarrow> flight_key f \<in> cp_accepted c)))"

definition flight_inv :: "composer \<Rightarrow> bool" where
  "flight_inv c \<longleftrightarrow> (\<forall>f \<in> set (cp_sends c). made_by_send (sf_pending f) \<and> sf_account f \<le> cp_account c \<and> sf_epoch f \<le> epoch_now c
     \<and> (sf_epoch f = epoch_now c \<longrightarrow> sf_account f = cp_account c))"

definition mirror_inv :: "composer \<Rightarrow> bool" where
  "mirror_inv c \<longleftrightarrow> cp_id c = map_option ses_id (cp_session c)
     \<and> cp_pending c = Option.bind (cp_id c) (pending_of c)
     \<and> (\<forall>sid b. pending_of c sid = Some b \<longrightarrow> made_by_send b)"

definition open_inv :: "composer \<Rightarrow> bool" where
  "open_inv c \<longleftrightarrow> (\<forall>p \<in> set (cp_posts c). po_account p \<le> cp_account c
     \<and> (po_account p = cp_account c \<longrightarrow> request_key p \<notin> cp_accepted c \<longrightarrow> (\<exists>b. pending_of c (po_id p) = Some b \<and> same_message b (po_pending p))))"

definition log_inv :: "composer \<Rightarrow> bool" where
  "log_inv c \<longleftrightarrow> sorted_wrt (\<lambda>p q. po_account p = po_account q \<longrightarrow> po_id p = po_id q \<longrightarrow>
     request_key p \<in> cp_accepted c \<or> same_message (po_pending p) (po_pending q)) (cp_posts c)"

definition composer_inv :: "nat option \<Rightarrow> composer \<Rightarrow> bool" where
  "composer_inv x c \<longleftrightarrow> live_inv x c \<and> flight_inv c \<and> mirror_inv c \<and> open_inv c \<and> log_inv c"

lemmas composer_inv_defs = live_inv_def flight_inv_def mirror_inv_def open_inv_def log_inv_def

subsection \<open>Steps that leave the registries of submissions alone\<close>

definition same_core :: "composer \<Rightarrow> composer \<Rightarrow> bool" where
  "same_core c c' \<longleftrightarrow> pending_of c' = pending_of c \<and> cp_id c' = cp_id c \<and> map_option ses_id (cp_session c') = map_option ses_id (cp_session c)
     \<and> cp_pending c' = cp_pending c \<and> cp_submitting c' = cp_submitting c \<and> cp_owners c' = cp_owners c \<and> cp_account c' = cp_account c
     \<and> cp_sends c' = cp_sends c \<and> cp_posts c' = cp_posts c \<and> cp_accepted c' = cp_accepted c \<and> epoch_now c' = epoch_now c"

lemma same_core_inv: "composer_inv x c \<Longrightarrow> same_core c c' \<Longrightarrow> composer_inv x c'"
  by (simp add: composer_inv_def same_core_def composer_inv_defs live_def)

lemma same_core_trans: "same_core a b \<Longrightarrow> same_core b c \<Longrightarrow> same_core a c"
  and same_core_refl [simp]: "same_core c c"
  by (simp_all add: same_core_def)

lemma pending_of_update: "pending_of (c\<lparr>cp_drafts := (cp_drafts c)(sid \<mapsto> d)\<rparr>) = (pending_of c)(sid := md_submission d)"
  by (rule ext) (simp add: pending_of_def)

lemma pending_of_same: "cp_drafts c' = cp_drafts c \<Longrightarrow> pending_of c' = pending_of c"
  by (rule ext) (simp add: pending_of_def)

lemma pending_of_kept:
  "cp_drafts c' = (cp_drafts c)(sid \<mapsto> d) \<Longrightarrow> md_submission d = pending_of c sid \<Longrightarrow> pending_of c' = pending_of c"
  by (rule ext) (simp add: pending_of_def)

lemma epoch_now_same: "cp_lock c' = cp_lock c \<Longrightarrow> epoch_now c' = epoch_now c"
  by (simp add: epoch_now_def)

lemma core_hold: "same_core c (hold sid c)"
  and core_let_go: "same_core c (let_go e sid c)"
  and core_report: "same_core c (report e x c)"
  and core_set_save: "same_core c (set_save k ph c)"
  and core_props: "same_core c (set_props a b d c)"
  by (auto simp: same_core_def hold_def let_go_def report_def set_save_def set_props_def epoch_now_def pending_of_def)

lemma core_save_draft: "same_core c (save_draft sid t e c)"
  by (auto simp: same_core_def save_draft_def Let_def epoch_now_def pending_of_def split: option.split)

lemma core_resume_save: "same_core c (resume_save k c)"
  by (auto simp: same_core_def resume_save_def set_save_def Let_def epoch_now_def pending_of_def split: option.split)

lemma core_end_save: "same_core c (end_save k c)"
  by (auto simp: same_core_def end_save_def set_save_def Let_def epoch_now_def pending_of_def)

lemma core_fail_save: "same_core c (fail_save k e c)"
  unfolding fail_save_def by (rule same_core_trans [OF same_core_trans [OF core_let_go core_report] core_end_save])

lemma core_start_save: "same_core c (start_save k c)"
  using core_end_save same_core_trans [OF core_hold core_set_save] by (auto simp: start_save_def Let_def split: option.split)

lemma core_read_save: "same_core c (read_save k r c)"
proof -
  have "same_core c (set_save k SavePatching (c\<lparr>cp_patches := ps\<rparr>))" for ps
    by (rule same_core_trans [OF _ core_set_save]) (simp add: same_core_def epoch_now_def pending_of_def fun_eq_iff)
  then show ?thesis using core_fail_save by (auto simp: read_save_def Let_def split: save_phase.split sum.split)
qed

lemma core_patched_save: "same_core c (patched_save k r c)"
proof (cases r)
  case (Inl e)
  then show ?thesis using core_fail_save by (simp add: patched_save_def Let_def)
next
  case (Inr saved)
  let ?v = "cp_saves c ! k"
  let ?c' = "end_save k (let_go (vf_epoch ?v) (vf_id ?v) c)"
  have core: "same_core c ?c'" by (rule same_core_trans [OF core_let_go core_end_save])
  have "same_core c (?c'\<lparr>cp_drafts := (cp_drafts c)(sid \<mapsto> d)\<rparr>)"
    and "same_core c (?c'\<lparr>cp_drafts := (cp_drafts c)(sid \<mapsto> d), cp_saved := t, cp_dirty := b\<rparr>)"
    if "md_submission d = pending_of c sid" for sid d t b
    using core that by (auto simp: same_core_def pending_of_def fun_eq_iff epoch_now_def)
  then show ?thesis using Inr core core_fail_save
    by (auto simp: patched_save_def Let_def pending_of_def split: option.split)
qed

lemma core_edit_draft: "same_core c (edit_draft t ctx c)"
  by (auto simp: same_core_def edit_draft_def Let_def epoch_now_def pending_of_def fun_eq_iff split: option.split)

lemma core_attachments_in: "same_core c (edit_attachments_in shown next t ctx c)"
  by (auto simp: same_core_def edit_attachments_in_def Let_def epoch_now_def pending_of_def fun_eq_iff split: option.split)

lemma core_edit_attachments: "same_core c (edit_attachments next t ctx c)"
  by (simp add: edit_attachments_def core_attachments_in)

lemma core_receive: "same_core c (receive_context json_bytes i c)"
proof -
  have "same_core c (c\<lparr>cp_consumed := s\<rparr>)" "same_core c (c\<lparr>cp_reported := rs\<rparr>)" for s rs
    by (simp_all add: same_core_def epoch_now_def pending_of_def fun_eq_iff)
  moreover from this have "same_core c (edit_draft t x (c\<lparr>cp_consumed := s\<rparr>))" for t x s
    using core_edit_draft same_core_trans by blast
  ultimately have "same_core c (edit_attachments n t x (edit_draft u y (c\<lparr>cp_consumed := s\<rparr>)))"
    "same_core c (edit_attachments n t x (c\<lparr>cp_consumed := s\<rparr>))" "same_core c (edit_draft u y (c\<lparr>cp_consumed := s\<rparr>))"
    "same_core c (c\<lparr>cp_consumed := s\<rparr>)" "same_core c (c\<lparr>cp_reported := rs\<rparr>)" for n t x u y s rs
    using core_edit_attachments same_core_trans by blast+
  then show ?thesis by (simp add: receive_context_def Let_def split: option.split)
qed

lemma core_keep_dirty: "md_submission d = pending_of c sid \<Longrightarrow> same_core c (keep_dirty sid d c)"
  by (auto simp: same_core_def keep_dirty_def epoch_now_def pending_of_def fun_eq_iff)

lemma core_timer: "same_core c (timer_fires c)"
proof -
  have "same_core c (c\<lparr>cp_timer := None\<rparr>)" by (simp add: same_core_def epoch_now_def pending_of_def fun_eq_iff)
  then show ?thesis using core_save_draft same_core_trans by (auto simp: timer_fires_def split: option.split)
qed

lemma core_retime: "same_core c' (retime c c')"
  by (simp add: same_core_def retime_def epoch_now_def pending_of_def fun_eq_iff)

lemma core_save_remaining: "same_core c (save_remaining n c)"
  using core_save_draft by (auto simp: save_remaining_def Let_def split: option.split)

subsection \<open>Steps of a flight\<close>

lemma live_invD:
  assumes "live_inv x c" "live x c n"
  shows "sf_id (cp_sends c ! n) \<in> cp_submitting c" "cp_owners c (sf_id (cp_sends c ! n)) = Some n"
    "pending_of c (sf_id (cp_sends c ! n)) = Some (sf_pending (cp_sends c ! n))"
    "sf_phase (cp_sends c ! n) = SendRereading \<Longrightarrow> flight_key (cp_sends c ! n) \<in> cp_accepted c"
  using assms by (auto simp: live_inv_def Let_def)

lemma live_unique: "live_inv x c \<Longrightarrow> live x c m \<Longrightarrow> live x c n \<Longrightarrow> sf_id (cp_sends c ! m) = sf_id (cp_sends c ! n) \<Longrightarrow> m = n"
  by (metis live_invD(2) option.inject)

lemma set_send_fields [simp]:
  "pending_of (set_send n ph c) = pending_of c" "cp_id (set_send n ph c) = cp_id c" "cp_session (set_send n ph c) = cp_session c"
  "cp_pending (set_send n ph c) = cp_pending c" "cp_submitting (set_send n ph c) = cp_submitting c" "cp_owners (set_send n ph c) = cp_owners c"
  "cp_account (set_send n ph c) = cp_account c" "cp_posts (set_send n ph c) = cp_posts c" "cp_accepted (set_send n ph c) = cp_accepted c"
  "epoch_now (set_send n ph c) = epoch_now c" "length (cp_sends (set_send n ph c)) = length (cp_sends c)" "cp_drafts (set_send n ph c) = cp_drafts c"
  by (simp_all add: set_send_def epoch_now_def pending_of_def fun_eq_iff)

lemma set_send_nth: "n < length (cp_sends c) \<Longrightarrow> cp_sends (set_send n ph c) ! m = (if m = n then (cp_sends c ! n)\<lparr>sf_phase := ph\<rparr> else cp_sends c ! m)"
  by (auto simp: set_send_def)

lemma set_send_id: "n < length (cp_sends c) \<Longrightarrow> sf_id (cp_sends (set_send n ph c) ! m) = sf_id (cp_sends c ! m)"
  and set_send_epoch: "n < length (cp_sends c) \<Longrightarrow> sf_epoch (cp_sends (set_send n ph c) ! m) = sf_epoch (cp_sends c ! m)"
  by (simp_all add: set_send_nth)

lemma flight_set_send: "flight_inv c \<Longrightarrow> n < length (cp_sends c) \<Longrightarrow> flight_inv (set_send n ph c)"
  by (simp add: flight_inv_def all_set_conv_all_nth set_send_nth)

lemma set_send_inv:
  assumes "composer_inv x c" "n < length (cp_sends c)"
    and "ph \<noteq> SendDone \<Longrightarrow> sf_phase (cp_sends c ! n) \<noteq> SendDone" "ph = SendRereading \<Longrightarrow> flight_key (cp_sends c ! n) \<in> cp_accepted c"
  shows "composer_inv x (set_send n ph c)"
proof -
  have "live_inv x (set_send n ph c)"
    using assms by (auto simp: composer_inv_def live_inv_def live_def set_send_nth flight_key_def Let_def split: if_splits)
  then show ?thesis using assms(1,2) flight_set_send by (simp add: composer_inv_def mirror_inv_def open_inv_def log_inv_def)
qed

lemma inv_except: "composer_inv None c \<Longrightarrow> composer_inv (Some n) c"
  by (auto simp: composer_inv_def live_inv_def live_def)

lemma mirror_core: "mirror_inv c \<Longrightarrow> same_core c (mirror_draft c)"
proof (cases "cp_id c")
  case None
  then show "mirror_inv c \<Longrightarrow> same_core c (mirror_draft c)"
    by (simp add: same_core_def mirror_draft_def mirror_inv_def epoch_now_def pending_of_def fun_eq_iff)
next
  case (Some sid)
  moreover assume "mirror_inv c"
  ultimately have "cp_pending c = pending_of c sid" by (simp add: mirror_inv_def)
  then show ?thesis using Some
    by (cases "cp_drafts c sid") (simp_all add: same_core_def mirror_draft_def epoch_now_def pending_of_def fun_eq_iff)
qed

lemma released_inv:
  assumes "composer_inv None c" "n < length (cp_sends c)" "sf_phase (cp_sends c ! n) = SendDone"
  shows "composer_inv None (release_submission n c)"
proof (cases "cp_owners c (sf_id (cp_sends c ! n)) = Some n")
  case True
  have "sf_id (cp_sends c ! m) \<noteq> sf_id (cp_sends c ! n)" if "live None c m" for m
  proof
    assume same: "sf_id (cp_sends c ! m) = sf_id (cp_sends c ! n)"
    have "cp_owners c (sf_id (cp_sends c ! m)) = Some m" using live_invD(2) [of None c m] that assms(1) by (simp add: composer_inv_def)
    with same True have "m = n" by simp
    with that assms(3) show False by (simp add: live_def)
  qed
  then have "live_inv None (release_submission n c)"
    using assms(1) True by (simp add: release_submission_def Let_def composer_inv_def live_inv_def live_def pending_of_def)
  moreover have "pending_of (release_submission n c) = pending_of c" by (rule pending_of_same) (simp add: release_submission_def Let_def)
  then have "flight_inv (release_submission n c)" "mirror_inv (release_submission n c)" "open_inv (release_submission n c)" "log_inv (release_submission n c)"
    using assms(1) True
    by (simp_all add: composer_inv_def flight_inv_def mirror_inv_def open_inv_def log_inv_def release_submission_def Let_def epoch_now_def)
  ultimately show ?thesis by (simp add: composer_inv_def)
qed (use assms(1) in \<open>simp add: release_submission_def\<close>)

lemma end_send_inv:
  assumes "composer_inv (Some n) c" "n < length (cp_sends c)"
  shows "composer_inv None (end_send n c)"
proof -
  let ?c1 = "set_send n SendDone c"
  have "composer_inv (Some n) ?c1" by (rule set_send_inv [OF assms]) simp_all
  moreover have "live None ?c1 m \<longleftrightarrow> live (Some n) ?c1 m" for m using assms(2) by (auto simp: live_def set_send_nth)
  ultimately have "composer_inv None ?c1" by (simp add: composer_inv_def live_inv_def)
  then have "composer_inv None (release_submission n ?c1)" by (rule released_inv) (simp_all add: assms(2) set_send_nth)
  then have saved: "composer_inv None (save_remaining n (release_submission n ?c1))" by (rule same_core_inv [OF _ core_save_remaining])
  then show ?thesis unfolding end_send_def by (rule same_core_inv) (use saved mirror_core in \<open>simp add: composer_inv_def\<close>)
qed

lemma fail_send_inv:
  assumes "composer_inv None c" "n < length (cp_sends c)" shows "composer_inv None (fail_send n e c)"
proof -
  have "composer_inv (Some n) (report (sf_epoch (cp_sends c ! n)) e c)" by (rule same_core_inv [OF inv_except [OF assms(1)] core_report])
  then show ?thesis unfolding fail_send_def by (rule end_send_inv) (use assms(2) in \<open>simp add: report_def\<close>)
qed

text \<open>Everything sent for the conversation of the \<open>n\<close>th flight was taken by the host, and no other flight is under way for it.\<close>

definition settled_for :: "nat \<Rightarrow> composer \<Rightarrow> bool" where
  "settled_for n c \<longleftrightarrow> n < length (cp_sends c)
     \<and> (\<forall>p \<in> set (cp_posts c). po_account p = cp_account c \<longrightarrow> po_id p = sf_id (cp_sends c ! n) \<longrightarrow> request_key p \<in> cp_accepted c)
     \<and> (\<forall>m. live (Some n) c m \<longrightarrow> sf_id (cp_sends c ! m) \<noteq> sf_id (cp_sends c ! n))"

lemma settled_forI:
  assumes "composer_inv None c" "live None c n" "flight_key (cp_sends c ! n) \<in> cp_accepted c"
  shows "settled_for n c"
proof -
  have inv: "live_inv None c" "open_inv c" using assms(1) by (simp_all add: composer_inv_def)
  have "request_key p \<in> cp_accepted c" if p: "p \<in> set (cp_posts c)" "po_account p = cp_account c" "po_id p = sf_id (cp_sends c ! n)" for p
  proof (rule ccontr)
    assume "request_key p \<notin> cp_accepted c"
    then have "same_message (sf_pending (cp_sends c ! n)) (po_pending p)"
      using inv(2) p live_invD(3) [OF inv(1) assms(2)] by (auto simp: open_inv_def)
    then have "request_key p = flight_key (cp_sends c ! n)"
      using p assms(2) by (simp add: request_key_def flight_key_def same_message_def live_def)
    then show False using \<open>request_key p \<notin> cp_accepted c\<close> assms(3) by simp
  qed
  moreover have "sf_id (cp_sends c ! m) \<noteq> sf_id (cp_sends c ! n)" if "live (Some n) c m" for m
    using live_unique [OF inv(1), of m n] that assms(2) by (auto simp: live_def)
  ultimately show ?thesis using assms(2) by (simp add: settled_for_def live_def)
qed

text \<open>Then the submission may be dropped.\<close>

definition drops :: "string \<Rightarrow> composer \<Rightarrow> composer \<Rightarrow> bool" where
  "drops sid c c' \<longleftrightarrow> pending_of c' = (pending_of c)(sid := None) \<and> cp_id c' = cp_id c \<and> cp_session c' = cp_session c
     \<and> cp_pending c' = (if cp_id c = Some sid then None else cp_pending c) \<and> cp_submitting c' = cp_submitting c \<and> cp_owners c' = cp_owners c
     \<and> cp_account c' = cp_account c \<and> cp_sends c' = cp_sends c \<and> cp_posts c' = cp_posts c \<and> cp_accepted c' = cp_accepted c \<and> epoch_now c' = epoch_now c"

lemma drops_inv:
  assumes "composer_inv (Some n) c" "settled_for n c" "drops (sf_id (cp_sends c ! n)) c c'"
  shows "composer_inv (Some n) c' \<and> settled_for n c'"
proof -
  let ?sid = "sf_id (cp_sends c ! n)"
  have fields: "pending_of c' = (pending_of c)(?sid := None)" "cp_id c' = cp_id c" "cp_session c' = cp_session c"
    "cp_pending c' = (if cp_id c = Some ?sid then None else cp_pending c)" "cp_submitting c' = cp_submitting c" "cp_owners c' = cp_owners c"
    "cp_account c' = cp_account c" "cp_sends c' = cp_sends c" "cp_posts c' = cp_posts c" "cp_accepted c' = cp_accepted c" "epoch_now c' = epoch_now c"
    using assms(3) by (simp_all add: drops_def)
  have same_live: "live (Some n) c' m \<longleftrightarrow> live (Some n) c m" for m by (simp add: live_def fields)
  have "settled_for n c'" using assms(2) by (simp add: settled_for_def same_live fields)
  moreover have "live_inv (Some n) c'" "flight_inv c'" "log_inv c'"
    using assms(1,2) by (auto simp: composer_inv_def live_inv_def flight_inv_def log_inv_def same_live fields settled_for_def)
  moreover have "mirror_inv c'" using assms(1) by (cases "cp_session c") (auto simp: composer_inv_def mirror_inv_def fields)
  moreover have "open_inv c'" using assms(1,2) by (auto simp: composer_inv_def open_inv_def fields settled_for_def)
  ultimately show ?thesis by (simp add: composer_inv_def)
qed

lemma drops_clear: "drops sid c (clear_sent sid c)"
  by (auto simp: drops_def clear_sent_def Let_def pending_of_def fun_eq_iff epoch_now_def empty_draft_def)

lemma drops_finish:
  assumes "mirror_inv c"
  shows "drops sid c (let c1 = (case cp_drafts c sid of Some d \<Rightarrow> c\<lparr>cp_drafts := (cp_drafts c)(sid \<mapsto> d\<lparr>md_submission := None\<rparr>)\<rparr> | None \<Rightarrow> c);
      c2 = (if cp_id c = Some sid then c1\<lparr>cp_pending := None\<rparr> else c1) in c2\<lparr>cp_refreshes := k\<rparr>)"
  by (auto simp: drops_def Let_def pending_of_def fun_eq_iff epoch_now_def split: option.split)

lemma finish_send_inv:
  assumes "composer_inv (Some n) c" "settled_for n c"
  shows "composer_inv None (finish_send n c)"
proof -
  let ?sid = "sf_id (cp_sends c ! n)"
  let ?c' = "let c1 = (case cp_drafts c ?sid of Some d \<Rightarrow> c\<lparr>cp_drafts := (cp_drafts c)(?sid \<mapsto> d\<lparr>md_submission := None\<rparr>)\<rparr> | None \<Rightarrow> c);
      c2 = (if cp_id c = Some ?sid then c1\<lparr>cp_pending := None\<rparr> else c1) in c2\<lparr>cp_refreshes := Suc (cp_refreshes c)\<rparr>"
  have "drops ?sid c ?c'" using drops_finish assms(1) by (simp add: composer_inv_def)
  then have "composer_inv (Some n) ?c' \<and> settled_for n ?c'" by (rule drops_inv [OF assms])
  then show ?thesis using end_send_inv [of n ?c'] by (simp add: finish_send_def Let_def settled_for_def)
qed

lemma accept_inv:
  assumes "composer_inv x c" shows "composer_inv x (c\<lparr>cp_accepted := insert k (cp_accepted c)\<rparr>)"
proof -
  have "sorted_wrt (\<lambda>p q. po_account p = po_account q \<longrightarrow> po_id p = po_id q \<longrightarrow>
     request_key p \<in> insert k (cp_accepted c) \<or> same_message (po_pending p) (po_pending q)) (cp_posts c)"
    using assms by (auto simp: composer_inv_def log_inv_def elim!: sorted_wrt_mono_rel [rotated])
  moreover have "pending_of (c\<lparr>cp_accepted := insert k (cp_accepted c)\<rparr>) = pending_of c" by (simp add: pending_of_def fun_eq_iff)
  ultimately show ?thesis using assms
    by (auto simp: composer_inv_def live_inv_def flight_inv_def mirror_inv_def open_inv_def log_inv_def live_def epoch_now_def Let_def)
qed

lemma live_when_current:
  assumes "composer_inv None c" "send_in n ph c" "ph \<noteq> SendDone" "sf_epoch (cp_sends c ! n) = epoch_now c"
  shows "live None c n"
  using assms by (auto simp: composer_inv_def flight_inv_def live_def send_in_def)

lemma answered_inv:
  assumes inv: "composer_inv None c" and ph: "send_in n SendPosting c"
  shows "composer_inv None (send_answered n r c)"
proof -
  let ?f = "cp_sends c ! n" and ?c0 = "let_go (sf_epoch (cp_sends c ! n)) (sf_id (cp_sends c ! n)) c"
  let ?c1 = "?c0\<lparr>cp_accepted := insert (flight_key ?f) (cp_accepted c)\<rparr>"
  have c0: "composer_inv None ?c0" by (rule same_core_inv [OF inv core_let_go])
  have sends: "cp_sends ?c0 = cp_sends c" "cp_accepted ?c0 = cp_accepted c" "epoch_now ?c0 = epoch_now c" "cp_drafts ?c0 = cp_drafts c"
    by (simp_all add: let_go_def epoch_now_def)
  have n: "n < length (cp_sends c)" using ph by (simp add: send_in_def)
  have c1: "composer_inv None ?c1" using accept_inv [OF c0, of "flight_key ?f"] by (simp add: sends)
  show ?thesis
  proof (cases r)
    case (Inl e)
    then show ?thesis using fail_send_inv [OF c0] n by (simp add: send_answered_def Let_def sends)
  next
    case (Inr u)
    show ?thesis
    proof (cases "sf_epoch ?f = epoch_now c")
      case False
      then show ?thesis using Inr fail_send_inv [OF c1] n by (simp add: send_answered_def Let_def sends flight_key_def)
    next
      case True
      have now: "epoch_now ?c1 = epoch_now c" using sends(3) by (simp add: epoch_now_def)
      have live: "live None ?c1 n"
        by (rule live_when_current [OF c1, of n SendPosting]) (use ph True sends now in \<open>simp_all add: send_in_def\<close>)
      have settled: "settled_for n ?c1" by (rule settled_forI [OF c1 live]) (simp add: sends)
      have "composer_inv (Some n) (clear_sent (sf_id ?f) ?c1) \<and> settled_for n (clear_sent (sf_id ?f) ?c1)"
        by (rule drops_inv [OF inv_except [OF c1] settled]) (simp add: sends drops_clear)
      then have "composer_inv None (finish_send n (clear_sent (sf_id ?f) ?c1))" by (simp add: finish_send_inv)
      moreover have "composer_inv None (set_send n SendRereading ?c1)"
        by (rule set_send_inv [OF c1]) (use n ph sends in \<open>simp_all add: send_in_def\<close>)
      ultimately show ?thesis using Inr True by (simp add: send_answered_def Let_def flight_key_def)
    qed
  qed
qed

lemma reread_inv:
  assumes inv: "composer_inv None c" and ph: "send_in n SendRereading c"
  shows "composer_inv None (send_reread n r c)"
proof (cases "\<exists>cur. r = Inr cur \<and> sf_epoch (cp_sends c ! n) = epoch_now c")
  case False
  then show ?thesis using fail_send_inv [OF inv] ph by (auto simp: send_reread_def send_in_def Let_def split: sum.split)
next
  case True
  then obtain cur where cur: "r = Inr cur" "sf_epoch (cp_sends c ! n) = epoch_now c" by blast
  have finish: "composer_inv None (finish_send n c')" if "same_core c c'" for c'
  proof -
    have inv': "composer_inv None c'" by (rule same_core_inv [OF inv that])
    have sends: "cp_sends c' = cp_sends c" "epoch_now c' = epoch_now c" using that by (simp_all add: same_core_def)
    have live: "live None c' n" by (rule live_when_current [OF inv', of n SendRereading]) (use ph cur sends in \<open>simp_all add: send_in_def\<close>)
    then have "settled_for n c'"
      by (rule settled_forI [OF inv']) (use live_invD(4) [OF _ live] inv' ph sends in \<open>simp add: composer_inv_def send_in_def\<close>)
    then show ?thesis by (rule finish_send_inv [OF inv_except [OF inv']])
  qed
  have "same_core c (c\<lparr>cp_drafts := (cp_drafts c)(sid \<mapsto> d)\<rparr>)" "same_core c (c\<lparr>cp_drafts := (cp_drafts c)(sid \<mapsto> d), cp_saved := t\<rparr>)"
    if "md_submission d = pending_of c sid" for sid d t
    using that by (auto simp: same_core_def pending_of_def fun_eq_iff epoch_now_def)
  then show ?thesis using cur finish same_core_refl
    by (auto simp: send_reread_def Let_def pending_of_def split: option.split)
qed

lemma start_send_inv:
  assumes inv: "composer_inv None c" and ph: "send_in n SendQueued c"
  shows "composer_inv None (start_send n c)"
proof (cases "sf_epoch (cp_sends c ! n) = epoch_now c")
  case False
  then show ?thesis using fail_send_inv [OF inv] ph by (simp add: start_send_def send_in_def Let_def)
next
  case True
  let ?f = "cp_sends c ! n"
  let ?p = "\<lparr>po_flight = n, po_account = sf_account ?f, po_id = sf_id ?f, po_route = send_route (sf_pending ?f), po_pending = sf_pending ?f\<rparr>"
  let ?c1 = "c\<lparr>cp_posts := cp_posts c @ [?p]\<rparr>"
  have live: "live None c n" by (rule live_when_current [OF inv ph _ True]) simp
  have parts: "live_inv None c" "open_inv c" "log_inv c" using inv by (simp_all add: composer_inv_def)
  have registered: "pending_of c (sf_id ?f) = Some (sf_pending ?f)" by (rule live_invD(3) [OF parts(1) live])
  have account: "sf_account ?f = cp_account c" using live by (simp add: live_def)
  have same: "pending_of ?c1 = pending_of c" by (simp add: pending_of_def fun_eq_iff)
  have "request_key q \<in> cp_accepted c \<or> same_message (po_pending q) (sf_pending ?f)"
    if "q \<in> set (cp_posts c)" "po_account q = sf_account ?f" "po_id q = sf_id ?f" for q
    using parts(2) that registered account by (auto simp: open_inv_def same_message_def)
  then have "log_inv ?c1" using parts(3) by (auto simp: log_inv_def sorted_wrt_append)
  moreover have "open_inv ?c1" using parts(2) registered account same by (auto simp: open_inv_def)
  moreover have "live_inv None ?c1" "flight_inv ?c1" "mirror_inv ?c1"
    using inv same by (auto simp: composer_inv_def live_inv_def live_def flight_inv_def mirror_inv_def epoch_now_def Let_def)
  ultimately have "composer_inv None ?c1" by (simp add: composer_inv_def)
  then have "composer_inv None (hold (sf_id ?f) ?c1)" by (rule same_core_inv [OF _ core_hold])
  then have "composer_inv None (set_send n SendPosting (hold (sf_id ?f) ?c1))"
    by (rule set_send_inv) (use ph in \<open>simp_all add: send_in_def hold_def\<close>)
  then show ?thesis using True by (simp add: start_send_def Let_def)
qed

subsection \<open>The other events\<close>

lemma mirror_invD:
  assumes "composer_inv x c" "cp_session c = Some s"
  shows "cp_id c = Some (ses_id s)" "cp_pending c = pending_of c (ses_id s)"
  using assms by (simp_all add: composer_inv_def mirror_inv_def)

lemma submission_made:
  assumes "uuid \<noteq> []" "intent \<noteq> []" "\<And>b. cp_pending c = Some b \<Longrightarrow> made_by_send b" "cp_pending c \<noteq> None \<or> trim (cp_draft c) \<noteq> []"
  shows "made_by_send (submission_of intent uuid c)" "cp_pending c = Some b \<Longrightarrow> same_message b (submission_of intent uuid c)"
proof -
  have "trim [] = []" by (simp add: trim_def)
  then have "cp_pending c = None \<Longrightarrow> cp_draft c \<noteq> []" using assms(4) by auto
  then show "made_by_send (submission_of intent uuid c)"
    using assms(1-3) by (cases "cp_pending c") (auto simp: made_by_send_def submission_of_def or_text_def truthy_text_def Let_def)
  show "cp_pending c = Some b \<Longrightarrow> same_message b (submission_of intent uuid c)"
    using assms(3) [of b] by (auto simp: made_by_send_def submission_of_def same_message_def or_text_def truthy_text_def Let_def)
qed

lemma open_inv_carried:
  assumes "open_inv c" "\<And>p :: sent_message. \<exists>b. pending_of c (po_id p) = Some b \<and> same_message b (po_pending p) \<Longrightarrow>
      \<exists>b. pending_of c' (po_id p) = Some b \<and> same_message b (po_pending p)"
    and "cp_posts c' = cp_posts c" "cp_account c' = cp_account c" "cp_accepted c' = cp_accepted c"
  shows "open_inv c'"
proof -
  have "\<exists>b. pending_of c' (po_id p) = Some b \<and> same_message b (po_pending p)"
    if "p \<in> set (cp_posts c)" "po_account p = cp_account c" "request_key p \<notin> cp_accepted c" for p
    by (rule assms(2)) (use assms(1) that in \<open>simp add: open_inv_def\<close>)
  then show ?thesis using assms(1) by (simp add: open_inv_def assms(3-5))
qed

lemma begin_send_inv:
  assumes inv: "composer_inv None c" and new: "uuid \<noteq> []" "intent \<noteq> []"
  shows "composer_inv None (begin_send intent uuid c)"
proof (cases "cp_session c")
  case (Some s)
  let ?sid = "ses_id s" and ?b = "submission_of intent uuid c" and ?n = "length (cp_sends c)"
  let ?f = "\<lparr>sf_id = ?sid, sf_pending = ?b, sf_epoch = epoch_now c, sf_account = cp_account c,
      sf_phase = (if cp_owner c then SendPersisting else SendAwaitsDraft (cp_draft_writes c ?sid))\<rparr>"
  let ?c1 = "c\<lparr>cp_pending := Some ?b, cp_drafts := (cp_drafts c)(?sid \<mapsto> registered ?b c ?sid), cp_submitting := insert ?sid (cp_submitting c),
      cp_owners := (cp_owners c)(?sid \<mapsto> ?n), cp_sends := cp_sends c @ [?f]\<rparr>"
  have parts: "live_inv None c" "flight_inv c" "mirror_inv c" "open_inv c" "log_inv c" using inv by (simp_all add: composer_inv_def)
  have shown: "cp_id c = Some ?sid" "cp_pending c = pending_of c ?sid" by (rule mirror_invD [OF inv Some])+
  have wf: "cp_pending c = Some b \<Longrightarrow> made_by_send b" for b using parts(3) shown by (simp add: mirror_inv_def)
  show ?thesis
  proof (cases "(trim (cp_draft c) = [] \<and> cp_pending c = None) \<or> ?sid \<in> cp_submitting c \<or> cp_blocked c \<noteq> None")
    case True
    have "same_core c (c\<lparr>cp_error := e\<rparr>)" for e by (simp add: same_core_def epoch_now_def pending_of_def fun_eq_iff)
    then show ?thesis using True Some inv same_core_inv [OF inv] by (auto simp: begin_send_def Let_def split: option.split)
  next
    case False
    then have made: "made_by_send ?b" "\<And>b. cp_pending c = Some b \<Longrightarrow> same_message b ?b"
      using submission_made [OF new wf] by blast+
    have pend: "pending_of ?c1 = (pending_of c)(?sid := Some ?b)"
      by (rule ext) (simp add: pending_of_def registered_def split: option.split)
    have old: "sf_id (cp_sends c ! m) \<noteq> ?sid" if "live None c m" for m
      using live_invD(1) [OF parts(1) that] False by auto
    have live: "live None ?c1 m \<longleftrightarrow> live None c m \<or> m = ?n" for m
      by (auto simp: live_def nth_append)
    have "live_inv None ?c1"
      unfolding live_inv_def Let_def
    proof (intro allI impI)
      fix m assume "live None ?c1 m"
      then consider "live None c m" "m < ?n" | "m = ?n" using live by (auto simp: live_def)
      then show "sf_id (cp_sends ?c1 ! m) \<in> cp_submitting ?c1 \<and> cp_owners ?c1 (sf_id (cp_sends ?c1 ! m)) = Some m
          \<and> pending_of ?c1 (sf_id (cp_sends ?c1 ! m)) = Some (sf_pending (cp_sends ?c1 ! m))
          \<and> (sf_phase (cp_sends ?c1 ! m) = SendRereading \<longrightarrow> flight_key (cp_sends ?c1 ! m) \<in> cp_accepted ?c1)"
      proof cases
        case 1
        then show ?thesis using live_invD [OF parts(1) 1(1)] old [OF 1(1)] unfolding pend by (simp add: nth_append)
      qed (simp add: pend)
    qed
    moreover have "flight_inv ?c1" using parts(2) made(1) by (auto simp: flight_inv_def epoch_now_def)
    moreover have "mirror_inv ?c1" using parts(3) shown(1) made(1) Some unfolding mirror_inv_def pend by simp
    moreover have "open_inv ?c1"
    proof -
      have "\<exists>b. pending_of ?c1 (po_id p) = Some b \<and> same_message b (po_pending p)"
        if "\<exists>b. pending_of c (po_id p) = Some b \<and> same_message b (po_pending p)" for p :: sent_message
      proof (cases "po_id p = ?sid")
        case True
        then show ?thesis using that made(2) shown(2) unfolding pend by (auto intro: same_message_trans)
      qed (use that in \<open>simp add: pend\<close>)
      then show ?thesis by (rule open_inv_carried [OF parts(4)]) simp_all
    qed
    moreover have "log_inv ?c1" using parts(5) by (simp add: log_inv_def)
    ultimately have c1: "composer_inv None ?c1" by (simp add: composer_inv_def)
    then have "composer_inv None (mirror_draft ?c1)"
      by (rule same_core_inv) (use c1 mirror_core in \<open>simp add: composer_inv_def\<close>)
    then show ?thesis using Some False by (auto simp: begin_send_def Let_def)
  qed
qed (use inv in \<open>simp add: begin_send_def\<close>)

text \<open>Another conversation is shown: only the mirror moves.\<close>

lemma moved_inv:
  assumes "composer_inv None c" "pending_of c' = pending_of c" "cp_id c' = map_option ses_id (cp_session c')"
    "cp_pending c' = Option.bind (cp_id c') (pending_of c)" "cp_submitting c' = cp_submitting c" "cp_owners c' = cp_owners c"
    "cp_account c' = cp_account c" "cp_sends c' = cp_sends c" "cp_posts c' = cp_posts c" "cp_accepted c' = cp_accepted c" "epoch_now c' = epoch_now c"
  shows "composer_inv None c'"
proof -
  have "live_inv None c'" "flight_inv c'" "open_inv c'" "log_inv c'"
    using assms by (simp_all add: composer_inv_def live_inv_def live_def flight_inv_def open_inv_def log_inv_def)
  moreover have "mirror_inv c'" using assms(1) unfolding mirror_inv_def assms(2-4) by (simp add: composer_inv_def mirror_inv_def)
  ultimately show ?thesis by (simp add: composer_inv_def)
qed

lemma switch_inv:
  assumes inv: "composer_inv None c" shows "composer_inv None (switch_session s c)"
proof -
  define c1 where "c1 = (case cp_id c of None \<Rightarrow> c
         | Some previous \<Rightarrow> (case cp_drafts c previous of
             Some old \<Rightarrow> if md_dirty old then save_draft previous (md_text old) (epoch_now c) c else c
           | None \<Rightarrow> c))"
  have "cp_drafts (save_draft i t e c) = cp_drafts c" for i t e by (simp add: save_draft_def Let_def split: option.split)
  then have c1: "same_core c c1" "cp_drafts c1 = cp_drafts c"
    by (simp_all add: c1_def core_save_draft split: option.split)
  have inv1: "composer_inv None c1" by (rule same_core_inv [OF inv c1(1)])
  have pend: "pending_of c1 = pending_of c" using c1(1) by (simp add: same_core_def)
  show ?thesis
  proof (cases "cached_draft s c")
    case None
    then have "Option.bind (map_option ses_id s) (pending_of c) = None"
      by (cases s) (simp_all add: cached_draft_def pending_of_def)
    then have "composer_inv None (c1\<lparr>cp_session := s, cp_id := map_option ses_id s, cp_error := None, cp_draft := session_text s,
        cp_context := or_empty (session_context s), cp_saved := session_text s, cp_dirty := False, cp_images := [], cp_pending := None\<rparr>)"
      by (intro moved_inv [OF inv1]) (simp_all add: pend epoch_now_def pending_of_def fun_eq_iff c1(2))
    then show ?thesis using None by (simp add: switch_session_def Let_def c1_def [symmetric])
  next
    case (Some d)
    then obtain x where x: "s = Some x" "cp_drafts c (ses_id x) = Some d" by (cases s) (auto simp: cached_draft_def)
    let ?c2 = "c1\<lparr>cp_session := s, cp_id := map_option ses_id s, cp_error := None, cp_draft := md_text d, cp_context := or_empty (md_context d),
        cp_saved := md_saved d, cp_dirty := counts_dirty d, cp_images := or_empty (md_attachments d), cp_pending := md_submission d\<rparr>"
    have "composer_inv None ?c2"
      by (intro moved_inv [OF inv1]) (simp_all add: pend epoch_now_def pending_of_def fun_eq_iff x c1(2))
    then have "composer_inv None (keep_dirty (ses_id x) d ?c2)"
      by (rule same_core_inv) (rule core_keep_dirty, simp add: pending_of_def c1(2) x)
    then show ?thesis using Some x by (simp add: switch_session_def Let_def c1_def [symmetric])
  qed
qed

lemma core_refresh: "map_option ses_id s = cp_id c \<Longrightarrow> cp_id c = map_option ses_id (cp_session c) \<Longrightarrow> same_core c (refresh_session_draft s c)"
proof -
  assume same: "map_option ses_id s = cp_id c" "cp_id c = map_option ses_id (cp_session c)"
  have core: "same_core c (c\<lparr>cp_session := s, cp_draft := t, cp_context := ctx, cp_saved := v\<rparr>)"
    "same_core c (c\<lparr>cp_session := s, cp_draft := t, cp_context := ctx, cp_saved := v, cp_dirty := b\<rparr>)" "same_core c (c\<lparr>cp_session := s\<rparr>)" for t ctx v b
    using same by (simp_all add: same_core_def epoch_now_def pending_of_def fun_eq_iff)
  have "same_core c (keep_dirty (the (map_option ses_id s)) d (c\<lparr>cp_session := s, cp_draft := t, cp_context := ctx, cp_saved := v, cp_dirty := b\<rparr>))"
    if "cached_draft s c = Some d" for d t ctx v b
    by (rule same_core_trans [OF core(2) core_keep_dirty]) (use that in \<open>cases s; simp add: cached_draft_def pending_of_def\<close>)
  then show ?thesis using core by (simp add: refresh_session_draft_def Let_def split: option.split)
qed

lemma show_inv:
  assumes "composer_inv None c" shows "composer_inv None (show_session s c)"
  using switch_inv [OF assms] same_core_inv [OF assms core_refresh] assms
  by (auto simp: show_session_def composer_inv_def mirror_inv_def)

lemma handoff_inv:
  assumes inv: "composer_inv None c" and new: "draft_from_send new"
  shows "composer_inv None (take_handoff sid new c)"
proof (cases "\<exists>d store. new = Some d \<and> accept_transferred sid new (cp_drafts c) = Inr store")
  case False
  then have "take_handoff sid new c = c"
    by (cases new) (auto simp: take_handoff_def accept_transferred_def split: sum.split)
  then show ?thesis using inv by simp
next
  case True
  then obtain d store where d: "new = Some d" "accept_transferred sid (Some d) (cp_drafts c) = Inr store" by auto
  then have store: "store = (cp_drafts c)(sid \<mapsto> d)" and kept: "\<And>b. pending_of c sid = Some b \<Longrightarrow> md_submission d = Some b"
    by (auto simp: accept_transferred_def hides_unsent_def pending_of_def split: option.splits if_splits)
  let ?c' = "take_handoff sid new c"
  have pend: "pending_of ?c' = (pending_of c)(sid := md_submission d)"
    by (rule ext) (simp add: take_handoff_def d store pending_of_def Let_def)
  have fields: "cp_id ?c' = cp_id c" "cp_session ?c' = cp_session c" "cp_pending ?c' = (if cp_id c = Some sid then md_submission d else cp_pending c)"
    "cp_submitting ?c' = cp_submitting c" "cp_owners ?c' = cp_owners c" "cp_account ?c' = cp_account c" "cp_sends ?c' = cp_sends c"
    "cp_posts ?c' = cp_posts c" "cp_accepted ?c' = cp_accepted c" "epoch_now ?c' = epoch_now c"
    by (simp_all add: take_handoff_def d store Let_def epoch_now_def)
  have grows: "pending_of ?c' i = Some b" if "pending_of c i = Some b" for i b
    by (cases "i = sid") (use that kept in \<open>simp_all add: pend\<close>)
  have "live_inv None ?c'" using inv grows by (simp add: composer_inv_def live_inv_def live_def fields Let_def)
  moreover have "flight_inv ?c'" "log_inv ?c'" using inv by (simp_all add: composer_inv_def flight_inv_def log_inv_def fields)
  moreover have "mirror_inv ?c'"
    using inv new d(1) unfolding mirror_inv_def fields pend by (cases "cp_session c") (auto simp: composer_inv_def mirror_inv_def draft_from_send_def)
  moreover have "open_inv ?c'" using inv grows unfolding composer_inv_def open_inv_def fields by blast
  ultimately show ?thesis by (simp add: composer_inv_def)
qed

lemma lock_inv_composer:
  assumes "composer_inv None c" shows "composer_inv None (lock_composer c)"
proof -
  have "pending_of (lock_composer c) = pending_of c" by (simp add: lock_composer_def pending_of_def fun_eq_iff)
  then show ?thesis using assms
    by (auto simp: composer_inv_def live_inv_def live_def flight_inv_def mirror_inv_def open_inv_def log_inv_def lock_composer_def epoch_now_def Let_def)
qed

lemma sign_out_inv:
  assumes "composer_inv None c" shows "composer_inv None (sign_out_composer c)"
proof -
  have "\<not> live None (sign_out_composer c) n" for n
    using assms by (auto simp: live_def sign_out_composer_def lock_composer_def composer_inv_def flight_inv_def dest!: nth_mem)
  moreover have "pending_of (sign_out_composer c) = (\<lambda>_. None)" by (simp add: sign_out_composer_def lock_composer_def pending_of_def fun_eq_iff)
  moreover have "po_account p \<noteq> Suc (cp_account c) \<and> po_account p \<le> Suc (cp_account c)" if "p \<in> set (cp_posts c)" for p
    using assms that by (auto simp: composer_inv_def open_inv_def)
  ultimately show ?thesis using assms
    by (auto simp: composer_inv_def live_inv_def flight_inv_def mirror_inv_def open_inv_def log_inv_def sign_out_composer_def lock_composer_def epoch_now_def)
qed

lemma quiet_event_inv:
  assumes "quiet_event c c'" "composer_inv None c" shows "composer_inv None c'"
  using assms(1)
proof cases
  case (ev_persisted n u)
  then show ?thesis using fail_send_inv [OF assms(2)] set_send_inv [OF assms(2), of n]
    by (auto simp: persisted_send_def send_in_def split: sum.split)
next
  case (ev_written n w)
  then show ?thesis using fail_send_inv [OF assms(2)] set_send_inv [OF assms(2), of n SendQueued]
    by (auto simp: drafts_written_def send_in_def)
next
  case (ev_others l)
  have "same_core c c'" using ev_others by (simp add: same_core_def epoch_now_def pending_of_def fun_eq_iff)
  then show ?thesis by (rule same_core_inv [OF assms(2)])
next
  case (ev_saving k)
  then show ?thesis using same_core_inv [OF assms(2) core_start_save] by simp
next
  case (ev_resumed k m)
  then show ?thesis using same_core_inv [OF assms(2) core_resume_save] by simp
next
  case (ev_save_read k d h)
  then show ?thesis using same_core_inv [OF assms(2) core_read_save] by simp
next
  case (ev_saved k h)
  then show ?thesis using same_core_inv [OF assms(2) core_patched_save] by simp
next
  case (ev_start n)
  then show ?thesis using start_send_inv [OF assms(2)] by simp
next
  case (ev_answered n u)
  then show ?thesis using answered_inv [OF assms(2)] by simp
next
  case (ev_reread n h)
  then show ?thesis using reread_inv [OF assms(2)] by simp
next
  case (ev_send uuid intent)
  then show ?thesis using begin_send_inv [OF assms(2)] by simp
qed (simp_all add: show_inv [OF assms(2)] lock_inv_composer [OF assms(2)] same_core_inv [OF assms(2) core_props] same_core_inv [OF assms(2) core_timer])

lemma draft_edit_inv:
  assumes "draft_edit c c'" "composer_inv None c" shows "composer_inv None c'"
  using assms(1) by cases (simp_all add: handoff_inv [OF assms(2)] sign_out_inv [OF assms(2)] same_core_inv [OF assms(2) core_edit_draft]
    same_core_inv [OF assms(2) core_attachments_in] same_core_inv [OF assms(2) core_receive])

lemma composer_event_inv: "composer_event c c' \<Longrightarrow> composer_inv None c \<Longrightarrow> composer_inv None c'"
  using quiet_event_inv draft_edit_inv by (auto elim: composer_event.cases)

lemma composer_reachable_inv: "composer_reachable c \<Longrightarrow> composer_inv None c"
proof (induction rule: composer_reachable.induct)
  case composer_new
  show ?case by (simp add: composer_inv_def composer_inv_defs live_def no_composer_def pending_of_def)
next
  case (composer_stepped c c')
  then show ?case using composer_event_inv same_core_inv core_retime by blast
qed

section \<open>Nothing is lost\<close>

text \<open>What a draft holds stays; a context or images it lacked may come in.\<close>

definition carries :: "message_draft \<Rightarrow> message_draft \<Rightarrow> bool" where
  "carries d d' \<longleftrightarrow> md_text d' = md_text d \<and> (\<forall>x. md_context d = Some x \<longrightarrow> md_context d' = Some x)
     \<and> (\<forall>x. md_attachments d = Some x \<longrightarrow> md_attachments d' = Some x)"

definition keeps_draft :: "string \<Rightarrow> composer \<Rightarrow> composer \<Rightarrow> bool" where
  "keeps_draft sid c c' \<longleftrightarrow> (case cp_drafts c sid of None \<Rightarrow> True
     | Some d \<Rightarrow> (case cp_drafts c' sid of None \<Rightarrow> False | Some d' \<Rightarrow> carries d d'))"

lemma carries_refl [simp]: "carries d d"
  by (simp add: carries_def)

lemma keeps_same: "cp_drafts c' = cp_drafts c \<Longrightarrow> keeps_draft sid c c'"
  by (simp add: keeps_draft_def split: option.split)

lemma keeps_updated: "cp_drafts c' = (cp_drafts c)(i \<mapsto> d') \<Longrightarrow> (\<And>d. cp_drafts c i = Some d \<Longrightarrow> carries d d') \<Longrightarrow> keeps_draft sid c c'"
  by (simp add: keeps_draft_def split: option.split)

lemma drafts_unmoved [simp]:
  "cp_drafts (save_draft i t e c) = cp_drafts c" "cp_drafts (mirror_draft c) = cp_drafts c" "cp_drafts (release_submission n c) = cp_drafts c"
  "cp_drafts (save_remaining n c) = cp_drafts c" "cp_drafts (report e x c) = cp_drafts c" "cp_drafts (let_go e i c) = cp_drafts c"
  "cp_drafts (hold i c) = cp_drafts c" "cp_drafts (set_save k sp c) = cp_drafts c" "cp_drafts (end_save k c) = cp_drafts c"
  "cp_drafts (set_props b l p c) = cp_drafts c" "cp_drafts (lock_composer c) = cp_drafts c"
  by (simp_all add: save_draft_def mirror_draft_def release_submission_def save_remaining_def report_def let_go_def hold_def set_save_def
      end_save_def set_props_def lock_composer_def Let_def split: option.split)

lemma drafts_unmoved_steps [simp]:
  "cp_drafts (end_send n c) = cp_drafts c" "cp_drafts (fail_send n x c) = cp_drafts c" "cp_drafts (persisted_send n u c) = cp_drafts c"
  "cp_drafts (drafts_written n c) = cp_drafts c" "cp_drafts (start_send n c) = cp_drafts c" "cp_drafts (fail_save k x c) = cp_drafts c"
  "cp_drafts (resume_save k c) = cp_drafts c" "cp_drafts (start_save k c) = cp_drafts c" "cp_drafts (read_save k h c) = cp_drafts c"
  "cp_drafts (timer_fires c) = cp_drafts c"
  by (simp_all add: end_send_def fail_send_def persisted_send_def drafts_written_def start_send_def fail_save_def resume_save_def start_save_def
      read_save_def timer_fires_def Let_def split: option.split sum.split save_phase.split prod.split)

lemma keeps_keep_dirty:
  "cp_drafts c' = cp_drafts c \<Longrightarrow> cp_drafts c i = Some d \<Longrightarrow> keeps_draft sid c (keep_dirty i d c')"
  by (simp add: keep_dirty_def keeps_draft_def carries_def split: option.split)

lemma keeps_show: "keeps_draft sid c (show_session s c)"
proof -
  have at: "the (map_option ses_id s) = i \<Longrightarrow> cached_draft s c = Some d \<Longrightarrow> cp_drafts c i = Some d" for i d
    by (cases s) (simp_all add: cached_draft_def)
  have "keeps_draft sid c (switch_session s c)"
    by (auto simp: switch_session_def Let_def keeps_same keeps_keep_dirty [OF _ at] split: option.split)
  moreover have "keeps_draft sid c (refresh_session_draft s c)"
    by (auto simp: refresh_session_draft_def Let_def keeps_same keeps_keep_dirty [OF _ at] split: option.split)
  ultimately show ?thesis by (simp add: show_session_def)
qed

lemma keeps_begin: "keeps_draft sid c (begin_send intent uuid c)"
  by (auto simp: begin_send_def Let_def registered_def carries_def keeps_draft_def split: option.split)

lemma keeps_patched: "keeps_draft sid c (patched_save k h c)"
  by (auto simp: patched_save_def Let_def carries_def keeps_draft_def split: option.split sum.split)

lemma drafts_finish: "cp_drafts (finish_send n c) = (cp_drafts c)(sf_id (cp_sends c ! n) :=
    map_option (\<lambda>d. d\<lparr>md_submission := None\<rparr>) (cp_drafts c (sf_id (cp_sends c ! n))))"
  by (auto simp: finish_send_def Let_def fun_eq_iff split: option.split)

lemma keeps_finish: "cp_sends c' = cp_sends c \<Longrightarrow> keeps_draft sid c c' \<Longrightarrow> keeps_draft sid c (finish_send n c')"
  by (auto simp: keeps_draft_def drafts_finish carries_def split: option.splits)

lemma keeps_reread: "keeps_draft sid c (send_reread n h c)"
proof -
  have "keeps_draft sid c (finish_send n (c\<lparr>cp_drafts := (cp_drafts c)(i \<mapsto> d\<lparr>md_saved := t, md_saved_context := x\<rparr>)\<rparr>))"
    "keeps_draft sid c (finish_send n (c\<lparr>cp_drafts := (cp_drafts c)(i \<mapsto> d\<lparr>md_saved := t, md_saved_context := x\<rparr>), cp_saved := v\<rparr>))"
    if "cp_drafts c i = Some d" for i d t x v
    using that by (auto simp: keeps_draft_def drafts_finish carries_def split: option.split)
  then show ?thesis by (auto simp: send_reread_def Let_def keeps_same keeps_finish split: sum.split option.split)
qed

lemma accepted_unmoved [simp]:
  "cp_accepted (save_draft i t e c) = cp_accepted c" "cp_accepted (mirror_draft c) = cp_accepted c" "cp_accepted (release_submission n c) = cp_accepted c"
  "cp_accepted (clear_sent i c) = cp_accepted c" "cp_accepted (let_go e i c) = cp_accepted c"
  by (simp_all add: save_draft_def mirror_draft_def release_submission_def clear_sent_def let_go_def Let_def split: option.split)

lemma accepted_end [simp]: "cp_accepted (end_send n c) = cp_accepted c"
  by (simp add: end_send_def save_remaining_def Let_def split: option.split)

lemma accepted_finish [simp]: "cp_accepted (finish_send n c) = cp_accepted c"
  by (simp add: finish_send_def Let_def split: option.split)

lemma keeps_clear: "i \<noteq> sid \<Longrightarrow> cp_drafts c' = cp_drafts c \<Longrightarrow> keeps_draft sid c (clear_sent i c')"
  by (simp add: clear_sent_def keeps_draft_def Let_def split: option.split)

lemma keeps_answered:
  assumes inv: "composer_inv None c" and ph: "send_in n SendPosting c" and d: "cp_drafts c sid = Some d"
  shows "keeps_draft sid c (send_answered n u c) \<or>
    (\<exists>b. md_submission d = Some b \<and> unchanged_since b (Some d) \<and> (cp_account c, sid, sb_key b) \<in> cp_accepted (send_answered n u c))"
proof (cases "\<exists>v. u = Inr v \<and> sf_epoch (cp_sends c ! n) = epoch_now c \<and> unchanged_since (sf_pending (cp_sends c ! n)) (cp_drafts c (sf_id (cp_sends c ! n)))
    \<and> sf_id (cp_sends c ! n) = sid")
  case True
  then have live: "live None c n" by (intro live_when_current [OF inv ph]) auto
  have "live_inv None c" using inv by (simp add: composer_inv_def)
  then have "md_submission d = Some (sf_pending (cp_sends c ! n))" using live_invD(3) [OF _ live] True d by (simp add: pending_of_def)
  moreover have "(cp_account c, sid, sb_key (sf_pending (cp_sends c ! n))) \<in> cp_accepted (send_answered n u c)"
    using True live by (auto simp: send_answered_def Let_def live_def)
  ultimately show ?thesis using True d by auto
next
  case False
  let ?f = "cp_sends c ! n"
  let ?c1 = "let_go (sf_epoch ?f) (sf_id ?f) c\<lparr>cp_accepted := insert (sf_account ?f, sf_id ?f, sb_key (sf_pending ?f)) (cp_accepted c)\<rparr>"
  have sends: "cp_sends (clear_sent (sf_id ?f) ?c1) = cp_sends c" by (simp add: clear_sent_def let_go_def Let_def)
  have "keeps_draft sid c (finish_send n (clear_sent (sf_id ?f) ?c1))" if "sf_id ?f \<noteq> sid"
    by (rule keeps_finish [OF sends keeps_clear [OF that]]) simp
  moreover have "cp_accepted (let_go (sf_epoch ?f) (sf_id ?f) c) = cp_accepted c" by simp
  ultimately have "keeps_draft sid c (send_answered n u c)"
    using False by (auto simp: send_answered_def Let_def keeps_same set_send_fields split: sum.split)
  then show ?thesis ..
qed

lemma keeps_quiet:
  assumes "quiet_event c c'" "composer_inv None c" "cp_drafts c sid = Some d"
  shows "keeps_draft sid c c' \<or> (\<exists>b. md_submission d = Some b \<and> unchanged_since b (Some d) \<and> (cp_account c, sid, sb_key b) \<in> cp_accepted c')"
  using assms(1)
proof cases
  case (ev_answered n u)
  then show ?thesis using keeps_answered [OF assms(2) _ assms(3)] by simp
qed (simp_all add: keeps_show keeps_begin keeps_patched keeps_reread keeps_same)

section \<open>A conversation marked as sending is being sent\<close>

definition sends_for :: "nat option \<Rightarrow> composer \<Rightarrow> string \<Rightarrow> nat \<Rightarrow> bool" where
  "sends_for x c sid n \<longleftrightarrow> cp_owners c sid = Some n \<and> n < length (cp_sends c) \<and> sf_id (cp_sends c ! n) = sid
     \<and> sf_account (cp_sends c ! n) = cp_account c \<and> (x = Some n \<or> sf_phase (cp_sends c ! n) \<noteq> SendDone)"

definition busy_inv :: "nat option \<Rightarrow> composer \<Rightarrow> bool" where
  "busy_inv x c \<longleftrightarrow> (\<forall>sid \<in> cp_submitting c. \<exists>n. sends_for x c sid n)"

lemma busy_mono:
  assumes "busy_inv x c" "cp_submitting c' \<subseteq> cp_submitting c" "\<And>sid n. sid \<in> cp_submitting c' \<Longrightarrow> sends_for x c sid n \<Longrightarrow> sends_for x' c' sid n"
  shows "busy_inv x' c'"
  using assms unfolding busy_inv_def by blast

definition same_registry :: "composer \<Rightarrow> composer \<Rightarrow> bool" where
  "same_registry c c' \<longleftrightarrow> cp_submitting c' = cp_submitting c \<and> cp_owners c' = cp_owners c \<and> cp_sends c' = cp_sends c \<and> cp_account c' = cp_account c"

lemma busy_same: "busy_inv x c \<Longrightarrow> same_registry c c' \<Longrightarrow> busy_inv x c'"
  by (erule busy_mono) (simp_all add: same_registry_def sends_for_def)

lemma core_registry: "same_core c c' \<Longrightarrow> same_registry c c'"
  by (simp add: same_core_def same_registry_def)

lemma busy_core: "busy_inv x c \<Longrightarrow> same_core c c' \<Longrightarrow> busy_inv x c'"
  by (rule busy_same [OF _ core_registry])

lemma registry_mirror: "same_registry c (mirror_draft c)"
  by (simp add: same_registry_def mirror_draft_def split: option.split)

lemma busy_except: "busy_inv None c \<Longrightarrow> busy_inv x c"
  by (erule busy_mono) (simp_all add: sends_for_def)

lemma busy_set_send: "busy_inv x c \<Longrightarrow> n < length (cp_sends c) \<Longrightarrow> ph \<noteq> SendDone \<or> x = Some n \<Longrightarrow> busy_inv x (set_send n ph c)"
  by (erule busy_mono) (auto simp: sends_for_def set_send_nth)

lemma busy_end:
  assumes "busy_inv (Some n) c" "n < length (cp_sends c)" shows "busy_inv None (end_send n c)"
proof -
  let ?c1 = "set_send n SendDone c" and ?sid = "sf_id (cp_sends c ! n)"
  have "busy_inv (Some n) ?c1" by (rule busy_set_send [OF assms]) simp
  then have "busy_inv None (release_submission n ?c1)"
    by (rule busy_mono) (use assms(2) in \<open>auto simp: release_submission_def sends_for_def Let_def set_send_nth split: if_splits\<close>)
  then show ?thesis unfolding end_send_def by (rule busy_same [OF busy_core [OF _ core_save_remaining] registry_mirror])
qed

lemma busy_fail: "busy_inv None c \<Longrightarrow> n < length (cp_sends c) \<Longrightarrow> busy_inv None (fail_send n e c)"
  unfolding fail_send_def by (rule busy_end, rule busy_core [OF busy_except core_report]) (simp_all add: report_def)

lemma busy_finish:
  assumes "busy_inv None c" "n < length (cp_sends c)" shows "busy_inv None (finish_send n c)"
proof -
  have "busy_inv None (c\<lparr>cp_drafts := ds, cp_pending := b, cp_refreshes := k\<rparr>)" "busy_inv None (c\<lparr>cp_drafts := ds, cp_refreshes := k\<rparr>)"
    "busy_inv None (c\<lparr>cp_pending := b, cp_refreshes := k\<rparr>)" "busy_inv None (c\<lparr>cp_refreshes := k\<rparr>)" for ds b k
    by (rule busy_same [OF assms(1)], simp add: same_registry_def)+
  then show ?thesis using assms(2) by (simp add: finish_send_def Let_def busy_end busy_except split: option.split)
qed

lemma registry_clear: "same_registry c (clear_sent sid c)"
  by (simp add: same_registry_def clear_sent_def Let_def)

lemma busy_answered:
  assumes "busy_inv None c" "n < length (cp_sends c)" shows "busy_inv None (send_answered n u c)"
proof -
  let ?c0 = "let_go (sf_epoch (cp_sends c ! n)) (sf_id (cp_sends c ! n)) c"
  have "busy_inv None (?c0\<lparr>cp_accepted := s\<rparr>)" for s
    by (rule busy_same [OF assms(1)]) (simp add: same_registry_def let_go_def)
  moreover from this have "busy_inv None (clear_sent i (?c0\<lparr>cp_accepted := s\<rparr>))" for i s by (rule busy_same [OF _ registry_clear])
  moreover have "cp_sends ?c0 = cp_sends c" "cp_sends (clear_sent i (?c0\<lparr>cp_accepted := s\<rparr>)) = cp_sends c" for i s
    by (simp_all add: let_go_def clear_sent_def Let_def)
  moreover have "busy_inv None ?c0" by (rule busy_core [OF assms(1) core_let_go])
  ultimately show ?thesis using assms(2) by (auto simp: send_answered_def Let_def busy_fail busy_finish busy_set_send split: sum.split)
qed

lemma busy_reread:
  assumes "busy_inv None c" "n < length (cp_sends c)" shows "busy_inv None (send_reread n h c)"
proof -
  have "busy_inv None (c\<lparr>cp_drafts := ds\<rparr>)" "busy_inv None (c\<lparr>cp_drafts := ds, cp_saved := t\<rparr>)" for ds t
    by (rule busy_same [OF assms(1)], simp add: same_registry_def)+
  then show ?thesis using assms by (auto simp: send_reread_def Let_def busy_fail busy_finish split: sum.split option.split)
qed

lemma busy_begin:
  assumes "busy_inv None c" shows "busy_inv None (begin_send intent uuid c)"
proof -
  have "busy_inv None (c\<lparr>cp_pending := b, cp_drafts := ds, cp_submitting := insert sid (cp_submitting c), cp_owners := (cp_owners c)(sid \<mapsto> length (cp_sends c)),
      cp_sends := cp_sends c @ [\<lparr>sf_id = sid, sf_pending = p, sf_epoch = e, sf_account = cp_account c, sf_phase = ph\<rparr>]\<rparr>)"
    if "ph \<noteq> SendDone" for b ds sid p e ph
    unfolding busy_inv_def
  proof
    fix i assume "i \<in> cp_submitting (c\<lparr>cp_pending := b, cp_drafts := ds, cp_submitting := insert sid (cp_submitting c),
      cp_owners := (cp_owners c)(sid \<mapsto> length (cp_sends c)),
      cp_sends := cp_sends c @ [\<lparr>sf_id = sid, sf_pending = p, sf_epoch = e, sf_account = cp_account c, sf_phase = ph\<rparr>]\<rparr>)"
    then consider "i = sid" | m where "i \<noteq> sid" "sends_for None c i m" using assms by (auto simp: busy_inv_def)
    then show "\<exists>n. sends_for None (c\<lparr>cp_pending := b, cp_drafts := ds, cp_submitting := insert sid (cp_submitting c),
        cp_owners := (cp_owners c)(sid \<mapsto> length (cp_sends c)),
        cp_sends := cp_sends c @ [\<lparr>sf_id = sid, sf_pending = p, sf_epoch = e, sf_account = cp_account c, sf_phase = ph\<rparr>]\<rparr>) i n"
    proof cases
      case 1
      then show ?thesis using that by (intro exI [of _ "length (cp_sends c)"]) (simp add: sends_for_def)
    next
      case (2 m)
      then show ?thesis by (intro exI [of _ m]) (simp add: sends_for_def nth_append)
    qed
  qed
  moreover have "busy_inv None (c\<lparr>cp_error := e\<rparr>)" for e by (rule busy_same [OF assms]) (simp add: same_registry_def)
  ultimately show ?thesis using assms
    by (auto simp: begin_send_def Let_def intro!: busy_same [OF _ registry_mirror] split: option.split)
qed

lemma busy_show: "busy_inv None c \<Longrightarrow> busy_inv None (show_session s c)"
proof (rule busy_same)
  have "same_registry c (keep_dirty i d c')" if "same_registry c c'" for i d c'
    using that by (simp add: keep_dirty_def same_registry_def)
  moreover have "same_registry c (save_draft i t e c)" for i t e by (rule core_registry [OF core_save_draft])
  ultimately show "same_registry c (show_session s c)"
    by (auto simp: show_session_def switch_session_def refresh_session_draft_def Let_def same_registry_def split: option.split)
qed

lemma busy_quiet:
  assumes "quiet_event c c'" "busy_inv None c" shows "busy_inv None c'"
  using assms(1)
proof cases
  case (ev_persisted n u)
  then show ?thesis using assms(2) by (simp add: persisted_send_def send_in_def busy_fail busy_set_send split: sum.split)
next
  case (ev_written n w)
  then show ?thesis using assms(2) by (simp add: drafts_written_def send_in_def busy_fail busy_set_send)
next
  case (ev_start n)
  have "busy_inv None (hold i (c\<lparr>cp_posts := ps\<rparr>))" for i ps
    by (rule busy_same [OF assms(2)]) (simp add: same_registry_def hold_def)
  then show ?thesis using ev_start assms(2) by (simp add: start_send_def send_in_def Let_def busy_fail busy_set_send hold_def)
next
  case ev_locked
  then show ?thesis using busy_same [OF assms(2)] by (simp add: lock_composer_def same_registry_def)
next
  case (ev_others l)
  then show ?thesis using busy_same [OF assms(2)] by (simp add: same_registry_def)
qed (simp_all add: send_in_def busy_show busy_begin busy_answered busy_reread assms(2) busy_core [OF assms(2) core_props] busy_core [OF assms(2) core_timer]
    busy_core [OF assms(2) core_resume_save] busy_core [OF assms(2) core_start_save] busy_core [OF assms(2) core_read_save] busy_core [OF assms(2) core_patched_save])

lemma busy_edit:
  assumes "draft_edit c c'" "busy_inv None c" shows "busy_inv None c'"
  using assms(1)
proof cases
  case (ev_handed new sid)
  have "same_registry c (take_handoff sid new c)" by (simp add: take_handoff_def same_registry_def Let_def split: sum.split option.split)
  then show ?thesis using busy_same [OF assms(2)] ev_handed by simp
next
  case ev_signed_out
  then show ?thesis by (simp add: busy_inv_def sign_out_composer_def lock_composer_def)
qed (simp_all add: busy_core [OF assms(2) core_edit_draft] busy_core [OF assms(2) core_attachments_in] busy_core [OF assms(2) core_receive])

lemma busy_reachable: "composer_reachable c \<Longrightarrow> busy_inv None c"
proof (induction rule: composer_reachable.induct)
  case composer_new
  show ?case by (simp add: busy_inv_def no_composer_def)
next
  case (composer_stepped c c')
  then have "busy_inv None c'" by (auto elim!: composer_event.cases intro: busy_quiet busy_edit)
  then show ?case by (rule busy_core [OF _ core_retime])
qed

section \<open>What the composer promises\<close>

definition under_way :: "composer \<Rightarrow> string \<Rightarrow> nat \<Rightarrow> bool" where
  "under_way c sid n \<longleftrightarrow> n < length (cp_sends c) \<and> sf_id (cp_sends c ! n) = sid \<and> sf_account (cp_sends c ! n) = cp_account c
     \<and> sf_phase (cp_sends c ! n) \<noteq> SendDone"

text \<open>A run: a message that fails, and is sent again.\<close>

definition demo_session :: session where
  "demo_session = \<lparr>ses_id = ''c'', ses_title = ''T'', ses_project_id = None, ses_cwd = None, ses_engine = ''internal'', ses_provider_id = None,
     ses_model = None, ses_mode = ''chat'', ses_draft_text = ''Hi'', ses_draft_context = None, ses_revision = 1, ses_turns = None, ses_scroll = 0,
     ses_has_earlier = False, ses_runner_id = None, ses_worktree_id = None, ses_reasoning = []\<rparr>"

definition demo_steps :: "(composer \<Rightarrow> composer) list" where
  "demo_steps = [show_session (Some demo_session), begin_send ''send'' ''k1'', drafts_written 0, start_send 0, send_answered 0 (Inl (JsError ''offline'')),
     begin_send ''send'' ''k2'', drafts_written 1, start_send 1]"

fun run_steps :: "(composer \<Rightarrow> composer) list \<Rightarrow> composer \<Rightarrow> composer" where
  "run_steps [] c = c"
| "run_steps (f # fs) c = run_steps fs (retime c (f c))"

definition demo :: "nat \<Rightarrow> composer" where
  "demo k = run_steps (take k demo_steps) no_composer"

lemma run_steps_append: "run_steps (fs @ gs) c = run_steps gs (run_steps fs c)"
  by (induction fs arbitrary: c) simp_all

lemma demo_step:
  assumes "composer_reachable (demo k)" "k < length demo_steps" "quiet_event (demo k) ((demo_steps ! k) (demo k))"
  shows "composer_reachable (demo (Suc k))"
  using composer_stepped [OF assms(1) by_itself [OF assms(3)]] assms(2) by (simp add: demo_def take_Suc_conv_app_nth run_steps_append)

lemma demo_reachable: "composer_reachable (demo 4)" "composer_reachable (demo 5)" "composer_reachable (demo 8)"
proof -
  have 0: "composer_reachable (demo 0)" by (simp add: demo_def composer_new)
  have 1: "composer_reachable (demo 1)" using demo_step [OF 0] by (simp add: demo_steps_def ev_shown)
  have 2: "composer_reachable (demo 2)" using demo_step [OF 1] by (simp add: demo_steps_def ev_send numeral_2_eq_2)
  have "send_in 0 (SendAwaitsDraft None) (demo 2)" by code_simp
  then have 3: "composer_reachable (demo 3)" using demo_step [OF 2] by (simp add: demo_steps_def ev_written draft_done_def eval_nat_numeral)
  have "send_in 0 SendQueued (demo 3)" "turn_of (sf_epoch (cp_sends (demo 3) ! 0)) (sf_id (cp_sends (demo 3) ! 0)) (demo 3)" by code_simp+
  then have 4: "composer_reachable (demo 4)" using demo_step [OF 3] by (simp add: demo_steps_def ev_start eval_nat_numeral)
  then show "composer_reachable (demo 4)" .
  have "send_in 0 SendPosting (demo 4)" by code_simp
  then have 5: "composer_reachable (demo 5)" using demo_step [OF 4] by (simp add: demo_steps_def ev_answered eval_nat_numeral)
  then show "composer_reachable (demo 5)" .
  have 6: "composer_reachable (demo 6)" using demo_step [OF 5] by (simp add: demo_steps_def ev_send eval_nat_numeral)
  have "send_in 1 (SendAwaitsDraft None) (demo 6)" by code_simp
  then have 7: "composer_reachable (demo 7)" using demo_step [OF 6] by (simp add: demo_steps_def ev_written draft_done_def eval_nat_numeral)
  have "send_in 1 SendQueued (demo 7)" "turn_of (sf_epoch (cp_sends (demo 7) ! 1)) (sf_id (cp_sends (demo 7) ! 1)) (demo 7)" by code_simp+
  then show "composer_reachable (demo 8)" using demo_step [OF 7] by (simp add: demo_steps_def ev_start eval_nat_numeral)
qed

text \<open>C4. A conversation refuses another submission exactly while one of the account signed in is under way for it, and then only one is.\<close>

theorem one_submission_at_a_time:
  assumes "composer_reachable c"
  shows "(sid \<in> cp_submitting c \<longleftrightarrow> (\<exists>n. under_way c sid n)) \<and> (\<forall>m n. under_way c sid m \<longrightarrow> under_way c sid n \<longrightarrow> m = n)"
proof -
  have inv: "live_inv None c" "busy_inv None c"
    using composer_reachable_inv [OF assms] busy_reachable [OF assms] by (simp_all add: composer_inv_def)
  have live: "under_way c sid n \<longleftrightarrow> live None c n \<and> sf_id (cp_sends c ! n) = sid" for n by (auto simp: under_way_def live_def)
  have "sid \<in> cp_submitting c \<longleftrightarrow> (\<exists>n. under_way c sid n)"
    using inv live_invD(1) [OF inv(1)] by (auto simp: live busy_inv_def sends_for_def live_def)
  moreover have "under_way c sid m \<Longrightarrow> under_way c sid n \<Longrightarrow> m = n" for m n
    using live_unique [OF inv(1)] by (auto simp: live)
  ultimately show ?thesis by blast
qed

lemma one_submission_at_a_time_witness: "''c'' \<in> cp_submitting (demo 8) \<and> {n. under_way (demo 8) ''c'' n} = {1}"
proof -
  have "under_way (demo 8) ''c'' 1" by code_simp
  then show ?thesis using one_submission_at_a_time [OF demo_reachable(3), of "''c''"] by blast
qed

text \<open>C3. Whatever is sent for a conversation after a request the host has not taken is that request again: its key, text, context, images and kind.\<close>

theorem unanswered_request_repeated:
  assumes "composer_reachable c" "i < j" "j < length (cp_posts c)"
    and "po_account (cp_posts c ! i) = po_account (cp_posts c ! j)" "po_id (cp_posts c ! i) = po_id (cp_posts c ! j)"
  shows "request_key (cp_posts c ! i) \<in> cp_accepted c \<or> same_message (po_pending (cp_posts c ! i)) (po_pending (cp_posts c ! j))"
  using composer_reachable_inv [OF assms(1)] assms(2-5) by (auto simp: composer_inv_def log_inv_def dest: sorted_wrt_nth_less)

lemma unanswered_request_repeated_witness:
  "map (\<lambda>p. sb_key (po_pending p)) (cp_posts (demo 8)) = [''k1'', ''k1''] \<and> same_message (po_pending (cp_posts (demo 8) ! 0)) (po_pending (cp_posts (demo 8) ! 1))"
proof -
  have "length (cp_posts (demo 8)) = 2" "po_account (cp_posts (demo 8) ! 0) = po_account (cp_posts (demo 8) ! 1)"
    "po_id (cp_posts (demo 8) ! 0) = po_id (cp_posts (demo 8) ! 1)" "request_key (cp_posts (demo 8) ! 0) \<notin> cp_accepted (demo 8)"
    "map (\<lambda>p. sb_key (po_pending p)) (cp_posts (demo 8)) = [''k1'', ''k1'']"
    by code_simp+
  then show ?thesis using unanswered_request_repeated [OF demo_reachable(3), of 0 1] by simp
qed



lemma begin_send_starts:
  assumes "composer_reachable c" "cp_session c = Some s" "ses_id s \<notin> cp_submitting c" "cp_blocked c = None"
    and "trim (cp_draft c) \<noteq> [] \<or> cp_pending c \<noteq> None" "uuid \<noteq> []" "intent \<noteq> []"
  shows "under_way (begin_send intent uuid c) (ses_id s) (length (cp_sends c))
    \<and> (\<forall>b. cp_pending c = Some b \<longrightarrow> same_message b (sf_pending (cp_sends (begin_send intent uuid c) ! length (cp_sends c))))"
proof -
  have "mirror_inv c" using composer_reachable_inv [OF assms(1)] by (simp add: composer_inv_def)
  then have "cp_pending c = Some b \<Longrightarrow> made_by_send b" for b using assms(2) by (simp add: mirror_inv_def)
  then have "cp_pending c = Some b \<Longrightarrow> same_message b (submission_of intent uuid c)" for b
    using submission_made(2) [OF assms(6,7)] assms(5) by blast
  moreover have "cp_sends (mirror_draft x) = cp_sends x" "cp_account (mirror_draft x) = cp_account x" for x
    by (simp_all add: mirror_draft_def split: option.split)
  ultimately show ?thesis using assms(2-5) by (auto simp: begin_send_def Let_def under_way_def)
qed

text \<open>A conversation for which nothing is under way can be sent from: a message that failed goes out again as the same request.\<close>

theorem failed_send_can_be_retried:
  assumes "composer_reachable c" "cp_session c = Some s" "\<And>n. \<not> under_way c (ses_id s) n" "cp_blocked c = None"
    and "trim (cp_draft c) \<noteq> [] \<or> cp_pending c \<noteq> None" "uuid \<noteq> []" "intent \<noteq> []"
  shows "under_way (begin_send intent uuid c) (ses_id s) (length (cp_sends c))
    \<and> (\<forall>b. cp_pending c = Some b \<longrightarrow> same_message b (sf_pending (cp_sends (begin_send intent uuid c) ! length (cp_sends c))))"
proof -
  have "ses_id s \<notin> cp_submitting c"
    using busy_reachable [OF assms(1)] assms(3) by (force simp: busy_inv_def sends_for_def under_way_def)
  then show ?thesis by (rule begin_send_starts [OF assms(1,2) _ assms(4-7)])
qed

lemma failed_send_can_be_retried_witness:
  "under_way (begin_send ''send'' ''k2'' (demo 5)) ''c'' 1 \<and> map_option sb_key (cp_pending (demo 5)) = Some ''k1''
   \<and> sb_key (sf_pending (cp_sends (begin_send ''send'' ''k2'' (demo 5)) ! 1)) = ''k1''"
proof -
  have "\<not> under_way (demo 5) ''c'' 0" "length (cp_sends (demo 5)) = 1" "cp_blocked (demo 5) = None" "trim (cp_draft (demo 5)) \<noteq> []"
    "map_option ses_id (cp_session (demo 5)) = Some ''c''" "map_option sb_key (cp_pending (demo 5)) = Some ''k1''"
    by code_simp+
  moreover from this have "\<not> under_way (demo 5) ''c'' n" for n by (cases n) (auto simp: under_way_def)
  ultimately show ?thesis
    using failed_send_can_be_retried [OF demo_reachable(2), of "the (cp_session (demo 5))" "''k2''" "''send''"]
    by (auto simp: same_message_def)
qed

end
