(* ===== verification/PromptInput.thy ===== *)
theory PromptInput
  imports View
begin

text \<open>
  The elements of \<open>components/ai-elements/prompt-input.tsx\<close> and \<open>conversation.tsx\<close>: the button that submits
  or stops, the keys of the text field, and the empty state of a conversation. Handlers of the
  parent are arguments.
\<close>

section \<open>The submit button\<close>

datatype chat_status = StatusReady | StatusSubmitted | StatusStreaming | StatusError

definition is_generating :: "chat_status \<Rightarrow> bool" where
  "is_generating st \<longleftrightarrow> st = StatusSubmitted \<or> st = StatusStreaming"

definition submit_icon :: "chat_status \<Rightarrow> string" where
  "submit_icon st = (case st of StatusSubmitted \<Rightarrow> ''LoaderCircle'' | StatusStreaming \<Rightarrow> ''SquareIcon'' | StatusError \<Rightarrow> ''XIcon''
     | StatusReady \<Rightarrow> ''CornerDownLeftIcon'')"

text \<open>Attributes and children the parent gives take the place of these. What a click raises: the stop of the parent, or its click.\<close>

definition submit_click :: "chat_status \<Rightarrow> 'a option \<Rightarrow> 'a option \<Rightarrow> 'a option" where
  "submit_click st on_stop on_click = (if is_generating st \<and> on_stop \<noteq> None then on_stop else on_click)"

definition prompt_submit :: "chat_status \<Rightarrow> bool \<Rightarrow> 'a option \<Rightarrow> 'a option \<Rightarrow> string option \<Rightarrow> 'a view" where
  "prompt_submit st disabled on_stop on_click icon =
     VEl ''button''
       [attr_flag ''disabled'' disabled, attr_text ''aria-label'' (if is_generating st then ''Stop'' else ''Submit''),
        attr_text ''type'' (if is_generating st \<and> on_stop \<noteq> None then ''button'' else ''submit'')]
       (case submit_click st on_stop on_click of None \<Rightarrow> [] | Some a \<Rightarrow> [(''onClick'', a)])
       [labelled ''svg'' (case icon of Some i \<Rightarrow> i | None \<Rightarrow> submit_icon st)]"

lemma offers_prompt_submit [simp]:
  "offers (prompt_submit st d on_stop on_click icon) = (if d then [] else case submit_click st on_stop on_click of None \<Rightarrow> [] | Some a \<Rightarrow> [a])"
  by (simp add: prompt_submit_def is_on_def jget_def attr_flag_def attr_text_def split: option.split)

section \<open>The text field\<close>

record text_key_event =
  ke_key :: string
  ke_shift :: bool
  ke_native_composing :: bool
  ke_value :: string

text \<open>A handler tells whether it prevents the browser's default, and what it raises. \<open>composing\<close> is what the
  composition events of the field have set, \<open>submit\<close> what submitting the form around it raises.\<close>

type_synonym 'a key_handler = "text_key_event \<Rightarrow> bool \<times> 'a list"

definition key_down :: "bool \<Rightarrow> 'a key_handler option \<Rightarrow> 'a list \<Rightarrow> 'a option \<Rightarrow> 'a key_handler" where
  "key_down composing on_key submit remove_last e =
     (if ke_key e = ''Enter'' \<and> (composing \<or> ke_native_composing e) then (True, [])
      else (let (p, acts) = (case on_key of None \<Rightarrow> (False, []) | Some f \<Rightarrow> f e) in
            if p then (True, acts)
            else (let enter = ke_key e = ''Enter'' \<and> \<not> composing \<and> \<not> ke_native_composing e \<and> \<not> ke_shift e;
                      remove = ke_key e = ''Backspace'' \<and> ke_value e = [] \<and> remove_last \<noteq> None
                  in (enter \<or> remove, acts @ (if enter then submit else []) @ (if remove then [the remove_last] else [])))))"

datatype composition = CompositionStart | CompositionEnd

fun composition_step :: "composition \<Rightarrow> bool \<Rightarrow> bool" where
  "composition_step CompositionStart _ = True"
| "composition_step CompositionEnd _ = False"

text \<open>Files pasted go to the parent, and only then is the paste prevented.\<close>

definition paste_files :: "'f list \<Rightarrow> ('f list \<Rightarrow> 'a) option \<Rightarrow> bool \<times> 'a list" where
  "paste_files files on_files = (case on_files of Some f \<Rightarrow> if files \<noteq> [] then (True, [f files]) else (False, []) | None \<Rightarrow> (False, []))"

text \<open>While text is being composed, \<open>Enter\<close> raises nothing at all.\<close>

lemma composing_enter_silent: "composing \<or> ke_native_composing e \<Longrightarrow> ke_key e = ''Enter'' \<Longrightarrow> key_down composing h submit rm e = (True, [])"
  by (auto simp: key_down_def)

text \<open>A handler that prevents the default is the only one heard.\<close>

lemma prevented_key: "\<not> (ke_key e = ''Enter'' \<and> (composing \<or> ke_native_composing e)) \<Longrightarrow> h e = (True, acts) \<Longrightarrow> key_down composing (Some h) submit rm e = (True, acts)"
  by (auto simp: key_down_def)

section \<open>An empty conversation\<close>

definition conversation_empty_state :: "string option \<Rightarrow> string option \<Rightarrow> 'a view option \<Rightarrow> 'a view option \<Rightarrow> 'a view" where
  "conversation_empty_state title description icon children =
     box ''div'' [case children of Some v \<Rightarrow> v
       | None \<Rightarrow> box ''div''
           [(case icon of Some v \<Rightarrow> box ''div'' [v] | None \<Rightarrow> VNone),
            box ''div''
              [labelled ''h3'' (case title of Some t \<Rightarrow> t | None \<Rightarrow> ''No messages yet''),
               (let d = (case description of Some t \<Rightarrow> t | None \<Rightarrow> ''Start a conversation to see messages here'') in show_if (d \<noteq> []) (labelled ''p'' d))]]]"

end
