(* ===== verification/TaskPresentation.thy ===== *)
theory TaskPresentation
  imports ApiTypes
begin

text \<open>
  \<open>lib/task-presentation.ts\<close>, \<open>lib/conversation-messages.ts\<close> and
  \<open>lib/settings-categories.ts\<close>: how a task status, the turns of a conversation and the
  settings are named for the reader. The lookups go through object literals, so a status or a
  category called like a member of \<open>Object.prototype\<close> finds the inherited function.
\<close>

section \<open>Task status\<close>

datatype tone = ToneFailed | ToneCompleted | ToneAttention | ToneRunning

record task_presentation =
  tp_label :: jsval
  tp_attention :: bool
  tp_active :: bool
  tp_tone :: tone

definition task_labels :: "(string \<times> string) list" where
  "task_labels =
     [(''queued'', ''Queued''), (''planning'', ''Planning''), (''running'', ''Running''),
      (''awaiting_approval'', ''Needs approval''), (''paused'', ''Paused''), (''recovering'', ''Recovering''),
      (''recovery_confirmation_required'', ''Needs recovery decision''), (''cancelling'', ''Stopping''),
      (''cancelled'', ''Cancelled''), (''failed'', ''Failed''), (''completed'', ''Completed'')]"

definition task_state :: "string \<Rightarrow> task_presentation" where
  "task_state status =
     \<lparr>tp_label = js_or (own_or_proto task_labels status) (JStr ''Ready to start''),
      tp_attention = (status \<in> set [''awaiting_approval'', ''recovery_confirmation_required'', ''failed'', ''paused'']),
      tp_active = (status \<in> set [''queued'', ''planning'', ''running'', ''recovering'', ''cancelling'']),
      tp_tone = (if status = ''failed'' then ToneFailed
        else if status = ''completed'' then ToneCompleted
        else if status \<in> set [''awaiting_approval'', ''recovery_confirmation_required'', ''paused''] then ToneAttention
        else ToneRunning)\<rparr>"

lemma own_or_proto_Some: "map_of tbl k = Some v \<Longrightarrow> own_or_proto tbl k = JStr v"
  by (simp add: own_or_proto_def)

text \<open>A status is never both active and in need of attention, and a status that asks for attention
  never looks completed; every label is a text, unless the status is a name of
  \<open>Object.prototype\<close>.\<close>

theorem task_state_consistent:
  "\<not> (tp_active (task_state st) \<and> tp_attention (task_state st))
   \<and> \<not> (tp_attention (task_state st) \<and> tp_tone (task_state st) \<in> {ToneCompleted, ToneRunning})
   \<and> (is_str (tp_label (task_state st)) = (st \<notin> set object_prototype))"
proof -
  have labels: "is_str (js_or (own_or_proto task_labels st) (JStr ''Ready to start'')) = (st \<notin> set object_prototype)"
  proof (cases "map_of task_labels st")
    case None
    then show ?thesis by (simp add: own_or_proto_def js_or_def)
  next
    case (Some v)
    then have "(st, v) \<in> set task_labels" by (rule map_of_SomeD)
    then have "st \<notin> set object_prototype" by (auto simp: task_labels_def object_prototype_def)
    with Some show ?thesis by (simp add: own_or_proto_def js_or_def)
  qed
  then show ?thesis by (auto simp: task_state_def)
qed

section \<open>The rows of a conversation\<close>

datatype message_role = RoleUser | RoleAssistant

record message_row =
  mr_id :: string
  mr_role :: message_role
  mr_text :: string
  mr_task :: "task option"

definition is_report_task :: "task option \<Rightarrow> bool" where
  "is_report_task t \<longleftrightarrow> (case t of None \<Rightarrow> False | Some k \<Rightarrow> task_report k \<noteq> None)"

definition turn_rows :: "turn \<Rightarrow> message_row list" where
  "turn_rows t =
     (if is_report_task (turn_task t) then []
      else [\<lparr>mr_id = turn_id t, mr_role = RoleUser, mr_text = turn_prompt t, mr_task = None\<rparr>]) @
     (case turn_task t of
        None \<Rightarrow> []
      | Some k \<Rightarrow> [\<lparr>mr_id = turn_id t @ '':answer'', mr_role = RoleAssistant, mr_text = or_text (task_result k) [],
                   mr_task = Some k\<rparr>])"

definition conversation_messages :: "turn list \<Rightarrow> message_row list" where
  "conversation_messages ts = concat (map turn_rows ts)"

definition latest_execution_task :: "turn list \<Rightarrow> task option" where
  "latest_execution_task ts =
     (case find (\<lambda>t. case turn_task t of None \<Rightarrow> False
                     | Some k \<Rightarrow> task_engine k \<noteq> Some ''coordination'' \<and> task_report k = None) (rev ts) of
        None \<Rightarrow> None
      | Some t \<Rightarrow> turn_task t)"

lemma turn_rows_ids: "r \<in> set (turn_rows t) \<Longrightarrow> mr_id r = turn_id t \<or> mr_id r = turn_id t @ '':answer''"
  by (auto simp: turn_rows_def split: if_splits option.splits)

lemma distinct_turn_rows: "distinct (map mr_id (turn_rows t))"
  by (simp add: turn_rows_def split: option.split)

lemma ends_with_append [simp]: "ends_with s (x @ s)"
  by (simp add: ends_with_def)

text \<open>The rows of a conversation have distinct ids, as React keys and scroll anchors need, and no
  prompt is invented: the user rows are exactly the turns that are not reports, in order.\<close>

theorem conversation_rows:
  assumes "distinct (map turn_id ts)" and "\<forall>t \<in> set ts. \<not> ends_with '':answer'' (turn_id t)"
  shows "distinct (map mr_id (conversation_messages ts))
    \<and> map mr_text (filter (\<lambda>r. mr_role r = RoleUser) (conversation_messages ts)) =
        map turn_prompt (filter (\<lambda>t. \<not> is_report_task (turn_task t)) ts)"
  using assms
proof (induction ts)
  case Nil
  then show ?case by (simp add: conversation_messages_def)
next
  case (Cons t ts)
  have ids: "mr_id r \<in> {turn_id u, turn_id u @ '':answer''}" if "r \<in> set (turn_rows u)" for r u
    using turn_rows_ids [OF that] by auto
  have apart: "mr_id r \<noteq> mr_id q" if r: "r \<in> set (turn_rows t)" and q: "q \<in> set (conversation_messages ts)" for r q
  proof -
    obtain u where u: "u \<in> set ts" "q \<in> set (turn_rows u)"
      using q by (auto simp: conversation_messages_def)
    have "turn_id u \<noteq> turn_id t" using Cons.prems(1) u(1) by (auto simp: image_iff)
    moreover have "\<not> ends_with '':answer'' (turn_id u)" "\<not> ends_with '':answer'' (turn_id t)"
      using Cons.prems(2) u(1) by auto
    ultimately show ?thesis
      using ids [OF r] ids [OF u(2)] by (auto dest: arg_cong [where f = "ends_with '':answer''"])
  qed
  have rows: "map mr_text (filter (\<lambda>r. mr_role r = RoleUser) (turn_rows t)) =
      (if is_report_task (turn_task t) then [] else [turn_prompt t])"
    by (simp add: turn_rows_def split: option.split)
  have "conversation_messages (t # ts) = turn_rows t @ conversation_messages ts"
    by (simp add: conversation_messages_def)
  with Cons distinct_turn_rows apart rows show ?case by fastforce
qed

definition plain_turn :: "string \<Rightarrow> turn" where
  "plain_turn i = \<lparr>turn_id = i, turn_prompt = ''do '' @ i, turn_task_id = None, turn_task = None, turn_seq = 0\<rparr>"

theorem conversation_rows_witness:
  "map mr_text (filter (\<lambda>r. mr_role r = RoleUser) (conversation_messages [plain_turn ''a'', plain_turn ''b''])) =
     [''do a'', ''do b'']"
  using conversation_rows [of "[plain_turn ''a'', plain_turn ''b'']"]
  by (simp add: plain_turn_def ends_with_def starts_with_def is_report_task_def)

lemma latest_execution_real:
  "latest_execution_task ts = Some k \<Longrightarrow> task_engine k \<noteq> Some ''coordination'' \<and> task_report k = None"
  by (auto simp: latest_execution_task_def find_Some_iff split: option.splits)

section \<open>Settings categories\<close>

record category =
  cat_id :: string
  cat_label :: string
  cat_group :: string
  cat_description :: string

definition cat :: "string \<Rightarrow> string \<Rightarrow> string \<Rightarrow> string \<Rightarrow> category" where
  "cat i l g d = \<lparr>cat_id = i, cat_label = l, cat_group = g, cat_description = d\<rparr>"

definition settings_groups :: "string list" where
  "settings_groups = [''Preferences'', ''Workers'', ''Host'']"

definition settings_categories :: "category list" where
  "settings_categories =
     [cat ''general'' ''General'' ''Preferences'' ''Everyday preferences for your account.'',
      cat ''models'' ''Models & engines'' ''Workers'' ''Choose engines and default models.'',
      cat ''cloud'' ''Cloud accounts'' ''Workers'' ''Connect accounts used by your agents.'',
      cat ''agents'' ''Agents'' ''Workers'' ''Manage how your agents run.'',
      cat ''extensions'' ''Plugins & skills'' ''Workers'' ''Add skills and plugins to your agents.'',
      cat ''connections'' ''Tools & connections'' ''Workers'' ''Connect the tools your agents use.'',
      cat ''memory'' ''Memory'' ''Host'' ''Control what your agents remember.'',
      cat ''hooks'' ''Hooks'' ''Host'' ''Run actions when agent events occur.'',
      cat ''automations'' ''Automations'' ''Host'' ''Schedule work on this host.'',
      cat ''runners'' ''Runners'' ''Host'' ''Choose where your agents run.'',
      cat ''access'' ''Access & sessions'' ''Host'' ''Manage access to this host.'',
      cat ''characters'' ''Characters'' ''Preferences'' (''Choose your agent'' @ CHR 0x92 # ''s character.''),
      cat ''appearance'' ''Appearance'' ''Preferences'' ''Choose a theme for this device.'',
      cat ''shortcuts'' ''Keyboard shortcuts'' ''Preferences'' ''Move faster with keyboard shortcuts.'',
      cat ''safety'' ''Safety & Auto Review'' ''Host'' ''Control approvals and agent permissions.'']"

definition category_aliases :: "(string \<times> string) list" where
  "category_aliases =
     [(''plugins'', ''extensions''), (''skills'', ''extensions''), (''engines'', ''models''),
      (''schedules'', ''automations''), (''goals'', ''automations''), (''sessions'', ''access''), (''mcp'', ''connections'')]"

definition canonical_settings_category :: "string \<Rightarrow> jsval" where
  "canonical_settings_category v =
     js_or (own_or_proto category_aliases v) (js_or (JStr v) (JStr ''general''))"

definition category_of :: "string \<Rightarrow> category option" where
  "category_of v = find (\<lambda>row. JStr (cat_id row) = canonical_settings_category v) settings_categories"

definition is_settings_category :: "string \<Rightarrow> bool" where
  "is_settings_category v \<longleftrightarrow> v \<noteq> [] \<and> category_of v \<noteq> None"

definition settings_category_description :: "string \<Rightarrow> string" where
  "settings_category_description v =
     cat_description (case category_of v of Some row \<Rightarrow> row | None \<Rightarrow> hd settings_categories)"

text \<open>A legacy route always leads to a page: the canonical name of an alias is a category with its
  own page, and canonical names are stable.\<close>

theorem settings_aliases_resolve:
  "\<forall>(a, t) \<in> set category_aliases. is_settings_category a \<and> canonical_settings_category a = JStr t
     \<and> canonical_settings_category t = JStr t"
  by code_simp

text \<open>The inherited members: \<open>canonicalSettingsCategory('constructor')\<close> is not a text.\<close>

theorem canonical_category_inherited:
  "\<not> is_str (canonical_settings_category ''constructor'') \<and> \<not> is_str (tp_label (task_state ''constructor''))"
  by code_simp

end
