(* ===== verification/ToolActivity.thy ===== *)
theory ToolActivity
  imports ApiTypes
begin

text \<open>
  \<open>lib/tool-activity.ts\<close>: the normaliser that turns the raw event stream of a task (internal,
  ACP, Claude and Codex events) into the tool activities the chat shows, the text of the
  answer, and the tree of delegated agents.
\<close>

section \<open>Reading an event\<close>

text \<open>\<open>eventObject\<close>: a non-null object that is not an array, the empty object otherwise.\<close>

fun event_object :: "jsval \<Rightarrow> jsobj" where
  "event_object (JObj obj) = obj"
| "event_object _ = []"

definition event_call_id :: "activity_event \<Rightarrow> string" where
  "event_call_id e =
     (let p = ev_payload e in
      text_of (js_or (jget (event_object (jget p ''call'')) ''call_id'')
              (js_or (jget p ''call_id'')
              (js_or (jget p ''tool_call_id'')
              (js_or (jget p ''toolCallId'')
              (js_or (jget p ''itemId'')
                     (jget (event_object (jget p ''item'')) ''id'')))))))"

definition tool_labels :: "(string \<times> string) list" where
  "tool_labels =
     [(''browser_context'', ''Inspect page''), (''browser_capture'', ''Capture page''),
      (''browser_wait_for_handoff'', ''Wait for browser handoff''),
      (''browser_upload'', ''Upload file''), (''browser_download'', ''Download file''),
      (''read_file'', ''Read file''), (''write_file'', ''Edit file''),
      (''edit_file'', ''Edit file''), (''list_files'', ''List files''),
      (''search_files'', ''Search files''), (''run_shell'', ''Run command''),
      (''run_check'', ''Run check''), (''spawn_subagent'', ''Delegate task''),
      (''await_subagents'', ''Collect agent results''), (''subagent_status'', ''Check agents''),
      (''cancel_subagent'', ''Stop agent''), (''commandExecution'', ''Run command''),
      (''fileChange'', ''Edit files''), (''mcpToolCall'', ''Use connected tool''),
      (''webSearch'', ''Search the web''), (''dynamicToolCall'', ''Use tool''),
      (''collabToolCall'', ''Coordinate agents''), (''collabAgentToolCall'', ''Coordinate agents''),
      (''imageView'', ''View image'')]"

definition active_statuses :: "string list" where
  "active_statuses = [''queued'', ''planning'', ''running'', ''recovering'', ''cancelling'']"

definition task_is_active :: "string \<Rightarrow> bool" where
  "task_is_active status \<longleftrightarrow> status \<in> set active_statuses"

section \<open>Titles\<close>

text \<open>\<open>selector.match(/\[aria-label=["']([^"']+)["']\]/)?.[1]\<close>, empty for no match.\<close>

definition is_quote :: "char \<Rightarrow> bool" where
  "is_quote c \<longleftrightarrow> c = CHR 0x22 \<or> c = CHR 0x27"

definition aria_label_here :: "string \<Rightarrow> string option" where
  "aria_label_here s =
     (if starts_with ''[aria-label='' s then
        (case drop 12 s of
           [] \<Rightarrow> None
         | q # rest \<Rightarrow>
             if \<not> is_quote q then None
             else let name = takeWhile (\<lambda>c. \<not> is_quote c) rest in
               (case drop (length name) rest of
                  q' # CHR '']'' # _ \<Rightarrow> if name = [] then None else Some name
                | _ \<Rightarrow> None))
      else None)"

fun aria_label :: "string \<Rightarrow> string" where
  "aria_label [] = []"
| "aria_label (c # s) =
     (case aria_label_here (c # s) of Some name \<Rightarrow> name | None \<Rightarrow> aria_label s)"

text \<open>\<open>/^#[a-zA-Z][\w-]*$/.test(selector)\<close> and then the readable id.\<close>

definition id_selector :: "string \<Rightarrow> string" where
  "id_selector s =
     (case s of
        CHR ''#'' # c # rest \<Rightarrow>
          if is_alpha c \<and> list_all (\<lambda>x. is_word_char x \<or> x = CHR ''-'') rest
          then replace_char (CHR ''-'') (CHR '' '') (c # rest) else []
      | _ \<Rightarrow> [])"

definition page_controls :: "(string \<times> string) list" where
  "page_controls =
     [(''click'', ''Click page control''), (''type'', ''Enter text''), (''scroll'', ''Scroll page''),
      (''navigate'', ''Open page''), (''reload'', ''Reload page''), (''zoom'', ''Adjust page zoom''),
      (''select'', ''Select option''), (''key'', ''Press key''), (''wait'', ''Wait for page'')]"

text \<open>\<open>toolTitle\<close>. The title is a value, not a text: \<open>labels[name]\<close> answers to the names of
  \<open>Object.prototype\<close> too. The three file tools have labels of their own, so the label joined
  with the path is a text.\<close>

definition tool_title :: "string \<Rightarrow> jsobj \<Rightarrow> jsobj \<Rightarrow> jsobj \<Rightarrow> jsval" where
  "tool_title name args payload item =
     (if truthy (jget payload ''title'') then JStr (text_of (jget payload ''title''))
      else if name = ''browser_action'' then
        (let action = text_of (jget args ''action'');
             target = event_object (jget args ''args'');
             selector = text_of (jget target ''selector'');
             named = text_of (js_or (jget target ''name'') (jget target ''label''));
             control = (if named \<noteq> [] then named
                        else if aria_label selector \<noteq> [] then aria_label selector
                        else id_selector selector)
         in if action = ''click'' \<and> control \<noteq> [] then JStr (''Click '' @ upper_first control)
            else js_or (own_or_proto page_controls action) (JStr ''Use browser''))
      else
        (let label = js_or (own_or_proto tool_labels name)
               (JStr (if name \<noteq> [] then upper_first (replace_char (CHR ''_'') (CHR '' '') name)
                      else ''Agent action''));
             path = text_of (js_or (jget args ''path'') (jget args ''filename''))
         in if path \<noteq> [] \<and> name \<in> {''read_file'', ''write_file'', ''edit_file''}
            then JStr (text_of label @ '' '' @ [CHR 0xB7] @ '' '' @ path)
            else if name = ''mcpToolCall'' \<and> truthy (jget item ''tool'')
            then JStr (text_of (jget item ''tool''))
            else label))"

section \<open>Tool activities\<close>

datatype tool_phase = PRunning | PPending | PCompleted | PFailed | PCancelled | PInterrupted
datatype tool_state = InputAvailable | OutputAvailable | OutputError

record tool_activity =
  ta_key :: string
  ta_title :: jsval
  ta_phase :: tool_phase
  ta_kind :: string
  ta_call_id :: string
  ta_state :: tool_state
  ta_events :: "activity_event list"
  ta_input :: jsval
  ta_output :: jsval

definition event_item :: "activity_event \<Rightarrow> jsobj" where
  "event_item e = event_object (jget (ev_payload e) ''item'')"

definition item_type :: "activity_event \<Rightarrow> string" where
  "item_type e = text_of (jget (event_item e) ''type'')"

definition is_item_event :: "activity_event \<Rightarrow> bool" where
  "is_item_event e \<longleftrightarrow>
     starts_with ''engine.item.'' (ev_type e) \<and> item_type e \<in> fst ` set tool_labels"

definition is_output_event :: "activity_event \<Rightarrow> bool" where
  "is_output_event e \<longleftrightarrow> ev_type e = ''engine.command.output'' \<or> ev_type e = ''process.output''"

definition is_nested_event :: "activity_event \<Rightarrow> bool" where
  "is_nested_event e \<longleftrightarrow> truthy (jget (ev_payload e) ''parent_call_id'')"

text \<open>The guards of the loop body and the key of the group, \<open>None\<close> for a skipped event.\<close>

definition activity_key :: "activity_event \<Rightarrow> string option" where
  "activity_key e =
     (let id = event_call_id e in
      if is_nested_event e then None
      else if \<not> starts_with ''tool.'' (ev_type e) \<and> \<not> starts_with ''engine.tool.'' (ev_type e)
              \<and> \<not> is_item_event e \<and> \<not> is_output_event e then None
      else if is_output_event e \<and> id = [] then None
      else Some (if id \<noteq> [] then ''call:'' @ id else ''event:'' @ int_text (ev_seq e)))"

definition event_name :: "activity_event \<Rightarrow> string" where
  "event_name e =
     (let p = ev_payload e; call = event_object (jget p ''call'') in
      text_of (js_or (jget call ''name'') (js_or (jget p ''name'')
              (js_or (jget p ''tool'') (JStr (item_type e))))))"

definition event_input :: "activity_event \<Rightarrow> jsval" where
  "event_input e =
     (let p = ev_payload e; call = event_object (jget p ''call''); item = event_item e in
      js_coalesce (jget call ''arguments'') (js_coalesce (jget p ''arguments'')
     (js_coalesce (jget p ''input'') (js_coalesce (jget p ''rawInput'')
     (js_coalesce (jget item ''arguments'') (jget item ''command''))))))"

definition event_status :: "activity_event \<Rightarrow> string" where
  "event_status e =
     (let p = ev_payload e in
      text_of (js_or (jget p ''status'') (js_or (jget (event_item e) ''status'')
              (jget (event_object (jget p ''result'')) ''status''))))"

definition event_failed :: "activity_event \<Rightarrow> bool" where
  "event_failed e \<longleftrightarrow>
     (let p = ev_payload e; item = event_item e; result = event_object (jget p ''result'') in
      contains ''failed'' (ev_type e) \<or> contains ''error'' (ev_type e)
      \<or> jget result ''ok'' = JBool False \<or> jget p ''is_error'' = JBool True
      \<or> jget item ''success'' = JBool False
      \<or> (item_type e = ''mcpToolCall'' \<and> \<not> nullish (jget item ''error''))
      \<or> event_status e \<in> {''failed'', ''error'', ''declined'', ''denied''})"

definition event_completed :: "activity_event \<Rightarrow> bool" where
  "event_completed e \<longleftrightarrow>
     contains ''finished'' (ev_type e) \<or> contains ''completed'' (ev_type e)
     \<or> contains ''reused'' (ev_type e) \<or> event_status e = ''completed''"

definition event_phase :: "activity_event \<Rightarrow> tool_phase" where
  "event_phase e =
     (if event_failed e then PFailed
      else if event_status e \<in> {''cancelled'', ''canceled'', ''interrupted''} then PCancelled
      else if event_completed e then PCompleted
      else if event_status e = ''pending'' then PPending
      else PRunning)"

definition event_output :: "activity_event \<Rightarrow> jsval" where
  "event_output e =
     (let p = ev_payload e; item = event_item e in
      js_coalesce (jget p ''result'') (js_coalesce (jget p ''rawOutput'')
     (js_coalesce (jget p ''output'') (js_coalesce (jget item ''aggregatedOutput'')
     (js_coalesce (jget item ''result'') (js_coalesce (jget item ''error'')
     (js_coalesce (jget item ''contentItems'')
        (if event_completed e \<or> event_failed e
         then js_coalesce (jget p ''content'') (jget p ''error'') else JUndef))))))))"

definition phase_state :: "tool_phase \<Rightarrow> tool_state" where
  "phase_state ph = (if ph = PFailed then OutputError
                     else if ph = PCompleted then OutputAvailable else InputAvailable)"

text \<open>The two branches of the loop body: a first event of a key, and a later one.\<close>

definition new_activity :: "activity_event \<Rightarrow> tool_activity" where
  "new_activity e =
     (let p = ev_payload e; id = event_call_id e; name = event_name e in
      \<lparr>ta_key = (if id \<noteq> [] then ''call:'' @ id else ''event:'' @ int_text (ev_seq e)),
       ta_title = tool_title name (event_object (event_input e)) p (event_item e),
       ta_phase = event_phase e, ta_kind = name, ta_call_id = id,
       ta_state = phase_state (event_phase e), ta_events = [e], ta_input = event_input e,
       ta_output = js_coalesce (event_output e)
         (if is_output_event e
          then js_coalesce (jget p ''delta'') (js_coalesce (jget p ''text'')
              (js_coalesce (jget p ''chunk'') (jget p ''output'')))
          else JUndef)\<rparr>)"

definition update_activity :: "activity_event \<Rightarrow> tool_activity \<Rightarrow> tool_activity" where
  "update_activity e a =
     (let p = ev_payload e; name = event_name e;
          phase = (if is_output_event e then ta_phase a else event_phase e);
          input = event_input e; output = event_output e
      in a\<lparr>ta_events := ta_events a @ [e],
           ta_phase := phase,
           ta_state := phase_state phase,
           ta_title := (if name \<noteq> [] \<or> truthy (jget p ''title'')
                        then tool_title (if name \<noteq> [] then name else ta_kind a)
                               (event_object input) p (event_item e)
                        else ta_title a),
           ta_input := (if input \<noteq> JUndef then input else ta_input a),
           ta_output :=
             (if output \<noteq> JUndef then output
              else if is_output_event e
              then JStr (text_of (ta_output a) @
                     text_of (js_or (jget p ''delta'') (js_or (jget p ''text'')
                             (js_or (jget p ''chunk'') (jget p ''output'')))))
              else ta_output a)\<rparr>)"

definition terminal_task_statuses :: "string list" where
  "terminal_task_statuses = [''completed'', ''failed'', ''cancelled'', ''interrupted'']"

definition settle_activity :: "string option \<Rightarrow> tool_activity \<Rightarrow> tool_activity" where
  "settle_activity status a =
     (if truthy_text status \<and> the status \<in> set terminal_task_statuses
         \<and> (ta_phase a = PRunning \<or> ta_phase a = PPending)
      then a\<lparr>ta_phase := PInterrupted\<rparr> else a)"

definition tool_activities :: "activity_event list \<Rightarrow> string option \<Rightarrow> tool_activity list" where
  "tool_activities es status =
     map (settle_activity status \<circ> snd)
       (group_events activity_key new_activity update_activity [] es)"

section \<open>Properties of the activities\<close>

abbreviation activity_groups :: "activity_event list \<Rightarrow> (string \<times> tool_activity) list" where
  "activity_groups es \<equiv> group_events activity_key new_activity update_activity [] es"

lemma ta_key_settle [simp]: "ta_key (settle_activity st a) = ta_key a"
  by (simp add: settle_activity_def)

lemma ta_key_new: "activity_key e = Some k \<Longrightarrow> ta_key (new_activity e) = k"
  by (auto simp: activity_key_def new_activity_def Let_def split: if_splits)

lemma ta_key_update [simp]: "ta_key (update_activity e a) = ta_key a"
  by (simp add: update_activity_def Let_def)

lemma activity_groups_key: "(k, a) \<in> set (activity_groups es) \<Longrightarrow> ta_key a = k"
  by (rule group_events_invariant [where key = activity_key and ins = new_activity
        and upd = update_activity and m = "[]"]) (auto simp: ta_key_new)

lemma distinct_activity_groups: "distinct (map fst (activity_groups es))"
  by (simp add: distinct_group_events)

lemma map_ta_key_activities:
  "map ta_key (tool_activities es st) = map fst (activity_groups es)"
proof -
  have "ta_key (settle_activity st (snd x)) = fst x" if "x \<in> set (activity_groups es)" for x
    using that activity_groups_key [of "fst x" "snd x" es] by simp
  then show ?thesis
    by (simp add: tool_activities_def)
qed

text \<open>Sample events: a call that starts, its output, its end.\<close>

definition call_sample :: "string \<Rightarrow> string \<Rightarrow> activity_event" where
  "call_sample ty call = \<lparr>ev_type = ty, ev_payload = [(''call_id'', JStr call), (''name'', JStr ''terminal'')], ev_seq = 1\<rparr>"

definition call_samples :: "activity_event list" where
  "call_samples = [call_sample ''tool.started'' ''a'', call_sample ''tool.started'' ''b'',
     call_sample ''tool.finished'' ''a'']"

lemma call_samples_nonempty: "tool_activities call_samples st \<noteq> []"
proof -
  have "map ta_key (tool_activities call_samples st) = [''call:a'', ''call:b'']"
    unfolding map_ta_key_activities group_events_order by code_simp
  then show ?thesis by auto
qed



text \<open>Every event that is not skipped has its activity, in the order of the first event of
  each call, and no call is listed twice.\<close>

theorem tool_activities_order:
  "map ta_key (tool_activities es st) = first_seen (List.map_filter activity_key es)
   \<and> distinct (map ta_key (tool_activities es st))"
  unfolding map_ta_key_activities
  using group_events_order distinct_activity_groups by blast

text \<open>Once the task itself is over, no activity is left running or pending.\<close>

theorem terminal_task_settles:
  assumes "status \<in> set terminal_task_statuses"
  shows "\<forall>a \<in> set (tool_activities es (Some status)). ta_phase a \<noteq> PRunning \<and> ta_phase a \<noteq> PPending"
  using assms
  by (auto simp: tool_activities_def settle_activity_def truthy_text_def terminal_task_statuses_def)

theorem terminal_task_settles_witness:
  "ta_phase (hd (tool_activities call_samples (Some ''failed''))) \<noteq> PRunning"
  using terminal_task_settles [of "''failed''" call_samples]
    hd_in_set [OF call_samples_nonempty [of "Some ''failed''"]]
  by (auto simp: terminal_task_statuses_def)

text \<open>The event that decides the phase: the last one that is not streamed output, or the first
  event of a call that has only output.\<close>

definition deciding_event :: "activity_event list \<Rightarrow> activity_event" where
  "deciding_event evs =
     (case filter (\<lambda>e. \<not> is_output_event e) evs of [] \<Rightarrow> hd evs | xs \<Rightarrow> last xs)"

lemma deciding_event_snoc:
  "evs \<noteq> [] \<Longrightarrow> deciding_event (evs @ [e]) = (if is_output_event e then deciding_event evs else e)"
  by (auto simp: deciding_event_def split: list.splits)

lemma deciding_event_single [simp]: "deciding_event [e] = e"
  by (simp add: deciding_event_def)

lemma activity_groups_phase:
  assumes "(k, a) \<in> set (activity_groups es)"
  shows "ta_events a \<noteq> [] \<and> ta_phase a = event_phase (deciding_event (ta_events a))
    \<and> ta_state a = phase_state (ta_phase a)"
  by (rule group_events_invariant [where key = activity_key and ins = new_activity
        and upd = update_activity and m = "[]" and k = k and es = es])
    (use assms in \<open>auto simp: new_activity_def update_activity_def Let_def deciding_event_snoc\<close>)

lemma ta_events_row:
  "group_row new_activity update_activity r es = Some a \<Longrightarrow>
     ta_events a = (case r of None \<Rightarrow> [] | Some x \<Rightarrow> ta_events x) @ es"
  by (induction es arbitrary: r)
    (auto simp: new_activity_def update_activity_def Let_def split: option.splits)

text \<open>The phase of a call, while its task runs, is decided by the last event of the call that
  is not streamed output; streamed output never reopens or closes a call. The badge state is the
  one of that phase, and the activity keeps exactly its own events.\<close>

theorem tool_activity_phase:
  assumes "a \<in> set (tool_activities es None)"
  shows "ta_events a = filter (\<lambda>e. activity_key e = Some (ta_key a)) es
    \<and> ta_phase a = event_phase (deciding_event (ta_events a))
    \<and> ta_state a = phase_state (ta_phase a)"
proof -
  obtain k where kr: "(k, a) \<in> set (activity_groups es)"
    using assms by (auto simp: tool_activities_def settle_activity_def truthy_text_def)
  then have "map_of (activity_groups es) k = Some a"
    using distinct_activity_groups by simp
  then have "ta_events a = filter (\<lambda>e. activity_key e = Some k) es"
    by (auto simp: map_of_group_events dest: ta_events_row)
  with activity_groups_phase [OF kr] activity_groups_key [OF kr] show ?thesis by simp
qed

theorem tool_activity_phase_witness:
  "\<exists>a \<in> set (tool_activities call_samples None). ta_phase a = event_phase (deciding_event (ta_events a))"
proof -
  have "hd (tool_activities call_samples None) \<in> set (tool_activities call_samples None)"
    using call_samples_nonempty by simp
  from tool_activity_phase [OF this] this show ?thesis by blast
qed

text \<open>An event that belongs to a delegated agent (it carries a parent call) is never part of
  an activity of the parent.\<close>

theorem nested_events_excluded:
  "\<forall>a \<in> set (tool_activities es st). \<forall>e \<in> set (ta_events a). \<not> is_nested_event e"
proof (intro ballI)
  fix a e assume a: "a \<in> set (tool_activities es st)" and e: "e \<in> set (ta_events a)"
  obtain k r where kr: "(k, r) \<in> set (activity_groups es)" and ar: "a = settle_activity st r"
    using a by (auto simp: tool_activities_def)
  have "map_of (activity_groups es) k = Some r"
    using kr distinct_activity_groups by simp
  then have "ta_events r = filter (\<lambda>e. activity_key e = Some k) es"
    by (auto simp: map_of_group_events dest: ta_events_row)
  with e ar have "activity_key e = Some k" by (auto simp: settle_activity_def split: if_splits)
  then show "\<not> is_nested_event e"
    by (auto simp: activity_key_def Let_def split: if_splits)
qed

theorem nested_events_excluded_witness:
  "\<not> is_nested_event (hd (ta_events (hd (tool_activities call_samples None))))"
proof -
  have a: "hd (tool_activities call_samples None) \<in> set (tool_activities call_samples None)"
    using call_samples_nonempty by simp
  then have "ta_events (hd (tool_activities call_samples None)) \<noteq> []"
    using activity_groups_phase by (fastforce simp: tool_activities_def settle_activity_def truthy_text_def)
  with a show ?thesis using nested_events_excluded [of call_samples None] by (meson hd_in_set)
qed

section \<open>The text of the answer\<close>

text \<open>\<open>taskResponseText\<close>: \<open>segments\<close> is a list of keyed texts and \<open>current\<close> the segment
  that deltas extend, here its index (the source keeps a reference to the same object).\<close>

record response_state =
  rs_segments :: "(string \<times> string) list"
  rs_current :: "nat option"

definition delta_types :: "string list" where
  "delta_types = [''assistant.delta'', ''engine.message.delta'', ''message.delta'',
                  ''response.output_text.delta'']"

definition append_delta :: "string \<Rightarrow> string \<Rightarrow> response_state \<Rightarrow> response_state" where
  "append_delta key delta s =
     (let s' = (if rs_current s = None \<or> fst (rs_segments s ! the (rs_current s)) \<noteq> key
                then s\<lparr>rs_segments := rs_segments s @ [(key, [])],
                       rs_current := Some (length (rs_segments s))\<rparr>
                else s);
          i = the (rs_current s'); (k, t) = rs_segments s' ! i
      in s'\<lparr>rs_segments := (rs_segments s')[i := (k, t @ delta)]\<rparr>)"

definition response_step :: "response_state \<Rightarrow> activity_event \<Rightarrow> response_state" where
  "response_step s e =
     (let p = ev_payload e in
      if is_nested_event e then s
      else if ev_type e \<in> set delta_types then
        (let delta = text_of (js_or (jget p ''delta'') (jget p ''text''));
             key0 = text_of (js_or (jget p ''stream_id'')
                            (js_or (jget p ''itemId'') (jget p ''message_id'')))
         in if delta = [] then s
            else append_delta (if key0 = [] then ''engine'' else key0) delta s)
      else if ev_type e = ''assistant.message'' then
        (let text = text_of (jget p ''text'') in
         if text = [] then s
         else (case rs_current s of
             Some i \<Rightarrow> s\<lparr>rs_segments := (rs_segments s)[i := (fst (rs_segments s ! i), text)],
                         rs_current := None\<rparr>
           | None \<Rightarrow> s\<lparr>rs_segments := rs_segments s @ [(''message:'' @ int_text (ev_seq e), text)]\<rparr>))
      else if ev_type e \<in> {''tool.started'', ''engine.tool.started'', ''engine.item.started''}
      then s\<lparr>rs_current := None\<rparr>
      else s)"

definition response_segments :: "activity_event list \<Rightarrow> response_state" where
  "response_segments es = foldl response_step \<lparr>rs_segments = [], rs_current = None\<rparr> es"

definition task_response_text :: "string option \<Rightarrow> activity_event list option \<Rightarrow> string" where
  "task_response_text result events =
     (if truthy_text result then the result
      else join_with [CHR 0x0A, CHR 0x0A]
        (filter (\<lambda>t. t \<noteq> []) (map snd (rs_segments (response_segments
           (case events of None \<Rightarrow> [] | Some es \<Rightarrow> es))))))"

text \<open>\<open>current\<close> is always the last segment.\<close>

definition current_is_last :: "response_state \<Rightarrow> bool" where
  "current_is_last s \<longleftrightarrow> (\<forall>i. rs_current s = Some i \<longrightarrow> Suc i = length (rs_segments s))"

lemma current_is_last_append_delta:
  "current_is_last s \<Longrightarrow> current_is_last (append_delta k d s)"
  by (auto simp: current_is_last_def append_delta_def Let_def split: prod.splits)

lemma current_is_last_step: "current_is_last s \<Longrightarrow> current_is_last (response_step s e)"
  using current_is_last_append_delta
  by (auto simp: response_step_def Let_def current_is_last_def split: option.splits)

lemma current_is_last_segments: "current_is_last (response_segments es)"
  by (induction es rule: rev_induct)
    (simp_all add: response_segments_def current_is_last_step, simp add: current_is_last_def)

text \<open>A delta event: its stream key and its text.\<close>

definition delta_event :: "string \<Rightarrow> string \<Rightarrow> activity_event \<Rightarrow> bool" where
  "delta_event key delta e \<longleftrightarrow>
     (let p = ev_payload e;
          key0 = text_of (js_or (jget p ''stream_id'') (js_or (jget p ''itemId'') (jget p ''message_id'')))
      in \<not> is_nested_event e \<and> ev_type e \<in> set delta_types \<and> delta \<noteq> []
         \<and> text_of (js_or (jget p ''delta'') (jget p ''text'')) = delta
         \<and> key = (if key0 = [] then ''engine'' else key0))"

definition message_event :: "string \<Rightarrow> activity_event \<Rightarrow> bool" where
  "message_event text e \<longleftrightarrow>
     \<not> is_nested_event e \<and> ev_type e = ''assistant.message'' \<and> text \<noteq> []
     \<and> text_of (jget (ev_payload e) ''text'') = text"

lemma response_step_delta:
  "delta_event key delta e \<Longrightarrow> response_step s e = append_delta key delta s"
  by (auto simp: delta_event_def response_step_def Let_def)

lemma append_delta_fresh:
  "rs_current s = None \<Longrightarrow>
   append_delta k d s = \<lparr>rs_segments = rs_segments s @ [(k, d)], rs_current = Some (length (rs_segments s))\<rparr>"
  by (cases s) (simp add: append_delta_def)

lemma append_delta_extend:
  "append_delta k d \<lparr>rs_segments = segs @ [(k, t)], rs_current = Some (length segs)\<rparr>
     = \<lparr>rs_segments = segs @ [(k, t @ d)], rs_current = Some (length segs)\<rparr>"
  by (simp add: append_delta_def)

lemma response_deltas_extend:
  assumes "list_all2 (delta_event k) ds es"
  shows "foldl response_step \<lparr>rs_segments = segs @ [(k, t)], rs_current = Some (length segs)\<rparr> es
    = \<lparr>rs_segments = segs @ [(k, t @ concat ds)], rs_current = Some (length segs)\<rparr>"
  using assms
  by (induction ds es arbitrary: t rule: list_all2_induct)
    (simp_all add: response_step_delta append_delta_extend)

lemma response_deltas:
  assumes "list_all2 (delta_event k) ds es" and "es \<noteq> []" and "rs_current s = None"
  shows "foldl response_step s es
    = \<lparr>rs_segments = rs_segments s @ [(k, concat ds)], rs_current = Some (length (rs_segments s))\<rparr>"
proof -
  obtain e es' d ds' where "es = e # es'" "ds = d # ds'" "delta_event k d e"
      "list_all2 (delta_event k) ds' es'"
    using assms(1,2) by (cases es; cases ds) auto
  then show ?thesis
    using response_deltas_extend [of k ds' es' "rs_segments s" d] assms(3)
    by (simp add: response_step_delta append_delta_fresh)
qed

text \<open>Streamed text and its later full-message snapshot appear once: after any events that
  leave no open stream, a run of deltas of one stream followed by the message replaces the streamed
  pieces by the message text, whatever the pieces were.\<close>

theorem streamed_snapshot_once:
  assumes "rs_current (response_segments pre) = None"
    and "es \<noteq> []" and "list_all2 (delta_event k) ds es" and "message_event t m"
  shows "rs_segments (response_segments (pre @ es @ [m])) = rs_segments (response_segments pre) @ [(k, t)]
    \<and> rs_current (response_segments (pre @ es @ [m])) = None"
  using response_deltas [OF assms(3,2,1)] assms(4)
  by (auto simp: response_segments_def response_step_def Let_def message_event_def delta_types_def)

definition delta_sample :: "string \<Rightarrow> activity_event" where
  "delta_sample t = \<lparr>ev_type = ''message.delta'', ev_payload = [(''delta'', JStr t)], ev_seq = 1\<rparr>"

definition message_sample :: "string \<Rightarrow> activity_event" where
  "message_sample t = \<lparr>ev_type = ''assistant.message'', ev_payload = [(''text'', JStr t)], ev_seq = 2\<rparr>"

lemmas sample_simps = delta_sample_def message_sample_def delta_event_def message_event_def
  delta_types_def is_nested_event_def jget_def js_or_def Let_def

theorem streamed_snapshot_once_witness:
  "rs_segments (response_segments ([] @ [delta_sample ''He'', delta_sample ''llo''] @ [message_sample ''Hello'']))
     = rs_segments (response_segments []) @ [(''engine'', ''Hello'')]"
proof -
  have c: "rs_current (response_segments []) = None" by (simp add: response_segments_def)
  have ds: "list_all2 (delta_event ''engine'') [''He'', ''llo''] [delta_sample ''He'', delta_sample ''llo'']"
    by (simp add: sample_simps)
  have m: "message_event ''Hello'' (message_sample ''Hello'')"
    by (simp add: sample_simps)
  show ?thesis using streamed_snapshot_once [OF c _ ds m] by simp
qed

section \<open>Delegated agents\<close>

text \<open>The row of an agent in \<open>delegatedActivities\<close>. The status is a value: an event type is
  looked up in an object literal, which answers to \<open>Object.prototype\<close> names too.\<close>

record agent_info =
  ai_id :: string
  ai_task_id :: "string option"
  ai_name :: string
  ai_prompt :: string
  ai_status :: jsval
  ai_result :: string
  ai_events :: "activity_event list"
  ai_truncated :: "bool option"

datatype agent_activity = Agent (agent_info: agent_info) (agent_children: "agent_activity list")

definition events_or_nil :: "activity_event list option \<Rightarrow> activity_event list" where
  "events_or_nil x = (case x of None \<Rightarrow> [] | Some es \<Rightarrow> es)"

definition children_or_nil :: "task list option \<Rightarrow> task list" where
  "children_or_nil x = (case x of None \<Rightarrow> [] | Some ts \<Rightarrow> ts)"

text \<open>\<open>new Map(snapshots.map(s => [s.id, s])).get(id)\<close>: the last snapshot with that id.\<close>

definition authoritative :: "task list \<Rightarrow> string \<Rightarrow> task option" where
  "authoritative snapshots aid = find (\<lambda>s. task_id s = aid) (rev snapshots)"

definition snapshot_info :: "task \<Rightarrow> agent_info" where
  "snapshot_info s =
     \<lparr>ai_id = task_id s, ai_task_id = Some (task_id s),
      ai_name = or_text (task_agent_label s) ''Agent'',
      ai_prompt = or_text (task_delegated s) (task_prompt s),
      ai_status = JStr (task_status s),
      ai_result = or_text (task_result s) (or_text (task_error s) []),
      ai_events = events_or_nil (task_events s),
      ai_truncated = task_truncated s\<rparr>"

definition native_parent :: "activity_event \<Rightarrow> string" where
  "native_parent e = text_of (jget (ev_payload e) ''parent_call_id'')"

text \<open>A native child is named from the event that started its parent call, when there is one.\<close>

definition new_native_agent :: "activity_event list \<Rightarrow> string \<Rightarrow> agent_info" where
  "new_native_agent events parent =
     (let start = find (\<lambda>c. event_call_id c = parent \<and> ends_with ''.started'' (ev_type c)) events;
          p = (case start of None \<Rightarrow> [] | Some c \<Rightarrow> ev_payload c);
          item = event_object (jget p ''item'');
          input = event_object (js_or (jget p ''input'')
                    (js_or (jget (event_object (jget p ''call'')) ''arguments'') (jget item ''arguments'')));
          name = text_of (js_or (jget input ''description'') (jget input ''name''))
      in \<lparr>ai_id = ''engine:'' @ parent, ai_task_id = None,
          ai_name = (if name = [] then ''Delegated agent'' else name),
          ai_prompt = text_of (js_or (jget input ''prompt'') (js_or (jget input ''task'') (jget item ''prompt''))),
          ai_status = JStr ''running'', ai_result = [], ai_events = [], ai_truncated = None\<rparr>)"

definition strip_parent :: "activity_event \<Rightarrow> activity_event" where
  "strip_parent e = e\<lparr>ev_payload := filter (\<lambda>kv. fst kv \<noteq> ''parent_call_id'') (ev_payload e)\<rparr>"

definition subagent_types :: "string list" where
  "subagent_types = [''subagent.started'', ''subagent.event'', ''subagent.finished'', ''subagent.cancelled'']"

definition forwarded_statuses :: "(string \<times> string) list" where
  "forwarded_statuses =
     [(''task.completed'', ''completed''), (''task.failed'', ''failed''), (''task.cancelled'', ''cancelled''),
      (''approval.requested'', ''awaiting_approval''), (''task.running'', ''running'')]"

definition new_subagent :: "string \<Rightarrow> jsobj \<Rightarrow> agent_info" where
  "new_subagent aid payload =
     (let name = text_of (jget payload ''agent'') in
      \<lparr>ai_id = aid, ai_task_id = Some aid, ai_name = (if name = [] then ''Agent'' else name),
       ai_prompt = [], ai_status = JStr ''running'', ai_result = [], ai_events = [], ai_truncated = None\<rparr>)"

text \<open>The updates a subagent event makes to its row; \<open>auth\<close> is the authoritative snapshot.\<close>

definition forward_inner :: "activity_event \<Rightarrow> agent_info \<Rightarrow> agent_info" where
  "forward_inner e a =
     (let payload = ev_payload e; t = text_of (jget payload ''type'');
          inner = \<lparr>ev_type = t, ev_payload = event_object (jget payload ''payload''), ev_seq = ev_seq e\<rparr>;
          st = jget (ev_payload inner) ''status'';
          a1 = a\<lparr>ai_events := ai_events a @ [inner]\<rparr>;
          a2 = (if starts_with ''task.'' t \<and> is_str st then a1\<lparr>ai_status := st\<rparr> else a1);
          mapped = own_or_proto forwarded_statuses t
      in if truthy mapped then a2\<lparr>ai_status := mapped\<rparr> else a2)"

definition update_subagent :: "task option \<Rightarrow> activity_event \<Rightarrow> agent_info \<Rightarrow> agent_info" where
  "update_subagent auth e a =
     (let payload = ev_payload e;
          a1 = (if truthy (jget payload ''agent'') then a\<lparr>ai_name := text_of (jget payload ''agent'')\<rparr> else a);
          a2 = (if truthy (jget payload ''task'') then a1\<lparr>ai_prompt := text_of (jget payload ''task'')\<rparr> else a1);
          a3 = (if ev_type e = ''subagent.event'' \<and> is_str (jget payload ''type'')
                   \<and> (case auth of None \<Rightarrow> True | Some s \<Rightarrow> task_events s = None)
                then forward_inner e a2 else a2);
          a4 = (if ev_type e = ''subagent.finished''
                then a3\<lparr>ai_status := js_or (JStr (text_of (jget payload ''status''))) (ai_status a3),
                        ai_result := text_of (jget payload ''result'')\<rparr>
                else a3)
      in if ev_type e = ''subagent.cancelled'' then a4\<lparr>ai_status := JStr ''cancelled''\<rparr> else a4)"

text \<open>The agents and, beside each row, the children computed from its snapshot.\<close>

type_synonym agent_rows = "(string \<times> agent_info \<times> agent_activity list) list"

definition agent_key :: "activity_event \<Rightarrow> string option" where
  "agent_key e =
     (let parent = native_parent e; child = text_of (jget (ev_payload e) ''child_id'') in
      if parent \<noteq> [] then Some (''engine:'' @ parent)
      else if ev_type e \<notin> set subagent_types then None
      else if child = [] then None
      else Some child)"

definition fresh_agent :: "activity_event list \<Rightarrow> activity_event \<Rightarrow> agent_info" where
  "fresh_agent events e =
     (if native_parent e \<noteq> [] then new_native_agent events (native_parent e)
      else new_subagent (text_of (jget (ev_payload e) ''child_id'')) (ev_payload e))"

definition update_agent ::
  "task list \<Rightarrow> activity_event \<Rightarrow> agent_info \<times> agent_activity list \<Rightarrow> agent_info \<times> agent_activity list" where
  "update_agent snapshots e r =
     (let (a, ch) = r in
      if native_parent e \<noteq> [] then (a\<lparr>ai_events := ai_events a @ [strip_parent e]\<rparr>, ch)
      else (update_subagent (authoritative snapshots (text_of (jget (ev_payload e) ''child_id''))) e a, ch))"

text \<open>The first two loops: \<open>sub\<close> gives the children of a snapshot.\<close>

definition snapshot_rows :: "(task \<Rightarrow> agent_activity list) \<Rightarrow> task list \<Rightarrow> agent_rows" where
  "snapshot_rows sub snapshots =
     foldl (\<lambda>m s. AList.update (task_id s) (snapshot_info s, sub s) m) [] snapshots"

definition delegated_rows ::
  "(task \<Rightarrow> agent_activity list) \<Rightarrow> activity_event list \<Rightarrow> task list \<Rightarrow> agent_rows" where
  "delegated_rows sub events snapshots =
     group_events agent_key (\<lambda>e. update_agent snapshots e (fresh_agent events e, []))
       (update_agent snapshots) (snapshot_rows sub snapshots) events"

lemma snapshot_rows_cong [fundef_cong]:
  assumes "xs = ys" and "\<And>s. s \<in> set ys \<Longrightarrow> f s = g s"
  shows "snapshot_rows f xs = snapshot_rows g ys"
  unfolding snapshot_rows_def assms(1) by (rule foldl_cong) (auto simp: assms(2))

lemma delegated_rows_cong [fundef_cong]:
  assumes "events = events'" and "xs = ys" and "\<And>s. s \<in> set ys \<Longrightarrow> f s = g s"
  shows "delegated_rows f events xs = delegated_rows g events' ys"
  unfolding delegated_rows_def using assms snapshot_rows_cong [of xs ys f g] by simp

text \<open>The last loop: snapshots are authoritative for status and result, and a native child takes
  the phase of the last terminal event of its call, or ends with its parent.\<close>

fun phase_name :: "tool_phase \<Rightarrow> string" where
  "phase_name PRunning = ''running''"
| "phase_name PPending = ''pending''"
| "phase_name PCompleted = ''completed''"
| "phase_name PFailed = ''failed''"
| "phase_name PCancelled = ''cancelled''"
| "phase_name PInterrupted = ''interrupted''"

definition close_native ::
  "activity_event list \<Rightarrow> jsval \<Rightarrow> agent_info \<Rightarrow> agent_info" where
  "close_native events parent_status a =
     (let parent_id = drop (length ''engine:'') (ai_id a);
          terminal = filter (\<lambda>e. event_call_id e = parent_id \<and>
             (contains ''completed'' (ev_type e) \<or> contains ''failed'' (ev_type e) \<or> contains ''finished'' (ev_type e)))
             events;
          a1 = (if terminal \<noteq> [] then
                  (case tool_activities [last terminal] None of
                     [] \<Rightarrow> a
                   | r # _ \<Rightarrow> if ta_phase r \<in> {PCompleted, PFailed, PCancelled}
                              then a\<lparr>ai_status := JStr (phase_name (ta_phase r))\<rparr> else a)
                else if truthy parent_status \<and> text_of parent_status \<in> set terminal_task_statuses
                then a\<lparr>ai_status := JStr ''interrupted''\<rparr> else a)
      in a1\<lparr>ai_result := task_response_text None (Some (ai_events a1))\<rparr>)"

definition finish_agent ::
  "activity_event list \<Rightarrow> task list \<Rightarrow> jsval \<Rightarrow> agent_info \<Rightarrow> agent_info" where
  "finish_agent events snapshots parent_status a =
     (let a1 = (case authoritative snapshots (ai_id a) of
                  None \<Rightarrow> a
                | Some s \<Rightarrow> a\<lparr>ai_status := JStr (task_status s),
                              ai_result := or_text (task_result s) (or_text (task_error s) (ai_result a))\<rparr>)
      in if truthy_text (ai_task_id a1) then a1 else close_native events parent_status a1)"

function delegated_activities ::
  "nat \<Rightarrow> activity_event list \<Rightarrow> task list \<Rightarrow> jsval \<Rightarrow> agent_activity list" where
  "delegated_activities depth events snapshots parent_status =
     (if depth > 4 then []
      else map (\<lambda>(k, a, ch).
        (let a' = finish_agent events snapshots parent_status a in
         Agent a'
           (if ai_events a' \<noteq> [] then
              delegated_activities (Suc depth) (ai_events a')
                (case find (\<lambda>s. task_id s = ai_id a') snapshots of
                   None \<Rightarrow> [] | Some s \<Rightarrow> children_or_nil (task_children s))
                (ai_status a')
            else ch)))
        (delegated_rows
           (\<lambda>s. delegated_activities (Suc depth) (events_or_nil (task_events s))
              (children_or_nil (task_children s)) (JStr (task_status s)))
           events snapshots))"
  by pat_completeness auto
termination
  by (relation "measure (\<lambda>(depth, _). 5 - depth)") auto

declare delegated_activities.simps [simp del]

subsection \<open>The rows of one level\<close>

lemma ai_id_forward [simp]: "ai_id (forward_inner e a) = ai_id a" "ai_task_id (forward_inner e a) = ai_task_id a"
  by (simp_all add: forward_inner_def Let_def)

lemma ai_id_update_subagent [simp]:
  "ai_id (update_subagent s e a) = ai_id a" "ai_task_id (update_subagent s e a) = ai_task_id a"
  by (simp_all add: update_subagent_def Let_def split: option.split)

lemma ai_id_update_agent [simp]:
  "ai_id (fst (update_agent ss e r)) = ai_id (fst r)"
  "ai_task_id (fst (update_agent ss e r)) = ai_task_id (fst r)"
  "snd (update_agent ss e r) = snd r"
  by (simp_all add: update_agent_def split: prod.split)

lemma ai_id_fresh: "agent_key e = Some k \<Longrightarrow> ai_id (fresh_agent es e) = k"
  by (auto simp: agent_key_def fresh_agent_def new_native_agent_def new_subagent_def Let_def
      split: if_splits)

lemma ai_id_close_native [simp]: "ai_id (close_native es ps a) = ai_id a"
  by (simp add: close_native_def Let_def split: list.split)

lemma ai_id_finish [simp]: "ai_id (finish_agent es ss ps a) = ai_id a"
  by (simp add: finish_agent_def Let_def split: option.split)

lemma snapshot_rows_append:
  "snapshot_rows sub (ss @ [s]) = AList.update (task_id s) (snapshot_info s, sub s) (snapshot_rows sub ss)"
  by (simp add: snapshot_rows_def)

lemma distinct_snapshot_rows: "distinct (map fst (snapshot_rows sub ss))"
  by (induction ss rule: rev_induct)
    (simp_all add: snapshot_rows_append distinct_update, simp add: snapshot_rows_def)

lemma map_of_snapshot_rows:
  "map_of (snapshot_rows sub ss) k = map_option (\<lambda>s. (snapshot_info s, sub s)) (authoritative ss k)"
proof (induction ss rule: rev_induct)
  case Nil
  then show ?case by (simp add: snapshot_rows_def authoritative_def)
next
  case (snoc s ss)
  then show ?case
    by (simp add: snapshot_rows_append authoritative_def update_conv')
qed

lemma authoritative_id: "authoritative ss k = Some s \<Longrightarrow> task_id s = k"
  by (auto simp: authoritative_def find_Some_iff)

lemma distinct_delegated_rows: "distinct (map fst (delegated_rows sub es ss))"
  unfolding delegated_rows_def by (rule distinct_group_events) (rule distinct_snapshot_rows)

lemma delegated_rows_id:
  assumes "(k, a, ch) \<in> set (delegated_rows sub es ss)"
  shows "ai_id a = k"
proof -
  have snap: "\<forall>(k, r) \<in> set (snapshot_rows sub ss). ai_id (fst r) = k"
  proof clarify
    fix k a ch assume "(k, a, ch) \<in> set (snapshot_rows sub ss)"
    then have "map_of (snapshot_rows sub ss) k = Some (a, ch)"
      using distinct_snapshot_rows by simp
    then show "ai_id (fst (a, ch)) = k"
      by (auto simp: map_of_snapshot_rows snapshot_info_def dest: authoritative_id)
  qed
  have "ai_id (fst (a, ch)) = k"
    by (rule group_events_invariant [where key = agent_key and P = "\<lambda>k r. ai_id (fst r) = k" and x = "(a, ch)"])
      (use snap assms distinct_snapshot_rows in \<open>auto simp: delegated_rows_def ai_id_fresh\<close>)
  then show ?thesis by simp
qed

lemma delegated_rows_snapshot:
  assumes "(k, a, ch) \<in> set (delegated_rows sub es ss)" and "authoritative ss k = Some s"
  shows "ai_task_id a = Some k"
proof -
  have "map_of (delegated_rows sub es ss) k = Some (a, ch)"
    using assms(1) distinct_delegated_rows by simp
  then have row: "(a, ch) = foldl (\<lambda>r e. update_agent ss e r) (snapshot_info s, sub s)
      (filter (\<lambda>e. agent_key e = Some k) es)"
    using assms(2) by (simp add: delegated_rows_def map_of_group_events map_of_snapshot_rows group_row_Some)
  have "ai_task_id (fst (foldl (\<lambda>r e. update_agent ss e r) (snapshot_info s, sub s)
      (filter (\<lambda>e. agent_key e = Some k) es))) = Some (task_id s)"
    by (rule foldl_invariant) (simp_all add: snapshot_info_def)
  with row show ?thesis using authoritative_id [OF assms(2)] by (metis fst_conv)
qed

lemma delegated_agentE:
  assumes "r \<in> set (delegated_activities d es ss ps)"
  obtains k a ch sub where "d \<le> 4" and "(k, a, ch) \<in> set (delegated_rows sub es ss)"
    and "agent_info r = finish_agent es ss ps a"
proof -
  have d: "d \<le> 4"
    using assms by (subst (asm) delegated_activities.simps) (auto split: if_splits)
  show ?thesis
    using assms d that
    by (subst (asm) delegated_activities.simps) (auto simp: Let_def)
qed

lemma finish_agent_snapshot:
  "authoritative ss (ai_id a) = Some s \<Longrightarrow> ai_task_id a = Some k \<Longrightarrow> k \<noteq> [] \<Longrightarrow>
     ai_status (finish_agent es ss ps a) = JStr (task_status s)"
  by (simp add: finish_agent_def truthy_text_def Let_def)

lemma delegated_rows_has_snapshot:
  assumes "authoritative ss k = Some s"
  shows "\<exists>a ch. (k, a, ch) \<in> set (delegated_rows sub es ss)"
proof -
  have "k \<in> fst ` set (snapshot_rows sub ss)"
    using assms map_of_eq_None_iff [of "snapshot_rows sub ss" k] by (simp add: map_of_snapshot_rows)
  then have "k \<in> fst ` set (delegated_rows sub es ss)"
    by (simp add: delegated_rows_def keys_group_events del: group_events_Cons)
  then show ?thesis by force
qed

lemma delegated_activities_row:
  assumes "(k, a, ch) \<in> set (delegated_rows (\<lambda>s. delegated_activities (Suc d) (events_or_nil (task_events s))
        (children_or_nil (task_children s)) (JStr (task_status s))) es ss)" and "d \<le> 4"
  shows "\<exists>r \<in> set (delegated_activities d es ss ps). agent_info r = finish_agent es ss ps a"
  using assms by (subst delegated_activities.simps) (force simp: Let_def)

text \<open>A task snapshot is authoritative. Whatever older events of the worker are still in the
  parent's window, the agent shows the status of its snapshot, so a finished worker is never shown
  as running again.\<close>

theorem snapshot_authoritative:
  assumes "r \<in> set (delegated_activities d es ss ps)"
    and "authoritative ss (ai_id (agent_info r)) = Some s"
    and "ai_id (agent_info r) \<noteq> []"
  shows "ai_status (agent_info r) = JStr (task_status s)"
proof -
  obtain k a ch sub where row: "(k, a, ch) \<in> set (delegated_rows sub es ss)"
    and info: "agent_info r = finish_agent es ss ps a"
    using assms(1) by (rule delegated_agentE)
  have k: "ai_id a = k" using row by (rule delegated_rows_id)
  have auth: "authoritative ss (ai_id a) = Some s"
    using assms(2) by (simp only: info ai_id_finish)
  then have "ai_task_id a = Some k"
    using delegated_rows_snapshot [OF row] k by simp
  moreover have "k \<noteq> []"
    using assms(3) k by (simp only: info ai_id_finish) simp
  ultimately show ?thesis
    unfolding info using auth by (intro finish_agent_snapshot)
qed

definition worker_snapshot :: task where
  "worker_snapshot = Task ''w1'' ''completed'' ''build'' (Some ''done'') None None None None None None None None None"

definition late_event :: activity_event where
  "late_event = \<lparr>ev_type = ''subagent.started'', ev_payload = [(''child_id'', JStr ''w1'')], ev_seq = 3\<rparr>"

theorem snapshot_authoritative_witness:
  "\<exists>r \<in> set (delegated_activities 0 [late_event] [worker_snapshot] JUndef).
     ai_id (agent_info r) = ''w1'' \<and> ai_status (agent_info r) = JStr ''completed''"
proof -
  have auth: "authoritative [worker_snapshot] ''w1'' = Some worker_snapshot"
    by (simp add: authoritative_def worker_snapshot_def)
  obtain a ch where row: "(''w1'', a, ch) \<in> set (delegated_rows
      (\<lambda>s. delegated_activities (Suc 0) (events_or_nil (task_events s))
        (children_or_nil (task_children s)) (JStr (task_status s))) [late_event] [worker_snapshot])"
    using delegated_rows_has_snapshot [OF auth] by blast
  obtain r where r: "r \<in> set (delegated_activities 0 [late_event] [worker_snapshot] JUndef)"
    and info: "agent_info r = finish_agent [late_event] [worker_snapshot] JUndef a"
    using delegated_activities_row [OF row] by auto
  have id: "ai_id (agent_info r) = ''w1''"
    using delegated_rows_id [OF row] info by simp
  have "ai_status (agent_info r) = JStr (task_status worker_snapshot)"
    by (rule snapshot_authoritative [OF r]) (simp_all add: id auth)
  with r id show ?thesis by (force simp: worker_snapshot_def)
qed

subsection \<open>The tree is bounded\<close>

fun agent_height :: "agent_activity \<Rightarrow> nat" where
  "agent_height (Agent a ch) = Suc (foldr max (map agent_height ch) 0)"

lemma foldr_max_le: "(\<forall>x \<in> set xs. x \<le> n) \<Longrightarrow> foldr max xs 0 \<le> (n::nat)"
  by (induction xs) auto

lemma delegated_rows_children:
  assumes "\<And>s. \<forall>c \<in> set (sub s). P c"
  shows "\<forall>(k, a, ch) \<in> set (delegated_rows sub es ss). \<forall>c \<in> set ch. P c"
proof -
  have snap: "\<forall>(k, r) \<in> set (snapshot_rows sub ss). \<forall>c \<in> set (snd r). P c"
    unfolding snapshot_rows_def
    by (rule foldl_invariant, simp, rule update_preserves_rows) (use assms in auto)
  have "\<forall>c \<in> set (snd (a, ch)). P c" if "(k, a, ch) \<in> set (delegated_rows sub es ss)" for k a ch
    by (rule group_events_invariant [where key = agent_key and P = "\<lambda>k r. \<forall>c \<in> set (snd r). P c"
          and x = "(a, ch)" and k = k and m = "snapshot_rows sub ss" and es = es
          and ins = "\<lambda>e. update_agent ss e (fresh_agent es e, [])" and upd = "update_agent ss"])
      (use that distinct_snapshot_rows snap in \<open>auto simp: delegated_rows_def\<close>)
  then show ?thesis by auto
qed

text \<open>The tree of delegated agents is at most five levels deep, whatever the events and
  snapshots nest.\<close>

theorem delegated_depth:
  "\<forall>r \<in> set (delegated_activities d es ss ps). agent_height r \<le> 5 - d"
proof (induction "5 - d" arbitrary: d es ss ps)
  case 0
  then show ?case by (subst delegated_activities.simps) simp
next
  case (Suc n)
  then have n: "n = 5 - Suc d" and d: "d \<le> 4" by auto
  have IH: "\<forall>c \<in> set (delegated_activities (Suc d) es ss ps). agent_height c \<le> n" for es ss ps
    using Suc.hyps(1) [OF n] n by simp
  let ?sub = "\<lambda>s. delegated_activities (Suc d) (events_or_nil (task_events s))
        (children_or_nil (task_children s)) (JStr (task_status s))"
  have rows: "\<forall>(k, a, ch) \<in> set (delegated_rows ?sub es ss). \<forall>c \<in> set ch. agent_height c \<le> n"
    by (rule delegated_rows_children) (rule IH)
  have "agent_height (Agent a ch) \<le> Suc n" if "\<forall>c \<in> set ch. agent_height c \<le> n" for a ch
    using that by (simp add: foldr_max_le)
  with rows IH d Suc.hyps(2) show ?case
    by (subst delegated_activities.simps) (auto simp: Let_def split: if_splits)
qed

theorem delegated_depth_witness:
  "\<exists>r \<in> set (delegated_activities 0 [late_event] [worker_snapshot] JUndef). agent_height r \<le> 5"
proof -
  have auth: "authoritative [worker_snapshot] ''w1'' = Some worker_snapshot"
    by (simp add: authoritative_def worker_snapshot_def)
  obtain a ch where row: "(''w1'', a, ch) \<in> set (delegated_rows
      (\<lambda>s. delegated_activities (Suc 0) (events_or_nil (task_events s))
        (children_or_nil (task_children s)) (JStr (task_status s))) [late_event] [worker_snapshot])"
    using delegated_rows_has_snapshot [OF auth] by blast
  obtain r where "r \<in> set (delegated_activities 0 [late_event] [worker_snapshot] JUndef)"
    using delegated_activities_row [OF row] by auto
  with delegated_depth [of 0 "[late_event]" "[worker_snapshot]" JUndef] show ?thesis by auto
qed

section \<open>Previews\<close>

text \<open>\<open>activityPreview\<close>: \<open>pretty\<close> is \<open>JSON.stringify(value, null, 2)\<close>. The ellipsis is
  one UTF-16 code unit, written here as its Windows-1252 byte.\<close>

definition ellipsis :: string where
  "ellipsis = [CHR 0x85]"

definition activity_preview :: "(jsval \<Rightarrow> string) \<Rightarrow> jsval \<Rightarrow> nat \<Rightarrow> string" where
  "activity_preview pretty value limit =
     (if nullish value then []
      else (let object = event_object value;
                text = (if jget object ''truncated'' = JBool True \<and> is_str (jget object ''preview'')
                        then text_of (jget object ''preview'') @ CHR 0x0A # ellipsis @ '' Output truncated by the engine.''
                        else if is_str value then text_of value
                        else pretty value)
            in if length text > limit
               then take limit text @ CHR 0x0A # ellipsis @ '' Preview truncated.''
               else text))"

end
