(* ===== verification/ChatPanel.thy ===== *)
theory ChatPanel
  imports Sending ChatConnections PromptInput TaskPresentation ToolActivity AiElements
begin

text \<open>
  The rest of \<open>features/Chat.tsx\<close> around the composer: stopping the task that runs, changing the
  conversation's settings through the write queue, attaching images, what waits for review, and the
  composer as it is shown. Scrolling and focus are the browser's.
\<close>

section \<open>Stopping a task\<close>

definition task_running :: "task option \<Rightarrow> bool" where
  "task_running t = (case t of None \<Rightarrow> False
     | Some k \<Rightarrow> task_is_active (task_status k) \<or> task_status k \<in> {''awaiting_approval'', ''paused'', ''recovery_confirmation_required''})"

record stop_flight =
  st_task :: string
  st_origin :: string
  st_done :: bool

text \<open>\<open>stoppingTasks\<close> is shared by every panel; \<open>sx_shown\<close> is the conversation the panel shows.\<close>

record stop_desk =
  sx_stopping :: "string set"
  sx_flights :: "stop_flight list"
  sx_shown :: "string option"
  sx_error :: "(string \<times> string) option"
  sx_refreshes :: nat
  sx_reported :: "js_error list"

definition no_stops :: stop_desk where
  "no_stops = \<lparr>sx_stopping = {}, sx_flights = [], sx_shown = None, sx_error = None, sx_refreshes = 0, sx_reported = []\<rparr>"

definition task_stopping :: "task option \<Rightarrow> stop_desk \<Rightarrow> bool" where
  "task_stopping latest w = (case latest of None \<Rightarrow> False | Some t \<Rightarrow> task_status t = ''cancelling'' \<or> task_id t \<in> sx_stopping w)"

definition stop_task :: "session option \<Rightarrow> task option \<Rightarrow> stop_desk \<Rightarrow> stop_desk" where
  "stop_task shown latest w =
     (case (shown, latest) of
        (Some s, Some t) \<Rightarrow>
          if task_id t \<in> sx_stopping w \<or> task_status t = ''cancelling'' then w
          else w\<lparr>sx_stopping := insert (task_id t) (sx_stopping w), sx_error := None,
                 sx_flights := sx_flights w @ [\<lparr>st_task = task_id t, st_origin = ses_id s, st_done = False\<rparr>]\<rparr>
      | _ \<Rightarrow> w)"

definition stop_answered :: "nat \<Rightarrow> unit js_result \<Rightarrow> stop_desk \<Rightarrow> stop_desk" where
  "stop_answered n r w =
     (if n < length (sx_flights w) \<and> \<not> st_done (sx_flights w ! n)
      then (let f = sx_flights w ! n;
                w' = w\<lparr>sx_flights := (sx_flights w)[n := f\<lparr>st_done := True\<rparr>], sx_stopping := sx_stopping w - {st_task f}\<rparr>
            in case r of
                 Inr _ \<Rightarrow> w'\<lparr>sx_refreshes := Suc (sx_refreshes w)\<rparr>
               | Inl e \<Rightarrow> w'\<lparr>sx_error := (if sx_shown w = Some (st_origin f) then Some (st_origin f, error_message e) else sx_error w),
                             sx_reported := sx_reported w @ [e]\<rparr>)
      else w)"

definition stop_show :: "session option \<Rightarrow> stop_desk \<Rightarrow> stop_desk" where
  "stop_show s w = w\<lparr>sx_shown := map_option ses_id s, sx_error := None\<rparr>"

datatype stop_event = StopShow "session option" | StopTask "session option" "task option" | StopAnswered nat "unit js_result"

fun stop_step :: "stop_event \<Rightarrow> stop_desk \<Rightarrow> stop_desk" where
  "stop_step (StopShow s) w = stop_show s w"
| "stop_step (StopTask s t) w = stop_task s t w"
| "stop_step (StopAnswered n r) w = stop_answered n r w"

definition stops_after :: "stop_event list \<Rightarrow> stop_desk" where
  "stops_after es = foldl (\<lambda>w e. stop_step e w) no_stops es"

text \<open>The tasks whose cancellation was asked for and not answered.\<close>

definition asked_to_stop :: "stop_desk \<Rightarrow> string list" where
  "asked_to_stop w = map st_task (filter (\<lambda>f. \<not> st_done f) (sx_flights w))"

lemma asked_settled:
  assumes "n < length fs" "\<not> st_done (fs ! n)" "distinct (map st_task (filter (\<lambda>f. \<not> st_done f) fs))"
  shows "set (map st_task (filter (\<lambda>f. \<not> st_done f) (fs[n := (fs ! n)\<lparr>st_done := True\<rparr>])))
      = set (map st_task (filter (\<lambda>f. \<not> st_done f) fs)) - {st_task (fs ! n)}"
    and "distinct (map st_task (filter (\<lambda>f. \<not> st_done f) (fs[n := (fs ! n)\<lparr>st_done := True\<rparr>])))"
proof -
  define a where "a = take n fs"
  define b where "b = drop (Suc n) fs"
  have fs: "fs = a @ fs ! n # b" and upd: "fs[n := y] = a @ y # b" for y
    unfolding a_def b_def by (rule id_take_nth_drop [OF assms(1)]) (rule upd_conv_take_nth_drop [OF assms(1)])
  have parts: "filter (\<lambda>f. \<not> st_done f) fs = filter (\<lambda>f. \<not> st_done f) a @ fs ! n # filter (\<lambda>f. \<not> st_done f) b"
    using assms(2) by (subst fs) simp
  show "set (map st_task (filter (\<lambda>f. \<not> st_done f) (fs[n := (fs ! n)\<lparr>st_done := True\<rparr>])))
      = set (map st_task (filter (\<lambda>f. \<not> st_done f) fs)) - {st_task (fs ! n)}"
    using assms(3) unfolding parts upd by auto
  show "distinct (map st_task (filter (\<lambda>f. \<not> st_done f) (fs[n := (fs ! n)\<lparr>st_done := True\<rparr>])))"
    using assms(3) unfolding parts upd by auto
qed

definition stop_inv :: "stop_desk \<Rightarrow> bool" where
  "stop_inv w \<longleftrightarrow> distinct (asked_to_stop w) \<and> set (asked_to_stop w) = sx_stopping w"

lemma stop_inv_step: "stop_inv w \<Longrightarrow> stop_inv (stop_step e w)"
proof (cases e)
  case (StopTask s t)
  then have "stop_step e w = w \<or> (\<exists>i. i \<notin> sx_stopping w \<and> asked_to_stop (stop_step e w) = asked_to_stop w @ [i] \<and> sx_stopping (stop_step e w) = insert i (sx_stopping w))"
    by (cases s; cases t) (simp_all add: asked_to_stop_def stop_task_def)
  then show "stop_inv w \<Longrightarrow> ?thesis" by (auto simp: stop_inv_def)
next
  case (StopAnswered n r)
  then show "stop_inv w \<Longrightarrow> ?thesis" using asked_settled [of n "sx_flights w"]
    by (auto simp: stop_inv_def asked_to_stop_def stop_answered_def Let_def split: sum.split)
qed (simp add: stop_inv_def asked_to_stop_def stop_show_def)

text \<open>One cancellation of a task is asked for at a time, and the button says so exactly while it is.\<close>

lemma stop_asked_once: "distinct (asked_to_stop (stops_after es)) \<and> set (asked_to_stop (stops_after es)) = sx_stopping (stops_after es)"
proof -
  have "stop_inv (foldl (\<lambda>w e. stop_step e w) w es)" if "stop_inv w" for w
    using that by (induction es arbitrary: w) (simp_all add: stop_inv_step)
  then show ?thesis by (simp add: stops_after_def stop_inv_def asked_to_stop_def no_stops_def)
qed

section \<open>Changing the conversation\<close>

text \<open>\<open>patch\<close>: inside one queued write the revision is read and the change sent under it; it answers whether the change was stored.\<close>

datatype change_phase = ChangeQueued | ChangeReading | ChangePatching | ChangeDone bool

record patch_flight =
  hf_id :: string
  hf_changes :: jsobj
  hf_epoch :: nat
  hf_phase :: change_phase

record change_desk =
  hg_lock :: write_lock
  hg_flights :: "patch_flight list"
  hg_patches :: "(string \<times> int \<times> jsobj) list"
  hg_refreshes :: nat
  hg_reported :: "js_error list"

definition no_changes :: change_desk where
  "no_changes = \<lparr>hg_lock = all_free, hg_flights = [], hg_patches = [], hg_refreshes = 0, hg_reported = []\<rparr>"

definition set_change :: "nat \<Rightarrow> change_phase \<Rightarrow> change_desk \<Rightarrow> change_desk" where
  "set_change n ph w = w\<lparr>hg_flights := (hg_flights w)[n := (hg_flights w ! n)\<lparr>hf_phase := ph\<rparr>]\<rparr>"

definition patch_session :: "session option \<Rightarrow> jsobj \<Rightarrow> change_desk \<Rightarrow> change_desk" where
  "patch_session s changes w =
     (case s of None \<Rightarrow> w
      | Some x \<Rightarrow> w\<lparr>hg_flights := hg_flights w @ [\<lparr>hf_id = ses_id x, hf_changes = changes, hf_epoch = wl_epoch (hg_lock w), hf_phase = ChangeQueued\<rparr>]\<rparr>)"

definition current_change :: "nat \<Rightarrow> change_desk \<Rightarrow> bool" where
  "current_change n w \<longleftrightarrow> hf_epoch (hg_flights w ! n) = wl_epoch (hg_lock w)"

text \<open>The write ends, with what the handler does then; a write of an epoch that is over holds nothing.\<close>

definition end_change :: "nat \<Rightarrow> js_error option \<Rightarrow> change_desk \<Rightarrow> change_desk" where
  "end_change n e w =
     (let w' = (if current_change n w \<and> hf_phase (hg_flights w ! n) \<noteq> ChangeQueued
                then w\<lparr>hg_lock := (hg_lock w)\<lparr>wl_held := wl_held (hg_lock w) - {hf_id (hg_flights w ! n)}\<rparr>\<rparr> else w)
      in case e of
           None \<Rightarrow> (set_change n (ChangeDone True) w')\<lparr>hg_refreshes := Suc (hg_refreshes w)\<rparr>
         | Some x \<Rightarrow> (set_change n (ChangeDone False) w')\<lparr>hg_reported := (if current_change n w then hg_reported w @ [x] else hg_reported w)\<rparr>)"

definition start_change :: "nat \<Rightarrow> change_desk \<Rightarrow> change_desk" where
  "start_change n w =
     (if \<not> current_change n w then end_change n (Some lock_error) w
      else (set_change n ChangeReading w)\<lparr>hg_lock := (hg_lock w)\<lparr>wl_held := insert (hf_id (hg_flights w ! n)) (wl_held (hg_lock w))\<rparr>\<rparr>)"

definition read_change :: "nat \<Rightarrow> int js_result \<Rightarrow> change_desk \<Rightarrow> change_desk" where
  "read_change n r w =
     (case r of
        Inl e \<Rightarrow> end_change n (Some e) w
      | Inr revision \<Rightarrow>
          if \<not> current_change n w then end_change n (Some lock_error) w
          else (set_change n ChangePatching w)\<lparr>hg_patches := hg_patches w @ [(hf_id (hg_flights w ! n), revision, hf_changes (hg_flights w ! n))]\<rparr>)"

text \<open>An answer that comes after the epoch is over was refused by the queue.\<close>

definition patched_change :: "nat \<Rightarrow> unit js_result \<Rightarrow> change_desk \<Rightarrow> change_desk" where
  "patched_change n r w =
     (case r of Inl e \<Rightarrow> end_change n (Some e) w
      | Inr _ \<Rightarrow> end_change n (if current_change n w then None else Some lock_error) w)"

section \<open>Attaching images\<close>

record picked_file =
  pf_name :: string
  pf_type :: string
  pf_size :: int

text \<open>An upload holds what the render that began it showed; the first of \<open>up_files\<close> is being read.\<close>

record upload =
  up_session :: "session option"
  up_images :: "draft_image list"
  up_text :: string
  up_context :: "jsval list"
  up_files :: "picked_file list"
  up_next :: "draft_image list"

datatype upload_state = UploadReading upload | UploadDone upload | UploadFailed js_error

definition supported_image :: "string \<Rightarrow> bool" where
  "supported_image m \<longleftrightarrow> m \<in> {''image/png'', ''image/jpeg'', ''image/webp''}"

definition file_problem :: "picked_file \<Rightarrow> string option" where
  "file_problem f =
     (if \<not> supported_image (pf_type f)
      then Some ''This session attachment path supports PNG, JPEG and WebP. Use project file context for code.''
      else if pf_size f > 2000000 then Some ''Image exceeds the 2 MB session attachment limit'' else None)"

definition upload_next :: "upload \<Rightarrow> upload_state" where
  "upload_next u =
     (case up_files u of [] \<Rightarrow> UploadDone u
      | f # _ \<Rightarrow> (case file_problem f of Some m \<Rightarrow> UploadFailed (JsError m) | None \<Rightarrow> UploadReading u))"

definition begin_upload :: "picked_file list \<Rightarrow> composer \<Rightarrow> upload_state" where
  "begin_upload files c =
     (if length (cp_images c) + length files > 4 then UploadFailed (JsError ''Attach at most four images per turn'')
      else upload_next \<lparr>up_session = cp_session c, up_images = cp_images c, up_text = cp_draft c, up_context = cp_context c,
             up_files = files, up_next = []\<rparr>)"

text \<open>The reader's answer is a data URL; what stands after its comma is the data.\<close>

definition url_data :: "string \<Rightarrow> string" where
  "url_data url = (case split_on (CHR '','') url of _ # d # _ \<Rightarrow> d | _ \<Rightarrow> [])"

fun file_read :: "string js_result \<Rightarrow> upload_state \<Rightarrow> upload_state" where
  "file_read (Inl e) (UploadReading u) = UploadFailed e"
| "file_read (Inr url) (UploadReading u) =
     (case up_files u of [] \<Rightarrow> UploadDone u
      | f # rest \<Rightarrow> upload_next (u\<lparr>up_files := rest, up_next := up_next u @ [\<lparr>di_name = pf_name f, di_mime = pf_type f, di_data = url_data url\<rparr>]\<rparr>))"
| "file_read _ x = x"

fun end_upload :: "upload_state \<Rightarrow> composer \<Rightarrow> composer" where
  "end_upload (UploadDone u) c = edit_attachments_in (up_session u) (up_images u @ up_next u) (up_text u) (up_context u) c"
| "end_upload (UploadFailed e) c = c\<lparr>cp_reported := cp_reported c @ [e]\<rparr>"
| "end_upload (UploadReading _) c = c"

definition read_all :: "string js_result list \<Rightarrow> upload_state \<Rightarrow> upload_state" where
  "read_all rs x = foldl (\<lambda>y r. file_read r y) x rs"

text \<open>What an upload keeps while it reads: at most four images, of the supported kinds.\<close>

definition upload_ok :: "draft_image list \<Rightarrow> upload_state \<Rightarrow> bool" where
  "upload_ok old x = (case x of UploadFailed _ \<Rightarrow> True
     | UploadReading u \<Rightarrow> up_images u = old \<and> length old + length (up_next u) + length (up_files u) \<le> 4 \<and> up_files u \<noteq> []
         \<and> file_problem (hd (up_files u)) = None \<and> (\<forall>i \<in> set (up_next u). supported_image (di_mime i))
     | UploadDone u \<Rightarrow> up_images u = old \<and> length old + length (up_next u) \<le> 4
         \<and> (\<forall>i \<in> set (up_next u). supported_image (di_mime i)))"

lemma upload_ok_next:
  assumes "up_images u = old" "length old + length (up_next u) + length (up_files u) \<le> 4"
    and "\<forall>i \<in> set (up_next u). supported_image (di_mime i)"
  shows "upload_ok old (upload_next u)"
  using assms by (cases "up_files u") (simp_all add: upload_ok_def upload_next_def split: option.split)

lemma upload_ok_read: "upload_ok old x \<Longrightarrow> upload_ok old (file_read r x)"
proof (induction r x rule: file_read.induct)
  case (2 url u)
  then obtain f rest where f: "up_files u = f # rest" "supported_image (pf_type f)"
    by (cases "up_files u") (auto simp: upload_ok_def file_problem_def split: if_splits)
  have "upload_ok old (upload_next (u\<lparr>up_files := rest, up_next := up_next u @ [\<lparr>di_name = pf_name f, di_mime = pf_type f, di_data = url_data url\<rparr>]\<rparr>))"
    by (rule upload_ok_next) (use 2 f in \<open>auto simp: upload_ok_def\<close>)
  then show ?case using f by simp
qed (simp_all add: upload_ok_def)

text \<open>However many files are picked and whatever the readers answer, an upload that ends leaves at most four images, the ones it added
  of a supported kind.\<close>

lemma upload_bounded:
  assumes "read_all rs (begin_upload files c) = UploadDone u"
  shows "length (cp_images (end_upload (UploadDone u) c)) \<le> 4
    \<and> (\<forall>i \<in> set (up_next u). supported_image (di_mime i))"
proof -
  have "upload_ok (cp_images c) (begin_upload files c)"
  proof (cases "length (cp_images c) + length files > 4")
    case True
    then show ?thesis by (simp add: begin_upload_def upload_ok_def)
  next
    case False
    then have "begin_upload files c = upload_next \<lparr>up_session = cp_session c, up_images = cp_images c, up_text = cp_draft c, up_context = cp_context c,
        up_files = files, up_next = []\<rparr>" by (simp add: begin_upload_def)
    moreover have "upload_ok (cp_images c) (upload_next \<lparr>up_session = cp_session c, up_images = cp_images c, up_text = cp_draft c, up_context = cp_context c,
        up_files = files, up_next = []\<rparr>)" by (rule upload_ok_next) (use False in simp_all)
    ultimately show ?thesis by (simp only:)
  qed
  then have "upload_ok (cp_images c) (read_all rs (begin_upload files c))"
    unfolding read_all_def by (induction rs rule: rev_induct) (simp_all add: upload_ok_read)
  then show ?thesis using assms by (simp add: upload_ok_def edit_attachments_in_def Let_def split: option.split)
qed

text \<open>Two uploads of one render: the one that ends last keeps only its own image.\<close>

definition one_image :: "string \<Rightarrow> picked_file list" where
  "one_image n = [\<lparr>pf_name = n, pf_type = ''image/png'', pf_size = 1\<rparr>]"

lemma uploads_overwrite:
  "map di_name (cp_images (end_upload (read_all [Inr ''data:,b''] (begin_upload (one_image ''b'') no_composer))
     (end_upload (read_all [Inr ''data:,a''] (begin_upload (one_image ''a'') no_composer)) no_composer))) = [''b'']"
  by code_simp

text \<open>And its images are shown in whatever conversation the panel shows by then.\<close>

lemma upload_ignores_switch: "cp_images (end_upload (UploadDone u) (show_session s c)) = up_images u @ up_next u"
  by (simp add: edit_attachments_in_def Let_def split: option.split)

section \<open>What waits for a person\<close>

datatype review_target = FocusApproval string string string | Supervise string | NothingToReview

definition has_pending_approval :: "task \<Rightarrow> bool" where
  "has_pending_approval t \<longleftrightarrow> (case task_approvals t of None \<Rightarrow> False | Some as \<Rightarrow> list_ex (\<lambda>a. ap_status a = ''pending'') as)"

definition row_of_task :: "string \<Rightarrow> message_row list \<Rightarrow> message_row option" where
  "row_of_task tid rows = find (\<lambda>m. map_option task_id (mr_task m) = Some tid) rows"

definition review_current_task :: "session option \<Rightarrow> task option \<Rightarrow> message_row list \<Rightarrow> review_target" where
  "review_current_task s latest rows =
     (case (s, latest) of
        (Some x, Some t) \<Rightarrow>
          (case row_of_task (task_id t) rows of
             Some m \<Rightarrow> if has_pending_approval t then FocusApproval (ses_id x) (task_id t) (mr_id m) else Supervise (task_id t)
           | None \<Rightarrow> Supervise (task_id t))
      | _ \<Rightarrow> NothingToReview)"

text \<open>The focus is dropped as soon as its approval no longer waits in the conversation shown.\<close>

definition focus_stands :: "string \<times> string \<times> string \<Rightarrow> session option \<Rightarrow> message_row list \<Rightarrow> bool" where
  "focus_stands f s rows =
     (case f of (sid, tid, mid) \<Rightarrow> map_option ses_id s = Some sid
        \<and> (case find (\<lambda>m. mr_id m = mid \<and> map_option task_id (mr_task m) = Some tid) rows of
             Some m \<Rightarrow> (case mr_task m of Some t \<Rightarrow> has_pending_approval t | None \<Rightarrow> False)
           | None \<Rightarrow> False))"

text \<open>A focus is only asked for where it stands.\<close>

lemma review_focus_stands:
  assumes "review_current_task s latest (conversation_messages ts) = FocusApproval sid tid mid"
    and "distinct (map mr_id (conversation_messages ts))" "latest = Some t" "\<And>m. m \<in> set (conversation_messages ts) \<Longrightarrow> map_option task_id (mr_task m) = Some (task_id t) \<Longrightarrow> mr_task m = Some t"
  shows "focus_stands (sid, tid, mid) s (conversation_messages ts)"
proof -
  obtain x m where x: "s = Some x" "sid = ses_id x" "tid = task_id t" "mid = mr_id m" "has_pending_approval t"
      and m: "row_of_task (task_id t) (conversation_messages ts) = Some m"
    using assms(1,3) by (auto simp: review_current_task_def split: option.splits if_splits)
  have row: "m \<in> set (conversation_messages ts)" "map_option task_id (mr_task m) = Some (task_id t)"
    using m by (auto simp: row_of_task_def find_Some_iff)
  have "find (\<lambda>m'. mr_id m' = mr_id m \<and> map_option task_id (mr_task m') = Some (task_id t)) (conversation_messages ts) = Some m'" if
    "m' = m" for m'
  proof (cases "find (\<lambda>m'. mr_id m' = mr_id m \<and> map_option task_id (mr_task m') = Some (task_id t)) (conversation_messages ts)")
    case None
    then show ?thesis using row by (auto simp: find_None_iff)
  next
    case (Some y)
    then have "y \<in> set (conversation_messages ts)" "mr_id y = mr_id m" by (auto simp: find_Some_iff)
    then have "y = m" using assms(2) row(1) by (auto simp: distinct_map inj_on_def)
    then show ?thesis using Some that by simp
  qed
  then show ?thesis using x assms(4) [OF row] by (simp add: focus_stands_def)
qed

section \<open>The models offered\<close>

record runner_account =
  ra_provider :: string
  ra_credential :: string
  ra_name :: string
  ra_models :: "string list"

text \<open>\<open>accept\<close> for a runner and for the internal engine; another engine is asked, and its answer is kept only for the selection that asked.\<close>

definition local_models :: "session \<Rightarrow> provider list \<Rightarrow> runner_account list \<Rightarrow> string list option" where
  "local_models s providers accounts =
     (if truthy_text (ses_runner_id s)
      then Some (case find (\<lambda>a. Some (ra_provider a) = ses_provider_id s) accounts of Some a \<Rightarrow> ra_models a | None \<Rightarrow> [])
      else if ses_engine s = ''internal''
      then Some (comma_fields (case account_named (ses_provider_id s) providers of Some p \<Rightarrow> prov_model p | None \<Rightarrow> []))
      else None)"

lemma local_models_configured:
  "\<not> truthy_text (ses_runner_id s) \<Longrightarrow> ses_engine s = ''internal'' \<Longrightarrow> local_models s providers accounts = Some ms \<Longrightarrow>
     first_seen ms = configured_models (account_named (ses_provider_id s) providers)"
  by (auto simp: local_models_def configured_models_def comma_items_def)

section \<open>The composer as it is shown\<close>

datatype chat_action =
    Send string | StopRunning | RemoveContext nat | RemoveImage nat | PickImages | OpenRunActions | OpenSessionOptions | ReviewInterrupt
  | SteerTask "string option"

record chat_shown =
  ch_running :: bool
  ch_stopping :: bool
  ch_latest :: "task option"
  ch_error :: "(string \<times> string) option"
  ch_run_open :: bool
  ch_interrupt_open :: bool

definition now_sending :: "composer \<Rightarrow> bool" where
  "now_sending c \<longleftrightarrow> (case cp_session c of None \<Rightarrow> False | Some s \<Rightarrow> ses_id s \<in> cp_submitting c)"

definition draft_blank :: "composer \<Rightarrow> bool" where
  "draft_blank c \<longleftrightarrow> trim (cp_draft c) = []"

definition context_chip :: "(jsval \<Rightarrow> string) \<Rightarrow> nat \<times> jsval \<Rightarrow> chat_action view" where
  "context_chip to_text x = box ''div''
     [labelled ''summary'' (context_label to_text (snd x)), labelled ''p'' (context_description to_text (snd x)),
      labelled ''p'' ''Shares this snapshot or file reference. Browser control requires a separate handoff.'', labelled ''pre'' (to_text (snd x)),
      button False (RemoveContext (fst x)) (''Remove context '' @ context_label to_text (snd x))]"

definition image_chip :: "nat \<times> draft_image \<Rightarrow> chat_action view" where
  "image_chip x =
     (let i = snd x; c = attachment_context_of (FilePart (nat_text (fst x)) (Some (di_mime i)) (Some (di_name i))
            (''data:'' @ di_mime i @ '';base64,'' @ di_data i)) True (Some Inline)
      in attachment [attachment_preview c None, attachment_info c False, attachment_remove c (''Remove '' @ di_name i) (RemoveImage (fst x))])"

definition retry_notice :: "composer \<Rightarrow> chat_action view" where
  "retry_notice c =
     (case cp_pending c of None \<Rightarrow> VNone
      | Some b \<Rightarrow> show_if (\<not> now_sending c) (box ''div''
          [labelled ''span'' ''A previous send needs retry. Retry uses the same request; your newer draft stays separate.'',
           button (cp_blocked c \<noteq> None \<or> now_sending c) (Send (or_text (sb_intent b) ''send'')) ''Retry send'']))"

definition send_button :: "composer \<Rightarrow> chat_shown \<Rightarrow> chat_action view" where
  "send_button c v =
     (let sending = now_sending c; blocked = cp_blocked c \<noteq> None in
      prompt_submit (if ch_running v then StatusStreaming else if sending then StatusSubmitted else StatusReady)
        (cp_session c = None \<or> ch_stopping v \<or> (\<not> ch_running v \<and> (blocked \<or> (draft_blank c \<and> cp_pending c = None) \<or> sending)))
        (if ch_running v then Some StopRunning else None) (Some (Send ''send''))
        (Some (if ch_stopping v then ''LoaderCircle'' else if ch_running v then ''Square'' else if sending then ''LoaderCircle'' else ''ArrowUp'')))"

definition composer_tools :: "composer \<Rightarrow> chat_shown \<Rightarrow> chat_action view" where
  "composer_tools c v = box ''div''
     [button (cp_session c = None) PickImages ''Attach image'',
      show_if (ch_running v \<and> \<not> draft_blank c \<and> cp_pending c = None)
        (button (now_sending c \<or> cp_blocked c \<noteq> None) (Send ''queue'') ''Queue follow-up''),
      show_if (ch_running v) (button False OpenRunActions ''Running task actions''),
      button (cp_session c = None) OpenSessionOptions ''Session options'',
      send_button c v]"

definition composer_hint :: "composer \<Rightarrow> chat_shown \<Rightarrow> string" where
  "composer_hint c v =
     (if ch_stopping v then ''Stopping task and its delegated agents...'' else if now_sending c then ''Sending your message...''
      else if cp_blocked c \<noteq> None \<and> \<not> ch_running v
      then (if cp_blocked c = Some ''engine'' then ''Reconnect this engine to send. Your draft stays here.''
            else ''Connect an account and model to send. Your draft stays here.'')
      else if cp_pending c \<noteq> None then ''Retry the pending message before sending your newer draft.''
      else if ch_running v then ''Enter to queue a follow-up, Shift + Enter for a new line'' else ''Enter to send, Shift + Enter for a new line'')"

definition run_actions :: "composer \<Rightarrow> chat_shown \<Rightarrow> chat_action view" where
  "run_actions c v =
     (let locked = now_sending c \<or> cp_blocked c \<noteq> None \<or> cp_pending c \<noteq> None \<or> draft_blank c in
      show_if (ch_run_open v \<and> ch_running v) (box ''dialog''
        [labelled ''h2'' ''While the agent works'',
         button locked (Send ''queue'') ''Queue next'', button locked ReviewInterrupt ''Interrupt current task'',
         button False (SteerTask (map_option task_id (ch_latest v))) ''Steer current task'']))"

definition interrupt_dialog :: "composer \<Rightarrow> chat_shown \<Rightarrow> chat_action view" where
  "interrupt_dialog c v =
     show_if (ch_interrupt_open v) (box ''dialog''
       [labelled ''h2'' ''Interrupt current task'', labelled ''p'' (cp_draft c),
        button (now_sending c \<or> cp_blocked c \<noteq> None \<or> \<not> ch_running v \<or> draft_blank c) (Send ''interrupt'') ''Stop current task and queue draft''])"

definition chat_composer :: "(jsval \<Rightarrow> string) \<Rightarrow> composer \<Rightarrow> chat_shown \<Rightarrow> chat_action view" where
  "chat_composer to_text c v = box ''div''
     [show_if (cp_context c \<noteq> []) (box ''section'' (map (context_chip to_text) (enumerate 0 (cp_context c)))),
      show_if (cp_images c \<noteq> []) (attachments (map image_chip (enumerate 0 (cp_images c)))),
      retry_notice c,
      (case ch_error v of Some (sid, m) \<Rightarrow> show_if (map_option ses_id (cp_session c) = Some sid) (labelled ''p'' m) | None \<Rightarrow> VNone),
      composer_tools c v, labelled ''p'' (composer_hint c v), run_actions c v, interrupt_dialog c v]"

text \<open>The keys of the text field: \<open>Enter\<close> sends, or queues while a task runs.\<close>

definition chat_keys :: "bool \<Rightarrow> chat_action key_handler" where
  "chat_keys running e =
     (if ke_key e = ''Enter'' \<and> \<not> ke_shift e \<and> \<not> ke_native_composing e then (True, [Send (if running then ''queue'' else ''send'')]) else (False, []))"

definition composer_keys :: "bool \<Rightarrow> bool \<Rightarrow> composer \<Rightarrow> chat_action key_handler" where
  "composer_keys composing running c =
     key_down composing (Some (chat_keys running)) [] (if cp_images c \<noteq> [] then Some (RemoveImage (length (cp_images c) - 1)) else None)"

lemma enter_sends: "Send i \<in> set (snd (composer_keys composing running c e)) \<longleftrightarrow>
    ke_key e = ''Enter'' \<and> \<not> ke_shift e \<and> \<not> composing \<and> \<not> ke_native_composing e \<and> i = (if running then ''queue'' else ''send'')"
  by (auto simp: composer_keys_def key_down_def chat_keys_def Let_def)

lemma attachment_chip_silent: "Send i \<notin> set (offers (image_chip x))"
  by (simp add: image_chip_def Let_def attachment_def attachment_remove_def attachment_info_def attachment_preview_def attachment_context_of_def
      render_attachment_image_def attr_text_def attr_flag_def is_on_def jget_def)

lemma send_offered:
  assumes "Send i \<in> set (offers (chat_composer to_text c v))"
  shows "i \<noteq> [] \<and> \<not> now_sending c \<and> cp_blocked c = None \<and> (\<not> draft_blank c \<or> cp_pending c \<noteq> None)"
proof -
  have "Send i \<in> set (offers (send_button c v)) \<Longrightarrow> ?thesis"
    by (auto simp: send_button_def submit_click_def is_generating_def Let_def split: if_splits)
  moreover have "Send i \<in> set (offers (retry_notice c)) \<Longrightarrow> ?thesis"
    by (auto simp: retry_notice_def or_text_def split: option.splits if_splits)
  moreover have "Send i \<in> set (offers (run_actions c v)) \<Longrightarrow> ?thesis"
    by (auto simp: run_actions_def Let_def split: if_splits)
  moreover have "Send i \<in> set (offers (interrupt_dialog c v)) \<Longrightarrow> ?thesis" by (auto simp: interrupt_dialog_def split: if_splits)
  moreover have "Send i \<notin> set (offers (context_chip to_text x))" for x by (simp add: context_chip_def)
  ultimately show ?thesis using assms attachment_chip_silent
    by (auto simp: chat_composer_def composer_tools_def attachments_def in_offers simp del: offer_rules split: option.splits)
qed

text \<open>C25. Every way of sending the composer offers, its retry included, starts a submission, and what is pending goes first, as the request it was.\<close>

theorem offered_send_starts:
  assumes "composer_reachable c" "cp_session c = Some s" "Send intent \<in> set (offers (chat_composer to_text c v))" "uuid \<noteq> []"
  shows "under_way (begin_send intent uuid c) (ses_id s) (length (cp_sends c))
    \<and> (\<forall>b. cp_pending c = Some b \<longrightarrow> same_message b (sf_pending (cp_sends (begin_send intent uuid c) ! length (cp_sends c))))"
  by (rule begin_send_starts [OF assms(1,2)]) (use send_offered [OF assms(3)] assms(2,4) in \<open>auto simp: now_sending_def draft_blank_def\<close>)

definition demo_shown :: chat_shown where
  "demo_shown = \<lparr>ch_running = False, ch_stopping = False, ch_latest = None, ch_error = None, ch_run_open = False, ch_interrupt_open = False\<rparr>"

theorem offered_send_starts_witness:
  "under_way (begin_send ''send'' ''k2'' (demo 5)) ''c'' 1 \<and> sb_key (sf_pending (cp_sends (begin_send ''send'' ''k2'' (demo 5)) ! 1)) = ''k1''"
proof -
  have "Send ''send'' \<in> set (offers (chat_composer (\<lambda>_. []) (demo 5) demo_shown))" "length (cp_sends (demo 5)) = 1"
    "map_option ses_id (cp_session (demo 5)) = Some ''c''" "map_option sb_key (cp_pending (demo 5)) = Some ''k1''"
    by code_simp+
  then show ?thesis
    using offered_send_starts [OF demo_reachable(2), of "the (cp_session (demo 5))" "''send''" "\<lambda>_. []" demo_shown "''k2''"]
    by (auto simp: same_message_def)
qed

end
