(* ===== verification/ControlPlane.thy ===== *)
theory ControlPlane
  imports OneAtATime View ApiTypes TaskPresentation "HOL-Library.Product_Lexorder"
begin

text \<open>
  \<open>features/ControlPlane.tsx\<close>: the overview of the conversations of an account, its metrics, its filtered and sorted list of
  runs, the polling that feeds it, and the inspector of one run. The account is the key of the component, so that a
  state belongs to one account. A loop is an effect's closure: at most one reading at a time, none once it was stopped.
\<close>

section \<open>Rows\<close>

record control_session = session +
  cs_archived :: bool
  cs_latest_status :: "string option"
  cs_updated :: rat
  cs_branch :: "string option"

datatype run_filter = AllRuns | RunningRuns | AttentionRuns | CompletedRuns

definition run_terms :: "string \<Rightarrow> string list" where
  "run_terms q = words_from [] (lower_text (trim q))"

definition row_state :: "control_session \<Rightarrow> task_presentation" where
  "row_state r = task_state (or_text (cs_latest_status r) [])"

definition row_attention :: "control_session \<Rightarrow> bool" where
  "row_attention r = tp_attention (row_state r)"

text \<open>\<open>join\<close> writes nothing for \<open>null\<close> and \<open>undefined\<close>.\<close>

definition row_text :: "control_session \<Rightarrow> string" where
  "row_text r = lower_text (join_with '' '' [ses_title r, or_text (ses_cwd r) [], ses_engine r, or_text (ses_model r) [], or_text (cs_branch r) [],
     or_text (ses_runner_id r) []])"

definition passes_filter :: "run_filter \<Rightarrow> control_session \<Rightarrow> bool" where
  "passes_filter f r \<longleftrightarrow>
     (case f of AllRuns \<Rightarrow> True | RunningRuns \<Rightarrow> tp_active (row_state r) | AttentionRuns \<Rightarrow> row_attention r
      | CompletedRuns \<Rightarrow> cs_latest_status r = Some ''completed'')"

definition row_listed :: "string \<Rightarrow> string \<Rightarrow> run_filter \<Rightarrow> control_session \<Rightarrow> bool" where
  "row_listed q p f r \<longleftrightarrow> \<not> cs_archived r \<and> (p = [] \<or> ses_project_id r = Some p) \<and> list_all (\<lambda>w. contains w (row_text r)) (run_terms q) \<and> passes_filter f r"

text \<open>The comparator of the stable sort: attention first, then the latest.\<close>

definition row_key :: "control_session \<Rightarrow> bool \<times> rat" where
  "row_key r = (\<not> row_attention r, - cs_updated r)"

definition control_rows :: "control_session list \<Rightarrow> string \<Rightarrow> string \<Rightarrow> run_filter \<Rightarrow> control_session list" where
  "control_rows rows q p f = sort_key row_key (filter (row_listed q p f) rows)"

definition count_rows :: "run_filter \<Rightarrow> control_session list \<Rightarrow> nat" where
  "count_rows f rows = length (filter (passes_filter f) rows)"

section \<open>State and polling\<close>

datatype control_page = OverviewPage | ProjectsPage | TasksPage

datatype execution_view = ChatView | WorkbenchView | ReviewView | BrowserView

datatype plane_call = ManageSection string | NewRun "string option" | OpenRun string execution_view | OpenProject string | RefreshCatalog

record control_plane =
  kp_page :: control_page
  kp_enabled :: bool
  kp_hidden :: bool
  kp_projects :: "project list"
  kp_engines :: nat
  kp_providers :: "provider list"
  kp_catalog :: string
  kp_sessions :: "control_session list"
  kp_loading :: bool
  kp_error :: string
  kp_updated :: rat
  kp_query :: string
  kp_project :: string
  kp_filter :: run_filter
  kp_limit :: nat
  kp_inspected :: string
  kp_loop :: nat
  kp_live :: bool
  kp_busy :: bool
  kp_reads :: "(nat \<times> bool) list"
  kp_calls :: "plane_call list"

definition refresh_runs :: "control_plane \<Rightarrow> control_plane" where
  "refresh_runs s =
     (if \<not> kp_live s \<or> kp_busy s \<or> kp_hidden s then s
      else s\<lparr>kp_busy := True, kp_loading := True, kp_reads := kp_reads s @ [(kp_loop s, False)]\<rparr>)"

text \<open>The effect: the former loop is stopped; the next one begins with a reading, unless the panel is locked.\<close>

definition restart_loop :: "control_plane \<Rightarrow> control_plane" where
  "restart_loop s = refresh_runs (s\<lparr>kp_loop := Suc (kp_loop s), kp_live := kp_enabled s, kp_busy := False\<rparr>)"

definition new_plane :: "bool \<Rightarrow> bool \<Rightarrow> control_plane" where
  "new_plane enabled hidden =
     \<lparr>kp_page = OverviewPage, kp_enabled = enabled, kp_hidden = hidden, kp_projects = [], kp_engines = 0, kp_providers = [], kp_catalog = ''loading'',
      kp_sessions = [], kp_loading = True, kp_error = [], kp_updated = 0, kp_query = [], kp_project = [], kp_filter = AllRuns, kp_limit = 40,
      kp_inspected = [], kp_loop = 0, kp_live = False, kp_busy = False, kp_reads = [], kp_calls = []\<rparr>"

definition runs_answer :: "nat \<Rightarrow> rat \<Rightarrow> control_session list js_result \<Rightarrow> control_plane \<Rightarrow> control_plane" where
  "runs_answer n now r s =
     (let k = fst (kp_reads s ! n); s' = s\<lparr>kp_reads := (kp_reads s)[n := (k, True)]\<rparr> in
      if k \<noteq> kp_loop s then s'
      else if \<not> kp_live s then s'\<lparr>kp_busy := False\<rparr>
      else (case r of Inl e \<Rightarrow> s'\<lparr>kp_error := error_message e\<rparr> | Inr rows \<Rightarrow> s'\<lparr>kp_sessions := rows, kp_updated := now, kp_error := []\<rparr>)
           \<lparr>kp_busy := False, kp_loading := False\<rparr>)"

definition tab_visibility :: "bool \<Rightarrow> control_plane \<Rightarrow> control_plane" where
  "tab_visibility hidden s = (if hidden then s\<lparr>kp_hidden := True\<rparr> else refresh_runs (s\<lparr>kp_hidden := False\<rparr>))"

definition unmount_plane :: "control_plane \<Rightarrow> control_plane" where
  "unmount_plane s = s\<lparr>kp_live := False\<rparr>"

text \<open>The props of a render; the effect runs again when \<open>enabled\<close> changed.\<close>

definition plane_props :: "control_page \<Rightarrow> bool \<Rightarrow> project list \<Rightarrow> nat \<Rightarrow> provider list \<Rightarrow> string \<Rightarrow> control_plane \<Rightarrow> control_plane" where
  "plane_props page enabled projects engines providers catalog s =
     (let s' = s\<lparr>kp_page := page, kp_enabled := enabled, kp_projects := projects, kp_engines := engines, kp_providers := providers, kp_catalog := catalog\<rparr>
      in if enabled = kp_enabled s then s' else restart_loop s')"

section \<open>Handlers\<close>

definition open_filter :: "run_filter \<Rightarrow> string \<Rightarrow> control_plane \<Rightarrow> control_plane" where
  "open_filter f p s = s\<lparr>kp_filter := f, kp_project := p, kp_limit := 40, kp_inspected := [], kp_page := TasksPage\<rparr>"

datatype plane_click =
    RefreshPlane | RetryRuns | CallHost plane_call | ShowPage control_page | OpenFilter run_filter string | QueueRow string
  | SearchRuns string | FilterProject string | FilterStatus run_filter | InspectRun string | MoreRuns | CloseInspector

definition call_host :: "plane_call \<Rightarrow> control_plane \<Rightarrow> control_plane" where
  "call_host c s = s\<lparr>kp_calls := kp_calls s @ [c]\<rparr>"

definition plane_clicked :: "plane_click \<Rightarrow> control_plane \<Rightarrow> control_plane" where
  "plane_clicked a s =
     (case a of
        RefreshPlane \<Rightarrow> restart_loop (call_host RefreshCatalog s)
      | RetryRuns \<Rightarrow> restart_loop s
      | CallHost c \<Rightarrow> call_host c s
      | ShowPage p \<Rightarrow> s\<lparr>kp_page := p\<rparr>
      | OpenFilter f p \<Rightarrow> open_filter f p s
      | QueueRow i \<Rightarrow> s\<lparr>kp_inspected := i, kp_page := TasksPage\<rparr>
      | SearchRuns q \<Rightarrow> s\<lparr>kp_query := q, kp_limit := 40\<rparr>
      | FilterProject p \<Rightarrow> s\<lparr>kp_project := p, kp_limit := 40\<rparr>
      | FilterStatus f \<Rightarrow> s\<lparr>kp_filter := f, kp_limit := 40\<rparr>
      | InspectRun i \<Rightarrow> s\<lparr>kp_inspected := i\<rparr>
      | MoreRuns \<Rightarrow> s\<lparr>kp_limit := kp_limit s + 40\<rparr>
      | CloseInspector \<Rightarrow> s\<lparr>kp_inspected := []\<rparr>)"

definition inspected_row :: "control_plane \<Rightarrow> control_session option" where
  "inspected_row s = find (\<lambda>r. ses_id r = kp_inspected s) (kp_sessions s)"

definition rows_now :: "control_plane \<Rightarrow> control_session list" where
  "rows_now s = control_rows (kp_sessions s) (kp_query s) (kp_project s) (kp_filter s)"

definition rows_listed :: "control_plane \<Rightarrow> control_session list" where
  "rows_listed s = take (kp_limit s) (rows_now s)"

section \<open>The inspector of a run\<close>

text \<open>It has a cache of its own, which the end of its effect clears.\<close>

record run_inspector =
  iv_session :: "control_session option"
  iv_error :: string
  iv_hidden :: bool
  iv_loop :: nat
  iv_live :: bool
  iv_busy :: bool
  iv_reads :: "(nat \<times> bool) list"
  iv_cleared :: nat

definition inspect_again :: "run_inspector \<Rightarrow> run_inspector" where
  "inspect_again v =
     (if \<not> iv_live v \<or> iv_busy v \<or> iv_hidden v then v else v\<lparr>iv_busy := True, iv_reads := iv_reads v @ [(iv_loop v, False)]\<rparr>)"

definition stop_inspecting :: "run_inspector \<Rightarrow> run_inspector" where
  "stop_inspecting v = (if iv_live v then v\<lparr>iv_live := False, iv_cleared := Suc (iv_cleared v)\<rparr> else v)"

definition start_inspecting :: "bool \<Rightarrow> run_inspector \<Rightarrow> run_inspector" where
  "start_inspecting enabled v = inspect_again ((stop_inspecting v)\<lparr>iv_loop := Suc (iv_loop v), iv_live := enabled, iv_busy := False\<rparr>)"

definition open_inspector :: "bool \<Rightarrow> bool \<Rightarrow> run_inspector" where
  "open_inspector enabled hidden = start_inspecting enabled
     \<lparr>iv_session = None, iv_error = [], iv_hidden = hidden, iv_loop = 0, iv_live = False, iv_busy = False, iv_reads = [], iv_cleared = 0\<rparr>"

definition inspection_answer :: "nat \<Rightarrow> control_session js_result \<Rightarrow> run_inspector \<Rightarrow> run_inspector" where
  "inspection_answer n r v =
     (let k = fst (iv_reads v ! n); v' = v\<lparr>iv_reads := (iv_reads v)[n := (k, True)]\<rparr> in
      if k \<noteq> iv_loop v then v'
      else if \<not> iv_live v then v'\<lparr>iv_busy := False\<rparr>
      else (case r of Inl e \<Rightarrow> v'\<lparr>iv_error := error_message e\<rparr> | Inr x \<Rightarrow> v'\<lparr>iv_session := Some x, iv_error := []\<rparr>)\<lparr>iv_busy := False\<rparr>)"

definition pending_decisions :: "task option \<Rightarrow> approval list" where
  "pending_decisions t = (case Option.bind t task_approvals of None \<Rightarrow> [] | Some as \<Rightarrow> filter (\<lambda>a. ap_status a = ''pending'') as)"

section \<open>What it shows\<close>

record plane_format =
  pf_time :: "rat \<Rightarrow> string"
  pf_date :: "rat \<Rightarrow> string"

definition run_status :: "string option \<Rightarrow> 'a view" where
  "run_status st = labelled ''span'' (text_of (tp_label (task_state (or_text st []))))"

definition host_of :: "control_session \<Rightarrow> string" where
  "host_of r = (if truthy_text (ses_runner_id r) then ''Runner '' @ or_text (ses_runner_id r) [] else ''Host'')"

definition inspector_view :: "run_inspector \<Rightarrow> control_session \<Rightarrow> plane_click view" where
  "inspector_view v row =
     (let current = (case iv_session v of Some x \<Rightarrow> x | None \<Rightarrow> row);
          task = Option.bind (iv_session v) (\<lambda>x. latest_execution_task (case ses_turns x of Some ts \<Rightarrow> ts | None \<Rightarrow> []));
          pending = pending_decisions task;
          status = or_text (map_option task_status task) (or_text (cs_latest_status current) []);
          show = (\<lambda>w label. button False (CallHost (OpenRun (ses_id row) w)) label)
      in box ''aside''
       [labelled ''h2'' ''Run inspector'', button False CloseInspector ''Close run inspector'', run_status (Some status), labelled ''h3'' (ses_title current),
        show_if (iv_error v \<noteq> []) (labelled ''p'' (iv_error v @ ''. Refreshing automatically; details may be stale.'')),
        show_if (iv_session v = None \<and> iv_error v = []) (labelled ''p'' ''Loading execution details...''),
        box ''dl'' [labelled ''dd'' (ses_engine current @ [CHR '' '', CHR 0xB7, CHR '' ''] @ or_text (ses_model current) ''Default model''),
          labelled ''dd'' (host_of current), labelled ''dd'' (or_text (ses_cwd current) ''No checkout''),
          show_if (truthy_text (cs_branch current)) (labelled ''dd'' (or_text (cs_branch current) []))],
        (case task of None \<Rightarrow> VNone
         | Some t \<Rightarrow> box ''section'' [labelled ''h4'' ''Current task'', labelled ''p'' (task_prompt t),
             show_if (pending \<noteq> []) (labelled ''p'' (nat_text (length pending) @ '' pending approval'' @ (if 1 < length pending then ''s'' else [])
               @ ''. Review the exact action in the workspace.'')),
             show_if (truthy_text (task_error t)) (labelled ''p'' (or_text (task_error t) [])),
             show_if (truthy_text (task_result t)) (labelled ''p'' (or_text (task_result t) []))]),
        show ChatView (if tp_attention (task_state status) then ''Review in workspace'' else ''Open workspace''),
        show ReviewView ''Changes & delivery'', show WorkbenchView ''Files & terminal'', show BrowserView ''Browser & preview''])"

definition run_project :: "control_plane \<Rightarrow> control_session \<Rightarrow> string option" where
  "run_project s r = map_option proj_name (find (\<lambda>p. Some (proj_id p) = ses_project_id r) (kp_projects s))"

definition metric_count :: "run_filter \<Rightarrow> control_plane \<Rightarrow> string" where
  "metric_count f s = (if kp_updated s = 0 then ''-'' else nat_text (count_rows f (kp_sessions s)))"

definition metric_view :: "control_plane \<Rightarrow> run_filter \<Rightarrow> string \<Rightarrow> plane_click view" where
  "metric_view s f label = VEl ''button'' [] [(''onClick'', OpenFilter f [])] [labelled ''span'' label, labelled ''strong'' (metric_count f s)]"

definition title_of :: "control_session \<Rightarrow> string" where
  "title_of r = (if ses_title r = [] then ''Untitled task'' else ses_title r)"

definition attention_queue :: "control_plane \<Rightarrow> plane_click view list" where
  "attention_queue s =
     (if kp_updated s = 0 then [labelled ''div'' (if kp_loading s then ''Loading run state...'' else ''Run state unavailable.'')]
      else if count_rows AttentionRuns (kp_sessions s) = 0
        then [box ''div'' [labelled ''strong'' ''No pending decisions'',
                labelled ''span'' ''Approvals, recovery decisions, paused runs and failures appear here.'']]
      else map (\<lambda>r. VEl ''button'' [] [(''onClick'', QueueRow (ses_id r))]
             [labelled ''strong'' (title_of r), labelled ''small'' (or_text (run_project s r) (or_text (ses_cwd r) ''Unassigned'')), run_status (cs_latest_status r)])
           (take 5 (filter row_attention (kp_sessions s))))"

definition destinations :: "(string \<times> string \<times> string) list" where
  "destinations = [(''agents'', ''Agent presets'', ''Instructions, tools, limits and execution policy''),
     (''runners'', ''Runners'', ''Provision execution environments and inspect jobs''),
     (''automations'', ''Automations'', ''Schedules, goals and unattended work''),
     (''models'', ''Models & engines'', ''Accounts, installed engines and capabilities''),
     (''access'', ''Access & sessions'', ''Pair remote clients and manage workspace access'')]"

definition overview_view :: "control_plane \<Rightarrow> plane_click view" where
  "overview_view s = box ''div''
     ([metric_view s AttentionRuns ''Needs attention'', metric_view s RunningRuns ''In progress'', metric_view s CompletedRuns ''Completed'',
       labelled ''h2'' ''Attention queue'', button False (OpenFilter AttentionRuns []) ''View queue'',
       labelled ''p'' ''Latest run in each conversation, across your accessible projects.'']
      @ attention_queue s
      @ [labelled ''h2'' ''Execution & configuration'',
         labelled ''p'' (if kp_catalog s = ''ready'' then nat_text (kp_engines s) @ '' installed engines'' @ [CHR '' '', CHR 0xB7, CHR '' '']
             @ nat_text (length (filter prov_secret_configured (kp_providers s))) @ '' configured provider accounts''
           else ''Loading engine and provider catalog...'')]
      @ map (\<lambda>(i, t, x). VEl ''button'' [] [(''onClick'', CallHost (ManageSection i))] [labelled ''strong'' t, labelled ''small'' x]) destinations
      @ [labelled ''h2'' ''Project portfolio'', button False (ShowPage ProjectsPage) ''All projects''])"

definition project_card :: "control_plane \<Rightarrow> project \<Rightarrow> plane_click view" where
  "project_card s p =
     (let related = filter (\<lambda>r. ses_project_id r = Some (proj_id p)) (kp_sessions s) in box ''article''
       [labelled ''h3'' (proj_name p), labelled ''code'' (proj_path p),
        labelled ''p'' (if kp_updated s = 0 then ''Run counts unavailable''
          else nat_text (count_rows RunningRuns related) @ '' active, '' @ nat_text (count_rows AttentionRuns related) @ '' need attention, ''
            @ nat_text (length related) @ '' conversations''),
        button False (CallHost (OpenProject (proj_id p))) ''Open workbench'', button False (OpenFilter AllRuns (proj_id p)) ''View runs'',
        button False (CallHost (NewRun (Some (proj_id p)))) ''New task''])"

definition projects_view :: "control_plane \<Rightarrow> plane_click view list" where
  "projects_view s =
     [show_if (kp_projects s = []) (box ''div''
        [labelled ''h2'' (if kp_catalog s = ''loading'' then ''Loading projects...'' else if kp_catalog s = ''failed'' then ''Projects unavailable''
            else ''Connect your first project''),
         button False (CallHost (NewRun None)) ''Add a project'']),
      box ''div'' (map (project_card s) (if kp_page s = OverviewPage then take 6 (kp_projects s) else kp_projects s))]"

definition run_row :: "plane_format \<Rightarrow> control_plane \<Rightarrow> control_session \<Rightarrow> plane_click view" where
  "run_row fm s r = box ''tr''
     [VEl ''button'' [attr_text ''aria-label'' (''Inspect '' @ title_of r), attr_flag ''aria-pressed'' (ses_id r = kp_inspected s)]
        [(''onClick'', InspectRun (ses_id r))] [VText (title_of r)],
      labelled ''small'' (or_text (run_project s r) ''Unassigned''), run_status (cs_latest_status r),
      labelled ''span'' ((if ses_engine r = [] then ''TermX'' else ses_engine r) @ (if truthy_text (ses_model r) then [CHR '' '', CHR 0xB7, CHR '' ''] @ or_text (ses_model r) [] else [])),
      labelled ''small'' (host_of r @ [CHR '' '', CHR 0xB7, CHR '' ''] @ or_text (cs_branch r) (or_text (ses_cwd r) ''No checkout'')),
      labelled ''time'' (pf_date fm (cs_updated r * 1000))]"

definition no_runs :: "control_plane \<Rightarrow> string" where
  "no_runs s =
     (if kp_updated s = 0 then (if kp_loading s then ''Loading runs...'' else ''Run state unavailable.'')
      else if kp_query s \<noteq> [] \<or> kp_project s \<noteq> [] \<or> kp_filter s \<noteq> AllRuns then ''No runs match these filters.''
      else ''No conversations yet. Create a task to begin.'')"

definition filter_name :: "run_filter \<Rightarrow> string" where
  "filter_name f = (case f of AllRuns \<Rightarrow> ''All states'' | AttentionRuns \<Rightarrow> ''Needs attention'' | RunningRuns \<Rightarrow> ''In progress'' | CompletedRuns \<Rightarrow> ''Completed'')"

definition runs_view :: "plane_format \<Rightarrow> string \<Rightarrow> run_inspector \<Rightarrow> control_plane \<Rightarrow> plane_click view list" where
  "runs_view fm typed v s =
     [VEl ''input'' [attr_text ''aria-label'' ''Search runs'', attr_text ''value'' (kp_query s)] [(''onChange'', SearchRuns typed)] [],
      picker False FilterProject (\<lambda>i. if i = [] then ''All projects'' else concat (map proj_name (filter (\<lambda>p. proj_id p = i) (kp_projects s))))
        ([] # map proj_id (kp_projects s)),
      picker False FilterStatus filter_name [AllRuns, AttentionRuns, RunningRuns, CompletedRuns],
      labelled ''p'' ''Latest run per conversation. Open a workspace for the complete execution history and child-agent supervision.'',
      box ''table'' (map (run_row fm s) (rows_listed s)),
      show_if (rows_now s = []) (labelled ''div'' (no_runs s)),
      show_if (kp_limit s < length (rows_now s)) (button False MoreRuns ''Show more runs''),
      (case inspected_row s of None \<Rightarrow> VNone | Some r \<Rightarrow> inspector_view v r)]"

definition poll_status :: "plane_format \<Rightarrow> control_plane \<Rightarrow> string" where
  "poll_status fm s =
     (if kp_error s \<noteq> [] then ''Updates interrupted'' else if kp_loading s then ''Refreshing...''
      else if kp_updated s \<noteq> 0 then ''Updated '' @ pf_time fm (kp_updated s) else ''Waiting for host'')"

definition plane_view :: "plane_format \<Rightarrow> string \<Rightarrow> run_inspector \<Rightarrow> control_plane \<Rightarrow> plane_click view" where
  "plane_view fm typed v s = box ''section''
     ([labelled ''h1'' (case kp_page s of OverviewPage \<Rightarrow> ''Control plane'' | ProjectsPage \<Rightarrow> ''Projects'' | TasksPage \<Rightarrow> ''Runs''),
       button (kp_loading s \<or> \<not> kp_enabled s) RefreshPlane ''Refresh'',
       button False (CallHost (NewRun (if kp_project s = [] then None else Some (kp_project s)))) ''New task'']
      @ map (\<lambda>(p, label). VEl ''button'' [attr_flag ''aria-current'' (kp_page s = p)] [(''onClick'', ShowPage p)] [VText label])
          [(OverviewPage, ''Overview''), (ProjectsPage, ''Projects''), (TasksPage, ''Runs'')]
      @ [labelled ''span'' (poll_status fm s),
         show_if (kp_error s \<noteq> []) (box ''div'' [VText (kp_error s @ (if kp_updated s = 0 then '' - run state is unavailable.'' else '' - showing the last received state.'')),
           button False RetryRuns ''Retry'']),
         show_if (kp_catalog s = ''failed'') (labelled ''p'' ''Project and engine catalog could not be refreshed. Use Refresh to retry.''),
         show_if (kp_page s = OverviewPage) (overview_view s)]
      @ (if kp_page s = TasksPage then runs_view fm typed v s else projects_view s))"

section \<open>The list of runs\<close>

text \<open>The order a reader sees: a row that needs attention before one that does not, the later before the earlier.\<close>

definition goes_before :: "control_session \<Rightarrow> control_session \<Rightarrow> bool" where
  "goes_before a b \<longleftrightarrow> (if row_attention a = row_attention b then cs_updated b \<le> cs_updated a else row_attention a)"

lemma goes_before_key: "row_key a \<le> row_key b \<longleftrightarrow> goes_before a b"
  by (auto simp: row_key_def goes_before_def less_eq_prod_def)


text \<open>A metric announces as many runs as it opens, as long as no search is left over.\<close>

lemma metric_opens:
  assumes "list_all (\<lambda>r. \<not> cs_archived r) (kp_sessions s)" "run_terms (kp_query s) = []"
  shows "length (rows_now (plane_clicked (OpenFilter f []) s)) = count_rows f (kp_sessions s)"
proof -
  have "filter (row_listed (kp_query s) [] f) (kp_sessions s) = filter (passes_filter f) (kp_sessions s)"
    by (rule filter_cong) (use assms in \<open>auto simp: row_listed_def list_all_iff\<close>)
  then show ?thesis by (simp add: rows_now_def control_rows_def plane_clicked_def open_filter_def count_rows_def)
qed

text \<open>A search that is left over stays in force, so that a metric can open an empty list.\<close>

definition failed_run :: control_session where
  "failed_run = \<lparr>ses_id = ''a'', ses_title = ''T'', ses_project_id = None, ses_cwd = None, ses_engine = ''internal'', ses_provider_id = None,
     ses_model = None, ses_mode = ''chat'', ses_draft_text = [], ses_draft_context = None, ses_revision = 1, ses_turns = None, ses_scroll = 0,
     ses_has_earlier = False, ses_runner_id = None, ses_worktree_id = None, ses_reasoning = [], cs_archived = False,
     cs_latest_status = Some ''failed'', cs_updated = 1, cs_branch = None\<rparr>"

lemma metric_hidden_by_search:
  "let s = (new_plane True False)\<lparr>kp_sessions := [failed_run], kp_query := ''x''\<rparr> in
     count_rows AttentionRuns (kp_sessions s) = 1 \<and> rows_now (plane_clicked (OpenFilter AttentionRuns []) s) = []"
  by code_simp

section \<open>Steps\<close>

inductive plane_moves :: "control_plane \<Rightarrow> control_plane \<Rightarrow> bool" where
  pl_clicked: "a \<in> set (offers (plane_view fm typed v s)) \<Longrightarrow> plane_moves s (plane_clicked a s)"
| pl_answered: "n < length (kp_reads s) \<Longrightarrow> \<not> snd (kp_reads s ! n) \<Longrightarrow> plane_moves s (runs_answer n now r s)"
| pl_timer: "plane_moves s (refresh_runs s)"
| pl_visible: "plane_moves s (tab_visibility hidden s)"
| pl_props: "plane_moves s (plane_props page enabled projects engines providers catalog s)"
| pl_mounted: "kp_loop s = 0 \<Longrightarrow> plane_moves s (restart_loop s)"
| pl_unmounted: "plane_moves s (unmount_plane s)"

definition plane_opened :: "control_plane \<Rightarrow> bool" where
  "plane_opened s \<longleftrightarrow> (\<exists>enabled hidden. s = new_plane enabled hidden)"

definition plane_ledger :: "control_plane \<Rightarrow> op_ledger" where
  "plane_ledger s = (kp_loop s, kp_reads s, kp_busy s)"

definition plane_ok :: "control_plane \<Rightarrow> bool" where
  "plane_ok s \<longleftrightarrow> (kp_live s \<longrightarrow> kp_enabled s)"

lemma refresh_plane:
  "op_change (plane_ledger s) (plane_ledger (refresh_runs s))" "plane_ok (refresh_runs s) = plane_ok s"
  using op_begun [of "kp_loop s" "kp_reads s"] by (auto simp: refresh_runs_def plane_ledger_def plane_ok_def op_idle)

lemma restart_plane:
  "op_change (plane_ledger s) (plane_ledger (restart_loop s))" "plane_ok (restart_loop s)"
  using op_renewed [of "kp_loop s" "Suc (kp_loop s)"] op_restarted [of "kp_loop s" "Suc (kp_loop s)"]
  by (auto simp: restart_loop_def refresh_runs_def plane_ledger_def plane_ok_def)

lemma plane_ledger_frame: "kp_loop t = kp_loop s \<Longrightarrow> kp_reads t = kp_reads s \<Longrightarrow> kp_busy t = kp_busy s \<Longrightarrow> plane_ledger t = plane_ledger s"
  by (simp add: plane_ledger_def)

lemma plane_clicked_cases:
  "plane_clicked a s = restart_loop (call_host RefreshCatalog s) \<or> plane_clicked a s = restart_loop s
   \<or> plane_ledger (plane_clicked a s) = plane_ledger s \<and> plane_ok (plane_clicked a s) = plane_ok s
     \<and> kp_reads (plane_clicked a s) = kp_reads s"
  by (cases a) (simp_all add: plane_clicked_def plane_ledger_def plane_ok_def call_host_def open_filter_def)

lemma plane_moves_ok: "plane_moves s t \<Longrightarrow> plane_ok s \<Longrightarrow> plane_ok t"
proof (induction rule: plane_moves.induct)
  case (pl_clicked a fm typed v s)
  then show ?case using plane_clicked_cases [of a s] restart_plane(2) by auto
next
  case (pl_answered n s now r)
  then show ?case by (auto simp: runs_answer_def plane_ok_def Let_def split: sum.split)
next
  case (pl_props s page enabled projects engines providers catalog)
  then show ?case using restart_plane(2) by (auto simp: plane_props_def Let_def plane_ok_def)
qed (auto simp: refresh_plane restart_plane tab_visibility_def unmount_plane_def, auto simp: plane_ok_def)

lemma answer_ledger:
  assumes "n < length (kp_reads s)" "\<not> snd (kp_reads s ! n)" shows "op_change (plane_ledger s) (plane_ledger (runs_answer n now r s))"
proof -
  have "kp_reads s ! n = (fst (kp_reads s ! n), False)" using assms(2) by (simp add: prod_eq_iff)
  from op_settled [OF assms(1) this, of "kp_loop s" "kp_busy s"] show ?thesis
    by (auto simp: runs_answer_def plane_ledger_def Let_def split: sum.split)
qed

lemma plane_moves_change: "plane_moves s t \<Longrightarrow> op_change (plane_ledger s) (plane_ledger t)"
proof (induction rule: plane_moves.induct)
  case (pl_clicked a fm typed v s)
  have "plane_ledger (call_host RefreshCatalog s) = plane_ledger s" by (simp add: call_host_def plane_ledger_def)
  then show ?case using plane_clicked_cases [of a s] restart_plane(1) [of s] restart_plane(1) [of "call_host RefreshCatalog s"] by (auto simp: op_idle)
next
  case (pl_answered n s now r)
  then show ?case by (rule answer_ledger)
next
  case (pl_timer s)
  show ?case by (rule refresh_plane)
next
  case (pl_visible s hidden)
  have "plane_ledger (s\<lparr>kp_hidden := b\<rparr>) = plane_ledger s" for b by (simp add: plane_ledger_def)
  then show ?case using refresh_plane(1) [of "s\<lparr>kp_hidden := False\<rparr>"] by (simp add: tab_visibility_def op_idle)
next
  case (pl_props s page enabled projects engines providers catalog)
  let ?s = "s\<lparr>kp_page := page, kp_enabled := enabled, kp_projects := projects, kp_engines := engines, kp_providers := providers, kp_catalog := catalog\<rparr>"
  have same: "plane_ledger ?s = plane_ledger s" by (simp add: plane_ledger_def)
  show ?case
  proof (cases "enabled = kp_enabled s")
    case True
    then show ?thesis by (simp add: plane_props_def Let_def plane_ledger_def op_idle)
  next
    case False
    have "op_change (plane_ledger s) (plane_ledger (restart_loop ?s))" using restart_plane(1) [of ?s] unfolding same .
    then show ?thesis unfolding plane_props_def Let_def if_not_P [OF False] .
  qed
qed (simp_all add: restart_plane, simp add: unmount_plane_def plane_ledger_def op_idle)

lemma plane_opened_ok: "plane_opened s \<Longrightarrow> plane_ok s \<and> (\<exists>g. plane_ledger s = (g, [], False))"
  by (auto simp: plane_opened_def new_plane_def plane_ok_def plane_ledger_def)

interpretation plane_polls: one_at_a_time plane_opened plane_moves plane_ok plane_ledger
  by unfold_locales (erule plane_opened_ok, erule (1) plane_moves_ok [rotated], erule plane_moves_change)

lemma read_added:
  assumes "plane_moves s t" "length (kp_reads s) < length (kp_reads t)"
  shows "kp_live t \<and> kp_busy t \<and> \<not> kp_hidden t"
  using assms(1)
proof cases
  case (pl_clicked a fm typed v)
  then show ?thesis using assms(2) plane_clicked_cases [of a s] by (auto simp: restart_loop_def refresh_runs_def call_host_def split: if_splits)
qed (use assms(2) in \<open>auto simp: runs_answer_def refresh_runs_def tab_visibility_def plane_props_def restart_loop_def unmount_plane_def Let_def
      split: sum.splits if_splits\<close>)

lemma late_answer: "fst (kp_reads s ! n) \<noteq> kp_loop s \<Longrightarrow> runs_answer n now r s = s\<lparr>kp_reads := (kp_reads s)[n := (fst (kp_reads s ! n), True)]\<rparr>"
  by (simp add: runs_answer_def Let_def)

text \<open>The host is asked for the runs only while the panel is unlocked and its tab in front, one question of the present loop at a time; and the
  answer to a question of an earlier loop only counts as answered.\<close>

theorem plane_polls_when_seen:
  assumes "reached plane_opened plane_moves s" "plane_moves s t" "length (kp_reads s) < length (kp_reads t)"
  shows "kp_enabled t \<and> \<not> kp_hidden t \<and> length (filter (\<lambda>x. x = (kp_loop t, False)) (kp_reads t)) = 1
    \<and> (fst (kp_reads t ! n) \<noteq> kp_loop t \<longrightarrow> (\<exists>rs. runs_answer n now r t = t\<lparr>kp_reads := rs\<rparr>))"
proof -
  have t: "reached plane_opened plane_moves t" by (rule reached_moved [OF assms(1,2)])
  have seen: "kp_live t" "kp_busy t" "\<not> kp_hidden t" using read_added [OF assms(2,3)] by simp_all
  have "ledger_ok (plane_ledger t)" by (rule plane_polls.ledger_kept [OF t])
  moreover have "kp_enabled t" using plane_polls.reached_holds [OF t] seen by (simp add: plane_ok_def)
  ultimately show ?thesis using seen late_answer [of t n now r] by (auto simp: plane_ledger_def)
qed

definition polled :: control_plane where
  "polled = restart_loop (new_plane True False)"

text \<open>A lock while a question is open: after the unlock another one may be asked.\<close>

definition unlocked_again :: control_plane where
  "unlocked_again = plane_props OverviewPage True [] 0 [] [] (plane_props OverviewPage False [] 0 [] [] polled)"

theorem plane_polls_when_seen_witness:
  "kp_reads unlocked_again = [(1, False), (3, False)] \<and> length (filter (\<lambda>x. x = (kp_loop unlocked_again, False)) (kp_reads unlocked_again)) = 1"
proof -
  have "reached plane_opened plane_moves (new_plane True False)" by (rule reached_opened) (auto simp: plane_opened_def)
  then have 1: "reached plane_opened plane_moves polled" unfolding polled_def by (rule reached_moved) (simp add: pl_mounted new_plane_def)
  let ?p = "plane_props OverviewPage False [] 0 [] [] polled"
  have 2: "reached plane_opened plane_moves ?p" by (rule reached_moved [OF 1 pl_props])
  have move: "plane_moves ?p unlocked_again" unfolding unlocked_again_def by (rule pl_props)
  have "length (kp_reads ?p) < length (kp_reads unlocked_again)" by code_simp
  moreover have "kp_reads unlocked_again = [(1, False), (3, False)]" by code_simp
  ultimately show ?thesis using plane_polls_when_seen [OF 2 move] by blast
qed

end
