(* ===== verification/ToolViews.thy ===== *)
theory ToolViews
  imports ToolActivity View
begin

text \<open>
  \<open>features/ToolActivities.tsx\<close>: the list of what a run did, one row per call with its status and, once
  opened, its input, its result and its events. The normalised activities are those of
  \<open>ToolActivity\<close>; \<open>pretty\<close> is \<open>JSON.stringify(value, null, 2)\<close>.
\<close>

definition phase_label :: "tool_phase \<Rightarrow> string" where
  "phase_label p = (case p of PRunning \<Rightarrow> ''Running'' | PPending \<Rightarrow> ''Waiting'' | PCompleted \<Rightarrow> ''Completed'' | PFailed \<Rightarrow> ''Failed''
     | PCancelled \<Rightarrow> ''Stopped'' | PInterrupted \<Rightarrow> ''No result reported'')"

definition icon :: "string \<Rightarrow> 'a view" where
  "icon name = VEl name [] [] []"

definition activity_status :: "tool_phase \<Rightarrow> 'a view" where
  "activity_status p =
     (if p = PRunning then icon ''LoaderCircle'' else if p = PCompleted then icon ''Check''
      else if p = PFailed then icon ''CircleAlert'' else icon ''Circle'')"

definition tool_icon :: "string \<Rightarrow> 'a view" where
  "tool_icon kind =
     (if contains ''shell'' kind \<or> contains ''command'' kind \<or> contains ''check'' kind then icon ''Terminal''
      else if contains ''file'' kind \<or> contains ''File'' kind then icon ''FileText''
      else if contains ''browser'' kind \<or> contains ''Search'' kind then icon ''Globe''
      else icon ''Wrench'')"

definition preview_limit :: nat where
  "preview_limit = 6000"

definition details_limit :: nat where
  "details_limit = 16000"

definition output_item :: "jsval \<Rightarrow> jsval" where
  "output_item item =
     (let row = event_object item; nested = event_object (jget row ''content'')
      in js_coalesce (jget row ''text'') (js_coalesce (jget nested ''text'') item))"

definition output_content :: "jsval \<Rightarrow> jsval" where
  "output_content v =
     (let o' = event_object v in
      js_coalesce (jget o' ''stdout'') (js_coalesce (jget o' ''output'') (js_coalesce (jget o' ''text'')
     (js_coalesce (jget o' ''error'') (js_coalesce (jget o' ''content'') (js_coalesce (jget o' ''value'') v))))))"

definition output_text :: "(jsval \<Rightarrow> string) \<Rightarrow> jsval \<Rightarrow> string" where
  "output_text pretty v =
     (case output_content v of
        JArr vs \<Rightarrow> join_with [CHR 0x0A] (map (\<lambda>item. activity_preview pretty (output_item item) preview_limit) vs)
      | c \<Rightarrow> activity_preview pretty c preview_limit)"

text \<open>\<open>{event: event.type, ...event.payload}\<close>: a payload's own \<open>event\<close> replaces the type.\<close>

definition event_detail :: "activity_event \<Rightarrow> jsval" where
  "event_detail e = JObj (foldl (\<lambda>m (k, v). AList.update k v m) [(''event'', JStr (ev_type e))] (ev_payload e))"

definition tool_value :: "string \<Rightarrow> string \<Rightarrow> string \<Rightarrow> 'a view" where
  "tool_value title label text =
     show_if (text \<noteq> []) (box ''div'' [labelled ''h4'' title, VEl ''pre'' [attr_text ''aria-label'' label] [] [VText text]])"

definition tool_activity_row :: "(jsval \<Rightarrow> string) \<Rightarrow> tool_activity \<Rightarrow> 'a view" where
  "tool_activity_row pretty a =
     (let input = activity_preview pretty (ta_input a) preview_limit; output = output_text pretty (ta_output a); title = text_of (ta_title a) in
      VEl ''li'' [attr_text ''className'' (''tool-timeline-item phase-'' @ phase_name (ta_phase a))] []
        [box ''span'' [tool_icon (ta_kind a)],
         box ''Collapsible''
          [box ''CollapsibleTrigger''
            [labelled ''span'' title, box ''span'' [activity_status (ta_phase a), labelled ''span'' (phase_label (ta_phase a))], icon ''ChevronRight''],
           box ''CollapsibleContent''
            [tool_value ''Input'' (title @ '' input'') input,
             tool_value ''Result'' (title @ '' result'') output,
             show_if (input = [] \<and> output = []) (labelled ''p''
               (if ta_phase a = PRunning then ''Waiting for the tool to return a result.'' else ''This tool did not provide a text result.'')),
             show_if (ta_call_id a \<noteq> []) (labelled ''code'' (ta_call_id a)),
             box ''details'' [labelled ''summary'' ''Event details'',
               labelled ''pre'' (activity_preview pretty (JArr (map event_detail (ta_events a))) details_limit)]]]])"

datatype tool_list_action = ShowEarlier

text \<open>\<open>shown\<close> starts at \<open>limit\<close> and grows by it; \<open>slice(-shown)\<close> for a positive \<open>shown\<close>.\<close>

definition show_earlier :: "nat \<Rightarrow> nat \<Rightarrow> nat" where
  "show_earlier limit shown = shown + limit"

definition latest :: "nat \<Rightarrow> 'a list \<Rightarrow> 'a list" where
  "latest n xs = drop (length xs - n) xs"

definition tool_activities_view ::
    "(jsval \<Rightarrow> string) \<Rightarrow> activity_event list \<Rightarrow> string option \<Rightarrow> nat \<Rightarrow> tool_list_action view" where
  "tool_activities_view pretty es status shown =
     (let as = tool_activities es status in
      if as = [] then VNone
      else box ''fragment''
        [show_if (length as > shown) (box ''p''
           [VText (''Showing the latest '' @ nat_text shown @ '' of '' @ nat_text (length as) @ '' actions.''), button False ShowEarlier ''Show earlier actions'']),
         box ''ol'' (map (tool_activity_row pretty) (latest shown as))])"

section \<open>Properties\<close>

lemma offers_row [simp]: "offers (tool_activity_row pretty a) = []"
  by (simp add: tool_activity_row_def Let_def tool_value_def tool_icon_def activity_status_def icon_def is_on_def jget_def attr_text_def)

lemma offers_tool_list:
  "set (offers (tool_activities_view pretty es status shown)) = (if length (tool_activities es status) > shown then {ShowEarlier} else {})"
  by (auto simp: tool_activities_view_def Let_def)

lemma activity_preview_bound: "length (activity_preview pretty v n) \<le> n + 22"
  by (auto simp: activity_preview_def Let_def ellipsis_def)

text \<open>Every action can be reached: \<open>k\<close> uses of the button show the latest \<open>limit + k * limit\<close> actions, the
  button stays offered exactly while some are left out, and when none is the whole list is shown in its order.\<close>

theorem earlier_actions_reachable:
  assumes "length (tool_activities es status) \<le> limit + k * limit"
  shows "(show_earlier limit ^^ k) limit = limit + k * limit
    \<and> latest ((show_earlier limit ^^ k) limit) (tool_activities es status) = tool_activities es status
    \<and> offers (tool_activities_view pretty es status ((show_earlier limit ^^ k) limit)) = []"
proof -
  have "(show_earlier limit ^^ j) limit = limit + j * limit" for j by (induction j) (simp_all add: show_earlier_def)
  moreover have "set (offers (tool_activities_view pretty es status (limit + k * limit))) = {}"
    using assms by (simp add: offers_tool_list)
  ultimately show ?thesis using assms by (simp add: latest_def)
qed

theorem earlier_actions_reachable_witness:
  "latest ((show_earlier 20 ^^ 1) 20) (tool_activities call_samples None) = tool_activities call_samples None"
proof -
  have "length (tool_activities call_samples None) \<le> 20 + 1 * 20" by code_simp
  from earlier_actions_reachable [OF this] show ?thesis by blast
qed

text \<open>What is hidden is older than what is shown.\<close>

lemma latest_split: "take (length xs - n) xs @ latest n xs = xs"
  by (simp add: latest_def)

end
