(* ===== verification/FileReferences.thy ===== *)
theory FileReferences
  imports FileUris View
begin

text \<open>
  \<open>features/ConversationResponse.tsx\<close>: which words and links of an agent's answer open a file in the
  editor. The Markdown renderer is not under \<open>src\<close>; what is modelled is what the workspace gives it: the
  plugin that marks links, and the elements it draws for inline code and marked links.
\<close>

section \<open>File references\<close>

record file_reference =
  fl_path :: string
  fl_line :: "int option"

definition named_files :: "string list" where
  "named_files = [''Dockerfile'', ''Containerfile'', ''Makefile'', ''Justfile'', ''Procfile'', ''.gitignore'', ''.gitattributes'', ''.env'',
     ''.env.local'', ''.npmrc'', ''.prettierrc'']"

text \<open>The alternatives of \<open>fileExtension\<close>, written out.\<close>

definition file_extensions :: "string list" where
  "file_extensions = [''js'', ''jsx'', ''ts'', ''tsx'', ''cjs'', ''cjsx'', ''cts'', ''ctsx'', ''mjs'', ''mjsx'', ''mts'', ''mtsx'', ''py'', ''pyi'', ''rs'',
     ''go'', ''java'', ''kt'', ''swift'', ''c'', ''cc'', ''cpp'', ''h'', ''hpp'', ''cs'', ''rb'', ''php'', ''ex'', ''exs'', ''htm'', ''html'', ''css'',
     ''scss'', ''sass'', ''less'', ''vue'', ''svelte'', ''json'', ''jsonc'', ''yml'', ''yaml'', ''toml'', ''md'', ''mdx'', ''txt'', ''sh'', ''bash'',
     ''zsh'', ''fish'', ''sql'', ''graphql'', ''gql'', ''xml'', ''lock'', ''ini'', ''conf'', ''config'', ''csv'', ''svg'']"

definition has_file_extension :: "string \<Rightarrow> bool" where
  "has_file_extension name \<longleftrightarrow> (\<exists>x \<in> set file_extensions. ends_with (CHR ''.'' # x) (lower_text name))"

definition forbidden_char :: "char \<Rightarrow> bool" where
  "forbidden_char c \<longleftrightarrow> of_char c < (32 :: nat) \<or> c = CHR ''<'' \<or> c = CHR ''>''"

text \<open>\<open>/(?::(\d+)(?::\d+)?|#L(\d+)(?:-L?\d+)?)$/\<close> at one place, with its first group.\<close>

definition all_digits :: "string \<Rightarrow> bool" where
  "all_digits s \<longleftrightarrow> s \<noteq> [] \<and> list_all is_digit s"

definition drop_letter_l :: "string \<Rightarrow> string" where
  "drop_letter_l s = (case s of c # r \<Rightarrow> if c = CHR ''L'' then r else s | [] \<Rightarrow> [])"

definition location_here :: "string \<Rightarrow> string option" where
  "location_here s =
     (if starts_with '':'' s
      then (let r = drop 1 s; d = takeWhile is_digit r; q = dropWhile is_digit r in
            if d \<noteq> [] \<and> (q = [] \<or> (hd q = CHR '':'' \<and> all_digits (tl q))) then Some d else None)
      else if starts_with ''#L'' s
      then (let r = drop 2 s; d = takeWhile is_digit r; q = dropWhile is_digit r in
            if d \<noteq> [] \<and> (q = [] \<or> (hd q = CHR ''-'' \<and> all_digits (drop_letter_l (tl q)))) then Some d else None)
      else None)"

text \<open>The leftmost match: the text before it, and its digits.\<close>

fun split_location :: "string \<Rightarrow> string \<times> string option" where
  "split_location [] = ([], None)"
| "split_location (c # s) =
     (case location_here (c # s) of
        Some d \<Rightarrow> ([], Some d)
      | None \<Rightarrow> (case split_location s of (p, r) \<Rightarrow> (c # p, r)))"

definition line_value :: "string \<Rightarrow> int" where
  "line_value d = foldl (\<lambda>n c. n * 10 + (int (of_char c) - 48)) 0 d"

definition max_safe_integer :: int where
  "max_safe_integer = 9007199254740991"

text \<open>\<open>/^(?:[a-z][a-z\d+.-]*:|\/\/|#)/i\<close>.\<close>

definition scheme_char :: "char \<Rightarrow> bool" where
  "scheme_char c \<longleftrightarrow> is_alpha c \<or> is_digit c \<or> c = CHR ''+'' \<or> c = CHR ''.'' \<or> c = CHR ''-''"

definition link_scheme :: "string \<Rightarrow> bool" where
  "link_scheme p \<longleftrightarrow> (case p of [] \<Rightarrow> False
     | c # r \<Rightarrow> (is_alpha c \<and> starts_with '':'' (dropWhile scheme_char r)) \<or> starts_with ''//'' p \<or> c = CHR ''#'')"

definition plain_file_path :: "string \<Rightarrow> bool" where
  "plain_file_path p \<longleftrightarrow> p \<noteq> [] \<and> \<not> link_scheme p \<and> CHR ''?'' \<notin> set p \<and> CHR ''#'' \<notin> set p \<and> CHR 0x5C \<notin> set p
     \<and> ''..'' \<notin> set (split_on (CHR ''/'') p)"

definition file_named :: "string \<Rightarrow> bool" where
  "file_named p \<longleftrightarrow> (let name = last (split_on (CHR ''/'') p) in has_file_extension name \<or> name \<in> set named_files)"

definition unusable_line :: "int option \<Rightarrow> bool" where
  "unusable_line line \<longleftrightarrow> (case line of None \<Rightarrow> False | Some n \<Rightarrow> n > max_safe_integer \<or> n < 1)"

definition conversation_file_reference :: "string \<Rightarrow> file_reference option" where
  "conversation_file_reference value =
     (let whole = trim value; (p, location) = split_location whole; line = map_option line_value location in
      if whole = [] \<or> (\<exists>c \<in> set whole. forbidden_char c) then None
      else if unusable_line line then None
      else if \<not> plain_file_path p then None
      else if \<not> file_named p then None
      else if \<exists>c \<in> set (hd (split_on (CHR ''/'') p)). is_space c then None
      else Some \<lparr>fl_path = p, fl_line = line\<rparr>)"

section \<open>Links and code\<close>

datatype md_node = MdNode (md_type: string) (md_url: "string option") (md_mark: "file_reference option") (md_children: "md_node list")

text \<open>\<open>remarkFileLinks\<close>: a link whose decoded address is a reference is marked; a malformed address is not.\<close>

definition link_reference :: "md_node \<Rightarrow> file_reference option" where
  "link_reference n =
     (if md_type n = ''link'' \<and> truthy_text (md_url n)
      then (case decode_component (the (md_url n)) of None \<Rightarrow> None | Some t \<Rightarrow> conversation_file_reference t) else None)"

fun remark_file_links :: "md_node \<Rightarrow> md_node" where
  "remark_file_links (MdNode ty url mark ks) =
     MdNode ty url (case link_reference (MdNode ty url mark ks) of Some r \<Rightarrow> Some r | None \<Rightarrow> mark) (map remark_file_links ks)"

datatype response_action = OpenFile string "int option"

definition reference_text :: "file_reference \<Rightarrow> string" where
  "reference_text r = fl_path r @ (case fl_line r of None \<Rightarrow> [] | Some n \<Rightarrow> CHR '':'' # int_text n)"

definition file_button :: "file_reference \<Rightarrow> response_action view list \<Rightarrow> response_action view" where
  "file_button r kids =
     VEl ''button'' [attr_text ''aria-label'' (''Open file '' @ reference_text r), attr_text ''title'' (''Open '' @ reference_text r)]
       [(''onClick'', OpenFile (fl_path r) (fl_line r))] kids"

text \<open>\<open>can_open\<close>: whether the conversation was given a handler. The children are a text or something else.\<close>

definition file_code :: "bool \<Rightarrow> string option \<Rightarrow> response_action view list \<Rightarrow> response_action view" where
  "file_code can_open children kids =
     (case (if truthy_text children then conversation_file_reference (the children) else None) of
        Some r \<Rightarrow> if can_open then file_button r [box ''code'' kids] else box ''code'' kids
      | None \<Rightarrow> box ''code'' kids)"

datatype react_node = NodeText string | NodeNumber string | NodeElement "response_action view" | NodeList "react_node list" | NodeOther

fun file_label :: "react_node \<Rightarrow> response_action view list" where
  "file_label (NodeText s) = [VText s]"
| "file_label (NodeNumber s) = [VText s]"
| "file_label (NodeElement v) = [v]"
| "file_label (NodeList ns) = concat (map file_label ns)"
| "file_label NodeOther = []"

definition file_link_tag :: "bool \<Rightarrow> string option \<Rightarrow> string option \<Rightarrow> react_node \<Rightarrow> response_action view" where
  "file_link_tag can_open path line children =
     (case (case path of None \<Rightarrow> None
            | Some p \<Rightarrow> conversation_file_reference (p @ (if truthy_text line then CHR '':'' # the line else []))) of
        Some r \<Rightarrow> if can_open then file_button r (file_label children) else box ''span'' (file_label children)
      | None \<Rightarrow> box ''span'' (file_label children))"

section \<open>Properties\<close>

lemma reference_plain:
  assumes "conversation_file_reference value = Some r"
  shows "plain_file_path (fl_path r) \<and> file_named (fl_path r) \<and> (\<forall>n. fl_line r = Some n \<longrightarrow> 1 \<le> n \<and> n \<le> max_safe_integer)"
  using assms by (auto simp: conversation_file_reference_def Let_def unusable_line_def split: prod.splits if_splits)

lemma offers_file_button: "set (offers (file_button r kids)) = insert (OpenFile (fl_path r) (fl_line r)) (\<Union>v \<in> set kids. set (offers v))"
  by (simp add: file_button_def is_on_def jget_def attr_text_def)

text \<open>Inline code of an answer opens nothing but a plain file name: no scheme, no network path, no query, no
  backslash and no way up the tree; and nothing at all without a handler.\<close>

theorem code_opens_plain_files:
  assumes "OpenFile p l \<in> set (offers (file_code can_open children [VText t]))"
  shows "can_open \<and> plain_file_path p \<and> file_named p"
  using assms reference_plain unfolding file_code_def
  by (auto simp: offers_file_button split: option.splits if_splits)

theorem code_opens_plain_files_witness:
  "True \<and> plain_file_path ''src/a.ts'' \<and> file_named ''src/a.ts''"
proof -
  have "OpenFile ''src/a.ts'' (Some 12) \<in> set (offers (file_code True (Some ''src/a.ts:12'') [VText ''src/a.ts:12'']))"
    by code_simp
  from code_opens_plain_files [OF this] show ?thesis .
qed

text \<open>A marked link keeps the shape of the document and adds marks only.\<close>

lemma remark_keeps:
  "md_type (remark_file_links n) = md_type n" "md_url (remark_file_links n) = md_url n"
  "length (md_children (remark_file_links n)) = length (md_children n)"
  by (cases n; simp)+

subsection \<open>A reference that is written out is read again\<close>

lemma split_location_append: "split_location s = (p, r) \<Longrightarrow> \<exists>q. s = p @ q \<and> (r = None \<longrightarrow> q = []) \<and> (r \<noteq> None \<longrightarrow> location_here q = r)"
proof (induction s arbitrary: p r)
  case (Cons c s)
  show ?case
  proof (cases "location_here (c # s)")
    case None
    obtain p' r' where s: "split_location s = (p', r')" by (cases "split_location s")
    with Cons.IH [OF s] None Cons.prems show ?thesis by auto
  next
    case (Some d)
    then have "p = []" "r = Some d" using Cons.prems by simp_all
    then show ?thesis using Some by (intro exI [of _ "c # s"]) simp
  qed
qed simp

lemma location_ends_digit: "location_here s = Some d \<Longrightarrow> s \<noteq> [] \<and> is_digit (last s)"
proof -
  have td: "is_digit (last w)" if "w \<noteq> []" "list_all is_digit w" for w using that by (auto simp: list_all_iff)
  have part: "is_digit (last r)" if "takeWhile is_digit r \<noteq> []" "dropWhile is_digit r = []" for r
  proof -
    have "r = takeWhile is_digit r" using that(2) by (metis append.right_neutral takeWhile_dropWhile_id)
    then show ?thesis using that(1) td [of r] by (metis list_all_iff set_takeWhileD)
  qed
  have tail: "is_digit (last r)" if "dropWhile is_digit r = x # q" "all_digits q" for r x q
  proof -
    have "r = takeWhile is_digit r @ x # q" using that(1) by (metis takeWhile_dropWhile_id)
    then have "last r = last q" using that(2) by (metis all_digits_def last_ConsR last_appendR list.distinct(1))
    then show ?thesis using that(2) td [of q] by (simp add: all_digits_def)
  qed
  have l_tail: "all_digits (drop_letter_l q) \<Longrightarrow> q \<noteq> [] \<and> is_digit (last q)" for q
    using td [of "drop_letter_l q"] by (cases q) (auto simp: drop_letter_l_def all_digits_def split: if_splits)
  assume a: "location_here s = Some d"
  show ?thesis
  proof (cases "starts_with '':'' s")
    case True
    then obtain r where s: "s = CHR '':'' # r" by (auto simp: starts_with_iff)
    have "takeWhile is_digit r \<noteq> []" and q: "dropWhile is_digit r = [] \<or> (hd (dropWhile is_digit r) = CHR '':'' \<and> all_digits (tl (dropWhile is_digit r)))"
      using a by (auto simp: s location_here_def Let_def split: if_splits)
    then have "r \<noteq> []" "is_digit (last r)"
      using part [of r] tail [of r] by (auto, metis list.exhaust_sel)
    then show ?thesis by (simp add: s)
  next
    case False
    then obtain r where s: "s = CHR ''#'' # CHR ''L'' # r" using a by (auto simp: location_here_def starts_with_iff split: if_splits)
    have t: "takeWhile is_digit r \<noteq> []" and q: "dropWhile is_digit r = [] \<or> all_digits (drop_letter_l (tl (dropWhile is_digit r)))"
      using a by (auto simp: s location_here_def Let_def split: if_splits)
    have "r \<noteq> []" using t by auto
    moreover have "is_digit (last r)"
    proof (cases "dropWhile is_digit r")
      case Nil
      then show ?thesis using part t by blast
    next
      case (Cons x w)
      then have "w \<noteq> []" "is_digit (last w)" using q l_tail [of w] by simp_all
      moreover have "r = takeWhile is_digit r @ x # w" using Cons by (metis takeWhile_dropWhile_id)
      ultimately show ?thesis by (metis last_ConsR last_appendR list.distinct(1))
    qed
    ultimately show ?thesis by (simp add: s)
  qed
qed

lemma location_none:
  assumes "w \<noteq> []" "\<not> is_digit (last w)" "CHR ''#'' \<notin> set w" "all_digits d"
  shows "location_here (w @ CHR '':'' # d) = None"
proof (cases w)
  case (Cons c v)
  have colon: "\<not> is_digit (CHR '':'')" by code_simp
  show ?thesis
  proof (cases "c = CHR '':''")
    case False
    have "c \<noteq> CHR ''#''" using assms(3) Cons by auto
    with False show ?thesis using Cons by (simp add: location_here_def starts_with_iff)
  next
    case True
    show ?thesis
    proof (cases "dropWhile is_digit v")
      case Nil
      have "v = []"
      proof (rule ccontr)
        assume "v \<noteq> []"
        then have "last v \<in> set v" "last w = last v" using Cons by simp_all
        moreover have "\<forall>x \<in> set v. is_digit x" using Nil by (simp add: dropWhile_eq_Nil_conv)
        ultimately show False using assms(2) by simp
      qed
      then show ?thesis using True Cons colon by (simp add: location_here_def Let_def)
    next
      case (Cons x u)
      obtain y where y: "y \<in> set v" "\<not> is_digit y" using Cons by (metis dropWhile_eq_Nil_conv list.distinct(1))
      have "dropWhile is_digit (v @ CHR '':'' # d) = (x # u) @ CHR '':'' # d"
        using dropWhile_append1 [of y v is_digit "CHR '':'' # d"] y Cons by simp
      then show ?thesis using True \<open>w = c # v\<close> colon by (simp add: location_here_def Let_def all_digits_def)
    qed
  qed
qed (use assms in simp)

lemma location_digits: "all_digits d \<Longrightarrow> location_here (CHR '':'' # d) = Some d"
proof -
  assume d: "all_digits d"
  then have "takeWhile is_digit d = d" "dropWhile is_digit d = []"
    by (simp_all add: all_digits_def list_all_iff takeWhile_eq_all_conv dropWhile_eq_Nil_conv)
  moreover have "d \<noteq> []" using d by (simp add: all_digits_def)
  ultimately show ?thesis by (cases d) (auto simp: location_here_def Let_def split: if_splits)
qed

lemma split_line:
  assumes "\<not> is_digit (last p)" "CHR ''#'' \<notin> set p" "all_digits d"
  shows "split_location (p @ CHR '':'' # d) = (p, Some d)"
  using assms
proof (induction p)
  case Nil
  then show ?case by (simp add: location_digits)
next
  case (Cons c p)
  have "location_here ((c # p) @ CHR '':'' # d) = None" by (rule location_none) (use Cons.prems in simp_all)
  moreover have "split_location (p @ CHR '':'' # d) = (p, Some d)"
    using Cons by (cases "p = []") (simp_all add: location_digits)
  ultimately show ?case by simp
qed

lemma split_no_line: "\<not> is_digit (last p) \<Longrightarrow> split_location p = (p, None)"
proof (induction p)
  case (Cons c p)
  have "location_here (c # p) = None" using location_ends_digit [of "c # p"] Cons.prems by (cases "location_here (c # p)") auto
  then show ?case using Cons by (cases "p = []") simp_all
qed simp

definition word_end :: "char \<Rightarrow> bool" where
  "word_end c \<longleftrightarrow> \<not> is_digit c \<and> \<not> is_space c"

lemma word_end_lower: "word_end (lower_char c) = word_end c"
  by (auto simp: word_end_def is_digit_def is_space_def lower_char_def Let_def of_char_of)

lemma extension_end: "has_file_extension name \<Longrightarrow> name \<noteq> [] \<and> word_end (last name)"
proof -
  assume "has_file_extension name"
  then obtain x t where x: "x \<in> set file_extensions" "rev (lower_text name) = rev (CHR ''.'' # x) @ t"
    unfolding has_file_extension_def ends_with_def starts_with_iff by blast
  have "\<forall>x \<in> set file_extensions. x \<noteq> [] \<and> word_end (last x)" by code_simp
  then have e: "x \<noteq> []" "word_end (last x)" using x(1) by blast+
  have l: "lower_text name = rev t @ CHR ''.'' # x" using x(2) by (metis rev_append rev_rev_ident)
  then have "name \<noteq> []" by (auto simp: lower_text_def)
  moreover have "lower_char (last name) = last x" using l e(1) calculation by (metis last_ConsR last_appendR last_map list.distinct(1) lower_text_def)
  ultimately show ?thesis using e(2) word_end_lower by metis
qed

lemma named_end: "file_named p \<Longrightarrow> p \<noteq> [] \<and> word_end (last p)"
proof -
  assume f: "file_named p"
  let ?name = "last (split_on (CHR ''/'') p)"
  have "\<forall>x \<in> set named_files. x \<noteq> [] \<and> word_end (last x)" by code_simp
  then have n: "?name \<noteq> []" "word_end (last ?name)" using f extension_end unfolding file_named_def Let_def by blast+
  obtain ws where "split_on (CHR ''/'') p = ws @ [?name]" by (metis append_butlast_last_id split_on_not_Nil)
  then have p: "p = join_with ''/'' (ws @ [?name])" by (metis join_with_split_on)
  have "\<exists>q. join_with ''/'' (ws @ [w]) = q @ w" for w :: string
  proof (induction ws)
    case (Cons a ws)
    then obtain q where "join_with ''/'' (ws @ [w]) = q @ w" by blast
    then show ?case by (intro exI [of _ "a @ ''/'' @ q"]) (simp add: join_with_Cons)
  qed simp
  then obtain q where "p = q @ ?name" using p by metis
  then show ?thesis using n by (metis append_is_Nil_conv last_appendR)
qed

lemma trim_tight: "s \<noteq> [] \<Longrightarrow> \<not> is_space (hd s) \<Longrightarrow> \<not> is_space (last s) \<Longrightarrow> trim s = s"
proof -
  assume a: "s \<noteq> []" "\<not> is_space (hd s)" "\<not> is_space (last s)"
  then have "dropWhile is_space s = s" by (cases s) simp_all
  moreover have "dropWhile is_space (rev s) = rev s" using a by (cases "rev s") (auto simp: rev_swap [symmetric])
  ultimately show ?thesis by (simp add: trim_def)
qed

lemma nat_text_digits: "all_digits (nat_text n) \<and> line_value (nat_text n) = int n"
proof (induction n rule: nat_text.induct)
  case (1 n)
  have d: "is_digit (char_of (48 + m))" "of_char (char_of (48 + m) :: char) = (48 + m)" if "m < 10" for m :: nat
    using that by (simp_all add: is_digit_def Let_def of_char_of)
  show ?case
  proof (cases "n < 10")
    case True
    then show ?thesis using d [OF True] by (simp add: nat_text.simps [of n] all_digits_def line_value_def)
  next
    case False
    have "int (n div 10) * 10 + int (n mod 10) = int n" by presburger
    then show ?thesis
      using 1 [OF False] False d [of "n mod 10"] by (simp add: nat_text.simps [of n] all_digits_def line_value_def)
  qed
qed

text \<open>A reference an answer was found to make is found again, the same, in its own written form: what the marked link
  carries is what opens.\<close>

theorem reference_reparsed:
  assumes "conversation_file_reference value = Some r"
  shows "conversation_file_reference (reference_text r) = Some r"
proof -
  obtain p l where v: "split_location (trim value) = (p, l)" by (cases "split_location (trim value)")
  have r: "r = \<lparr>fl_path = p, fl_line = map_option line_value l\<rparr>" and ok: "\<forall>c \<in> set (trim value). \<not> forbidden_char c" "plain_file_path p" "file_named p"
      "\<not> unusable_line (map_option line_value l)" "\<forall>c \<in> set (hd (split_on (CHR ''/'') p)). \<not> is_space c"
    using assms v by (auto simp: conversation_file_reference_def Let_def split: if_splits)
  have p: "p \<noteq> []" "\<not> is_digit (last p)" "\<not> is_space (last p)" using named_end [OF ok(3)] by (simp_all add: word_end_def)
  have hash: "CHR ''#'' \<notin> set p" using ok(2) by (simp add: plain_file_path_def)
  have chars: "\<forall>c \<in> set p. \<not> forbidden_char c" using split_location_append [OF v] ok(1) by auto
  have front: "\<not> is_space (hd p)"
  proof (cases "hd p = CHR ''/''")
    case True
    then show ?thesis by (simp add: is_space_def)
  next
    case False
    then have "hd p \<in> set (hd (split_on (CHR ''/'') p))" 
      using p(1) by (cases p; cases "split_on (CHR ''/'') (tl p)") simp_all
    then show ?thesis using ok(5) by blast
  qed
  show ?thesis
  proof (cases l)
    case None
    have "reference_text r = p" by (simp add: r None reference_text_def)
    moreover have "trim p = p" using p front by (intro trim_tight)
    ultimately show ?thesis
      using p ok chars split_no_line [OF p(2)] by (simp add: conversation_file_reference_def r None unusable_line_def)
  next
    case (Some d)
    define n where "n = nat (line_value d)"
    have line: "1 \<le> line_value d" using ok(4) by (simp add: Some unusable_line_def)
    then have t: "int_text (line_value d) = nat_text n" "int n = line_value d" by (simp_all add: int_text_def n_def)
    let ?w = "p @ CHR '':'' # nat_text n"
    have dn: "all_digits (nat_text n)" "line_value (nat_text n) = line_value d" using nat_text_digits [of n] t by simp_all
    have digit: "\<forall>c \<in> set (nat_text n). is_digit c" and ne: "nat_text n \<noteq> []" using dn(1) by (simp_all add: all_digits_def list_all_iff)
    have plain_digit: "is_digit c \<Longrightarrow> \<not> forbidden_char c \<and> \<not> is_space c" for c
      by (auto simp: is_digit_def forbidden_char_def is_space_def Let_def)
    have "\<not> is_space (last ?w)" using digit ne plain_digit by (simp add: last_in_set)
    then have "trim ?w = ?w" using p front by (intro trim_tight) simp_all
    moreover have "\<forall>c \<in> set ?w. \<not> forbidden_char c" using chars digit plain_digit by (auto simp: forbidden_char_def)
    moreover have "reference_text r = ?w" by (simp add: r Some reference_text_def t)
    ultimately show ?thesis
      using ok dn split_line [OF p(2) hash dn(1)] by (simp add: conversation_file_reference_def r Some)
  qed
qed

theorem reference_reparsed_witness:
  "conversation_file_reference (reference_text \<lparr>fl_path = ''src/main.rs'', fl_line = Some 40\<rparr>) = Some \<lparr>fl_path = ''src/main.rs'', fl_line = Some 40\<rparr>"
  by (rule reference_reparsed [of "''  src/main.rs#L40-L52 ''"]) code_simp

end
