(* ===== verification/ConversationView.thy ===== *)
theory ConversationView
  imports ToolViews FileReferences ApprovalCards TaskPresentation ApiClient
begin

text \<open>
  \<open>features/ConversationMessage.tsx\<close> with the shells of \<open>components/ai-elements/message.tsx\<close>: one message of a conversation. An
  answer shows what its run did, the agents it delegated to, its text, its errors and the requests
  that wait for a person. The history of a finished run is read only once the reader opens it.
\<close>

section \<open>Delegated agents\<close>

definition status_phase :: "string \<Rightarrow> tool_phase" where
  "status_phase status =
     (if status = ''completed'' then PCompleted else if status = ''failed'' then PFailed else if status = ''cancelled'' then PCancelled
      else if status = ''interrupted'' then PInterrupted else if task_is_active status then PRunning else PPending)"

definition agent_label :: "string \<Rightarrow> jsval" where
  "agent_label status = (if status = ''interrupted'' then JStr ''No result reported'' else tp_label (task_state status))"

datatype conversation_action =
    Supervise string
  | ToggleRun
  | ToggleAgent "string list"
  | RetryActivity
  | ShowEarlierActions
  | OpenFileAt string "int option"
  | CopyAnswer
  | CardDone string
  | CardError string

definition on_tools :: "tool_list_action view \<Rightarrow> conversation_action view" where
  "on_tools v = map_view (\<lambda>_. ShowEarlierActions) v"

text \<open>The rendered answer; the renderer of its Markdown is \<open>render\<close>.\<close>

definition opened_file :: "response_action \<Rightarrow> conversation_action" where
  "opened_file a = (case a of OpenFile p l \<Rightarrow> OpenFileAt p l)"

definition response_text :: "(string \<Rightarrow> response_action view) \<Rightarrow> string \<Rightarrow> conversation_action view" where
  "response_text render t = map_view opened_file (render t)"

text \<open>One agent and, when it is open, the agents below it: at most three levels under the first, twelve in each.
  \<open>is_open\<close> tells for the path of an agent whether its row is open, \<open>shown\<close> how many actions are listed.\<close>

function agent_row ::
    "(jsval \<Rightarrow> string) \<Rightarrow> (string \<Rightarrow> response_action view) \<Rightarrow> (string list \<Rightarrow> bool) \<Rightarrow> (string list \<Rightarrow> nat) \<Rightarrow> string \<Rightarrow> string list \<Rightarrow> nat
      \<Rightarrow> agent_activity \<Rightarrow> conversation_action view" where
  "agent_row pretty render is_open shown root_task path depth agent =
     (let a = agent_info agent; status = text_of (ai_status a); here = path @ [ai_id a] in
      box ''li''
        [VEl ''CollapsibleTrigger'' [] [(''onOpenChange'', ToggleAgent here)]
           [labelled ''strong'' (ai_name a), show_if (ai_prompt a \<noteq> []) (labelled ''span'' (ai_prompt a)),
            box ''span'' [activity_status (status_phase status), labelled ''span'' (text_of (agent_label status))]],
         show_if (is_open here) (box ''CollapsibleContent''
           [show_if (ai_prompt a \<noteq> []) (labelled ''p'' (ai_prompt a)),
            show_if (ai_truncated a = Some True) (labelled ''p'' ''Showing recent activity for this agent.''),
            on_tools (tool_activities_view pretty (ai_events a) (opt_str (ai_status a)) (shown here)),
            show_if (ai_result a \<noteq> []) (response_text render (ai_result a)),
            show_if (agent_children agent \<noteq> [] \<and> depth < 3)
              (box ''ul'' (if depth < 3
                 then map (agent_row pretty render is_open shown root_task here (depth + 1)) (take 12 (agent_children agent)) else [])),
            button False (Supervise (or_text (ai_task_id a) root_task))
              (if truthy_text (ai_task_id a) then ''Open agent session'' else ''Open parent task'')])])"
  by pat_completeness auto
termination
  by (relation "measure (\<lambda>(pretty, render, is_open, shown, root_task, path, depth, agent). 4 - depth)") auto

declare agent_row.simps [simp del]

section \<open>The activity of a run\<close>

text \<open>One reading of a run's history; \<open>rr_aborted\<close> once its effect was left.\<close>

record run_reading =
  rr_task :: string
  rr_aborted :: bool
  rr_settled :: bool

record run_panel =
  rp_open :: bool
  rp_visible :: bool
  rp_task :: task
  rp_saved :: "task option"
  rp_loading :: bool
  rp_error :: string
  rp_retry :: nat
  rp_key :: "(bool \<times> bool \<times> string \<times> bool \<times> string option \<times> nat) option"
  rp_readings :: "run_reading list"
  rp_watched :: "string \<times> string \<times> bool"

definition run_key :: "run_panel \<Rightarrow> bool \<times> bool \<times> string \<times> bool \<times> string option \<times> nat" where
  "run_key p = (rp_open p, rp_visible p, task_id (rp_task p), task_events (rp_task p) \<noteq> None, map_option task_id (rp_saved p), rp_retry p)"

definition wants_history :: "run_panel \<Rightarrow> bool" where
  "wants_history p \<longleftrightarrow> rp_open p \<and> rp_visible p \<and> task_events (rp_task p) = None \<and> map_option task_id (rp_saved p) \<noteq> Some (task_id (rp_task p))"

definition abort_readings :: "run_panel \<Rightarrow> run_panel" where
  "abort_readings p = p\<lparr>rp_readings := map (\<lambda>r. r\<lparr>rr_aborted := True\<rparr>) (rp_readings p)\<rparr>"

text \<open>The effect: left and entered again whenever one of its dependencies changed.\<close>

definition run_effect :: "run_panel \<Rightarrow> run_panel" where
  "run_effect p =
     (if rp_key p = Some (run_key p) then p
      else (let q = (abort_readings p)\<lparr>rp_key := Some (run_key p)\<rparr> in
            if wants_history p
            then q\<lparr>rp_loading := True, rp_error := [],
                   rp_readings := rp_readings q @ [\<lparr>rr_task = task_id (rp_task p), rr_aborted = False, rr_settled = False\<rparr>]\<rparr>
            else q))"

definition history_path :: "string \<Rightarrow> string" where
  "history_path i = ''/api/workspace/tasks/'' @ encode_component i @ ''?activity=true''"

text \<open>A task that starts to run again, or to come with its events, makes an older history worthless.\<close>

definition watched_of :: "task \<Rightarrow> string \<times> string \<times> bool" where
  "watched_of t = (task_id t, task_status t, task_events t \<noteq> None)"

definition run_render :: "bool \<Rightarrow> task \<Rightarrow> run_panel \<Rightarrow> run_panel" where
  "run_render visible t p =
     (let saved = (if watched_of t \<noteq> rp_watched p \<and> (task_events t \<noteq> None \<or> task_is_active (task_status t)) then None else rp_saved p)
      in run_effect (p\<lparr>rp_visible := visible, rp_task := t, rp_saved := saved, rp_watched := watched_of t\<rparr>))"

definition mount_run :: "bool \<Rightarrow> task \<Rightarrow> run_panel" where
  "mount_run visible t = run_effect \<lparr>rp_open = False, rp_visible = visible, rp_task = t, rp_saved = None, rp_loading = False, rp_error = [],
     rp_retry = 0, rp_key = None, rp_readings = [], rp_watched = watched_of t\<rparr>"

definition toggle_run :: "run_panel \<Rightarrow> run_panel" where
  "toggle_run p = run_effect (p\<lparr>rp_open := \<not> rp_open p\<rparr>)"

definition retry_run :: "run_panel \<Rightarrow> run_panel" where
  "retry_run p = run_effect (p\<lparr>rp_retry := rp_retry p + 1\<rparr>)"

definition reading_live :: "nat \<Rightarrow> run_panel \<Rightarrow> bool" where
  "reading_live n p \<longleftrightarrow> n < length (rp_readings p) \<and> \<not> rr_aborted (rp_readings p ! n) \<and> \<not> rr_settled (rp_readings p ! n)"

definition reading_answer :: "nat \<Rightarrow> task js_result \<Rightarrow> run_panel \<Rightarrow> run_panel" where
  "reading_answer n reply p =
     (if \<not> reading_live n p then p
      else (let r = rp_readings p ! n;
                q = p\<lparr>rp_loading := False, rp_readings := (rp_readings p)[n := r\<lparr>rr_settled := True\<rparr>]\<rparr>
            in run_effect (case reply of
                 Inr t \<Rightarrow> if task_id t = rr_task r then q\<lparr>rp_saved := Some t\<rparr> else q
               | Inl e \<Rightarrow> q\<lparr>rp_error := error_message e\<rparr>)))"

definition run_details :: "run_panel \<Rightarrow> task" where
  "run_details p =
     (if task_events (rp_task p) \<noteq> None then rp_task p
      else (case rp_saved p of Some s \<Rightarrow> if task_id s = task_id (rp_task p) then s else rp_task p | None \<Rightarrow> rp_task p))"

definition run_events :: "run_panel \<Rightarrow> activity_event list" where
  "run_events p = events_or_nil (task_events (run_details p))"

definition run_tools :: "run_panel \<Rightarrow> tool_activity list" where
  "run_tools p = tool_activities (run_events p) (Some (task_status (rp_task p)))"

definition run_agents :: "run_panel \<Rightarrow> agent_activity list" where
  "run_agents p = delegated_activities 0 (run_events p) (children_or_nil (task_children (run_details p))) (JStr (task_status (rp_task p)))"

definition agent_status :: "agent_activity \<Rightarrow> string" where
  "agent_status a = text_of (ai_status (agent_info a))"

definition current_tool :: "tool_activity list \<Rightarrow> tool_activity option" where
  "current_tool ts = find (\<lambda>t. ta_phase t = PRunning \<or> ta_phase t = PPending) (rev ts)"

definition active_agents :: "agent_activity list \<Rightarrow> nat" where
  "active_agents as = length (filter (\<lambda>a. task_is_active (agent_status a)) as)"

definition failed_parts :: "run_panel \<Rightarrow> nat" where
  "failed_parts p = length (filter (\<lambda>t. ta_phase t = PFailed) (run_tools p)) + length (filter (\<lambda>a. agent_status a = ''failed'') (run_agents p))"

definition run_attention :: "string \<Rightarrow> bool" where
  "run_attention status \<longleftrightarrow> status = ''awaiting_approval'' \<or> status = ''recovery_confirmation_required''"

definition run_summary :: "run_panel \<Rightarrow> string" where
  "run_summary p =
     (let status = task_status (rp_task p); n = active_agents (run_agents p) in
      if run_attention status then ''Your input is needed''
      else if n > 0 then nat_text n @ '' '' @ (if n = 1 then ''agent is'' else ''agents are'') @ '' working''
      else if task_is_active status
      then (case current_tool (run_tools p) of None \<Rightarrow> ''Working on your request'' | Some t \<Rightarrow> text_of (ta_title t))
      else ''View activity'')"

definition counted :: "nat \<Rightarrow> string \<Rightarrow> string" where
  "counted n noun = (if n = 0 then [] else nat_text n @ '' '' @ noun @ (if n = 1 then [] else ''s''))"

definition run_count :: "run_panel \<Rightarrow> string" where
  "run_count p = join_with ('' '' @ [CHR 0xB7] @ '' '')
     (filter (\<lambda>t. t \<noteq> []) [counted (length (run_tools p)) ''tool'', counted (length (run_agents p)) ''agent''])"

definition run_activity ::
    "(jsval \<Rightarrow> string) \<Rightarrow> (string \<Rightarrow> response_action view) \<Rightarrow> (string list \<Rightarrow> bool) \<Rightarrow> (string list \<Rightarrow> nat) \<Rightarrow> run_panel \<Rightarrow> conversation_action view" where
  "run_activity pretty render is_open shown p =
     (let t = rp_task p; tools = run_tools p; agents = run_agents p; status = task_status t in
      if tools = [] \<and> agents = [] \<and> task_events t \<noteq> None then VNone
      else box ''Collapsible''
        [VEl ''CollapsibleTrigger'' [] [(''onOpenChange'', ToggleRun)]
           [icon (if task_is_active status then ''LoaderCircle'' else if run_attention status \<or> status = ''failed'' then ''CircleAlert'' else ''GitBranch''),
            labelled ''span'' (run_summary p), labelled ''span'' (run_count p),
            show_if (failed_parts p > 0) (labelled ''span'' (nat_text (failed_parts p) @ '' failed''))],
         show_if (rp_open p) (box ''CollapsibleContent''
           [show_if (rp_loading p) (labelled ''p'' (''Loading activity'' @ ellipsis)),
            show_if (rp_error p \<noteq> []) (box ''p'' [VText (rp_error p), button False RetryActivity ''Retry activity'']),
            show_if (task_truncated (run_details p) = Some True) (labelled ''p'' ''Showing recent activity for this run.''),
            show_if (\<not> rp_loading p \<and> rp_error p = [] \<and> tools = [] \<and> agents = [] \<and> map_option task_id (rp_saved p) = Some (task_id t))
              (labelled ''p'' ''No tool or delegated-agent activity was found in this history.''),
            show_if (agents \<noteq> []) (box ''section'' [labelled ''h3'' ''Agent team'',
              box ''ul'' (map (agent_row pretty render is_open shown (task_id t) [] 0) (take 24 agents))]),
            on_tools (tool_activities_view pretty (run_events p) (Some status) (shown [])),
            button False (Supervise (task_id t)) ''Open task details''])])"

section \<open>One message\<close>

definition loader_labels :: "(string \<times> string) list" where
  "loader_labels = [(''queued'', ''Waiting to start''), (''planning'', ''Planning the next steps''), (''running'', ''Preparing a response''),
     (''recovering'', ''Restoring this task''), (''cancelling'', ''Stopping this task''), (''awaiting_approval'', ''Waiting for your approval''),
     (''paused'', ''This task is paused''), (''recovery_confirmation_required'', ''Review recovery before continuing''),
     (''cancelled'', ''This task was stopped''), (''failed'', ''This task needs attention''), (''completed'', ''This turn finished without a text response'')]"

definition response_loader :: "task \<Rightarrow> conversation_action view" where
  "response_loader t =
     (let busy = task_is_active (task_status t) in
      box ''div''
        [box ''div'' [icon (if busy then ''Sparkles'' else if task_status t = ''failed'' then ''CircleAlert'' else ''Pause''),
           labelled ''span'' (text_of (js_or (own_or_proto loader_labels (task_status t)) (JStr ''Preparing this conversation'')))],
         show_if busy (box ''div'' [icon ''span'', icon ''span'', icon ''span''])])"

definition report_statuses :: "(string \<times> string) list" where
  "report_statuses = [(''task.completed'', ''completed''), (''task.failed'', ''failed''), (''task.cancelled'', ''cancelled''),
     (''approval.requested'', ''awaiting_approval''), (''task.recovery.blocked'', ''recovery_confirmation_required'')]"

definition report_status :: "coordination_report \<Rightarrow> jsval" where
  "report_status r = (if truthy_text (cr_source_status r) then JStr (the (cr_source_status r)) else own_or_proto report_statuses (cr_kind r))"

definition tone_text :: "tone \<Rightarrow> string" where
  "tone_text t = (case t of ToneFailed \<Rightarrow> ''failed'' | ToneCompleted \<Rightarrow> ''completed'' | ToneAttention \<Rightarrow> ''attention'' | ToneRunning \<Rightarrow> ''running'')"

text \<open>The label and the tone of a report. A function found in the table is no known status.\<close>

definition report_state :: "coordination_report \<Rightarrow> string \<times> string" where
  "report_state r =
     (let v = report_status r in
      if v = JStr ''unavailable'' then (''Unavailable'', ''failed'')
      else if truthy v then (text_of (tp_label (task_state (text_of v))), tone_text (tp_tone (task_state (text_of v))))
      else (''Update'', []))"

definition report_banner :: "coordination_report \<Rightarrow> conversation_action view" where
  "report_banner r =
     box ''div''
       [labelled ''strong'' (if cr_label r = [] then ''Delegated agent'' else cr_label r), labelled ''small'' ''Direct agent report'',
        VEl ''span'' [attr_text ''className'' (''coordination-report-status '' @ snd (report_state r))] [] [VText (fst (report_state r))],
        show_if (truthy_text (cr_source_task r)) (button False (Supervise (the (cr_source_task r))) ''Open source task'')]"

definition pending_approvals :: "task \<Rightarrow> approval list" where
  "pending_approvals t = filter (\<lambda>a. ap_status a = ''pending'') (case task_approvals t of None \<Rightarrow> [] | Some as \<Rightarrow> as)"

definition task_card :: "approval \<Rightarrow> conversation_action view" where
  "task_card a = VEl (if ap_kind a = ''budget'' then ''BudgetApproval'' else ''GeneralApprovalCard'') [attr_text ''approval'' (ap_id a)]
     [(''onDone'', CardDone (ap_id a)), (''onError'', CardError (ap_id a))] []"

definition error_banner :: "task \<Rightarrow> conversation_action view" where
  "error_banner t =
     (let cancelled = (task_status t = ''cancelled'') in
      show_if (truthy_text (task_error t)) (VEl ''div'' [attr_text ''role'' (if cancelled then ''status'' else ''alert'')] []
        [icon (if cancelled then ''Pause'' else ''CircleAlert''),
         labelled ''strong'' (if cancelled then ''Task stopped'' else ''The task stopped with an error''),
         labelled ''p'' (the (task_error t)), button False (Supervise (task_id t)) ''Review task'']))"

definition wants_attention :: "task \<Rightarrow> bool" where
  "wants_attention t \<longleftrightarrow> task_status t \<in> {''recovery_confirmation_required'', ''paused''} \<or> (task_status t = ''awaiting_approval'' \<and> pending_approvals t = [])"

definition attention_banner :: "task \<Rightarrow> conversation_action view" where
  "attention_banner t =
     show_if (wants_attention t) (box ''div''
       [labelled ''span'' (if task_status t = ''recovery_confirmation_required'' then ''Recovery needs your confirmation.''
           else if task_status t = ''paused'' then ''This task is paused.'' else ''This task needs your approval.''),
        button False (Supervise (task_id t)) ''Review task''])"

definition message_content :: "string \<Rightarrow> task option \<Rightarrow> string" where
  "message_content text t =
     (case t of None \<Rightarrow> text | Some k \<Rightarrow> if text \<noteq> [] then text else task_response_text (task_result k) (task_events k))"

text \<open>\<open>Message\<close> and \<open>MessageContent\<close>.\<close>

definition message_shell :: "string \<Rightarrow> conversation_action view list \<Rightarrow> conversation_action view" where
  "message_shell from kids =
     VEl ''div'' [attr_text ''data-role'' from, attr_text ''className'' (if from = ''user'' then ''message message-user is-user'' else ''message message-assistant is-assistant'')] []
       [VEl ''div'' [attr_text ''className'' ''message-content''] [] kids]"

definition for_task :: "(task \<Rightarrow> conversation_action view) \<Rightarrow> task option \<Rightarrow> conversation_action view" where
  "for_task f t = (case t of None \<Rightarrow> VNone | Some k \<Rightarrow> f k)"

definition task_reports :: "task option \<Rightarrow> coordination_report option" where
  "task_reports t = (case t of None \<Rightarrow> None | Some k \<Rightarrow> task_report k)"

text \<open>\<open>run\<close> is the activity of the task's run, \<open>copied\<close> whether the answer was just copied.\<close>

definition conversation_message ::
    "(string \<Rightarrow> response_action view) \<Rightarrow> conversation_action view \<Rightarrow> bool \<Rightarrow> bool \<Rightarrow> string \<Rightarrow> task option \<Rightarrow> conversation_action view" where
  "conversation_message render run copied from_user text t =
     (let content = message_content text t; report = task_reports t in
      if from_user then message_shell ''user'' [labelled ''p'' text]
      else message_shell ''assistant''
        ([case report of None \<Rightarrow> VNone | Some r \<Rightarrow> report_banner r,
          show_if (t \<noteq> None \<and> report = None) run,
          if content \<noteq> [] then response_text render content else for_task response_loader t,
          for_task error_banner t,
          for_task attention_banner t] @
         map task_card (case t of None \<Rightarrow> [] | Some k \<Rightarrow> pending_approvals k) @
         [show_if (content \<noteq> [] \<or> t \<noteq> None) (box ''div''
            [show_if (content \<noteq> []) (button False CopyAnswer (if copied then ''Answer copied'' else ''Copy answer'')),
             show_if (t \<noteq> None \<and> report = None) (button False (Supervise (case t of None \<Rightarrow> [] | Some k \<Rightarrow> task_id k)) ''Inspect task'')])]))"

section \<open>Properties of a run's activity\<close>

inductive run_reachable :: "run_panel \<Rightarrow> bool" where
  run_mounted: "run_reachable (mount_run visible t)"
| run_rendered: "run_reachable p \<Longrightarrow> task_id t = task_id (rp_task p) \<Longrightarrow> run_reachable (run_render visible t p)"
| run_toggled: "run_reachable p \<Longrightarrow> run_reachable (toggle_run p)"
| run_retried: "run_reachable p \<Longrightarrow> run_reachable (retry_run p)"
| run_answered: "run_reachable p \<Longrightarrow> run_reachable (reading_answer n reply p)"

definition live_readings :: "run_panel \<Rightarrow> run_reading list" where
  "live_readings p = filter (\<lambda>r. \<not> rr_aborted r \<and> \<not> rr_settled r) (rp_readings p)"

text \<open>At most one reading is alive, it is for the task shown, and it was wanted; the history kept is the task's own.\<close>

definition run_inv :: "run_panel \<Rightarrow> bool" where
  "run_inv p \<longleftrightarrow> (\<forall>r \<in> set (rp_readings p). rr_task r = task_id (rp_task p)) \<and> length (live_readings p) \<le> 1
    \<and> (live_readings p \<noteq> [] \<longrightarrow> wants_history p) \<and> (\<forall>s. rp_saved p = Some s \<longrightarrow> task_id s = task_id (rp_task p))
    \<and> rp_key p = Some (run_key p)"

text \<open>What holds before the effect runs.\<close>

definition run_pre :: "run_panel \<Rightarrow> bool" where
  "run_pre p \<longleftrightarrow> (\<forall>r \<in> set (rp_readings p). rr_task r = task_id (rp_task p)) \<and> length (live_readings p) \<le> 1
    \<and> (rp_key p = Some (run_key p) \<longrightarrow> (live_readings p \<noteq> [] \<longrightarrow> wants_history p))
    \<and> (\<forall>s. rp_saved p = Some s \<longrightarrow> task_id s = task_id (rp_task p))"

lemma live_aborted: "live_readings (abort_readings p) = []"
  by (simp add: live_readings_def abort_readings_def filter_empty_conv)

lemma run_effect_inv:
  assumes "run_pre p"
  shows "run_inv (run_effect p)"
proof (cases "rp_key p = Some (run_key p)")
  case True
  then show ?thesis using assms by (simp add: run_effect_def run_pre_def run_inv_def)
next
  case False
  let ?a = "(abort_readings p)\<lparr>rp_key := Some (run_key p)\<rparr>"
  have fields: "rp_task ?a = rp_task p" "rp_saved ?a = rp_saved p" "rp_open ?a = rp_open p" "rp_visible ?a = rp_visible p" "rp_retry ?a = rp_retry p"
    "rp_key ?a = Some (run_key p)" by (simp_all add: abort_readings_def)
  have none: "filter (\<lambda>r. \<not> rr_aborted r \<and> \<not> rr_settled r) (rp_readings ?a) = []"
    using live_aborted [of p] by (simp add: live_readings_def)
  have tasks: "\<forall>r \<in> set (rp_readings ?a). rr_task r = task_id (rp_task p)"
    using assms by (auto simp: abort_readings_def run_pre_def)
  have saved: "\<forall>s. rp_saved p = Some s \<longrightarrow> task_id s = task_id (rp_task p)" using assms by (simp add: run_pre_def)
  show ?thesis
  proof (cases "wants_history p")
    case True
    let ?q = "?a\<lparr>rp_loading := True, rp_error := [],
       rp_readings := rp_readings ?a @ [\<lparr>rr_task = task_id (rp_task p), rr_aborted = False, rr_settled = False\<rparr>]\<rparr>"
    have e: "run_effect p = ?q" using False True by (simp add: run_effect_def Let_def)
    have f: "rp_task ?q = rp_task p" "rp_saved ?q = rp_saved p" "rp_key ?q = Some (run_key p)" "run_key ?q = run_key p" "wants_history ?q = wants_history p"
      using fields by (simp_all add: run_key_def wants_history_def)
    have "length (live_readings ?q) = 1" using none by (simp add: live_readings_def)
    moreover have "\<forall>r \<in> set (rp_readings ?q). rr_task r = task_id (rp_task p)" using tasks by simp
    ultimately show ?thesis using True saved unfolding e run_inv_def f by simp
  next
    case no: False
    have e: "run_effect p = ?a" using False no by (simp add: run_effect_def Let_def)
    have f: "run_key ?a = run_key p" using fields by (simp add: run_key_def)
    have "live_readings ?a = []" using none by (simp add: live_readings_def)
    then show ?thesis using tasks saved unfolding e run_inv_def f fields by simp
  qed
qed

lemma live_settled:
  assumes "reading_live n p" "length (live_readings p) \<le> 1"
  shows "live_readings (p\<lparr>rp_readings := (rp_readings p)[n := (rp_readings p ! n)\<lparr>rr_settled := True\<rparr>]\<rparr>) = []"
proof -
  let ?P = "\<lambda>r. \<not> rr_aborted r \<and> \<not> rr_settled r"
  have n: "n < length (rp_readings p)" "?P (rp_readings p ! n)" using assms(1) by (simp_all add: reading_live_def)
  have "length (filter ?P ((rp_readings p)[n := (rp_readings p ! n)\<lparr>rr_settled := True\<rparr>])) + 1 = length (filter ?P (rp_readings p))"
    using filter_update [OF n(1), of ?P "(rp_readings p ! n)\<lparr>rr_settled := True\<rparr>"] n(2) by simp
  then have "length (filter ?P ((rp_readings p)[n := (rp_readings p ! n)\<lparr>rr_settled := True\<rparr>])) = 0"
    using assms(2) unfolding live_readings_def by linarith
  then show ?thesis by (simp add: live_readings_def)
qed

lemma run_answer_inv:
  assumes "run_inv p"
  shows "run_inv (reading_answer n reply p)"
proof (cases "reading_live n p")
  case True
  let ?q = "p\<lparr>rp_loading := False, rp_readings := (rp_readings p)[n := (rp_readings p ! n)\<lparr>rr_settled := True\<rparr>]\<rparr>"
  have none: "live_readings ?q = []"
    using live_settled [OF True] assms by (simp add: run_inv_def live_readings_def)
  have n: "rr_task (rp_readings p ! n) = task_id (rp_task p)" using assms True by (simp add: run_inv_def reading_live_def)
  have tasks: "\<forall>r \<in> set (rp_readings ?q). rr_task r = task_id (rp_task p)"
    using assms n by (auto simp: run_inv_def dest!: subsetD [OF set_update_subset_insert])
  have "run_pre (case reply of Inr t \<Rightarrow> if task_id t = rr_task (rp_readings p ! n) then ?q\<lparr>rp_saved := Some t\<rparr> else ?q
      | Inl e \<Rightarrow> ?q\<lparr>rp_error := error_message e\<rparr>)"
    using none tasks assms n unfolding run_pre_def run_inv_def live_readings_def by (auto split: sum.split)
  then show ?thesis using True by (simp add: reading_answer_def Let_def run_effect_inv)
qed (use assms in \<open>simp add: reading_answer_def\<close>)

lemma run_reachable_inv: "run_reachable p \<Longrightarrow> run_inv p"
proof (induction rule: run_reachable.induct)
  case (run_mounted visible t)
  show ?case unfolding mount_run_def by (rule run_effect_inv) (simp add: run_pre_def live_readings_def)
next
  case (run_rendered p t visible)
  have "run_pre (p\<lparr>rp_visible := visible, rp_task := t, rp_saved := saved, rp_watched := watched_of t\<rparr>)"
    if "saved = None \<or> saved = rp_saved p" for saved
    using run_rendered that by (auto simp: run_inv_def run_pre_def live_readings_def run_key_def wants_history_def)
  then show ?case unfolding run_render_def Let_def by (intro run_effect_inv) simp
next
  case (run_toggled p)
  have "run_pre (p\<lparr>rp_open := \<not> rp_open p\<rparr>)"
    using run_toggled(2) by (auto simp: run_inv_def run_pre_def live_readings_def run_key_def)
  then show ?case unfolding toggle_run_def by (rule run_effect_inv)
next
  case (run_retried p)
  have "run_pre (p\<lparr>rp_retry := rp_retry p + 1\<rparr>)"
    using run_retried(2) by (auto simp: run_inv_def run_pre_def live_readings_def run_key_def)
  then show ?case unfolding retry_run_def by (rule run_effect_inv)
next
  case (run_answered p n reply)
  then show ?case by (simp add: run_answer_inv)
qed

text \<open>History is read only for an open, visible run that came without its events and was not read yet; never twice at
  once; and what is shown is the history of this very task.\<close>

theorem history_read_when_inspected:
  assumes "run_reachable p"
  shows "length (live_readings p) \<le> 1 \<and> (live_readings p \<noteq> [] \<longrightarrow> wants_history p)
    \<and> (\<forall>r \<in> set (live_readings p). rr_task r = task_id (rp_task p)) \<and> task_id (run_details p) = task_id (rp_task p)"
  using run_reachable_inv [OF assms] by (auto simp: run_inv_def live_readings_def run_details_def split: option.split)

definition finished_task :: "activity_event list option \<Rightarrow> string \<Rightarrow> task" where
  "finished_task es status = Task ''t1'' status ''build'' None None None None es None None None None None"

definition opened_run :: run_panel where
  "opened_run = toggle_run (mount_run True (finished_task None ''completed''))"

lemma opened_reachable: "run_reachable opened_run"
  unfolding opened_run_def by (intro run_reachable.intros)

theorem history_read_when_inspected_witness:
  "live_readings opened_run \<noteq> [] \<and> wants_history opened_run"
proof -
  have "live_readings opened_run \<noteq> []" by code_simp
  with history_read_when_inspected [OF opened_reachable] show ?thesis by blast
qed

text \<open>The answer of a reading that was left changes nothing, not even the notice that it is loading.\<close>

lemma left_reading_ignored: "\<not> reading_live n p \<Longrightarrow> reading_answer n reply p = p"
  by (simp add: reading_answer_def)

text \<open>So a run that starts again while its history is being read keeps that notice for good: no reading is
  alive any more, none is wanted, and the panel still says that activity is loading beside the live events.\<close>

theorem loading_left_on:
  "let p = run_render True (finished_task (Some []) ''running'') opened_run
   in run_reachable p \<and> rp_loading p \<and> live_readings p = [] \<and> \<not> wants_history p
      \<and> rp_loading (reading_answer 0 (Inr (finished_task None ''completed'')) p)"
proof -
  let ?p = "run_render True (finished_task (Some []) ''running'') opened_run"
  have "task_id (finished_task (Some []) ''running'') = task_id (rp_task opened_run)" by code_simp
  then have r: "run_reachable ?p" by (intro run_reachable.intros opened_reachable)
  have c: "rp_loading ?p \<and> live_readings ?p = [] \<and> \<not> wants_history ?p \<and> \<not> reading_live 0 ?p" by code_simp
  then have "reading_answer 0 (Inr (finished_task None ''completed'')) ?p = ?p" by (intro left_reading_ignored) blast
  then show ?thesis using r c unfolding Let_def by simp
qed

section \<open>What a message offers\<close>

lemma offers_plain [simp]: "offers (activity_status ph) = []" "offers (icon nm) = []"
  by (simp_all add: activity_status_def icon_def is_on_def)

lemma offers_on_tools: "set (offers (on_tools v)) \<subseteq> {ShowEarlierActions}"
  by (auto simp: on_tools_def)

lemma offers_response: "set (offers (response_text render t)) \<subseteq> range (\<lambda>(q, l). OpenFileAt q l)"
  by (auto simp: response_text_def opened_file_def image_iff split: response_action.splits)

lemma offers_trigger [simp]: "offers (VEl ''CollapsibleTrigger'' [] [(e, a)] ks) = a # concat (map offers ks)"
  by (simp add: is_on_def)

text \<open>The tasks an agent and the agents below it run as.\<close>

fun agent_tasks :: "agent_activity \<Rightarrow> string list" where
  "agent_tasks (Agent a ch) = (case ai_task_id a of None \<Rightarrow> [] | Some i \<Rightarrow> [i]) @ concat (map agent_tasks ch)"

text \<open>Reading and navigating, without a decision and without the reader's clipboard.\<close>

definition row_action :: "string set \<Rightarrow> conversation_action \<Rightarrow> bool" where
  "row_action ids a \<longleftrightarrow> (case a of Supervise i \<Rightarrow> i \<in> ids | CopyAnswer \<Rightarrow> False | CardDone _ \<Rightarrow> False | CardError _ \<Rightarrow> False | _ \<Rightarrow> True)"

lemma row_action_simps [simp]:
  "row_action ids (Supervise i) = (i \<in> ids)" "row_action ids (ToggleAgent q)" "row_action ids ToggleRun" "row_action ids RetryActivity"
  "row_action ids ShowEarlierActions" "row_action ids (OpenFileAt f l)" "\<not> row_action ids CopyAnswer" "\<not> row_action ids (CardDone i)" "\<not> row_action ids (CardError i)"
  by (simp_all add: row_action_def)

lemma row_action_mono: "row_action A a \<Longrightarrow> A \<subseteq> B \<Longrightarrow> row_action B a"
  by (cases a) auto

lemma row_tools: "x \<in> set (offers (on_tools v)) \<Longrightarrow> row_action ids x"
  using offers_on_tools by fastforce

lemma row_response: "x \<in> set (offers (response_text render t)) \<Longrightarrow> row_action ids x"
  using offers_response by fastforce

lemma agent_row_actions:
  "x \<in> set (offers (agent_row pretty render is_open shown root_task path depth agent)) \<Longrightarrow> row_action (insert root_task (set (agent_tasks agent))) x"
proof (induction pretty render is_open shown root_task path depth agent arbitrary: x rule: agent_row.induct)
  case (1 pretty render is_open shown root_task path depth agent)
  let ?a = "agent_info agent" and ?here = "path @ [ai_id (agent_info agent)]" and ?ids = "insert root_task (set (agent_tasks agent))"
  obtain a ch where agent: "agent = Agent a ch" by (cases agent)
  have nested: "row_action ?ids y"
    if "depth < 3" "c \<in> set (take 12 (agent_children agent))"
      "y \<in> set (offers (agent_row pretty render is_open shown root_task ?here (depth + 1) c))" for c y
  proof -
    have "row_action (insert root_task (set (agent_tasks c))) y"
      by (rule 1(1)) (use that in \<open>simp_all\<close>)
    moreover have "c \<in> set ch" using that(2) agent by (auto dest: in_set_takeD)
    then have "set (agent_tasks c) \<subseteq> set (agent_tasks agent)" by (auto simp: agent)
    ultimately show ?thesis using row_action_mono insert_mono by metis
  qed
  have own: "or_text (ai_task_id ?a) root_task \<in> ?ids" by (auto simp: agent or_text_def split: option.split)
  show ?case
    using 1(2) nested own row_tools row_response
    by (subst (asm) agent_row.simps) (auto simp: Let_def in_offers simp del: offer_rules split: if_splits)
qed

lemma run_activity_actions:
  assumes "x \<in> set (offers (run_activity pretty render is_open shown p))"
  shows "row_action (insert (task_id (rp_task p)) (\<Union>a \<in> set (run_agents p). set (agent_tasks a))) x"
proof -
  let ?ids = "insert (task_id (rp_task p)) (\<Union>a \<in> set (run_agents p). set (agent_tasks a))"
  have "row_action ?ids y" if "a \<in> set (take 24 (run_agents p))"
      "y \<in> set (offers (agent_row pretty render is_open shown (task_id (rp_task p)) [] 0 a))" for a y
    using agent_row_actions [OF that(2)] by (rule row_action_mono) (use in_set_takeD [OF that(1)] in blast)
  then show ?thesis
    using assms row_tools unfolding run_activity_def Let_def
    by (auto simp: in_offers simp del: offer_rules split: if_splits)
qed

text \<open>Whatever a run's activity shows, at any depth, it opens only tasks of this run and files; it decides nothing.\<close>

theorem run_opens_own_tasks:
  assumes "x \<in> set (offers (run_activity pretty render is_open shown p))"
  shows "row_action (insert (task_id (rp_task p)) (\<Union>a \<in> set (run_agents p). set (agent_tasks a))) x"
  using assms by (rule run_activity_actions)

theorem run_opens_own_tasks_witness:
  "row_action (insert ''t1'' (\<Union>a \<in> set (run_agents opened_run). set (agent_tasks a))) (Supervise ''t1'')"
proof -
  have "Supervise ''t1'' \<in> set (offers (run_activity (\<lambda>_. []) (\<lambda>_. VNone) (\<lambda>_. False) (\<lambda>_. 60) opened_run))" by code_simp
  from run_opens_own_tasks [OF this] have "row_action (insert (task_id (rp_task opened_run)) (\<Union>a \<in> set (run_agents opened_run). set (agent_tasks a))) (Supervise ''t1'')" .
  moreover have "task_id (rp_task opened_run) = ''t1''" by code_simp
  ultimately show ?thesis by simp
qed

lemma offers_message_shell [simp]: "offers (message_shell from kids) = concat (map offers kids)"
  by (simp add: message_shell_def is_on_def jget_def attr_text_def)

lemma offers_report_banner: "set (offers (report_banner r)) \<subseteq> range Supervise"
  by (auto simp: report_banner_def is_on_def jget_def attr_text_def)

lemma offers_error_banner: "set (offers (error_banner t)) \<subseteq> {Supervise (task_id t)}"
  by (auto simp: error_banner_def Let_def is_on_def jget_def attr_text_def in_offers simp del: offer_rules)

lemma offers_attention_banner: "set (offers (attention_banner t)) = (if wants_attention t then {Supervise (task_id t)} else {})"
  by (cases "wants_attention t") (simp_all add: attention_banner_def)

lemma offers_loader: "offers (response_loader t) = []"
  by (simp add: response_loader_def Let_def)

lemma offers_task_card: "offers (task_card a) = [CardDone (ap_id a), CardError (ap_id a)]"
  by (simp add: task_card_def is_on_def jget_def attr_text_def)

text \<open>C23. Every request that waits for a person has its card in the answer and nothing else has one: neither the run's
  activity nor the rendered text can bring up a decision of its own; and a task that waits without a request can always be reviewed.\<close>

theorem decisions_are_shown:
  "(CardDone x \<in> set (offers (conversation_message render (run_activity pretty render is_open shown p) copied False text (Some t)))
      \<longleftrightarrow> (\<exists>a \<in> set (pending_approvals t). ap_id a = x))
    \<and> (wants_attention t \<longrightarrow> Supervise (task_id t) \<in> set (offers (conversation_message render run copied False text (Some t))))"
proof -
  have run: "CardDone x \<notin> set (offers (run_activity pretty render is_open shown p))"
    using run_activity_actions [of "CardDone x" pretty render is_open shown p] by auto
  have answer_text: "CardDone x \<notin> set (offers (response_text render w))" for w using offers_response by fastforce
  have report: "CardDone x \<notin> set (offers (report_banner r))" for r using offers_report_banner by fastforce
  have error: "CardDone x \<notin> set (offers (error_banner t))" using offers_error_banner by fastforce
  have "CardDone x \<in> set (offers (conversation_message render (run_activity pretty render is_open shown p) copied False text (Some t)))
      \<longleftrightarrow> CardDone x \<in> (\<Union>a \<in> set (pending_approvals t). set (offers (task_card a)))"
    using run answer_text report error
    by (cases "task_report t") (simp_all add: conversation_message_def Let_def for_task_def task_reports_def offers_attention_banner offers_loader)
  then have "CardDone x \<in> set (offers (conversation_message render (run_activity pretty render is_open shown p) copied False text (Some t)))
      \<longleftrightarrow> (\<exists>a \<in> set (pending_approvals t). ap_id a = x)"
    by (auto simp: offers_task_card)
  moreover have "wants_attention t \<Longrightarrow> Supervise (task_id t) \<in> set (offers (conversation_message render run copied False text (Some t)))"
    by (simp add: conversation_message_def Let_def for_task_def offers_attention_banner)
  ultimately show ?thesis by blast
qed

definition waiting_answer :: task where
  "waiting_answer = Task ''t1'' ''awaiting_approval'' ''build'' None None None None None None (Some [sample_action]) None None None"

theorem decisions_are_shown_witness:
  "\<forall>render pretty is_open shown p copied.
     CardDone ''a1'' \<in> set (offers (conversation_message render (run_activity pretty render is_open shown p) copied False [] (Some waiting_answer)))"
proof (intro allI)
  fix render pretty is_open shown p copied
  have "\<exists>a \<in> set (pending_approvals waiting_answer). ap_id a = ''a1''" by code_simp
  then show "CardDone ''a1'' \<in> set (offers (conversation_message render (run_activity pretty render is_open shown p) copied False [] (Some waiting_answer)))"
    using decisions_are_shown [of "''a1''" render pretty is_open shown p copied "[]" waiting_answer] by blast
qed

end
