(* ===== verification/Docking.thy ===== *)
theory Docking
  imports WebStorage
begin

text \<open>
  \<open>lib/docking.ts\<close> and \<open>lib/layout-presets.ts\<close>: the panels of the workspace, the regions they
  are docked in, and the arrangements a user keeps on a device. A \<open>DockMap\<close> is a function from
  panels to regions. The length of the JSON text of a value is a parameter of what writes; the
  storage has room for what it is given.
\<close>

section \<open>Panels and regions\<close>

datatype dock_panel = EditorPanel | ConversationPanel | ReviewPanel | BrowserPanel | TerminalPanel | ComputerPanel | ArtifactsPanel

datatype dock_region = LeftRegion | MainRegion | SplitRegion | RightRegion | BottomRegion | HiddenRegion

definition panels :: "dock_panel list" where
  "panels = [EditorPanel, ConversationPanel, ReviewPanel, BrowserPanel, TerminalPanel, ComputerPanel, ArtifactsPanel]"

fun panel_name :: "dock_panel \<Rightarrow> string" where
  "panel_name EditorPanel = ''editor''"
| "panel_name ConversationPanel = ''conversation''"
| "panel_name ReviewPanel = ''review''"
| "panel_name BrowserPanel = ''browser''"
| "panel_name TerminalPanel = ''terminal''"
| "panel_name ComputerPanel = ''computer''"
| "panel_name ArtifactsPanel = ''artifacts''"

definition regions :: "(string \<times> dock_region) list" where
  "regions = [(''left'', LeftRegion), (''main'', MainRegion), (''split'', SplitRegion), (''right'', RightRegion),
     (''bottom'', BottomRegion), (''hidden'', HiddenRegion)]"

fun region_name :: "dock_region \<Rightarrow> string" where
  "region_name LeftRegion = ''left''"
| "region_name MainRegion = ''main''"
| "region_name SplitRegion = ''split''"
| "region_name RightRegion = ''right''"
| "region_name BottomRegion = ''bottom''"
| "region_name HiddenRegion = ''hidden''"

type_synonym dock_map = "dock_panel \<Rightarrow> dock_region"

record dock_geometry =
  dg_left :: rat
  dg_split :: rat
  dg_bottom :: rat

definition default_geometry :: dock_geometry where
  "default_geometry = \<lparr>dg_left = 220, dg_split = 420, dg_bottom = 260\<rparr>"

definition all_hidden :: dock_map where
  "all_hidden = (\<lambda>_. HiddenRegion)"

datatype layout_name = ChatLayout | WorkbenchLayout | BrowserLayout | ComputerLayout | ArtifactsLayout | ReviewLayout | TerminalLayout

definition persistent_layouts :: "(string \<times> layout_name) list" where
  "persistent_layouts = [(''chat'', ChatLayout), (''workbench'', WorkbenchLayout), (''browser'', BrowserLayout), (''computer'', ComputerLayout),
     (''artifacts'', ArtifactsLayout), (''review'', ReviewLayout), (''terminal'', TerminalLayout)]"

fun layout_text :: "layout_name \<Rightarrow> string" where
  "layout_text ChatLayout = ''chat''"
| "layout_text WorkbenchLayout = ''workbench''"
| "layout_text BrowserLayout = ''browser''"
| "layout_text ComputerLayout = ''computer''"
| "layout_text ArtifactsLayout = ''artifacts''"
| "layout_text ReviewLayout = ''review''"
| "layout_text TerminalLayout = ''terminal''"

fun layouts :: "layout_name \<Rightarrow> dock_map" where
  "layouts ChatLayout = all_hidden(ConversationPanel := MainRegion)"
| "layouts WorkbenchLayout = all_hidden(EditorPanel := MainRegion, ConversationPanel := RightRegion)"
| "layouts BrowserLayout = all_hidden(BrowserPanel := MainRegion, ConversationPanel := RightRegion)"
| "layouts ComputerLayout = all_hidden(ComputerPanel := MainRegion, ConversationPanel := RightRegion)"
| "layouts ArtifactsLayout = all_hidden(ArtifactsPanel := MainRegion, ConversationPanel := RightRegion)"
| "layouts ReviewLayout = all_hidden(ReviewPanel := MainRegion, ConversationPanel := RightRegion)"
| "layouts TerminalLayout = all_hidden(TerminalPanel := MainRegion, ConversationPanel := RightRegion)"

text \<open>A property of an unknown value (\<open>value?.key\<close>), and one read as a region.\<close>

fun prop_of :: "jsval \<Rightarrow> string \<Rightarrow> jsval" where
  "prop_of (JObj o') k = jget o' k"
| "prop_of _ k = JUndef"

definition region_of :: "jsval \<Rightarrow> dock_region option" where
  "region_of v = (case v of JStr s \<Rightarrow> map_of regions s | _ \<Rightarrow> None)"

definition panel_region :: "jsval \<Rightarrow> dock_panel \<Rightarrow> dock_region option" where
  "panel_region v p = region_of (prop_of v (panel_name p))"

text \<open>The three panels every map had from the first version must be there; a panel of a later
  version may be missing, and is hidden then. Two old arrangements are moved to the new panel.\<close>

definition validate_dock_map :: "jsval \<Rightarrow> string option \<Rightarrow> dock_map option" where
  "validate_dock_map v layout =
     (if \<not> is_record v then None
      else if \<not> (\<forall>p \<in> set [EditorPanel, ConversationPanel, BrowserPanel]. panel_region v p \<noteq> None) then None
      else if \<exists>p \<in> set [ComputerPanel, ArtifactsPanel, ReviewPanel, TerminalPanel].
                prop_of v (panel_name p) \<noteq> JUndef \<and> panel_region v p = None then None
      else
        (let restored = (\<lambda>p. case panel_region v p of None \<Rightarrow> HiddenRegion | Some r \<Rightarrow> r);
             moved = (if prop_of v ''computer'' = JUndef \<and> layout = Some ''computer''
               then restored(ComputerPanel := restored BrowserPanel, BrowserPanel := HiddenRegion) else restored)
         in Some (if prop_of v ''review'' = JUndef \<and> layout = Some ''review''
              then moved(ReviewPanel := MainRegion, EditorPanel := HiddenRegion, BrowserPanel := HiddenRegion) else moved)))"

definition focus_dock_map :: "dock_panel \<Rightarrow> dock_map" where
  "focus_dock_map p = all_hidden(p := MainRegion)"

fun panel_surface :: "dock_panel \<Rightarrow> string" where
  "panel_surface EditorPanel = ''workbench''"
| "panel_surface ConversationPanel = ''chat''"
| "panel_surface p = panel_name p"

definition workspace_surface :: "string \<Rightarrow> dock_map \<Rightarrow> string" where
  "workspace_surface layout dock =
     (if layout = ''focus''
      then panel_surface (case find (\<lambda>p. dock p = MainRegion) panels of None \<Rightarrow> EditorPanel | Some p \<Rightarrow> p)
      else if layout \<in> {''review'', ''terminal'', ''artifacts'', ''computer'', ''browser'', ''chat''} then layout else ''workbench'')"

record window_bounds =
  wb_x :: rat
  wb_y :: rat
  wb_width :: rat
  wb_height :: rat

definition restore_window_bounds :: "window_bounds \<Rightarrow> rat \<Rightarrow> rat \<Rightarrow> window_bounds" where
  "restore_window_bounds b screen_w screen_h =
     (let w = max 480 (min (wb_width b) screen_w); h = max 360 (min (wb_height b) screen_h)
      in \<lparr>wb_x = max 0 (min (wb_x b) (screen_w - w)), wb_y = max 0 (min (wb_y b) (screen_h - h)), wb_width = w, wb_height = h\<rparr>)"

section \<open>Snapshots\<close>

record layout_snap =
  ls_layout :: layout_name
  ls_dock :: dock_map
  ls_left :: bool
  ls_right :: bool
  ls_bottom :: bool
  ls_geometry :: dock_geometry
  ls_sidebar :: rat
  ls_right_width :: rat

definition dimension :: "jsval \<Rightarrow> rat \<Rightarrow> rat \<Rightarrow> rat \<Rightarrow> rat" where
  "dimension v fallback lo hi = (case v of JNum (Fin r) \<Rightarrow> max lo (min hi r) | _ \<Rightarrow> fallback)"

definition layout_of :: "jsval \<Rightarrow> layout_name option" where
  "layout_of v = (case v of JStr s \<Rightarrow> map_of persistent_layouts s | _ \<Rightarrow> None)"

definition layout_snapshot :: "jsval \<Rightarrow> layout_snap option" where
  "layout_snapshot v =
     (if \<not> is_record v then None
      else case layout_of (prop_of v ''layout'') of
        None \<Rightarrow> None
      | Some l \<Rightarrow>
          (case validate_dock_map (prop_of v ''dock'') (Some (layout_text l)) of
             None \<Rightarrow> None
           | Some dock \<Rightarrow>
               (let g = prop_of v ''dockGeometry'' in
                Some \<lparr>ls_layout = l, ls_dock = dock, ls_left = (prop_of v ''left'' \<noteq> JBool False), ls_right = (prop_of v ''right'' \<noteq> JBool False),
                  ls_bottom = (prop_of v ''bottom'' \<noteq> JBool False),
                  ls_geometry = \<lparr>dg_left = dimension (prop_of g ''left'') 220 180 800, dg_split = dimension (prop_of g ''split'') 420 180 800,
                    dg_bottom = dimension (prop_of g ''bottom'') 260 120 700\<rparr>,
                  ls_sidebar = dimension (prop_of v ''sidebarWidth'') 244 200 420, ls_right_width = dimension (prop_of v ''rightWidth'') 380 240 800\<rparr>)))"

definition default_layout :: "layout_name \<Rightarrow> layout_snap" where
  "default_layout l = \<lparr>ls_layout = l, ls_dock = layouts l, ls_left = (l \<noteq> WorkbenchLayout \<and> l \<noteq> ReviewLayout), ls_right = True, ls_bottom = True,
     ls_geometry = default_geometry, ls_sidebar = 244, ls_right_width = 380\<rparr>"

text \<open>The object of a snapshot. The layout is a text here: it may be the temporary \<open>focus\<close>.\<close>

definition num :: "rat \<Rightarrow> jsval" where
  "num r = JNum (Fin r)"

definition dock_value :: "dock_map \<Rightarrow> jsval" where
  "dock_value d = JObj (map (\<lambda>p. (panel_name p, JStr (region_name (d p)))) panels)"

definition snapshot_value :: "string \<Rightarrow> layout_snap \<Rightarrow> jsval" where
  "snapshot_value layout s = JObj [(''layout'', JStr layout), (''dock'', dock_value (ls_dock s)), (''left'', JBool (ls_left s)),
     (''right'', JBool (ls_right s)), (''bottom'', JBool (ls_bottom s)), (''sidebarWidth'', num (ls_sidebar s)), (''rightWidth'', num (ls_right_width s)),
     (''dockGeometry'', JObj [(''left'', num (dg_left (ls_geometry s))), (''split'', num (dg_split (ls_geometry s))), (''bottom'', num (dg_bottom (ls_geometry s)))])]"

definition snap_ok :: "layout_snap \<Rightarrow> bool" where
  "snap_ok s \<longleftrightarrow> 180 \<le> dg_left (ls_geometry s) \<and> dg_left (ls_geometry s) \<le> 800 \<and> 180 \<le> dg_split (ls_geometry s) \<and> dg_split (ls_geometry s) \<le> 800
     \<and> 120 \<le> dg_bottom (ls_geometry s) \<and> dg_bottom (ls_geometry s) \<le> 700 \<and> 200 \<le> ls_sidebar s \<and> ls_sidebar s \<le> 420
     \<and> 240 \<le> ls_right_width s \<and> ls_right_width s \<le> 800"

lemma region_of_name [simp]: "region_of (JStr (region_name r)) = Some r"
  by (cases r) (simp_all add: region_of_def regions_def)

lemma layout_of_text [simp]: "layout_of (JStr (layout_text l)) = Some l"
  by (cases l) (simp_all add: layout_of_def persistent_layouts_def)

lemma dock_value_prop [simp]: "prop_of (dock_value d) (panel_name p) = JStr (region_name (d p))"
  by (cases p) (simp_all add: dock_value_def panels_def jget_def)

lemma panel_region_value [simp]: "panel_region (dock_value d) p = Some (d p)"
  by (simp add: panel_region_def)

lemma validate_dock_value: "validate_dock_map (dock_value d) l = Some d"
proof -
  have "is_record (dock_value d)" by (simp add: dock_value_def)
  moreover have "prop_of (dock_value d) ''computer'' \<noteq> JUndef" "prop_of (dock_value d) ''review'' \<noteq> JUndef"
    using dock_value_prop [of d ComputerPanel] dock_value_prop [of d ReviewPanel] by (simp_all only: panel_name.simps jsval.distinct not_False_eq_True)
  ultimately show ?thesis
    by (simp add: validate_dock_map_def del: panel_name.simps)
qed

lemma dimension_bounds: "lo \<le> f \<Longrightarrow> f \<le> hi \<Longrightarrow> lo \<le> dimension v f lo hi \<and> dimension v f lo hi \<le> hi"
  by (auto simp: dimension_def split: jsval.split jsnum.split)

lemma layout_snapshot_ok:
  assumes "layout_snapshot v = Some s"
  shows "snap_ok s"
proof -
  from assms obtain l d where "s = \<lparr>ls_layout = l, ls_dock = d, ls_left = (prop_of v ''left'' \<noteq> JBool False), ls_right = (prop_of v ''right'' \<noteq> JBool False),
      ls_bottom = (prop_of v ''bottom'' \<noteq> JBool False),
      ls_geometry = \<lparr>dg_left = dimension (prop_of (prop_of v ''dockGeometry'') ''left'') 220 180 800,
        dg_split = dimension (prop_of (prop_of v ''dockGeometry'') ''split'') 420 180 800,
        dg_bottom = dimension (prop_of (prop_of v ''dockGeometry'') ''bottom'') 260 120 700\<rparr>,
      ls_sidebar = dimension (prop_of v ''sidebarWidth'') 244 200 420, ls_right_width = dimension (prop_of v ''rightWidth'') 380 240 800\<rparr>"
    by (auto simp: layout_snapshot_def Let_def split: if_splits option.splits)
  then show ?thesis by (simp add: snap_ok_def dimension_bounds)
qed

lemma default_layout_ok: "snap_ok (default_layout l)"
  by (simp add: snap_ok_def default_layout_def default_geometry_def)

lemma dimension_num: "lo \<le> r \<Longrightarrow> r \<le> hi \<Longrightarrow> dimension (num r) f lo hi = r"
  by (simp add: dimension_def num_def)

lemma layout_snapshot_value: "snap_ok s \<Longrightarrow> layout_snapshot (snapshot_value (layout_text (ls_layout s)) s) = Some s"
  by (simp add: layout_snapshot_def snapshot_value_def jget_def validate_dock_value snap_ok_def dimension_num Let_def)

section \<open>The store\<close>

record named_layout =
  nl_id :: string
  nl_name :: string
  nl_snapshot :: layout_snap
  nl_updated :: rat

record layout_book =
  bk_last :: "layout_name option"
  bk_arrangements :: "layout_name \<Rightarrow> layout_snap option"
  bk_named :: "named_layout list"

record preset_store =
  ps_owner :: string
  ps_device :: string

definition layout_key :: "preset_store \<Rightarrow> string" where
  "layout_key ps = ''termx-layout-presets-v1:'' @ json_strings [ps_owner ps, ps_device ps]"

text \<open>The name of this device: kept when it is one, made otherwise.\<close>

definition device_char :: "char \<Rightarrow> bool" where
  "device_char c \<longleftrightarrow> is_alpha c \<or> is_digit c \<or> c = CHR ''-''"

definition valid_device :: "string \<Rightarrow> bool" where
  "valid_device s \<longleftrightarrow> 8 \<le> length s \<and> length s \<le> 128 \<and> list_all device_char s"

definition layout_device :: "string \<Rightarrow> (string \<Rightarrow> string option) \<Rightarrow> string \<times> bool" where
  "layout_device uuid storage =
     (case storage ''termx-layout-device-v1'' of
        Some v \<Rightarrow> if v \<noteq> [] \<and> valid_device v then (v, False) else (uuid, True)
      | None \<Rightarrow> (uuid, True))"

definition empty_book :: layout_book where
  "empty_book = \<lparr>bk_last = None, bk_arrangements = (\<lambda>_. None), bk_named = []\<rparr>"

definition read_arrangement :: "jsval \<Rightarrow> layout_name \<Rightarrow> layout_snap option" where
  "read_arrangement row l =
     (case layout_snapshot (prop_of (prop_of row ''arrangements'') (layout_text l)) of
        None \<Rightarrow> None
      | Some s \<Rightarrow> if ls_layout s = l then Some s else None)"

text \<open>One element of \<open>named\<close>: dropped unless all of it is well formed and its id is new.\<close>

definition read_named :: "jsval \<Rightarrow> named_layout list \<Rightarrow> named_layout list" where
  "read_named item saved =
     (case (layout_snapshot (prop_of item ''snapshot''), prop_of item ''id'', prop_of item ''name'', prop_of item ''updated'') of
        (Some s, JStr i, JStr n, JNum (Fin t)) \<Rightarrow>
          if length i \<le> 128 \<and> trim n \<noteq> [] \<and> length n \<le> 80 \<and> i \<notin> nl_id ` set saved
          then saved @ [\<lparr>nl_id = i, nl_name = n, nl_snapshot = s, nl_updated = t\<rparr>] else saved
      | _ \<Rightarrow> saved)"

text \<open>A missing element (\<open>null\<close>) raises; the handler keeps what was read before it.\<close>

fun read_all_named :: "jsval list \<Rightarrow> named_layout list \<Rightarrow> named_layout list" where
  "read_all_named [] saved = saved"
| "read_all_named (v # vs) saved = (if nullish v then saved else read_all_named vs (read_named v saved))"

definition js_items :: "jsval \<Rightarrow> jsval list" where
  "js_items v = (case v of JArr vs \<Rightarrow> vs | _ \<Rightarrow> [])"

definition read_book :: "preset_store \<Rightarrow> web_storage \<Rightarrow> layout_book" where
  "read_book ps st =
     (case get_item st (layout_key ps) of
        None \<Rightarrow> empty_book
      | Some raw \<Rightarrow>
          (case st_value raw of
             Garbage \<Rightarrow> empty_book
           | Parsed row \<Rightarrow>
               if st_length raw = 0 \<or> st_length raw > 256000 \<or> prop_of row ''version'' \<noteq> js_int 1
                  \<or> prop_of row ''owner'' \<noteq> JStr (ps_owner ps) \<or> prop_of row ''device'' \<noteq> JStr (ps_device ps) then empty_book
               else \<lparr>bk_last = layout_of (prop_of row ''last''), bk_arrangements = read_arrangement row,
                      bk_named = read_all_named (take 30 (js_items (prop_of row ''named''))) []\<rparr>))"

definition all_layouts :: "layout_name list" where
  "all_layouts = map snd persistent_layouts"

definition named_value :: "named_layout \<Rightarrow> jsval" where
  "named_value n = JObj [(''id'', JStr (nl_id n)), (''name'', JStr (nl_name n)),
     (''snapshot'', snapshot_value (layout_text (ls_layout (nl_snapshot n))) (nl_snapshot n)), (''updated'', num (nl_updated n))]"

definition arrangements_value :: "(layout_name \<Rightarrow> layout_snap option) \<Rightarrow> jsval" where
  "arrangements_value f = JObj (List.map_filter (\<lambda>l. map_option (\<lambda>s. (layout_text l, snapshot_value (layout_text (ls_layout s)) s)) (f l)) all_layouts)"

definition book_value :: "preset_store \<Rightarrow> layout_book \<Rightarrow> jsval" where
  "book_value ps b = JObj [(''version'', js_int 1), (''owner'', JStr (ps_owner ps)), (''device'', JStr (ps_device ps)),
     (''last'', case bk_last b of None \<Rightarrow> JNull | Some l \<Rightarrow> JStr (layout_text l)), (''arrangements'', arrangements_value (bk_arrangements b)),
     (''named'', JArr (map named_value (bk_named b)))]"

definition write_book :: "(jsval \<Rightarrow> nat) \<Rightarrow> preset_store \<Rightarrow> layout_book \<Rightarrow> web_storage \<Rightarrow> web_storage" where
  "write_book text_length ps b st =
     (let v = book_value ps b in set_item (layout_key ps) \<lparr>st_length = text_length v, st_value = Parsed v\<rparr> st)"

text \<open>\<open>remember\<close>, \<open>arrangement\<close>, \<open>save\<close>, \<open>remove\<close> and \<open>reset\<close>. The value a caller passes is an unknown
  value: it may be the temporary Focus layout, which is not a snapshot.\<close>

definition remember_layout :: "(jsval \<Rightarrow> nat) \<Rightarrow> preset_store \<Rightarrow> jsval \<Rightarrow> web_storage \<Rightarrow> web_storage" where
  "remember_layout jlen ps v st =
     (case layout_snapshot v of
        None \<Rightarrow> st
      | Some s \<Rightarrow> (let b = read_book ps st in
          write_book jlen ps (b\<lparr>bk_arrangements := (bk_arrangements b)(ls_layout s := Some s), bk_last := Some (ls_layout s)\<rparr>) st))"

definition arrangement :: "preset_store \<Rightarrow> layout_name \<Rightarrow> web_storage \<Rightarrow> layout_snap" where
  "arrangement ps l st = (case bk_arrangements (read_book ps st) l of None \<Rightarrow> default_layout l | Some s \<Rightarrow> s)"

definition control_char :: "char \<Rightarrow> bool" where
  "control_char c \<longleftrightarrow> (let n = of_char c :: nat in n < 32 \<or> n = 127)"

definition name_error :: js_error where
  "name_error = JsError (''Name the current layout with 1'' @ [CHR 0x96] @ ''80 characters outside temporary Focus mode.'')"

definition save_layout ::
  "(jsval \<Rightarrow> nat) \<Rightarrow> string \<Rightarrow> rat \<Rightarrow> preset_store \<Rightarrow> string \<Rightarrow> jsval \<Rightarrow> web_storage \<Rightarrow> js_error + named_layout \<times> web_storage" where
  "save_layout jlen uuid now ps name v st =
     (let n = trim name in
      case layout_snapshot v of
        None \<Rightarrow> Inl name_error
      | Some s \<Rightarrow>
          if n = [] \<or> length n > 80 \<or> list_ex control_char n then Inl name_error
          else
            (let b = read_book ps st; old = find (\<lambda>x. nl_name x = n) (bk_named b) in
             if old = None \<and> length (bk_named b) \<ge> 30
             then Inl (JsError ''Remove a saved layout before adding another; maximum 30.'')
             else (let item = \<lparr>nl_id = (case old of None \<Rightarrow> uuid | Some x \<Rightarrow> nl_id x), nl_name = n, nl_snapshot = s, nl_updated = now\<rparr>
                   in Inr (item, write_book jlen ps (b\<lparr>bk_named := filter (\<lambda>x. nl_id x \<noteq> nl_id item) (bk_named b) @ [item]\<rparr>) st))))"

definition remove_layout :: "(jsval \<Rightarrow> nat) \<Rightarrow> preset_store \<Rightarrow> string \<Rightarrow> web_storage \<Rightarrow> web_storage" where
  "remove_layout jlen ps i st = (let b = read_book ps st in write_book jlen ps (b\<lparr>bk_named := filter (\<lambda>x. nl_id x \<noteq> i) (bk_named b)\<rparr>) st)"

definition reset_layout :: "(jsval \<Rightarrow> nat) \<Rightarrow> preset_store \<Rightarrow> layout_name \<Rightarrow> web_storage \<Rightarrow> layout_snap \<times> web_storage" where
  "reset_layout jlen ps l st =
     (let b = read_book ps st in
      (default_layout l, write_book jlen ps (b\<lparr>bk_arrangements := (bk_arrangements b)(l := Some (default_layout l))\<rparr>) st))"

section \<open>What the store keeps\<close>

definition named_ok :: "named_layout \<Rightarrow> bool" where
  "named_ok n \<longleftrightarrow> snap_ok (nl_snapshot n) \<and> length (nl_id n) \<le> 128 \<and> trim (nl_name n) \<noteq> [] \<and> length (nl_name n) \<le> 80"

definition book_ok :: "layout_book \<Rightarrow> bool" where
  "book_ok b \<longleftrightarrow> (\<forall>n \<in> set (bk_named b). named_ok n) \<and> distinct (map nl_id (bk_named b)) \<and> length (bk_named b) \<le> 30
     \<and> (\<forall>l s. bk_arrangements b l = Some s \<longrightarrow> snap_ok s \<and> ls_layout s = l)"

lemma read_named_grows: "\<exists>ns. read_named v saved = saved @ ns \<and> length ns \<le> 1"
  by (auto simp: read_named_def split: option.split jsval.split jsnum.split)

lemma read_named_ok:
  assumes "\<forall>n \<in> set saved. named_ok n" "distinct (map nl_id saved)"
  shows "(\<forall>n \<in> set (read_named v saved). named_ok n) \<and> distinct (map nl_id (read_named v saved))"
  using assms layout_snapshot_ok by (auto simp: read_named_def named_ok_def split: option.split jsval.split jsnum.split)

lemma read_all_named_ok:
  "\<forall>n \<in> set saved. named_ok n \<Longrightarrow> distinct (map nl_id saved) \<Longrightarrow>
    (\<forall>n \<in> set (read_all_named vs saved). named_ok n) \<and> distinct (map nl_id (read_all_named vs saved))
    \<and> length (read_all_named vs saved) \<le> length saved + length vs"
proof (induction vs arbitrary: saved)
  case (Cons v vs)
  obtain ns where ns: "read_named v saved = saved @ ns" "length ns \<le> 1"
    using read_named_grows by blast
  have "length (read_all_named vs (read_named v saved)) \<le> length (read_named v saved) + length vs"
    using Cons.IH read_named_ok [OF Cons.prems] by blast
  with ns have "length (read_all_named vs (read_named v saved)) \<le> length saved + length (v # vs)" by simp
  then show ?case using Cons.IH [of "read_named v saved"] read_named_ok [OF Cons.prems] Cons.prems by simp
qed simp

lemma read_book_ok: "book_ok (read_book ps st)"
proof -
  have "book_ok empty_book" by (simp add: book_ok_def empty_book_def)
  moreover have "read_arrangement row l = Some s \<Longrightarrow> snap_ok s \<and> ls_layout s = l" for row l s
    by (auto simp: read_arrangement_def layout_snapshot_ok split: option.splits if_splits)
  moreover have "length (read_all_named (take 30 vs) []) \<le> 30" for vs
    using read_all_named_ok [of "[]" "take 30 vs"] by simp
  ultimately show ?thesis
    using read_all_named_ok [of "[]"]
    by (auto simp: read_book_def book_ok_def Let_def simp del: take_Suc split: option.split stored_value.split)
qed

lemma read_named_value:
  "named_ok n \<Longrightarrow> nl_id n \<notin> nl_id ` set saved \<Longrightarrow> read_named (named_value n) saved = saved @ [n]"
  by (simp add: read_named_def named_value_def jget_def layout_snapshot_value named_ok_def num_def)

lemma read_all_named_value:
  "\<forall>n \<in> set ns. named_ok n \<Longrightarrow> distinct (map nl_id (saved @ ns)) \<Longrightarrow> read_all_named (map named_value ns) saved = saved @ ns"
proof (induction ns arbitrary: saved)
  case (Cons n ns)
  have "\<not> nullish (named_value n)" by (simp add: named_value_def)
  then show ?case using Cons.IH [of "saved @ [n]"] Cons.prems by (simp add: read_named_value)
qed simp

lemma layout_text_inj: "layout_text k = layout_text l \<longleftrightarrow> k = l"
  using layout_of_text by (metis option.inject)

lemma map_of_optional:
  assumes "\<And>k l. g k = g l \<longleftrightarrow> k = l"
  shows "map_of (List.map_filter (\<lambda>l. map_option (\<lambda>s. (g l, h s)) (f l)) ls) (g l) = (if l \<in> set ls then map_option h (f l) else None)"
  by (induction ls) (auto simp: map_filter_simps assms split: option.split)

lemma arrangements_prop:
  "prop_of (arrangements_value f) (layout_text l) =
     (case f l of None \<Rightarrow> JUndef | Some s \<Rightarrow> snapshot_value (layout_text (ls_layout s)) s)"
proof -
  have "l \<in> set all_layouts" by (cases l) (simp_all add: all_layouts_def persistent_layouts_def)
  then show ?thesis
    using map_of_optional [of layout_text "\<lambda>s. snapshot_value (layout_text (ls_layout s)) s" f all_layouts l, OF layout_text_inj]
    by (simp add: arrangements_value_def jget_def split: option.split)
qed

lemma read_arrangement_value:
  assumes "\<forall>l s. f l = Some s \<longrightarrow> snap_ok s \<and> ls_layout s = l" "prop_of row ''arrangements'' = arrangements_value f"
  shows "read_arrangement row = f"
proof
  fix l
  have "layout_snapshot JUndef = None" by (simp add: layout_snapshot_def)
  then show "read_arrangement row l = f l"
  proof (cases "f l")
    case (Some s)
    then have "snap_ok s" "ls_layout s = l" using assms(1) by auto
    then show ?thesis
      using Some assms(2) layout_snapshot_value [of s] by (simp add: read_arrangement_def arrangements_prop)
  qed (use assms(2) in \<open>simp add: read_arrangement_def arrangements_prop\<close>)
qed

lemma read_write_book:
  assumes "book_ok b" "0 < jlen (book_value ps b)" "jlen (book_value ps b) \<le> 256000"
  shows "read_book ps (write_book jlen ps b st) = b"
proof -
  have "read_arrangement (book_value ps b) = bk_arrangements b"
    using assms(1) by (intro read_arrangement_value) (simp_all add: book_ok_def book_value_def jget_def)
  moreover have "read_all_named (take 30 (map named_value (bk_named b))) [] = bk_named b"
    using assms(1) read_all_named_value [of "bk_named b" "[]"] by (simp add: book_ok_def)
  moreover have "layout_of (case bk_last b of None \<Rightarrow> JNull | Some l \<Rightarrow> JStr (layout_text l)) = bk_last b"
    by (cases "bk_last b") (simp_all, simp add: layout_of_def)
  ultimately show ?thesis
    using assms(2,3) by (simp add: read_book_def write_book_def Let_def book_value_def jget_def js_items_def)
qed

text \<open>A name saved twice keeps its id and its one entry.\<close>

lemma saved_book_ok:
  assumes "save_layout jlen uuid now ps name v st = Inr (item, st')" "length uuid \<le> 128"
  shows "book_ok ((read_book ps st)\<lparr>bk_named := filter (\<lambda>x. nl_id x \<noteq> nl_id item) (bk_named (read_book ps st)) @ [item]\<rparr>)"
proof -
  let ?b = "read_book ps st"
  let ?rest = "filter (\<lambda>x. nl_id x \<noteq> nl_id item) (bk_named ?b)"
  obtain s where s: "layout_snapshot v = Some s" "trim name \<noteq> []" "length (trim name) \<le> 80"
    "nl_name item = trim name" "nl_snapshot item = s"
    "nl_id item = (case find (\<lambda>x. nl_name x = trim name) (bk_named ?b) of None \<Rightarrow> uuid | Some x \<Rightarrow> nl_id x)"
    "find (\<lambda>x. nl_name x = trim name) (bk_named ?b) = None \<longrightarrow> length (bk_named ?b) < 30"
    using assms(1) by (auto simp: save_layout_def Let_def split: option.splits if_splits)
  have b: "book_ok ?b" by (rule read_book_ok)
  have "length (nl_id item) \<le> 128 \<and> length ?rest < 30"
  proof (cases "find (\<lambda>x. nl_name x = trim name) (bk_named ?b)")
    case None
    then show ?thesis using s assms(2) le_less_trans [OF length_filter_le] by simp
  next
    case (Some x)
    then have x: "x \<in> set (bk_named ?b)" "nl_id item = nl_id x" using s(6) find_SomeD [OF Some] by simp_all
    then have "length ?rest < length (bk_named ?b)" by (intro length_filter_less) auto
    then show ?thesis using x b by (auto simp: book_ok_def named_ok_def)
  qed
  then show ?thesis
    using b s layout_snapshot_ok [OF s(1)] by (auto simp: book_ok_def named_ok_def distinct_map_filter)
qed

text \<open>Saving a layout and reading the store back, in this window or a later one, gives the saved
  layout under its name, every other layout as it was, and never more than 30 of them.\<close>

theorem saved_layout_read_back:
  assumes "save_layout jlen uuid now ps name v st = Inr (item, st')"
    and "length uuid \<le> 128" and "\<forall>x. 0 < jlen x \<and> jlen x \<le> 256000"
  shows "layout_snapshot v = Some (nl_snapshot item) \<and> nl_name item = trim name
    \<and> bk_named (read_book ps st') = filter (\<lambda>x. nl_id x \<noteq> nl_id item) (bk_named (read_book ps st)) @ [item]
    \<and> bk_arrangements (read_book ps st') = bk_arrangements (read_book ps st)
    \<and> length (bk_named (read_book ps st')) \<le> 30"
proof -
  let ?b = "(read_book ps st)\<lparr>bk_named := filter (\<lambda>x. nl_id x \<noteq> nl_id item) (bk_named (read_book ps st)) @ [item]\<rparr>"
  have w: "st' = write_book jlen ps ?b st" "layout_snapshot v = Some (nl_snapshot item)" "nl_name item = trim name"
    using assms(1) by (auto simp: save_layout_def Let_def split: option.splits if_splits)
  have ok: "book_ok ?b" using saved_book_ok [OF assms(1,2)] .
  have "read_book ps st' = ?b"
    unfolding w(1) using read_write_book [OF ok] assms(3) by blast
  then show ?thesis using w(2,3) ok by (simp add: book_ok_def)
qed

text \<open>What a snapshot is read from is what it is written as: every value the store can hold or is
  given becomes a snapshot whose widths are within their bounds and whose text reads back as itself.\<close>

theorem layout_snapshot_normal:
  assumes "layout_snapshot v = Some s"
  shows "snap_ok s \<and> layout_snapshot (snapshot_value (layout_text (ls_layout s)) s) = Some s"
  using layout_snapshot_ok [OF assms] layout_snapshot_value by blast

lemma layout_key_apart: "layout_key a = layout_key b \<longleftrightarrow> a = b"
  by (cases a, cases b) (auto simp: layout_key_def json_strings_inj)

interpretation preset_owners: owner_store layout_key read_book "\<lambda>ps (jlen, f) st. write_book jlen ps (f (read_book ps st)) st"
  by unfold_locales (auto simp: layout_key_apart read_book_def write_book_def Let_def)

text \<open>Another account, or the same account on another device, never sees any of it.\<close>

theorem layouts_apart:
  assumes "save_layout jlen uuid now ps name v st = Inr (item, st')" "other \<noteq> ps"
  shows "read_book other st' = read_book other st"
proof -
  have "st' = write_book jlen ps ((\<lambda>b. b\<lparr>bk_named := filter (\<lambda>x. nl_id x \<noteq> nl_id item) (bk_named b) @ [item]\<rparr>) (read_book ps st)) st"
    using assms(1) by (auto simp: save_layout_def Let_def split: option.splits if_splits)
  then show ?thesis
    using preset_owners.save_other_owner [of ps other "(jlen, \<lambda>b. b\<lparr>bk_named := filter (\<lambda>x. nl_id x \<noteq> nl_id item) (bk_named b) @ [item]\<rparr>)" st] assms(2)
    by simp
qed

definition sample_presets :: "string \<Rightarrow> preset_store" where
  "sample_presets ow = \<lparr>ps_owner = ow, ps_device = ''device-1''\<rparr>"

definition sample_layout :: jsval where
  "sample_layout = snapshot_value ''chat'' (default_layout ChatLayout)"

lemma sample_saved:
  "\<exists>item st'. save_layout (\<lambda>_. 900) ''u1'' 7 (sample_presets ''ana'') '' day '' sample_layout [] = Inr (item, st')"
proof -
  have "layout_snapshot sample_layout = Some (default_layout ChatLayout)"
    using layout_snapshot_value [OF default_layout_ok, of ChatLayout] by (simp add: sample_layout_def default_layout_def)
  moreover have "trim '' day '' = ''day''" "\<not> list_ex control_char ''day''" by code_simp+
  ultimately show ?thesis by (simp add: save_layout_def read_book_def get_item_def empty_book_def Let_def)
qed

theorem saved_layout_read_back_witness:
  "\<exists>item st'. save_layout (\<lambda>_. 900) ''u1'' 7 (sample_presets ''ana'') '' day '' sample_layout [] = Inr (item, st')
    \<and> map nl_name (bk_named (read_book (sample_presets ''ana'') st')) = [''day'']"
proof -
  obtain item st' where i: "save_layout (\<lambda>_. 900) ''u1'' 7 (sample_presets ''ana'') '' day '' sample_layout [] = Inr (item, st')"
    using sample_saved by blast
  have t: "trim '' day '' = ''day''" by code_simp
  have "bk_named (read_book (sample_presets ''ana'') []) = []"
    by (simp add: read_book_def get_item_def empty_book_def)
  then have "map nl_name (bk_named (read_book (sample_presets ''ana'') st')) = [''day'']"
    using saved_layout_read_back [OF i] t by simp
  with i show ?thesis by (intro exI [of _ item] exI [of _ st'] conjI)
qed

theorem layouts_apart_witness:
  "\<exists>item st'. save_layout (\<lambda>_. 900) ''u1'' 7 (sample_presets ''ana'') '' day '' sample_layout [] = Inr (item, st')
    \<and> bk_named (read_book (sample_presets ''bo'') st') = []"
proof -
  obtain item st' where i: "save_layout (\<lambda>_. 900) ''u1'' 7 (sample_presets ''ana'') '' day '' sample_layout [] = Inr (item, st')"
    using sample_saved by blast
  then show ?thesis
    using layouts_apart [OF i, of "sample_presets ''bo''"] by (simp add: sample_presets_def read_book_def get_item_def empty_book_def)
qed

theorem layout_snapshot_normal_witness:
  "\<exists>s. layout_snapshot (JObj [(''layout'', JStr ''chat''), (''dock'', dock_value all_hidden), (''sidebarWidth'', num 9000)]) = Some s \<and> ls_sidebar s = 420 \<and> snap_ok s"
proof -
  have "layout_snapshot (JObj [(''layout'', JStr ''chat''), (''dock'', dock_value all_hidden), (''sidebarWidth'', num 9000)]) =
    Some (default_layout ChatLayout\<lparr>ls_dock := all_hidden, ls_sidebar := 420\<rparr>)"
    using layout_of_text [of ChatLayout]
    by (simp add: layout_snapshot_def jget_def validate_dock_value dimension_def num_def default_layout_def default_geometry_def)
  from layout_snapshot_normal [OF this] this show ?thesis by simp
qed

end
