(* ===== verification/ForkContext.thy ===== *)
theory ForkContext
  imports OneAtATime View ApiTypes
begin

text \<open>
  \<open>features/ForkContextDialog.tsx\<close>: continuing a conversation with another engine. The context to transfer is chosen, the host
  previews it, and the fork is created from that preview. A lock of the workspace starts a new epoch and drops the preview.
  The dialog is keyed by its conversation and engine; other fields of the conversation may change while it is open.
\<close>

section \<open>State\<close>

record fork_preview =
  fv_id :: string
  fv_digest :: string
  fv_transfer :: jsval

record fork_body =
  fb_engine :: string
  fb_turns :: "string list"
  fb_paths :: "string list"
  fb_summary :: string

datatype fork_work = ReviewWork fork_body | CommitWork string string "string option"

datatype fork_reply = Previewed fork_preview | ForkCreated string

record fork_op =
  fo_epoch :: nat
  fo_work :: fork_work
  fo_reply :: "fork_reply js_result option"

record fork_dialog =
  fk_alive :: bool
  fk_session :: session
  fk_engine :: string
  fk_chosen :: "string list"
  fk_files :: string
  fk_summary :: string
  fk_preview :: "fork_preview option"
  fk_busy :: bool
  fk_locked :: bool
  fk_epoch :: nat
  fk_flight :: bool
  fk_ops :: "fork_op list"
  fk_created :: "string list"
  fk_errors :: "js_error list"

definition turns_of :: "session \<Rightarrow> turn list" where
  "turns_of s = (case ses_turns s of None \<Rightarrow> [] | Some ts \<Rightarrow> ts)"

definition open_fork :: "session \<Rightarrow> string \<Rightarrow> fork_dialog" where
  "open_fork s engine = \<lparr>fk_alive = True, fk_session = s, fk_engine = engine, fk_chosen = map turn_id (turns_of s), fk_files = [], fk_summary = [],
     fk_preview = None, fk_busy = False, fk_locked = False, fk_epoch = 0, fk_flight = False, fk_ops = [], fk_created = [], fk_errors = []\<rparr>"

definition fork_paths :: "fork_dialog \<Rightarrow> string list" where
  "fork_paths d = first_seen (filter (\<lambda>p. p \<noteq> []) (map trim (split_on (CHR 0x0A) (fk_files d))))"

definition body_of :: "fork_dialog \<Rightarrow> fork_body" where
  "body_of d = \<lparr>fb_engine = fk_engine d, fb_turns = fk_chosen d, fb_paths = fork_paths d, fb_summary = fk_summary d\<rparr>"

definition body_valid :: "fork_body \<Rightarrow> bool" where
  "body_valid b \<longleftrightarrow> int (length (fb_paths b)) \<le> 20 \<and> int (length (fb_summary b)) \<le> 64000 \<and> int (length (fb_turns b)) \<le> 10000"

section \<open>Operations\<close>

definition begin_fork :: "fork_work \<Rightarrow> fork_dialog \<Rightarrow> fork_dialog" where
  "begin_fork w d = d\<lparr>fk_flight := True, fk_busy := True, fk_ops := fk_ops d @ [\<lparr>fo_epoch = fk_epoch d, fo_work = w, fo_reply = None\<rparr>]\<rparr>"

definition review_fork :: "fork_dialog \<Rightarrow> fork_dialog" where
  "review_fork d = (if fk_flight d \<or> fk_locked d \<or> \<not> body_valid (body_of d) then d else begin_fork (ReviewWork (body_of d)) d)"

definition commit_fork :: "fork_dialog \<Rightarrow> fork_dialog" where
  "commit_fork d =
     (case fk_preview d of
        None \<Rightarrow> d
      | Some p \<Rightarrow> if fk_flight d \<or> fk_locked d then d else begin_fork (CommitWork (fv_id p) (fv_digest p) (ses_provider_id (fk_session d))) d)"

definition fork_answered :: "nat \<Rightarrow> fork_reply js_result \<Rightarrow> fork_dialog \<Rightarrow> fork_dialog" where
  "fork_answered n r d =
     (let f = fk_ops d ! n; d' = d\<lparr>fk_ops := (fk_ops d)[n := f\<lparr>fo_reply := Some r\<rparr>]\<rparr> in
      if fo_epoch f \<noteq> fk_epoch d then d'
      else (case r of
              Inl e \<Rightarrow> d'\<lparr>fk_errors := fk_errors d @ [e]\<rparr>
            | Inr (Previewed p) \<Rightarrow> d'\<lparr>fk_preview := Some p\<rparr>
            | Inr (ForkCreated k) \<Rightarrow> d'\<lparr>fk_created := fk_created d @ [k]\<rparr>)\<lparr>fk_flight := False, fk_busy := False\<rparr>)"

definition lock_fork :: "fork_dialog \<Rightarrow> fork_dialog" where
  "lock_fork d = d\<lparr>fk_epoch := Suc (fk_epoch d), fk_flight := False, fk_busy := False, fk_locked := True, fk_preview := None\<rparr>"

definition unlock_fork :: "fork_dialog \<Rightarrow> fork_dialog" where
  "unlock_fork d = d\<lparr>fk_locked := False\<rparr>"

definition unmount_fork :: "fork_dialog \<Rightarrow> fork_dialog" where
  "unmount_fork d = d\<lparr>fk_alive := False, fk_epoch := Suc (fk_epoch d)\<rparr>"

section \<open>What it shows\<close>

datatype fork_click = TickTurn string bool | TypeFiles string | TypeSummary string | EarlierTurns | PreviewFork | EditFork | CommitFork | CloseFork

definition fork_click_step :: "fork_click \<Rightarrow> fork_dialog \<Rightarrow> fork_dialog" where
  "fork_click_step a d =
     (case a of
        TickTurn k on \<Rightarrow> d\<lparr>fk_chosen := (if on then fk_chosen d @ [k] else filter (\<lambda>x. x \<noteq> k) (fk_chosen d))\<rparr>
      | TypeFiles v \<Rightarrow> d\<lparr>fk_files := v\<rparr>
      | TypeSummary v \<Rightarrow> d\<lparr>fk_summary := v\<rparr>
      | PreviewFork \<Rightarrow> review_fork d
      | EditFork \<Rightarrow> d\<lparr>fk_preview := None\<rparr>
      | CommitFork \<Rightarrow> commit_fork d
      | EarlierTurns \<Rightarrow> d
      | CloseFork \<Rightarrow> d)"

definition turn_row :: "fork_dialog \<Rightarrow> turn \<Rightarrow> fork_click view" where
  "turn_row d t =
     (let on = (turn_id t \<in> set (fk_chosen d)) in
      checkbox False on (TickTurn (turn_id t) (\<not> on))
        ((if take 160 (turn_prompt t) = [] then ''Empty message'' else take 160 (turn_prompt t))
         @ (if truthy_text (Option.bind (turn_task t) task_result) then [CHR '' '', CHR 0xB7] @ '' includes reply'' else [])))"

definition fork_text :: "string \<Rightarrow> int \<Rightarrow> bool \<Rightarrow> string \<Rightarrow> fork_click \<Rightarrow> fork_click view" where
  "fork_text label n disabled v a = box ''label''
     [VText label, VEl ''textarea'' [(''maxLength'', js_int n), attr_flag ''disabled'' disabled, attr_text ''value'' v] [(''onChange'', a)] []]"

definition fork_form :: "string \<Rightarrow> fork_dialog \<Rightarrow> fork_click view list" where
  "fork_form typed d =
     [VEl ''fieldset'' [attr_flag ''disabled'' (fk_busy d \<or> fk_locked d)] []
        [box ''div'' (map (turn_row d) (turns_of (fk_session d))),
         show_if (ses_has_earlier (fk_session d)) (button False EarlierTurns ''Load earlier messages to choose''),
         fork_text ''Project files to transfer'' 20000 (\<not> truthy_text (ses_cwd (fk_session d))) (fk_files d) (TypeFiles typed),
         labelled ''p'' ''Up to 20 UTF-8 files, each at most 256 KB. The host checks project permissions and excludes credentials.'',
         fork_text ''Transfer summary'' 64000 False (fk_summary d) (TypeSummary typed)],
      show_if (\<not> body_valid (body_of d)) (labelled ''p'' ''Choose at most 20 files and 10,000 messages.''),
      button (fk_busy d \<or> fk_locked d \<or> \<not> body_valid (body_of d)) PreviewFork ''Preview transferred context'']"

definition fork_view :: "(jsval \<Rightarrow> string) \<Rightarrow> string \<Rightarrow> fork_dialog \<Rightarrow> fork_click view" where
  "fork_view pretty typed d = VEl ''dialog'' [] [(''onOpenChange'', CloseFork)]
     (labelled ''h2'' (''Continue with '' @ fk_engine d)
      # labelled ''p'' ''Choose messages, project files and a summary, then review the exact context before creating a linked conversation. Native session state and hidden memory do not transfer.''
      # (case fk_preview d of
           Some p \<Rightarrow> [labelled ''pre'' (pretty (fv_transfer p)), button (fk_busy d \<or> fk_locked d) EditFork ''Edit transferred context'',
             button (fk_busy d \<or> fk_locked d) CommitFork ''Create linked fork'']
         | None \<Rightarrow> fork_form typed d))"

section \<open>Steps\<close>

fun reply_fits :: "fork_work \<Rightarrow> fork_reply js_result \<Rightarrow> bool" where
  "reply_fits w (Inl _) = True"
| "reply_fits (ReviewWork b) (Inr (Previewed _)) = True"
| "reply_fits (CommitWork k g p) (Inr (ForkCreated _)) = True"
| "reply_fits w (Inr _) = False"

inductive fork_moves :: "fork_dialog \<Rightarrow> fork_dialog \<Rightarrow> bool" where
  fm_clicked: "fk_alive d \<Longrightarrow> a \<in> set (offers (fork_view pretty typed d)) \<Longrightarrow> fork_moves d (fork_click_step a d)"
| fm_answered: "n < length (fk_ops d) \<Longrightarrow> fo_reply (fk_ops d ! n) = None \<Longrightarrow> reply_fits (fo_work (fk_ops d ! n)) r \<Longrightarrow> fork_moves d (fork_answered n r d)"
| fm_render: "fk_alive d \<Longrightarrow> ses_id s = ses_id (fk_session d) \<Longrightarrow> fork_moves d (d\<lparr>fk_session := s\<rparr>)"
| fm_locked: "fk_alive d \<Longrightarrow> fork_moves d (lock_fork d)"
| fm_unlocked: "fk_alive d \<Longrightarrow> fork_moves d (unlock_fork d)"
| fm_unmounted: "fk_alive d \<Longrightarrow> fork_moves d (unmount_fork d)"

definition fork_opened :: "fork_dialog \<Rightarrow> bool" where
  "fork_opened d \<longleftrightarrow> (\<exists>s engine. d = open_fork s engine)"

section \<open>One operation at a time\<close>

definition fork_ledger :: "fork_dialog \<Rightarrow> op_ledger" where
  "fork_ledger d = (fk_epoch d, map (\<lambda>f. (fo_epoch f, fo_reply f \<noteq> None)) (fk_ops d), fk_flight d \<and> fk_alive d)"

definition open_op :: "fork_dialog \<Rightarrow> fork_op \<Rightarrow> bool" where
  "open_op d f \<longleftrightarrow> f \<in> set (fk_ops d) \<and> fo_epoch f = fk_epoch d \<and> fo_reply f = None"

text \<open>A review that is awaited was asked for the form as it stands, and a preview answers such a review.\<close>

definition review_of_form :: "fork_dialog \<Rightarrow> fork_op \<Rightarrow> bool" where
  "review_of_form d f \<longleftrightarrow> f \<in> set (fk_ops d) \<and> fo_work f = ReviewWork (body_of d) \<and> body_valid (body_of d)"

definition reviews_ok :: "fork_dialog \<Rightarrow> bool" where
  "reviews_ok d \<longleftrightarrow> (\<forall>f b. open_op d f \<longrightarrow> fo_work f = ReviewWork b \<longrightarrow> review_of_form d f)
     \<and> (\<forall>p. fk_preview d = Some p \<longrightarrow> (\<exists>f. review_of_form d f \<and> fo_reply f = Some (Inr (Previewed p))))"

definition fork_ok :: "fork_dialog \<Rightarrow> bool" where
  "fork_ok d \<longleftrightarrow> (fk_alive d \<longrightarrow> fk_busy d = fk_flight d \<and> reviews_ok d) \<and> ledger_ok (fork_ledger d)"

lemma idle_nothing_open:
  assumes "fork_ok d" "fk_alive d" "\<not> fk_busy d" shows "\<not> open_op d f"
proof
  assume f: "open_op d f"
  have "\<not> (fk_flight d \<and> fk_alive d)" using assms by (simp add: fork_ok_def)
  moreover have "ledger_ok (fk_epoch d, map (\<lambda>f. (fo_epoch f, fo_reply f \<noteq> None)) (fk_ops d), fk_flight d \<and> fk_alive d)"
    using assms by (simp add: fork_ok_def fork_ledger_def)
  ultimately have "(fk_epoch d, False) \<notin> set (map (\<lambda>f. (fo_epoch f, fo_reply f \<noteq> None)) (fk_ops d))" using ledger_open_iff by blast
  then show False using f by (force simp: open_op_def)
qed

lemma opened_ok: "fork_opened d \<Longrightarrow> fork_ok d \<and> (\<exists>g. fork_ledger d = (g, [], False))"
  by (auto simp: fork_opened_def open_fork_def fork_ok_def fork_ledger_def reviews_ok_def open_op_def)

lemma begin_change: "\<not> fk_flight d \<Longrightarrow> fk_alive d \<Longrightarrow> op_change (fork_ledger d) (fork_ledger (begin_fork w d))"
  using op_begun by (simp add: fork_ledger_def begin_fork_def)

lemma click_change: "fk_alive d \<Longrightarrow> op_change (fork_ledger d) (fork_ledger (fork_click_step a d))"
  using op_idle begin_change
  by (cases a) (auto simp: fork_click_step_def review_fork_def commit_fork_def split: option.split, auto simp: fork_ledger_def)

lemma answer_change:
  assumes "n < length (fk_ops d)" "fo_reply (fk_ops d ! n) = None"
  shows "op_change (fork_ledger d) (fork_ledger (fork_answered n r d))"
proof -
  have "op_change (fork_ledger d) (fk_epoch d, (map (\<lambda>f. (fo_epoch f, fo_reply f \<noteq> None)) (fk_ops d))[n := (fo_epoch (fk_ops d ! n), True)],
      fo_epoch (fk_ops d ! n) \<noteq> fk_epoch d \<and> fk_flight d \<and> fk_alive d)"
    unfolding fork_ledger_def using assms by (intro op_settled) auto
  moreover have "fork_ledger (fork_answered n r d) = (fk_epoch d, (map (\<lambda>f. (fo_epoch f, fo_reply f \<noteq> None)) (fk_ops d))[n := (fo_epoch (fk_ops d ! n), True)],
      fo_epoch (fk_ops d ! n) \<noteq> fk_epoch d \<and> fk_flight d \<and> fk_alive d)"
    by (auto simp: fork_ledger_def fork_answered_def Let_def map_update split: sum.split fork_reply.split)
  ultimately show ?thesis by simp
qed

lemma moves_change: assumes "fork_moves d e" shows "op_change (fork_ledger d) (fork_ledger e)"
  using assms
proof cases
  case fm_locked
  then show ?thesis using op_renewed [of "fk_epoch d" "Suc (fk_epoch d)"] by (simp add: fork_ledger_def lock_fork_def)
next
  case fm_unmounted
  then show ?thesis using op_renewed [of "fk_epoch d" "Suc (fk_epoch d)"] by (simp add: fork_ledger_def unmount_fork_def)
next
  case (fm_clicked a pretty typed)
  then show ?thesis using click_change by simp
next
  case (fm_answered n r)
  then show ?thesis using answer_change by simp
qed (use op_idle in \<open>simp_all add: fork_ledger_def unlock_fork_def\<close>)

section \<open>A preview answers the form\<close>

lemma reviews_frame:
  "body_of e = body_of d \<Longrightarrow> fk_ops e = fk_ops d \<Longrightarrow> fk_epoch e = fk_epoch d \<Longrightarrow> fk_preview e = fk_preview d \<Longrightarrow> reviews_ok e = reviews_ok d"
  by (simp add: reviews_ok_def review_of_form_def open_op_def)

lemma begin_body [simp]: "body_of (begin_fork w d) = body_of d" "fk_preview (begin_fork w d) = fk_preview d"
  by (simp_all add: begin_fork_def body_of_def fork_paths_def)

lemma begin_open: "open_op (begin_fork w d) f \<longleftrightarrow> open_op d f \<or> f = \<lparr>fo_epoch = fk_epoch d, fo_work = w, fo_reply = None\<rparr>"
  by (auto simp: open_op_def begin_fork_def)

lemma begin_review:
  "review_of_form (begin_fork w d) f \<longleftrightarrow> review_of_form d f
     \<or> f = \<lparr>fo_epoch = fk_epoch d, fo_work = w, fo_reply = None\<rparr> \<and> w = ReviewWork (body_of d) \<and> body_valid (body_of d)"
  unfolding review_of_form_def begin_body by (auto simp: begin_fork_def)

lemma reviews_begun:
  assumes "reviews_ok d" "\<And>b. w = ReviewWork b \<Longrightarrow> b = body_of d \<and> body_valid b" shows "reviews_ok (begin_fork w d)"
  using assms unfolding reviews_ok_def begin_open begin_review begin_body by (metis fork_op.select_convs(2))

lemma reviews_empty: "(\<And>f. \<not> open_op d f) \<Longrightarrow> fk_preview d = None \<Longrightarrow> reviews_ok d"
  by (simp add: reviews_ok_def)

lemma reviews_still_empty:
  "(\<And>f. \<not> open_op d f) \<Longrightarrow> fk_ops e = fk_ops d \<Longrightarrow> fk_epoch e = fk_epoch d \<Longrightarrow> fk_preview e = None \<Longrightarrow> reviews_ok e"
  by (rule reviews_empty) (simp_all add: open_op_def)

lemma form_offered:
  assumes "a \<in> set (offers (fork_view pretty typed d))"
  shows "a \<in> {EarlierTurns, CloseFork} \<or> \<not> fk_busy d \<and> \<not> fk_locked d \<and> (fk_preview d = None \<longleftrightarrow> a \<notin> {EditFork, CommitFork})"
  using assms by (auto simp: fork_view_def fork_form_def fork_text_def turn_row_def in_offers is_on_def jget_def attr_flag_def Let_def simp del: offer_rules
      split: option.splits if_splits)

lemma click_reviews:
  assumes "fork_ok d" "fk_alive d" "a \<in> set (offers (fork_view pretty typed d))"
  shows "reviews_ok (fork_click_step a d)"
proof -
  have ok: "reviews_ok d" using assms by (simp add: fork_ok_def)
  have idle: "\<not> open_op d f" if "a \<notin> {EarlierTurns, CloseFork}" for f
    using idle_nothing_open [OF assms(1,2)] form_offered [OF assms(3)] that by blast
  have none: "fk_preview d = None" if "a \<notin> {EarlierTurns, CloseFork, EditFork, CommitFork}" using form_offered [OF assms(3)] that by blast
  show ?thesis
  proof (cases a)
    case PreviewFork
    then show ?thesis using ok reviews_begun by (auto simp: fork_click_step_def review_fork_def)
  next
    case CommitFork
    then show ?thesis using ok reviews_begun by (auto simp: fork_click_step_def commit_fork_def split: option.split)
  next
    case EarlierTurns
    then show ?thesis using ok by (simp add: fork_click_step_def)
  next
    case CloseFork
    then show ?thesis using ok by (simp add: fork_click_step_def)
  qed (rule reviews_still_empty [of d], use idle none in \<open>simp_all add: fork_click_step_def\<close>)+
qed

lemma answered_fields [simp]:
  "fk_ops (fork_answered n r d) = (fk_ops d)[n := (fk_ops d ! n)\<lparr>fo_reply := Some r\<rparr>]" "body_of (fork_answered n r d) = body_of d"
  "fk_epoch (fork_answered n r d) = fk_epoch d" "fk_alive (fork_answered n r d) = fk_alive d"
  "fk_preview (fork_answered n r d) =
     (case r of Inr (Previewed p) \<Rightarrow> if fo_epoch (fk_ops d ! n) = fk_epoch d then Some p else fk_preview d | _ \<Rightarrow> fk_preview d)"
  by (auto simp: fork_answered_def body_of_def fork_paths_def Let_def split: sum.split fork_reply.split)

lemma answer_reviews:
  assumes "reviews_ok d" "n < length (fk_ops d)" "fo_reply (fk_ops d ! n) = None" "reply_fits (fo_work (fk_ops d ! n)) r"
  shows "reviews_ok (fork_answered n r d)"
proof -
  let ?e = "fork_answered n r d" and ?f = "(fk_ops d ! n)\<lparr>fo_reply := Some r\<rparr>"
  have here: "?f \<in> set (fk_ops ?e)" using set_update_memI [OF assms(2)] by simp
  have "review_of_form ?e g" if "open_op ?e g" "fo_work g = ReviewWork b" for g b
  proof -
    have "g \<noteq> ?f" "g \<in> set (fk_ops ?e)" using that by (auto simp: open_op_def)
    then have "g \<in> set (fk_ops d)" using set_update_subset_insert [of "fk_ops d" n ?f] by auto
    then have "review_of_form d g" using assms(1) that by (auto simp: reviews_ok_def open_op_def)
    then show ?thesis using \<open>g \<in> set (fk_ops ?e)\<close> by (simp add: review_of_form_def)
  qed
  moreover have "\<exists>g. review_of_form ?e g \<and> fo_reply g = Some (Inr (Previewed p))" if p: "fk_preview ?e = Some p" for p
  proof (cases "r = Inr (Previewed p) \<and> fo_epoch (fk_ops d ! n) = fk_epoch d")
    case True
    then obtain b where b: "fo_work (fk_ops d ! n) = ReviewWork b" using assms(4) by (cases "fo_work (fk_ops d ! n)") auto
    then have "review_of_form d (fk_ops d ! n)" using assms(1-3) True by (auto simp: reviews_ok_def open_op_def)
    then have "review_of_form ?e ?f" using here by (simp add: review_of_form_def)
    then show ?thesis using True by auto
  next
    case False
    then have "fk_preview d = Some p" using p by (auto split: sum.splits fork_reply.splits if_splits)
    then obtain g where g: "review_of_form d g" "fo_reply g = Some (Inr (Previewed p))" using assms(1) by (auto simp: reviews_ok_def)
    then obtain k where k: "k < length (fk_ops d)" "fk_ops d ! k = g" by (auto simp: review_of_form_def in_set_conv_nth)
    then have "k \<noteq> n" using g assms(3) by auto
    then have "fk_ops ?e ! k = g" "k < length (fk_ops ?e)" using k by simp_all
    then have "g \<in> set (fk_ops ?e)" using nth_mem by metis
    then show ?thesis using g by (auto simp: review_of_form_def)
  qed
  ultimately show ?thesis by (simp add: reviews_ok_def)
qed

lemma moves_ok: assumes "fork_moves d e" "fork_ok d" shows "fork_ok e"
proof -
  have l: "ledger_ok (fork_ledger e)" using op_change_ok [OF moves_change [OF assms(1)]] assms(2) by (simp add: fork_ok_def)
  have "fk_alive e \<longrightarrow> fk_busy e = fk_flight e \<and> reviews_ok e" using assms(1)
  proof cases
    case (fm_clicked a pretty typed)
    have "fk_busy d = fk_flight d" using assms(2) fm_clicked(2) by (simp add: fork_ok_def)
    then have "fk_busy (fork_click_step a d) = fk_flight (fork_click_step a d)"
      by (auto simp: fork_click_step_def review_fork_def commit_fork_def begin_fork_def split: fork_click.split option.split)
    then show ?thesis using click_reviews [OF assms(2) fm_clicked(2,3)] fm_clicked(1) by simp
  next
    case (fm_answered n r)
    then show ?thesis using assms(2) answer_reviews
      by (auto simp: fork_ok_def) (auto simp: fork_answered_def Let_def split: sum.splits fork_reply.splits if_splits)
  next
    case fm_locked
    have "\<not> open_op (lock_fork d) f" for f
      using assms(2) by (auto simp: fork_ok_def fork_ledger_def open_op_def lock_fork_def)
    then show ?thesis using fm_locked(1) reviews_empty [of "lock_fork d"] by (simp add: lock_fork_def)
  next
    case (fm_render s)
    then show ?thesis using assms(2) by (auto simp: fork_ok_def body_of_def fork_paths_def intro: reviews_frame [THEN iffD2])
  next
    case fm_unlocked
    then show ?thesis using assms(2) by (auto simp: fork_ok_def unlock_fork_def body_of_def fork_paths_def intro: reviews_frame [THEN iffD2])
  next
    case fm_unmounted
    then show ?thesis by (simp add: unmount_fork_def)
  qed
  then show ?thesis using l by (simp add: fork_ok_def)
qed

interpretation forks: one_at_a_time fork_opened fork_moves fork_ok fork_ledger
  by unfold_locales (simp_all add: opened_ok moves_ok moves_change)

text \<open>C21. A fork is created only from the preview that is shown, and that preview answers a review of exactly the turns, files and summary in the form,
  which are within their bounds; the workspace is unlocked and nothing else is awaited.\<close>

theorem fork_commits_what_was_reviewed:
  assumes "reached fork_opened fork_moves d" "fork_moves d e" "length (fk_ops d) < length (fk_ops e)" "fo_work (last (fk_ops e)) = CommitWork k g provider"
  shows "\<exists>p f. fk_preview d = Some p \<and> k = fv_id p \<and> g = fv_digest p \<and> provider = ses_provider_id (fk_session d)
    \<and> f \<in> set (fk_ops d) \<and> fo_work f = ReviewWork (body_of d) \<and> fo_reply f = Some (Inr (Previewed p))
    \<and> body_valid (body_of d) \<and> \<not> fk_locked d \<and> filter (open_op d) (fk_ops d) = []"
proof -
  have ok: "fork_ok d" by (rule forks.reached_holds [OF assms(1)])
  obtain a pretty typed where a: "fk_alive d" "a \<in> set (offers (fork_view pretty typed d))" "e = fork_click_step a d"
    using assms(2,3) by cases (auto simp: lock_fork_def unlock_fork_def unmount_fork_def)
  have commit: "\<exists>p. fk_preview d = Some p \<and> \<not> fk_flight d \<and> \<not> fk_locked d \<and> k = fv_id p \<and> g = fv_digest p \<and> provider = ses_provider_id (fk_session d)"
    using assms(3,4) a(3) by (cases a) (auto simp: fork_click_step_def review_fork_def commit_fork_def begin_fork_def split: option.splits if_splits)
  then obtain p where p: "fk_preview d = Some p" "\<not> fk_flight d" by blast
  then obtain f where "review_of_form d f" "fo_reply f = Some (Inr (Previewed p))" using ok a(1) by (auto simp: fork_ok_def reviews_ok_def)
  moreover have "\<not> open_op d h" for h using idle_nothing_open [OF ok a(1)] ok p(2) a(1) by (simp add: fork_ok_def)
  ultimately show ?thesis using commit p by (auto simp: review_of_form_def filter_empty_conv)
qed

section \<open>A run\<close>

definition fork_source :: session where
  "fork_source = \<lparr>ses_id = ''c'', ses_title = ''T'', ses_project_id = None, ses_cwd = Some ''/w'', ses_engine = ''internal'', ses_provider_id = Some ''p'',
     ses_model = None, ses_mode = ''chat'', ses_draft_text = [], ses_draft_context = None, ses_revision = 1,
     ses_turns = Some [\<lparr>turn_id = ''t1'', turn_prompt = ''hi'', turn_task_id = None, turn_task = None, turn_seq = 1\<rparr>], ses_scroll = 0,
     ses_has_earlier = False, ses_runner_id = None, ses_worktree_id = None, ses_reasoning = []\<rparr>"

definition sample_fork_preview :: fork_preview where
  "sample_fork_preview = \<lparr>fv_id = ''v'', fv_digest = ''d'', fv_transfer = JNull\<rparr>"

definition fork_asked :: fork_dialog where
  "fork_asked = fork_click_step PreviewFork (fork_click_step (TypeFiles ''a.txt'') (open_fork fork_source ''claude''))"

definition fork_reviewed :: fork_dialog where
  "fork_reviewed = fork_answered 0 (Inr (Previewed sample_fork_preview)) fork_asked"

theorem fork_commits_what_was_reviewed_witness:
  "map fo_work (fk_ops (fork_click_step CommitFork fork_reviewed)) = [ReviewWork (body_of fork_reviewed), CommitWork ''v'' ''d'' (Some ''p'')]
   \<and> body_valid (body_of fork_reviewed)"
proof -
  let ?c = "fork_click_step (TypeFiles ''a.txt'') (open_fork fork_source ''claude'')" and ?e = "fork_click_step CommitFork fork_reviewed"
  have 0: "reached fork_opened fork_moves (open_fork fork_source ''claude'')" by (rule reached_opened) (auto simp: fork_opened_def)
  have "fk_alive (open_fork fork_source ''claude'')" "TypeFiles ''a.txt'' \<in> set (offers (fork_view (\<lambda>_. []) ''a.txt'' (open_fork fork_source ''claude'')))"
    by code_simp+
  then have 1: "reached fork_opened fork_moves ?c" by (rule reached_moved [OF 0 fm_clicked])
  have "fk_alive ?c" "PreviewFork \<in> set (offers (fork_view (\<lambda>_. []) [] ?c))" by code_simp+
  then have 2: "reached fork_opened fork_moves fork_asked" unfolding fork_asked_def by (rule reached_moved [OF 1 fm_clicked])
  have "0 < length (fk_ops fork_asked)" "fo_reply (fk_ops fork_asked ! 0) = None"
    "reply_fits (fo_work (fk_ops fork_asked ! 0)) (Inr (Previewed sample_fork_preview))" by code_simp+
  then have 3: "reached fork_opened fork_moves fork_reviewed" unfolding fork_reviewed_def by (rule reached_moved [OF 2 fm_answered])
  have "fk_alive fork_reviewed" "CommitFork \<in> set (offers (fork_view (\<lambda>_. []) [] fork_reviewed))" by code_simp+
  then have move: "fork_moves fork_reviewed ?e" by (rule fm_clicked)
  have "length (fk_ops fork_reviewed) < length (fk_ops ?e)" "fo_work (last (fk_ops ?e)) = CommitWork ''v'' ''d'' (Some ''p'')"
    and works: "map fo_work (fk_ops ?e) = [fo_work (hd (fk_ops fork_reviewed)), CommitWork ''v'' ''d'' (Some ''p'')]"
    "length (fk_ops fork_reviewed) = 1" by code_simp+
  from fork_commits_what_was_reviewed [OF 3 move this(1,2)] obtain f where
    "f \<in> set (fk_ops fork_reviewed)" "fo_work f = ReviewWork (body_of fork_reviewed)" "body_valid (body_of fork_reviewed)" by blast
  then show ?thesis using works by (cases "fk_ops fork_reviewed") auto
qed

end
