(* ===== verification/HookSettings.thy ===== *)
theory HookSettings
  imports View ApiClient
begin

text \<open>
  \<open>features/HookSettings.tsx\<close>: lifecycle hooks. The hook API has no idempotency key, so the
  panel never repeats a write whose outcome is unknown: a receipt for each account blocks another
  creation, an entry for each hook blocks another change, until a fresh inventory of the host
  settles it. Attempts are numbered; a signature (the text of an object with its capabilities
  sorted and without repetitions) is a record with the set of the capabilities. The reads before a
  write are one step, and so are the reads of an inventory after the account is known: nothing is
  stored between them.
\<close>

section \<open>Data\<close>

record hook_project =
  hp_id :: string
  hp_name :: string
  hp_path :: string

record hook_actor =
  ha_id :: string
  ha_scopes :: "string list"
  ha_policy :: "int option"
  ha_session :: "string option"

record access_grant =
  gr_project :: string
  gr_scopes :: "string list"
  gr_expires :: "rat option"

record hook_access =
  hc_role :: "string option"
  hc_grants :: "access_grant list"

record hook =
  hk_id :: string
  hk_project :: string
  hk_revision :: int
  hk_event :: string
  hk_argv :: "string list"
  hk_cwd :: string
  hk_timeout :: int
  hk_capabilities :: "string list"
  hk_enabled :: bool

record hook_run =
  hr_id :: string
  hr_project :: string
  hr_event :: string
  hr_created :: rat
  hr_exit :: "int option"
  hr_timed_out :: bool
  hr_error :: "string option"
  hr_output :: "string option"

record create_body =
  cb_project :: string
  cb_event :: string
  cb_argv :: "string list"
  cb_cwd :: string
  cb_timeout :: int
  cb_capabilities :: "string list"
  cb_enabled :: bool

record hook_signature =
  sg_project :: string
  sg_event :: string
  sg_argv :: "string list"
  sg_cwd :: string
  sg_timeout :: int
  sg_capabilities :: "string set"
  sg_enabled :: bool

record hook_catalog =
  ct_actor :: hook_actor
  ct_access :: hook_access
  ct_projects :: "hook_project list"
  ct_hooks :: "hook list"
  ct_runs :: "hook_run list"
  ct_available :: "string list"
  ct_unavailable :: "string list"
  ct_shown :: nat

datatype write_state = WritePending | WriteUncertain | WriteSaved

record create_receipt =
  re_attempt :: nat
  re_body :: create_body
  re_before :: "string set"
  re_state :: write_state
  re_id :: "string option"

datatype op_kind = OpEnable | OpDisable | OpRemove

record hook_operation =
  ho_uncertain :: bool
  ho_kind :: op_kind
  ho_revision :: int
  ho_enabled :: bool

datatype hook_action = CreateHook create_body hook_project | ChangeHook op_kind hook hook_project

definition page_size :: nat where
  "page_size = 20"

definition hook_events :: "(string \<times> string) list" where
  "hook_events = [(''before_turn'', ''Before a turn''), (''after_turn'', ''After a successful turn''), (''task_failed'', ''After a failed turn'')]"

definition signature :: "create_body \<Rightarrow> hook_signature" where
  "signature b = \<lparr>sg_project = cb_project b, sg_event = cb_event b, sg_argv = cb_argv b, sg_cwd = cb_cwd b,
     sg_timeout = cb_timeout b, sg_capabilities = {''files-read'', ''files-write''} \<union> set (cb_capabilities b), sg_enabled = cb_enabled b\<rparr>"

definition command_body :: "hook \<Rightarrow> create_body" where
  "command_body h = \<lparr>cb_project = hk_project h, cb_event = hk_event h, cb_argv = hk_argv h, cb_cwd = hk_cwd h,
     cb_timeout = hk_timeout h, cb_capabilities = hk_capabilities h, cb_enabled = hk_enabled h\<rparr>"

text \<open>Without a status, or with one of the server, nobody knows what the host did.\<close>

fun uncertain_error :: "js_error \<Rightarrow> bool" where
  "uncertain_error (JsError _) = True"
| "uncertain_error (ApiError (JNum (Fin r)) _) = (r = 0 \<or> r \<ge> 500 \<or> r = 408)"
| "uncertain_error (ApiError v _) = (\<not> truthy v \<or> v = JNum PosInf)"

definition hook_allowed :: "rat \<Rightarrow> hook_actor \<Rightarrow> hook_access \<Rightarrow> string \<Rightarrow> string list \<Rightarrow> bool" where
  "hook_allowed now actor access project scopes =
     (let grant = find (\<lambda>g. gr_project g = project \<and> (case gr_expires g of None \<Rightarrow> True | Some e \<Rightarrow> e > now)) (hc_grants access)
      in \<forall>scope \<in> set scopes. scope \<in> set (ha_scopes actor) \<and>
           (or_text (hc_role access) [] \<in> {''owner'', ''admin''} \<or> (case grant of None \<Rightarrow> False | Some g \<Rightarrow> scope \<in> set (gr_scopes g))))"

text \<open>\<open>argumentsFor\<close>; \<open>parse\<close> is \<open>JSON.parse\<close>.\<close>

definition argv_error :: js_error where
  "argv_error = JsError ''Enter an executable and up to 31 arguments, one per line or as a JSON array.''"

definition valid_argv :: "jsval list \<Rightarrow> bool" where
  "valid_argv vs \<longleftrightarrow> vs \<noteq> [] \<and> length vs \<le> 32 \<and> (\<forall>v \<in> set vs. is_str v \<and> length (text_of v) \<le> 4096)
     \<and> trim (text_of (hd vs)) \<noteq> []"

definition arguments_for :: "(string \<Rightarrow> string + jsval) \<Rightarrow> string \<Rightarrow> js_error + string list" where
  "arguments_for parse value =
     (let parsed = (if starts_with ''['' (trim value)
          then (case parse value of Inl m \<Rightarrow> Inl (JsError m) | Inr v \<Rightarrow> Inr v)
          else Inr (JArr (map JStr (filter (\<lambda>p. p \<noteq> []) (map trim (split_on (CHR 0x0A) value))))))
      in case parsed of
           Inl e \<Rightarrow> Inl e
         | Inr (JArr vs) \<Rightarrow> if valid_argv vs then Inr (map text_of vs) else Inl argv_error
         | Inr _ \<Rightarrow> Inl argv_error)"

section \<open>Reading the inventory\<close>

record inventory =
  iv_hooks :: "hook list"
  iv_runs :: "hook_run list"
  iv_available :: "string list"
  iv_unavailable :: "string list"

text \<open>The loop over the projects; a failure without a status, or of the server, gives up on the rest.\<close>

fun stops_reading :: "js_error \<Rightarrow> bool" where
  "stops_reading (JsError _) = True"
| "stops_reading (ApiError (JNum (Fin r)) _) = (r = 0 \<or> r \<ge> 500)"
| "stops_reading (ApiError v _) = (\<not> truthy v \<or> v = JNum PosInf)"

fun read_inventory ::
  "(string \<Rightarrow> js_error + hook list \<times> hook_run list) \<Rightarrow> hook_project list \<Rightarrow> inventory \<Rightarrow> inventory" where
  "read_inventory read [] iv = iv"
| "read_inventory read (p # ps) iv =
     (case read (hp_id p) of
        Inr (hs, rs) \<Rightarrow>
          read_inventory read ps (iv\<lparr>iv_hooks := iv_hooks iv @ filter (\<lambda>h. hk_project h = hp_id p) hs,
            iv_runs := iv_runs iv @ filter (\<lambda>r. hr_project r = hp_id p) rs, iv_available := iv_available iv @ [hp_id p]\<rparr>)
      | Inl e \<Rightarrow>
          (let failed = iv\<lparr>iv_unavailable := iv_unavailable iv @ [hp_id p]\<rparr> in
           if stops_reading e then failed\<lparr>iv_unavailable := iv_unavailable failed @ map hp_id ps\<rparr>
           else read_inventory read ps failed))"

definition empty_inventory :: inventory where
  "empty_inventory = \<lparr>iv_hooks = [], iv_runs = [], iv_available = [], iv_unavailable = []\<rparr>"

text \<open>Settling an uncertain creation: exactly one new, disabled hook with the reviewed signature.\<close>

definition settle_receipt :: "hook list \<Rightarrow> create_receipt \<Rightarrow> create_receipt" where
  "settle_receipt hooks r =
     (if re_state r = WriteUncertain
      then (case filter (\<lambda>h. hk_id h \<notin> re_before r \<and> signature (command_body h) = signature (re_body r) \<and> \<not> hk_enabled h) hooks of
              [h] \<Rightarrow> r\<lparr>re_state := WriteSaved, re_id := Some (hk_id h)\<rparr>
            | _ \<Rightarrow> r)
      else r)"

definition operation_settled :: "inventory \<Rightarrow> nat \<Rightarrow> string \<Rightarrow> hook_operation \<Rightarrow> bool" where
  "operation_settled iv shown i op =
     (case find (\<lambda>h. hk_id h = i) (iv_hooks iv) of
        None \<Rightarrow> ho_kind op = OpRemove \<and> length (iv_available iv) = shown \<and> iv_unavailable iv = []
      | Some h \<Rightarrow> hk_revision h > ho_revision op \<and> hk_enabled h = ho_enabled op)"

section \<open>State\<close>

record hook_draft =
  dr_project :: string
  dr_event :: string
  dr_argv :: string
  dr_cwd :: string
  dr_timeout :: string

definition blank_draft :: hook_draft where
  "blank_draft = \<lparr>dr_project = [], dr_event = ''before_turn'', dr_argv = [], dr_cwd = [], dr_timeout = ''10''\<rparr>"

datatype attempt_phase = Preparing | Dispatched | Ended

record hook_attempt =
  at_action :: hook_action
  at_actor :: string
  at_epoch :: nat
  at_phase :: attempt_phase

record hook_load =
  ld_epoch :: nat
  ld_aborted :: bool
  ld_actor :: "hook_actor option"
  ld_access :: "hook_access option"
  ld_projects :: "hook_project list"

datatype hook_write = PostHook nat string create_body | PatchHook nat string bool int | DeleteHook nat string

record hooks =
  hs_creations :: "string \<rightharpoonup> create_receipt"
  hs_operations :: "string \<rightharpoonup> hook_operation"
  hs_locked :: bool
  hs_epoch :: nat
  hs_busy :: bool
  hs_owner :: string
  hs_catalog :: "hook_catalog option"
  hs_loading :: bool
  hs_error :: string
  hs_notice :: string
  hs_page :: nat
  hs_review :: "hook_action option"
  hs_working :: bool
  hs_draft :: hook_draft
  hs_loads :: "hook_load list"
  hs_attempts :: "hook_attempt list"
  hs_sent :: "hook_write list"

definition op_key :: "string \<Rightarrow> string \<Rightarrow> string" where
  "op_key actor i = actor @ '':'' @ i"

fun action_key :: "string \<Rightarrow> hook_action \<Rightarrow> string option" where
  "action_key actor (CreateHook _ _) = None"
| "action_key actor (ChangeHook _ h _) = Some (op_key actor (hk_id h))"

section \<open>Lock, sign-out and loading\<close>

definition abort_loads :: "hook_load list \<Rightarrow> hook_load list" where
  "abort_loads = map (\<lambda>l. l\<lparr>ld_aborted := True\<rparr>)"

definition stop_hooks :: "bool \<Rightarrow> hooks \<Rightarrow> hooks" where
  "stop_hooks signed_out s =
     (let t = s\<lparr>hs_epoch := Suc (hs_epoch s), hs_busy := False, hs_loads := abort_loads (hs_loads s), hs_catalog := None,
               hs_review := None, hs_working := False, hs_error := [], hs_notice := [], hs_locked := True\<rparr>
      in if signed_out then t\<lparr>hs_owner := [], hs_draft := blank_draft\<rparr> else t)"

definition start_load :: "hooks \<Rightarrow> hooks" where
  "start_load s =
     (if hs_locked s then s
      else s\<lparr>hs_loads := abort_loads (hs_loads s) @
               [\<lparr>ld_epoch = hs_epoch s, ld_aborted = False, ld_actor = None, ld_access = None, ld_projects = []\<rparr>],
             hs_loading := True, hs_error := [], hs_catalog := None\<rparr>)"

definition unlock_hooks :: "hooks \<Rightarrow> hooks" where
  "unlock_hooks s = start_load (s\<lparr>hs_locked := False\<rparr>)"

definition more_projects :: "hooks \<Rightarrow> hooks" where
  "more_projects s = start_load (s\<lparr>hs_page := hs_page s + page_size\<rparr>)"

definition load_fresh :: "hook_load \<Rightarrow> hooks \<Rightarrow> bool" where
  "load_fresh l s \<longleftrightarrow> \<not> ld_aborted l \<and> ld_epoch l = hs_epoch s"

definition hooks_load_failed :: "js_error \<Rightarrow> hooks \<Rightarrow> hooks" where
  "hooks_load_failed e s = s\<lparr>hs_error := error_message e, hs_loading := False\<rparr>"

definition load_identified :: "nat \<Rightarrow> js_error + hook_actor \<times> hook_access \<times> hook_project list \<Rightarrow> hooks \<Rightarrow> hooks" where
  "load_identified n reply s =
     (let l = hs_loads s ! n in
      if \<not> load_fresh l s then s
      else case reply of
        Inl e \<Rightarrow> hooks_load_failed e s
      | Inr (actor, access, projects) \<Rightarrow>
          (let changed = hs_owner s \<noteq> [] \<and> hs_owner s \<noteq> ha_id actor in
           s\<lparr>hs_draft := (if changed then blank_draft else hs_draft s), hs_review := (if changed then None else hs_review s),
             hs_owner := ha_id actor,
             hs_loads := (hs_loads s)[n := l\<lparr>ld_actor := Some actor, ld_access := Some access, ld_projects := projects\<rparr>]\<rparr>))"

definition same_actor :: "hook_actor \<Rightarrow> hook_actor \<Rightarrow> bool" where
  "same_actor a b \<longleftrightarrow> ha_id a = ha_id b \<and> ha_session a = ha_session b \<and> ha_policy a = ha_policy b"

definition authority_changed :: js_error where
  "authority_changed = JsError ''Your account or project authority changed while loading hooks. Check host state again.''"

definition settle_operations :: "string \<Rightarrow> inventory \<Rightarrow> nat \<Rightarrow> (string \<rightharpoonup> hook_operation) \<Rightarrow> (string \<rightharpoonup> hook_operation)" where
  "settle_operations actor iv shown ops =
     (\<lambda>key. case ops key of
        None \<Rightarrow> None
      | Some op \<Rightarrow>
          if starts_with (actor @ '':'') key \<and> ho_uncertain op
             \<and> operation_settled iv shown (drop (length actor + 1) key) op
          then None else Some op)"

definition load_finished ::
  "nat \<Rightarrow> (string \<Rightarrow> js_error + hook list \<times> hook_run list) \<Rightarrow> js_error + hook_actor \<Rightarrow> hooks \<Rightarrow> hooks" where
  "load_finished n read again s =
     (let l = hs_loads s ! n in
      if \<not> load_fresh l s then s
      else case (ld_actor l, ld_access l) of
        (Some actor, Some access) \<Rightarrow>
          (case again of
             Inl e \<Rightarrow> hooks_load_failed e s
           | Inr now \<Rightarrow>
               if \<not> same_actor now actor then hooks_load_failed authority_changed s
               else
                 (let shown = min (hs_page s) (length (ld_projects l));
                      iv = read_inventory read (take shown (ld_projects l)) empty_inventory;
                      old = hs_creations s (ha_id actor);
                      settled = map_option (settle_receipt (iv_hooks iv)) old
                  in s\<lparr>hs_creations := (hs_creations s)(ha_id actor := settled),
                       hs_notice := (if old \<noteq> settled then ''The host confirms this hook was saved disabled.'' else hs_notice s),
                       hs_operations := settle_operations (ha_id actor) iv shown (hs_operations s),
                       hs_catalog := Some \<lparr>ct_actor = actor, ct_access = access, ct_projects = ld_projects l, ct_hooks = iv_hooks iv,
                          ct_runs = iv_runs iv, ct_available = iv_available iv, ct_unavailable = iv_unavailable iv, ct_shown = shown\<rparr>,
                       hs_loading := False\<rparr>))
      | _ \<Rightarrow> s)"

section \<open>Writing\<close>

definition creation_blocked :: "string \<Rightarrow> hooks \<Rightarrow> bool" where
  "creation_blocked actor s \<longleftrightarrow>
     (case hs_creations s actor of None \<Rightarrow> False | Some r \<Rightarrow> re_state r = WritePending \<or> re_state r = WriteUncertain)"

definition may_apply :: "hook_action \<Rightarrow> string \<Rightarrow> hooks \<Rightarrow> bool" where
  "may_apply a actor s \<longleftrightarrow> \<not> hs_loading s \<and> \<not> hs_busy s \<and> \<not> hs_locked s \<and>
     (case a of CreateHook _ _ \<Rightarrow> \<not> creation_blocked actor s
      | ChangeHook _ h _ \<Rightarrow> hs_operations s (op_key actor (hk_id h)) = None)"

definition begin_apply :: "hook_action \<Rightarrow> hooks \<Rightarrow> hooks" where
  "begin_apply a s =
     (case hs_catalog s of
        None \<Rightarrow> s
      | Some cat \<Rightarrow>
          (let actor = ha_id (ct_actor cat); n = length (hs_attempts s) in
           if \<not> may_apply a actor s then s
           else (let t = s\<lparr>hs_busy := True, hs_working := True, hs_error := [], hs_notice := [],
                     hs_attempts := hs_attempts s @ [\<lparr>at_action = a, at_actor = actor, at_epoch = hs_epoch s, at_phase = Preparing\<rparr>]\<rparr>
                 in case a of
                      CreateHook body p \<Rightarrow> t\<lparr>hs_creations := (hs_creations s)(actor \<mapsto>
                        \<lparr>re_attempt = n, re_body = body, re_before = hk_id ` set (ct_hooks cat), re_state = WritePending, re_id = None\<rparr>)\<rparr>
                    | ChangeHook k h p \<Rightarrow> t\<lparr>hs_operations := (hs_operations s)(op_key actor (hk_id h) \<mapsto>
                        \<lparr>ho_uncertain = False, ho_kind = k, ho_revision = hk_revision h, ho_enabled = (k = OpEnable)\<rparr>)\<rparr>)))"

definition attempt_fresh :: "hook_attempt \<Rightarrow> hooks \<Rightarrow> bool" where
  "attempt_fresh att s \<longleftrightarrow> at_epoch att = hs_epoch s"

fun action_project :: "hook_action \<Rightarrow> hook_project" where
  "action_project (CreateHook _ p) = p"
| "action_project (ChangeHook _ _ p) = p"

fun required_scopes :: "hook_action \<Rightarrow> string list" where
  "required_scopes (CreateHook _ _) = [''agent-control'', ''files-read'', ''files-write'']"
| "required_scopes (ChangeHook OpEnable h _) = [''agent-control'', ''files-read'', ''files-write''] @ hk_capabilities h"
| "required_scopes (ChangeHook _ _ _) = [''agent-control'']"

record preparation =
  pr_actor :: hook_actor
  pr_access :: hook_access
  pr_projects :: "hook_project list"
  pr_hooks :: "hook list"

text \<open>The checks between the reads and the write, in their order.\<close>

definition check_preparation :: "rat \<Rightarrow> hook_attempt \<Rightarrow> bool \<Rightarrow> preparation \<Rightarrow> js_error option" where
  "check_preparation now att fresh p =
     (let target = action_project (at_action att) in
      if \<not> fresh \<or> ha_id (pr_actor p) \<noteq> at_actor att
      then Some (JsError ''The signed-in account changed. Review the current hook before continuing.'')
      else if \<not> (\<exists>row \<in> set (pr_projects p). hp_id row = hp_id target \<and> hp_path row = hp_path target)
      then Some (JsError ''The project target changed. Reload hooks and review its current folder.'')
      else if \<not> hook_allowed now (pr_actor p) (pr_access p) (hp_id target) (required_scopes (at_action att))
      then Some (JsError ''Your current account cannot make this change in the selected project.'')
      else case at_action att of
        CreateHook _ _ \<Rightarrow> None
      | ChangeHook k h _ \<Rightarrow>
          (case find (\<lambda>row. hk_id row = hk_id h) (pr_hooks p) of
             None \<Rightarrow> Some (JsError ''This hook changed. Reload and review its current command before trying again.'')
           | Some row \<Rightarrow>
               if hk_revision row \<noteq> hk_revision h \<or> signature (command_body row) \<noteq> signature (command_body h)
               then Some (JsError ''This hook changed. Reload and review its current command before trying again.'')
               else None))"

definition write_of :: "nat \<Rightarrow> hook_attempt \<Rightarrow> hook_write" where
  "write_of n att =
     (case at_action att of
        CreateHook body _ \<Rightarrow> PostHook n (at_actor att) body
      | ChangeHook k h _ \<Rightarrow> if k = OpRemove then DeleteHook n (hk_id h) else PatchHook n (hk_id h) (k = OpEnable) (hk_revision h))"

definition end_attempt :: "nat \<Rightarrow> hooks \<Rightarrow> hooks" where
  "end_attempt n s =
     (let att = hs_attempts s ! n; t = s\<lparr>hs_attempts := (hs_attempts s)[n := att\<lparr>at_phase := Ended\<rparr>]\<rparr> in
      if attempt_fresh att s then t\<lparr>hs_busy := False, hs_working := False\<rparr> else t)"

definition repeat_warning :: string where
  "repeat_warning = ''The host did not confirm this change. Check the host state before any new attempt; this request will not be repeated.''"

text \<open>The \<open>catch\<close> block.\<close>

definition apply_failed :: "nat \<Rightarrow> bool \<Rightarrow> js_error \<Rightarrow> hooks \<Rightarrow> hooks" where
  "apply_failed n dispatched e s =
     (let att = hs_attempts s ! n; actor = at_actor att; unsure = dispatched \<and> uncertain_error e;
          t = (case at_action att of
                 CreateHook _ _ \<Rightarrow>
                   (case hs_creations s actor of
                      None \<Rightarrow> s
                    | Some r \<Rightarrow>
                        if unsure then s\<lparr>hs_creations := (hs_creations s)(actor \<mapsto> r\<lparr>re_state := WriteUncertain\<rparr>)\<rparr>
                        else if re_attempt r = n then s\<lparr>hs_creations := (hs_creations s)(actor := None)\<rparr>
                        else s)
               | ChangeHook k h _ \<Rightarrow>
                   (let key = op_key actor (hk_id h) in
                    if unsure then s\<lparr>hs_operations := (hs_operations s)(key := map_option (\<lambda>o'. o'\<lparr>ho_uncertain := True\<rparr>) (hs_operations s key))\<rparr>
                    else s\<lparr>hs_operations := (hs_operations s)(key := None)\<rparr>));
          u = (if attempt_fresh att s
               then t\<lparr>hs_review := (if unsure then None else hs_review t), hs_error := (if unsure then repeat_warning else error_message e)\<rparr>
               else t)
      in end_attempt n u)"

definition dispatch :: "nat \<Rightarrow> preparation \<Rightarrow> hooks \<Rightarrow> hooks" where
  "dispatch n p s =
     (let att = hs_attempts s ! n;
          t = s\<lparr>hs_attempts := (hs_attempts s)[n := att\<lparr>at_phase := Dispatched\<rparr>], hs_sent := hs_sent s @ [write_of n att]\<rparr>
      in case at_action att of
           CreateHook _ _ \<Rightarrow> t\<lparr>hs_creations := (hs_creations s)(at_actor att :=
             map_option (\<lambda>r. if re_attempt r = n then r\<lparr>re_before := hk_id ` set (pr_hooks p)\<rparr> else r) (hs_creations s (at_actor att)))\<rparr>
         | ChangeHook _ _ _ \<Rightarrow> t)"

definition apply_prepared :: "rat \<Rightarrow> nat \<Rightarrow> js_error + preparation \<Rightarrow> hooks \<Rightarrow> hooks" where
  "apply_prepared now n reply s =
     (let att = hs_attempts s ! n in
      if at_phase att \<noteq> Preparing then s
      else case reply of
        Inl e \<Rightarrow> apply_failed n False e s
      | Inr p \<Rightarrow>
          (case check_preparation now att (attempt_fresh att s) p of
             Some e \<Rightarrow> apply_failed n False e s
           | None \<Rightarrow> dispatch n p s))"

definition success_notice :: "hook_action \<Rightarrow> string" where
  "success_notice a =
     (case a of
        CreateHook _ _ \<Rightarrow> ''Hook saved disabled. Review it again before enabling lifecycle execution.''
      | ChangeHook OpEnable _ _ \<Rightarrow> ''Hook enabled for future lifecycle events.''
      | ChangeHook OpDisable _ _ \<Rightarrow> ''Hook disabled for future lifecycle events.''
      | ChangeHook OpRemove _ _ \<Rightarrow> ''Hook removed. A command already running may finish.'')"

definition apply_succeeded :: "nat \<Rightarrow> string option \<Rightarrow> hooks \<Rightarrow> hooks" where
  "apply_succeeded n new_id s =
     (let att = hs_attempts s ! n; actor = at_actor att;
          t = (case at_action att of
                 CreateHook _ _ \<Rightarrow> s\<lparr>hs_creations := (hs_creations s)(actor :=
                     map_option (\<lambda>r. if re_attempt r = n then r\<lparr>re_state := WriteSaved, re_id := new_id\<rparr> else r) (hs_creations s actor))\<rparr>
               | ChangeHook k h _ \<Rightarrow> s\<lparr>hs_operations := (hs_operations s)(op_key actor (hk_id h) := None)\<rparr>)
      in if attempt_fresh att s
         then start_load (end_attempt n (t\<lparr>hs_review := None, hs_notice := success_notice (at_action att)\<rparr>))
         else end_attempt n t)"

definition apply_answered :: "nat \<Rightarrow> js_error + hook option \<Rightarrow> hooks \<Rightarrow> hooks" where
  "apply_answered n reply s =
     (let att = hs_attempts s ! n in
      if at_phase att \<noteq> Dispatched then s
      else case reply of
        Inl e \<Rightarrow> apply_failed n True e s
      | Inr saved \<Rightarrow>
          (case at_action att of
             CreateHook body _ \<Rightarrow>
               (case saved of
                  Some h \<Rightarrow>
                    if signature (command_body h) = signature body then apply_succeeded n (Some (hk_id h)) s
                    else apply_failed n True (JsError ''The host did not confirm the exact saved hook.'') s
                | None \<Rightarrow> apply_failed n True (JsError ''The host did not confirm the exact saved hook.'') s)
           | ChangeHook _ _ _ \<Rightarrow> apply_succeeded n None s))"

text \<open>Leaving the panel and opening it again: the receipts and the operations belong to the module
  and stay; what the panel held is gone, and the epoch of the old panel is never the new one.\<close>

definition remount_hooks :: "hooks \<Rightarrow> hooks" where
  "remount_hooks s = start_load (s\<lparr>hs_epoch := Suc (hs_epoch s), hs_busy := False, hs_owner := [], hs_catalog := None, hs_error := [],
     hs_notice := [], hs_page := page_size, hs_review := None, hs_working := False, hs_draft := blank_draft, hs_locked := False,
     hs_loads := abort_loads (hs_loads s)\<rparr>)"

section \<open>The reviewed draft\<close>

text \<open>\<open>Number(text)\<close>, for whole numbers, is a parameter: \<open>None\<close> when the text is not one.\<close>

definition draft_body :: "(string \<Rightarrow> string + jsval) \<Rightarrow> (string \<Rightarrow> int option) \<Rightarrow> hook_draft \<Rightarrow> create_body option" where
  "draft_body parse number d =
     (case number (dr_timeout d) of
        None \<Rightarrow> None
      | Some t \<Rightarrow>
          if dr_project d \<noteq> [] \<and> trim (dr_cwd d) \<noteq> [] \<and> 1 \<le> t \<and> t \<le> 60
          then (case arguments_for parse (dr_argv d) of
                  Inl _ \<Rightarrow> None
                | Inr argv \<Rightarrow> Some \<lparr>cb_project = dr_project d, cb_event = dr_event d, cb_argv = argv, cb_cwd = trim (dr_cwd d),
                    cb_timeout = t, cb_capabilities = [], cb_enabled = False\<rparr>)
          else None)"

definition catalog_allows :: "rat \<Rightarrow> hook_catalog \<Rightarrow> string \<Rightarrow> string list \<Rightarrow> bool" where
  "catalog_allows now c project scopes \<longleftrightarrow> project \<in> set (ct_available c) \<and> hook_allowed now (ct_actor c) (ct_access c) project scopes"

definition draft_project :: "hook_catalog \<Rightarrow> hook_draft \<Rightarrow> hook_project option" where
  "draft_project c d = find (\<lambda>p. hp_id p = dr_project d) (ct_projects c)"

definition can_create :: "rat \<Rightarrow> hook_catalog \<Rightarrow> hook_draft \<Rightarrow> bool" where
  "can_create now c d =
     (case draft_project c d of None \<Rightarrow> False
      | Some p \<Rightarrow> catalog_allows now c (hp_id p) [''agent-control'', ''files-read'', ''files-write''])"

definition duplicate_body :: "create_body option \<Rightarrow> create_receipt option \<Rightarrow> bool" where
  "duplicate_body b r =
     (case (b, r) of (Some body, Some receipt) \<Rightarrow> re_state receipt = WriteSaved \<and> signature (re_body receipt) = signature body | _ \<Rightarrow> False)"

definition blocked_receipt :: "create_receipt option \<Rightarrow> bool" where
  "blocked_receipt r = (case r of None \<Rightarrow> False | Some x \<Rightarrow> re_state x = WritePending \<or> re_state x = WriteUncertain)"

definition owner_receipt :: "hooks \<Rightarrow> create_receipt option" where
  "owner_receipt s =
     (case hs_catalog s of None \<Rightarrow> None | Some c \<Rightarrow> if ha_id (ct_actor c) = [] then None else hs_creations s (ha_id (ct_actor c)))"

definition create_review :: "(string \<Rightarrow> string + jsval) \<Rightarrow> (string \<Rightarrow> int option) \<Rightarrow> rat \<Rightarrow> hooks \<Rightarrow> hooks" where
  "create_review parse number now s =
     (case hs_catalog s of
        None \<Rightarrow> s
      | Some c \<Rightarrow>
          (let d = hs_draft s; body = draft_body parse number d; receipt = owner_receipt s in
           if hs_loading s \<or> hs_working s \<or> blocked_receipt receipt \<or> duplicate_body body receipt \<or> \<not> can_create now c d then s
           else case (body, draft_project c d) of
             (Some b, Some p) \<Rightarrow> s\<lparr>hs_error := [], hs_review := Some (CreateHook b p)\<rparr>
           | (_, None) \<Rightarrow> s
           | (None, Some p) \<Rightarrow>
               (case arguments_for parse (dr_argv d) of
                  Inl e \<Rightarrow> s\<lparr>hs_error := error_message e\<rparr>
                | Inr _ \<Rightarrow> s\<lparr>hs_error := ''Choose a project, working folder and a timeout between 1 and 60 seconds.''\<rparr>)))"

inductive hooks_step :: "hooks \<Rightarrow> hooks \<Rightarrow> bool" where
  "hooks_step s (stop_hooks b s)"
| "hooks_step s (start_load s)"
| "hooks_step s (unlock_hooks s)"
| "hooks_step s (more_projects s)"
| "hooks_step s (remount_hooks s)"
| "n < length (hs_loads s) \<Longrightarrow> hooks_step s (load_identified n r s)"
| "n < length (hs_loads s) \<Longrightarrow> hooks_step s (load_finished n read again s)"
| "hooks_step s (s\<lparr>hs_draft := d\<rparr>)"
| "hs_catalog s \<noteq> None \<Longrightarrow> hooks_step s (s\<lparr>hs_review := r\<rparr>)"
| "hooks_step s (create_review parse number now s)"
| "hooks_step s (begin_apply a s)"
| "n < length (hs_attempts s) \<Longrightarrow> hooks_step s (apply_prepared now n p s)"
| "n < length (hs_attempts s) \<Longrightarrow> hooks_step s (apply_answered n q s)"

definition first_hooks :: hooks where
  "first_hooks = \<lparr>hs_creations = Map.empty, hs_operations = Map.empty, hs_locked = False, hs_epoch = 0, hs_busy = False,
     hs_owner = [], hs_catalog = None, hs_loading = True, hs_error = [], hs_notice = [], hs_page = page_size, hs_review = None,
     hs_working = False, hs_draft = blank_draft, hs_loads = [], hs_attempts = [], hs_sent = []\<rparr>"

abbreviation hooks_reachable :: "hooks \<Rightarrow> bool" where
  "hooks_reachable s \<equiv> hooks_step\<^sup>*\<^sup>* first_hooks s"


section \<open>One write at a time\<close>

definition active_attempt :: "hooks \<Rightarrow> nat \<Rightarrow> bool" where
  "active_attempt s n \<longleftrightarrow> n < length (hs_attempts s) \<and> at_phase (hs_attempts s ! n) \<noteq> Ended"

text \<open>What two attempts compete for: the new hook of an account, or one hook of it.\<close>

fun attempt_target :: "hook_attempt \<Rightarrow> string \<times> string option" where
  "attempt_target att = (case at_action att of
     CreateHook _ _ \<Rightarrow> (at_actor att, None)
   | ChangeHook _ h _ \<Rightarrow> ([], Some (op_key (at_actor att) (hk_id h))))"

definition claim_held :: "hooks \<Rightarrow> nat \<Rightarrow> bool" where
  "claim_held s n \<longleftrightarrow>
     (case at_action (hs_attempts s ! n) of
        CreateHook b _ \<Rightarrow> (\<exists>r. hs_creations s (at_actor (hs_attempts s ! n)) = Some r \<and> re_attempt r = n \<and> re_state r = WritePending \<and> re_body r = b)
      | ChangeHook _ h _ \<Rightarrow> (\<exists>op. hs_operations s (op_key (at_actor (hs_attempts s ! n)) (hk_id h)) = Some op \<and> \<not> ho_uncertain op))"

definition claims_exclusive :: "hooks \<Rightarrow> bool" where
  "claims_exclusive s \<longleftrightarrow> (\<forall>m n. active_attempt s m \<longrightarrow> active_attempt s n \<longrightarrow> m \<noteq> n \<longrightarrow>
     attempt_target (hs_attempts s ! m) \<noteq> attempt_target (hs_attempts s ! n))"

definition hooks_ok :: "hooks \<Rightarrow> bool" where
  "hooks_ok s \<longleftrightarrow> (\<forall>n. active_attempt s n \<longrightarrow> claim_held s n) \<and> claims_exclusive s"

lemma hooks_ok_frame:
  "hooks_ok s \<Longrightarrow> hs_attempts t = hs_attempts s \<Longrightarrow> hs_creations t = hs_creations s \<Longrightarrow> hs_operations t = hs_operations s
    \<Longrightarrow> hooks_ok t"
  by (simp add: hooks_ok_def active_attempt_def claim_held_def claims_exclusive_def del: attempt_target.simps cong: hook_action.case_cong)

lemma frame_attempts [simp]:
  "hs_attempts (stop_hooks b s) = hs_attempts s" "hs_attempts (start_load s) = hs_attempts s"
  "hs_attempts (unlock_hooks s) = hs_attempts s" "hs_attempts (more_projects s) = hs_attempts s"
  "hs_attempts (remount_hooks s) = hs_attempts s" "hs_attempts (load_identified n r s) = hs_attempts s"
  "hs_attempts (create_review parse number now s) = hs_attempts s" "hs_attempts (load_finished n rd again s) = hs_attempts s"
  by (auto simp: stop_hooks_def start_load_def unlock_hooks_def more_projects_def remount_hooks_def load_identified_def
      create_review_def load_finished_def hooks_load_failed_def Let_def split: sum.splits option.splits prod.splits)

lemma frame_creations [simp]:
  "hs_creations (stop_hooks b s) = hs_creations s" "hs_creations (start_load s) = hs_creations s"
  "hs_creations (unlock_hooks s) = hs_creations s" "hs_creations (more_projects s) = hs_creations s"
  "hs_creations (remount_hooks s) = hs_creations s" "hs_creations (load_identified n r s) = hs_creations s"
  "hs_creations (create_review parse number now s) = hs_creations s"
  by (auto simp: stop_hooks_def start_load_def unlock_hooks_def more_projects_def remount_hooks_def load_identified_def
      create_review_def hooks_load_failed_def Let_def split: sum.splits option.splits prod.splits)

lemma frame_operations [simp]:
  "hs_operations (stop_hooks b s) = hs_operations s" "hs_operations (start_load s) = hs_operations s"
  "hs_operations (unlock_hooks s) = hs_operations s" "hs_operations (more_projects s) = hs_operations s"
  "hs_operations (remount_hooks s) = hs_operations s" "hs_operations (load_identified n r s) = hs_operations s"
  "hs_operations (create_review parse number now s) = hs_operations s"
  by (auto simp: stop_hooks_def start_load_def unlock_hooks_def more_projects_def remount_hooks_def load_identified_def
      create_review_def hooks_load_failed_def Let_def split: sum.splits option.splits prod.splits)

lemma frame_sent [simp]:
  "hs_sent (stop_hooks b s) = hs_sent s" "hs_sent (start_load s) = hs_sent s"
  "hs_sent (unlock_hooks s) = hs_sent s" "hs_sent (more_projects s) = hs_sent s"
  "hs_sent (remount_hooks s) = hs_sent s" "hs_sent (load_identified n r s) = hs_sent s"
  "hs_sent (create_review parse number now s) = hs_sent s" "hs_sent (load_finished n rd again s) = hs_sent s"
  by (auto simp: stop_hooks_def start_load_def unlock_hooks_def more_projects_def remount_hooks_def load_identified_def
      create_review_def load_finished_def hooks_load_failed_def Let_def split: sum.splits option.splits prod.splits)

text \<open>An attempt that moves on touches only what it holds.\<close>

definition touches_own :: "hook_attempt \<Rightarrow> hooks \<Rightarrow> hooks \<Rightarrow> bool" where
  "touches_own att s t \<longleftrightarrow>
     (case at_action att of
        CreateHook _ _ \<Rightarrow> hs_operations t = hs_operations s \<and> (\<exists>v. hs_creations t = (hs_creations s)(at_actor att := v))
      | ChangeHook _ h _ \<Rightarrow> hs_creations t = hs_creations s \<and> (\<exists>v. hs_operations t = (hs_operations s)(op_key (at_actor att) (hk_id h) := v)))"

lemma claim_held_other:
  "claim_held s m \<Longrightarrow> hs_attempts t ! m = hs_attempts s ! m \<Longrightarrow> touches_own att s t
    \<Longrightarrow> attempt_target (hs_attempts s ! m) \<noteq> attempt_target att \<Longrightarrow> claim_held t m"
  by (auto simp: claim_held_def touches_own_def split: hook_action.splits)

lemma advance_claim:
  assumes ok: "hooks_ok s" and act: "active_attempt s n"
    and upd: "hs_attempts t = (hs_attempts s)[n := x]" and same: "at_action x = at_action (hs_attempts s ! n)" "at_actor x = at_actor (hs_attempts s ! n)"
    and own: "touches_own (hs_attempts s ! n) s t" and held: "at_phase x \<noteq> Ended \<Longrightarrow> claim_held t n"
  shows "hooks_ok t"
proof -
  have n: "n < length (hs_attempts s)" and ph: "at_phase (hs_attempts s ! n) \<noteq> Ended"
    using act by (auto simp: active_attempt_def)
  have tgt: "attempt_target (hs_attempts t ! m) = attempt_target (hs_attempts s ! m)" for m
    using same n by (cases "m = n") (simp_all add: upd split: hook_action.split)
  have was_active: "active_attempt t m \<Longrightarrow> active_attempt s m" for m
    using act by (cases "m = n") (auto simp: active_attempt_def upd)
  have ex: "claims_exclusive t"
    using ok was_active tgt unfolding hooks_ok_def claims_exclusive_def by metis
  have "claim_held t m" if a: "active_attempt t m" for m
  proof (cases "m = n")
    case True
    then show ?thesis using a held n by (auto simp: active_attempt_def upd)
  next
    case False
    then have "attempt_target (hs_attempts s ! m) \<noteq> attempt_target (hs_attempts s ! n)"
      using ok was_active [OF a] act unfolding hooks_ok_def claims_exclusive_def by metis
    moreover have "claim_held s m"
      using ok was_active [OF a] by (simp add: hooks_ok_def)
    ultimately show ?thesis
      using False own by (intro claim_held_other [of s m t "hs_attempts s ! n"]) (simp_all add: upd)
  qed
  then show ?thesis using ex by (simp add: hooks_ok_def)
qed

lemma end_attempt_fields [simp]:
  "hs_attempts (end_attempt n s) = (hs_attempts s)[n := (hs_attempts s ! n)\<lparr>at_phase := Ended\<rparr>]"
  "hs_creations (end_attempt n s) = hs_creations s" "hs_operations (end_attempt n s) = hs_operations s" "hs_sent (end_attempt n s) = hs_sent s"
  by (simp_all add: end_attempt_def Let_def)

lemma apply_failed_attempts [simp]:
  "hs_attempts (apply_failed n d e s) = (hs_attempts s)[n := (hs_attempts s ! n)\<lparr>at_phase := Ended\<rparr>]"
  "hs_sent (apply_failed n d e s) = hs_sent s"
  by (auto simp: apply_failed_def Let_def split: hook_action.splits option.splits)

lemma apply_failed_own: "touches_own (hs_attempts s ! n) s (apply_failed n d e s)"
  by (auto simp: apply_failed_def touches_own_def Let_def split: hook_action.splits option.splits intro: exI [of _ "hs_creations s a" for a])
    (metis fun_upd_triv)+

lemma apply_succeeded_attempts [simp]:
  "hs_attempts (apply_succeeded n i s) = (hs_attempts s)[n := (hs_attempts s ! n)\<lparr>at_phase := Ended\<rparr>]"
  "hs_sent (apply_succeeded n i s) = hs_sent s"
  by (auto simp: apply_succeeded_def Let_def split: hook_action.splits)

lemma apply_succeeded_own: "touches_own (hs_attempts s ! n) s (apply_succeeded n i s)"
  by (auto simp: apply_succeeded_def touches_own_def Let_def split: hook_action.splits)

lemma hooks_ok_failed: "hooks_ok s \<Longrightarrow> active_attempt s n \<Longrightarrow> hooks_ok (apply_failed n d e s)"
  by (rule advance_claim [where n = n and x = "(hs_attempts s ! n)\<lparr>at_phase := Ended\<rparr>" and s = s]) (simp_all add: apply_failed_own)

lemma hooks_ok_succeeded: "hooks_ok s \<Longrightarrow> active_attempt s n \<Longrightarrow> hooks_ok (apply_succeeded n i s)"
  by (rule advance_claim [where n = n and x = "(hs_attempts s ! n)\<lparr>at_phase := Ended\<rparr>" and s = s]) (simp_all add: apply_succeeded_own)

lemma dispatch_fields [simp]:
  "hs_attempts (dispatch n p s) = (hs_attempts s)[n := (hs_attempts s ! n)\<lparr>at_phase := Dispatched\<rparr>]"
  "hs_sent (dispatch n p s) = hs_sent s @ [write_of n (hs_attempts s ! n)]"
  by (auto simp: dispatch_def Let_def split: hook_action.splits)

lemma dispatch_own: "touches_own (hs_attempts s ! n) s (dispatch n p s)"
  by (auto simp: dispatch_def touches_own_def Let_def split: hook_action.splits) (metis fun_upd_triv)

lemma dispatch_held: "claim_held s n \<Longrightarrow> n < length (hs_attempts s) \<Longrightarrow> claim_held (dispatch n p s) n"
  by (auto simp: claim_held_def dispatch_def Let_def split: hook_action.splits)

lemma hooks_ok_dispatch: "hooks_ok s \<Longrightarrow> active_attempt s n \<Longrightarrow> hooks_ok (dispatch n p s)"
  by (rule advance_claim [where n = n and x = "(hs_attempts s ! n)\<lparr>at_phase := Dispatched\<rparr>" and s = s])
    (simp_all add: dispatch_own dispatch_held hooks_ok_def active_attempt_def)

lemma apply_prepared_cases:
  "apply_prepared now n reply s = s
   \<or> (at_phase (hs_attempts s ! n) = Preparing \<and> (\<exists>e. apply_prepared now n reply s = apply_failed n False e s))
   \<or> (at_phase (hs_attempts s ! n) = Preparing \<and> (\<exists>p. reply = Inr p
        \<and> check_preparation now (hs_attempts s ! n) (attempt_fresh (hs_attempts s ! n) s) p = None \<and> apply_prepared now n reply s = dispatch n p s))"
  by (auto simp: apply_prepared_def Let_def split: sum.splits option.splits)

lemma apply_answered_cases:
  "apply_answered n q s = s
   \<or> (at_phase (hs_attempts s ! n) = Dispatched \<and> ((\<exists>e. apply_answered n q s = apply_failed n True e s) \<or> (\<exists>i. apply_answered n q s = apply_succeeded n i s)))"
  by (auto simp: apply_answered_def Let_def split: sum.splits option.splits hook_action.splits)

lemma hooks_ok_prepared: "hooks_ok s \<Longrightarrow> n < length (hs_attempts s) \<Longrightarrow> hooks_ok (apply_prepared now n p s)"
  using apply_prepared_cases [of now n p s] hooks_ok_failed [of s n] hooks_ok_dispatch [of s n] by (auto simp: active_attempt_def)

lemma hooks_ok_answered: "hooks_ok s \<Longrightarrow> n < length (hs_attempts s) \<Longrightarrow> hooks_ok (apply_answered n q s)"
  using apply_answered_cases [of n q s] using hooks_ok_failed [of s n] hooks_ok_succeeded [of s n] by (auto simp: active_attempt_def)

lemma settle_receipt_pending [simp]: "re_state r = WritePending \<Longrightarrow> settle_receipt hooks r = r"
  by (simp add: settle_receipt_def)

lemma settle_operations_certain: "ops key = Some op \<Longrightarrow> \<not> ho_uncertain op \<Longrightarrow> settle_operations actor iv shown ops key = Some op"
  by (simp add: settle_operations_def)

lemma load_finished_shape:
  "load_finished n rd again s = s \<or> (\<exists>e. load_finished n rd again s = hooks_load_failed e s)
   \<or> (\<exists>c iv shown. hs_catalog (load_finished n rd again s) = Some c \<and> ct_hooks c = iv_hooks iv \<and>
        hs_creations (load_finished n rd again s) = (hs_creations s)(ha_id (ct_actor c) := map_option (settle_receipt (ct_hooks c)) (hs_creations s (ha_id (ct_actor c)))) \<and>
        hs_operations (load_finished n rd again s) = settle_operations (ha_id (ct_actor c)) iv shown (hs_operations s))"
  by (auto simp: load_finished_def Let_def split: option.splits sum.splits)

lemma hooks_ok_load: "hooks_ok s \<Longrightarrow> hooks_ok (load_finished n rd again s)"
proof -
  assume ok: "hooks_ok s"
  show ?thesis using load_finished_shape [of n rd again s]
  proof (elim disjE exE conjE)
    fix c iv shown
    assume c: "hs_creations (load_finished n rd again s) = (hs_creations s)(ha_id (ct_actor c) := map_option (settle_receipt (ct_hooks c)) (hs_creations s (ha_id (ct_actor c))))"
      and o: "hs_operations (load_finished n rd again s) = settle_operations (ha_id (ct_actor c)) iv shown (hs_operations s)"
    have "claim_held s m \<Longrightarrow> claim_held (load_finished n rd again s) m" for m
      using c o by (auto simp: claim_held_def settle_operations_certain split: hook_action.splits)
    then show ?thesis
      using ok by (simp add: hooks_ok_def active_attempt_def claims_exclusive_def del: attempt_target.simps)
  qed (use ok in \<open>auto intro: hooks_ok_frame simp: hooks_load_failed_def\<close>)
qed

lemma hooks_ok_begin: "hooks_ok s \<Longrightarrow> hooks_ok (begin_apply a s)"
proof (cases "begin_apply a s = s")
  case False
  assume ok: "hooks_ok s"
  let ?t = "begin_apply a s" and ?n = "length (hs_attempts s)"
  from False obtain c where c: "hs_catalog s = Some c" "may_apply a (ha_id (ct_actor c)) s"
    by (auto simp: begin_apply_def Let_def split: option.splits if_splits)
  let ?x = "\<lparr>at_action = a, at_actor = ha_id (ct_actor c), at_epoch = hs_epoch s, at_phase = Preparing\<rparr>"
  have att: "hs_attempts ?t = hs_attempts s @ [?x]" and own: "touches_own ?x s ?t"
    using c by (auto simp: begin_apply_def touches_own_def Let_def split: hook_action.splits)
  have new: "claim_held ?t ?n"
    using c att by (auto simp: claim_held_def begin_apply_def Let_def nth_append split: hook_action.splits)
  have free: "attempt_target (hs_attempts s ! m) \<noteq> attempt_target ?x" if "claim_held s m" for m
    using that c(2) by (auto simp: claim_held_def may_apply_def creation_blocked_def split: hook_action.splits)
  have old: "active_attempt ?t m \<Longrightarrow> m = ?n \<or> active_attempt s m \<and> hs_attempts ?t ! m = hs_attempts s ! m" for m
    using att by (auto simp: active_attempt_def nth_append less_Suc_eq)
  have at_new: "hs_attempts ?t ! ?n = ?x"
    by (simp add: att)
  have "claim_held ?t m" if "active_attempt ?t m" for m
    using old [OF that] new ok own free claim_held_other [of s m ?t ?x] by (auto simp: hooks_ok_def simp del: attempt_target.simps)
  moreover have "claims_exclusive ?t"
    unfolding claims_exclusive_def
  proof (intro allI impI)
    fix m k assume "active_attempt ?t m" "active_attempt ?t k" "m \<noteq> k"
    then show "attempt_target (hs_attempts ?t ! m) \<noteq> attempt_target (hs_attempts ?t ! k)"
      using old [of m] old [of k] at_new free [of m] free [of k] ok unfolding hooks_ok_def claims_exclusive_def by metis
  qed
  ultimately show ?thesis by (simp add: hooks_ok_def)
qed simp

lemma hooks_ok_reachable: "hooks_reachable s \<Longrightarrow> hooks_ok s"
proof (induction rule: rtranclp_induct)
  case base
  show ?case by (simp add: hooks_ok_def claims_exclusive_def active_attempt_def first_hooks_def)
next
  case (step s t)
  from step.hyps(2) step.IH show ?case
    by cases (auto intro: hooks_ok_load hooks_ok_prepared hooks_ok_answered hooks_ok_begin elim: hooks_ok_frame)
qed

text \<open>A lifecycle hook never has two writes under way: not two creations by one account, and not two
  changes of the same hook, through any locks, sign-outs, remounts and reloads in between.\<close>

theorem hook_writes_exclusive:
  assumes "hooks_reachable s" "active_attempt s m" "active_attempt s n" "m \<noteq> n"
  shows "attempt_target (hs_attempts s ! m) \<noteq> attempt_target (hs_attempts s ! n)"
  using hooks_ok_reachable [OF assms(1)] assms(2-) unfolding hooks_ok_def claims_exclusive_def by blast

section \<open>An uncertain creation\<close>

definition posts :: "string \<Rightarrow> hooks \<Rightarrow> hook_write list" where
  "posts a s = filter (\<lambda>w. case w of PostHook _ b _ \<Rightarrow> b = a | _ \<Rightarrow> False) (hs_sent s)"

definition matches_receipt :: "create_receipt \<Rightarrow> hook \<Rightarrow> bool" where
  "matches_receipt r h \<longleftrightarrow> hk_id h \<notin> re_before r \<and> signature (command_body h) = signature (re_body r) \<and> \<not> hk_enabled h"

definition host_confirmed :: "string \<Rightarrow> create_receipt \<Rightarrow> hooks \<Rightarrow> bool" where
  "host_confirmed a r s \<longleftrightarrow> (\<exists>c h. hs_catalog s = Some c \<and> ha_id (ct_actor c) = a \<and> filter (matches_receipt r) (ct_hooks c) = [h] \<and>
     hs_creations s a = Some (r\<lparr>re_state := WriteSaved, re_id := Some (hk_id h)\<rparr>))"

lemma settle_receipt_cases:
  "re_state r = WriteUncertain \<Longrightarrow> settle_receipt hooks r = r \<or>
    (\<exists>h. filter (matches_receipt r) hooks = [h] \<and> settle_receipt hooks r = r\<lparr>re_state := WriteSaved, re_id := Some (hk_id h)\<rparr>)"
  by (auto simp: settle_receipt_def matches_receipt_def [abs_def] split: list.splits)

lemma touches_other_account:
  assumes "touches_own (hs_attempts s ! n) s t" "claim_held s n" "hs_creations s a = Some r" "re_state r = WriteUncertain"
  shows "hs_creations t a = Some r"
  using assms by (auto simp: touches_own_def claim_held_def split: hook_action.splits)

lemma write_other_account:
  assumes "claim_held s n" "hs_creations s a = Some r" "re_state r = WriteUncertain"
  shows "\<not> (case write_of n (hs_attempts s ! n) of PostHook _ b _ \<Rightarrow> b = a | _ \<Rightarrow> False)"
  using assms by (auto simp: write_of_def claim_held_def split: hook_action.splits)

lemma begin_apply_uncertain:
  "hs_creations s a = Some r \<Longrightarrow> re_state r = WriteUncertain
    \<Longrightarrow> hs_creations (begin_apply act s) a = Some r \<and> hs_sent (begin_apply act s) = hs_sent s"
  by (auto simp: begin_apply_def may_apply_def creation_blocked_def Let_def split: option.splits hook_action.splits)

lemma uncertain_load:
  assumes r: "hs_creations s a = Some r" "re_state r = WriteUncertain"
  shows "host_confirmed a r (load_finished n rd again s) \<or> hs_creations (load_finished n rd again s) a = Some r"
  using load_finished_shape [of n rd again s] settle_receipt_cases [OF r(2)] r
  by (elim disjE exE conjE) (auto simp: host_confirmed_def hooks_load_failed_def; metis)+

lemma uncertain_attempt:
  assumes ok: "hooks_ok s" and act: "active_attempt s n" and r: "hs_creations s a = Some r" "re_state r = WriteUncertain"
  shows "hs_creations (apply_failed n d e s) a = Some r" "hs_creations (apply_succeeded n i s) a = Some r"
    "hs_creations (dispatch n p s) a = Some r" "posts a (dispatch n p s) = posts a s"
proof -
  have held: "claim_held s n" using ok act by (simp add: hooks_ok_def)
  show "hs_creations (apply_failed n d e s) a = Some r" "hs_creations (apply_succeeded n i s) a = Some r"
    "hs_creations (dispatch n p s) a = Some r"
    using touches_other_account [OF _ held r] apply_failed_own apply_succeeded_own dispatch_own by blast+
  show "posts a (dispatch n p s) = posts a s"
    using write_other_account [OF held r] by (simp add: posts_def)
qed

lemma uncertain_prepared:
  assumes "hooks_ok s" "n < length (hs_attempts s)" "hs_creations s a = Some r" "re_state r = WriteUncertain"
  shows "hs_creations (apply_prepared now n p s) a = Some r \<and> posts a (apply_prepared now n p s) = posts a s"
  using apply_prepared_cases [of now n p s] uncertain_attempt [of s n a r] assms
  by (auto simp: active_attempt_def) (simp_all add: posts_def)

lemma uncertain_answered:
  assumes "hooks_ok s" "n < length (hs_attempts s)" "hs_creations s a = Some r" "re_state r = WriteUncertain"
  shows "hs_creations (apply_answered n q s) a = Some r \<and> posts a (apply_answered n q s) = posts a s"
  using apply_answered_cases [of n q s] uncertain_attempt [of s n a r] assms
  by (auto simp: active_attempt_def) (simp_all add: posts_def)

lemma uncertain_step:
  assumes ok: "hooks_ok s" and r: "hs_creations s a = Some r" "re_state r = WriteUncertain" and step: "hooks_step s t"
  shows "host_confirmed a r t \<or> hs_creations t a = Some r \<and> posts a t = posts a s"
  using step
proof cases
  case (7 n rd again)
  then show ?thesis using uncertain_load [OF r, of n rd again] by (auto simp: posts_def)
next
  case (12 n now p)
  then show ?thesis using uncertain_prepared [OF ok _ r] by blast
next
  case (13 n q)
  then show ?thesis using uncertain_answered [OF ok _ r] by blast
qed (use r in \<open>auto simp: posts_def begin_apply_uncertain\<close>)

lemma uncertain_steps:
  assumes s: "hooks_reachable s" and r: "hs_creations s a = Some r" "re_state r = WriteUncertain" and steps: "hooks_step\<^sup>*\<^sup>* s t"
  shows "(\<exists>u. hooks_step\<^sup>*\<^sup>* s u \<and> hooks_step\<^sup>*\<^sup>* u t \<and> host_confirmed a r u) \<or> hs_creations t a = Some r \<and> posts a t = posts a s"
  using steps
proof (induction rule: rtranclp_induct)
  case base
  show ?case using r by simp
next
  case (step t t')
  have t: "hooks_ok t" using s step.hyps(1) hooks_ok_reachable by (meson rtranclp_trans)
  have t': "hooks_step\<^sup>*\<^sup>* s t'" using step.hyps by (meson rtranclp.rtrancl_into_rtrancl)
  from step.IH show ?case
  proof
    assume "\<exists>u. hooks_step\<^sup>*\<^sup>* s u \<and> hooks_step\<^sup>*\<^sup>* u t \<and> host_confirmed a r u"
    then show ?thesis using step.hyps(2) by (meson rtranclp.rtrancl_into_rtrancl)
  next
    assume u: "hs_creations t a = Some r \<and> posts a t = posts a s"
    then show ?thesis using uncertain_step [OF t _ r(2) step.hyps(2), of a] t' by auto
  qed
qed

text \<open>C15. A creation whose outcome is unknown is never repeated: if the same account sends another one,
  the panel had read a fresh inventory before that in which exactly one hook was new, disabled and as
  reviewed, and had recorded that hook as the outcome.\<close>

theorem uncertain_creation_not_repeated:
  assumes "hooks_reachable s" "hs_creations s a = Some r" "re_state r = WriteUncertain"
    and "hooks_step\<^sup>*\<^sup>* s t" "posts a t \<noteq> posts a s"
  shows "\<exists>u. hooks_step\<^sup>*\<^sup>* s u \<and> hooks_step\<^sup>*\<^sup>* u t \<and> host_confirmed a r u"
  using uncertain_steps [OF assms(1-4)] assms(5) by blast

lemma check_preparation_passed:
  assumes "check_preparation now att fresh p = None"
  shows "fresh" "ha_id (pr_actor p) = at_actor att"
    "\<exists>row \<in> set (pr_projects p). hp_id row = hp_id (action_project (at_action att)) \<and> hp_path row = hp_path (action_project (at_action att))"
    "hook_allowed now (pr_actor p) (pr_access p) (hp_id (action_project (at_action att))) (required_scopes (at_action att))"
  using assms by (simp_all add: check_preparation_def Let_def split: if_splits)

lemma check_preparation_hook:
  assumes "check_preparation now att fresh p = None" "at_action att = ChangeHook k h pr"
  shows "\<exists>row \<in> set (pr_hooks p). hk_id row = hk_id h \<and> hk_revision row = hk_revision h
    \<and> signature (command_body row) = signature (command_body h)"
  using assms by (auto simp: check_preparation_def Let_def split: if_splits option.splits dest!: find_SomeD)

text \<open>What is sent is what was reviewed: the account is the one of the review, the project still has
  its folder, the account's present grants allow the change, and a changed hook still has the revision
  and the command that were shown.\<close>

theorem hook_write_reviewed:
  assumes "hs_sent (apply_prepared now n reply s) \<noteq> hs_sent s"
  defines "att \<equiv> hs_attempts s ! n"
  shows "\<exists>p. reply = Inr p \<and> at_epoch att = hs_epoch s \<and> ha_id (pr_actor p) = at_actor att
    \<and> (\<exists>row \<in> set (pr_projects p). hp_id row = hp_id (action_project (at_action att)) \<and> hp_path row = hp_path (action_project (at_action att)))
    \<and> hook_allowed now (pr_actor p) (pr_access p) (hp_id (action_project (at_action att))) (required_scopes (at_action att))
    \<and> (case at_action att of CreateHook _ _ \<Rightarrow> True
       | ChangeHook _ h _ \<Rightarrow> \<exists>row \<in> set (pr_hooks p). hk_id row = hk_id h \<and> hk_revision row = hk_revision h
            \<and> signature (command_body row) = signature (command_body h))
    \<and> hs_sent (apply_prepared now n reply s) = hs_sent s @ [write_of n att]"
proof -
  from assms(1) apply_prepared_cases [of now n reply s] obtain p where
    p: "reply = Inr p" "check_preparation now att (attempt_fresh att s) p = None" "apply_prepared now n reply s = dispatch n p s"
    unfolding att_def by auto
  have sent: "hs_sent (apply_prepared now n reply s) = hs_sent s @ [write_of n att]"
    using p(3) by (simp add: att_def)
  have "attempt_fresh att s" using check_preparation_passed(1) [OF p(2)] .
  then show ?thesis
    using check_preparation_passed(2-) [OF p(2)] check_preparation_hook [OF p(2)]
    by (intro exI [of _ p]) (simp add: p(1) sent [unfolded p(1)] attempt_fresh_def split: hook_action.split)
qed

subsection \<open>Sample runs\<close>

definition sample_actor :: hook_actor where
  "sample_actor = \<lparr>ha_id = ''ana'', ha_scopes = [''agent-control'', ''files-read'', ''files-write''], ha_policy = Some 3, ha_session = Some ''s1''\<rparr>"

definition sample_access :: hook_access where
  "sample_access = \<lparr>hc_role = Some ''owner'', hc_grants = []\<rparr>"

definition sample_project :: hook_project where
  "sample_project = \<lparr>hp_id = ''p'', hp_name = ''Shop'', hp_path = ''/shop''\<rparr>"

definition sample_body :: create_body where
  "sample_body = \<lparr>cb_project = ''p'', cb_event = ''before_turn'', cb_argv = [''make''], cb_cwd = ''/shop'', cb_timeout = 10,
     cb_capabilities = [], cb_enabled = False\<rparr>"

definition sample_hook :: "string \<Rightarrow> bool \<Rightarrow> hook" where
  "sample_hook i e = \<lparr>hk_id = i, hk_project = ''p'', hk_revision = 1, hk_event = ''before_turn'', hk_argv = [''make''], hk_cwd = ''/shop'',
     hk_timeout = 10, hk_capabilities = [], hk_enabled = e\<rparr>"

definition sample_create :: hook_action where
  "sample_create = CreateHook sample_body sample_project"

definition sample_preparation :: preparation where
  "sample_preparation = \<lparr>pr_actor = sample_actor, pr_access = sample_access, pr_projects = [sample_project], pr_hooks = []\<rparr>"

abbreviation sample_inventory :: "hook list \<Rightarrow> string \<Rightarrow> js_error + hook list \<times> hook_run list" where
  "sample_inventory hooks \<equiv> (\<lambda>p. Inr (hooks, []))"

definition run_load :: "hook list \<Rightarrow> nat \<Rightarrow> hooks \<Rightarrow> hooks" where
  "run_load hooks n s = load_finished n (sample_inventory hooks) (Inr sample_actor)
     (load_identified n (Inr (sample_actor, sample_access, [sample_project])) (start_load s))"

definition sample_loaded :: hooks where
  "sample_loaded = run_load [] 0 first_hooks"

definition sample_dispatched :: hooks where
  "sample_dispatched = apply_prepared 0 0 (Inr sample_preparation) (begin_apply sample_create sample_loaded)"

definition sample_uncertain :: hooks where
  "sample_uncertain = apply_answered 0 (Inl (api_error 503 ''unavailable'')) sample_dispatched"

definition sample_again :: hooks where
  "sample_again = apply_prepared 0 1 (Inr sample_preparation)
     (begin_apply sample_create (run_load [sample_hook ''h1'' False] 1 sample_uncertain))"

lemmas sample_defs = sample_actor_def sample_access_def sample_project_def sample_body_def sample_hook_def sample_create_def sample_preparation_def

lemma hooks_step_then: "hooks_step\<^sup>*\<^sup>* s t \<Longrightarrow> hooks_step t u \<Longrightarrow> hooks_step\<^sup>*\<^sup>* s u"
  by (rule rtranclp.rtrancl_into_rtrancl)

lemma run_load_steps:
  assumes "n < length (hs_loads (start_load s))"
  shows "hooks_step\<^sup>*\<^sup>* s (run_load hooks n s)"
proof -
  have l: "length (hs_loads (load_identified n r t)) = length (hs_loads t)" for r t
    by (auto simp: load_identified_def hooks_load_failed_def Let_def split: sum.splits prod.splits)
  have "hooks_step\<^sup>*\<^sup>* s (start_load s)"
    by (rule r_into_rtranclp) (rule hooks_step.intros)
  from hooks_step_then [OF this hooks_step.intros(6) [OF assms]] show ?thesis
    unfolding run_load_def by (rule hooks_step_then) (rule hooks_step.intros(7), simp add: l assms)
qed

lemma first_to_dispatched: "hooks_reachable sample_dispatched"
proof -
  have "hooks_reachable sample_loaded"
    unfolding sample_loaded_def by (rule run_load_steps) code_simp
  then have "hooks_reachable (begin_apply sample_create sample_loaded)"
    by (rule hooks_step_then) (rule hooks_step.intros)
  then show ?thesis
    unfolding sample_dispatched_def by (rule hooks_step_then) (rule hooks_step.intros, code_simp)
qed

lemma first_to_uncertain: "hooks_reachable sample_uncertain"
  unfolding sample_uncertain_def using first_to_dispatched by (rule hooks_step_then) (rule hooks_step.intros, code_simp)

lemma uncertain_to_again: "hooks_step\<^sup>*\<^sup>* sample_uncertain sample_again"
proof -
  have "hooks_step\<^sup>*\<^sup>* sample_uncertain (begin_apply sample_create (run_load [sample_hook ''h1'' False] 1 sample_uncertain))"
    by (rule hooks_step_then [OF run_load_steps hooks_step.intros(11)]) code_simp
  then show ?thesis
    unfolding sample_again_def by (rule hooks_step_then) (rule hooks_step.intros, code_simp)
qed

lemma uncertain_value:
  "map_option re_state (hs_creations sample_uncertain ''ana'') = Some WriteUncertain" "length (posts ''ana'' sample_uncertain) = 1"
  "length (posts ''ana'' sample_again) = 2"
  by code_simp+

theorem uncertain_creation_not_repeated_witness:
  "\<exists>r u. hs_creations sample_uncertain ''ana'' = Some r \<and> hooks_step\<^sup>*\<^sup>* u sample_again \<and> host_confirmed ''ana'' r u"
proof -
  obtain r where r: "hs_creations sample_uncertain ''ana'' = Some r" "re_state r = WriteUncertain"
    using uncertain_value(1) by auto
  have "posts ''ana'' sample_again \<noteq> posts ''ana'' sample_uncertain"
    using uncertain_value(2,3) by (metis numeral_eq_one_iff num.distinct(1))
  with uncertain_creation_not_repeated [OF first_to_uncertain r uncertain_to_again] r(1) show ?thesis by blast
qed

definition sample_begun :: hooks where
  "sample_begun = begin_apply sample_create sample_loaded"

theorem hook_write_reviewed_witness:
  "\<exists>p :: preparation. ha_id (pr_actor p) = ''ana'' \<and> hook_allowed 0 (pr_actor p) (pr_access p) ''p'' [''agent-control'', ''files-read'', ''files-write'']"
proof -
  have v: "length (hs_sent (apply_prepared 0 0 (Inr sample_preparation) sample_begun)) = 1" "length (hs_sent sample_begun) = 0"
    "at_actor (hs_attempts sample_begun ! 0) = ''ana''" "at_action (hs_attempts sample_begun ! 0) = sample_create"
    by code_simp+
  then have "hs_sent (apply_prepared 0 0 (Inr sample_preparation) sample_begun) \<noteq> hs_sent sample_begun"
    by (metis zero_neq_one)
  from hook_write_reviewed [OF this] v(3,4) show ?thesis
    by (auto simp: sample_create_def sample_project_def intro!: exI [of _ sample_preparation])
qed

text \<open>A lock resets the panel while a disable of one hook is on its way; the panel can start a
  creation then, for another target.\<close>

definition sample_two :: hooks where
  "sample_two = begin_apply sample_create (run_load [sample_hook ''h1'' True] 2 (unlock_hooks (stop_hooks False
     (begin_apply (ChangeHook OpDisable (sample_hook ''h1'' True) sample_project) (run_load [sample_hook ''h1'' True] 0 first_hooks)))))"

lemma sample_two_reachable: "hooks_reachable sample_two"
proof -
  have "hooks_reachable (run_load [sample_hook ''h1'' True] 0 first_hooks)"
    by (rule run_load_steps) code_simp
  note a = hooks_step_then [OF this hooks_step.intros(11), of "ChangeHook OpDisable (sample_hook ''h1'' True) sample_project"]
  note b = hooks_step_then [OF hooks_step_then [OF a hooks_step.intros(1), of False] hooks_step.intros(3)]
  have "hooks_reachable (run_load [sample_hook ''h1'' True] 2 (unlock_hooks (stop_hooks False
     (begin_apply (ChangeHook OpDisable (sample_hook ''h1'' True) sample_project) (run_load [sample_hook ''h1'' True] 0 first_hooks)))))"
    by (rule rtranclp_trans [OF b run_load_steps]) code_simp
  then show ?thesis
    unfolding sample_two_def by (rule hooks_step_then) (rule hooks_step.intros)
qed

theorem hook_writes_exclusive_witness:
  "attempt_target (hs_attempts sample_two ! 0) \<noteq> attempt_target (hs_attempts sample_two ! 1)"
proof -
  have "active_attempt sample_two 0" "active_attempt sample_two 1" by code_simp+
  with hook_writes_exclusive [OF sample_two_reachable] show ?thesis by simp
qed

section \<open>What is shown\<close>

text \<open>The words of the search, and the hooks and runs that hold all of them. \<open>exit\<close> prints a number.\<close>

definition search_terms :: "string \<Rightarrow> string list" where
  "search_terms q = filter (\<lambda>w. w \<noteq> []) (split_on (CHR '' '') (map (\<lambda>c. if is_space c then CHR '' '' else c) (trim (lower_text q))))"

definition matches_search :: "string \<Rightarrow> string \<Rightarrow> bool" where
  "matches_search q value \<longleftrightarrow> (\<forall>t \<in> set (search_terms q). contains t (lower_text value))"

definition project_name :: "hook_catalog \<Rightarrow> string \<Rightarrow> string" where
  "project_name c p = (case find (\<lambda>row. hp_id row = p) (ct_projects c) of None \<Rightarrow> [] | Some row \<Rightarrow> hp_name row)"

definition hook_words :: "hook_catalog \<Rightarrow> hook \<Rightarrow> string" where
  "hook_words c h = join_with '' '' ([project_name c (hk_project h), hk_event h] @ hk_argv h @
     [hk_cwd h, if hk_enabled h then ''enabled'' else ''disabled''])"

definition run_words :: "hook_catalog \<Rightarrow> hook_run \<Rightarrow> string" where
  "run_words c r = join_with '' '' [project_name c (hr_project r), hr_event r, or_text (hr_output r) [], or_text (hr_error r) [],
     case hr_exit r of None \<Rightarrow> [] | Some n \<Rightarrow> int_text n]"

definition shown_hooks :: "string \<Rightarrow> hook_catalog \<Rightarrow> hook list" where
  "shown_hooks q c = filter (\<lambda>h. matches_search q (hook_words c h)) (ct_hooks c)"

definition shown_runs :: "string \<Rightarrow> hook_catalog \<Rightarrow> hook_run list" where
  "shown_runs q c = filter (\<lambda>r. matches_search q (run_words c r)) (ct_runs c)"

datatype hook_event =
    CheckHost | LoadMore | DisableNow hook | ReviewEnable hook | ReviewRemove hook
  | EditDraft string | SubmitDraft | CancelReview | ConfirmReview hook_action

definition event_label :: "string \<Rightarrow> string" where
  "event_label e = (case map_of hook_events e of None \<Rightarrow> e | Some l \<Rightarrow> l)"

definition alert_text :: "string \<Rightarrow> 'a view" where
  "alert_text t = VEl ''p'' [attr_text ''role'' ''alert''] [] [VText t]"

definition status_text :: "string \<Rightarrow> 'a view" where
  "status_text t = VEl ''p'' [attr_text ''role'' ''status''] [] [VText t]"

text \<open>One hook of the list. \<open>json\<close> is \<open>JSON.stringify\<close> on a list of strings.\<close>

definition hook_article ::
  "(string list \<Rightarrow> string) \<Rightarrow> rat \<Rightarrow> hooks \<Rightarrow> hook_catalog \<Rightarrow> string \<Rightarrow> hook \<Rightarrow> hook_event view" where
  "hook_article json now s c owner h =
     (let target = project_name c (hk_project h); op = hs_operations s (op_key owner (hk_id h));
          can = catalog_allows now c (hk_project h); blocked = hs_working s \<or> op \<noteq> None
      in VEl ''article'' [attr_text ''aria-label'' (''Hook in '' @ target)] []
        [box ''div''
          [labelled ''h3'' (event_label (hk_event h)),
           labelled ''p'' (target @ '' '' @ [CHR 0xB7] @ '' '' @ (if hk_enabled h then ''Enabled'' else ''Disabled'') @ '' '' @ [CHR 0xB7] @ '' '' @
             int_text (hk_timeout h) @ ''s timeout''),
           labelled ''p'' (''Folder: '' @ hk_cwd h),
           labelled ''pre'' (json (hk_argv h)),
           show_if (\<not> can [''agent-control'']) (labelled ''p'' ''Read only in this project.''),
           show_if (case op of None \<Rightarrow> False | Some x \<Rightarrow> ho_uncertain x)
             (status_text ''Change outcome is uncertain. Check host state; no request is being repeated.'')],
         box ''div''
          [button (blocked \<or> \<not> can (if hk_enabled h then [''agent-control''] else [''agent-control'', ''files-read'', ''files-write''] @ hk_capabilities h))
             (if hk_enabled h then DisableNow h else ReviewEnable h) (if hk_enabled h then ''Disable'' else ''Enable''),
           button (blocked \<or> \<not> can [''agent-control'']) (ReviewRemove h) ''Remove hook'']])"

definition draft_field :: "string \<Rightarrow> string \<Rightarrow> string \<Rightarrow> bool \<Rightarrow> hook_event view" where
  "draft_field t label value disabled =
     box ''label'' [VText label, VEl t [attr_text ''value'' value, attr_flag ''disabled'' disabled] [(''onChange'', EditDraft label)] []]"

definition create_form ::
  "(string \<Rightarrow> string + jsval) \<Rightarrow> (string \<Rightarrow> int option) \<Rightarrow> rat \<Rightarrow> hooks \<Rightarrow> hook_catalog \<Rightarrow> hook_event view" where
  "create_form parse number now s c =
     (let d = hs_draft s; receipt = owner_receipt s; body = draft_body parse number d; frozen = hs_working s \<or> blocked_receipt receipt;
          dup = duplicate_body body receipt
      in VEl ''form'' [attr_text ''aria-label'' ''Create lifecycle hook''] []
        [draft_field ''select'' ''Run in project'' (dr_project d) frozen,
         draft_field ''select'' ''When to run'' (dr_event d) frozen,
         draft_field ''textarea'' ''Executable and arguments (one per line)'' (dr_argv d) frozen,
         draft_field ''input'' ''Working folder'' (dr_cwd d) frozen,
         draft_field ''input'' ''Timeout in seconds'' (dr_timeout d) frozen,
         button (frozen \<or> dup \<or> \<not> can_create now c d \<or> body = None) SubmitDraft
           (if dup then ''Hook saved'' else if blocked_receipt receipt then ''Check pending save outcome'' else ''Review disabled hook'')])"

definition run_outcome :: "hook_run \<Rightarrow> string" where
  "run_outcome r =
     (if hr_timed_out r then ''Timed out''
      else if truthy_text (hr_error r) then ''Failed''
      else case hr_exit r of None \<Rightarrow> ''Exit unknown'' | Some n \<Rightarrow> if n = 0 then ''Succeeded'' else ''Exit '' @ int_text n)"

text \<open>\<open>date\<close> prints a time in seconds. The latest 100 runs, newest first; the sort is stable.\<close>

definition latest_runs :: "hook_run list \<Rightarrow> hook_run list" where
  "latest_runs runs = take 100 (sort_key (\<lambda>r. - hr_created r) runs)"

definition history_view :: "(rat \<Rightarrow> string) \<Rightarrow> string \<Rightarrow> hook_catalog \<Rightarrow> hook_event view" where
  "history_view date q c =
     (let runs = shown_runs q c in
      box ''details'' ([labelled ''summary'' ''Execution history''] @
        (if runs = []
         then [labelled ''p'' (if trim q \<noteq> [] then ''No hook runs match this search.'' else ''No hook runs in the loaded projects.'')]
         else map (\<lambda>r. box ''article''
           [labelled ''h3'' (project_name c (hr_project r) @ '' '' @ [CHR 0xB7] @ '' '' @ event_label (hr_event r)),
            labelled ''p'' (date (hr_created r) @ '' '' @ [CHR 0xB7] @ '' '' @ run_outcome r),
            show_if (truthy_text (hr_error r)) (labelled ''p'' (or_text (hr_error r) [])),
            show_if (truthy_text (hr_output r)) (labelled ''pre'' (or_text (hr_output r) []))]) (latest_runs runs)) @
        [show_if (length runs > 100) (labelled ''p'' ''Showing the latest 100 matching runs.'')]))"

fun reviewed_command :: "hook_action \<Rightarrow> create_body" where
  "reviewed_command (CreateHook b _) = b"
| "reviewed_command (ChangeHook _ h _) = command_body h"

fun is_create :: "hook_action \<Rightarrow> bool" where
  "is_create (CreateHook _ _) = True"
| "is_create (ChangeHook _ _ _) = False"

fun is_kind :: "op_kind \<Rightarrow> hook_action \<Rightarrow> bool" where
  "is_kind k (ChangeHook k' _ _) = (k = k')"
| "is_kind _ _ = False"

definition review_dialog :: "(string list \<Rightarrow> string) \<Rightarrow> hooks \<Rightarrow> hook_event view" where
  "review_dialog json s =
     (case hs_review s of
        None \<Rightarrow> VNone
      | Some a \<Rightarrow>
          (let b = reviewed_command a in
           VEl ''dialog'' [] (if hs_working s then [] else [(''onOpenChange'', CancelReview)])
            [labelled ''h2'' (if is_create a then ''Save this disabled hook?'' else if is_kind OpEnable a then ''Enable this lifecycle hook?''
               else ''Remove this lifecycle hook?''),
             labelled ''p'' (if is_kind OpRemove a then ''Removes future lifecycle runs. A command already running may finish.''
               else ''This command can read and write project files as the host OS user when its lifecycle event occurs. Review the exact target and arguments; chat tool approvals do not approve each hook invocation.''),
             labelled ''p'' (''Project: '' @ hp_name (action_project a)), labelled ''p'' (''Folder: '' @ cb_cwd b),
             labelled ''p'' (''Event: '' @ event_label (cb_event b) @ '' '' @ [CHR 0xB7] @ '' Timeout: '' @ int_text (cb_timeout b) @ ''s''),
             labelled ''pre'' (json (cb_argv b)),
             labelled ''p'' ((if ''network-manage'' \<in> set (cb_capabilities b) then ''Network access is configured for this hook.'' else ''Network access is not granted.'')
               @ '' '' @ (if is_create a then ''It will be saved disabled.'' else ''No command runs when you confirm this settings change.'')),
             show_if (hs_error s \<noteq> []) (alert_text (hs_error s)),
             box ''div''
              [button (hs_working s) CancelReview ''Cancel review'',
               button (hs_working s \<or> hs_loading s \<or> hs_catalog s = None \<or> hs_locked s) (ConfirmReview a)
                 (if hs_working s then ''Saving'' @ [CHR 0x85] else if is_create a then ''Save disabled hook''
                  else if is_kind OpEnable a then ''Confirm enable'' else ''Confirm removal'')]]))"

definition catalog_view ::
  "(string list \<Rightarrow> string) \<Rightarrow> (rat \<Rightarrow> string) \<Rightarrow> (string \<Rightarrow> string + jsval) \<Rightarrow> (string \<Rightarrow> int option) \<Rightarrow> rat \<Rightarrow> string
    \<Rightarrow> hooks \<Rightarrow> hook_catalog \<Rightarrow> hook_event view list" where
  "catalog_view json date parse number now q s c =
     (let receipt = owner_receipt s; hooks = shown_hooks q c in
      [show_if (ct_unavailable c \<noteq> []) (alert_text (''Hooks are unavailable for '' @
         join_with '', '' (map hp_name (filter (\<lambda>p. hp_id p \<in> set (ct_unavailable c)) (ct_projects c)))
         @ ''. Other authorized projects remain available. Check host state to retry.'')),
       show_if (ct_shown c < length (ct_projects c)) (box ''p''
         [VText (''Showing '' @ nat_text (ct_shown c) @ '' of '' @ nat_text (length (ct_projects c)) @ '' authorized projects. ''),
          button (hs_working s) LoadMore ''Load more projects'']),
       show_if (ct_projects c = []) (labelled ''p'' ''No projects are available to this account. Add a project or ask the host owner for project access.''),
       show_if (hooks = []) (labelled ''p'' (if trim q \<noteq> [] then ''No hooks match this search.''
          else if ct_available c \<noteq> [] then ''No hooks in the loaded projects. Create one below when you need lifecycle automation.''
          else ''No hook inventories are currently available.''))] @
      map (hook_article json now s c (ha_id (ct_actor c))) hooks @
      [box ''details'' [labelled ''summary'' ''Add a hook'', create_form parse number now s c],
       show_if (blocked_receipt receipt) (status_text (''A hook save is '' @
         (if map_option re_state receipt = Some WritePending then ''pending'' else ''unconfirmed'') @
         ''. Check host state to inspect its outcome before creating another hook. No save is retried automatically.'')),
       history_view date q c])"

definition hooks_view ::
  "(string list \<Rightarrow> string) \<Rightarrow> (rat \<Rightarrow> string) \<Rightarrow> (string \<Rightarrow> string + jsval) \<Rightarrow> (string \<Rightarrow> int option) \<Rightarrow> rat \<Rightarrow> string
    \<Rightarrow> hooks \<Rightarrow> hook_event view" where
  "hooks_view json date parse number now q s =
     box ''section'' ([labelled ''h2'' ''Lifecycle hooks'',
       labelled ''p'' ''Run an explicitly configured command before a turn, after success, or after failure in its selected project folder. Saving a hook does not run it.'',
       button (hs_loading s \<or> hs_working s \<or> hs_locked s) CheckHost ''Check host state'',
       (if hs_locked s then status_text ''Unlock this workspace to inspect hooks.''
        else if hs_loading s then status_text (''Loading authorized projects and hooks'' @ [CHR 0x85])
        else if hs_error s \<noteq> [] \<and> hs_catalog s = None then alert_text (hs_error s) else VNone),
       show_if (hs_error s \<noteq> [] \<and> hs_catalog s \<noteq> None \<and> hs_review s = None) (alert_text (hs_error s)),
       show_if (hs_notice s \<noteq> []) (status_text (hs_notice s))] @
      (case hs_catalog s of None \<Rightarrow> [] | Some c \<Rightarrow> catalog_view json date parse number now q s c) @ [review_dialog json s])"

lemma offers_texts [simp]: "offers (alert_text t) = []" "offers (status_text t) = []"
  by (simp_all add: alert_text_def status_text_def)

lemma offers_hook_article:
  "e \<in> set (offers (hook_article json now s c owner h)) \<Longrightarrow>
     hs_operations s (op_key owner (hk_id h)) = None \<and> \<not> hs_working s
     \<and> (e = DisableNow h \<or> e = ReviewEnable h \<or> e = ReviewRemove h) \<and> catalog_allows now c (hk_project h) [''agent-control'']"
  by (auto simp: hook_article_def Let_def is_on_def jget_def attr_text_def catalog_allows_def hook_allowed_def split: if_splits)

lemma offers_create_form:
  "SubmitDraft \<in> set (offers (create_form parse number now s c)) \<Longrightarrow>
     \<not> hs_working s \<and> \<not> blocked_receipt (owner_receipt s) \<and> \<not> duplicate_body (draft_body parse number (hs_draft s)) (owner_receipt s)
     \<and> can_create now c (hs_draft s) \<and> draft_body parse number (hs_draft s) \<noteq> None"
  by (auto simp: create_form_def draft_field_def Let_def is_on_def jget_def attr_text_def attr_flag_def split: if_splits)

definition hook_event_allowed ::
  "(string \<Rightarrow> string + jsval) \<Rightarrow> (string \<Rightarrow> int option) \<Rightarrow> rat \<Rightarrow> hooks \<Rightarrow> hook_event \<Rightarrow> bool" where
  "hook_event_allowed parse number now s e =
     (case e of
        DisableNow h \<Rightarrow> \<not> hs_working s \<and> (\<exists>c. hs_catalog s = Some c \<and> h \<in> set (ct_hooks c) \<and> hs_operations s (op_key (ha_id (ct_actor c)) (hk_id h)) = None
          \<and> catalog_allows now c (hk_project h) [''agent-control''])
      | ReviewEnable h \<Rightarrow> \<not> hs_working s \<and> (\<exists>c. hs_catalog s = Some c \<and> h \<in> set (ct_hooks c) \<and> hs_operations s (op_key (ha_id (ct_actor c)) (hk_id h)) = None
          \<and> catalog_allows now c (hk_project h) [''agent-control''])
      | ReviewRemove h \<Rightarrow> \<not> hs_working s \<and> (\<exists>c. hs_catalog s = Some c \<and> h \<in> set (ct_hooks c) \<and> hs_operations s (op_key (ha_id (ct_actor c)) (hk_id h)) = None
          \<and> catalog_allows now c (hk_project h) [''agent-control''])
      | SubmitDraft \<Rightarrow> \<not> hs_working s \<and> \<not> blocked_receipt (owner_receipt s) \<and> \<not> duplicate_body (draft_body parse number (hs_draft s)) (owner_receipt s)
      | ConfirmReview a \<Rightarrow> \<not> hs_working s \<and> \<not> hs_loading s \<and> \<not> hs_locked s \<and> hs_review s = Some a
      | _ \<Rightarrow> True)"

lemma in_draft_field [simp]: "e \<in> set (offers (draft_field t l v d)) \<longleftrightarrow> \<not> d \<and> e = EditDraft l"
  by (auto simp: draft_field_def is_on_def jget_def attr_text_def attr_flag_def)

lemma in_create_form:
  "e \<in> set (offers (create_form parse number now s c)) \<Longrightarrow> e = SubmitDraft \<or> (\<exists>l. e = EditDraft l)"
  by (auto simp: create_form_def Let_def in_offers is_on_def jget_def attr_text_def simp del: offer_rules)

lemma draft_offers_form:
  assumes "e \<in> set (offers (create_form parse number now s c))"
  shows "hook_event_allowed parse number now s e"
  using in_create_form [OF assms] offers_create_form [of parse number now s c] assms
  by (elim disjE exE) (simp_all add: hook_event_allowed_def)

lemma offers_dialog:
  "e \<in> set (offers (review_dialog json s)) \<Longrightarrow> hook_event_allowed parse number now s e"
  by (auto simp: review_dialog_def hook_event_allowed_def Let_def is_on_def jget_def split: option.splits if_splits)

lemma offers_history [simp]: "offers (history_view date q c) = []"
  by (auto simp: history_view_def Let_def simp del: concat_eq_Nil_conv intro!: concat_eq_Nil_conv [THEN iffD2])

lemma offers_catalog:
  assumes "e \<in> set (offers v)" "v \<in> set (catalog_view json date parse number now q s c)" "hs_catalog s = Some c"
  shows "hook_event_allowed parse number now s e"
proof -
  have "e = LoadMore \<or> (\<exists>h \<in> set (shown_hooks q c). e \<in> set (offers (hook_article json now s c (ha_id (ct_actor c)) h)))
      \<or> e \<in> set (offers (create_form parse number now s c))"
    using assms(1,2) unfolding catalog_view_def Let_def
    by (simp only: set_append list.set set_map Un_iff insert_iff empty_iff image_iff) (elim disjE bexE; auto simp add: in_offers simp del: offer_rules)
  then show ?thesis
  proof (elim disjE bexE)
    fix h assume "h \<in> set (shown_hooks q c)" "e \<in> set (offers (hook_article json now s c (ha_id (ct_actor c)) h))"
    then show ?thesis
      using offers_hook_article [of e json now s c "ha_id (ct_actor c)" h] assms(3) by (auto simp: hook_event_allowed_def shown_hooks_def)
  qed (simp_all add: draft_offers_form, simp add: hook_event_allowed_def)
qed

text \<open>The panel offers a change only of a loaded hook of the account, when no change of that hook is
  pending or uncertain and the account may control its project, and a new hook only when no creation
  of the account is pending or uncertain and the draft does not repeat the saved one; it confirms
  only the review it shows.\<close>

theorem hook_buttons_honest:
  assumes "e \<in> set (offers (hooks_view json date parse number now q s))"
  shows "hook_event_allowed parse number now s e"
proof -
  from assms consider "e \<in> {CheckHost}" | c v where "hs_catalog s = Some c" "v \<in> set (catalog_view json date parse number now q s c)" "e \<in> set (offers v)"
    | "e \<in> set (offers (review_dialog json s))"
    by (cases "hs_catalog s") (auto simp: hooks_view_def split: if_splits)
  then show ?thesis
    using offers_catalog offers_dialog by cases (auto simp: hook_event_allowed_def)
qed

theorem hook_buttons_honest_witness:
  "hook_event_allowed (\<lambda>_. Inl []) (\<lambda>_. Some 10) 0 (sample_uncertain\<lparr>hs_loading := False\<rparr>) CheckHost"
  by (rule hook_buttons_honest [where json = concat and date = "\<lambda>_. []" and q = "[]"]) code_simp

definition locked_ok :: "hooks \<Rightarrow> bool" where
  "locked_ok s \<longleftrightarrow> (hs_locked s \<longrightarrow> hs_catalog s = None \<and> hs_review s = None \<and> (\<forall>l \<in> set (hs_loads s). ld_aborted l))"

lemma locked_ok_reachable: "hooks_reachable s \<Longrightarrow> locked_ok s"
proof (induction rule: rtranclp_induct)
  case base
  show ?case by (simp add: locked_ok_def first_hooks_def)
next
  case (step s t)
  have start: "locked_ok u \<Longrightarrow> locked_ok (start_load u)" for u
    by (auto simp: locked_ok_def start_load_def)
  have failed: "locked_ok u \<Longrightarrow> locked_ok (apply_failed n d e u)" for u n d e
    by (auto simp: locked_ok_def apply_failed_def end_attempt_def Let_def split: hook_action.splits option.splits)
  have ended: "locked_ok u \<Longrightarrow> locked_ok (end_attempt n u)" for u n
    by (auto simp: locked_ok_def end_attempt_def Let_def)
  have succeeded: "locked_ok u \<Longrightarrow> locked_ok (apply_succeeded n i u)" for u n i
    unfolding apply_succeeded_def Let_def
    by (auto intro!: start ended split: hook_action.splits) (auto simp: locked_ok_def)
  have sent: "locked_ok u \<Longrightarrow> locked_ok (dispatch n p u)" for u n p
    by (cases "at_action (hs_attempts u ! n)") (auto simp: locked_ok_def dispatch_def Let_def)
  from step.hyps(2) step.IH show ?case
  proof cases
    case (6 n r)
    then show ?thesis using step.IH
      by (auto simp: locked_ok_def load_identified_def hooks_load_failed_def load_fresh_def Let_def split: sum.splits prod.splits)
  next
    case (7 n rd again)
    then show ?thesis using step.IH
      by (auto simp: locked_ok_def load_finished_def hooks_load_failed_def load_fresh_def Let_def split: sum.splits option.splits)
  next
    case (12 n now p)
    then show ?thesis using step.IH apply_prepared_cases [of now n p s] failed sent by auto
  next
    case (13 n q)
    then show ?thesis using step.IH apply_answered_cases [of n q s] failed succeeded by auto
  next
    case (10 parse number now)
    then show ?thesis using step.IH
      by (auto simp: locked_ok_def create_review_def Let_def split: option.splits sum.splits)
  next
    case (11 a)
    then show ?thesis using step.IH
      by (auto simp: locked_ok_def begin_apply_def Let_def split: option.splits hook_action.splits)
  qed (use step.IH in \<open>simp_all add: locked_ok_def stop_hooks_def abort_loads_def unlock_hooks_def start_load_def more_projects_def remount_hooks_def Let_def\<close>)
qed

text \<open>While the workspace is locked the panel holds no inventory and no review, and offers nothing,
  whatever answers still come in.\<close>

theorem locked_panel_silent:
  assumes "hooks_reachable s" "hs_locked s"
  shows "hs_catalog s = None \<and> hs_review s = None \<and> offers (hooks_view json date parse number now q s) = []"
  using locked_ok_reachable [OF assms(1)] assms(2)
  by (simp add: locked_ok_def hooks_view_def review_dialog_def)

theorem locked_panel_silent_witness:
  "offers (hooks_view concat (\<lambda>_. []) (\<lambda>_. Inl []) (\<lambda>_. None) 0 [] (stop_hooks True sample_uncertain)) = []"
  using locked_panel_silent [OF hooks_step_then [OF first_to_uncertain hooks_step.intros(1), of True], of concat "\<lambda>_. []"]
  by (simp add: stop_hooks_def Let_def)

end
