(* ===== verification/HostService.thy ===== *)
theory HostService
  imports OneAtATime View
begin

text \<open>
  \<open>features/HostServiceSettings.tsx\<close>: installing, starting, stopping and removing the background service of the
  host. An action is reviewed before it is sent, one thing runs at a time, and a panel that is gone shows nothing.
  \<open>to_number\<close> is the conversion \<open>Number\<close> of a text.
\<close>

record service_status =
  ss_backend :: string
  ss_installed :: bool
  ss_running :: bool
  ss_ready :: bool
  ss_managed :: bool
  ss_url :: "string option"
  ss_port :: "int option"
  ss_last_error :: "string option"
  ss_supported :: bool
  ss_tunnel :: "string option"

record service_tunnel =
  tn_id :: string
  tn_name :: string
  tn_provider :: string
  tn_kind :: string

datatype service_action = ServiceInstall | ServiceStart | ServiceStop | ServiceUninstall

definition stops_host :: "service_action \<Rightarrow> bool" where
  "stops_host a \<longleftrightarrow> a = ServiceStop \<or> a = ServiceUninstall"

definition action_word :: "service_action \<Rightarrow> string" where
  "action_word a = (case a of ServiceInstall \<Rightarrow> ''install'' | ServiceStart \<Rightarrow> ''start'' | ServiceStop \<Rightarrow> ''stop'' | ServiceUninstall \<Rightarrow> ''uninstall'')"

text \<open>What is posted: the action, and for an installation its port and tunnel.\<close>

record service_request =
  sq_action :: service_action
  sq_port :: "jsnum option"
  sq_tunnel :: "string option"

datatype run_phase = RunPosting service_action | RunLoading | RunDone

record service_panel =
  sp_status :: "service_status option"
  sp_error :: string
  sp_notice :: string
  sp_busy :: bool
  sp_review :: "service_action option"
  sp_port :: string
  sp_tunnels :: "service_tunnel list"
  sp_tunnel :: string
  sp_tunnel_error :: string
  sp_alive :: bool
  sp_flight :: bool
  sp_runs :: "run_phase list"
  sp_requests :: "service_request list"
  sp_saved :: nat

definition open_service :: service_panel where
  "open_service = \<lparr>sp_status = None, sp_error = [], sp_notice = [], sp_busy = False, sp_review = None, sp_port = ''8787'', sp_tunnels = [], sp_tunnel = [],
     sp_tunnel_error = [], sp_alive = True, sp_flight = False, sp_runs = [], sp_requests = [], sp_saved = 0\<rparr>"

text \<open>\<open>load\<close>, when its answer is there; \<open>if(result.port)\<close> takes no zero.\<close>

definition status_loaded :: "service_status \<Rightarrow> service_panel \<Rightarrow> service_panel" where
  "status_loaded st p =
     (if \<not> sp_alive p then p
      else p\<lparr>sp_status := Some st, sp_error := [],
             sp_port := (case ss_port st of Some n \<Rightarrow> if n = 0 then sp_port p else int_text n | None \<Rightarrow> sp_port p)\<rparr>)"

definition service_failed :: "js_error \<Rightarrow> service_panel \<Rightarrow> service_panel" where
  "service_failed e p = (if sp_alive p then p\<lparr>sp_error := error_message e\<rparr> else p)"

definition first_load :: "service_status js_result \<Rightarrow> service_panel \<Rightarrow> service_panel" where
  "first_load r p = (case r of Inl e \<Rightarrow> service_failed e p | Inr st \<Rightarrow> status_loaded st p)"

definition tunnels_loaded :: "service_tunnel list js_result \<Rightarrow> service_panel \<Rightarrow> service_panel" where
  "tunnels_loaded r p =
     (if \<not> sp_alive p then p
      else (case r of Inr ts \<Rightarrow> p\<lparr>sp_tunnels := ts\<rparr>
            | Inl _ \<Rightarrow> p\<lparr>sp_tunnel_error := ''Tunnel profiles are unavailable. You can install a local service without a tunnel.''\<rparr>))"

definition request_of :: "(string \<Rightarrow> jsnum) \<Rightarrow> service_action \<Rightarrow> service_panel \<Rightarrow> service_request" where
  "request_of to_number a p =
     \<lparr>sq_action = a, sq_port = (if a = ServiceInstall then Some (to_number (sp_port p)) else None),
      sq_tunnel = (if a = ServiceInstall \<and> sp_tunnel p \<noteq> [] then Some (sp_tunnel p) else None)\<rparr>"

definition run_service :: "(string \<Rightarrow> jsnum) \<Rightarrow> service_action option \<Rightarrow> service_panel \<Rightarrow> service_panel" where
  "run_service to_number a p =
     (if sp_flight p then p
      else (let p' = p\<lparr>sp_flight := True, sp_busy := True, sp_error := [], sp_notice := []\<rparr> in
            case a of None \<Rightarrow> p'\<lparr>sp_runs := sp_runs p @ [RunLoading]\<rparr>
            | Some x \<Rightarrow> p'\<lparr>sp_runs := sp_runs p @ [RunPosting x], sp_requests := sp_requests p @ [request_of to_number x p]\<rparr>))"

definition end_run :: "nat \<Rightarrow> service_panel \<Rightarrow> service_panel" where
  "end_run n p = p\<lparr>sp_runs := (sp_runs p)[n := RunDone], sp_flight := False, sp_busy := (if sp_alive p then False else sp_busy p)\<rparr>"

definition service_notice :: "service_action \<Rightarrow> string" where
  "service_notice a =
     (if stops_host a then ''Host shutdown requested. The connection may close; saved schedules remain.''
      else action_word a @ '' requested. Refresh status to verify readiness.'')"

definition run_posted :: "nat \<Rightarrow> service_action \<Rightarrow> unit js_result \<Rightarrow> service_panel \<Rightarrow> service_panel" where
  "run_posted n a r p =
     (case r of
        Inl e \<Rightarrow> end_run n (service_failed e p)
      | Inr _ \<Rightarrow>
          (let p1 = (if a = ServiceInstall then p\<lparr>sp_saved := Suc (sp_saved p)\<rparr> else p);
               p2 = (if sp_alive p then p1\<lparr>sp_review := None, sp_notice := service_notice a\<rparr> else p1)
           in if stops_host a then end_run n p2 else p2\<lparr>sp_runs := (sp_runs p)[n := RunLoading]\<rparr>))"

definition run_loaded :: "nat \<Rightarrow> service_status js_result \<Rightarrow> service_panel \<Rightarrow> service_panel" where
  "run_loaded n r p = end_run n (first_load r p)"

section \<open>What it shows\<close>

definition selected_tunnel :: "service_panel \<Rightarrow> service_tunnel option" where
  "selected_tunnel p = find (\<lambda>t. tn_id t = sp_tunnel p) (sp_tunnels p)"

definition valid_port :: "(string \<Rightarrow> jsnum) \<Rightarrow> service_panel \<Rightarrow> bool" where
  "valid_port to_number p \<longleftrightarrow> (case to_number (sp_port p) of Fin r \<Rightarrow> snd (quotient_of r) = 1 \<and> 1 \<le> r \<and> r \<le> 65535 | _ \<Rightarrow> False)"

datatype service_press = ReviewService service_action | ConfirmService service_action | RefreshService | CancelService | TypePort | PickTunnel string

definition tunnel_text :: "service_tunnel \<Rightarrow> string" where
  "tunnel_text t = tn_name t @ [CHR '' '', CHR 0xB7, CHR '' ''] @ tn_provider t @ [CHR '' '', CHR 0xB7, CHR '' ''] @ tn_kind t"

definition service_body :: "(string \<Rightarrow> jsnum) \<Rightarrow> service_panel \<Rightarrow> service_status \<Rightarrow> service_press view" where
  "service_body to_number p st =
     (let locked = sp_busy p \<or> \<not> ss_supported st in box ''div''
       [labelled ''p'' (if ss_ready st then ''Ready'' else if ss_running st then ''Running, waiting for readiness'' else if ss_installed st then ''Installed, stopped''
          else ''Not installed''),
        show_if (truthy_text (ss_last_error st)) (labelled ''p'' (or_text (ss_last_error st) [])),
        show_if (\<not> ss_supported st) (labelled ''p'' ''Background service management is unavailable on this host.''),
        show_if (ss_installed st \<and> \<not> ss_running st) (button locked (ReviewService ServiceStart) ''Start background service''),
        show_if (ss_installed st \<and> ss_running st) (button locked (ReviewService ServiceStop) ''Stop background service''),
        VEl ''input'' [attr_flag ''disabled'' (sp_busy p), attr_text ''value'' (sp_port p)] [(''onChange'', TypePort)] [],
        picker (sp_busy p) PickTunnel (\<lambda>i. if i = [] then ''None, local service only'' else concat (map tunnel_text (filter (\<lambda>t. tn_id t = i) (sp_tunnels p))))
          ([] # map tn_id (sp_tunnels p)),
        show_if (sp_tunnel_error p \<noteq> []) (labelled ''p'' (sp_tunnel_error p)),
        button (locked \<or> \<not> valid_port to_number p \<or> (sp_tunnel p \<noteq> [] \<and> selected_tunnel p = None)) (ReviewService ServiceInstall) ''Install background service'',
        labelled ''p'' (ss_backend st @ [CHR '' '', CHR 0xB7, CHR '' ''] @ (if ss_managed st then ''Managed service'' else ''Desktop host'')),
        show_if (truthy_text (ss_url st)) (labelled ''p'' (''Host address: '' @ or_text (ss_url st) [])),
        show_if (ss_installed st) (button locked (ReviewService ServiceUninstall) ''Uninstall background service'')])"

definition service_dialog :: "service_panel \<Rightarrow> service_press view" where
  "service_dialog p =
     (case sp_review p of None \<Rightarrow> VNone
      | Some a \<Rightarrow> box ''dialog''
          [labelled ''h2'' (''Confirm '' @ action_word a @ '' background service''),
           labelled ''p'' (if stops_host a
             then ''This can disconnect all clients and pause scheduled work until the host starts again. Saved work and schedules are retained.''
             else ''Set up the host on this machine to serve authenticated clients independently of the desktop. The machine must stay awake. Desktop-bound broker permissions are unavailable after the desktop exits.''),
           show_if (sp_error p \<noteq> []) (labelled ''p'' (sp_error p)),
           labelled ''p'' (if a = ServiceInstall then ''Exact service address: http://127.0.0.1:'' @ sp_port p
             else if a = ServiceStart then ''Start the installed service at '' @ or_text (Option.bind (sp_status p) ss_url) ''its saved local address'' @ ''.''
             else ''Action: '' @ action_word a @ '' the background service on this host.''),
           show_if (a = ServiceInstall) (labelled ''p'' (case selected_tunnel p of
               Some t \<Rightarrow> ''Restore tunnel '' @ tunnel_text t @ [CHR '' '', CHR 0xB7, CHR '' ''] @ ''exact profile '' @ tn_id t @ '' after host restarts.''
             | None \<Rightarrow> ''No tunnel will start automatically. The service remains local.'')),
           show_if (a = ServiceStart \<and> truthy_text (Option.bind (sp_status p) ss_tunnel))
             (labelled ''p'' (''Start the saved tunnel profile: '' @ or_text (Option.bind (sp_status p) ss_tunnel) [] @ ''.'')),
           button (sp_busy p) (ConfirmService a) (''Confirm '' @ action_word a @ '' background service''), button (sp_busy p) CancelService ''Cancel''])"

definition service_view :: "(string \<Rightarrow> jsnum) \<Rightarrow> service_panel \<Rightarrow> service_press view" where
  "service_view to_number p = box ''section''
     [labelled ''h2'' ''Background service'', labelled ''p'' ''Keep this host available when the desktop closes. The machine must stay awake.'',
      show_if (sp_error p \<noteq> [] \<and> sp_review p = None) (labelled ''p'' (sp_error p)), show_if (sp_notice p \<noteq> []) (labelled ''p'' (sp_notice p)),
      (case sp_status p of Some st \<Rightarrow> service_body to_number p st
       | None \<Rightarrow> show_if (sp_error p = []) (labelled ''p'' ''Loading host service status...'')),
      button (sp_busy p) RefreshService ''Refresh host service status'', service_dialog p]"

section \<open>Steps\<close>

definition service_click :: "(string \<Rightarrow> jsnum) \<Rightarrow> string \<Rightarrow> service_press \<Rightarrow> service_panel \<Rightarrow> service_panel" where
  "service_click to_number typed a p =
     (case a of ReviewService x \<Rightarrow> p\<lparr>sp_review := Some x\<rparr> | ConfirmService x \<Rightarrow> run_service to_number (Some x) p
      | RefreshService \<Rightarrow> run_service to_number None p | CancelService \<Rightarrow> p\<lparr>sp_review := None\<rparr> | TypePort \<Rightarrow> p\<lparr>sp_port := typed\<rparr>
      | PickTunnel i \<Rightarrow> p\<lparr>sp_tunnel := i\<rparr>)"

inductive service_moves :: "(string \<Rightarrow> jsnum) \<Rightarrow> service_panel \<Rightarrow> service_panel \<Rightarrow> bool" for to_number :: "string \<Rightarrow> jsnum" where
  sm_clicked: "sp_alive p \<Longrightarrow> a \<in> set (offers (service_view to_number p)) \<Longrightarrow> service_moves to_number p (service_click to_number typed a p)"
| sm_first: "service_moves to_number p (first_load r p)"
| sm_tunnels: "service_moves to_number p (tunnels_loaded ts p)"
| sm_posted: "n < length (sp_runs p) \<Longrightarrow> sp_runs p ! n = RunPosting a \<Longrightarrow> service_moves to_number p (run_posted n a u p)"
| sm_loaded: "n < length (sp_runs p) \<Longrightarrow> sp_runs p ! n = RunLoading \<Longrightarrow> service_moves to_number p (run_loaded n r p)"
| sm_unmounted: "service_moves to_number p (p\<lparr>sp_alive := False\<rparr>)"

definition service_ledger :: "service_panel \<Rightarrow> op_ledger" where
  "service_ledger p = (0, map (\<lambda>x. (0, x = RunDone)) (sp_runs p), sp_flight p)"

definition service_opened :: "service_panel \<Rightarrow> bool" where
  "service_opened p \<longleftrightarrow> p = open_service"

definition service_ok :: "service_panel \<Rightarrow> bool" where
  "service_ok p \<longleftrightarrow> (sp_alive p \<longrightarrow> sp_busy p = sp_flight p)"

text \<open>What the answers to readings leave alone.\<close>

lemma loads_keep [simp]:
  "sp_flight (first_load r p) = sp_flight p" "sp_busy (first_load r p) = sp_busy p" "sp_alive (first_load r p) = sp_alive p"
  "sp_runs (first_load r p) = sp_runs p" "sp_requests (first_load r p) = sp_requests p"
  "sp_flight (service_failed e p) = sp_flight p" "sp_busy (service_failed e p) = sp_busy p" "sp_alive (service_failed e p) = sp_alive p"
  "sp_runs (service_failed e p) = sp_runs p" "sp_requests (service_failed e p) = sp_requests p"
  "sp_flight (tunnels_loaded ts p) = sp_flight p" "sp_busy (tunnels_loaded ts p) = sp_busy p" "sp_alive (tunnels_loaded ts p) = sp_alive p"
  "sp_runs (tunnels_loaded ts p) = sp_runs p" "sp_requests (tunnels_loaded ts p) = sp_requests p"
  by (simp_all add: first_load_def status_loaded_def service_failed_def tunnels_loaded_def split: sum.split)

lemma posted_fields:
  "sp_requests (run_posted n a u p) = sp_requests p" "sp_alive (run_posted n a u p) = sp_alive p"
  "service_ok p \<Longrightarrow> service_ok (run_posted n a u p)"
  "sp_runs (run_posted n a u p) = (sp_runs p)[n := (case u of Inr _ \<Rightarrow> if stops_host a then RunDone else RunLoading | Inl _ \<Rightarrow> RunDone)]"
  "sp_flight (run_posted n a u p) = (case u of Inr _ \<Rightarrow> \<not> stops_host a \<and> sp_flight p | Inl _ \<Rightarrow> False)"
  by (auto simp: run_posted_def end_run_def Let_def service_ok_def split: sum.split)

lemma click_ok: "service_ok p \<Longrightarrow> service_ok (service_click to_number typed a p)"
  by (auto simp: service_click_def run_service_def service_ok_def Let_def split: service_press.split option.split)

lemma service_moves_ok:
  assumes "service_moves to_number p q" "service_ok p" shows "service_ok q"
  using assms(1)
proof cases
  case (sm_loaded n r)
  then show ?thesis by (simp add: run_loaded_def end_run_def service_ok_def)
next
  case sm_unmounted
  then show ?thesis by (simp add: service_ok_def)
qed (use assms(2) in \<open>simp_all add: click_ok posted_fields, simp_all add: service_ok_def\<close>)

lemma runs_settled:
  assumes "n < length (sp_runs p)" "sp_runs p ! n \<noteq> RunDone"
  shows "op_change (service_ledger p) (0, map (\<lambda>x. (0, x = RunDone)) ((sp_runs p)[n := RunDone]), False)"
  using op_settled [of n "map (\<lambda>x. (0, x = RunDone)) (sp_runs p)" 0 0 "sp_flight p"] assms by (simp add: service_ledger_def map_update)

lemma runs_loading:
  assumes "n < length (sp_runs p)" "sp_runs p ! n \<noteq> RunDone" "ph \<noteq> RunDone"
  shows "map (\<lambda>x. (0 :: nat, x = RunDone)) ((sp_runs p)[n := ph]) = map (\<lambda>x. (0, x = RunDone)) (sp_runs p)"
  using assms by (simp add: map_update list_update_same_conv)

lemma service_moves_change:
  assumes "service_moves to_number p q" shows "op_change (service_ledger p) (service_ledger q)"
  using assms
proof cases
  case (sm_clicked a typed)
  then show ?thesis using op_begun [of 0]
    by (auto simp: service_click_def run_service_def service_ledger_def Let_def op_idle split: service_press.split option.split)
next
  case (sm_posted n a u)
  then show ?thesis using runs_settled [of n p] runs_loading [of n p RunLoading]
    by (auto simp: service_ledger_def posted_fields op_idle split: sum.split)
next
  case (sm_loaded n r)
  then show ?thesis using runs_settled [of n p] by (simp add: run_loaded_def end_run_def service_ledger_def)
qed (simp_all add: service_ledger_def op_idle)

interpretation service_runs: one_at_a_time service_opened "service_moves to_number" service_ok service_ledger
  by unfold_locales (simp add: service_opened_def open_service_def service_ok_def service_ledger_def, erule (1) service_moves_ok [rotated], erule service_moves_change)

lemma confirm_offered: "ConfirmService a \<in> set (offers (service_view to_number p)) \<Longrightarrow> sp_review p = Some a \<and> \<not> sp_busy p"
  by (auto simp: service_view_def service_body_def service_dialog_def Let_def in_offers is_on_def jget_def attr_flag_def attr_text_def
      simp del: offer_rules split: option.splits if_splits)

text \<open>C27. Nothing is asked of the service but what the open review shows, and confirming it asks exactly that, while nothing else runs.\<close>

theorem service_acts_on_its_review:
  assumes "reached service_opened (service_moves to_number) p" "service_moves to_number p q"
  shows "sp_requests q = sp_requests p
    \<or> (\<exists>a. sp_review p = Some a \<and> sp_requests q = sp_requests p @ [request_of to_number a p] \<and> (\<forall>x \<in> set (sp_runs p). x = RunDone))"
  using assms(2)
proof cases
  case (sm_clicked a typed)
  show ?thesis
  proof (cases "\<exists>x. a = ConfirmService x")
    case True
    then obtain x where x: "a = ConfirmService x" by blast
    then have "sp_review p = Some x" "\<not> sp_flight p"
      using confirm_offered [of x to_number p] sm_clicked service_runs.reached_holds [OF assms(1)] by (auto simp: service_ok_def)
    moreover have "(0, r = RunDone) \<noteq> (0 :: nat, False)" if "r \<in> set (sp_runs p)" for r
      by (rule service_runs.none_open [OF assms(1) _ that]) (simp add: service_ledger_def \<open>\<not> sp_flight p\<close>)
    ultimately show ?thesis using sm_clicked x by (auto simp: service_click_def run_service_def Let_def)
  next
    case False
    then show ?thesis using sm_clicked by (auto simp: service_click_def run_service_def Let_def split: service_press.splits)
  qed
qed (simp_all add: posted_fields run_loaded_def end_run_def)

definition plain_port :: "string \<Rightarrow> jsnum" where
  "plain_port s = (if s = ''8787'' then Fin 8787 else NaN)"

definition reviewed_service :: service_panel where
  "reviewed_service = service_click plain_port [] (ReviewService ServiceStop) (first_load (Inr \<lparr>ss_backend = ''launchd'', ss_installed = True, ss_running = True,
     ss_ready = True, ss_managed = True, ss_url = None, ss_port = None, ss_last_error = None, ss_supported = True, ss_tunnel = None\<rparr>) open_service)"

theorem service_acts_on_its_review_witness:
  "map sq_action (sp_requests (service_click plain_port [] (ConfirmService ServiceStop) reviewed_service)) = [ServiceStop]
    \<and> sp_review reviewed_service = Some ServiceStop \<and> set (sp_runs reviewed_service) \<subseteq> {RunDone}"
proof -
  let ?p = "first_load (Inr \<lparr>ss_backend = ''launchd'', ss_installed = True, ss_running = True, ss_ready = True, ss_managed = True, ss_url = None, ss_port = None,
     ss_last_error = None, ss_supported = True, ss_tunnel = None\<rparr>) open_service"
  have "reached service_opened (service_moves plain_port) open_service" by (rule reached_opened) (simp add: service_opened_def)
  then have 1: "reached service_opened (service_moves plain_port) ?p" by (rule reached_moved) (rule sm_first)
  have "sp_alive ?p" "ReviewService ServiceStop \<in> set (offers (service_view plain_port ?p))" by code_simp+
  then have 2: "reached service_opened (service_moves plain_port) reviewed_service"
    unfolding reviewed_service_def by (intro reached_moved [OF 1] sm_clicked)
  have "sp_alive reviewed_service" "ConfirmService ServiceStop \<in> set (offers (service_view plain_port reviewed_service))"
    "map sq_action (sp_requests (service_click plain_port [] (ConfirmService ServiceStop) reviewed_service)) = [ServiceStop]"
    "sp_requests reviewed_service = []" "sp_review reviewed_service = Some ServiceStop" by code_simp+
  then show ?thesis using service_acts_on_its_review [OF 2 sm_clicked, of "ConfirmService ServiceStop" "[]"] by auto
qed

end
