(* ===== verification/LocalIntents.thy ===== *)
theory LocalIntents
  imports WebStorage DraftHandoff "HOL-Library.Multiset" "HOL-Library.Product_Lexorder"
begin

text \<open>
  Small pieces of state a window keeps for itself: the order of pinned projects
  (\<open>lib/project-pins.ts\<close>), the identifier under which one media request is sent
  (\<open>lib/media-intent.ts\<close>), the sidebar (\<open>lib/sidebar-preferences.ts\<close>), the theme
  (\<open>lib/theme.ts\<close>), the check of the host's version (\<open>lib/compatibility.ts\<close>), whether a panel
  is being watched (\<open>lib/use-observation-active.ts\<close>) and the place of a reader in a conversation
  (\<open>lib/conversation-position.ts\<close>). The SHA-256 digest and the random identifiers come from
  outside and are arguments.
\<close>

section \<open>Pinned projects\<close>

text \<open>The comparator orders by pin, then by index: rows with different indices never compare equal.\<close>

definition pin_rank :: "string list \<Rightarrow> nat \<times> string \<times> 'a \<Rightarrow> nat \<times> nat" where
  "pin_rank pins = (\<lambda>(i, row). (if fst row \<in> set pins then 0 else 1, i))"

definition order_project_groups :: "(string \<times> 'a) list \<Rightarrow> string list \<Rightarrow> (string \<times> 'a) list" where
  "order_project_groups groups pins = map snd (sort_key (pin_rank pins) (enumerate 0 groups))"

lemma enumerate_index_sorted: "sorted (map fst (filter P (enumerate n xs)))"
  using sorted_filter [of fst "enumerate n xs" P] by (simp add: map_fst_enumerate del: upt_Suc)

lemma rank_part_sorted:
  assumes "\<And>x. x \<in> set xs \<Longrightarrow> (fst (snd x) \<in> set pins) = b" "sorted (map fst xs)"
  shows "sorted (map (pin_rank pins) xs)"
proof -
  have "map (pin_rank pins) xs = map (\<lambda>i. (if b then 0 else 1, i)) (map fst xs)"
    using assms(1) by (auto simp: pin_rank_def)
  moreover have "sorted (map (\<lambda>i. (c :: nat, i :: nat)) is)" if "sorted is" for c "is"
    using that by (induction "is") auto
  ultimately show ?thesis using assms(2) by metis
qed

lemma map_snd_filter_enumerate: "map snd (filter (\<lambda>x. P (snd x)) (enumerate n xs)) = filter P xs"
  by (induction xs arbitrary: n) simp_all

text \<open>The sort is exactly: the pinned groups in their order, then the others in theirs.\<close>

theorem pins_first:
  "order_project_groups groups pins =
     filter (\<lambda>g. fst g \<in> set pins) groups @ filter (\<lambda>g. fst g \<notin> set pins) groups"
proof -
  let ?e = "enumerate 0 groups"
  let ?p = "filter (\<lambda>x. fst (snd x) \<in> set pins) ?e" and ?o = "filter (\<lambda>x. fst (snd x) \<notin> set pins) ?e"
  have "distinct (map fst ?e)" by (simp add: map_fst_enumerate del: upt_Suc)
  then have fst_inj: "inj_on fst (set ?e)" by (simp only: distinct_map)
  have inj: "inj_on (pin_rank pins) (set ?e)"
  proof (rule inj_onI)
    fix x y assume "x \<in> set ?e" "y \<in> set ?e" "pin_rank pins x = pin_rank pins y"
    moreover from this have "fst x = fst y" by (simp add: pin_rank_def split_beta)
    ultimately show "x = y" using inj_onD [OF fst_inj, of x y] by blast
  qed
  have "sorted (map (pin_rank pins) ?p)" "sorted (map (pin_rank pins) ?o)"
    by (rule rank_part_sorted [where b = True] rank_part_sorted [where b = False];
        simp add: enumerate_index_sorted)+
  then have "sorted (map (pin_rank pins) (?p @ ?o))"
    by (auto simp: sorted_append pin_rank_def)
  then have "sort_key (pin_rank pins) ?e = ?p @ ?o"
    using inj by (intro sort_key_inj_key_eq) simp_all
  then show ?thesis
    using map_snd_filter_enumerate [of "\<lambda>g. fst g \<in> set pins" 0 groups] map_snd_filter_enumerate [of "\<lambda>g. fst g \<notin> set pins" 0 groups]
    by (simp add: order_project_groups_def)
qed

section \<open>One identifier for one media request\<close>

definition intent_key :: "string option \<Rightarrow> string option \<Rightarrow> string \<Rightarrow> string option" where
  "intent_key owner project kind =
     (case owner of None \<Rightarrow> None
      | Some ow \<Rightarrow> if ow = [] then None else Some (''termx-'' @ kind @ ''-intent:'' @ ow @ '':'' @ or_text project ''unassigned''))"

definition stored_json :: "string \<Rightarrow> web_storage \<Rightarrow> jsval" where
  "stored_json k st = (case get_item st k of None \<Rightarrow> JNull | Some t \<Rightarrow> (case st_value t of Parsed v \<Rightarrow> v | Garbage \<Rightarrow> JUndef))"

definition intent_value :: "string \<Rightarrow> string \<Rightarrow> jsval" where
  "intent_value i digest = JObj [(''id'', JStr i), (''digest'', JStr digest)]"

definition obtain_intent :: "string option \<Rightarrow> string \<Rightarrow> string \<Rightarrow> web_storage \<Rightarrow> string \<times> web_storage" where
  "obtain_intent key digest fresh st =
     (case key of None \<Rightarrow> (fresh, st)
      | Some k \<Rightarrow>
          (let prior = stored_json k st in
           if js_property prior ''digest'' = JStr digest \<and> is_str (js_property prior ''id'') then (text_of (js_property prior ''id''), st)
           else (fresh, set_item k (json_item (intent_value fresh digest)) st)))"

text \<open>\<open>args_digest\<close> is the digest of the arguments' JSON text; the lock held on the key makes
  \<open>obtain\<close> one step.\<close>

definition media_intent ::
    "(jsval \<Rightarrow> string) \<Rightarrow> string option \<Rightarrow> string option \<Rightarrow> jsval \<Rightarrow> string \<Rightarrow> string \<Rightarrow> web_storage \<Rightarrow> (string \<times> string option) \<times> web_storage" where
  "media_intent args_digest owner project args kind fresh st =
     (let key = intent_key owner project kind; r = obtain_intent key (args_digest args) fresh st in ((fst r, key), snd r))"

definition clear_media_intent :: "string option \<Rightarrow> string \<Rightarrow> web_storage \<Rightarrow> web_storage" where
  "clear_media_intent key i st =
     (case key of None \<Rightarrow> st
      | Some k \<Rightarrow> if k \<noteq> [] \<and> js_property (stored_json k st) ''id'' = JStr i then remove_item k st else st)"

lemma obtained_is_stored:
  "fst (obtain_intent (Some k) d fresh st) = i \<Longrightarrow>
     js_property (stored_json k (snd (obtain_intent (Some k) d fresh st))) ''digest'' = JStr d
     \<and> js_property (stored_json k (snd (obtain_intent (Some k) d fresh st))) ''id'' = JStr i"
proof -
  have "is_str v \<Longrightarrow> v = JStr (text_of v)" for v by (cases v) simp_all
  then show "fst (obtain_intent (Some k) d fresh st) = i \<Longrightarrow> ?thesis"
    by (auto simp: obtain_intent_def Let_def stored_json_def json_item_def intent_value_def js_property_def jget_def split: if_splits)
qed

lemma obtain_again:
  assumes "js_property (stored_json k st) ''digest'' = JStr d" "js_property (stored_json k st) ''id'' = JStr i"
  shows "obtain_intent (Some k) d fresh st = (i, st)"
  using assms by (simp add: obtain_intent_def)

text \<open>The attempts of any number of windows and reloads for one request.\<close>

fun attempts :: "string \<Rightarrow> string \<Rightarrow> string list \<Rightarrow> web_storage \<Rightarrow> string list" where
  "attempts k d [] st = []"
| "attempts k d (f # fs) st = (case obtain_intent (Some k) d f st of (i, st') \<Rightarrow> i # attempts k d fs st')"

lemma attempts_same:
  "js_property (stored_json k st) ''digest'' = JStr d \<Longrightarrow> js_property (stored_json k st) ''id'' = JStr i
    \<Longrightarrow> set (attempts k d fs st) \<subseteq> {i}"
  by (induction fs) (simp_all add: obtain_again)

text \<open>Every attempt at one request uses the identifier of the first, until it is cleared: the next
  one then uses a new identifier.\<close>

theorem media_intent_reused:
  assumes "k \<noteq> []" "fst (obtain_intent (Some k) d fresh st) = i"
  shows "set (attempts k d fs (snd (obtain_intent (Some k) d fresh st))) \<subseteq> {i}
    \<and> fst (obtain_intent (Some k) d next (clear_media_intent (Some k) i (snd (obtain_intent (Some k) d fresh st)))) = next"
proof -
  let ?st = "snd (obtain_intent (Some k) d fresh st)"
  have "clear_media_intent (Some k) i ?st = remove_item k ?st"
    using obtained_is_stored [OF assms(2)] assms(1) by (simp add: clear_media_intent_def)
  moreover have "fst (obtain_intent (Some k) d next (remove_item k s)) = next" for s
    by (simp add: obtain_intent_def stored_json_def js_property_def)
  ultimately show ?thesis using attempts_same obtained_is_stored [OF assms(2)] by simp
qed

theorem media_intent_reused_witness:
  "set (attempts ''k'' ''d1'' [''b'', ''c''] (snd (obtain_intent (Some ''k'') ''d1'' ''a'' []))) \<subseteq> {''a''}
    \<and> fst (obtain_intent (Some ''k'') ''d1'' ''e'' (clear_media_intent (Some ''k'') ''a'' (snd (obtain_intent (Some ''k'') ''d1'' ''a'' [])))) = ''e''"
  by (rule media_intent_reused) (simp, code_simp)

section \<open>The sidebar\<close>

record sidebar_preference =
  sp_hover :: bool
  sp_open :: bool

definition sidebar_key :: "string \<Rightarrow> string" where
  "sidebar_key owner = ''termx-sidebar-v1:'' @ owner"

definition read_sidebar :: "string \<Rightarrow> web_storage \<Rightarrow> sidebar_preference option" where
  "read_sidebar owner st =
     (let v = stored_json (sidebar_key owner) st in
      case (js_property v ''hover'', js_property v ''open'') of
        (JBool h, JBool o') \<Rightarrow> Some \<lparr>sp_hover = h, sp_open = (if h then False else o')\<rparr>
      | _ \<Rightarrow> None)"

definition save_sidebar :: "string \<Rightarrow> sidebar_preference \<Rightarrow> web_storage \<Rightarrow> web_storage" where
  "save_sidebar owner p st =
     set_item (sidebar_key owner) (json_item (JObj [(''hover'', JBool (sp_hover p)), (''open'', JBool (if sp_hover p then False else sp_open p))])) st"

interpretation sidebar_owners: owner_store sidebar_key read_sidebar save_sidebar
  by unfold_locales (simp_all add: sidebar_key_def read_sidebar_def stored_json_def save_sidebar_def)

text \<open>A sidebar that opens on hover is not held open; otherwise the preference comes back as it was,
  for its account only.\<close>

theorem sidebar_read_back:
  assumes "other \<noteq> owner"
  shows "read_sidebar owner (save_sidebar owner p st) = Some (if sp_hover p then p\<lparr>sp_open := False\<rparr> else p)
    \<and> read_sidebar other (save_sidebar owner p st) = read_sidebar other st"
  using sidebar_owners.save_other_owner [of owner other] assms
  by (auto simp: read_sidebar_def save_sidebar_def stored_json_def json_item_def js_property_def jget_def)

theorem sidebar_read_back_witness:
  "read_sidebar ''ana'' (save_sidebar ''ana'' \<lparr>sp_hover = True, sp_open = True\<rparr> []) = Some \<lparr>sp_hover = True, sp_open = False\<rparr>"
  using sidebar_read_back [of "''bo''" "''ana''" "\<lparr>sp_hover = True, sp_open = True\<rparr>" "[]"] by simp

section \<open>The theme\<close>

datatype theme = DarkTheme | LightTheme | SystemTheme

definition initial_theme :: "jsval \<Rightarrow> theme" where
  "initial_theme saved = (if saved = JStr ''light'' then LightTheme else if saved = JStr ''system'' then SystemTheme else DarkTheme)"

definition theme_name :: "theme \<Rightarrow> string" where
  "theme_name t = (case t of DarkTheme \<Rightarrow> ''dark'' | LightTheme \<Rightarrow> ''light'' | SystemTheme \<Rightarrow> ''system'')"

definition resolve_theme :: "theme \<Rightarrow> bool \<Rightarrow> theme" where
  "resolve_theme t dark = (if t = SystemTheme then (if dark then DarkTheme else LightTheme) else t)"

text \<open>A chosen theme survives a reload, and what is applied is always dark or light.\<close>

lemma theme_kept: "initial_theme (JStr (theme_name t)) = t \<and> resolve_theme t dark \<noteq> SystemTheme"
  by (cases t) (simp_all add: initial_theme_def theme_name_def resolve_theme_def)

section \<open>The version of the host\<close>

definition ui_contract :: int where
  "ui_contract = 3"

text \<open>\<open>v > 3\<close> for a number of the answer; JSON has no other kind the host writes there.\<close>

definition over_contract :: "jsval \<Rightarrow> bool" where
  "over_contract v = (case v of JNum (Fin r) \<Rightarrow> r > of_int ui_contract | _ \<Rightarrow> False)"

definition check_compatibility :: "bool \<Rightarrow> jsval \<Rightarrow> unit js_result" where
  "check_compatibility ok version =
     (if \<not> ok then Inl (JsError ''This host needs a workspace update. Update TermX on the host and reload.'')
      else if js_property version ''host_contract'' \<noteq> js_int ui_contract
            \<or> over_contract (js_property version ''minimum_ui_contract'')
            \<or> js_property version ''client'' \<noteq> JStr ''react-dom-workspace''
      then Inl (JsError ''This workspace bundle and host are incompatible. Update the desktop app or host bundle, then reload.'')
      else Inr ())"

section \<open>A panel that is being watched\<close>

record page_state =
  pg_hidden :: bool
  pg_focus :: bool

datatype page_event = PageFocus page_state | PageBlur page_state | PageVisibility page_state

definition in_front :: "page_state \<Rightarrow> bool" where
  "in_front p \<longleftrightarrow> \<not> pg_hidden p \<and> pg_focus p"

definition observe_event :: "bool \<Rightarrow> page_event \<Rightarrow> bool" where
  "observe_event foreground e = (case e of PageFocus p \<Rightarrow> in_front p | PageVisibility p \<Rightarrow> in_front p | PageBlur _ \<Rightarrow> False)"

definition observation_active :: "bool \<Rightarrow> page_state \<Rightarrow> page_event list \<Rightarrow> bool" where
  "observation_active visible p es \<longleftrightarrow> visible \<and> foldl observe_event (in_front p) es"

text \<open>Nothing is observed in a hidden panel, and once the window loses the focus nothing is until
  the browser says that the page is visible and has the focus again.\<close>

theorem observed_only_in_front:
  assumes "observation_active visible p0 (es @ [PageBlur q] @ later)"
  shows "visible \<and> (\<exists>p. (PageFocus p \<in> set later \<or> PageVisibility p \<in> set later) \<and> in_front p)"
proof -
  have "foldl observe_event False later \<Longrightarrow> \<exists>p. (PageFocus p \<in> set later \<or> PageVisibility p \<in> set later) \<and> in_front p"
    by (induction later rule: rev_induct) (auto simp: observe_event_def split: page_event.splits)
  then show ?thesis using assms by (simp add: observation_active_def observe_event_def)
qed

theorem observed_only_in_front_witness:
  "True \<and> (\<exists>p. (PageFocus p \<in> set [PageFocus \<lparr>pg_hidden = False, pg_focus = True\<rparr>]
      \<or> PageVisibility p \<in> set [PageFocus \<lparr>pg_hidden = False, pg_focus = True\<rparr>]) \<and> in_front p)"
  by (rule observed_only_in_front [of _ "\<lparr>pg_hidden = False, pg_focus = True\<rparr>" "[]" "\<lparr>pg_hidden = False, pg_focus = False\<rparr>"]) code_simp

section \<open>The place of a reader\<close>

record placed_row =
  mr_id :: string
  mr_top :: int
  mr_bottom :: int

definition conversation_anchor :: "int \<Rightarrow> placed_row list \<Rightarrow> (string \<times> int) option" where
  "conversation_anchor top_edge rows =
     (case find (\<lambda>r. mr_bottom r > top_edge) rows of
        None \<Rightarrow> None | Some r \<Rightarrow> if mr_id r = [] then None else Some (mr_id r, mr_top r - top_edge))"

definition anchor_correction :: "int \<Rightarrow> placed_row list \<Rightarrow> string \<times> int \<Rightarrow> int option" where
  "anchor_correction top_edge rows anchor =
     map_option (\<lambda>r. mr_top r - top_edge - snd anchor) (find (\<lambda>r. mr_id r = fst anchor) rows)"

text \<open>Scrolling by a distance moves every row up by it.\<close>

definition scroll_rows :: "int \<Rightarrow> placed_row list \<Rightarrow> placed_row list" where
  "scroll_rows d rows = map (\<lambda>r. r\<lparr>mr_top := mr_top r - d, mr_bottom := mr_bottom r - d\<rparr>) rows"

lemma find_scrolled: "find (\<lambda>r. mr_id r = i) (scroll_rows d rows) =
    map_option (\<lambda>r. r\<lparr>mr_top := mr_top r - d, mr_bottom := mr_bottom r - d\<rparr>) (find (\<lambda>r. mr_id r = i) rows)"
  by (induction rows) (simp_all add: scroll_rows_def)

text \<open>However the rows above changed, scrolling by the correction puts the reader's row back where it
  was: no further correction is due.\<close>

theorem reader_kept_in_place:
  assumes "anchor_correction top_edge rows anchor = Some d"
  shows "anchor_correction top_edge (scroll_rows d rows) anchor = Some 0"
  using assms by (auto simp: anchor_correction_def find_scrolled)

theorem reader_kept_in_place_witness:
  "anchor_correction 100 (scroll_rows 40 [\<lparr>mr_id = ''m1'', mr_top = 120, mr_bottom = 160\<rparr>]) (''m1'', - 20) = Some 0"
  by (rule reader_kept_in_place) (simp add: anchor_correction_def)

end
