(* ===== verification/McpReceipts.thy ===== *)
theory McpReceipts
  imports WebStorage "HOL-Library.List_Lexorder" "HOL-Library.Char_ord"
begin

text \<open>
  The receipts of \<open>features/McpManager.tsx\<close>: the canonical text of a tool call, the key under which its receipt is kept in
  the storage of the tab, and reading, writing and removing a receipt. SHA-256, \<open>JSON.stringify\<close> of a number and the
  failures of the storage are arguments.
\<close>

section \<open>The canonical text of a value\<close>

text \<open>An object is written with its keys in order; what \<open>JSON.stringify\<close> does not write is refused.\<close>

function canonical_text :: "(rat \<Rightarrow> string) \<Rightarrow> jsval \<Rightarrow> string option" where
  "canonical_text num JUndef = None"
| "canonical_text num JNull = Some ''null''"
| "canonical_text num (JBool b) = Some (if b then ''true'' else ''false'')"
| "canonical_text num (JNum n) = Some (case n of Fin r \<Rightarrow> num r | _ \<Rightarrow> ''null'')"
| "canonical_text num (JStr s) = Some (json_string s)"
| "canonical_text num (JArr vs) =
     map_option (\<lambda>ts. ''['' @ join_with '','' ts @ '']'') (all_some (map (canonical_text num) vs))"
| "canonical_text num (JObj fs) =
     map_option (\<lambda>ts. ''{'' @ join_with '','' ts @ ''}'')
       (all_some (map (\<lambda>(k, v). map_option (\<lambda>t. json_string k @ '':'' @ t) (canonical_text num v)) (sort_key fst fs)))"
| "canonical_text num (JProto p) = None"
  by pat_completeness auto
termination
  by (relation "measure (size \<circ> snd)") (auto simp: less_Suc_eq_le intro: size_list_estimation' order_trans)

text \<open>The order in which a field was written makes no difference.\<close>

lemma sort_key_fst_unique:
  assumes "distinct (map fst fs)" "distinct (map fst gs)" "set fs = set gs" shows "sort_key fst fs = sort_key fst gs"
proof (rule map_sorted_distinct_set_unique [where f = fst])
  show "inj_on fst (set (sort_key fst fs) \<union> set (sort_key fst gs))" using assms by (simp add: distinct_map)
  show "distinct (map fst (sort_key fst fs))" "distinct (map fst (sort_key fst gs))"
    using assms by (simp_all add: distinct_map distinct_sort inj_on_def)
qed (simp_all add: assms(3))

lemma canonical_field_order:
  assumes "distinct (map fst fs)" "distinct (map fst gs)" "set fs = set gs"
  shows "canonical_text num (JObj fs) = canonical_text num (JObj gs)"
  using sort_key_fst_unique [OF assms] by simp

section \<open>Receipts\<close>

datatype receipt_state = PendingCall | UncertainCall

record call_receipt =
  rt_state :: receipt_state
  rt_started :: rat
  rt_attempt :: string

definition receipt_prefix :: string where
  "receipt_prefix = ''termx-mcp-call-v1:''"

definition receipt_limit :: int where
  "receipt_limit = 64"

definition receipt_value :: "call_receipt \<Rightarrow> jsval" where
  "receipt_value r = JObj [(''state'', JStr (case rt_state r of PendingCall \<Rightarrow> ''pending'' | UncertainCall \<Rightarrow> ''uncertain'')),
     (''started_at'', JNum (Fin (rt_started r))), (''attempt'', JStr (rt_attempt r))]"

definition unreadable_receipt :: js_error where
  "unreadable_receipt = JsError ''The previous tool call receipt cannot be read safely. Review its outcome before starting another instruction.''"

definition value_receipt :: "jsval \<Rightarrow> call_receipt option" where
  "value_receipt v =
     (case v of
        JObj fs \<Rightarrow>
          (case (jget fs ''state'', jget fs ''started_at'', jget fs ''attempt'') of
             (JStr st, JNum (Fin n), JStr a) \<Rightarrow>
               if st \<in> {''pending'', ''uncertain''} \<and> a \<noteq> [] \<and> length a \<le> 64 \<and> list_all (\<lambda>k. k \<in> {''state'', ''started_at'', ''attempt''}) (map fst fs)
               then Some \<lparr>rt_state = (if st = ''pending'' then PendingCall else UncertainCall), rt_started = n, rt_attempt = a\<rparr> else None
           | _ \<Rightarrow> None)
      | _ \<Rightarrow> None)"

text \<open>\<open>syntax\<close> is what \<open>JSON.parse\<close> throws on a text that is no JSON.\<close>

definition read_receipt :: "js_error \<Rightarrow> string \<Rightarrow> web_storage \<Rightarrow> call_receipt option js_result" where
  "read_receipt syntax k st =
     (case get_item st k of None \<Rightarrow> Inr None
      | Some t \<Rightarrow>
          (case st_value t of Garbage \<Rightarrow> Inl syntax
           | Parsed v \<Rightarrow> (case value_receipt v of None \<Rightarrow> Inl unreadable_receipt | Some r \<Rightarrow> Inr (Some r))))"

text \<open>A storage does what it is told, throws (it is full), or keeps nothing.\<close>

datatype storage_mood = Stores | Throws js_error | Loses

definition count_receipts :: "web_storage \<Rightarrow> nat" where
  "count_receipts st = length (filter (starts_with receipt_prefix) (map fst st))"

definition write_receipt :: "storage_mood \<Rightarrow> string \<Rightarrow> call_receipt \<Rightarrow> web_storage \<Rightarrow> web_storage js_result" where
  "write_receipt mood k r st =
     (let t = json_item (receipt_value r) in
      if get_item st k = None \<and> receipt_limit \<le> int (count_receipts st)
        then Inl (JsError ''There are 64 unconfirmed tool calls. Review their outcomes before starting another instruction.'')
      else (case mood of Throws e \<Rightarrow> Inl e | Stores \<Rightarrow> Inr (set_item k t st)
            | Loses \<Rightarrow> if get_item st k = Some t then Inr st else Inl (JsError ''The tool call receipt could not be preserved. No new call was sent.'')))"

definition remove_receipt :: "js_error \<Rightarrow> storage_mood \<Rightarrow> string \<Rightarrow> string \<Rightarrow> web_storage \<Rightarrow> web_storage js_result" where
  "remove_receipt syntax mood k a st =
     (case read_receipt syntax k st of
        Inl e \<Rightarrow> Inl e
      | Inr None \<Rightarrow> Inr st
      | Inr (Some r) \<Rightarrow>
          if rt_attempt r \<noteq> a then Inr st
          else (case mood of Throws e \<Rightarrow> Inl e | Stores \<Rightarrow> Inr (remove_item k st)
                | Loses \<Rightarrow> Inl (JsError ''The tool call receipt could not be cleared. Review the previous outcome before another instruction.'')))"

text \<open>The attempt a receipt stands for; one that cannot be read stands for none, and blocks the call all the same.\<close>

definition attempt_at :: "string \<Rightarrow> web_storage \<Rightarrow> string option" where
  "attempt_at k st = (case get_item st k of Some t \<Rightarrow> (case st_value t of Parsed v \<Rightarrow> map_option rt_attempt (value_receipt v) | Garbage \<Rightarrow> None) | None \<Rightarrow> None)"

definition good_attempt :: "string \<Rightarrow> bool" where
  "good_attempt a \<longleftrightarrow> a \<noteq> [] \<and> length a \<le> 64"

lemma value_receipt_value: "good_attempt (rt_attempt r) \<Longrightarrow> value_receipt (receipt_value r) = Some r"
  by (cases r) (simp add: value_receipt_def receipt_value_def jget_def good_attempt_def split: receipt_state.split)

lemma read_receiptD: "read_receipt syntax k st = Inr (Some r) \<Longrightarrow> attempt_at k st = Some (rt_attempt r)"
  "read_receipt syntax k st = Inr None \<Longrightarrow> attempt_at k st = None"
  by (auto simp: read_receipt_def attempt_at_def split: option.splits stored_value.splits)

text \<open>What was written is read back.\<close>

lemma receipt_read_back: "good_attempt (rt_attempt r) \<Longrightarrow> write_receipt mood k r st = Inr st' \<Longrightarrow> read_receipt syntax k st' = Inr (Some r)"
  by (auto simp: write_receipt_def read_receipt_def json_item_def value_receipt_value Let_def split: storage_mood.splits if_splits)

lemma written_attempt:
  "good_attempt (rt_attempt r) \<Longrightarrow> write_receipt mood k r st = Inr st' \<Longrightarrow> attempt_at l st' = (if l = k then Some (rt_attempt r) else attempt_at l st)"
  by (auto simp: write_receipt_def attempt_at_def json_item_def value_receipt_value Let_def split: storage_mood.splits if_splits)

lemma removed_attempt:
  "remove_receipt syntax mood k a st = Inr st' \<Longrightarrow> attempt_at l st' = (if l = k \<and> attempt_at k st = Some a then None else attempt_at l st)"
  by (auto simp: remove_receipt_def attempt_at_def read_receipt_def split: storage_mood.splits if_splits option.splits sum.splits stored_value.splits)

end
