(* ===== verification/McpManager.thy ===== *)
theory McpManager
  imports McpReceipts OneAtATime View
begin

text \<open>
  \<open>features/McpManager.tsx\<close>: the tool connections of a host: inspecting, connecting, trusting and removing them, and calling one
  of their tools from the settings. A call is reviewed, confirmed and covered by a receipt in the tab's storage until its
  outcome is known; an identical call is not sent while a receipt stands. One change is awaited at a time; another project,
  account or version starts a new generation, and every edit of the call a new inspection.
\<close>

section \<open>Connections\<close>

record mcp_tool =
  mt_name :: string
  mt_description :: "string option"
  mt_schema :: jsval

record mcp_connection =
  mc_id :: string
  mc_label :: string
  mc_definition :: jsval
  mc_approved :: "string list"
  mc_enabled :: bool
  mc_digest :: string
  mc_credential :: bool
  mc_catalog :: "mcp_tool list option"
  mc_connected :: bool
  mc_live_catalog :: "mcp_tool list option"
  mc_auth_url :: "string option"
  mc_trust :: string
  mc_projects :: "string list"
  mc_transport :: string

record reviewed_call =
  rc_connection :: mcp_connection
  rc_tool :: string
  rc_target :: "string option"
  rc_arguments :: jsobj
  rc_text :: string
  rc_inspection :: nat

record unconfirmed_call =
  un_key :: string
  un_call :: reviewed_call
  un_receipt :: call_receipt

text \<open>\<open>crypto.subtle\<close> may be missing; \<open>JSON.parse\<close>, \<open>JSON.stringify\<close> and the count of UTF-8 bytes.\<close>

record mcp_env =
  me_hash :: "(string \<Rightarrow> string) option"
  me_num :: "rat \<Rightarrow> string"
  me_parse :: "string \<Rightarrow> jsval js_result"
  me_show :: "jsval \<Rightarrow> string"
  me_bytes :: "string \<Rightarrow> int"
  me_syntax :: js_error

definition call_identity :: "string \<Rightarrow> reviewed_call \<Rightarrow> jsval" where
  "call_identity owner c = JArr [JStr owner, JStr (mc_id (rc_connection c)), JStr (mc_digest (rc_connection c)),
     (case rc_target c of None \<Rightarrow> JNull | Some t \<Rightarrow> JStr t), JStr (rc_tool c), JObj (rc_arguments c)]"

definition receipt_key :: "mcp_env \<Rightarrow> string \<Rightarrow> reviewed_call \<Rightarrow> string js_result" where
  "receipt_key env owner c =
     (case me_hash env of
        None \<Rightarrow> Inl (JsError ''This browser cannot protect tool call receipts. No call was sent.'')
      | Some h \<Rightarrow>
          (case canonical_text (me_num env) (call_identity owner c) of
             None \<Rightarrow> Inl (JsError ''Tool arguments cannot be canonicalized.'')
           | Some t \<Rightarrow> Inr (receipt_prefix @ h owner @ '':'' @ h t)))"

section \<open>The panel\<close>

datatype mcp_work =
    ConnectWork mcp_connection "string option" nat
  | DisconnectWork string
  | TrustWork string string
  | RemoveWork string string
  | EditWork mcp_connection jsval
  | CreateWork jsval
  | CredentialWork string string "string option" string string
  | CallWork string reviewed_call

text \<open>What an operation waits for: its one request, the second request of an edit, the key of a call, the answer of a call.\<close>

datatype mcp_phase = McpAsked | McpSaving | McpHashing | McpCalling string call_receipt | McpDone

record mcp_op =
  mo_work :: mcp_work
  mo_ticket :: nat
  mo_message :: string
  mo_phase :: mcp_phase

record mcp_panel =
  mp_project :: "string option"
  mp_admin :: bool
  mp_owner :: "string option"
  mp_search :: string
  mp_connections :: "mcp_connection list"
  mp_projects :: "(string \<times> string) list"
  mp_editing :: "mcp_connection option"
  mp_inspecting :: "mcp_connection option"
  mp_catalog :: "mcp_tool list option"
  mp_tool :: string
  mp_targets :: "(string \<times> string) list"
  mp_arguments :: string
  mp_advanced :: bool
  mp_reviewed :: "reviewed_call option"
  mp_result :: "jsval option"
  mp_busy :: bool
  mp_loading :: bool
  mp_error :: string
  mp_notice :: string
  mp_unconfirmed :: "unconfirmed_call option"
  mp_acknowledged :: bool
  mp_generation :: nat
  mp_inspection :: nat
  mp_flight :: "nat option"
  mp_loads :: "(nat \<times> bool) list"
  mp_ops :: "mcp_op list"
  mp_store :: web_storage
  mp_sent :: "(string \<times> string) list"
  mp_answered :: "string set"
  mp_released :: "string set"
  mp_saved :: nat
  mp_changed :: nat

text \<open>The effect of a new project, role, version or account. Its cleanup has counted both fences up before.\<close>

definition reset_mcp :: "string option \<Rightarrow> bool \<Rightarrow> string option \<Rightarrow> mcp_panel \<Rightarrow> mcp_panel" where
  "reset_mcp project admin owner s =
     s\<lparr>mp_project := project, mp_admin := admin, mp_owner := owner, mp_generation := mp_generation s + 2, mp_inspection := mp_inspection s + 2,
       mp_flight := None, mp_loading := True, mp_error := [], mp_notice := [], mp_editing := None, mp_inspecting := None, mp_catalog := None,
       mp_targets := [], mp_advanced := False, mp_reviewed := None, mp_unconfirmed := None, mp_acknowledged := False, mp_result := None,
       mp_busy := False, mp_loads := mp_loads s @ [(mp_generation s + 2, False)]\<rparr>"

text \<open>A panel that is gone keeps nothing but the storage of its tab; what it had asked may still be answered, or never, when the page was
  loaded anew. A panel that is mounted later has fences of its own, here the next values of the same ones.\<close>

definition fresh_mcp :: "web_storage \<Rightarrow> mcp_panel" where
  "fresh_mcp st =
     \<lparr>mp_project = None, mp_admin = False, mp_owner = None, mp_search = [], mp_connections = [], mp_projects = [], mp_editing = None, mp_inspecting = None,
      mp_catalog = None, mp_tool = [], mp_targets = [], mp_arguments = ''{}'', mp_advanced = False, mp_reviewed = None, mp_result = None, mp_busy = False,
      mp_loading = True, mp_error = [], mp_notice = [], mp_unconfirmed = None, mp_acknowledged = False, mp_generation = 0, mp_inspection = 0,
      mp_flight = None, mp_loads = [], mp_ops = [], mp_store = st, mp_sent = [], mp_answered = {}, mp_released = {}, mp_saved = 0, mp_changed = 0\<rparr>"

definition remount_mcp :: "mcp_panel \<Rightarrow> mcp_panel" where
  "remount_mcp s =
     (fresh_mcp (mp_store s))\<lparr>mp_generation := Suc (mp_generation s), mp_inspection := Suc (mp_inspection s),
       mp_ops := mp_ops s, mp_loads := mp_loads s,
       mp_sent := mp_sent s, mp_answered := mp_answered s, mp_released := mp_released s, mp_saved := mp_saved s, mp_changed := mp_changed s\<rparr>"

definition mcp_loaded :: "nat \<Rightarrow> (mcp_connection list \<times> (string \<times> string) list) js_result \<Rightarrow> mcp_panel \<Rightarrow> mcp_panel" where
  "mcp_loaded n r s =
     (let k = fst (mp_loads s ! n); s' = s\<lparr>mp_loads := (mp_loads s)[n := (k, True)]\<rparr> in
      if k \<noteq> mp_generation s then s'
      else (case r of Inl e \<Rightarrow> s'\<lparr>mp_error := error_message e\<rparr> | Inr (cs, ps) \<Rightarrow> s'\<lparr>mp_connections := cs, mp_projects := ps\<rparr>)\<lparr>mp_loading := False\<rparr>)"

section \<open>What a connection may be used for\<close>

definition allowed_targets :: "mcp_panel \<Rightarrow> mcp_connection \<Rightarrow> (string \<times> string) list" where
  "allowed_targets s c = filter (\<lambda>p. fst p \<in> set (mc_projects c)) (mp_projects s)"

definition target_for :: "mcp_panel \<Rightarrow> mcp_connection \<Rightarrow> string option" where
  "target_for s c =
     (if mc_projects c = [] then None
      else (case allowed_targets s c of
              [p] \<Rightarrow> Some (fst p)
            | ps \<Rightarrow> (case map_of (mp_targets s) (mc_id c) of Some t \<Rightarrow> if t \<in> fst ` set ps then Some t else Some [] | None \<Rightarrow> Some [])))"

definition can_use :: "mcp_panel \<Rightarrow> mcp_connection \<Rightarrow> bool" where
  "can_use s c \<longleftrightarrow> (if mc_projects c = [] then mp_admin s else truthy_text (target_for s c))"

definition target_label :: "mcp_panel \<Rightarrow> string option \<Rightarrow> string" where
  "target_label s t =
     (case t of None \<Rightarrow> ''This host (administrator)'' | Some i \<Rightarrow> or_text (map_of (mp_projects s) i) (if i = [] then ''Choose an execution project'' else i))"

definition tool_approved :: "mcp_connection \<Rightarrow> string \<Rightarrow> bool" where
  "tool_approved c t \<longleftrightarrow> ''*'' \<in> set (mc_approved c) \<or> t \<in> set (mc_approved c)"

definition mcp_usable :: "mcp_panel \<Rightarrow> mcp_connection \<Rightarrow> bool" where
  "mcp_usable s c \<longleftrightarrow> can_use s c \<and> mc_trust c = ''trusted'' \<and> mc_enabled c"

section \<open>One change at a time\<close>

definition work_message :: "mcp_panel \<Rightarrow> mcp_work \<Rightarrow> string" where
  "work_message s w =
     (case w of
        ConnectWork c t _ \<Rightarrow> ''Connection checked for '' @ target_label s t
      | DisconnectWork _ \<Rightarrow> ''Connection disconnected''
      | TrustWork _ _ \<Rightarrow> ''Reviewed connection trusted''
      | RemoveWork _ _ \<Rightarrow> ''Connection removed''
      | EditWork _ _ \<Rightarrow> ''Connection settings saved''
      | CreateWork _ \<Rightarrow> ''Untrusted connection saved''
      | CredentialWork _ _ _ _ _ \<Rightarrow> ''Credential binding updated; reconnect explicitly''
      | CallWork _ c \<Rightarrow> ''Selected tool completed for '' @ target_label s (rc_target c))"

definition is_call :: "mcp_work \<Rightarrow> bool" where
  "is_call w \<longleftrightarrow> (case w of CallWork _ _ \<Rightarrow> True | _ \<Rightarrow> False)"

definition work_persists :: "mcp_work \<Rightarrow> bool" where
  "work_persists w \<longleftrightarrow> (case w of ConnectWork _ _ _ \<Rightarrow> False | DisconnectWork _ \<Rightarrow> False | CallWork _ _ \<Rightarrow> False | _ \<Rightarrow> True)"

definition first_phase :: "mcp_work \<Rightarrow> mcp_phase" where
  "first_phase w =
     (case w of CallWork _ _ \<Rightarrow> McpHashing | EditWork c _ \<Rightarrow> if mc_connected c then McpAsked else McpSaving | _ \<Rightarrow> McpAsked)"

definition begin_change :: "mcp_work \<Rightarrow> mcp_panel \<Rightarrow> mcp_panel" where
  "begin_change w s =
     (if mp_flight s \<noteq> None then s
      else s\<lparr>mp_flight := Some (length (mp_ops s)), mp_busy := True, mp_error := [], mp_notice := [],
             mp_ops := mp_ops s @ [\<lparr>mo_work = w, mo_ticket = mp_generation s, mo_message = work_message s w, mo_phase = first_phase w\<rparr>]\<rparr>)"

definition set_mcp_phase :: "nat \<Rightarrow> mcp_phase \<Rightarrow> mcp_panel \<Rightarrow> mcp_panel" where
  "set_mcp_phase n ph s = s\<lparr>mp_ops := (mp_ops s)[n := (mp_ops s ! n)\<lparr>mo_phase := ph\<rparr>]\<rparr>"

definition end_mcp_change :: "nat \<Rightarrow> mcp_panel \<Rightarrow> mcp_panel" where
  "end_mcp_change n s =
     (let s' = set_mcp_phase n McpDone s in
      if mo_ticket (mp_ops s ! n) = mp_generation s \<and> mp_flight s = Some n then s'\<lparr>mp_flight := None, mp_busy := False\<rparr> else s')"

text \<open>How \<open>mutate\<close> goes on when its function returned, or threw; \<open>False\<close> is a function that returned \<open>false\<close>.\<close>

definition finish_change :: "nat \<Rightarrow> bool js_result \<Rightarrow> mcp_panel \<Rightarrow> mcp_panel" where
  "finish_change n r s =
     (let op = mp_ops s ! n; w = mo_work op in
      end_mcp_change n
        (if mo_ticket op \<noteq> mp_generation s then s
         else (case r of
                 Inl e \<Rightarrow> s\<lparr>mp_error := error_message e\<rparr>
               | Inr ok \<Rightarrow>
                   if \<not> ok then s
                   else s\<lparr>mp_notice := mo_message op, mp_saved := mp_saved s + (if work_persists w then 1 else 0),
                          mp_changed := mp_changed s + (if is_call w then 0 else 1)\<rparr>)))"

section \<open>Handlers\<close>

definition invalidate_call :: "mcp_panel \<Rightarrow> mcp_panel" where
  "invalidate_call s = s\<lparr>mp_inspection := Suc (mp_inspection s), mp_reviewed := None, mp_unconfirmed := None, mp_acknowledged := False,
     mp_result := None, mp_error := [], mp_notice := []\<rparr>"

definition inspect_connection :: "mcp_connection \<Rightarrow> mcp_tool list option \<Rightarrow> mcp_panel \<Rightarrow> mcp_panel" where
  "inspect_connection c catalog s =
     (invalidate_call s)\<lparr>mp_inspecting := Some c, mp_catalog := catalog, mp_tool := [], mp_arguments := ''{}'', mp_advanced := False\<rparr>"

definition saved_catalog :: "mcp_connection \<Rightarrow> mcp_tool list option" where
  "saved_catalog c = (case mc_catalog c of None \<Rightarrow> mc_live_catalog c | Some ts \<Rightarrow> Some ts)"

definition choose_target :: "mcp_connection \<Rightarrow> string \<Rightarrow> mcp_panel \<Rightarrow> mcp_panel" where
  "choose_target c t s = (invalidate_call s)\<lparr>mp_targets := AList.update (mc_id c) t (mp_targets s)\<rparr>"

definition connect_tools :: "mcp_connection \<Rightarrow> mcp_panel \<Rightarrow> mcp_panel" where
  "connect_tools c s = (if mcp_usable s c then begin_change (ConnectWork c (target_for s c) (mp_inspection s)) s else s)"

text \<open>The answer to a request of an operation that is no call; a connection's answer may bring its catalog.\<close>

definition change_answered :: "nat \<Rightarrow> mcp_tool list option js_result \<Rightarrow> mcp_panel \<Rightarrow> mcp_panel" where
  "change_answered n r s =
     (let op = mp_ops s ! n in
      case (r, mo_phase op, mo_work op) of
        (Inl e, _, _) \<Rightarrow> finish_change n (Inl e) s
      | (Inr _, McpAsked, EditWork _ _) \<Rightarrow> set_mcp_phase n McpSaving s
      | (Inr (Some catalog), McpAsked, ConnectWork c _ view) \<Rightarrow>
          finish_change n (Inr True)
            (if mo_ticket op = mp_generation s \<and> view = mp_inspection s then inspect_connection c (Some catalog) s else s)
      | (Inr _, _, _) \<Rightarrow> finish_change n (Inr True) s)"

definition review_call :: "mcp_env \<Rightarrow> mcp_panel \<Rightarrow> mcp_panel" where
  "review_call env s =
     (case mp_inspecting s of None \<Rightarrow> s
      | Some c \<Rightarrow>
          if \<not> truthy_text (mp_owner s) \<or> \<not> mcp_usable s c \<or> \<not> tool_approved c (mp_tool s)
             \<or> mp_tool s \<notin> mt_name ` set (case mp_catalog s of None \<Rightarrow> [] | Some ts \<Rightarrow> ts) \<or> mp_flight s \<noteq> None then s
          else (let s' = s\<lparr>mp_error := [], mp_result := None, mp_reviewed := None\<rparr> in
                case me_parse env (mp_arguments s) of
                  Inl e \<Rightarrow> s'\<lparr>mp_error := error_message e\<rparr>
                | Inr (JObj fs) \<Rightarrow>
                    if 64000 < me_bytes env (me_show env (JObj fs)) then s'\<lparr>mp_error := ''Tool arguments must fit within 64,000 bytes.''\<rparr>
                    else s'\<lparr>mp_reviewed := Some \<lparr>rc_connection = c, rc_tool = mp_tool s, rc_target = target_for s c, rc_arguments = fs,
                           rc_text = me_show env (JObj fs), rc_inspection = mp_inspection s\<rparr>\<rparr>
                | Inr _ \<Rightarrow> s'\<lparr>mp_error := ''Tool arguments must be a JSON object.''\<rparr>))"

definition still_reviewed :: "reviewed_call \<Rightarrow> mcp_panel \<Rightarrow> bool" where
  "still_reviewed call s \<longleftrightarrow>
     (case mp_inspecting s of None \<Rightarrow> False
      | Some c \<Rightarrow> truthy_text (mp_owner s) \<and> rc_inspection call = mp_inspection s \<and> mc_id (rc_connection call) = mc_id c
          \<and> mc_digest (rc_connection call) = mc_digest c \<and> rc_tool call = mp_tool s \<and> rc_target call = target_for s c
          \<and> mcp_usable s c \<and> tool_approved c (rc_tool call))"

definition confirm_call :: "mcp_panel \<Rightarrow> mcp_panel" where
  "confirm_call s =
     (case mp_reviewed s of None \<Rightarrow> s
      | Some call \<Rightarrow>
          if still_reviewed call s then begin_change (CallWork (or_text (mp_owner s) []) call) (s\<lparr>mp_reviewed := None\<rparr>) else s)"

text \<open>The key of the call is there.\<close>

definition same_view :: "nat \<Rightarrow> reviewed_call \<Rightarrow> mcp_panel \<Rightarrow> bool" where
  "same_view n call s \<longleftrightarrow> mo_ticket (mp_ops s ! n) = mp_generation s \<and> rc_inspection call = mp_inspection s"

definition leave_unconfirmed :: "string \<Rightarrow> reviewed_call \<Rightarrow> call_receipt \<Rightarrow> mcp_panel \<Rightarrow> mcp_panel" where
  "leave_unconfirmed key call r s = s\<lparr>mp_unconfirmed := Some \<lparr>un_key = key, un_call = call, un_receipt = r\<rparr>, mp_acknowledged := False\<rparr>"

definition call_hashed :: "mcp_env \<Rightarrow> rat \<Rightarrow> string \<Rightarrow> storage_mood \<Rightarrow> nat \<Rightarrow> string \<Rightarrow> reviewed_call \<Rightarrow> mcp_panel \<Rightarrow> mcp_panel" where
  "call_hashed env now uuid mood n owner call s =
     (case receipt_key env owner call of
        Inl e \<Rightarrow> finish_change n (Inl e) s
      | Inr key \<Rightarrow>
          if \<not> same_view n call s then finish_change n (Inr False) s
          else (case read_receipt (me_syntax env) key (mp_store s) of
                  Inl e \<Rightarrow> finish_change n (Inl e) s
                | Inr (Some r) \<Rightarrow>
                    finish_change n (Inl (JsError ''An identical tool call has an unconfirmed outcome. It will not be repeated automatically.''))
                      (leave_unconfirmed key call r s)
                | Inr None \<Rightarrow>
                    (let r = \<lparr>rt_state = PendingCall, rt_started = now, rt_attempt = uuid\<rparr> in
                     case write_receipt mood key r (mp_store s) of
                       Inl e \<Rightarrow> finish_change n (Inl e) s
                     | Inr st \<Rightarrow> set_mcp_phase n (McpCalling key r) (s\<lparr>mp_store := st, mp_sent := mp_sent s @ [(key, uuid)]\<rparr>))))"

definition mark_uncertain :: "mcp_env \<Rightarrow> storage_mood \<Rightarrow> string \<Rightarrow> call_receipt \<Rightarrow> web_storage \<Rightarrow> web_storage" where
  "mark_uncertain env mood key r st =
     (case read_receipt (me_syntax env) key st of
        Inr (Some q) \<Rightarrow>
          if rt_attempt q = rt_attempt r then (case write_receipt mood key (r\<lparr>rt_state := UncertainCall\<rparr>) st of Inr st' \<Rightarrow> st' | Inl _ \<Rightarrow> st) else st
      | _ \<Rightarrow> st)"

definition call_failed :: "mcp_env \<Rightarrow> storage_mood \<Rightarrow> nat \<Rightarrow> string \<Rightarrow> reviewed_call \<Rightarrow> call_receipt \<Rightarrow> js_error \<Rightarrow> mcp_panel \<Rightarrow> mcp_panel" where
  "call_failed env mood n key call r e s =
     (let s' = s\<lparr>mp_store := mark_uncertain env mood key r (mp_store s)\<rparr> in
      finish_change n (Inl e) (if same_view n call s then leave_unconfirmed key call (r\<lparr>rt_state := UncertainCall\<rparr>) s' else s'))"

definition call_answered :: "mcp_env \<Rightarrow> storage_mood \<Rightarrow> storage_mood \<Rightarrow> nat \<Rightarrow> string \<Rightarrow> reviewed_call \<Rightarrow> call_receipt \<Rightarrow> jsval js_result \<Rightarrow> mcp_panel \<Rightarrow> mcp_panel" where
  "call_answered env mood later n key call r a s =
     (case a of
        Inl e \<Rightarrow> call_failed env later n key call r e s
      | Inr v \<Rightarrow>
          (let s1 = (if same_view n call s then s\<lparr>mp_result := Some v\<rparr> else s)\<lparr>mp_answered := insert (rt_attempt r) (mp_answered s)\<rparr> in
           case remove_receipt (me_syntax env) mood key (rt_attempt r) (mp_store s) of
             Inl e \<Rightarrow> call_failed env later n key call r e s1
           | Inr st \<Rightarrow> finish_change n (Inr True) (s1\<lparr>mp_store := st\<rparr>)))"

definition acknowledge_call :: "mcp_env \<Rightarrow> storage_mood \<Rightarrow> mcp_panel \<Rightarrow> mcp_panel" where
  "acknowledge_call env mood s =
     (case mp_unconfirmed s of None \<Rightarrow> s
      | Some u \<Rightarrow>
          if \<not> mp_acknowledged s \<or> mp_busy s then s
          else (let a = rt_attempt (un_receipt u) in
                case read_receipt (me_syntax env) (un_key u) (mp_store s) of
                  Inl e \<Rightarrow> s\<lparr>mp_error := error_message e\<rparr>
                | Inr r \<Rightarrow>
                    if map_option rt_attempt r \<noteq> Some a
                    then s\<lparr>mp_error := ''The earlier call receipt changed. Inspect this instruction again before acknowledging it.''\<rparr>
                    else (case remove_receipt (me_syntax env) mood (un_key u) a (mp_store s) of
                            Inl e \<Rightarrow> s\<lparr>mp_error := error_message e\<rparr>
                          | Inr st \<Rightarrow> s\<lparr>mp_store := st, mp_unconfirmed := None, mp_acknowledged := False, mp_reviewed := None, mp_error := [],
                              mp_released := insert a (mp_released s),
                              mp_notice := ''Acknowledged as a new instruction. Review the exact tool call again before confirming.''\<rparr>)))"

section \<open>What it shows\<close>

datatype mcp_click =
    InspectConnection mcp_connection | ChooseTarget mcp_connection string | ConnectTools mcp_connection | BeginWork mcp_work | EditConnection mcp_connection
  | CancelEdit | PickTool string | ToggleAdvanced | TypeArguments string | ReviewTool | ConfirmTool | CancelTool | TickAcknowledged | AcknowledgeCall
  | CloseInspection

definition mcp_clicked :: "mcp_env \<Rightarrow> storage_mood \<Rightarrow> mcp_click \<Rightarrow> mcp_panel \<Rightarrow> mcp_panel" where
  "mcp_clicked env mood a s =
     (case a of
        InspectConnection c \<Rightarrow> inspect_connection c (saved_catalog c) s
      | ChooseTarget c t \<Rightarrow> choose_target c t s
      | ConnectTools c \<Rightarrow> connect_tools c s
      | BeginWork w \<Rightarrow> begin_change w s
      | EditConnection c \<Rightarrow> s\<lparr>mp_editing := Some c\<rparr>
      | CancelEdit \<Rightarrow> s\<lparr>mp_editing := None\<rparr>
      | PickTool t \<Rightarrow> (invalidate_call s)\<lparr>mp_tool := t, mp_advanced := False\<rparr>
      | ToggleAdvanced \<Rightarrow> s\<lparr>mp_advanced := \<not> mp_advanced s, mp_reviewed := None\<rparr>
      | TypeArguments t \<Rightarrow> (invalidate_call s)\<lparr>mp_arguments := t\<rparr>
      | ReviewTool \<Rightarrow> review_call env s
      | ConfirmTool \<Rightarrow> confirm_call s
      | CancelTool \<Rightarrow> s\<lparr>mp_reviewed := None\<rparr>
      | TickAcknowledged \<Rightarrow> s\<lparr>mp_acknowledged := \<not> mp_acknowledged s\<rparr>
      | AcknowledgeCall \<Rightarrow> acknowledge_call env mood s
      | CloseInspection \<Rightarrow> (invalidate_call s)\<lparr>mp_inspecting := None\<rparr>)"

definition connection_shown :: "mcp_panel \<Rightarrow> mcp_connection \<Rightarrow> bool" where
  "connection_shown s c \<longleftrightarrow> contains (lower_text (mp_search s)) (lower_text (mc_label c @ '' '' @ mc_id c))"

definition scope_text :: "mcp_panel \<Rightarrow> mcp_connection \<Rightarrow> string" where
  "scope_text s c =
     (if mc_projects c = [] then ''Host-wide'' @ [CHR '' '', CHR 0xB7, CHR '' ''] @ ''administrator only''
      else ''Only: '' @ join_with '', '' (map (\<lambda>i. or_text (map_of (mp_projects s) i) i) (mc_projects c)))"

definition target_picker :: "mcp_panel \<Rightarrow> mcp_connection \<Rightarrow> mcp_click view" where
  "target_picker s c =
     (let ts = allowed_targets s c in
      if mc_projects c = [] then labelled ''p'' ''Execution target: This host (administrator)''
      else if ts = [] then labelled ''p'' (''No accessible project is in this connection'' @ [CHR 0x27] @ ''s allowlist.'')
      else picker (mp_busy s \<or> length ts = 1) (ChooseTarget c) (\<lambda>i. or_text (map_of ts i) ''Choose a project'')
             ((if length ts = 1 then [] else [[]]) @ map fst ts))"

definition connection_view :: "mcp_panel \<Rightarrow> mcp_connection \<Rightarrow> mcp_click view" where
  "connection_view s c =
     (let act = (\<lambda>w label. button (mp_busy s) (BeginWork w) label) in box ''article''
       [labelled ''h3'' (if mc_label c = [] then mc_id c else mc_label c),
        labelled ''p'' (mc_transport c @ [CHR '' '', CHR 0xB7, CHR '' ''] @ (if mc_connected c then ''Connected'' else ''Disconnected'') @ [CHR '' '', CHR 0xB7, CHR '' ''] @ mc_trust c),
        labelled ''p'' (scope_text s c @ [CHR '' '', CHR 0xB7, CHR '' ''] @ (if mc_credential c then ''Credential configured'' else ''No managed credential'')),
        target_picker s c,
        button (mp_busy s) (InspectConnection c) ''Inspect tools and permissions'',
        (if mc_connected c then (if mp_admin s then act (DisconnectWork (mc_id c)) ''Disconnect'' else labelled ''p'' ''Disconnect requires a host administrator.'')
         else button (mp_busy s \<or> \<not> mcp_usable s c) (ConnectTools c) ''Connect''),
        show_if (mp_admin s) (box ''div''
          [button (mp_busy s) (EditConnection c) ''Edit connection'',
           show_if (mc_trust c \<noteq> ''trusted'') (act (TrustWork (mc_id c) (mc_digest c)) ''Trust reviewed connection''),
           act (RemoveWork (mc_id c) (mc_digest c)) ''Remove connection'']),
        show_if (truthy_text (mc_auth_url c)) (VEl ''a'' [attr_text ''href'' (or_text (mc_auth_url c) [])] [] [VText ''Complete connection sign-in''])])"

definition call_facts :: "mcp_panel \<Rightarrow> reviewed_call \<Rightarrow> mcp_click view list" where
  "call_facts s c =
     [labelled ''p'' (''Connection: '' @ mc_label (rc_connection c) @ '' ('' @ mc_id (rc_connection c) @ '')''),
      labelled ''p'' (''Tool: '' @ rc_tool c), labelled ''p'' (''Reviewed definition: '' @ mc_digest (rc_connection c)),
      labelled ''p'' (''Execution target: '' @ target_label s (rc_target c) @ (if truthy_text (rc_target c) then '' ('' @ or_text (rc_target c) [] @ '')'' else [])),
      labelled ''pre'' (rc_text c)]"

definition review_section :: "mcp_panel \<Rightarrow> mcp_click view" where
  "review_section s =
     (case mp_reviewed s of None \<Rightarrow> VNone
      | Some c \<Rightarrow> box ''section'' (labelled ''h4'' ''Confirm this tool call'' # call_facts s c
          @ [button (mp_busy s) ConfirmTool ''Confirm tool call'', button (mp_busy s) CancelTool ''Cancel tool call'']))"

definition unconfirmed_section :: "mcp_panel \<Rightarrow> mcp_click view" where
  "unconfirmed_section s =
     (case mp_unconfirmed s of None \<Rightarrow> VNone
      | Some u \<Rightarrow> box ''section''
          ([labelled ''h4'' ''Earlier tool call outcome is unconfirmed'',
            labelled ''p'' ''The call may still be running or may have changed the service. This identical instruction is blocked, including after reopening this panel.'']
           @ call_facts s (un_call u)
           @ [labelled ''p'' ''Check the service or its records first. A new instruction does not cancel the earlier call or prevent repeated effects.'',
              checkbox (mp_busy s) (mp_acknowledged s) TickAcknowledged ''I reviewed this exact call and authorize a new instruction that may repeat its effects.'',
              button (mp_busy s \<or> \<not> mp_acknowledged s) AcknowledgeCall ''Acknowledge new instruction'']))"

definition advanced_view :: "string \<Rightarrow> mcp_panel \<Rightarrow> mcp_connection \<Rightarrow> mcp_click view list" where
  "advanced_view typed s c =
     [labelled ''p'' (''This explicitly calls the connected service and can change it. This is a direct settings action, outside a conversation'' @ [CHR 0x27] @ ''s approval flow.''),
      labelled ''p'' (''Execution target: '' @ target_label s (target_for s c)),
      labelled ''p'' ''The connection must be trusted and enabled, and the selected tool must be approved. The host rechecks authority when it receives the call.'',
      show_if (\<not> truthy_text (mp_owner s)) (labelled ''p'' ''Tool execution requires a verified account and host identity.''),
      VEl ''textarea'' [attr_flag ''disabled'' (mp_busy s), attr_text ''value'' (mp_arguments s)] [(''onChange'', TypeArguments typed)] [],
      button (mp_busy s \<or> \<not> truthy_text (mp_owner s) \<or> mp_unconfirmed s \<noteq> None \<or> \<not> mcp_usable s c \<or> \<not> tool_approved c (mp_tool s)) ReviewTool ''Call selected tool'',
      review_section s, unconfirmed_section s]"

definition tool_section :: "mcp_env \<Rightarrow> string \<Rightarrow> mcp_panel \<Rightarrow> mcp_connection \<Rightarrow> mcp_tool list \<Rightarrow> mcp_click view list" where
  "tool_section env typed s c ts =
     (let picked = find (\<lambda>t. mt_name t = mp_tool s) ts in
      [picker (mp_busy s) PickTool (\<lambda>t. if t = [] then ''Select a catalog tool'' else t) ([] # map mt_name ts)]
      @ (if mp_tool s = [] then []
         else [labelled ''p'' (or_text (Option.bind picked mt_description) []),
               labelled ''pre'' (case picked of None \<Rightarrow> [] | Some t \<Rightarrow> me_show env (mt_schema t)),
               VEl ''summary'' [] [(''onClick'', ToggleAdvanced)] [VText ''Advanced - run this tool'']]
              @ (if mp_advanced s then advanced_view typed s c else [])))"

definition inspection_view :: "mcp_env \<Rightarrow> string \<Rightarrow> mcp_panel \<Rightarrow> mcp_click view" where
  "inspection_view env typed s =
     (case mp_inspecting s of None \<Rightarrow> VNone
      | Some c \<Rightarrow> box ''section''
          ([labelled ''h3'' (mc_label c @ '' permissions''),
            labelled ''p'' (''Configured allowed tools: '' @ (if mc_approved c = [] then ''None'' else join_with '', '' (mc_approved c)) @ ''.''),
            labelled ''pre'' (me_show env (mc_definition c))]
           @ (case mp_catalog s of
                Some (t # ts) \<Rightarrow> tool_section env typed s c (t # ts)
              | _ \<Rightarrow> [labelled ''p'' ''Connect after reviewing trust and scope to load the live catalog.''])
           @ [(case mp_result s of None \<Rightarrow> VNone | Some v \<Rightarrow> labelled ''pre'' (me_show env v)),
              button False CloseInspection ''Close connection inspection'']))"

text \<open>The forms of a connection and of a credential are components of their own; \<open>value\<close> and the credential are what they hand over.\<close>

definition form_view :: "mcp_work \<Rightarrow> mcp_panel \<Rightarrow> mcp_click view" where
  "form_view w s = VEl ''form'' [attr_flag ''disabled'' (mp_busy s)] [(''onSave'', BeginWork w)] []"

definition mcp_view :: "mcp_env \<Rightarrow> string \<Rightarrow> jsval \<Rightarrow> string \<times> string option \<times> string \<Rightarrow> mcp_panel \<Rightarrow> mcp_click view" where
  "mcp_view env typed v credential s = box ''section''
     ([labelled ''h2'' ''Tool connections'', show_if (mp_error s \<noteq> []) (labelled ''p'' (mp_error s)), show_if (mp_notice s \<noteq> []) (labelled ''p'' (mp_notice s))]
      @ (if mp_loading s then [labelled ''p'' ''Loading current connections...''] else map (connection_view s) (filter (connection_shown s) (mp_connections s)))
      @ [inspection_view env typed s,
         (case mp_editing s of None \<Rightarrow> VNone
          | Some c \<Rightarrow> show_if (mp_admin s) (box ''section''
              [form_view (EditWork c v) s, button (mp_busy s) CancelEdit ''Cancel'',
               (case credential of (binding, secret, kind) \<Rightarrow> form_view (CredentialWork (mc_id c) binding secret (mc_digest c) kind) s)])),
         show_if (mp_admin s) (box ''details'' [form_view (CreateWork v) s])])"

end
