(* ===== verification/ModelControls.thy ===== *)
theory ModelControls
  imports ChatPanel
begin

text \<open>
  \<open>features/SessionModelControls.tsx\<close>: the model and the account of the next turn. A choice is a patch of the conversation that
  also clears the thinking effort; an account brings a model of its own. The picker of the effort is a part that is given.
\<close>

section \<open>Props\<close>

record model_props =
  mq_session :: "session option"
  mq_engines :: "engine list"
  mq_providers :: "provider list"
  mq_accounts :: "runner_account list"
  mq_models :: "string list"
  mq_favorites :: "string list"
  mq_favorite_key :: string
  mq_running :: bool
  mq_coordinating :: bool
  mq_configures :: bool

datatype model_call = CallFavorite | CallModelPatch jsobj | CallConfigure

record model_controls =
  mq_open :: bool
  mq_shown :: "string option"
  mq_calls :: "model_call list"

definition fresh_controls :: "session option \<Rightarrow> model_controls" where
  "fresh_controls s = \<lparr>mq_open = False, mq_shown = map_option ses_id s, mq_calls = []\<rparr>"

text \<open>Another conversation closes the dialog.\<close>

definition controls_render :: "session option \<Rightarrow> model_controls \<Rightarrow> model_controls" where
  "controls_render s m = (if map_option ses_id s = mq_shown m then m else m\<lparr>mq_open := False, mq_shown := map_option ses_id s\<rparr>)"

section \<open>What the conversation uses\<close>

definition runner_account_of :: "model_props \<Rightarrow> runner_account option" where
  "runner_account_of p = find (\<lambda>a. Some (ra_provider a) = Option.bind (mq_session p) ses_provider_id) (mq_accounts p)"

definition account_of :: "model_props \<Rightarrow> provider option" where
  "account_of p = account_named (Option.bind (mq_session p) ses_provider_id) (mq_providers p)"

definition engine_used :: "model_props \<Rightarrow> engine option" where
  "engine_used p = Option.bind (mq_session p) (\<lambda>s. engine_of s (mq_engines p))"

definition engine_notice :: "model_props \<Rightarrow> string" where
  "engine_notice p =
     (let named = or_text (Option.bind (engine_used p) eng_name) ''This engine'' in
      case engine_used p of
        None \<Rightarrow> ''This engine is unavailable on this host. Check its installation in Models & engines.''
      | Some e \<Rightarrow>
          if eng_available e = Some False then ''This engine is unavailable on this host. Check its installation in Models & engines.''
          else if or_text (eng_auth_state e) [] \<in> {''unauthenticated'', ''expired''} then ''Sign in to '' @ named @ '' on this host, then refresh Models & engines.''
          else if eng_auth_state e = Some ''authenticated'' then named @ '' reports that it is signed in on this host.''
          else if eng_auth_state e = Some ''not_required'' then named @ '' reports that sign-in is not required.''
          else ''Uses '' @ named @ '' on this host. Its account status has not been verified by TermX.'')"

definition is_internal :: "model_props \<Rightarrow> bool" where
  "is_internal p \<longleftrightarrow> map_option ses_engine (mq_session p) = Some ''internal''"

definition on_runner :: "model_props \<Rightarrow> bool" where
  "on_runner p \<longleftrightarrow> truthy_text (Option.bind (mq_session p) ses_runner_id)"

definition connection_missing :: "model_props \<Rightarrow> bool" where
  "connection_missing p \<longleftrightarrow> is_internal p \<and> \<not> on_runner p \<and> \<not> (case account_of p of Some a \<Rightarrow> prov_secret_configured a | None \<Rightarrow> False)"

text \<open>The accounts to choose from; the one in use is never missing.\<close>

definition account_choices :: "model_props \<Rightarrow> (string \<times> string) list" where
  "account_choices p =
     (let named = (if on_runner p then map (\<lambda>a. (ra_provider a, ra_name a)) (mq_accounts p) else map (\<lambda>a. (prov_id a, prov_name a)) (mq_providers p));
          now = or_text (Option.bind (mq_session p) ses_provider_id) []
      in if now \<noteq> [] \<and> now \<notin> fst ` set named then named @ [(now, ''Unavailable account ('' @ now @ '')'')] else named)"

text \<open>\<open>JSON.stringify([session?.engine, session?.provider_id, model])\<close>; what is undefined is written as null.\<close>

definition json_text :: "string option \<Rightarrow> string" where
  "json_text t = (case t of None \<Rightarrow> ''null'' | Some x \<Rightarrow> json_string x)"

definition favorite_text :: "model_props \<Rightarrow> string \<Rightarrow> string" where
  "favorite_text p m = ''['' @ join_with '','' [json_text (map_option ses_engine (mq_session p)),
     json_text (Option.bind (mq_session p) ses_provider_id), json_string m] @ '']''"

definition is_favorite :: "model_props \<Rightarrow> string \<Rightarrow> bool" where
  "is_favorite p m \<longleftrightarrow> favorite_text p m \<in> set (mq_favorites p)"

definition model_now :: "model_props \<Rightarrow> string" where
  "model_now p = or_text (Option.bind (mq_session p) ses_model) []"

definition flag_key :: "('a \<Rightarrow> bool) \<Rightarrow> 'a \<Rightarrow> nat" where
  "flag_key P x = (if P x then 0 else 1)"

text \<open>Each model once, the one in use included, favourites first.\<close>

definition model_choices :: "model_props \<Rightarrow> string list" where
  "model_choices p = sort_key (flag_key (is_favorite p)) (first_seen ((if model_now p = [] then [] else [model_now p]) @ mq_models p))"

definition effort_words :: "model_props \<Rightarrow> string" where
  "effort_words p = replace_char (CHR ''_'') (CHR '' '') (join_with '', '' (case mq_session p of None \<Rightarrow> [] | Some s \<Rightarrow> map snd (ses_reasoning s)))"

section \<open>Choices\<close>

datatype 'p model_click = OpenControls | CloseControls | ManageConnections | PickModel "string option" | FavoriteModel | PickAccount string | EffortPart 'p

definition null_or :: "string option \<Rightarrow> jsval" where
  "null_or t = (if truthy_text t then JStr (or_text t []) else JNull)"

definition first_model :: "string list \<Rightarrow> string option" where
  "first_model ms = (case ms of [] \<Rightarrow> None | m # _ \<Rightarrow> Some m)"

definition account_patch :: "string \<Rightarrow> session \<Rightarrow> model_props \<Rightarrow> jsobj" where
  "account_patch pid s p =
     (if truthy_text (ses_runner_id s)
      then (let chosen = find (\<lambda>a. ra_provider a = pid) (mq_accounts p) in
            [(''reasoning_config'', JObj []), (''provider_id'', JStr pid), (''runner_credential_ref'', null_or (map_option ra_credential chosen)),
             (''model'', null_or (Option.bind chosen (\<lambda>a. first_model (ra_models a))))])
      else [(''provider_id'', JStr pid), (''model'', null_or (first_model (configured_models (account_named (Some pid) (mq_providers p))))),
            (''reasoning_config'', JObj [])])"

definition model_clicked :: "model_props \<Rightarrow> 'p model_click \<Rightarrow> model_controls \<Rightarrow> model_controls" where
  "model_clicked p a m =
     (case a of
        OpenControls \<Rightarrow> m\<lparr>mq_open := True\<rparr>
      | CloseControls \<Rightarrow> m\<lparr>mq_open := False\<rparr>
      | ManageConnections \<Rightarrow> m\<lparr>mq_open := False, mq_calls := mq_calls m @ [CallConfigure]\<rparr>
      | PickModel k \<Rightarrow> m\<lparr>mq_calls := mq_calls m @ [CallModelPatch [(''model'', null_or k), (''reasoning_config'', JObj [])]]\<rparr>
      | FavoriteModel \<Rightarrow> m\<lparr>mq_calls := mq_calls m @ [CallFavorite]\<rparr>
      | PickAccount pid \<Rightarrow> (case mq_session p of None \<Rightarrow> m | Some s \<Rightarrow> m\<lparr>mq_calls := mq_calls m @ [CallModelPatch (account_patch pid s p)]\<rparr>)
      | EffortPart _ \<Rightarrow> m)"

section \<open>What it shows\<close>

definition account_notice :: "model_props \<Rightarrow> string" where
  "account_notice p =
     (if on_runner p
      then (case runner_account_of p of Some a \<Rightarrow> ra_name a @ [CHR '' '', CHR 0xB7] @ '' Connected runner account'' | None \<Rightarrow> ''Choose a connected runner account.'')
      else (case account_of p of
              Some a \<Rightarrow> if prov_secret_configured a then ''Connected account.'' else ''Connect this account in Models & engines.''
            | None \<Rightarrow> if mq_providers p = [] then ''Add an account in Models & engines to choose its models.'' else ''Choose an account for this conversation.''))"

definition model_account_field :: "model_props \<Rightarrow> 'p model_click view" where
  "model_account_field p = box ''div''
     [picker (mq_running p) (\<lambda>a. PickAccount (fst a)) snd (([], ''Choose provider'') # account_choices p), labelled ''p'' (account_notice p)]"

definition engine_field :: "model_props \<Rightarrow> 'p model_click view" where
  "engine_field p = box ''div''
     [labelled ''p'' (engine_notice p),
      (case Option.bind (engine_used p) eng_auth_detail of Some d \<Rightarrow> show_if (d \<noteq> []) (labelled ''p'' d) | None \<Rightarrow> VNone),
      (case Option.bind (engine_used p) eng_error of Some e \<Rightarrow> show_if (e \<noteq> []) (labelled ''p'' (''Last engine check: '' @ e)) | None \<Rightarrow> VNone)]"

definition model_label :: "model_props \<Rightarrow> string \<Rightarrow> string" where
  "model_label p m = (if is_favorite p m then ''* '' else []) @ m"

definition model_dialog :: "'p view \<Rightarrow> model_props \<Rightarrow> 'p model_click view" where
  "model_dialog effort p = VEl ''dialog'' [] [(''onOpenChange'', CloseControls)]
     [labelled ''h2'' ''Model and effort'',
      show_if (mq_coordinating p) (labelled ''p''
        ''Your main agent runs on TermX Agent and can delegate work to installed engines. Each child chat keeps its engine, approvals, and supported limits.''),
      show_if (connection_missing p) (box ''div''
        [labelled ''p'' (if account_of p \<noteq> None then ''This account needs a connection before it can respond.'' else ''Choose a connected account to use your agent.''),
         show_if (mq_configures p) (button False ManageConnections ''Manage connections'')]),
      picker (mq_session p = None \<or> mq_running p) PickModel (\<lambda>m. case m of None \<Rightarrow> ''Default model'' | Some x \<Rightarrow> model_label p x) (None # map Some (model_choices p)),
      button (model_now p = []) FavoriteModel ''Favorite selected model'',
      show_if (model_choices p = []) (labelled ''p'' (if is_internal p then ''The connected account supplies the available models.''
        else ''No model list is available. The engine will use its default model.'')),
      show_if (mq_session p \<noteq> None) (map_view EffortPart effort),
      (if is_internal p then model_account_field p else engine_field p),
      show_if (mq_running p) (labelled ''p'' ''The current task keeps its settings. You can change them when it finishes.'')]"

definition model_view :: "'p view \<Rightarrow> model_props \<Rightarrow> model_controls \<Rightarrow> 'p model_click view" where
  "model_view effort p m = box ''div''
     [button (mq_session p = None) OpenControls (if model_now p = [] then ''Default model'' else model_now p),
      show_if (effort_words p \<noteq> []) (labelled ''small'' (effort_words p)),
      show_if (mq_open m) (model_dialog effort p)]"

section \<open>The models to choose from\<close>

lemma insort_flagged: "P x \<Longrightarrow> insort_key (flag_key P) x xs = x # xs"
  by (cases xs) (simp_all add: flag_key_def)

lemma insort_unflagged: "list_all (\<lambda>y. \<not> P y) ys \<Longrightarrow> \<not> P x \<Longrightarrow> insort_key (flag_key P) x (filter P xs @ ys) = filter P xs @ x # ys"
  by (induction xs) (cases ys; simp add: flag_key_def)+

lemma sort_by_flag: "sort_key (flag_key P) xs = filter P xs @ filter (\<lambda>x. \<not> P x) xs"
  by (induction xs) (simp_all add: insort_flagged insort_unflagged list_all_iff)

text \<open>Every model is offered once, the one in use among them, and the favourites come first in the order they are listed.\<close>

lemma favourites_first:
  defines "offered p \<equiv> first_seen ((if model_now p = [] then [] else [model_now p]) @ mq_models p)"
  shows "distinct (model_choices p) \<and> model_choices p = filter (is_favorite p) (offered p) @ filter (\<lambda>m. \<not> is_favorite p m) (offered p)
    \<and> (model_now p \<noteq> [] \<longrightarrow> model_now p \<in> set (model_choices p)) \<and> set (mq_models p) \<subseteq> set (model_choices p)"
  unfolding offered_def by (auto simp: model_choices_def sort_by_flag)

section \<open>Choosing an account\<close>

text \<open>What the host stores of a patch of the account and the model.\<close>

definition stored_choice :: "jsobj \<Rightarrow> session \<Rightarrow> session" where
  "stored_choice patch s = s\<lparr>ses_provider_id := opt_str (jget patch ''provider_id''), ses_model := opt_str (jget patch ''model'')\<rparr>"

lemma jget_account:
  "opt_str (jget (account_patch pid s p) ''provider_id'') = Some pid"
  "opt_str (jget (account_patch pid s p) ''model'') =
     (let m = (if truthy_text (ses_runner_id s) then Option.bind (find (\<lambda>a. ra_provider a = pid) (mq_accounts p)) (\<lambda>a. first_model (ra_models a))
               else first_model (configured_models (account_named (Some pid) (mq_providers p))))
      in if truthy_text m then Some (or_text m []) else None)"
  by (auto simp: account_patch_def jget_def null_or_def Let_def)

lemma first_model_in: "truthy_text (first_model ms) \<Longrightarrow> or_text (first_model ms) [] \<in> set ms"
  by (cases ms) (auto simp: first_model_def truthy_text_def or_text_def)

lemma or_text_again: "truthy_text t \<Longrightarrow> or_text (Some (or_text t [])) [] = or_text t []"
  by (auto simp: truthy_text_def or_text_def split: option.splits)

lemma model_offers:
  assumes "(a :: 'p model_click) \<in> set (offers (model_view effort p m))"
  shows "mq_session p \<noteq> None \<longrightarrow> mq_running p \<longrightarrow> (\<forall>k. a \<noteq> PickModel k) \<and> (\<forall>k. a \<noteq> PickAccount k)"
    and "a = PickAccount pid \<Longrightarrow> is_internal p \<and> \<not> mq_running p"
  using assms
  by (auto simp: model_view_def model_dialog_def model_account_field_def engine_field_def in_offers is_on_def jget_def simp del: offer_rules
      split: option.splits if_splits)

lemma stored_account:
  assumes "ses_engine s = ''internal''" "s' = stored_choice (account_patch pid s p) s"
  shows "truthy_text (ses_model s') \<Longrightarrow> \<exists>ms. local_models s' (mq_providers p) (mq_accounts p) = Some ms \<and> or_text (ses_model s') [] \<in> set ms"
    and "chat_connection_problem (Some s') (mq_providers p) engines =
      (if truthy_text (ses_runner_id s) then None
       else case account_named (Some pid) (mq_providers p) of None \<Rightarrow> Some ''account''
         | Some a \<Rightarrow> if \<not> prov_secret_configured a then Some ''account'' else if configured_models (Some a) = [] then Some ''model'' else None)"
proof -
  have s': "ses_provider_id s' = Some pid" "ses_engine s' = ''internal''" "ses_runner_id s' = ses_runner_id s"
    "ses_model s' = opt_str (jget (account_patch pid s p) ''model'')"
    using assms by (simp_all add: stored_choice_def jget_account(1))
  note model = s'(4) [unfolded jget_account(2) Let_def]
  show "\<exists>ms. local_models s' (mq_providers p) (mq_accounts p) = Some ms \<and> or_text (ses_model s') [] \<in> set ms" if t: "truthy_text (ses_model s')"
  proof (cases "truthy_text (ses_runner_id s)")
    case True
    then obtain a where a: "find (\<lambda>a. ra_provider a = pid) (mq_accounts p) = Some a" "truthy_text (first_model (ra_models a))"
      using t model by (cases "find (\<lambda>a. ra_provider a = pid) (mq_accounts p)") (auto simp: truthy_text_def split: if_splits)
    have "ses_model s' = Some (or_text (first_model (ra_models a)) [])" using model True a by simp
    then show ?thesis using True s'(1-3) a first_model_in [OF a(2)] by (simp add: local_models_def or_text_again)
  next
    case False
    let ?ms = "configured_models (account_named (Some pid) (mq_providers p))"
    have m: "truthy_text (first_model ?ms)" using t model False by (auto simp: truthy_text_def split: if_splits)
    obtain ms where ms: "local_models s' (mq_providers p) (mq_accounts p) = Some ms" using False s' by (simp add: local_models_def)
    have "first_seen ms = ?ms" using local_models_configured [OF _ _ ms] False s' by simp
    then have "set ms = set ?ms" by (metis set_first_seen)
    moreover have "ses_model s' = Some (or_text (first_model ?ms) [])" using model False m by simp
    ultimately show ?thesis using first_model_in [OF m] ms m by (simp add: or_text_again)
  qed
  have "the (ses_model s') \<in> set (configured_models (account_named (Some pid) (mq_providers p)))" if "truthy_text (ses_model s')" "\<not> truthy_text (ses_runner_id s)"
    using model that first_model_in by (auto simp: truthy_text_def split: if_splits)
  then show "chat_connection_problem (Some s') (mq_providers p) engines =
      (if truthy_text (ses_runner_id s) then None
       else case account_named (Some pid) (mq_providers p) of None \<Rightarrow> Some ''account''
         | Some a \<Rightarrow> if \<not> prov_secret_configured a then Some ''account'' else if configured_models (Some a) = [] then Some ''model'' else None)"
    using s'(1-3) model by (auto simp: chat_connection_problem_def Let_def split: option.splits)
qed


text \<open>While a task runs neither the model nor the account can be changed here.\<close>

lemma running_keeps_model:
  assumes "mq_session p \<noteq> None" "mq_running p" "a \<in> set (offers (model_view effort p m))"
  shows "set (mq_calls (model_clicked p a m)) \<subseteq> set (mq_calls m) \<union> {CallFavorite, CallConfigure}"
  using model_offers(1) [OF assms(3)] assms(1,2) by (auto simp: model_clicked_def split: model_click.splits)

section \<open>An instance\<close>

definition plain_chat :: session where
  "plain_chat = \<lparr>ses_id = ''c'', ses_title = ''T'', ses_project_id = None, ses_cwd = None, ses_engine = ''internal'', ses_provider_id = None,
     ses_model = Some ''old'', ses_mode = ''chat'', ses_draft_text = [], ses_draft_context = None, ses_revision = 1, ses_turns = None, ses_scroll = 0,
     ses_has_earlier = False, ses_runner_id = None, ses_worktree_id = None, ses_reasoning = []\<rparr>"

definition plain_models :: model_props where
  "plain_models = \<lparr>mq_session = Some plain_chat, mq_engines = [],
     mq_providers = [\<lparr>prov_id = ''p'', prov_name = ''P'', prov_model = ''a, b'', prov_capabilities = [], prov_secret_configured = True\<rparr>],
     mq_accounts = [], mq_models = [''a'', ''b''], mq_favorites = [''[\"internal\",null,\"b\"]''], mq_favorite_key = [], mq_running = False,
     mq_coordinating = False, mq_configures = True\<rparr>"

lemma favourite_listed_first: "model_choices plain_models = [''b'', ''old'', ''a'']"
  by code_simp


end
