(* ===== verification/OrchestratorAdoption.thy ===== *)
theory OrchestratorAdoption
  imports View ApiClient
begin

text \<open>
  \<open>features/OrchestratorAdoption.tsx\<close>: including an existing chat in the updates of the main
  agent. The user reviews the exact chat; the reviewed intent is kept in a registry shared by every
  panel, with the id of its request, so that a retry repeats the same request. Intents are
  numbered (\<open>pe_ident\<close>), since the code compares them by identity; \<open>uuid n\<close> is the
  \<open>n\<close>th id of \<open>crypto.randomUUID\<close>. The key of a panel is the text of
  \<open>[ownerId, session.id]\<close>, here the pair.
\<close>

section \<open>Data\<close>

datatype chat_owner = OwnedByUser | OwnedByOrchestrator

record enrollment =
  en_enrolled :: bool
  en_owner :: "chat_owner option"

record adoption_preview =
  ap_session :: string
  ap_revision :: int
  ap_digest :: string
  ap_title :: string
  ap_engine :: string
  ap_cwd :: "string option"
  ap_model :: "string option"
  ap_mode :: string
  ap_active_tasks :: "string list"
  ap_effect :: string
  ap_enrollment :: enrollment

record adoption_result =
  ar_ok :: bool
  ar_session :: string
  ar_owner :: string

datatype adoption_state = AdoptReady | AdoptSending | AdoptUncertain

record pending_adoption =
  pe_ident :: nat
  pe_preview :: adoption_preview
  pe_request :: string
  pe_state :: adoption_state

type_synonym adoption_key = "string \<times> string"

text \<open>What a review read and an enrollment request captured when they started.\<close>

record review_read =
  rr_key :: adoption_key
  rr_ticket :: nat
  rr_aborted :: bool

record enrollment_post =
  ep_key :: adoption_key
  ep_ticket :: nat
  ep_intent :: nat
  ep_session :: string
  ep_revision :: int
  ep_digest :: string
  ep_request :: string

record adoption =
  ad_registry :: "adoption_key \<rightharpoonup> pending_adoption"
  ad_next :: nat
  ad_key :: adoption_key
  ad_active :: bool
  ad_alive :: bool
  ad_generation :: nat
  ad_view_key :: adoption_key
  ad_open :: bool
  ad_loading :: bool
  ad_review :: "adoption_preview option"
  ad_record :: "pending_adoption option"
  ad_enrollment :: "enrollment option"
  ad_error :: string
  ad_needs_review :: bool
  ad_reads :: "review_read list"
  ad_read :: "nat option"
  ad_posts :: "enrollment_post list"
  ad_refreshed :: nat

section \<open>Operations\<close>

definition adoption_fresh :: "adoption \<Rightarrow> adoption_key \<Rightarrow> nat \<Rightarrow> bool" where
  "adoption_fresh s target ticket \<longleftrightarrow> ad_alive s \<and> ad_active s \<and> ad_key s = target \<and> ad_generation s = ticket"

definition abort_review :: "adoption \<Rightarrow> adoption" where
  "abort_review s =
     (case ad_read s of None \<Rightarrow> s
      | Some n \<Rightarrow> s\<lparr>ad_reads := (ad_reads s)[n := (ad_reads s ! n)\<lparr>rr_aborted := True\<rparr>]\<rparr>)"

definition open_adoption :: "adoption_key \<Rightarrow> adoption \<Rightarrow> adoption" where
  "open_adoption key s =
     (if key = ad_key s then s
      else (abort_review s)
        \<lparr>ad_key := key, ad_generation := Suc (ad_generation s), ad_read := None, ad_view_key := key,
         ad_open := False, ad_loading := False, ad_review := None, ad_record := ad_registry s key,
         ad_enrollment := None, ad_error := [], ad_needs_review := False\<rparr>)"

definition enable_adoption :: "bool \<Rightarrow> adoption \<Rightarrow> adoption" where
  "enable_adoption b s =
     (if b = ad_active s then s
      else if b then s\<lparr>ad_active := True\<rparr>
      else (abort_review s)\<lparr>ad_active := False, ad_open := False, ad_loading := False\<rparr>)"

definition unmount_adoption :: "adoption \<Rightarrow> adoption" where
  "unmount_adoption s = (abort_review s)\<lparr>ad_alive := False\<rparr>"

definition sign_out_adoptions :: "adoption \<Rightarrow> adoption" where
  "sign_out_adoptions s = s\<lparr>ad_registry := Map.empty\<rparr>"

definition start_preview :: "bool \<Rightarrow> adoption \<Rightarrow> adoption" where
  "start_preview show_dialog s =
     (if \<not> adoption_fresh s (ad_key s) (ad_generation s) then s
      else let t = s\<lparr>ad_open := (show_dialog \<or> ad_open s), ad_error := []\<rparr> in
        (case ad_registry s (ad_key s) of
           Some p \<Rightarrow>
             if pe_state p = AdoptSending then t\<lparr>ad_record := Some p, ad_review := Some (pe_preview p)\<rparr>
             else (abort_review t)
               \<lparr>ad_reads := ad_reads (abort_review t) @ [\<lparr>rr_key = ad_key s, rr_ticket = ad_generation s, rr_aborted = False\<rparr>],
                ad_read := Some (length (ad_reads s)), ad_loading := True\<rparr>
         | None \<Rightarrow> (abort_review t)
               \<lparr>ad_reads := ad_reads (abort_review t) @ [\<lparr>rr_key = ad_key s, rr_ticket = ad_generation s, rr_aborted = False\<rparr>],
                ad_read := Some (length (ad_reads s)), ad_loading := True\<rparr>))"

text \<open>The listener of \<open>termx-adoption-state\<close>, for a notice about \<open>key\<close>.\<close>

definition on_adoption_notice :: "adoption_key \<Rightarrow> bool \<Rightarrow> adoption \<Rightarrow> adoption" where
  "on_adoption_notice key has_result s =
     (if key \<noteq> ad_key s then s
      else let t = s\<lparr>ad_record := ad_registry s key\<rparr> in
        if has_result
        then (let u = t\<lparr>ad_enrollment := Some \<lparr>en_enrolled = True, en_owner = None\<rparr>, ad_review := None,
                        ad_error := [], ad_needs_review := False\<rparr>
              in if ad_active u then start_preview False u else u)
        else t)"

definition same_review :: "adoption_preview \<Rightarrow> adoption_preview \<Rightarrow> bool" where
  "same_review a b \<longleftrightarrow> ap_session a = ap_session b \<and> ap_revision a = ap_revision b \<and> ap_digest a = ap_digest b"

text \<open>The registry after a review: the same reviewed chat keeps its request id.\<close>

definition next_intent :: "(nat \<Rightarrow> string) \<Rightarrow> nat \<Rightarrow> pending_adoption option \<Rightarrow> adoption_preview \<Rightarrow> pending_adoption" where
  "next_intent uuid n previous v =
     (case previous of
        Some p \<Rightarrow>
          if same_review (pe_preview p) v then p\<lparr>pe_ident := n, pe_preview := v\<rparr>
          else \<lparr>pe_ident = n, pe_preview = v, pe_request = uuid n, pe_state = AdoptReady\<rparr>
      | None \<Rightarrow> \<lparr>pe_ident = n, pe_preview = v, pe_request = uuid n, pe_state = AdoptReady\<rparr>)"

definition review_received :: "(nat \<Rightarrow> string) \<Rightarrow> adoption_preview \<Rightarrow> adoption \<Rightarrow> adoption" where
  "review_received uuid v s =
     (let t = s\<lparr>ad_review := Some v, ad_enrollment := Some (ap_enrollment v), ad_needs_review := False\<rparr> in
      if en_enrolled (ap_enrollment v)
      then t\<lparr>ad_registry := (ad_registry s)(ad_key s := None), ad_record := None\<rparr>
      else (let p = next_intent uuid (ad_next s) (ad_registry s (ad_key s)) v
            in t\<lparr>ad_registry := (ad_registry s)(ad_key s \<mapsto> p), ad_record := Some p, ad_next := Suc (ad_next s)\<rparr>))"

definition review_failed :: "string \<Rightarrow> adoption \<Rightarrow> adoption" where
  "review_failed msg s = s\<lparr>ad_review := None, ad_error := msg, ad_needs_review := True\<rparr>"

definition wrong_review :: string where
  "wrong_review = ''The host returned a review for another conversation. Review this chat again.''"

definition review_done :: "nat \<Rightarrow> adoption \<Rightarrow> adoption" where
  "review_done n s =
     (if ad_read s = Some n
      then s\<lparr>ad_read := None, ad_loading := (if adoption_fresh s (rr_key (ad_reads s ! n)) (rr_ticket (ad_reads s ! n))
               then False else ad_loading s)\<rparr>
      else s)"

definition review_answer :: "(nat \<Rightarrow> string) \<Rightarrow> nat \<Rightarrow> js_error + adoption_preview \<Rightarrow> adoption \<Rightarrow> adoption" where
  "review_answer uuid n reply s =
     (let r = ad_reads s ! n in
      review_done n
        (if rr_aborted r \<or> \<not> adoption_fresh s (rr_key r) (rr_ticket r) then s
         else case reply of
           Inr v \<Rightarrow> if ap_session v \<noteq> snd (rr_key r) then review_failed wrong_review s else review_received uuid v s
         | Inl e \<Rightarrow> review_failed (error_message e) s))"

definition can_include :: "adoption \<Rightarrow> bool" where
  "can_include s \<longleftrightarrow> adoption_fresh s (ad_key s) (ad_generation s) \<and>
     (case (ad_registry s (ad_key s), ad_review s) of
        (Some p, Some v) \<Rightarrow> pe_state p \<noteq> AdoptSending \<and> \<not> ad_needs_review s \<and> \<not> en_enrolled (ap_enrollment v)
          \<and> ap_digest (pe_preview p) = ap_digest v \<and> ap_revision (pe_preview p) = ap_revision v
      | _ \<Rightarrow> False)"

definition set_intent :: "adoption_key \<Rightarrow> adoption_state \<Rightarrow> adoption \<Rightarrow> adoption" where
  "set_intent key st s = s\<lparr>ad_registry := (ad_registry s)(key := map_option (\<lambda>p. p\<lparr>pe_state := st\<rparr>) (ad_registry s key))\<rparr>"

definition include_chat :: "adoption \<Rightarrow> adoption" where
  "include_chat s =
     (if \<not> can_include s then s
      else (let p = the (ad_registry s (ad_key s));
                t = (set_intent (ad_key s) AdoptSending s)\<lparr>ad_error := []\<rparr>;
                u = on_adoption_notice (ad_key s) False t
            in u\<lparr>ad_posts := ad_posts u @
                  [\<lparr>ep_key = ad_key s, ep_ticket = ad_generation s, ep_intent = pe_ident p,
                    ep_session = ap_session (pe_preview p), ep_revision = ap_revision (pe_preview p),
                    ep_digest = ap_digest (pe_preview p), ep_request = pe_request p\<rparr>]\<rparr>))"

definition unconfirmed :: js_error where
  "unconfirmed = JsError ''The host did not confirm enrollment for this chat. Refresh its status before trying again.''"

definition confirm_result :: "enrollment_post \<Rightarrow> js_error + adoption_result \<Rightarrow> js_error + adoption_result" where
  "confirm_result p reply =
     (case reply of
        Inl e \<Rightarrow> Inl e
      | Inr v \<Rightarrow>
          if ar_session v \<noteq> ep_session p \<or> \<not> ar_ok v \<or> ar_owner v \<notin> {''user'', ''orchestrator''}
          then Inl unconfirmed else Inr v)"

definition holds_intent :: "enrollment_post \<Rightarrow> adoption \<Rightarrow> bool" where
  "holds_intent p s \<longleftrightarrow> (case ad_registry s (ep_key p) of None \<Rightarrow> False | Some q \<Rightarrow> pe_ident q = ep_intent p)"

definition drop_intent :: "adoption_key \<Rightarrow> adoption \<Rightarrow> adoption" where
  "drop_intent key s = s\<lparr>ad_registry := (ad_registry s)(key := None)\<rparr>"

definition include_answer :: "nat \<Rightarrow> js_error + adoption_result \<Rightarrow> adoption \<Rightarrow> adoption" where
  "include_answer n reply s =
     (let p = ad_posts s ! n; ok = adoption_fresh s (ep_key p) (ep_ticket p) in
      case confirm_result p reply of
        Inr v \<Rightarrow>
          (let t = (if holds_intent p s then on_adoption_notice (ep_key p) True (drop_intent (ep_key p) s) else s)
           in if ok then t\<lparr>ad_refreshed := Suc (ad_refreshed t)\<rparr> else t)
      | Inl e \<Rightarrow>
          if \<not> holds_intent p s then s
          else if has_status 409 e
          then (let t = on_adoption_notice (ep_key p) False (drop_intent (ep_key p) s)
                in if ok then t\<lparr>ad_record := None, ad_review := None, ad_needs_review := True,
                       ad_error := error_message e @ '' Review the latest chat details before confirming again.''\<rparr>
                   else t)
          else (let t = on_adoption_notice (ep_key p) False (set_intent (ep_key p) AdoptUncertain s)
                in if ok then t\<lparr>ad_error := error_message e @ '' Enrollment could not be confirmed. '' @
                       ''Retry the same reviewed request or refresh its status.''\<rparr>
                   else t))"

definition close_adoption :: "adoption \<Rightarrow> adoption" where
  "close_adoption s = s\<lparr>ad_open := False\<rparr>"

section \<open>What the panel shows\<close>

datatype adoption_action = ReviewChat | IncludeChat | CloseAdoption

definition adoption_managed :: "adoption \<Rightarrow> bool" where
  "adoption_managed s \<longleftrightarrow> ad_view_key s = ad_key s \<and> (case ad_enrollment s of None \<Rightarrow> False | Some e \<Rightarrow> en_enrolled e)"

definition adoption_busy :: "adoption \<Rightarrow> bool" where
  "adoption_busy s \<longleftrightarrow> ad_view_key s = ad_key s \<and> (case ad_record s of None \<Rightarrow> False | Some p \<Rightarrow> pe_state p = AdoptSending)"

definition adoption_showing :: "adoption \<Rightarrow> bool" where
  "adoption_showing s \<longleftrightarrow> ad_view_key s = ad_key s \<and> ad_open s \<and> ad_active s"

definition is_uncertain :: "adoption \<Rightarrow> bool" where
  "is_uncertain s \<longleftrightarrow> (case ad_record s of None \<Rightarrow> False | Some p \<Rightarrow> pe_state p = AdoptUncertain)"

definition review_details :: "adoption_preview \<Rightarrow> 'a view list" where
  "review_details v =
     [box ''dl''
        [labelled ''dt'' ''Chat'', labelled ''dd'' (or_text (Some (ap_title v)) ''Untitled conversation''),
         labelled ''dt'' ''Engine'', labelled ''dd'' (ap_engine v),
         labelled ''dt'' ''Folder'', labelled ''dd'' (or_text (ap_cwd v) ''No folder selected''),
         labelled ''dt'' ''Model'', labelled ''dd'' (or_text (ap_model v) ''Engine default''),
         labelled ''dt'' ''Mode'', labelled ''dd'' (ap_mode v),
         labelled ''dt'' ''Active tasks'', labelled ''dd'' (nat_text (length (ap_active_tasks v)))],
      labelled ''p'' (ap_effect v)]"

definition included_note :: "adoption_preview \<Rightarrow> string" where
  "included_note v = ''This chat is already included. '' @
     (case en_owner (ap_enrollment v) of
        Some OwnedByUser \<Rightarrow> ''At review time, you were in control.''
      | Some OwnedByOrchestrator \<Rightarrow> ''At review time, the main agent had control.''
      | None \<Rightarrow> ''Check the chat'' @ CHR 0x92 # ''s control banner for current ownership.'')"

definition adoption_dialog :: "adoption \<Rightarrow> adoption_action view" where
  "adoption_dialog s =
     box ''dialog''
       [labelled ''h2'' ''Include this chat in main agent updates?'',
        labelled ''p'' (''Review the exact conversation. Enrollment does not send a message, start a task, '' @
          ''or give the main agent control.''),
        show_if (ad_loading s) (labelled ''p'' (''Reading current chat details'' @ [CHR 0x85])),
        (case ad_review s of None \<Rightarrow> VNone | Some v \<Rightarrow> box ''div'' (review_details v)),
        (case ad_review s of None \<Rightarrow> VNone | Some v \<Rightarrow> show_if (adoption_managed s) (labelled ''p'' (included_note v))),
        show_if (ad_error s \<noteq> []) (labelled ''p'' (ad_error s)),
        show_if (adoption_busy s) (labelled ''p'' (''Confirming enrollment'' @ CHR 0x85 #
          '' Closing this dialog does not send another request.'')),
        box ''div''
          [button False CloseAdoption (if adoption_managed s then ''Done'' else ''Cancel''),
           show_if (\<not> adoption_managed s)
             (if ad_needs_review s then button (ad_loading s \<or> adoption_busy s) ReviewChat ''Review latest details''
              else box ''div''
                [show_if (is_uncertain s) (button (ad_loading s \<or> adoption_busy s) ReviewChat ''Refresh enrollment status''),
                 button (ad_review s = None \<or> ad_loading s \<or> adoption_busy s) IncludeChat
                   (if is_uncertain s then ''Retry same enrollment'' else ''Include this chat'')])]]"

definition adoption_view :: "adoption \<Rightarrow> adoption_action view" where
  "adoption_view s =
     box ''div''
       [(if adoption_managed s
         then labelled ''p'' (''Included in main agent updates. Check this chat'' @ CHR 0x92 #
                ''s control banner for current ownership.'')
         else box ''div''
           [button (\<not> ad_active s) ReviewChat (if adoption_busy s then ''Enrollment pending'' else ''Include in main agent updates''),
            labelled ''p'' ''Include progress and reports without changing control.'']),
        show_if (adoption_showing s) (adoption_dialog s)]"

fun run_adoption_action :: "adoption_action \<Rightarrow> adoption \<Rightarrow> adoption" where
  "run_adoption_action ReviewChat s = start_preview True s"
| "run_adoption_action IncludeChat s = include_chat s"
| "run_adoption_action CloseAdoption s = close_adoption s"

section \<open>Properties\<close>

lemma notice_registry [simp]: "ad_registry (on_adoption_notice k False s) = ad_registry s"
  and notice_posts [simp]: "ad_posts (on_adoption_notice k False s) = ad_posts s"
  and notice_key [simp]: "ad_key (on_adoption_notice k False s) = ad_key s"
  and notice_generation [simp]: "ad_generation (on_adoption_notice k False s) = ad_generation s"
  by (simp_all add: on_adoption_notice_def Let_def)

lemma set_intent_sel [simp]:
  "ad_key (set_intent k st s) = ad_key s" "ad_posts (set_intent k st s) = ad_posts s"
  "ad_review (set_intent k st s) = ad_review s" "ad_generation (set_intent k st s) = ad_generation s"
  "ad_registry (set_intent k st s) k = map_option (\<lambda>p. p\<lparr>pe_state := st\<rparr>) (ad_registry s k)"
  by (simp_all add: set_intent_def)

lemma include_chat_posts:
  "can_include s \<Longrightarrow> ad_posts (include_chat s) = ad_posts s @
     [\<lparr>ep_key = ad_key s, ep_ticket = ad_generation s, ep_intent = pe_ident (the (ad_registry s (ad_key s))),
       ep_session = ap_session (pe_preview (the (ad_registry s (ad_key s)))),
       ep_revision = ap_revision (pe_preview (the (ad_registry s (ad_key s)))),
       ep_digest = ap_digest (pe_preview (the (ad_registry s (ad_key s)))),
       ep_request = pe_request (the (ad_registry s (ad_key s)))\<rparr>]"
  by (simp add: include_chat_def Let_def)

lemma include_chat_refused: "\<not> can_include s \<Longrightarrow> include_chat s = s"
  by (simp add: include_chat_def)

lemma include_chat_sending:
  "can_include s \<Longrightarrow> \<exists>p. ad_registry (include_chat s) (ad_key s) = Some p \<and> pe_state p = AdoptSending
     \<and> ad_key (include_chat s) = ad_key s"
  by (auto simp: include_chat_def Let_def can_include_def split: option.splits prod.splits)

text \<open>Confirming sends exactly what was reviewed, once: a request carries the revision and the digest
  of the review on the screen, and while its outcome is open, confirming again, from this panel or
  after it was replaced, sends nothing.\<close>

theorem enrollment_sent_once:
  assumes "ad_posts (include_chat s) \<noteq> ad_posts s"
  shows "(\<exists>v p. ad_review s = Some v \<and> ad_posts (include_chat s) = ad_posts s @ [p]
       \<and> ep_revision p = ap_revision v \<and> ep_digest p = ap_digest v \<and> ep_key p = ad_key s)
    \<and> (\<forall>t. ad_registry t = ad_registry (include_chat s) \<and> ad_key t = ad_key s \<longrightarrow> ad_posts (include_chat t) = ad_posts t)"
proof -
  have can: "can_include s" using assms include_chat_refused by metis
  then obtain v where v: "ad_review s = Some v" "ap_digest (pe_preview (the (ad_registry s (ad_key s)))) = ap_digest v"
    "ap_revision (pe_preview (the (ad_registry s (ad_key s)))) = ap_revision v"
    by (auto simp: can_include_def split: option.splits)
  obtain p where p: "ad_registry (include_chat s) (ad_key s) = Some p" "pe_state p = AdoptSending"
    using include_chat_sending [OF can] by blast
  have "ad_posts (include_chat t) = ad_posts t" if "ad_registry t = ad_registry (include_chat s)" "ad_key t = ad_key s" for t
  proof -
    have "\<not> can_include t" using that p by (auto simp: can_include_def split: option.splits)
    then show ?thesis by (simp add: include_chat_def)
  qed
  with v show ?thesis by (simp add: include_chat_posts [OF can])
qed

text \<open>An uncertain outcome is repaired by the same request: after an error that is not a conflict, a
  review that finds the chat unchanged and a second confirmation send the same request id again, so
  the host can recognise it.\<close>

theorem retry_same_request:
  assumes "can_include s" and "n = length (ad_posts s)" and "\<not> has_status 409 e"
    and "t = include_answer n (Inl e) (include_chat s)"
    and "same_review (pe_preview (the (ad_registry s (ad_key s)))) v" and "\<not> en_enrolled (ap_enrollment v)"
    and "u = review_received uuid v t" and "can_include u"
  shows "ep_request (last (ad_posts (include_chat u))) = ep_request (last (ad_posts (include_chat s)))
    \<and> length (ad_posts (include_chat u)) = length (ad_posts s) + 2"
proof -
  obtain p where p: "ad_registry s (ad_key s) = Some p" using assms(1) by (auto simp: can_include_def split: option.splits)
  let ?i = "include_chat s"
  have i: "ad_registry ?i (ad_key s) = Some (p\<lparr>pe_state := AdoptSending\<rparr>)" "ad_key ?i = ad_key s"
    using assms(1) p by (simp_all add: include_chat_def Let_def)
  have post: "ad_posts ?i ! n = \<lparr>ep_key = ad_key s, ep_ticket = ad_generation s, ep_intent = pe_ident p,
      ep_session = ap_session (pe_preview p), ep_revision = ap_revision (pe_preview p),
      ep_digest = ap_digest (pe_preview p), ep_request = pe_request p\<rparr>" and posts: "ad_posts ?i = ad_posts s @ [ad_posts ?i ! n]"
    using assms(1,2) p by (simp_all add: include_chat_posts)
  have "holds_intent (ad_posts ?i ! n) ?i" by (simp add: holds_intent_def post i)
  then have t: "ad_registry t (ad_key s) = Some (p\<lparr>pe_state := AdoptUncertain\<rparr>)" "ad_key t = ad_key s" "ad_posts t = ad_posts ?i"
    using assms(3,4) i by (simp_all add: include_answer_def confirm_result_def Let_def post)
  have u: "ad_key u = ad_key s" "ad_posts u = ad_posts ?i"
    "ad_registry u (ad_key s) = Some (p\<lparr>pe_state := AdoptUncertain, pe_ident := ad_next t, pe_preview := v\<rparr>)"
    using assms(5,6,7) t p by (simp_all add: review_received_def Let_def next_intent_def)
  have "ep_request (last (ad_posts (include_chat u))) = pe_request p"
    using include_chat_posts [OF assms(8)] u by simp
  moreover have "ep_request (last (ad_posts ?i)) = pe_request p"
    using include_chat_posts [OF assms(1)] p by simp
  moreover have "length (ad_posts (include_chat u)) = length (ad_posts s) + 2"
    using include_chat_posts [OF assms(8)] u(2) include_chat_posts [OF assms(1)] by simp
  ultimately show ?thesis by simp
qed

text \<open>The confirm button is live only when confirming sends a request.\<close>

lemma adoption_offers_include:
  "IncludeChat \<in> set (offers (adoption_view s)) \<Longrightarrow> ad_review s \<noteq> None \<and> \<not> adoption_busy s \<and> \<not> ad_needs_review s \<and> ad_active s"
  by (auto simp: adoption_view_def adoption_dialog_def adoption_showing_def review_details_def
      split: if_splits option.splits)

definition chat_preview :: adoption_preview where
  "chat_preview = \<lparr>ap_session = ''c'', ap_revision = 4, ap_digest = ''d'', ap_title = ''Chat'', ap_engine = ''codex'',
     ap_cwd = None, ap_model = None, ap_mode = ''code'', ap_active_tasks = [], ap_effect = ''updates'',
     ap_enrollment = \<lparr>en_enrolled = False, en_owner = None\<rparr>\<rparr>"

definition closed_panel :: adoption where
  "closed_panel = \<lparr>ad_registry = Map.empty, ad_next = 0, ad_key = (''ana'', ''c''), ad_active = True, ad_alive = True,
     ad_generation = 0, ad_view_key = (''ana'', ''c''), ad_open = False, ad_loading = False, ad_review = None, ad_record = None,
     ad_enrollment = None, ad_error = [], ad_needs_review = False, ad_reads = [], ad_read = None, ad_posts = [], ad_refreshed = 0\<rparr>"

definition reviewed_panel :: adoption where
  "reviewed_panel = review_answer (\<lambda>n. nat_text n) 0 (Inr chat_preview) (start_preview True closed_panel)"

lemma reviewed_panel_ready: "can_include reviewed_panel"
  by (simp add: reviewed_panel_def review_answer_def start_preview_def closed_panel_def adoption_fresh_def chat_preview_def
      abort_review_def review_received_def next_intent_def review_done_def can_include_def Let_def)

theorem enrollment_sent_once_witness:
  "ad_posts (include_chat (include_chat reviewed_panel)) = ad_posts (include_chat reviewed_panel)"
proof -
  have "ad_posts (include_chat reviewed_panel) \<noteq> ad_posts reviewed_panel"
    by (simp add: include_chat_posts [OF reviewed_panel_ready])
  from enrollment_sent_once [OF this] include_chat_sending [OF reviewed_panel_ready] show ?thesis by blast
qed

theorem retry_same_request_witness:
  "ep_request (last (ad_posts (include_chat (review_received (\<lambda>n. nat_text n) chat_preview
     (include_answer 0 (Inl (JsError ''offline'')) (include_chat reviewed_panel)))))) =
   ep_request (last (ad_posts (include_chat reviewed_panel)))"
proof -
  let ?t = "include_answer 0 (Inl (JsError ''offline'')) (include_chat reviewed_panel)"
  let ?u = "review_received (\<lambda>n. nat_text n) chat_preview ?t"
  have state: "reviewed_panel = closed_panel\<lparr>ad_open := True, ad_reads := [\<lparr>rr_key = (''ana'', ''c''), rr_ticket = 0, rr_aborted = False\<rparr>],
      ad_registry := [(''ana'', ''c'') \<mapsto> \<lparr>pe_ident = 0, pe_preview = chat_preview, pe_request = nat_text 0, pe_state = AdoptReady\<rparr>],
      ad_record := Some \<lparr>pe_ident = 0, pe_preview = chat_preview, pe_request = nat_text 0, pe_state = AdoptReady\<rparr>,
      ad_review := Some chat_preview, ad_enrollment := Some (ap_enrollment chat_preview), ad_next := 1\<rparr>"
    by (simp add: reviewed_panel_def review_answer_def start_preview_def closed_panel_def adoption_fresh_def chat_preview_def
        abort_review_def review_received_def next_intent_def review_done_def Let_def)
  have "can_include ?u"
    by (simp add: state closed_panel_def chat_preview_def include_chat_def can_include_def adoption_fresh_def Let_def
        include_answer_def confirm_result_def holds_intent_def set_intent_def on_adoption_notice_def review_received_def
        next_intent_def same_review_def)
  moreover have "ad_posts reviewed_panel = []" by (simp add: state closed_panel_def)
  moreover have "same_review (pe_preview (the (ad_registry reviewed_panel (ad_key reviewed_panel)))) chat_preview"
    by (simp add: state closed_panel_def same_review_def)
  ultimately show ?thesis
    using retry_same_request [OF reviewed_panel_ready, of 0 "JsError ''offline''" ?t chat_preview ?u "\<lambda>n. nat_text n"]
    by (simp add: chat_preview_def)
qed

end
