(* ===== verification/OrchestratorStatus.thy ===== *)
theory OrchestratorStatus
  imports TaskPresentation View SessionFence
begin

text \<open>
  \<open>features/OrchestratorStatus.tsx\<close>: the panel of the main agent. It polls the host for the
  delegated chats, and hands control of a chat back and forth. Reads and control requests are
  numbered (the code compares abort controllers and tokens by identity); a read or a request
  remembers the account and the generation it was made for. \<open>onOpen\<close>, \<open>onPrimary\<close> and
  \<open>onRefresh\<close> are logs.
\<close>

section \<open>Data of the host\<close>

record coordination_limits =
  cl_time_budget :: "string option"
  cl_tool_steps :: "string option"
  cl_tokens :: "string option"
  cl_cost :: "string option"
  cl_steer :: "string option"
  cl_resume :: "string option"
  cl_approvals :: "string option"
  cl_tools_filter :: "string option"
  cl_deadline :: jsval

datatype chat_origin = OriginNative | OriginAdopted | OriginDelegated

datatype control_owner = ByUser | ByOrchestrator

record orch_child =
  oc_session :: string
  oc_task :: "string option"
  oc_title :: string
  oc_status :: string
  oc_engine :: string
  oc_origin :: chat_origin
  oc_limits :: "coordination_limits option"
  oc_result :: "string option"
  oc_error :: "string option"
  oc_owner :: control_owner
  oc_pending :: "nat option"
  oc_revision :: int
  oc_updated :: rat

record orch_activity =
  oa_sequence :: int
  oa_session :: string
  oa_message :: string
  oa_created :: rat

record orch_snapshot =
  sn_session :: "string option"
  sn_children :: "orch_child list"
  sn_activity :: "orch_activity list"
  sn_truncated :: bool

section \<open>State\<close>

record status_read =
  sr_owner :: string
  sr_ticket :: nat
  sr_aborted :: bool

record control_call =
  cc_owner :: string
  cc_ticket :: nat
  cc_selected :: string
  cc_next :: control_owner
  cc_child :: orch_child
  cc_primary :: "string option"

record orch_status =
  os_owner :: string
  os_generation :: nat
  os_alive :: bool
  os_observing :: bool
  os_selected :: string
  os_snapshot :: "orch_snapshot option"
  os_received :: string
  os_expanded :: bool
  os_error :: string
  os_read_error :: string
  os_stale :: bool
  os_busy :: string
  os_state_owner :: string
  os_reads :: "status_read list"
  os_read :: "nat option"
  os_calls :: "control_call list"
  os_flight :: "nat option"
  os_opened :: "string list"
  os_primaries :: "string list"
  os_refreshed :: nat

definition status_init :: "string \<Rightarrow> string \<Rightarrow> orch_status" where
  "status_init owner selected =
     \<lparr>os_owner = owner, os_generation = 0, os_alive = True, os_observing = False, os_selected = selected,
      os_snapshot = None, os_received = [], os_expanded = False, os_error = [], os_read_error = [],
      os_stale = False, os_busy = [], os_state_owner = owner, os_reads = [], os_read = None, os_calls = [],
      os_flight = None, os_opened = [], os_primaries = [], os_refreshed = 0\<rparr>"

definition fresh :: "orch_status \<Rightarrow> string \<Rightarrow> nat \<Rightarrow> bool" where
  "fresh s owner ticket \<longleftrightarrow> os_alive s \<and> os_owner s = owner \<and> os_generation s = ticket"

definition abort_read :: "orch_status \<Rightarrow> orch_status" where
  "abort_read s =
     (case os_read s of None \<Rightarrow> s
      | Some n \<Rightarrow> s\<lparr>os_reads := (os_reads s)[n := (os_reads s ! n)\<lparr>sr_aborted := True\<rparr>]\<rparr>)"

definition refresh_status :: "orch_status \<Rightarrow> orch_status" where
  "refresh_status s =
     (if \<not> os_observing s \<or> (case os_read s of None \<Rightarrow> False | Some n \<Rightarrow> \<not> sr_aborted (os_reads s ! n)) then s
      else s\<lparr>os_reads := os_reads s @ [\<lparr>sr_owner = os_owner s, sr_ticket = os_generation s, sr_aborted = False\<rparr>],
             os_read := Some (length (os_reads s))\<rparr>)"

definition read_usable :: "nat \<Rightarrow> orch_status \<Rightarrow> bool" where
  "read_usable n s \<longleftrightarrow> \<not> sr_aborted (os_reads s ! n) \<and> os_observing s
     \<and> fresh s (sr_owner (os_reads s ! n)) (sr_ticket (os_reads s ! n))"

definition read_done :: "nat \<Rightarrow> orch_status \<Rightarrow> orch_status" where
  "read_done n s = (if os_read s = Some n then s\<lparr>os_read := None\<rparr> else s)"

definition read_answer :: "nat \<Rightarrow> js_error + orch_snapshot \<Rightarrow> orch_status \<Rightarrow> orch_status" where
  "read_answer n reply s =
     read_done n
       (if \<not> read_usable n s then s
        else case reply of
          Inr v \<Rightarrow> s\<lparr>os_snapshot := Some v, os_received := sr_owner (os_reads s ! n), os_stale := False,
                    os_read_error := [],
                    os_primaries := os_primaries s @
                      (if truthy_text (sn_session v) then [the (sn_session v)] else [])\<rparr>
        | Inl e \<Rightarrow> s\<lparr>os_stale := True, os_read_error := error_message e\<rparr>)"

text \<open>A new account: the render, then the effects in their order.\<close>

definition set_owner :: "string \<Rightarrow> orch_status \<Rightarrow> orch_status" where
  "set_owner owner s =
     (if owner = os_owner s then s
      else refresh_status ((abort_read s)
        \<lparr>os_owner := owner, os_generation := Suc (os_generation s), os_read := None, os_flight := None,
         os_state_owner := owner, os_snapshot := None, os_received := [], os_expanded := False,
         os_error := [], os_read_error := [], os_stale := False, os_busy := []\<rparr>))"

definition set_observing :: "bool \<Rightarrow> orch_status \<Rightarrow> orch_status" where
  "set_observing b s =
     (if b = os_observing s then s
      else refresh_status ((if os_observing s then abort_read s else s)\<lparr>os_observing := b\<rparr>))"

definition set_selected :: "string \<Rightarrow> orch_status \<Rightarrow> orch_status" where
  "set_selected i s = s\<lparr>os_selected := i\<rparr>"

definition unmount_status :: "orch_status \<Rightarrow> orch_status" where
  "unmount_status s = (if os_observing s then abort_read s else s)\<lparr>os_alive := False\<rparr>"

definition change_control :: "orch_child \<Rightarrow> orch_status \<Rightarrow> orch_status" where
  "change_control child s =
     (if os_flight s \<noteq> None \<or> \<not> os_observing s \<or> os_stale s then s
      else s\<lparr>os_calls := os_calls s @ [\<lparr>cc_owner = os_owner s, cc_ticket = os_generation s, cc_selected = os_selected s,
               cc_next = (if oc_owner child = ByUser then ByOrchestrator else ByUser), cc_child = child,
               cc_primary = (case os_snapshot s of None \<Rightarrow> None | Some v \<Rightarrow> sn_session v)\<rparr>],
             os_flight := Some (length (os_calls s)), os_busy := oc_session child, os_error := []\<rparr>)"

definition replace_child :: "orch_child \<Rightarrow> orch_snapshot \<Rightarrow> orch_snapshot" where
  "replace_child v sn =
     sn\<lparr>sn_children := map (\<lambda>row. if oc_session row = oc_session v then v else row) (sn_children sn)\<rparr>"

definition control_done :: "nat \<Rightarrow> orch_status \<Rightarrow> orch_status" where
  "control_done n s =
     (if os_flight s = Some n
      then (let c = os_calls s ! n in
        s\<lparr>os_flight := None, os_busy := (if fresh s (cc_owner c) (cc_ticket c) then [] else os_busy s)\<rparr>)
      else s)"

definition control_answer :: "nat \<Rightarrow> js_error + orch_child \<Rightarrow> orch_status \<Rightarrow> orch_status" where
  "control_answer n reply s =
     (let c = os_calls s ! n; ok = fresh s (cc_owner c) (cc_ticket c) in
      control_done n
        (if \<not> ok then s
         else case reply of
           Inr v \<Rightarrow> s\<lparr>os_snapshot := map_option (replace_child v) (os_snapshot s), os_refreshed := Suc (os_refreshed s),
                     os_opened := os_opened s @
                       (if os_selected s = cc_selected c \<and> cc_next c = ByOrchestrator
                        then (case cc_primary c of None \<Rightarrow> [] | Some p \<Rightarrow> [p]) else [])\<rparr>
         | Inl e \<Rightarrow> refresh_status (s\<lparr>os_error := error_message e\<rparr>)))"

definition toggle_expanded :: "orch_status \<Rightarrow> orch_status" where
  "toggle_expanded s = s\<lparr>os_expanded := \<not> os_expanded s\<rparr>"

definition retry_status :: "orch_status \<Rightarrow> orch_status" where
  "retry_status s = refresh_status (s\<lparr>os_error := [], os_read_error := []\<rparr>)"

definition open_chat :: "string \<Rightarrow> orch_status \<Rightarrow> orch_status" where
  "open_chat i s = s\<lparr>os_opened := os_opened s @ [i]\<rparr>"

inductive orch_step :: "orch_status \<Rightarrow> orch_status \<Rightarrow> bool" where
  "orch_step s (set_owner o' s)"
| "orch_step s (set_observing b s)"
| "orch_step s (set_selected i s)"
| "orch_step s (unmount_status s)"
| "orch_step s (refresh_status s)"
| "n < length (os_reads s) \<Longrightarrow> orch_step s (read_answer n r s)"
| "orch_step s (change_control c s)"
| "n < length (os_calls s) \<Longrightarrow> orch_step s (control_answer n q s)"
| "orch_step s (toggle_expanded s)"
| "orch_step s (retry_status s)"
| "orch_step s (open_chat i s)"

lemmas orch_defs = set_owner_def set_observing_def set_selected_def unmount_status_def refresh_status_def
  read_answer_def change_control_def control_answer_def toggle_expanded_def retry_status_def open_chat_def
  abort_read_def read_done_def control_done_def

interpretation orch_fence: generation_fence os_generation orch_step
  by unfold_locales
    (erule orch_step.cases; auto simp: orch_defs Let_def split: option.split sum.split)

section \<open>Late answers\<close>

text \<open>What a user can see or what leaves the panel: everything but the bookkeeping of requests.\<close>

definition orch_visible :: "orch_status \<Rightarrow> orch_status" where
  "orch_visible s = s\<lparr>os_reads := [], os_read := None, os_flight := None\<rparr>"

text \<open>An answer to a request made for an earlier account changes nothing a user of the next account
  can see, and calls nobody back: neither the late state of the delegated chats nor the late
  outcome of a control request, success or error.\<close>

theorem late_answer_invisible:
  assumes "orch_step\<^sup>*\<^sup>* (set_owner o' s) t" and "o' \<noteq> os_owner s"
    and "sr_ticket (os_reads t ! n) \<le> os_generation s" and "cc_ticket (os_calls t ! m) \<le> os_generation s"
  shows "orch_visible (read_answer n r t) = orch_visible t \<and> orch_visible (control_answer m q t) = orch_visible t"
proof -
  have gen: "os_generation (set_owner o' s) = Suc (os_generation s)"
    using assms(2) by (simp add: set_owner_def refresh_status_def abort_read_def split: option.split)
  have "os_generation t \<noteq> sr_ticket (os_reads t ! n)" "os_generation t \<noteq> cc_ticket (os_calls t ! m)"
    using orch_fence.stale_forever [OF assms(1)] assms(3,4) gen by (metis le_imp_less_Suc)+
  then show ?thesis
    by (auto simp: read_answer_def read_usable_def fresh_def read_done_def control_answer_def control_done_def
        orch_visible_def Let_def)
qed

definition sample_status :: orch_status where
  "sample_status = set_observing True (status_init ''ana'' [])"

definition sample_child :: "string \<Rightarrow> control_owner \<Rightarrow> orch_child" where
  "sample_child i own = \<lparr>oc_session = i, oc_task = Some ''t'', oc_title = ''Build'', oc_status = ''running'', oc_engine = ''codex'',
     oc_origin = OriginDelegated, oc_limits = None, oc_result = None, oc_error = None, oc_owner = own, oc_pending = None,
     oc_revision = 1, oc_updated = 0\<rparr>"

definition sample_snapshot :: orch_snapshot where
  "sample_snapshot = \<lparr>sn_session = Some ''main'', sn_children = [sample_child ''c'' ByUser], sn_activity = [], sn_truncated = False\<rparr>"

theorem late_answer_invisible_witness:
  "orch_visible (read_answer 0 (Inr sample_snapshot) (set_owner ''bob'' (change_control (sample_child ''c'' ByUser) sample_status)))
   = orch_visible (set_owner ''bob'' (change_control (sample_child ''c'' ByUser) sample_status))"
proof -
  let ?s = "change_control (sample_child ''c'' ByUser) sample_status"
  have "sr_ticket (os_reads (set_owner ''bob'' ?s) ! 0) \<le> os_generation ?s"
    "cc_ticket (os_calls (set_owner ''bob'' ?s) ! 0) \<le> os_generation ?s" "''bob'' \<noteq> os_owner ?s"
    by (simp_all add: sample_status_def status_init_def orch_defs Let_def)
  from late_answer_invisible [OF rtranclp.rtrancl_refl this(3,1,2)] show ?thesis by blast
qed

text \<open>A control request that comes back navigates only where the user still is: the panel opens the
  main chat only when control went to the orchestrator, for the account that asked, and the user
  has not selected another chat meanwhile. No answer, success or conflict, sends another request.\<close>

theorem control_never_hijacks:
  assumes "os_opened (control_answer n q s) \<noteq> os_opened s"
  shows "(let c = os_calls s ! n in fresh s (cc_owner c) (cc_ticket c) \<and> os_selected s = cc_selected c
      \<and> cc_next c = ByOrchestrator \<and> (\<exists>p. cc_primary c = Some p \<and> os_opened (control_answer n q s) = os_opened s @ [p]))
    \<and> os_calls (control_answer n q s) = os_calls s"
  using assms
  by (auto simp: control_answer_def control_done_def refresh_status_def Let_def split: if_splits sum.splits option.splits)

theorem control_never_hijacks_witness:
  "os_opened (control_answer 0 (Inr (sample_child ''c'' ByOrchestrator))
     (change_control (sample_child ''c'' ByUser) (read_answer 0 (Inr sample_snapshot) sample_status))) = [''main'']"
proof -
  let ?s = "change_control (sample_child ''c'' ByUser) (read_answer 0 (Inr sample_snapshot) sample_status)"
  have "os_opened (control_answer 0 (Inr (sample_child ''c'' ByOrchestrator)) ?s) = os_opened ?s @ [''main'']"
    "os_opened ?s = []"
    by (simp_all add: sample_status_def status_init_def orch_defs Let_def sample_snapshot_def sample_child_def
        read_usable_def fresh_def truthy_text_def)
  then show ?thesis using control_never_hijacks [of 0 "Inr (sample_child ''c'' ByOrchestrator)" ?s] by simp
qed

section \<open>What the panel shows\<close>

record 'n formats =
  fm_number :: "rat \<Rightarrow> string"
  fm_iso :: "rat \<Rightarrow> string"
  fm_clock :: "rat \<Rightarrow> string"

definition engine_names :: "(string \<times> string) list" where
  "engine_names = [(''internal'', ''TermX Agent''), (''codex'', ''Codex''), (''claude'', ''Claude''), (''acp'', ''ACP agent'')]"

definition engine_label :: "string \<Rightarrow> jsval" where
  "engine_label e = js_or (own_or_proto engine_names e) (js_or (JStr e) (JStr ''Engine not reported''))"

definition child_state :: "orch_child \<Rightarrow> task_presentation" where
  "child_state c =
     (let st = task_state (oc_status c) in
      if \<not> truthy_text (oc_task c) \<and> oc_status c = ''idle'' then st\<lparr>tp_label := JStr ''No task started''\<rparr> else st)"

definition capability_names :: "(string \<times> string) list" where
  "capability_names = [(''native'', ''Native engine support''), (''gateway'', ''TermX gateway''), (''os'', ''Operating system''),
     (''advisory'', ''Advisory only''), (''unsupported'', ''Unavailable''), (''unverified'', ''Not verified'')]"

definition capability_label :: "string \<Rightarrow> jsval" where
  "capability_label v = js_or (own_or_proto capability_names v) (JStr (replace_char (CHR ''_'') (CHR '' '') v))"

definition term_row :: "string \<Rightarrow> jsval \<Rightarrow> 'a view list" where
  "term_row t v = [labelled ''dt'' t, labelled ''dd'' (text_of v)]"

definition optional_row :: "string \<Rightarrow> string option \<Rightarrow> (string \<Rightarrow> jsval) \<Rightarrow> 'a view list" where
  "optional_row t v f = (if truthy_text v then term_row t (f (the v)) else [])"

definition special :: "(string \<times> string) list \<Rightarrow> string \<Rightarrow> jsval" where
  "special tbl v = (case map_of tbl v of Some t \<Rightarrow> JStr t | None \<Rightarrow> capability_label v)"

definition is_whole :: "rat \<Rightarrow> bool" where
  "is_whole r \<longleftrightarrow> snd (quotient_of r) = 1"

definition deadline_row :: "'n formats \<Rightarrow> jsval \<Rightarrow> 'a view list" where
  "deadline_row fm d =
     (case d of
        JNum (Fin r) \<Rightarrow>
          if r > 0
          then term_row ''Elapsed-time safety ceiling''
                 (JStr ((if is_whole (r / 3600) then fm_number fm (r / 3600) @ '' hours'' else fm_number fm r @ '' seconds'') @
                    '' while the main agent is in control''))
          else []
      | _ \<Rightarrow> [])"

definition child_engine_details :: "'n formats \<Rightarrow> orch_child \<Rightarrow> 'a view" where
  "child_engine_details fm c =
     (case oc_limits c of
        None \<Rightarrow> VNone
      | Some l \<Rightarrow>
          VEl ''details'' [attr_text ''aria-label'' (''Engine details for '' @ oc_title c)] []
            [labelled ''summary'' ''Engine capabilities & limits'',
             show_if (oc_owner c = ByUser) (labelled ''p''
               (''Coordinator monitoring applies after you give the main agent control. '' @ ''The engine retains its own settings.'')),
             box ''dl''
               (term_row ''Engine'' (engine_label (oc_engine c)) @
                optional_row ''Time allowance'' (cl_time_budget l)
                  (special [(''shared-host'', ''Shared host time budget''),
                            (''host-monitoring'', ''Host monitoring; existing task limits are retained'')]) @
                optional_row ''Work allowance'' (cl_tool_steps l)
                  (special [(''shared-host'', ''Shared host tool-step budget''),
                            (''native-max-turns'', ''Native turn limit; individual tool calls are not counted''),
                            (''unmeasured'', ''Tool steps are not measured by TermX'')]) @
                optional_row ''Token usage'' (cl_tokens l) (special [(''unmeasured'', ''Not measured or capped by TermX'')]) @
                optional_row ''Cost'' (cl_cost l) (special [(''unmeasured'', ''Not measured or capped by TermX'')]) @
                optional_row ''Steering'' (cl_steer l) capability_label @
                optional_row ''Resume'' (cl_resume l) capability_label @
                optional_row ''Approvals'' (cl_approvals l) capability_label @
                optional_row ''Tool restrictions'' (cl_tools_filter l) capability_label @
                deadline_row fm (cl_deadline l))])"

datatype orch_action = OpenChat string | ChangeControl orch_child | ToggleExpanded | ExpandStatus | RetryStatus

definition current_snapshot :: "orch_status \<Rightarrow> orch_snapshot option" where
  "current_snapshot s = (if os_received s = os_owner s then os_snapshot s else None)"

definition shown_children :: "orch_status \<Rightarrow> orch_child list" where
  "shown_children s = (case current_snapshot s of None \<Rightarrow> [] | Some sn \<Rightarrow> sn_children sn)"

definition shown_failure :: "orch_status \<Rightarrow> string" where
  "shown_failure s = (if os_state_owner s = os_owner s
     then (if os_error s \<noteq> [] then os_error s else os_read_error s) else [])"

definition shown_stale :: "orch_status \<Rightarrow> bool" where
  "shown_stale s \<longleftrightarrow> os_state_owner s = os_owner s \<and> os_stale s"

definition selected_child :: "orch_status \<Rightarrow> orch_child option" where
  "selected_child s = find (\<lambda>row. oc_session row = os_selected s) (shown_children s)"

definition panel_hidden :: "orch_status \<Rightarrow> bool" where
  "panel_hidden s \<longleftrightarrow>
     (case current_snapshot s of
        None \<Rightarrow> False
      | Some sn \<Rightarrow>
          (case sn_session sn of
             None \<Rightarrow> True
           | Some p \<Rightarrow> os_selected s \<noteq> [] \<and> os_selected s \<noteq> p \<and> selected_child s = None))"

definition needs_attention :: "orch_child \<Rightarrow> bool" where
  "needs_attention c = tp_attention (task_state (oc_status c))"

definition count_of :: "('b \<Rightarrow> bool) \<Rightarrow> 'b list \<Rightarrow> nat" where
  "count_of P xs = length (filter P xs)"

definition recent_activity :: "orch_status \<Rightarrow> orch_activity list" where
  "recent_activity s =
     (let as = (case current_snapshot s of None \<Rightarrow> [] | Some sn \<Rightarrow> sn_activity sn)
      in rev (drop (length as - 12) as))"

text \<open>The comparator sorts by attention, then by the time of the last update; the sort is stable.\<close>

definition ordered_children :: "orch_child list \<Rightarrow> orch_child list" where
  "ordered_children cs =
     sort_key (\<lambda>c. if needs_attention c then 0 else 1 :: nat) (sort_key (\<lambda>c. - oc_updated c) cs)"

definition middle_dot :: string where
  "middle_dot = [CHR '' '', CHR 0xB7, CHR '' '']"

definition dots :: string where
  "dots = [CHR 0x85]"

definition engine_line :: "orch_child \<Rightarrow> string" where
  "engine_line c = ''Engine: '' @ text_of (engine_label (oc_engine c)) @
     (if oc_origin c = OriginAdopted then middle_dot @ ''Existing chat'' else [])"

definition child_banner :: "'n formats \<Rightarrow> orch_status \<Rightarrow> orch_child \<Rightarrow> orch_action view" where
  "child_banner fm s c =
     box ''div''
       [(case current_snapshot s of
           Some sn \<Rightarrow> (case sn_session sn of Some p \<Rightarrow> button False (OpenChat p) ''Main agent'' | None \<Rightarrow> VNone)
         | None \<Rightarrow> VNone),
        labelled ''span'' (if oc_owner c = ByUser then ''You are directing this chat'' else ''Managed by your main agent''),
        button (os_busy s \<noteq> [] \<or> shown_stale s \<or> \<not> os_observing s) (ChangeControl c)
          (if os_busy s = oc_session c then ''Updating'' @ dots
           else if oc_owner c = ByUser
           then (if oc_origin c = OriginAdopted then ''Give main agent control'' else ''Return to main agent'')
           else ''Take control''),
        labelled ''p''
          (if oc_origin c = OriginAdopted \<and> oc_owner c = ByUser
           then ''This existing chat is included in updates. You stay in control until you give the main agent control.''
           else if oc_owner c = ByUser
           then ''The main agent can see progress, but waits for you to return control before steering this chat.''
           else ''Take control to direct this agent yourself. Its progress still returns to your main chat.''),
        labelled ''p'' (engine_line c),
        child_engine_details fm c]"

definition summary_text :: "orch_status \<Rightarrow> string" where
  "summary_text s =
     (let cs = shown_children s; attention = count_of needs_attention cs;
          active = count_of (\<lambda>c. tp_active (task_state (oc_status c))) cs
      in if shown_stale s then ''Updates interrupted''
         else if current_snapshot s = None then ''Connecting'' @ dots
         else if attention > 0 then nat_text attention @ '' need attention''
         else if active > 0 then nat_text active @ '' in progress''
         else if cs \<noteq> [] then nat_text (length cs) @ '' finished or idle''
         else ''No tasks yet'')"

definition status_summary :: "orch_status \<Rightarrow> orch_action view" where
  "status_summary s =
     box ''div''
       [VEl ''button'' [attr_flag ''aria-expanded'' (os_expanded s)] [(''onClick'', ToggleExpanded)]
          [labelled ''span'' ''Delegated work'', labelled ''small'' (summary_text s)],
        show_if (count_of needs_attention (shown_children s) > 0 \<and> \<not> os_expanded s)
          (button False ExpandStatus ''Review'')]"

definition child_item :: "'n formats \<Rightarrow> orch_child \<Rightarrow> orch_action view" where
  "child_item fm c =
     box ''li''
       [VEl ''button'' [] [(''onClick'', OpenChat (oc_session c))]
          [labelled ''strong'' (or_text (Some (oc_title c)) ''Delegated task''),
           labelled ''span'' (text_of (tp_label (child_state c)))],
        labelled ''small'' (if oc_owner c = ByUser then ''You are in control'' else ''Main agent is coordinating''),
        labelled ''small'' (engine_line c),
        (if truthy_text (oc_error c) then labelled ''p'' (the (oc_error c))
         else if truthy_text (oc_result c) then labelled ''p'' (the (oc_result c)) else VNone),
        child_engine_details fm c]"

definition activity_item :: "'n formats \<Rightarrow> orch_activity \<Rightarrow> orch_action view" where
  "activity_item fm a =
     box ''li''
       [VEl ''time'' [attr_text ''dateTime'' (fm_iso fm (oa_created a * 1000))] [] [VText (fm_clock fm (oa_created a * 1000))],
        labelled ''span'' (oa_message a),
        show_if (oa_session a \<noteq> []) (button False (OpenChat (oa_session a)) ''Open chat'')]"

definition status_detail :: "'n formats \<Rightarrow> orch_status \<Rightarrow> orch_action view" where
  "status_detail fm s =
     (let cs = shown_children s; recent = recent_activity s in
      box ''div''
        [labelled ''p'' (''Your main agent coordinates delegated work here. Open a chat to inspect it; '' @
           ''take control when you want to direct it yourself.''),
         show_if (current_snapshot s = None \<and> shown_failure s = []) (labelled ''p'' (''Loading delegated work'' @ dots)),
         show_if (current_snapshot s \<noteq> None \<and> cs = []) (labelled ''p''
           (''Ask your main agent to delegate a task. Results, blockers, and requests for decisions will appear here.'')),
         show_if (case current_snapshot s of None \<Rightarrow> False | Some sn \<Rightarrow> sn_truncated sn) (labelled ''p''
           (''Showing up to 100 delegated chats, prioritizing active work. '' @
            ''Other conversations remain available in chat history.'')),
         show_if (cs \<noteq> []) (box ''ul'' (map (child_item fm) (ordered_children cs))),
         show_if (recent \<noteq> []) (box ''details'' [labelled ''summary'' ''Recent updates'', box ''ol'' (map (activity_item fm) recent)])])"

definition status_error :: "orch_status \<Rightarrow> orch_action view" where
  "status_error s =
     show_if (shown_failure s \<noteq> []) (box ''div''
       [labelled ''span'' (shown_failure s @
          (if shown_stale s \<and> current_snapshot s \<noteq> None then '' Showing the last received state.'' else [])),
        button (\<not> os_observing s \<or> os_busy s \<noteq> []) RetryStatus ''Refresh status''])"

definition decisions_enabled :: "orch_status \<Rightarrow> bool option" where
  "decisions_enabled s =
     (case current_snapshot s of
        Some sn \<Rightarrow> (if selected_child s = None \<and> sn_session sn = Some (os_selected s)
                    then Some (os_observing s \<and> \<not> shown_stale s) else None)
      | None \<Rightarrow> None)"

definition status_view :: "'n formats \<Rightarrow> orch_status \<Rightarrow> orch_action view" where
  "status_view fm s =
     (if panel_hidden s then VNone
      else box ''section''
        [(case selected_child s of Some c \<Rightarrow> child_banner fm s c | None \<Rightarrow> status_summary s),
         status_error s,
         (case decisions_enabled s of
            Some b \<Rightarrow> VEl ''OrchestratorDecisions'' [attr_flag ''enabled'' b] [] [] | None \<Rightarrow> VNone),
         show_if (selected_child s = None \<and> os_expanded s) (status_detail fm s)])"

fun status_action :: "orch_action \<Rightarrow> orch_status \<Rightarrow> orch_status" where
  "status_action (OpenChat i) s = open_chat i s"
| "status_action (ChangeControl c) s = change_control c s"
| "status_action ToggleExpanded s = toggle_expanded s"
| "status_action ExpandStatus s = s\<lparr>os_expanded := True\<rparr>"
| "status_action RetryStatus s = retry_status s"

lemma set_ordered [simp]: "set (ordered_children cs) = set cs"
  by (simp add: ordered_children_def)

lemma ordered_attention_first:
  "sorted (map (\<lambda>c. if needs_attention c then 0 else 1 :: nat) (ordered_children cs))"
  by (simp add: ordered_children_def)

lemma offers_term_row [simp]: "concat (map offers (term_row t y)) = []"
  by (simp add: term_row_def)

lemma offers_optional_row [simp]: "concat (map offers (optional_row t x f)) = []"
  by (simp add: optional_row_def del: concat_eq_Nil_conv)

lemma offers_deadline_row [simp]: "concat (map offers (deadline_row fm d)) = []"
  by (simp add: deadline_row_def del: concat_eq_Nil_conv split: jsval.split jsnum.split)

lemma offers_engine_details [simp]: "offers (child_engine_details fm c) = []"
  by (simp add: child_engine_details_def is_on_def jget_def attr_text_def del: concat_eq_Nil_conv split: option.split)

text \<open>Nothing of another account can be reached through the panel: every chat it offers to open,
  and every chat whose control it offers to change, was received for the account signed in.\<close>

theorem panel_offers_own_chats:
  assumes "a \<in> set (offers (status_view fm s))"
  shows "(\<forall>c. a = ChangeControl c \<longrightarrow> os_received s = os_owner s \<and> c \<in> set (shown_children s) \<and> os_busy s = [] \<and> os_observing s)
    \<and> (\<forall>i. a = OpenChat i \<longrightarrow> os_received s = os_owner s \<and>
         (\<exists>sn. os_snapshot s = Some sn \<and> (sn_session sn = Some i \<or> i \<in> oc_session ` set (sn_children sn)
            \<or> i \<in> oa_session ` set (sn_activity sn))))"
proof -
  have own: "c \<in> set (shown_children s) \<Longrightarrow> os_received s = os_owner s \<and>
      (\<exists>sn. os_snapshot s = Some sn \<and> oc_session c \<in> oc_session ` set (sn_children sn))" for c
    by (cases "os_snapshot s") (auto simp: shown_children_def current_snapshot_def split: if_splits)
  have found: "selected_child s = Some c \<Longrightarrow> c \<in> set (shown_children s)" for c
    by (auto simp: selected_child_def find_Some_iff)
  have recent: "x \<in> set (recent_activity s) \<Longrightarrow> os_received s = os_owner s \<and>
      (\<exists>sn. os_snapshot s = Some sn \<and> x \<in> set (sn_activity sn))" for x
    by (auto simp: recent_activity_def current_snapshot_def Let_def dest: in_set_dropD split: option.splits if_splits)
  have banner: "a \<in> set (offers (child_banner fm s c)) \<Longrightarrow>
      (a = ChangeControl c \<and> os_busy s = [] \<and> os_observing s) \<or>
      (\<exists>sn p. current_snapshot s = Some sn \<and> sn_session sn = Some p \<and> a = OpenChat p)" for c
    by (auto simp: child_banner_def split: option.splits if_splits)
  have snap: "current_snapshot s = Some sn \<Longrightarrow> os_received s = os_owner s \<and> os_snapshot s = Some sn" for sn
    by (auto simp: current_snapshot_def split: if_splits)
  have item: "a \<in> set (offers (child_item fm c)) \<Longrightarrow> a = OpenChat (oc_session c)" for c
    by (auto simp: child_item_def is_on_def jget_def split: if_splits)
  have act: "a \<in> set (offers (activity_item fm x)) \<Longrightarrow> a = OpenChat (oa_session x)" for x
    by (auto simp: activity_item_def is_on_def jget_def attr_text_def split: if_splits)
  have detail: "a \<in> set (offers (status_detail fm s)) \<Longrightarrow>
      (\<exists>c \<in> set (shown_children s). a = OpenChat (oc_session c)) \<or> (\<exists>x \<in> set (recent_activity s). a = OpenChat (oa_session x))"
    using item act by (auto simp: status_detail_def Let_def split: if_splits)
  have summary: "a \<in> set (offers (status_summary s)) \<Longrightarrow> a = ToggleExpanded \<or> a = ExpandStatus"
    by (auto simp: status_summary_def is_on_def jget_def attr_flag_def split: if_splits)
  have err: "a \<in> set (offers (status_error s)) \<Longrightarrow> a = RetryStatus"
    by (auto simp: status_error_def split: if_splits)
  have "(\<exists>c. selected_child s = Some c \<and> a \<in> set (offers (child_banner fm s c))) \<or> a \<in> set (offers (status_summary s))
      \<or> a \<in> set (offers (status_error s)) \<or> a \<in> set (offers (status_detail fm s))"
    using assms by (auto simp: status_view_def split: if_splits option.splits)
  then show ?thesis
    using banner found own snap summary err detail recent by (elim disjE exE conjE) (force | blast)+
qed

theorem panel_offers_own_chats_witness:
  "\<exists>fm :: unit formats. ChangeControl (sample_child ''c'' ByUser) \<in>
     set (offers (status_view fm (set_selected ''c'' (read_answer 0 (Inr sample_snapshot) sample_status))))
   \<and> os_received (set_selected ''c'' (read_answer 0 (Inr sample_snapshot) sample_status)) = ''ana''"
proof -
  let ?s = "set_selected ''c'' (read_answer 0 (Inr sample_snapshot) sample_status)"
  let ?fm = "\<lparr>fm_number = (\<lambda>_. []), fm_iso = (\<lambda>_. []), fm_clock = (\<lambda>_. [])\<rparr> :: unit formats"
  have state: "os_owner ?s = ''ana''"
    by (simp add: sample_status_def status_init_def orch_defs Let_def sample_snapshot_def read_usable_def fresh_def)
  have "ChangeControl (sample_child ''c'' ByUser) \<in> set (offers (status_view ?fm ?s))"
    by (simp add: status_view_def panel_hidden_def current_snapshot_def selected_child_def shown_children_def
        child_banner_def shown_stale_def sample_status_def status_init_def orch_defs Let_def sample_snapshot_def
        sample_child_def read_usable_def fresh_def truthy_text_def)
  with panel_offers_own_chats [OF this] state show ?thesis by metis
qed

end
