(* ===== verification/OrchestratorDecisions.thy ===== *)
theory OrchestratorDecisions
  imports OrchestratorStatus
begin

text \<open>
  \<open>features/OrchestratorDecisions.tsx\<close>: the approvals that delegated agents wait for, read one
  source at a time from the host. A source key is the text of a list of five values, here the
  tuple itself. A render may start a new run of reads and aborts the one before; runs are numbered.
\<close>

section \<open>Sources\<close>

definition max_sources :: nat where
  "max_sources = 8"

definition actionable_pending :: "approval \<Rightarrow> bool" where
  "actionable_pending a \<longleftrightarrow> ap_status a = ''pending'' \<and> ap_actionable a \<noteq> Some False"

definition unavailable_pending :: "approval \<Rightarrow> bool" where
  "unavailable_pending a \<longleftrightarrow>
     ap_status a = ''unavailable'' \<and> (\<not> truthy_text (ap_actual_status a) \<or> ap_actual_status a = Some ''pending'') \<or>
     ap_actionable a = Some False \<and> (ap_status a = ''pending'' \<or> ap_actual_status a = Some ''pending'')"

type_synonym source_ident = "string \<times> string option \<times> int \<times> rat \<times> nat option"

definition source_key :: "orch_child \<Rightarrow> source_ident" where
  "source_key c = (oc_session c, oc_task c, oc_revision c, oc_updated c, oc_pending c)"

record decision_source =
  ds_key :: source_ident
  ds_child :: orch_child
  ds_task :: task

type_synonym decisions_key = "(string \<times> bool) \<times> nat \<times> nat \<times> source_ident list"

record receipt =
  rc_owner :: string
  rc_epoch :: nat
  rc_sources :: "decision_source list"
  rc_unavailable :: "source_ident list"
  rc_complete :: "decisions_key option"

definition candidates :: "orch_child list \<Rightarrow> orch_child list" where
  "candidates cs = filter (\<lambda>c. truthy_text (oc_task c) \<and> (case oc_pending c of None \<Rightarrow> False | Some n \<Rightarrow> n > 0)) cs"

definition sources_of :: "orch_child list \<Rightarrow> orch_child list" where
  "sources_of cs = take max_sources (candidates cs)"

section \<open>State\<close>

record decision_run =
  rn_key :: decisions_key
  rn_generation :: nat
  rn_aborted :: bool
  rn_owner :: string
  rn_epoch :: nat
  rn_visible :: "source_ident list"
  rn_rest :: "orch_child list"

record decisions =
  od_owner :: string
  od_enabled :: bool
  od_children :: "orch_child list"
  od_retry :: nat
  od_received :: "receipt option"
  od_error :: "(string \<times> nat \<times> string) option"
  od_epoch :: nat
  od_key :: decisions_key
  od_generation :: nat
  od_runs :: "decision_run list"
  od_refreshed :: nat

definition run_abort :: "decisions \<Rightarrow> decision_run list" where
  "run_abort s = map (\<lambda>r. r\<lparr>rn_aborted := True\<rparr>) (od_runs s)"

definition start_run :: "decisions \<Rightarrow> decisions" where
  "start_run s =
     (let cs = sources_of (od_children s) in
      if \<not> od_enabled s \<or> cs = [] then s
      else s\<lparr>od_runs := od_runs s @
        [\<lparr>rn_key = od_key s, rn_generation = od_generation s, rn_aborted = False, rn_owner = od_owner s,
          rn_epoch = od_epoch s, rn_visible = map source_key cs, rn_rest = cs\<rparr>]\<rparr>)"

text \<open>A render with new props or a new retry count, and the effect it may cause.\<close>

definition render_decisions :: "string \<Rightarrow> bool \<Rightarrow> orch_child list \<Rightarrow> decisions \<Rightarrow> decisions" where
  "render_decisions owner enabled children s =
     (let epoch = (if (owner, enabled) = (od_owner s, od_enabled s) then od_epoch s else Suc (od_epoch s));
          key = ((owner, enabled), epoch, od_retry s, map source_key (sources_of children));
          t = s\<lparr>od_owner := owner, od_enabled := enabled, od_children := children, od_epoch := epoch\<rparr>
      in if key = od_key s then t
         else start_run (t\<lparr>od_key := key, od_generation := Suc (od_generation s), od_runs := run_abort s\<rparr>))"

definition run_fresh :: "decision_run \<Rightarrow> decisions \<Rightarrow> bool" where
  "run_fresh r s \<longleftrightarrow> \<not> rn_aborted r \<and> od_key s = rn_key r \<and> od_generation s = rn_generation r"

definition receipt_base :: "decision_run \<Rightarrow> receipt option \<Rightarrow> receipt" where
  "receipt_base r previous =
     (case previous of
        Some p \<Rightarrow>
          if rc_owner p = rn_owner r \<and> rc_epoch p = rn_epoch r
          then p\<lparr>rc_sources := filter (\<lambda>s. ds_key s \<in> set (rn_visible r)) (rc_sources p),
                 rc_unavailable := filter (\<lambda>k. k \<in> set (rn_visible r)) (rc_unavailable p)\<rparr>
          else \<lparr>rc_owner = rn_owner r, rc_epoch = rn_epoch r, rc_sources = [], rc_unavailable = [], rc_complete = None\<rparr>
      | None \<Rightarrow> \<lparr>rc_owner = rn_owner r, rc_epoch = rn_epoch r, rc_sources = [], rc_unavailable = [], rc_complete = None\<rparr>)"

definition without_source :: "source_ident \<Rightarrow> decision_source list \<Rightarrow> decision_source list" where
  "without_source k ss = filter (\<lambda>s. ds_key s \<noteq> k) ss"

definition receive_task :: "orch_child \<Rightarrow> task \<Rightarrow> receipt \<Rightarrow> receipt" where
  "receive_task c t p =
     (let k = source_key c; as = (case task_approvals t of None \<Rightarrow> [] | Some xs \<Rightarrow> xs) in
      p\<lparr>rc_sources := without_source k (rc_sources p) @
          (if (\<exists>a \<in> set as. actionable_pending a) then [\<lparr>ds_key = k, ds_child = c, ds_task = t\<rparr>] else []),
        rc_unavailable := filter (\<lambda>x. x \<noteq> k) (rc_unavailable p) @
          (if (\<exists>a \<in> set as. unavailable_pending a) then [k] else [])\<rparr>)"

definition receive_failure :: "orch_child \<Rightarrow> receipt \<Rightarrow> receipt" where
  "receive_failure c p =
     (let k = source_key c in
      p\<lparr>rc_sources := without_source k (rc_sources p), rc_unavailable := filter (\<lambda>x. x \<noteq> k) (rc_unavailable p) @ [k]\<rparr>)"

text \<open>An answer the code refuses: another task, or no list of approvals.\<close>

definition usable_task :: "orch_child \<Rightarrow> js_error + task \<Rightarrow> task option" where
  "usable_task c reply =
     (case reply of
        Inl e \<Rightarrow> None
      | Inr t \<Rightarrow> if Some (task_id t) \<noteq> oc_task c \<or> task_approvals t = None then None else Some t)"

definition source_answer :: "nat \<Rightarrow> js_error + task \<Rightarrow> decisions \<Rightarrow> decisions" where
  "source_answer n reply s =
     (let r = od_runs s ! n in
      case rn_rest r of
        [] \<Rightarrow> s
      | c # rest \<Rightarrow>
          if \<not> run_fresh r s then s\<lparr>od_runs := (od_runs s)[n := r\<lparr>rn_rest := []\<rparr>]\<rparr>
          else (let p = (case usable_task c reply of
                    Some t \<Rightarrow> receive_task c t (receipt_base r (od_received s))
                  | None \<Rightarrow> receive_failure c (receipt_base r (od_received s)));
                q = (if rest = [] then (receipt_base r (Some p))\<lparr>rc_complete := Some (rn_key r)\<rparr> else p)
            in s\<lparr>od_received := Some q, od_runs := (od_runs s)[n := r\<lparr>rn_rest := rest\<rparr>]\<rparr>))"

definition rerender :: "decisions \<Rightarrow> decisions" where
  "rerender s = render_decisions (od_owner s) (od_enabled s) (od_children s) s"

definition refresh_decisions :: "decisions \<Rightarrow> decisions" where
  "refresh_decisions s =
     rerender (s\<lparr>od_error := None, od_retry := Suc (od_retry s), od_refreshed := Suc (od_refreshed s)\<rparr>)"

definition unconfirmed_decision :: string where
  "unconfirmed_decision = ''The host did not confirm that decision. Check the current request before trying again.''"

definition decided :: "source_ident \<Rightarrow> bool \<Rightarrow> decisions \<Rightarrow> decisions" where
  "decided k confirmed s =
     rerender (s\<lparr>od_received := map_option (\<lambda>p. p\<lparr>rc_sources := without_source k (rc_sources p)\<rparr>) (od_received s),
        od_error := (if confirmed then od_error s else Some (od_owner s, od_epoch s, unconfirmed_decision)),
        od_retry := Suc (od_retry s), od_refreshed := Suc (od_refreshed s)\<rparr>)"

section \<open>What is shown\<close>

datatype decision_action = Decided source_ident string bool | RefreshDecisions

definition current_receipt :: "decisions \<Rightarrow> receipt option" where
  "current_receipt s =
     (case od_received s of
        Some p \<Rightarrow> if rc_owner p = od_owner s \<and> rc_epoch p = od_epoch s then Some p else None
      | None \<Rightarrow> None)"

definition current_keys :: "decisions \<Rightarrow> source_ident list" where
  "current_keys s = map source_key (sources_of (od_children s))"

definition current_sources :: "decisions \<Rightarrow> decision_source list" where
  "current_sources s =
     (case current_receipt s of None \<Rightarrow> [] | Some p \<Rightarrow> filter (\<lambda>x. ds_key x \<in> set (current_keys s)) (rc_sources p))"

definition unavailable_count :: "decisions \<Rightarrow> nat" where
  "unavailable_count s =
     (case current_receipt s of None \<Rightarrow> 0 | Some p \<Rightarrow> length (filter (\<lambda>k. k \<in> set (current_keys s)) (rc_unavailable p)))"

definition decisions_ready :: "decisions \<Rightarrow> bool" where
  "decisions_ready s \<longleftrightarrow>
     (case current_receipt s of None \<Rightarrow> False | Some p \<Rightarrow> rc_complete p = Some (od_key s))"

definition shown_error :: "decisions \<Rightarrow> string" where
  "shown_error s =
     (case od_error s of
        Some (owner, epoch, msg) \<Rightarrow> if owner = od_owner s \<and> epoch = od_epoch s then msg else []
      | None \<Rightarrow> [])"

definition approval_card :: "decision_source \<Rightarrow> approval \<Rightarrow> decision_action view" where
  "approval_card x a =
     VEl (if ap_kind a = ''budget'' then ''BudgetApproval'' else ''GeneralApprovalCard'')
       [attr_text ''approval'' (ap_id a)]
       [(''onDone'', Decided (ds_key x) (ap_id a) True), (''onError'', Decided (ds_key x) (ap_id a) False)] []"

definition source_article :: "decision_source \<Rightarrow> decision_action view" where
  "source_article x =
     box ''article''
       (box ''div''
          [labelled ''strong'' (or_text (Some (oc_title (ds_child x))) ''Delegated agent''),
           labelled ''span'' (if oc_owner (ds_child x) = ByUser then ''You are directing this chat'' else ''Main agent is coordinating'')] #
        map (approval_card x) (filter actionable_pending (case task_approvals (ds_task x) of None \<Rightarrow> [] | Some as \<Rightarrow> as)))"

definition decisions_view :: "decisions \<Rightarrow> decision_action view" where
  "decisions_view s =
     (if \<not> od_enabled s \<or> sources_of (od_children s) = [] then VNone
      else box ''section''
        ([box ''header'' [labelled ''h3'' ''Decisions for your agents'',
            labelled ''p'' ''Review the source request here. Your main agent keeps coordinating.''],
          show_if (\<not> decisions_ready s) (labelled ''p'' (''Loading current requests'' @ dots)),
          show_if (unavailable_count s > 0) (box ''div''
            [labelled ''p'' ''Some requests are unavailable. Refresh to check the host and your current access.'',
             button False RefreshDecisions ''Refresh requests'']),
          show_if (shown_error s \<noteq> []) (labelled ''p'' (shown_error s)),
          show_if (decisions_ready s \<and> current_sources s = [] \<and> unavailable_count s = 0)
            (labelled ''p'' (''These requests have been resolved. Refreshing agent status'' @ dots))] @
         map source_article (current_sources s) @
         [show_if (length (candidates (od_children s)) > max_sources)
            (labelled ''p'' (''Showing the first '' @ nat_text max_sources @
               '' agents needing a decision. Further requests appear as these are resolved.''))]))"

section \<open>Properties\<close>

lemma length_sources_of: "length (sources_of cs) \<le> 8"
  by (simp add: sources_of_def max_sources_def)

text \<open>A decision is offered only on a request that is current: the panel is enabled, the reading was
  done for the account and the visibility of now, the source is one of the first eight that ask for
  a decision, at the very revision the host reported, and the approval can still be acted on.\<close>

theorem decision_offers_current:
  assumes "Decided k a b \<in> set (offers (decisions_view s))"
  shows "od_enabled s \<and> (\<exists>p x ap. od_received s = Some p \<and> rc_owner p = od_owner s \<and> rc_epoch p = od_epoch s
    \<and> x \<in> set (rc_sources p) \<and> ds_key x = k \<and> k \<in> source_key ` set (sources_of (od_children s))
    \<and> (\<exists>as. task_approvals (ds_task x) = Some as \<and> ap \<in> set as) \<and> ap_id ap = a \<and> actionable_pending ap)"
proof -
  have on: "od_enabled s" using assms by (auto simp: decisions_view_def split: if_splits)
  have card: "Decided k a b \<in> set (offers (approval_card x ap)) \<Longrightarrow> ds_key x = k \<and> ap_id ap = a" for x ap
    by (auto simp: approval_card_def is_on_def jget_def attr_text_def)
  obtain x where x: "x \<in> set (current_sources s)" and art: "Decided k a b \<in> set (offers (source_article x))"
    using assms by (auto simp: decisions_view_def split: if_splits)
  then obtain ap as where ap: "task_approvals (ds_task x) = Some as" "ap \<in> set as" "actionable_pending ap"
    "Decided k a b \<in> set (offers (approval_card x ap))"
    by (cases "task_approvals (ds_task x)") (auto simp: source_article_def)
  obtain p where "current_receipt s = Some p" "x \<in> set (rc_sources p)" "ds_key x \<in> set (current_keys s)"
    using x by (cases "current_receipt s") (auto simp: current_sources_def)
  then show ?thesis
    using on card [OF ap(4)] ap by (auto simp: current_receipt_def current_keys_def split: option.splits if_splits)
qed

text \<open>A source read again authorises it again: when that read fails, or names another task, the former
  request of that source disappears, the other sources stay, and nothing of a run that is not the
  current one is used.\<close>

theorem failed_read_withdraws:
  assumes "n < length (od_runs s)" and "rn_rest (od_runs s ! n) = c # rest" and "usable_task c reply = None"
  shows "(run_fresh (od_runs s ! n) s \<longrightarrow>
      (\<exists>p. od_received (source_answer n reply s) = Some p \<and> source_key c \<notin> ds_key ` set (rc_sources p)
        \<and> (\<forall>q x. od_received s = Some q \<and> rc_owner q = rn_owner (od_runs s ! n) \<and> rc_epoch q = rn_epoch (od_runs s ! n)
             \<and> x \<in> set (rc_sources q) \<and> ds_key x \<in> set (rn_visible (od_runs s ! n)) \<and> ds_key x \<noteq> source_key c
             \<longrightarrow> x \<in> set (rc_sources p))))
    \<and> (\<not> run_fresh (od_runs s ! n) s \<longrightarrow> od_received (source_answer n reply s) = od_received s)"
  using assms
  by (auto simp: source_answer_def Let_def receive_failure_def without_source_def receipt_base_def split: option.splits)

definition waiting_child :: orch_child where
  "waiting_child = (sample_child ''c'' ByUser)\<lparr>oc_pending := Some 1\<rparr>"

definition waiting_task :: task where
  "waiting_task = Task ''t'' ''awaiting_approval'' ''build'' None None None None None None
     (Some [\<lparr>ap_id = ''a1'', ap_status = ''pending'', ap_actual_status = None, ap_actionable = None, ap_kind = ''tool'', ap_payload = []\<rparr>])
     None None None"

definition idle_decisions :: decisions where
  "idle_decisions = \<lparr>od_owner = [], od_enabled = False, od_children = [], od_retry = 0, od_received = None, od_error = None,
     od_epoch = 0, od_key = (([], False), 0, 0, []), od_generation = 0, od_runs = [], od_refreshed = 0\<rparr>"

definition reading_decisions :: decisions where
  "reading_decisions = render_decisions ''ana'' True [waiting_child] idle_decisions"

lemma reading_run:
  "od_runs reading_decisions = [\<lparr>rn_key = ((''ana'', True), 1, 0, [source_key waiting_child]), rn_generation = 1,
     rn_aborted = False, rn_owner = ''ana'', rn_epoch = 1, rn_visible = [source_key waiting_child], rn_rest = [waiting_child]\<rparr>]"
  "od_key reading_decisions = ((''ana'', True), 1, 0, [source_key waiting_child])" "od_generation reading_decisions = 1"
  "od_received reading_decisions = None" "od_owner reading_decisions = ''ana''" "od_epoch reading_decisions = 1"
  "od_enabled reading_decisions" "od_children reading_decisions = [waiting_child]"
  by (simp_all add: reading_decisions_def render_decisions_def idle_decisions_def start_run_def run_abort_def Let_def
      sources_of_def candidates_def waiting_child_def sample_child_def truthy_text_def max_sources_def)

theorem decision_offers_current_witness:
  "od_enabled (source_answer 0 (Inr waiting_task) reading_decisions)"
proof -
  have src: "sources_of [waiting_child] = [waiting_child]"
    by (simp add: sources_of_def candidates_def waiting_child_def sample_child_def truthy_text_def max_sources_def)
  have task: "oc_task waiting_child = Some ''t''" by (simp add: waiting_child_def sample_child_def)
  have "Decided (source_key waiting_child) ''a1'' True \<in> set (offers (decisions_view (source_answer 0 (Inr waiting_task) reading_decisions)))"
    by (simp add: source_answer_def reading_run Let_def run_fresh_def usable_task_def task waiting_task_def receive_task_def
        receipt_base_def without_source_def actionable_pending_def unavailable_pending_def truthy_text_def decisions_view_def src current_sources_def
        current_receipt_def current_keys_def source_article_def approval_card_def is_on_def jget_def attr_text_def)
  from decision_offers_current [OF this] show ?thesis by blast
qed

theorem failed_read_withdraws_witness:
  "\<exists>p. od_received (source_answer 0 (Inl (JsError ''offline'')) reading_decisions) = Some p
     \<and> source_key waiting_child \<notin> ds_key ` set (rc_sources p)"
  using failed_read_withdraws [of 0 reading_decisions waiting_child "[]" "Inl (JsError ''offline'')"]
  by (auto simp: reading_run usable_task_def run_fresh_def)

end
