(* ===== verification/Preferences.thy ===== *)
theory Preferences
  imports WebStorage DraftHandoff "HOL-Library.Product_Lexorder"
begin

text \<open>
  What a user or a window keeps in the browser's storage, and small decisions on it:
  \<open>lib/keybindings.ts\<close>, \<open>lib/terminal-selection.ts\<close>, \<open>lib/terminal-frames.ts\<close>,
  \<open>lib/terminal-keyboard.ts\<close> and \<open>lib/model-favorites.ts\<close>. A storage that throws is
  one of the environments: the handlers of the code answer it.
\<close>

section \<open>Key bindings\<close>

definition default_bindings :: "(string \<times> string) list" where
  "default_bindings = [(''chat'', ''Mod+1''), (''workbench'', ''Mod+2''), (''browser'', ''Mod+3''), (''review'', ''Mod+4''), (''computer'', ''Mod+5''),
     (''artifacts'', ''Mod+6''), (''terminal'', ''Mod+7''), (''closeTab'', ''Mod+W''), (''reopenTab'', ''Mod+Shift+T''), (''fullscreen'', ''Ctrl+Meta+F''),
     (''savedLayouts'', ''Mod+Alt+L''), (''left'', ''Mod+B''), (''right'', ''Mod+Alt+B''), (''bottom'', ''Mod+J''), (''palette'', ''Mod+Shift+P''),
     (''quickFile'', ''Mod+P''), (''newConversation'', ''Mod+Shift+N''), (''focus'', ''Mod+K Z''), (''undoLayout'', ''Mod+Alt+Z''),
     (''resetLayout'', ''Mod+Alt+R''), (''focusConversation'', ''Mod+Alt+1''), (''focusEditor'', ''Mod+Alt+2''), (''focusBrowser'', ''Mod+Alt+3''),
     (''focusComputer'', ''Mod+Alt+5''), (''browserNew'', ''Mod+Alt+T''), (''browserClose'', ''Mod+Alt+W''), (''browserReopen'', ''Mod+Alt+Shift+T'')]"

definition binding_labels :: "(string \<times> string) list" where
  "binding_labels = [(''chat'', ''Chat''), (''workbench'', ''Workbench''), (''browser'', ''Browser''), (''review'', ''Review file changes''), (''computer'', ''Computer''),
     (''artifacts'', ''Artifacts canvas''), (''terminal'', ''Terminal tab''), (''closeTab'', ''Close current tab''), (''reopenTab'', ''Reopen closed tab''),
     (''fullscreen'', ''Toggle full screen''), (''savedLayouts'', ''Saved layout presets''), (''left'', ''Toggle left panel''), (''right'', ''Toggle right panel''),
     (''bottom'', ''Toggle bottom panel''), (''palette'', ''Workspace commands''), (''quickFile'', ''Quick file open''), (''newConversation'', ''New conversation''),
     (''focus'', ''Focus mode / restore layout''), (''undoLayout'', ''Undo layout''), (''resetLayout'', ''Reset layout''), (''focusConversation'', ''Focus conversation''),
     (''focusEditor'', ''Focus editor''), (''focusBrowser'', ''Focus browser''), (''focusComputer'', ''Focus computer''), (''browserNew'', ''New built-in browser tab''),
     (''browserClose'', ''Close built-in browser tab''), (''browserReopen'', ''Reopen closed built-in browser tab'')]"

record key_event =
  ke_key :: string
  ke_shift :: bool
  ke_alt :: bool
  ke_ctrl :: bool
  ke_meta :: bool

definition stroke_matches :: "string \<Rightarrow> key_event \<Rightarrow> bool" where
  "stroke_matches stroke e \<longleftrightarrow>
     (let pieces = map trim (split_on (CHR ''+'') (lower_text stroke)); key = last pieces; mods = butlast pieces in
      lower_text (ke_key e) = key \<and> (ke_shift e \<longleftrightarrow> ''shift'' \<in> set mods) \<and> (ke_alt e \<longleftrightarrow> ''alt'' \<in> set mods)
      \<and> (if ''mod'' \<in> set mods then ke_ctrl e \<or> ke_meta e else (ke_ctrl e \<longleftrightarrow> ''ctrl'' \<in> set mods) \<and> (ke_meta e \<longleftrightarrow> ''meta'' \<in> set mods)))"

text \<open>\<open>/^(?:(?:Mod|Ctrl|Meta|Alt|Shift)\+)*(?:[A-Za-z0-9]|Escape|F\d{1,2})$/i\<close> on one stroke, and
  \<open>split(/\s+/)\<close>.\<close>

definition key_name :: "string \<Rightarrow> bool" where
  "key_name k \<longleftrightarrow> (length k = 1 \<and> (is_alpha (hd k) \<or> is_digit (hd k))) \<or> lower_text k = ''escape''
     \<or> (2 \<le> length k \<and> length k \<le> 3 \<and> lower_char (hd k) = CHR ''f'' \<and> list_all is_digit (tl k))"

definition valid_stroke :: "string \<Rightarrow> bool" where
  "valid_stroke s \<longleftrightarrow> (let ps = split_on (CHR ''+'') s in
     key_name (last ps) \<and> list_all (\<lambda>p. lower_text p \<in> {''mod'', ''ctrl'', ''meta'', ''alt'', ''shift''}) (butlast ps))"

fun space_words :: "string \<Rightarrow> string list" where
  "space_words [] = [[]]"
| "space_words (c # s) =
     (if is_space c then (if s \<noteq> [] \<and> is_space (hd s) then space_words s else [] # space_words s)
      else (case space_words s of [] \<Rightarrow> [[c]] | w # ws \<Rightarrow> (c # w) # ws))"

definition valid_binding :: "string \<Rightarrow> bool" where
  "valid_binding t \<longleftrightarrow> length t \<le> 80 \<and> list_all valid_stroke (space_words (trim t))"

definition read_binding :: "jsval \<Rightarrow> string \<times> string \<Rightarrow> string \<times> string" where
  "read_binding v = (\<lambda>(k, d). case js_property v k of JStr t \<Rightarrow> if valid_binding t then (k, trim t) else (k, d) | _ \<Rightarrow> (k, d))"

definition validate_bindings :: "jsval \<Rightarrow> (string \<times> string) list" where
  "validate_bindings v = map (read_binding v) default_bindings"

definition load_bindings :: "stored_value option \<Rightarrow> (string \<times> string) list" where
  "load_bindings serialized = (case serialized of None \<Rightarrow> validate_bindings JNull | Some Garbage \<Rightarrow> default_bindings | Some (Parsed v) \<Rightarrow> validate_bindings v)"

text \<open>The strokes a browser keeps to itself.\<close>

definition reserved_binding :: "string \<Rightarrow> bool" where
  "reserved_binding b \<longleftrightarrow> (let ps = split_on (CHR ''+'') (lower_text b) in
     (length ps = 2 \<and> hd ps \<in> {''mod'', ''ctrl'', ''meta''} \<and> last ps \<in> {''w'', ''t'', ''l'', ''r'', ''n'', ''q'', ''p'', ''-''})
     \<or> (ps \<in> {[''mod'', [], []], [''ctrl'', [], []], [''meta'', [], []]}))"

definition label_of :: "string \<Rightarrow> string" where
  "label_of k = (case map_of binding_labels k of None \<Rightarrow> ''undefined'' | Some l \<Rightarrow> l)"

definition conflict_text :: "string \<Rightarrow> string \<Rightarrow> string" where
  "conflict_text k other = label_of k @ '' conflicts with '' @ other"

definition reserved_text :: "string \<Rightarrow> string \<Rightarrow> string" where
  "reserved_text k b = label_of k @ '': browsers may reserve '' @ b @ ''. Use the Commands menu when the shortcut is unavailable.''"

fun warn_bindings :: "(string \<times> string) list \<Rightarrow> (string \<times> string) list \<Rightarrow> string list" where
  "warn_bindings seen [] = []"
| "warn_bindings seen ((k, b) # rest) =
     (case map_of seen (lower_text b) of None \<Rightarrow> [] | Some other \<Rightarrow> [conflict_text k other]) @
     (if reserved_binding b then [reserved_text k b] else []) @ warn_bindings (AList.update (lower_text b) (label_of k) seen) rest"

definition binding_warnings :: "(string \<times> string) list \<Rightarrow> string list" where
  "binding_warnings bs = warn_bindings [] bs"

lemma read_binding_fst: "fst (read_binding v p) = fst p"
  by (cases p) (simp add: read_binding_def split: jsval.split)

lemma trim_length: "length (trim t) \<le> length t"
  unfolding trim_def by (metis length_dropWhile_le le_trans length_rev)

definition binding_ok :: "string \<times> string \<Rightarrow> bool" where
  "binding_ok p \<longleftrightarrow> list_all valid_stroke (space_words (snd p))"

lemma default_bindings_valid: "list_all binding_ok default_bindings"
  by code_simp

text \<open>C40. Whatever a storage or another version left there, every command has a binding made of valid
  strokes.\<close>

theorem bindings_always_valid:
  "map fst (validate_bindings v) = map fst default_bindings \<and> list_all binding_ok (validate_bindings v)"
proof -
  have "binding_ok (read_binding v p)" if "p \<in> set default_bindings" for p
  proof -
    have "read_binding v p = p \<or> (\<exists>t. valid_binding t \<and> snd (read_binding v p) = trim t)"
      by (cases p) (auto simp: read_binding_def split: jsval.split)
    moreover have "binding_ok p" using that default_bindings_valid unfolding list_all_iff by blast
    ultimately show ?thesis unfolding binding_ok_def valid_binding_def by metis
  qed
  moreover have "map fst (map (read_binding v) ps) = map fst ps" for ps
    by (induction ps) (simp_all add: read_binding_fst)
  ultimately show ?thesis by (simp only: validate_bindings_def list_all_iff list.set_map) blast
qed

lemma warn_bindings_seen:
  "map_of seen (lower_text b) = Some other \<Longrightarrow> conflict_text k other \<in> set (warn_bindings seen ((k, b) # rest))"
  by simp

text \<open>Two commands on one binding, in whatever case they are written, are always reported.\<close>

lemma conflict_after:
  "map_of seen (lower_text b) \<noteq> None \<Longrightarrow> (k, c) \<in> set bs \<Longrightarrow> lower_text c = lower_text b
    \<Longrightarrow> \<exists>other. conflict_text k other \<in> set (warn_bindings seen bs)"
proof (induction bs arbitrary: seen)
  case (Cons p bs)
  obtain k' b' where p: "p = (k', b')" by (cases p)
  show ?case
  proof (cases "(k, c) = p")
    case True
    then show ?thesis using Cons.prems p by auto
  next
    case False
    have "map_of (AList.update (lower_text b') (label_of k') seen) (lower_text b) \<noteq> None"
      using Cons.prems(1) by (simp add: update_conv')
    moreover have "(k, c) \<in> set bs" using Cons.prems(2) False by simp
    ultimately obtain other where "conflict_text k other \<in> set (warn_bindings (AList.update (lower_text b') (label_of k') seen) bs)"
      using Cons.IH Cons.prems(3) by blast
    then show ?thesis by (intro exI [of _ other]) (simp add: p)
  qed
qed simp

theorem conflicts_reported:
  assumes "bs = xs @ (k1, b1) # ys @ (k2, b2) # zs" "lower_text b1 = lower_text b2"
  shows "\<exists>other. conflict_text k2 other \<in> set (binding_warnings bs)"
proof -
  have "\<exists>other. conflict_text k2 other \<in> set (warn_bindings seen (xs @ (k1, b1) # ys @ (k2, b2) # zs))" for seen
  proof (induction xs arbitrary: seen)
    case Nil
    have "\<exists>other. conflict_text k2 other \<in> set (warn_bindings (AList.update (lower_text b1) (label_of k1) seen) (ys @ (k2, b2) # zs))"
      by (rule conflict_after [of _ b1]) (simp_all add: assms(2))
    then show ?case by auto
  next
    case (Cons x xs)
    obtain k b where "x = (k, b)" by (cases x)
    then show ?case using Cons.IH [of "AList.update (lower_text b) (label_of k) seen"] by auto
  qed
  then show ?thesis by (simp add: binding_warnings_def assms(1))
qed

theorem conflicts_reported_witness:
  "\<exists>other. conflict_text ''left'' other \<in> set (binding_warnings [(''chat'', ''Mod+B''), (''left'', ''mod+b'')])"
  by (rule conflicts_reported [where xs = "[]" and ys = "[]" and zs = "[]"]) (simp, code_simp)

section \<open>Terminals\<close>

datatype terminal_frame = TermOutput jsval | TermBytes | TermExit jsval | TermError string | TermNothing

text \<open>A socket message: binary, a text with the value it parses to, or something else.\<close>

datatype socket_message = BinaryMessage | TextMessage string stored_value | OtherMessage

definition terminal_frame_of :: "(jsval \<Rightarrow> string) \<Rightarrow> socket_message \<Rightarrow> terminal_frame" where
  "terminal_frame_of to_text m =
     (case m of
        BinaryMessage \<Rightarrow> TermBytes
      | OtherMessage \<Rightarrow> TermNothing
      | TextMessage raw Garbage \<Rightarrow> TermOutput (JStr raw)
      | TextMessage raw (Parsed v) \<Rightarrow>
          if is_str (js_property v ''type'')
          then (if js_property v ''type'' = JStr ''exit''
                then TermExit (case js_property v ''code'' of JNum n \<Rightarrow> JNum n | _ \<Rightarrow> js_int 0)
                else if js_property v ''type'' = JStr ''error''
                then TermError (to_text (js_or (js_property v ''message'') (JStr ''Terminal operation failed'')))
                else TermNothing)
          else TermOutput (JStr raw))"

text \<open>A control frame never becomes visible terminal output; other text always does.\<close>

theorem control_frames_hidden:
  "(\<exists>o'. terminal_frame_of to_text (TextMessage raw v) = TermOutput o') \<longleftrightarrow> \<not> (\<exists>w. v = Parsed w \<and> is_str (js_property w ''type''))"
  by (auto simp: terminal_frame_of_def split: stored_value.split)

record terminal_key =
  tk_key :: string
  tk_down :: bool
  tk_shift :: bool
  tk_ctrl :: bool
  tk_meta :: bool
  tk_alt :: bool

text \<open>Whether the terminal takes the key, and whether the focus leaves it.\<close>

definition terminal_key_handler :: "terminal_key \<Rightarrow> bool \<times> bool" where
  "terminal_key_handler e =
     (if tk_key e = ''Tab'' \<and> tk_shift e \<and> \<not> tk_ctrl e \<and> \<not> tk_meta e \<and> \<not> tk_alt e then (False, tk_down e) else (True, False))"

definition selection_prefix :: string where
  "selection_prefix = ''termx-terminal-selection:''"

definition selection_key :: "string \<times> string \<Rightarrow> string" where
  "selection_key = (\<lambda>(owner, session). selection_prefix @ json_strings [owner, session])"

definition valid_part :: "string \<Rightarrow> bool" where
  "valid_part s \<longleftrightarrow> 0 < length s \<and> length s \<le> 128"

text \<open>A selection is stored as a plain text.\<close>

definition plain_text :: "string \<Rightarrow> stored_text" where
  "plain_text s = \<lparr>st_length = length s, st_value = Parsed (JStr s)\<rparr>"

definition stored_plain :: "stored_text option \<Rightarrow> string" where
  "stored_plain t = (case t of None \<Rightarrow> [] | Some x \<Rightarrow> (case st_value x of Parsed (JStr s) \<Rightarrow> s | _ \<Rightarrow> []))"

definition read_terminal_selection :: "string \<times> string \<Rightarrow> web_storage \<Rightarrow> string" where
  "read_terminal_selection os st =
     (if \<not> valid_part (fst os) \<or> \<not> valid_part (snd os) then []
      else (let v = stored_plain (get_item st (selection_key os)) in if valid_part v then v else []))"

definition selection_keys :: "web_storage \<Rightarrow> string list" where
  "selection_keys st = filter (starts_with selection_prefix) (map fst st)"

definition remove_items :: "string list \<Rightarrow> web_storage \<Rightarrow> web_storage" where
  "remove_items ks st = filter (\<lambda>(k, v). k \<notin> set ks) st"

definition save_terminal_selection :: "string \<times> string \<Rightarrow> string \<Rightarrow> web_storage \<Rightarrow> web_storage" where
  "save_terminal_selection os i st =
     (if \<not> valid_part (fst os) \<or> \<not> valid_part (snd os) \<or> \<not> valid_part i then st
      else (let t = set_item (selection_key os) (plain_text i) st; ks = selection_keys t in remove_items (take (length ks - 100) ks) t))"

definition clear_terminal_selections :: "web_storage \<Rightarrow> web_storage" where
  "clear_terminal_selections st = filter (\<lambda>(k, v). \<not> starts_with selection_prefix k) st"

lemma selection_key_apart: "selection_key a = selection_key b \<longleftrightarrow> a = b"
  by (cases a, cases b) (auto simp: selection_key_def json_strings_inj)

lemma selection_key_prefix: "starts_with selection_prefix (selection_key os)"
  by (simp add: selection_key_def split_beta)

lemma get_remove_items: "get_item (remove_items ks st) k = (if k \<in> set ks then None else get_item st k)"
  by (induction st) (auto simp: get_item_def remove_items_def)

lemma set_item_keys: "map fst (set_item k v st) = (if k \<in> fst ` set st then map fst st else map fst st @ [k])"
  by (simp add: set_item_def update_keys)

definition selections_bounded :: "web_storage \<Rightarrow> bool" where
  "selections_bounded st \<longleftrightarrow> distinct (map fst st) \<and> length (selection_keys st) \<le> 100"

lemma saved_keys:
  assumes "selections_bounded st"
  shows "selection_key os \<notin> set (take (length (selection_keys (set_item (selection_key os) v st)) - 100) (selection_keys (set_item (selection_key os) v st)))"
proof (cases "selection_key os \<in> fst ` set st")
  case True
  then have "selection_keys (set_item (selection_key os) v st) = selection_keys st" by (simp add: selection_keys_def set_item_keys)
  then show ?thesis using assms by (simp add: selections_bounded_def)
next
  case False
  then have k: "selection_keys (set_item (selection_key os) v st) = selection_keys st @ [selection_key os]"
    by (simp add: selection_keys_def set_item_keys selection_key_prefix)
  have "length (selection_keys st) \<le> 100" using assms by (simp add: selections_bounded_def)
  then have "take (length (selection_keys st @ [selection_key os]) - 100) (selection_keys st @ [selection_key os])
      = take (length (selection_keys st) - 99) (selection_keys st)"
    by simp
  moreover have "selection_key os \<notin> set (selection_keys st)" using False by (auto simp: selection_keys_def)
  ultimately show ?thesis unfolding k by (metis in_set_takeD)
qed

lemma remove_items_keys: "selection_keys (remove_items ks st) = filter (\<lambda>k. k \<notin> set ks) (selection_keys st)"
  by (induction st) (auto simp: selection_keys_def remove_items_def)

lemma drop_as_filter: "distinct xs \<Longrightarrow> filter (\<lambda>k. k \<notin> set (take n xs)) xs = drop n xs"
proof -
  assume d: "distinct xs"
  have "filter (\<lambda>k. k \<notin> set (take n xs)) (take n xs @ drop n xs) = drop n xs"
    using d set_take_disj_set_drop_if_distinct [of xs n n] by (auto simp: filter_id_conv filter_empty_conv simp del: append_take_drop_id)
  then show ?thesis by simp
qed

lemma save_keeps_bound:
  assumes "selections_bounded st"
  shows "selections_bounded (save_terminal_selection os i st)"
proof -
  let ?t = "set_item (selection_key os) (plain_text i) st"
  let ?ks = "selection_keys ?t"
  have d: "distinct (map fst ?t)" using assms by (auto simp: selections_bounded_def set_item_keys)
  then have "distinct ?ks" by (simp add: selection_keys_def)
  then have "selection_keys (remove_items (take (length ?ks - 100) ?ks) ?t) = drop (length ?ks - 100) ?ks"
    by (simp add: remove_items_keys drop_as_filter)
  moreover have "distinct (map fst (remove_items (take (length ?ks - 100) ?ks) ?t))"
    using d unfolding remove_items_def by (rule distinct_map_filter)
  ultimately have "selections_bounded (remove_items (take (length ?ks - 100) ?ks) ?t)" by (simp add: selections_bounded_def)
  then show ?thesis using assms by (simp add: save_terminal_selection_def Let_def)
qed

lemma selections_cleared: "get_item (clear_terminal_selections st) (selection_key os) = None"
  by (induction st) (auto simp: get_item_def clear_terminal_selections_def selection_key_prefix [of os])

text \<open>The terminal a window last used is found again after a reload, at most a hundred are
  remembered, and signing out forgets them all.\<close>

theorem terminal_selection_kept:
  assumes "selections_bounded st" "valid_part owner" "valid_part session" "valid_part i"
  shows "read_terminal_selection (owner, session) (save_terminal_selection (owner, session) i st) = i
    \<and> selections_bounded (save_terminal_selection (owner, session) i st)
    \<and> read_terminal_selection os (clear_terminal_selections st) = []"
proof -
  have "get_item (save_terminal_selection (owner, session) i st) (selection_key (owner, session)) = Some (plain_text i)"
    using saved_keys [OF assms(1)] assms(2-4) by (simp add: save_terminal_selection_def Let_def get_remove_items)
  moreover have "get_item (clear_terminal_selections st) (selection_key os) = None" by (rule selections_cleared)
  ultimately show ?thesis
    using save_keeps_bound [OF assms(1)] assms(2-4) by (simp add: read_terminal_selection_def stored_plain_def plain_text_def)
qed

theorem terminal_selection_kept_witness:
  "read_terminal_selection (''ana'', ''c'') (save_terminal_selection (''ana'', ''c'') ''pty1'' []) = ''pty1''"
  using terminal_selection_kept [of "[]" "''ana''" "''c''" "''pty1''"] by (simp add: selections_bounded_def selection_keys_def valid_part_def)

section \<open>Favourite models\<close>

definition favorites_key :: "string \<Rightarrow> string" where
  "favorites_key owner = ''termx-model-favorites:'' @ owner"

definition bounded_text :: "nat \<Rightarrow> nat \<Rightarrow> jsval \<Rightarrow> bool" where
  "bounded_text lo hi v = (is_str v \<and> lo \<le> length (text_of v) \<and> length (text_of v) \<le> hi)"

text \<open>A favourite is the JSON text of a triple; \<open>parse\<close> is \<open>JSON.parse\<close>.\<close>

definition valid_favorite :: "(string \<Rightarrow> jsval option) \<Rightarrow> string \<Rightarrow> bool" where
  "valid_favorite parse s \<longleftrightarrow> length s \<le> 1100 \<and>
     (case parse s of Some (JArr [a, b, c]) \<Rightarrow> bounded_text 1 128 a \<and> (b = JNull \<or> bounded_text 0 128 b) \<and> bounded_text 1 512 c | _ \<Rightarrow> False)"

definition last_n :: "nat \<Rightarrow> 'a list \<Rightarrow> 'a list" where
  "last_n n xs = drop (length xs - n) xs"

definition favorite_texts :: "(string \<Rightarrow> jsval option) \<Rightarrow> jsval list \<Rightarrow> string list" where
  "favorite_texts parse vs = filter (valid_favorite parse) (List.map_filter opt_str vs)"

definition read_model_favorites :: "(string \<Rightarrow> jsval option) \<Rightarrow> string \<Rightarrow> web_storage \<Rightarrow> string list" where
  "read_model_favorites parse owner st =
     (case get_item st (favorites_key owner) of
        None \<Rightarrow> []
      | Some raw \<Rightarrow>
          if st_length raw > 250000 then []
          else (case st_value raw of Parsed (JArr vs) \<Rightarrow> last_n 200 (first_seen (favorite_texts parse vs)) | _ \<Rightarrow> []))"

definition toggle_favorite :: "string \<Rightarrow> string list \<Rightarrow> string list" where
  "toggle_favorite key before = (if key \<in> set before then filter (\<lambda>v. v \<noteq> key) before else last_n 200 (before @ [key]))"

definition toggle_model_favorite :: "(string \<Rightarrow> jsval option) \<Rightarrow> (jsval \<Rightarrow> nat) \<Rightarrow> string \<Rightarrow> string \<Rightarrow> web_storage \<Rightarrow> web_storage" where
  "toggle_model_favorite parse jlen owner key st =
     (if owner = [] \<or> \<not> valid_favorite parse key then st
      else (let v = JArr (map JStr (toggle_favorite key (read_model_favorites parse owner st)))
            in set_item (favorites_key owner) \<lparr>st_length = jlen v, st_value = Parsed v\<rparr> st))"

lemma last_n_subset: "set (last_n n xs) \<subseteq> set xs"
  by (simp add: last_n_def set_drop_subset)

lemma last_n_short: "length xs \<le> n \<Longrightarrow> last_n n xs = xs"
  by (simp add: last_n_def)

lemma last_n_length: "length (last_n n xs) \<le> n"
  by (simp add: last_n_def)

definition favorites_ok :: "(string \<Rightarrow> jsval option) \<Rightarrow> string list \<Rightarrow> bool" where
  "favorites_ok parse fs \<longleftrightarrow> distinct fs \<and> length fs \<le> 200 \<and> (\<forall>f \<in> set fs. valid_favorite parse f)"

lemma read_favorites_ok: "favorites_ok parse (read_model_favorites parse owner st)"
proof -
  have "favorites_ok parse (last_n 200 (first_seen (favorite_texts parse vs)))" for vs
    using last_n_subset [of 200 "first_seen (favorite_texts parse vs)"]
    by (auto simp: favorites_ok_def last_n_length last_n_def first_seen_def favorite_texts_def)
  moreover have "favorites_ok parse []" by (simp add: favorites_ok_def)
  ultimately show ?thesis by (simp add: read_model_favorites_def split: option.split stored_value.split jsval.split)
qed

lemma toggle_favorite_ok: "favorites_ok parse fs \<Longrightarrow> valid_favorite parse key \<Longrightarrow> favorites_ok parse (toggle_favorite key fs)"
proof (cases "key \<in> set fs")
  case True
  assume "favorites_ok parse fs"
  then show ?thesis using True by (auto simp: favorites_ok_def toggle_favorite_def intro: le_trans [OF length_filter_le])
next
  case False
  assume ok: "favorites_ok parse fs" "valid_favorite parse key"
  then have "distinct (fs @ [key])" using False by (simp add: favorites_ok_def)
  then have "distinct (last_n 200 (fs @ [key]))" unfolding last_n_def by (rule distinct_drop)
  then show ?thesis
    using False ok last_n_subset [of 200 "fs @ [key]"] by (auto simp: favorites_ok_def toggle_favorite_def last_n_length)
qed

lemma first_seen_distinct: "distinct xs \<Longrightarrow> first_seen xs = xs"
  by (simp add: first_seen_def distinct_remdups_id)

lemma read_written_favorites:
  assumes "favorites_ok parse fs"
  shows "last_n 200 (first_seen (favorite_texts parse (map JStr fs))) = fs"
proof -
  have "List.map_filter opt_str (map JStr fs) = fs" by (induction fs) (simp_all add: map_filter_simps)
  then show ?thesis
    using assms by (simp add: favorite_texts_def favorites_ok_def first_seen_distinct last_n_short filter_id_conv)
qed

lemma read_saved_favorites:
  assumes "jlen (JArr (map JStr fs)) \<le> 250000" "favorites_ok parse fs"
  shows "read_model_favorites parse owner
      (set_item (favorites_key owner) \<lparr>st_length = jlen (JArr (map JStr fs)), st_value = Parsed (JArr (map JStr fs))\<rparr> st) = fs"
  using assms(1) read_written_favorites [OF assms(2)] by (simp add: read_model_favorites_def)

lemma favorites_own:
  "get_item st (favorites_key owner) = get_item st' (favorites_key owner)
    \<Longrightarrow> read_model_favorites parse owner st = read_model_favorites parse owner st'"
  by (simp add: read_model_favorites_def)

lemma favorites_apart: "k \<noteq> favorites_key owner \<Longrightarrow> get_item (toggle_model_favorite parse jlen owner key st) k = get_item st k"
  by (simp add: toggle_model_favorite_def Let_def)

interpretation favorite_owners: owner_store favorites_key "read_model_favorites parse" "toggle_model_favorite parse jlen"
  by unfold_locales (simp_all add: favorites_key_def read_model_favorites_def toggle_model_favorite_def Let_def)

text \<open>Toggling a model adds or removes exactly that favourite of that account, and touches no other
  account's.\<close>

theorem favorites_toggled:
  assumes "owner \<noteq> []" "valid_favorite parse key" "\<forall>v. jlen v \<le> 250000" "length (read_model_favorites parse owner st) < 200"
  shows "set (read_model_favorites parse owner (toggle_model_favorite parse jlen owner key st)) =
      (if key \<in> set (read_model_favorites parse owner st) then set (read_model_favorites parse owner st) - {key}
       else insert key (set (read_model_favorites parse owner st)))
    \<and> (other = owner \<or> read_model_favorites parse other (toggle_model_favorite parse jlen owner key st) = read_model_favorites parse other st)"
proof -
  let ?fs = "read_model_favorites parse owner st"
  have "jlen (JArr (map JStr (toggle_favorite key ?fs))) \<le> 250000" using assms(3) by blast
  then have "read_model_favorites parse owner (toggle_model_favorite parse jlen owner key st) = toggle_favorite key ?fs"
    unfolding toggle_model_favorite_def Let_def using assms(1,2)
    by (simp only: if_False de_Morgan_disj simp_thms read_saved_favorites toggle_favorite_ok [OF read_favorites_ok assms(2)])
  moreover have "set (toggle_favorite key ?fs) = (if key \<in> set ?fs then set ?fs - {key} else insert key (set ?fs))"
    using assms(4) by (auto simp: toggle_favorite_def last_n_short)
  ultimately show ?thesis using favorite_owners.save_other_owner [of owner other] by metis
qed

definition tiny_parse :: "string \<Rightarrow> jsval option" where
  "tiny_parse s = (if s = ''m'' then Some (JArr [JStr ''openai'', JNull, JStr ''gpt'']) else None)"

theorem favorites_toggled_witness:
  "set (read_model_favorites tiny_parse ''ana'' (toggle_model_favorite tiny_parse (\<lambda>_. 20) ''ana'' ''m'' [])) = {''m''}
    \<and> (''bo'' = ''ana'' \<or> read_model_favorites tiny_parse ''bo'' (toggle_model_favorite tiny_parse (\<lambda>_. 20) ''ana'' ''m'' []) = [])"
proof -
  have "valid_favorite tiny_parse ''m''" by code_simp
  moreover have "read_model_favorites tiny_parse o' [] = []" for o' by (simp add: read_model_favorites_def get_item_def)
  ultimately show ?thesis using favorites_toggled [of "''ana''" tiny_parse "''m''" "\<lambda>_. 20" "[]" "''bo''"] by simp
qed

end
