(* ===== verification/PromptQueue.thy ===== *)
theory PromptQueue
  imports OneAtATime View
begin

text \<open>
  \<open>features/PromptQueue.tsx\<close>: the follow-ups queued for a conversation. They are polled while the panel is
  observed; cancelling one, reviewing one and confirming what was reviewed happen one at a time. An
  operation belongs to the conversation and the generation it was started for. Buttons are clicked as
  they are rendered, and React has rendered between two steps.
\<close>

section \<open>State\<close>

record queued_prompt =
  qp_id :: string
  qp_revision :: int
  qp_prompt :: string
  qp_status :: string
  qp_reason :: "string option"
  qp_task :: "string option"
  qp_expires :: int
  qp_target :: jsval
  qp_attachments :: "string list"
  qp_references :: nat

record queue_review =
  qr_target :: jsval
  qr_digest :: string

record queue_read =
  qd_session :: string
  qd_generation :: nat
  qd_aborted :: bool
  qd_settled :: bool

datatype queue_work = CancelPrompt string int | ReadReview queued_prompt | RenewPrompt string int string

text \<open>Work that succeeded waits for a reading of the list, if it started one.\<close>

datatype work_phase = WorkAsked | WorkReading nat | WorkDone

record queue_op =
  qo_work :: queue_work
  qo_session :: string
  qo_generation :: nat
  qo_phase :: work_phase

record prompt_queue =
  pq_session :: string
  pq_generation :: nat
  pq_alive :: bool
  pq_observing :: bool
  pq_items :: "queued_prompt list"
  pq_source :: "string option"
  pq_open :: "queued_prompt option"
  pq_review :: "queue_review option"
  pq_busy :: bool
  pq_read :: "nat option"
  pq_reads :: "queue_read list"
  pq_ops :: "queue_op list"
  pq_reviewed :: "(queued_prompt \<times> queue_review) list"
  pq_errors :: "js_error list"
  pq_refreshes :: nat

text \<open>\<open>pq_source\<close> and \<open>pq_reviewed\<close> are ghost fields: whose items are shown, and what was reviewed.\<close>

definition is_fresh :: "string \<Rightarrow> nat \<Rightarrow> prompt_queue \<Rightarrow> bool" where
  "is_fresh sid ticket q \<longleftrightarrow> pq_alive q \<and> pq_session q = sid \<and> pq_generation q = ticket"

section \<open>Reading the queue\<close>

definition reading_now :: "prompt_queue \<Rightarrow> bool" where
  "reading_now q \<longleftrightarrow> (case pq_read q of None \<Rightarrow> False | Some k \<Rightarrow> \<not> qd_aborted (pq_reads q ! k))"

definition queue_refresh :: "prompt_queue \<Rightarrow> prompt_queue" where
  "queue_refresh q =
     (if \<not> pq_observing q \<or> reading_now q then q
      else q\<lparr>pq_read := Some (length (pq_reads q)),
             pq_reads := pq_reads q @ [\<lparr>qd_session = pq_session q, qd_generation = pq_generation q, qd_aborted = False, qd_settled = False\<rparr>]\<rparr>)"

definition abort_queue_read :: "prompt_queue \<Rightarrow> prompt_queue" where
  "abort_queue_read q =
     (case pq_read q of None \<Rightarrow> q | Some k \<Rightarrow> q\<lparr>pq_reads := (pq_reads q)[k := (pq_reads q ! k)\<lparr>qd_aborted := True\<rparr>]\<rparr>)"

definition queue_answer :: "nat \<Rightarrow> queued_prompt list js_result \<Rightarrow> prompt_queue \<Rightarrow> prompt_queue" where
  "queue_answer k r q =
     (if k < length (pq_reads q) \<and> \<not> qd_settled (pq_reads q ! k)
      then (let d = pq_reads q ! k; heard = \<not> qd_aborted d \<and> pq_observing q \<and> is_fresh (qd_session d) (qd_generation d) q;
                q' = q\<lparr>pq_reads := (pq_reads q)[k := d\<lparr>qd_settled := True\<rparr>], pq_read := (if pq_read q = Some k then None else pq_read q)\<rparr>
            in if \<not> heard then q'
               else (case r of Inl e \<Rightarrow> q'\<lparr>pq_errors := pq_errors q @ [e]\<rparr>
                     | Inr items \<Rightarrow> q'\<lparr>pq_items := items, pq_source := Some (qd_session d)\<rparr>))
      else q)"

text \<open>The effects: another conversation, another observation or a queue that changed drops the reading under way and starts another.\<close>

definition reread_queue :: "prompt_queue \<Rightarrow> prompt_queue" where
  "reread_queue q = queue_refresh (abort_queue_read q)"

definition observe_queue :: "bool \<Rightarrow> prompt_queue \<Rightarrow> prompt_queue" where
  "observe_queue b q = (if b = pq_observing q then q else queue_refresh ((abort_queue_read q)\<lparr>pq_observing := b\<rparr>))"

definition show_queue :: "string \<Rightarrow> prompt_queue \<Rightarrow> prompt_queue" where
  "show_queue sid q =
     (if sid = pq_session q then q
      else queue_refresh ((abort_queue_read q)\<lparr>pq_session := sid, pq_generation := Suc (pq_generation q), pq_busy := False, pq_items := [], pq_source := None,
             pq_open := None, pq_review := None\<rparr>))"

definition unmount_queue :: "prompt_queue \<Rightarrow> prompt_queue" where
  "unmount_queue q = (abort_queue_read q)\<lparr>pq_alive := False\<rparr>"

definition open_queue :: "string \<Rightarrow> bool \<Rightarrow> prompt_queue" where
  "open_queue sid observing = queue_refresh \<lparr>pq_session = sid, pq_generation = 0, pq_alive = True, pq_observing = observing, pq_items = [], pq_source = None,
     pq_open = None, pq_review = None, pq_busy = False, pq_read = None, pq_reads = [], pq_ops = [], pq_reviewed = [], pq_errors = [], pq_refreshes = 0\<rparr>"

section \<open>Work on it\<close>

definition begin_work :: "queue_work \<Rightarrow> prompt_queue \<Rightarrow> prompt_queue" where
  "begin_work w q = q\<lparr>pq_busy := True,
     pq_ops := pq_ops q @ [\<lparr>qo_work = w, qo_session = pq_session q, qo_generation = pq_generation q, qo_phase = WorkAsked\<rparr>]\<rparr>"

definition set_work :: "nat \<Rightarrow> work_phase \<Rightarrow> prompt_queue \<Rightarrow> prompt_queue" where
  "set_work n ph q = q\<lparr>pq_ops := (pq_ops q)[n := (pq_ops q ! n)\<lparr>qo_phase := ph\<rparr>]\<rparr>"

definition work_fresh :: "nat \<Rightarrow> prompt_queue \<Rightarrow> bool" where
  "work_fresh n q \<longleftrightarrow> is_fresh (qo_session (pq_ops q ! n)) (qo_generation (pq_ops q ! n)) q"

definition end_work :: "nat \<Rightarrow> prompt_queue \<Rightarrow> prompt_queue" where
  "end_work n q = (set_work n WorkDone q)\<lparr>pq_busy := (if work_fresh n q then False else pq_busy q)\<rparr>"

text \<open>The answer to a cancellation or a confirmation: \<open>act\<close>.\<close>

definition act_answer :: "nat \<Rightarrow> unit js_result \<Rightarrow> prompt_queue \<Rightarrow> prompt_queue" where
  "act_answer n r q =
     (case r of
        Inl e \<Rightarrow> end_work n (if work_fresh n q then q\<lparr>pq_errors := pq_errors q @ [e]\<rparr> else q)
      | Inr _ \<Rightarrow>
          if \<not> work_fresh n q then end_work n q
          else (let q1 = queue_refresh (q\<lparr>pq_open := None, pq_review := None\<rparr>) in
                if length (pq_reads q1) = length (pq_reads q) then end_work n (q1\<lparr>pq_refreshes := Suc (pq_refreshes q)\<rparr>)
                else set_work n (WorkReading (length (pq_reads q))) q1))"

definition act_reread :: "nat \<Rightarrow> prompt_queue \<Rightarrow> prompt_queue" where
  "act_reread n q = end_work n (q\<lparr>pq_refreshes := Suc (pq_refreshes q)\<rparr>)"

definition queue_review_answer :: "nat \<Rightarrow> queued_prompt \<Rightarrow> queue_review js_result \<Rightarrow> prompt_queue \<Rightarrow> prompt_queue" where
  "queue_review_answer n item r q =
     end_work n (if \<not> work_fresh n q then q
       else (case r of Inl e \<Rightarrow> q\<lparr>pq_errors := pq_errors q @ [e]\<rparr>
             | Inr v \<Rightarrow> q\<lparr>pq_open := Some item, pq_review := Some v, pq_reviewed := pq_reviewed q @ [(item, v)]\<rparr>))"

definition close_review :: "prompt_queue \<Rightarrow> prompt_queue" where
  "close_review q = q\<lparr>pq_open := None, pq_review := None\<rparr>"

section \<open>What it shows\<close>

datatype queue_action = ClickWork queue_work | InspectTask string | CloseReview

definition is_pending :: "queued_prompt \<Rightarrow> bool" where
  "is_pending i \<longleftrightarrow> qp_status i \<in> {''queued'', ''blocked'', ''dispatching''}"

definition pending_item :: "(jsval \<Rightarrow> string) \<Rightarrow> (int \<Rightarrow> string) \<Rightarrow> bool \<Rightarrow> queued_prompt \<Rightarrow> queue_action view" where
  "pending_item json_text clock busy i = box ''article''
     [labelled ''strong'' (qp_prompt i),
      labelled ''small'' ((if qp_status i = ''dispatching'' then ''Starting once...'' else if qp_status i = ''blocked'' then ''Needs review'' else ''Waiting for current task'')
        @ '' expires '' @ clock (qp_expires i * 1000)),
      show_if (qp_attachments i \<noteq> [] \<or> qp_references i \<noteq> 0)
        (labelled ''p'' (join_with '', '' (qp_attachments i) @ [CHR '' '', CHR 0xB7, CHR '' ''] @ nat_text (qp_references i) @ '' selected references'')),
      show_if (truthy_text (qp_reason i)) (labelled ''p'' (or_text (qp_reason i) [])),
      labelled ''pre'' (json_text (qp_target i)),
      button (busy \<or> qp_status i = ''dispatching'') (ClickWork (CancelPrompt (qp_id i) (qp_revision i))) ''Cancel queued follow-up'',
      show_if (qp_status i = ''blocked'') (button busy (ClickWork (ReadReview i)) ''Review before continuing'')]"

definition past_item :: "(jsval \<Rightarrow> string) \<Rightarrow> bool \<Rightarrow> queued_prompt \<Rightarrow> queue_action view" where
  "past_item json_text can_inspect i = box ''article''
     [labelled ''strong'' (qp_prompt i),
      labelled ''small'' (if qp_status i = ''dispatched'' then ''Started as a turn'' else replace_char (CHR ''_'') (CHR '' '') (qp_status i)),
      show_if (truthy_text (qp_reason i)) (labelled ''p'' (or_text (qp_reason i) [])),
      show_if (truthy_text (qp_task i) \<and> can_inspect) (button False (InspectTask (or_text (qp_task i) [])) ''Inspect follow-up task''),
      labelled ''pre'' (json_text (qp_target i))]"

definition queue_review_dialog :: "(jsval \<Rightarrow> string) \<Rightarrow> prompt_queue \<Rightarrow> queue_action view" where
  "queue_review_dialog json_text q =
     (case pq_open q of None \<Rightarrow> VNone
      | Some i \<Rightarrow> box ''dialog''
          [labelled ''h2'' ''Review queued follow-up'', labelled ''p'' (qp_prompt i), labelled ''pre'' (json_text (qp_target i)),
           (case pq_review q of None \<Rightarrow> button True CloseReview ''Continue with these settings''
            | Some v \<Rightarrow> box ''div'' [labelled ''pre'' (json_text (qr_target v)),
                button (pq_busy q) (ClickWork (RenewPrompt (qp_id i) (qp_revision i) (qr_digest v))) ''Continue with these settings'']),
           button False CloseReview ''Close''])"

definition queue_view :: "(jsval \<Rightarrow> string) \<Rightarrow> (int \<Rightarrow> string) \<Rightarrow> bool \<Rightarrow> prompt_queue \<Rightarrow> queue_action view" where
  "queue_view json_text clock can_inspect q =
     (let waiting = filter is_pending (pq_items q); past = filter (\<lambda>i. \<not> is_pending i) (pq_items q) in
      if pq_items q = [] then VNone
      else box ''section''
        [show_if (waiting \<noteq> []) (box ''details''
           (labelled ''summary'' (nat_text (length waiting) @ '' queued follow-up'' @ (if length waiting = 1 then [] else ''s'')
              @ (if list_ex (\<lambda>i. qp_status i = ''blocked'') waiting then '' Needs review'' else [])) # map (pending_item json_text clock (pq_busy q)) waiting)),
         show_if (past \<noteq> []) (box ''details'' (labelled ''summary'' (''Follow-up history '' @ nat_text (length past)) # map (past_item json_text can_inspect) past)),
         queue_review_dialog json_text q])"

section \<open>Steps\<close>

definition offered_work :: "queue_work \<Rightarrow> prompt_queue \<Rightarrow> bool" where
  "offered_work w q \<longleftrightarrow> (\<exists>json_text clock ci. ClickWork w \<in> set (offers (queue_view json_text clock ci q)))"

definition working :: "nat \<Rightarrow> prompt_queue \<Rightarrow> bool" where
  "working n q \<longleftrightarrow> n < length (pq_ops q) \<and> qo_phase (pq_ops q ! n) = WorkAsked"

definition is_review :: "nat \<Rightarrow> queued_prompt \<Rightarrow> prompt_queue \<Rightarrow> bool" where
  "is_review n i q \<longleftrightarrow> qo_work (pq_ops q ! n) = ReadReview i"

inductive queue_moves :: "prompt_queue \<Rightarrow> prompt_queue \<Rightarrow> bool" where
  qm_clicked: "pq_alive q \<Longrightarrow> offered_work w q \<Longrightarrow> queue_moves q (begin_work w q)"
| qm_acted: "working n q \<Longrightarrow> (\<And>i. \<not> is_review n i q) \<Longrightarrow> queue_moves q (act_answer n r q)"
| qm_reviewed: "working n q \<Longrightarrow> is_review n i q \<Longrightarrow> queue_moves q (queue_review_answer n i a q)"
| qm_reread: "n < length (pq_ops q) \<Longrightarrow> qo_phase (pq_ops q ! n) = WorkReading k \<Longrightarrow> qd_settled (pq_reads q ! k) \<Longrightarrow> queue_moves q (act_reread n q)"
| qm_answered: "queue_moves q (queue_answer k items q)"
| qm_ticked: "pq_alive q \<Longrightarrow> queue_moves q (queue_refresh q)"
| qm_changed: "pq_alive q \<Longrightarrow> queue_moves q (reread_queue q)"
| qm_observed: "pq_alive q \<Longrightarrow> queue_moves q (observe_queue b q)"
| qm_shown: "pq_alive q \<Longrightarrow> queue_moves q (show_queue sid q)"
| qm_closed: "queue_moves q (close_review q)"
| qm_unmounted: "pq_alive q \<Longrightarrow> queue_moves q (unmount_queue q)"

definition queue_opened :: "prompt_queue \<Rightarrow> bool" where
  "queue_opened q \<longleftrightarrow> (\<exists>sid b. q = open_queue sid b)"

abbreviation queue_reachable :: "prompt_queue \<Rightarrow> bool" where
  "queue_reachable \<equiv> reached queue_opened queue_moves"

section \<open>One thing at a time\<close>

text \<open>An unmounted panel is a generation of its own.\<close>

definition queue_ledger :: "prompt_queue \<Rightarrow> op_ledger" where
  "queue_ledger q = (pq_generation q + (if pq_alive q then 0 else 1), map (\<lambda>x. (qo_generation x, qo_phase x = WorkDone)) (pq_ops q), pq_alive q \<and> pq_busy q)"

definition same_work :: "prompt_queue \<Rightarrow> prompt_queue \<Rightarrow> bool" where
  "same_work q q' \<longleftrightarrow> pq_ops q' = pq_ops q \<and> pq_busy q' = pq_busy q \<and> pq_generation q' = pq_generation q \<and> pq_alive q' = pq_alive q
     \<and> pq_session q' = pq_session q"

lemma same_work_refresh: "same_work q (queue_refresh q)"
  and same_work_abort: "same_work q (abort_queue_read q)"
  and same_work_answer: "same_work q (queue_answer k r q)"
  and same_work_close: "same_work q (close_review q)"
  by (simp_all add: same_work_def queue_refresh_def abort_queue_read_def queue_answer_def close_review_def Let_def split: option.split sum.split)

lemma same_work_trans: "same_work a b \<Longrightarrow> same_work b c \<Longrightarrow> same_work a c"
  by (simp add: same_work_def)

lemma same_work_ledger: "same_work q q' \<Longrightarrow> queue_ledger q' = queue_ledger q"
  by (simp add: same_work_def queue_ledger_def)

lemma offered_workI: "ClickWork w \<in> set (offers (queue_view json_text clock ci q)) \<Longrightarrow> offered_work w q"
  unfolding offered_work_def by blast

lemma offered_idle: "offered_work w q \<Longrightarrow> \<not> pq_busy q"
  by (auto simp: offered_work_def queue_view_def pending_item_def past_item_def queue_review_dialog_def Let_def in_offers simp del: offer_rules
      split: option.splits if_splits)

text \<open>A confirmation is offered for the review that is open, and for nothing else.\<close>

lemma offered_renewal:
  "offered_work (RenewPrompt x r d) q \<Longrightarrow> \<exists>i v. pq_open q = Some i \<and> pq_review q = Some v \<and> x = qp_id i \<and> r = qp_revision i \<and> d = qr_digest v"
  by (auto simp: offered_work_def queue_view_def pending_item_def past_item_def queue_review_dialog_def Let_def in_offers simp del: offer_rules
      split: option.splits if_splits)

text \<open>The invariant: whose work it is, which reading is heard, whose items are shown, what a confirmation confirms.\<close>

definition work_inv :: "prompt_queue \<Rightarrow> bool" where
  "work_inv q \<longleftrightarrow> (\<forall>x \<in> set (pq_ops q). qo_generation x \<le> pq_generation q \<and> (qo_generation x = pq_generation q \<longrightarrow> qo_session x = pq_session q))"

definition is_read :: "prompt_queue \<Rightarrow> nat \<Rightarrow> bool" where
  "is_read q k \<longleftrightarrow> pq_read q = Some k"

definition heard_read :: "prompt_queue \<Rightarrow> nat \<Rightarrow> bool" where
  "heard_read q k \<longleftrightarrow> k < length (pq_reads q) \<and> \<not> qd_settled (pq_reads q ! k) \<and> \<not> qd_aborted (pq_reads q ! k)"

definition read_inv :: "prompt_queue \<Rightarrow> bool" where
  "read_inv q \<longleftrightarrow> (\<forall>k. heard_read q k \<longrightarrow> is_read q k) \<and> (\<forall>k. is_read q k \<longrightarrow> k < length (pq_reads q) \<and> \<not> qd_settled (pq_reads q ! k))"

definition source_inv :: "prompt_queue \<Rightarrow> bool" where
  "source_inv q \<longleftrightarrow> pq_items q = [] \<or> pq_source q = Some (pq_session q)"

definition was_reviewed :: "prompt_queue \<Rightarrow> string \<Rightarrow> int \<Rightarrow> string \<Rightarrow> bool" where
  "was_reviewed q x r d \<longleftrightarrow> (\<exists>(i, v) \<in> set (pq_reviewed q). x = qp_id i \<and> r = qp_revision i \<and> d = qr_digest v)"

definition review_inv :: "prompt_queue \<Rightarrow> bool" where
  "review_inv q \<longleftrightarrow> (\<forall>i v. pq_open q = Some i \<longrightarrow> pq_review q = Some v \<longrightarrow> was_reviewed q (qp_id i) (qp_revision i) (qr_digest v))
     \<and> (\<forall>x \<in> set (pq_ops q). \<forall>a r d. qo_work x = RenewPrompt a r d \<longrightarrow> was_reviewed q a r d)"

definition queue_inv_holds :: "prompt_queue \<Rightarrow> bool" where
  "queue_inv_holds q \<longleftrightarrow> work_inv q \<and> read_inv q \<and> source_inv q \<and> review_inv q"

lemma same_work_inv: "same_work q q' \<Longrightarrow> work_inv q \<Longrightarrow> work_inv q'"
  by (simp add: same_work_def work_inv_def)

lemma same_review:
  assumes "pq_ops q' = pq_ops q" "pq_open q' = pq_open q" "pq_review q' = pq_review q" "pq_reviewed q' = pq_reviewed q"
  shows "review_inv q \<Longrightarrow> review_inv q'"
  unfolding review_inv_def was_reviewed_def assms .

lemma same_read:
  assumes "pq_reads q' = pq_reads q" "pq_read q' = pq_read q" shows "read_inv q \<Longrightarrow> read_inv q'"
  unfolding read_inv_def heard_read_def is_read_def assms .

lemma read_refresh:
  assumes "read_inv q" shows "read_inv (queue_refresh q)"
proof (cases "pq_observing q \<and> \<not> reading_now q")
  case True
  have "\<not> heard_read q k" for k
  proof
    assume k: "heard_read q k"
    then have "pq_read q = Some k" using assms by (simp add: read_inv_def is_read_def)
    then show False using k True by (simp add: reading_now_def heard_read_def)
  qed
  then have "heard_read (queue_refresh q) k \<longleftrightarrow> k = length (pq_reads q)" for k
    using True by (auto simp: heard_read_def queue_refresh_def nth_append less_Suc_eq)
  moreover have "is_read (queue_refresh q) k \<longleftrightarrow> k = length (pq_reads q)" for k using True by (auto simp: is_read_def queue_refresh_def)
  ultimately show ?thesis using True by (simp add: read_inv_def queue_refresh_def)
qed (use assms in \<open>simp add: queue_refresh_def\<close>)

lemma read_abort:
  assumes "read_inv q" shows "read_inv (abort_queue_read q)"
proof (cases "pq_read q")
  case (Some k)
  have "k < length (pq_reads q) \<and> \<not> qd_settled (pq_reads q ! k)" using assms Some by (simp add: read_inv_def is_read_def)
  moreover have "\<not> heard_read q m" if "m \<noteq> k" for m using assms Some that by (auto simp: read_inv_def is_read_def)
  ultimately show ?thesis using Some by (auto simp: read_inv_def heard_read_def is_read_def abort_queue_read_def nth_list_update)
qed (use assms in \<open>simp add: abort_queue_read_def\<close>)

lemma read_answer:
  assumes "read_inv q" shows "read_inv (queue_answer k r q)"
proof (cases "k < length (pq_reads q) \<and> \<not> qd_settled (pq_reads q ! k)")
  case True
  let ?q = "queue_answer k r q"
  have fields: "pq_reads ?q = (pq_reads q)[k := (pq_reads q ! k)\<lparr>qd_settled := True\<rparr>]" "pq_read ?q = (if pq_read q = Some k then None else pq_read q)"
    using True by (simp_all add: queue_answer_def Let_def split: sum.split)
  have "heard_read ?q m \<Longrightarrow> m \<noteq> k \<and> heard_read q m" for m by (cases "m = k") (auto simp: heard_read_def fields)
  moreover have "is_read ?q m \<longleftrightarrow> m \<noteq> k \<and> is_read q m" for m by (auto simp: is_read_def fields)
  ultimately show ?thesis using assms by (auto simp: read_inv_def fields nth_list_update)
qed (use assms in \<open>auto simp: queue_answer_def\<close>)

lemma queue_inv_frame:
  assumes "queue_inv_holds q" "same_work q q'" "read_inv q'" "source_inv q'" "pq_open q' = pq_open q" "pq_review q' = pq_review q" "pq_reviewed q' = pq_reviewed q"
  shows "queue_inv_holds q'"
  using assms same_work_inv same_review [of q' q] by (simp add: queue_inv_holds_def same_work_def)

lemma inv_refresh:
  assumes "queue_inv_holds q" shows "queue_inv_holds (queue_refresh q)"
  by (rule queue_inv_frame [OF assms same_work_refresh read_refresh]) (use assms in \<open>simp_all add: queue_inv_holds_def queue_refresh_def source_inv_def\<close>)

lemma inv_abort:
  assumes "queue_inv_holds q" shows "queue_inv_holds (abort_queue_read q)"
  by (rule queue_inv_frame [OF assms same_work_abort read_abort])
    (use assms in \<open>simp_all add: queue_inv_holds_def abort_queue_read_def source_inv_def split: option.split\<close>)

lemma inv_answer:
  assumes "queue_inv_holds q" shows "queue_inv_holds (queue_answer k r q)"
  by (rule queue_inv_frame [OF assms same_work_answer read_answer])
    (use assms in \<open>auto simp: queue_inv_holds_def queue_answer_def source_inv_def is_fresh_def Let_def split: sum.split\<close>)

lemma inv_set_work:
  assumes "queue_inv_holds q" "n < length (pq_ops q)" shows "queue_inv_holds (set_work n ph q)"
proof -
  have "work_inv (set_work n ph q)" "review_inv (set_work n ph q)"
    using assms by (auto simp: queue_inv_holds_def work_inv_def review_inv_def was_reviewed_def set_work_def all_set_conv_all_nth nth_list_update)
  moreover have "read_inv (set_work n ph q)" by (rule same_read [of _ q]) (use assms in \<open>simp_all add: set_work_def queue_inv_holds_def\<close>)
  ultimately show ?thesis using assms(1) by (simp add: queue_inv_holds_def source_inv_def set_work_def)
qed

lemma inv_lowered:
  assumes "queue_inv_holds q" shows "queue_inv_holds (q\<lparr>pq_busy := b\<rparr>)"
proof -
  have "read_inv (q\<lparr>pq_busy := b\<rparr>)" by (rule same_read [of _ q]) (use assms in \<open>simp_all add: queue_inv_holds_def\<close>)
  then show ?thesis using assms by (simp add: queue_inv_holds_def work_inv_def source_inv_def review_inv_def was_reviewed_def)
qed

lemma inv_end_work: "queue_inv_holds q \<Longrightarrow> n < length (pq_ops q) \<Longrightarrow> queue_inv_holds (end_work n q)"
  unfolding end_work_def by (rule inv_lowered [OF inv_set_work])

lemma inv_begin:
  assumes "queue_inv_holds q" "offered_work w q" shows "queue_inv_holds (begin_work w q)"
proof -
  have "read_inv (begin_work w q)" by (rule same_read [of _ q]) (use assms in \<open>simp_all add: begin_work_def queue_inv_holds_def\<close>)
  moreover have "was_reviewed q a r d" if "w = RenewPrompt a r d" for a r d
    using offered_renewal [of a r d q] assms that by (auto simp: queue_inv_holds_def review_inv_def)
  then have "review_inv (begin_work w q)" using assms(1) by (auto simp: queue_inv_holds_def review_inv_def was_reviewed_def begin_work_def)
  ultimately show ?thesis using assms(1) by (auto simp: queue_inv_holds_def work_inv_def source_inv_def begin_work_def)
qed

lemma inv_emptied:
  assumes "queue_inv_holds q" shows "queue_inv_holds (q\<lparr>pq_open := None, pq_review := None\<rparr>)"
proof -
  have "read_inv (q\<lparr>pq_open := None, pq_review := None\<rparr>)" by (rule same_read [of _ q]) (use assms in \<open>simp_all add: queue_inv_holds_def\<close>)
  then show ?thesis using assms by (auto simp: queue_inv_holds_def work_inv_def source_inv_def review_inv_def was_reviewed_def)
qed

lemma inv_logged [simp]:
  "queue_inv_holds (q\<lparr>pq_errors := es\<rparr>) = queue_inv_holds q" "queue_inv_holds (q\<lparr>pq_refreshes := k\<rparr>) = queue_inv_holds q"
  "queue_inv_holds (q\<lparr>pq_observing := b\<rparr>) = queue_inv_holds q" "queue_inv_holds (q\<lparr>pq_alive := b\<rparr>) = queue_inv_holds q"
  unfolding queue_inv_holds_def work_inv_def source_inv_def review_inv_def was_reviewed_def read_inv_def heard_read_def is_read_def by simp_all

lemma inv_opened_review:
  assumes "queue_inv_holds q" shows "queue_inv_holds (q\<lparr>pq_open := Some i, pq_review := Some v, pq_reviewed := pq_reviewed q @ [(i, v)]\<rparr>)"
proof -
  let ?q = "q\<lparr>pq_open := Some i, pq_review := Some v, pq_reviewed := pq_reviewed q @ [(i, v)]\<rparr>"
  have "read_inv ?q" by (rule same_read [of _ q]) (use assms in \<open>simp_all add: queue_inv_holds_def\<close>)
  moreover have "was_reviewed q a r d \<Longrightarrow> was_reviewed ?q a r d" for a r d by (auto simp: was_reviewed_def)
  moreover have "was_reviewed ?q (qp_id i) (qp_revision i) (qr_digest v)" by (auto simp: was_reviewed_def)
  ultimately show ?thesis using assms by (auto simp: queue_inv_holds_def work_inv_def source_inv_def review_inv_def)
qed

lemma inv_moved_on:
  assumes "queue_inv_holds q"
  shows "queue_inv_holds (q\<lparr>pq_session := sid, pq_generation := Suc (pq_generation q), pq_busy := False, pq_items := [], pq_source := None, pq_open := None, pq_review := None\<rparr>)"
proof -
  let ?q = "q\<lparr>pq_session := sid, pq_generation := Suc (pq_generation q), pq_busy := False, pq_items := [], pq_source := None, pq_open := None, pq_review := None\<rparr>"
  have "read_inv ?q" by (rule same_read [of _ q]) (use assms in \<open>simp_all add: queue_inv_holds_def\<close>)
  then show ?thesis using assms by (fastforce simp: queue_inv_holds_def work_inv_def source_inv_def review_inv_def was_reviewed_def)
qed

lemma length_refresh: "pq_ops (queue_refresh q) = pq_ops q" "pq_ops (abort_queue_read q) = pq_ops q"
  by (simp_all add: queue_refresh_def abort_queue_read_def split: option.split)

lemma queue_moves_keep:
  assumes "queue_moves q q'" "queue_inv_holds q" shows "queue_inv_holds q'"
  using assms(1)
proof cases
  case (qm_clicked w)
  then show ?thesis using inv_begin [OF assms(2)] by simp
next
  case (qm_acted n r)
  let ?q1 = "queue_refresh (q\<lparr>pq_open := None, pq_review := None\<rparr>)"
  have n: "n < length (pq_ops q)" using qm_acted by (simp add: working_def)
  have "queue_inv_holds ?q1" by (rule inv_refresh [OF inv_emptied [OF assms(2)]])
  then have "queue_inv_holds (set_work n ph ?q1)" "queue_inv_holds (end_work n (?q1\<lparr>pq_refreshes := k\<rparr>))" for ph k
    using n by (simp_all add: inv_set_work inv_end_work inv_logged length_refresh)
  then show ?thesis using qm_acted n assms(2)
    by (simp add: act_answer_def Let_def inv_end_work inv_logged split: sum.split)
next
  case (qm_reviewed n i a)
  then have n: "n < length (pq_ops q)" by (simp add: working_def)
  then show ?thesis using qm_reviewed assms(2) inv_opened_review [OF assms(2)]
    by (simp add: queue_review_answer_def inv_end_work inv_logged split: sum.split)
next
  case (qm_reread n k)
  then show ?thesis using assms(2) by (simp add: act_reread_def inv_end_work inv_logged)
next
  case (qm_shown sid)
  have "pq_generation (abort_queue_read q) = pq_generation q" using same_work_abort [of q] by (simp add: same_work_def)
  then have "queue_inv_holds ((abort_queue_read q)\<lparr>pq_session := sid, pq_generation := Suc (pq_generation q), pq_busy := False, pq_items := [],
      pq_source := None, pq_open := None, pq_review := None\<rparr>)"
    using inv_moved_on [OF inv_abort [OF assms(2)], of sid] by simp
  then show ?thesis using qm_shown assms(2) by (simp add: show_queue_def inv_refresh)
qed (simp_all add: inv_answer inv_refresh reread_queue_def inv_abort observe_queue_def close_review_def inv_emptied unmount_queue_def assms(2))

lemma end_work_change:
  assumes "queue_inv_holds q" "same_work q q'" "n < length (pq_ops q)" "qo_phase (pq_ops q ! n) \<noteq> WorkDone"
  shows "op_change (queue_ledger q) (queue_ledger (end_work n q'))"
proof -
  let ?x = "pq_ops q ! n" and ?os = "map (\<lambda>x. (qo_generation x, qo_phase x = WorkDone)) (pq_ops q)"
  let ?g = "pq_generation q + (if pq_alive q then 0 else 1)"
  have mine: "pq_alive q \<Longrightarrow> work_fresh n q' \<longleftrightarrow> qo_generation ?x = pq_generation q"
  proof -
    assume "pq_alive q"
    moreover have "qo_generation ?x = pq_generation q \<Longrightarrow> qo_session ?x = pq_session q"
      using assms(1,3) by (simp add: queue_inv_holds_def work_inv_def)
    ultimately show ?thesis using assms(2) by (auto simp: work_fresh_def is_fresh_def same_work_def)
  qed
  have "queue_ledger (end_work n q') = (?g, ?os[n := (qo_generation ?x, True)], qo_generation ?x \<noteq> ?g \<and> pq_alive q \<and> pq_busy q)"
    using assms(2) mine by (auto simp: queue_ledger_def end_work_def set_work_def same_work_def map_update)
  then show ?thesis using op_settled [of n ?os "qo_generation ?x" ?g "pq_alive q \<and> pq_busy q"] assms(3,4) by (simp add: queue_ledger_def)
qed

lemma set_work_ledger:
  assumes "n < length (pq_ops q)" "qo_phase (pq_ops q ! n) \<noteq> WorkDone" "ph \<noteq> WorkDone"
  shows "queue_ledger (set_work n ph q) = queue_ledger q"
proof -
  have "(map (\<lambda>x. (qo_generation x, qo_phase x = WorkDone)) (pq_ops q))[n := (qo_generation (pq_ops q ! n), False)]
      = map (\<lambda>x. (qo_generation x, qo_phase x = WorkDone)) (pq_ops q)"
    by (rule list_update_same_conv [THEN iffD2]) (use assms in simp_all)
  then show ?thesis using assms(3) by (simp add: queue_ledger_def set_work_def map_update)
qed

lemma same_work_log: "same_work q (q\<lparr>pq_errors := es\<rparr>)" "same_work q (q\<lparr>pq_refreshes := k\<rparr>)" "same_work q (q\<lparr>pq_observing := b\<rparr>)"
    "same_work q (q\<lparr>pq_open := a, pq_review := v\<rparr>)" "same_work q (q\<lparr>pq_open := a, pq_review := v, pq_reviewed := l\<rparr>)" "same_work q q"
  by (simp_all add: same_work_def)

lemma act_change:
  assumes "queue_inv_holds q" "working n q" shows "op_change (queue_ledger q) (queue_ledger (act_answer n r q))"
proof -
  let ?q1 = "queue_refresh (q\<lparr>pq_open := None, pq_review := None\<rparr>)"
  have n: "n < length (pq_ops q)" "qo_phase (pq_ops q ! n) \<noteq> WorkDone" using assms(2) by (simp_all add: working_def)
  have q1: "same_work q ?q1" by (rule same_work_trans [OF same_work_log(4) same_work_refresh])
  then have "same_work q (?q1\<lparr>pq_refreshes := k\<rparr>)" for k by (rule same_work_trans [OF _ same_work_log(2)])
  moreover have "queue_ledger (set_work n (WorkReading k) ?q1) = queue_ledger q" for k
    using n q1 same_work_ledger [OF q1] by (subst set_work_ledger) (simp_all add: length_refresh)
  ultimately show ?thesis using end_work_change [OF assms(1) _ n]
    by (simp add: act_answer_def Let_def same_work_log op_idle split: sum.split)
qed

lemma queue_moves_change:
  assumes "queue_inv_holds q" "queue_moves q q'" shows "op_change (queue_ledger q) (queue_ledger q')"
  using assms(2)
proof cases
  case (qm_clicked w)
  then show ?thesis using op_begun [of "pq_generation q"] offered_idle by (simp add: begin_work_def queue_ledger_def)
next
  case (qm_acted n r)
  then show ?thesis using act_change [OF assms(1)] by simp
next
  case (qm_reviewed n i a)
  then show ?thesis using end_work_change [OF assms(1), of _ n]
    by (simp add: queue_review_answer_def working_def same_work_log split: sum.split)
next
  case (qm_reread n k)
  then show ?thesis using end_work_change [OF assms(1), of _ n] by (simp add: act_reread_def same_work_log)
next
  case (qm_observed b)
  have "same_work q (queue_refresh ((abort_queue_read q)\<lparr>pq_observing := b\<rparr>))"
    by (rule same_work_trans [OF same_work_trans [OF same_work_abort same_work_log(3)] same_work_refresh])
  then have "queue_ledger (queue_refresh ((abort_queue_read q)\<lparr>pq_observing := b\<rparr>)) = queue_ledger q" by (rule same_work_ledger)
  then show ?thesis unfolding qm_observed(1) observe_queue_def by (cases "b = pq_observing q") (simp add: op_idle, simp only: if_False op_idle)
next
  case (qm_shown sid)
  have "pq_ops (abort_queue_read q) = pq_ops q" "pq_alive (abort_queue_read q) = pq_alive q" using same_work_abort [of q] by (simp_all add: same_work_def)
  then have "queue_ledger ((abort_queue_read q)\<lparr>pq_session := sid, pq_generation := Suc (pq_generation q), pq_busy := False, pq_items := [], pq_source := None,
      pq_open := None, pq_review := None\<rparr>) = (Suc (pq_generation q), map (\<lambda>x. (qo_generation x, qo_phase x = WorkDone)) (pq_ops q), False)"
    using qm_shown by (simp add: queue_ledger_def)
  then show ?thesis using qm_shown op_renewed [of "pq_generation q" "Suc (pq_generation q)"] same_work_ledger [OF same_work_refresh]
    by (simp add: show_queue_def op_idle) (simp add: queue_ledger_def)
next
  case qm_unmounted
  have "pq_ops (abort_queue_read q) = pq_ops q" "pq_generation (abort_queue_read q) = pq_generation q" using same_work_abort [of q] by (simp_all add: same_work_def)
  then show ?thesis using qm_unmounted op_renewed [of "pq_generation q" "Suc (pq_generation q)"] by (simp add: unmount_queue_def queue_ledger_def)
next
  case qm_changed
  have "same_work q (reread_queue q)" unfolding reread_queue_def by (rule same_work_trans [OF same_work_abort same_work_refresh])
  then show ?thesis using qm_changed same_work_ledger by (simp add: op_idle)
qed (simp_all add: same_work_ledger [OF same_work_answer] same_work_ledger [OF same_work_refresh] same_work_ledger [OF same_work_close] op_idle)

lemma queue_opened_holds: "queue_opened q \<Longrightarrow> queue_inv_holds q \<and> (\<exists>g. queue_ledger q = (g, [], False))"
proof -
  let ?q = "\<lambda>sid b. \<lparr>pq_session = sid, pq_generation = 0, pq_alive = True, pq_observing = b, pq_items = [], pq_source = None,
     pq_open = None, pq_review = None, pq_busy = False, pq_read = None, pq_reads = [], pq_ops = [], pq_reviewed = [], pq_errors = [], pq_refreshes = 0\<rparr>"
  have "queue_inv_holds (?q sid b)" for sid b
    by (simp add: queue_inv_holds_def work_inv_def read_inv_def heard_read_def is_read_def source_inv_def review_inv_def)
  then have "queue_inv_holds (open_queue sid b)" for sid b unfolding open_queue_def by (rule inv_refresh)
  moreover have "queue_ledger (open_queue sid b) = (0, [], False)" for sid b
    unfolding open_queue_def same_work_ledger [OF same_work_refresh] by (simp add: queue_ledger_def)
  ultimately show "queue_opened q \<Longrightarrow> ?thesis" by (auto simp: queue_opened_def)
qed

interpretation queue_panel: one_at_a_time queue_opened queue_moves queue_inv_holds queue_ledger
  by unfold_locales (rule queue_opened_holds, assumption, erule (1) queue_moves_keep [rotated], erule (1) queue_moves_change)

definition open_work :: "prompt_queue \<Rightarrow> nat \<Rightarrow> bool" where
  "open_work q n \<longleftrightarrow> n < length (pq_ops q) \<and> qo_generation (pq_ops q ! n) = pq_generation q \<and> qo_phase (pq_ops q ! n) \<noteq> WorkDone"

text \<open>C26. Follow-ups are worked on one at a time; a confirmation sends the revision and the digest of a review that was shown for that very follow-up; and what
  is listed belongs to the conversation shown.\<close>

theorem queue_confirms_what_was_reviewed:
  assumes "queue_reachable q"
  shows "(\<forall>x \<in> set (pq_ops q). \<forall>a r d. qo_work x = RenewPrompt a r d \<longrightarrow> was_reviewed q a r d)
    \<and> (pq_items q = [] \<or> pq_source q = Some (pq_session q))
    \<and> (pq_alive q \<longrightarrow> open_work q m \<longrightarrow> open_work q n \<longrightarrow> m = n)"
proof -
  have inv: "queue_inv_holds q" by (rule queue_panel.reached_holds [OF assms])
  have "m = n" if "pq_alive q" "open_work q m" "open_work q n"
    by (rule queue_panel.one_open [OF assms]) (use that in \<open>auto simp: queue_ledger_def open_work_def\<close>)
  then show ?thesis using inv by (auto simp: queue_inv_holds_def review_inv_def source_inv_def)
qed

text \<open>A run: a blocked follow-up is reviewed and confirmed.\<close>

definition blocked_prompt :: queued_prompt where
  "blocked_prompt = \<lparr>qp_id = ''q1'', qp_revision = 3, qp_prompt = ''go'', qp_status = ''blocked'', qp_reason = None, qp_task = None, qp_expires = 0,
     qp_target = JNull, qp_attachments = [], qp_references = 0\<rparr>"

definition listed_queue :: prompt_queue where
  "listed_queue = queue_answer 0 (Inr [blocked_prompt]) (open_queue ''c'' True)"

definition reviewed_queue :: prompt_queue where
  "reviewed_queue = queue_review_answer 0 blocked_prompt (Inr \<lparr>qr_target = JNull, qr_digest = ''d''\<rparr>) (begin_work (ReadReview blocked_prompt) listed_queue)"

definition renewed_queue :: prompt_queue where
  "renewed_queue = begin_work (RenewPrompt ''q1'' 3 ''d'') reviewed_queue"

lemma renewed_reachable: "queue_reachable renewed_queue"
proof -
  have "queue_reachable (open_queue ''c'' True)" by (rule reached_opened) (auto simp: queue_opened_def)
  then have 1: "queue_reachable listed_queue" unfolding listed_queue_def by (rule reached_moved) (rule qm_answered)
  have "ClickWork (ReadReview blocked_prompt) \<in> set (offers (queue_view (\<lambda>_. []) (\<lambda>_. []) False listed_queue))" "pq_alive listed_queue"
    "working 0 (begin_work (ReadReview blocked_prompt) listed_queue)" "is_review 0 blocked_prompt (begin_work (ReadReview blocked_prompt) listed_queue)"
    by code_simp+
  then have "queue_moves listed_queue (begin_work (ReadReview blocked_prompt) listed_queue)" "queue_moves (begin_work (ReadReview blocked_prompt) listed_queue) reviewed_queue"
    unfolding reviewed_queue_def using qm_clicked [OF _ offered_workI] qm_reviewed by blast+
  then have 2: "queue_reachable reviewed_queue" using reached_moved [OF reached_moved [OF 1]] by blast
  have "ClickWork (RenewPrompt ''q1'' 3 ''d'') \<in> set (offers (queue_view (\<lambda>_. []) (\<lambda>_. []) False reviewed_queue))" "pq_alive reviewed_queue"
    by code_simp+
  then show ?thesis unfolding renewed_queue_def using reached_moved [OF 2 qm_clicked [OF _ offered_workI]] by blast
qed

theorem queue_confirms_what_was_reviewed_witness:
  "was_reviewed renewed_queue ''q1'' 3 ''d'' \<and> pq_source renewed_queue = Some ''c'' \<and> open_work renewed_queue 1"
proof -
  have "qo_work (pq_ops renewed_queue ! 1) = RenewPrompt ''q1'' 3 ''d''" "length (pq_ops renewed_queue) = 2" "pq_items renewed_queue \<noteq> []"
    "pq_session renewed_queue = ''c''" "open_work renewed_queue 1" by code_simp+
  then show ?thesis using queue_confirms_what_was_reviewed [OF renewed_reachable, of 1 1] nth_mem [of 1 "pq_ops renewed_queue"] by fastforce
qed

end
