(* ===== verification/ProviderAccounts.thy ===== *)
theory ProviderAccounts
  imports OneAtATime View
begin

text \<open>
  \<open>features/ProviderAccountForm.tsx\<close>: adding and editing an API account. A new account gets a generated key
  that stays the same until a save succeeds; the secret leaves the form with the save that sends it.
\<close>

section \<open>State\<close>

record api_account =
  aa_id :: string
  aa_name :: string
  aa_kind :: string
  aa_url :: string
  aa_model :: string
  aa_capabilities :: "string list"

definition api_choices :: "(string \<times> string) list" where
  "api_choices = [(''shell'', ''Shell tools''), (''functions'', ''Function tools''), (''computer'', ''Computer tools''),
     (''image'', ''Image generation and editing''), (''audio'', ''Audio transcription and speech'')]"

definition api_providers :: "(string \<times> string \<times> string) list" where
  "api_providers = [(''openai'', ''OpenAI'', ''https://api.openai.com/v1''), (''openrouter'', ''OpenRouter'', ''https://openrouter.ai/api/v1''),
     (''custom'', ''Another compatible provider'', [])]"

definition provider_for :: "string \<Rightarrow> string" where
  "provider_for url = (case find (\<lambda>(_, _, u). u = url) api_providers of Some (i, _, _) \<Rightarrow> if i = [] then ''custom'' else i | None \<Rightarrow> ''custom'')"

record account_save =
  as_account :: api_account
  as_key :: "string option"
  as_generated :: bool
  as_result :: "bool js_result option"

record account_form =
  af_account :: "api_account option"
  af_id :: string
  af_name :: string
  af_url :: string
  af_model :: string
  af_secret :: string
  af_capabilities :: "string list"
  af_provider :: string
  af_saving :: bool
  af_error :: string
  af_generated :: string
  af_saves :: "account_save list"

definition first_url :: string where
  "first_url = ''https://api.openai.com/v1''"

definition open_account_form :: "api_account option \<Rightarrow> account_form" where
  "open_account_form a =
     (let url = (case a of Some x \<Rightarrow> if aa_url x = [] then first_url else aa_url x | None \<Rightarrow> first_url) in
      \<lparr>af_account = a, af_id = (case a of Some x \<Rightarrow> aa_id x | None \<Rightarrow> []), af_name = (case a of Some x \<Rightarrow> aa_name x | None \<Rightarrow> []),
       af_url = url, af_model = (case a of Some x \<Rightarrow> aa_model x | None \<Rightarrow> []), af_secret = [],
       af_capabilities = (case a of Some x \<Rightarrow> aa_capabilities x | None \<Rightarrow> [''shell'', ''functions'']), af_provider = provider_for url,
       af_saving = False, af_error = [], af_generated = [], af_saves = []\<rparr>)"

definition choose_provider :: "string \<Rightarrow> account_form \<Rightarrow> account_form" where
  "choose_provider p f =
     (case map_of (map (\<lambda>(i, _, u). (i, u)) api_providers) p of
        None \<Rightarrow> f
      | Some u \<Rightarrow> f\<lparr>af_provider := p, af_url := u, af_secret := [], af_error := []\<rparr>)"

definition toggle_capability :: "string \<Rightarrow> bool \<Rightarrow> account_form \<Rightarrow> account_form" where
  "toggle_capability v on f = f\<lparr>af_capabilities := (if on then af_capabilities f @ [v] else filter (\<lambda>x. x \<noteq> v) (af_capabilities f))\<rparr>"

section \<open>The generated key\<close>

definition slug_char :: "char \<Rightarrow> bool" where
  "slug_char c \<longleftrightarrow> (let n = of_char c :: nat in 97 \<le> n \<and> n \<le> 122) \<or> is_digit c"

function dash_runs :: "string \<Rightarrow> string" where
  "dash_runs [] = []"
| "dash_runs (c # s) = (if slug_char c then c # dash_runs s else CHR ''-'' # dash_runs (dropWhile (\<lambda>x. \<not> slug_char x) s))"
  by pat_completeness auto
termination by (relation "measure length") (auto simp: le_imp_less_Suc length_dropWhile_le)

definition strip_dashes :: "string \<Rightarrow> string" where
  "strip_dashes s =
     (let t = (case s of [] \<Rightarrow> [] | c # r \<Rightarrow> if c = CHR ''-'' then r else s)
      in if t \<noteq> [] \<and> last t = CHR ''-'' then butlast t else t)"

definition account_slug :: "string \<Rightarrow> string" where
  "account_slug name = strip_dashes (dash_runs (lower_text (trim name)))"

definition generated_key :: "string \<Rightarrow> string \<Rightarrow> string" where
  "generated_key name uuid = account_slug name @ ''-'' @ take 8 uuid"

section \<open>Saving\<close>

definition account_sent :: "string \<Rightarrow> account_form \<Rightarrow> api_account" where
  "account_sent key f =
     \<lparr>aa_id = (if trim (af_id f) = [] then key else trim (af_id f)), aa_name = trim (af_name f),
      aa_kind = (case af_account f of Some a \<Rightarrow> if aa_kind a = [] then ''openai-compatible'' else aa_kind a | None \<Rightarrow> ''openai-compatible''),
      aa_url = trim (af_url f), aa_model = trim (af_model f), aa_capabilities = af_capabilities f\<rparr>"

definition save_account :: "string \<Rightarrow> account_form \<Rightarrow> account_form" where
  "save_account uuid f =
     (if af_saving f then f
      else (let key = (if af_generated f = [] then generated_key (af_name f) uuid else af_generated f) in
            f\<lparr>af_saving := True, af_error := [], af_generated := key, af_secret := [],
              af_saves := af_saves f @ [\<lparr>as_account = account_sent key f, as_key = (if af_secret f = [] then None else Some (af_secret f)),
                as_generated = (trim (af_id f) = []), as_result = None\<rparr>]\<rparr>))"

text \<open>\<open>onSave\<close> answers \<open>null\<close>, here \<open>False\<close>, when the account was not stored, or fails.\<close>

definition account_answer :: "nat \<Rightarrow> bool js_result \<Rightarrow> account_form \<Rightarrow> account_form" where
  "account_answer n r f =
     (if n < length (af_saves f) \<and> as_result (af_saves f ! n) = None
      then (let f' = f\<lparr>af_saves := (af_saves f)[n := (af_saves f ! n)\<lparr>as_result := Some r\<rparr>], af_saving := False\<rparr> in
            case r of
              Inl e \<Rightarrow> f'\<lparr>af_error := error_message e\<rparr>
            | Inr ok \<Rightarrow> if ok \<and> af_account f = None then f'\<lparr>af_generated := [], af_id := [], af_name := []\<rparr> else f')
      else f)"

section \<open>The form\<close>

datatype account_form_action = SubmitAccount | ChooseProvider string | ToggleCapability string bool | CancelAccount

definition account_field :: "bool \<Rightarrow> string \<Rightarrow> string \<Rightarrow> account_form_action view" where
  "account_field disabled label v = VEl ''label'' [attr_flag ''disabled'' disabled, attr_text ''value'' v] [] [labelled ''span'' label]"

definition account_form_view :: "bool \<Rightarrow> bool \<Rightarrow> account_form \<Rightarrow> account_form_action view" where
  "account_form_view busy can_cancel f =
     (let disabled = busy \<or> af_saving f; editing = af_account f \<noteq> None in box ''form''
       [show_if (\<not> editing) (labelled ''p'' ''Connect an API account for your chats. Already use a signed-in coding agent? Choose it under Installed engines instead.''),
        show_if (\<not> editing) (picker disabled (\<lambda>(i, _, _). ChooseProvider i) (\<lambda>(_, l, _). l) api_providers),
        account_field disabled ''Display name'' (af_name f),
        show_if (af_provider f = ''custom'' \<or> editing) (account_field disabled ''Provider API address'' (af_url f)),
        account_field disabled (if editing then ''Replace API key (leave blank to keep current key)'' else ''API key'') (af_secret f),
        (if af_url f \<noteq> [] then labelled ''p'' (''Requests use '' @ af_url f @ ''. Your host keeps the key; it is never added to chat history.'')
         else labelled ''p'' ''Enter the API address supplied by your provider.''),
        account_field disabled ''Default model for future sessions'' (af_model f),
        account_field (disabled \<or> editing) ''Internal account key (generated automatically)'' (af_id f),
        box ''fieldset'' (map (\<lambda>(v, l). let on = v \<in> set (af_capabilities f) in checkbox disabled on (ToggleCapability v (\<not> on)) l) api_choices),
        show_if (af_error f \<noteq> []) (labelled ''p'' (af_error f)),
        button (disabled \<or> trim (af_name f) = [] \<or> trim (af_url f) = [] \<or> af_capabilities f = []) SubmitAccount
          (if af_saving f then ''Saving account...'' else if editing then ''Save account changes'' else ''Save account''),
        show_if can_cancel (button disabled CancelAccount ''Cancel account edit'')])"

section \<open>One account, however often it is tried\<close>

text \<open>The fields are disabled while a save is awaited.\<close>

inductive account_moves :: "account_form \<Rightarrow> account_form \<Rightarrow> bool" where
  am_typed: "\<not> af_saving f \<Longrightarrow> account_moves f (f\<lparr>af_id := i, af_name := n, af_url := u, af_model := m, af_secret := s\<rparr>)"
| am_provider: "\<not> af_saving f \<Longrightarrow> account_moves f (choose_provider p f)"
| am_capability: "\<not> af_saving f \<Longrightarrow> account_moves f (toggle_capability v on f)"
| am_saved: "account_moves f (save_account uuid f)"
| am_answered: "account_moves f (account_answer n r f)"

definition account_opened :: "account_form \<Rightarrow> bool" where
  "account_opened f \<longleftrightarrow> (\<exists>a. f = open_account_form a)"

definition account_ledger :: "account_form \<Rightarrow> op_ledger" where
  "account_ledger f = (0, map (\<lambda>s. (0, as_result s \<noteq> None)) (af_saves f), af_saving f)"

text \<open>The saves since the last one that stored a new account.\<close>

definition stored :: "account_save \<Rightarrow> bool" where
  "stored s \<longleftrightarrow> as_result s = Some (Inr True)"

definition recent_saves :: "account_form \<Rightarrow> account_save list" where
  "recent_saves f = takeWhile (\<lambda>s. \<not> stored s) (rev (af_saves f))"

definition account_ok :: "account_form \<Rightarrow> bool" where
  "account_ok f \<longleftrightarrow> (if af_saving f then af_saves f \<noteq> [] \<and> as_result (last (af_saves f)) = None \<and> af_secret f = []
       else list_all (\<lambda>s. as_result s \<noteq> None) (af_saves f))
     \<and> list_all (\<lambda>s. as_result s \<noteq> None) (butlast (af_saves f))
     \<and> list_all (\<lambda>s. as_generated s \<longrightarrow> af_generated f \<noteq> [] \<and> aa_id (as_account s) = af_generated f) (recent_saves f)"

lemma account_save_ok:
  assumes "account_ok f" shows "account_ok (save_account uuid f)"
proof (cases "af_saving f")
  case False
  define key where "key = (if af_generated f = [] then generated_key (af_name f) uuid else af_generated f)"
  have "key \<noteq> []" by (simp add: key_def generated_key_def)
  moreover have "list_all (\<lambda>s. as_generated s \<longrightarrow> key \<noteq> [] \<and> aa_id (as_account s) = key) (recent_saves f)"
    using assms \<open>key \<noteq> []\<close> by (auto simp: account_ok_def list_all_iff key_def)
  ultimately show ?thesis using assms False
    by (auto simp: account_ok_def save_account_def Let_def key_def [symmetric] recent_saves_def stored_def account_sent_def)
qed (use assms in \<open>simp add: save_account_def\<close>)

lemma account_answer_ok:
  assumes "account_ok f" shows "account_ok (account_answer n r f)"
proof (cases "n < length (af_saves f) \<and> as_result (af_saves f ! n) = None")
  case True
  have "n = length (af_saves f) - 1"
  proof (rule ccontr)
    assume "n \<noteq> length (af_saves f) - 1"
    then have "n < length (butlast (af_saves f))" using True unfolding length_butlast by linarith
    then have "butlast (af_saves f) ! n \<in> set (butlast (af_saves f))" "butlast (af_saves f) ! n = af_saves f ! n" by (rule nth_mem, rule nth_butlast)
    then show False using assms True by (auto simp: account_ok_def list_all_iff)
  qed
  then obtain xs s where saves: "af_saves f = xs @ [s]" "n = length xs" using True by (cases "af_saves f" rule: rev_cases) auto
  have recent: "recent_saves f = s # takeWhile (\<lambda>s. \<not> stored s) (rev xs)" using True saves by (simp add: recent_saves_def stored_def)
  show ?thesis
  proof (cases "r = Inr True")
    case r: True
    then have "recent_saves (account_answer n r f) = []" using True saves by (simp add: account_answer_def Let_def recent_saves_def stored_def)
    then show ?thesis using assms True saves r by (simp add: account_ok_def account_answer_def Let_def)
  next
    case False
    then have "account_answer n r f = f\<lparr>af_saves := xs @ [s\<lparr>as_result := Some r\<rparr>], af_saving := False,
        af_error := (case r of Inl e \<Rightarrow> error_message e | Inr _ \<Rightarrow> af_error f)\<rparr>"
      using True saves by (auto simp: account_answer_def Let_def split: sum.split)
    then show ?thesis using assms recent saves False by (simp add: account_ok_def recent_saves_def stored_def)
  qed
qed (use assms in \<open>auto simp: account_answer_def\<close>)

lemma account_same_ok:
  assumes "account_ok f" "\<not> af_saving f" "af_saving g = af_saving f" "af_saves g = af_saves f" "af_generated g = af_generated f"
  shows "account_ok g"
  using assms by (simp add: account_ok_def recent_saves_def)

lemma account_moves_ok:
  assumes "account_moves f g" "account_ok f" shows "account_ok g"
  using assms(1)
proof cases
  case (am_provider p)
  then show ?thesis by (intro account_same_ok [OF assms(2)]) (simp_all add: choose_provider_def split: option.split)
next
  case (am_typed i n u m s)
  then show ?thesis by (intro account_same_ok [OF assms(2)]) simp_all
next
  case (am_capability v on)
  then show ?thesis by (intro account_same_ok [OF assms(2)]) (simp_all add: toggle_capability_def)
qed (simp_all add: account_save_ok account_answer_ok assms(2))

lemma account_answer_change: "op_change (account_ledger f) (account_ledger (account_answer n r f))"
proof (cases "n < length (af_saves f) \<and> as_result (af_saves f ! n) = None")
  case True
  then show ?thesis using op_settled [of n "map (\<lambda>s. (0, as_result s \<noteq> None)) (af_saves f)" 0 0 "af_saving f"]
    by (simp add: account_answer_def account_ledger_def Let_def map_update split: sum.split)
qed (auto simp: account_answer_def op_idle)

lemma account_moves_change:
  assumes "account_moves f g" shows "op_change (account_ledger f) (account_ledger g)"
  using assms
proof cases
  case (am_saved uuid)
  then show ?thesis using op_begun [of 0] by (auto simp: save_account_def account_ledger_def Let_def op_idle)
qed (simp_all add: account_answer_change, simp_all add: account_ledger_def choose_provider_def toggle_capability_def op_idle split: option.split)

lemma account_opened_ok: "account_opened f \<Longrightarrow> account_ok f \<and> (\<exists>g. account_ledger f = (g, [], False))"
  by (auto simp: account_opened_def open_account_form_def account_ok_def account_ledger_def recent_saves_def Let_def)

interpretation account_saving: one_at_a_time account_opened account_moves account_ok account_ledger
  by unfold_locales (rule account_opened_ok, assumption, erule (1) account_moves_ok [rotated], erule account_moves_change)

text \<open>C35. Until a save succeeds, every save of an account whose key is generated carries the same key, so that trying again cannot add the account twice;
  the secret is out of the form while a save is awaited, and no two saves are.\<close>

theorem retried_account_keeps_its_key:
  assumes "reached account_opened account_moves f" "s \<in> set (recent_saves f)" "t \<in> set (recent_saves f)" "as_generated s" "as_generated t"
  shows "aa_id (as_account s) = aa_id (as_account t) \<and> (af_saving f \<longrightarrow> af_secret f = [])
    \<and> length (filter (\<lambda>x. as_result x = None) (af_saves f)) \<le> 1"
proof -
  have ok: "account_ok f" by (rule account_saving.reached_holds [OF assms(1)])
  have "ledger_ok (account_ledger f)" by (rule account_saving.ledger_kept [OF assms(1)])
  then have "length (filter (\<lambda>x. as_result x = None) (af_saves f)) \<le> 1"
    by (simp add: account_ledger_def filter_map comp_def split: if_splits)
  then show ?thesis using ok assms(2-5) by (auto simp: account_ok_def list_all_iff)
qed

definition tried_twice :: account_form where
  "tried_twice = save_account ''87654321-y'' (account_answer 0 (Inl (JsError ''offline'')) (save_account ''12345678-x''
     ((open_account_form None)\<lparr>af_id := [], af_name := '' My  AI! '', af_url := first_url, af_model := [], af_secret := ''k''\<rparr>)))"

theorem retried_account_keeps_its_key_witness:
  "map (\<lambda>s. (aa_id (as_account s), as_key s)) (af_saves tried_twice) = [(''my-ai-12345678'', Some ''k''), (''my-ai-12345678'', None)]
    \<and> aa_id (as_account (af_saves tried_twice ! 0)) = aa_id (as_account (af_saves tried_twice ! 1))"
proof -
  have "reached account_opened account_moves (open_account_form None)" by (rule reached_opened) (auto simp: account_opened_def)
  then have "reached account_opened account_moves ((open_account_form None)\<lparr>af_id := [], af_name := '' My  AI! '', af_url := first_url, af_model := [], af_secret := ''k''\<rparr>)"
    by (rule reached_moved) (rule am_typed, simp add: open_account_form_def Let_def)
  then have "reached account_opened account_moves tried_twice"
    unfolding tried_twice_def by (meson reached_moved am_saved am_answered)
  moreover have "map (\<lambda>s. (aa_id (as_account s), as_key s)) (af_saves tried_twice) = [(''my-ai-12345678'', Some ''k''), (''my-ai-12345678'', None)]"
    "recent_saves tried_twice = [af_saves tried_twice ! 1, af_saves tried_twice ! 0]"
    "as_generated (af_saves tried_twice ! 0)" "as_generated (af_saves tried_twice ! 1)"
    by code_simp+
  ultimately show ?thesis using retried_account_keeps_its_key [of tried_twice "af_saves tried_twice ! 0" "af_saves tried_twice ! 1"] by simp
qed

end
