(* ===== verification/ReasoningEffort.thy ===== *)
theory ReasoningEffort
  imports WriteLock View ApiTypes
begin

text \<open>
  \<open>features/ReasoningPicker.tsx\<close>: choosing the effort of the next turn. The panel reads what the engine
  offers for the model of the conversation, and writes a choice through the queue of
  \<open>lib/session-writes.ts\<close>: inside one queued write it reads the conversation again, checks that it
  still runs the model shown, and sends the change under the revision just read. An operation is
  stamped; another selection, the unmount or a later choice takes it its effect. Option identifiers
  are taken not to be names of \<open>Object.prototype\<close>. The continuations of one settled promise run
  together, as one step.
\<close>

section \<open>What the engine offers\<close>

record effort_option =
  eo_id :: string
  eo_name :: "string option"
  eo_category :: "string option"
  eo_kind :: "string option"
  eo_current :: "string option"
  eo_values :: "(string \<times> string option) list"

record effort_configuration =
  ef_options :: "effort_option list"
  ef_models :: "(string \<times> effort_option list) list"
  ef_stale :: bool
  ef_error :: "string option"

definition effort_label :: "string \<Rightarrow> string" where
  "effort_label v = upper_first (replace_char (CHR ''_'') (CHR '' '') v)"

type_synonym selection = "string \<times> string \<times> string option \<times> string option \<times> string option"

definition selection_of :: "session \<Rightarrow> selection" where
  "selection_of s = (ses_id s, ses_engine s, ses_model s, ses_provider_id s, ses_runner_id s)"

definition offered_options :: "session \<Rightarrow> effort_configuration option \<Rightarrow> effort_option list" where
  "offered_options s cfg =
     filter (\<lambda>o'. or_text (eo_category o') [] \<in> {''thought_level'', ''reasoning'', ''effort''} \<and> eo_kind o' = Some ''select'' \<and> eo_values o' \<noteq> [])
       (case cfg of None \<Rightarrow> []
        | Some c \<Rightarrow> if truthy_text (ses_model s) then (case map_of (ef_models c) (the (ses_model s)) of Some os \<Rightarrow> os | None \<Rightarrow> [])
                    else ef_options c)"

definition effort_unavailable :: "session \<Rightarrow> effort_configuration option \<Rightarrow> bool" where
  "effort_unavailable s cfg \<longleftrightarrow> offered_options s cfg = []
     \<or> (case cfg of None \<Rightarrow> False | Some c \<Rightarrow> ef_stale c \<or> truthy_text (ef_error c))"

text \<open>The positions of the slider: the default first, then the catalogue's values.\<close>

definition effort_positions :: "effort_option \<Rightarrow> (string \<times> string) list" where
  "effort_positions o' = ([], ''Default'') # map (\<lambda>(v, n). (v, if truthy_text n then the n else effort_label v)) (eo_values o')"

definition stored_effort :: "session \<Rightarrow> string \<Rightarrow> string" where
  "stored_effort s k = (case map_of (ses_reasoning s) k of Some v \<Rightarrow> v | None \<Rightarrow> [])"

section \<open>The panel\<close>

datatype effort_phase = EffortWaiting | EffortReading | EffortPatching | EffortDone

record effort_write =
  ew_session :: session
  ew_option :: string
  ew_value :: string
  ew_generation :: nat
  ew_operation :: nat
  ew_intent :: nat
  ew_write :: nat
  ew_phase :: effort_phase

record effort_patch =
  pt_session :: string
  pt_revision :: int
  pt_reasoning :: "(string \<times> string) list"

record effort_panel =
  rz_session :: session
  rz_generation :: nat
  rz_operation :: nat
  rz_pending :: bool
  rz_saving :: bool
  rz_loading :: bool
  rz_catalogue :: "(selection \<times> effort_configuration) option"
  rz_draft_values :: "(string \<times> nat) list"
  rz_drafts :: "(string \<times> nat) list"
  rz_reads :: "(selection \<times> bool) list"
  rz_ops :: "effort_write list"
  rz_writes :: writes
  rz_patches :: "effort_patch list"
  rz_updated :: "jsval list"
  rz_errors :: "js_error list"

text \<open>The effect of another selection: what was read is dropped, and the engine is asked again unless it is the
  internal one or a runner's.\<close>

definition effort_effect :: "effort_panel \<Rightarrow> effort_panel" where
  "effort_effect p =
     (let s = rz_session p; asks = ses_engine s \<noteq> ''internal'' \<and> \<not> truthy_text (ses_runner_id s);
          old = map (\<lambda>r. (fst r, False)) (rz_reads p)
      in p\<lparr>rz_saving := False, rz_catalogue := None, rz_drafts := [], rz_loading := asks,
           rz_reads := (if asks then old @ [(selection_of s, True)] else old)\<rparr>)"

definition open_effort :: "session \<Rightarrow> writes \<Rightarrow> effort_panel" where
  "open_effort s w = effort_effect \<lparr>rz_session = s, rz_generation = 0, rz_operation = 0, rz_pending = False, rz_saving = False,
     rz_loading = False, rz_catalogue = None, rz_draft_values = [], rz_drafts = [], rz_reads = [], rz_ops = [], rz_writes = w,
     rz_patches = [], rz_updated = [], rz_errors = []\<rparr>"

definition render_effort :: "session \<Rightarrow> effort_panel \<Rightarrow> effort_panel" where
  "render_effort s p =
     (if selection_of s = selection_of (rz_session p) then p\<lparr>rz_session := s\<rparr>
      else effort_effect (p\<lparr>rz_session := s, rz_generation := Suc (rz_generation p), rz_operation := Suc (rz_operation p),
             rz_pending := False, rz_draft_values := []\<rparr>))"

definition unmount_effort :: "effort_panel \<Rightarrow> effort_panel" where
  "unmount_effort p = p\<lparr>rz_generation := Suc (rz_generation p), rz_operation := Suc (rz_operation p),
     rz_reads := map (\<lambda>r. (fst r, False)) (rz_reads p)\<rparr>"

definition configured :: "nat \<Rightarrow> effort_configuration js_result \<Rightarrow> effort_panel \<Rightarrow> effort_panel" where
  "configured n r p =
     (if n < length (rz_reads p) \<and> snd (rz_reads p ! n)
      then (let q = p\<lparr>rz_loading := False, rz_reads := (rz_reads p)[n := (fst (rz_reads p ! n), False)]\<rparr> in
            case r of Inr c \<Rightarrow> q\<lparr>rz_catalogue := Some (fst (rz_reads p ! n), c)\<rparr> | Inl e \<Rightarrow> q\<lparr>rz_errors := rz_errors p @ [e]\<rparr>)
      else p)"

definition effort_shown :: "effort_panel \<Rightarrow> effort_configuration option" where
  "effort_shown p = (case rz_catalogue p of Some (sel, c) \<Rightarrow> if sel = selection_of (rz_session p) then Some c else None | None \<Rightarrow> None)"

definition slide_effort :: "string \<Rightarrow> nat \<Rightarrow> effort_panel \<Rightarrow> effort_panel" where
  "slide_effort k i p = (let d = AList.update k i (rz_draft_values p) in p\<lparr>rz_draft_values := d, rz_drafts := d\<rparr>)"

definition choose_effort :: "bool \<Rightarrow> effort_option \<Rightarrow> nat \<Rightarrow> effort_panel \<Rightarrow> effort_panel" where
  "choose_effort disabled o' i p =
     (let s = rz_session p; values = effort_positions o' in
      if disabled \<or> rz_loading p \<or> effort_unavailable s (effort_shown p) \<or> rz_pending p then p
      else if length values \<le> i \<or> fst (values ! i) = stored_effort s (eo_id o') then p
      else (let (intent, w) = capture_session_write (rz_writes p); (n, w') = serialize_session_write (ses_id s) (Some intent) w in
            p\<lparr>rz_operation := Suc (rz_operation p), rz_pending := True, rz_saving := True, rz_writes := w',
              rz_ops := rz_ops p @ [\<lparr>ew_session = s, ew_option = eo_id o', ew_value = fst (values ! i), ew_generation = rz_generation p,
                ew_operation = Suc (rz_operation p), ew_intent = intent, ew_write = n, ew_phase = EffortWaiting\<rparr>]\<rparr>))"

definition shown_index :: "session \<Rightarrow> (string \<times> nat) list \<Rightarrow> effort_option \<Rightarrow> nat" where
  "shown_index s drafts o' =
     (case map_of drafts (eo_id o') of Some i \<Rightarrow> i
      | None \<Rightarrow> (let k = length (takeWhile (\<lambda>v. fst v \<noteq> stored_effort s (eo_id o')) (effort_positions o')) in
                 if k < length (effort_positions o') then k else 0))"

definition commit_effort :: "bool \<Rightarrow> effort_option \<Rightarrow> effort_panel \<Rightarrow> effort_panel" where
  "commit_effort disabled o' p =
     choose_effort disabled o' (case map_of (rz_draft_values p) (eo_id o') of Some i \<Rightarrow> i
       | None \<Rightarrow> shown_index (rz_session p) (rz_drafts p) o') p"

section \<open>The queued write\<close>

definition owns_effort :: "effort_write \<Rightarrow> effort_panel \<Rightarrow> bool" where
  "owns_effort e p \<longleftrightarrow> ew_generation e = rz_generation p \<and> ew_operation e = rz_operation p"

definition set_effort :: "nat \<Rightarrow> effort_phase \<Rightarrow> effort_panel \<Rightarrow> effort_panel" where
  "set_effort k ph p = p\<lparr>rz_ops := (rz_ops p)[k := (rz_ops p ! k)\<lparr>ew_phase := ph\<rparr>]\<rparr>"

text \<open>The queue settled the write: its result or its error is told to the owner only.\<close>

definition effort_settled :: "nat \<Rightarrow> effort_panel \<Rightarrow> effort_panel" where
  "effort_settled k p =
     (let e = rz_ops p ! k; w = clean_write (ew_write e) (rz_writes p); owner = owns_effort e p;
          q = set_effort k EffortDone (p\<lparr>rz_writes := release_intent (ew_intent e) w\<rparr>);
          told = (case wo_phase (ws_ops (rz_writes p) ! ew_write e) of
              Settled (Inr v) \<Rightarrow> if truthy v \<and> owner then q\<lparr>rz_updated := rz_updated q @ [v]\<rparr> else q
            | Settled (Inl x) \<Rightarrow> if owner \<and> is_current w (ew_intent e) then q\<lparr>rz_errors := rz_errors q @ [x]\<rparr> else q
            | _ \<Rightarrow> q);
          kept = AList.delete (ew_option e) (rz_draft_values told)
      in if owner then told\<lparr>rz_pending := False, rz_saving := False, rz_draft_values := kept, rz_drafts := kept\<rparr> else told)"

definition effort_finish :: "nat \<Rightarrow> jsval js_result \<Rightarrow> effort_panel \<Rightarrow> effort_panel" where
  "effort_finish k r p = effort_settled k (p\<lparr>rz_writes := finish_write (ew_write (rz_ops p ! k)) r (rz_writes p)\<rparr>)"

definition effort_start :: "nat \<Rightarrow> effort_panel \<Rightarrow> effort_panel" where
  "effort_start k p =
     (let e = rz_ops p ! k; q = p\<lparr>rz_writes := start_write (ew_write e) (rz_writes p)\<rparr> in
      if \<not> is_current (rz_writes p) (ew_intent e) then effort_settled k q
      else if \<not> owns_effort e p then effort_finish k (Inr JUndef) q
      else set_effort k EffortReading (q\<lparr>rz_writes := intent_signal (ew_intent e) (rz_writes q)\<rparr>))"

definition same_choice :: "session \<Rightarrow> session \<Rightarrow> bool" where
  "same_choice a b \<longleftrightarrow> ses_engine a = ses_engine b \<and> or_text (ses_model a) [] = or_text (ses_model b) []
     \<and> or_text (ses_runner_id a) [] = or_text (ses_runner_id b) [] \<and> or_text (ses_provider_id a) [] = or_text (ses_provider_id b) []"

definition moved_on :: js_error where
  "moved_on = JsError (''This conversation'' @ [CHR 0x92] @ ''s model changed. Reopen Model and effort before choosing an effort level.'')"

definition changed_reasoning :: "effort_write \<Rightarrow> session \<Rightarrow> (string \<times> string) list" where
  "changed_reasoning e latest = (if ew_value e \<noteq> [] then AList.update (ew_option e) (ew_value e) (ses_reasoning latest)
     else AList.delete (ew_option e) (ses_reasoning latest))"

definition effort_latest :: "nat \<Rightarrow> session js_result \<Rightarrow> effort_panel \<Rightarrow> effort_panel" where
  "effort_latest k r p =
     (let e = rz_ops p ! k in
      case r of
        Inl x \<Rightarrow> effort_finish k (Inl x) p
      | Inr latest \<Rightarrow>
          if \<not> is_current (rz_writes p) (ew_intent e) then effort_finish k (Inl lock_error) p
          else if \<not> owns_effort e p then effort_finish k (Inr JUndef) p
          else if \<not> same_choice latest (ew_session e) then effort_finish k (Inl moved_on) p
          else set_effort k EffortPatching (p\<lparr>rz_patches := rz_patches p @
                 [\<lparr>pt_session = ses_id (ew_session e), pt_revision = ses_revision latest, pt_reasoning = changed_reasoning e latest\<rparr>]\<rparr>))"

definition may_do :: "effort_phase \<Rightarrow> nat \<Rightarrow> effort_panel \<Rightarrow> bool" where
  "may_do ph k p \<longleftrightarrow> k < length (rz_ops p) \<and> ew_phase (rz_ops p ! k) = ph"

text \<open>The panel and the rest of the workspace share the queue: any step of the queue may come between, a lock included, but nobody
  else begins or ends the panel's writes.\<close>

definition leaves_effort :: "effort_panel \<Rightarrow> writes \<Rightarrow> bool" where
  "leaves_effort p w \<longleftrightarrow> (\<forall>e \<in> set (rz_ops p). wo_phase (ws_ops w ! ew_write e) = wo_phase (ws_ops (rz_writes p) ! ew_write e))"

inductive effort_step :: "effort_panel \<Rightarrow> effort_panel \<Rightarrow> bool" where
  effort_rendered: "effort_step p (render_effort s p)"
| effort_unmounted: "effort_step p (unmount_effort p)"
| effort_configured: "effort_step p (configured n c p)"
| effort_slid: "effort_step p (slide_effort i v p)"
| effort_chosen: "effort_step p (commit_effort d o' p)"
| effort_started: "may_do EffortWaiting k p \<Longrightarrow> may_start (rz_writes p) (ew_write (rz_ops p ! k)) \<Longrightarrow> effort_step p (effort_start k p)"
| effort_answered: "may_do EffortReading k p \<Longrightarrow> effort_step p (effort_latest k l p)"
| effort_patched: "may_do EffortPatching k p \<Longrightarrow> effort_step p (effort_finish k r p)"
| effort_others: "writes_step (rz_writes p) w \<Longrightarrow> leaves_effort p w \<Longrightarrow> effort_step p (p\<lparr>rz_writes := w\<rparr>)"

inductive effort_reachable :: "effort_panel \<Rightarrow> bool" where
  effort_opened: "writes_reachable w \<Longrightarrow> effort_reachable (open_effort s w)"
| effort_stepped: "effort_reachable p \<Longrightarrow> effort_step p q \<Longrightarrow> effort_reachable q"

section \<open>What is shown\<close>

datatype effort_action = EffortSlide string nat | EffortCommit string

definition effort_value_label :: "session \<Rightarrow> (string \<times> nat) list \<Rightarrow> effort_option \<Rightarrow> string" where
  "effort_value_label s drafts o' =
     (let values = effort_positions o'; i = shown_index s drafts o';
          selected = (if i < length values \<and> snd (values ! i) \<noteq> [] then snd (values ! i) else ''Default'');
          named = (case find (\<lambda>v. Some (fst v) = eo_current o') (eo_values o') of Some (_, n) \<Rightarrow> n | None \<Rightarrow> None);
          standard = (if truthy_text named then named else eo_current o')
      in if i = 0 \<and> truthy_text standard then ''Default '' @ [CHR 0xB7] @ '' '' @ effort_label (the standard) else effort_label selected)"

definition effort_control :: "bool \<Rightarrow> effort_panel \<Rightarrow> effort_option \<Rightarrow> effort_action view" where
  "effort_control disabled p o' = box ''div''
     [labelled ''label'' (or_text (eo_name o') ''Reasoning effort''), labelled ''output'' (effort_value_label (rz_session p) (rz_drafts p) o'),
      VEl ''input'' [(''disabled'', JBool (disabled \<or> rz_loading p \<or> rz_saving p)), attr_text ''aria-valuetext'' (effort_value_label (rz_session p) (rz_drafts p) o')]
        (map (\<lambda>i. (''onChange'', EffortSlide (eo_id o') i)) [0..<length (effort_positions o')] @ [(''onPointerUp'', EffortCommit (eo_id o'))]) [],
      box ''div'' (map (\<lambda>v. labelled ''span'' (effort_label (if snd v \<noteq> [] then snd v else fst v))) (effort_positions o'))]"

definition effort_view :: "bool \<Rightarrow> effort_panel \<Rightarrow> effort_action view" where
  "effort_view disabled p =
     (let s = rz_session p; cfg = effort_shown p;
          trouble = (case cfg of None \<Rightarrow> False | Some c \<Rightarrow> ef_stale c \<or> truthy_text (ef_error c)) in
      if effort_unavailable s cfg
      then box ''div''
        [labelled ''strong'' (if rz_loading p then ''Checking effort options'' @ [CHR 0x85] else if trouble then ''Effort temporarily unavailable'' else ''Engine default effort''),
         labelled ''p'' (if trouble then ''Refresh this engine in Models & engines to change effort. Your current choice is preserved.''
           else ''This engine chooses its own reasoning level.'')]
      else box ''section'' (map (effort_control disabled p) (offered_options s cfg)
        @ [labelled ''p'' ''More effort gives the model more time to reason. Applies to the next turn.'']))"

section \<open>The panel's writes and the queue\<close>

fun phase_fits :: "effort_phase \<Rightarrow> write_phase \<Rightarrow> bool" where
  "phase_fits EffortWaiting ph = (ph = Queued)"
| "phase_fits EffortReading ph = (ph = Writing)"
| "phase_fits EffortPatching ph = (ph = Writing)"
| "phase_fits EffortDone ph = (\<exists>r. ph = Settled r)"

definition op_fits :: "writes \<Rightarrow> effort_write \<Rightarrow> bool" where
  "op_fits w e \<longleftrightarrow> ew_write e < length (ws_ops w) \<and> ew_intent e < length (ws_intents w)
     \<and> wo_session (ws_ops w ! ew_write e) = ses_id (ew_session e) \<and> wo_intent (ws_ops w ! ew_write e) = ew_intent e
     \<and> phase_fits (ew_phase e) (wo_phase (ws_ops w ! ew_write e))"

definition effort_inv :: "writes \<Rightarrow> effort_write list \<Rightarrow> bool" where
  "effort_inv w es \<longleftrightarrow> writes_reachable w \<and> (\<forall>e \<in> set es. op_fits w e) \<and> distinct (map ew_write es)"

lemma step_keeps_names:
  assumes "writes_step s t" "n < length (ws_ops s)"
  shows "n < length (ws_ops t) \<and> wo_session (ws_ops t ! n) = wo_session (ws_ops s ! n) \<and> wo_intent (ws_ops t ! n) = wo_intent (ws_ops s ! n)
    \<and> length (ws_intents s) \<le> length (ws_intents t)"
  using assms
  by (auto elim!: writes_step.cases simp: writes_defs may_start_def nth_append nth_list_update Let_def split: if_splits option.splits sum.splits prod.splits)

lemma op_fits_step:
  assumes "op_fits w e" "writes_step w w'" "wo_phase (ws_ops w' ! ew_write e) = wo_phase (ws_ops w ! ew_write e)"
  shows "op_fits w' e"
  using assms(1,3) step_keeps_names [OF assms(2), of "ew_write e"] by (auto simp: op_fits_def)

lemma effort_inv_step:
  assumes "effort_inv w es" "writes_step w w'" "\<forall>e \<in> set es. wo_phase (ws_ops w' ! ew_write e) = wo_phase (ws_ops w ! ew_write e)"
  shows "effort_inv w' es"
  using assms op_fits_step reachable_step by (auto simp: effort_inv_def)

definition set_op :: "nat \<Rightarrow> effort_phase \<Rightarrow> effort_write list \<Rightarrow> effort_write list" where
  "set_op k ph es = es[k := (es ! k)\<lparr>ew_phase := ph\<rparr>]"

lemma set_op_twice [simp]: "k < length es \<Longrightarrow> set_op k b (set_op k a es) = set_op k b es"
  and set_op_nth [simp]: "k < length es \<Longrightarrow> set_op k a es ! k = (es ! k)\<lparr>ew_phase := a\<rparr>"
  and set_op_length [simp]: "length (set_op k a es) = length es"
  by (simp_all add: set_op_def)

lemma effort_inv_set_op:
  assumes "writes_reachable w" "distinct (map ew_write es)" "k < length es"
    and "op_fits w ((es ! k)\<lparr>ew_phase := ph\<rparr>)" "\<And>j. j < length es \<Longrightarrow> j \<noteq> k \<Longrightarrow> op_fits w (es ! j)"
  shows "effort_inv w (set_op k ph es)"
proof -
  have "map ew_write (set_op k ph es) = map ew_write es" using assms(3) by (simp add: set_op_def map_update list_update_same_conv)
  moreover have "op_fits w (set_op k ph es ! j)" if "j < length es" for j
    using assms(4,5) that by (cases "j = k") (simp_all add: set_op_def)
  ultimately show ?thesis using assms(1,2) by (simp add: effort_inv_def all_set_conv_all_nth)
qed

lemma effort_inv_own:
  assumes "effort_inv w es" "writes_step w w'" "k < length es"
    and "\<And>n. n \<noteq> ew_write (es ! k) \<Longrightarrow> wo_phase (ws_ops w' ! n) = wo_phase (ws_ops w ! n)"
    and "phase_fits ph (wo_phase (ws_ops w' ! ew_write (es ! k)))"
  shows "effort_inv w' (set_op k ph es)"
proof (rule effort_inv_set_op [OF _ _ assms(3)])
  show "writes_reachable w'" "distinct (map ew_write es)" using assms(1,2) reachable_step by (auto simp: effort_inv_def)
  have "op_fits w (es ! k)" using assms(1,3) by (simp add: effort_inv_def)
  then show "op_fits w' ((es ! k)\<lparr>ew_phase := ph\<rparr>)"
    using assms(5) step_keeps_names [OF assms(2), of "ew_write (es ! k)"] by (auto simp: op_fits_def)
next
  fix j assume j: "j < length es" "j \<noteq> k"
  then have "ew_write (es ! j) \<noteq> ew_write (es ! k)" using assms(1,3) by (simp add: effort_inv_def distinct_conv_nth)
  then show "op_fits w' (es ! j)" using op_fits_step [OF _ assms(2)] assms(1,4) j(1) by (simp add: effort_inv_def)
qed

lemma quiet_phases:
  "wo_phase (ws_ops (clean_write n w) ! m) = wo_phase (ws_ops w ! m)"
  "wo_phase (ws_ops (release_intent i w) ! m) = wo_phase (ws_ops w ! m)"
  "wo_phase (ws_ops (intent_signal i w) ! m) = wo_phase (ws_ops w ! m)"
  "length (ws_ops (clean_write n w)) = length (ws_ops w)"
  by (auto simp: clean_write_def release_intent_def intent_signal_def Let_def split: option.split)

lemma phases_elsewhere:
  "m \<noteq> n \<Longrightarrow> wo_phase (ws_ops (start_write n w) ! m) = wo_phase (ws_ops w ! m)"
  "m \<noteq> n \<Longrightarrow> wo_phase (ws_ops (finish_write n r w) ! m) = wo_phase (ws_ops w ! m)"
  by (auto simp: start_write_def finish_write_def set_phase_def split: sum.split)

lemma settled_fields:
  "rz_writes (effort_settled k p) = release_intent (ew_intent (rz_ops p ! k)) (clean_write (ew_write (rz_ops p ! k)) (rz_writes p))"
  "rz_ops (effort_settled k p) = set_op k EffortDone (rz_ops p)"
  "rz_patches (effort_settled k p) = rz_patches p"
  by (auto simp: effort_settled_def set_effort_def set_op_def Let_def split: write_phase.split sum.split)

lemma effort_inv_settled:
  assumes "effort_inv (rz_writes p) (set_op k EffortDone (rz_ops p))" "k < length (rz_ops p)"
  shows "effort_inv (rz_writes (effort_settled k p)) (rz_ops (effort_settled k p))"
proof -
  let ?e = "rz_ops p ! k" and ?es = "set_op k EffortDone (rz_ops p)"
  have fits: "op_fits (rz_writes p) (?e\<lparr>ew_phase := EffortDone\<rparr>)"
    using assms by (auto simp: effort_inv_def set_op_def set_update_memI)
  then have "writes_step (rz_writes p) (clean_write (ew_write ?e) (rz_writes p))"
    by (intro writes_step.clean) (auto simp: op_fits_def is_settled_def)
  then have cleaned: "effort_inv (clean_write (ew_write ?e) (rz_writes p)) ?es"
    by (rule effort_inv_step [OF assms(1)]) (simp add: quiet_phases)
  then have "op_fits (clean_write (ew_write ?e) (rz_writes p)) (?e\<lparr>ew_phase := EffortDone\<rparr>)"
    using assms(2) by (auto simp: effort_inv_def set_op_def set_update_memI)
  then have "writes_step (clean_write (ew_write ?e) (rz_writes p)) (release_intent (ew_intent ?e) (clean_write (ew_write ?e) (rz_writes p)))"
    by (intro writes_step.release) (simp add: op_fits_def)
  then have "effort_inv (release_intent (ew_intent ?e) (clean_write (ew_write ?e) (rz_writes p))) ?es"
    by (rule effort_inv_step [OF cleaned]) (simp add: quiet_phases)
  then show ?thesis by (simp add: settled_fields)
qed

lemma effort_inv_finish:
  assumes "effort_inv (rz_writes p) (rz_ops p)" "k < length (rz_ops p)" "ew_phase (rz_ops p ! k) \<in> {EffortReading, EffortPatching}"
  shows "effort_inv (rz_writes (effort_finish k r p)) (rz_ops (effort_finish k r p))"
proof -
  let ?n = "ew_write (rz_ops p ! k)"
  have fits: "op_fits (rz_writes p) (rz_ops p ! k)" using assms(1,2) by (simp add: effort_inv_def)
  then have writing: "?n < length (ws_ops (rz_writes p))" "wo_phase (ws_ops (rz_writes p) ! ?n) = Writing"
    using assms(3) by (auto simp: op_fits_def)
  then have "phase_fits EffortDone (wo_phase (ws_ops (finish_write ?n r (rz_writes p)) ! ?n))"
    by (auto simp: finish_write_def set_phase_def split: sum.split)
  from effort_inv_own [OF assms(1) writes_step.finish [OF writing] assms(2) _ this]
  have "effort_inv (finish_write ?n r (rz_writes p)) (set_op k EffortDone (rz_ops p))" by (simp add: phases_elsewhere)
  from effort_inv_settled [of "p\<lparr>rz_writes := finish_write ?n r (rz_writes p)\<rparr>" k] this assms(2)
  show ?thesis by (simp add: effort_finish_def)
qed

lemma effort_inv_start:
  assumes inv: "effort_inv (rz_writes p) (rz_ops p)" and may: "may_do EffortWaiting k p"
    and start: "may_start (rz_writes p) (ew_write (rz_ops p ! k))"
  shows "effort_inv (rz_writes (effort_start k p)) (rz_ops (effort_start k p))"
proof -
  let ?e = "rz_ops p ! k" and ?w = "rz_writes p"
  let ?w' = "start_write (ew_write ?e) ?w" and ?q = "p\<lparr>rz_writes := start_write (ew_write ?e) ?w\<rparr>"
  have k: "k < length (rz_ops p)" using may by (simp add: may_do_def)
  have fits: "op_fits ?w ?e" using inv k by (simp add: effort_inv_def)
  then have phase: "wo_phase (ws_ops ?w' ! ew_write ?e) = (if is_current ?w (ew_intent ?e) then Writing else Settled (Inl lock_error))"
    by (simp add: op_fits_def start_write_def set_phase_def)
  have own: "effort_inv ?w' (set_op k ph (rz_ops p))" if "phase_fits ph (wo_phase (ws_ops ?w' ! ew_write ?e))" for ph
    by (rule effort_inv_own [OF inv writes_step.start [OF start] k _ that]) (simp add: phases_elsewhere)
  show ?thesis
  proof (cases "is_current ?w (ew_intent ?e)")
    case False
    with own [of EffortDone] phase effort_inv_settled [of ?q k] k show ?thesis by (simp add: effort_start_def Let_def)
  next
    case True
    with own [of EffortReading] phase have reading: "effort_inv ?w' (set_op k EffortReading (rz_ops p))" by simp
    show ?thesis
    proof (cases "owns_effort ?e p")
      case owner: False
      then show ?thesis
        using effort_inv_finish [of "?q\<lparr>rz_ops := set_op k EffortReading (rz_ops p)\<rparr>" k "Inr JUndef"] reading k True
        by (simp add: effort_start_def Let_def effort_finish_def settled_fields)
    next
      case owner: True
      have "op_fits ?w' (?e\<lparr>ew_phase := EffortReading\<rparr>)" using reading k by (auto simp: effort_inv_def set_op_def set_update_memI)
      then have "writes_step ?w' (intent_signal (ew_intent ?e) ?w')" by (intro writes_step.signal) (simp add: op_fits_def)
      from effort_inv_step [OF reading this] show ?thesis
        using True owner by (simp add: effort_start_def Let_def set_effort_def set_op_def quiet_phases)
    qed
  qed
qed

lemma effort_inv_latest:
  assumes "effort_inv (rz_writes p) (rz_ops p)" "may_do EffortReading k p"
  shows "effort_inv (rz_writes (effort_latest k r p)) (rz_ops (effort_latest k r p))"
proof -
  have k: "k < length (rz_ops p)" "ew_phase (rz_ops p ! k) = EffortReading" using assms(2) by (simp_all add: may_do_def)
  have fin: "effort_inv (rz_writes (effort_finish k x p)) (rz_ops (effort_finish k x p))" for x
    by (rule effort_inv_finish [OF assms(1) k(1)]) (simp add: k)
  have "effort_inv (rz_writes p) (set_op k EffortPatching (rz_ops p))"
    by (rule effort_inv_set_op) (use assms(1) k in \<open>auto simp: effort_inv_def op_fits_def all_set_conv_all_nth\<close>)
  then show ?thesis using fin by (auto simp: effort_latest_def set_effort_def set_op_def Let_def split: sum.split)
qed

lemma effort_inv_choose:
  assumes "effort_inv (rz_writes p) (rz_ops p)"
  shows "effort_inv (rz_writes (choose_effort d o' i p)) (rz_ops (choose_effort d o' i p))"
proof (cases "choose_effort d o' i p = p")
  case False
  let ?w = "snd (capture_session_write (rz_writes p))" and ?n = "length (ws_ops (rz_writes p))" and ?i = "length (ws_intents (rz_writes p))"
  let ?w' = "snd (serialize_session_write (ses_id (rz_session p)) (Some ?i) ?w)"
  define e where "e = \<lparr>ew_session = rz_session p, ew_option = eo_id o', ew_value = fst (effort_positions o' ! i), ew_generation = rz_generation p,
                ew_operation = Suc (rz_operation p), ew_intent = ?i, ew_write = ?n, ew_phase = EffortWaiting\<rparr>"
  have new: "rz_writes (choose_effort d o' i p) = ?w'" "rz_ops (choose_effort d o' i p) = rz_ops p @ [e]"
    using False by (auto simp: choose_effort_def Let_def writes_defs e_def split: if_splits)
  have fits: "\<forall>x \<in> set (rz_ops p). op_fits (rz_writes p) x" using assms by (simp add: effort_inv_def)
  have captured: "effort_inv ?w (rz_ops p)"
    by (rule effort_inv_step [OF assms writes_step.capture]) (simp add: capture_session_write_def)
  have "writes_step ?w ?w'" by (rule writes_step.serialize) (simp add: capture_session_write_def)
  moreover have "\<forall>x \<in> set (rz_ops p). wo_phase (ws_ops ?w' ! ew_write x) = wo_phase (ws_ops ?w ! ew_write x)"
    using fits by (auto simp: writes_defs Let_def nth_append op_fits_def)
  ultimately have "effort_inv ?w' (rz_ops p)" by (rule effort_inv_step [OF captured])
  moreover have "op_fits ?w' e" by (simp add: op_fits_def e_def writes_defs Let_def)
  moreover have "?n \<notin> ew_write ` set (rz_ops p)" using fits by (auto simp: op_fits_def)
  ultimately show ?thesis by (simp add: new effort_inv_def e_def)
qed (use assms in simp)

lemma effort_fields:
  "rz_writes (effort_effect p) = rz_writes p" "rz_ops (effort_effect p) = rz_ops p"
  "rz_writes (render_effort s p) = rz_writes p" "rz_ops (render_effort s p) = rz_ops p"
  "rz_writes (configured n c p) = rz_writes p" "rz_ops (configured n c p) = rz_ops p"
  by (simp_all add: effort_effect_def render_effort_def configured_def Let_def split: sum.split)

lemma effort_reachable_inv: "effort_reachable p \<Longrightarrow> effort_inv (rz_writes p) (rz_ops p)"
proof (induction rule: effort_reachable.induct)
  case (effort_opened w s)
  then show ?case by (simp add: open_effort_def effort_fields effort_inv_def)
next
  case (effort_stepped p q)
  from \<open>effort_step p q\<close> show ?case
  proof cases
    case (effort_others w)
    then show ?thesis using effort_inv_step [OF effort_stepped.IH, of w] by (simp add: leaves_effort_def)
  next
    case (effort_patched k r)
    then show ?thesis using effort_inv_finish [OF effort_stepped.IH, of k r] by (simp add: may_do_def)
  next
    case (effort_chosen d o')
    then show ?thesis using effort_inv_choose [OF effort_stepped.IH] by (simp add: commit_effort_def)
  qed (use effort_stepped.IH in \<open>simp_all add: effort_inv_start effort_inv_latest effort_fields unmount_effort_def slide_effort_def Let_def\<close>)
qed

text \<open>C8. From reading the conversation's revision until the answer to the change, no other write of the conversation runs for this
  account, whatever panel asked for it: the revision sent is the one of now.\<close>

theorem effort_write_alone:
  assumes "effort_reachable p" "e \<in> set (rz_ops p)" "ew_phase e \<in> {EffortReading, EffortPatching}"
    and "is_current (rz_writes p) (ew_intent e)" "writing_now (rz_writes p) m" "session_of (rz_writes p) m = ses_id (ew_session e)"
  shows "m = ew_write e"
proof -
  let ?w = "rz_writes p"
  have inv: "effort_inv ?w (rz_ops p)" by (rule effort_reachable_inv [OF assms(1)])
  then have fits: "op_fits ?w e" and queue: "queue_inv ?w" using assms(2) writes_reachable_inv by (auto simp: effort_inv_def)
  from fits have n: "ew_write e < length (ws_ops ?w)" "is_current ?w (wo_intent (ws_ops ?w ! ew_write e))"
    using assms(4) by (simp_all add: op_fits_def)
  have "writing_now ?w (ew_write e)"
    using current_queued [OF queue n] n(1) fits assms(3) by (auto simp: writing_now_def op_fits_def)
  moreover have "session_of ?w (ew_write e) = session_of ?w m" using fits assms(6) by (simp add: op_fits_def session_of_def)
  ultimately show ?thesis using writing_unique [OF queue] assms(5) by (auto dest: inj_onD)
qed

text \<open>A change is sent only for the account and the choice that asked for it, when the conversation still runs the model shown; it carries
  the revision just read and changes nothing but the one option.\<close>

theorem effort_patch_guarded:
  assumes "rz_patches (effort_latest k r p) \<noteq> rz_patches p"
  shows "\<exists>latest t. r = Inr latest \<and> rz_patches (effort_latest k r p) = rz_patches p @ [t]
    \<and> is_current (rz_writes p) (ew_intent (rz_ops p ! k)) \<and> owns_effort (rz_ops p ! k) p \<and> same_choice latest (ew_session (rz_ops p ! k))
    \<and> pt_session t = ses_id (ew_session (rz_ops p ! k)) \<and> pt_revision t = ses_revision latest
    \<and> map_of (pt_reasoning t) = (map_of (ses_reasoning latest))(ew_option (rz_ops p ! k) :=
        (if ew_value (rz_ops p ! k) = [] then None else Some (ew_value (rz_ops p ! k))))"
proof -
  have "rz_patches (effort_finish k x p) = rz_patches p" for x by (simp add: effort_finish_def settled_fields)
  moreover have "map_of (changed_reasoning e l) = (map_of (ses_reasoning l))(ew_option e := (if ew_value e = [] then None else Some (ew_value e)))" for e l
    by (simp add: changed_reasoning_def update_conv' delete_conv')
  ultimately show ?thesis
    using assms by (auto simp: effort_latest_def set_effort_def Let_def split: sum.splits if_splits)
qed

section \<open>A choice of effort\<close>

definition effort_session :: session where
  "effort_session = \<lparr>ses_id = ''s'', ses_title = ''t'', ses_project_id = None, ses_cwd = None, ses_engine = ''codex'', ses_provider_id = None,
     ses_model = None, ses_mode = ''agent'', ses_draft_text = [], ses_draft_context = None, ses_revision = 7, ses_turns = None, ses_scroll = 0,
     ses_has_earlier = False, ses_runner_id = None, ses_worktree_id = None, ses_reasoning = []\<rparr>"

definition level_option :: effort_option where
  "level_option = \<lparr>eo_id = ''effort'', eo_name = None, eo_category = Some ''effort'', eo_kind = Some ''select'', eo_current = None,
     eo_values = [(''low'', None), (''high'', None)]\<rparr>"

definition level_catalogue :: effort_configuration where
  "level_catalogue = \<lparr>ef_options = [level_option], ef_models = [], ef_stale = False, ef_error = None\<rparr>"

definition chosen_effort :: effort_panel where
  "chosen_effort = commit_effort False level_option (slide_effort ''effort'' 2 (configured 0 (Inr level_catalogue) (open_effort effort_session no_writes)))"

definition reading_effort :: effort_panel where
  "reading_effort = effort_start 0 chosen_effort"

definition patching_effort :: effort_panel where
  "patching_effort = effort_latest 0 (Inr effort_session) reading_effort"

lemma chosen_facts:
  "may_do EffortWaiting 0 chosen_effort" "may_start (rz_writes chosen_effort) (ew_write (rz_ops chosen_effort ! 0))"
  by (simp_all add: chosen_effort_def commit_effort_def choose_effort_def slide_effort_def configured_def open_effort_def effort_effect_def
      effort_session_def level_option_def level_catalogue_def effort_positions_def effort_unavailable_def offered_options_def effort_shown_def
      selection_of_def stored_effort_def writes_defs no_writes_def Let_def may_do_def may_start_def or_text_def truthy_text_def)

lemma reading_facts:
  "may_do EffortReading 0 reading_effort" "rz_patches (effort_latest 0 (Inr effort_session) reading_effort) \<noteq> rz_patches reading_effort"
  "rz_ops patching_effort \<noteq> []" "ew_phase (hd (rz_ops patching_effort)) = EffortPatching"
  "is_current (rz_writes patching_effort) (ew_intent (hd (rz_ops patching_effort)))" "writing_now (rz_writes patching_effort) 0"
  "session_of (rz_writes patching_effort) 0 = ses_id (ew_session (hd (rz_ops patching_effort)))"
  by (simp_all add: patching_effort_def reading_effort_def effort_start_def effort_latest_def owns_effort_def same_choice_def set_effort_def
      is_current_def writing_now_def session_of_def chosen_effort_def commit_effort_def choose_effort_def slide_effort_def configured_def
      open_effort_def effort_effect_def effort_session_def level_option_def level_catalogue_def effort_positions_def effort_unavailable_def
      offered_options_def effort_shown_def selection_of_def stored_effort_def writes_defs no_writes_def Let_def may_do_def may_start_def
      or_text_def truthy_text_def)

lemma patching_reachable: "effort_reachable patching_effort"
proof -
  have "effort_reachable chosen_effort"
    unfolding chosen_effort_def by (intro effort_stepped [OF _ effort_chosen] effort_stepped [OF _ effort_slid]
      effort_stepped [OF _ effort_configured] effort_opened) simp
  then have "effort_reachable reading_effort"
    unfolding reading_effort_def using effort_stepped effort_started [OF chosen_facts] by blast
  then show ?thesis unfolding patching_effort_def using effort_stepped effort_answered [OF reading_facts(1)] by blast
qed

theorem effort_write_alone_witness:
  "ew_write (hd (rz_ops patching_effort)) = 0"
  using effort_write_alone [OF patching_reachable, of "hd (rz_ops patching_effort)" 0] reading_facts(3-7) by simp

theorem effort_patch_guarded_witness:
  "\<exists>t. rz_patches patching_effort = rz_patches reading_effort @ [t] \<and> pt_revision t = 7"
proof -
  have "ses_revision effort_session = 7" by (simp add: effort_session_def)
  with effort_patch_guarded [OF reading_facts(2)] show ?thesis by (auto simp: patching_effort_def)
qed

end
