(* ===== verification/Schedules.thy ===== *)
theory Schedules
  imports BrowserGrant ApiTypes
begin

text \<open>
  \<open>features/ScheduleManager.tsx\<close>: the scheduled tasks of a project. One operation runs at a time in a scope; another project
  starts a new epoch, and what an older epoch answers is dropped. A creation is sent under a request id that is kept
  until that very creation succeeded. \<open>Number\<close>, \<open>JSON.stringify\<close> and the texts and times of \<open>Date\<close> are arguments.
\<close>

section \<open>The catalogue\<close>

record sched_spec =
  ss_kind :: string
  ss_seconds :: "rat option"
  ss_time :: "string option"
  ss_zone :: "string option"
  ss_cron :: "string option"
  ss_at :: "rat option"

record schedule =
  sc_id :: string
  sc_revision :: int
  sc_goal :: string
  sc_grant :: string
  sc_prompt :: string
  sc_spec :: sched_spec
  sc_enabled :: bool
  sc_archived :: bool
  sc_state :: string
  sc_runbook :: "string option"
  sc_reason :: "string option"
  sc_next :: "rat option"
  sc_missed :: string
  sc_overlap :: string

record sched_run =
  sr_id :: string
  sr_schedule :: string
  sr_task :: "string option"
  sr_status :: string
  sr_task_status :: "string option"
  sr_reason :: "string option"
  sr_due :: rat
  sr_manual :: bool
  sr_runbook :: "string option"
  sr_outputs :: "string list"

record sched_goal =
  sg_id :: string
  sg_conversation :: string
  sg_criteria :: string
  sg_started :: int
  sg_max :: int

record delegation =
  dl_id :: string
  dl_expires :: rat
  dl_revoked :: bool
  dl_permission :: "browser_permission option"
  dl_runbook :: "(string \<times> (string \<times> bool) list) option"

record sched_catalog =
  ct_schedules :: "schedule list"
  ct_runs :: "sched_run list"
  ct_goals :: "sched_goal list"
  ct_grants :: "delegation list"

definition empty_catalog :: sched_catalog where
  "empty_catalog = \<lparr>ct_schedules = [], ct_runs = [], ct_goals = [], ct_grants = []\<rparr>"

record sched_port =
  so_grant :: grant_port
  so_at :: "string \<Rightarrow> jsnum"
  so_date :: "rat option \<Rightarrow> string"
  so_local :: "rat \<Rightarrow> string"
  so_show :: "rat \<Rightarrow> string"
  so_json :: "jsval \<Rightarrow> string"

definition describe_spec :: "sched_port \<Rightarrow> sched_spec \<Rightarrow> string" where
  "describe_spec port s =
     (if ss_kind s = ''cron'' then or_text (ss_cron s) ''undefined'' @ [CHR '' '', CHR 0xB7, CHR '' ''] @ or_text (ss_zone s) ''undefined''
      else if ss_kind s = ''daily'' then ''Daily at '' @ or_text (ss_time s) ''undefined'' @ [CHR '' '', CHR 0xB7, CHR '' ''] @ or_text (ss_zone s) ''undefined''
      else if ss_kind s = ''once'' then ''Once '' @ [CHR 0xB7, CHR '' ''] @ so_date port (ss_at s)
      else ''Every '' @ so_show port ((case ss_seconds s of Some n \<Rightarrow> n | None \<Rightarrow> 0) / 60) @ '' minutes'')"

section \<open>The form\<close>

datatype sched_editing = EditingNone | EditingNew | EditingRow schedule

record sched_form =
  sf_task :: string
  sf_command :: string
  sf_conversation :: string
  sf_prompt :: string
  sf_criteria :: string
  sf_kind :: string
  sf_time :: string
  sf_zone :: string
  sf_cron :: string
  sf_minutes :: string
  sf_at :: string
  sf_missed :: string
  sf_overlap :: string
  sf_runs :: string
  sf_days :: string
  sf_seconds :: string
  sf_consent :: bool

definition fresh_form :: "string option \<Rightarrow> string \<Rightarrow> sched_form" where
  "fresh_form session zone = \<lparr>sf_task = ''agent'', sf_command = [], sf_conversation = or_text session [], sf_prompt = [], sf_criteria = [], sf_kind = ''daily'',
     sf_time = ''09:00'', sf_zone = zone, sf_cron = ''0 9 * * 1-5'', sf_minutes = ''60'', sf_at = [], sf_missed = ''skip'', sf_overlap = ''skip'',
     sf_runs = ''10'', sf_days = ''7'', sf_seconds = ''3600'', sf_consent = False\<rparr>"

definition form_number :: "sched_port \<Rightarrow> string \<Rightarrow> jsnum" where
  "form_number port t = gp_number (so_grant port) t"

definition form_spec :: "sched_port \<Rightarrow> sched_form \<Rightarrow> jsval" where
  "form_spec port f =
     (if sf_kind f = ''interval'' then JObj [(''kind'', JStr (sf_kind f)), (''seconds'', JNum (num_times (form_number port (sf_minutes f)) 60))]
      else if sf_kind f = ''cron'' then JObj [(''kind'', JStr (sf_kind f)), (''expression'', JStr (sf_cron f)), (''timezone'', JStr (sf_zone f))]
      else if sf_kind f = ''once'' then JObj [(''kind'', JStr (sf_kind f)), (''at'', JNum (so_at port (sf_at f)))]
      else JObj [(''kind'', JStr (sf_kind f)), (''time'', JStr (sf_time f)), (''timezone'', JStr (sf_zone f))])"

definition permission_value :: "browser_permission \<Rightarrow> jsval" where
  "permission_value p = JObj [(''tabs'', JArr (map (\<lambda>b. JObj [(''tab_id'', JStr (bs_tab b)), (''origins'', JArr (map JStr (bs_origins b))),
     (''actions'', JArr (map JStr (bs_actions b)))]) (bw_tabs p))), (''expires_at'', JNum (bw_expires p)), (''max_seconds'', JNum (bw_seconds p))]"

text \<open>What a creation asks for; a permission goes along only with an agent task.\<close>

definition creation_body :: "sched_port \<Rightarrow> browser_draft \<Rightarrow> sched_form \<Rightarrow> jsobj" where
  "creation_body port d f =
     (if sf_task f = ''command'' then [(''command'', JStr (sf_command f))] else [])
     @ (if sf_task f = ''agent'' \<and> bd_enabled d then [(''browser_permission'', case bd_permission d of Some p \<Rightarrow> permission_value p | None \<Rightarrow> JNull)] else [])
     @ [(''conversation_id'', JStr (sf_conversation f)), (''success_criteria'', JStr (sf_criteria f)), (''max_runs'', JNum (form_number port (sf_runs f))),
        (''limits'', JObj [(''max_steps'', js_int 128), (''max_seconds'', JNum (form_number port (sf_seconds f))), (''shell_timeout_s'', js_int 120),
           (''max_parallel_subagents'', js_int 3), (''max_subagents_total'', js_int 8)]),
        (''prompt'', JStr (sf_prompt f)), (''spec'', form_spec port f), (''grant_days'', JNum (form_number port (sf_days f))),
        (''missed'', JStr (sf_missed f)), (''overlap'', JStr (sf_overlap f))]"

section \<open>Operations under way\<close>

text \<open>What a submission closed over.\<close>

record save_job =
  sj_target :: "(string \<times> int) option"
  sj_spec :: jsval
  sj_refused :: bool
  sj_body :: jsobj

datatype sched_job =
    RefreshJob | RunJob string int | ToggleJob string int bool | ArchiveJob string int | RevokeJob string | ConfirmJob string | StopJob string
  | PreviewJob jsval | SaveJob save_job

datatype sched_phase = SchedAsked | SchedSaving "(string \<times> string) option" | SchedLoading | SchedDone

record sched_op =
  so_generation :: nat
  so_job :: sched_job
  so_phase :: sched_phase

record sched_loop =
  lp_generation :: nat
  lp_stopped :: bool
  lp_pending :: bool

record sched_creation =
  cr_epoch :: nat
  cr_key :: string
  cr_payload :: string
  cr_body :: jsobj
  cr_succeeded :: bool

record sched_manager =
  sm_alive :: bool
  sm_project :: "string option"
  sm_session :: "string option"
  sm_search :: string
  sm_version :: nat
  sm_active :: bool
  sm_data :: sched_catalog
  sm_sessions :: "session list"
  sm_error :: string
  sm_notice :: string
  sm_loading :: bool
  sm_busy :: bool
  sm_editing :: sched_editing
  sm_selected :: string
  sm_form :: sched_form
  sm_draft :: browser_draft
  sm_part :: "grant_form option"
  sm_preview :: "rat list"
  sm_archived :: bool
  sm_epoch :: nat
  sm_flight :: "nat option"
  sm_intent :: "string \<times> string"
  sm_ops :: "sched_op list"
  sm_loops :: "sched_loop list"
  sm_reads :: "(nat \<times> bool) list"
  sm_creations :: "sched_creation list"

definition no_draft :: browser_draft where
  "no_draft = \<lparr>bd_enabled = False, bd_permission = None\<rparr>"

definition browser_eligible :: "sched_manager \<Rightarrow> bool" where
  "browser_eligible s \<longleftrightarrow>
     (case find (\<lambda>x. ses_id x = sf_conversation (sm_form s)) (sm_sessions s) of
        Some x \<Rightarrow> ses_engine x = ''internal'' \<and> ses_mode x = ''agent'' \<and> \<not> truthy_text (ses_runner_id x) | None \<Rightarrow> False)"

text \<open>The permission form is shown for a new agent task in an eligible conversation.\<close>

definition part_shown :: "sched_manager \<Rightarrow> bool" where
  "part_shown s \<longleftrightarrow> sm_editing s = EditingNew \<and> sf_task (sm_form s) = ''agent'' \<and> sf_conversation (sm_form s) \<noteq> [] \<and> browser_eligible s"

section \<open>Rendering\<close>

definition spec_fields :: "sched_form \<Rightarrow> string list" where
  "spec_fields f = [sf_kind f, sf_time f, sf_zone f, sf_cron f, sf_minutes f, sf_at f]"

definition sched_draft_deps :: "sched_manager \<Rightarrow> string \<times> string \<times> sched_editing" where
  "sched_draft_deps s = (sf_conversation (sm_form s), sf_task (sm_form s), sm_editing s)"

text \<open>After an event: the permission form is mounted, left, or told its props, and reports its draft; then the manager resets the draft when the
  conversation, the kind of task or the row changed, and the preview when the times changed.\<close>

definition settle_schedules :: "sched_port \<Rightarrow> int \<Rightarrow> sched_manager \<Rightarrow> sched_manager \<Rightarrow> sched_manager" where
  "settle_schedules port now old s =
     (let days = form_number port (sf_days (sm_form s));
          same = (sf_conversation (sm_form s) = sf_conversation (sm_form old) \<and> sf_task (sm_form s) = sf_task (sm_form old));
          part = (if \<not> part_shown s then None
                  else case (if same then sm_part s else None) of Some g \<Rightarrow> Some (grant_render days (sm_busy s) g) | None \<Rightarrow> Some (open_grant now days (sm_busy s)));
          reported = (case part of Some g \<Rightarrow> grant_draft (so_grant port) g | None \<Rightarrow> sm_draft s)
      in s\<lparr>sm_part := part, sm_draft := (if sched_draft_deps s \<noteq> sched_draft_deps old then no_draft else reported),
           sm_preview := (if spec_fields (sm_form s) \<noteq> spec_fields (sm_form old) then [] else sm_preview s)\<rparr>)"

section \<open>Loading\<close>

definition scope_loaded :: "nat \<Rightarrow> sched_catalog \<times> session list \<Rightarrow> sched_manager \<Rightarrow> sched_manager" where
  "scope_loaded generation v s = (if generation = sm_epoch s then s\<lparr>sm_data := fst v, sm_sessions := snd v, sm_loading := False\<rparr> else s)"

definition poll_schedules :: "nat \<Rightarrow> sched_manager \<Rightarrow> sched_manager" where
  "poll_schedules n s =
     (let l = sm_loops s ! n in
      if lp_pending l \<or> lp_stopped l then s
      else s\<lparr>sm_loops := (sm_loops s)[n := l\<lparr>lp_pending := True\<rparr>], sm_reads := sm_reads s @ [(n, False)]\<rparr>)"

definition stop_loops :: "sched_loop list \<Rightarrow> sched_loop list" where
  "stop_loops = map (\<lambda>l. l\<lparr>lp_stopped := True\<rparr>)"

definition restart_loops :: "sched_manager \<Rightarrow> sched_manager" where
  "restart_loops s =
     (let s' = s\<lparr>sm_loops := stop_loops (sm_loops s)\<rparr> in
      if sm_active s
      then poll_schedules (length (sm_loops s)) (s'\<lparr>sm_loops := sm_loops s' @ [\<lparr>lp_generation = sm_epoch s, lp_stopped = False, lp_pending = False\<rparr>]\<rparr>)
      else s')"

definition poll_answered :: "nat \<Rightarrow> (sched_catalog \<times> session list) js_result \<Rightarrow> sched_manager \<Rightarrow> sched_manager" where
  "poll_answered k r s =
     (let n = fst (sm_reads s ! k); l = sm_loops s ! n;
          s' = s\<lparr>sm_reads := (sm_reads s)[k := (n, True)], sm_loops := (sm_loops s)[n := l\<lparr>lp_pending := False\<rparr>]\<rparr>
      in case r of
           Inr v \<Rightarrow> scope_loaded (lp_generation l) v s'
         | Inl e \<Rightarrow> if lp_stopped l then s' else s'\<lparr>sm_error := error_text e, sm_loading := False\<rparr>)"

text \<open>The scope effect: a new epoch with nothing known, and the operation of the former one no longer blocks.\<close>

definition enter_scope :: "sched_manager \<Rightarrow> sched_manager" where
  "enter_scope s = s\<lparr>sm_epoch := Suc (sm_epoch s), sm_data := empty_catalog, sm_loading := True, sm_busy := False, sm_error := [], sm_notice := [],
     sm_editing := EditingNone, sm_selected := [], sm_preview := [], sm_intent := ([], [])\<rparr>"

definition open_schedules :: "sched_port \<Rightarrow> string \<Rightarrow> string option \<Rightarrow> string option \<Rightarrow> bool \<Rightarrow> sched_manager" where
  "open_schedules port zone project session active = restart_loops (enter_scope
     \<lparr>sm_alive = True, sm_project = project, sm_session = session, sm_search = [], sm_version = 0, sm_active = active, sm_data = empty_catalog, sm_sessions = [],
      sm_error = [], sm_notice = [], sm_loading = True, sm_busy = False, sm_editing = EditingNone, sm_selected = [], sm_form = fresh_form session zone,
      sm_draft = no_draft, sm_part = None, sm_preview = [], sm_archived = False, sm_epoch = 0, sm_flight = None, sm_intent = ([], []), sm_ops = [],
      sm_loops = [], sm_reads = [], sm_creations = []\<rparr>)"

text \<open>Another project: the render itself starts an epoch, then the effect another one.\<close>

definition schedules_render :: "string option \<Rightarrow> string option \<Rightarrow> string \<Rightarrow> nat \<Rightarrow> bool \<Rightarrow> sched_manager \<Rightarrow> sched_manager" where
  "schedules_render project session q version active s =
     (let moved = (project \<noteq> sm_project s);
          s1 = s\<lparr>sm_project := project, sm_session := session, sm_search := q, sm_version := version, sm_active := active\<rparr>;
          s2 = (if moved then enter_scope (s1\<lparr>sm_epoch := Suc (sm_epoch s1), sm_flight := None\<rparr>) else s1)
      in if moved \<or> active \<noteq> sm_active s \<or> version \<noteq> sm_version s then restart_loops s2 else s2)"

definition unmount_schedules :: "sched_manager \<Rightarrow> sched_manager" where
  "unmount_schedules s = s\<lparr>sm_alive := False, sm_epoch := Suc (sm_epoch s), sm_loops := stop_loops (sm_loops s), sm_part := None\<rparr>"

section \<open>One operation at a time\<close>

definition job_message :: "sched_job \<Rightarrow> string" where
  "job_message j =
     (case j of RefreshJob \<Rightarrow> ''Schedules refreshed'' | RunJob _ _ \<Rightarrow> ''Run submitted'' | ToggleJob _ _ _ \<Rightarrow> ''Schedule updated''
      | ArchiveJob _ _ \<Rightarrow> ''Schedule archived; active runs continue'' | RevokeJob _ \<Rightarrow> ''Authority revoked and active runs cancelled''
      | ConfirmJob _ \<Rightarrow> ''Step confirmed'' | StopJob _ \<Rightarrow> ''Run stopped'' | PreviewJob _ \<Rightarrow> ''Preview ready'' | SaveJob _ \<Rightarrow> ''Schedule saved'')"

definition begin_job :: "sched_job \<Rightarrow> sched_manager \<Rightarrow> sched_manager" where
  "begin_job j s =
     (if sm_flight s = Some (sm_epoch s) then s
      else s\<lparr>sm_flight := Some (sm_epoch s), sm_busy := True, sm_error := [], sm_notice := [],
             sm_ops := sm_ops s @ [\<lparr>so_generation = sm_epoch s, so_job = j, so_phase = SchedAsked\<rparr>]\<rparr>)"

definition set_sched_phase :: "nat \<Rightarrow> sched_phase \<Rightarrow> sched_manager \<Rightarrow> sched_manager" where
  "set_sched_phase n ph s = s\<lparr>sm_ops := (sm_ops s)[n := (sm_ops s ! n)\<lparr>so_phase := ph\<rparr>]\<rparr>"

definition is_current_job :: "nat \<Rightarrow> sched_manager \<Rightarrow> bool" where
  "is_current_job n s \<longleftrightarrow> so_generation (sm_ops s ! n) = sm_epoch s"

definition finish_job :: "nat \<Rightarrow> sched_manager \<Rightarrow> sched_manager" where
  "finish_job n s = (let s' = set_sched_phase n SchedDone s in if is_current_job n s then s'\<lparr>sm_flight := None, sm_busy := False\<rparr> else s')"

definition fail_job :: "nat \<Rightarrow> js_error \<Rightarrow> sched_manager \<Rightarrow> sched_manager" where
  "fail_job n e s = finish_job n (if is_current_job n s then s\<lparr>sm_error := error_message e\<rparr> else s)"

definition succeed_job :: "nat \<Rightarrow> sched_manager \<Rightarrow> sched_manager" where
  "succeed_job n s =
     (if is_current_job n s then set_sched_phase n SchedLoading (s\<lparr>sm_notice := job_message (so_job (sm_ops s ! n))\<rparr>) else finish_job n s)"

definition job_loaded :: "nat \<Rightarrow> (sched_catalog \<times> session list) js_result \<Rightarrow> sched_manager \<Rightarrow> sched_manager" where
  "job_loaded n r s =
     (case r of Inl e \<Rightarrow> fail_job n e s | Inr v \<Rightarrow> finish_job n (scope_loaded (so_generation (sm_ops s ! n)) v s))"

datatype sched_reply = CatalogReply sched_catalog "session list" | RunReply string "string option" | TimesReply "rat list" | PlainReply

definition browser_refused :: js_error where
  "browser_refused = JsError ''Review a valid unattended browser permission before creating the schedule''"

text \<open>The save goes on after the host accepted its times: a creation takes the request id kept for the same content, or a new one.\<close>

definition send_save :: "sched_port \<Rightarrow> string \<Rightarrow> nat \<Rightarrow> save_job \<Rightarrow> sched_manager \<Rightarrow> sched_manager" where
  "send_save port uuid n j s =
     (case sj_target j of
        Some _ \<Rightarrow> set_sched_phase n (SchedSaving None) s
      | None \<Rightarrow>
          if sj_refused j then fail_job n browser_refused s
          else (let payload = so_json port (JObj (sj_body j)); intent = (if snd (sm_intent s) = payload then sm_intent s else (uuid, payload)) in
                set_sched_phase n (SchedSaving (Some intent))
                  (s\<lparr>sm_intent := intent, sm_creations := sm_creations s @ [\<lparr>cr_epoch = sm_epoch s, cr_key = fst intent, cr_payload = payload, cr_body = sj_body j,
                     cr_succeeded = False\<rparr>]\<rparr>)))"

definition job_answered :: "sched_port \<Rightarrow> string \<Rightarrow> nat \<Rightarrow> sched_reply js_result \<Rightarrow> sched_manager \<Rightarrow> sched_manager" where
  "job_answered port uuid n r s =
     (case r of
        Inl e \<Rightarrow> fail_job n e s
      | Inr v \<Rightarrow>
          (case (so_job (sm_ops s ! n), v) of
             (RefreshJob, CatalogReply c ss) \<Rightarrow> succeed_job n (scope_loaded (so_generation (sm_ops s ! n)) (c, ss) s)
           | (RunJob _ _, RunReply status reason) \<Rightarrow>
               if status = ''needs_attention'' then fail_job n (JsError (or_text reason ''Run needs attention; inspect its history'')) s else succeed_job n s
           | (PreviewJob _, TimesReply ns) \<Rightarrow> succeed_job n (if is_current_job n s then s\<lparr>sm_preview := ns\<rparr> else s)
           | (SaveJob j, _) \<Rightarrow> if is_current_job n s then send_save port uuid n j s else finish_job n s
           | _ \<Rightarrow> succeed_job n s))"

text \<open>The creation is answered: its request id is given up unless another one took its place.\<close>

definition mark_one :: "string \<times> string \<Rightarrow> sched_creation \<Rightarrow> sched_creation" where
  "mark_one i c = (if cr_key c = fst i \<and> cr_payload c = snd i then c\<lparr>cr_succeeded := True\<rparr> else c)"

definition mark_created :: "string \<times> string \<Rightarrow> sched_creation list \<Rightarrow> sched_creation list" where
  "mark_created i = map (mark_one i)"

definition save_answered :: "nat \<Rightarrow> unit js_result \<Rightarrow> sched_manager \<Rightarrow> sched_manager" where
  "save_answered n r s =
     (case (r, so_phase (sm_ops s ! n)) of
        (Inr _, SchedSaving i) \<Rightarrow>
          (let s1 = (case i of Some x \<Rightarrow> s\<lparr>sm_intent := (if sm_intent s = x then ([], []) else sm_intent s), sm_creations := mark_created x (sm_creations s)\<rparr> | None \<Rightarrow> s)
           in succeed_job n (if is_current_job n s then s1\<lparr>sm_editing := EditingNone\<rparr> else s1))
      | (Inl e, _) \<Rightarrow> fail_job n e s
      | _ \<Rightarrow> s)"

section \<open>Handlers\<close>

datatype sched_field =
    FieldTaskKind | FieldCommand | FieldConversation | FieldPrompt | FieldCriteria | FieldKind | FieldTime | FieldZone | FieldCron | FieldMinutes | FieldAt
  | FieldMissed | FieldOverlap | FieldRuns | FieldDays | FieldSeconds

definition set_sched_field :: "sched_field \<Rightarrow> string \<Rightarrow> sched_form \<Rightarrow> sched_form" where
  "set_sched_field k v f =
     (case k of FieldTaskKind \<Rightarrow> f\<lparr>sf_task := v\<rparr> | FieldCommand \<Rightarrow> f\<lparr>sf_command := v\<rparr> | FieldConversation \<Rightarrow> f\<lparr>sf_conversation := v\<rparr>
      | FieldPrompt \<Rightarrow> f\<lparr>sf_prompt := v\<rparr> | FieldCriteria \<Rightarrow> f\<lparr>sf_criteria := v\<rparr> | FieldKind \<Rightarrow> f\<lparr>sf_kind := v\<rparr> | FieldTime \<Rightarrow> f\<lparr>sf_time := v\<rparr>
      | FieldZone \<Rightarrow> f\<lparr>sf_zone := v\<rparr> | FieldCron \<Rightarrow> f\<lparr>sf_cron := v\<rparr> | FieldMinutes \<Rightarrow> f\<lparr>sf_minutes := v\<rparr> | FieldAt \<Rightarrow> f\<lparr>sf_at := v\<rparr>
      | FieldMissed \<Rightarrow> f\<lparr>sf_missed := v\<rparr> | FieldOverlap \<Rightarrow> f\<lparr>sf_overlap := v\<rparr> | FieldRuns \<Rightarrow> f\<lparr>sf_runs := v\<rparr> | FieldDays \<Rightarrow> f\<lparr>sf_days := v\<rparr>
      | FieldSeconds \<Rightarrow> f\<lparr>sf_seconds := v\<rparr>)"

definition nonzero :: "rat option \<Rightarrow> rat \<Rightarrow> rat" where
  "nonzero n d = (case n of Some x \<Rightarrow> if x = 0 then d else x | None \<Rightarrow> d)"

definition form_of_row :: "sched_port \<Rightarrow> schedule \<Rightarrow> sched_form \<Rightarrow> sched_form" where
  "form_of_row port r f =
     (let p = sc_spec r in f\<lparr>sf_prompt := sc_prompt r, sf_kind := ss_kind p, sf_time := or_text (ss_time p) ''09:00'', sf_zone := or_text (ss_zone p) ''UTC'',
        sf_cron := or_text (ss_cron p) ''0 9 * * 1-5'', sf_minutes := so_show port (nonzero (ss_seconds p) 3600 / 60),
        sf_at := (case ss_at p of Some t \<Rightarrow> if t = 0 then [] else so_local port t | None \<Rightarrow> []), sf_missed := sc_missed r, sf_overlap := sc_overlap r\<rparr>)"

definition edit_schedule :: "sched_port \<Rightarrow> schedule option \<Rightarrow> sched_manager \<Rightarrow> sched_manager" where
  "edit_schedule port row s =
     (let f = (sm_form s)\<lparr>sf_consent := False\<rparr> in
      s\<lparr>sm_editing := (case row of None \<Rightarrow> EditingNew | Some r \<Rightarrow> EditingRow r), sm_preview := [], sm_error := [],
        sm_form := (case row of
            None \<Rightarrow> f\<lparr>sf_task := ''agent'', sf_command := [], sf_prompt := [], sf_criteria := [], sf_conversation := or_text (sm_session s) []\<rparr>
          | Some r \<Rightarrow> form_of_row port r f)\<rparr>)"

definition save_closure :: "sched_port \<Rightarrow> sched_manager \<Rightarrow> save_job" where
  "save_closure port s =
     \<lparr>sj_target = (case sm_editing s of EditingRow r \<Rightarrow> Some (sc_id r, sc_revision r) | _ \<Rightarrow> None), sj_spec = form_spec port (sm_form s),
      sj_refused = (sf_task (sm_form s) = ''agent'' \<and> bd_enabled (sm_draft s) \<and> (\<not> browser_eligible s \<or> bd_permission (sm_draft s) = None)),
      sj_body = creation_body port (sm_draft s) (sm_form s)\<rparr>"

datatype sched_click =
    EditSchedule "schedule option" | RetrySchedules | ShowArchived bool | SelectSchedule string | AskJob sched_job | FormField sched_field string
  | TickConsent bool | PreviewRuns | CancelEdit | SubmitSchedule | GrantPart grant_click

definition sched_clicked :: "sched_port \<Rightarrow> int \<Rightarrow> sched_click \<Rightarrow> sched_manager \<Rightarrow> sched_manager" where
  "sched_clicked port now a s =
     (case a of
        EditSchedule row \<Rightarrow> edit_schedule port row s
      | RetrySchedules \<Rightarrow> begin_job RefreshJob s
      | ShowArchived on \<Rightarrow> s\<lparr>sm_archived := on\<rparr>
      | SelectSchedule k \<Rightarrow> s\<lparr>sm_selected := k\<rparr>
      | AskJob j \<Rightarrow> begin_job j s
      | FormField k v \<Rightarrow> s\<lparr>sm_form := set_sched_field k v (sm_form s)\<rparr>
      | TickConsent on \<Rightarrow> s\<lparr>sm_form := (sm_form s)\<lparr>sf_consent := on\<rparr>\<rparr>
      | PreviewRuns \<Rightarrow> begin_job (PreviewJob (form_spec port (sm_form s))) s
      | CancelEdit \<Rightarrow> s\<lparr>sm_editing := EditingNone\<rparr>
      | SubmitSchedule \<Rightarrow> begin_job (SaveJob (save_closure port s)) s
      | GrantPart c \<Rightarrow> s\<lparr>sm_part := map_option (grant_clicked (so_grant port) now c) (sm_part s)\<rparr>)"

section \<open>What it shows\<close>

definition schedule_listed :: "sched_port \<Rightarrow> sched_manager \<Rightarrow> schedule \<Rightarrow> bool" where
  "schedule_listed port s r \<longleftrightarrow> (sm_archived s \<or> \<not> sc_archived r)
     \<and> contains (lower_text (sm_search s)) (lower_text (join_with '' '' [sc_prompt r, describe_spec port (sc_spec r), sc_state r]))"

definition schedule_rows :: "sched_port \<Rightarrow> sched_manager \<Rightarrow> schedule list" where
  "schedule_rows port s = filter (schedule_listed port s) (ct_schedules (sm_data s))"

definition schedule_row :: "sched_port \<Rightarrow> sched_manager \<Rightarrow> schedule \<Rightarrow> sched_click view" where
  "schedule_row port s r =
     (let off = sm_busy s \<or> sc_archived r in box ''tr''
        [button False (SelectSchedule (sc_id r)) (sc_prompt r), labelled ''td'' (describe_spec port (sc_spec r)),
         labelled ''td'' (replace_char CHR ''_'' CHR '' '' (sc_state r) @ (if truthy_text (sc_runbook r) then [CHR '' '', CHR 0xB7] @ '' command'' else [])),
         labelled ''td'' (if sc_enabled r then so_date port (sc_next r) else [CHR 0x97]),
         button off (AskJob (RunJob (sc_id r) (sc_revision r))) ''Run now'',
         button off (AskJob (ToggleJob (sc_id r) (sc_revision r) (\<not> sc_enabled r))) (if sc_enabled r then ''Pause'' else ''Resume''),
         button off (EditSchedule (Some r)) ''Edit''])"

definition run_view :: "sched_port \<Rightarrow> sched_manager \<Rightarrow> sched_run \<Rightarrow> sched_click view" where
  "run_view port s r = box ''article''
     ([labelled ''strong'' (if sr_status r = ''dispatching'' then ''Preparing run''
         else replace_char CHR ''_'' CHR '' '' (if sr_status r = ''running'' then or_text (sr_task_status r) (sr_status r) else sr_status r)),
       VText (so_date port (Some (sr_due r))), show_if (sr_manual r) (VText ''Run now''), show_if (truthy_text (sr_reason r)) (labelled ''p'' (or_text (sr_reason r) [])),
       show_if (truthy_text (sr_task r)) (labelled ''code'' (or_text (sr_task r) []))]
      @ map (labelled ''pre'') (sr_outputs r)
      @ [show_if (sr_status r \<in> {''dispatching'', ''running''}) (box ''div''
           [show_if (truthy_text (sr_runbook r) \<and> sr_task_status r = Some ''awaiting_confirmation'') (button (sm_busy s) (AskJob (ConfirmJob (sr_id r))) ''Confirm step''),
            button (sm_busy s) (AskJob (StopJob (sr_id r))) ''Stop run''])])"

definition grant_details :: "sched_port \<Rightarrow> delegation \<Rightarrow> sched_click view list" where
  "grant_details port g =
     [(case dl_permission g of None \<Rightarrow> VNone | Some p \<Rightarrow> box ''details'' [labelled ''pre'' (so_json port (permission_value p)),
         labelled ''p'' (''Browser authority expires '' @ so_date port (case bw_expires p of Fin t \<Rightarrow> Some t | _ \<Rightarrow> None))]),
      (case dl_runbook g of None \<Rightarrow> VNone | Some (name, steps) \<Rightarrow> box ''details''
         (labelled ''summary'' (''Authorized command steps '' @ name)
          # map (\<lambda>(i, c, confirm). labelled ''pre'' (nat_text (i + 1) @ ''. '' @ c @ (if confirm then '' confirmation required'' else []))) (enumerate 0 steps)))]"

definition schedule_detail :: "sched_port \<Rightarrow> sched_manager \<Rightarrow> schedule \<Rightarrow> sched_click view" where
  "schedule_detail port s r =
     (let goal = find (\<lambda>g. sg_id g = sc_goal r) (ct_goals (sm_data s)); grant = find (\<lambda>g. dl_id g = sc_grant r) (ct_grants (sm_data s));
          runs = filter (\<lambda>x. sr_schedule x = sc_id r) (ct_runs (sm_data s)) in box ''aside''
        ([labelled ''h3'' (sc_prompt r), (case goal of Some g \<Rightarrow> labelled ''p'' (sg_criteria g) | None \<Rightarrow> VNone)]
         @ (case grant of Some g \<Rightarrow> grant_details port g | None \<Rightarrow> [])
         @ [labelled ''p'' ((case goal of Some g \<Rightarrow> int_text (sg_started g) @ '' / '' @ int_text (sg_max g) | None \<Rightarrow> ''0 / 0'') @ '' runs used. Grant expires ''
              @ so_date port (map_option dl_expires grant)),
            labelled ''p'' (''Missed runs: '' @ (if sc_missed r = ''once'' then ''Run once when the host returns'' else ''Skip'') @ ''. Overlap: ''
              @ (if sc_overlap r = ''queue'' then ''Queue one occurrence'' else ''Skip'')),
            show_if (truthy_text (sc_reason r)) (labelled ''p'' (or_text (sc_reason r) [])),
            button (sm_busy s \<or> sc_archived r) (AskJob (ArchiveJob (sc_id r) (sc_revision r))) ''Archive schedule'',
            (case grant of Some g \<Rightarrow> show_if (\<not> dl_revoked g) (button (sm_busy s) (AskJob (RevokeJob (dl_id g))) ''Revoke and stop runs'') | None \<Rightarrow> VNone)]
         @ map (run_view port s) runs @ [show_if (runs = []) (labelled ''p'' ''No runs yet.'')]))"

definition field_input :: "string \<Rightarrow> string \<Rightarrow> string \<Rightarrow> sched_field \<Rightarrow> string \<Rightarrow> sched_click view" where
  "field_input tag label typed k v = box ''label'' [VText label, VEl tag [attr_text ''value'' v] [(''onChange'', FormField k typed)] []]"

definition field_choice :: "string \<Rightarrow> sched_field \<Rightarrow> (string \<times> string) list \<Rightarrow> sched_click view" where
  "field_choice label k xs = box ''label'' [VText label, picker False (\<lambda>x. FormField k (fst x)) snd xs]"

definition time_fields :: "string \<Rightarrow> sched_form \<Rightarrow> sched_click view list" where
  "time_fields typed f =
     [field_choice ''Frequency'' FieldKind [(''once'', ''Once''), (''daily'', ''Daily''), (''interval'', ''Every interval''), (''cron'', ''Cron expression'')],
      (if sf_kind f = ''once'' then field_input ''input'' ''Date and time (this device)'' typed FieldAt (sf_at f)
       else if sf_kind f = ''interval'' then field_input ''input'' ''Interval in minutes'' typed FieldMinutes (sf_minutes f)
       else box ''div'' [if sf_kind f = ''daily'' then field_input ''input'' ''Time'' typed FieldTime (sf_time f) else field_input ''input'' ''Cron expression'' typed FieldCron (sf_cron f),
         field_input ''input'' ''Timezone'' typed FieldZone (sf_zone f)])]"

definition submit_blocked :: "sched_manager \<Rightarrow> bool" where
  "submit_blocked s \<longleftrightarrow> sm_busy s \<or> (sm_editing s = EditingNew \<and> (\<not> sf_consent (sm_form s) \<or> sf_conversation (sm_form s) = []
     \<or> (sf_task (sm_form s) = ''agent'' \<and> bd_enabled (sm_draft s) \<and> bd_permission (sm_draft s) = None)))"

definition new_fields :: "sched_port \<Rightarrow> (browser_permission \<Rightarrow> string) \<Rightarrow> string \<Rightarrow> sched_manager \<Rightarrow> sched_click view list" where
  "new_fields port pretty typed s =
     (let f = sm_form s in
      [field_choice ''Task type'' FieldTaskKind [(''agent'', ''Agent task''), (''command'', ''Shell cron job'')],
       field_choice ''Conversation'' FieldConversation (([], ''Choose a conversation'') # map (\<lambda>x. (ses_id x, ses_title x)) (sm_sessions s)),
       show_if (sm_sessions s = []) (labelled ''p'' ''Create a conversation with its project, engine and model first.''),
       field_input ''input'' ''Success criteria'' typed FieldCriteria (sf_criteria f),
       show_if (sf_task f = ''command'') (field_input ''textarea'' ''Shell command'' typed FieldCommand (sf_command f)),
       field_input ''input'' ''Maximum runs'' typed FieldRuns (sf_runs f), field_input ''input'' ''Grant expires after days'' typed FieldDays (sf_days f),
       field_input ''input'' ''Seconds per run'' typed FieldSeconds (sf_seconds f),
       checkbox False (sf_consent f) (TickConsent (\<not> sf_consent f)) ''Allow unattended runs within these limits. Existing tool approvals still apply.'',
       (case sm_part s of Some g \<Rightarrow> map_view GrantPart (grant_view pretty (so_grant port) typed g)
        | None \<Rightarrow> show_if (sf_task f = ''agent'' \<and> sf_conversation f \<noteq> []) (labelled ''p''
            ''Unattended browser permission requires a local TermX Agent conversation in Agent mode. Choose that conversation to authorize specific tabs.''))])"

definition schedule_form :: "sched_port \<Rightarrow> (browser_permission \<Rightarrow> string) \<Rightarrow> string \<Rightarrow> sched_manager \<Rightarrow> sched_click view" where
  "schedule_form port pretty typed s =
     (let f = sm_form s; new = (sm_editing s = EditingNew) in VEl ''fieldset'' [attr_flag ''disabled'' (sm_busy s)] []
        ((if new then new_fields port pretty typed s else [])
         @ [field_input ''textarea'' ''Task prompt'' typed FieldPrompt (sf_prompt f)] @ time_fields typed f
         @ [field_choice ''When the host misses a run'' FieldMissed [(''skip'', ''Skip missed runs''), (''once'', ''Catch up once'')],
            field_choice ''When a previous task is active'' FieldOverlap [(''skip'', ''Skip this occurrence''), (''queue'', ''Queue one occurrence'')],
            button (sm_busy s) PreviewRuns ''Preview next runs'']
         @ map (\<lambda>n. labelled ''li'' (so_date port (Some n))) (sm_preview s)
         @ [button (sm_busy s) CancelEdit ''Cancel'',
            button (submit_blocked s) SubmitSchedule (if sm_busy s then ''Working...'' else if new then ''Authorize and create schedule'' else ''Save schedule'')]))"

definition schedules_view :: "sched_port \<Rightarrow> (browser_permission \<Rightarrow> string) \<Rightarrow> string \<Rightarrow> sched_manager \<Rightarrow> sched_click view" where
  "schedules_view port pretty typed s = box ''section''
     [labelled ''h2'' ''Scheduled tasks'', button (sm_busy s) (EditSchedule None) ''New scheduled task'',
      show_if (sm_error s \<noteq> []) (box ''p'' [VText (sm_error s), button False RetrySchedules ''Retry schedules'']),
      show_if (sm_notice s \<noteq> []) (labelled ''p'' (sm_notice s)),
      checkbox False (sm_archived s) (ShowArchived (\<not> sm_archived s)) ''Show archived schedules'',
      (if sm_loading s then labelled ''p'' ''Loading schedules...''
       else if schedule_rows port s = [] then labelled ''div'' ''No scheduled tasks. Choose a conversation and set when it should run.''
       else box ''table'' (map (schedule_row port s) (schedule_rows port s))),
      (case find (\<lambda>r. sc_id r = sm_selected s) (ct_schedules (sm_data s)) of Some r \<Rightarrow> schedule_detail port s r | None \<Rightarrow> VNone),
      show_if (sm_editing s \<noteq> EditingNone) (schedule_form port pretty typed s)]"

end
