(* ===== verification/ScheduleRuns.thy ===== *)
theory ScheduleRuns
  imports Schedules
begin

text \<open>
  What holds of the scheduled tasks in every order of clicks, answers, polls and renders: one operation at a time, one
  request id for one creation, and no unattended run without the consent and the browser permission that were shown.
\<close>

section \<open>Steps\<close>

fun sched_reply_fits :: "sched_job \<Rightarrow> sched_reply js_result \<Rightarrow> bool" where
  "sched_reply_fits j (Inl _) = True"
| "sched_reply_fits RefreshJob (Inr v) = (case v of CatalogReply _ _ \<Rightarrow> True | _ \<Rightarrow> False)"
| "sched_reply_fits (RunJob _ _) (Inr v) = (case v of RunReply _ _ \<Rightarrow> True | _ \<Rightarrow> False)"
| "sched_reply_fits (PreviewJob _) (Inr v) = (case v of TimesReply _ \<Rightarrow> True | _ \<Rightarrow> False)"
| "sched_reply_fits j (Inr v) = (v = PlainReply)"

definition fresh_uuid :: "string \<Rightarrow> sched_manager \<Rightarrow> bool" where
  "fresh_uuid u s \<longleftrightarrow> u \<noteq> [] \<and> u \<notin> cr_key ` set (sm_creations s)"

inductive sched_moves :: "sched_port \<Rightarrow> sched_manager \<Rightarrow> sched_manager \<Rightarrow> bool" for port :: sched_port where
  sd_clicked: "sm_alive s \<Longrightarrow> a \<in> set (offers (schedules_view port pretty typed s)) \<Longrightarrow> sched_moves port s (settle_schedules port now s (sched_clicked port now a s))"
| sd_answered: "n < length (sm_ops s) \<Longrightarrow> so_phase (sm_ops s ! n) = SchedAsked \<Longrightarrow> sched_reply_fits (so_job (sm_ops s ! n)) r \<Longrightarrow> fresh_uuid u s \<Longrightarrow>
    sched_moves port s (settle_schedules port now s (job_answered port u n r s))"
| sd_saved: "n < length (sm_ops s) \<Longrightarrow> so_phase (sm_ops s ! n) = SchedSaving i \<Longrightarrow> sched_moves port s (settle_schedules port now s (save_answered n r s))"
| sd_loaded: "n < length (sm_ops s) \<Longrightarrow> so_phase (sm_ops s ! n) = SchedLoading \<Longrightarrow> sched_moves port s (settle_schedules port now s (job_loaded n r s))"
| sd_polled: "k < length (sm_reads s) \<Longrightarrow> \<not> snd (sm_reads s ! k) \<Longrightarrow> sched_moves port s (settle_schedules port now s (poll_answered k r s))"
| sd_timer: "n < length (sm_loops s) \<Longrightarrow> sched_moves port s (poll_schedules n s)"
| sd_render: "sm_alive s \<Longrightarrow> sched_moves port s (settle_schedules port now s (schedules_render project session q version active s))"
| sd_tabs: "sm_part s = Some g \<Longrightarrow> n < length (bg_reads g) \<Longrightarrow> \<not> tq_done (bg_reads g ! n) \<Longrightarrow>
    sched_moves port s (settle_schedules port now s (s\<lparr>sm_part := Some (tabs_answered (so_grant port) n r g)\<rparr>))"
| sd_unmounted: "sm_alive s \<Longrightarrow> sched_moves port s (unmount_schedules s)"

text \<open>What is relied on of the language: \<open>Number('24')\<close>, and that the JSON text of an object is not empty.\<close>

definition sched_port_ok :: "sched_port \<Rightarrow> bool" where
  "sched_port_ok port \<longleftrightarrow> gp_number (so_grant port) ''24'' = Fin 24 \<and> (\<forall>o'. so_json port (JObj o') \<noteq> [])"

definition sched_opened :: "sched_port \<Rightarrow> sched_manager \<Rightarrow> bool" where
  "sched_opened port s \<longleftrightarrow> sched_port_ok port \<and> (\<exists>zone project session active. s = open_schedules port zone project session active)"

section \<open>One operation at a time\<close>

definition sched_ledger :: "sched_manager \<Rightarrow> op_ledger" where
  "sched_ledger s = (sm_epoch s, map (\<lambda>f. (so_generation f, so_phase f = SchedDone)) (sm_ops s), sm_flight s = Some (sm_epoch s))"

definition sched_flight_core :: "sched_manager \<Rightarrow> nat \<times> sched_op list \<times> nat option \<times> bool \<times> bool" where
  "sched_flight_core s = (sm_epoch s, sm_ops s, sm_flight s, sm_busy s, sm_alive s)"

definition sched_flight_ok :: "sched_manager \<Rightarrow> bool" where
  "sched_flight_ok s \<longleftrightarrow> (sm_alive s \<longrightarrow> sm_busy s = (sm_flight s = Some (sm_epoch s))) \<and> (\<forall>e. sm_flight s = Some e \<longrightarrow> e \<le> sm_epoch s)"

text \<open>A step of the ledger that keeps the flags.\<close>

definition flight_step :: "sched_manager \<Rightarrow> sched_manager \<Rightarrow> bool" where
  "flight_step s t \<longleftrightarrow> op_change (sched_ledger s) (sched_ledger t) \<and> sched_flight_ok t"

lemma core_step: "sched_flight_ok s \<Longrightarrow> sched_flight_core t = sched_flight_core s \<Longrightarrow> flight_step s t"
  by (simp add: sched_flight_core_def flight_step_def sched_ledger_def sched_flight_ok_def op_idle)

lemma step_core: "flight_step s t \<Longrightarrow> sched_flight_core u = sched_flight_core t \<Longrightarrow> flight_step s u"
  by (simp add: sched_flight_core_def flight_step_def sched_ledger_def sched_flight_ok_def)

lemma quiet_cores [simp]:
  "sched_flight_core (settle_schedules port now old s) = sched_flight_core s" "sched_flight_core (scope_loaded g v s) = sched_flight_core s" "sched_flight_core (poll_schedules n s) = sched_flight_core s"
  "sched_flight_core (restart_loops s) = sched_flight_core s" "sched_flight_core (poll_answered k r s) = sched_flight_core s" "sched_flight_core (edit_schedule port row s) = sched_flight_core s"
  by (auto simp: sched_flight_core_def settle_schedules_def scope_loaded_def poll_schedules_def restart_loops_def poll_answered_def edit_schedule_def Let_def split: sum.split)

lemma begin_step: assumes "sched_flight_ok s" shows "flight_step s (begin_job j s)"
proof (cases "sm_flight s = Some (sm_epoch s)")
  case True
  then show ?thesis using assms core_step by (simp add: begin_job_def)
next
  case False
  then show ?thesis using op_begun [of "sm_epoch s"] by (simp add: begin_job_def flight_step_def sched_ledger_def sched_flight_ok_def)
qed

text \<open>The operation stays under way in another phase, or ends.\<close>

lemma phase_step:
  assumes "sched_flight_ok s" "n < length (sm_ops s)" "so_phase (sm_ops s ! n) \<noteq> SchedDone" "ph \<noteq> SchedDone" "sched_flight_core u = sched_flight_core s"
  shows "flight_step s (set_sched_phase n ph u)"
proof -
  have u: "sm_ops u = sm_ops s" "sm_epoch u = sm_epoch s" "sm_flight u = sm_flight s" using assms(5) by (simp_all add: sched_flight_core_def)
  have "map (\<lambda>f. (so_generation f, so_phase f = SchedDone)) ((sm_ops s)[n := (sm_ops s ! n)\<lparr>so_phase := ph\<rparr>])
      = map (\<lambda>f. (so_generation f, so_phase f = SchedDone)) (sm_ops s)"
    using assms(2-4) by (simp add: map_update list_update_same_conv)
  then have "sched_ledger (set_sched_phase n ph u) = sched_ledger s" using u by (simp add: sched_ledger_def set_sched_phase_def)
  moreover have "sched_flight_ok (set_sched_phase n ph u)" using assms(1,5) by (simp add: sched_flight_ok_def set_sched_phase_def sched_flight_core_def)
  ultimately show ?thesis by (simp add: flight_step_def op_idle)
qed

lemma finish_step:
  assumes "sched_flight_ok s" "n < length (sm_ops s)" "so_phase (sm_ops s ! n) \<noteq> SchedDone" "sched_flight_core u = sched_flight_core s"
  shows "flight_step s (finish_job n u)"
proof -
  have u: "sm_ops u = sm_ops s" "sm_epoch u = sm_epoch s" "sm_flight u = sm_flight s" "sm_busy u = sm_busy s" "sm_alive u = sm_alive s"
    using assms(4) by (simp_all add: sched_flight_core_def)
  let ?g = "so_generation (sm_ops s ! n)"
  have "op_change (sched_ledger s) (sm_epoch s, (map (\<lambda>f. (so_generation f, so_phase f = SchedDone)) (sm_ops s))[n := (?g, True)],
      ?g \<noteq> sm_epoch s \<and> sm_flight s = Some (sm_epoch s))"
    unfolding sched_ledger_def using assms(2,3) by (intro op_settled) auto
  moreover have "sched_ledger (finish_job n u) = (sm_epoch s, (map (\<lambda>f. (so_generation f, so_phase f = SchedDone)) (sm_ops s))[n := (?g, True)],
      ?g \<noteq> sm_epoch s \<and> sm_flight s = Some (sm_epoch s))"
    using u by (auto simp: sched_ledger_def finish_job_def is_current_job_def set_sched_phase_def Let_def map_update)
  ultimately show ?thesis using assms(1) u by (auto simp: flight_step_def sched_flight_ok_def finish_job_def set_sched_phase_def Let_def)
qed

lemma fail_step:
  "sched_flight_ok s \<Longrightarrow> n < length (sm_ops s) \<Longrightarrow> so_phase (sm_ops s ! n) \<noteq> SchedDone \<Longrightarrow> sched_flight_core u = sched_flight_core s \<Longrightarrow> flight_step s (fail_job n e u)"
  unfolding fail_job_def by (rule finish_step) (simp_all add: sched_flight_core_def)

lemma succeed_step:
  "sched_flight_ok s \<Longrightarrow> n < length (sm_ops s) \<Longrightarrow> so_phase (sm_ops s ! n) \<noteq> SchedDone \<Longrightarrow> sched_flight_core u = sched_flight_core s \<Longrightarrow> flight_step s (succeed_job n u)"
  using finish_step [of s n u] phase_step [of s n SchedLoading] by (simp add: succeed_job_def sched_flight_core_def)

lemma answered_step:
  assumes "sched_flight_ok s" "n < length (sm_ops s)" "so_phase (sm_ops s ! n) = SchedAsked"
  shows "flight_step s (job_answered port u n r s)"
proof -
  note steps = succeed_step [OF assms(1,2)] fail_step [OF assms(1,2)] finish_step [OF assms(1,2)] phase_step [OF assms(1,2)]
  have "flight_step s (send_save port u n j s)" for j
    using assms(3) by (auto simp: send_save_def Let_def sched_flight_core_def intro!: steps split: option.split)
  then show ?thesis using assms(3)
    by (auto simp: job_answered_def intro!: steps split: sum.split sched_job.split sched_reply.split) (simp_all add: sched_flight_core_def)
qed

lemma saved_step:
  assumes "sched_flight_ok s" "n < length (sm_ops s)" "so_phase (sm_ops s ! n) = SchedSaving i"
  shows "flight_step s (save_answered n r s)"
  using assms(3) succeed_step [OF assms(1,2)] fail_step [OF assms(1,2)]
  by (auto simp: save_answered_def Let_def sched_flight_core_def split: sum.split option.split)

lemma loaded_step:
  assumes "sched_flight_ok s" "n < length (sm_ops s)" "so_phase (sm_ops s ! n) = SchedLoading"
  shows "flight_step s (job_loaded n r s)"
  using assms(3) finish_step [OF assms(1,2)] fail_step [OF assms(1,2)] by (auto simp: job_loaded_def split: sum.split)

lemma render_step:
  assumes "sched_flight_ok s" shows "flight_step s (schedules_render project session q version active s)"
proof (cases "project = sm_project s")
  case True
  then have "sched_flight_core (schedules_render project session q version active s) = sched_flight_core s"
    by (simp add: schedules_render_def Let_def) (simp add: sched_flight_core_def)
  then show ?thesis by (rule core_step [OF assms])
next
  case False
  let ?t = "enter_scope (s\<lparr>sm_project := project, sm_session := session, sm_search := q, sm_version := version, sm_active := active, sm_epoch := Suc (sm_epoch s), sm_flight := None\<rparr>)"
  have "sched_flight_core (schedules_render project session q version active s) = sched_flight_core ?t"
    using False by (simp add: schedules_render_def Let_def)
  moreover have "flight_step s ?t"
    using op_renewed [of "sm_epoch s" "Suc (Suc (sm_epoch s))"] by (simp add: flight_step_def sched_ledger_def sched_flight_ok_def enter_scope_def)
  ultimately show ?thesis by (rule step_core [rotated])
qed

lemma clicked_step: "sched_flight_ok s \<Longrightarrow> flight_step s (sched_clicked port now a s)"
  by (cases a) (auto simp: sched_clicked_def begin_step intro: core_step, auto simp: sched_flight_core_def intro!: core_step)

lemma unmount_step: assumes "sched_flight_ok s" shows "flight_step s (unmount_schedules s)"
proof -
  have "sm_flight s \<noteq> Some (Suc (sm_epoch s))" using assms by (auto simp: sched_flight_ok_def)
  then have "sched_ledger (unmount_schedules s) = (Suc (sm_epoch s), map (\<lambda>f. (so_generation f, so_phase f = SchedDone)) (sm_ops s), False)"
    by (simp add: sched_ledger_def unmount_schedules_def)
  then show ?thesis using assms op_renewed [of "sm_epoch s" "Suc (sm_epoch s)"]
    by (auto simp: flight_step_def sched_ledger_def [of s] sched_flight_ok_def unmount_schedules_def)
qed

lemma settled_step [simp]: "flight_step s (settle_schedules port now old t) = flight_step s t"
  using step_core [of s t "settle_schedules port now old t"] step_core [of s "settle_schedules port now old t" t] by auto

lemma moves_step: assumes "sched_moves port s t" "sched_flight_ok s" shows "flight_step s t"
  using assms(1)
proof cases
  case (sd_clicked a pretty typed now)
  then show ?thesis using clicked_step [OF assms(2)] by simp
next
  case (sd_answered n r u now)
  then show ?thesis using answered_step [OF assms(2)] by simp
next
  case (sd_saved n i now r)
  then show ?thesis using saved_step [OF assms(2)] by simp
next
  case (sd_loaded n now r)
  then show ?thesis using loaded_step [OF assms(2)] by simp
next
  case (sd_render now project session q version active)
  then show ?thesis using render_step [OF assms(2)] by simp
next
  case (sd_tabs g n now r)
  have "flight_step s (s\<lparr>sm_part := Some (tabs_answered (so_grant port) n r g)\<rparr>)" by (rule core_step [OF assms(2)]) (simp add: sched_flight_core_def)
  then show ?thesis using sd_tabs(1) by simp
next
  case sd_unmounted
  then show ?thesis using unmount_step [OF assms(2)] by simp
next
  case (sd_polled k now r)
  then show ?thesis using core_step [OF assms(2)] by simp
next
  case (sd_timer n)
  then show ?thesis using core_step [OF assms(2)] by simp
qed

section \<open>Request ids\<close>

definition key_core :: "sched_manager \<Rightarrow> nat \<times> (string \<times> string) \<times> sched_creation list" where
  "key_core s = (sm_epoch s, sm_intent s, sm_creations s)"

text \<open>The last creation sent in this epoch, while nobody knows that it succeeded.\<close>

definition last_open :: "sched_manager \<Rightarrow> sched_creation \<Rightarrow> bool" where
  "last_open s c \<longleftrightarrow> sm_creations s \<noteq> [] \<and> c = last (sm_creations s) \<and> \<not> cr_succeeded c \<and> cr_epoch c = sm_epoch s"

definition creation_id :: "sched_creation \<Rightarrow> string \<times> string" where
  "creation_id c = (cr_key c, cr_payload c)"

definition keys_ok :: "sched_manager \<Rightarrow> bool" where
  "keys_ok s \<longleftrightarrow> single_valued (creation_id ` set (sm_creations s)) \<and> (sm_intent s = ([], []) \<or> sm_intent s \<in> creation_id ` set (sm_creations s))
     \<and> (\<forall>c \<in> set (sm_creations s). cr_epoch c \<le> sm_epoch s) \<and> (\<forall>c. last_open s c \<longrightarrow> sm_intent s = creation_id c)"

lemma keys_frame: "key_core t = key_core s \<Longrightarrow> keys_ok t = keys_ok s"
  by (simp add: key_core_def keys_ok_def last_open_def)

lemma quiet_keys [simp]:
  "key_core (settle_schedules port now old s) = key_core s" "key_core (scope_loaded g v s) = key_core s" "key_core (poll_schedules n s) = key_core s"
  "key_core (restart_loops s) = key_core s" "key_core (poll_answered k r s) = key_core s" "key_core (begin_job j s) = key_core s"
  "key_core (set_sched_phase n ph s) = key_core s" "key_core (finish_job n s) = key_core s" "key_core (fail_job n e s) = key_core s"
  "key_core (succeed_job n s) = key_core s" "key_core (job_loaded n r s) = key_core s" "key_core (sched_clicked port now a s) = key_core s"
  by (auto simp: key_core_def settle_schedules_def scope_loaded_def poll_schedules_def restart_loops_def poll_answered_def begin_job_def set_sched_phase_def finish_job_def
      fail_job_def succeed_job_def job_loaded_def sched_clicked_def edit_schedule_def Let_def split: sum.split sched_click.split)

lemma keys_later: "keys_ok s \<Longrightarrow> sm_epoch s < e \<Longrightarrow> key_core t = (e, i, sm_creations s) \<Longrightarrow> i = ([], []) \<or> i = sm_intent s \<Longrightarrow> keys_ok t"
  by (auto simp: key_core_def keys_ok_def last_open_def) (metis last_in_set not_less)+

lemma single_valued_insert:
  assumes "single_valued r" "i \<in> r \<or> fst i \<notin> fst ` r" shows "single_valued (insert i r)"
proof (cases "i \<in> r")
  case False
  then have "fst i \<notin> fst ` r" using assms(2) by blast
  then have "(fst i, y) \<notin> r" for y by (auto simp: image_iff)
  then show ?thesis using assms(1) by (cases i) (auto simp: single_valued_def)
qed (simp add: assms(1) insert_absorb)

text \<open>A creation is appended under the id kept for its content, or under a new one.\<close>

lemma keys_sent:
  assumes "keys_ok s" "fresh_uuid u s" "payload \<noteq> []" "intent = (if snd (sm_intent s) = payload then sm_intent s else (u, payload))"
    "key_core t = (sm_epoch s, intent, sm_creations s @ [\<lparr>cr_epoch = sm_epoch s, cr_key = fst intent, cr_payload = payload, cr_body = b, cr_succeeded = False\<rparr>])"
  shows "keys_ok t"
proof -
  let ?c = "\<lparr>cr_epoch = sm_epoch s, cr_key = fst intent, cr_payload = payload, cr_body = b, cr_succeeded = False\<rparr>"
  have t: "sm_intent t = intent" "sm_creations t = sm_creations s @ [?c]" "sm_epoch t = sm_epoch s" using assms(5) by (simp_all add: key_core_def)
  have id: "creation_id ?c = intent" using assms(4) by (cases "sm_intent s") (simp add: creation_id_def)
  have "fst ` creation_id ` set (sm_creations s) = cr_key ` set (sm_creations s)" by (simp add: creation_id_def image_image)
  then have "intent \<in> creation_id ` set (sm_creations s) \<or> fst intent \<notin> fst ` creation_id ` set (sm_creations s)"
    using assms(1-4) by (auto simp: keys_ok_def fresh_uuid_def)
  then have "single_valued (insert intent (creation_id ` set (sm_creations s)))"
    using assms(1) by (intro single_valued_insert) (simp_all add: keys_ok_def)
  moreover have "creation_id ` set (sm_creations t) = insert intent (creation_id ` set (sm_creations s))" using t id by simp
  moreover have "sm_intent t = creation_id c" if "last_open t c" for c using that t id by (simp add: last_open_def)
  moreover have "\<forall>c \<in> set (sm_creations t). cr_epoch c \<le> sm_epoch t" using assms(1) t by (auto simp: keys_ok_def)
  ultimately show ?thesis unfolding keys_ok_def t(1) by simp
qed

lemma mark_one_fields [simp]:
  "creation_id (mark_one i c) = creation_id c" "cr_epoch (mark_one i c) = cr_epoch c" "cr_body (mark_one i c) = cr_body c"
  "cr_succeeded (mark_one i c) \<longleftrightarrow> cr_succeeded c \<or> creation_id c = i"
  by (auto simp: mark_one_def creation_id_def)

lemma mark_created_sets:
  "creation_id ` set (mark_created i cs) = creation_id ` set cs" "cr_epoch ` set (mark_created i cs) = cr_epoch ` set cs"
  "cr_body ` set (mark_created i cs) = cr_body ` set cs"
  by (simp_all add: mark_created_def image_image)

lemma keys_answered:
  assumes "keys_ok s" "key_core t = (sm_epoch s, if sm_intent s = x then ([], []) else sm_intent s, mark_created x (sm_creations s))"
  shows "keys_ok t"
proof -
  have t: "sm_epoch t = sm_epoch s" "sm_intent t = (if sm_intent s = x then ([], []) else sm_intent s)" "sm_creations t = mark_created x (sm_creations s)"
    using assms(2) by (simp_all add: key_core_def)
  have "sm_intent t = creation_id c" if c: "last_open t c" for c
  proof -
    have some: "sm_creations s \<noteq> []" using c t by (auto simp: last_open_def mark_created_def)
    then have m: "c = mark_one x (last (sm_creations s))" using c t by (simp add: last_open_def mark_created_def last_map)
    have "\<not> cr_succeeded c" "cr_epoch c = sm_epoch s" using c t(1) by (unfold last_open_def, auto)
    then have "last_open s (last (sm_creations s))" "creation_id c = creation_id (last (sm_creations s))" "creation_id c \<noteq> x"
      using some by (simp_all add: m last_open_def)
    then show ?thesis using assms(1) t(2) by (simp add: keys_ok_def)
  qed
  moreover have "\<forall>c \<in> set (sm_creations t). cr_epoch c \<le> sm_epoch t"
    using assms(1) t by (simp add: keys_ok_def mark_created_def)
  ultimately show ?thesis using assms(1) t mark_created_sets(1) by (auto simp: keys_ok_def)
qed

lemma answered_keys:
  assumes "keys_ok s" "fresh_uuid u s" "sched_port_ok port" shows "keys_ok (job_answered port u n r s)"
proof -
  have "keys_ok (send_save port u n j s)" for j
  proof (cases "sj_target j = None \<and> \<not> sj_refused j")
    case True
    let ?p = "so_json port (JObj (sj_body j))"
    have "?p \<noteq> []" using assms(3) by (simp add: sched_port_ok_def)
    then show ?thesis using True
      by (intro keys_sent [OF assms(1,2) _ refl, where b = "sj_body j"]) (simp_all add: send_save_def Let_def, simp add: key_core_def)
  next
    case False
    then have "key_core (send_save port u n j s) = key_core s" by (auto simp: send_save_def split: option.split)
    then show ?thesis using assms(1) keys_frame by blast
  qed
  moreover have "key_core (s\<lparr>sm_preview := ns\<rparr>) = key_core s" for ns by (simp add: key_core_def)
  ultimately show ?thesis using assms(1)
    by (auto simp: job_answered_def intro: keys_frame [THEN iffD2] split: sum.split sched_job.split sched_reply.split)
qed

lemma sched_saved_keys: assumes "keys_ok s" shows "keys_ok (save_answered n r s)"
proof -
  have "key_core (save_answered n r s) = key_core s
      \<or> (\<exists>x. key_core (save_answered n r s) = (sm_epoch s, if sm_intent s = x then ([], []) else sm_intent s, mark_created x (sm_creations s)))"
    by (auto simp: save_answered_def Let_def split: sum.split sched_phase.split option.split) (auto simp: key_core_def)
  then show ?thesis using assms keys_frame keys_answered by blast
qed

lemma render_keys: assumes "keys_ok s" shows "keys_ok (schedules_render project session q version active s)"
proof (cases "project = sm_project s")
  case True
  then have "key_core (schedules_render project session q version active s) = key_core s"
    by (simp add: schedules_render_def Let_def) (simp add: key_core_def)
  then show ?thesis using assms keys_frame by blast
next
  case False
  then have "key_core (schedules_render project session q version active s) = (Suc (Suc (sm_epoch s)), ([], []), sm_creations s)"
    by (simp add: schedules_render_def Let_def) (simp add: key_core_def enter_scope_def)
  then show ?thesis by (intro keys_later [OF assms]) auto
qed

lemma moves_keys: assumes "sched_moves port s t" "keys_ok s" "sched_port_ok port" shows "keys_ok t"
  using assms(1)
proof cases
  case (sd_answered n r u now)
  then show ?thesis using answered_keys [OF assms(2) _ assms(3)] keys_frame by (metis quiet_keys(1))
next
  case (sd_saved n i now r)
  then show ?thesis using sched_saved_keys [OF assms(2)] keys_frame by (metis quiet_keys(1))
next
  case (sd_render now project session q version active)
  then show ?thesis using render_keys [OF assms(2)] keys_frame by (metis quiet_keys(1))
next
  case sd_unmounted
  then have "key_core t = (Suc (sm_epoch s), sm_intent s, sm_creations s)" by (simp add: key_core_def unmount_schedules_def)
  then show ?thesis by (intro keys_later [OF assms(2)]) auto
next
  case (sd_tabs g n now r)
  have "key_core (s\<lparr>sm_part := x\<rparr>) = key_core s" for x by (simp add: key_core_def)
  then show ?thesis using sd_tabs assms(2) keys_frame by (metis quiet_keys(1))
qed (use assms(2) keys_frame in \<open>metis quiet_keys\<close>)+

section \<open>What is offered\<close>

lemma row_offers:
  "a \<in> set (offers (schedule_row port s r)) \<Longrightarrow> a = SelectSchedule (sc_id r) \<or> \<not> sm_busy s \<and> \<not> sc_archived r
     \<and> a \<in> {AskJob (RunJob (sc_id r) (sc_revision r)), AskJob (ToggleJob (sc_id r) (sc_revision r) (\<not> sc_enabled r)), EditSchedule (Some r)}"
  by (auto simp: schedule_row_def Let_def in_offers simp del: offer_rules)

lemma run_offers:
  "a \<in> set (offers (run_view port s r)) \<Longrightarrow> \<not> sm_busy s \<and> sr_status r \<in> {''dispatching'', ''running''} \<and> a \<in> {AskJob (ConfirmJob (sr_id r)), AskJob (StopJob (sr_id r))}"
  by (auto simp: run_view_def in_offers simp del: offer_rules split: if_splits)

definition detail_actions :: "sched_manager \<Rightarrow> schedule \<Rightarrow> sched_click set" where
  "detail_actions s r = (if sc_archived r then {} else {AskJob (ArchiveJob (sc_id r) (sc_revision r))})
     \<union> (\<lambda>g. AskJob (RevokeJob (dl_id g))) ` {g \<in> set (ct_grants (sm_data s)). dl_id g = sc_grant r \<and> \<not> dl_revoked g}
     \<union> (\<Union>x \<in> {x \<in> set (ct_runs (sm_data s)). sr_schedule x = sc_id r}. {AskJob (ConfirmJob (sr_id x)), AskJob (StopJob (sr_id x))})"

lemma sched_detail_offers: "a \<in> set (offers (schedule_detail port s r)) \<Longrightarrow> \<not> sm_busy s \<and> a \<in> detail_actions s r"
  by (auto simp: schedule_detail_def grant_details_def detail_actions_def Let_def in_offers simp del: offer_rules dest!: run_offers find_SomeD
      split: option.splits if_splits)

lemma field_offers [simp]:
  "offers (field_input tag label typed k v) = [FormField k typed]" "offers (field_choice label k xs) = map (\<lambda>x. FormField k (fst x)) xs"
  by (simp_all add: field_input_def field_choice_def is_on_def jget_def attr_text_def)

definition form_actions :: "sched_port \<Rightarrow> sched_manager \<Rightarrow> sched_click set" where
  "form_actions port s = {PreviewRuns, CancelEdit} \<union> (if submit_blocked s then {} else {SubmitSchedule}) \<union> range (case_prod FormField) \<union> range TickConsent
     \<union> {GrantPart c | c g pretty typed. sm_part s = Some g \<and> c \<in> set (offers (grant_view pretty (so_grant port) typed g))}"

lemma form_field_action: "FormField k v \<in> form_actions port s" "TickConsent b \<in> form_actions port s"
  by (auto simp: form_actions_def image_iff)

lemma new_offers: "v \<in> set (new_fields port pretty typed s) \<Longrightarrow> a \<in> set (offers v) \<Longrightarrow> a \<in> form_actions port s"
  by (auto simp: new_fields_def Let_def form_field_action split: option.splits if_splits) (auto simp: form_actions_def)

lemma time_offers: "v \<in> set (time_fields typed f) \<Longrightarrow> a \<in> set (offers v) \<Longrightarrow> a \<in> form_actions port s"
  by (auto simp: time_fields_def form_field_action split: if_splits)

lemma form_offers: "a \<in> set (offers (schedule_form port pretty typed s)) \<Longrightarrow> \<not> sm_busy s \<and> a \<in> form_actions port s"
  by (auto simp: schedule_form_def Let_def is_on_def jget_def attr_flag_def form_field_action dest: new_offers time_offers split: if_splits)
    (auto simp: form_actions_def)

lemma schedules_offers:
  assumes "a \<in> set (offers (schedules_view port pretty typed s))"
  shows "a \<in> {EditSchedule None, RetrySchedules} \<or> (\<exists>b. a = ShowArchived b) \<or> (\<exists>r \<in> set (ct_schedules (sm_data s)). a \<in> set (offers (schedule_row port s r)))
    \<or> (\<exists>r \<in> set (ct_schedules (sm_data s)). a \<in> set (offers (schedule_detail port s r))) \<or> sm_editing s \<noteq> EditingNone \<and> \<not> sm_busy s \<and> a \<in> form_actions port s"
  using assms form_offers
  by (auto simp: schedules_view_def in_offers schedule_rows_def simp del: offer_rules dest!: find_SomeD split: option.splits if_splits)

lemma offered_submit:
  assumes "SubmitSchedule \<in> set (offers (schedules_view port pretty typed s))"
  shows "sm_editing s \<noteq> EditingNone \<and> \<not> submit_blocked s"
  using schedules_offers [OF assms] by (auto simp: form_actions_def detail_actions_def dest!: row_offers sched_detail_offers split: if_splits)

lemma offered_part:
  assumes "GrantPart c \<in> set (offers (schedules_view port pretty typed s))"
  shows "\<exists>g pretty typed. sm_part s = Some g \<and> c \<in> set (offers (grant_view pretty (so_grant port) typed g))"
  using schedules_offers [OF assms] by (auto simp: form_actions_def detail_actions_def dest!: row_offers sched_detail_offers split: if_splits)

section \<open>What was authorized\<close>

text \<open>A creation that may be sent: with consent, for a conversation, and with browser access only under a valid permission within the days of its grant.\<close>

definition permitted :: "sched_port \<Rightarrow> browser_draft \<Rightarrow> sched_form \<Rightarrow> bool" where
  "permitted port d f \<longleftrightarrow> (\<exists>p g. bd_permission d = Some p \<and> permission_ok (so_grant port) g p \<and> bg_days g = form_number port (sf_days f))"

definition authorized_body :: "sched_port \<Rightarrow> jsobj \<Rightarrow> bool" where
  "authorized_body port b \<longleftrightarrow> (\<exists>d f. b = creation_body port d f \<and> sf_consent f \<and> sf_conversation f \<noteq> []
     \<and> (sf_task f = ''agent'' \<longrightarrow> bd_enabled d \<longrightarrow> permitted port d f))"

definition job_auth :: "sched_port \<Rightarrow> sched_job \<Rightarrow> bool" where
  "job_auth port j \<longleftrightarrow> (case j of SaveJob x \<Rightarrow> sj_target x = None \<longrightarrow> \<not> sj_refused x \<longrightarrow> authorized_body port (sj_body x) | _ \<Rightarrow> True)"

definition part_ok :: "sched_port \<Rightarrow> sched_manager \<Rightarrow> bool" where
  "part_ok port s \<longleftrightarrow> (\<forall>g. sm_part s = Some g \<longrightarrow> grant_ok (so_grant port) g)"

definition draft_current :: "sched_port \<Rightarrow> sched_manager \<Rightarrow> bool" where
  "draft_current port s \<longleftrightarrow> (sm_alive s \<longrightarrow> part_shown s \<longrightarrow> sm_draft s = no_draft
     \<or> (\<exists>g. sm_part s = Some g \<and> bg_days g = form_number port (sf_days (sm_form s)) \<and> sm_draft s = grant_draft (so_grant port) g))"

definition auth_core :: "sched_manager \<Rightarrow> sched_job list \<times> jsobj set" where
  "auth_core s = (map so_job (sm_ops s), cr_body ` set (sm_creations s))"

definition auth_ok :: "sched_port \<Rightarrow> sched_manager \<Rightarrow> bool" where
  "auth_ok port s \<longleftrightarrow> list_all (job_auth port) (fst (auth_core s)) \<and> Ball (snd (auth_core s)) (authorized_body port)"

lemma auth_frame: "auth_core t = auth_core s \<Longrightarrow> auth_ok port t = auth_ok port s"
  by (simp add: auth_ok_def)

lemma quiet_auth [simp]:
  "auth_core (settle_schedules port now old s) = auth_core s" "auth_core (scope_loaded g v s) = auth_core s" "auth_core (poll_schedules n s) = auth_core s"
  "auth_core (restart_loops s) = auth_core s" "auth_core (poll_answered k r s) = auth_core s" "auth_core (edit_schedule port row s) = auth_core s"
  by (auto simp: auth_core_def settle_schedules_def scope_loaded_def poll_schedules_def restart_loops_def poll_answered_def edit_schedule_def Let_def split: sum.split)

lemma phase_auth: "n < length (sm_ops s) \<Longrightarrow> auth_core (set_sched_phase n ph s) = auth_core s"
proof -
  assume "n < length (sm_ops s)"
  then have "map so_job ((sm_ops s)[n := (sm_ops s ! n)\<lparr>so_phase := ph\<rparr>]) = map so_job (sm_ops s)"
    by (simp add: map_update list_update_same_conv)
  then show ?thesis by (simp add: auth_core_def set_sched_phase_def)
qed

lemma end_auth:
  assumes "n < length (sm_ops s)"
  shows "auth_core (finish_job n s) = auth_core s" "auth_core (fail_job n e s) = auth_core s" "auth_core (succeed_job n s) = auth_core s"
    "auth_core (job_loaded n r s) = auth_core s"
proof -
  have more: "auth_core (u\<lparr>sm_flight := x, sm_busy := y\<rparr>) = auth_core u" "auth_core (u\<lparr>sm_error := z\<rparr>) = auth_core u" "auth_core (u\<lparr>sm_notice := z\<rparr>) = auth_core u" for u x y z
    by (simp_all add: auth_core_def)
  have finish: "auth_core (finish_job n u) = auth_core u" if "n < length (sm_ops u)" for u
    using that by (simp add: finish_job_def Let_def more phase_auth)
  have fail: "auth_core (fail_job n e u) = auth_core u" if "n < length (sm_ops u)" for u e
    using that by (simp add: fail_job_def finish more)
  show "auth_core (finish_job n s) = auth_core s" "auth_core (fail_job n e s) = auth_core s" using assms by (simp_all add: finish fail)
  show "auth_core (succeed_job n s) = auth_core s" using assms by (simp add: succeed_job_def finish phase_auth more)
  have "sm_ops (scope_loaded g v s) = sm_ops s" for g v by (simp add: scope_loaded_def)
  then show "auth_core (job_loaded n r s) = auth_core s" using assms by (simp add: job_loaded_def fail finish split: sum.split)
qed

lemma begin_auth: "auth_ok port s \<Longrightarrow> job_auth port j \<Longrightarrow> auth_ok port (begin_job j s)"
  by (simp add: auth_ok_def begin_job_def auth_core_def)

lemma answered_auth:
  assumes "auth_ok port s" "n < length (sm_ops s)" shows "auth_ok port (job_answered port u n r s)"
proof -
  have saved: "auth_ok port (send_save port u n j s)" if j: "so_job (sm_ops s ! n) = SaveJob j" for j
  proof (cases "sj_target j = None \<and> \<not> sj_refused j")
    case True
    have "list_all (job_auth port) (map so_job (sm_ops s))" using assms(1) by (simp add: auth_ok_def auth_core_def)
    then have "job_auth port (SaveJob j)" using assms(2) j by (metis length_map list_all_length nth_map)
    then have "authorized_body port (sj_body j)" using True by (simp add: job_auth_def)
    moreover have "auth_core (send_save port u n j s) = (fst (auth_core s), insert (sj_body j) (snd (auth_core s)))"
      using True assms(2) by (simp add: send_save_def Let_def phase_auth) (simp add: auth_core_def)
    ultimately show ?thesis using assms(1) by (simp add: auth_ok_def)
  next
    case False
    then have "auth_core (send_save port u n j s) = auth_core s"
      using assms(2) by (auto simp: send_save_def phase_auth end_auth split: option.split)
    then show ?thesis using assms(1) auth_frame by blast
  qed
  have "sm_ops (scope_loaded g v s) = sm_ops s" for g v by (simp add: scope_loaded_def)
  then have "auth_core (succeed_job n (scope_loaded g v s)) = auth_core s" for g v using assms(2) by (simp add: end_auth)
  moreover have "auth_core (succeed_job n (s\<lparr>sm_preview := ns\<rparr>)) = auth_core s" for ns using assms(2) by (simp add: end_auth) (simp add: auth_core_def)
  ultimately show ?thesis using assms(1) saved assms(2)
    by (auto simp: job_answered_def end_auth intro: auth_frame [THEN iffD2] split: sum.split sched_job.split sched_reply.split)
qed

lemma saved_auth: assumes "auth_ok port s" "n < length (sm_ops s)" shows "auth_ok port (save_answered n r s)"
proof -
  have "auth_core (succeed_job n (s\<lparr>sm_intent := i, sm_creations := mark_created x (sm_creations s), sm_editing := e\<rparr>)) = auth_core s"
    "auth_core (succeed_job n (s\<lparr>sm_intent := i, sm_creations := mark_created x (sm_creations s)\<rparr>)) = auth_core s"
    "auth_core (succeed_job n (s\<lparr>sm_editing := e\<rparr>)) = auth_core s" for i x e
    using assms(2) by (simp_all add: end_auth) (simp_all add: auth_core_def mark_created_sets)
  then have "auth_core (save_answered n r s) = auth_core s"
    using assms(2) by (auto simp: save_answered_def Let_def end_auth split: sum.split sched_phase.split option.split)
  then show ?thesis using assms(1) auth_frame by blast
qed

lemma submitted_auth:
  assumes "draft_current port s" "part_ok port s" "sm_alive s" "sm_editing s \<noteq> EditingNone" "\<not> submit_blocked s"
  shows "job_auth port (SaveJob (save_closure port s))"
proof -
  have "permitted port (sm_draft s) (sm_form s)"
    if new: "sm_editing s = EditingNew" "sf_task (sm_form s) = ''agent''" "bd_enabled (sm_draft s)" "browser_eligible s" "sf_conversation (sm_form s) \<noteq> []"
      "bd_permission (sm_draft s) \<noteq> None"
  proof -
    have "part_shown s" "sm_draft s \<noteq> no_draft" using new by (auto simp: part_shown_def no_draft_def)
    then obtain g where g: "sm_part s = Some g" "bg_days g = form_number port (sf_days (sm_form s))" "sm_draft s = grant_draft (so_grant port) g"
      using assms(1,3) by (auto simp: draft_current_def)
    then obtain p where "grant_permission (so_grant port) g = Some p" using new(6) by (auto simp: grant_draft_def)
    then show ?thesis using g permission_bounds [of "so_grant port" g p] assms(2) by (auto simp: permitted_def part_ok_def grant_draft_def)
  qed
  then show ?thesis using assms(4,5)
    by (cases "sm_editing s") (auto simp: job_auth_def save_closure_def authorized_body_def submit_blocked_def)
qed

lemma settle_fields [simp]:
  "sm_form (settle_schedules port now old s) = sm_form s" "sm_alive (settle_schedules port now old s) = sm_alive s" "part_shown (settle_schedules port now old s) = part_shown s"
  by (simp_all add: settle_schedules_def part_shown_def browser_eligible_def Let_def)

lemma settle_part:
  assumes "sched_port_ok port" "part_ok port s"
  shows "part_ok port (settle_schedules port now old s)" "draft_current port (settle_schedules port now old s)"
proof -
  let ?t = "settle_schedules port now old s" and ?days = "form_number port (sf_days (sm_form s))"
  have opened: "grant_ok (so_grant port) (open_grant now d b)" for d b
    using assms(1) by (intro opened_grant) (auto simp: sched_port_ok_def grant_opened_def)
  have rendered: "grant_ok (so_grant port) g \<Longrightarrow> grant_ok (so_grant port) (grant_render d b g)" for g d b by (simp add: grant_ok_def grant_render_def)
  have days: "bg_days (grant_render d b g) = d" "bg_days (open_grant now d b) = d" for d b g by (simp_all add: grant_render_def open_grant_def)
  have "part_ok port ?t \<and> (part_shown s \<longrightarrow> (\<exists>g. sm_part ?t = Some g \<and> bg_days g = ?days))"
    using assms(2) opened rendered days by (auto simp: settle_schedules_def part_ok_def Let_def split: option.splits)
  moreover have "sm_draft ?t = no_draft \<or> (\<forall>g. sm_part ?t = Some g \<longrightarrow> sm_draft ?t = grant_draft (so_grant port) g)"
    by (simp add: settle_schedules_def Let_def)
  ultimately show "part_ok port ?t" "draft_current port ?t" by (auto simp: draft_current_def)
qed

lemma same_part [simp]:
  "sm_part (scope_loaded g v s) = sm_part s" "sm_part (poll_schedules n s) = sm_part s" "sm_part (restart_loops s) = sm_part s"
  "sm_part (poll_answered k r s) = sm_part s" "sm_part (begin_job j s) = sm_part s" "sm_part (set_sched_phase n ph s) = sm_part s"
  "sm_part (finish_job n s) = sm_part s" "sm_part (fail_job n e s) = sm_part s" "sm_part (succeed_job n s) = sm_part s" "sm_part (job_loaded n r s) = sm_part s"
  "sm_part (send_save port u n x s) = sm_part s" "sm_part (edit_schedule port row s) = sm_part s" "sm_part (schedules_render project session q version active s) = sm_part s"
  by (auto simp: scope_loaded_def poll_schedules_def restart_loops_def poll_answered_def begin_job_def set_sched_phase_def finish_job_def fail_job_def succeed_job_def
      job_loaded_def send_save_def edit_schedule_def schedules_render_def enter_scope_def Let_def split: sum.split option.split)

lemma same_part_answered [simp]: "sm_part (job_answered port u n r s) = sm_part s" "sm_part (save_answered n q s) = sm_part s"
  by (auto simp: job_answered_def save_answered_def Let_def split: sum.split sched_job.split sched_reply.split sched_phase.split option.split)

lemma part_frame: "sm_part t = sm_part s \<Longrightarrow> part_ok port t = part_ok port s"
  by (simp add: part_ok_def)

lemma clicked_part:
  assumes "part_ok port s" "a \<in> set (offers (schedules_view port pretty typed s))" shows "part_ok port (sched_clicked port now a s)"
proof (cases a)
  case (GrantPart c)
  then obtain g pretty' typed' where g: "sm_part s = Some g" "c \<in> set (offers (grant_view pretty' (so_grant port) typed' g))" using offered_part assms(2) by blast
  then have "grant_ok (so_grant port) (grant_clicked (so_grant port) now c g)"
    using assms(1) grant_moves_ok [OF bm_clicked [OF g(2)]] by (simp add: part_ok_def)
  then show ?thesis using g GrantPart by (simp add: sched_clicked_def part_ok_def)
qed (use assms(1) in \<open>simp_all add: sched_clicked_def part_frame part_ok_def\<close>)

section \<open>Every reachable state\<close>

definition sched_ok :: "sched_port \<Rightarrow> sched_manager \<Rightarrow> bool" where
  "sched_ok port s \<longleftrightarrow> sched_port_ok port \<and> sched_flight_ok s \<and> keys_ok s \<and> part_ok port s \<and> draft_current port s \<and> auth_ok port s"

lemma opened_cores:
  "sched_flight_core (open_schedules port zone project session active) = (1, [], None, False, True)"
  "key_core (open_schedules port zone project session active) = (1, ([], []), [])"
  "auth_core (open_schedules port zone project session active) = ([], {})" "sm_part (open_schedules port zone project session active) = None"
  unfolding open_schedules_def quiet_cores quiet_keys quiet_auth same_part
  by (simp_all add: sched_flight_core_def key_core_def auth_core_def enter_scope_def)

lemma opened_draft: "sm_draft (open_schedules port zone project session active) = no_draft"
  by (simp add: open_schedules_def restart_loops_def poll_schedules_def enter_scope_def Let_def)

lemma sched_opened_ok: assumes "sched_opened port s" shows "sched_ok port s \<and> (\<exists>g. sched_ledger s = (g, [], False))"
proof -
  obtain zone project session active where s: "sched_port_ok port" "s = open_schedules port zone project session active"
    using assms by (auto simp: sched_opened_def)
  note cores = opened_cores [of port zone project session active, folded s(2)]
  have "sched_flight_ok s" "sched_ledger s = (1, [], False)" using cores(1) by (auto simp: sched_flight_core_def sched_flight_ok_def sched_ledger_def)
  moreover have "keys_ok s" using cores(2) by (auto simp: key_core_def keys_ok_def last_open_def)
  moreover have "auth_ok port s" "part_ok port s" "draft_current port s"
    using cores(3,4) opened_draft s(2) by (simp_all add: auth_ok_def part_ok_def draft_current_def)
  ultimately show ?thesis using s(1) by (simp add: sched_ok_def)
qed

lemma render_auth: "auth_core (schedules_render project session q version active s) = auth_core s"
  by (simp add: schedules_render_def Let_def) (simp add: auth_core_def enter_scope_def)

lemma clicked_auth:
  assumes "sched_ok port s" "sm_alive s" "a \<in> set (offers (schedules_view port pretty typed s))" shows "auth_ok port (sched_clicked port now a s)"
proof -
  have ok: "auth_ok port s" "draft_current port s" "part_ok port s" using assms(1) by (simp_all add: sched_ok_def)
  have submit: "job_auth port (SaveJob (save_closure port s))" if "a = SubmitSchedule"
    using submitted_auth [OF ok(2,3) assms(2)] offered_submit assms(3) that by blast
  have asked: "job_auth port j" if "a = AskJob j" for j
    using schedules_offers [OF assms(3)] that by (auto simp: form_actions_def detail_actions_def job_auth_def dest!: row_offers sched_detail_offers split: if_splits)
  have plain: "job_auth port RefreshJob" "job_auth port (PreviewJob v)" for v by (simp_all add: job_auth_def)
  show ?thesis
  proof (cases a)
    case (EditSchedule row)
    then show ?thesis using ok(1) auth_frame [OF quiet_auth(6)] by (simp add: sched_clicked_def)
  qed (use ok(1) submit asked plain begin_auth in \<open>simp_all add: sched_clicked_def, simp_all add: auth_ok_def auth_core_def\<close>)
qed

lemma sched_moves_ok: assumes "sched_moves port s t" "sched_ok port s" shows "sched_ok port t"
proof -
  have ok: "sched_port_ok port" "sched_flight_ok s" "keys_ok s" "part_ok port s" "draft_current port s" "auth_ok port s" using assms(2) by (simp_all add: sched_ok_def)
  have flight: "sched_flight_ok t" using moves_step [OF assms(1) ok(2)] by (simp add: flight_step_def)
  have keys: "keys_ok t" by (rule moves_keys [OF assms(1) ok(3,1)])
  have after: "sched_ok port t" if "t = settle_schedules port now s u" "part_ok port u" "auth_ok port u" for now u
    using flight keys that settle_part [OF ok(1) that(2)] auth_frame [OF quiet_auth(1)] ok(1) by (simp add: sched_ok_def)
  show ?thesis using assms(1)
  proof cases
    case (sd_clicked a pretty typed now)
    then show ?thesis using after clicked_part [OF ok(4)] clicked_auth [OF assms(2)] by blast
  next
    case (sd_answered n r u now)
    then show ?thesis using after answered_auth [OF ok(6)] part_frame [OF same_part_answered(1)] ok(4) by blast
  next
    case (sd_saved n i now r)
    then show ?thesis using after saved_auth [OF ok(6)] part_frame [OF same_part_answered(2)] ok(4) by blast
  next
    case (sd_loaded n now r)
    then show ?thesis using after end_auth(4) auth_frame part_frame [OF same_part(10)] ok(4,6) by metis
  next
    case (sd_polled k now r)
    then show ?thesis using after auth_frame [OF quiet_auth(5)] part_frame [OF same_part(4)] ok(4,6) by blast
  next
    case (sd_render now project session q version active)
    then show ?thesis using after auth_frame [OF render_auth] part_frame [OF same_part(13)] ok(4,6) by blast
  next
    case (sd_tabs g n now r)
    have "grant_ok (so_grant port) (tabs_answered (so_grant port) n r g)"
      using sd_tabs ok(4) grant_moves_ok [OF bm_answered] by (simp add: part_ok_def)
    then show ?thesis using after [OF sd_tabs(1)] ok(6) by (simp add: part_ok_def auth_ok_def auth_core_def)
  next
    case (sd_timer n)
    then have "draft_current port t" using ok(5) by (auto simp: draft_current_def poll_schedules_def part_shown_def browser_eligible_def Let_def split: if_splits)
    then show ?thesis using sd_timer flight keys ok part_frame [OF same_part(2)] auth_frame [OF quiet_auth(3)] by (simp add: sched_ok_def)
  next
    case sd_unmounted
    then show ?thesis using flight keys ok by (simp add: sched_ok_def part_ok_def draft_current_def auth_ok_def auth_core_def unmount_schedules_def)
  qed
qed

interpretation sched_jobs: one_at_a_time "sched_opened port" "sched_moves port" "sched_ok port" sched_ledger for port
proof
  show "sched_opened port s \<Longrightarrow> sched_ok port s \<and> (\<exists>g. sched_ledger s = (g, [], False))" for s by (rule sched_opened_ok)
  show "sched_ok port s \<Longrightarrow> sched_moves port s t \<Longrightarrow> sched_ok port t" for s t by (rule sched_moves_ok)
  show "sched_ok port s \<Longrightarrow> sched_moves port s t \<Longrightarrow> op_change (sched_ledger s) (sched_ledger t)" for s t
    using moves_step by (simp add: sched_ok_def flight_step_def)
qed

section \<open>What is asked of the host\<close>

lemma creations_kept:
  "sm_creations (settle_schedules port now old u) = sm_creations u" "length (sm_creations (save_answered n r s)) = length (sm_creations s)"
  "sm_creations (unmount_schedules s) = sm_creations s" "sm_creations (schedules_render project session q version active s) = sm_creations s"
  by (simp add: settle_schedules_def Let_def,
      auto simp: save_answered_def succeed_job_def finish_job_def fail_job_def set_sched_phase_def mark_created_def Let_def split: sum.split sched_phase.split option.split,
      auto simp: unmount_schedules_def schedules_render_def restart_loops_def poll_schedules_def enter_scope_def Let_def)

lemma creations_of_core: "key_core t = key_core s \<Longrightarrow> sm_creations t = sm_creations s"
  by (simp add: key_core_def)

lemma sent_id:
  assumes "sm_creations (job_answered port u n r s) = sm_creations s @ [c]"
  shows "creation_id c = (if snd (sm_intent s) = cr_payload c then sm_intent s else (u, cr_payload c))"
proof -
  have same: "sm_creations (scope_loaded g v x) = sm_creations x" "sm_creations (succeed_job n x) = sm_creations x" "sm_creations (fail_job n e x) = sm_creations x"
    "sm_creations (finish_job n x) = sm_creations x" "sm_creations (set_sched_phase n ph x) = sm_creations x" for x g v e ph
    by (rule creations_of_core, rule quiet_keys)+
  obtain j where "sm_creations (send_save port u n j s) = sm_creations s @ [c]"
    using assms by (auto simp: job_answered_def same split: sum.splits sched_job.splits sched_reply.splits if_splits)
  then show ?thesis
    by (cases "sm_intent s") (auto simp: send_save_def same creation_id_def Let_def split: option.splits if_splits)
qed

lemma creation_sent:
  assumes "sched_moves port s t" "sm_creations t = sm_creations s @ [c]"
  shows "\<exists>u. fresh_uuid u s \<and> creation_id c = (if snd (sm_intent s) = cr_payload c then sm_intent s else (u, cr_payload c))"
  using assms(1)
proof cases
  case (sd_answered n r u now)
  then show ?thesis using sent_id assms(2) by (auto simp: creations_kept)
next
  case (sd_saved n i now r)
  then have "length (sm_creations t) = length (sm_creations s)" by (simp add: creations_kept)
  then show ?thesis using assms(2) by simp
next
  case (sd_tabs g n now r)
  then have "sm_creations t = sm_creations s" by (simp add: creations_kept)
  then show ?thesis using assms(2) by simp
next
  case (sd_clicked a pretty typed now)
  then have "sm_creations t = sm_creations s" using creations_of_core [OF quiet_keys(12)] by (simp add: creations_kept)
  then show ?thesis using assms(2) by simp
next
  case (sd_loaded n now r)
  then have "sm_creations t = sm_creations s" using creations_of_core [OF quiet_keys(11)] by (simp add: creations_kept)
  then show ?thesis using assms(2) by simp
next
  case (sd_polled k now r)
  then have "sm_creations t = sm_creations s" using creations_of_core [OF quiet_keys(5)] by (simp add: creations_kept)
  then show ?thesis using assms(2) by simp
next
  case (sd_timer n)
  then have "sm_creations t = sm_creations s" using creations_of_core [OF quiet_keys(3)] by simp
  then show ?thesis using assms(2) by simp
qed (use assms(2) in \<open>simp_all add: creations_kept\<close>)



text \<open>What a job names is listed, in a state that the job fits.\<close>

definition job_listed :: "sched_manager \<Rightarrow> sched_job \<Rightarrow> bool" where
  "job_listed s j \<longleftrightarrow>
     (case j of
        RunJob k v \<Rightarrow> \<exists>r \<in> set (ct_schedules (sm_data s)). sc_id r = k \<and> sc_revision r = v \<and> \<not> sc_archived r
      | ToggleJob k v on \<Rightarrow> \<exists>r \<in> set (ct_schedules (sm_data s)). sc_id r = k \<and> sc_revision r = v \<and> \<not> sc_archived r \<and> on \<noteq> sc_enabled r
      | ArchiveJob k v \<Rightarrow> \<exists>r \<in> set (ct_schedules (sm_data s)). sc_id r = k \<and> sc_revision r = v \<and> \<not> sc_archived r
      | RevokeJob k \<Rightarrow> \<exists>g \<in> set (ct_grants (sm_data s)). dl_id g = k \<and> \<not> dl_revoked g
      | ConfirmJob k \<Rightarrow> \<exists>x \<in> set (ct_runs (sm_data s)). sr_id x = k
      | StopJob k \<Rightarrow> \<exists>x \<in> set (ct_runs (sm_data s)). sr_id x = k
      | _ \<Rightarrow> True)"

lemma row_listed_job: "r \<in> set (ct_schedules (sm_data s)) \<Longrightarrow> AskJob j \<in> set (offers (schedule_row port s r)) \<Longrightarrow> job_listed s j"
  by (auto simp: job_listed_def dest!: row_offers)

lemma detail_listed_job: "r \<in> set (ct_schedules (sm_data s)) \<Longrightarrow> AskJob j \<in> detail_actions s r \<Longrightarrow> job_listed s j"
  by (auto simp: detail_actions_def job_listed_def split: if_splits)

lemma asked_listed:
  assumes "AskJob j \<in> set (offers (schedules_view port pretty typed s))" shows "job_listed s j"
proof -
  have "AskJob j \<notin> form_actions port s" by (auto simp: form_actions_def)
  then show ?thesis using schedules_offers [OF assms] row_listed_job detail_listed_job sched_detail_offers by blast
qed

lemma ops_length:
  "length (sm_ops (settle_schedules port now old u)) = length (sm_ops u)" "length (sm_ops (job_answered port k n r s)) = length (sm_ops s)"
  "length (sm_ops (save_answered n q s)) = length (sm_ops s)" "length (sm_ops (job_loaded n v s)) = length (sm_ops s)"
proof -
  have [simp]: "length (sm_ops (set_sched_phase n ph x)) = length (sm_ops x)" "sm_ops (scope_loaded g v x) = sm_ops x" for x n ph g v
    by (simp_all add: set_sched_phase_def scope_loaded_def)
  have [simp]: "length (sm_ops (finish_job n x)) = length (sm_ops x)" for x n by (simp add: finish_job_def Let_def)
  have [simp]: "length (sm_ops (fail_job n e x)) = length (sm_ops x)" "length (sm_ops (succeed_job n x)) = length (sm_ops x)" for x n e
    by (simp_all add: fail_job_def succeed_job_def)
  show "length (sm_ops (settle_schedules port now old u)) = length (sm_ops u)" by (simp add: settle_schedules_def Let_def)
  have "length (sm_ops (send_save port k n j s)) = length (sm_ops s)" for j by (simp add: send_save_def Let_def split: option.split)
  then show "length (sm_ops (job_answered port k n r s)) = length (sm_ops s)"
    by (auto simp: job_answered_def split: sum.split sched_job.split sched_reply.split)
  show "length (sm_ops (save_answered n q s)) = length (sm_ops s)" by (simp add: save_answered_def Let_def split: sum.split sched_phase.split option.split)
  show "length (sm_ops (job_loaded n v s)) = length (sm_ops s)" by (simp add: job_loaded_def split: sum.split)
qed

lemma click_ops:
  "sm_ops (sched_clicked port now a s) = sm_ops s \<or> (\<exists>j. sched_clicked port now a s = begin_job j s \<and> (a = AskJob j \<or> job_listed s j))"
  by (cases a) (simp_all add: sched_clicked_def edit_schedule_def Let_def job_listed_def, (rule disjI2, rule exI, rule conjI [OF refl], simp)+)

lemma begun_ops: "length (sm_ops s) < length (sm_ops (begin_job j s)) \<Longrightarrow> sm_flight s \<noteq> Some (sm_epoch s)
    \<and> sm_ops (begin_job j s) = sm_ops s @ [\<lparr>so_generation = sm_epoch s, so_job = j, so_phase = SchedAsked\<rparr>]"
  by (simp add: begin_job_def split: if_splits)

lemma polled_ops: "sm_ops (poll_answered k v s) = sm_ops s" "sm_ops (poll_schedules n s) = sm_ops s" "sm_ops (unmount_schedules s) = sm_ops s"
  "sm_ops (schedules_render project session q version active s) = sm_ops s"
  by (auto simp: poll_answered_def scope_loaded_def schedules_render_def restart_loops_def poll_schedules_def enter_scope_def unmount_schedules_def Let_def split: sum.split)

lemma job_added:
  assumes "sched_moves port s t" "length (sm_ops s) < length (sm_ops t)"
  shows "\<exists>j. job_listed s j \<and> sm_flight s \<noteq> Some (sm_epoch s)
    \<and> sm_ops t = sm_ops s @ [\<lparr>so_generation = sm_epoch s, so_job = j, so_phase = SchedAsked\<rparr>]"
  using assms(1)
proof cases
  case (sd_clicked a pretty typed now)
  have t: "sm_ops t = sm_ops (sched_clicked port now a s)" using sd_clicked(1) by (simp add: settle_schedules_def Let_def)
  then obtain j where "sched_clicked port now a s = begin_job j s" "a = AskJob j \<or> job_listed s j"
    using click_ops [of port now a s] assms(2) by auto
  then show ?thesis using t assms(2) begun_ops [of s j] sd_clicked(3) asked_listed by metis
qed (use assms(2) in \<open>simp_all add: ops_length polled_ops\<close>)

text \<open>The host is asked for one thing at a time, and only for what is listed: a schedule under the revision that was read and while it is not archived, a
  grant that is not revoked, a run of the catalogue.\<close>

theorem jobs_fit_what_is_listed:
  assumes "reached (sched_opened port) (sched_moves port) s" "sched_moves port s t" "length (sm_ops s) < length (sm_ops t)"
  shows "job_listed s (so_job (last (sm_ops t))) \<and> (\<forall>f \<in> set (sm_ops s). so_generation f = sm_epoch s \<longrightarrow> so_phase f = SchedDone)"
proof -
  obtain j where j: "job_listed s j" "sm_flight s \<noteq> Some (sm_epoch s)" "sm_ops t = sm_ops s @ [\<lparr>so_generation = sm_epoch s, so_job = j, so_phase = SchedAsked\<rparr>]"
    using job_added [OF assms(2,3)] by blast
  have "sched_ledger s = (sm_epoch s, map (\<lambda>f. (so_generation f, so_phase f = SchedDone)) (sm_ops s), False)" using j(2) by (simp add: sched_ledger_def)
  then have "(so_generation f, so_phase f = SchedDone) \<noteq> (sm_epoch s, False)" if "f \<in> set (sm_ops s)" for f
    using sched_jobs.none_open [OF assms(1) _ that] by blast
  then show ?thesis using j by auto
qed

section \<open>A run\<close>

fun sched_click_all :: "sched_port \<Rightarrow> (string \<times> sched_click) list \<Rightarrow> sched_manager \<Rightarrow> sched_manager" where
  "sched_click_all port [] s = s"
| "sched_click_all port (a # as) s = sched_click_all port as (settle_schedules port 5 s (sched_clicked port 5 (snd a) s))"

fun sched_offered :: "sched_port \<Rightarrow> (string \<times> sched_click) list \<Rightarrow> sched_manager \<Rightarrow> bool" where
  "sched_offered port [] s = True"
| "sched_offered port (a # as) s =
     (sm_alive s \<and> snd a \<in> set (offers (schedules_view port (\<lambda>_. []) (fst a) s)) \<and> sched_offered port as (settle_schedules port 5 s (sched_clicked port 5 (snd a) s)))"

lemma sched_clicked_through:
  "reached (sched_opened port) (sched_moves port) s \<Longrightarrow> sched_offered port as s \<Longrightarrow> reached (sched_opened port) (sched_moves port) (sched_click_all port as s)"
proof (induction as arbitrary: s)
  case (Cons a as)
  then have "reached (sched_opened port) (sched_moves port) (settle_schedules port 5 s (sched_clicked port 5 (snd a) s))"
    by (intro reached_moved [OF Cons.prems(1) sd_clicked [where pretty = "\<lambda>_. []" and typed = "fst a"]]) simp_all
  then show ?case using Cons by simp
qed simp

definition plain_sched_port :: sched_port where
  "plain_sched_port = \<lparr>so_grant = plain_grant_port, so_at = (\<lambda>_. NaN), so_date = (\<lambda>_. []), so_local = (\<lambda>_. []), so_show = (\<lambda>_. []),
     so_json = (\<lambda>v. case v of JObj fs \<Rightarrow> ''{'' @ nat_text (length fs) @ ''}'' | _ \<Rightarrow> [])\<rparr>"

definition sched_chat :: session where
  "sched_chat = \<lparr>ses_id = ''c'', ses_title = ''T'', ses_project_id = None, ses_cwd = None, ses_engine = ''internal'', ses_provider_id = None,
     ses_model = None, ses_mode = ''agent'', ses_draft_text = [], ses_draft_context = None, ses_revision = 1, ses_turns = None, ses_scroll = 0,
     ses_has_earlier = False, ses_runner_id = None, ses_worktree_id = None, ses_reasoning = []\<rparr>"

definition sched_start :: sched_manager where
  "sched_start = settle_schedules plain_sched_port 5 (open_schedules plain_sched_port ''UTC'' None (Some ''c'') True)
     (poll_answered 0 (Inr (empty_catalog, [sched_chat])) (open_schedules plain_sched_port ''UTC'' None (Some ''c'') True))"

definition sched_ticked :: sched_manager where
  "sched_ticked = sched_click_all plain_sched_port [([], EditSchedule None), ([], GrantPart (TickGrant True))] sched_start"

definition sched_tabs_listed :: sched_manager where
  "sched_tabs_listed = settle_schedules plain_sched_port 5 sched_ticked
     (sched_ticked\<lparr>sm_part := Some (tabs_answered (so_grant plain_sched_port) 0 (Inr [shop_tab]) (the (sm_part sched_ticked)))\<rparr>)"

definition sched_submitted :: sched_manager where
  "sched_submitted = sched_click_all plain_sched_port [([], GrantPart (TickTab shop_tab True)), ([], TickConsent True), ([], SubmitSchedule)] sched_tabs_listed"

definition sched_sent :: sched_manager where
  "sched_sent = settle_schedules plain_sched_port 5 sched_submitted (job_answered plain_sched_port ''k1'' 0 (Inr PlainReply) sched_submitted)"

definition sched_again :: sched_manager where
  "sched_again = sched_click_all plain_sched_port [([], SubmitSchedule)]
     (settle_schedules plain_sched_port 5 sched_sent (save_answered 0 (Inl (JsError ''offline'')) sched_sent))"

definition sched_failed :: sched_manager where
  "sched_failed = settle_schedules plain_sched_port 5 sched_sent (save_answered 0 (Inl (JsError ''offline'')) sched_sent)"

lemma sched_run_reached:
  shows submitted_reached: "reached (sched_opened plain_sched_port) (sched_moves plain_sched_port) sched_submitted"
    and sent_reached: "reached (sched_opened plain_sched_port) (sched_moves plain_sched_port) sched_sent"
    and failed_reached: "reached (sched_opened plain_sched_port) (sched_moves plain_sched_port) sched_failed"
    and again_reached: "reached (sched_opened plain_sched_port) (sched_moves plain_sched_port) sched_again"
proof -
  let ?r = "reached (sched_opened plain_sched_port) (sched_moves plain_sched_port)"
  let ?o = "open_schedules plain_sched_port ''UTC'' None (Some ''c'') True"
  have "sched_port_ok plain_sched_port" by (simp add: sched_port_ok_def plain_sched_port_def plain_grant_port_def)
  then have 0: "?r ?o" by (intro reached_opened) (auto simp: sched_opened_def)
  have "0 < length (sm_reads ?o)" "\<not> snd (sm_reads ?o ! 0)" by code_simp+
  then have 1: "?r sched_start" unfolding sched_start_def by (intro reached_moved [OF 0 sd_polled])
  have "sched_offered plain_sched_port [([], EditSchedule None), ([], GrantPart (TickGrant True))] sched_start" by code_simp
  then have 2: "?r sched_ticked" unfolding sched_ticked_def by (rule sched_clicked_through [OF 1])
  have "sm_part sched_ticked \<noteq> None" "0 < length (bg_reads (the (sm_part sched_ticked)))" "\<not> tq_done (bg_reads (the (sm_part sched_ticked)) ! 0)" by code_simp+
  then have 3: "?r sched_tabs_listed" unfolding sched_tabs_listed_def by (intro reached_moved [OF 2 sd_tabs]) auto
  have "sched_offered plain_sched_port [([], GrantPart (TickTab shop_tab True)), ([], TickConsent True), ([], SubmitSchedule)] sched_tabs_listed" by code_simp
  then show 4: "?r sched_submitted" unfolding sched_submitted_def by (rule sched_clicked_through [OF 3])
  have "0 < length (sm_ops sched_submitted)" "so_phase (sm_ops sched_submitted ! 0) = SchedAsked"
    "sched_reply_fits (so_job (sm_ops sched_submitted ! 0)) (Inr PlainReply)" "fresh_uuid ''k1'' sched_submitted" by code_simp+
  then show 5: "?r sched_sent" unfolding sched_sent_def by (rule reached_moved [OF 4 sd_answered])
  obtain i where "so_phase (sm_ops sched_sent ! 0) = SchedSaving i"
  proof -
    have "(case so_phase (sm_ops sched_sent ! 0) of SchedSaving i \<Rightarrow> True | _ \<Rightarrow> False)" by code_simp
    then show ?thesis using that by (auto split: sched_phase.splits)
  qed
  moreover have "0 < length (sm_ops sched_sent)" by code_simp
  ultimately show 6: "?r sched_failed" unfolding sched_failed_def by (intro reached_moved [OF 5 sd_saved])
  have "sched_offered plain_sched_port [([], SubmitSchedule)] sched_failed" by code_simp
  then show "?r sched_again" unfolding sched_again_def sched_failed_def [symmetric] by (rule sched_clicked_through [OF 6])
qed

definition sched_resent :: sched_manager where
  "sched_resent = settle_schedules plain_sched_port 5 sched_again (job_answered plain_sched_port ''k2'' 1 (Inr PlainReply) sched_again)"

lemma answered_creations: "sm_creations (job_answered port u n r s) = sm_creations s \<or> (\<exists>c. sm_creations (job_answered port u n r s) = sm_creations s @ [c])"
proof -
  have same: "sm_creations (scope_loaded g v x) = sm_creations x" "sm_creations (succeed_job n x) = sm_creations x" "sm_creations (fail_job n e x) = sm_creations x"
    "sm_creations (finish_job n x) = sm_creations x" "sm_creations (set_sched_phase n ph x) = sm_creations x" for x g v e ph
    by (rule creations_of_core, rule quiet_keys)+
  have "sm_creations (send_save port u n j s) = sm_creations s \<or> (\<exists>c. sm_creations (send_save port u n j s) = sm_creations s @ [c])" for j
    by (simp add: send_save_def same Let_def split: option.split)
  then show ?thesis by (auto simp: job_answered_def same split: sum.split sched_job.split sched_reply.split)
qed

lemma again_evaluated:
  shows again_keys: "map cr_key (sm_creations sched_again) = [''k1'']"
    and again_payload: "cr_payload (last (sm_creations sched_again)) = ''{10}''"
  by code_simp+

lemma again_epochs:
  shows again_epoch: "sm_epoch sched_again = 1"
    and again_open: "cr_epoch (last (sm_creations sched_again)) = 1" "\<not> cr_succeeded (last (sm_creations sched_again))"
  by code_simp+

lemma resent_evaluated:
  shows resent_count: "length (sm_creations sched_resent) = 2"
    and resent_payload: "cr_payload (last (sm_creations sched_resent)) = ''{10}''"
  by code_simp+

lemma resent_move: "sched_moves plain_sched_port sched_again sched_resent"
proof -
  have "1 < length (sm_ops sched_again)" "so_phase (sm_ops sched_again ! 1) = SchedAsked" by code_simp+
  moreover have "sched_reply_fits (so_job (sm_ops sched_again ! 1)) (Inr PlainReply)" by code_simp
  moreover have "fresh_uuid ''k2'' sched_again" by code_simp
  ultimately show ?thesis unfolding sched_resent_def by (rule sd_answered)
qed



theorem jobs_fit_what_is_listed_witness:
  "length (sm_ops sched_failed) < length (sm_ops sched_again) \<and> filter (\<lambda>f. so_phase f \<noteq> SchedDone) (sm_ops sched_failed) = []"
proof -
  have "sm_alive sched_failed" "SubmitSchedule \<in> set (offers (schedules_view plain_sched_port (\<lambda>_. []) [] sched_failed))" by code_simp+
  then have move: "sched_moves plain_sched_port sched_failed sched_again"
    using sd_clicked [of sched_failed SubmitSchedule plain_sched_port "\<lambda>_. []" "[]" 5] unfolding sched_again_def sched_failed_def [symmetric] by simp
  have more: "length (sm_ops sched_failed) < length (sm_ops sched_again)"
    and gens: "list_all (\<lambda>f. so_generation f = sm_epoch sched_failed) (sm_ops sched_failed)" by code_simp+
  show ?thesis using jobs_fit_what_is_listed [OF failed_reached move more] more gens by (simp add: list_all_iff filter_empty_conv)
qed

end
