(* ===== verification/SessionCache.thy ===== *)
theory SessionCache
  imports ApiTypes SessionFence
begin

text \<open>
  \<open>lib/workspace-data.ts\<close>: the session list, and \<open>SessionCache\<close>, which keeps the turns of
  a conversation in memory and refreshes them by polling. A poll is one flight of two requests
  (metadata of selected nodes, then new turns); reading earlier history is another flight that
  waits for a poll first. \<open>clear\<close> starts a new generation, and a flight of an older one may
  still be answered. Flights are numbered, since the code compares promises by identity.
\<close>

section \<open>Listing all sessions\<close>

record 'n page =
  pg_edges :: "(string \<times> 'n) list"
  pg_has_next :: bool
  pg_has_previous :: bool
  pg_start :: "string option"
  pg_end :: "string option"

text \<open>\<open>listSessions\<close>: the loop may not end, if the host keeps sending cursors; \<open>None\<close> is
  not returning. \<open>host\<close> answers the page after a cursor.\<close>

partial_function (option) list_sessions_from ::
  "(string option \<Rightarrow> 'n page) \<Rightarrow> string option \<Rightarrow> 'n list \<Rightarrow> 'n list option" where
  "list_sessions_from host after result =
     (let page = host after;
          result' = result @ map snd (pg_edges page);
          after' = (if pg_has_next page then pg_end page else None)
      in if truthy_text after' then list_sessions_from host after' result' else Some result')"

definition list_sessions :: "(string option \<Rightarrow> 'n page) \<Rightarrow> 'n list option" where
  "list_sessions host = list_sessions_from host None []"

text \<open>A host that serves the pages \<open>ps\<close> from a cursor on, the last one without a successor.\<close>

definition next_cursor :: "'n page \<Rightarrow> string option" where
  "next_cursor p = (if pg_has_next p then pg_end p else None)"

fun serves :: "(string option \<Rightarrow> 'n page) \<Rightarrow> string option \<Rightarrow> 'n page list \<Rightarrow> bool" where
  "serves host after [] = False"
| "serves host after [p] = (host after = p \<and> \<not> truthy_text (next_cursor p))"
| "serves host after (p # ps) =
     (host after = p \<and> truthy_text (next_cursor p) \<and> serves host (next_cursor p) ps)"

lemma list_sessions_from_serves:
  "serves host after ps \<Longrightarrow>
   list_sessions_from host after acc = Some (acc @ concat (map (\<lambda>p. map snd (pg_edges p)) ps))"
  by (induction host after ps arbitrary: acc rule: serves.induct)
    (subst list_sessions_from.simps; simp add: Let_def next_cursor_def)+

text \<open>C38. When the host serves finitely many pages, listing returns, and it returns the nodes of
  every page in the order of the pages, none twice and none left out.\<close>

theorem list_sessions_complete:
  assumes "serves host None ps"
  shows "list_sessions host = Some (concat (map (\<lambda>p. map snd (pg_edges p)) ps))"
  using list_sessions_from_serves [OF assms] by (simp add: list_sessions_def)

definition sample_host :: "string option \<Rightarrow> nat page" where
  "sample_host after =
     (if after = None then \<lparr>pg_edges = [(''a'', 1), (''b'', 2)], pg_has_next = True, pg_has_previous = False,
        pg_start = None, pg_end = Some ''b''\<rparr>
      else \<lparr>pg_edges = [(''c'', 3)], pg_has_next = False, pg_has_previous = True,
        pg_start = None, pg_end = Some ''c''\<rparr>)"

theorem list_sessions_complete_witness: "list_sessions sample_host = Some [1, 2, 3]"
  using list_sessions_complete [of sample_host "[sample_host None, sample_host (Some ''b'')]"]
  by (simp add: sample_host_def next_cursor_def truthy_text_def)

section \<open>The record of a conversation\<close>

record cached =
  ca_snapshot :: session
  ca_turns :: "turn list"
  ca_cursor :: "string option"
  ca_start :: "string option"
  ca_has_earlier :: bool
  ca_live_offset :: nat
  ca_report_offset :: nat

definition cache_terminal_statuses :: "string list" where
  "cache_terminal_statuses = [''completed'', ''failed'', ''cancelled'']"

definition refresh_cohort :: nat where
  "refresh_cohort = 30"

definition is_report :: "turn \<Rightarrow> bool" where
  "is_report t \<longleftrightarrow>
     (case turn_task t of None \<Rightarrow> False
      | Some k \<Rightarrow> task_report k \<noteq> None \<or> task_engine k = Some ''coordination'')"

definition is_live :: "turn \<Rightarrow> bool" where
  "is_live t \<longleftrightarrow> \<not> is_report t \<and>
     (case turn_task t of None \<Rightarrow> True | Some k \<Rightarrow> task_status k \<notin> set cache_terminal_statuses)"

text \<open>\<open>Set.add\<close> on a set kept in insertion order.\<close>

definition set_add :: "'a \<Rightarrow> 'a list \<Rightarrow> 'a list" where
  "set_add x xs = (if x \<in> set xs then xs else xs @ [x])"

definition add_turn :: "turn option \<Rightarrow> string list \<Rightarrow> string list" where
  "add_turn t selected = (case t of None \<Rightarrow> selected | Some x \<Rightarrow> set_add (turn_id x) selected)"

definition last_opt :: "'a list \<Rightarrow> 'a option" where
  "last_opt xs = (if xs = [] then None else Some (last xs))"

text \<open>\<open>cohort\<close>: the rotating window of at most \<open>refreshCohort\<close> rows of a pool, and the offset
  of the next poll.\<close>

definition cohort_rows :: "'a list \<Rightarrow> nat \<Rightarrow> 'a list" where
  "cohort_rows pool offset =
     map (\<lambda>i. pool ! ((offset mod length pool + i) mod length pool))
       [0..<min (length pool) refresh_cohort]"

definition cohort_next :: "'a list \<Rightarrow> nat \<Rightarrow> nat" where
  "cohort_next pool offset =
     (if pool = [] then 0
      else (offset mod length pool + min (length pool) refresh_cohort) mod length pool)"

record targets =
  tg_ids :: "string list"
  tg_live_offset :: nat
  tg_report_offset :: nat

definition refresh_targets :: "cached option \<Rightarrow> targets" where
  "refresh_targets r =
     (let turns = (case r of None \<Rightarrow> [] | Some c \<Rightarrow> ca_turns c);
          live_offset = (case r of None \<Rightarrow> 0 | Some c \<Rightarrow> ca_live_offset c);
          report_offset = (case r of None \<Rightarrow> 0 | Some c \<Rightarrow> ca_report_offset c);
          live = filter is_live turns;
          reports = filter is_report turns;
          s1 = add_turn (last_opt turns) [];
          s2 = add_turn (last_opt live) s1;
          s3 = add_turn (find (\<lambda>t. turn_task t \<noteq> None) (rev live)) s2;
          s4 = foldl (\<lambda>s t. add_turn (Some t) s) s3 (cohort_rows live live_offset);
          s5 = foldl (\<lambda>s t. add_turn (Some t) s) s4 (cohort_rows reports report_offset)
      in \<lparr>tg_ids = s5, tg_live_offset = cohort_next live live_offset,
          tg_report_offset = cohort_next reports report_offset\<rparr>)"

text \<open>The node ids of the metadata request; \<open>b64\<close> is \<open>btoa\<close>.\<close>

definition meta_request_ids :: "(string \<Rightarrow> string) \<Rightarrow> string \<Rightarrow> targets \<Rightarrow> string list" where
  "meta_request_ids b64 sid refresh =
     b64 (''WorkspaceSessionNode:'' @ sid) # map (\<lambda>i. b64 (''WorkspaceTurnNode:'' @ i)) (tg_ids refresh)"

subsection \<open>Committing a poll and a history page\<close>

text \<open>The metadata nodes: \<open>None\<close> is a \<open>null\<close> node, otherwise its task. \<open>updated\<close> maps the
  selected turn ids to their nodes.\<close>

definition refresh_turn ::
  "(string \<times> task option option) list \<Rightarrow> turn \<Rightarrow> turn list" where
  "refresh_turn updated t =
     (case map_of updated (turn_id t) of
        None \<Rightarrow> [t]
      | Some node \<Rightarrow>
          (case node of
             None \<Rightarrow> []
           | Some task \<Rightarrow>
               if task = None \<and> is_report t then [] else [t\<lparr>turn_task := task\<rparr>]))"

text \<open>The loop over the new page: a known turn is replaced in place, a new one appended. The
  position map always holds the index of each turn's last row.\<close>

definition merge_turn :: "turn list \<Rightarrow> turn \<Rightarrow> turn list" where
  "merge_turn turns t =
     (case find (\<lambda>i. turn_id (turns ! i) = turn_id t) (rev [0..<length turns]) of
        None \<Rightarrow> turns @ [t]
      | Some i \<Rightarrow> turns[i := t])"

definition commit_poll ::
  "cached option \<Rightarrow> session \<Rightarrow> targets \<Rightarrow> (string \<times> task option option) list \<Rightarrow> turn page \<Rightarrow> cached" where
  "commit_poll previous snapshot refresh updated page =
     (let record = (case previous of
            Some c \<Rightarrow> c
          | None \<Rightarrow> \<lparr>ca_snapshot = snapshot, ca_turns = [], ca_cursor = None, ca_start = None,
                     ca_has_earlier = False, ca_live_offset = 0, ca_report_offset = 0\<rparr>);
          kept = List.maps (refresh_turn updated) (ca_turns record);
          turns = foldl merge_turn kept (map snd (pg_edges page));
          done = record\<lparr>ca_snapshot := snapshot, ca_turns := turns,
                   ca_cursor := (if truthy_text (pg_end page) then pg_end page else ca_cursor record),
                   ca_live_offset := tg_live_offset refresh,
                   ca_report_offset := tg_report_offset refresh\<rparr>
      in if previous = None
         then done\<lparr>ca_start := (if truthy_text (pg_start page) then pg_start page else None),
                   ca_has_earlier := pg_has_previous page\<rparr>
         else done)"

definition commit_history :: "cached \<Rightarrow> turn page \<Rightarrow> cached" where
  "commit_history record page =
     (let known = turn_id ` set (ca_turns record) in
      record\<lparr>ca_turns := filter (\<lambda>t. turn_id t \<notin> known) (map snd (pg_edges page)) @ ca_turns record,
             ca_start := (if truthy_text (pg_start page) then pg_start page else ca_start record),
             ca_has_earlier := pg_has_previous page\<rparr>)"

text \<open>\<open>value\<close>: what a reader receives.\<close>

definition session_value :: "cached \<Rightarrow> session" where
  "session_value record =
     (ca_snapshot record)\<lparr>ses_turns := Some (ca_turns record), ses_has_earlier := ca_has_earlier record\<rparr>"

section \<open>Flights\<close>

datatype flight_phase =
    AwaitMeta (ph_cached: bool) (ph_targets: targets)
  | AwaitTurns (ph_cached: bool) (ph_targets: targets) (ph_snapshot: session)
      (ph_updated: "(string \<times> task option option) list")
  | AwaitRead (ph_read: nat)
  | AwaitHistory

record flight =
  fl_session :: string
  fl_generation :: nat
  fl_phase :: flight_phase

record session_cache =
  sc_generation :: nat
  sc_next :: nat
  sc_flights :: "string \<rightharpoonup> nat"
  sc_history :: "string \<rightharpoonup> nat"
  sc_records :: "string \<rightharpoonup> cached"
  sc_air :: "nat \<rightharpoonup> flight"
  sc_settled :: "nat \<rightharpoonup> js_error + session"

definition empty_cache :: session_cache where
  "empty_cache = \<lparr>sc_generation = 0, sc_next = 0, sc_flights = Map.empty, sc_history = Map.empty,
     sc_records = Map.empty, sc_air = Map.empty, sc_settled = Map.empty\<rparr>"

definition cache_clear :: "session_cache \<Rightarrow> session_cache" where
  "cache_clear c = c\<lparr>sc_generation := Suc (sc_generation c), sc_records := Map.empty,
     sc_flights := Map.empty, sc_history := Map.empty\<rparr>"

text \<open>\<open>read\<close>: a flight in the air for the same session is shared.\<close>

definition cache_read :: "string \<Rightarrow> session_cache \<Rightarrow> nat \<times> session_cache" where
  "cache_read sid c =
     (case sc_flights c sid of
        Some f \<Rightarrow> (f, c)
      | None \<Rightarrow>
          (let f = sc_next c; old = sc_records c sid;
               flight = \<lparr>fl_session = sid, fl_generation = sc_generation c,
                         fl_phase = AwaitMeta (old \<noteq> None) (refresh_targets old)\<rparr>
           in (f, c\<lparr>sc_next := Suc f, sc_flights := (sc_flights c)(sid \<mapsto> f),
                    sc_air := (sc_air c)(f \<mapsto> flight)\<rparr>)))"

text \<open>\<open>history\<close>: shared too; it captures the generation and then reads.\<close>

definition cache_history :: "string \<Rightarrow> session_cache \<Rightarrow> nat \<times> session_cache" where
  "cache_history sid c =
     (case sc_history c sid of
        Some f \<Rightarrow> (f, c)
      | None \<Rightarrow>
          (let (r, c1) = cache_read sid c; f = sc_next c1;
               flight = \<lparr>fl_session = sid, fl_generation = sc_generation c, fl_phase = AwaitRead r\<rparr>
           in (f, c1\<lparr>sc_next := Suc f, sc_history := (sc_history c1)(sid \<mapsto> f),
                     sc_air := (sc_air c1)(f \<mapsto> flight)\<rparr>)))"

text \<open>Settling: the \<open>finally\<close> handlers drop the flight from its table only when the table still
  holds this very flight.\<close>

definition drop_flight :: "nat \<Rightarrow> string \<Rightarrow> (string \<rightharpoonup> nat) \<Rightarrow> (string \<rightharpoonup> nat)" where
  "drop_flight f sid m = (if m sid = Some f then m(sid := None) else m)"

definition settle :: "nat \<Rightarrow> string \<Rightarrow> js_error + session \<Rightarrow> session_cache \<Rightarrow> session_cache" where
  "settle f sid result c =
     c\<lparr>sc_air := (sc_air c)(f := None), sc_settled := (sc_settled c)(f \<mapsto> result),
       sc_flights := drop_flight f sid (sc_flights c),
       sc_history := drop_flight f sid (sc_history c)\<rparr>"

definition stale_error :: js_error where
  "stale_error = JsError ''Conversation read was cancelled when the authenticated workspace changed''"

text \<open>The \<open>TypeError\<close> of \<open>this.records.get(id)!\<close> finding nothing.\<close>

definition missing_record :: js_error where
  "missing_record = JsError ''Cannot read properties of undefined''"

record meta_reply =
  mr_nodes :: "(session option \<times> task option) option list"

definition node_task :: "(session option \<times> task option) option \<Rightarrow> task option option" where
  "node_task node = map_option snd node"

definition node_snapshot :: "(session option \<times> task option) option list \<Rightarrow> session option" where
  "node_snapshot nodes =
     (case nodes of [] \<Rightarrow> None | n # _ \<Rightarrow> (case n of None \<Rightarrow> None | Some (s, _) \<Rightarrow> s))"

text \<open>The answer to the metadata request of flight \<open>f\<close>, a failed request being \<open>Inl\<close>.\<close>

definition on_meta :: "nat \<Rightarrow> js_error + meta_reply \<Rightarrow> session_cache \<Rightarrow> session_cache" where
  "on_meta f reply c =
     (case sc_air c f of
        Some fl \<Rightarrow>
          (case fl_phase fl of
             AwaitMeta had tg \<Rightarrow>
               (case reply of
                  Inl e \<Rightarrow> settle f (fl_session fl) (Inl e) c
                | Inr m \<Rightarrow>
                    if fl_generation fl \<noteq> sc_generation c then settle f (fl_session fl) (Inl stale_error) c
                    else (case node_snapshot (mr_nodes m) of
                        None \<Rightarrow> settle f (fl_session fl) (Inl (JsError ''Conversation is unavailable'')) c
                      | Some snap \<Rightarrow>
                          if length (mr_nodes m) \<noteq> Suc (length (tg_ids tg))
                          then settle f (fl_session fl)
                                 (Inl (JsError ''The host returned incomplete conversation metadata'')) c
                          else c\<lparr>sc_air := (sc_air c)(f \<mapsto> fl\<lparr>fl_phase :=
                                 AwaitTurns had tg snap
                                   (zip (tg_ids tg) (map node_task (tl (mr_nodes m))))\<rparr>)\<rparr>))
           | _ \<Rightarrow> c)
      | None \<Rightarrow> c)"

text \<open>The answer to the turns request. A record that existed when the flight started is the record
  still in the table: only \<open>clear\<close> removes records, and it changes the generation.\<close>

definition on_turns :: "nat \<Rightarrow> js_error + turn page \<Rightarrow> session_cache \<Rightarrow> session_cache" where
  "on_turns f reply c =
     (case sc_air c f of
        Some fl \<Rightarrow>
          (case fl_phase fl of
             AwaitTurns had tg snap updated \<Rightarrow>
               (case reply of
                  Inl e \<Rightarrow> settle f (fl_session fl) (Inl e) c
                | Inr page \<Rightarrow>
                    if fl_generation fl \<noteq> sc_generation c then settle f (fl_session fl) (Inl stale_error) c
                    else
                      (let record = commit_poll (if had then sc_records c (fl_session fl) else None)
                              snap tg updated page
                       in settle f (fl_session fl) (Inr (session_value record))
                            (c\<lparr>sc_records := (sc_records c)(fl_session fl \<mapsto> record)\<rparr>)))
           | _ \<Rightarrow> c)
      | None \<Rightarrow> c)"

text \<open>A history flight goes on when its read has settled.\<close>

definition on_read_settled :: "nat \<Rightarrow> session_cache \<Rightarrow> session_cache" where
  "on_read_settled f c =
     (case sc_air c f of
        Some fl \<Rightarrow>
          (case fl_phase fl of
             AwaitRead r \<Rightarrow>
               (case sc_settled c r of
                  None \<Rightarrow> c
                | Some (Inl e) \<Rightarrow> settle f (fl_session fl) (Inl e) c
                | Some (Inr _) \<Rightarrow>
                    if fl_generation fl \<noteq> sc_generation c then settle f (fl_session fl) (Inl stale_error) c
                    else (case sc_records c (fl_session fl) of
                        None \<Rightarrow> settle f (fl_session fl) (Inl missing_record) c
                      | Some record \<Rightarrow>
                          if \<not> ca_has_earlier record
                          then settle f (fl_session fl) (Inr (session_value record)) c
                          else c\<lparr>sc_air := (sc_air c)(f \<mapsto> fl\<lparr>fl_phase := AwaitHistory\<rparr>)\<rparr>))
           | _ \<Rightarrow> c)
      | None \<Rightarrow> c)"

definition on_history_page :: "nat \<Rightarrow> js_error + turn page \<Rightarrow> session_cache \<Rightarrow> session_cache" where
  "on_history_page f reply c =
     (case sc_air c f of
        Some fl \<Rightarrow>
          (case fl_phase fl of
             AwaitHistory \<Rightarrow>
               (case reply of
                  Inl e \<Rightarrow> settle f (fl_session fl) (Inl e) c
                | Inr page \<Rightarrow>
                    if fl_generation fl \<noteq> sc_generation c then settle f (fl_session fl) (Inl stale_error) c
                    else (case sc_records c (fl_session fl) of
                        None \<Rightarrow> settle f (fl_session fl) (Inl missing_record) c
                      | Some old \<Rightarrow>
                          (let record = commit_history old page
                           in settle f (fl_session fl) (Inr (session_value record))
                                (c\<lparr>sc_records := (sc_records c)(fl_session fl \<mapsto> record)\<rparr>))))
           | _ \<Rightarrow> c)
      | None \<Rightarrow> c)"

text \<open>One step of the cache and its host.\<close>

inductive cache_step :: "session_cache \<Rightarrow> session_cache \<Rightarrow> bool" where
  step_clear: "cache_step c (cache_clear c)"
| step_read: "cache_step c (snd (cache_read sid c))"
| step_history: "cache_step c (snd (cache_history sid c))"
| step_meta: "cache_step c (on_meta f m c)"
| step_turns: "cache_step c (on_turns f p c)"
| step_read_settled: "cache_step c (on_read_settled f c)"
| step_history_page: "cache_step c (on_history_page f p c)"

inductive cache_reachable :: "session_cache \<Rightarrow> bool" where
  reach_empty: "cache_reachable empty_cache"
| reach_step: "cache_reachable c \<Longrightarrow> cache_step c d \<Longrightarrow> cache_reachable d"

section \<open>The request budget and the rotation\<close>

lemma length_set_add: "length (set_add x xs) \<le> Suc (length xs)"
  by (simp add: set_add_def)

lemma length_add_turn: "length (add_turn t xs) \<le> Suc (length xs)"
  by (auto simp: add_turn_def set_add_def split: option.split)

lemma length_add_turns: "length (foldl (\<lambda>s t. add_turn (Some t) s) xs ts) \<le> length xs + length ts"
proof (induction ts arbitrary: xs)
  case Nil
  then show ?case by simp
next
  case (Cons t ts)
  show ?case
    using Cons.IH [of "add_turn (Some t) xs"] length_add_turn [of "Some t" xs] by simp
qed

lemma length_cohort_rows: "length (cohort_rows pool off) \<le> 30"
  by (simp add: cohort_rows_def refresh_cohort_def)

text \<open>A poll asks for at most 64 nodes, the session included, however long the conversation.\<close>

theorem refresh_budget: "length (meta_request_ids b64 sid (refresh_targets r)) \<le> 64"
proof -
  let ?turns = "case r of None \<Rightarrow> [] | Some c \<Rightarrow> ca_turns c"
  let ?live = "filter is_live ?turns" and ?reports = "filter is_report ?turns"
  let ?lo = "case r of None \<Rightarrow> 0 | Some c \<Rightarrow> ca_live_offset c"
  let ?ro = "case r of None \<Rightarrow> 0 | Some c \<Rightarrow> ca_report_offset c"
  let ?s3 = "add_turn (find (\<lambda>t. turn_task t \<noteq> None) (rev ?live))
       (add_turn (last_opt ?live) (add_turn (last_opt ?turns) []))"
  let ?s4 = "foldl (\<lambda>s t. add_turn (Some t) s) ?s3 (cohort_rows ?live ?lo)"
  let ?s5 = "foldl (\<lambda>s t. add_turn (Some t) s) ?s4 (cohort_rows ?reports ?ro)"
  have "length ?s3 \<le> 3"
    using length_add_turn [of "find (\<lambda>t. turn_task t \<noteq> None) (rev ?live)" "add_turn (last_opt ?live) (add_turn (last_opt ?turns) [])"]
      length_add_turn [of "last_opt ?live" "add_turn (last_opt ?turns) []"]
      length_add_turn [of "last_opt ?turns" "[]"] by simp
  then have "length ?s4 \<le> 33"
    using length_add_turns [of ?s3 "cohort_rows ?live ?lo"] length_cohort_rows [of ?live ?lo] by linarith
  then have "length ?s5 \<le> 63"
    using length_add_turns [of ?s4 "cohort_rows ?reports ?ro"] length_cohort_rows [of ?reports ?ro] by linarith
  then show ?thesis
    by (simp add: meta_request_ids_def refresh_targets_def Let_def)
qed

lemma cohort_rows_eq:
  "x \<in> set (cohort_rows pool off) \<longleftrightarrow>
     (\<exists>i < min (length pool) 30. x = pool ! ((off + i) mod length pool))"
  by (auto simp: cohort_rows_def refresh_cohort_def mod_add_left_eq)

lemma cohort_next_iterate:
  assumes "pool \<noteq> []"
  shows "(cohort_next pool ^^ j) off mod length pool
     = (off + j * min (length pool) 30) mod length pool"
proof (induction j)
  case 0
  then show ?case by simp
next
  case (Suc j)
  have "(cohort_next pool ^^ Suc j) off mod length pool
     = ((cohort_next pool ^^ j) off mod length pool + min (length pool) 30) mod length pool"
    using assms by (simp add: cohort_next_def refresh_cohort_def)
  also have "\<dots> = (off + j * min (length pool) 30 + min (length pool) 30) mod length pool"
    unfolding Suc.IH by (rule mod_add_left_eq)
  finally show ?case by (simp add: algebra_simps)
qed

text \<open>The rotation starves nobody: while the pool stays the same, every row of it is asked for
  within \<open>\<lceil>n / 30\<rceil>\<close> polls, from whatever offset the rotation stands at.\<close>

theorem rotation_covers:
  assumes "i < length pool"
  shows "\<exists>j < (length pool + 29) div 30. pool ! i \<in> set (cohort_rows pool ((cohort_next pool ^^ j) off))"
proof -
  let ?n = "length pool" and ?c = "min (length pool) 30"
  have n: "0 < ?n" using assms by linarith
  then have ne: "pool \<noteq> []" by auto
  define d where "d = (i + ?n - off mod ?n) mod ?n"
  have dn: "d < ?n" using n by (simp add: d_def)
  have om: "off mod ?n \<le> i + ?n" using n by (meson le_add2 less_imp_le mod_less_divisor order_trans)
  have "(off + d) mod ?n = (off mod ?n + (i + ?n - off mod ?n)) mod ?n"
    by (simp add: d_def mod_simps)
  also have "\<dots> = i" using om assms by simp
  finally have target: "(off + d) mod ?n = i" .
  define j where "j = d div ?c"
  define r where "r = d mod ?c"
  have c: "0 < ?c" using n by simp
  have r: "r < ?c" unfolding r_def by (rule mod_less_divisor [OF c])
  have jr: "d = j * ?c + r" unfolding r_def j_def by (rule div_mult_mod_eq [symmetric])
  have "((cohort_next pool ^^ j) off + r) mod ?n = (off + j * ?c + r) mod ?n"
    using cohort_next_iterate [OF ne, of j off] by (metis mod_add_left_eq)
  also have "\<dots> = i" using target jr by (simp add: add.assoc)
  finally have "pool ! i \<in> set (cohort_rows pool ((cohort_next pool ^^ j) off))"
    using r by (auto simp: cohort_rows_eq)
  moreover have "j < (?n + 29) div 30"
  proof (cases "?n \<le> 30")
    case True
    then have "j = 0" using dn by (simp add: j_def)
    moreover have "30 div 30 \<le> (?n + 29) div 30" using n by (intro div_le_mono) linarith
    ultimately show ?thesis by simp
  next
    case False
    then have "j = d div 30" by (simp add: j_def)
    then show ?thesis using dn by linarith
  qed
  ultimately show ?thesis by blast
qed

theorem rotation_covers_witness:
  "\<exists>j < (length [0..<70] + 29) div 30.
     [0..<70] ! 65 \<in> set (cohort_rows [0..<70] ((cohort_next [0..<70] ^^ j) 10))"
  using rotation_covers [of 65 "[0..<70]" 10] by simp

section \<open>Rows are merged, never duplicated\<close>

abbreviation turn_ids :: "turn list \<Rightarrow> string list" where
  "turn_ids ts \<equiv> map turn_id ts"

lemma find_index_Some:
  "find P (rev [0..<n]) = Some i \<Longrightarrow> i < n \<and> P i"
proof -
  assume "find P (rev [0..<n]) = Some i"
  then have "P i \<and> i \<in> set (rev [0..<n])"
    by (metis find_Some_iff nth_mem)
  then show ?thesis by simp
qed

lemma find_index_None: "find P (rev [0..<n]) = None \<longleftrightarrow> (\<forall>i < n. \<not> P i)"
  by (auto simp: find_None_iff)

lemma turn_ids_merge_turn:
  "turn_ids (merge_turn ts t) =
     (if turn_id t \<in> set (turn_ids ts) then turn_ids ts else turn_ids ts @ [turn_id t])"
proof (cases "find (\<lambda>i. turn_id (ts ! i) = turn_id t) (rev [0..<length ts])")
  case None
  then have "turn_id t \<notin> set (turn_ids ts)"
    unfolding find_index_None by (auto simp: in_set_conv_nth)
  with None show ?thesis by (simp add: merge_turn_def)
next
  case (Some i)
  from find_index_Some [OF Some] have i: "i < length ts" "turn_id (ts ! i) = turn_id t" by auto
  then have mem: "turn_id t \<in> set (turn_ids ts)" by (metis length_map nth_map nth_mem)
  have "turn_ids (ts[i := t]) = turn_ids ts"
    using i by (metis length_map list_update_id map_update nth_map)
  with Some mem show ?thesis by (simp add: merge_turn_def)
qed

lemma distinct_merge_turns:
  "distinct (turn_ids ts) \<Longrightarrow> distinct (turn_ids (foldl merge_turn ts us))"
  by (induction us arbitrary: ts) (auto simp: turn_ids_merge_turn)

lemma set_merge_turns:
  "set (turn_ids (foldl merge_turn ts us)) = set (turn_ids ts) \<union> set (turn_ids us)"
proof (induction us arbitrary: ts)
  case Nil
  then show ?case by simp
next
  case (Cons u us)
  show ?case
    unfolding foldl_Cons Cons.IH turn_ids_merge_turn by auto
qed

lemma prefix_merge_turns: "prefix (turn_ids ts) (turn_ids (foldl merge_turn ts us))"
proof (induction us arbitrary: ts)
  case Nil
  then show ?case by simp
next
  case (Cons u us)
  have "prefix (turn_ids ts) (turn_ids (merge_turn ts u))"
    by (simp add: turn_ids_merge_turn)
  with Cons.IH [of "merge_turn ts u"] show ?case by (simp add: prefix_order.order_trans)
qed

text \<open>A revoked turn: its node came back as \<open>null\<close>, or it is a report whose task is gone.\<close>

definition revoked :: "(string \<times> task option option) list \<Rightarrow> turn \<Rightarrow> bool" where
  "revoked updated t \<longleftrightarrow>
     (case map_of updated (turn_id t) of None \<Rightarrow> False
      | Some None \<Rightarrow> True | Some (Some k) \<Rightarrow> k = None \<and> is_report t)"

lemma refresh_turn_cases:
  "refresh_turn updated t = [] \<and> revoked updated t
   \<or> (\<exists>u. refresh_turn updated t = [u] \<and> turn_id u = turn_id t \<and> \<not> revoked updated t)"
  by (auto simp: refresh_turn_def revoked_def split: option.split)

lemma turn_ids_refresh:
  "turn_ids (List.maps (refresh_turn updated) ts)
     = turn_ids (filter (\<lambda>t. \<not> revoked updated t) ts)"
proof (induction ts)
  case Nil
  then show ?case by simp
next
  case (Cons t ts)
  then show ?case using refresh_turn_cases [of updated t] by auto
qed

lemma ca_turns_commit_poll:
  "ca_turns (commit_poll (Some c) snap tg updated page)
     = foldl merge_turn (List.maps (refresh_turn updated) (ca_turns c)) (map snd (pg_edges page))"
  by (simp add: commit_poll_def Let_def)

text \<open>A poll commits onto the rows it finds: what is not revoked stays, in its order and in
  front, the new page's turns are merged behind it, and no id is ever duplicated. A revoked row that
  the page does not carry is gone.\<close>

theorem commit_poll_rows:
  assumes "distinct (turn_ids (ca_turns c))"
  shows "distinct (turn_ids (ca_turns (commit_poll (Some c) snap tg updated page)))
    \<and> prefix (turn_ids (filter (\<lambda>t. \<not> revoked updated t) (ca_turns c)))
         (turn_ids (ca_turns (commit_poll (Some c) snap tg updated page)))
    \<and> set (turn_ids (ca_turns (commit_poll (Some c) snap tg updated page)))
       = set (turn_ids (filter (\<lambda>t. \<not> revoked updated t) (ca_turns c)))
         \<union> set (turn_ids (map snd (pg_edges page)))"
proof -
  have "distinct (turn_ids (List.maps (refresh_turn updated) (ca_turns c)))"
    unfolding turn_ids_refresh using assms by (rule distinct_map_filter)
  then show ?thesis
    unfolding ca_turns_commit_poll
    using distinct_merge_turns set_merge_turns prefix_merge_turns turn_ids_refresh by metis
qed

definition sample_turn :: "string \<Rightarrow> turn" where
  "sample_turn i = \<lparr>turn_id = i, turn_prompt = [], turn_task_id = None, turn_task = None, turn_seq = 1\<rparr>"

definition sample_session :: "string \<Rightarrow> session" where
  "sample_session i = \<lparr>ses_id = i, ses_title = [], ses_project_id = None, ses_cwd = None, ses_engine = ''internal'',
     ses_provider_id = None, ses_model = None, ses_mode = [], ses_draft_text = [], ses_draft_context = None,
     ses_revision = 1, ses_turns = None, ses_scroll = 0, ses_has_earlier = False, ses_runner_id = None,
     ses_worktree_id = None, ses_reasoning = []\<rparr>"

definition sample_cached :: "string list \<Rightarrow> cached" where
  "sample_cached is = \<lparr>ca_snapshot = sample_session ''s'', ca_turns = map sample_turn is, ca_cursor = None,
     ca_start = None, ca_has_earlier = True, ca_live_offset = 0, ca_report_offset = 0\<rparr>"

definition sample_page :: "string list \<Rightarrow> turn page" where
  "sample_page is = \<lparr>pg_edges = map (\<lambda>i. (i, sample_turn i)) is, pg_has_next = False,
     pg_has_previous = False, pg_start = None, pg_end = None\<rparr>"

theorem commit_poll_rows_witness:
  "set (turn_ids (ca_turns (commit_poll (Some (sample_cached [''a'', ''b''])) (sample_session ''s'')
      (refresh_targets None) [(''a'', None)] (sample_page [''c''])))) = {''b'', ''c''}"
proof -
  have "distinct (turn_ids (ca_turns (sample_cached [''a'', ''b''])))"
    by (simp add: sample_cached_def sample_turn_def)
  from commit_poll_rows [OF this, of "sample_session ''s''" "refresh_targets None" "[(''a'', None)]" "sample_page [''c'']"]
  have "set (turn_ids (ca_turns (commit_poll (Some (sample_cached [''a'', ''b''])) (sample_session ''s'')
      (refresh_targets None) [(''a'', None)] (sample_page [''c'']))))
    = set (turn_ids (filter (\<lambda>t. \<not> revoked [(''a'', None)] t) (ca_turns (sample_cached [''a'', ''b'']))))
      \<union> set (turn_ids (map snd (pg_edges (sample_page [''c'']))))" by blast
  then show ?thesis
    by (simp add: sample_cached_def sample_turn_def sample_page_def revoked_def insert_commute)
qed

text \<open>Earlier history goes in front of the rows already shown, which all stay as they are;
  a page without repetitions keeps the record without repetitions.\<close>

theorem commit_history_rows:
  assumes "distinct (turn_ids (ca_turns c))" and "distinct (turn_ids (map snd (pg_edges page)))"
  shows "distinct (turn_ids (ca_turns (commit_history c page)))
    \<and> suffix (ca_turns c) (ca_turns (commit_history c page))
    \<and> set (turn_ids (ca_turns (commit_history c page)))
       = set (turn_ids (ca_turns c)) \<union> set (turn_ids (map snd (pg_edges page)))"
proof -
  let ?new = "filter (\<lambda>t. turn_id t \<notin> turn_id ` set (ca_turns c)) (map snd (pg_edges page))"
  have rows: "ca_turns (commit_history c page) = ?new @ ca_turns c"
    by (simp add: commit_history_def)
  have "distinct (turn_ids ?new)" using assms(2) by (rule distinct_map_filter)
  with assms(1) rows show ?thesis by (auto simp: suffix_def)
qed

theorem commit_history_rows_witness:
  "set (turn_ids (ca_turns (commit_history (sample_cached [''b'', ''c'']) (sample_page [''a'', ''b'']))))
     = {''a'', ''b'', ''c''}"
proof -
  have d: "distinct (turn_ids (ca_turns (sample_cached [''b'', ''c''])))"
    and p: "distinct (turn_ids (map snd (pg_edges (sample_page [''a'', ''b'']))))"
    by (simp_all add: sample_cached_def sample_turn_def sample_page_def)
  from commit_history_rows [OF d p]
  have "set (turn_ids (ca_turns (commit_history (sample_cached [''b'', ''c'']) (sample_page [''a'', ''b'']))))
    = set (turn_ids (ca_turns (sample_cached [''b'', ''c'']))) \<union> set (turn_ids (map snd (pg_edges (sample_page [''a'', ''b'']))))"
    by blast
  then show ?thesis
    by (simp add: sample_cached_def sample_turn_def sample_page_def insert_commute)
qed

section \<open>Flights and generations\<close>

definition is_read :: "flight \<Rightarrow> bool" where
  "is_read fl \<longleftrightarrow> (case fl_phase fl of AwaitMeta _ _ \<Rightarrow> True | AwaitTurns _ _ _ _ \<Rightarrow> True | _ \<Rightarrow> False)"

definition reads_for :: "session_cache \<Rightarrow> string \<Rightarrow> nat \<Rightarrow> bool" where
  "reads_for c sid f \<longleftrightarrow>
     (\<exists>fl. sc_air c f = Some fl \<and> is_read fl \<and> fl_session fl = sid \<and> fl_generation fl = sc_generation c)"

text \<open>The invariant: numbers are fresh; the read table holds exactly the reads of the current
  generation; a read knows whether there was a record; a history flight that goes on finds one.\<close>

definition inv_fresh :: "session_cache \<Rightarrow> bool" where
  "inv_fresh c \<longleftrightarrow>
     (\<forall>f fl. sc_air c f = Some fl \<longrightarrow> f < sc_next c \<and> fl_generation fl \<le> sc_generation c \<and> sc_settled c f = None)
     \<and> (\<forall>f. sc_settled c f \<noteq> None \<longrightarrow> f < sc_next c)"

definition inv_reads :: "session_cache \<Rightarrow> bool" where
  "inv_reads c \<longleftrightarrow> (\<forall>sid f. sc_flights c sid = Some f \<longleftrightarrow> reads_for c sid f)"

definition inv_cached :: "session_cache \<Rightarrow> bool" where
  "inv_cached c \<longleftrightarrow>
     (\<forall>f fl. sc_air c f = Some fl \<and> is_read fl \<and> fl_generation fl = sc_generation c \<longrightarrow>
        ph_cached (fl_phase fl) = (sc_records c (fl_session fl) \<noteq> None))"

definition inv_history :: "session_cache \<Rightarrow> bool" where
  "inv_history c \<longleftrightarrow>
     (\<forall>f fl. sc_air c f = Some fl \<and> fl_generation fl = sc_generation c \<longrightarrow>
        (fl_phase fl = AwaitHistory \<longrightarrow> sc_records c (fl_session fl) \<noteq> None)
        \<and> (\<forall>r. fl_phase fl = AwaitRead r \<longrightarrow>
             reads_for c (fl_session fl) r \<or> (\<exists>e. sc_settled c r = Some (Inl e))
             \<or> (\<exists>v. sc_settled c r = Some (Inr v)) \<and> sc_records c (fl_session fl) \<noteq> None))"

definition cache_inv :: "session_cache \<Rightarrow> bool" where
  "cache_inv c \<longleftrightarrow> inv_fresh c \<and> inv_reads c \<and> inv_cached c \<and> inv_history c"

lemmas cache_inv_defs = cache_inv_def inv_fresh_def inv_reads_def inv_cached_def inv_history_def reads_for_def

lemma inv_reads_unique: "inv_reads c \<Longrightarrow> reads_for c s f \<Longrightarrow> reads_for c s g \<Longrightarrow> f = g"
  unfolding inv_reads_def by (metis option.inject)

lemma inv_reads_none: "inv_reads c \<Longrightarrow> sc_flights c s = None \<Longrightarrow> \<not> reads_for c s f"
  unfolding inv_reads_def by (metis option.distinct(1))

lemma inv_reads_dest: "inv_reads c \<Longrightarrow> (sc_flights c s = Some f) = reads_for c s f"
  unfolding inv_reads_def by blast

lemma cache_inv_empty: "cache_inv empty_cache"
  by (simp add: cache_inv_defs empty_cache_def)

lemma cache_inv_clear: "cache_inv c \<Longrightarrow> cache_inv (cache_clear c)"
  by (fastforce simp: cache_inv_defs cache_clear_def)

lemma cache_read_inv:
  assumes "cache_inv c"
  shows "cache_inv (snd (cache_read sid c)) \<and> reads_for (snd (cache_read sid c)) sid (fst (cache_read sid c))
    \<and> sc_generation (snd (cache_read sid c)) = sc_generation c"
proof (cases "sc_flights c sid")
  case (Some f)
  then have "cache_read sid c = (f, c)" by (simp add: cache_read_def)
  with Some assms show ?thesis by (auto simp: cache_inv_def inv_reads_def)
next
  case None
  let ?f = "sc_next c"
  let ?fl = "\<lparr>fl_session = sid, fl_generation = sc_generation c,
       fl_phase = AwaitMeta (sc_records c sid \<noteq> None) (refresh_targets (sc_records c sid))\<rparr>"
  let ?d = "c\<lparr>sc_next := Suc ?f, sc_flights := (sc_flights c)(sid \<mapsto> ?f), sc_air := (sc_air c)(?f \<mapsto> ?fl)\<rparr>"
  have d: "cache_read sid c = (?f, ?d)" using None by (simp add: cache_read_def Let_def)
  have fr: "inv_fresh c" and rd: "inv_reads c" and ca: "inv_cached c" and hi: "inv_history c"
    using assms by (auto simp: cache_inv_def)
  have free: "sc_air c ?f = None" using fr by (cases "sc_air c ?f") (auto simp: inv_fresh_def)
  have reads: "reads_for ?d s f \<longleftrightarrow> (if f = ?f then s = sid else reads_for c s f)" for s f
    using free by (auto simp: reads_for_def is_read_def)
  have unsettled: "sc_settled c ?f = None"
    using fr by (cases "sc_settled c ?f") (auto simp: inv_fresh_def)
  have unread: "\<not> reads_for c s ?f" for s using free by (simp add: reads_for_def)
  have not_next: "fl_phase gl \<noteq> AwaitRead ?f"
    if "sc_air c g = Some gl" "fl_generation gl = sc_generation c" for g gl
  proof
    assume "fl_phase gl = AwaitRead ?f"
    with hi that have "reads_for c (fl_session gl) ?f \<or> sc_settled c ?f \<noteq> None"
      unfolding inv_history_def by (metis option.distinct(1))
    with unsettled unread show False by simp
  qed
  have nf: "sc_flights c s \<noteq> Some ?f" for s
    using rd free by (auto simp: inv_reads_def reads_for_def)
  have "inv_fresh ?d" using fr by (fastforce simp: inv_fresh_def)
  moreover have "inv_reads ?d"
    unfolding inv_reads_def reads
    using inv_reads_dest [OF rd] inv_reads_none [OF rd None] nf by auto
  moreover have "inv_cached ?d"
    using ca by (auto simp: inv_cached_def)
  moreover have "inv_history ?d"
    unfolding inv_history_def reads using hi free not_next
    by (auto simp: inv_history_def)
  ultimately show ?thesis using reads d by (simp add: cache_inv_def)
qed

text \<open>Adding a history flight that waits for a read of the current generation.\<close>

lemma cache_history_inv:
  assumes "cache_inv c"
  shows "cache_inv (snd (cache_history sid c))"
proof (cases "sc_history c sid")
  case (Some f)
  then show ?thesis using assms by (simp add: cache_history_def)
next
  case None
  obtain r c1 where r: "cache_read sid c = (r, c1)" by (cases "cache_read sid c")
  have c1: "cache_inv c1" "reads_for c1 sid r" "sc_generation c1 = sc_generation c"
    using cache_read_inv [OF assms, of sid] r by auto
  let ?f = "sc_next c1"
  let ?fl = "\<lparr>fl_session = sid, fl_generation = sc_generation c1, fl_phase = AwaitRead r\<rparr>"
  let ?d = "c1\<lparr>sc_next := Suc ?f, sc_history := (sc_history c1)(sid \<mapsto> ?f), sc_air := (sc_air c1)(?f \<mapsto> ?fl)\<rparr>"
  have d: "snd (cache_history sid c) = ?d"
    using None r c1(3) by (simp add: cache_history_def Let_def)
  have fr: "inv_fresh c1" and rd: "inv_reads c1" and ca: "inv_cached c1" and hi: "inv_history c1"
    using c1(1) by (auto simp: cache_inv_def)
  have free: "sc_air c1 ?f = None" using fr by (cases "sc_air c1 ?f") (auto simp: inv_fresh_def)
  have reads: "reads_for ?d s f \<longleftrightarrow> reads_for c1 s f" for s f
    using free by (auto simp: reads_for_def is_read_def)
  have "inv_fresh ?d" using fr by (fastforce simp: inv_fresh_def)
  moreover have "inv_reads ?d" unfolding inv_reads_def reads using rd by (simp add: inv_reads_def)
  moreover have "inv_cached ?d" using ca by (auto simp: inv_cached_def is_read_def)
  moreover have "inv_history ?d"
    unfolding inv_history_def reads using hi c1(2) by (auto simp: inv_history_def)
  ultimately show ?thesis using d by (simp add: cache_inv_def)
qed

text \<open>Settling a flight; a read that succeeds has left a record behind.\<close>

lemma settle_inv:
  assumes inv: "cache_inv c" and air: "sc_air c f = Some fl"
    and ok: "\<And>v. res = Inr v \<Longrightarrow> is_read fl \<Longrightarrow> fl_generation fl = sc_generation c \<Longrightarrow>
       R (fl_session fl) \<noteq> None"
    and mono: "\<And>s. sc_records c s \<noteq> None \<Longrightarrow> R s \<noteq> None"
    and others: "\<And>g gl. sc_air c g = Some gl \<Longrightarrow> g \<noteq> f \<Longrightarrow> is_read gl \<Longrightarrow>
       fl_generation gl = sc_generation c \<Longrightarrow> (R (fl_session gl) = None) = (sc_records c (fl_session gl) = None)"
  shows "cache_inv (settle f (fl_session fl) res (c\<lparr>sc_records := R\<rparr>))"
proof -
  let ?d = "settle f (fl_session fl) res (c\<lparr>sc_records := R\<rparr>)"
  have fr: "inv_fresh c" and rd: "inv_reads c" and ca: "inv_cached c" and hi: "inv_history c"
    using inv by (auto simp: cache_inv_def)
  have sel: "sc_air ?d = (sc_air c)(f := None)" "sc_settled ?d = (sc_settled c)(f \<mapsto> res)"
    "sc_generation ?d = sc_generation c" "sc_records ?d = R" "sc_next ?d = sc_next c"
    "sc_flights ?d = drop_flight f (fl_session fl) (sc_flights c)"
    by (simp_all add: settle_def)
  have reads: "reads_for ?d s g \<longleftrightarrow> g \<noteq> f \<and> reads_for c s g" for s g
    by (auto simp: reads_for_def sel)
  have "inv_fresh ?d"
    using fr air by (auto simp: inv_fresh_def sel)
  moreover have "inv_reads ?d"
    unfolding inv_reads_def
  proof (intro allI)
    fix s g
    show "(sc_flights ?d s = Some g) = reads_for ?d s g"
    proof (cases "sc_flights c (fl_session fl) = Some f \<and> s = fl_session fl")
      case True
      then have "reads_for c s f" using inv_reads_dest [OF rd] by simp
      then have "reads_for c s g \<Longrightarrow> g = f" using inv_reads_unique [OF rd] by simp
      with True show ?thesis by (auto simp: sel drop_flight_def reads)
    next
      case False
      have "\<not> reads_for c s f"
        using False inv_reads_dest [OF rd, of s f] air by (auto simp: reads_for_def)
      then have "(sc_flights c s = Some g) = (g \<noteq> f \<and> reads_for c s g)"
        using inv_reads_dest [OF rd, of s g] by auto
      with False show ?thesis by (auto simp: sel drop_flight_def reads)
    qed
  qed
  moreover have "inv_cached ?d"
    unfolding inv_cached_def
  proof (intro allI impI)
    fix g gl assume g: "sc_air ?d g = Some gl \<and> is_read gl \<and> fl_generation gl = sc_generation ?d"
    then have "ph_cached (fl_phase gl) = (sc_records c (fl_session gl) \<noteq> None)"
      using ca by (auto simp: inv_cached_def sel split: if_splits)
    also have "\<dots> = (R (fl_session gl) \<noteq> None)"
    proof -
      have "sc_air c g = Some gl" "g \<noteq> f" "is_read gl" "fl_generation gl = sc_generation c"
        using g by (auto simp: sel split: if_splits)
      from others [OF this] show ?thesis by simp
    qed
    finally show "ph_cached (fl_phase gl) = (sc_records ?d (fl_session gl) \<noteq> None)" by (simp only: sel)
  qed
  moreover have "inv_history ?d"
    unfolding inv_history_def
  proof (intro allI impI conjI)
    fix g gl assume g: "sc_air ?d g = Some gl \<and> fl_generation gl = sc_generation ?d"
    then have gl: "sc_air c g = Some gl" "fl_generation gl = sc_generation c" "g \<noteq> f"
      by (auto simp: sel split: if_splits)
    show "sc_records ?d (fl_session gl) \<noteq> None" if "fl_phase gl = AwaitHistory"
      using hi gl that mono [of "fl_session gl"] by (auto simp: inv_history_def sel)
    fix r assume r: "fl_phase gl = AwaitRead r"
    show "reads_for ?d (fl_session gl) r \<or> (\<exists>e. sc_settled ?d r = Some (Inl e))
      \<or> (\<exists>v. sc_settled ?d r = Some (Inr v)) \<and> sc_records ?d (fl_session gl) \<noteq> None"
    proof (cases "r = f")
      case True
      then have "reads_for c (fl_session gl) f"
        using hi gl r air fr by (fastforce simp: inv_history_def inv_fresh_def)
      then have "is_read fl" "fl_session fl = fl_session gl" "fl_generation fl = sc_generation c"
        using air by (auto simp: reads_for_def)
      have "sc_settled ?d r = Some res" by (simp add: sel True)
      moreover have "sc_records ?d (fl_session gl) \<noteq> None" if "res = Inr v" for v
        using ok [OF that \<open>is_read fl\<close> \<open>fl_generation fl = sc_generation c\<close>]
          \<open>fl_session fl = fl_session gl\<close> unfolding sel(4) by simp
      ultimately show ?thesis by (metis sumE)
    next
      case False
      have "reads_for c (fl_session gl) r \<or> (\<exists>e. sc_settled c r = Some (Inl e))
        \<or> (\<exists>v. sc_settled c r = Some (Inr v)) \<and> sc_records c (fl_session gl) \<noteq> None"
        using hi gl(1,2) r unfolding inv_history_def by blast
      with False show ?thesis
        unfolding reads sel using mono [of "fl_session gl"] by (metis fun_upd_other)
    qed
  qed
  ultimately show ?thesis by (simp add: cache_inv_def)
qed

lemma settle_error_inv:
  "cache_inv c \<Longrightarrow> sc_air c f = Some fl \<Longrightarrow> cache_inv (settle f (fl_session fl) (Inl e) c)"
  using settle_inv [of c f fl "Inl e" "sc_records c"] by simp

text \<open>A flight that goes on to its next request keeps its session, generation and kind.\<close>

lemma advance_inv:
  assumes inv: "cache_inv c" and air: "sc_air c f = Some fl"
    and kind: "is_read (fl\<lparr>fl_phase := ph\<rparr>) = is_read fl"
    and cached: "is_read fl \<Longrightarrow> ph_cached ph = ph_cached (fl_phase fl)"
    and history: "ph = AwaitHistory \<Longrightarrow> fl_generation fl = sc_generation c \<Longrightarrow> sc_records c (fl_session fl) \<noteq> None"
    and no_read: "\<And>r. ph \<noteq> AwaitRead r"
  shows "cache_inv (c\<lparr>sc_air := (sc_air c)(f \<mapsto> fl\<lparr>fl_phase := ph\<rparr>)\<rparr>)"
proof -
  let ?d = "c\<lparr>sc_air := (sc_air c)(f \<mapsto> fl\<lparr>fl_phase := ph\<rparr>)\<rparr>"
  have fr: "inv_fresh c" and rd: "inv_reads c" and ca: "inv_cached c" and hi: "inv_history c"
    using inv by (auto simp: cache_inv_def)
  have reads: "reads_for ?d s g \<longleftrightarrow> reads_for c s g" for s g
    using air kind by (auto simp: reads_for_def)
  have "inv_fresh ?d" using fr air by (auto simp: inv_fresh_def)
  moreover have "inv_reads ?d" unfolding inv_reads_def reads using rd by (simp add: inv_reads_def)
  moreover have "inv_cached ?d"
    using ca air kind cached by (auto simp: inv_cached_def)
  moreover have "inv_history ?d"
    unfolding inv_history_def reads using hi history no_read by (auto simp: inv_history_def)
  ultimately show ?thesis by (simp add: cache_inv_def)
qed

lemma on_meta_inv: "cache_inv c \<Longrightarrow> cache_inv (on_meta f reply c)"
  unfolding on_meta_def
  by (auto split: option.split flight_phase.split sum.split simp: settle_error_inv is_read_def
      intro!: advance_inv)

lemma on_turns_inv:
  assumes "cache_inv c"
  shows "cache_inv (on_turns f reply c)"
proof -
  have "cache_inv (settle f (fl_session fl) (Inr v) (c\<lparr>sc_records := (sc_records c)(fl_session fl \<mapsto> r)\<rparr>))"
    if fl: "sc_air c f = Some fl" "is_read fl" "fl_generation fl = sc_generation c" for fl v r
  proof (rule settle_inv [OF assms fl(1)])
    fix g gl assume g: "sc_air c g = Some gl" "g \<noteq> f" "is_read gl" "fl_generation gl = sc_generation c"
    have "reads_for c (fl_session fl) f" "reads_for c (fl_session gl) g"
      using fl g by (auto simp: reads_for_def)
    then have "fl_session gl \<noteq> fl_session fl"
      using inv_reads_unique [of c] assms g(2) by (auto simp: cache_inv_def)
    then show "(((sc_records c)(fl_session fl \<mapsto> r)) (fl_session gl) = None) = (sc_records c (fl_session gl) = None)"
      by simp
  qed auto
  then show ?thesis
    unfolding on_turns_def Let_def using assms
    by (auto split: option.split flight_phase.split sum.split simp: settle_error_inv is_read_def)
qed

lemma on_read_settled_inv: "cache_inv c \<Longrightarrow> cache_inv (on_read_settled f c)"
  unfolding on_read_settled_def
  by (auto split: option.split flight_phase.split sum.split simp: settle_error_inv is_read_def
      intro!: advance_inv settle_inv [of c _ _ _ "sc_records c", simplified])

lemma on_history_page_inv:
  assumes "cache_inv c"
  shows "cache_inv (on_history_page f reply c)"
proof -
  have "cache_inv (settle f (fl_session fl) (Inr v) (c\<lparr>sc_records := (sc_records c)(fl_session fl \<mapsto> r)\<rparr>))"
    if fl: "sc_air c f = Some fl" "sc_records c (fl_session fl) = Some old" for fl v r old
    by (rule settle_inv [OF assms fl(1)]) (use fl in auto)
  then show ?thesis
    unfolding on_history_page_def Let_def using assms
    by (auto split: option.split flight_phase.split sum.split simp: settle_error_inv)
qed

lemma cache_step_inv: "cache_step c d \<Longrightarrow> cache_inv c \<Longrightarrow> cache_inv d"
  by (induction rule: cache_step.induct)
    (auto simp: cache_inv_clear cache_read_inv cache_history_inv on_meta_inv on_turns_inv
      on_read_settled_inv on_history_page_inv)

lemma cache_reachable_inv: "cache_reachable c \<Longrightarrow> cache_inv c"
  by (induction rule: cache_reachable.induct) (auto intro: cache_inv_empty cache_step_inv)

interpretation cache_fence: generation_fence sc_generation cache_step
  by unfold_locales
    (erule cache_step.cases; auto simp: cache_clear_def cache_read_def cache_history_def on_meta_def on_turns_def
      on_read_settled_def on_history_page_def settle_def Let_def
      split: option.split flight_phase.split sum.split prod.split)

text \<open>C1. However reads, history reads, answers, failures and account changes interleave, there is
  never more than one poll of a conversation in the air for the current account, and it is the one
  that new readers of the conversation share.\<close>

theorem one_poll_per_session:
  assumes "cache_reachable c"
    and "sc_air c f = Some fl" and "is_read fl" and "fl_generation fl = sc_generation c"
  shows "fst (cache_read (fl_session fl) c) = f \<and> snd (cache_read (fl_session fl) c) = c"
proof -
  have "reads_for c (fl_session fl) f" using assms(2-4) by (auto simp: reads_for_def)
  then have "sc_flights c (fl_session fl) = Some f"
    using cache_reachable_inv [OF assms(1)] by (auto simp: cache_inv_def inv_reads_def)
  then show ?thesis by (simp add: cache_read_def)
qed

definition sample_flight :: flight where
  "sample_flight = \<lparr>fl_session = ''s'', fl_generation = 0, fl_phase = AwaitMeta False (refresh_targets None)\<rparr>"

theorem one_poll_per_session_witness:
  "fst (cache_read ''s'' (snd (cache_read ''s'' empty_cache))) = 0"
proof -
  let ?c = "snd (cache_read ''s'' empty_cache)"
  have r: "cache_reachable ?c" by (rule reach_step [OF reach_empty step_read])
  have air: "sc_air ?c 0 = Some sample_flight"
    by (simp add: cache_read_def empty_cache_def sample_flight_def Let_def)
  have "is_read sample_flight" "fl_generation sample_flight = sc_generation ?c"
    by (simp_all add: sample_flight_def is_read_def cache_read_def empty_cache_def Let_def)
  from one_poll_per_session [OF r air this] show ?thesis by (simp add: sample_flight_def)
qed

lemma stale_answer:
  assumes "sc_air c f = Some fl" and "fl_generation fl \<noteq> sc_generation c"
  shows "sc_records (on_meta f m c) = sc_records c \<and> sc_records (on_turns f p c) = sc_records c
    \<and> sc_records (on_history_page f p c) = sc_records c
    \<and> (\<forall>had tg snap upd. fl_phase fl = AwaitTurns had tg snap upd \<longrightarrow>
         sc_settled (on_turns f (Inr page) c) f = Some (Inl stale_error))
    \<and> (fl_phase fl = AwaitHistory \<longrightarrow> sc_settled (on_history_page f (Inr page) c) f = Some (Inl stale_error))"
  using assms
  by (auto simp: on_meta_def on_turns_def on_history_page_def settle_def
      split: flight_phase.split sum.split option.split)

text \<open>An answer to a flight that started before the account changed writes nothing, however
  late it comes: the records stay as they are, and the reader that waits on the old flight gets the
  cancellation error.\<close>

theorem stale_answer_discarded:
  assumes "cache_step\<^sup>*\<^sup>* (cache_clear c) d"
    and "sc_air d f = Some fl" and "fl_generation fl \<le> sc_generation c"
  shows "sc_records (on_meta f m d) = sc_records d \<and> sc_records (on_turns f p d) = sc_records d
    \<and> sc_records (on_history_page f p d) = sc_records d
    \<and> (\<forall>had tg snap upd. fl_phase fl = AwaitTurns had tg snap upd \<longrightarrow>
         sc_settled (on_turns f (Inr page) d) f = Some (Inl stale_error))
    \<and> (fl_phase fl = AwaitHistory \<longrightarrow> sc_settled (on_history_page f (Inr page) d) f = Some (Inl stale_error))"
proof (rule stale_answer [OF assms(2)])
  show "fl_generation fl \<noteq> sc_generation d"
    using cache_fence.stale_forever [OF assms(1), of "fl_generation fl"] assms(3) by (simp add: cache_clear_def)
qed

theorem stale_answer_discarded_witness:
  "sc_records (on_turns 0 (Inr (sample_page [''a''])) (cache_clear (snd (cache_read ''s'' empty_cache)))) = Map.empty"
proof -
  let ?c = "snd (cache_read ''s'' empty_cache)"
  have "sc_air (cache_clear ?c) 0 = Some sample_flight" "fl_generation sample_flight \<le> sc_generation ?c"
    by (simp_all add: cache_clear_def cache_read_def empty_cache_def sample_flight_def Let_def)
  from stale_answer_discarded [OF rtranclp.rtrancl_refl this] show ?thesis by (simp add: cache_clear_def)
qed

end
