(* ===== verification/SessionChanges.thy ===== *)
theory SessionChanges
  imports SessionFence
begin

text \<open>
  \<open>lib/session-changes.ts\<close>: the changed files of a conversation's checkout, polled every five
  seconds while the panel is visible, the window in front and the workspace unlocked. A run number
  and an abort flag belong to each read; a scope names the checkout it was sent for. What a hook
  re-reads because its dependencies changed is the one function \<open>restart\<close>. The list itself is of
  any type. \<open>encodeURIComponent\<close> and \<open>URLSearchParams\<close> are parameters.
\<close>

record change_session =
  ch_id :: string
  ch_project :: "string option"
  ch_cwd :: "string option"
  ch_worktree :: "string option"
  ch_digest :: "string option"
  ch_runner :: "string option"

record change_options =
  co_owner :: "string option"
  co_project :: "string option"
  co_session :: "change_session option"
  co_visible :: bool

definition session_changes_path ::
  "(string \<Rightarrow> string) \<Rightarrow> ((string \<times> string) list \<Rightarrow> string) \<Rightarrow> change_session \<Rightarrow> string option \<Rightarrow> string" where
  "session_changes_path enc query session diff_path =
     (let params = (if truthy_text (ch_worktree session) then [(''worktree_id'', the (ch_worktree session))] else []) @
                   (case diff_path of None \<Rightarrow> [] | Some p \<Rightarrow> [(''path'', p)]);
          q = query params
      in ''/api/workspace/sessions/'' @ enc (ch_id session) @ ''/changes'' @ (if diff_path \<noteq> None then ''/diff'' else []) @
         (if q \<noteq> [] then CHR ''?'' # q else []))"

text \<open>\<open>JSON.stringify\<close> of the seven parts; \<open>undefined\<close> and \<open>null\<close> print alike.\<close>

type_synonym change_scope = "string option list"

definition scope_of :: "change_options \<Rightarrow> change_scope" where
  "scope_of o' = [co_owner o', co_project o'] @
     (case co_session o' of
        None \<Rightarrow> [None, None, None, None, None]
      | Some s \<Rightarrow> [Some (ch_id s), ch_cwd s, ch_worktree s, ch_digest s, ch_runner s])"

definition unavailable_reason :: "change_options \<Rightarrow> string option" where
  "unavailable_reason o' =
     (case co_session o' of
        None \<Rightarrow> Some ''Choose a conversation to review its changes.''
      | Some s \<Rightarrow>
          if co_project o' = None \<or> ch_project s \<noteq> co_project o' then Some ''Choose a project conversation to review changes.''
          else if truthy_text (ch_runner s) then Some ''Cloud changes belong to the runner workspace. Local checkout review is unavailable.''
          else None)"

record change_flight =
  cf_scope :: change_scope
  cf_run :: nat
  cf_aborted :: bool

record 'd changes =
  cs_options :: change_options
  cs_snapshot :: "(change_scope \<times> 'd) option"
  cs_failure :: "(change_scope \<times> string) option"
  cs_loading :: bool
  cs_paused :: bool
  cs_foreground :: bool
  cs_flights :: "change_flight list"
  cs_flight :: "nat option"
  cs_serial :: nat

definition changes_available :: "'d changes \<Rightarrow> bool" where
  "changes_available s \<longleftrightarrow> unavailable_reason (cs_options s) = None"

definition may_read :: "'d changes \<Rightarrow> bool" where
  "may_read s \<longleftrightarrow> changes_available s \<and> co_visible (cs_options s) \<and> \<not> cs_paused s \<and> cs_foreground s"

definition abort_flight :: "'d changes \<Rightarrow> 'd changes" where
  "abort_flight s =
     (case cs_flight s of
        None \<Rightarrow> s
      | Some n \<Rightarrow> s\<lparr>cs_flights := (cs_flights s)[n := (cs_flights s ! n)\<lparr>cf_aborted := True\<rparr>]\<rparr>)"

definition refresh_changes :: "'d changes \<Rightarrow> 'd changes" where
  "refresh_changes s =
     (if \<not> may_read s then s
      else (let t = abort_flight s; run = Suc (cs_serial s) in
        t\<lparr>cs_flights := cs_flights t @ [\<lparr>cf_scope = scope_of (cs_options s), cf_run = run, cf_aborted = False\<rparr>],
          cs_flight := Some (length (cs_flights t)), cs_serial := run, cs_loading := True\<rparr>))"

definition flight_current :: "change_flight \<Rightarrow> 'd changes \<Rightarrow> bool" where
  "flight_current f s \<longleftrightarrow> cf_scope f = scope_of (cs_options s) \<and> cf_run f = cs_serial s"

definition changes_answer :: "nat \<Rightarrow> js_error + 'd \<Rightarrow> 'd changes \<Rightarrow> 'd changes" where
  "changes_answer n reply s =
     (let f = cs_flights s ! n;
          t = (if cf_aborted f \<or> \<not> flight_current f s then s
               else case reply of
                 Inr d \<Rightarrow> s\<lparr>cs_snapshot := Some (cf_scope f, d), cs_failure := None\<rparr>
               | Inl e \<Rightarrow> s\<lparr>cs_snapshot := None, cs_failure := Some (cf_scope f, error_message e)\<rparr>)
      in if flight_current f s then t\<lparr>cs_loading := False, cs_flight := None\<rparr> else t)"

definition stop_reading :: "'d changes \<Rightarrow> 'd changes" where
  "stop_reading s = (abort_flight s)\<lparr>cs_serial := Suc (cs_serial s)\<rparr>"

definition restart_changes :: "'d changes \<Rightarrow> 'd changes" where
  "restart_changes s = refresh_changes (stop_reading s)"

definition set_paused :: "bool \<Rightarrow> 'd changes \<Rightarrow> 'd changes" where
  "set_paused b s = (if cs_paused s = b then s else restart_changes (s\<lparr>cs_paused := b\<rparr>))"

definition lock_changes :: "'d changes \<Rightarrow> 'd changes" where
  "lock_changes s = set_paused True ((stop_reading s)\<lparr>cs_loading := False, cs_snapshot := None\<rparr>)"

definition unlock_changes :: "'d changes \<Rightarrow> 'd changes" where
  "unlock_changes s = set_paused False s"

definition visibility_changed :: "bool \<Rightarrow> 'd changes \<Rightarrow> 'd changes" where
  "visibility_changed b s = (if cs_foreground s = b then s else restart_changes (s\<lparr>cs_foreground := b\<rparr>))"

definition reads_differ :: "change_options \<Rightarrow> change_options \<Rightarrow> bool" where
  "reads_differ a b \<longleftrightarrow> scope_of a \<noteq> scope_of b \<or> co_visible a \<noteq> co_visible b \<or> unavailable_reason a \<noteq> unavailable_reason b"

text \<open>A render with other properties; a change of the account lifts the pause.\<close>

definition render_changes :: "change_options \<Rightarrow> 'd changes \<Rightarrow> 'd changes" where
  "render_changes o' s =
     (let t = s\<lparr>cs_options := o'\<rparr>; u = (if reads_differ (cs_options s) o' then restart_changes t else t) in
      if co_owner (cs_options s) \<noteq> co_owner o' then set_paused False u else u)"

definition unmount_changes :: "'d changes \<Rightarrow> 'd changes" where
  "unmount_changes = stop_reading"

record 'd change_source =
  src_scope :: change_scope
  src_available :: bool
  src_reason :: "string option"
  src_data :: "'d option"
  src_loading :: bool
  src_error :: "string option"

definition changes_source :: "'d changes \<Rightarrow> 'd change_source" where
  "changes_source s =
     \<lparr>src_scope = scope_of (cs_options s), src_available = (changes_available s \<and> \<not> cs_paused s),
      src_reason = (if cs_paused s then Some ''Unlock the workspace to review changes.'' else unavailable_reason (cs_options s)),
      src_data = (case cs_snapshot s of None \<Rightarrow> None | Some (sc, d) \<Rightarrow> if \<not> cs_paused s \<and> sc = scope_of (cs_options s) then Some d else None),
      src_loading = (changes_available s \<and> co_visible (cs_options s) \<and> \<not> cs_paused s \<and> cs_loading s),
      src_error = (case cs_failure s of None \<Rightarrow> None | Some (sc, m) \<Rightarrow> if sc = scope_of (cs_options s) then Some m else None)\<rparr>"

inductive changes_step :: "'d changes \<Rightarrow> 'd changes \<Rightarrow> bool" where
  step_poll: "changes_step s (refresh_changes s)"
| step_answer: "n < length (cs_flights s) \<Longrightarrow> changes_step s (changes_answer n r s)"
| step_lock: "changes_step s (lock_changes s)"
| step_unlock: "changes_step s (unlock_changes s)"
| step_visibility: "changes_step s (visibility_changed b s)"
| step_render: "changes_step s (render_changes o' s)"
| step_unmount: "changes_step s (unmount_changes s)"

inductive_cases changes_stepE: "changes_step s t"

definition first_changes :: "change_options \<Rightarrow> bool \<Rightarrow> 'd changes" where
  "first_changes o' foreground = \<lparr>cs_options = o', cs_snapshot = None, cs_failure = None, cs_loading = False, cs_paused = False,
     cs_foreground = foreground, cs_flights = [], cs_flight = None, cs_serial = 0\<rparr>"

abbreviation changes_reachable :: "'d changes \<Rightarrow> bool" where
  "changes_reachable s \<equiv> \<exists>o' fg. changes_step\<^sup>*\<^sup>* (first_changes o' fg) s"

section \<open>Late answers\<close>

lemma abort_flight_fields [simp]:
  "cs_serial (abort_flight s) = cs_serial s" "map cf_run (cs_flights (abort_flight s)) = map cf_run (cs_flights s)"
  "cs_options (abort_flight s) = cs_options s" "cs_paused (abort_flight s) = cs_paused s" "cs_foreground (abort_flight s) = cs_foreground s"
  "cs_snapshot (abort_flight s) = cs_snapshot s" "cs_flight (abort_flight s) = cs_flight s"
  by (simp_all add: abort_flight_def map_update split: option.split) (metis list_update_id map_update nth_map list_update_beyond linorder_not_less length_map)

text \<open>Runs only grow: the numbers of the reads sent so far, followed by later ones.\<close>

definition runs_grow :: "'d changes \<Rightarrow> 'd changes \<Rightarrow> bool" where
  "runs_grow s t \<longleftrightarrow> cs_serial s \<le> cs_serial t \<and>
     (\<exists>rs. map cf_run (cs_flights t) = map cf_run (cs_flights s) @ rs \<and> (\<forall>r \<in> set rs. r \<le> cs_serial t))"

lemma runs_grow_refl [simp]: "runs_grow s s"
  by (simp add: runs_grow_def)

lemma runs_grow_trans: "runs_grow s t \<Longrightarrow> runs_grow t u \<Longrightarrow> runs_grow s u"
  unfolding runs_grow_def by (fastforce dest: order_trans)

lemma runs_grow_frame:
  "runs_grow s t \<Longrightarrow> cs_serial u = cs_serial t \<Longrightarrow> cs_flights u = cs_flights t \<Longrightarrow> runs_grow s u"
  "runs_grow s t \<Longrightarrow> cs_serial u = cs_serial s \<Longrightarrow> cs_flights u = cs_flights s \<Longrightarrow> runs_grow u t"
  by (simp_all add: runs_grow_def)

lemma runs_grow_refresh: "runs_grow s (refresh_changes s)"
  by (auto simp: runs_grow_def refresh_changes_def Let_def)

lemma runs_grow_stop: "runs_grow s (stop_reading s)"
  by (auto simp: runs_grow_def stop_reading_def)

lemma runs_grow_restart: "runs_grow s (restart_changes s)"
  unfolding restart_changes_def by (rule runs_grow_trans [OF runs_grow_stop runs_grow_refresh])

lemma runs_grow_paused: "runs_grow s (set_paused b s)"
  using runs_grow_frame(2) [OF runs_grow_restart [of "s\<lparr>cs_paused := b\<rparr>"], of s] by (simp add: set_paused_def)

lemma runs_grow_lock: "runs_grow s (lock_changes s)"
  unfolding lock_changes_def
  by (rule runs_grow_trans [OF runs_grow_frame(1) [OF runs_grow_stop] runs_grow_paused]) simp_all

lemma runs_grow_visibility: "runs_grow s (visibility_changed b s)"
  using runs_grow_frame(2) [OF runs_grow_restart [of "s\<lparr>cs_foreground := b\<rparr>"], of s] by (simp add: visibility_changed_def)

lemma runs_grow_render: "runs_grow s (render_changes o' s)"
proof -
  let ?t = "s\<lparr>cs_options := o'\<rparr>"
  have "runs_grow s ?t" by (simp add: runs_grow_def)
  then have "runs_grow s (if reads_differ (cs_options s) o' then restart_changes ?t else ?t)"
    using runs_grow_trans [OF _ runs_grow_restart [of ?t], of s] by simp
  then show ?thesis
    using runs_grow_trans [OF _ runs_grow_paused, of s _ False] by (cases "reads_differ (cs_options s) o'") (simp_all add: render_changes_def Let_def)
qed

lemma runs_grow_answer: "runs_grow s (changes_answer n r s)"
  by (auto simp: runs_grow_def changes_answer_def Let_def split: sum.split)

lemma runs_grow_step: "changes_step s t \<Longrightarrow> runs_grow s t"
  by (erule changes_stepE)
    (auto simp: runs_grow_refresh runs_grow_answer runs_grow_lock runs_grow_paused unlock_changes_def runs_grow_visibility
      runs_grow_render unmount_changes_def runs_grow_stop)

interpretation changes_fence: generation_fence cs_serial changes_step
  by unfold_locales (use runs_grow_step in \<open>auto simp: runs_grow_def\<close>)

lemma runs_grow_steps: "changes_step\<^sup>*\<^sup>* s t \<Longrightarrow> runs_grow s t"
  by (induction rule: rtranclp_induct) (auto intro: runs_grow_trans runs_grow_step)

lemma sent_run_bound:
  assumes "changes_reachable s" "n < length (cs_flights s)"
  shows "cf_run (cs_flights s ! n) \<le> cs_serial s"
proof -
  obtain o' fg where "runs_grow (first_changes o' fg) s" using assms(1) runs_grow_steps by blast
  then have "\<forall>r \<in> set (map cf_run (cs_flights s)). r \<le> cs_serial s" by (auto simp: runs_grow_def first_changes_def)
  then show ?thesis using nth_mem [OF assms(2)] by simp
qed

lemma run_kept: "runs_grow s t \<Longrightarrow> n < length (cs_flights s) \<Longrightarrow> cf_run (cs_flights t ! n) = cf_run (cs_flights s ! n) \<and> n < length (cs_flights t)"
  unfolding runs_grow_def by (metis (no_types, lifting) length_append length_map nth_append nth_map trans_less_add1)

lemma lock_serial: "cs_serial s < cs_serial (lock_changes s)"
proof -
  have "cs_serial ((stop_reading s)\<lparr>cs_loading := False, cs_snapshot := None\<rparr>) \<le> cs_serial (lock_changes s)"
    using runs_grow_paused unfolding lock_changes_def runs_grow_def by blast
  then show ?thesis by (simp add: stop_reading_def)
qed

text \<open>A read sent before a lock or a sign-out is worth nothing after it: its answer changes nothing,
  neither while the workspace is locked nor after it is unlocked, and a locked panel shows no file.\<close>

theorem locked_changes_dropped:
  assumes "changes_reachable s" "n < length (cs_flights s)" "changes_step\<^sup>*\<^sup>* (lock_changes s) t"
  shows "changes_answer n reply t = t \<and> src_data (changes_source (lock_changes s)) = None"
proof -
  have "runs_grow s t" using runs_grow_lock runs_grow_trans runs_grow_steps [OF assms(3)] by blast
  then have "cf_run (cs_flights t ! n) = cf_run (cs_flights s ! n)" using run_kept assms(2) by blast
  moreover have "cf_run (cs_flights s ! n) < cs_serial (lock_changes s)"
    using sent_run_bound [OF assms(1,2)] lock_serial [of s] by simp
  ultimately have "cf_run (cs_flights t ! n) \<noteq> cs_serial t"
    using changes_fence.stale_forever [OF assms(3)] by simp
  then have "changes_answer n reply t = t"
    by (simp add: changes_answer_def flight_current_def)
  moreover have "cs_snapshot (lock_changes s) = None"
    by (simp add: lock_changes_def set_paused_def restart_changes_def refresh_changes_def stop_reading_def Let_def)
  ultimately show ?thesis by (simp add: changes_source_def)
qed

text \<open>What is shown is what the last read of this very checkout answered.\<close>

theorem changes_shown_current:
  assumes "src_data (changes_source (changes_answer n reply s)) = Some d" "src_data (changes_source s) \<noteq> Some d"
  shows "reply = Inr d \<and> cf_scope (cs_flights s ! n) = src_scope (changes_source s) \<and> cf_run (cs_flights s ! n) = cs_serial s
    \<and> \<not> cf_aborted (cs_flights s ! n)"
proof -
  have "cs_snapshot (changes_answer n reply s) \<noteq> cs_snapshot s"
    using assms by (auto simp: changes_source_def changes_answer_def Let_def split: sum.splits if_splits option.splits)
  moreover have "cs_options (changes_answer n reply s) = cs_options s"
    by (auto simp: changes_answer_def Let_def split: sum.split)
  ultimately show ?thesis
    using assms(1) by (auto simp: changes_source_def changes_answer_def flight_current_def Let_def split: sum.splits if_splits)
qed

definition sample_options :: change_options where
  "sample_options = \<lparr>co_owner = Some ''ana'', co_project = Some ''p'',
     co_session = Some \<lparr>ch_id = ''c'', ch_project = Some ''p'', ch_cwd = Some ''/p'', ch_worktree = None, ch_digest = None, ch_runner = None\<rparr>, co_visible = True\<rparr>"

definition sample_reading :: "nat changes" where
  "sample_reading = refresh_changes (first_changes sample_options True)"

theorem locked_changes_dropped_witness:
  "changes_answer 0 (Inr 3) (lock_changes sample_reading) = lock_changes sample_reading"
proof -
  have "changes_reachable sample_reading"
    unfolding sample_reading_def by (intro exI) (rule r_into_rtranclp, rule step_poll)
  moreover have "0 < length (cs_flights sample_reading)" by code_simp
  ultimately show ?thesis using locked_changes_dropped [of sample_reading 0 "lock_changes sample_reading"] by simp
qed

theorem changes_shown_current_witness:
  "cf_scope (cs_flights sample_reading ! 0) = src_scope (changes_source sample_reading)"
proof -
  have "src_data (changes_source (changes_answer 0 (Inr 3) sample_reading)) = Some 3" "src_data (changes_source sample_reading) = None"
    by code_simp+
  then show ?thesis using changes_shown_current [of 0 "Inr 3" sample_reading 3] by simp
qed

end
