(* ===== verification/SessionSettings.thy ===== *)
theory SessionSettings
  imports ChatPanel
begin

text \<open>
  \<open>features/SessionSettings.tsx\<close> with \<open>features/PresetPicker.tsx\<close>: the settings of a conversation. What a control changes is a
  patch of the conversation. Presets and skills are read by effects: a render for something else cancels the reading, and its
  answer is dropped. The dialog's parts with a file of their own (access, adoption, voice) are views that it is given.
\<close>

section \<open>The limits of a conversation\<close>

record settings_session = session +
  sx_extensions :: "string list option"
  sx_workflow :: "string option"
  sx_limits :: "(string \<times> int) list"
  sx_preset :: "string option"
  sx_preset_revision :: "string option"

record run_profile =
  rf_id :: string
  rf_name :: string
  rf_description :: string
  rf_limits :: "(string \<times> int) list"

definition limits_of :: "int \<Rightarrow> int \<Rightarrow> int \<Rightarrow> int \<Rightarrow> int \<Rightarrow> (string \<times> int) list" where
  "limits_of steps seconds shell workers children =
     [(''max_steps'', steps), (''max_seconds'', seconds), (''shell_timeout_s'', shell), (''max_parallel_subagents'', workers), (''max_subagents_total'', children)]"

definition default_run_budget :: "(string \<times> int) list" where
  "default_run_budget = limits_of 256 14400 120 3 8"

definition run_profiles :: "run_profile list" where
  "run_profiles =
     [\<lparr>rf_id = ''quick'', rf_name = ''Quick'', rf_description = ''Small, focused tasks.'', rf_limits = limits_of 64 1800 120 1 3\<rparr>,
      \<lparr>rf_id = ''balanced'', rf_name = ''Balanced'', rf_description = ''Everyday work with room to delegate.'', rf_limits = default_run_budget\<rparr>,
      \<lparr>rf_id = ''extended'', rf_name = ''Extended'', rf_description = ''Larger tasks with more time and capacity.'', rf_limits = limits_of 1024 28800 180 4 16\<rparr>]"

text \<open>\<open>{...DEFAULT_RUN_BUDGET, ...session.run_limits}\<close>.\<close>

definition session_limits :: "settings_session \<Rightarrow> (string \<times> int) list" where
  "session_limits s = foldl (\<lambda>ls (k, v). AList.update k v ls) default_run_budget (sx_limits s)"

definition session_profile :: "settings_session \<Rightarrow> run_profile option" where
  "session_profile s = find (\<lambda>p. list_all (\<lambda>(k, v). map_of (session_limits s) k = Some v) (rf_limits p)) run_profiles"

section \<open>A list that an effect reads\<close>

text \<open>A reading remembers what it was begun for; it is live until its effect is cleaned up.\<close>

record ('k, 'a) listing_read =
  lr_key :: 'k
  lr_live :: bool
  lr_answer :: "'a list js_result option"

record ('k, 'a) listing =
  ls_rows :: "'a list"
  ls_loading :: bool
  ls_reads :: "('k, 'a) listing_read list"

definition empty_listing :: "('k, 'a) listing" where
  "empty_listing = \<lparr>ls_rows = [], ls_loading = False, ls_reads = []\<rparr>"

definition cancel_reads :: "('k, 'a) listing_read list \<Rightarrow> ('k, 'a) listing_read list" where
  "cancel_reads = map (\<lambda>r. r\<lparr>lr_live := False\<rparr>)"

text \<open>The effect: without a key it only clears the list.\<close>

definition list_again :: "'k option \<Rightarrow> ('k, 'a) listing \<Rightarrow> ('k, 'a) listing" where
  "list_again wanted l =
     (case wanted of
        None \<Rightarrow> l\<lparr>ls_rows := [], ls_reads := cancel_reads (ls_reads l)\<rparr>
      | Some k \<Rightarrow> \<lparr>ls_rows = [], ls_loading = True, ls_reads = cancel_reads (ls_reads l) @ [\<lparr>lr_key = k, lr_live = True, lr_answer = None\<rparr>]\<rparr>)"

definition list_answered :: "nat \<Rightarrow> 'a list js_result \<Rightarrow> ('k, 'a) listing \<Rightarrow> ('k, 'a) listing" where
  "list_answered n r l =
     (let f = ls_reads l ! n; l' = l\<lparr>ls_reads := (ls_reads l)[n := f\<lparr>lr_answer := Some r\<rparr>]\<rparr> in
      if lr_live f then l'\<lparr>ls_rows := (case r of Inl _ \<Rightarrow> ls_rows l | Inr xs \<Rightarrow> xs), ls_loading := False\<rparr> else l')"

definition listing_error :: "nat \<Rightarrow> 'a list js_result \<Rightarrow> ('k, 'a) listing \<Rightarrow> js_error list" where
  "listing_error n r l = (case r of Inl e \<Rightarrow> if lr_live (ls_reads l ! n) then [e] else [] | Inr _ \<Rightarrow> [])"

definition rows_answered :: "'a list js_result option \<Rightarrow> 'a list" where
  "rows_answered r = (case r of Some (Inr xs) \<Rightarrow> xs | _ \<Rightarrow> [])"

text \<open>What is listed is the answer to the one live reading, which is the one wanted; nothing else is listed.\<close>

definition listing_current :: "'k option \<Rightarrow> ('k, 'a) listing \<Rightarrow> bool" where
  "listing_current wanted l \<longleftrightarrow>
     (case wanted of
        None \<Rightarrow> filter lr_live (ls_reads l) = [] \<and> ls_rows l = []
      | Some k \<Rightarrow> (\<exists>r. filter lr_live (ls_reads l) = [r] \<and> lr_key r = k \<and> ls_rows l = rows_answered (lr_answer r) \<and> ls_loading l = (lr_answer r = None)))"

lemma cancelled_reads [simp]: "filter lr_live (cancel_reads rs) = []"
  by (simp add: cancel_reads_def filter_map comp_def)

lemma empty_current: "listing_current None empty_listing"
  by (simp add: listing_current_def empty_listing_def)

lemma list_again_current: "listing_current wanted (list_again wanted l)"
  by (simp add: listing_current_def list_again_def rows_answered_def split: option.split)

lemma filter_one_update:
  assumes "filter P xs = [x]" "n < length xs" "P (xs ! n)" "P y" shows "xs ! n = x \<and> filter P (xs[n := y]) = [y]"
proof -
  have xs: "xs = take n xs @ xs ! n # drop (Suc n) xs" by (rule id_take_nth_drop [OF assms(2)])
  have "filter P (take n xs) @ xs ! n # filter P (drop (Suc n) xs) = [x]" using assms(1,3) by (subst (asm) xs) simp
  then have "filter P (take n xs) = []" "filter P (drop (Suc n) xs) = []" "xs ! n = x" by (simp_all add: append_eq_Cons_conv)
  then show ?thesis using assms(2,4) by (simp add: upd_conv_take_nth_drop)
qed

lemma filter_out_update:
  assumes "n < length xs" "\<not> P (xs ! n)" "\<not> P y" shows "filter P (xs[n := y]) = filter P xs"
  using assms by (subst (2) id_take_nth_drop [OF assms(1)]) (simp add: upd_conv_take_nth_drop)

lemma list_answered_current:
  assumes "listing_current wanted l" "n < length (ls_reads l)" "lr_answer (ls_reads l ! n) = None"
  shows "listing_current wanted (list_answered n r l)"
proof (cases "lr_live (ls_reads l ! n)")
  case False
  then show ?thesis
    using assms filter_out_update [of n "ls_reads l" lr_live "(ls_reads l ! n)\<lparr>lr_answer := Some r\<rparr>"]
    by (simp add: listing_current_def list_answered_def Let_def split: option.splits)
next
  case True
  then have "filter lr_live (ls_reads l) \<noteq> []" using assms(2) by (auto simp: filter_empty_conv)
  then obtain k f where f: "wanted = Some k" "filter lr_live (ls_reads l) = [f]" "lr_key f = k" "ls_rows l = rows_answered (lr_answer f)"
    using assms(1) by (auto simp: listing_current_def split: option.splits)
  have one: "ls_reads l ! n = f \<and> filter lr_live ((ls_reads l)[n := (ls_reads l ! n)\<lparr>lr_answer := Some r\<rparr>]) = [(ls_reads l ! n)\<lparr>lr_answer := Some r\<rparr>]"
    by (rule filter_one_update [where P = lr_live, OF f(2) assms(2)]) (simp_all add: True)
  then have "lr_answer f = None" "lr_live f" using assms(3) True by auto
  then show ?thesis using one f
    by (auto simp: listing_current_def list_answered_def rows_answered_def Let_def split: sum.splits)
qed

section \<open>Props and state\<close>

record settings_preset =
  sp_id :: string
  sp_name :: string
  sp_description :: "string option"
  sp_engine :: string

record settings_skill =
  sk_id :: string
  sk_description :: string
  sk_version :: string

record settings_runner =
  su_id :: string
  su_project :: string
  su_status :: string
  su_image :: string
  su_name :: "string option"
  su_root :: "string option"

datatype settings_section = AgentSection | ToolsSection | ExecutionSection | VoiceSection

record settings_props =
  gp_open :: bool
  gp_session :: "settings_session option"
  gp_running :: bool
  gp_turns :: nat
  gp_owner :: "string option"
  gp_visible :: bool
  gp_coordinating :: bool
  gp_runners :: "settings_runner list"
  gp_accounts :: "runner_account list"
  gp_engines :: "engine list"

text \<open>What the panel asks of its owner.\<close>

datatype settings_call = CallOpen bool | CallEngine string | CallPatch jsobj | CallConversation

type_synonym preset_key = "string \<times> string \<times> string option \<times> string option"
type_synonym skill_key = "string \<times> string option"

record settings_panel =
  gs_props :: settings_props
  gs_section :: settings_section
  gs_saving :: "string option"
  gs_presets :: "(preset_key, settings_preset) listing"
  gs_skills :: "(skill_key, settings_skill) listing"
  gs_calls :: "settings_call list"
  gs_saves :: "bool list"
  gs_errors :: "js_error list"

section \<open>Effects\<close>

text \<open>What the two readings depend on, and what is wanted then. The readings of the presets also name the project, without depending on it.\<close>

definition preset_deps :: "settings_props \<Rightarrow> bool \<times> preset_key option \<times> bool" where
  "preset_deps p = (gp_open p, map_option (\<lambda>s. (ses_id s, ses_engine s, ses_runner_id s, sx_preset_revision s)) (gp_session p), gp_visible p)"

definition skill_deps :: "settings_section \<Rightarrow> settings_props \<Rightarrow> bool \<times> skill_key option \<times> bool \<times> settings_section" where
  "skill_deps sec p = (gp_open p, map_option (\<lambda>s. (ses_id s, ses_project_id s)) (gp_session p), gp_visible p, sec)"

fun presets_wanted :: "bool \<times> preset_key option \<times> bool \<Rightarrow> preset_key option" where
  "presets_wanted (is_open, k, visible) = (if is_open \<and> visible then k else None)"

fun skills_wanted :: "bool \<times> skill_key option \<times> bool \<times> settings_section \<Rightarrow> skill_key option" where
  "skills_wanted (is_open, k, visible, sec) = (if is_open \<and> visible \<and> sec = ToolsSection then k else None)"

definition read_presets :: "settings_panel \<Rightarrow> settings_panel" where
  "read_presets s = s\<lparr>gs_presets := list_again (presets_wanted (preset_deps (gs_props s))) (gs_presets s)\<rparr>"

definition read_skills :: "settings_panel \<Rightarrow> settings_panel" where
  "read_skills s = s\<lparr>gs_skills := list_again (skills_wanted (skill_deps (gs_section s) (gs_props s))) (gs_skills s)\<rparr>"

definition show_section :: "settings_section \<Rightarrow> settings_panel \<Rightarrow> settings_panel" where
  "show_section sec s = (if sec = gs_section s then s else read_skills (s\<lparr>gs_section := sec\<rparr>))"

definition open_panel :: "settings_props \<Rightarrow> settings_panel" where
  "open_panel p = read_skills (read_presets \<lparr>gs_props = p, gs_section = AgentSection, gs_saving = None, gs_presets = empty_listing,
     gs_skills = empty_listing, gs_calls = [], gs_saves = [], gs_errors = []\<rparr>)"

text \<open>A render runs the effects whose dependencies changed, in the order they are declared; the first one only queues its updates, so that
  the others still see the former section.\<close>

definition settings_render :: "settings_props \<Rightarrow> settings_panel \<Rightarrow> settings_panel" where
  "settings_render p s =
     (let q = gs_props s; s1 = s\<lparr>gs_props := p\<rparr>;
          s2 = (if preset_deps p \<noteq> preset_deps q then read_presets s1 else s1);
          s3 = (if skill_deps (gs_section s) p \<noteq> skill_deps (gs_section s) q then read_skills s2 else s2)
      in if map_option ses_id (gp_session p) \<noteq> map_option ses_id (gp_session q) \<or> gp_open p \<noteq> gp_open q
         then show_section AgentSection (s3\<lparr>gs_saving := None\<rparr>) else s3)"

definition presets_answered :: "nat \<Rightarrow> settings_preset list js_result \<Rightarrow> settings_panel \<Rightarrow> settings_panel" where
  "presets_answered n r s = s\<lparr>gs_presets := list_answered n r (gs_presets s), gs_errors := gs_errors s @ listing_error n r (gs_presets s)\<rparr>"

definition skills_answered :: "nat \<Rightarrow> settings_skill list js_result \<Rightarrow> settings_panel \<Rightarrow> settings_panel" where
  "skills_answered n r s = s\<lparr>gs_skills := list_answered n r (gs_skills s), gs_errors := gs_errors s @ listing_error n r (gs_skills s)\<rparr>"

section \<open>Handlers\<close>

datatype 'p settings_click =
    GoSection settings_section | PickEngine string | PickPreset "string option" | RefreshPreset string | PickProfile run_profile
  | PickWorkflow bool | TickSkill string bool | PickLocation "string option" | ConversationLink | DialogClosed | PartClick 'p

definition opt_value :: "string option \<Rightarrow> jsval" where
  "opt_value t = (case t of None \<Rightarrow> JNull | Some x \<Rightarrow> JStr x)"

text \<open>The value of an option without an id is empty.\<close>

definition chosen_id :: "string option \<Rightarrow> string option" where
  "chosen_id k = (if truthy_text k then k else None)"

definition call_owner :: "settings_call list \<Rightarrow> settings_panel \<Rightarrow> settings_panel" where
  "call_owner cs s = s\<lparr>gs_calls := gs_calls s @ cs\<rparr>"

definition limits_value :: "(string \<times> int) list \<Rightarrow> jsval" where
  "limits_value ls = JObj (map (\<lambda>(k, v). (k, js_int v)) ls)"

definition skill_list :: "string \<Rightarrow> bool \<Rightarrow> string list option \<Rightarrow> string list" where
  "skill_list k on ks = (let now = (case ks of None \<Rightarrow> [] | Some xs \<Rightarrow> xs) in if on then now @ [k] else filter (\<lambda>x. x \<noteq> k) now)"

text \<open>The account a cloud runner may use for the model of the conversation.\<close>

definition cloud_account :: "settings_session \<Rightarrow> runner_account list \<Rightarrow> runner_account option" where
  "cloud_account s accounts = find (\<lambda>a. Some (ra_provider a) = ses_provider_id s \<and> or_text (ses_model s) [] \<in> set (ra_models a)) accounts"

definition no_cloud_account :: js_error where
  "no_cloud_account = JsError ''Select a configured API provider and an explicit model before choosing a cloud runner.''"

definition pick_location :: "string option \<Rightarrow> settings_session \<Rightarrow> settings_panel \<Rightarrow> settings_panel" where
  "pick_location target x s =
     (case target of
        None \<Rightarrow> call_owner [CallPatch [(''runner_id'', JNull), (''runner_credential_ref'', JNull)]] s
      | Some k \<Rightarrow>
          (case cloud_account x (gp_accounts (gs_props s)) of
             None \<Rightarrow> s\<lparr>gs_errors := gs_errors s @ [no_cloud_account]\<rparr>
           | Some a \<Rightarrow> call_owner [CallPatch [(''runner_id'', JStr k), (''runner_credential_ref'', JStr (ra_credential a))]] s))"

definition pick_profile :: "run_profile \<Rightarrow> settings_panel \<Rightarrow> settings_panel" where
  "pick_profile p s = (call_owner [CallPatch [(''run_limits'', limits_value (rf_limits p))]] s)\<lparr>gs_saving := Some (rf_id p), gs_saves := gs_saves s @ [False]\<rparr>"

text \<open>The patch of a run style is awaited; whatever it answers, the next choice is free.\<close>

definition profile_answered :: "nat \<Rightarrow> unit js_result \<Rightarrow> settings_panel \<Rightarrow> settings_panel" where
  "profile_answered n r s =
     (case r of Inl e \<Rightarrow> s\<lparr>gs_errors := gs_errors s @ [e]\<rparr> | Inr _ \<Rightarrow> s)\<lparr>gs_saving := None, gs_saves := (gs_saves s)[n := True]\<rparr>"

definition session_click :: "'p settings_click \<Rightarrow> settings_session \<Rightarrow> settings_panel \<Rightarrow> settings_panel" where
  "session_click a x s =
     (case a of
        GoSection sec \<Rightarrow> show_section sec s
      | PickEngine e \<Rightarrow> if gp_coordinating (gs_props s) then s else call_owner [CallOpen False, CallEngine e] s
      | PickPreset k \<Rightarrow> call_owner [CallPatch [(''custom_agent_id'', opt_value (chosen_id k))]] s
      | RefreshPreset k \<Rightarrow> call_owner [CallPatch [(''custom_agent_id'', JStr k)]] s
      | PickProfile p \<Rightarrow> pick_profile p s
      | PickWorkflow browser \<Rightarrow> call_owner [CallPatch [(''workflow'', if browser then JStr ''browser'' else JNull)]] s
      | TickSkill k on \<Rightarrow> call_owner [CallPatch [(''extension_ids'', JArr (map JStr (skill_list k on (sx_extensions x))))]] s
      | PickLocation k \<Rightarrow> pick_location (chosen_id k) x s
      | ConversationLink \<Rightarrow> call_owner [CallConversation] s
      | DialogClosed \<Rightarrow> call_owner [CallOpen False] s
      | PartClick _ \<Rightarrow> s)"

definition settings_clicked :: "'p settings_click \<Rightarrow> settings_panel \<Rightarrow> settings_panel" where
  "settings_clicked a s = (case gp_session (gs_props s) of None \<Rightarrow> s | Some x \<Rightarrow> session_click a x s)"

section \<open>What it shows\<close>

definition preset_label :: "settings_preset \<Rightarrow> string" where
  "preset_label p = sp_name p @ (if sp_engine p \<noteq> [] \<and> sp_engine p \<noteq> ''inherit'' then [CHR '' '', CHR 0xB7, CHR '' ''] @ sp_engine p else [])"

definition preset_picker :: "settings_preset list \<Rightarrow> string option \<Rightarrow> bool \<Rightarrow> bool \<Rightarrow> 'p settings_click view" where
  "preset_picker ps now disabled loading =
     (let chosen = find (\<lambda>p. Some (sp_id p) = now) ps in box ''label''
        [VText ''Session agent preset'',
         picker (disabled \<or> loading) (\<lambda>x. PickPreset (map_option fst x)) (\<lambda>x. case x of None \<Rightarrow> ''Default agent '' @ [CHR 0xB7] @ '' no preset'' | Some y \<Rightarrow> snd y)
           (None # map (\<lambda>p. Some (sp_id p, preset_label p)) ps),
         show_if (truthy_text now \<and> chosen = None) (labelled ''option'' (if loading then ''Loading selected preset...'' else ''Selected preset unavailable'')),
         (case Option.bind chosen sp_description of Some d \<Rightarrow> show_if (d \<noteq> []) (labelled ''small'' d) | None \<Rightarrow> VNone)])"

text \<open>An engine is listed under its name; the built-in one comes first and the one in use is never missing.\<close>

definition engine_choices :: "settings_session \<Rightarrow> engine list \<Rightarrow> (string \<times> string) list" where
  "engine_choices x engines =
     (let named = (''internal'', ''TermX Agent'') # map (\<lambda>e. (eng_id e, or_text (eng_name e) [])) (filter (\<lambda>e. eng_id e \<noteq> ''internal'') engines)
      in if ses_engine x \<in> fst ` set named then named else named @ [(ses_engine x, ses_engine x)])"

definition engine_title :: "string \<times> string \<Rightarrow> string" where
  "engine_title e = (if snd e = [] then fst e else snd e)"

definition preset_locked :: "settings_session \<Rightarrow> settings_props \<Rightarrow> bool" where
  "preset_locked x p \<longleftrightarrow> gp_running p \<or> (ses_engine x \<noteq> ''internal'' \<and> 0 < gp_turns p)"

definition profile_row :: "settings_session \<Rightarrow> settings_panel \<Rightarrow> run_profile \<Rightarrow> 'p settings_click view" where
  "profile_row x s p =
     (let on = (map_option rf_id (session_profile x) = Some (rf_id p)) in box ''label''
        [checkbox (gp_running (gs_props s) \<or> truthy_text (gs_saving s)) on (PickProfile p) (rf_name p), labelled ''strong'' (rf_name p),
         labelled ''small'' (if gs_saving s = Some (rf_id p) then ''Saving...'' else rf_description p)])"

definition agent_pane :: "'p view \<Rightarrow> settings_session \<Rightarrow> settings_panel \<Rightarrow> 'p settings_click view" where
  "agent_pane adoption x s =
     (let p = gs_props s; locked = preset_locked x p; started = (ses_engine x \<noteq> ''internal'' \<and> 0 < gp_turns p) in box ''section''
        [box ''label'' [VText ''Engine'', picker (gp_running p \<or> gp_coordinating p) (\<lambda>e. PickEngine (fst e)) engine_title (engine_choices x (gp_engines p))],
         show_if (gp_coordinating p) (labelled ''p''
           ''Your main agent runs on TermX Agent and can delegate work to installed engines. Each child chat keeps its engine, approvals, and supported limits.''),
         show_if (\<not> gp_coordinating p \<and> 0 < gp_turns p) (labelled ''p'' ''Switching engines creates a linked conversation with the context you choose.''),
         preset_picker (ls_rows (gs_presets s)) (sx_preset x) locked (ls_loading (gs_presets s)),
         show_if (truthy_text (sx_preset x)) (button locked (RefreshPreset (or_text (sx_preset x) [])) ''Refresh preset binding''),
         show_if started (labelled ''p'' ''This conversation keeps its current agent preset.''),
         box ''fieldset''
           (labelled ''p'' (if session_profile x = None then ''Your existing custom limits are preserved. Choose a style to replace them.''
              else ''Choose how much room the agent has to work.'')
            # map (profile_row x s) run_profiles),
         show_if (\<not> gp_coordinating p \<and> truthy_text (gp_owner p)) (map_view PartClick adoption)])"

definition skill_row :: "settings_session \<Rightarrow> settings_panel \<Rightarrow> settings_skill \<Rightarrow> 'p settings_click view" where
  "skill_row x s k =
     (let on = (case sx_extensions x of None \<Rightarrow> False | Some ks \<Rightarrow> sk_id k \<in> set ks) in box ''label''
        [checkbox (gp_running (gs_props s)) on (TickSkill (sk_id k) (\<not> on)) (sk_id k),
         labelled ''small'' (if sk_description k = [] then sk_version k else sk_description k)])"

definition tools_pane :: "'p view \<Rightarrow> settings_session \<Rightarrow> settings_panel \<Rightarrow> 'p settings_click view" where
  "tools_pane access x s =
     (let p = gs_props s in box ''section''
        [labelled ''p'' ''Choose skills for this conversation. Your account and project permissions still apply.'',
         show_if (ses_engine x = ''claude'') (picker (gp_running p \<or> 0 < gp_turns p) PickWorkflow (\<lambda>b. if b then ''Browser only'' else ''Coding tools'') [False, True]),
         show_if (sx_workflow x = Some ''browser'') (labelled ''p'' ''Hand a tab to this conversation from Browser when you start a task.''),
         (if ls_loading (gs_skills s) then labelled ''p'' ''Loading available skills...''
          else if ls_rows (gs_skills s) \<noteq> [] then box ''div'' (map (skill_row x s) (ls_rows (gs_skills s)))
          else labelled ''p'' ''The engine's default tools are available. Add custom skills in Managers.''),
         map_view PartClick access])"

definition runner_title :: "settings_runner \<Rightarrow> string" where
  "runner_title r = or_text (su_name r) (if su_image r = [] then su_id r else su_image r)"

definition runner_place :: "settings_session \<Rightarrow> settings_runner list \<Rightarrow> string" where
  "runner_place x rs =
     (if truthy_text (ses_runner_id x) then or_text (Option.bind (find (\<lambda>r. Some (su_id r) = ses_runner_id x) rs) su_root) ''/workspace''
      else or_text (ses_cwd x) ''Current project folder'')"

definition execution_pane :: "settings_session \<Rightarrow> settings_panel \<Rightarrow> 'p settings_click view" where
  "execution_pane x s =
     (let p = gs_props s; ready = filter (\<lambda>r. su_status r = ''ready'' \<and> su_project r = or_text (ses_project_id x) []) (gp_runners p) in box ''section''
        (if ses_engine x = ''internal''
         then [picker (gp_running p) (\<lambda>r. PickLocation (map_option su_id r)) (\<lambda>r. case r of None \<Rightarrow> ''This machine'' | Some y \<Rightarrow> runner_title y) (None # map Some ready),
               labelled ''p'' (runner_place x (gp_runners p)),
               show_if (gp_runners p = []) (labelled ''p'' ''Connect a machine in Runners to work remotely.'')]
         else [labelled ''p'' ((case find (\<lambda>e. fst e = ses_engine x) (engine_choices x (gp_engines p)) of
                 Some e \<Rightarrow> engine_title e | None \<Rightarrow> ses_engine x) @ '' runs on this machine using its connected account.'')]))"

definition settings_view :: "'p view \<times> 'p view \<times> 'p view \<Rightarrow> settings_panel \<Rightarrow> 'p settings_click view" where
  "settings_view parts s =
     (let p = gs_props s; (adoption, access, voice) = parts in
      case (gp_open p, gp_session p) of
        (True, Some x) \<Rightarrow> VEl ''dialog'' [] [(''onOpenChange'', DialogClosed)]
          [labelled ''h2'' ''Session settings'',
           box ''nav'' [button False (GoSection AgentSection) ''Agent'', button False (GoSection ToolsSection) ''Tools'',
             button False (GoSection ExecutionSection) ''Runtime'', button False (GoSection VoiceSection) ''Voice''],
           (case gs_section s of AgentSection \<Rightarrow> agent_pane adoption x s | ToolsSection \<Rightarrow> tools_pane access x s
            | ExecutionSection \<Rightarrow> execution_pane x s | VoiceSection \<Rightarrow> map_view PartClick voice),
           show_if (gp_running p) (labelled ''p'' ''The current task keeps its settings. Make changes after it finishes.''),
           button False ConversationLink ''Conversation settings'']
      | _ \<Rightarrow> VNone)"

section \<open>Steps\<close>

inductive settings_moves :: "settings_panel \<Rightarrow> settings_panel \<Rightarrow> bool" where
  gm_render: "settings_moves s (settings_render p s)"
| gm_clicked: "(a :: nat settings_click) \<in> set (offers (settings_view parts s)) \<Longrightarrow> settings_moves s (settings_clicked a s)"
| gm_presets: "n < length (ls_reads (gs_presets s)) \<Longrightarrow> lr_answer (ls_reads (gs_presets s) ! n) = None \<Longrightarrow> settings_moves s (presets_answered n r s)"
| gm_skills: "n < length (ls_reads (gs_skills s)) \<Longrightarrow> lr_answer (ls_reads (gs_skills s) ! n) = None \<Longrightarrow> settings_moves s (skills_answered n r s)"
| gm_profile: "n < length (gs_saves s) \<Longrightarrow> \<not> gs_saves s ! n \<Longrightarrow> settings_moves s (profile_answered n r s)"

definition settings_opened :: "settings_panel \<Rightarrow> bool" where
  "settings_opened s \<longleftrightarrow> (\<exists>p. s = open_panel p)"

definition lists_current :: "settings_panel \<Rightarrow> bool" where
  "lists_current s \<longleftrightarrow> listing_current (presets_wanted (preset_deps (gs_props s))) (gs_presets s)
     \<and> listing_current (skills_wanted (skill_deps (gs_section s) (gs_props s))) (gs_skills s)"

definition list_core :: "settings_panel \<Rightarrow> settings_props \<times> settings_section \<times> (preset_key, settings_preset) listing \<times> (skill_key, settings_skill) listing" where
  "list_core s = (gs_props s, gs_section s, gs_presets s, gs_skills s)"

lemma lists_frame: "list_core t = list_core s \<Longrightarrow> lists_current t = lists_current s"
  by (simp add: list_core_def lists_current_def)

lemma read_fields [simp]:
  "gs_props (read_presets s) = gs_props s" "gs_section (read_presets s) = gs_section s" "gs_skills (read_presets s) = gs_skills s"
  "gs_presets (read_presets s) = list_again (presets_wanted (preset_deps (gs_props s))) (gs_presets s)"
  "gs_props (read_skills s) = gs_props s" "gs_section (read_skills s) = gs_section s" "gs_presets (read_skills s) = gs_presets s"
  "gs_skills (read_skills s) = list_again (skills_wanted (skill_deps (gs_section s) (gs_props s))) (gs_skills s)"
  by (simp_all add: read_presets_def read_skills_def)

lemma opened_current: "lists_current (open_panel p)"
  by (simp add: lists_current_def open_panel_def list_again_current)

lemma section_current: "lists_current s \<Longrightarrow> lists_current (show_section sec s)"
  by (simp add: lists_current_def show_section_def list_again_current)

lemma lists_saving: "lists_current (s\<lparr>gs_saving := v\<rparr>) = lists_current s"
  by (simp add: lists_current_def)

lemma if_holds: "Q a \<Longrightarrow> Q b \<Longrightarrow> Q (if P then a else b)"
  by simp

lemma render_current: assumes "lists_current s" shows "lists_current (settings_render p s)"
proof -
  let ?s1 = "s\<lparr>gs_props := p\<rparr>"
  let ?s2 = "if preset_deps p \<noteq> preset_deps (gs_props s) then read_presets ?s1 else ?s1"
  let ?s3 = "if skill_deps (gs_section s) p \<noteq> skill_deps (gs_section s) (gs_props s) then read_skills ?s2 else ?s2"
  have s3: "lists_current ?s3" using assms by (simp add: lists_current_def list_again_current)
  then have "lists_current (show_section AgentSection (?s3\<lparr>gs_saving := None\<rparr>))" by (intro section_current lists_saving [THEN iffD2])
  then show ?thesis unfolding settings_render_def Let_def using s3 by (rule if_holds [where Q = lists_current])
qed

lemma clicked_core: "list_core (settings_clicked a s) = list_core s \<or> (\<exists>sec. settings_clicked a s = show_section sec s)"
  by (auto simp: settings_clicked_def session_click_def list_core_def call_owner_def pick_location_def pick_profile_def
      split: option.split settings_click.split)

lemma moves_current: "settings_moves s t \<Longrightarrow> lists_current s \<Longrightarrow> lists_current t"
proof (induction rule: settings_moves.induct)
  case (gm_clicked a parts s)
  then show ?case using clicked_core [of a s] lists_frame section_current by metis
next
  case (gm_profile n s r)
  have "list_core (profile_answered n r s) = list_core s" by (simp add: list_core_def profile_answered_def split: sum.split)
  then show ?case using gm_profile.prems lists_frame by blast
next
  case (gm_render s p)
  then show ?case by (rule render_current)
qed (auto simp: lists_current_def presets_answered_def skills_answered_def list_answered_current)

text \<open>C30. The presets and the skills that are listed answer the reading begun for the conversation, engine, runner and section now shown; an
  answer to any earlier reading changes nothing, and a list that is not wanted is empty.\<close>

theorem lists_answer_what_is_shown:
  assumes "reached settings_opened settings_moves s"
  shows "listing_current (presets_wanted (preset_deps (gs_props s))) (gs_presets s)
    \<and> listing_current (skills_wanted (skill_deps (gs_section s) (gs_props s))) (gs_skills s)"
  using assms
proof (induction rule: reached.induct)
  case (reached_opened s)
  then show ?case using opened_current by (auto simp: settings_opened_def lists_current_def)
next
  case (reached_moved s t)
  then show ?case using moves_current by (auto simp: lists_current_def)
qed

section \<open>A task keeps its settings\<close>

definition changes_nothing :: "'p settings_click \<Rightarrow> bool" where
  "changes_nothing a \<longleftrightarrow> (case a of GoSection _ \<Rightarrow> True | ConversationLink \<Rightarrow> True | DialogClosed \<Rightarrow> True | PartClick _ \<Rightarrow> True | _ \<Rightarrow> False)"

lemmas pane_defs = agent_pane_def tools_pane_def execution_pane_def preset_picker_def profile_row_def skill_row_def preset_locked_def changes_nothing_def

lemma pane_offers:
  assumes "gp_running (gs_props s)"
  shows "a \<in> set (offers (agent_pane adoption x s)) \<Longrightarrow> changes_nothing a" "a \<in> set (offers (tools_pane access x s)) \<Longrightarrow> changes_nothing a"
    "a \<in> set (offers (execution_pane x s)) \<Longrightarrow> changes_nothing a"
  using assms by (auto simp: pane_defs Let_def in_offers simp del: offer_rules split: option.splits if_splits)

lemma offered_while_running:
  "gp_running (gs_props s) \<Longrightarrow> a \<in> set (offers (settings_view parts s)) \<Longrightarrow> changes_nothing a"
  using pane_offers [of s a]
  by (auto simp: settings_view_def Let_def in_offers is_on_def jget_def changes_nothing_def simp del: offer_rules
      split: prod.splits option.splits bool.splits settings_section.splits if_splits)

text \<open>While a task runs the panel offers nothing that changes the conversation: no patch is asked for and no other engine.\<close>

theorem running_task_keeps_settings:
  assumes "gp_running (gs_props s)" "a \<in> set (offers (settings_view parts s))"
  shows "set (gs_calls (settings_clicked a s)) \<subseteq> set (gs_calls s) \<union> {CallOpen False, CallConversation} \<and> gs_saves (settings_clicked a s) = gs_saves s"
  using offered_while_running [OF assms]
  by (auto simp: changes_nothing_def settings_clicked_def session_click_def call_owner_def show_section_def read_skills_def
      split: settings_click.splits option.splits)

section \<open>The run style\<close>

text \<open>What the host stores of the limits it was sent.\<close>

definition stored_limits :: "jsval \<Rightarrow> (string \<times> int) list" where
  "stored_limits v = (case v of JObj fs \<Rightarrow> map (\<lambda>(k, x). (k, case x of JNum (Fin r) \<Rightarrow> \<lfloor>r\<rfloor> | _ \<Rightarrow> 0)) fs | _ \<Rightarrow> [])"

lemma stored_limits_value [simp]: "stored_limits (limits_value ls) = ls"
  by (induction ls) (auto simp: stored_limits_def limits_value_def js_int_def)

lemma profiles_apart:
  "list_all (\<lambda>p. find (\<lambda>q. list_all (\<lambda>(k, v). map_of (foldl (\<lambda>ls (k, v). AList.update k v ls) default_run_budget (rf_limits p)) k = Some v)
     (rf_limits q)) run_profiles = Some p) run_profiles"
  by code_simp

lemma profile_of_limits: "p \<in> set run_profiles \<Longrightarrow> sx_limits x = rf_limits p \<Longrightarrow> session_profile x = Some p"
  using profiles_apart by (simp add: session_profile_def session_limits_def list_all_iff)

lemma limits_update: "distinct (map fst ls) \<Longrightarrow> map_of (foldl (\<lambda>m (k, v). AList.update k v m) base ls) k = (case map_of ls k of Some v \<Rightarrow> Some v | None \<Rightarrow> map_of base k)"
proof (induction ls arbitrary: base)
  case (Cons kv ls)
  obtain k' v where kv: "kv = (k', v)" by (cases kv)
  then have "map_of ls k' = None" using Cons.prems by (simp add: map_of_eq_None_iff)
  then show ?case using Cons kv by (auto simp: AList.update_conv' split: option.split)
qed simp

text \<open>A limit that the conversation does not have is the one of the balanced style; its own limits count.\<close>

lemma limits_override: "distinct (map fst (sx_limits x)) \<Longrightarrow> map_of (session_limits x) k = (case map_of (sx_limits x) k of Some v \<Rightarrow> Some v | None \<Rightarrow> map_of default_run_budget k)"
  by (simp add: session_limits_def limits_update)

lemma profile_offered:
  assumes "(PickProfile p :: 'p settings_click) \<in> set (offers (settings_view parts s))"
  shows "p \<in> set run_profiles \<and> gp_session (gs_props s) \<noteq> None"
proof -
  have "PickProfile p \<in> set (offers (agent_pane adoption x s)) \<Longrightarrow> p \<in> set run_profiles" for adoption x
    by (auto simp: pane_defs Let_def in_offers simp del: offer_rules split: option.splits if_splits)
  moreover have "(PickProfile p :: 'p settings_click) \<notin> set (offers (tools_pane access x s))"
    "(PickProfile p :: 'p settings_click) \<notin> set (offers (execution_pane x s))" for access x
    by (auto simp: pane_defs Let_def in_offers simp del: offer_rules split: option.splits if_splits)
  ultimately show ?thesis using assms
    by (auto simp: settings_view_def Let_def in_offers is_on_def jget_def simp del: offer_rules
        split: prod.splits option.splits bool.splits settings_section.splits if_splits)
qed

text \<open>A run style that is chosen asks for one patch, and once the host stored its limits it is the style that the panel shows as chosen,
  whatever limits the conversation had before.\<close>

theorem chosen_style_comes_back:
  assumes "PickProfile p \<in> set (offers (settings_view parts s))"
  shows "\<exists>x v. gp_session (gs_props s) = Some x \<and> gs_calls (settings_clicked (PickProfile p) s) = gs_calls s @ [CallPatch [(''run_limits'', v)]]
    \<and> session_profile (x\<lparr>sx_limits := stored_limits v\<rparr>) = Some p \<and> gs_saving (settings_clicked (PickProfile p) s) = Some (rf_id p)"
proof -
  have p: "p \<in> set run_profiles" and "gp_session (gs_props s) \<noteq> None" using profile_offered [OF assms] by simp_all
  then obtain x where x: "gp_session (gs_props s) = Some x" by blast
  have "session_profile (x\<lparr>sx_limits := stored_limits (limits_value (rf_limits p))\<rparr>) = Some p" by (rule profile_of_limits [OF p]) simp
  then show ?thesis using x by (simp add: settings_clicked_def session_click_def pick_profile_def call_owner_def)
qed

section \<open>Instances\<close>

definition plain_settings :: settings_session where
  "plain_settings = \<lparr>ses_id = ''a'', ses_title = ''T'', ses_project_id = Some ''p'', ses_cwd = None, ses_engine = ''internal'', ses_provider_id = None,
     ses_model = None, ses_mode = ''chat'', ses_draft_text = [], ses_draft_context = None, ses_revision = 1, ses_turns = None, ses_scroll = 0,
     ses_has_earlier = False, ses_runner_id = None, ses_worktree_id = None, ses_reasoning = [], sx_extensions = None, sx_workflow = None,
     sx_limits = [(''max_steps'', 9)], sx_preset = None, sx_preset_revision = None\<rparr>"

definition plain_props :: "bool \<Rightarrow> settings_props" where
  "plain_props running = \<lparr>gp_open = True, gp_session = Some plain_settings, gp_running = running, gp_turns = 0, gp_owner = Some ''o'', gp_visible = True,
     gp_coordinating = False, gp_runners = [], gp_accounts = [], gp_engines = []\<rparr>"

definition no_parts :: "nat view \<times> nat view \<times> nat view" where
  "no_parts = (VNone, VNone, VNone)"

text \<open>A runner is chosen while the presets are being read: the answer of the former reading comes last and is dropped.\<close>

definition settings_moved_on :: settings_panel where
  "settings_moved_on = presets_answered 0 (Inr [\<lparr>sp_id = ''old'', sp_name = ''Old'', sp_description = None, sp_engine = []\<rparr>])
     (presets_answered 1 (Inr [\<lparr>sp_id = ''new'', sp_name = ''New'', sp_description = None, sp_engine = []\<rparr>])
       (settings_render ((plain_props False)\<lparr>gp_session := Some (plain_settings\<lparr>ses_runner_id := Some ''r''\<rparr>)\<rparr>) (open_panel (plain_props False))))"

theorem lists_answer_what_is_shown_witness:
  "map sp_id (ls_rows (gs_presets settings_moved_on)) = [''new''] \<and> listing_current (Some (''a'', ''internal'', Some ''r'', None)) (gs_presets settings_moved_on)"
proof -
  let ?s1 = "settings_render ((plain_props False)\<lparr>gp_session := Some (plain_settings\<lparr>ses_runner_id := Some ''r''\<rparr>)\<rparr>) (open_panel (plain_props False))"
  let ?s2 = "presets_answered 1 (Inr [\<lparr>sp_id = ''new'', sp_name = ''New'', sp_description = None, sp_engine = []\<rparr>]) ?s1"
  have "reached settings_opened settings_moves (open_panel (plain_props False))" by (rule reached_opened) (auto simp: settings_opened_def)
  then have 1: "reached settings_opened settings_moves ?s1" by (rule reached_moved) (rule gm_render)
  have "1 < length (ls_reads (gs_presets ?s1))" "lr_answer (ls_reads (gs_presets ?s1) ! 1) = None" by code_simp+
  then have 2: "reached settings_opened settings_moves ?s2" by (rule reached_moved [OF 1 gm_presets])
  have "0 < length (ls_reads (gs_presets ?s2))" "lr_answer (ls_reads (gs_presets ?s2) ! 0) = None" by code_simp+
  then have "reached settings_opened settings_moves settings_moved_on" unfolding settings_moved_on_def by (rule reached_moved [OF 2 gm_presets])
  moreover have "map sp_id (ls_rows (gs_presets settings_moved_on)) = [''new'']"
    "presets_wanted (preset_deps (gs_props settings_moved_on)) = Some (''a'', ''internal'', Some ''r'', None)" by code_simp+
  ultimately show ?thesis using lists_answer_what_is_shown by metis
qed

theorem running_task_keeps_settings_witness:
  "gs_calls (settings_clicked (ConversationLink :: nat settings_click) (open_panel (plain_props True))) = [CallConversation] \<and> gs_saves (open_panel (plain_props True)) = []"
proof -
  let ?a = "ConversationLink :: nat settings_click"
  have "gp_running (gs_props (open_panel (plain_props True)))" "?a \<in> set (offers (settings_view no_parts (open_panel (plain_props True))))" by code_simp+
  from running_task_keeps_settings [OF this] have "gs_saves (settings_clicked ?a (open_panel (plain_props True))) = gs_saves (open_panel (plain_props True))" ..
  moreover have "gs_calls (settings_clicked ?a (open_panel (plain_props True))) = [CallConversation]" "gs_saves (settings_clicked ?a (open_panel (plain_props True))) = []"
    by code_simp+
  ultimately show ?thesis by simp
qed

definition quick_style :: run_profile where
  "quick_style = hd run_profiles"

theorem chosen_style_comes_back_witness:
  "session_profile plain_settings = None \<and> (\<exists>v. session_profile (plain_settings\<lparr>sx_limits := stored_limits v\<rparr>) = Some quick_style)"
proof -
  have "PickProfile quick_style \<in> set (offers (settings_view no_parts (open_panel (plain_props False))))"
    "gp_session (gs_props (open_panel (plain_props False))) = Some plain_settings" "session_profile plain_settings = None" by code_simp+
  with chosen_style_comes_back show ?thesis by fastforce
qed

end
