(* ===== verification/SettingsDrafts.thy ===== *)
theory SettingsDrafts
  imports OneAtATime View TaskPresentation "HOL-Library.AList"
begin

text \<open>
  \<open>features/SettingsSurface.tsx\<close>: which edits inside the settings are unsaved. Every change marks the form it
  was made in with a new version; a request that stores settings takes, when it succeeds, the marks of its form
  that were there when it began and have not been raised since. Elements of the page are numbers; \<open>inside\<close>
  tells which element contains which, \<open>present\<close> which are still in the document.
\<close>

section \<open>Which requests store settings\<close>

definition inspecting :: "string list" where
  "inspecting = [''validate'', ''preview'', ''test'', ''evaluate'', ''begin'', ''probe'', ''inspect'', ''export'', ''call'']"

text \<open>A word of the list that ends here, at a slash, a question mark or a hash.\<close>

definition inspects_at :: "string \<Rightarrow> bool" where
  "inspects_at s \<longleftrightarrow> list_ex (\<lambda>k. starts_with k s \<and> (case drop (length k) s of [] \<Rightarrow> True | c # _ \<Rightarrow> c \<in> {CHR ''/'', CHR ''?'', CHR ''#''})) inspecting"

text \<open>The rests of a text after each dash before the next slash, and of a path after each slash.\<close>

fun after_dashes :: "string \<Rightarrow> string list" where
  "after_dashes [] = []"
| "after_dashes (c # s) = (if c = CHR ''/'' then [] else if c = CHR ''-'' then s # after_dashes s else after_dashes s)"

fun after_slashes :: "string \<Rightarrow> string list" where
  "after_slashes [] = []"
| "after_slashes (c # s) = (if c = CHR ''/'' then s # after_slashes s else after_slashes s)"

definition only_inspects :: "string \<Rightarrow> bool" where
  "only_inspects path \<longleftrightarrow> list_ex (\<lambda>s. inspects_at s \<or> list_ex inspects_at (after_dashes s)) (path # after_slashes path)"

definition begins_mutation :: "string \<Rightarrow> bool" where
  "begins_mutation q =
     (let s = dropWhile is_space q in starts_with ''mutation'' s \<and> (case drop (length ''mutation'') s of [] \<Rightarrow> True | c # _ \<Rightarrow> \<not> is_word_char c))"

text \<open>\<open>query_of\<close> reads the query of a JSON body; it fails where \<open>JSON.parse\<close> does.\<close>

definition commits_settings :: "(string \<Rightarrow> string option) \<Rightarrow> string \<Rightarrow> string option \<Rightarrow> string option \<Rightarrow> bool" where
  "commits_settings query_of path http_method body =
     (if map upper_char (or_text http_method ''GET'') \<in> {''GET'', ''HEAD'', ''OPTIONS''} then False
      else if only_inspects path then False
      else if takeWhile (\<lambda>c. c \<noteq> CHR ''?'') path = ''/graphql''
      then (case Option.bind body query_of of Some q \<Rightarrow> begins_mutation q | None \<Rightarrow> False)
      else True)"

section \<open>The unsaved edits\<close>

record settings_page_edits =
  se_category :: string
  se_scope :: "string option"
  se_revision :: nat
  se_edits :: "(nat \<times> nat) list"
  se_dirty :: bool
  se_action :: "nat option"
  se_left :: "string option list"

text \<open>\<open>se_left\<close> logs where the user went: another category, or, with \<open>None\<close>, out of the settings.\<close>

definition open_edits :: "string \<Rightarrow> string option \<Rightarrow> settings_page_edits" where
  "open_edits category scope = \<lparr>se_category = category, se_scope = scope, se_revision = 0, se_edits = [], se_dirty = False, se_action = None, se_left = []\<rparr>"

definition edit_version :: "settings_page_edits \<Rightarrow> nat \<Rightarrow> nat option" where
  "edit_version p node = map_of (se_edits p) node"

definition reset_edits :: "settings_page_edits \<Rightarrow> settings_page_edits" where
  "reset_edits p = p\<lparr>se_edits := [], se_dirty := False\<rparr>"

definition show_category :: "string \<Rightarrow> string option \<Rightarrow> settings_page_edits \<Rightarrow> settings_page_edits" where
  "show_category category scope p =
     (if category = se_category p \<and> scope = se_scope p then p
      else reset_edits (p\<lparr>se_category := category, se_scope := scope, se_revision := Suc (se_revision p)\<rparr>))"

text \<open>A change of a field that keeps no draft, such as a search, is none.\<close>

definition edit_made :: "bool \<Rightarrow> nat \<Rightarrow> settings_page_edits \<Rightarrow> settings_page_edits" where
  "edit_made ignored node p =
     (if ignored then p
      else p\<lparr>se_revision := Suc (se_revision p), se_edits := AList.update node (Suc (se_revision p)) (se_edits p), se_dirty := True\<rparr>)"

definition click_in :: "nat option \<Rightarrow> settings_page_edits \<Rightarrow> settings_page_edits" where
  "click_in node p = p\<lparr>se_action := node\<rparr>"

definition drop_gone :: "(nat \<Rightarrow> bool) \<Rightarrow> (nat \<times> nat) list \<Rightarrow> (nat \<times> nat) list" where
  "drop_gone present es = filter (\<lambda>(node, _). present node) es"

definition discard_edits :: "(nat \<Rightarrow> bool) \<Rightarrow> bool \<Rightarrow> settings_page_edits \<Rightarrow> bool \<times> settings_page_edits" where
  "discard_edits present confirmed p =
     (let p' = p\<lparr>se_edits := drop_gone present (se_edits p)\<rparr> in
      if se_edits p' = [] then (True, p'\<lparr>se_dirty := False\<rparr>) else (confirmed, p'))"

definition select_category :: "(nat \<Rightarrow> bool) \<Rightarrow> bool \<Rightarrow> string \<Rightarrow> settings_page_edits \<Rightarrow> settings_page_edits" where
  "select_category present confirmed target p =
     (if target = se_category p then p
      else (let (ok, p') = discard_edits present confirmed p in
            if ok then (reset_edits p')\<lparr>se_left := se_left p @ [Some target]\<rparr> else p'))"

definition close_settings :: "(nat \<Rightarrow> bool) \<Rightarrow> bool \<Rightarrow> settings_page_edits \<Rightarrow> settings_page_edits" where
  "close_settings present confirmed p =
     (let (ok, p') = discard_edits present confirmed p in if ok then (reset_edits p')\<lparr>se_left := se_left p @ [None]\<rparr> else p')"

text \<open>\<open>beginSave\<close>: the marks inside the form acted on; \<open>saved\<close> is what it returns.\<close>

definition begin_save :: "(nat \<Rightarrow> nat \<Rightarrow> bool) \<Rightarrow> settings_page_edits \<Rightarrow> (nat \<times> nat) list" where
  "begin_save inside p = (case se_action p of None \<Rightarrow> [] | Some scope \<Rightarrow> filter (\<lambda>(node, _). inside scope node) (se_edits p))"

definition saved :: "(nat \<Rightarrow> bool) \<Rightarrow> (nat \<times> nat) list \<Rightarrow> settings_page_edits \<Rightarrow> settings_page_edits" where
  "saved present snapshot p =
     (let es = drop_gone present (filter (\<lambda>e. e \<notin> set snapshot) (se_edits p)) in p\<lparr>se_edits := es, se_dirty := es \<noteq> []\<rparr>)"

text \<open>\<open>useSettingsRequest\<close>, when the request is answered; a failure is the caller's.\<close>

definition settings_answer ::
  "(nat \<Rightarrow> bool) \<Rightarrow> (string \<Rightarrow> string option) \<Rightarrow> string \<Rightarrow> string option \<Rightarrow> string option \<Rightarrow> (nat \<times> nat) list \<Rightarrow> 'a js_result
   \<Rightarrow> settings_page_edits \<Rightarrow> settings_page_edits" where
  "settings_answer present query_of path http_method body snapshot r p =
     (case r of Inl _ \<Rightarrow> p | Inr _ \<Rightarrow> if commits_settings query_of path http_method body then saved present snapshot p else p)"

section \<open>The categories\<close>

datatype settings_nav = SelectCategory string

definition nav_button :: "string \<Rightarrow> category \<Rightarrow> settings_nav view" where
  "nav_button selected c =
     VEl ''button'' (if JStr (cat_id c) = canonical_settings_category selected then [attr_text ''aria-current'' ''page''] else [])
       [(''onClick'', SelectCategory (cat_id c))] [labelled ''span'' (cat_label c)]"

definition settings_navigation :: "string \<Rightarrow> settings_nav view" where
  "settings_navigation selected = box ''nav''
     [picker False (\<lambda>c. SelectCategory (cat_id c)) cat_label settings_categories,
      box ''div'' (map (\<lambda>g. box ''div'' (labelled ''p'' g # map (nav_button selected) (filter (\<lambda>c. cat_group c = g) settings_categories))) settings_groups)]"

text \<open>The key that moves the focus among \<open>n\<close> buttons, from the \<open>i\<close>th.\<close>

definition next_focus :: "nat \<Rightarrow> nat \<Rightarrow> string \<Rightarrow> nat option" where
  "next_focus n i key =
     (if key = ''Home'' then Some 0 else if key = ''End'' then Some (n - 1)
      else if key \<in> {''ArrowRight'', ''ArrowDown''} then Some ((i + 1) mod n)
      else if key \<in> {''ArrowLeft'', ''ArrowUp''} then Some ((i + n - 1) mod n)
      else None)"

lemma next_focus_bound: "0 < n \<Longrightarrow> next_focus n i key = Some j \<Longrightarrow> j < n"
  unfolding next_focus_def by (metis diff_less mod_less_divisor option.distinct(1) option.inject zero_less_one)

section \<open>What a save takes\<close>

inductive edits_move :: "settings_page_edits \<Rightarrow> settings_page_edits \<Rightarrow> bool" where
  em_shown: "edits_move p (show_category category scope p)"
| em_edited: "edits_move p (edit_made ignored node p)"
| em_clicked: "edits_move p (click_in node p)"
| em_selected: "edits_move p (select_category present confirmed target p)"
| em_closed: "edits_move p (close_settings present confirmed p)"
| em_guarded: "edits_move p (snd (discard_edits present confirmed p))"
| em_saved: "edits_move p (saved present snapshot p)"

definition edits_opened :: "settings_page_edits \<Rightarrow> bool" where
  "edits_opened p \<longleftrightarrow> (\<exists>category scope. p = open_edits category scope)"

abbreviation edits_reachable :: "settings_page_edits \<Rightarrow> bool" where
  "edits_reachable \<equiv> reached edits_opened edits_move"

definition edits_inv :: "settings_page_edits \<Rightarrow> bool" where
  "edits_inv p \<longleftrightarrow> distinct (map fst (se_edits p)) \<and> (\<forall>e \<in> set (se_edits p). snd e \<le> se_revision p) \<and> (se_dirty p \<longleftrightarrow> se_edits p \<noteq> [])"

lemma distinct_filter_keys: "distinct (map fst es) \<Longrightarrow> distinct (map fst (filter P es))"
  by (induction es) auto

lemma update_elem: "e \<in> set (AList.update k v es) \<Longrightarrow> e = (k, v) \<or> e \<in> set es"
  by (induction es) (auto split: if_splits)

lemma edits_inv_move:
  assumes "edits_move p q" "edits_inv p" shows "edits_inv q \<and> se_revision p \<le> se_revision q"
  using assms(1)
proof cases
  case (em_edited ignored node)
  have "AList.update node v es \<noteq> []" for v es by (cases es) auto
  then show ?thesis using em_edited assms(2)
    by (auto simp: edits_inv_def edit_made_def distinct_update le_SucI dest!: update_elem)
next
  case (em_shown category scope)
  then show ?thesis using assms(2) by (simp add: edits_inv_def show_category_def reset_edits_def)
next
  case (em_selected present confirmed target)
  then show ?thesis using assms(2)
    by (auto simp: edits_inv_def select_category_def discard_edits_def drop_gone_def reset_edits_def Let_def distinct_filter_keys filter_empty_conv)
next
  case (em_closed present confirmed)
  then show ?thesis using assms(2)
    by (auto simp: edits_inv_def close_settings_def discard_edits_def drop_gone_def reset_edits_def Let_def distinct_filter_keys filter_empty_conv)
next
  case (em_guarded present confirmed)
  then show ?thesis using assms(2)
    by (auto simp: edits_inv_def discard_edits_def drop_gone_def Let_def distinct_filter_keys filter_empty_conv)
next
  case (em_saved present snapshot)
  then show ?thesis using assms(2) by (auto simp: edits_inv_def saved_def drop_gone_def Let_def distinct_filter_keys)
next
  case (em_clicked node)
  then show ?thesis using assms(2) by (simp add: edits_inv_def click_in_def)
qed

lemma edits_reachable_inv: "edits_reachable p \<Longrightarrow> edits_inv p"
proof (induction rule: reached.induct)
  case (reached_opened p)
  then show ?case by (auto simp: edits_opened_def edits_inv_def open_edits_def)
qed (use edits_inv_move in blast)

lemma later_edits: "reached (\<lambda>q. q = p) edits_move q \<Longrightarrow> edits_inv p \<Longrightarrow> edits_inv q \<and> se_revision p \<le> se_revision q"
proof (induction rule: reached.induct)
  case (reached_moved q r)
  then show ?case using edits_inv_move [OF reached_moved(2)] by (meson le_trans)
qed simp

lemma edit_version_mem: "edits_inv p \<Longrightarrow> edit_version p node = Some v \<longleftrightarrow> (node, v) \<in> set (se_edits p)"
  by (simp add: edit_version_def edits_inv_def)

lemma option_eqI: "(\<And>v. x = Some v \<longleftrightarrow> y = Some v) \<Longrightarrow> x = y"
  by (cases x; cases y) auto

lemma saved_version:
  assumes "edits_inv p" "present node"
  shows "edit_version (saved present snapshot p) node = (if \<exists>v. edit_version p node = Some v \<and> (node, v) \<in> set snapshot then None else edit_version p node)"
proof -
  have ok: "edits_inv (saved present snapshot p)" using edits_inv_move [OF em_saved assms(1)] by blast
  have kept: "edit_version (saved present snapshot p) node = Some v \<longleftrightarrow> edit_version p node = Some v \<and> (node, v) \<notin> set snapshot" for v
    unfolding edit_version_mem [OF ok] edit_version_mem [OF assms(1)] using assms(2) by (auto simp: saved_def drop_gone_def Let_def)
  show ?thesis
  proof (rule option_eqI)
    show "edit_version (saved present snapshot p) node = Some v \<longleftrightarrow>
      (if \<exists>v. edit_version p node = Some v \<and> (node, v) \<in> set snapshot then None else edit_version p node) = Some v" for v
      unfolding kept by (cases "edit_version p node") auto
  qed
qed

text \<open>C34. When a save is answered, exactly the edits of its form that it could have sent stop counting as unsaved; an edit made since it began, or in
  another form, stays unsaved, and the page says so.\<close>

theorem saved_takes_only_what_was_sent:
  assumes "edits_reachable p" "reached (\<lambda>x. x = p) edits_move q" "present node"
  shows "edit_version (saved present (begin_save inside p) q) node =
      (if edit_version q node = edit_version p node \<and> (\<exists>scope. se_action p = Some scope \<and> inside scope node) then None else edit_version q node)
    \<and> edit_version (saved present (begin_save inside p) (edit_made False node q)) node = Some (Suc (se_revision q))
    \<and> (se_dirty (saved present (begin_save inside p) q) \<longleftrightarrow> se_edits (saved present (begin_save inside p) q) \<noteq> [])"
proof -
  have inv: "edits_inv p" by (rule edits_reachable_inv [OF assms(1)])
  then have later: "edits_inv q" "se_revision p \<le> se_revision q" using later_edits [OF assms(2)] by blast+
  have snap: "(node, v) \<in> set (begin_save inside p) \<longleftrightarrow> edit_version p node = Some v \<and> (\<exists>scope. se_action p = Some scope \<and> inside scope node)" for v
    unfolding edit_version_mem [OF inv] by (cases "se_action p") (auto simp: begin_save_def)
  have edited: "edits_inv (edit_made False node q)" "edit_version (edit_made False node q) node = Some (Suc (se_revision q))"
    using edits_inv_move [OF em_edited [of q False node] later(1)] by (simp, simp add: edit_made_def edit_version_def update_conv')
  have "(node, Suc (se_revision q)) \<notin> set (begin_save inside p)"
    using snap edit_version_mem [OF inv] inv later(2) by (force simp: edits_inv_def)
  then show ?thesis
    using saved_version [of q present, OF later(1) assms(3)] saved_version [of _ present, OF edited(1) assms(3)] edited(2) snap
    by (cases "edit_version q node") (auto simp: saved_def Let_def)
qed

definition typing_on :: settings_page_edits where
  "typing_on = edit_made False 7 (click_in (Some 7) (edit_made False 7 (open_edits ''models'' None)))"

theorem saved_takes_only_what_was_sent_witness:
  "(let p = click_in (Some 7) (edit_made False 7 (open_edits ''models'' None)); s = begin_save (=) p in
     s = [(7, 1)] \<and> edit_version (saved (\<lambda>_. True) s p) 7 = None \<and> edit_version (saved (\<lambda>_. True) s typing_on) 7 = Some 2)"
proof -
  let ?p = "click_in (Some 7) (edit_made False 7 (open_edits ''models'' None))"
  have "edits_reachable (open_edits ''models'' None)" by (rule reached_opened) (auto simp: edits_opened_def)
  then have "edits_reachable (edit_made False 7 (open_edits ''models'' None))" by (rule reached_moved) (rule em_edited)
  then have p: "edits_reachable ?p" by (rule reached_moved) (rule em_clicked)
  have r: "reached (\<lambda>x. x = ?p) edits_move ?p" by (rule reached_opened) simp
  have "begin_save (=) ?p = [(7, 1)]" "edit_version ?p 7 = Some 1" "se_action ?p = Some 7" "se_revision ?p = 1" by code_simp+
  then show ?thesis
    using saved_takes_only_what_was_sent [OF p r, where present = "\<lambda>_. True" and node = 7 and inside = "(=)"] by (simp add: Let_def typing_on_def)
qed

end
