(* ===== verification/SettingsShell.thy ===== *)
theory SettingsShell
  imports ApprovalCards ApiTypes
begin

text \<open>
  The shell around the settings and two choices of a conversation: \<open>features/SettingsGeneral.tsx\<close>
  (signing out and the host's name), \<open>features/SettingsActions.tsx\<close> (every click inside the settings is
  captured, validated and, where it destroys something, reviewed first), \<open>features/SessionModePicker.tsx\<close>
  and \<open>features/ChatWelcome.tsx\<close>. The page's buttons, the validity of their forms and the answer of the
  \<open>termx-settings-leave\<close> event are arguments: they belong to the browser and to the panels inside.
\<close>

section \<open>The account panel\<close>

record account_sign_out =
  so_identity :: string
  so_generation :: nat
  so_settled :: bool

record account_panel =
  gp_identity :: string
  gp_generation :: nat
  gp_busy :: bool
  gp_host :: "string \<times> string"
  gp_op :: "string \<times> bool \<times> string"
  gp_reads :: "string list"
  gp_sign_outs :: "account_sign_out list"
  gp_mounted :: bool

definition default_host :: string where
  "default_host = ''Connected host''"

definition open_account :: "string \<Rightarrow> account_panel" where
  "open_account i = \<lparr>gp_identity = i, gp_generation = 0, gp_busy = False, gp_host = (i, default_host), gp_op = (i, False, []),
     gp_reads = [i], gp_sign_outs = [], gp_mounted = True\<rparr>"

text \<open>Rendering another identity raises the generation, and so does the clean-up of the effect that follows.\<close>

definition account_show :: "string \<Rightarrow> account_panel \<Rightarrow> account_panel" where
  "account_show i g =
     (if \<not> gp_mounted g \<or> i = gp_identity g then g
      else g\<lparr>gp_identity := i, gp_generation := gp_generation g + 2, gp_busy := False, gp_host := (i, default_host), gp_op := (i, False, []),
             gp_reads := gp_reads g @ [i]\<rparr>)"

definition account_unmount :: "account_panel \<Rightarrow> account_panel" where
  "account_unmount g = (if gp_mounted g then g\<lparr>gp_mounted := False, gp_generation := gp_generation g + 1, gp_busy := False\<rparr> else g)"

text \<open>The \<open>n\<close>th reading of the host's name; only the latest is live.\<close>

definition host_named :: "nat \<Rightarrow> string js_result \<Rightarrow> account_panel \<Rightarrow> account_panel" where
  "host_named n r g =
     (if gp_mounted g \<and> Suc n = length (gp_reads g)
      then (case r of Inr name \<Rightarrow> if name \<noteq> [] then g\<lparr>gp_host := (gp_reads g ! n, name)\<rparr> else g | Inl _ \<Rightarrow> g) else g)"

definition logout :: "account_panel \<Rightarrow> account_panel" where
  "logout g =
     (if \<not> gp_mounted g \<or> gp_busy g then g
      else g\<lparr>gp_busy := True, gp_op := (gp_identity g, True, []),
             gp_sign_outs := gp_sign_outs g @ [\<lparr>so_identity = gp_identity g, so_generation = gp_generation g, so_settled = False\<rparr>]\<rparr>)"

definition logout_answer :: "nat \<Rightarrow> unit js_result \<Rightarrow> account_panel \<Rightarrow> account_panel" where
  "logout_answer n r g =
     (if n \<ge> length (gp_sign_outs g) \<or> so_settled (gp_sign_outs g ! n) then g
      else (let s = gp_sign_outs g ! n; g' = g\<lparr>gp_sign_outs := (gp_sign_outs g)[n := s\<lparr>so_settled := True\<rparr>]\<rparr> in
            if so_generation s \<noteq> gp_generation g then g'
            else (let shown = (case r of Inl e \<Rightarrow> (so_identity s, False, error_message e) | Inr _ \<Rightarrow> gp_op g) in
                  g'\<lparr>gp_busy := False, gp_op := (fst shown, False, snd (snd shown))\<rparr>)))"

datatype account_event =
    GeneralShow string | GeneralUnmount | GeneralHost nat "string js_result" | GeneralSignOut | GeneralSignedOut nat "unit js_result"

fun account_step :: "account_event \<Rightarrow> account_panel \<Rightarrow> account_panel" where
  "account_step (GeneralShow i) g = account_show i g"
| "account_step GeneralUnmount g = account_unmount g"
| "account_step (GeneralHost n r) g = host_named n r g"
| "account_step GeneralSignOut g = logout g"
| "account_step (GeneralSignedOut n r) g = logout_answer n r g"

inductive account_reachable :: "account_panel \<Rightarrow> bool" where
  account_opened: "account_reachable (open_account i)"
| account_stepped: "account_reachable g \<Longrightarrow> account_reachable (account_step e g)"

datatype account_action = AccountSignOut | OpenCategory string | ChooseTheme string

definition account_busy :: "account_panel \<Rightarrow> bool" where
  "account_busy g \<longleftrightarrow> fst (gp_op g) = gp_identity g \<and> fst (snd (gp_op g))"

definition account_error :: "account_panel \<Rightarrow> string" where
  "account_error g = (if fst (gp_op g) = gp_identity g then snd (snd (gp_op g)) else [])"

definition theme_option :: "string \<times> string \<Rightarrow> account_action view" where
  "theme_option o' = VEl ''option'' [attr_text ''value'' (fst o')] [(''onChange'', ChooseTheme (fst o'))] [VText (snd o')]"

definition account_view :: "string \<Rightarrow> string \<Rightarrow> account_panel \<Rightarrow> account_action view" where
  "account_view account theme g = box ''section''
     [labelled ''h1'' ''General'', labelled ''p'' ''Your everyday controls.'',
      labelled ''h2'' ''Account'', labelled ''p'' account,
      button (account_busy g) AccountSignOut (if account_busy g then ''Signing out'' @ [CHR 0x85] else ''Sign out''),
      show_if (account_error g \<noteq> []) (labelled ''p'' (account_error g)),
      labelled ''h2'' ''Host'', labelled ''p'' (if fst (gp_host g) = gp_identity g then snd (gp_host g) else default_host),
      button False (OpenCategory ''access'') ''Manage access'',
      labelled ''h2'' ''Theme'', labelled ''p'' ''Choose a look or follow your device.'',
      VEl ''select'' [attr_text ''value'' theme] [] (map theme_option [(''system'', ''System''), (''light'', ''Light''), (''dark'', ''Dark'')]),
      labelled ''h2'' ''Models & engines'', labelled ''p'' ''Choose what powers your agents.'',
      button False (OpenCategory ''models'') ''Manage models'']"

subsection \<open>One sign-out at a time\<close>

definition own_sign_outs :: "account_panel \<Rightarrow> account_sign_out list" where
  "own_sign_outs g = filter (\<lambda>s. \<not> so_settled s \<and> so_generation s = gp_generation g) (gp_sign_outs g)"

definition account_inv :: "account_panel \<Rightarrow> bool" where
  "account_inv g \<longleftrightarrow> (\<forall>s \<in> set (gp_sign_outs g). so_generation s \<le> gp_generation g \<and> (so_generation s = gp_generation g \<longrightarrow> so_identity s = gp_identity g))
     \<and> length (own_sign_outs g) = (if gp_busy g then 1 else 0)
     \<and> (gp_mounted g \<longrightarrow> fst (gp_op g) = gp_identity g \<and> fst (snd (gp_op g)) = gp_busy g)
     \<and> (gp_mounted g \<longrightarrow> fst (gp_host g) = gp_identity g \<and> gp_reads g \<noteq> [] \<and> last (gp_reads g) = gp_identity g)"

lemma own_none_later:
  "\<forall>s \<in> set (gp_sign_outs g). so_generation s \<le> n \<Longrightarrow> n < gp_generation g \<Longrightarrow> own_sign_outs g = []"
  by (auto simp: own_sign_outs_def filter_empty_conv)

lemma account_inv_show: "account_inv g \<Longrightarrow> account_inv (account_show i g)"
  using own_none_later [of "account_show i g" "gp_generation g"]
  by (auto simp: account_inv_def account_show_def)

lemma account_inv_unmount: "account_inv g \<Longrightarrow> account_inv (account_unmount g)"
  using own_none_later [of "account_unmount g" "gp_generation g"]
  by (auto simp: account_inv_def account_unmount_def)

lemma account_inv_host:
  assumes "account_inv g" shows "account_inv (host_named n r g)"
proof (cases "gp_mounted g \<and> Suc n = length (gp_reads g)")
  case True
  then have "gp_reads g ! n = gp_identity g"
    using assms last_conv_nth [of "gp_reads g"] by (auto simp: account_inv_def simp flip: True [THEN conjunct2])
  then show ?thesis using assms by (auto simp: account_inv_def host_named_def own_sign_outs_def split: sum.splits)
qed (use assms in \<open>auto simp: host_named_def\<close>)

lemma account_inv_logout: "account_inv g \<Longrightarrow> account_inv (logout g)"
  by (auto simp: account_inv_def logout_def own_sign_outs_def)

lemma account_inv_answer:
  assumes "account_inv g" shows "account_inv (logout_answer n r g)"
proof (cases "n < length (gp_sign_outs g) \<and> \<not> so_settled (gp_sign_outs g ! n)")
  case True
  let ?s = "gp_sign_outs g ! n"
  have len: "length (own_sign_outs (logout_answer n r g)) + (if so_generation ?s = gp_generation g then 1 else 0) = length (own_sign_outs g)"
    using filter_update [of n "gp_sign_outs g" "\<lambda>s. \<not> so_settled s \<and> so_generation s = gp_generation g" "?s\<lparr>so_settled := True\<rparr>"] True
    by (auto simp: logout_answer_def Let_def own_sign_outs_def)
  have kept: "\<forall>s \<in> set (gp_sign_outs (logout_answer n r g)). so_generation s \<le> gp_generation g \<and> (so_generation s = gp_generation g \<longrightarrow> so_identity s = gp_identity g)"
    using True assms set_update_subset_insert [of "gp_sign_outs g" n "?s\<lparr>so_settled := True\<rparr>"]
    by (auto simp: logout_answer_def Let_def account_inv_def)
  show ?thesis
  proof (cases "so_generation ?s = gp_generation g")
    case own: True
    then have "so_identity ?s = gp_identity g" using True assms by (auto simp: account_inv_def)
    then show ?thesis using assms True own len kept
      by (auto simp: account_inv_def logout_answer_def Let_def split: sum.splits if_splits)
  next
    case False
    then show ?thesis using assms True len kept by (auto simp: account_inv_def logout_answer_def Let_def)
  qed
qed (use assms in \<open>auto simp: logout_answer_def\<close>)

lemma account_reachable_inv: "account_reachable g \<Longrightarrow> account_inv g"
proof (induction rule: account_reachable.induct)
  case (account_opened i)
  show ?case by (simp add: account_inv_def open_account_def own_sign_outs_def)
next
  case (account_stepped g e)
  then show ?case
    by (cases e) (simp_all add: account_inv_show account_inv_unmount account_inv_host account_inv_logout account_inv_answer)
qed

lemma sign_out_offered: "AccountSignOut \<in> set (offers (account_view account theme g)) \<longleftrightarrow> \<not> account_busy g"
  by (auto simp: account_view_def theme_option_def is_on_def attr_text_def jget_def)

text \<open>The panel offers to sign out exactly when no sign-out of the account shown is under way, never has two under way, and the
  answer to a sign-out started under another account or before it was closed changes nothing that is shown.\<close>

theorem sign_out_honest:
  assumes "account_reachable g" "gp_mounted g"
  shows "(AccountSignOut \<in> set (offers (account_view account theme g)) \<longleftrightarrow> own_sign_outs g = []) \<and> length (own_sign_outs g) \<le> 1
    \<and> (so_generation (gp_sign_outs g ! n) \<noteq> gp_generation g \<longrightarrow> account_view account theme (logout_answer n r g) = account_view account theme g)"
proof -
  have inv: "account_inv g" by (rule account_reachable_inv [OF assms(1)])
  then have "account_busy g = gp_busy g" "length (own_sign_outs g) = (if gp_busy g then 1 else 0)"
    using assms(2) by (auto simp: account_inv_def account_busy_def)
  then have "(\<not> account_busy g \<longleftrightarrow> own_sign_outs g = []) \<and> length (own_sign_outs g) \<le> 1" by (cases "gp_busy g") auto
  moreover have "account_view account theme (logout_answer n r g) = account_view account theme g"
    if "so_generation (gp_sign_outs g ! n) \<noteq> gp_generation g"
  proof -
    have "gp_identity (logout_answer n r g) = gp_identity g" "gp_op (logout_answer n r g) = gp_op g" "gp_host (logout_answer n r g) = gp_host g"
      using that by (simp_all add: logout_answer_def Let_def)
    then show ?thesis by (simp only: account_view_def account_busy_def account_error_def)
  qed
  ultimately show ?thesis by (simp add: sign_out_offered)
qed

definition switched_account :: account_panel where
  "switched_account = account_step (GeneralShow ''b'') (account_step GeneralSignOut (open_account ''a''))"

lemma switched_reachable: "account_reachable switched_account"
  unfolding switched_account_def by (intro account_reachable.intros)

theorem sign_out_honest_witness:
  "AccountSignOut \<in> set (offers (account_view ''B'' ''dark'' switched_account))
    \<and> account_view ''B'' ''dark'' (logout_answer 0 (Inl (JsError ''late'')) switched_account) = account_view ''B'' ''dark'' switched_account"
proof -
  have "gp_mounted switched_account" "own_sign_outs switched_account = []"
    "so_generation (gp_sign_outs switched_account ! 0) \<noteq> gp_generation switched_account" by code_simp+
  then show ?thesis using sign_out_honest [OF switched_reachable, of "''B''" "''dark''" 0 "Inl (JsError ''late'')"] by blast
qed

section \<open>Clicks inside the settings\<close>

text \<open>A button of the page as the captured click sees it: its label, whether it lies inside a reviewed action, the first
  invalid enabled field of its form with the browser's message, and the text that names its row.\<close>

record page_button =
  pb_label :: string
  pb_disabled :: bool
  pb_connected :: bool
  pb_reviewed_action :: bool
  pb_invalid :: "string option"
  pb_target :: string

definition begins_one_of :: "string list \<Rightarrow> string \<Rightarrow> bool" where
  "begins_one_of ps label = list_ex (\<lambda>p. starts_with p (lower_text label)) ps"

definition is_save :: "string \<Rightarrow> bool" where
  "is_save = begins_one_of [''save'', ''create'', ''add '', ''verify and save'', ''authorize and create'', ''apply'', ''enroll'', ''provision'']"

definition is_leave :: "string \<Rightarrow> bool" where
  "is_leave = begins_one_of [''cancel'', ''refresh'', ''close editor'', ''load current'', ''load native'', ''restore as draft'', ''use current'', ''edit '',
     ''update authentication'', ''new scheduled task'', ''enroll'']"

definition line_break :: "char \<Rightarrow> bool" where
  "line_break c \<longleftrightarrow> c = CHR 0x0A \<or> c = CHR 0x0D"

definition is_destructive :: "string \<Rightarrow> bool" where
  "is_destructive label \<longleftrightarrow>
     begins_one_of [''delete'', ''remove'', ''revoke'', ''tear down'', ''stop runner'', ''end legacy'', ''disable model review'', ''prune with''] label
     \<or> (starts_with ''disable'' (lower_text label)
        \<and> contains ''revoke'' (takeWhile (\<lambda>c. \<not> line_break c) (drop (length ''disable'') (lower_text label))))"

definition cancels_review :: "page_button \<Rightarrow> bool" where
  "cancels_review b \<longleftrightarrow> starts_with ''cancel'' (lower_text (pb_label b))
     \<and> (case drop (length ''cancel'') (pb_label b) of [] \<Rightarrow> True | c # _ \<Rightarrow> is_space c) \<and> pb_reviewed_action b"

text \<open>What happens: a click is let through to the button's own handler, or a review is opened.\<close>

datatype shell_log = PassedClick nat string bool bool | OpenedReview nat

record settings_shell =
  sh_review :: "(nat \<times> string \<times> string) option"
  sh_error :: string
  sh_reviewed :: "nat option"
  sh_log :: "shell_log list"

definition open_shell :: settings_shell where
  "open_shell = \<lparr>sh_review = None, sh_error = [], sh_reviewed = None, sh_log = []\<rparr>"

type_synonym settings_page = "nat \<Rightarrow> page_button"

definition pass_click :: "page_button \<Rightarrow> nat \<Rightarrow> bool \<Rightarrow> settings_shell \<Rightarrow> settings_shell" where
  "pass_click b i confirmed s = s\<lparr>sh_log := sh_log s @ [PassedClick i (pb_label b) (pb_reviewed_action b) confirmed]\<rparr>"

text \<open>\<open>leave\<close> is what dispatching the cancelable leave event returns.\<close>

definition capture :: "settings_page \<Rightarrow> bool \<Rightarrow> nat \<Rightarrow> settings_shell \<Rightarrow> settings_shell" where
  "capture pg leave i s =
     (let b = pg i; label = pb_label b in
      if pb_disabled b then s
      else if sh_reviewed s = Some i then pass_click b i True (s\<lparr>sh_reviewed := None\<rparr>)
      else if is_save label \<and> pb_invalid b \<noteq> None
      then s\<lparr>sh_error := (case pb_invalid b of Some m \<Rightarrow> if m = [] then ''Review the highlighted field before saving.'' else m | None \<Rightarrow> [])\<rparr>
      else (let s = s\<lparr>sh_error := []\<rparr> in
            if is_leave label \<and> \<not> cancels_review b \<and> \<not> leave then s
            else if is_destructive label \<and> \<not> pb_reviewed_action b
            then s\<lparr>sh_review := Some (i, label, pb_target b), sh_log := sh_log s @ [OpenedReview i]\<rparr>
            else pass_click b i False s))"

definition cancel_review :: "settings_shell \<Rightarrow> settings_shell" where
  "cancel_review s = s\<lparr>sh_review := None\<rparr>"

definition confirm_review :: "settings_page \<Rightarrow> bool \<Rightarrow> settings_shell \<Rightarrow> settings_shell" where
  "confirm_review pg leave s =
     (case sh_review s of
        None \<Rightarrow> s
      | Some (i, _, _) \<Rightarrow>
          (let s = s\<lparr>sh_review := None\<rparr> in
           if pb_connected (pg i) \<and> \<not> pb_disabled (pg i) then capture pg leave i (s\<lparr>sh_reviewed := Some i\<rparr>) else s))"

datatype shell_event = ShellClick nat | ShellCancel | ShellConfirm

fun shell_step :: "settings_page \<times> bool \<times> shell_event \<Rightarrow> settings_shell \<Rightarrow> settings_shell" where
  "shell_step (pg, leave, ShellClick i) s = capture pg leave i s"
| "shell_step (pg, leave, ShellCancel) s = cancel_review s"
| "shell_step (pg, leave, ShellConfirm) s = confirm_review pg leave s"

definition run_shell :: "(settings_page \<times> bool \<times> shell_event) list \<Rightarrow> settings_shell" where
  "run_shell es = foldl (\<lambda>s e. shell_step e s) open_shell es"

text \<open>The dialog of the review.\<close>

definition shell_view :: "settings_shell \<Rightarrow> shell_event view" where
  "shell_view s = box ''div''
     [show_if (sh_error s \<noteq> []) (labelled ''p'' (sh_error s)),
      (case sh_review s of None \<Rightarrow> VNone
       | Some (i, label, target) \<Rightarrow> box ''dialog''
          [labelled ''h2'' (label @ ''?''),
           labelled ''p'' ''Review this change before it is sent to the host. Deletion is permanent; revoking access disconnects affected devices and running work.'',
           show_if (target \<noteq> []) (labelled ''p'' target),
           button False ShellCancel ''Cancel'', button False ShellConfirm (''Confirm '' @ lower_text label)])]"

subsection \<open>Nothing is destroyed without its review\<close>

definition confirmed_click :: "nat \<Rightarrow> shell_log \<Rightarrow> bool" where
  "confirmed_click i l = (case l of PassedClick j _ _ c \<Rightarrow> j = i \<and> c | OpenedReview _ \<Rightarrow> False)"

definition review_of :: "nat \<Rightarrow> shell_log \<Rightarrow> bool" where
  "review_of i l = (case l of PassedClick _ _ _ _ \<Rightarrow> False | OpenedReview j \<Rightarrow> j = i)"

definition unreviewed :: "shell_log \<Rightarrow> bool" where
  "unreviewed l = (case l of PassedClick _ label inside c \<Rightarrow> is_destructive label \<and> \<not> inside \<and> \<not> c | OpenedReview _ \<Rightarrow> False)"

definition open_review :: "nat \<Rightarrow> settings_shell \<Rightarrow> nat" where
  "open_review i s = (case sh_review s of Some (j, _, _) \<Rightarrow> if j = i then 1 else 0 | None \<Rightarrow> 0)"

definition shell_inv :: "settings_shell \<Rightarrow> bool" where
  "shell_inv s \<longleftrightarrow> sh_reviewed s = None \<and> \<not> list_ex unreviewed (sh_log s)
     \<and> (\<forall>i. length (filter (confirmed_click i) (sh_log s)) + open_review i s \<le> length (filter (review_of i) (sh_log s)))"

lemmas shell_log_simps = confirmed_click_def review_of_def unreviewed_def open_review_def

lemma shell_inv_click:
  assumes "shell_inv s" shows "shell_inv (capture pg leave i s)"
proof -
  have "length (filter (confirmed_click j) (sh_log s)) \<le> length (filter (review_of j) (sh_log s))" for j
    using assms by (auto simp: shell_inv_def dest: spec [of _ j])
  then show ?thesis using assms
    by (auto simp: capture_def Let_def shell_inv_def pass_click_def shell_log_simps split: option.splits)
qed

lemma shell_inv_cancel: "shell_inv s \<Longrightarrow> shell_inv (cancel_review s)"
  by (auto simp: shell_inv_def cancel_review_def open_review_def intro: add_leD1)

lemma shell_inv_confirm:
  assumes "shell_inv s" shows "shell_inv (confirm_review pg leave s)"
proof (cases "sh_review s")
  case (Some r)
  obtain i l t where r: "r = (i, l, t)" by (cases r)
  have le: "length (filter (confirmed_click j) (sh_log s)) + (if j = i then 1 else 0) \<le> length (filter (review_of j) (sh_log s))" for j
    using assms Some r by (auto simp: shell_inv_def open_review_def dest: spec [of _ j] split: if_splits)
  have closed: "shell_inv (s\<lparr>sh_review := None\<rparr>)" using shell_inv_cancel [OF assms] by (simp add: cancel_review_def)
  have "length (filter (confirmed_click j) (sh_log s @ [PassedClick i lb b True])) \<le> length (filter (review_of j) (sh_log s @ [PassedClick i lb b True]))"
    for j lb b using le [of j] by (auto simp: confirmed_click_def review_of_def split: if_splits)
  then show ?thesis using closed assms Some r
    by (auto simp: confirm_review_def capture_def Let_def pass_click_def shell_inv_def open_review_def unreviewed_def)
qed (use assms in \<open>simp add: confirm_review_def\<close>)

lemma shell_inv_run: "shell_inv (run_shell es)"
proof -
  have step: "shell_inv s \<Longrightarrow> shell_inv (shell_step e s)" for s e
  proof -
    obtain pg leave ev where "e = (pg, leave, ev)" by (cases e)
    then show "shell_inv s \<Longrightarrow> shell_inv (shell_step e s)"
      by (cases ev) (simp_all add: shell_inv_click shell_inv_cancel shell_inv_confirm)
  qed
  show ?thesis unfolding run_shell_def
  proof (rule foldl_invariant)
    show "shell_inv open_shell" by (simp add: shell_inv_def open_shell_def open_review_def)
  qed (rule step)
qed


text \<open>A form with an invalid field is not saved: the click does not pass, and the reason is shown.\<close>

theorem invalid_form_stops:
  assumes "is_save (pb_label (pg i))" "pb_invalid (pg i) = Some m" "sh_reviewed s \<noteq> Some i" "\<not> pb_disabled (pg i)"
  shows "sh_log (capture pg leave i s) = sh_log s \<and> sh_error (capture pg leave i s) \<noteq> []"
  using assms by (simp add: capture_def Let_def)

definition save_button :: "nat \<Rightarrow> page_button" where
  "save_button i = \<lparr>pb_label = ''Save memory changes'', pb_disabled = False, pb_connected = True, pb_reviewed_action = False,
     pb_invalid = Some ''Enter a whole number'', pb_target = []\<rparr>"

theorem invalid_form_stops_witness:
  "sh_error (capture save_button True 3 open_shell) \<noteq> []"
proof -
  have "is_save (pb_label (save_button 3))" "pb_invalid (save_button 3) = Some ''Enter a whole number''"
    "sh_reviewed open_shell \<noteq> Some 3" "\<not> pb_disabled (save_button 3)" by code_simp+
  then show ?thesis using invalid_form_stops [of save_button 3 "''Enter a whole number''" open_shell True] by blast
qed

section \<open>The mode of a conversation\<close>

definition modes :: "(string \<times> string \<times> string) list" where
  "modes = [(''ask'', ''Ask'', ''Explore ideas, understand code, and plan your next move.''),
            (''agent'', ''Agent'', ''Work through a task using the tools available to this agent.'')]"

definition selected_mode :: "session option \<Rightarrow> string \<times> string \<times> string" where
  "selected_mode s = (case find (\<lambda>m. s \<noteq> None \<and> fst m = ses_mode (the s)) modes of Some m \<Rightarrow> m | None \<Rightarrow> hd modes)"

datatype mode_action = OpenModes | ChooseMode string

definition mode_option :: "bool \<Rightarrow> string \<Rightarrow> string \<times> string \<times> string \<Rightarrow> mode_action view" where
  "mode_option running selected m = box ''label''
     [VEl ''input'' [attr_text ''value'' (fst m), attr_flag ''checked'' (selected = fst m), attr_flag ''disabled'' running] [(''onChange'', ChooseMode (fst m))] [],
      labelled ''strong'' (fst (snd m)), labelled ''small'' (snd (snd m))]"

definition mode_view :: "session option \<Rightarrow> bool \<Rightarrow> bool \<Rightarrow> mode_action view" where
  "mode_view s running is_open =
     (let selected = selected_mode s in box ''div''
        [button (s = None) OpenModes (fst (snd selected)),
         show_if is_open (box ''dialog''
           [labelled ''h2'' ''Choose a mode'', labelled ''p'' ''Set the direction for your next turn.'',
            box ''div'' (map (mode_option running (fst selected)) modes),
            show_if running (labelled ''p'' ''Change mode after the current task finishes.'')])])"

text \<open>The effect of an action: the dialog, and the patch handed to the conversation.\<close>

definition mode_act :: "mode_action \<Rightarrow> bool \<times> jsobj list" where
  "mode_act a = (case a of OpenModes \<Rightarrow> (True, []) | ChooseMode m \<Rightarrow> (False, [[(''mode'', JStr m)]]))"

text \<open>While a task runs no mode can be chosen, and otherwise only the two modes the host knows.\<close>

theorem mode_offered_when_idle:
  "ChooseMode m \<in> set (offers (mode_view s running is_open)) \<longleftrightarrow> is_open \<and> \<not> running \<and> m \<in> {''ask'', ''agent''}"
  by (auto simp: mode_view_def Let_def mode_option_def modes_def is_on_def attr_text_def attr_flag_def jget_def simp del: view_text.simps)

section \<open>Welcome\<close>

definition starters :: "(string \<times> string \<times> string) list" where
  "starters =
     [(''Make a plan'', ''Turn a goal into clear next steps'', ''Help me turn my goal into a practical plan. Ask what you need to know first.''),
      (''Research something'', ''Explore a question and compare options'', ''Help me research a question and compare the options. Ask me what I want to explore.''),
      (''Work on a task'', ''Explain the outcome you want'', ''I have a task for you. Help me define the outcome, then work through it with me.'')]"

definition needs_connection :: "bool \<Rightarrow> session option \<Rightarrow> engine list \<Rightarrow> provider list \<Rightarrow> bool" where
  "needs_connection hide s engines providers =
     (case s of None \<Rightarrow> False
      | Some x \<Rightarrow> \<not> hide \<and>
         (if ses_engine x = ''internal''
          then \<not> truthy_text (ses_runner_id x)
               \<and> (case find (\<lambda>p. Some (prov_id p) = ses_provider_id x) providers of Some p \<Rightarrow> \<not> prov_secret_configured p | None \<Rightarrow> True)
          else (case find (\<lambda>e. eng_id e = ses_engine x) engines of Some e \<Rightarrow> eng_available e = Some False | None \<Rightarrow> True)))"

datatype welcome_action = StartWith string | ConfigureAgent

definition starter_view :: "string \<times> string \<times> string \<Rightarrow> welcome_action view" where
  "starter_view t = VEl ''button'' [] [(''onClick'', StartWith (snd (snd t)))] [VText (fst t), VText (fst (snd t))]"

definition welcome_view :: "bool \<Rightarrow> bool \<Rightarrow> session option \<Rightarrow> engine list \<Rightarrow> provider list \<Rightarrow> welcome_action view" where
  "welcome_view hide can_configure s engines providers = box ''div''
     [labelled ''h2'' (if s \<noteq> None then ''What can we work on?'' else ''Start with a conversation''),
      labelled ''p'' (if s \<noteq> None
        then ''Bring a question, a goal, or a task. Your agent keeps the conversation in one place; files and tools are here when you need them.''
        else ''Your conversations and agent activity will appear here. Open a chat to continue.''),
      show_if (s \<noteq> None) (box ''div'' (map starter_view starters)),
      show_if (needs_connection hide s engines providers) (box ''div''
        [labelled ''strong'' ''Connect your agent'',
         labelled ''small'' (if s \<noteq> None \<and> ses_engine (the s) = ''internal''
           then ''Choose a model connection before your first message. Your draft stays here.''
           else ''This engine is unavailable. Check its connection before starting a task.''),
         show_if can_configure (button False ConfigureAgent ''Set up connection'')])]"

text \<open>The setup is offered only for a conversation that could not start a task as it stands: no runner and no provider with a stored
  secret, or no available engine.\<close>

theorem setup_only_when_needed:
  assumes "ConfigureAgent \<in> set (offers (welcome_view hide can_configure s engines providers))"
  shows "\<not> hide \<and> (\<exists>x. s = Some x
    \<and> (ses_engine x = ''internal'' \<longrightarrow> \<not> truthy_text (ses_runner_id x) \<and> \<not> (\<exists>p. find (\<lambda>p. Some (prov_id p) = ses_provider_id x) providers = Some p \<and> prov_secret_configured p))
    \<and> (ses_engine x \<noteq> ''internal'' \<longrightarrow> \<not> (\<exists>e. find (\<lambda>e. eng_id e = ses_engine x) engines = Some e \<and> eng_available e \<noteq> Some False)))"
proof -
  have "needs_connection hide s engines providers"
    using assms by (auto simp: welcome_view_def starter_view_def in_offers is_on_def jget_def simp del: offer_rules)
  then show ?thesis by (cases s) (auto simp: needs_connection_def split: if_splits option.splits)
qed

end
