(* ===== verification/TaskSupervisor.thy ===== *)
theory TaskSupervisor
  imports OneAtATime AiElements
begin

text \<open>
  \<open>features/TaskSupervisor.tsx\<close>: the dialog that follows the tree of a task, controls its runs and assembles a team of
  workers. A control and a team are each asked one at a time; a change of the task or an unmount starts a new generation.
  A team is sent under a request id that every edit renews. \<open>uuid\<close> is the next value of \<open>crypto.randomUUID\<close>.
\<close>

section \<open>The tree of a task\<close>

record tree_budget =
  tb_root :: string
  tb_max_steps :: int
  tb_used_steps :: int
  tb_max_seconds :: int
  tb_used_seconds :: rat
  tb_workers :: int

record run_info =
  ri_id :: string
  ri_status :: string
  ri_prompt :: string
  ri_result :: "string option"
  ri_error :: "string option"
  ri_engine :: "string option"
  ri_mode :: "string option"
  ri_cwd :: "string option"
  ri_parent :: "string option"
  ri_runner :: "string option"
  ri_location :: "string option"
  ri_label :: "string option"
  ri_delegated :: "string option"
  ri_isolation :: "string option"
  ri_truncated :: bool
  ri_branch :: "string option"
  ri_worktree :: "string option"
  ri_limits :: "(string \<times> int) list option"
  ri_budget :: "tree_budget option"

datatype sup_run = SupRun (sr_info: run_info) (sr_children: "sup_run list")

definition run_active :: "run_info \<Rightarrow> bool" where
  "run_active i \<longleftrightarrow> ri_status i \<in> {''queued'', ''running'', ''planning'', ''awaiting_approval'', ''paused'', ''recovering'',
     ''recovery_confirmation_required'', ''cancelling''}"

definition run_steerable :: "run_info \<Rightarrow> bool" where
  "run_steerable i \<longleftrightarrow> ri_status i \<in> {''running'', ''awaiting_approval''}"

fun flatten_run :: "sup_run \<Rightarrow> sup_run list" where
  "flatten_run (SupRun i ks) = SupRun i ks # concat (map flatten_run ks)"

lemma flatten_root: "t \<in> set (flatten_run t)"
  by (cases t) simp

section \<open>The team and the state\<close>

datatype worker_access = AskOnly | MayEdit

record team_member =
  tm_agent :: string
  tm_task :: string
  tm_instructions :: string
  tm_mode :: worker_access

definition blank_member :: "string \<Rightarrow> team_member" where
  "blank_member a = \<lparr>tm_agent = a, tm_task = [], tm_instructions = [], tm_mode = AskOnly\<rparr>"

definition initial_members :: "team_member list" where
  "initial_members = [blank_member ''Researcher'', blank_member ''Reviewer'']"

record member_result =
  mb_agent :: string
  mb_ok :: bool
  mb_task :: "string option"
  mb_error :: "string option"

record team_result =
  tr_ok :: bool
  tr_members :: "member_result list"

datatype control_body = CancelBody | SteerBody string | RetryBody string | RecoverBody bool

record control_flight =
  cf_origin :: nat
  cf_target :: string
  cf_body :: control_body
  cf_done :: bool

record team_flight =
  tf_origin :: nat
  tf_root :: string
  tf_request :: string
  tf_members :: "team_member list"
  tf_done :: bool

record sup_poll =
  pl_task :: string
  pl_live :: bool
  pl_asked :: bool

record supervisor =
  sv_task :: string
  sv_alive :: bool
  sv_root :: "sup_run option"
  sv_selected :: string
  sv_message :: string
  sv_confirm :: bool
  sv_busy :: bool
  sv_creating :: bool
  sv_load_error :: string
  sv_building :: bool
  sv_members :: "team_member list"
  sv_result :: "team_result option"
  sv_request :: string
  sv_generation :: nat
  sv_mutation :: bool
  sv_team_mutation :: bool
  sv_polls :: "sup_poll list"
  sv_controls :: "control_flight list"
  sv_teams :: "team_flight list"
  sv_errors :: "js_error list"

definition stop_polls :: "sup_poll list \<Rightarrow> sup_poll list" where
  "stop_polls = map (\<lambda>p. p\<lparr>pl_live := False\<rparr>)"

text \<open>The polling effect: the former loop is aborted and another begins.\<close>

definition start_poll :: "supervisor \<Rightarrow> supervisor" where
  "start_poll s = s\<lparr>sv_polls := stop_polls (sv_polls s) @ [\<lparr>pl_task = sv_task s, pl_live = True, pl_asked = True\<rparr>]\<rparr>"

text \<open>The resetting effect, which also runs at the mount.\<close>

definition reset_supervisor :: "string \<Rightarrow> supervisor \<Rightarrow> supervisor" where
  "reset_supervisor uuid s = s\<lparr>sv_busy := False, sv_creating := False, sv_load_error := [], sv_root := None, sv_selected := [], sv_message := [],
     sv_confirm := False, sv_building := False, sv_members := initial_members, sv_result := None, sv_request := uuid\<rparr>"

definition open_supervisor :: "string \<Rightarrow> string \<Rightarrow> supervisor" where
  "open_supervisor t uuid = start_poll (reset_supervisor uuid
     \<lparr>sv_task = t, sv_alive = True, sv_root = None, sv_selected = [], sv_message = [], sv_confirm = False, sv_busy = False, sv_creating = False,
      sv_load_error = [], sv_building = False, sv_members = initial_members, sv_result = None, sv_request = [], sv_generation = 0,
      sv_mutation = False, sv_team_mutation = False, sv_polls = [], sv_controls = [], sv_teams = [], sv_errors = []\<rparr>)"

definition supervise :: "string \<Rightarrow> string \<Rightarrow> supervisor \<Rightarrow> supervisor" where
  "supervise t uuid s =
     (if t = sv_task s then s
      else start_poll (reset_supervisor uuid (s\<lparr>sv_task := t, sv_generation := Suc (sv_generation s), sv_mutation := False, sv_team_mutation := False\<rparr>)))"

definition unmount_supervisor :: "supervisor \<Rightarrow> supervisor" where
  "unmount_supervisor s = s\<lparr>sv_alive := False, sv_generation := Suc (sv_generation s), sv_polls := stop_polls (sv_polls s)\<rparr>"

section \<open>Polling\<close>

text \<open>An aborted loop changes nothing and asks nothing more; a message of an error is shown as it is, another one as a fixed text.\<close>

definition tree_answer :: "nat \<Rightarrow> sup_run js_result \<Rightarrow> supervisor \<Rightarrow> supervisor" where
  "tree_answer n r s =
     (if \<not> pl_live (sv_polls s ! n) then s
      else (let s' = s\<lparr>sv_polls := (sv_polls s)[n := (sv_polls s ! n)\<lparr>pl_asked := False\<rparr>]\<rparr> in
            case r of Inl e \<Rightarrow> s'\<lparr>sv_load_error := error_message e\<rparr> | Inr v \<Rightarrow> s'\<lparr>sv_root := Some v, sv_load_error := []\<rparr>))"

definition poll_again :: "nat \<Rightarrow> supervisor \<Rightarrow> supervisor" where
  "poll_again n s =
     (if pl_live (sv_polls s ! n) then s\<lparr>sv_polls := (sv_polls s)[n := (sv_polls s ! n)\<lparr>pl_asked := True\<rparr>]\<rparr> else s)"

section \<open>What is known of the team\<close>

definition run_workers :: "supervisor \<Rightarrow> sup_run list" where
  "run_workers s = (case sv_root s of None \<Rightarrow> [] | Some t \<Rightarrow> sr_children t)"

definition live_workers :: "supervisor \<Rightarrow> nat" where
  "live_workers s = length (filter (\<lambda>t. run_active (sr_info t)) (run_workers s))"

definition limit_of :: "string \<Rightarrow> int \<Rightarrow> supervisor \<Rightarrow> int" where
  "limit_of k d s =
     (case Option.bind (Option.bind (sv_root s) (\<lambda>t. ri_limits (sr_info t))) (\<lambda>ls. map_of ls k) of Some n \<Rightarrow> n | None \<Rightarrow> d)"

definition team_parallel :: "supervisor \<Rightarrow> int" where
  "team_parallel s = limit_of ''max_parallel_subagents'' 3 s"

definition team_total :: "supervisor \<Rightarrow> int" where
  "team_total s = limit_of ''max_subagents_total'' 8 s"

definition team_slots :: "supervisor \<Rightarrow> int" where
  "team_slots s = max 0 (min 8 (min (team_parallel s - int (live_workers s)) (team_total s - int (length (run_workers s)))))"

definition can_build :: "supervisor \<Rightarrow> bool" where
  "can_build s \<longleftrightarrow> (case sv_root s of None \<Rightarrow> False
     | Some t \<Rightarrow> (let i = sr_info t in \<not> truthy_text (ri_parent i) \<and> \<not> truthy_text (ri_runner i) \<and> ri_engine i = Some ''internal''
         \<and> ri_mode i \<noteq> Some ''ask'' \<and> ri_status i \<in> {''running'', ''planning'', ''awaiting_approval'', ''paused''}))"

definition valid_team :: "supervisor \<Rightarrow> bool" where
  "valid_team s \<longleftrightarrow> sv_members s \<noteq> [] \<and> int (length (sv_members s)) \<le> team_slots s
     \<and> list_all (\<lambda>m. trim (tm_agent m) \<noteq> [] \<and> trim (tm_task m) \<noteq> []) (sv_members s)
     \<and> distinct (map (\<lambda>m. lower_text (trim (tm_agent m))) (sv_members s))"

definition trimmed_members :: "team_member list \<Rightarrow> team_member list" where
  "trimmed_members = map (\<lambda>m. m\<lparr>tm_agent := trim (tm_agent m), tm_task := trim (tm_task m)\<rparr>)"

definition tree_runs :: "supervisor \<Rightarrow> sup_run list" where
  "tree_runs s = (case sv_root s of None \<Rightarrow> [] | Some t \<Rightarrow> flatten_run t)"

definition chosen_run :: "supervisor \<Rightarrow> sup_run option" where
  "chosen_run s = (case find (\<lambda>t. ri_id (sr_info t) = sv_selected s) (tree_runs s) of Some t \<Rightarrow> Some t | None \<Rightarrow> sv_root s)"

section \<open>Handlers\<close>

definition change_team :: "string \<Rightarrow> team_member list \<Rightarrow> supervisor \<Rightarrow> supervisor" where
  "change_team uuid ms s = s\<lparr>sv_members := ms, sv_request := uuid, sv_result := None\<rparr>"

definition edit_member :: "string \<Rightarrow> nat \<Rightarrow> (team_member \<Rightarrow> team_member) \<Rightarrow> supervisor \<Rightarrow> supervisor" where
  "edit_member uuid k f s = change_team uuid (map (\<lambda>(i, m). if i = k then f m else m) (enumerate 0 (sv_members s))) s"

definition remove_member :: "string \<Rightarrow> nat \<Rightarrow> supervisor \<Rightarrow> supervisor" where
  "remove_member uuid k s = change_team uuid (map snd (filter (\<lambda>(i, m). i \<noteq> k) (enumerate 0 (sv_members s)))) s"

definition add_member :: "string \<Rightarrow> supervisor \<Rightarrow> supervisor" where
  "add_member uuid s = change_team uuid (sv_members s @ [blank_member (''Worker '' @ nat_text (length (sv_members s) + 1))]) s"

definition toggle_builder :: "string \<Rightarrow> supervisor \<Rightarrow> supervisor" where
  "toggle_builder uuid s =
     (if sv_building s then s\<lparr>sv_building := False\<rparr>
      else (let s' = (if sv_creating s then s else change_team uuid (take (nat (min 2 (team_slots s))) initial_members) s) in s'\<lparr>sv_building := True\<rparr>))"

definition control_run :: "string \<Rightarrow> control_body \<Rightarrow> supervisor \<Rightarrow> supervisor" where
  "control_run target b s =
     (if sv_mutation s then s
      else s\<lparr>sv_mutation := True, sv_busy := True,
             sv_controls := sv_controls s @ [\<lparr>cf_origin = sv_generation s, cf_target = target, cf_body = b, cf_done = False\<rparr>]\<rparr>)"

definition is_steer :: "control_body \<Rightarrow> bool" where
  "is_steer b \<longleftrightarrow> (case b of SteerBody _ \<Rightarrow> True | _ \<Rightarrow> False)"

definition control_answered :: "nat \<Rightarrow> unit js_result \<Rightarrow> supervisor \<Rightarrow> supervisor" where
  "control_answered n r s =
     (let f = sv_controls s ! n; s' = s\<lparr>sv_controls := (sv_controls s)[n := f\<lparr>cf_done := True\<rparr>]\<rparr> in
      if cf_origin f \<noteq> sv_generation s then s'
      else (case r of
              Inl e \<Rightarrow> s'\<lparr>sv_errors := sv_errors s @ [e]\<rparr>
            | Inr _ \<Rightarrow> start_poll (if is_steer (cf_body f) then s'\<lparr>sv_message := []\<rparr> else s'))
           \<lparr>sv_mutation := False, sv_busy := False\<rparr>)"

definition create_team :: "supervisor \<Rightarrow> supervisor" where
  "create_team s =
     (case sv_root s of None \<Rightarrow> s
      | Some t \<Rightarrow>
          if \<not> valid_team s \<or> sv_team_mutation s then s
          else s\<lparr>sv_team_mutation := True, sv_creating := True,
                 sv_teams := sv_teams s @ [\<lparr>tf_origin = sv_generation s, tf_root = ri_id (sr_info t), tf_request = sv_request s,
                   tf_members = trimmed_members (sv_members s), tf_done = False\<rparr>]\<rparr>)"

definition team_answered :: "nat \<Rightarrow> team_result js_result \<Rightarrow> supervisor \<Rightarrow> supervisor" where
  "team_answered n r s =
     (let f = sv_teams s ! n; s' = s\<lparr>sv_teams := (sv_teams s)[n := f\<lparr>tf_done := True\<rparr>]\<rparr> in
      if tf_origin f \<noteq> sv_generation s then s'
      else (case r of Inl e \<Rightarrow> s'\<lparr>sv_errors := sv_errors s @ [e]\<rparr> | Inr v \<Rightarrow> start_poll (s'\<lparr>sv_result := Some v\<rparr>))
           \<lparr>sv_team_mutation := False, sv_creating := False\<rparr>)"

section \<open>What it shows\<close>

datatype member_field = FieldAgent string | FieldTask string | FieldInstructions string | FieldMode worker_access

datatype sup_click =
    ReloadTree | ToggleBuilder | SubmitTeam | EditMember nat member_field | RemoveMember nat | AddMember | InspectWorker string | SelectRun string
  | RetryRun string | SteerRun string question_action | TickRecovery | RecoverRun string | CancelRun string | CloseSupervisor

text \<open>\<open>toFixed(1)\<close> and \<open>JSON.stringify\<close>.\<close>

record sup_format =
  fm_fixed :: "rat \<Rightarrow> string"
  fm_limits :: "(string \<times> int) list option \<Rightarrow> string"

definition spaced_status :: "run_info \<Rightarrow> string" where
  "spaced_status i = replace_char CHR ''_'' CHR '' '' (ri_status i)"

definition mid_dot :: string where
  "mid_dot = [CHR '' '', CHR 0xB7, CHR '' '']"

definition task_words :: "run_info \<Rightarrow> string" where
  "task_words i = or_text (ri_delegated i) (ri_prompt i)"

fun run_tree :: "string option \<Rightarrow> sup_run \<Rightarrow> sup_click view" where
  "run_tree chosen (SupRun i ks) = box ''div''
     ([VEl ''button'' [attr_flag ''aria-pressed'' (chosen = Some (ri_id i))] [(''onClick'', SelectRun (ri_id i))]
         [VEl ''strong'' [attr_text ''title'' (task_words i)] []
            [VText ((if truthy_text (ri_label i) then or_text (ri_label i) [] @ mid_dot else []) @ take 100 (task_words i))],
          labelled ''small'' (spaced_status i)],
       show_if (ri_truncated i) (labelled ''p'' ''More tasks exist than this view can display.'')]
      @ map (run_tree chosen) ks)"

definition team_summary :: "supervisor \<Rightarrow> sup_click view" where
  "team_summary s = box ''section''
     [labelled ''strong'' (nat_text (length (run_workers s)) @ '' workers'' @ mid_dot @ nat_text (live_workers s) @ '' active''),
      labelled ''span'' (int_text (team_slots s) @ '' available slots'' @ mid_dot @ ''up to '' @ int_text (team_parallel s) @ '' parallel / '' @ int_text (team_total s) @ '' total''),
      show_if (\<not> can_build s) (labelled ''small'' ''Team assembly requires an active local internal task in Agent mode.''),
      show_if (can_build s) (button (sv_busy s \<or> (\<not> sv_building s \<and> \<not> sv_creating s \<and> team_slots s = 0)) ToggleBuilder
        (if sv_building s then ''Close team builder'' else ''Build agent team''))]"

definition member_input :: "string \<Rightarrow> string \<Rightarrow> int \<Rightarrow> string \<Rightarrow> string \<Rightarrow> sup_click \<Rightarrow> sup_click view" where
  "member_input tag label n k v a =
     box ''label'' [VText label, VEl tag [attr_text ''aria-label'' k, (''maxLength'', js_int n), attr_text ''value'' v] [(''onChange'', a)] []]"

definition member_view :: "string \<Rightarrow> nat \<Rightarrow> nat \<Rightarrow> team_member \<Rightarrow> sup_click view" where
  "member_view typed count k m =
     (let worker = ''Worker '' @ nat_text (k + 1) in box ''section''
       [member_input ''input'' ''Worker name'' 100 (worker @ '' name'') (tm_agent m) (EditMember k (FieldAgent typed)),
        member_input ''textarea'' ''Task'' 64000 (worker @ '' task'') (tm_task m) (EditMember k (FieldTask typed)),
        picker False (\<lambda>x. EditMember k (FieldMode x)) (\<lambda>x. case x of AskOnly \<Rightarrow> ''Read only'' | MayEdit \<Rightarrow> ''Edit in isolated workspace'') [AskOnly, MayEdit],
        member_input ''textarea'' ''Worker instructions'' 64000 (worker @ '' instructions'') (tm_instructions m) (EditMember k (FieldInstructions typed)),
        button (count = 1) (RemoveMember k) ''Remove''])"

definition result_row :: "member_result \<Rightarrow> sup_click view" where
  "result_row m = box ''p'' [VText (mb_agent m @ '': ''),
     (if truthy_text (mb_task m) then button False (InspectWorker (or_text (mb_task m) [])) ''Inspect worker'' else VText (or_text (mb_error m) []))]"

definition team_builder :: "string \<Rightarrow> supervisor \<Rightarrow> sup_click view" where
  "team_builder typed s =
     (let count = length (sv_members s); locked = sv_busy s \<or> sv_creating s \<or> \<not> can_build s in box ''form''
       [labelled ''h3'' ''Assemble agent swarm'',
        VEl ''fieldset'' [attr_flag ''disabled'' locked] [] (map (\<lambda>(k, m). member_view typed count k m) (enumerate 0 (sv_members s))),
        show_if (sv_result s = None \<and> team_slots s < int count)
          (labelled ''p'' (''This team needs '' @ nat_text count @ '' slots; '' @ int_text (team_slots s)
             @ '' are currently available. Remove workers or wait for running workers to finish.'')),
        button (locked \<or> team_slots s \<le> int count) AddMember ''Add worker'',
        button (locked \<or> \<not> valid_team s \<or> sv_result s \<noteq> None) SubmitTeam (if sv_creating s then ''Creating workers...'' else ''Create team''),
        (case sv_result s of None \<Rightarrow> VNone
         | Some r \<Rightarrow> box ''div'' (labelled ''p'' (if tr_ok r then ''Team created. Select a worker to inspect or steer it.''
               else ''Some workers could not start. Inspect the created workers before trying again.'') # map result_row (tr_members r)))])"

definition steer_props :: "supervisor \<Rightarrow> question_props" where
  "steer_props s = \<lparr>qp_default = empty_value, qp_disabled = sv_busy s, qp_mode = Single,
     qp_value = Some \<lparr>qv_selected = [], qv_text = sv_message s\<rparr>\<rparr>"

definition steer_form :: "string \<Rightarrow> supervisor \<Rightarrow> question_action view" where
  "steer_form typed s =
     (let q = question_context_of (steer_props s) (question_init (steer_props s)) in question_form
       [question_prompt ''Instruction for this task'', question_input q False typed, question_submit q (trim (sv_message s) = [] \<or> sv_busy s)])"

definition allowance_view :: "sup_format \<Rightarrow> tree_budget \<Rightarrow> sup_click view" where
  "allowance_view fm b = box ''section''
     [labelled ''h4'' ''Shared parent and child allowance'',
      labelled ''p'' (int_text (tb_used_steps b) @ '' / '' @ int_text (tb_max_steps b) @ '' reserved tool calls'' @ mid_dot
        @ fm_fixed fm (tb_used_seconds b) @ '' / '' @ int_text (tb_max_seconds b) @ '' summed active execution seconds''),
      labelled ''p'' (int_text (tb_workers b) @ '' active workers share the pool for root '' @ tb_root b
        @ ''. Human approval waits pause execution time. Tokens and billed costs are not measured.'')]"

definition run_controls :: "string \<Rightarrow> supervisor \<Rightarrow> run_info \<Rightarrow> sup_click view list" where
  "run_controls typed s i =
     [show_if (\<not> run_active i \<and> \<not> truthy_text (ri_parent i)) (button (sv_busy s) (RetryRun (ri_id i)) ''Retry as a new turn''),
      show_if (run_steerable i) (map_view (SteerRun (ri_id i)) (steer_form typed s)),
      show_if (ri_status i = ''recovery_confirmation_required'' \<and> ri_engine i = Some ''internal'' \<and> \<not> truthy_text (ri_runner i))
        (box ''section'' [labelled ''p'' ''An unfinished action may already have run. Recovery can repeat it. Inspect the task before continuing.'',
           checkbox (sv_busy s) (sv_confirm s) TickRecovery ''I understand recovery may repeat an unfinished action'',
           button (sv_busy s \<or> \<not> sv_confirm s) (RecoverRun (ri_id i)) ''Confirm and recover task'']),
      show_if (run_active i) (button (sv_busy s \<or> ri_status i = ''cancelling'') (CancelRun (ri_id i))
        (if ri_status i = ''cancelling'' then ''Cancelling...'' else ''Cancel task and descendants''))]"

definition run_detail :: "sup_format \<Rightarrow> string \<Rightarrow> supervisor \<Rightarrow> run_info \<Rightarrow> sup_click view" where
  "run_detail fm typed s i = box ''div''
     ([labelled ''h3'' (or_text (ri_label i) ''Coordinator''), labelled ''code'' (ri_id i),
       labelled ''p'' (spaced_status i @ mid_dot @ or_text (ri_engine i) ''internal''), labelled ''p'' (task_words i),
       labelled ''code'' (or_text (ri_location i) (or_text (ri_worktree i) (or_text (ri_cwd i) ''No directory''))),
       show_if (truthy_text (ri_branch i)) (labelled ''code'' (or_text (ri_branch i) [])),
       (case ri_isolation i of None \<Rightarrow> VNone | Some k \<Rightarrow> labelled ''p'' (k @ '' workspace'' @ mid_dot @ ''edits require review'')),
       (case ri_budget i of None \<Rightarrow> VNone | Some b \<Rightarrow> allowance_view fm b),
       labelled ''pre'' (fm_limits fm (ri_limits i)),
       show_if (truthy_text (ri_error i)) (labelled ''p'' (or_text (ri_error i) [])),
       show_if (truthy_text (ri_result i)) (labelled ''pre'' (or_text (ri_result i) []))]
      @ run_controls typed s i)"

definition supervisor_view :: "sup_format \<Rightarrow> string \<Rightarrow> supervisor \<Rightarrow> sup_click view" where
  "supervisor_view fm typed s = VEl ''dialog'' [] [(''onOpenChange'', CloseSupervisor)]
     [labelled ''h2'' ''Task supervision'',
      show_if (sv_load_error s \<noteq> []) (box ''p'' [VText (sv_load_error s), button False ReloadTree ''Reload task tree'']),
      (case sv_root s of
         None \<Rightarrow> show_if (sv_load_error s = []) (labelled ''p'' ''Loading task tree...'')
       | Some t \<Rightarrow> box ''div''
           [team_summary s, show_if (sv_building s) (team_builder typed s),
            box ''nav'' [run_tree (map_option (\<lambda>c. ri_id (sr_info c)) (chosen_run s)) t],
            (case chosen_run s of None \<Rightarrow> VNone | Some c \<Rightarrow> run_detail fm typed s (sr_info c))])]"

section \<open>Steps\<close>

definition set_member_field :: "member_field \<Rightarrow> team_member \<Rightarrow> team_member" where
  "set_member_field x m =
     (case x of FieldAgent v \<Rightarrow> m\<lparr>tm_agent := v\<rparr> | FieldTask v \<Rightarrow> m\<lparr>tm_task := v\<rparr> | FieldInstructions v \<Rightarrow> m\<lparr>tm_instructions := v\<rparr>
      | FieldMode v \<Rightarrow> m\<lparr>tm_mode := v\<rparr>)"

text \<open>The question tells what was typed, and that it was submitted.\<close>

definition steer_run :: "string \<Rightarrow> question_action \<Rightarrow> supervisor \<Rightarrow> supervisor" where
  "steer_run target a s =
     (let q = question_step (steer_props s) a (question_init (steer_props s));
          s' = (if qs_changes q = [] then s else s\<lparr>sv_message := qv_text (last (qs_changes q))\<rparr>)
      in if qs_submitted q = [] then s' else control_run target (SteerBody (trim (sv_message s'))) s')"

definition supervisor_click :: "string \<Rightarrow> sup_click \<Rightarrow> supervisor \<Rightarrow> supervisor" where
  "supervisor_click uuid a s =
     (case a of
        ReloadTree \<Rightarrow> start_poll s
      | ToggleBuilder \<Rightarrow> toggle_builder uuid s
      | SubmitTeam \<Rightarrow> create_team s
      | EditMember k x \<Rightarrow> edit_member uuid k (set_member_field x) s
      | RemoveMember k \<Rightarrow> remove_member uuid k s
      | AddMember \<Rightarrow> add_member uuid s
      | InspectWorker t \<Rightarrow> s\<lparr>sv_selected := t, sv_building := False\<rparr>
      | SelectRun t \<Rightarrow> s\<lparr>sv_selected := t, sv_message := [], sv_confirm := False\<rparr>
      | RetryRun t \<Rightarrow> control_run t (RetryBody uuid) s
      | SteerRun t q \<Rightarrow> steer_run t q s
      | TickRecovery \<Rightarrow> s\<lparr>sv_confirm := \<not> sv_confirm s\<rparr>
      | RecoverRun t \<Rightarrow> control_run t (RecoverBody (sv_confirm s)) s
      | CancelRun t \<Rightarrow> control_run t CancelBody s
      | CloseSupervisor \<Rightarrow> s)"

text \<open>\<open>crypto.randomUUID\<close> draws no id again that is still known, and the host answers with the task it was asked for.\<close>

definition ids_known :: "supervisor \<Rightarrow> string set" where
  "ids_known s = insert (sv_request s) (tf_request ` set (sv_teams s))"

inductive sup_moves :: "supervisor \<Rightarrow> supervisor \<Rightarrow> bool" where
  sup_clicked: "sv_alive s \<Longrightarrow> a \<in> set (offers (supervisor_view fm typed s)) \<Longrightarrow> uuid \<notin> ids_known s \<Longrightarrow> sup_moves s (supervisor_click uuid a s)"
| sup_shown: "sv_alive s \<Longrightarrow> uuid \<notin> ids_known s \<Longrightarrow> sup_moves s (supervise t uuid s)"
| sup_unmounted: "sup_moves s (unmount_supervisor s)"
| sup_tree: "n < length (sv_polls s) \<Longrightarrow> pl_asked (sv_polls s ! n) \<Longrightarrow> (\<And>v. r = Inr v \<Longrightarrow> ri_id (sr_info v) = pl_task (sv_polls s ! n)) \<Longrightarrow>
    sup_moves s (tree_answer n r s)"
| sup_timer: "n < length (sv_polls s) \<Longrightarrow> \<not> pl_asked (sv_polls s ! n) \<Longrightarrow> sup_moves s (poll_again n s)"
| sup_controlled: "n < length (sv_controls s) \<Longrightarrow> \<not> cf_done (sv_controls s ! n) \<Longrightarrow> sup_moves s (control_answered n u s)"
| sup_teamed: "n < length (sv_teams s) \<Longrightarrow> \<not> tf_done (sv_teams s ! n) \<Longrightarrow> sup_moves s (team_answered n v s)"

definition sup_opened :: "supervisor \<Rightarrow> bool" where
  "sup_opened s \<longleftrightarrow> (\<exists>t uuid. s = open_supervisor t uuid)"

section \<open>What holds of the dialog\<close>

definition control_ledger :: "supervisor \<Rightarrow> op_ledger" where
  "control_ledger s = (sv_generation s, map (\<lambda>f. (cf_origin f, cf_done f)) (sv_controls s), sv_alive s \<and> sv_mutation s)"

definition team_ledger :: "supervisor \<Rightarrow> op_ledger" where
  "team_ledger s = (sv_generation s, map (\<lambda>f. (tf_origin f, tf_done f)) (sv_teams s), sv_alive s \<and> sv_team_mutation s)"

definition team_log :: "supervisor \<Rightarrow> (string \<times> string \<times> team_member list) list" where
  "team_log s = map (\<lambda>f. (tf_request f, tf_root f, tf_members f)) (sv_teams s)"

text \<open>What was sent under the present id is what is edited now; the tree shown is that of the task.\<close>

definition teams_ok :: "supervisor \<Rightarrow> bool" where
  "teams_ok s \<longleftrightarrow> single_valued (set (team_log s)) \<and> (\<forall>x. (sv_request s, x) \<in> set (team_log s) \<longrightarrow> x = (sv_task s, trimmed_members (sv_members s)))"

definition tree_ok :: "supervisor \<Rightarrow> bool" where
  "tree_ok s \<longleftrightarrow> (\<forall>t. sv_root s = Some t \<longrightarrow> ri_id (sr_info t) = sv_task s) \<and> (\<forall>p \<in> set (sv_polls s). pl_live p \<longrightarrow> pl_task p = sv_task s)
     \<and> (sv_alive s \<longrightarrow> sv_busy s = sv_mutation s \<and> sv_creating s = sv_team_mutation s)"

definition sup_ok :: "supervisor \<Rightarrow> bool" where
  "sup_ok s \<longleftrightarrow> teams_ok s \<and> tree_ok s"

text \<open>Handlers that touch neither the team nor what is asked.\<close>

lemma poll_fields [simp]:
  "sv_teams (start_poll s) = sv_teams s" "sv_request (start_poll s) = sv_request s" "sv_task (start_poll s) = sv_task s"
  "sv_members (start_poll s) = sv_members s" "sv_root (start_poll s) = sv_root s" "sv_alive (start_poll s) = sv_alive s"
  "sv_busy (start_poll s) = sv_busy s" "sv_mutation (start_poll s) = sv_mutation s" "sv_creating (start_poll s) = sv_creating s"
  "sv_team_mutation (start_poll s) = sv_team_mutation s" "sv_controls (start_poll s) = sv_controls s" "sv_generation (start_poll s) = sv_generation s"
  by (simp_all add: start_poll_def)

lemma polls_started: "p \<in> set (sv_polls (start_poll s)) \<Longrightarrow> pl_live p \<Longrightarrow> pl_task p = sv_task s"
  by (auto simp: start_poll_def stop_polls_def)

lemma tree_ok_start [simp]:
  "tree_ok (start_poll s) \<longleftrightarrow> (\<forall>t. sv_root s = Some t \<longrightarrow> ri_id (sr_info t) = sv_task s)
     \<and> (sv_alive s \<longrightarrow> sv_busy s = sv_mutation s \<and> sv_creating s = sv_team_mutation s)"
  by (auto simp: tree_ok_def dest: polls_started)

lemma teams_ok_start [simp]: "teams_ok (start_poll s) = teams_ok s"
  by (simp add: teams_ok_def team_log_def)

lemma teams_ok_fresh:
  assumes "teams_ok s" "sv_teams t = sv_teams s" "sv_request t \<notin> ids_known s" shows "teams_ok t"
proof -
  have "team_log t = team_log s" by (simp add: team_log_def assms(2))
  moreover have "(sv_request t, x) \<notin> set (team_log s)" for x using assms(3) by (auto simp: team_log_def ids_known_def)
  ultimately show ?thesis using assms(1) by (simp add: teams_ok_def)
qed

lemma teams_ok_frame:
  assumes "teams_ok s" "team_log t = team_log s" "sv_request t = sv_request s" "sv_task t = sv_task s" "sv_members t = sv_members s"
  shows "teams_ok t"
  using assms by (simp add: teams_ok_def)

lemma team_log_settled: "n < length fs \<Longrightarrow> map (\<lambda>f. (tf_request f, tf_root f, tf_members f)) (fs[n := (fs ! n)\<lparr>tf_done := b\<rparr>])
    = map (\<lambda>f. (tf_request f, tf_root f, tf_members f)) fs"
  by (simp add: map_update list_update_same_conv)

lemma teams_ok_create:
  assumes "teams_ok s" "tree_ok s" shows "teams_ok (create_team s)"
proof (cases "team_log (create_team s) = team_log s")
  case True
  then show ?thesis using assms(1) by (simp add: teams_ok_def create_team_def split: option.splits)
next
  case False
  then have "team_log (create_team s) = team_log s @ [(sv_request s, sv_task s, trimmed_members (sv_members s))]"
    "sv_request (create_team s) = sv_request s" "sv_task (create_team s) = sv_task s" "sv_members (create_team s) = sv_members s"
    using assms(2) by (auto simp: team_log_def create_team_def tree_ok_def split: option.splits if_splits)
  then show ?thesis using assms(1) by (auto simp: teams_ok_def single_valued_def)
qed

lemma steer_run_simps [simp]:
  "steer_run t SubmitQuestion s = (if sv_busy s \<or> trim (sv_message s) = [] then s else control_run t (SteerBody (trim (sv_message s))) s)"
  "steer_run t (SetText x) s = s\<lparr>sv_message := x\<rparr>" "steer_run t (ToggleValue x) s = s"
  by (simp_all add: steer_run_def steer_props_def question_init_def handle_submit_def question_now_def set_text_def toggle_value_def set_value_def Let_def)

lemma control_run_fields [simp]:
  "sv_teams (control_run t b s) = sv_teams s" "sv_request (control_run t b s) = sv_request s" "sv_task (control_run t b s) = sv_task s"
  "sv_members (control_run t b s) = sv_members s" "sv_root (control_run t b s) = sv_root s" "sv_polls (control_run t b s) = sv_polls s"
  "sv_alive (control_run t b s) = sv_alive s" "sv_creating (control_run t b s) = sv_creating s"
  "sv_team_mutation (control_run t b s) = sv_team_mutation s" "sv_generation (control_run t b s) = sv_generation s"
  by (simp_all add: control_run_def)

lemma team_edits_fresh:
  assumes "teams_ok s" "uuid \<notin> ids_known s"
  shows "teams_ok (edit_member uuid k f s)" "teams_ok (remove_member uuid k s)" "teams_ok (add_member uuid s)" "teams_ok (toggle_builder uuid s)"
proof -
  show "teams_ok (edit_member uuid k f s)" "teams_ok (remove_member uuid k s)" "teams_ok (add_member uuid s)"
    by (rule teams_ok_fresh [OF assms(1)], use assms(2) in \<open>simp_all add: edit_member_def remove_member_def add_member_def change_team_def\<close>)+
  show "teams_ok (toggle_builder uuid s)"
  proof (cases "sv_building s \<or> sv_creating s")
    case True
    then show ?thesis by (intro teams_ok_frame [OF assms(1)]) (auto simp: toggle_builder_def team_log_def)
  next
    case False
    then show ?thesis by (intro teams_ok_fresh [OF assms(1)]) (use assms(2) in \<open>auto simp: toggle_builder_def change_team_def Let_def\<close>)
  qed
qed

lemma click_teams:
  assumes "sup_ok s" "uuid \<notin> ids_known s" shows "teams_ok (supervisor_click uuid a s)"
proof -
  have ok: "teams_ok s" "tree_ok s" using assms(1) by (simp_all add: sup_ok_def)
  note frame = teams_ok_frame [OF ok(1)]
  show ?thesis
  proof (cases a)
    case (SteerRun t q)
    then show ?thesis by (cases q) (auto simp: supervisor_click_def team_log_def intro!: frame)
  qed (use team_edits_fresh [OF ok(1) assms(2)] teams_ok_create [OF ok] ok in \<open>simp_all add: supervisor_click_def, simp_all add: frame team_log_def\<close>)
qed

lemma click_tree:
  assumes "tree_ok s" shows "tree_ok (supervisor_click uuid a s)"
proof (cases a)
  case (SteerRun t q)
  then show ?thesis using assms by (cases q) (auto simp: supervisor_click_def tree_ok_def control_run_def)
qed (use assms in \<open>auto simp: supervisor_click_def tree_ok_def toggle_builder_def change_team_def create_team_def edit_member_def remove_member_def
      add_member_def control_run_def Let_def split: option.splits dest: polls_started\<close>)

lemma tree_ok_asked:
  assumes "tree_ok s" shows "tree_ok (s\<lparr>sv_polls := (sv_polls s)[n := (sv_polls s ! n)\<lparr>pl_asked := b\<rparr>]\<rparr>)"
proof (cases "n < length (sv_polls s)")
  case True
  have "pl_live p \<longrightarrow> pl_task p = sv_task s" if "p \<in> set ((sv_polls s)[n := (sv_polls s ! n)\<lparr>pl_asked := b\<rparr>])" for p
    using subsetD [OF set_update_subset_insert that] nth_mem [OF True] assms by (auto simp: tree_ok_def)
  then show ?thesis using assms by (simp add: tree_ok_def)
next
  case False
  then show ?thesis using assms by (simp add: not_less list_update_beyond)
qed

lemma sup_moves_ok:
  assumes "sup_moves s t" "sup_ok s" shows "sup_ok t"
proof -
  have ok: "teams_ok s" "tree_ok s" using assms(2) by (simp_all add: sup_ok_def)
  note frame = teams_ok_frame [OF ok(1)]
  show ?thesis using assms(1)
  proof cases
    case (sup_clicked a fm typed uuid)
    then show ?thesis using click_teams [OF assms(2)] click_tree [OF ok(2)] by (simp add: sup_ok_def)
  next
    case (sup_shown uuid t')
    then have "teams_ok (supervise t' uuid s)"
      by (cases "t' = sv_task s") (auto simp: supervise_def ok reset_supervisor_def intro!: teams_ok_fresh [OF ok(1)])
    then show ?thesis using sup_shown ok(2) by (auto simp: sup_ok_def supervise_def reset_supervisor_def)
  next
    case sup_unmounted
    then show ?thesis using ok by (auto simp: sup_ok_def tree_ok_def unmount_supervisor_def stop_polls_def team_log_def intro!: frame)
  next
    case (sup_tree n r)
    then show ?thesis using ok tree_ok_asked [OF ok(2), of n False]
      by (auto simp: sup_ok_def tree_answer_def tree_ok_def team_log_def Let_def split: sum.split intro!: frame)
  next
    case (sup_timer n)
    then show ?thesis using ok tree_ok_asked [OF ok(2), of n True] by (auto simp: sup_ok_def poll_again_def team_log_def intro!: frame)
  next
    case (sup_controlled n u)
    then show ?thesis using ok
      by (auto simp: sup_ok_def control_answered_def tree_ok_def team_log_def Let_def split: sum.split intro!: frame dest: polls_started)
  next
    case (sup_teamed n v)
    then show ?thesis using ok
      by (auto simp: sup_ok_def team_answered_def tree_ok_def team_log_def team_log_settled Let_def split: sum.split intro!: frame dest: polls_started)
  qed
qed

text \<open>One thing asked for a run, and one team, at a time.\<close>

lemma ledgers_begun:
  "sv_alive s \<Longrightarrow> op_change (control_ledger s) (control_ledger (control_run t b s))"
  "sv_alive s \<Longrightarrow> op_change (team_ledger s) (team_ledger (create_team s))"
  using op_begun [of "sv_generation s"]
  by (auto simp: control_ledger_def team_ledger_def control_run_def create_team_def op_idle split: option.split)

lemma ledgers_same:
  "control_ledger (start_poll s) = control_ledger s" "team_ledger (start_poll s) = team_ledger s"
  "control_ledger (toggle_builder uuid s) = control_ledger s" "team_ledger (toggle_builder uuid s) = team_ledger s"
  "control_ledger (change_team uuid ms s) = control_ledger s" "team_ledger (change_team uuid ms s) = team_ledger s"
  "control_ledger (create_team s) = control_ledger s" "team_ledger (control_run t b s) = team_ledger s"
  by (simp_all add: control_ledger_def team_ledger_def toggle_builder_def change_team_def create_team_def Let_def split: option.split)

lemmas team_edit_defs = edit_member_def remove_member_def add_member_def

lemma click_controls: "sv_alive s \<Longrightarrow> op_change (control_ledger s) (control_ledger (supervisor_click uuid a s))"
proof (cases a)
  case (SteerRun t q)
  then show "sv_alive s \<Longrightarrow> ?thesis"
    using ledgers_begun(1) [of s] by (cases q) (auto simp: supervisor_click_def op_idle control_ledger_def)
qed (use ledgers_begun(1) [of s] in \<open>simp_all add: supervisor_click_def ledgers_same team_edit_defs op_idle, simp_all add: control_ledger_def op_idle\<close>)

lemma click_team_ledger: "sv_alive s \<Longrightarrow> op_change (team_ledger s) (team_ledger (supervisor_click uuid a s))"
proof (cases a)
  case (SteerRun t q)
  then show ?thesis by (cases q) (auto simp: supervisor_click_def op_idle team_ledger_def)
qed (use ledgers_begun(2) [of s] in \<open>simp_all add: supervisor_click_def ledgers_same team_edit_defs op_idle, simp_all add: team_ledger_def op_idle\<close>)

lemma renewed_ledgers:
  "op_change (control_ledger s) (control_ledger (supervise t uuid s))" "op_change (team_ledger s) (team_ledger (supervise t uuid s))"
  "op_change (control_ledger s) (control_ledger (unmount_supervisor s))" "op_change (team_ledger s) (team_ledger (unmount_supervisor s))"
  using op_renewed [of "sv_generation s" "Suc (sv_generation s)"]
  by (auto simp: control_ledger_def team_ledger_def supervise_def reset_supervisor_def unmount_supervisor_def op_idle)

lemma settled_ledgers:
  "n < length (sv_controls s) \<Longrightarrow> \<not> cf_done (sv_controls s ! n) \<Longrightarrow> op_change (control_ledger s) (control_ledger (control_answered n u s))"
  "n < length (sv_teams s) \<Longrightarrow> \<not> tf_done (sv_teams s ! n) \<Longrightarrow> op_change (team_ledger s) (team_ledger (team_answered n v s))"
  using op_settled [of n "map (\<lambda>f. (cf_origin f, cf_done f)) (sv_controls s)" "cf_origin (sv_controls s ! n)" "sv_generation s" "sv_alive s \<and> sv_mutation s"]
    op_settled [of n "map (\<lambda>f. (tf_origin f, tf_done f)) (sv_teams s)" "tf_origin (sv_teams s ! n)" "sv_generation s" "sv_alive s \<and> sv_team_mutation s"]
  by (auto simp: control_ledger_def team_ledger_def control_answered_def team_answered_def map_update Let_def split: sum.split)

lemma answers_apart:
  "team_ledger (control_answered n u s) = team_ledger s" "control_ledger (team_answered n v s) = control_ledger s"
  "control_ledger (tree_answer n r s) = control_ledger s" "team_ledger (tree_answer n r s) = team_ledger s"
  "control_ledger (poll_again n s) = control_ledger s" "team_ledger (poll_again n s) = team_ledger s"
  by (simp_all add: control_ledger_def team_ledger_def control_answered_def team_answered_def tree_answer_def poll_again_def Let_def split: sum.split)

lemma sup_moves_controls: "sup_moves s t \<Longrightarrow> op_change (control_ledger s) (control_ledger t)"
  by (erule sup_moves.cases) (simp_all add: click_controls renewed_ledgers settled_ledgers answers_apart op_idle)

lemma sup_moves_teams: "sup_moves s t \<Longrightarrow> op_change (team_ledger s) (team_ledger t)"
  by (erule sup_moves.cases) (simp_all add: click_team_ledger renewed_ledgers settled_ledgers answers_apart op_idle)

lemma sup_opened_ok:
  assumes "sup_opened s"
  shows "sup_ok s \<and> (\<exists>g. control_ledger s = (g, [], False))" "sup_ok s \<and> (\<exists>g. team_ledger s = (g, [], False))"
proof -
  obtain t uuid where s: "s = open_supervisor t uuid" using assms by (auto simp: sup_opened_def)
  have "sup_ok s" by (simp add: s sup_ok_def open_supervisor_def reset_supervisor_def teams_ok_def team_log_def)
  moreover have "control_ledger s = (0, [], False)" "team_ledger s = (0, [], False)"
    by (simp_all add: s open_supervisor_def reset_supervisor_def control_ledger_def team_ledger_def)
  ultimately show "sup_ok s \<and> (\<exists>g. control_ledger s = (g, [], False))" "sup_ok s \<and> (\<exists>g. team_ledger s = (g, [], False))" by simp_all
qed

interpretation sup_controls: one_at_a_time sup_opened sup_moves sup_ok control_ledger
  by unfold_locales (erule sup_opened_ok(1), erule (1) sup_moves_ok [rotated], erule sup_moves_controls)

interpretation sup_teams: one_at_a_time sup_opened sup_moves sup_ok team_ledger
  by unfold_locales (erule sup_opened_ok(2), erule (1) sup_moves_ok [rotated], erule sup_moves_teams)

definition team_awaited :: "supervisor \<Rightarrow> nat \<Rightarrow> bool" where
  "team_awaited s n \<longleftrightarrow> n < length (sv_teams s) \<and> tf_origin (sv_teams s ! n) = sv_generation s \<and> \<not> tf_done (sv_teams s ! n)"

text \<open>C18. Whatever is sent under one request id is one team: the same workers for the same task; and while the dialog shows a task only one team is awaited.\<close>

theorem one_request_one_team:
  assumes "reached sup_opened sup_moves s"
  shows "(\<forall>f \<in> set (sv_teams s). \<forall>g \<in> set (sv_teams s). tf_request f = tf_request g \<longrightarrow> tf_root f = tf_root g \<and> tf_members f = tf_members g)
    \<and> (sv_alive s \<longrightarrow> team_awaited s m \<longrightarrow> team_awaited s n \<longrightarrow> m = n)"
proof -
  have sv: "single_valued (set (team_log s))" using sup_teams.reached_holds [OF assms] by (simp add: sup_ok_def teams_ok_def)
  have log: "(tf_request h, tf_root h, tf_members h) \<in> set (team_log s)" if "h \<in> set (sv_teams s)" for h using that by (simp add: team_log_def)
  have "(tf_root f, tf_members f) = (tf_root g, tf_members g)" if "f \<in> set (sv_teams s)" "g \<in> set (sv_teams s)" "tf_request f = tf_request g" for f g
    using single_valuedD [OF sv log [OF that(1)]] log [OF that(2)] that(3) by simp
  moreover have "m = n" if "team_awaited s m" "team_awaited s n"
    by (rule sup_teams.one_open [OF assms]) (use that in \<open>auto simp: team_ledger_def team_awaited_def\<close>)
  ultimately show ?thesis by blast
qed

section \<open>What may be asked of a run\<close>

definition control_allowed :: "supervisor \<Rightarrow> run_info \<Rightarrow> control_body \<Rightarrow> bool" where
  "control_allowed s i b \<longleftrightarrow>
     (case b of
        CancelBody \<Rightarrow> run_active i \<and> ri_status i \<noteq> ''cancelling''
      | RetryBody _ \<Rightarrow> \<not> run_active i \<and> \<not> truthy_text (ri_parent i)
      | SteerBody m \<Rightarrow> run_steerable i \<and> m = trim (sv_message s) \<and> m \<noteq> []
      | RecoverBody ok \<Rightarrow> ok \<and> ri_status i = ''recovery_confirmation_required'' \<and> \<not> truthy_text (ri_runner i))"

lemma tree_offers: "a \<in> set (offers (run_tree c t)) \<Longrightarrow> \<exists>x. a = SelectRun x"
proof (induction c t rule: run_tree.induct)
  case (1 chosen i ks)
  then show ?case by (fastforce simp: is_on_def jget_def attr_flag_def attr_text_def)
qed

definition is_control :: "sup_click \<Rightarrow> bool" where
  "is_control a \<longleftrightarrow> (case a of RetryRun _ \<Rightarrow> True | SteerRun _ _ \<Rightarrow> True | RecoverRun _ \<Rightarrow> True | CancelRun _ \<Rightarrow> True | _ \<Rightarrow> False)"

lemma builder_offers: "a \<in> set (offers (team_builder typed s)) \<Longrightarrow> \<not> is_control a"
  by (auto simp: team_builder_def member_view_def member_input_def result_row_def is_control_def Let_def is_on_def jget_def attr_flag_def attr_text_def
      split: option.splits if_splits)

lemma detail_offers: "a \<in> set (offers (run_detail fm typed s i)) \<Longrightarrow> \<exists>v \<in> set (run_controls typed s i). a \<in> set (offers v)"
  by (auto simp: run_detail_def allowance_view_def split: option.splits if_splits)

lemma control_offered:
  assumes "a \<in> set (offers (supervisor_view fm typed s))" "is_control a"
  shows "\<exists>c. chosen_run s = Some c \<and> (\<exists>v \<in> set (run_controls typed s (sr_info c)). a \<in> set (offers v))"
proof -
  have "a \<notin> set (offers (team_summary s))" using assms(2) by (auto simp: team_summary_def is_control_def)
  moreover have "\<not> is_control ToggleBuilder" "\<not> is_control ReloadTree" "\<not> is_control CloseSupervisor" by (simp_all add: is_control_def)
  moreover have "a \<notin> set (offers (run_tree c t))" for c t using tree_offers [of a c t] assms(2) by (auto simp: is_control_def)
  ultimately show ?thesis using assms builder_offers [of a typed s] detail_offers [of a fm typed s]
    by (auto simp: supervisor_view_def is_on_def jget_def split: option.splits if_splits)
qed

lemma control_flight_added:
  assumes "sup_moves s t" "length (sv_controls s) < length (sv_controls t)"
  shows "\<exists>a fm typed uuid. sv_alive s \<and> a \<in> set (offers (supervisor_view fm typed s)) \<and> is_control a \<and> t = supervisor_click uuid a s"
  using assms(1)
proof cases
  case (sup_clicked a fm typed uuid)
  have "is_control a" if "sv_controls t \<noteq> sv_controls s"
    using that sup_clicked by (cases a) (auto simp: supervisor_click_def is_control_def team_edit_defs change_team_def toggle_builder_def create_team_def Let_def
        split: option.splits if_splits)
  then have "is_control a" using assms(2) sup_clicked(1) by fastforce
  then show ?thesis using sup_clicked by blast
qed (use assms(2) in \<open>auto simp: supervise_def reset_supervisor_def unmount_supervisor_def tree_answer_def poll_again_def control_answered_def team_answered_def
      Let_def split: sum.splits if_splits\<close>)

lemma steer_sends:
  assumes "sv_controls (steer_run t q s) \<noteq> sv_controls s"
  shows "\<not> sv_mutation s" "trim (sv_message s) \<noteq> []"
    "sv_controls (steer_run t q s) = sv_controls s @ [\<lparr>cf_origin = sv_generation s, cf_target = t, cf_body = SteerBody (trim (sv_message s)), cf_done = False\<rparr>]"
  using assms by (cases q; force simp: control_run_def split: if_splits)+

lemma click_sends:
  assumes "is_control a" "chosen_run s = Some c" "v \<in> set (run_controls typed s (sr_info c))" "a \<in> set (offers v)" "\<not> sv_mutation s" "\<not> sv_busy s"
    and "sv_controls (supervisor_click uuid a s) \<noteq> sv_controls s"
  shows "\<exists>b. sv_controls (supervisor_click uuid a s) = sv_controls s @ [\<lparr>cf_origin = sv_generation s, cf_target = ri_id (sr_info c), cf_body = b, cf_done = False\<rparr>]
    \<and> control_allowed s (sr_info c) b"
proof (cases a)
  case (SteerRun t q)
  then have "t = ri_id (sr_info c)" "run_steerable (sr_info c)"
    using assms(3,4) by (auto simp: run_controls_def in_offers simp del: offer_rules split: if_splits)
  then show ?thesis using steer_sends [of t q s] assms(7) SteerRun by (auto simp: supervisor_click_def control_allowed_def)
qed (use assms in \<open>auto simp: is_control_def run_controls_def in_offers supervisor_click_def control_run_def control_allowed_def simp del: offer_rules
      split: if_splits\<close>)

text \<open>C28. What is asked of the host is asked for the run that is shown: it is cancelled only while it is active, retried only when it is over and has no
  parent, steered with the text that was typed, recovered only when the repetition was confirmed; and nothing else is awaited.\<close>

theorem controls_fit_their_run:
  assumes "reached sup_opened sup_moves s" "sup_moves s t" "length (sv_controls s) < length (sv_controls t)"
  shows "\<exists>c b. chosen_run s = Some c \<and> control_allowed s (sr_info c) b
    \<and> sv_controls t = sv_controls s @ [\<lparr>cf_origin = sv_generation s, cf_target = ri_id (sr_info c), cf_body = b, cf_done = False\<rparr>]
    \<and> (\<forall>f \<in> set (sv_controls s). cf_origin f = sv_generation s \<longrightarrow> cf_done f)"
proof -
  obtain a fm typed uuid where a: "sv_alive s" "a \<in> set (offers (supervisor_view fm typed s))" "is_control a" "t = supervisor_click uuid a s"
    using control_flight_added [OF assms(2,3)] by blast
  have changed: "sv_controls t \<noteq> sv_controls s" using assms(3) by auto
  have "tree_ok s" using sup_controls.reached_holds [OF assms(1)] by (simp add: sup_ok_def)
  moreover have "\<not> sv_mutation s"
    using a(3,4) changed steer_sends(1) by (cases a) (auto simp: is_control_def supervisor_click_def control_run_def)
  ultimately have idle: "\<not> sv_mutation s" "\<not> sv_busy s" using a(1) by (simp_all add: tree_ok_def)
  obtain c v where c: "chosen_run s = Some c" "v \<in> set (run_controls typed s (sr_info c))" "a \<in> set (offers v)"
    using control_offered [OF a(2,3)] by blast
  have "(cf_origin f, cf_done f) \<noteq> (sv_generation s, False)" if "f \<in> set (sv_controls s)" for f
    by (rule sup_controls.none_open [OF assms(1) _ that]) (simp add: control_ledger_def idle)
  then show ?thesis using click_sends [OF a(3) c idle] changed a(4) c(1) by fastforce
qed

section \<open>A run\<close>

text \<open>A team is assembled, its request fails, and it is sent again.\<close>

definition plain_format :: sup_format where
  "plain_format = \<lparr>fm_fixed = (\<lambda>_. []), fm_limits = (\<lambda>_. [])\<rparr>"

definition running_task :: sup_run where
  "running_task = SupRun \<lparr>ri_id = ''t'', ri_status = ''running'', ri_prompt = ''p'', ri_result = None, ri_error = None, ri_engine = Some ''internal'',
     ri_mode = None, ri_cwd = None, ri_parent = None, ri_runner = None, ri_location = None, ri_label = None, ri_delegated = None, ri_isolation = None,
     ri_truncated = False, ri_branch = None, ri_worktree = None, ri_limits = None, ri_budget = None\<rparr> []"

definition team_clicks :: "(string \<times> string \<times> sup_click) list" where
  "team_clicks = [(''u1'', [], ToggleBuilder), (''u2'', ''r'', EditMember 0 (FieldTask ''r'')), (''u3'', ''c'', EditMember 1 (FieldTask ''c'')), (''u4'', [], SubmitTeam)]"

definition shown_task :: supervisor where
  "shown_task = tree_answer 0 (Inr running_task) (open_supervisor ''t'' ''u0'')"

definition click_all :: "(string \<times> string \<times> sup_click) list \<Rightarrow> supervisor \<Rightarrow> supervisor" where
  "click_all cs s = foldl (\<lambda>s (uuid, typed, a). supervisor_click uuid a s) s cs"

text \<open>Whether each click of a list is offered when its turn comes, under an id that is new.\<close>

fun all_offered :: "(string \<times> string \<times> sup_click) list \<Rightarrow> supervisor \<Rightarrow> bool" where
  "all_offered [] s = True"
| "all_offered ((uuid, typed, a) # cs) s \<longleftrightarrow> sv_alive s \<and> a \<in> set (offers (supervisor_view plain_format typed s))
     \<and> uuid \<noteq> sv_request s \<and> uuid \<notin> set (map tf_request (sv_teams s)) \<and> all_offered cs (supervisor_click uuid a s)"

lemma clicked_through:
  assumes "reached sup_opened sup_moves s" "all_offered cs s" shows "reached sup_opened sup_moves (click_all cs s)"
  using assms
proof (induction cs s rule: all_offered.induct)
  case (2 uuid typed a cs s)
  then have "sup_moves s (supervisor_click uuid a s)" by (intro sup_clicked [where fm = plain_format and typed = typed]) (auto simp: ids_known_def)
  then show ?case using 2 reached_moved by (force simp: click_all_def)
qed (simp add: click_all_def)

lemma shown_reached: "reached sup_opened sup_moves shown_task"
proof -
  have "reached sup_opened sup_moves (open_supervisor ''t'' ''u0'')" by (rule reached_opened) (auto simp: sup_opened_def)
  moreover have "sup_moves (open_supervisor ''t'' ''u0'') shown_task"
    unfolding shown_task_def by (rule sup_tree) (simp_all add: open_supervisor_def start_poll_def reset_supervisor_def stop_polls_def running_task_def)
  ultimately show ?thesis by (rule reached_moved)
qed

definition sent_twice :: supervisor where
  "sent_twice = click_all [(''u5'', [], SubmitTeam)] (team_answered 0 (Inl (JsError ''offline'')) (click_all team_clicks shown_task))"

theorem one_request_one_team_witness:
  "map tf_request (sv_teams sent_twice) = [''u3'', ''u3''] \<and> tf_members (sv_teams sent_twice ! 0) = tf_members (sv_teams sent_twice ! 1)"
proof -
  let ?s = "click_all team_clicks shown_task"
  have "all_offered team_clicks shown_task" by code_simp
  then have 1: "reached sup_opened sup_moves ?s" by (rule clicked_through [OF shown_reached])
  have "0 < length (sv_teams ?s)" "\<not> tf_done (sv_teams ?s ! 0)" by code_simp+
  then have 2: "reached sup_opened sup_moves (team_answered 0 (Inl (JsError ''offline'')) ?s)" by (rule reached_moved [OF 1 sup_teamed])
  have "all_offered [(''u5'', [], SubmitTeam)] (team_answered 0 (Inl (JsError ''offline'')) ?s)" by code_simp
  then have 3: "reached sup_opened sup_moves sent_twice" unfolding sent_twice_def by (rule clicked_through [OF 2])
  have requests: "map tf_request (sv_teams sent_twice) = [''u3'', ''u3'']" by code_simp
  have same: "tf_request (sv_teams sent_twice ! 0) = tf_request (sv_teams sent_twice ! 1)" and two: "length (sv_teams sent_twice) = 2" by code_simp+
  have "sv_teams sent_twice ! 0 \<in> set (sv_teams sent_twice)" "sv_teams sent_twice ! 1 \<in> set (sv_teams sent_twice)"
    by (rule nth_mem, simp add: two)+
  then show ?thesis using one_request_one_team [OF 3] requests same by blast
qed

theorem controls_fit_their_run_witness:
  "control_allowed shown_task (sr_info running_task) CancelBody \<and> map cf_target (sv_controls (supervisor_click ''u1'' (CancelRun ''t'') shown_task)) = [''t'']"
proof -
  have offered: "all_offered [(''u1'', [], CancelRun ''t'')] shown_task" by code_simp
  have none: "sv_controls shown_task = []" and sent: "map cf_body (sv_controls (supervisor_click ''u1'' (CancelRun ''t'') shown_task)) = [CancelBody]"
    and targets: "map cf_target (sv_controls (supervisor_click ''u1'' (CancelRun ''t'') shown_task)) = [''t'']"
    and chosen: "map_option sr_info (chosen_run shown_task) = Some (sr_info running_task)" by code_simp+
  have move: "sup_moves shown_task (supervisor_click ''u1'' (CancelRun ''t'') shown_task)"
    using offered by (intro sup_clicked [where fm = plain_format and typed = "[]"]) (auto simp: ids_known_def)
  have "length (sv_controls shown_task) < length (sv_controls (supervisor_click ''u1'' (CancelRun ''t'') shown_task))"
    using sent none by (metis length_0_conv length_greater_0_conv list.map_disc_iff not_Cons_self2)
  from controls_fit_their_run [OF shown_reached move this] show ?thesis using sent none chosen targets by auto
qed

end

