(* ===== verification/ToolCalls.thy ===== *)
theory ToolCalls
  imports McpManager
begin

text \<open>
  What the panel of tool connections promises of a tool call, over every order of clicks, answers, resets, remounts and failures of
  the storage: one change at a time, only reviewed calls, and no identical call again before the outcome of the former is
  known or its user acknowledged it.
\<close>

section \<open>Steps\<close>

text \<open>Other code leaves the keys of the receipts alone; an id drawn is new.\<close>

inductive mcp_moves :: "mcp_env \<Rightarrow> mcp_panel \<Rightarrow> mcp_panel \<Rightarrow> bool" for env :: mcp_env where
  mv_clicked: "a \<in> set (offers (mcp_view env typed v cr s)) \<Longrightarrow> mcp_moves env s (mcp_clicked env mood a s)"
| mv_reset: "mcp_moves env s (reset_mcp project admin owner s)"
| mv_search: "mcp_moves env s (s\<lparr>mp_search := q\<rparr>)"
| mv_remount: "mcp_moves env s (remount_mcp s)"
| mv_loaded: "n < length (mp_loads s) \<Longrightarrow> mcp_moves env s (mcp_loaded n l s)"
| mv_answered: "n < length (mp_ops s) \<Longrightarrow> mo_phase (mp_ops s ! n) \<in> {McpAsked, McpSaving} \<Longrightarrow> mcp_moves env s (change_answered n r s)"
| mv_hashed: "n < length (mp_ops s) \<Longrightarrow> mo_phase (mp_ops s ! n) = McpHashing \<Longrightarrow> mo_work (mp_ops s ! n) = CallWork owner call \<Longrightarrow>
    good_attempt uuid \<Longrightarrow> uuid \<notin> snd ` set (mp_sent s) \<Longrightarrow> mcp_moves env s (call_hashed env now uuid mood n owner call s)"
| mv_called: "n < length (mp_ops s) \<Longrightarrow> mo_phase (mp_ops s ! n) = McpCalling key rc \<Longrightarrow> mo_work (mp_ops s ! n) = CallWork owner call \<Longrightarrow>
    mcp_moves env s (call_answered env mood later n key call rc a s)"
| mv_stored: "(\<And>k. starts_with receipt_prefix k \<Longrightarrow> get_item st k = get_item (mp_store s) k) \<Longrightarrow> mcp_moves env s (s\<lparr>mp_store := st\<rparr>)"

definition mcp_opened :: "mcp_panel \<Rightarrow> bool" where
  "mcp_opened s \<longleftrightarrow> (\<exists>st. s = fresh_mcp st)"

section \<open>Receipts protect what was sent\<close>

definition settled_attempts :: "mcp_panel \<Rightarrow> string set" where
  "settled_attempts s = mp_answered s \<union> mp_released s"

definition sends_ok :: "mcp_panel \<Rightarrow> bool" where
  "sends_ok s \<longleftrightarrow> (\<forall>x \<in> set (mp_sent s). starts_with receipt_prefix (fst x) \<and> (snd x \<in> settled_attempts s \<or> attempt_at (fst x) (mp_store s) = Some (snd x)))
     \<and> (\<forall>op \<in> set (mp_ops s). \<forall>k r. mo_phase op = McpCalling k r \<longrightarrow> good_attempt (rt_attempt r))"

text \<open>The part of the state this is about.\<close>

definition send_core :: "mcp_panel \<Rightarrow> (string \<times> string) list \<times> string set \<times> string set \<times> web_storage" where
  "send_core s = (mp_sent s, mp_answered s, mp_released s, mp_store s)"

definition calling_ok :: "mcp_op list \<Rightarrow> bool" where
  "calling_ok ops \<longleftrightarrow> (\<forall>op \<in> set ops. \<forall>k r. mo_phase op = McpCalling k r \<longrightarrow> good_attempt (rt_attempt r))"

lemma sends_ok_core:
  "sends_ok s \<longleftrightarrow> (\<forall>x \<in> set (mp_sent s). starts_with receipt_prefix (fst x) \<and> (snd x \<in> settled_attempts s \<or> attempt_at (fst x) (mp_store s) = Some (snd x)))
     \<and> calling_ok (mp_ops s)"
  by (simp add: sends_ok_def calling_ok_def)

lemma sends_okD: "sends_ok s \<Longrightarrow> calling_ok (mp_ops s)"
  by (simp add: sends_ok_core)

lemma sends_ok_frame: "sends_ok s \<Longrightarrow> send_core t = send_core s \<Longrightarrow> calling_ok (mp_ops t) \<Longrightarrow> sends_ok t"
  by (simp add: sends_ok_core send_core_def settled_attempts_def)

lemma calling_ok_update: "calling_ok ops \<Longrightarrow> \<forall>k r. ph = McpCalling k r \<longrightarrow> good_attempt (rt_attempt r) \<Longrightarrow> calling_ok (ops[n := (ops ! n)\<lparr>mo_phase := ph\<rparr>])"
  by (auto simp: calling_ok_def dest!: subsetD [OF set_update_subset_insert])

lemma calling_ok_snoc: "calling_ok ops \<Longrightarrow> \<forall>k r. mo_phase op \<noteq> McpCalling k r \<Longrightarrow> calling_ok (ops @ [op])"
  by (auto simp: calling_ok_def)

text \<open>What \<open>mutate\<close> does leaves the receipts alone.\<close>

lemma set_phase_fields [simp]:
  "send_core (set_mcp_phase n ph s) = send_core s" "mp_ops (set_mcp_phase n ph s) = (mp_ops s)[n := (mp_ops s ! n)\<lparr>mo_phase := ph\<rparr>]"
  by (simp_all add: set_mcp_phase_def send_core_def)

lemma finish_change_fields [simp]:
  "send_core (finish_change n r s) = send_core s" "mp_ops (finish_change n r s) = (mp_ops s)[n := (mp_ops s ! n)\<lparr>mo_phase := McpDone\<rparr>]"
  by (auto simp: finish_change_def end_mcp_change_def set_mcp_phase_def send_core_def Let_def split: sum.split)

lemma sends_ok_finish: "sends_ok s \<Longrightarrow> sends_ok (finish_change n r s)"
  by (rule sends_ok_frame, assumption) (simp_all add: calling_ok_update sends_okD)

lemma begin_change_fields [simp]: "send_core (begin_change w s) = send_core s"
  by (simp add: begin_change_def send_core_def)

lemma calling_ok_begin: "calling_ok (mp_ops s) \<Longrightarrow> calling_ok (mp_ops (begin_change w s))"
  by (auto simp: begin_change_def first_phase_def intro!: calling_ok_snoc split: mcp_work.split)

lemma sends_ok_begin: "sends_ok s \<Longrightarrow> sends_ok (begin_change w s)"
  by (rule sends_ok_frame, assumption) (simp_all add: calling_ok_begin sends_okD)

text \<open>A receipt that stands for a settled attempt may go.\<close>

lemma sends_ok_removed:
  assumes "sends_ok s" "remove_receipt syntax mood k a (mp_store s) = Inr st" "a \<in> settled_attempts t" "settled_attempts s \<subseteq> settled_attempts t"
    and "mp_sent t = mp_sent s" "mp_store t = st" "mp_ops t = mp_ops s"
  shows "sends_ok t"
  using assms by (auto simp: sends_ok_core removed_attempt [OF assms(2)])

lemma mark_uncertain_attempt: "good_attempt (rt_attempt r) \<Longrightarrow> attempt_at l (mark_uncertain env mood k r st) = attempt_at l st"
  using written_attempt [of "r\<lparr>rt_state := UncertainCall\<rparr>"]
  by (auto simp: mark_uncertain_def read_receiptD split: sum.split option.split)

lemma sends_ok_failed:
  assumes "sends_ok s" "good_attempt (rt_attempt r)" shows "sends_ok (call_failed env mood n key call r e s)"
proof -
  let ?s = "s\<lparr>mp_store := mark_uncertain env mood key r (mp_store s)\<rparr>"
  have "sends_ok ?s" using assms by (simp add: sends_ok_core settled_attempts_def mark_uncertain_attempt)
  moreover have "sends_ok (leave_unconfirmed key call x ?s)" for x
    by (rule sends_ok_frame [OF calculation]) (simp_all add: leave_unconfirmed_def send_core_def sends_okD [OF assms(1)])
  ultimately show ?thesis by (simp add: call_failed_def Let_def sends_ok_finish)
qed

lemma sends_ok_answered:
  assumes "sends_ok s" "good_attempt (rt_attempt r)" shows "sends_ok (call_answered env mood later n key call r a s)"
proof (cases a)
  case (Inl e)
  then show ?thesis by (simp add: call_answered_def sends_ok_failed [OF assms])
next
  case (Inr v)
  let ?s = "(if same_view n call s then s\<lparr>mp_result := Some v\<rparr> else s)\<lparr>mp_answered := insert (rt_attempt r) (mp_answered s)\<rparr>"
  have ok: "sends_ok ?s" using assms(1) by (auto simp: sends_ok_core settled_attempts_def)
  show ?thesis
  proof (cases "remove_receipt (me_syntax env) mood key (rt_attempt r) (mp_store s)")
    case (Inl e)
    then show ?thesis by (simp add: call_answered_def Inr Let_def sends_ok_failed [OF ok assms(2), simplified])
  next
    case (Inr st)
    then have "sends_ok (?s\<lparr>mp_store := st\<rparr>)" by (intro sends_ok_removed [OF assms(1)]) (auto simp: settled_attempts_def)
    then show ?thesis using Inr \<open>a = Inr v\<close> by (simp add: call_answered_def Let_def sends_ok_finish)
  qed
qed

lemma receipt_key_prefix: "receipt_key env owner call = Inr k \<Longrightarrow> starts_with receipt_prefix k"
  by (auto simp: receipt_key_def split: option.splits)

lemma sends_ok_hashed:
  assumes "sends_ok s" "good_attempt uuid" shows "sends_ok (call_hashed env now uuid mood n owner call s)"
proof -
  have left: "sends_ok (leave_unconfirmed k call x s)" for k x
    by (rule sends_ok_frame [OF assms(1)]) (simp_all add: leave_unconfirmed_def send_core_def sends_okD [OF assms(1)])
  have sent: "sends_ok (set_mcp_phase n (McpCalling k r) (s\<lparr>mp_store := st, mp_sent := mp_sent s @ [(k, uuid)]\<rparr>))"
    if "write_receipt mood k r (mp_store s) = Inr st" "rt_attempt r = uuid" "read_receipt (me_syntax env) k (mp_store s) = Inr None"
      "starts_with receipt_prefix k" for k r st
    using assms that written_attempt [OF _ that(1)] calling_ok_update [OF sends_okD [OF assms(1)]] read_receiptD(2) [OF that(3)]
    by (auto simp: sends_ok_core settled_attempts_def set_mcp_phase_def)
  show ?thesis using assms(1) left sent receipt_key_prefix [of env owner call]
    by (auto simp: call_hashed_def Let_def sends_ok_finish split: sum.split option.split)
qed

lemma sends_ok_change_answered: "sends_ok s \<Longrightarrow> sends_ok (change_answered n r s)"
proof -
  assume ok: "sends_ok s"
  have "sends_ok (inspect_connection c cat s)" for c cat
    by (rule sends_ok_frame [OF ok]) (simp_all add: inspect_connection_def invalidate_call_def send_core_def sends_okD [OF ok])
  moreover have "sends_ok (set_mcp_phase n McpSaving s)"
    by (rule sends_ok_frame [OF ok]) (simp_all add: calling_ok_update sends_okD [OF ok])
  ultimately show ?thesis using ok
    by (auto simp: change_answered_def Let_def sends_ok_finish split: sum.split option.split mcp_phase.split mcp_work.split)
qed

lemma sends_ok_acknowledge:
  assumes "sends_ok s" shows "sends_ok (acknowledge_call env mood s)"
proof -
  have "sends_ok (s\<lparr>mp_error := x\<rparr>)" for x using assms by (simp add: sends_ok_core settled_attempts_def)
  then show ?thesis using assms
    by (auto simp: acknowledge_call_def Let_def settled_attempts_def intro: sends_ok_removed [OF assms] split: option.split sum.split)
qed

lemma sends_ok_clicked: "sends_ok s \<Longrightarrow> sends_ok (mcp_clicked env mood a s)"
proof -
  assume ok: "sends_ok s"
  note frame = sends_ok_frame [OF ok] and calling = sends_okD [OF ok]
  have review: "send_core (review_call env s) = send_core s" "mp_ops (review_call env s) = mp_ops s"
    by (auto simp: review_call_def send_core_def Let_def split: option.split sum.split jsval.split)
  have "sends_ok (s\<lparr>mp_reviewed := None\<rparr>)" by (rule frame) (simp_all add: send_core_def calling)
  then have confirm: "sends_ok (confirm_call s)" using ok by (auto simp: confirm_call_def sends_ok_begin split: option.split)
  show ?thesis
    by (cases a) (use ok review calling confirm in \<open>auto simp: mcp_clicked_def connect_tools_def choose_target_def inspect_connection_def invalidate_call_def
        send_core_def sends_ok_begin sends_ok_acknowledge intro!: frame\<close>)
qed

lemma sends_ok_moves: "mcp_moves env s t \<Longrightarrow> sends_ok s \<Longrightarrow> sends_ok t"
proof (induction rule: mcp_moves.induct)
  case (mv_stored st s)
  then have "attempt_at (fst x) st = attempt_at (fst x) (mp_store s)" if "x \<in> set (mp_sent s)" for x
    using that by (simp add: attempt_at_def sends_ok_core)
  then show ?case using mv_stored.prems by (simp add: sends_ok_core settled_attempts_def)
next
  case (mv_called n s key rc owner call mood later a)
  then have "good_attempt (rt_attempt rc)" using nth_mem by (fastforce simp: sends_ok_def)
  then show ?case using mv_called.prems by (simp add: sends_ok_answered)
qed (simp_all add: sends_ok_clicked sends_ok_change_answered sends_ok_hashed,
     auto simp: sends_ok_core settled_attempts_def reset_mcp_def remount_mcp_def fresh_mcp_def mcp_loaded_def Let_def split: sum.split)

section \<open>One change at a time\<close>

definition mcp_ledger :: "mcp_panel \<Rightarrow> op_ledger" where
  "mcp_ledger s = (mp_generation s, map (\<lambda>x. (mo_ticket x, mo_phase x = McpDone)) (mp_ops s), mp_flight s \<noteq> None)"

definition flight_ok :: "mcp_panel \<Rightarrow> bool" where
  "flight_ok s \<longleftrightarrow> (mp_busy s \<longleftrightarrow> mp_flight s \<noteq> None)
     \<and> (\<forall>n < length (mp_ops s). mo_ticket (mp_ops s ! n) = mp_generation s \<longrightarrow> mo_phase (mp_ops s ! n) \<noteq> McpDone \<longrightarrow> mp_flight s = Some n)
     \<and> (\<forall>x \<in> set (mp_ops s). mo_ticket x \<le> mp_generation s)"

text \<open>Handlers and answers that leave the operations and the flight alone.\<close>

definition flight_core :: "mcp_panel \<Rightarrow> nat \<times> mcp_op list \<times> nat option \<times> bool" where
  "flight_core s = (mp_generation s, mp_ops s, mp_flight s, mp_busy s)"

lemma flight_frame:
  assumes "flight_core t = flight_core s" shows "mcp_ledger t = mcp_ledger s" "flight_ok t = flight_ok s"
  using assms by (simp_all add: flight_core_def mcp_ledger_def flight_ok_def)

lemma flight_core_quiet [simp]:
  "flight_core (leave_unconfirmed k call r s) = flight_core s" "flight_core (s\<lparr>mp_store := st\<rparr>) = flight_core s"
  "flight_core (s\<lparr>mp_result := v\<rparr>) = flight_core s" "flight_core (s\<lparr>mp_answered := x\<rparr>) = flight_core s"
  "flight_core (inspect_connection c cat s) = flight_core s" "flight_core (invalidate_call s) = flight_core s" "flight_core (choose_target c tg s) = flight_core s"
  "flight_core (s\<lparr>mp_reviewed := rv\<rparr>) = flight_core s" "flight_core (s\<lparr>mp_search := q\<rparr>) = flight_core s"
  by (simp_all add: flight_core_def leave_unconfirmed_def inspect_connection_def invalidate_call_def choose_target_def)

lemma flight_core_more [simp]:
  "flight_core (review_call env s) = flight_core s" "flight_core (acknowledge_call env mood s) = flight_core s" "flight_core (mcp_loaded n l s) = flight_core s"
  by (auto simp: flight_core_def review_call_def acknowledge_call_def mcp_loaded_def Let_def split: option.split sum.split jsval.split)

lemma flight_ok_phase:
  assumes ok: "flight_ok s" and n: "n < length (mp_ops s)" "mo_phase (mp_ops s ! n) \<noteq> McpDone"
    and t: "mp_ops t = (mp_ops s)[n := (mp_ops s ! n)\<lparr>mo_phase := ph\<rparr>]" "mp_generation t = mp_generation s" "mp_busy t = (mp_flight t \<noteq> None)"
      "mp_flight t = (if ph = McpDone \<and> mo_ticket (mp_ops s ! n) = mp_generation s then None else mp_flight s)"
  shows "flight_ok t"
proof -
  have mine: "mo_ticket (mp_ops s ! n) = mp_generation s \<Longrightarrow> mp_flight s = Some n" using ok n by (simp add: flight_ok_def)
  have "mo_ticket x \<le> mp_generation s" if "x \<in> set (mp_ops t)" for x
    using subsetD [OF set_update_subset_insert that [unfolded t(1)]] nth_mem [OF n(1)] ok by (auto simp: flight_ok_def)
  moreover have "mp_flight t = Some m" if "m < length (mp_ops t)" "mo_ticket (mp_ops t ! m) = mp_generation s" "mo_phase (mp_ops t ! m) \<noteq> McpDone" for m
  proof (cases "m = n")
    case True
    then show ?thesis using that n(1) mine by (simp add: t)
  next
    case False
    then have "mp_flight s = Some m" using that ok by (simp add: t flight_ok_def)
    then show ?thesis using False mine by (auto simp: t(4))
  qed
  ultimately show ?thesis by (simp add: flight_ok_def t(2,3))
qed

lemma finish_flight:
  assumes "flight_ok s" "n < length (mp_ops s)" "mo_phase (mp_ops s ! n) \<noteq> McpDone"
  shows "op_change (mcp_ledger s) (mcp_ledger (finish_change n r s))" "flight_ok (finish_change n r s)"
proof -
  let ?h = "mo_ticket (mp_ops s ! n)"
  have mine: "mp_flight s = Some n" if "?h = mp_generation s" using assms that by (simp add: flight_ok_def)
  have busy: "mp_busy s = (mp_flight s \<noteq> None)" using assms(1) by (simp add: flight_ok_def)
  have same: "mp_generation (finish_change n r s) = mp_generation s" "mp_flight (finish_change n r s) = (if ?h = mp_generation s then None else mp_flight s)"
    "mp_busy (finish_change n r s) = (?h \<noteq> mp_generation s \<and> mp_busy s)"
    using mine by (auto simp: finish_change_def end_mcp_change_def set_mcp_phase_def Let_def split: sum.split)
  show "op_change (mcp_ledger s) (mcp_ledger (finish_change n r s))"
    using op_settled [of n "map (\<lambda>x. (mo_ticket x, mo_phase x = McpDone)) (mp_ops s)" ?h "mp_generation s" "mp_flight s \<noteq> None"] assms(2,3)
    by (auto simp: mcp_ledger_def same map_update)
  show "flight_ok (finish_change n r s)"
    by (rule flight_ok_phase [OF assms]) (auto simp: same busy)
qed

lemma finish_flight_frame:
  assumes "flight_ok s" "n < length (mp_ops s)" "mo_phase (mp_ops s ! n) \<noteq> McpDone" "flight_core t = flight_core s"
  shows "op_change (mcp_ledger s) (mcp_ledger (finish_change n r t)) \<and> flight_ok (finish_change n r t)"
  using finish_flight [of t n r] assms flight_frame [OF assms(4)] by (simp add: flight_core_def)

lemma phase_flight:
  assumes "flight_ok s" "n < length (mp_ops s)" "mo_phase (mp_ops s ! n) \<noteq> McpDone" "ph \<noteq> McpDone" "flight_core t = flight_core s"
  shows "op_change (mcp_ledger s) (mcp_ledger (set_mcp_phase n ph t)) \<and> flight_ok (set_mcp_phase n ph t)"
proof -
  have t: "mp_ops t = mp_ops s" "mp_generation t = mp_generation s" "mp_flight t = mp_flight s" "mp_busy t = mp_busy s"
    using assms(5) by (simp_all add: flight_core_def)
  have "map (\<lambda>x. (mo_ticket x, mo_phase x = McpDone)) ((mp_ops s)[n := (mp_ops s ! n)\<lparr>mo_phase := ph\<rparr>]) = map (\<lambda>x. (mo_ticket x, mo_phase x = McpDone)) (mp_ops s)"
    using assms(2-4) by (simp add: map_update list_update_same_conv)
  then have "mcp_ledger (set_mcp_phase n ph t) = mcp_ledger s" by (simp add: mcp_ledger_def set_mcp_phase_def t)
  moreover have "flight_ok (set_mcp_phase n ph t)"
    by (rule flight_ok_phase [OF assms(1-3)]) (use assms(1,4) in \<open>auto simp: set_mcp_phase_def t flight_ok_def\<close>)
  ultimately show ?thesis by (simp add: op_idle)
qed

lemma begin_flight:
  assumes "flight_ok s" "flight_core t = flight_core s"
  shows "op_change (mcp_ledger s) (mcp_ledger (begin_change w t)) \<and> flight_ok (begin_change w t)"
proof (cases "mp_flight s")
  case None
  have t: "mp_ops t = mp_ops s" "mp_generation t = mp_generation s" "mp_flight t = mp_flight s" using assms(2) by (simp_all add: flight_core_def)
  have "first_phase w \<noteq> McpDone" by (simp add: first_phase_def split: mcp_work.split)
  then show ?thesis using assms(1) None op_begun [of "mp_generation s"]
    by (auto simp: mcp_ledger_def begin_change_def flight_ok_def t nth_append less_Suc_eq)
next
  case (Some n)
  then have "begin_change w t = t" using assms(2) by (simp add: begin_change_def flight_core_def)
  then show ?thesis using flight_frame [OF assms(2)] assms(1) by (simp add: op_idle)
qed

lemma quiet_flight: "flight_ok s \<Longrightarrow> flight_core t = flight_core s \<Longrightarrow> op_change (mcp_ledger s) (mcp_ledger t) \<and> flight_ok t"
  using flight_frame [of t s] by (simp add: op_idle)

lemma renewed_flight:
  "flight_ok s \<Longrightarrow> op_change (mcp_ledger s) (mcp_ledger (reset_mcp project admin owner s)) \<and> flight_ok (reset_mcp project admin owner s)"
  "flight_ok s \<Longrightarrow> op_change (mcp_ledger s) (mcp_ledger (remount_mcp s)) \<and> flight_ok (remount_mcp s)"
  using op_renewed [of "mp_generation s"]
  by (fastforce simp: mcp_ledger_def flight_ok_def reset_mcp_def remount_mcp_def fresh_mcp_def dest: nth_mem)+

lemma clicked_flight: "flight_ok s \<Longrightarrow> op_change (mcp_ledger s) (mcp_ledger (mcp_clicked env mood a s)) \<and> flight_ok (mcp_clicked env mood a s)"
proof -
  assume ok: "flight_ok s"
  note quiet = quiet_flight [OF ok] and begun = begin_flight [OF ok]
  have "op_change (mcp_ledger s) (mcp_ledger (confirm_call s)) \<and> flight_ok (confirm_call s)"
    using quiet [of s] begun by (simp add: confirm_call_def split: option.split)
  moreover have "op_change (mcp_ledger s) (mcp_ledger (connect_tools c s)) \<and> flight_ok (connect_tools c s)" for c
    using quiet [of s] begun by (simp add: connect_tools_def)
  ultimately show ?thesis
    by (cases a) (simp_all add: mcp_clicked_def quiet begun, (rule quiet, simp add: flight_core_def invalidate_call_def)+)
qed

lemma answered_flight:
  assumes "flight_ok s" "n < length (mp_ops s)" "mo_phase (mp_ops s ! n) \<noteq> McpDone"
  shows "op_change (mcp_ledger s) (mcp_ledger (change_answered n r s)) \<and> flight_ok (change_answered n r s)"
proof -
  note finish = finish_flight_frame [OF assms] and phase = phase_flight [OF assms]
  show ?thesis
    by (auto simp: change_answered_def Let_def finish phase split: sum.split option.split mcp_phase.split mcp_work.split)
qed

lemma call_flight:
  assumes "flight_ok s" "n < length (mp_ops s)" "mo_phase (mp_ops s ! n) \<noteq> McpDone"
  shows "op_change (mcp_ledger s) (mcp_ledger (call_hashed env now uuid mood n owner call s)) \<and> flight_ok (call_hashed env now uuid mood n owner call s)"
    "op_change (mcp_ledger s) (mcp_ledger (call_answered env mood later n key call rc a s)) \<and> flight_ok (call_answered env mood later n key call rc a s)"
proof -
  note finish = finish_flight_frame [OF assms] and phase = phase_flight [OF assms]
  have failed: "op_change (mcp_ledger s) (mcp_ledger (call_failed env m n key call r e t)) \<and> flight_ok (call_failed env m n key call r e t)"
    if "flight_core t = flight_core s" for m r e t
    using that by (simp add: call_failed_def Let_def finish)
  have sent: "flight_core (s\<lparr>mp_store := st, mp_sent := x\<rparr>) = flight_core s" for st x by (simp add: flight_core_def)
  show "op_change (mcp_ledger s) (mcp_ledger (call_hashed env now uuid mood n owner call s)) \<and> flight_ok (call_hashed env now uuid mood n owner call s)"
    by (simp add: call_hashed_def Let_def finish phase sent split: sum.split option.split)
  have got: "flight_core (s\<lparr>mp_result := Some v, mp_answered := x\<rparr>) = flight_core s" "flight_core (s\<lparr>mp_answered := x\<rparr>) = flight_core s"
    "flight_core (s\<lparr>mp_result := Some v, mp_answered := x, mp_store := st\<rparr>) = flight_core s"
    "flight_core (s\<lparr>mp_answered := x, mp_store := st\<rparr>) = flight_core s" for v x st
    by (simp_all add: flight_core_def)
  show "op_change (mcp_ledger s) (mcp_ledger (call_answered env mood later n key call rc a s)) \<and> flight_ok (call_answered env mood later n key call rc a s)"
    by (simp add: call_answered_def Let_def finish failed got split: sum.split)
qed

lemma mcp_moves_flight: "mcp_moves env s t \<Longrightarrow> flight_ok s \<Longrightarrow> op_change (mcp_ledger s) (mcp_ledger t) \<and> flight_ok t"
proof (induction rule: mcp_moves.induct)
  case (mv_answered n s r)
  then show ?case by (intro answered_flight) auto
qed (simp_all add: clicked_flight renewed_flight call_flight quiet_flight)

section \<open>Reviews\<close>

definition call_fits :: "mcp_env \<Rightarrow> reviewed_call \<Rightarrow> bool" where
  "call_fits env c \<longleftrightarrow> rc_text c = me_show env (JObj (rc_arguments c)) \<and> me_bytes env (rc_text c) \<le> 64000"

definition review_ok :: "mcp_env \<Rightarrow> mcp_panel \<Rightarrow> bool" where
  "review_ok env s \<longleftrightarrow> (\<forall>c. mp_reviewed s = Some c \<longrightarrow> call_fits env c)"

lemma reviewed_same:
  "mp_reviewed (finish_change n r s) = mp_reviewed s" "mp_reviewed (begin_change w s) = mp_reviewed s" "mp_reviewed (set_mcp_phase n ph s) = mp_reviewed s"
  "mp_reviewed (leave_unconfirmed k call rc s) = mp_reviewed s" "mp_reviewed (mcp_loaded n l s) = mp_reviewed s"
  by (auto simp: finish_change_def end_mcp_change_def begin_change_def set_mcp_phase_def leave_unconfirmed_def mcp_loaded_def Let_def split: sum.split)

lemma reviewed_answers:
  "mp_reviewed (call_failed env mood n key call rc e s) = mp_reviewed s"
  "mp_reviewed (call_answered env mood later n key call rc a s) = mp_reviewed s"
  "mp_reviewed (call_hashed env now uuid mood n owner call s) = mp_reviewed s"
proof -
  show failed: "mp_reviewed (call_failed env mood n key call rc e s) = mp_reviewed s" for mood e s by (simp add: call_failed_def Let_def reviewed_same)
  show "mp_reviewed (call_answered env mood later n key call rc a s) = mp_reviewed s"
    by (simp add: call_answered_def Let_def failed reviewed_same split: sum.split)
  show "mp_reviewed (call_hashed env now uuid mood n owner call s) = mp_reviewed s"
    by (simp add: call_hashed_def Let_def reviewed_same split: sum.split option.split)
qed

lemma review_fits: "review_ok env s \<Longrightarrow> review_ok env (review_call env s)"
  by (auto simp: review_ok_def review_call_def call_fits_def Let_def split: option.splits sum.splits jsval.splits if_splits)

lemma review_ok_clicked: "review_ok env s \<Longrightarrow> review_ok env (mcp_clicked env mood a s)"
proof -
  assume ok: "review_ok env s"
  have "review_ok env (confirm_call s)" "review_ok env (acknowledge_call env mood s)" "review_ok env (connect_tools c s)" for c
    using ok by (auto simp: review_ok_def confirm_call_def acknowledge_call_def connect_tools_def reviewed_same Let_def split: option.split sum.split)
  then show ?thesis using ok review_fits [OF ok]
    by (cases a) (simp_all add: mcp_clicked_def, simp_all add: review_ok_def reviewed_same inspect_connection_def choose_target_def invalidate_call_def)
qed

lemma review_ok_moves: "mcp_moves env s t \<Longrightarrow> review_ok env s \<Longrightarrow> review_ok env t"
proof (induction rule: mcp_moves.induct)
  case (mv_answered n s r)
  have "mp_reviewed (change_answered n r s) \<in> {mp_reviewed s, None}"
    by (simp add: change_answered_def Let_def reviewed_same inspect_connection_def invalidate_call_def split: sum.split option.split mcp_phase.split mcp_work.split)
  then show ?case using mv_answered.prems by (auto simp: review_ok_def)
qed (simp_all add: review_ok_clicked, simp_all add: review_ok_def reviewed_same reviewed_answers reset_mcp_def remount_mcp_def fresh_mcp_def)

definition mcp_ok :: "mcp_env \<Rightarrow> mcp_panel \<Rightarrow> bool" where
  "mcp_ok env s \<longleftrightarrow> sends_ok s \<and> flight_ok s \<and> review_ok env s"

lemma mcp_opened_ok: "mcp_opened s \<Longrightarrow> mcp_ok env s \<and> (\<exists>g. mcp_ledger s = (g, [], False))"
  by (auto simp: mcp_opened_def mcp_ok_def sends_ok_def flight_ok_def review_ok_def fresh_mcp_def mcp_ledger_def)

lemma mcp_ok_moves: "mcp_moves env s t \<Longrightarrow> mcp_ok env s \<Longrightarrow> mcp_ok env t"
  using sends_ok_moves mcp_moves_flight review_ok_moves by (auto simp: mcp_ok_def)

interpretation tool_changes: one_at_a_time mcp_opened "mcp_moves env" "mcp_ok env" mcp_ledger
  by unfold_locales (erule mcp_opened_ok, erule (1) mcp_ok_moves [rotated], simp add: mcp_moves_flight mcp_ok_def)

section \<open>No call again before its outcome is known\<close>

lemma sent_finish: "mp_sent (finish_change n r s) = mp_sent s" "mp_sent (begin_change w s) = mp_sent s"
  using finish_change_fields(1) [of n r s] begin_change_fields [of w s] by (simp_all only: send_core_def prod.inject)

lemma sent_quiet:
  "mp_sent (mcp_clicked env mood a s) = mp_sent s" "mp_sent (change_answered n r s) = mp_sent s" "mp_sent (mcp_loaded n l s) = mp_sent s"
  "mp_sent (call_answered env mood later n key call rc x s) = mp_sent s"
proof -
  show "mp_sent (mcp_clicked env mood a s) = mp_sent s"
    by (cases a) (auto simp: mcp_clicked_def sent_finish inspect_connection_def invalidate_call_def choose_target_def connect_tools_def review_call_def
        confirm_call_def acknowledge_call_def Let_def split: option.split sum.split jsval.split)
  show "mp_sent (change_answered n r s) = mp_sent s"
    by (simp add: change_answered_def sent_finish set_mcp_phase_def inspect_connection_def invalidate_call_def Let_def
        split: sum.split option.split mcp_phase.split mcp_work.split)
  show "mp_sent (mcp_loaded n l s) = mp_sent s" by (auto simp: mcp_loaded_def Let_def split: sum.split)
  show "mp_sent (call_answered env mood later n key call rc x s) = mp_sent s"
    by (simp add: call_answered_def call_failed_def leave_unconfirmed_def sent_finish Let_def split: sum.split)
qed

lemma call_sent:
  assumes "mp_sent (call_hashed env now uuid mood n owner call s) \<noteq> mp_sent s"
  obtains k where "receipt_key env owner call = Inr k" "same_view n call s" "read_receipt (me_syntax env) k (mp_store s) = Inr None"
    "mp_sent (call_hashed env now uuid mood n owner call s) = mp_sent s @ [(k, uuid)]"
  using assms by (auto simp: call_hashed_def sent_finish set_mcp_phase_def leave_unconfirmed_def Let_def split: sum.splits option.splits if_splits)

text \<open>C16. A tool call is sent only when every earlier identical call (same account, connection, definition, target, tool and arguments) was
  answered by the host or acknowledged by its user; it goes out for a call that is still the one confirmed in this view.\<close>

theorem tool_call_not_repeated:
  assumes "reached mcp_opened (mcp_moves env) s" "mcp_moves env s t" "mp_sent t = mp_sent s @ [(k, a)]"
  shows "(\<forall>x \<in> set (mp_sent s). fst x = k \<longrightarrow> snd x \<in> mp_answered s \<or> snd x \<in> mp_released s)
    \<and> (\<exists>n owner call. mo_work (mp_ops s ! n) = CallWork owner call \<and> receipt_key env owner call = Inr k \<and> same_view n call s)"
proof -
  have ok: "sends_ok s" using tool_changes.reached_holds [OF assms(1)] by (simp add: mcp_ok_def)
  show ?thesis using assms(2)
  proof cases
    case (mv_hashed n owner call uuid now mood)
    then have "mp_sent (call_hashed env now uuid mood n owner call s) \<noteq> mp_sent s" using assms(3) by auto
    then obtain k' where k': "receipt_key env owner call = Inr k'" "same_view n call s" "read_receipt (me_syntax env) k' (mp_store s) = Inr None"
      "mp_sent (call_hashed env now uuid mood n owner call s) = mp_sent s @ [(k', uuid)]" by (rule call_sent)
    then have "k' = k" using assms(3) mv_hashed by simp
    then have "attempt_at k (mp_store s) = None" using read_receiptD(2) [OF k'(3)] by simp
    then have "\<forall>x \<in> set (mp_sent s). fst x = k \<longrightarrow> snd x \<in> mp_answered s \<or> snd x \<in> mp_released s"
      using ok by (auto simp: sends_ok_def settled_attempts_def)
    then show ?thesis using k' mv_hashed(4) \<open>k' = k\<close> by blast
  qed (use assms(3) in \<open>simp_all add: sent_quiet reset_mcp_def remount_mcp_def\<close>)
qed

section \<open>Only what was reviewed\<close>

lemma picker_offers: "BeginWork w \<notin> set (offers (target_picker s c))"
  by (auto simp: target_picker_def Let_def)

lemma section_offers:
  "BeginWork w \<notin> set (offers (review_section s))" "BeginWork w \<notin> set (offers (unconfirmed_section s))"
  by (auto simp: review_section_def unconfirmed_section_def call_facts_def split: option.splits)

lemma inspection_offers: "BeginWork w \<notin> set (offers (inspection_view env typed s))"
  by (auto simp: inspection_view_def tool_section_def advanced_view_def section_offers Let_def in_offers is_on_def jget_def attr_flag_def attr_text_def
      simp del: offer_rules split: option.splits list.splits if_splits)

lemma connection_offers: "BeginWork w \<in> set (offers (connection_view s c)) \<Longrightarrow> \<not> is_call w"
  by (auto simp: connection_view_def picker_offers is_call_def Let_def in_offers is_on_def jget_def attr_text_def simp del: offer_rules split: if_splits)

lemma offered_work: "BeginWork w \<in> set (offers (mcp_view env typed v cr s)) \<Longrightarrow> \<not> is_call w"
  by (auto simp: mcp_view_def form_view_def is_call_def in_offers inspection_offers is_on_def jget_def attr_flag_def simp del: offer_rules
      dest!: connection_offers [unfolded is_call_def] split: option.splits if_splits prod.splits)

lemma finish_length: "length (mp_ops (finish_change n r s)) = length (mp_ops s)" "length (mp_ops (set_mcp_phase n ph s)) = length (mp_ops s)"
  by simp_all

lemma answers_length:
  "length (mp_ops (change_answered n r s)) = length (mp_ops s)" "length (mp_ops (call_answered env mood later n key call rc a s)) = length (mp_ops s)"
  "length (mp_ops (call_hashed env now uuid mood n owner call s)) = length (mp_ops s)" "length (mp_ops (mcp_loaded n l s)) = length (mp_ops s)"
  by (auto simp: change_answered_def call_answered_def call_failed_def call_hashed_def mcp_loaded_def leave_unconfirmed_def inspect_connection_def
      invalidate_call_def Let_def split: sum.split option.split mcp_phase.split mcp_work.split)

lemma begin_change_added:
  "length (mp_ops s) < length (mp_ops (begin_change w s)) \<Longrightarrow> mp_flight s = None \<and> mo_work (last (mp_ops (begin_change w s))) = w"
  by (auto simp: begin_change_def split: if_splits)

lemma clicked_call:
  assumes "length (mp_ops s) < length (mp_ops (mcp_clicked env mood a s))" "mo_work (last (mp_ops (mcp_clicked env mood a s))) = CallWork owner call"
    and "\<And>w. a = BeginWork w \<Longrightarrow> \<not> is_call w"
  shows "mp_reviewed s = Some call \<and> still_reviewed call s \<and> owner = or_text (mp_owner s) [] \<and> mp_flight s = None"
proof (cases a)
  case ConfirmTool
  then show ?thesis using assms(1,2) begin_change_added [of "s\<lparr>mp_reviewed := None\<rparr>"]
    by (auto simp: mcp_clicked_def confirm_call_def split: option.splits if_splits)
next
  case (ConnectTools c)
  then show ?thesis using assms(1,2) begin_change_added [of s] by (auto simp: mcp_clicked_def connect_tools_def split: if_splits)
next
  case (BeginWork w)
  then show ?thesis using assms begin_change_added [of s w] by (auto simp: mcp_clicked_def is_call_def)
qed (use assms(1) in \<open>auto simp: mcp_clicked_def inspect_connection_def invalidate_call_def choose_target_def review_call_def acknowledge_call_def Let_def
      split: option.splits sum.splits jsval.splits if_splits\<close>)

text \<open>C17. A tool is called only after exactly this call was reviewed and confirmed: for the connection, definition, tool and target still shown, on a
  connection that is trusted, enabled, approved for the tool and within its user's reach, with the arguments whose text was shown, and while no
  other change is awaited.\<close>

theorem tool_call_as_reviewed:
  assumes "reached mcp_opened (mcp_moves env) s" "mcp_moves env s t" "length (mp_ops s) < length (mp_ops t)" "mo_work (last (mp_ops t)) = CallWork owner call"
  shows "mp_reviewed s = Some call \<and> still_reviewed call s \<and> mp_owner s = Some owner \<and> call_fits env call
    \<and> (\<forall>op \<in> set (mp_ops s). mo_ticket op = mp_generation s \<longrightarrow> mo_phase op = McpDone)"
proof -
  have ok: "review_ok env s" using tool_changes.reached_holds [OF assms(1)] by (simp add: mcp_ok_def)
  obtain a typed v cr mood where a: "a \<in> set (offers (mcp_view env typed v cr s))" "t = mcp_clicked env mood a s"
    using assms(2,3) by cases (auto simp: answers_length reset_mcp_def remount_mcp_def)
  have "mp_reviewed s = Some call \<and> still_reviewed call s \<and> owner = or_text (mp_owner s) [] \<and> mp_flight s = None"
    by (rule clicked_call [of s env mood a]) (use assms(3,4) a offered_work in auto)
  moreover from this have "mp_owner s = Some owner" by (auto simp: still_reviewed_def truthy_text_def or_text_def split: option.splits)
  moreover have "(mo_ticket op, mo_phase op = McpDone) \<noteq> (mp_generation s, False)" if "op \<in> set (mp_ops s)" for op
    by (rule tool_changes.none_open [OF assms(1) _ that]) (simp add: mcp_ledger_def calculation)
  ultimately show ?thesis using ok by (auto simp: review_ok_def)
qed

text \<open>Only its user releases a call whose outcome is unknown, by the box of exactly this call, while nothing is awaited.\<close>

lemma released_quiet:
  "mp_released (finish_change n r s) = mp_released s" "mp_released (begin_change w s) = mp_released s"
  using finish_change_fields(1) [of n r s] begin_change_fields [of w s] by (simp_all only: send_core_def prod.inject)

lemma released_by_user:
  assumes "mcp_moves env s t" "mp_released t \<noteq> mp_released s"
  shows "\<exists>u. mp_unconfirmed s = Some u \<and> mp_acknowledged s \<and> \<not> mp_busy s \<and> mp_released t = insert (rt_attempt (un_receipt u)) (mp_released s)"
  using assms(1)
proof cases
  case (mv_clicked a typed v cr mood)
  then show ?thesis using assms(2)
    by (cases a) (auto simp: mcp_clicked_def released_quiet inspect_connection_def invalidate_call_def choose_target_def connect_tools_def review_call_def
        confirm_call_def acknowledge_call_def Let_def split: option.splits sum.splits jsval.splits if_splits)
qed (use assms(2) in \<open>auto simp: change_answered_def call_answered_def call_failed_def call_hashed_def mcp_loaded_def leave_unconfirmed_def inspect_connection_def
      invalidate_call_def set_mcp_phase_def reset_mcp_def remount_mcp_def released_quiet Let_def
      split: sum.splits option.splits mcp_phase.splits mcp_work.splits if_splits\<close>)

section \<open>A run\<close>

text \<open>A call whose answer is lost is acknowledged and then sent anew.\<close>

definition plain_env :: mcp_env where
  "plain_env = \<lparr>me_hash = Some (\<lambda>t. t), me_num = (\<lambda>_. ''0''), me_parse = (\<lambda>_. Inr (JObj [])), me_show = (\<lambda>_. ''{}''), me_bytes = (\<lambda>s. int (length s)),
     me_syntax = JsError ''syntax''\<rparr>"

definition files_connection :: mcp_connection where
  "files_connection = \<lparr>mc_id = ''f'', mc_label = ''Files'', mc_definition = JNull, mc_approved = [''*''], mc_enabled = True, mc_digest = ''d'', mc_credential = False,
     mc_catalog = Some [\<lparr>mt_name = ''read'', mt_description = None, mt_schema = JNull\<rparr>], mc_connected = True, mc_live_catalog = None, mc_auth_url = None,
     mc_trust = ''trusted'', mc_projects = [], mc_transport = ''http''\<rparr>"

definition mcp_click_all :: "mcp_click list \<Rightarrow> mcp_panel \<Rightarrow> mcp_panel" where
  "mcp_click_all cs s = foldl (\<lambda>s a. mcp_clicked plain_env Stores a s) s cs"

fun clicks_offered :: "mcp_click list \<Rightarrow> mcp_panel \<Rightarrow> bool" where
  "clicks_offered [] s = True"
| "clicks_offered (a # cs) s \<longleftrightarrow> a \<in> set (offers (mcp_view plain_env [] JNull ([], None, []) s)) \<and> clicks_offered cs (mcp_clicked plain_env Stores a s)"

lemma mcp_clicked_through:
  assumes "reached mcp_opened (mcp_moves plain_env) s" "clicks_offered cs s" shows "reached mcp_opened (mcp_moves plain_env) (mcp_click_all cs s)"
  using assms by (induction cs s rule: clicks_offered.induct) (auto simp: mcp_click_all_def intro: reached_moved mv_clicked)

definition mcp_ready :: mcp_panel where
  "mcp_ready = mcp_loaded 0 (Inr ([files_connection], [])) (reset_mcp None True (Some ''me'') (fresh_mcp []))"

definition to_confirm :: "mcp_click list" where
  "to_confirm = [InspectConnection files_connection, PickTool ''read'', ToggleAdvanced, ReviewTool]"

definition first_confirmed :: mcp_panel where
  "first_confirmed = mcp_click_all (to_confirm @ [ConfirmTool]) mcp_ready"

definition sent_call :: reviewed_call where
  "sent_call = \<lparr>rc_connection = files_connection, rc_tool = ''read'', rc_target = None, rc_arguments = [], rc_text = ''{}'', rc_inspection = 4\<rparr>"

definition sent_key :: string where
  "sent_key = (case receipt_key plain_env ''me'' sent_call of Inr k \<Rightarrow> k | Inl _ \<Rightarrow> [])"

definition first_lost :: mcp_panel where
  "first_lost = call_answered plain_env Stores Stores 0 sent_key sent_call \<lparr>rt_state = PendingCall, rt_started = 1, rt_attempt = ''a1''\<rparr>
     (Inl (JsError ''lost'')) (call_hashed plain_env 1 ''a1'' Stores 0 ''me'' sent_call first_confirmed)"

definition second_confirmed :: mcp_panel where
  "second_confirmed = mcp_click_all [TickAcknowledged, AcknowledgeCall, ReviewTool, ConfirmTool] first_lost"

lemma ready_reached: "reached mcp_opened (mcp_moves plain_env) mcp_ready"
proof -
  have "reached mcp_opened (mcp_moves plain_env) (fresh_mcp [])" by (rule reached_opened) (auto simp: mcp_opened_def)
  then have 1: "reached mcp_opened (mcp_moves plain_env) (reset_mcp None True (Some ''me'') (fresh_mcp []))" by (rule reached_moved) (rule mv_reset)
  have "0 < length (mp_loads (reset_mcp None True (Some ''me'') (fresh_mcp [])))" by code_simp
  then show ?thesis unfolding mcp_ready_def by (rule reached_moved [OF 1 mv_loaded])
qed

lemma run_reached:
  "reached mcp_opened (mcp_moves plain_env) first_confirmed" "reached mcp_opened (mcp_moves plain_env) second_confirmed"
proof -
  have "clicks_offered (to_confirm @ [ConfirmTool]) mcp_ready" by code_simp
  then show 1: "reached mcp_opened (mcp_moves plain_env) first_confirmed" unfolding first_confirmed_def by (rule mcp_clicked_through [OF ready_reached])
  let ?h = "call_hashed plain_env 1 ''a1'' Stores 0 ''me'' sent_call first_confirmed"
  have "0 < length (mp_ops first_confirmed)" "mo_phase (mp_ops first_confirmed ! 0) = McpHashing" "mo_work (mp_ops first_confirmed ! 0) = CallWork ''me'' sent_call"
    "good_attempt ''a1''" "''a1'' \<notin> snd ` set (mp_sent first_confirmed)" by code_simp+
  then have 2: "reached mcp_opened (mcp_moves plain_env) ?h" by (rule reached_moved [OF 1 mv_hashed])
  have "0 < length (mp_ops ?h)" "mo_phase (mp_ops ?h ! 0) = McpCalling sent_key \<lparr>rt_state = PendingCall, rt_started = 1, rt_attempt = ''a1''\<rparr>"
    "mo_work (mp_ops ?h ! 0) = CallWork ''me'' sent_call" by code_simp+
  then have 3: "reached mcp_opened (mcp_moves plain_env) first_lost" unfolding first_lost_def by (rule reached_moved [OF 2 mv_called])
  have "clicks_offered [TickAcknowledged, AcknowledgeCall, ReviewTool, ConfirmTool] first_lost" by code_simp
  then show "reached mcp_opened (mcp_moves plain_env) second_confirmed" unfolding second_confirmed_def by (rule mcp_clicked_through [OF 3])
qed

definition second_sent :: mcp_panel where
  "second_sent = call_hashed plain_env 2 ''a2'' Stores 1 ''me'' sent_call second_confirmed"

theorem tool_call_not_repeated_witness:
  "mp_sent second_sent = [(sent_key, ''a1''), (sent_key, ''a2'')] \<and> (''a1'' \<in> mp_answered second_confirmed \<or> ''a1'' \<in> mp_released second_confirmed)"
proof -
  have "1 < length (mp_ops second_confirmed)" "mo_phase (mp_ops second_confirmed ! 1) = McpHashing" "mo_work (mp_ops second_confirmed ! 1) = CallWork ''me'' sent_call"
    "good_attempt ''a2''" "''a2'' \<notin> snd ` set (mp_sent second_confirmed)" by code_simp+
  then have move: "mcp_moves plain_env second_confirmed second_sent" unfolding second_sent_def by (rule mv_hashed)
  have sent: "mp_sent second_confirmed = [(sent_key, ''a1'')]" "mp_sent second_sent = [(sent_key, ''a1''), (sent_key, ''a2'')]" by code_simp+
  then have "mp_sent second_sent = mp_sent second_confirmed @ [(sent_key, ''a2'')]" by simp
  from tool_call_not_repeated [OF run_reached(2) move this] show ?thesis using sent by auto
qed

theorem tool_call_as_reviewed_witness:
  "mp_reviewed (mcp_click_all to_confirm mcp_ready) = Some sent_call \<and> call_fits plain_env sent_call"
proof -
  let ?s = "mcp_click_all to_confirm mcp_ready"
  have "clicks_offered to_confirm mcp_ready" by code_simp
  then have 1: "reached mcp_opened (mcp_moves plain_env) ?s" by (rule mcp_clicked_through [OF ready_reached])
  have "ConfirmTool \<in> set (offers (mcp_view plain_env [] JNull ([], None, []) ?s))" by code_simp
  then have 2: "mcp_moves plain_env ?s (mcp_clicked plain_env Stores ConfirmTool ?s)" by (rule mv_clicked)
  have "length (mp_ops ?s) < length (mp_ops (mcp_clicked plain_env Stores ConfirmTool ?s))"
    "mo_work (last (mp_ops (mcp_clicked plain_env Stores ConfirmTool ?s))) = CallWork ''me'' sent_call" by code_simp+
  from tool_call_as_reviewed [OF 1 2 this] show ?thesis by blast
qed

end
