(* ===== verification/Transfers.thy ===== *)
theory Transfers
  imports ApiClient Base64
begin

text \<open>
  \<open>lib/transfers.ts\<close> and the binary request, the unlock commands and the lock events of
  \<open>lib/native.ts\<close>: files that go to and come from the host. The host, the native shell, the browser's
  \<open>Request\<close> and its codecs are the fields of \<open>transfer_env\<close>, their answers depending on what was sent before.
\<close>

record binary_command =
  bc_path :: string
  bc_method :: string
  bc_body :: "string option"
  bc_type :: string

record binary_reply =
  br_status :: int
  br_body :: string
  br_type :: string

text \<open>A reply with the bytes of its body; \<open>fr_json\<close> is \<open>None\<close> when they are not JSON.\<close>

record file_reply =
  fr_status :: int
  fr_status_text :: string
  fr_json :: "jsval option"
  fr_bytes :: string
  fr_type :: string

record file_blob =
  fb_bytes :: string
  fb_type :: string

text \<open>\<open>te_request\<close> is \<open>new Request(...)\<close>: it throws, or yields the bytes of the body and its content type.\<close>

record transfer_env =
  te_host :: host_env
  te_request :: "string \<Rightarrow> request_init \<Rightarrow> string + string \<times> string option"
  te_binary :: "binary_command list \<Rightarrow> binary_command \<Rightarrow> string + binary_reply"
  te_fetch :: "http_request list \<Rightarrow> http_request \<Rightarrow> string + file_reply"

record transfer_world =
  tw_api :: api_world
  tw_binary :: "binary_command list"

type_synonym 'a transfer_op = "(transfer_world, 'a) op"

definition in_api :: "'a api \<Rightarrow> 'a transfer_op" where
  "in_api m = (\<lambda>w. case m (tw_api w) of (r, a) \<Rightarrow> (r, w\<lparr>tw_api := a\<rparr>))"

definition here_locked :: "unit transfer_op" where
  "here_locked = in_api (dispatch_event ''termx-session-locked'')"

section \<open>The native shell\<close>

definition transfer_limit :: nat where
  "transfer_limit = 64 * 1024 * 1024"

text \<open>The binary string is built from pieces of 8192 bytes.\<close>

fun in_pieces :: "nat \<Rightarrow> string \<Rightarrow> nat \<Rightarrow> string" where
  "in_pieces 0 bytes offset = []"
| "in_pieces (Suc k) bytes offset =
     (if offset < length bytes then take 8192 (drop offset bytes) @ in_pieces k bytes (offset + 8192) else [])"

definition binary_string :: "string \<Rightarrow> string" where
  "binary_string bytes = in_pieces (length bytes) bytes 0"

definition locked_text :: string where
  "locked_text = ''Session locked; unlock required''"

definition native_binary :: "transfer_env \<Rightarrow> string \<Rightarrow> request_init \<Rightarrow> (int \<times> file_blob) transfer_op" where
  "native_binary env path init =
     (let meth = upper_text (method_of init) in
      case te_request env path init of
        Inl m \<Rightarrow> op_throw (JsError m)
      | Inr (bytes, kind) \<Rightarrow>
          (if body_truthy (in_body init) \<and> length bytes > transfer_limit then op_throw (JsError ''Transfer exceeds 64 MiB'')
           else
             (let c = \<lparr>bc_path = path, bc_method = meth,
                       bc_body = (if body_truthy (in_body init) then Some (btoa (binary_string bytes)) else None),
                       bc_type = or_text kind ''application/octet-stream''\<rparr> in
              op_bind (op_read (\<lambda>w. te_binary env (tw_binary w) c)) (\<lambda>answer.
              op_seq (op_modify (\<lambda>w. w\<lparr>tw_binary := tw_binary w @ [c]\<rparr>))
                (case answer of
                   Inl m \<Rightarrow> if contains ''Session locked'' m then op_seq here_locked (op_throw (JsError locked_text)) else op_throw (JsError m)
                 | Inr r \<Rightarrow>
                     op_seq (op_when (br_status r = 423) here_locked)
                       (case atob (br_body r) of
                          None \<Rightarrow> op_throw (JsError ''The string to be decoded is not correctly encoded.'')
                        | Some raw \<Rightarrow> op_return (br_status r, \<lparr>fb_bytes = raw, fb_type = br_type r\<rparr>)))))))"

section \<open>Transfers\<close>

definition transfer_path :: "string \<Rightarrow> bool" where
  "transfer_path path \<longleftrightarrow> starts_with ''/'' path \<and> \<not> starts_with ''//'' path"

definition locked_error :: js_error where
  "locked_error = api_error 423 locked_text"

definition file_ok :: "int \<Rightarrow> bool" where
  "file_ok n \<longleftrightarrow> 200 \<le> n \<and> n < 300"

definition native_transfer :: "transfer_env \<Rightarrow> string \<Rightarrow> request_init \<Rightarrow> file_blob transfer_op" where
  "native_transfer env path init =
     op_bind (native_binary env path init) (\<lambda>(status, blob).
       if status = 423 then op_seq here_locked (op_throw locked_error)
       else if \<not> file_ok status then op_throw (JsError (fb_bytes blob))
       else op_return blob)"

definition transfer_headers :: "request_init \<Rightarrow> string \<Rightarrow> (string \<times> string) list" where
  "transfer_headers init token =
     (let hs = headers_of (in_headers init) in if method_of init \<noteq> ''GET'' then AList.update ''x-termx-csrf'' token hs else hs)"

definition file_request :: "transfer_env \<Rightarrow> string \<Rightarrow> request_init \<Rightarrow> api_world \<Rightarrow> http_request" where
  "file_request env path init w =
     \<lparr>rq_path = path, rq_method = method_of init,
      rq_headers = transfer_headers init (token_after (te_host env) (aw_sent w)), rq_body = body_text (in_body init)\<rparr>"

definition fetch_file :: "transfer_env \<Rightarrow> string \<Rightarrow> request_init \<Rightarrow> file_reply transfer_op" where
  "fetch_file env path init = (\<lambda>w.
     let rq = file_request env path init (tw_api w); w' = w\<lparr>tw_api := (tw_api w)\<lparr>aw_sent := aw_sent (tw_api w) @ [rq]\<rparr>\<rparr>
     in (case te_fetch env (aw_sent (tw_api w)) rq of Inl m \<Rightarrow> (Inl (JsError m), w') | Inr r \<Rightarrow> (Inr r, w')))"

text \<open>The parsed body, or \<open>{detail: statusText}\<close> when it is not JSON; \<open>null\<close> has no property to read.\<close>

definition file_error :: "(jsval \<Rightarrow> string) \<Rightarrow> file_reply \<Rightarrow> js_error" where
  "file_error to_text r =
     (let body = (case fr_json r of None \<Rightarrow> JObj [(''detail'', JStr (fr_status_text r))] | Some v \<Rightarrow> v) in
      if nullish body then JsError ''Cannot read properties of null (reading 'detail')''
      else ApiError (js_int (fr_status r)) (to_text (js_or (field body ''detail'') (JStr (fr_status_text r)))))"

definition finish_transfer :: "transfer_env \<Rightarrow> file_reply \<Rightarrow> file_blob transfer_op" where
  "finish_transfer env r =
     (if fr_status r = 423 then op_seq here_locked (op_throw locked_error)
      else if \<not> file_ok (fr_status r) then op_throw (file_error (he_stringify (te_host env)) r)
      else op_return \<lparr>fb_bytes = fr_bytes r, fb_type = fr_type r\<rparr>)"

definition transfer_origin_error :: js_error where
  "transfer_origin_error = JsError ''Transfers must stay on this workspace''"

definition transfer_once :: "transfer_env \<Rightarrow> string \<Rightarrow> request_init \<Rightarrow> file_blob transfer_op" where
  "transfer_once env path init =
     (if \<not> transfer_path path then op_throw transfer_origin_error
      else if he_native (te_host env) then native_transfer env path init
      else op_bind (fetch_file env path init) (finish_transfer env))"

definition transfer :: "transfer_env \<Rightarrow> string \<Rightarrow> request_init \<Rightarrow> file_blob transfer_op" where
  "transfer env path init =
     (if \<not> transfer_path path then op_throw transfer_origin_error
      else if he_native (te_host env) then native_transfer env path init
      else op_bind (fetch_file env path init) (\<lambda>r.
             if fr_status r = 401 \<and> \<not> starts_with ''/auth/'' path
             then op_seq (in_api (refresh_session (te_host env))) (transfer_once env path init)
             else finish_transfer env r))"

text \<open>The link that saves a blob under a name.\<close>

record saved_file =
  sf_name :: string
  sf_blob :: file_blob

definition download :: "transfer_env \<Rightarrow> string \<Rightarrow> string \<Rightarrow> saved_file transfer_op" where
  "download env path name = op_bind (transfer env path no_init) (\<lambda>b. op_return \<lparr>sf_name = name, sf_blob = b\<rparr>)"

section \<open>What a transfer does\<close>

lemma in_pieces_all: "offset + 8192 * k \<ge> length bytes \<Longrightarrow> in_pieces k bytes offset = drop offset bytes"
proof (induction k arbitrary: offset)
  case (Suc k)
  then have "in_pieces k bytes (offset + 8192) = drop (offset + 8192) bytes" by simp
  moreover have "take 8192 (drop offset bytes) @ drop (offset + 8192) bytes = drop offset bytes"
    by (metis add.commute append_take_drop_id drop_drop)
  ultimately show ?case by simp
qed simp

lemma binary_string_all [simp]: "binary_string bytes = bytes"
  unfolding binary_string_def by (subst in_pieces_all) simp_all

text \<open>C33. What the shell receives decodes to the body's own bytes, whatever they are and however many pieces
  they took; and what it answers is decoded to what it encoded.\<close>

theorem native_bytes_intact:
  assumes "te_request env path init = Inr (bytes, kind)" "body_truthy (in_body init)" "length bytes \<le> transfer_limit"
    "\<And>sent c. te_binary env sent c = Inr \<lparr>br_status = 200, br_body = btoa answer, br_type = mime\<rparr>"
  shows "fst (native_binary env path init w) = Inr (200, \<lparr>fb_bytes = answer, fb_type = mime\<rparr>)
    \<and> (\<exists>c t. tw_binary (snd (native_binary env path init w)) = tw_binary w @ [c] \<and> bc_body c = Some t \<and> atob t = Some bytes)"
  using assms by (simp add: native_binary_def Let_def op_run atob_btoa)

definition echo_env :: transfer_env where
  "echo_env = \<lparr>te_host = \<lparr>he_native = True, he_locks = True, he_channel = False, he_cookie = \<lambda>_. [], he_fetch = \<lambda>_ _. FetchTimeout,
      he_request = \<lambda>_ _. Inl [], he_invoke = \<lambda>_ _. Inl [], he_parse = \<lambda>_. Inl [], he_stringify = \<lambda>_. [],
      he_decode_uri = \<lambda>s. s, he_encode_uri = \<lambda>s. s\<rparr>,
    te_request = \<lambda>_ _. Inr (''abc'', None), te_binary = \<lambda>_ _. Inr \<lparr>br_status = 200, br_body = btoa ''ok'', br_type = ''text/plain''\<rparr>,
    te_fetch = \<lambda>_ _. Inl []\<rparr>"

definition no_world :: transfer_world where
  "no_world = \<lparr>tw_api = \<lparr>aw_sent = [], aw_invoked = [], aw_events = [], aw_posted = []\<rparr>, tw_binary = []\<rparr>"

definition post_init :: request_init where
  "post_init = \<lparr>in_method = Some ''POST'', in_headers = [], in_body = Some BinaryBody\<rparr>"

theorem native_bytes_intact_witness:
  "fst (native_binary echo_env ''/x'' post_init no_world) = Inr (200, \<lparr>fb_bytes = ''ok'', fb_type = ''text/plain''\<rparr>)
    \<and> (\<exists>c t. tw_binary (snd (native_binary echo_env ''/x'' post_init no_world)) = tw_binary no_world @ [c] \<and> bc_body c = Some t \<and> atob t = Some ''abc'')"
  by (rule native_bytes_intact) (simp_all add: echo_env_def post_init_def transfer_limit_def)

text \<open>A body above the limit never reaches the shell.\<close>

lemma oversized_refused:
  assumes "te_request env path init = Inr (bytes, kind)" "body_truthy (in_body init)" "length bytes > transfer_limit"
  shows "native_binary env path init w = (Inl (JsError ''Transfer exceeds 64 MiB''), w)"
  using assms by (simp add: native_binary_def)

definition told_locked :: "transfer_world \<Rightarrow> bool" where
  "told_locked w \<longleftrightarrow> ''termx-session-locked'' \<in> set (aw_events (tw_api w))"

lemma here_locked_run: "here_locked w = (Inr (), w\<lparr>tw_api := (tw_api w)\<lparr>aw_events := aw_events (tw_api w) @ [''termx-session-locked'']\<rparr>\<rparr>)"
  by (simp add: here_locked_def in_api_def dispatch_event_def)

lemma finish_locked: "fst (finish_transfer env r w) = Inl locked_error \<Longrightarrow> fr_status r = 423 \<Longrightarrow> told_locked (snd (finish_transfer env r w))"
  by (simp add: finish_transfer_def op_run here_locked_run told_locked_def)

text \<open>A file that comes back is the body of a successful answer: an error page is never saved as the file.\<close>

lemma file_request_path: "rq_path (file_request env path init a) = path"
  by (simp add: file_request_def)

lemma once_blob:
  "\<not> he_native (te_host env) \<Longrightarrow> fst (transfer_once env path init w) = Inr b
    \<Longrightarrow> \<exists>sent rq r. rq_path rq = path \<and> transfer_path path \<and> te_fetch env sent rq = Inr r \<and> file_ok (fr_status r) \<and> b = \<lparr>fb_bytes = fr_bytes r, fb_type = fr_type r\<rparr>"
  by (rule exI [of _ "aw_sent (tw_api w)"], rule exI [of _ "file_request env path init (tw_api w)"])
    (auto simp: transfer_once_def fetch_file_def finish_transfer_def op_run Let_def here_locked_run file_request_path
      split: sum.splits if_splits)

theorem only_successful_files:
  assumes "\<not> he_native (te_host env)" "fst (transfer env path init w) = Inr b"
  shows "\<exists>sent rq r. rq_path rq = path \<and> transfer_path path \<and> te_fetch env sent rq = Inr r \<and> file_ok (fr_status r)
    \<and> b = \<lparr>fb_bytes = fr_bytes r, fb_type = fr_type r\<rparr>"
proof (cases "te_fetch env (aw_sent (tw_api w)) (file_request env path init (tw_api w))")
  case (Inl m)
  then show ?thesis using assms by (simp add: transfer_def fetch_file_def op_run Let_def split: if_splits)
next
  case (Inr r)
  let ?w = "w\<lparr>tw_api := (tw_api w)\<lparr>aw_sent := aw_sent (tw_api w) @ [file_request env path init (tw_api w)]\<rparr>\<rparr>"
  show ?thesis
  proof (cases "fr_status r = 401 \<and> \<not> starts_with ''/auth/'' path")
    case True
    then have "fst (op_seq (in_api (refresh_session (te_host env))) (transfer_once env path init) ?w) = Inr b"
      using assms Inr by (simp add: transfer_def fetch_file_def op_run Let_def split: if_splits)
    then obtain v where "fst (transfer_once env path init v) = Inr b"
      by (auto simp: op_run split: prod.splits sum.splits)
    then show ?thesis using once_blob assms(1) by blast
  next
    case False
    then have "fst (transfer_once env path init w) = Inr b"
      using assms Inr by (simp add: transfer_def transfer_once_def fetch_file_def op_run Let_def split: if_splits)
    then show ?thesis using once_blob assms(1) by blast
  qed
qed

definition page_env :: transfer_env where
  "page_env = echo_env\<lparr>te_host := (te_host echo_env)\<lparr>he_native := False\<rparr>,
    te_fetch := \<lambda>_ _. Inr \<lparr>fr_status = 200, fr_status_text = ''OK'', fr_json = None, fr_bytes = ''data'', fr_type = ''text/plain''\<rparr>\<rparr>"

theorem only_successful_files_witness:
  "\<exists>sent rq r. rq_path rq = ''/f'' \<and> transfer_path ''/f'' \<and> te_fetch page_env sent rq = Inr r \<and> file_ok (fr_status r)
    \<and> \<lparr>fb_bytes = ''data'', fb_type = ''text/plain''\<rparr> = \<lparr>fb_bytes = fr_bytes r, fb_type = fr_type r\<rparr>"
  by (rule only_successful_files [where init = no_init and w = no_world])
    (simp_all add: page_env_def echo_env_def transfer_def transfer_path_def starts_with_def fetch_file_def Let_def op_run finish_transfer_def file_ok_def)

text \<open>The guard of a transfer is weaker than that of a request: a backslash, which browsers read as a
  slash, passes it.\<close>

lemma backslash_passes: "transfer_path (''/'' @ [CHR 0x5C] @ ''host'') \<and> \<not> same_origin (''/'' @ [CHR 0x5C] @ ''host'')"
  by code_simp

end
