(* ===== verification/Updater.thy ===== *)
theory Updater
  imports JsPrelude
begin

text \<open>
  \<open>bootstrap/updater.js\<close>: the update window. It polls the native updater every half second and
  renders its snapshot; one button carries the next action. Numbers are exact; \<open>to_fixed\<close> is
  \<open>Number.prototype.toFixed\<close>. The table of phases is an object literal, so a phase named like a
  member of \<open>Object.prototype\<close> finds a function, whose destructuring throws.
\<close>

record update_snapshot =
  us_phase :: string
  us_current :: "string option"
  us_version :: "string option"
  us_notes :: "string option"
  us_error :: "string option"
  us_windows :: bool
  us_downloaded :: rat
  us_total :: "rat option"

record phase_row =
  ph_title :: string
  ph_description :: string
  ph_label :: string
  ph_next :: "string option"

definition row :: "string \<Rightarrow> string \<Rightarrow> string \<Rightarrow> string option \<Rightarrow> phase_row" where
  "row t d l n = \<lparr>ph_title = t, ph_description = d, ph_label = l, ph_next = n\<rparr>"

definition ell :: "string \<Rightarrow> string" where
  "ell s = s @ [CHR 0x85]"

definition quote_s :: "string \<Rightarrow> string \<Rightarrow> string" where
  "quote_s a b = a @ CHR 0x92 # b"

definition update_states :: "(string \<times> phase_row) list" where
  "update_states =
     [(''idle'', row ''Check for updates'' ''Get the latest improvements for Termx Desktop.'' ''Check for updates'' (Some ''check'')),
      (''checking'', row (ell ''Checking for updates'') ''Connecting to the Termx release service.'' (ell ''Checking'') None),
      (''current'', row (quote_s ''You'' ''re up to date'') (quote_s ''You'' ''re running the latest available version of Termx Desktop.'')
         ''Check again'' (Some ''check'')),
      (''available'', row ''An update is available'' (quote_s ''Download the latest version. You'' ''ll choose when to install it.'')
         ''Download update'' (Some ''download'')),
      (''downloading'', row (ell ''Downloading update'') ''You can continue working while the update downloads.'' (ell ''Downloading'') None),
      (''verifying'', row (ell ''Verifying download'') (quote_s ''Checking the update'' ''s signature before it can be installed.'')
         (ell ''Verifying'') None),
      (''downloaded'', row ''Ready to install'' ''The download is verified. Save your work before installing.'' ''Install update'' (Some ''install'')),
      (''installing'', row (ell ''Installing update'') ''Applying the verified update. Please keep Termx open.'' (ell ''Installing'') None),
      (''ready'', row ''Restart to finish'' ''The update is installed. Save your work, then restart Termx to use the new version.''
         ''Restart Termx'' (Some ''restart'')),
      (''restarting'', row (ell ''Restarting Termx'') ''Your updated workspace will open shortly.'' (ell ''Restarting'') None),
      (''error'', row (quote_s ''Update couldn'' ''t finish'')
         ''Check your connection and try again. The details below explain which step failed.'' ''Try again'' (Some ''check''))]"

definition error_row :: phase_row where
  "error_row = row (quote_s ''Update couldn'' ''t finish'')
     ''Check your connection and try again. The details below explain which step failed.'' ''Try again'' (Some ''check'')"

text \<open>\<open>states[phase] || states.error\<close>, \<open>Inl\<close> when the value is not iterable.\<close>

definition phase_lookup :: "string \<Rightarrow> js_error + phase_row" where
  "phase_lookup p =
     (case map_of update_states p of
        Some r \<Rightarrow> Inr r
      | None \<Rightarrow> if p \<in> set object_prototype then Inl (JsError ''object is not iterable'') else Inr error_row)"

definition sizes :: "(nat \<Rightarrow> rat \<Rightarrow> string) \<Rightarrow> rat \<Rightarrow> string" where
  "sizes to_fixed bytes =
     (if bytes < 1048576 then to_fixed 0 (bytes / 1024) @ '' KB'' else to_fixed 1 (bytes / 1048576) @ '' MB'')"

text \<open>The window: its elements, and the variables of the script.\<close>

record update_window =
  uw_title :: string
  uw_description :: string
  uw_current :: string
  uw_available :: string
  uw_available_hidden :: bool
  uw_notes :: string
  uw_notes_hidden :: bool
  uw_error :: string
  uw_error_hidden :: bool
  uw_progress_hidden :: bool
  uw_progress :: "(rat \<times> rat) option"
  uw_bytes :: string
  uw_status :: string
  uw_label :: string
  uw_disabled :: bool
  uw_hint :: string
  uw_action :: "string option"
  uw_sending :: bool
  uw_action_error :: string
  uw_sent :: "string list"

definition busy_phases :: "string list" where
  "busy_phases = [''checking'', ''downloading'', ''verifying'', ''installing'', ''restarting'']"

definition known_total :: "update_snapshot \<Rightarrow> rat option" where
  "known_total s =
     (case us_total s of
        Some t \<Rightarrow> if us_phase s = ''downloading'' \<and> t > 0 then Some t else None
      | None \<Rightarrow> None)"

definition percent :: "update_snapshot \<Rightarrow> rat \<Rightarrow> int" where
  "percent s t = min 100 \<lfloor>us_downloaded s / t * 100\<rfloor>"

definition bytes_text :: "(nat \<Rightarrow> rat \<Rightarrow> string) \<Rightarrow> update_snapshot \<Rightarrow> string" where
  "bytes_text to_fixed s =
     (if us_phase s = ''downloading''
      then sizes to_fixed (us_downloaded s) @
        (case known_total s of
           Some t \<Rightarrow> '' of '' @ sizes to_fixed t @ CHR '' '' # CHR 0xB7 # '' '' @ int_text (percent s t) @ ''%''
         | None \<Rightarrow> '' downloaded '' @ CHR 0xB7 # '' total size not provided'')
      else [])"

definition status_line :: "update_snapshot \<Rightarrow> string \<Rightarrow> string" where
  "status_line s title =
     (if truthy_text (us_version s) then ''Termx '' @ the (us_version s) @ CHR '' '' # CHR 0xB7 # CHR '' '' # title else title)"

definition render_update ::
  "(nat \<Rightarrow> rat \<Rightarrow> string) \<Rightarrow> update_snapshot \<Rightarrow> update_window \<Rightarrow> js_error + update_window" where
  "render_update to_fixed s w =
     (case phase_lookup (us_phase s) of
        Inl e \<Rightarrow> Inl e
      | Inr r \<Rightarrow>
          Inr (w\<lparr>uw_title := ph_title r,
            uw_description := (if us_windows s \<and> us_phase s = ''downloaded''
              then ''Save your work. Installing will close Termx and launch the Windows installer.'' else ph_description r),
            uw_current := or_text (us_current s) [CHR 0x97],
            uw_available_hidden := \<not> truthy_text (us_version s),
            uw_available := or_text (us_version s) [],
            uw_notes_hidden := \<not> truthy_text (us_notes s),
            uw_notes := or_text (us_notes s) [],
            uw_error_hidden := \<not> (truthy_text (us_error s) \<or> uw_action_error w \<noteq> []),
            uw_error := or_text (us_error s) (uw_action_error w),
            uw_progress_hidden := us_phase s \<notin> set busy_phases,
            uw_progress := map_option (\<lambda>t. (min (us_downloaded s) t, t)) (known_total s),
            uw_bytes := bytes_text to_fixed s,
            uw_status := status_line s (ph_title r),
            uw_action := ph_next r,
            uw_label := ph_label r,
            uw_disabled := (uw_sending w \<or> ph_next r = None),
            uw_hint := (if us_phase s \<in> {''installing'', ''restarting''} then ''Please wait for this step to finish.''
              else ''You can close this window. Reopen Check for Updates to return here.'')\<rparr>))"

text \<open>\<open>refresh\<close>, with the answer of the native updater; a failure of \<open>render\<close> counts as one.\<close>

definition load_failed :: "js_error \<Rightarrow> update_window \<Rightarrow> update_window" where
  "load_failed e w = w\<lparr>uw_title := ''Could not load update status'', uw_error_hidden := False,
     uw_error := error_message e, uw_label := ''Reconnect'', uw_disabled := uw_sending w, uw_action := Some ''reconnect''\<rparr>"

definition refresh_window ::
  "(nat \<Rightarrow> rat \<Rightarrow> string) \<Rightarrow> js_error + update_snapshot \<Rightarrow> update_window \<Rightarrow> update_window" where
  "refresh_window to_fixed reply w =
     (case reply of
        Inl e \<Rightarrow> load_failed e w
      | Inr s \<Rightarrow> (case render_update to_fixed s w of Inl e \<Rightarrow> load_failed e w | Inr v \<Rightarrow> v))"

definition click_action :: "update_window \<Rightarrow> update_window" where
  "click_action w =
     (if uw_sending w \<or> uw_action w = None then w
      else w\<lparr>uw_sending := True, uw_disabled := True, uw_action_error := [],
             uw_sent := uw_sent w @ (if uw_action w = Some ''reconnect'' then [] else [the (uw_action w)])\<rparr>)"

text \<open>The command ends; the refresh that follows is a step of its own.\<close>

definition action_ended :: "js_error + unit \<Rightarrow> update_window \<Rightarrow> update_window" where
  "action_ended reply w =
     (if \<not> uw_sending w then w
      else w\<lparr>uw_sending := False, uw_action_error := (case reply of Inl e \<Rightarrow> error_message e | Inr _ \<Rightarrow> uw_action_error w)\<rparr>)"

definition first_window :: update_window where
  "first_window = \<lparr>uw_title = [], uw_description = [], uw_current = [], uw_available = [], uw_available_hidden = True,
     uw_notes = [], uw_notes_hidden = True, uw_error = [], uw_error_hidden = True, uw_progress_hidden = True,
     uw_progress = None, uw_bytes = [], uw_status = [], uw_label = [], uw_disabled = True, uw_hint = [],
     uw_action = None, uw_sending = False, uw_action_error = [], uw_sent = []\<rparr>"

inductive update_reachable :: "(nat \<Rightarrow> rat \<Rightarrow> string) \<Rightarrow> update_window \<Rightarrow> bool" for fx where
  "update_reachable fx first_window"
| "update_reachable fx w \<Longrightarrow> update_reachable fx (refresh_window fx r w)"
| "update_reachable fx w \<Longrightarrow> update_reachable fx (click_action w)"
| "update_reachable fx w \<Longrightarrow> update_reachable fx (action_ended r' w)"

section \<open>Properties\<close>

definition button_inv :: "update_window \<Rightarrow> bool" where
  "button_inv w \<longleftrightarrow>
     (\<not> uw_disabled w \<longrightarrow> \<not> uw_sending w \<and> uw_action w \<noteq> None) \<and>
     (uw_action w = None \<or> (uw_label w, uw_action w) = (''Reconnect'', Some ''reconnect'')
        \<or> (\<exists>(p, r) \<in> set update_states. uw_label w = ph_label r \<and> uw_action w = ph_next r))"

lemma error_row_listed: "(''error'', error_row) \<in> set update_states"
  by (simp add: update_states_def error_row_def)

lemma phase_lookup_row: "phase_lookup p = Inr r \<Longrightarrow> \<exists>q. (q, r) \<in> set update_states"
  using error_row_listed map_of_SomeD [of update_states p r]
  by (cases "map_of update_states p") (auto simp: phase_lookup_def split: if_splits)

lemma button_inv_refresh: "button_inv (refresh_window fx reply w)"
proof -
  have failed: "button_inv (load_failed e w)" for e by (simp add: button_inv_def load_failed_def)
  have rendered: "button_inv v" if v: "render_update fx s w = Inr v" for s v
  proof -
    obtain r where r: "phase_lookup (us_phase s) = Inr r"
      and v': "uw_label v = ph_label r" "uw_action v = ph_next r" "uw_disabled v = (uw_sending v \<or> ph_next r = None)"
      using v by (auto simp: render_update_def split: sum.splits)
    with phase_lookup_row [OF r] show ?thesis by (auto simp: button_inv_def)
  qed
  show ?thesis using failed rendered by (auto simp: refresh_window_def split: sum.split)
qed

lemma button_inv_reachable: "update_reachable fx w \<Longrightarrow> button_inv w"
proof (induction rule: update_reachable.induct)
  case 1
  then show ?case by (simp add: button_inv_def first_window_def)
next
  case (2 w r)
  show ?case by (rule button_inv_refresh)
next
  case (3 w)
  then show ?case by (auto simp: button_inv_def click_action_def)
next
  case (4 w r')
  then show ?case by (auto simp: button_inv_def action_ended_def)
qed

text \<open>What the button says is what a click sends, once: an enabled button sends the action that
  belongs to its label, or reconnects, and while that runs further clicks send nothing, whatever the
  polls render meanwhile.\<close>

theorem update_button_honest:
  assumes "update_reachable fx w" and "\<not> uw_disabled w"
  shows "(\<exists>a. uw_action w = Some a \<and>
      ((a = ''reconnect'' \<and> uw_label w = ''Reconnect'' \<and> uw_sent (click_action w) = uw_sent w)
       \<or> (\<exists>(p, r) \<in> set update_states. ph_next r = Some a \<and> ph_label r = uw_label w
            \<and> uw_sent (click_action w) = uw_sent w @ [a])))
    \<and> click_action (refresh_window fx reply (click_action w)) = refresh_window fx reply (click_action w)"
proof -
  have inv: "button_inv w" by (rule button_inv_reachable [OF assms(1)])
  with assms(2) obtain a where a: "uw_action w = Some a" "\<not> uw_sending w" by (auto simp: button_inv_def)
  have once: "uw_sending (refresh_window fx reply (click_action w))"
    using a by (auto simp: refresh_window_def load_failed_def render_update_def click_action_def split: sum.split)
  have rows: "\<And>p r. (p, r) \<in> set update_states \<Longrightarrow> ph_next r \<noteq> Some ''reconnect''"
    by (auto simp: update_states_def row_def)
  have "(a = ''reconnect'' \<and> uw_label w = ''Reconnect'') \<or> (\<exists>(p, r) \<in> set update_states. uw_label w = ph_label r \<and> Some a = ph_next r)"
    using inv a by (auto simp: button_inv_def)
  then show ?thesis
  proof
    assume "a = ''reconnect'' \<and> uw_label w = ''Reconnect''"
    with a have "uw_sent (click_action w) = uw_sent w" by (simp add: click_action_def)
    with \<open>a = ''reconnect'' \<and> uw_label w = ''Reconnect''\<close> a once show ?thesis by (simp add: click_action_def)
  next
    assume "\<exists>(p, r) \<in> set update_states. uw_label w = ph_label r \<and> Some a = ph_next r"
    then obtain p r where r: "(p, r) \<in> set update_states" "uw_label w = ph_label r" "ph_next r = Some a" by auto
    with rows have "a \<noteq> ''reconnect''" by blast
    with a have "uw_sent (click_action w) = uw_sent w @ [a]" by (simp add: click_action_def)
    moreover have "click_action (refresh_window fx reply (click_action w)) = refresh_window fx reply (click_action w)"
      using once by (simp add: click_action_def [of "refresh_window fx reply (click_action w)"])
    ultimately show ?thesis using a r by fastforce
  qed
qed

definition available_snapshot :: update_snapshot where
  "available_snapshot = \<lparr>us_phase = ''available'', us_current = Some ''1.0'', us_version = Some ''1.1'', us_notes = None,
     us_error = None, us_windows = False, us_downloaded = 0, us_total = None\<rparr>"

theorem update_button_honest_witness:
  "\<exists>a. uw_action (refresh_window (\<lambda>_ _. []) (Inr available_snapshot) first_window) = Some a"
proof -
  let ?w = "refresh_window (\<lambda>_ _. []) (Inr available_snapshot) first_window"
  have "update_reachable (\<lambda>_ _. []) ?w" by (intro update_reachable.intros)
  moreover have "\<not> uw_disabled ?w"
    by (simp add: refresh_window_def render_update_def phase_lookup_def update_states_def available_snapshot_def
        first_window_def row_def)
  ultimately show ?thesis using update_button_honest [of "\<lambda>_ _. []" ?w "Inr available_snapshot"] by blast
qed

text \<open>The progress bar never overflows, and the percentage is one.\<close>

lemma progress_bounds:
  assumes "us_downloaded s \<ge> 0" and "known_total s = Some t"
  shows "0 \<le> percent s t \<and> percent s t \<le> 100 \<and> min (us_downloaded s) t \<le> t"
  using assms by (auto simp: percent_def known_total_def split: option.splits if_splits)

end
