(* ===== verification/WindowHandoff.thy ===== *)
theory WindowHandoff
  imports DraftHandoff "HOL-Library.Transitive_Closure_Table"
begin

text \<open>
  Moving what a window holds into the main window: \<open>lib/window-state.ts\<close> and
  \<open>lib/artifact-drafts.ts\<close> (editor buffers and artifact drafts, merged without losing either side,
  and checked on arrival), the handshake of \<open>lib/native.ts\<close> (native windows) and of
  \<open>lib/browser-windows.ts\<close> (browser windows), and \<open>lib/lock-preservation.ts\<close>. The databases behind
  are parameters or one value per key.
\<close>

section \<open>Editor buffers\<close>

record editor_buffer =
  eb_key :: string
  eb_project :: string
  eb_path :: string
  eb_content :: string
  eb_revision :: string
  eb_editable :: bool
  eb_dirty :: bool
  eb_root :: "string option"
  eb_session :: "string option"
  eb_worktree :: "string option"

definition handoff_key :: "string \<Rightarrow> string \<Rightarrow> string" where
  "handoff_key k handoff = k @ '':handoff:'' @ handoff"

fun update_first :: "('a \<Rightarrow> bool) \<Rightarrow> 'a \<Rightarrow> 'a list \<Rightarrow> 'a list" where
  "update_first P y [] = []"
| "update_first P y (x # xs) = (if P x then y # xs else x # update_first P y xs)"

definition merge_buffer :: "string \<Rightarrow> editor_buffer list \<Rightarrow> editor_buffer \<Rightarrow> editor_buffer list" where
  "merge_buffer handoff rows b =
     (case find (\<lambda>r. eb_key r = eb_key b) rows of
        None \<Rightarrow> rows @ [b]
      | Some old \<Rightarrow>
          if eb_dirty old \<and> eb_content old \<noteq> eb_content b
          then (let k = handoff_key (eb_key b) handoff in
                if \<exists>r \<in> set rows. eb_key r = k then rows else rows @ [b\<lparr>eb_key := k\<rparr>])
          else if \<not> eb_dirty old then update_first (\<lambda>r. eb_key r = eb_key b) b rows
          else rows)"

definition merge_buffers :: "editor_buffer list \<Rightarrow> editor_buffer list \<Rightarrow> string \<Rightarrow> editor_buffer list" where
  "merge_buffers existing incoming handoff = foldl (merge_buffer handoff) existing incoming"

lemma update_first_other: "x \<in> set xs \<Longrightarrow> \<not> P x \<Longrightarrow> x \<in> set (update_first P y xs)"
  by (induction xs) auto

lemma update_first_there: "find P xs = Some x \<Longrightarrow> y \<in> set (update_first P y xs)"
  by (induction xs) (auto split: if_splits)

lemma set_update_first: "set (update_first P y xs) \<subseteq> insert y (set xs)"
  by (induction xs) auto

lemma keys_update_first: "P x \<Longrightarrow> find P xs = Some x \<Longrightarrow> f y = f x \<Longrightarrow> map f (update_first P y xs) = map f xs"
  by (induction xs) (auto split: if_splits)

definition key_set :: "editor_buffer list \<Rightarrow> string set" where
  "key_set rows = eb_key ` set rows"

lemma merge_buffer_keys:
  "distinct (map eb_key rows) \<Longrightarrow> distinct (map eb_key (merge_buffer h rows b)) \<and>
    key_set (merge_buffer h rows b) \<subseteq> insert (eb_key b) (insert (handoff_key (eb_key b) h) (key_set rows))"
proof (cases "find (\<lambda>r. eb_key r = eb_key b) rows")
  case None
  then have "eb_key b \<notin> eb_key ` set rows" by (auto simp: find_None_iff)
  then show "distinct (map eb_key rows) \<Longrightarrow> ?thesis"
    using None by (auto simp: merge_buffer_def key_set_def)
next
  case (Some old)
  then have "eb_key old = eb_key b" using find_SomeD by fast
  moreover from this Some have "map eb_key (update_first (\<lambda>r. eb_key r = eb_key b) b rows) = map eb_key rows"
    by (intro keys_update_first [where x = old]) simp_all
  moreover from this have "key_set (update_first (\<lambda>r. eb_key r = eb_key b) b rows) = key_set rows"
    unfolding key_set_def by (metis list.set_map)
  ultimately show "distinct (map eb_key rows) \<Longrightarrow> ?thesis"
    using Some by (auto simp: merge_buffer_def Let_def key_set_def)
qed

lemma merge_buffer_dirty:
  assumes "r \<in> set rows" "eb_dirty r" "distinct (map eb_key rows)"
  shows "r \<in> set (merge_buffer h rows b)"
proof (cases "find (\<lambda>x. eb_key x = eb_key b) rows")
  case None
  then show ?thesis using assms(1) by (simp add: merge_buffer_def)
next
  case (Some old)
  have "r \<in> set (update_first (\<lambda>x. eb_key x = eb_key b) b rows)" if "\<not> eb_dirty old"
  proof -
    have "r \<noteq> old" using that assms(2) by auto
    then have "eb_key r \<noteq> eb_key b"
      using assms(1,3) find_SomeD [OF Some] by (auto simp: distinct_map inj_on_def)
    then show ?thesis using assms(1) by (simp add: update_first_other)
  qed
  then show ?thesis using assms(1) Some by (simp add: merge_buffer_def Let_def)
qed

lemma merge_buffer_arrives:
  assumes "handoff_key (eb_key b) h \<notin> key_set rows"
  shows "\<exists>r \<in> set (merge_buffer h rows b). eb_content r = eb_content b \<and> eb_key r \<in> {eb_key b, handoff_key (eb_key b) h}
    \<and> (eb_dirty r \<or> \<not> eb_dirty b)"
proof (cases "find (\<lambda>x. eb_key x = eb_key b) rows")
  case None
  then show ?thesis by (auto simp: merge_buffer_def)
next
  case (Some old)
  note old = find_SomeD [OF Some]
  consider "eb_dirty old" "eb_content old \<noteq> eb_content b" | "eb_dirty old" "eb_content old = eb_content b" | "\<not> eb_dirty old"
    by blast
  then show ?thesis
  proof cases
    case 1
    moreover have "\<not> (\<exists>r \<in> set rows. eb_key r = handoff_key (eb_key b) h)"
      using assms unfolding key_set_def by (metis image_eqI)
    ultimately have "merge_buffer h rows b = rows @ [b\<lparr>eb_key := handoff_key (eb_key b) h\<rparr>]"
      using Some by (simp add: merge_buffer_def)
    then show ?thesis by auto
  next
    case 2
    then show ?thesis using Some old by (auto simp: merge_buffer_def)
  next
    case 3
    then have "b \<in> set (merge_buffer h rows b)" using Some update_first_there by (simp add: merge_buffer_def)
    then show ?thesis by blast
  qed
qed

lemma merge_dirty_stays:
  "distinct (map eb_key rows) \<Longrightarrow> r \<in> set rows \<Longrightarrow> eb_dirty r \<Longrightarrow> r \<in> set (foldl (merge_buffer h) rows bs)"
  by (induction bs arbitrary: rows) (simp_all add: merge_buffer_dirty merge_buffer_keys)

lemma merge_arrives_aux:
  assumes "distinct (map eb_key rows)" "distinct (map eb_key bs)"
    and "\<forall>b \<in> set bs. eb_dirty b" and "\<forall>b \<in> set bs. \<forall>k. handoff_key k h \<noteq> eb_key b"
    and "\<forall>b \<in> set bs. handoff_key (eb_key b) h \<notin> key_set rows" and "b \<in> set bs"
  shows "\<exists>r \<in> set (foldl (merge_buffer h) rows bs). eb_content r = eb_content b \<and> eb_key r \<in> {eb_key b, handoff_key (eb_key b) h} \<and> eb_dirty r"
  using assms
proof (induction bs arbitrary: rows)
  case (Cons c cs)
  let ?rows = "merge_buffer h rows c"
  have d: "distinct (map eb_key ?rows)" and ks: "key_set ?rows \<subseteq> insert (eb_key c) (insert (handoff_key (eb_key c) h) (key_set rows))"
    using merge_buffer_keys [OF Cons.prems(1), of h c] by simp_all
  show ?case
  proof (cases "b = c")
    case True
    then obtain r where "r \<in> set ?rows" "eb_content r = eb_content b" "eb_key r \<in> {eb_key b, handoff_key (eb_key b) h}" "eb_dirty r"
      using merge_buffer_arrives [of c h rows] Cons.prems by auto
    then show ?thesis using merge_dirty_stays [OF d] by auto
  next
    case False
    then have b: "b \<in> set cs" using Cons.prems(6) by simp
    have "\<forall>b' \<in> set cs. handoff_key (eb_key b') h \<notin> key_set ?rows"
    proof
      fix b' assume b': "b' \<in> set cs"
      then have "eb_key b' \<noteq> eb_key c" using Cons.prems(2) by (simp, metis image_eqI)
      then have "handoff_key (eb_key b') h \<noteq> handoff_key (eb_key c) h" by (simp add: handoff_key_def)
      moreover have "handoff_key (eb_key b') h \<noteq> eb_key c" using Cons.prems(4) by auto
      moreover have "handoff_key (eb_key b') h \<notin> key_set rows" using Cons.prems(5) b' by simp
      ultimately show "handoff_key (eb_key b') h \<notin> key_set ?rows" using ks by blast
    qed
    then have "\<exists>r \<in> set (foldl (merge_buffer h) ?rows cs). eb_content r = eb_content b \<and> eb_key r \<in> {eb_key b, handoff_key (eb_key b) h} \<and> eb_dirty r"
      by (intro Cons.IH) (use d Cons.prems b in auto)
    then show ?thesis by simp
  qed
qed simp


definition sample_buffer :: "string \<Rightarrow> string \<Rightarrow> bool \<Rightarrow> editor_buffer" where
  "sample_buffer k c d = \<lparr>eb_key = k, eb_project = ''p'', eb_path = ''a.py'', eb_content = c, eb_revision = ''r'', eb_editable = True, eb_dirty = d,
     eb_root = None, eb_session = None, eb_worktree = None\<rparr>"


text \<open>Receiving: what was restored, what is open now and what arrives, in this order. A frozen window
  (its state is on the way to another one) no longer writes to its database, but it still publishes.\<close>

record buffer_world =
  bw_current :: "string \<rightharpoonup> editor_buffer list"
  bw_slots :: "string \<rightharpoonup> editor_buffer list"
  bw_frozen :: bool

definition snapshot_buffers :: "string \<Rightarrow> buffer_world \<Rightarrow> editor_buffer list" where
  "snapshot_buffers owner w = (case bw_current w owner of None \<Rightarrow> [] | Some bs \<Rightarrow> bs)"

definition publish_buffers :: "string \<Rightarrow> editor_buffer list \<Rightarrow> buffer_world \<Rightarrow> buffer_world" where
  "publish_buffers owner bs w = w\<lparr>bw_current := (bw_current w)(owner \<mapsto> bs)\<rparr>"

definition slot_key :: "string \<Rightarrow> string \<Rightarrow> string" where
  "slot_key owner slot = json_strings [owner, slot]"

definition persist_buffers :: "string \<Rightarrow> string \<Rightarrow> editor_buffer list \<Rightarrow> buffer_world \<Rightarrow> buffer_world" where
  "persist_buffers slot owner bs w =
     (if bw_frozen w then w else w\<lparr>bw_slots := (bw_slots w)(slot_key owner slot \<mapsto> filter eb_dirty bs)\<rparr>)"

definition restore_buffers :: "string \<Rightarrow> string \<Rightarrow> buffer_world \<Rightarrow> editor_buffer list" where
  "restore_buffers slot owner w = (case bw_slots w (slot_key owner slot) of None \<Rightarrow> [] | Some bs \<Rightarrow> bs)"

definition drop_window_buffers :: "string \<Rightarrow> string \<Rightarrow> buffer_world \<Rightarrow> buffer_world" where
  "drop_window_buffers slot owner w = w\<lparr>bw_slots := (bw_slots w)(slot_key owner slot := None)\<rparr>"

definition receive_buffers :: "string \<Rightarrow> string \<Rightarrow> editor_buffer list \<Rightarrow> string \<Rightarrow> buffer_world \<Rightarrow> buffer_world" where
  "receive_buffers slot owner incoming handoff w =
     (let existing = merge_buffers (restore_buffers slot owner w) (snapshot_buffers owner w) ''restored'';
          merged = merge_buffers existing incoming handoff
      in publish_buffers owner merged (persist_buffers slot owner merged w))"

lemma persisted_then_restored:
  "\<not> bw_frozen w \<Longrightarrow> restore_buffers slot owner (persist_buffers slot owner bs w) = filter eb_dirty bs"
  by (simp add: persist_buffers_def restore_buffers_def)

lemma persist_other_slot:
  "(owner', slot') \<noteq> (owner, slot) \<Longrightarrow> restore_buffers slot' owner' (persist_buffers slot owner bs w) = restore_buffers slot' owner' w"
  by (auto simp: persist_buffers_def restore_buffers_def slot_key_def json_strings_inj)

section \<open>What may arrive\<close>

definition artifact_kinds :: "string list" where
  "artifact_kinds = [''document'', ''code'', ''table'', ''chart'', ''deck'']"

definition array_of :: "nat \<Rightarrow> (jsval \<Rightarrow> bool) \<Rightarrow> jsval \<Rightarrow> bool" where
  "array_of n P v = (case v of JArr vs \<Rightarrow> length vs \<le> n \<and> list_all P vs | _ \<Rightarrow> False)"

definition cell_value :: "jsval \<Rightarrow> bool" where
  "cell_value v = (case v of JStr _ \<Rightarrow> True | JNum _ \<Rightarrow> True | JNull \<Rightarrow> True | _ \<Rightarrow> False)"

definition finite_number :: "jsval \<Rightarrow> bool" where
  "finite_number v = (case v of JNum (Fin _) \<Rightarrow> True | _ \<Rightarrow> False)"

definition artifact_content :: "string \<Rightarrow> jsval \<Rightarrow> bool" where
  "artifact_content kind v =
     (if kind = ''document'' \<or> kind = ''code'' then is_str v
      else if kind = ''table'' then array_of 500 is_str (js_property v ''columns'') \<and> array_of 10000 (array_of 500 cell_value) (js_property v ''rows'')
      else if kind = ''chart'' then array_of 10000 (\<lambda>p. is_str (js_property p ''label'') \<and> finite_number (js_property p ''value'')) (js_property v ''points'')
      else kind = ''deck'' \<and> array_of 500 (\<lambda>p. is_str (js_property p ''title'') \<and> is_str (js_property p ''body'')
             \<and> (js_property p ''notes'' = JUndef \<or> is_str (js_property p ''notes''))) v)"

definition safe_integer :: "jsval \<Rightarrow> bool" where
  "safe_integer v = (case v of JNum (Fin r) \<Rightarrow> r = of_int \<lfloor>r\<rfloor> \<and> \<bar>r\<bar> \<le> 9007199254740991 | _ \<Rightarrow> False)"

definition version_of :: "jsval \<Rightarrow> int" where
  "version_of v = (case v of JNum (Fin r) \<Rightarrow> \<lfloor>r\<rfloor> | _ \<Rightarrow> 0)"

record artifact_draft =
  ar_key :: string
  ar_id :: string
  ar_project :: "string option"
  ar_title :: string
  ar_kind :: string
  ar_version :: int
  ar_content :: jsval

definition artifact_key_ok :: "string \<Rightarrow> string \<Rightarrow> bool" where
  "artifact_key_ok k i \<longleftrightarrow> k = i \<or> starts_with (i @ '':handoff:'') k"

definition read_artifact :: "(jsval \<Rightarrow> nat) \<Rightarrow> jsval \<Rightarrow> artifact_draft option" where
  "read_artifact json_length item =
     (let f = js_property item in
      if short_text 256 (f ''key'') \<and> short_text 128 (f ''artifact_id'') \<and> artifact_key_ok (text_of (f ''key'')) (text_of (f ''artifact_id''))
         \<and> (f ''project_id'' = JNull \<or> is_str (f ''project_id'')) \<and> short_text 512 (f ''title'') \<and> is_str (f ''kind'')
         \<and> text_of (f ''kind'') \<in> set artifact_kinds \<and> artifact_content (text_of (f ''kind'')) (f ''content'')
         \<and> safe_integer (f ''version'') \<and> version_of (f ''version'') \<ge> 1 \<and> json_length (f ''content'') \<le> 2097152
      then Some \<lparr>ar_key = text_of (f ''key''), ar_id = text_of (f ''artifact_id''), ar_project = opt_str (f ''project_id''), ar_title = text_of (f ''title''),
             ar_kind = text_of (f ''kind''), ar_version = version_of (f ''version''), ar_content = f ''content''\<rparr>
      else None)"

definition artifact_error :: js_error where
  "artifact_error = JsError ''Invalid artifact draft handoff''"

definition validate_artifacts :: "(jsval \<Rightarrow> nat) \<Rightarrow> jsval \<Rightarrow> js_error + artifact_draft list" where
  "validate_artifacts json_length v =
     (case v of
        JArr vs \<Rightarrow>
          if length vs > 30 \<or> json_length v > 8388608 then Inl artifact_error
          else (case all_some (map (read_artifact json_length) vs) of None \<Rightarrow> Inl artifact_error | Some rows \<Rightarrow> Inr rows)
      | _ \<Rightarrow> Inl artifact_error)"

definition artifact_value :: "artifact_draft \<Rightarrow> jsval" where
  "artifact_value a = JObj [(''key'', JStr (ar_key a)), (''artifact_id'', JStr (ar_id a)),
     (''project_id'', case ar_project a of None \<Rightarrow> JNull | Some p \<Rightarrow> JStr p), (''title'', JStr (ar_title a)), (''kind'', JStr (ar_kind a)),
     (''version'', js_int (ar_version a)), (''content'', ar_content a)]"

definition merge_artifact :: "string \<Rightarrow> artifact_draft list \<Rightarrow> artifact_draft \<Rightarrow> artifact_draft list" where
  "merge_artifact handoff rows item =
     (case find (\<lambda>r. ar_key r = ar_key item) rows of
        None \<Rightarrow> rows @ [item]
      | Some old \<Rightarrow>
          if ar_content old \<noteq> ar_content item \<or> ar_version old \<noteq> ar_version item
          then (let k = handoff_key (ar_key item) handoff in
                if \<exists>r \<in> set rows. ar_key r = k then rows
                else rows @ [item\<lparr>ar_key := k, ar_title := ar_title item @ '' (returned copy)''\<rparr>])
          else rows)"

definition merge_artifacts :: "(jsval \<Rightarrow> nat) \<Rightarrow> artifact_draft list \<Rightarrow> artifact_draft list \<Rightarrow> string \<Rightarrow> js_error + artifact_draft list" where
  "merge_artifacts json_length existing incoming handoff =
     validate_artifacts json_length (JArr (map artifact_value (foldl (merge_artifact handoff) existing incoming)))"

lemma merge_artifact_keeps: "r \<in> set rows \<Longrightarrow> r \<in> set (merge_artifact h rows b)"
  by (simp add: merge_artifact_def Let_def split: option.split)

lemma merge_artifacts_keep: "r \<in> set rows \<Longrightarrow> r \<in> set (foldl (merge_artifact h) rows bs)"
  by (induction bs arbitrary: rows) (simp_all add: merge_artifact_keeps)

text \<open>A state from another window. Only the checked shape matters to what follows: the buffers with
  their relative paths.\<close>

definition safe_path :: "string \<Rightarrow> bool" where
  "safe_path p \<longleftrightarrow> \<not> starts_with ''/'' p \<and> CHR 0x5C \<notin> set p \<and> ''..'' \<notin> set (split_on (CHR ''/'') p)"

definition valid_buffer :: "jsval \<Rightarrow> bool" where
  "valid_buffer b \<longleftrightarrow> is_record b \<and> is_str (js_property b ''key'') \<and> is_str (js_property b ''project_id'') \<and> is_str (js_property b ''path'')
     \<and> safe_path (text_of (js_property b ''path'')) \<and> short_text 2097152 (js_property b ''content'') \<and> is_str (js_property b ''revision'')
     \<and> js_property b ''dirty'' \<in> {JBool True, JBool False} \<and> js_property b ''editable'' \<in> {JBool True, JBool False}"

definition window_error :: js_error where
  "window_error = JsError ''Invalid workspace handoff''"

definition validate_window_state :: "(jsval \<Rightarrow> nat) \<Rightarrow> (jsval \<Rightarrow> nat) \<Rightarrow> jsval \<Rightarrow> js_error + jsval" where
  "validate_window_state json_length json_bytes v =
     (case v of
        JObj o' \<Rightarrow>
          if json_bytes v > 16777216 \<or> jget o' ''version'' \<noteq> js_int 1 \<or> \<not> short_text 128 (jget o' ''sessionId'')
             \<or> \<not> array_of 100 (\<lambda>_. True) (jget o' ''buffers'') then Inl window_error
          else if \<not> array_of 100 valid_buffer (jget o' ''buffers'') then Inl (JsError ''Invalid editor buffer handoff'')
          else (case (if truthy (jget o' ''draft'') then decode_draft json_bytes (jget o' ''draft'') else Inr JNull) of
                  Inl e \<Rightarrow> Inl e
                | Inr d \<Rightarrow>
                    if jget o' ''artifacts'' = JUndef then Inr (JObj (AList.update ''draft'' d o'))
                    else (case validate_artifacts json_length (jget o' ''artifacts'') of
                            Inl e \<Rightarrow> Inl e
                          | Inr rows \<Rightarrow> Inr (JObj (AList.update ''draft'' d (AList.update ''artifacts'' (JArr (map artifact_value rows)) o')))))
      | _ \<Rightarrow> Inl window_error)"

lemma jget_update: "jget (AList.update k x o') l = (if l = k then x else jget o' l)"
  by (simp add: jget_def update_conv')

text \<open>Every editor buffer an accepted window state holds has a path inside its project, at most two
  megabytes of text, and there are at most a hundred of them; its draft passed the check of drafts.\<close>

theorem window_state_safe:
  assumes "validate_window_state json_length json_bytes v = Inr w"
  shows "\<exists>o' bs. w = JObj o' \<and> jget o' ''buffers'' = JArr bs \<and> length bs \<le> 100 \<and> list_all valid_buffer bs
    \<and> (jget o' ''draft'' = JNull \<or> (\<exists>d. decode_draft json_bytes d = Inr (jget o' ''draft'')))"
proof -
  obtain f where f: "v = JObj f" "array_of 100 valid_buffer (jget f ''buffers'')"
    using assms by (auto simp: validate_window_state_def split: jsval.splits if_splits)
  then obtain bs where bs: "jget f ''buffers'' = JArr bs" "length bs \<le> 100" "list_all valid_buffer bs"
    by (auto simp: array_of_def split: jsval.splits)
  obtain d where d: "(if truthy (jget f ''draft'') then decode_draft json_bytes (jget f ''draft'') else Inr JNull) = Inr d"
    "w = JObj (AList.update ''draft'' d f) \<or> (\<exists>rows. w = JObj (AList.update ''draft'' d (AList.update ''artifacts'' rows f)))"
    using assms f by (auto simp: validate_window_state_def split: if_splits sum.splits)
  from d(2) show ?thesis
    using bs d(1) by (elim disjE exE) (force simp: jget_update split: if_splits)+
qed

definition sample_state :: jsval where
  "sample_state = JObj [(''version'', js_int 1), (''sessionId'', JStr ''c''), (''draft'', JNull),
     (''buffers'', JArr [JObj [(''key'', JStr ''a''), (''project_id'', JStr ''p''), (''path'', JStr ''src/a.py''), (''content'', JStr ''x''),
        (''revision'', JStr ''r''), (''dirty'', JBool True), (''editable'', JBool True)]])]"

theorem window_state_safe_witness:
  "\<exists>w. validate_window_state (\<lambda>_. 9) (\<lambda>_. 9) sample_state = Inr w \<and> js_length (js_property w ''buffers'') \<le> 100"
proof -
  have "safe_path ''src/a.py''" by code_simp
  then have "validate_window_state (\<lambda>_. 9) (\<lambda>_. 9) sample_state = Inr sample_state"
    by (simp add: validate_window_state_def sample_state_def array_of_def valid_buffer_def js_property_def short_text_def)
  note v = this
  from window_state_safe [OF v] obtain o' bs where o: "sample_state = JObj o'" "jget o' ''buffers'' = JArr bs" "length bs \<le> 100" by blast
  then have "js_property sample_state ''buffers'' = JArr bs" "length bs \<le> 100" unfolding o(1) js_property_def by simp_all
  with v show ?thesis by (intro exI [of _ sample_state]) (simp add: js_length_def)
qed

section \<open>Returning a native window\<close>

text \<open>\<open>requestRedock\<close>: two subscriptions, the request, and the wait. Events reach the listeners that
  are registered; a cancellation or an acknowledgement may come before the request has returned.\<close>

datatype redock_phase =
    SubscribeAccepted | SubscribeCancelled | Requesting | Waiting
  | Returned "js_error + string"

record redock =
  rd_phase :: redock_phase
  rd_accepted :: "string set"
  rd_cancelled :: "string set"
  rd_pending :: "string option"
  rd_cancels :: "string list"

definition redock_timeout :: js_error where
  "redock_timeout = JsError ''Main workspace did not acknowledge the handoff; this window remains open''"

definition redock_refused :: js_error where
  "redock_refused = JsError ''Main workspace could not safely accept the handoff; this window remains open''"

text \<open>The \<open>catch\<close>: a request that is known is cancelled, then the error goes on.\<close>

definition redock_fail :: "js_error \<Rightarrow> redock \<Rightarrow> redock" where
  "redock_fail e s = s\<lparr>rd_phase := Returned (Inl e),
     rd_cancels := (case rd_pending s of None \<Rightarrow> rd_cancels s | Some i \<Rightarrow> rd_cancels s @ [i])\<rparr>"

definition redock_decide :: "redock \<Rightarrow> redock" where
  "redock_decide s =
     (case rd_pending s of
        None \<Rightarrow> s
      | Some i \<Rightarrow> if i \<in> rd_cancelled s then redock_fail redock_refused s else s\<lparr>rd_phase := Returned (Inr i)\<rparr>)"

definition redock_accepted_event :: "string \<Rightarrow> redock \<Rightarrow> redock" where
  "redock_accepted_event i s =
     (case rd_phase s of
        SubscribeAccepted \<Rightarrow> s
      | Returned _ \<Rightarrow> s
      | Waiting \<Rightarrow> (let t = s\<lparr>rd_accepted := insert i (rd_accepted s)\<rparr> in if rd_pending s = Some i then redock_decide t else t)
      | _ \<Rightarrow> s\<lparr>rd_accepted := insert i (rd_accepted s)\<rparr>)"

definition redock_cancelled_event :: "string \<Rightarrow> redock \<Rightarrow> redock" where
  "redock_cancelled_event i s =
     (case rd_phase s of
        Requesting \<Rightarrow> s\<lparr>rd_cancelled := insert i (rd_cancelled s)\<rparr>
      | Waiting \<Rightarrow> (let t = s\<lparr>rd_cancelled := insert i (rd_cancelled s)\<rparr> in if rd_pending s = Some i then redock_decide t else t)
      | _ \<Rightarrow> s)"

definition redock_subscribed :: "js_error + unit \<Rightarrow> redock \<Rightarrow> redock" where
  "redock_subscribed r s =
     (case (rd_phase s, r) of
        (SubscribeAccepted, Inr _) \<Rightarrow> s\<lparr>rd_phase := SubscribeCancelled\<rparr>
      | (SubscribeCancelled, Inr _) \<Rightarrow> s\<lparr>rd_phase := Requesting\<rparr>
      | (SubscribeAccepted, Inl e) \<Rightarrow> redock_fail e s
      | (SubscribeCancelled, Inl e) \<Rightarrow> redock_fail e s
      | _ \<Rightarrow> s)"

definition redock_requested :: "js_error + string \<Rightarrow> redock \<Rightarrow> redock" where
  "redock_requested r s =
     (if rd_phase s \<noteq> Requesting then s
      else case r of
        Inl e \<Rightarrow> redock_fail e s
      | Inr i \<Rightarrow> (let t = s\<lparr>rd_pending := Some i\<rparr> in
          if i \<in> rd_accepted s \<or> i \<in> rd_cancelled s then redock_decide t else t\<lparr>rd_phase := Waiting\<rparr>))"

definition redock_timed_out :: "redock \<Rightarrow> redock" where
  "redock_timed_out s = (if rd_phase s = Waiting then redock_fail redock_timeout s else s)"

definition request_redock :: "bool \<Rightarrow> redock" where
  "request_redock detached = \<lparr>rd_phase = (if detached then SubscribeAccepted
       else Returned (Inl (JsError ''Only a detached native workspace can return to the main window''))),
     rd_accepted = {}, rd_cancelled = {}, rd_pending = None, rd_cancels = []\<rparr>"

inductive redock_step :: "redock \<Rightarrow> redock \<Rightarrow> bool" where
  "redock_step s (redock_accepted_event i s)"
| "redock_step s (redock_cancelled_event i s)"
| "redock_step s (redock_subscribed r s)"
| "redock_step s (redock_requested q s)"
| "redock_step s (redock_timed_out s)"

definition redock_ok :: "redock \<Rightarrow> bool" where
  "redock_ok s \<longleftrightarrow>
     (case rd_phase s of
        Waiting \<Rightarrow> (\<exists>i. rd_pending s = Some i \<and> i \<notin> rd_accepted s \<and> i \<notin> rd_cancelled s) \<and> rd_cancels s = []
      | Returned (Inr i) \<Rightarrow> rd_pending s = Some i \<and> i \<in> rd_accepted s \<and> i \<notin> rd_cancelled s \<and> rd_cancels s = []
      | Returned (Inl e) \<Rightarrow> rd_cancels s = (case rd_pending s of None \<Rightarrow> [] | Some i \<Rightarrow> [i])
      | _ \<Rightarrow> rd_pending s = None \<and> rd_cancels s = [])"

lemmas redock_defs = redock_accepted_event_def redock_cancelled_event_def redock_subscribed_def redock_requested_def
  redock_timed_out_def redock_decide_def redock_fail_def

lemma redock_ok_fail: "rd_phase s \<noteq> Returned r \<Longrightarrow> rd_cancels s = [] \<Longrightarrow> redock_ok (redock_fail e s)"
  by (simp add: redock_fail_def redock_ok_def split: option.split)

lemma redock_ok_decide:
  "rd_pending s = Some i \<Longrightarrow> i \<in> rd_accepted s \<or> i \<in> rd_cancelled s \<Longrightarrow> rd_cancels s = [] \<Longrightarrow> redock_ok (redock_decide s)"
  by (auto simp: redock_decide_def redock_fail_def redock_ok_def)

lemma redock_ok_accepted: "redock_ok s \<Longrightarrow> redock_ok (redock_accepted_event i s)"
proof (cases "rd_phase s")
  case Waiting
  assume ok: "redock_ok s"
  let ?t = "s\<lparr>rd_accepted := insert i (rd_accepted s)\<rparr>"
  from ok obtain j where j: "rd_pending s = Some j" "j \<notin> rd_accepted s" "j \<notin> rd_cancelled s" "rd_cancels s = []"
    using Waiting by (auto simp: redock_ok_def)
  show ?thesis
  proof (cases "j = i")
    case True
    then have "redock_accepted_event i s = redock_decide ?t" using Waiting j by (simp add: redock_accepted_event_def)
    then show ?thesis using redock_ok_decide [of ?t i] True j by simp
  next
    case False
    then have "redock_accepted_event i s = ?t" using Waiting j by (simp add: redock_accepted_event_def)
    then show ?thesis using False j Waiting by (simp add: redock_ok_def)
  qed
qed (simp_all add: redock_accepted_event_def redock_ok_def)

lemma redock_ok_cancelled: "redock_ok s \<Longrightarrow> redock_ok (redock_cancelled_event i s)"
proof (cases "rd_phase s")
  case Waiting
  assume ok: "redock_ok s"
  let ?t = "s\<lparr>rd_cancelled := insert i (rd_cancelled s)\<rparr>"
  from ok obtain j where j: "rd_pending s = Some j" "j \<notin> rd_accepted s" "j \<notin> rd_cancelled s" "rd_cancels s = []"
    using Waiting by (auto simp: redock_ok_def)
  show ?thesis
  proof (cases "j = i")
    case True
    then have "redock_cancelled_event i s = redock_decide ?t" using Waiting j by (simp add: redock_cancelled_event_def)
    then show ?thesis using redock_ok_decide [of ?t i] True j by simp
  next
    case False
    then have "redock_cancelled_event i s = ?t" using Waiting j by (simp add: redock_cancelled_event_def)
    then show ?thesis using False j Waiting by (simp add: redock_ok_def)
  qed
qed (simp_all add: redock_cancelled_event_def redock_ok_def)

lemma redock_ok_subscribed: "redock_ok s \<Longrightarrow> redock_ok (redock_subscribed r s)"
  by (cases "rd_phase s"; cases r) (simp_all add: redock_subscribed_def redock_fail_def redock_ok_def)

lemma redock_ok_requested: "redock_ok s \<Longrightarrow> redock_ok (redock_requested q s)"
proof (cases "rd_phase s = Requesting")
  case True
  assume "redock_ok s"
  then have r: "rd_pending s = None" "rd_cancels s = []" using True by (simp_all add: redock_ok_def)
  show ?thesis
  proof (cases q)
    case (Inl e)
    then show ?thesis using True r by (simp add: redock_requested_def redock_fail_def redock_ok_def)
  next
    case (Inr i)
    then show ?thesis
      using True r redock_ok_decide [of "s\<lparr>rd_pending := Some i\<rparr>" i] by (simp add: redock_requested_def Let_def) (simp add: redock_ok_def)
  qed
qed (simp add: redock_requested_def)

lemma redock_ok_timed_out: "redock_ok s \<Longrightarrow> redock_ok (redock_timed_out s)"
  by (auto simp: redock_timed_out_def redock_ok_def redock_fail_def)

lemma redock_ok_step: "redock_step s t \<Longrightarrow> redock_ok s \<Longrightarrow> redock_ok t"
  by (induction rule: redock_step.induct)
    (simp_all add: redock_ok_accepted redock_ok_cancelled redock_ok_subscribed redock_ok_requested redock_ok_timed_out)

lemma redock_ok_reachable: "redock_step\<^sup>*\<^sup>* (request_redock d) s \<Longrightarrow> redock_ok s"
proof (induction rule: rtranclp_induct)
  case base
  show ?case by (simp add: request_redock_def redock_ok_def)
qed (rule redock_ok_step)

text \<open>C24. A window is given up only after the main window acknowledged this very request and did not
  cancel it; every other outcome cancels the request, once, if it was made, and keeps the window.\<close>

theorem redock_only_acknowledged:
  assumes "redock_step\<^sup>*\<^sup>* (request_redock detached) s" "rd_phase s = Returned result"
  shows "case result of
      Inr i \<Rightarrow> rd_pending s = Some i \<and> i \<in> rd_accepted s \<and> i \<notin> rd_cancelled s \<and> rd_cancels s = []
    | Inl e \<Rightarrow> rd_cancels s = (case rd_pending s of None \<Rightarrow> [] | Some i \<Rightarrow> [i])"
  using redock_ok_reachable [OF assms(1)] assms(2) by (simp add: redock_ok_def)

text \<open>The acknowledgement may overtake the answer to the request.\<close>

definition early_redock :: redock where
  "early_redock = redock_requested (Inr ''r1'') (redock_accepted_event ''r1'' (redock_subscribed (Inr ()) (redock_subscribed (Inr ()) (request_redock True))))"

theorem redock_only_acknowledged_witness:
  "rd_phase early_redock = Returned (Inr ''r1'') \<and> ''r1'' \<in> rd_accepted early_redock"
proof -
  have p: "rd_phase early_redock = Returned (Inr ''r1'')"
    by (simp add: early_redock_def request_redock_def redock_defs Let_def)
  have "redock_step\<^sup>*\<^sup>* (request_redock True) early_redock"
    unfolding early_redock_def
    by (rule rtranclp.rtrancl_into_rtrancl [OF rtranclp.rtrancl_into_rtrancl [OF rtranclp.rtrancl_into_rtrancl [OF r_into_rtranclp]]]) (rule redock_step.intros)+
  from redock_only_acknowledged [OF this p] p show ?thesis by simp
qed

section \<open>Returning a browser window\<close>

record envelope =
  en_type :: string
  en_id :: string
  en_slot :: string
  en_token :: string
  en_owner :: string
  en_session :: string
  en_panel :: string
  en_payload :: jsval
  en_error :: "string option"

definition envelope_types :: "string list" where
  "envelope_types = [''termx-window-return'', ''termx-window-accepted'', ''termx-window-rejected'', ''termx-window-cancel'']"

definition window_panels :: "string list" where
  "window_panels = [''chat'', ''workbench'', ''browser'', ''computer'', ''artifacts'', ''review'', ''terminal'']"

definition read_envelope :: "jsval \<Rightarrow> envelope option" where
  "read_envelope v =
     (let f = js_property v in
      if is_record v \<and> is_str (f ''type'') \<and> text_of (f ''type'') \<in> set envelope_types \<and> short_text 128 (f ''id'') \<and> short_text 128 (f ''slot'')
         \<and> starts_with ''termx-workspace-'' (text_of (f ''slot'')) \<and> short_text 128 (f ''token'') \<and> is_str (f ''ownerId'') \<and> is_str (f ''sessionId'')
         \<and> (f ''error'' = JUndef \<or> short_text 1000 (f ''error'')) \<and> is_str (f ''panel'') \<and> text_of (f ''panel'') \<in> set window_panels
      then Some \<lparr>en_type = text_of (f ''type''), en_id = text_of (f ''id''), en_slot = text_of (f ''slot''), en_token = text_of (f ''token''),
             en_owner = text_of (f ''ownerId''), en_session = text_of (f ''sessionId''), en_panel = text_of (f ''panel''), en_payload = f ''payload'',
             en_error = opt_str (f ''error'')\<rparr>
      else None)"

text \<open>Where a message comes from: its origin, and the window that sent it as this one sees it.\<close>

record message_source =
  ms_origin :: string
  ms_window :: nat
  ms_is_self :: bool
  ms_opened_here :: bool
  ms_name :: string
  ms_same_origin :: bool

definition expected_source :: "string \<Rightarrow> string \<Rightarrow> message_source \<Rightarrow> envelope \<Rightarrow> window_record option \<Rightarrow> string \<Rightarrow> bool" where
  "expected_source origin slot src row rec owner \<longleftrightarrow>
     ms_origin src = origin \<and> en_owner row = owner \<and>
     (case rec of None \<Rightarrow> False
      | Some r \<Rightarrow> wr_owner r = owner \<and> wr_slot r = en_slot row \<and> wr_token r = Some (en_token row) \<and> wr_parent r = Some slot \<and> wr_session r = Some (en_session row))
     \<and> \<not> ms_is_self src \<and> ms_opened_here src \<and> ms_name src = en_slot row \<and> ms_same_origin src"

record pending_return =
  pr_window :: nat
  pr_message :: envelope
  pr_cancelled :: bool
  pr_deadline :: rat

record redock_listener =
  rl_pending :: "string \<rightharpoonup> pending_return"
  rl_handled :: "envelope list"
  rl_posted :: "(nat \<times> envelope) list"

text \<open>A message that passed the checks: a cancellation of its own sender marks the return, a second
  return under a number that is pending is ignored, a first one goes to the handler.\<close>

definition return_message :: "rat \<Rightarrow> message_source \<Rightarrow> envelope \<Rightarrow> redock_listener \<Rightarrow> redock_listener" where
  "return_message now src row s =
     (if en_type row = ''termx-window-cancel''
      then (case rl_pending s (en_id row) of
              None \<Rightarrow> s
            | Some p \<Rightarrow> if pr_window p = ms_window src then s\<lparr>rl_pending := (rl_pending s)(en_id row \<mapsto> p\<lparr>pr_cancelled := True\<rparr>)\<rparr> else s)
      else if en_type row \<noteq> ''termx-window-return'' \<or> rl_pending s (en_id row) \<noteq> None then s
      else s\<lparr>rl_pending := (rl_pending s)(en_id row \<mapsto> \<lparr>pr_window = ms_window src, pr_message = row, pr_cancelled = False, pr_deadline = now + 45000\<rparr>),
             rl_handled := rl_handled s @ [row]\<rparr>)"

definition accepted_reply :: "envelope \<Rightarrow> envelope" where
  "accepted_reply row = row\<lparr>en_type := ''termx-window-accepted'', en_payload := JUndef\<rparr>"

definition rejected_reply :: "string \<Rightarrow> envelope \<Rightarrow> envelope" where
  "rejected_reply m row = row\<lparr>en_type := ''termx-window-rejected'', en_payload := JUndef, en_error := Some (take 1000 m)\<rparr>"

text \<open>The handler is done: validation, the conversation's own check, persisting, or any error of them.\<close>

definition return_handled :: "rat \<Rightarrow> string \<Rightarrow> js_error + unit \<Rightarrow> redock_listener \<Rightarrow> redock_listener" where
  "return_handled now i outcome s =
     (case rl_pending s i of
        None \<Rightarrow> s
      | Some p \<Rightarrow>
          (let t = s\<lparr>rl_pending := (rl_pending s)(i := None)\<rparr> in
           if pr_cancelled p then t
           else case outcome of
             Inr _ \<Rightarrow> if now > pr_deadline p then t else t\<lparr>rl_posted := rl_posted s @ [(pr_window p, accepted_reply (pr_message p))]\<rparr>
           | Inl e \<Rightarrow> t\<lparr>rl_posted := rl_posted s @ [(pr_window p, rejected_reply (error_message e) (pr_message p))]\<rparr>))"

text \<open>An acknowledgement is sent only for a return the handler took, to the window it came from, in
  time, and not once that window has withdrawn it.\<close>

theorem acknowledged_in_time:
  assumes "rl_posted (return_handled now i outcome s) = rl_posted s @ [(w, row)]" "en_type row = ''termx-window-accepted''"
  shows "outcome = Inr () \<and> (\<exists>p. rl_pending s i = Some p \<and> \<not> pr_cancelled p \<and> now \<le> pr_deadline p \<and> w = pr_window p
    \<and> row = accepted_reply (pr_message p)) \<and> rl_pending (return_handled now i outcome s) i = None"
  using assms by (auto simp: return_handled_def rejected_reply_def Let_def split: option.splits if_splits sum.splits)

definition sample_envelope :: envelope where
  "sample_envelope = \<lparr>en_type = ''termx-window-return'', en_id = ''m1'', en_slot = ''termx-workspace-2'', en_token = ''t'', en_owner = ''ana'',
     en_session = ''c'', en_panel = ''chat'', en_payload = JNull, en_error = None\<rparr>"

definition sample_source :: message_source where
  "sample_source = \<lparr>ms_origin = ''https://h'', ms_window = 7, ms_is_self = False, ms_opened_here = True, ms_name = ''termx-workspace-2'', ms_same_origin = True\<rparr>"

definition idle_listener :: redock_listener where
  "idle_listener = \<lparr>rl_pending = Map.empty, rl_handled = [], rl_posted = []\<rparr>"

theorem acknowledged_in_time_witness:
  "rl_pending (return_handled 9 ''m1'' (Inr ()) (return_message 0 sample_source sample_envelope idle_listener)) ''m1'' = None"
proof -
  have "rl_posted (return_handled 9 ''m1'' (Inr ()) (return_message 0 sample_source sample_envelope idle_listener))
      = rl_posted (return_message 0 sample_source sample_envelope idle_listener) @ [(7, accepted_reply sample_envelope)]"
    by (simp add: return_handled_def return_message_def sample_source_def sample_envelope_def idle_listener_def Let_def)
  from acknowledged_in_time [OF this] show ?thesis by (simp add: accepted_reply_def)
qed

text \<open>The window that returns: it asks only an opener that is there and a record that names it, and
  takes an answer only from that opener, about its own message.\<close>

definition may_return :: "bool \<Rightarrow> window_record option \<Rightarrow> bool" where
  "may_return opener_open rec \<longleftrightarrow> opener_open \<and> (case rec of None \<Rightarrow> False | Some r \<Rightarrow> truthy_text (wr_token r) \<and> truthy_text (wr_parent r))"

definition return_reply :: "string \<Rightarrow> nat \<Rightarrow> envelope \<Rightarrow> message_source \<Rightarrow> envelope \<Rightarrow> (js_error + unit) option" where
  "return_reply origin opener msg src row =
     (if ms_origin src \<noteq> origin \<or> ms_window src \<noteq> opener \<or> en_id row \<noteq> en_id msg \<or> en_token row \<noteq> en_token msg \<or> en_slot row \<noteq> en_slot msg
         \<or> en_owner row \<noteq> en_owner msg \<or> en_session row \<noteq> en_session msg then None
      else if en_type row = ''termx-window-accepted'' then Some (Inr ())
      else if en_type row = ''termx-window-rejected''
      then Some (Inl (JsError (or_text (en_error row) ''The main workspace could not accept this state.'' @ '' Review both windows; this window remains open.'')))
      else None)"

definition cancel_envelope :: "envelope \<Rightarrow> envelope" where
  "cancel_envelope row = row\<lparr>en_type := ''termx-window-cancel'', en_payload := JUndef\<rparr>"

definition cancel_browser_redock :: "bool \<Rightarrow> string \<Rightarrow> (string \<rightharpoonup> envelope) \<Rightarrow> envelope list \<times> (string \<rightharpoonup> envelope)" where
  "cancel_browser_redock opener i accepted =
     ((case accepted i of None \<Rightarrow> [] | Some row \<Rightarrow> if opener then [cancel_envelope row] else []), accepted(i := None))"

text \<open>Committing: the account and the conversation are checked again before anything is dropped.\<close>

definition commit_browser_redock ::
  "js_error + string \<Rightarrow> js_error + unit \<Rightarrow> js_error + unit \<Rightarrow> string \<Rightarrow> (string \<rightharpoonup> envelope) \<Rightarrow> (js_error + unit) \<times> bool \<times> (string \<rightharpoonup> envelope)" where
  "commit_browser_redock auth session dropped i accepted =
     (case accepted i of
        None \<Rightarrow> (Inl (JsError ''Workspace handoff was not acknowledged''), False, accepted)
      | Some row \<Rightarrow>
          (case auth of
             Inl e \<Rightarrow> (Inl e, False, accepted)
           | Inr who \<Rightarrow>
               if who \<noteq> en_owner row then (Inl (JsError ''Workspace handoff principal changed''), False, accepted)
               else case session of
                 Inl e \<Rightarrow> (Inl e, False, accepted)
               | Inr _ \<Rightarrow> (case dropped of Inl e \<Rightarrow> (Inl e, False, accepted) | Inr _ \<Rightarrow> (Inr (), True, accepted(i := None)))))"

text \<open>The second component tells that the window closed.\<close>

theorem commit_only_own_account:
  assumes "commit_browser_redock auth session dropped i accepted = (r, True, accepted')"
  shows "\<exists>row. accepted i = Some row \<and> auth = Inr (en_owner row) \<and> session = Inr () \<and> dropped = Inr () \<and> accepted' i = None"
  using assms by (auto simp: commit_browser_redock_def split: option.splits sum.splits if_splits)

theorem commit_only_own_account_witness:
  "\<exists>row. [''m1'' \<mapsto> sample_envelope] ''m1'' = Some row \<and> en_owner row = ''ana''"
proof -
  have "commit_browser_redock (Inr ''ana'') (Inr ()) (Inr ()) ''m1'' [''m1'' \<mapsto> sample_envelope] = (Inr (), True, Map.empty)"
    by (simp add: commit_browser_redock_def sample_envelope_def)
  from commit_only_own_account [OF this] show ?thesis by (simp add: sample_envelope_def)
qed

section \<open>Before the lock\<close>

text \<open>\<open>preserveBeforeLock\<close>: every store is tried; an error becomes a warning. The conversation writes
  are those that ended before the deadline, in the order they ended. \<open>String(error)\<close> names the class.\<close>

type_synonym 'w attempt = "'w \<Rightarrow> (js_error + unit) \<times> 'w"

fun run_noting :: "'w attempt list \<Rightarrow> 'w \<Rightarrow> string list \<times> 'w" where
  "run_noting [] w = ([], w)"
| "run_noting (f # fs) w =
     (let (r, w1) = f w; (ws, w2) = run_noting fs w1 in ((case r of Inl e \<Rightarrow> error_text e # ws | Inr _ \<Rightarrow> ws), w2))"

definition deadline_warning :: string where
  "deadline_warning = ''Conversation autosave is still pending; local drafts remain preserved.''"

definition preserve_before_lock :: "'w attempt \<Rightarrow> 'w attempt \<Rightarrow> 'w attempt list \<Rightarrow> 'w attempt list \<Rightarrow> bool \<Rightarrow> 'w \<Rightarrow> string list \<times> 'w" where
  "preserve_before_lock buffers artifacts drafts flushes timed_out w =
     (let (ws, w') = run_noting ([buffers, artifacts] @ drafts @ flushes) w in (ws @ (if timed_out then [deadline_warning] else []), w'))"

fun run_all :: "'w attempt list \<Rightarrow> 'w \<Rightarrow> 'w" where
  "run_all [] w = w"
| "run_all (f # fs) w = run_all fs (snd (f w))"

lemma run_noting_all: "snd (run_noting fs w) = run_all fs w"
  by (induction fs arbitrary: w) (simp_all add: split_beta Let_def)

lemma run_noting_length: "length (fst (run_noting fs w)) \<le> length fs"
  by (induction fs arbitrary: w) (simp_all add: split_beta Let_def le_SucI split: sum.split)

text \<open>No failure of one store keeps the others from being written, and the lock is never held up:
  the result is always there, with one warning at most for each attempt and one for the deadline.\<close>

theorem lock_preserves_all:
  "snd (preserve_before_lock buffers artifacts drafts flushes timed_out w) = run_all ([buffers, artifacts] @ drafts @ flushes) w
   \<and> length (fst (preserve_before_lock buffers artifacts drafts flushes timed_out w)) \<le> 3 + length drafts + length flushes"
  using run_noting_all [of "[buffers, artifacts] @ drafts @ flushes" w] run_noting_length [of "[buffers, artifacts] @ drafts @ flushes" w]
  by (auto simp: preserve_before_lock_def split_beta)

end
