(* ===== verification/Spec2Isabelle.thy ===== *)
theory Spec2Isabelle
  imports AccessPolicy AccountForms AgentPresets AiElements ApiClient ApiTypes ApprovalCards Base64
    BrowserGrant ChangeReview Characters ChatConnections ChatPanel Composer ControlPlane ConversationView
    Docking DraftHandoff Effects FileReferences FileUris ForkContext HookSettings HostService
    JsPrelude LanguageServer LocalIntents McpManager McpReceipts ModelControls OneAtATime OrchestratorAdoption
    OrchestratorDecisions OrchestratorStatus Preferences PromptInput PromptQueue ProviderAccounts ReasoningEffort ScheduleRuns
    Schedules Sending SessionCache SessionChanges SessionFence SessionSettings SessionWrites SettingsDrafts
    SettingsShell TaskPresentation TaskSupervisor ToolActivity ToolCalls ToolViews Transfers Updater
    View WebStorage WindowHandoff WriteLock
begin

text \<open>
  Verification library of the desktop workspace of TermXMob, the React application under
  \<open>src/desktop/workspace/src\<close> (\<open>lib/\<close>, \<open>features/\<close> and \<open>components/\<close> below are relative to
  it), and of the update window \<open>src/desktop/bootstrap/updater.js\<close>.

  \<^bold>\<open>The program.\<close> The workspace is one page, in a browser or in a desktop shell, that shows the
  conversations, tasks and files of a host. \<open>lib/api.ts\<close> sends every request; it refreshes the
  session, announces a sign-out or a lock and never replays a mutation. \<open>lib/workspace-data.ts\<close>
  keeps the conversations it polled, \<open>lib/session-writes.ts\<close> queues what is written to them, and
  \<open>lib/session-fence.ts\<close> lets a result in only under the identity it was asked with. On top of
  these the panels read, review and decide; windows can be detached and returned, drafts move with
  them, and everything local is kept in the browser's storage by account. The behaviour that recurs
  everywhere is the same: an answer comes late, after a lock, a sign-out or another selection, and
  must then have no effect.

  \<^bold>\<open>Foundations.\<close>
  \<^item> \<open>JsPrelude\<close>: values of JavaScript, numbers, texts, errors, and association lists as \<open>Map\<close>s,
    with the lemmas on grouping events by a key that the presentations share.
  \<^item> \<open>Effects\<close>: asynchronous operations that may throw, with the rules for what they preserve.
  \<^item> \<open>View\<close>: what a component renders, and \<open>offers\<close>, the actions a user can raise in it.
  \<^item> \<open>WebStorage\<close>: texts in a storage, their JSON, and the locale \<open>owner_store\<close> of values kept by
    account, interpreted in \<open>Docking\<close>, \<open>Preferences\<close> and \<open>LocalIntents\<close>.
  \<^item> \<open>SessionFence\<close>: the fence and the locale \<open>generation_fence\<close> of counters that only rise,
    interpreted in \<open>SessionCache\<close>, \<open>SessionWrites\<close>, \<open>SessionChanges\<close>, \<open>AccessPolicy\<close> and
    \<open>OrchestratorStatus\<close>.
  \<^item> \<open>OneAtATime\<close>: the locale \<open>one_at_a_time\<close> of components that keep a ledger of what they asked and a
    flag while one answer is awaited, interpreted in \<open>ChatConnections\<close>, \<open>PromptQueue\<close>, \<open>AgentPresets\<close>,
    \<open>ProviderAccounts\<close>, \<open>HostService\<close>, \<open>ControlPlane\<close>, \<open>ToolCalls\<close>, \<open>ForkContext\<close>, \<open>ScheduleRuns\<close> and, for controls
    and for teams, in \<open>TaskSupervisor\<close>.

  \<^bold>\<open>Requests and conversations.\<close>
  \<^item> \<open>ApiTypes\<close>, \<open>ApiClient\<close> (\<open>lib/api.ts\<close>, \<open>lib/native.ts\<close>): requests, refresh, GraphQL, sign-out.
    The transport is the environment; requests are counted, because there is no retry loop.
  \<^item> \<open>SessionCache\<close> (\<open>lib/workspace-data.ts\<close>): the cache as a state machine whose flights are
    answered in any order, with the budget and the rotation of its polls.
  \<^item> \<open>SessionWrites\<close> (\<open>lib/session-writes.ts\<close>): the queue as a step relation; it refines a lock per
    conversation.
  \<^item> \<open>ToolActivity\<close>, \<open>TaskPresentation\<close>, \<open>AiElements\<close>, \<open>ToolViews\<close>, \<open>FileReferences\<close>,
    \<open>ConversationView\<close>: from the events of a run to what a message shows and offers.
  \<^item> \<open>ReasoningEffort\<close> (\<open>features/ReasoningPicker.tsx\<close>): the effort of the next turn, written
    through the queue of \<open>SessionWrites\<close>.
  \<^item> \<open>Composer\<close> (\<open>features/Chat.tsx\<close>, \<open>lib/drafts.ts\<close>): the draft of the conversation shown, its autosave and
    its sending, every continuation a step; \<open>Sending\<close> proves over all sequences of steps that a request
    the host has not taken is repeated as it was, that a conversation has one submission at a time, and
    that no typed text is lost.
  \<^item> \<open>ChatPanel\<close>, \<open>PromptInput\<close> (\<open>components/ai-elements/prompt-input.tsx\<close>): stopping, changing
    settings, attaching images and what the composer offers; \<open>ChatConnections\<close>
    (\<open>features/ChatConnectionSetup.tsx\<close>): what keeps a conversation from being sent to;
    \<open>PromptQueue\<close> (\<open>features/PromptQueue.tsx\<close>): the follow-ups that wait.
  \<^item> \<open>SessionSettings\<close> (\<open>features/SessionSettings.tsx\<close>, \<open>features/PresetPicker.tsx\<close>), \<open>ModelControls\<close>
    (\<open>features/SessionModelControls.tsx\<close>), \<open>ForkContext\<close> (\<open>features/ForkContextDialog.tsx\<close>): the settings of a
    conversation, its account and model, and forks of it that are reviewed first.

  \<^bold>\<open>Decisions and settings.\<close>
  \<^item> \<open>ApprovalCards\<close> (\<open>features/BudgetApproval.tsx\<close>, \<open>features/GeneralApprovalCard.tsx\<close>),
    \<open>OrchestratorStatus\<close>, \<open>OrchestratorDecisions\<close>, \<open>OrchestratorAdoption\<close>: what may be decided,
    for whom, and how often it is sent.
  \<^item> \<open>HookSettings\<close> (\<open>features/HookSettings.tsx\<close>): reviews and writes of lifecycle hooks whose
    outcome can stay unknown, over registries that outlive the panel.
  \<^item> \<open>AccessPolicy\<close>, \<open>AccountForms\<close>, \<open>SettingsShell\<close>: limits, memories, pairing, sign-out, and the
    capture of every click inside the settings.
  \<^item> \<open>SettingsDrafts\<close> (\<open>features/SettingsSurface.tsx\<close>), \<open>AgentPresets\<close> (\<open>features/AgentPresetEditor.tsx\<close>),
    \<open>ProviderAccounts\<close> (\<open>features/ProviderAccountForm.tsx\<close>), \<open>HostService\<close>
    (\<open>features/HostServiceSettings.tsx\<close>): what counts as unsaved, what the forms send and how often.
  \<^item> \<open>Updater\<close>: the update window.

  \<^bold>\<open>Tasks, tools and schedules.\<close>
  \<^item> \<open>TaskSupervisor\<close> (\<open>features/TaskSupervisor.tsx\<close>), \<open>ControlPlane\<close> (\<open>features/ControlPlane.tsx\<close>): the tree of
    a task, its controls and teams; the runs of the host, their order and their polling.
  \<^item> \<open>McpReceipts\<close>, \<open>McpManager\<close>, \<open>ToolCalls\<close> (\<open>features/McpManager.tsx\<close>): connections and tool calls; a receipt
    is stored before a call and taken away when its outcome is known, so that no call is repeated blindly.
  \<^item> \<open>BrowserGrant\<close> (\<open>features/ScheduleBrowserPermission.tsx\<close>), \<open>Schedules\<close>, \<open>ScheduleRuns\<close>
    (\<open>features/ScheduleManager.tsx\<close>): scheduled tasks. An operation belongs to the epoch of its project; a creation keeps its
    request id until it succeeded. \<open>ScheduleRuns\<close> holds the steps and proves one operation at a time, one request id for one
    creation, and that nothing runs unattended without the consent and the permission that were shown.

  \<^bold>\<open>Windows, drafts and local state.\<close>
  \<^item> \<open>DraftHandoff\<close>, \<open>WindowHandoff\<close>: drafts and windows that move, both sides of the protocol,
    and what is preserved before a lock.
  \<^item> \<open>Docking\<close>, \<open>Preferences\<close>, \<open>LocalIntents\<close>: layouts, key bindings, terminal frames, favourites,
    pins, media requests, sidebar, theme and reading position.
  \<^item> \<open>ChangeReview\<close>, \<open>SessionChanges\<close>: patches, workspace paths, and the changes of a checkout.
  \<^item> \<open>LanguageServer\<close>, \<open>FileUris\<close>, \<open>Base64\<close>, \<open>Transfers\<close>, \<open>Characters\<close>: the language client,
    URIs and positions, binary transfers, and the animated companions.

  \<^bold>\<open>How code becomes definitions.\<close> A component's state is a record, with a React state and a
  \<open>useRef\<close> as fields; an effect, a handler and the continuation after each \<open>await\<close> are functions on
  it. What runs between two awaits is one step, as in JavaScript. A promise in the air is an entry of a
  list, answered by its index, so that answers come in any order or never. A component's view is a
  function of its state. Texts are lists of 8-bit characters; where the code counts UTF-16 units or
  bytes of JSON that count is an argument. Numbers are exact.

  \<^bold>\<open>Bounds and fuel.\<close> Recursions are structural or have a measure. \<open>list_sessions\<close> follows pages as long
  as the host serves them: it is \<open>partial_function\<close>, and it is proved to return when there are finitely
  many. The depth of delegated agents is the code's own limit of five. Every other number (64 nodes of a
  poll, 8 sources, 30 layouts, 100 buffers, four images) is a constant of the source.

  \<^bold>\<open>Not modelled.\<close> The composition of the panels (\<open>App.tsx\<close>, \<open>features/Workbench.tsx\<close>) and, of
  \<open>features/Chat.tsx\<close>, its scrolling and its dialog of renaming are not modelled. Nor are the forms of a tool
  connection and of its credential, delivery, and the managers of extensions, groups, safety, runners and
  cloud machines, which are forms and lists over routes of the host. The browser, computer and terminal
  surfaces are drawing, media and emulation of the browser. The host in Python and the desktop shell in Rust are other programs: here
  they answer arbitrarily. \<open>src/desktop/web\<close> is a generated bundle. React's scheduling, Markdown, the
  docking library and the icons are third-party code; where the code relies on one of them it is an
  argument of the definition.

  \<^bold>\<open>Defects shown.\<close> \<open>TaskPresentation.canonical_category_inherited\<close>, \<open>ConversationView.loading_left_on\<close>,
  \<open>Transfers.backslash_passes\<close>, \<open>ChatPanel.uploads_overwrite\<close> and \<open>ChatPanel.upload_ignores_switch\<close> state behaviour the code does not mean to have.
\<close>

end
